(* ===== verification/Prelude.thy ===== *)
theory Prelude
  imports Main "HOL-Library.Sublist"
begin

text \<open>
  Shared vocabulary of the development.

  \<^item> Time: every \<open>datetime\<close> of the control plane is UTC; it is modelled as the number of
    microseconds since the epoch (\<open>stamp\<close>), which is the resolution of Python's \<open>datetime\<close>.
  \<^item> Tables: a table of the control database is the list of its rows in insertion order.
    \<open>sql_update\<close>, \<open>sql_delete\<close>, \<open>rowcount\<close> and \<open>sql_first\<close> are the \<open>UPDATE .. WHERE\<close>,
    \<open>DELETE .. WHERE\<close>, \<open>CursorResult.rowcount\<close> and \<open>SELECT .. WHERE\<close> (first row) of the SQL
    statements the sources issue through SQLAlchemy.
  \<^item> Errors: a Python exception is the left value of a sum.
  \<^item> Machines: a component with state is a step function over events; \<open>machine\<close> is the interface
    "every step keeps the invariant" from which invariants of all runs follow.
\<close>

type_synonym stamp = int
type_synonym ident = string

abbreviation seconds :: "int \<Rightarrow> int" where "seconds n \<equiv> n * 1000000"
abbreviation minutes :: "int \<Rightarrow> int" where "minutes n \<equiv> seconds (n * 60)"
abbreviation hours :: "int \<Rightarrow> int" where "hours n \<equiv> minutes (n * 60)"
abbreviation days :: "int \<Rightarrow> int" where "days n \<equiv> hours (n * 24)"

named_theorems table_simps "rewrite rules for the table operations"

section \<open>Tables\<close>

definition sql_update :: "('r \<Rightarrow> bool) \<Rightarrow> ('r \<Rightarrow> 'r) \<Rightarrow> 'r list \<Rightarrow> 'r list" where
  "sql_update P f rows = map (\<lambda>r. if P r then f r else r) rows"

definition sql_delete :: "('r \<Rightarrow> bool) \<Rightarrow> 'r list \<Rightarrow> 'r list" where
  "sql_delete P rows = filter (\<lambda>r. \<not> P r) rows"

definition rowcount :: "('r \<Rightarrow> bool) \<Rightarrow> 'r list \<Rightarrow> nat" where
  "rowcount P rows = length (filter P rows)"

definition sql_first :: "('r \<Rightarrow> bool) \<Rightarrow> 'r list \<Rightarrow> 'r option" where
  "sql_first P rows = List.find P rows"

text \<open>Inserting a row under a primary key: the database refuses a duplicate.\<close>

definition sql_insert :: "('r \<Rightarrow> 'k) \<Rightarrow> 'r \<Rightarrow> 'r list \<Rightarrow> 'r list option" where
  "sql_insert key r rows = (if key r \<in> key ` set rows then None else Some (rows @ [r]))"

lemma set_sql_update [table_simps]:
  "set (sql_update P f rows) = {r \<in> set rows. \<not> P r} \<union> f ` {r \<in> set rows. P r}"
  by (auto simp: sql_update_def)

lemma set_sql_delete [table_simps]: "set (sql_delete P rows) = {r \<in> set rows. \<not> P r}"
  by (auto simp: sql_delete_def)

lemma sql_update_Nil [simp]: "sql_update P f [] = []"
  by (simp add: sql_update_def)

lemma sql_update_Cons [simp]:
  "sql_update P f (r # rows) = (if P r then f r else r) # sql_update P f rows"
  by (simp add: sql_update_def)

lemma length_sql_update [simp]: "length (sql_update P f rows) = length rows"
  by (simp add: sql_update_def)

lemma in_sql_updateE:
  assumes "r \<in> set (sql_update P f rows)"
  obtains (same) "r \<in> set rows" and "\<not> P r"
    | (updated) r0 where "r0 \<in> set rows" and "P r0" and "r = f r0"
  using assms by (auto simp: table_simps)

lemma map_sql_update:
  assumes "\<And>r. key (f r) = key r"
  shows "map key (sql_update P f rows) = map key rows"
  using assms by (simp add: sql_update_def)

lemma key_sql_update:
  assumes "\<And>r. key (f r) = key r"
  shows "key ` set (sql_update P f rows) = key ` set rows"
  using map_sql_update [of key f P rows, OF assms] by (metis list.set_map)

lemma distinct_sql_delete: "distinct (map key rows) \<Longrightarrow> distinct (map key (sql_delete P rows))"
  by (induction rows) (auto simp: sql_delete_def)

lemma sql_update_none: "\<forall>r \<in> set rows. \<not> P r \<Longrightarrow> sql_update P f rows = rows"
  by (induction rows) auto

lemma rowcount_zero [table_simps]: "rowcount P rows = 0 \<longleftrightarrow> (\<forall>r \<in> set rows. \<not> P r)"
  by (simp add: rowcount_def filter_empty_conv)

lemma sql_first_update:
  assumes "\<And>x. P x \<Longrightarrow> P (f x)"
  shows "sql_first P (sql_update P f rows) = map_option f (sql_first P rows)"
  using assms by (induction rows) (auto simp: sql_first_def sql_update_def)

lemma sql_first_new: "\<forall>r \<in> set rows. \<not> P r \<Longrightarrow> P r' \<Longrightarrow> sql_first P (rows @ [r']) = Some r'"
  by (induction rows) (auto simp: sql_first_def)

lemma rowcount_pos: "rowcount P rows \<noteq> 0 \<longleftrightarrow> (\<exists>r \<in> set rows. P r)"
  by (auto simp: table_simps)

lemma rowcount_append [simp]: "rowcount P (xs @ ys) = rowcount P xs + rowcount P ys"
  by (simp add: rowcount_def)

lemma rowcount_Cons [simp]: "rowcount P (x # xs) = (if P x then 1 else 0) + rowcount P xs"
  by (simp add: rowcount_def)

lemma rowcount_Nil [simp]: "rowcount P [] = 0"
  by (simp add: rowcount_def)

lemma rowcount_mono: "(\<And>r. r \<in> set rows \<Longrightarrow> P r \<Longrightarrow> Q r) \<Longrightarrow> rowcount P rows \<le> rowcount Q rows"
  by (induction rows) auto

lemma rowcount_cong: "(\<And>r. r \<in> set rows \<Longrightarrow> P r = Q r) \<Longrightarrow> rowcount P rows = rowcount Q rows"
  by (induction rows) auto

lemma rowcount_sql_delete:
  "rowcount P (sql_delete Q rows) = rowcount (\<lambda>r. P r \<and> \<not> Q r) rows"
  by (induction rows) (auto simp: sql_delete_def)

lemma rowcount_sql_update:
  "rowcount P (sql_update Q f rows) = rowcount (\<lambda>r. if Q r then P (f r) else P r) rows"
  by (induction rows) auto

text \<open>A statement that selects by a unique key touches at most one row.\<close>

lemma rowcount_le_one:
  assumes "distinct (map key rows)" and "\<And>r. P r \<Longrightarrow> key r = k"
  shows "rowcount P rows \<le> 1"
  using assms(1)
proof (induction rows)
  case (Cons r rows)
  have "rowcount P rows = 0" if "P r"
    using Cons.prems that by (auto simp: table_simps dest!: assms(2)) (metis image_eqI)
  then show ?case using Cons by auto
qed simp

lemma rowcount_one_ex: "rowcount P rows = 1 \<Longrightarrow> \<exists>r \<in> set rows. P r"
  using rowcount_pos [of P rows] by simp

lemma unique_row:
  assumes "distinct (map key rows)" and "r \<in> set rows" and "r' \<in> set rows" and "key r = key r'"
  shows "r = r'"
  using assms by (metis distinct_map inj_onD)

lemma sql_first_Some:
  assumes "sql_first P rows = Some r"
  shows "r \<in> set rows" and "P r"
  using assms by (auto simp: sql_first_def find_Some_iff)

lemma sql_first_None [table_simps]: "sql_first P rows = None \<longleftrightarrow> (\<forall>r \<in> set rows. \<not> P r)"
  by (auto simp: sql_first_def find_None_iff)

lemma sql_first_unique:
  assumes "distinct (map key rows)" and "r \<in> set rows" and "key r = k"
  shows "sql_first (\<lambda>x. key x = k) rows = Some r"
proof (cases "sql_first (\<lambda>x. key x = k) rows")
  case None
  with assms show ?thesis by (auto simp: table_simps)
next
  case (Some x)
  then have "x \<in> set rows" and "key x = k" by (auto dest: sql_first_Some)
  with assms Some show ?thesis by (metis unique_row)
qed

lemma sql_insert_Some:
  assumes "sql_insert key r rows = Some rows'"
  shows "rows' = rows @ [r]" and "key r \<notin> key ` set rows"
  using assms by (auto simp: sql_insert_def split: if_splits)

lemma distinct_sql_insert:
  "sql_insert key r rows = Some rows' \<Longrightarrow> distinct (map key rows) \<Longrightarrow> distinct (map key rows')"
  by (auto simp: sql_insert_def split: if_splits)

text \<open>Identifiers a handler mints are arguments; this is the next one of a list of them.\<close>

definition first_id :: "ident list \<Rightarrow> ident" where
  "first_id ids = (case ids of [] \<Rightarrow> [] | i # _ \<Rightarrow> i)"

section \<open>Results\<close>

text \<open>Sequencing of computations that may raise: the first error wins.\<close>

definition bind_res :: "('e + 'a) \<Rightarrow> ('a \<Rightarrow> 'e + 'b) \<Rightarrow> 'e + 'b" where
  "bind_res m f = (case m of Inl e \<Rightarrow> Inl e | Inr x \<Rightarrow> f x)"

lemma bind_res_simps [simp]:
  "bind_res (Inl e) f = Inl e" "bind_res (Inr x) f = f x"
  by (simp_all add: bind_res_def)

lemma bind_res_Inr: "bind_res m f = Inr y \<longleftrightarrow> (\<exists>x. m = Inr x \<and> f x = Inr y)"
  by (cases m) auto

definition of_option :: "'e \<Rightarrow> 'a option \<Rightarrow> 'e + 'a" where
  "of_option e x = (case x of None \<Rightarrow> Inl e | Some v \<Rightarrow> Inr v)"

lemma of_option_simps [simp]: "of_option e None = Inl e" "of_option e (Some v) = Inr v"
  by (simp_all add: of_option_def)

lemma of_option_Inr: "of_option e m = Inr x \<longleftrightarrow> m = Some x"
  by (cases m) auto

section \<open>Machines\<close>

locale machine =
  fixes step :: "'e \<Rightarrow> 's \<Rightarrow> 's"
    and inv :: "'s \<Rightarrow> bool"
  assumes step_inv: "inv s \<Longrightarrow> inv (step e s)"
begin

lemma run_inv: "inv s \<Longrightarrow> inv (fold step es s)"
  by (induction es arbitrary: s) (auto intro: step_inv)

text \<open>The invariant holds at every prefix of a run.\<close>

lemma prefix_inv: "inv s \<Longrightarrow> prefix ps es \<Longrightarrow> inv (fold step ps s)"
  by (rule run_inv)

end

text \<open>A machine whose steps also move along a preorder (a quantity that never goes back, a flag
  that is never cleared).\<close>

locale monotone_machine = machine +
  fixes le :: "'s \<Rightarrow> 's \<Rightarrow> bool"
  assumes le_refl: "le s s"
    and le_trans: "le s t \<Longrightarrow> le t u \<Longrightarrow> le s u"
    and step_le: "inv s \<Longrightarrow> le s (step e s)"
begin

lemma run_le: "inv s \<Longrightarrow> le s (fold step es s)"
proof (induction es arbitrary: s)
  case (Cons e es)
  from Cons.prems have "le s (step e s)" by (rule step_le)
  moreover have "le (step e s) (fold step es (step e s))"
    using Cons step_inv by blast
  ultimately show ?case using le_trans by simp
qed (simp add: le_refl)

end

text \<open>A component whose steps are a relation (several may be possible, each with any outcome), with a quantity
  that every step moves along a preorder.\<close>

locale transitions =
  fixes trans :: "'s \<Rightarrow> 's \<Rightarrow> bool"
    and tinv :: "'s \<Rightarrow> bool"
    and later :: "'s \<Rightarrow> 's \<Rightarrow> bool"
  assumes trans_inv: "tinv s \<Longrightarrow> trans s t \<Longrightarrow> tinv t"
    and trans_later: "tinv s \<Longrightarrow> trans s t \<Longrightarrow> later s t"
    and later_refl: "later s s"
    and later_trans: "later s t \<Longrightarrow> later t u \<Longrightarrow> later s u"
begin

lemma reach_inv_later: "trans\<^sup>*\<^sup>* s t \<Longrightarrow> tinv s \<Longrightarrow> tinv t \<and> later s t"
proof (induction rule: rtranclp_induct)
  case base
  then show ?case by (simp add: later_refl)
next
  case (step t u)
  then show ?case using trans_inv trans_later later_trans by blast
qed

end

lemma rowcount_list_update:
  assumes "i < length xs"
  shows "rowcount P (xs[i := y]) + (if P (xs ! i) then 1 else 0) = rowcount P xs + (if P y then 1 else 0)"
  using assms
proof (induction xs arbitrary: i)
  case (Cons x xs)
  then show ?case by (cases i) auto
qed simp

lemma case_option_ex: "(case x of None \<Rightarrow> False | Some i \<Rightarrow> P i) = (\<exists>i. x = Some i \<and> P i)"
  by (cases x) simp_all

end
