(* ===== verification/ControlModel.thy ===== *)
theory ControlModel
  imports Prelude
begin

text \<open>
  The control plane database (\<^verbatim>\<open>app/control/models.py\<close>): one record per SQLAlchemy model, one table
  (list of rows) per model in \<open>cdb\<close>. Columns keep their meaning and order; the field names carry a
  prefix because record fields are global. Nullable columns are options, a \<open>String\<close> column that holds
  one of a fixed set of values the code compares against is a datatype (\<open>Job.status\<close>,
  \<open>OAuthCode.status\<close>, \<open>OAuthToken.kind\<close>) and every other string is a \<open>string\<close>. Roles and scopes stay
  strings, since the code looks them up with a fallback for unknown values.
\<close>

section \<open>Values of JSON columns and audit metadata\<close>

datatype pyval =
    PNone
  | PBool bool
  | PInt int
  | PStr string
  | PList "pyval list"
  | PSet "string list"
  | POther string

type_synonym pydict = "(string \<times> pyval) list"

section \<open>Rows\<close>

record org =
  o_id :: ident
  o_slug :: string
  o_name :: string
  o_plan :: string
  o_dpa_accepted_at :: "stamp option"
  o_dpa_version :: "string option"
  o_locale :: string
  o_retention_days :: int
  o_llm_narrative :: bool
  o_created_at :: stamp

record user =
  u_id :: ident
  u_email :: string
  u_name :: "string option"
  u_locale :: string
  u_created_at :: stamp

record membership =
  m_org :: ident
  m_user :: ident
  m_role :: string
  m_created_at :: stamp

record api_key =
  k_id :: ident
  k_org :: ident
  k_name :: string
  k_prefix :: string
  k_hash :: string
  k_scopes :: "string list"
  k_created_by :: "ident option"
  k_created_at :: stamp
  k_expires_at :: "stamp option"
  k_last_used_at :: "stamp option"
  k_revoked_at :: "stamp option"

record magic_link =
  ml_token_hash :: string
  ml_email :: string
  ml_created_at :: stamp
  ml_expires_at :: stamp
  ml_used_at :: "stamp option"
  ml_nonce_hash :: "string option"

record session =
  s_id :: string
  s_user :: ident
  s_org :: "ident option"
  s_csrf_token :: string
  s_created_at :: stamp
  s_expires_at :: stamp

record invitation =
  i_id :: ident
  i_org :: ident
  i_email :: string
  i_role :: string
  i_token_hash :: string
  i_invited_by :: "ident option"
  i_created_at :: stamp
  i_expires_at :: stamp
  i_accepted_at :: "stamp option"

record upload =
  up_id :: ident
  up_org :: ident
  up_kind :: string
  up_filename :: string
  up_bytes :: int
  up_sha256 :: string
  up_path :: string
  up_created_at :: stamp
  up_retention_until :: stamp

datatype job_status = Queued | Running | Succeeded | Failed | Cancelled

record job =
  j_id :: ident
  j_org :: ident
  j_pipeline :: string
  j_status :: job_status
  j_progress :: int
  j_message :: "string option"
  j_run :: "ident option"
  j_upload :: "ident option"
  j_client_name :: "string option"
  j_force_mock :: bool
  j_created_by :: "string option"
  j_created_at :: stamp
  j_started_at :: "stamp option"
  j_finished_at :: "stamp option"
  j_error_code :: "string option"
  j_period_from :: "int option"
  j_period_to :: "int option"

record run_record =
  rr_id :: ident
  rr_org :: ident
  rr_pipeline :: string
  rr_status :: string
  rr_job :: "ident option"
  rr_sha_html :: "string option"
  rr_sha_md :: "string option"
  rr_sha_json :: "string option"
  rr_period_from :: "int option"
  rr_period_to :: "int option"
  rr_report_purged_at :: "stamp option"
  rr_created_at :: stamp

record audit_event =
  ae_id :: ident
  ae_org :: "ident option"
  ae_actor_type :: string
  ae_actor :: "ident option"
  ae_action :: string
  ae_target :: "string option"
  ae_ip :: "string option"
  ae_ts :: stamp
  ae_meta :: pydict

record usage_counter =
  uc_org :: ident
  uc_period :: string
  uc_runs :: int
  uc_upload_bytes :: int

record webhook =
  w_id :: ident
  w_org :: ident
  w_url :: string
  w_secret_hash :: string
  w_events :: "string list"
  w_active :: bool
  w_created_at :: stamp

record org_schedule =
  os_org :: ident
  os_reminder_enabled :: bool
  os_reminder_weekday :: int
  os_reminder_hour :: int
  os_timezone :: string
  os_skip_if_recent :: bool
  os_auto_run :: bool
  os_notify_on_finish :: bool
  os_webhook_url :: "string option"
  os_webhook_kind :: string
  os_next_reminder_at :: "stamp option"
  os_last_reminder_at :: "stamp option"
  os_updated_at :: "stamp option"

record oauth_client =
  oc_id :: ident
  oc_name :: "string option"
  oc_redirect_uris :: "string list"
  oc_info :: pydict
  oc_created_at :: stamp
  oc_expires_at :: "stamp option"
  oc_revoked_at :: "stamp option"

datatype code_status = CPending | CApproved | CExchanged | CDenied | CExpired

record oauth_code =
  ac_id :: ident
  ac_client :: ident
  ac_org :: "ident option"
  ac_user :: "ident option"
  ac_hash :: "string option"
  ac_scopes :: "string list"
  ac_challenge :: string
  ac_redirect_uri :: string
  ac_redirect_explicit :: bool
  ac_state :: "string option"
  ac_resource :: "string option"
  ac_status :: code_status
  ac_created_at :: stamp
  ac_expires_at :: stamp
  ac_exchanged_at :: "stamp option"

record oauth_grant =
  g_id :: ident
  g_client :: ident
  g_org :: ident
  g_user :: "ident option"
  g_scopes :: "string list"
  g_resource :: "string option"
  g_created_at :: stamp
  g_revoked_at :: "stamp option"
  g_revocation_reason :: "string option"
  g_lock_seq :: int

datatype token_kind = Access | Refresh

record oauth_token =
  t_id :: ident
  t_kind :: token_kind
  t_hash :: string
  t_client :: ident
  t_grant :: "ident option"
  t_org :: ident
  t_user :: "ident option"
  t_scopes :: "string list"
  t_resource :: "string option"
  t_parent :: "ident option"
  t_created_at :: stamp
  t_expires_at :: "stamp option"
  t_revoked_at :: "stamp option"
  t_rotated_at :: "stamp option"
  t_last_used_at :: "stamp option"

section \<open>The database\<close>

record cdb =
  orgs :: "org list"
  users :: "user list"
  memberships :: "membership list"
  api_keys :: "api_key list"
  magic_links :: "magic_link list"
  sessions :: "session list"
  invitations :: "invitation list"
  uploads :: "upload list"
  jobs :: "job list"
  run_records :: "run_record list"
  audit_events :: "audit_event list"
  usage_counters :: "usage_counter list"
  webhooks :: "webhook list"
  org_schedules :: "org_schedule list"
  oauth_clients :: "oauth_client list"
  oauth_codes :: "oauth_code list"
  oauth_grants :: "oauth_grant list"
  oauth_tokens :: "oauth_token list"

definition empty_cdb :: cdb where
  "empty_cdb = \<lparr>orgs = [], users = [], memberships = [], api_keys = [], magic_links = [],
     sessions = [], invitations = [], uploads = [], jobs = [], run_records = [], audit_events = [],
     usage_counters = [], webhooks = [], org_schedules = [], oauth_clients = [], oauth_codes = [],
     oauth_grants = [], oauth_tokens = []\<rparr>"

section \<open>Lookups by primary key\<close>

definition get_org :: "ident \<Rightarrow> cdb \<Rightarrow> org option" where
  "get_org k db = sql_first (\<lambda>r. o_id r = k) (orgs db)"

definition get_user :: "ident \<Rightarrow> cdb \<Rightarrow> user option" where
  "get_user k db = sql_first (\<lambda>r. u_id r = k) (users db)"

definition get_membership :: "ident \<Rightarrow> ident \<Rightarrow> cdb \<Rightarrow> membership option" where
  "get_membership org_id user_id db =
     sql_first (\<lambda>r. m_org r = org_id \<and> m_user r = user_id) (memberships db)"

definition get_job :: "ident \<Rightarrow> cdb \<Rightarrow> job option" where
  "get_job k db = sql_first (\<lambda>r. j_id r = k) (jobs db)"

definition get_upload :: "ident \<Rightarrow> cdb \<Rightarrow> upload option" where
  "get_upload k db = sql_first (\<lambda>r. up_id r = k) (uploads db)"

definition get_usage :: "ident \<Rightarrow> string \<Rightarrow> cdb \<Rightarrow> usage_counter option" where
  "get_usage org_id period db =
     sql_first (\<lambda>r. uc_org r = org_id \<and> uc_period r = period) (usage_counters db)"

definition get_oauth_client :: "ident \<Rightarrow> cdb \<Rightarrow> oauth_client option" where
  "get_oauth_client k db = sql_first (\<lambda>r. oc_id r = k) (oauth_clients db)"

definition get_oauth_code :: "ident \<Rightarrow> cdb \<Rightarrow> oauth_code option" where
  "get_oauth_code k db = sql_first (\<lambda>r. ac_id r = k) (oauth_codes db)"

definition get_oauth_grant :: "ident \<Rightarrow> cdb \<Rightarrow> oauth_grant option" where
  "get_oauth_grant k db = sql_first (\<lambda>r. g_id r = k) (oauth_grants db)"

lemmas get_defs = get_org_def get_user_def get_membership_def get_job_def get_upload_def
  get_usage_def get_oauth_client_def get_oauth_code_def get_oauth_grant_def

end
