(* ===== verification/AuditTrail.thy ===== *)
theory AuditTrail
  imports ControlModel PyText
begin

text \<open>
  Audit events (\<^verbatim>\<open>app/control/audit.py\<close>): the allowlist of metadata keys and of actions, the
  sanitising of metadata values, and \<open>record_event\<close>, which adds a row to \<open>audit_events\<close> and decides
  whether a line goes to the tenant's audit file. The identifier (\<open>new_ulid()\<close>) and the time stamp
  are arguments; the line is what \<open>_write_line\<close> passes to \<open>append_audit_line\<close>.
\<close>

section \<open>Errors of the request handlers\<close>

text \<open>A \<open>ProblemError\<close> (status and code), an error of the OAuth SDK (class and RFC code) or another
  Python exception (its class name). A handler maps the database to a result and the database after
  it: what was committed before an exception stays, what was not is rolled back.\<close>

datatype exc = Problem nat string | OAuthError string string | PyRaise string

type_synonym 'a handler = "cdb \<Rightarrow> (exc + 'a) \<times> cdb"

section \<open>Metadata\<close>

definition AUDIT_META_KEYS :: "string list" where
  "AUDIT_META_KEYS =
     [''pipeline'', ''run_id'', ''job_id'', ''upload_id'', ''kind'', ''bytes'', ''sha256'',
      ''role'', ''scope'', ''scopes'', ''reason'', ''status'', ''status_code'', ''attempt'',
      ''delivery_id'', ''event'', ''webhook_id'', ''key_prefix'', ''plan'', ''retention_days'',
      ''llm_narrative'', ''fmt'', ''ok'', ''error_type'', ''email_hash'', ''active'', ''count'',
      ''tool'', ''duration_ms'', ''key_id'', ''sent'', ''recipients'', ''skipped_reason'',
      ''fields'', ''client_id'', ''grant'', ''resource'', ''prompt'', ''channel'',
      ''period_from'', ''period_to'', ''weeks'']"

definition AUDIT_ACTIONS_V1 :: "string list" where
  "AUDIT_ACTIONS_V1 =
     [''org.created'', ''org.updated'', ''org.deleted'', ''member.added'', ''member.invited'',
      ''member.removed'', ''member.role_changed'', ''invitation.revoked'', ''key.created'',
      ''key.revoked'', ''upload.created'', ''job.created'', ''job.cancelled'', ''run.finished'',
      ''webhook.created'', ''webhook.deleted'', ''upload.purged'', ''report.purged'',
      ''webhook.delivery'', ''webhook.delivered'', ''webhook.failed'', ''auth.login'',
      ''auth.logout'', ''auth_denied'', ''upload.purge_failed'', ''report.purge_failed'',
      ''mcp.tool'', ''mcp.resource'', ''mcp.prompt'', ''schedule.updated'', ''schedule.reminder'',
      ''schedule.auto_run_skipped'', ''schedule.notified'', ''schedule.webhook_notified'',
      ''oauth.client_registered'', ''oauth.consent'', ''oauth.token_issued'',
      ''oauth.token_revoked'', ''restore.sessions_deleted'', ''restore.magic_links_consumed'',
      ''restore.oauth_codes_expired'', ''restore.api_keys_revoked'',
      ''restore.oauth_grants_revoked'', ''restore.oauth_tokens_revoked'',
      ''restore.oauth_clients_revoked'', ''restore.invitations_deleted'',
      ''restore.webhooks_disabled'', ''restore.reminders_disabled'',
      ''restore.schedule_webhooks_disabled'', ''restore.jobs_cancelled'',
      ''restore.run_notifications_disabled'', ''restore.auto_runs_disabled'',
      ''restore.member_removed'', ''restore.member_demoted'', ''restore.reconcile.org_deleted'',
      ''restore.reconcile.user_deleted'', ''restore.reconcile.email_updated'',
      ''restore.reconcile.member_removed'', ''restore.reconcile.member_demoted'',
      ''restore.reconcile.invitation_deleted'', ''restore.reconcile.key_revoked'',
      ''restore.reconcile.grant_revoked'', ''restore.reconcile.token_revoked'',
      ''restore.reconcile.client_revoked'', ''restore.reconcile.webhook_deleted'',
      ''restore.reconcile.webhook_updated'', ''restore.reconcile.schedule_deleted'',
      ''restore.reconcile.schedule_updated'', ''restore.reconcile.upload_deleted'',
      ''restore.reconcile.run_deleted'', ''restore.reconcile.report_purged'',
      ''restore.reconcile.job_cancelled'', ''restore.reconcile.owner_resolved'']"

definition MAX_STR :: nat where "MAX_STR = 200"
definition MAX_ITEMS :: nat where "MAX_ITEMS = 20"

text \<open>\<open>isinstance(v, str | int | float | bool)\<close>; a \<open>float\<close> is outside the model's values.\<close>

fun is_scalar :: "pyval \<Rightarrow> bool" where
  "is_scalar (PStr s) = True"
| "is_scalar (PInt i) = True"
| "is_scalar (PBool b) = True"
| "is_scalar v = False"

text \<open>\<open>_clean_value\<close> on the items of a list: those that pass the filter are scalars, so the recursive
  call of the source only meets the first two cases.\<close>

fun clean_scalar :: "pyval \<Rightarrow> pyval" where
  "clean_scalar (PStr s) = PStr (take MAX_STR s)"
| "clean_scalar v = v"

definition clean_items :: "pyval list \<Rightarrow> pyval list" where
  "clean_items items = map clean_scalar (filter is_scalar (take MAX_ITEMS items))"

fun clean_value :: "pyval \<Rightarrow> pyval" where
  "clean_value PNone = PNone"
| "clean_value (PBool b) = PBool b"
| "clean_value (PInt i) = PInt i"
| "clean_value (PStr s) = PStr (take MAX_STR s)"
| "clean_value (PList xs) = PList (clean_items xs)"
| "clean_value (PSet xs) = PList (clean_items (map PStr (sort xs)))"
| "clean_value (POther s) = PStr (take MAX_STR s)"

definition filter_meta :: "pydict \<Rightarrow> pydict" where
  "filter_meta meta =
     map (\<lambda>(k, v). (k, clean_value v)) (filter (\<lambda>(k, v). k \<in> set AUDIT_META_KEYS) meta)"

text \<open>What a stored value may look like.\<close>

fun bounded_scalar :: "pyval \<Rightarrow> bool" where
  "bounded_scalar (PStr s) = (length s \<le> MAX_STR)"
| "bounded_scalar (PInt i) = True"
| "bounded_scalar (PBool b) = True"
| "bounded_scalar v = False"

fun bounded_value :: "pyval \<Rightarrow> bool" where
  "bounded_value PNone = True"
| "bounded_value (PList xs) = (length xs \<le> MAX_ITEMS \<and> list_all bounded_scalar xs)"
| "bounded_value v = bounded_scalar v"

lemma clean_scalar_bounded: "is_scalar v \<Longrightarrow> bounded_scalar (clean_scalar v)"
  by (cases v) auto

lemma clean_items_bounded:
  "length (clean_items xs) \<le> MAX_ITEMS" "list_all bounded_scalar (clean_items xs)"
proof -
  have "length (clean_items xs) \<le> length (take MAX_ITEMS xs)"
    by (simp add: clean_items_def del: length_take)
  then show "length (clean_items xs) \<le> MAX_ITEMS" by simp
  show "list_all bounded_scalar (clean_items xs)"
    by (auto simp: clean_items_def list_all_iff clean_scalar_bounded)
qed

lemma clean_value_bounded: "bounded_value (clean_value v)"
  by (cases v) (simp_all add: clean_items_bounded)

lemma clean_scalar_id: "bounded_scalar v \<Longrightarrow> is_scalar v \<and> clean_scalar v = v"
  by (cases v) auto

lemma clean_items_id:
  "length xs \<le> MAX_ITEMS \<Longrightarrow> list_all bounded_scalar xs \<Longrightarrow> clean_items xs = xs"
  by (simp add: clean_items_def list_all_iff clean_scalar_id map_idI filter_id_conv)

lemma clean_value_id: "bounded_value v \<Longrightarrow> clean_value v = v"
  by (cases v) (auto simp: clean_items_id)

section \<open>Recording an event\<close>

definition new_event ::
  "ident \<Rightarrow> stamp \<Rightarrow> ident option \<Rightarrow> string \<Rightarrow> ident option \<Rightarrow> string \<Rightarrow> string option \<Rightarrow> pydict
    \<Rightarrow> string option \<Rightarrow> audit_event" where
  "new_event ev_id now org_id actor_type actor_id action target meta ip =
     \<lparr>ae_id = ev_id, ae_org = org_id, ae_actor_type = actor_type, ae_actor = actor_id,
      ae_action = action, ae_target = (if target = None \<or> target = Some '''' then None
        else map_option (take 80) target), ae_ip = ip, ae_ts = now, ae_meta = filter_meta meta\<rparr>"

definition record_event ::
  "ident \<Rightarrow> stamp \<Rightarrow> ident option \<Rightarrow> string \<Rightarrow> ident option \<Rightarrow> string \<Rightarrow> string option \<Rightarrow> pydict
    \<Rightarrow> string option \<Rightarrow> cdb \<Rightarrow> exc + cdb" where
  "record_event ev_id now org_id actor_type actor_id action target meta ip db =
     (if action \<notin> set AUDIT_ACTIONS_V1 then Inl (PyRaise ''ValueError'')
      else Inr (db\<lparr>audit_events := audit_events db
        @ [new_event ev_id now org_id actor_type actor_id action target meta ip]\<rparr>))"

text \<open>Continuing a handler after \<open>record_event\<close>; an exception rolls back to \<open>db0\<close>.\<close>

definition with_event ::
  "cdb \<Rightarrow> exc + cdb \<Rightarrow> (cdb \<Rightarrow> (exc + 'a) \<times> cdb) \<Rightarrow> (exc + 'a) \<times> cdb" where
  "with_event db0 r k = (case r of Inl e \<Rightarrow> (Inl e, db0) | Inr db \<Rightarrow> k db)"

lemma with_event_simps [simp]:
  "with_event db0 (Inl e) k = (Inl e, db0)" "with_event db0 (Inr db) k = k db"
  by (simp_all add: with_event_def)

text \<open>The line for the tenant's audit file; \<open>None\<close> when nothing is written. \<open>has_settings\<close>,
  \<open>org_ok\<close> and \<open>root_exists\<close> are the three conditions of \<open>_write_line\<close>: settings are known, the
  organization id is a valid directory name (\<open>TenantPaths.for_org\<close>), its directory exists.\<close>

record audit_line =
  al_event :: ident
  al_action :: string
  al_decision :: string
  al_org :: ident
  al_actor_type :: string
  al_actor :: "ident option"
  al_route :: "string option"
  al_ip :: "string option"
  al_meta :: pydict

definition write_line ::
  "bool \<Rightarrow> (ident \<Rightarrow> bool) \<Rightarrow> (ident \<Rightarrow> bool) \<Rightarrow> audit_event \<Rightarrow> audit_line option" where
  "write_line has_settings org_ok root_exists ev =
     (case ae_org ev of
        None \<Rightarrow> None
      | Some org \<Rightarrow>
          if \<not> has_settings then None
          else if \<not> org_ok org then None
          else if \<not> root_exists org then None
          else Some \<lparr>al_event = ae_id ev, al_action = ae_action ev,
            al_decision = (if ae_action ev = ''auth_denied'' then ''deny'' else ''allow''),
            al_org = org, al_actor_type = ae_actor_type ev, al_actor = ae_actor ev,
            al_route = ae_target ev, al_ip = ae_ip ev, al_meta = ae_meta ev\<rparr>)"

text \<open>Recording an event touches the audit table only, and only at its end.\<close>

lemma record_event_frame:
  assumes "record_event ev_id now org_id at ai action target meta ip db = Inr db'"
  shows "db' = db\<lparr>audit_events := audit_events db
    @ [new_event ev_id now org_id at ai action target meta ip]\<rparr>"
  using assms by (auto simp: record_event_def split: if_splits)

lemma record_event_known:
  "action \<in> set AUDIT_ACTIONS_V1 \<Longrightarrow> record_event ev_id now org_id at ai action target meta ip db =
     Inr (db\<lparr>audit_events := audit_events db
       @ [new_event ev_id now org_id at ai action target meta ip]\<rparr>)"
  by (simp add: record_event_def)

lemma known_actions [simp]:
  "''oauth.token_revoked'' \<in> set AUDIT_ACTIONS_V1" "''oauth.token_issued'' \<in> set AUDIT_ACTIONS_V1"
  "''oauth.client_registered'' \<in> set AUDIT_ACTIONS_V1" "''oauth.consent'' \<in> set AUDIT_ACTIONS_V1"
  "''run.finished'' \<in> set AUDIT_ACTIONS_V1" "''job.created'' \<in> set AUDIT_ACTIONS_V1"
  "''job.cancelled'' \<in> set AUDIT_ACTIONS_V1" "''auth_denied'' \<in> set AUDIT_ACTIONS_V1"
  "''member.removed'' \<in> set AUDIT_ACTIONS_V1" "''member.role_changed'' \<in> set AUDIT_ACTIONS_V1"
  "''member.invited'' \<in> set AUDIT_ACTIONS_V1" "''member.added'' \<in> set AUDIT_ACTIONS_V1"
  "''key.revoked'' \<in> set AUDIT_ACTIONS_V1" "''key.created'' \<in> set AUDIT_ACTIONS_V1"
  "''invitation.revoked'' \<in> set AUDIT_ACTIONS_V1"
  "''upload.purged'' \<in> set AUDIT_ACTIONS_V1" "''report.purged'' \<in> set AUDIT_ACTIONS_V1"
  "''upload.purge_failed'' \<in> set AUDIT_ACTIONS_V1" "''report.purge_failed'' \<in> set AUDIT_ACTIONS_V1"
  by (simp_all add: AUDIT_ACTIONS_V1_def)

text \<open>The stored metadata: allowlisted keys, bounded values; sanitising it again changes nothing.\<close>

lemma filter_meta_entries:
  "(k, v) \<in> set (filter_meta meta) \<Longrightarrow> k \<in> set AUDIT_META_KEYS \<and> bounded_value v"
  by (auto simp: filter_meta_def clean_value_bounded)

lemma filter_meta_idem: "filter_meta (filter_meta meta) = filter_meta meta"
  by (induction meta) (auto simp: filter_meta_def clean_value_id clean_value_bounded)

end
