(* ===== verification/Scopes.thy ===== *)
theory Scopes
  imports PyText
begin

text \<open>
  Scopes, roles and plans: \<^verbatim>\<open>app/control/scopes.py\<close> and \<^verbatim>\<open>app/control/plans.py\<close>. A Python
  \<open>frozenset\<close> of scopes is the set of its names, given as the set of a list so that it computes.
\<close>

section \<open>Scopes and roles (\<^verbatim>\<open>app/control/scopes.py\<close>)\<close>

definition ROLES :: "string list" where
  "ROLES = [''owner'', ''admin'', ''member'']"

definition ORG_READ :: string where "ORG_READ = ''org:read''"
definition ORG_MANAGE :: string where "ORG_MANAGE = ''org:manage''"
definition ORG_DELETE :: string where "ORG_DELETE = ''org:delete''"
definition MEMBERS_MANAGE :: string where "MEMBERS_MANAGE = ''members:manage''"
definition KEYS_MANAGE :: string where "KEYS_MANAGE = ''keys:manage''"
definition UPLOADS_WRITE :: string where "UPLOADS_WRITE = ''uploads:write''"
definition RUNS_READ :: string where "RUNS_READ = ''runs:read''"
definition RUNS_WRITE :: string where "RUNS_WRITE = ''runs:write''"
definition REPORTS_READ :: string where "REPORTS_READ = ''reports:read''"
definition USAGE_READ :: string where "USAGE_READ = ''usage:read''"
definition AUDIT_READ :: string where "AUDIT_READ = ''audit:read''"
definition WEBHOOKS_MANAGE :: string where "WEBHOOKS_MANAGE = ''webhooks:manage''"

lemmas scope_names = ORG_READ_def ORG_MANAGE_def ORG_DELETE_def MEMBERS_MANAGE_def KEYS_MANAGE_def
  UPLOADS_WRITE_def RUNS_READ_def RUNS_WRITE_def REPORTS_READ_def USAGE_READ_def AUDIT_READ_def
  WEBHOOKS_MANAGE_def

definition KEY_SCOPES :: "string list" where
  "KEY_SCOPES = [ORG_READ, ORG_MANAGE, MEMBERS_MANAGE, KEYS_MANAGE, UPLOADS_WRITE, RUNS_READ,
     RUNS_WRITE, REPORTS_READ, USAGE_READ, AUDIT_READ, WEBHOOKS_MANAGE]"

definition MEMBER_SCOPES :: "string set" where
  "MEMBER_SCOPES = set [ORG_READ, UPLOADS_WRITE, RUNS_READ, RUNS_WRITE, REPORTS_READ, USAGE_READ]"

definition ADMIN_SCOPES :: "string set" where
  "ADMIN_SCOPES = MEMBER_SCOPES \<union> set [ORG_MANAGE, MEMBERS_MANAGE, KEYS_MANAGE, AUDIT_READ, WEBHOOKS_MANAGE]"

definition OWNER_SCOPES :: "string set" where
  "OWNER_SCOPES = ADMIN_SCOPES \<union> set [ORG_DELETE]"

text \<open>\<open>ROLE_SCOPES.get(role, frozenset())\<close>.\<close>

definition role_scopes :: "string \<Rightarrow> string set" where
  "role_scopes role =
     (if role = ''member'' then MEMBER_SCOPES
      else if role = ''admin'' then ADMIN_SCOPES
      else if role = ''owner'' then OWNER_SCOPES
      else {})"

definition SELFHOST_KEY_SCOPES :: "string set" where
  "SELFHOST_KEY_SCOPES = set KEY_SCOPES"

definition role_rank :: "string \<Rightarrow> nat" where
  "role_rank role =
     (if role = ''member'' then 1 else if role = ''admin'' then 2 else if role = ''owner'' then 3 else 0)"

text \<open>A role of higher rank never has fewer scopes.\<close>

lemma role_scopes_mono: "role_rank r \<le> role_rank r' \<Longrightarrow> role_scopes r \<subseteq> role_scopes r'"
  by (auto simp: role_rank_def role_scopes_def OWNER_SCOPES_def ADMIN_SCOPES_def split: if_splits)

lemma admin_scopes_keys: "ADMIN_SCOPES = set KEY_SCOPES"
  by (auto simp: ADMIN_SCOPES_def MEMBER_SCOPES_def KEY_SCOPES_def)

lemma org_delete_not_key_scope: "ORG_DELETE \<notin> set KEY_SCOPES"
  by (simp add: KEY_SCOPES_def scope_names)

lemma org_delete_owner_only: "ORG_DELETE \<in> role_scopes r \<longleftrightarrow> r = ''owner''"
proof -
  have "ORG_DELETE \<notin> ADMIN_SCOPES" using org_delete_not_key_scope by (simp add: admin_scopes_keys)
  moreover have "MEMBER_SCOPES \<subseteq> ADMIN_SCOPES" unfolding ADMIN_SCOPES_def by (rule Un_upper1)
  moreover have "ORG_DELETE \<in> OWNER_SCOPES" unfolding OWNER_SCOPES_def by simp
  ultimately show ?thesis unfolding role_scopes_def by auto
qed

section \<open>Plans (\<^verbatim>\<open>app/control/plans.py\<close>)\<close>

record plan_limits =
  runs_per_month :: "int option"
  upload_bytes_per_month :: "int option"

definition MIB :: int where "MIB = 1024 * 1024"
definition GIB :: int where "GIB = 1024 * MIB"

definition PLAN_LIMITS :: "string \<Rightarrow> plan_limits option" where
  "PLAN_LIMITS plan =
     (if plan = ''free'' then Some \<lparr>runs_per_month = Some 20, upload_bytes_per_month = Some (200 * MIB)\<rparr>
      else if plan = ''pro'' then Some \<lparr>runs_per_month = Some 500, upload_bytes_per_month = Some (5 * GIB)\<rparr>
      else if plan = ''selfhost'' then Some \<lparr>runs_per_month = None, upload_bytes_per_month = None\<rparr>
      else None)"

definition FREE_LIMITS :: plan_limits where
  "FREE_LIMITS = \<lparr>runs_per_month = Some 20, upload_bytes_per_month = Some (200 * MIB)\<rparr>"

definition limits_for :: "string \<Rightarrow> plan_limits" where
  "limits_for plan = (case PLAN_LIMITS plan of None \<Rightarrow> FREE_LIMITS | Some l \<Rightarrow> l)"

text \<open>Periods are \<open>YYYY-MM\<close>; \<open>int(period[:4])\<close> and \<open>int(period[5:7])\<close> read digits.\<close>

definition period_of :: "nat \<Rightarrow> nat \<Rightarrow> string" where
  "period_of year month = pad_left 4 (dec_nat year) @ ''-'' @ pad_left 2 (dec_nat month)"

definition previous_period :: "string \<Rightarrow> string" where
  "previous_period period =
     (let year = parse_nat (take 4 period); month = parse_nat (take 2 (drop 5 period))
      in if month = 1 then dec_int (int year - 1) @ ''-12''
         else dec_nat year @ ''-'' @ pad_left 2 (dec_int (int month - 1)))"

lemma limits_unlimited_iff: "runs_per_month (limits_for plan) = None \<longleftrightarrow> plan = ''selfhost''"
  by (simp add: limits_for_def PLAN_LIMITS_def FREE_LIMITS_def)

end
