(* ===== verification/OAuthTokens.thy ===== *)
theory OAuthTokens
  imports AuditTrail Scopes
begin

text \<open>
  OAuth grants and tokens (\<^verbatim>\<open>app/control/oauth.py\<close>): revocation of grants and token subtrees, retention,
  the exchange of an authorization code, refresh rotation, access tokens.

  \<^item> \<open>sha\<close> stands for \<open>sha256_hex\<close>; secrets (\<open>secrets.token_urlsafe\<close>) and identifiers
    (\<open>new_ulid()\<close>) are arguments, as are the readings of \<open>utcnow()\<close>.
  \<^item> A method that opens several sessions is split at its transaction boundaries
    (\<open>.._lookup\<close> reads without authority, \<open>.._txn\<close> runs under the grant guard), and composed again
    as the source composes them. Between the two another request may commit; the split parts take
    their inputs as arguments, so that they can be run on any later database.
\<close>

section \<open>Constants\<close>

definition ACCESS_PREFIX :: string where "ACCESS_PREFIX = ''daas_oat_''"
definition REFRESH_PREFIX :: string where "REFRESH_PREFIX = ''daas_ort_''"
definition CODE_TTL :: int where "CODE_TTL = seconds 60"
definition DEFAULT_SCOPES :: "string list" where
  "DEFAULT_SCOPES = [RUNS_READ, REPORTS_READ, USAGE_READ]"
definition CODE_RETENTION :: int where "CODE_RETENTION = days 1"
definition TOKEN_RETENTION :: int where "TOKEN_RETENTION = days 30"
definition CLIENT_RETENTION :: int where "CLIENT_RETENTION = days 1"
definition LAST_USED_THROTTLE :: int where "LAST_USED_THROTTLE = minutes 5"
definition MAX_SECRET_LEN :: nat where "MAX_SECRET_LEN = 256"

section \<open>Small helpers\<close>

definition grantable_scopes :: "string list \<Rightarrow> string option \<Rightarrow> string list" where
  "grantable_scopes requested role =
     (let allowed = role_scopes (case role of None \<Rightarrow> '''' | Some r \<Rightarrow> r)
      in filter (\<lambda>s. s \<in> allowed) requested)"

definition dedupe :: "string list \<Rightarrow> string list" where
  "dedupe values = rev (remdups (rev (filter (\<lambda>v. v \<noteq> []) values)))"

definition epoch :: "stamp option \<Rightarrow> int option" where
  "epoch value = map_option (\<lambda>t. t div 1000000) value"

definition new_secret :: "(string \<Rightarrow> string) \<Rightarrow> string \<Rightarrow> string \<Rightarrow> string \<times> string" where
  "new_secret sha pre random = (let raw = pre @ random in (raw, sha raw))"

lemma set_dedupe [simp]: "set (dedupe xs) = {x \<in> set xs. x \<noteq> []}"
  by (simp add: dedupe_def)

lemma distinct_dedupe [simp]: "distinct (dedupe xs)"
  by (simp add: dedupe_def)

lemma set_grantable [simp]:
  "set (grantable_scopes req role) = set req \<inter> role_scopes (case role of None \<Rightarrow> '''' | Some r \<Rightarrow> r)"
  by (auto simp: grantable_scopes_def)

section \<open>Revoking a subtree of tokens\<close>

text \<open>The recursive common table expression of \<open>revoke_subtree\<close>: the seed level, then level by level the
  tokens of the client whose parent is in the previous level (\<open>UNION ALL\<close>), until a level is empty.
  \<open>None\<close> is a query that has not ended within the given number of levels.\<close>

definition subtree_seed :: "ident \<Rightarrow> ident list \<Rightarrow> oauth_token list \<Rightarrow> ident list" where
  "subtree_seed client roots toks =
     map t_id (filter (\<lambda>t. t_client t = client \<and>
       (t_id t \<in> set roots \<or> (case t_parent t of None \<Rightarrow> False | Some p \<Rightarrow> p \<in> set roots))) toks)"

definition subtree_children :: "ident \<Rightarrow> oauth_token list \<Rightarrow> ident list \<Rightarrow> ident list" where
  "subtree_children client toks level =
     map t_id (filter (\<lambda>t. t_client t = client \<and>
       (case t_parent t of None \<Rightarrow> False | Some p \<Rightarrow> p \<in> set level)) toks)"

fun subtree_levels :: "nat \<Rightarrow> ident \<Rightarrow> oauth_token list \<Rightarrow> ident list \<Rightarrow> ident list option" where
  "subtree_levels 0 client toks level = None"
| "subtree_levels (Suc n) client toks level =
     (if level = [] then Some []
      else map_option (\<lambda>rest. level @ rest)
        (subtree_levels n client toks (subtree_children client toks level)))"

definition revoke_subtree ::
  "nat \<Rightarrow> ident \<Rightarrow> ident list \<Rightarrow> stamp \<Rightarrow> cdb \<Rightarrow> (nat \<times> cdb) option" where
  "revoke_subtree fuel client root_ids now db =
     (let roots = dedupe root_ids in
      if roots = [] then Some (0, db)
      else map_option (\<lambda>ids.
          let hit = (\<lambda>t. t_id t \<in> set ids \<and> t_revoked_at t = None)
          in (rowcount hit (oauth_tokens db),
              db\<lparr>oauth_tokens := sql_update hit (t_revoked_at_update (\<lambda>_. Some now)) (oauth_tokens db)\<rparr>))
        (subtree_levels fuel client (oauth_tokens db) (subtree_seed client roots (oauth_tokens db))))"

section \<open>The grant guard and the revocation of a grant\<close>

definition guard_grant :: "ident \<Rightarrow> cdb \<Rightarrow> cdb option" where
  "guard_grant grant_id db =
     (let hit = (\<lambda>g. g_id g = grant_id) in
      if rowcount hit (oauth_grants db) \<noteq> 1 then None
      else Some (db\<lparr>oauth_grants :=
        sql_update hit (\<lambda>g. g\<lparr>g_lock_seq := g_lock_seq g + 1\<rparr>) (oauth_grants db)\<rparr>))"

definition live_grant :: "ident \<Rightarrow> oauth_grant \<Rightarrow> bool" where
  "live_grant grant_id g = (g_id g = grant_id \<and> g_revoked_at g = None)"

definition live_token_of :: "ident \<Rightarrow> oauth_token \<Rightarrow> bool" where
  "live_token_of grant_id t = (t_grant t = Some grant_id \<and> t_revoked_at t = None)"

definition revoke_guarded_grant ::
  "stamp \<Rightarrow> ident \<Rightarrow> string option \<Rightarrow> ident \<Rightarrow> string \<Rightarrow> string \<Rightarrow> ident option \<Rightarrow> nat handler" where
  "revoke_guarded_grant now ev_id ip grant_id reason actor_type actor_id db =
     (case get_oauth_grant grant_id db of
        None \<Rightarrow> (Inr 0, db)
      | Some grant \<Rightarrow>
          let first = rowcount (live_grant grant_id) (oauth_grants db);
              count = rowcount (live_token_of grant_id) (oauth_tokens db);
              db1 = db\<lparr>oauth_grants := sql_update (live_grant grant_id)
                         (\<lambda>g. g\<lparr>g_revoked_at := Some now, g_revocation_reason := Some reason\<rparr>)
                         (oauth_grants db),
                       oauth_tokens := sql_update (live_token_of grant_id)
                         (t_revoked_at_update (\<lambda>_. Some now)) (oauth_tokens db)\<rparr>
          in if first = 1 then
               with_event db
                 (record_event ev_id now (Some (g_org grant)) actor_type actor_id
                    ''oauth.token_revoked'' (Some (''oauth:'' @ g_client grant))
                    [(''client_id'', PStr (g_client grant)), (''reason'', PStr reason),
                     (''count'', PInt (int count))] ip db1)
                 (\<lambda>db2. (Inr count, db2))
             else (Inr count, db1))"

definition revoke_oauth_grant ::
  "stamp \<Rightarrow> ident \<Rightarrow> string option \<Rightarrow> ident \<Rightarrow> string \<Rightarrow> string \<Rightarrow> ident option \<Rightarrow> nat handler" where
  "revoke_oauth_grant now ev_id ip grant_id reason actor_type actor_id db =
     (case guard_grant grant_id db of
        None \<Rightarrow> (Inr 0, db)
      | Some db1 \<Rightarrow> revoke_guarded_grant now ev_id ip grant_id reason actor_type actor_id db1)"

section \<open>Retention\<close>

definition recent_refresh :: "stamp \<Rightarrow> oauth_token list \<Rightarrow> oauth_grant \<Rightarrow> bool" where
  "recent_refresh cutoff toks g =
     (\<exists>t \<in> set toks. t_grant t = Some (g_id g) \<and> t_kind t = Refresh \<and>
        (case t_expires_at t of None \<Rightarrow> True | Some e \<Rightarrow> cutoff < e))"

definition old_grant :: "stamp \<Rightarrow> oauth_token list \<Rightarrow> oauth_grant \<Rightarrow> bool" where
  "old_grant cutoff toks g =
     ((case g_revoked_at g of None \<Rightarrow> False | Some r \<Rightarrow> r \<le> cutoff) \<or> \<not> recent_refresh cutoff toks g)"

text \<open>SQL comparisons with \<open>NULL\<close> are not true.\<close>

definition expired_before :: "stamp \<Rightarrow> stamp option \<Rightarrow> bool" where
  "expired_before c e = (case e of None \<Rightarrow> False | Some x \<Rightarrow> x < c)"

definition at_or_before :: "stamp \<Rightarrow> stamp option \<Rightarrow> bool" where
  "at_or_before c e = (case e of None \<Rightarrow> False | Some x \<Rightarrow> x \<le> c)"

definition purgeable_token :: "stamp \<Rightarrow> cdb \<Rightarrow> oauth_token \<Rightarrow> bool" where
  "purgeable_token cutoff db t =
     ((t_kind t = Access \<and> expired_before cutoff (t_expires_at t)) \<or>
      (t_kind t = Refresh \<and> (\<exists>g \<in> set (oauth_grants db).
         old_grant cutoff (oauth_tokens db) g \<and> t_grant t = Some (g_id g))) \<or>
      (t_grant t = None \<and> (at_or_before cutoff (t_revoked_at t) \<or>
         t_kind t = Refresh \<and> at_or_before cutoff (t_expires_at t))))"

definition purge_expired :: "stamp \<Rightarrow> cdb \<Rightarrow> (nat \<times> nat \<times> nat \<times> nat) \<times> cdb" where
  "purge_expired now db =
     (let cutoff = now - TOKEN_RETENTION;
          old_code = (\<lambda>c. ac_expires_at c < now - CODE_RETENTION);
          db1 = db\<lparr>oauth_codes := sql_delete old_code (oauth_codes db)\<rparr>;
          old_tok = purgeable_token cutoff db1;
          db2 = db1\<lparr>oauth_tokens := sql_delete old_tok (oauth_tokens db1)\<rparr>;
          empty_grant = (\<lambda>g. \<not> (\<exists>t \<in> set (oauth_tokens db2). t_grant t = Some (g_id g)));
          db3 = db2\<lparr>oauth_grants := sql_delete empty_grant (oauth_grants db2)\<rparr>;
          idle = (\<lambda>c. oc_created_at c < now - CLIENT_RETENTION
                    \<and> \<not> (\<exists>x \<in> set (oauth_codes db3). ac_client x = oc_id c)
                    \<and> \<not> (\<exists>x \<in> set (oauth_tokens db3). t_client x = oc_id c)
                    \<and> \<not> (\<exists>x \<in> set (oauth_grants db3). g_client x = oc_id c));
          db4 = db3\<lparr>oauth_clients := sql_delete idle (oauth_clients db3)\<rparr>
      in ((rowcount old_code (oauth_codes db), rowcount old_tok (oauth_tokens db1),
           rowcount empty_grant (oauth_grants db2), rowcount idle (oauth_clients db3)), db4))"

section \<open>Issuing a pair of tokens\<close>

record oauth_ttls =
  access_ttl :: int
  refresh_ttl :: int

record pair_mint =
  pm_refresh_id :: ident
  pm_access_id :: ident
  pm_refresh_random :: string
  pm_access_random :: string

record token_response =
  tr_access_token :: string
  tr_expires_in :: int
  tr_scope :: string
  tr_refresh_token :: string

text \<open>Adding the two rows; the primary key and the unique \<open>token_hash\<close> are checked by the database.\<close>

definition insert_token :: "oauth_token \<Rightarrow> oauth_token list \<Rightarrow> oauth_token list option" where
  "insert_token t toks =
     (if t_hash t \<in> t_hash ` set toks then None else sql_insert t_id t toks)"

definition refresh_row ::
  "oauth_ttls \<Rightarrow> ident \<Rightarrow> string \<Rightarrow> ident \<Rightarrow> ident \<Rightarrow> ident \<Rightarrow> ident option \<Rightarrow> string list
    \<Rightarrow> string option \<Rightarrow> ident \<Rightarrow> stamp \<Rightarrow> stamp option \<Rightarrow> oauth_token" where
  "refresh_row ttl tid hash grant_id client_id org_id user_id scopes resource parent_id now used_at =
     \<lparr>t_id = tid, t_kind = Refresh, t_hash = hash, t_client = client_id, t_grant = Some grant_id,
      t_org = org_id, t_user = user_id, t_scopes = scopes, t_resource = resource,
      t_parent = Some parent_id, t_created_at = now, t_expires_at = Some (now + refresh_ttl ttl),
      t_revoked_at = None, t_rotated_at = None, t_last_used_at = used_at\<rparr>"

definition access_row ::
  "oauth_ttls \<Rightarrow> ident \<Rightarrow> string \<Rightarrow> ident \<Rightarrow> ident \<Rightarrow> ident \<Rightarrow> ident option \<Rightarrow> string list
    \<Rightarrow> string option \<Rightarrow> ident \<Rightarrow> stamp \<Rightarrow> oauth_token" where
  "access_row ttl tid hash grant_id client_id org_id user_id scopes resource refresh_id now =
     \<lparr>t_id = tid, t_kind = Access, t_hash = hash, t_client = client_id, t_grant = Some grant_id,
      t_org = org_id, t_user = user_id, t_scopes = scopes, t_resource = resource,
      t_parent = Some refresh_id, t_created_at = now, t_expires_at = Some (now + access_ttl ttl),
      t_revoked_at = None, t_rotated_at = None, t_last_used_at = None\<rparr>"

definition issue_pair ::
  "(string \<Rightarrow> string) \<Rightarrow> oauth_ttls \<Rightarrow> pair_mint \<Rightarrow> ident \<Rightarrow> ident \<Rightarrow> ident \<Rightarrow> ident option
    \<Rightarrow> string list \<Rightarrow> string list \<Rightarrow> string option \<Rightarrow> ident \<Rightarrow> stamp \<Rightarrow> stamp option
    \<Rightarrow> cdb \<Rightarrow> exc + token_response \<times> cdb" where
  "issue_pair sha ttl mint grant_id client_id org_id user_id grant_scopes access_scopes resource
     parent_id now refresh_used_at db =
     (let (refresh_raw, refresh_hash) = new_secret sha REFRESH_PREFIX (pm_refresh_random mint);
          (access_raw, access_hash) = new_secret sha ACCESS_PREFIX (pm_access_random mint);
          refresh = refresh_row ttl (pm_refresh_id mint) refresh_hash grant_id client_id org_id user_id
            grant_scopes resource parent_id now refresh_used_at;
          access = access_row ttl (pm_access_id mint) access_hash grant_id client_id org_id user_id
            access_scopes resource (t_id refresh) now
      in case insert_token refresh (oauth_tokens db) of
           None \<Rightarrow> Inl (PyRaise ''IntegrityError'')
         | Some toks \<Rightarrow> (case insert_token access toks of
             None \<Rightarrow> Inl (PyRaise ''IntegrityError'')
           | Some toks' \<Rightarrow> Inr (\<lparr>tr_access_token = access_raw,
               tr_expires_in = access_ttl ttl div 1000000, tr_scope = py_join '' '' access_scopes,
               tr_refresh_token = refresh_raw\<rparr>, db\<lparr>oauth_tokens := toks'\<rparr>)))"

section \<open>The authorization code\<close>

record auth_code =
  dc_client :: ident
  dc_scopes :: "string list"
  dc_expires_at :: stamp
  dc_challenge :: string
  dc_redirect_uri :: string
  dc_resource :: "string option"
  dc_subject :: ident
  dc_request_id :: ident
  dc_org :: ident

text \<open>Revoking the tokens a code produced: the grants are looked up first, then each is revoked under
  its guard; tokens from before grants existed are revoked as a subtree.\<close>

fun revoke_grants ::
  "stamp \<Rightarrow> ident list \<Rightarrow> string option \<Rightarrow> ident list \<Rightarrow> string \<Rightarrow> unit handler" where
  "revoke_grants now ev_ids ip [] reason db = (Inr (), db)"
| "revoke_grants now ev_ids ip (g # gs) reason db =
     (case revoke_oauth_grant now (first_id ev_ids) ip g reason ''system'' None db of
        (Inl e, db1) \<Rightarrow> (Inl e, db1)
      | (Inr _, db1) \<Rightarrow> revoke_grants now (tl ev_ids) ip gs reason db1)"

definition code_grants :: "ident \<Rightarrow> ident \<Rightarrow> cdb \<Rightarrow> ident list" where
  "code_grants client code_id db =
     remdups (List.map_filter t_grant
       (filter (\<lambda>t. t_client t = client \<and> t_parent t = Some code_id) (oauth_tokens db)))"

definition revoke_code_family ::
  "nat \<Rightarrow> stamp \<Rightarrow> ident list \<Rightarrow> string option \<Rightarrow> oauth_code \<Rightarrow> unit handler" where
  "revoke_code_family fuel now ev_ids ip row db =
     (let grant_ids = code_grants (ac_client row) (ac_id row) db in
      if grant_ids \<noteq> [] then revoke_grants now ev_ids ip grant_ids ''code_replay'' db
      else case revoke_subtree fuel (ac_client row) [ac_id row] now db of
          None \<Rightarrow> (Inl (PyRaise ''non-terminating query''), db)
        | Some (count, db1) \<Rightarrow>
            (case ac_org row of
               Some org \<Rightarrow>
                 if count \<noteq> 0 then
                   with_event db
                     (record_event (first_id ev_ids) now (Some org) ''system'' None
                        ''oauth.token_revoked'' (Some (''oauth:'' @ ac_client row))
                        [(''client_id'', PStr (ac_client row)), (''reason'', PStr ''code_replay''),
                         (''count'', PInt (int count))] ip db1)
                     (\<lambda>db2. (Inr (), db2))
                 else (Inr (), db1)
             | None \<Rightarrow> (Inr (), db1)))"

definition load_authorization_code ::
  "(string \<Rightarrow> string) \<Rightarrow> nat \<Rightarrow> stamp \<Rightarrow> ident list \<Rightarrow> string option \<Rightarrow> ident \<Rightarrow> string
    \<Rightarrow> auth_code option handler" where
  "load_authorization_code sha fuel now ev_ids ip client code db =
     (if code = [] \<or> length code > MAX_SECRET_LEN then (Inr None, db)
      else case sql_first (\<lambda>c. ac_hash c = Some (sha code)) (oauth_codes db) of
        None \<Rightarrow> (Inr None, db)
      | Some row \<Rightarrow>
          if ac_status row = CExchanged then
            (case revoke_code_family fuel now ev_ids ip row db of
               (Inl e, db1) \<Rightarrow> (Inl e, db)
             | (Inr _, db1) \<Rightarrow> (Inr None, db1))
          else (case (ac_org row, ac_user row) of
              (Some org, Some usr) \<Rightarrow>
                if ac_status row \<noteq> CApproved \<or> ac_client row \<noteq> client then (Inr None, db)
                else (Inr (Some \<lparr>dc_client = ac_client row, dc_scopes = ac_scopes row,
                       dc_expires_at = ac_expires_at row, dc_challenge = ac_challenge row,
                       dc_redirect_uri = ac_redirect_uri row, dc_resource = ac_resource row,
                       dc_subject = usr, dc_request_id = ac_id row, dc_org = org\<rparr>), db)
            | _ \<Rightarrow> (Inr None, db)))"

definition code_consumable :: "ident \<Rightarrow> stamp \<Rightarrow> oauth_code \<Rightarrow> bool" where
  "code_consumable request_id now c =
     (ac_id c = request_id \<and> ac_status c = CApproved \<and> now < ac_expires_at c)"

definition invalid_grant :: exc where
  "invalid_grant = OAuthError ''TokenError'' ''invalid_grant''"

definition exchange_authorization_code ::
  "(string \<Rightarrow> string) \<Rightarrow> oauth_ttls \<Rightarrow> nat \<Rightarrow> stamp \<Rightarrow> stamp \<Rightarrow> ident \<Rightarrow> pair_mint \<Rightarrow> ident list
    \<Rightarrow> string option \<Rightarrow> ident \<Rightarrow> auth_code \<Rightarrow> token_response handler" where
  "exchange_authorization_code sha ttl fuel now now' grant_id mint ev_ids ip client code db =
     (if rowcount (code_consumable (dc_request_id code) now) (oauth_codes db) \<noteq> 1 then
        (case get_oauth_code (dc_request_id code) db of
           Some row \<Rightarrow>
             if ac_status row = CExchanged then
               (case revoke_code_family fuel now' ev_ids ip row db of
                  (Inl e, db1) \<Rightarrow> (Inl e, db)
                | (Inr _, db1) \<Rightarrow> (Inl invalid_grant, db1))
             else (Inl invalid_grant, db)
         | None \<Rightarrow> (Inl invalid_grant, db))
      else
        let db1 = db\<lparr>oauth_codes := sql_update (code_consumable (dc_request_id code) now)
                (\<lambda>c. c\<lparr>ac_status := CExchanged, ac_exchanged_at := Some now\<rparr>) (oauth_codes db)\<rparr>;
            grant = \<lparr>g_id = grant_id, g_client = client, g_org = dc_org code,
              g_user = Some (dc_subject code), g_scopes = dc_scopes code, g_resource = dc_resource code,
              g_created_at = now, g_revoked_at = None, g_revocation_reason = None, g_lock_seq = 0\<rparr>
        in case sql_insert g_id grant (oauth_grants db1) of
             None \<Rightarrow> (Inl (PyRaise ''IntegrityError''), db)
           | Some grants \<Rightarrow>
              (case issue_pair sha ttl mint grant_id client (dc_org code) (Some (dc_subject code))
                  (dc_scopes code) (dc_scopes code) (dc_resource code) (dc_request_id code) now None
                  (db1\<lparr>oauth_grants := grants\<rparr>) of
                 Inl e \<Rightarrow> (Inl e, db)
               | Inr (response, db2) \<Rightarrow>
                   with_event db
                     (record_event (first_id ev_ids) now (Some (dc_org code)) ''user''
                        (Some (dc_subject code)) ''oauth.token_issued'' (Some (''oauth:'' @ client))
                        [(''client_id'', PStr client), (''grant'', PStr ''authorization_code''),
                         (''scopes'', PList (map PStr (dc_scopes code)))] ip db2)
                     (\<lambda>db3. (Inr response, db3))))"

section \<open>Refresh tokens\<close>

record refresh_pointer =
  rp_token :: string
  rp_client :: ident
  rp_scopes :: "string list"
  rp_expires_at :: "int option"
  rp_resource :: "string option"
  rp_subject :: "ident option"
  rp_token_id :: ident
  rp_org :: ident

definition refresh_pointer_of :: "oauth_token \<Rightarrow> string \<Rightarrow> refresh_pointer" where
  "refresh_pointer_of row raw =
     \<lparr>rp_token = raw, rp_client = t_client row, rp_scopes = t_scopes row,
      rp_expires_at = epoch (t_expires_at row), rp_resource = t_resource row,
      rp_subject = t_user row, rp_token_id = t_id row, rp_org = t_org row\<rparr>"

definition not_expired :: "stamp \<Rightarrow> stamp option \<Rightarrow> bool" where
  "not_expired now e = (case e of None \<Rightarrow> True | Some x \<Rightarrow> now < x)"

text \<open>The classification of \<open>_usable_refresh\<close>: why the presented token must not be used.\<close>

datatype refresh_verdict = Usable | Refused | RevokeGrant string

definition classify_refresh :: "stamp \<Rightarrow> cdb \<Rightarrow> oauth_token \<Rightarrow> oauth_grant \<Rightarrow> refresh_verdict" where
  "classify_refresh now db row grant =
     (if g_revoked_at grant \<noteq> None then Refused
      else if t_rotated_at row \<noteq> None then RevokeGrant ''reuse_detected''
      else if t_revoked_at row \<noteq> None then RevokeGrant ''client_revoked''
      else if \<not> not_expired now (t_expires_at row) then Refused
      else case t_user row of
          None \<Rightarrow> RevokeGrant ''membership_ended''
        | Some usr \<Rightarrow> if get_membership (t_org row) usr db = None
                     then RevokeGrant ''membership_ended'' else Usable)"

definition usable_refresh ::
  "stamp \<Rightarrow> stamp \<Rightarrow> ident \<Rightarrow> string option \<Rightarrow> ident \<Rightarrow> ident \<Rightarrow> ident \<Rightarrow> oauth_token option handler" where
  "usable_refresh now now' ev_id ip grant_id token_id client_id db =
     (case sql_first (\<lambda>t. t_id t = token_id \<and> t_grant t = Some grant_id \<and> t_client t = client_id
                          \<and> t_kind t = Refresh) (oauth_tokens db) of
        None \<Rightarrow> (Inr None, db)
      | Some row \<Rightarrow>
          (case get_oauth_grant grant_id db of
             None \<Rightarrow> (Inr None, db)
           | Some grant \<Rightarrow>
               (case classify_refresh now db row grant of
                  Usable \<Rightarrow> (Inr (Some row), db)
                | Refused \<Rightarrow> (Inr None, db)
                | RevokeGrant reason \<Rightarrow>
                    (case revoke_guarded_grant now' ev_id ip grant_id reason ''system'' None db of
                       (Inl e, db1) \<Rightarrow> (Inl e, db1)
                     | (Inr _, db1) \<Rightarrow> (Inr None, db1)))))"

definition load_refresh_lookup ::
  "(string \<Rightarrow> string) \<Rightarrow> ident \<Rightarrow> string \<Rightarrow> cdb \<Rightarrow> oauth_token option" where
  "load_refresh_lookup sha client refresh_token db =
     sql_first (\<lambda>t. t_hash t = sha refresh_token \<and> t_kind t = Refresh \<and> t_client t = client)
       (oauth_tokens db)"

definition load_refresh_txn ::
  "stamp \<Rightarrow> stamp \<Rightarrow> ident \<Rightarrow> string option \<Rightarrow> ident \<Rightarrow> string \<Rightarrow> ident \<Rightarrow> ident
    \<Rightarrow> refresh_pointer option handler" where
  "load_refresh_txn now now' ev_id ip client refresh_token token_id grant_id db =
     (case guard_grant grant_id db of
        None \<Rightarrow> (Inr None, db)
      | Some db1 \<Rightarrow>
          (case usable_refresh now now' ev_id ip grant_id token_id client db1 of
             (Inl e, _) \<Rightarrow> (Inl e, db)
           | (Inr row, db2) \<Rightarrow>
               (Inr (map_option (\<lambda>r. refresh_pointer_of r refresh_token) row), db2)))"

definition load_refresh_token ::
  "(string \<Rightarrow> string) \<Rightarrow> bool \<Rightarrow> stamp \<Rightarrow> stamp \<Rightarrow> ident \<Rightarrow> string option \<Rightarrow> ident \<Rightarrow> string
    \<Rightarrow> refresh_pointer option handler" where
  "load_refresh_token sha on_revoke_route now now' ev_id ip client refresh_token db =
     (if refresh_token = [] \<or> length refresh_token > MAX_SECRET_LEN then (Inr None, db)
      else case load_refresh_lookup sha client refresh_token db of
        None \<Rightarrow> (Inr None, db)
      | Some row \<Rightarrow>
          if on_revoke_route then (Inr (Some (refresh_pointer_of row refresh_token)), db)
          else (case t_grant row of
              None \<Rightarrow> (Inr None, db)
            | Some grant_id \<Rightarrow>
                load_refresh_txn now now' ev_id ip client refresh_token (t_id row) grant_id db))"

definition exchange_refresh_lookup ::
  "(string \<Rightarrow> string) \<Rightarrow> ident \<Rightarrow> refresh_pointer \<Rightarrow> cdb \<Rightarrow> ident option" where
  "exchange_refresh_lookup sha client ptr db =
     (case sql_first (\<lambda>t. t_id t = rp_token_id ptr \<and> t_kind t = Refresh
              \<and> t_hash t = sha (rp_token ptr) \<and> t_client t = client) (oauth_tokens db) of
        None \<Rightarrow> None | Some t \<Rightarrow> t_grant t)"

definition rotatable :: "ident \<Rightarrow> oauth_token \<Rightarrow> bool" where
  "rotatable row_id t = (t_id t = row_id \<and> t_revoked_at t = None \<and> t_rotated_at t = None)"

definition child_access :: "ident \<Rightarrow> ident \<Rightarrow> oauth_token \<Rightarrow> bool" where
  "child_access client row_id t =
     (t_client t = client \<and> t_parent t = Some row_id \<and> t_kind t = Access \<and> t_revoked_at t = None)"

definition exchange_refresh_txn ::
  "(string \<Rightarrow> string) \<Rightarrow> oauth_ttls \<Rightarrow> stamp \<Rightarrow> stamp \<Rightarrow> stamp \<Rightarrow> pair_mint \<Rightarrow> ident \<Rightarrow> string option
    \<Rightarrow> ident \<Rightarrow> ident \<Rightarrow> ident \<Rightarrow> string list \<Rightarrow> token_response handler" where
  "exchange_refresh_txn sha ttl t1 t2 now mint ev_id ip client grant_id token_id scopes db =
     (case guard_grant grant_id db of
        None \<Rightarrow> (Inl invalid_grant, db)
      | Some db1 \<Rightarrow>
          (case usable_refresh t1 t2 ev_id ip grant_id token_id client db1 of
             (Inl e, _) \<Rightarrow> (Inl e, db)
           | (Inr None, db2) \<Rightarrow> (Inl invalid_grant, db2)
           | (Inr (Some row), db2) \<Rightarrow>
               let granted = t_scopes row;
                   requested = (if dedupe scopes = [] then granted else dedupe scopes)
               in if \<not> set requested \<subseteq> set granted
                  then (Inl (OAuthError ''TokenError'' ''invalid_scope''), db)
                  else if rowcount (rotatable (t_id row)) (oauth_tokens db2) \<noteq> 1 then
                    (case usable_refresh t1 t2 ev_id ip grant_id (t_id row) client db2 of
                       (Inl e, _) \<Rightarrow> (Inl e, db)
                     | (Inr _, db3) \<Rightarrow> (Inl invalid_grant, db3))
                  else
                    let toks1 = sql_update (rotatable (t_id row))
                          (\<lambda>t. t\<lparr>t_revoked_at := Some now, t_rotated_at := Some now\<rparr>) (oauth_tokens db2);
                        toks2 = sql_update (child_access client (t_id row))
                          (t_revoked_at_update (\<lambda>_. Some now)) toks1
                    in (case issue_pair sha ttl mint grant_id client (t_org row) (t_user row) granted
                         requested (t_resource row) (t_id row) now (Some now)
                         (db2\<lparr>oauth_tokens := toks2\<rparr>) of
                         Inl e \<Rightarrow> (Inl e, db)
                       | Inr (response, db3) \<Rightarrow>
                           with_event db
                             (record_event ev_id now (Some (t_org row)) ''user'' (t_user row)
                                ''oauth.token_issued'' (Some (''oauth:'' @ client))
                                [(''client_id'', PStr client), (''grant'', PStr ''refresh_token''),
                                 (''scopes'', PList (map PStr requested))] ip db3)
                             (\<lambda>db4. (Inr response, db4)))))"

definition exchange_refresh_token ::
  "(string \<Rightarrow> string) \<Rightarrow> oauth_ttls \<Rightarrow> stamp \<Rightarrow> stamp \<Rightarrow> stamp \<Rightarrow> pair_mint \<Rightarrow> ident \<Rightarrow> string option
    \<Rightarrow> ident \<Rightarrow> refresh_pointer \<Rightarrow> string list \<Rightarrow> token_response handler" where
  "exchange_refresh_token sha ttl t1 t2 now mint ev_id ip client ptr scopes db =
     (case exchange_refresh_lookup sha client ptr db of
        None \<Rightarrow> (Inl invalid_grant, db)
      | Some grant_id \<Rightarrow>
          exchange_refresh_txn sha ttl t1 t2 now mint ev_id ip client grant_id (rp_token_id ptr) scopes db)"

section \<open>Access tokens and revocation\<close>

text \<open>\<open>_active_token\<close>: the row joined with its grant, both unrevoked.\<close>

definition token_prefix :: "token_kind \<Rightarrow> string" where
  "token_prefix kind = (case kind of Access \<Rightarrow> ACCESS_PREFIX | Refresh \<Rightarrow> REFRESH_PREFIX)"

definition grant_live :: "cdb \<Rightarrow> ident option \<Rightarrow> bool" where
  "grant_live db g =
     (case g of None \<Rightarrow> False
      | Some gid \<Rightarrow> (\<exists>x \<in> set (oauth_grants db). g_id x = gid \<and> g_revoked_at x = None))"

definition active_token ::
  "(string \<Rightarrow> string) \<Rightarrow> stamp \<Rightarrow> string \<Rightarrow> token_kind \<Rightarrow> cdb \<Rightarrow> oauth_token option" where
  "active_token sha now raw kind db =
     (if raw = [] \<or> \<not> prefix (token_prefix kind) raw \<or> length raw > MAX_SECRET_LEN then None
      else case sql_first (\<lambda>t. t_hash t = sha raw \<and> t_kind t = kind \<and> t_revoked_at t = None
                 \<and> grant_live db (t_grant t)) (oauth_tokens db) of
        None \<Rightarrow> None
      | Some row \<Rightarrow> if not_expired now (t_expires_at row) then Some row else None)"

record access_token =
  at_token :: string
  at_client :: ident
  at_scopes :: "string list"
  at_expires_at :: "int option"
  at_resource :: "string option"
  at_subject :: "ident option"
  at_token_id :: ident
  at_org :: ident

definition load_access_token ::
  "(string \<Rightarrow> string) \<Rightarrow> stamp \<Rightarrow> string \<Rightarrow> cdb \<Rightarrow> access_token option" where
  "load_access_token sha now token db =
     map_option (\<lambda>row. \<lparr>at_token = token, at_client = t_client row, at_scopes = t_scopes row,
        at_expires_at = epoch (t_expires_at row), at_resource = t_resource row,
        at_subject = t_user row, at_token_id = t_id row, at_org = t_org row\<rparr>)
       (active_token sha now token Access db)"

definition revoke_token_lookup ::
  "(string \<Rightarrow> string) \<Rightarrow> ident \<Rightarrow> string \<Rightarrow> ident \<Rightarrow> cdb \<Rightarrow> (ident \<times> ident) option" where
  "revoke_token_lookup sha client raw token_id db =
     (case sql_first (\<lambda>t. t_hash t = sha raw \<and> t_client t = client \<and> t_id t = token_id)
        (oauth_tokens db) of
        None \<Rightarrow> None
      | Some row \<Rightarrow> map_option (\<lambda>g. (g, t_id row)) (t_grant row))"

definition revoke_token_txn ::
  "stamp \<Rightarrow> ident \<Rightarrow> string option \<Rightarrow> ident \<Rightarrow> ident \<Rightarrow> ident \<Rightarrow> unit handler" where
  "revoke_token_txn now ev_id ip client grant_id token_id db =
     (case guard_grant grant_id db of
        None \<Rightarrow> (Inr (), db)
      | Some db1 \<Rightarrow>
          (case sql_first (\<lambda>t. t_id t = token_id \<and> t_grant t = Some grant_id \<and> t_client t = client)
             (oauth_tokens db1) of
             None \<Rightarrow> (Inr (), db)
           | Some row \<Rightarrow>
               if t_kind row = Refresh then
                 (case revoke_guarded_grant now ev_id ip grant_id ''client_revoked'' ''user'' (t_user row) db1 of
                    (Inl e, _) \<Rightarrow> (Inl e, db)
                  | (Inr _, db2) \<Rightarrow> (Inr (), db2))
               else
                 let hit = (\<lambda>t. t_id t = t_id row \<and> t_revoked_at t = None);
                     n = rowcount hit (oauth_tokens db1);
                     db2 = db1\<lparr>oauth_tokens :=
                       sql_update hit (t_revoked_at_update (\<lambda>_. Some now)) (oauth_tokens db1)\<rparr>
                 in if n = 0 then (Inr (), db2)
                    else with_event db
                      (record_event ev_id now (Some (t_org row)) ''user'' (t_user row)
                         ''oauth.token_revoked'' (Some (''oauth:'' @ t_client row))
                         [(''client_id'', PStr (t_client row)), (''reason'', PStr ''client_revoked''),
                          (''count'', PInt (int n))] ip db2)
                      (\<lambda>db3. (Inr (), db3))))"

definition revoke_token ::
  "(string \<Rightarrow> string) \<Rightarrow> stamp \<Rightarrow> ident \<Rightarrow> string option \<Rightarrow> ident \<Rightarrow> string \<Rightarrow> ident \<Rightarrow> unit handler" where
  "revoke_token sha now ev_id ip client raw token_id db =
     (case revoke_token_lookup sha client raw token_id db of
        None \<Rightarrow> (Inr (), db)
      | Some (grant_id, tid) \<Rightarrow> revoke_token_txn now ev_id ip client grant_id tid db)"

section \<open>The principal of an access token\<close>

record oauth_principal =
  op_org :: ident
  op_scopes :: "string set"
  op_user :: ident
  op_token_id :: ident
  op_client_id :: ident

definition principal_row ::
  "(string \<Rightarrow> string) \<Rightarrow> string \<Rightarrow> cdb \<Rightarrow> (oauth_token \<times> membership) option" where
  "principal_row sha token db =
     (case sql_first (\<lambda>t. t_hash t = sha token \<and> t_kind t = Access \<and> t_revoked_at t = None
            \<and> (\<exists>c \<in> set (oauth_clients db). oc_id c = t_client t \<and> oc_revoked_at c = None)
            \<and> grant_live db (t_grant t)
            \<and> (case t_user t of None \<Rightarrow> False | Some u \<Rightarrow> get_membership (t_org t) u db \<noteq> None \<and> get_user u db \<noteq> None))
          (oauth_tokens db) of
        None \<Rightarrow> None
      | Some row \<Rightarrow> (case t_user row of
            None \<Rightarrow> None
          | Some u \<Rightarrow> map_option (\<lambda>m. (row, m)) (get_membership (t_org row) u db)))"

lemma principal_row_alt:
  "principal_row sha token db =
     (case sql_first (\<lambda>t. t_hash t = sha token \<and> t_kind t = Access \<and> t_revoked_at t = None
            \<and> (\<exists>c \<in> set (oauth_clients db). oc_id c = t_client t \<and> oc_revoked_at c = None)
            \<and> grant_live db (t_grant t)
            \<and> (\<exists>u. t_user t = Some u \<and> get_membership (t_org t) u db \<noteq> None \<and> get_user u db \<noteq> None))
          (oauth_tokens db) of
        None \<Rightarrow> None
      | Some row \<Rightarrow> (case t_user row of
            None \<Rightarrow> None
          | Some u \<Rightarrow> map_option (\<lambda>m. (row, m)) (get_membership (t_org row) u db)))"
  by (simp only: principal_row_def case_option_ex)

definition principal_for ::
  "(string \<Rightarrow> string) \<Rightarrow> stamp \<Rightarrow> string \<Rightarrow> oauth_principal option handler" where
  "principal_for sha now token db =
     (if \<not> prefix ACCESS_PREFIX token \<or> length token > MAX_SECRET_LEN then (Inr None, db)
      else case principal_row sha token db of
        None \<Rightarrow> (Inr None, db)
      | Some (row, m) \<Rightarrow>
          if \<not> not_expired now (t_expires_at row) then (Inr None, db)
          else
            let touch = (case t_last_used_at row of None \<Rightarrow> True
                         | Some u \<Rightarrow> now - u > LAST_USED_THROTTLE);
                db1 = (if touch then db\<lparr>oauth_tokens := sql_update (\<lambda>t. t_id t = t_id row)
                         (\<lambda>t. t\<lparr>t_last_used_at := Some now\<rparr>) (oauth_tokens db)\<rparr> else db)
            in (Inr (Some \<lparr>op_org = t_org row,
                  op_scopes = set (grantable_scopes (t_scopes row) (Some (m_role m))),
                  op_user = m_user m, op_token_id = t_id row, op_client_id = t_client row\<rparr>), db1))"

end
