(* ===== verification/OAuthInvariant.thy ===== *)
theory OAuthInvariant
  imports OAuthTokens
begin

text \<open>
  The invariant of the OAuth tables and its preservation by the table operations the handlers of
  \<open>OAuthTokens\<close> are made of:
  keys are unique; a token belongs to the grant it names, with the grant's client, organization and
  user, and never has a scope the grant lacks; a revoked grant has no live token; a rotated token is
  revoked; the access tokens of a revoked refresh token are revoked; a grant has at most one live
  refresh token.
\<close>

section \<open>The invariant\<close>

definition tok_revoked :: "oauth_token \<Rightarrow> bool" where
  "tok_revoked t = (t_revoked_at t \<noteq> None)"

definition tok_rotated :: "oauth_token \<Rightarrow> bool" where
  "tok_rotated t = (t_rotated_at t \<noteq> None)"

definition grant_revoked :: "oauth_grant \<Rightarrow> bool" where
  "grant_revoked g = (g_revoked_at g \<noteq> None)"

definition live_refresh_of :: "ident \<Rightarrow> oauth_token \<Rightarrow> bool" where
  "live_refresh_of gid t = (t_grant t = Some gid \<and> t_kind t = Refresh \<and> \<not> tok_revoked t)"

definition child_of :: "oauth_token \<Rightarrow> oauth_token \<Rightarrow> bool" where
  "child_of r a = (t_kind r = Refresh \<and> t_kind a = Access \<and> t_parent a = Some (t_id r)
     \<and> t_client a = t_client r \<and> t_grant a = t_grant r)"

definition of_grant :: "oauth_grant \<Rightarrow> oauth_token \<Rightarrow> bool" where
  "of_grant g t = (t_client t = g_client g \<and> t_org t = g_org g \<and> t_user t = g_user g
     \<and> set (t_scopes t) \<subseteq> set (g_scopes g) \<and> (t_kind t = Refresh \<longrightarrow> t_scopes t = g_scopes g))"

definition keys_inv :: "oauth_grant list \<Rightarrow> oauth_token list \<Rightarrow> bool" where
  "keys_inv gs ts = (distinct (map g_id gs) \<and> distinct (map t_id ts) \<and> distinct (map t_hash ts))"

definition consent_inv :: "oauth_grant list \<Rightarrow> oauth_token list \<Rightarrow> bool" where
  "consent_inv gs ts = (\<forall>t \<in> set ts. \<forall>gid. t_grant t = Some gid \<longrightarrow>
     (\<exists>g \<in> set gs. g_id g = gid \<and> of_grant g t))"

definition revoked_inv :: "oauth_grant list \<Rightarrow> oauth_token list \<Rightarrow> bool" where
  "revoked_inv gs ts = (\<forall>g \<in> set gs. \<forall>t \<in> set ts.
     grant_revoked g \<longrightarrow> t_grant t = Some (g_id g) \<longrightarrow> tok_revoked t)"

definition rotated_inv :: "oauth_token list \<Rightarrow> bool" where
  "rotated_inv ts = (\<forall>t \<in> set ts. tok_rotated t \<longrightarrow> tok_revoked t)"

definition child_inv :: "oauth_token list \<Rightarrow> bool" where
  "child_inv ts = (\<forall>r \<in> set ts. \<forall>a \<in> set ts. child_of r a \<longrightarrow> tok_revoked r \<longrightarrow> tok_revoked a)"

definition single_inv :: "oauth_token list \<Rightarrow> bool" where
  "single_inv ts = (\<forall>gid. rowcount (live_refresh_of gid) ts \<le> 1)"

definition tables_inv :: "oauth_grant list \<Rightarrow> oauth_token list \<Rightarrow> bool" where
  "tables_inv gs ts = (keys_inv gs ts \<and> consent_inv gs ts \<and> revoked_inv gs ts \<and> rotated_inv ts
     \<and> child_inv ts \<and> single_inv ts)"

lemma tables_invD:
  assumes "tables_inv gs ts"
  shows "keys_inv gs ts" "consent_inv gs ts" "revoked_inv gs ts" "rotated_inv ts" "child_inv ts"
    "single_inv ts"
  using assms by (simp_all add: tables_inv_def)

lemma tables_invI:
  assumes "keys_inv gs ts" "consent_inv gs ts" "revoked_inv gs ts" "rotated_inv ts" "child_inv ts"
    "single_inv ts"
  shows "tables_inv gs ts"
  using assms by (simp add: tables_inv_def)

lemma consentD:
  "consent_inv gs ts \<Longrightarrow> t \<in> set ts \<Longrightarrow> t_grant t = Some gid \<Longrightarrow> \<exists>g \<in> set gs. g_id g = gid \<and> of_grant g t"
  by (simp add: consent_inv_def)

lemma consentI:
  "(\<And>t gid. t \<in> set ts \<Longrightarrow> t_grant t = Some gid \<Longrightarrow> \<exists>g \<in> set gs. g_id g = gid \<and> of_grant g t)
    \<Longrightarrow> consent_inv gs ts"
  by (simp add: consent_inv_def)

lemma revokedD:
  "revoked_inv gs ts \<Longrightarrow> g \<in> set gs \<Longrightarrow> t \<in> set ts \<Longrightarrow> grant_revoked g \<Longrightarrow> t_grant t = Some (g_id g)
    \<Longrightarrow> tok_revoked t"
  by (simp add: revoked_inv_def)

lemma revokedI:
  "(\<And>g t. g \<in> set gs \<Longrightarrow> t \<in> set ts \<Longrightarrow> grant_revoked g \<Longrightarrow> t_grant t = Some (g_id g)
    \<Longrightarrow> tok_revoked t) \<Longrightarrow> revoked_inv gs ts"
  by (simp add: revoked_inv_def)

lemma rotatedD: "rotated_inv ts \<Longrightarrow> t \<in> set ts \<Longrightarrow> tok_rotated t \<Longrightarrow> tok_revoked t"
  by (simp add: rotated_inv_def)

lemma rotatedI: "(\<And>t. t \<in> set ts \<Longrightarrow> tok_rotated t \<Longrightarrow> tok_revoked t) \<Longrightarrow> rotated_inv ts"
  by (simp add: rotated_inv_def)

lemma childD:
  "child_inv ts \<Longrightarrow> r \<in> set ts \<Longrightarrow> a \<in> set ts \<Longrightarrow> child_of r a \<Longrightarrow> tok_revoked r \<Longrightarrow> tok_revoked a"
  by (simp add: child_inv_def)

lemma childI:
  "(\<And>r a. r \<in> set ts \<Longrightarrow> a \<in> set ts \<Longrightarrow> child_of r a \<Longrightarrow> tok_revoked r \<Longrightarrow> tok_revoked a)
    \<Longrightarrow> child_inv ts"
  by (simp add: child_inv_def)

lemma singleD: "single_inv ts \<Longrightarrow> rowcount (live_refresh_of gid) ts \<le> 1"
  by (simp add: single_inv_def)

lemma singleI: "(\<And>gid. rowcount (live_refresh_of gid) ts \<le> 1) \<Longrightarrow> single_inv ts"
  by (simp add: single_inv_def)

section \<open>Updates that revoke\<close>

text \<open>What an update of revocation, rotation or use leaves alone.\<close>

definition token_core :: "oauth_token \<Rightarrow> oauth_token" where
  "token_core t = t\<lparr>t_revoked_at := None, t_rotated_at := None, t_last_used_at := None\<rparr>"

lemma token_core_eq:
  assumes "token_core t' = token_core t"
  shows "t_id t' = t_id t" "t_hash t' = t_hash t" "t_grant t' = t_grant t" "t_kind t' = t_kind t"
    "t_parent t' = t_parent t" "t_client t' = t_client t" "of_grant g t' = of_grant g t"
  using assms by (simp_all add: token_core_def of_grant_def oauth_token.defs)
    (cases t; cases t'; simp)+

lemma child_of_core:
  assumes "token_core r' = token_core r" and "token_core a' = token_core a"
  shows "child_of r' a' = child_of r a"
  using token_core_eq [OF assms(1)] token_core_eq [OF assms(2)] by (simp add: child_of_def)

definition revoking :: "(oauth_token \<Rightarrow> oauth_token) \<Rightarrow> bool" where
  "revoking f = (\<forall>t. token_core (f t) = token_core t \<and> tok_revoked (f t))"

lemma revokingD:
  "revoking f \<Longrightarrow> token_core (f t) = token_core t" "revoking f \<Longrightarrow> tok_revoked (f t)"
  by (simp_all add: revoking_def)

lemma revoking_set_revoked [simp]: "revoking (t_revoked_at_update (\<lambda>_. Some now))"
  by (simp add: revoking_def token_core_def tok_revoked_def)

lemma revoking_updateE:
  assumes "t \<in> set (sql_update hit f ts)" and "revoking f"
  obtains (kept) "t \<in> set ts" and "\<not> hit t"
    | (hit) t0 where "t0 \<in> set ts" and "hit t0" and "token_core t = token_core t0" and "tok_revoked t"
  using assms by (metis in_sql_updateE revokingD)

lemma tables_inv_revoke:
  assumes inv: "tables_inv gs ts" and rv: "revoking f"
    and closed: "\<And>r a. r \<in> set ts \<Longrightarrow> a \<in> set ts \<Longrightarrow> hit r \<Longrightarrow> child_of r a \<Longrightarrow>
      \<not> tok_revoked a \<Longrightarrow> hit a"
  shows "tables_inv gs (sql_update hit f ts)"
proof (rule tables_invI)
  note core = revokingD(1) [OF rv]
  show "keys_inv gs (sql_update hit f ts)"
    using tables_invD(1) [OF inv] token_core_eq(1,2) [OF core] by (simp add: keys_inv_def map_sql_update)
  show "consent_inv gs (sql_update hit f ts)"
  proof (rule consentI)
    fix t gid assume "t \<in> set (sql_update hit f ts)" and g: "t_grant t = Some gid"
    then obtain t0 where "t0 \<in> set ts" and c: "token_core t = token_core t0"
      using rv by (metis revoking_updateE)
    moreover from g have "t_grant t0 = Some gid" using token_core_eq(3) [OF c] by simp
    ultimately show "\<exists>g\<in>set gs. g_id g = gid \<and> of_grant g t"
      using consentD [OF tables_invD(2) [OF inv]] token_core_eq(7) [OF c] by simp
  qed
  show "revoked_inv gs (sql_update hit f ts)"
  proof (rule revokedI)
    fix g t assume "t \<in> set (sql_update hit f ts)" and "g \<in> set gs" "grant_revoked g" "t_grant t = Some (g_id g)"
    then show "tok_revoked t"
      using rv revokedD [OF tables_invD(3) [OF inv]] by (metis revoking_updateE)
  qed
  show "rotated_inv (sql_update hit f ts)"
  proof (rule rotatedI)
    fix t assume "t \<in> set (sql_update hit f ts)" and "tok_rotated t"
    then show "tok_revoked t"
      using rv rotatedD [OF tables_invD(4) [OF inv]] by (metis revoking_updateE)
  qed
  show "child_inv (sql_update hit f ts)"
  proof (rule childI, rule ccontr)
    fix r a assume r: "r \<in> set (sql_update hit f ts)" and a: "a \<in> set (sql_update hit f ts)"
      and c: "child_of r a" "tok_revoked r" "\<not> tok_revoked a"
    from a c(3) have a': "a \<in> set ts" "\<not> hit a" using rv by (metis revoking_updateE)+
    from r rv show False
    proof (cases rule: revoking_updateE)
      case kept
      with a' c childD [OF tables_invD(5) [OF inv]] show ?thesis by blast
    next
      case (hit r0)
      with c(1) have "child_of r0 a" by (metis child_of_core)
      with hit a' c(3) closed show ?thesis by blast
    qed
  qed
  show "single_inv (sql_update hit f ts)"
  proof (rule singleI)
    fix gid
    have "rowcount (live_refresh_of gid) (sql_update hit f ts) \<le> rowcount (live_refresh_of gid) ts"
      unfolding rowcount_sql_update
      by (rule rowcount_mono) (simp add: live_refresh_of_def revokingD(2) [OF rv] split: if_splits)
    also have "\<dots> \<le> 1" by (rule singleD [OF tables_invD(6) [OF inv]])
    finally show "rowcount (live_refresh_of gid) (sql_update hit f ts) \<le> 1" .
  qed
qed

text \<open>Recording a use changes nothing the invariant speaks of.\<close>

lemma tables_inv_touch:
  assumes inv: "tables_inv gs ts"
  shows "tables_inv gs (sql_update P (t_last_used_at_update (\<lambda>_. x)) ts)"
proof -
  let ?f = "t_last_used_at_update (\<lambda>_. x)"
  let ?ts = "sql_update P ?f ts"
  have E: "\<exists>t0 \<in> set ts. token_core t = token_core t0 \<and> tok_revoked t = tok_revoked t0
      \<and> tok_rotated t = tok_rotated t0" if "t \<in> set ?ts" for t
    using that by (elim in_sql_updateE) (auto simp: token_core_def tok_revoked_def tok_rotated_def)
  show ?thesis
  proof (rule tables_invI)
    show "keys_inv gs ?ts"
      using tables_invD(1) [OF inv] by (simp add: keys_inv_def map_sql_update)
    show "consent_inv gs ?ts"
    proof (rule consentI)
      fix t gid assume "t \<in> set ?ts" and g: "t_grant t = Some gid"
      then obtain t0 where "t0 \<in> set ts" and c: "token_core t = token_core t0" using E by blast
      moreover from g have "t_grant t0 = Some gid" using token_core_eq(3) [OF c] by simp
      ultimately show "\<exists>g\<in>set gs. g_id g = gid \<and> of_grant g t"
        using consentD [OF tables_invD(2) [OF inv]] token_core_eq(7) [OF c] by simp
    qed
    show "revoked_inv gs ?ts"
    proof (rule revokedI)
      fix g t assume "t \<in> set ?ts" and g: "g \<in> set gs" "grant_revoked g" "t_grant t = Some (g_id g)"
      then obtain t0 where t0: "t0 \<in> set ts" "token_core t = token_core t0" "tok_revoked t = tok_revoked t0"
        using E by blast
      with g show "tok_revoked t"
        using revokedD [OF tables_invD(3) [OF inv], of g t0] token_core_eq(3) [OF t0(2)] by simp
    qed
    show "rotated_inv ?ts"
    proof (rule rotatedI)
      fix t assume "t \<in> set ?ts" "tok_rotated t"
      then show "tok_revoked t" using E rotatedD [OF tables_invD(4) [OF inv]] by blast
    qed
    show "child_inv ?ts"
    proof (rule childI)
      fix r a assume "r \<in> set ?ts" "a \<in> set ?ts" and c: "child_of r a" "tok_revoked r"
      then obtain r0 a0 where "r0 \<in> set ts" "a0 \<in> set ts" and core: "token_core r = token_core r0"
          "token_core a = token_core a0"
        and rev: "tok_revoked r = tok_revoked r0" "tok_revoked a = tok_revoked a0" using E by meson
      then show "tok_revoked a"
        using c childD [OF tables_invD(5) [OF inv], of r0 a0] child_of_core [OF core] by simp
    qed
    have "rowcount (live_refresh_of gid) ?ts = rowcount (live_refresh_of gid) ts" for gid
      unfolding rowcount_sql_update
      by (rule rowcount_cong) (simp add: live_refresh_of_def tok_revoked_def)
    then show "single_inv ?ts" using tables_invD(6) [OF inv] by (simp add: single_inv_def)
  qed
qed

section \<open>Updates of grants\<close>

lemma tables_inv_grants:
  assumes inv: "tables_inv gs ts"
    and f: "\<And>g. g_id (f g) = g_id g" "\<And>g t. of_grant (f g) t = of_grant g t"
    and rev: "\<And>g t. g \<in> set gs \<Longrightarrow> P g \<Longrightarrow> grant_revoked (f g) \<Longrightarrow> t \<in> set ts \<Longrightarrow>
      t_grant t = Some (g_id g) \<Longrightarrow> tok_revoked t"
  shows "tables_inv (sql_update P f gs) ts"
proof -
  have "keys_inv (sql_update P f gs) ts"
    using tables_invD(1) [OF inv] f by (simp add: keys_inv_def map_sql_update)
  moreover have "consent_inv (sql_update P f gs) ts"
  proof (rule consentI)
    fix t gid assume "t \<in> set ts" and "t_grant t = Some gid"
    then obtain g where g: "g \<in> set gs" "g_id g = gid" "of_grant g t"
      using consentD [OF tables_invD(2) [OF inv]] by blast
    then have "(if P g then f g else g) \<in> set (sql_update P f gs)" by (auto simp: table_simps)
    with g f show "\<exists>g\<in>set (sql_update P f gs). g_id g = gid \<and> of_grant g t"
      by (intro bexI [of _ "if P g then f g else g"]) auto
  qed
  moreover have "revoked_inv (sql_update P f gs) ts"
  proof (rule revokedI)
    fix g t assume "g \<in> set (sql_update P f gs)" and t: "t \<in> set ts" "grant_revoked g"
      "t_grant t = Some (g_id g)"
    then show "tok_revoked t"
    proof (cases rule: in_sql_updateE)
      case same
      with t revokedD [OF tables_invD(3) [OF inv]] show ?thesis by blast
    next
      case (updated g0)
      with t f(1) rev [of g0 t] show ?thesis by simp
    qed
  qed
  ultimately show ?thesis using tables_invD [OF inv] by (blast intro: tables_invI)
qed

lemma tables_inv_guard:
  assumes inv: "tables_inv (oauth_grants db) (oauth_tokens db)" and "guard_grant gid db = Some db'"
  shows "tables_inv (oauth_grants db') (oauth_tokens db')"
proof -
  let ?f = "\<lambda>g. g\<lparr>g_lock_seq := g_lock_seq g + 1\<rparr>"
  from assms(2) have db': "db' = db\<lparr>oauth_grants := sql_update (\<lambda>g. g_id g = gid) ?f (oauth_grants db)\<rparr>"
    by (simp add: guard_grant_def Let_def split: if_splits)
  have "tables_inv (sql_update (\<lambda>g. g_id g = gid) ?f (oauth_grants db)) (oauth_tokens db)"
    using inv
  proof (rule tables_inv_grants)
    fix g t assume "g \<in> set (oauth_grants db)" "grant_revoked (?f g)" "t \<in> set (oauth_tokens db)"
      "t_grant t = Some (g_id g)"
    then show "tok_revoked t"
      using revokedD [OF tables_invD(3) [OF inv], of g t] by (simp add: grant_revoked_def)
  qed (simp_all add: of_grant_def)
  with db' show ?thesis by simp
qed

lemma tables_inv_revoke_grant:
  assumes inv: "tables_inv gs ts"
  shows "tables_inv
    (sql_update (live_grant gid) (\<lambda>g. g\<lparr>g_revoked_at := Some now, g_revocation_reason := Some reason\<rparr>) gs)
    (sql_update (live_token_of gid) (t_revoked_at_update (\<lambda>_. Some now)) ts)"
proof (rule tables_inv_grants)
  show "tables_inv gs (sql_update (live_token_of gid) (t_revoked_at_update (\<lambda>_. Some now)) ts)"
    using inv by (rule tables_inv_revoke) (auto simp: live_token_of_def child_of_def tok_revoked_def)
next
  fix g t assume "live_grant gid g" and "t_grant t = Some (g_id g)"
    and "t \<in> set (sql_update (live_token_of gid) (t_revoked_at_update (\<lambda>_. Some now)) ts)"
  then show "tok_revoked t"
    by (elim in_sql_updateE) (auto simp: live_grant_def live_token_of_def tok_revoked_def)
qed (simp_all add: of_grant_def)

section \<open>Insertions and deletions\<close>

lemma tables_inv_issue:
  assumes inv: "tables_inv gs ts"
    and g: "g \<in> set gs" "\<not> grant_revoked g"
    and r: "t_kind r = Refresh" "t_grant r = Some (g_id g)" "of_grant g r" "\<not> tok_revoked r" "\<not> tok_rotated r"
    and a: "t_kind a = Access" "t_grant a = Some (g_id g)" "of_grant g a" "\<not> tok_rotated a"
      "t_parent a = Some (t_id r)"
    and ins: "insert_token r ts = Some ts1" "insert_token a ts1 = Some ts2"
    and none: "rowcount (live_refresh_of (g_id g)) ts = 0"
  shows "tables_inv gs ts2"
proof -
  from ins have ts2: "ts2 = ts @ [r, a]"
    and fresh: "t_id r \<notin> t_id ` set ts" "t_id a \<notin> t_id ` set ts" "t_id a \<noteq> t_id r"
      "t_hash r \<notin> t_hash ` set ts" "t_hash a \<notin> t_hash ` set ts" "t_hash a \<noteq> t_hash r"
    by (auto simp: insert_token_def sql_insert_def split: if_splits)
  have in2: "t \<in> set ts2 \<longleftrightarrow> t \<in> set ts \<or> t = r \<or> t = a" for t by (auto simp: ts2)
  have same: "g' = g" if "g' \<in> set gs" and "g_id g' = g_id g" for g'
    using tables_invD(1) [OF inv] g(1) that by (metis keys_inv_def unique_row)
  show ?thesis
  proof (rule tables_invI)
    show "keys_inv gs ts2"
      using tables_invD(1) [OF inv] fresh by (simp add: keys_inv_def ts2)
    show "consent_inv gs ts2"
      using consentD [OF tables_invD(2) [OF inv]] g(1) r(2,3) a(2,3) in2 by (metis consentI option.inject)
    show "revoked_inv gs ts2"
      using revokedD [OF tables_invD(3) [OF inv]] same g(2) r(2) a(2) in2
      by (metis revokedI option.inject)
    show "rotated_inv ts2"
      using rotatedD [OF tables_invD(4) [OF inv]] r(5) a(4) in2 by (metis rotatedI)
    show "child_inv ts2"
    proof (rule childI)
      fix x y assume x: "x \<in> set ts2" "tok_revoked x" and y: "y \<in> set ts2" and c: "child_of x y"
      have "x \<in> set ts" using x r(4) a(1) c in2 by (auto simp: child_of_def)
      moreover have "y \<noteq> a"
      proof
        assume "y = a"
        with c a(5) have "t_id x = t_id r" by (simp add: child_of_def)
        with \<open>x \<in> set ts\<close> fresh(1) show False by (metis image_eqI)
      qed
      moreover have "y \<noteq> r" using c r(1) by (auto simp: child_of_def)
      ultimately show "tok_revoked y"
        using x(2) y c in2 childD [OF tables_invD(5) [OF inv]] by blast
    qed
    show "single_inv ts2"
    proof (rule singleI)
      fix gid
      have "rowcount (live_refresh_of gid) ts \<le> 1" by (rule singleD [OF tables_invD(6) [OF inv]])
      with none show "rowcount (live_refresh_of gid) ts2 \<le> 1"
        using r(2) a(1) by (auto simp: ts2 live_refresh_of_def)
    qed
  qed
qed

lemma tables_inv_new_grant:
  assumes inv: "tables_inv gs ts" and "sql_insert g_id g gs = Some gs'"
  shows "tables_inv gs' ts" and "g \<in> set gs'" and "rowcount (live_refresh_of (g_id g)) ts = 0"
proof -
  from assms(2) have gs': "gs' = gs @ [g]" and new: "g_id g \<notin> g_id ` set gs"
    by (auto dest: sql_insert_Some)
  have no: "t_grant t \<noteq> Some (g_id g)" if "t \<in> set ts" for t
    using consentD [OF tables_invD(2) [OF inv] that, of "g_id g"] new by (metis image_eqI)
  show "tables_inv gs' ts"
  proof (rule tables_invI)
    show "keys_inv gs' ts" using tables_invD(1) [OF inv] new by (auto simp: keys_inv_def gs')
    show "consent_inv gs' ts"
      using consentD [OF tables_invD(2) [OF inv]] by (auto simp: gs' intro!: consentI)
    show "revoked_inv gs' ts"
      using revokedD [OF tables_invD(3) [OF inv]] no by (auto simp: gs' intro!: revokedI)
  qed (use tables_invD [OF inv] in auto)
  show "g \<in> set gs'" by (simp add: gs')
  show "rowcount (live_refresh_of (g_id g)) ts = 0"
    using no by (auto simp: table_simps live_refresh_of_def)
qed

lemma tables_inv_delete_tokens:
  assumes inv: "tables_inv gs ts"
  shows "tables_inv gs (sql_delete P ts)"
proof (rule tables_invI)
  have sub: "t \<in> set (sql_delete P ts) \<Longrightarrow> t \<in> set ts" for t by (simp add: table_simps)
  show "keys_inv gs (sql_delete P ts)"
    using tables_invD(1) [OF inv] by (simp add: keys_inv_def distinct_sql_delete)
  show "consent_inv gs (sql_delete P ts)"
    by (rule consentI, rule consentD [OF tables_invD(2) [OF inv] sub])
  show "revoked_inv gs (sql_delete P ts)"
    using revokedD [OF tables_invD(3) [OF inv]] sub by (blast intro: revokedI)
  show "rotated_inv (sql_delete P ts)"
    using rotatedD [OF tables_invD(4) [OF inv]] sub by (blast intro: rotatedI)
  show "child_inv (sql_delete P ts)"
    using childD [OF tables_invD(5) [OF inv]] sub by (blast intro: childI)
  show "single_inv (sql_delete P ts)"
  proof (rule singleI)
    fix gid
    have "rowcount (live_refresh_of gid) (sql_delete P ts) \<le> rowcount (live_refresh_of gid) ts"
      unfolding rowcount_sql_delete by (rule rowcount_mono) simp
    also have "\<dots> \<le> 1" by (rule singleD [OF tables_invD(6) [OF inv]])
    finally show "rowcount (live_refresh_of gid) (sql_delete P ts) \<le> 1" .
  qed
qed

lemma tables_inv_delete_grants:
  assumes inv: "tables_inv gs ts"
    and no: "\<And>g t. g \<in> set gs \<Longrightarrow> P g \<Longrightarrow> t \<in> set ts \<Longrightarrow> t_grant t \<noteq> Some (g_id g)"
  shows "tables_inv (sql_delete P gs) ts"
proof (rule tables_invI)
  show "keys_inv (sql_delete P gs) ts"
    using tables_invD(1) [OF inv] by (simp add: keys_inv_def distinct_sql_delete)
  show "consent_inv (sql_delete P gs) ts"
  proof (rule consentI)
    fix t gid assume t: "t \<in> set ts" "t_grant t = Some gid"
    then obtain g where "g \<in> set gs" "g_id g = gid" "of_grant g t"
      using consentD [OF tables_invD(2) [OF inv]] by blast
    moreover from this t no have "\<not> P g" by blast
    ultimately show "\<exists>g\<in>set (sql_delete P gs). g_id g = gid \<and> of_grant g t"
      by (auto simp: table_simps)
  qed
  show "revoked_inv (sql_delete P gs) ts"
    using revokedD [OF tables_invD(3) [OF inv]] by (auto simp: table_simps intro!: revokedI)
qed (use tables_invD [OF inv] in auto)

end
