(* ===== verification/OAuthConsent.thy ===== *)
theory OAuthConsent
  imports OAuthInvariant "HOL-Library.Product_Lexorder"
begin

text \<open>
  Registration, authorization requests and consent: the provider methods before \<open>/token\<close>
  (\<^verbatim>\<open>app/control/oauth.py\<close>) and the cockpit's routes (\<^verbatim>\<open>app/api/v1/oauth.py\<close>).

  Parameters of the definitions, for code that is not in the repository: the parsed parts of a URL and
  of the client metadata (pydantic and the \<open>mcp\<close> SDK) are records; \<open>validate\<close> is
  \<open>OAuthClientInformationFull.model_validate\<close>; \<open>construct_redirect_uri\<close> is the SDK's function of
  that name.
\<close>

section \<open>The provider\<close>

record oauth_settings =
  st_issuer_url :: "string option"
  st_cockpit_origin :: "string option"
  st_app_env :: string
  st_access_ttl_sec :: int
  st_refresh_ttl_sec :: int
  st_authorization_ttl_sec :: int

definition py_or :: "string option \<Rightarrow> string \<Rightarrow> string" where
  "py_or a b = (case a of None \<Rightarrow> b | Some s \<Rightarrow> if s = [] then b else s)"

definition issuer_of :: "oauth_settings \<Rightarrow> string option" where
  "issuer_of st =
     (let raw = rstrip_chars ''/'' (py_strip (py_or (st_issuer_url st) (py_or (st_cockpit_origin st) [])))
      in if raw = [] then None else Some raw)"

record oauth_provider =
  pv_issuer :: string
  pv_consent_origin :: string
  pv_resource_url :: string
  pv_dev :: bool
  pv_ttls :: oauth_ttls
  pv_authorization_ttl :: int

definition make_provider :: "oauth_settings \<Rightarrow> string option \<Rightarrow> exc + oauth_provider" where
  "make_provider st issuer =
     (let resolved = rstrip_chars ''/'' (py_or issuer (py_or (issuer_of st) [])) in
      if resolved = [] then Inl (PyRaise ''ValueError'')
      else Inr \<lparr>pv_issuer = resolved,
        pv_consent_origin = rstrip_chars ''/'' (py_strip (py_or (st_cockpit_origin st) resolved)),
        pv_resource_url = resolved @ ''/mcp'',
        pv_dev = (py_lower (py_strip (st_app_env st)) = ''dev''),
        pv_ttls = \<lparr>access_ttl = seconds (st_access_ttl_sec st), refresh_ttl = seconds (st_refresh_ttl_sec st)\<rparr>,
        pv_authorization_ttl = seconds (st_authorization_ttl_sec st)\<rparr>)"

section \<open>Clients\<close>

definition MAX_REDIRECT_URIS :: nat where "MAX_REDIRECT_URIS = 10"
definition MAX_TEXT :: nat where "MAX_TEXT = 512"
definition MAX_CLIENT_NAME :: nat where "MAX_CLIENT_NAME = 200"
definition MAX_CLIENT_INFO_BYTES :: nat where "MAX_CLIENT_INFO_BYTES = 16 * 1024"
definition AUTH_METHODS :: "string list" where
  "AUTH_METHODS = [''none'', ''client_secret_post'', ''client_secret_basic'']"
definition GRANT_TYPES :: "string list" where
  "GRANT_TYPES = [''authorization_code'', ''refresh_token'']"
definition DEV_LOOPBACK :: "string list" where "DEV_LOOPBACK = [''localhost'', ''127.0.0.1'']"

record any_url =
  url_text :: string
  url_scheme :: string
  url_host :: "string option"
  url_username :: "string option"
  url_password :: "string option"
  url_fragment :: "string option"

record client_info =
  ci_client_id :: ident
  ci_client_name :: "string option"
  ci_auth_method :: "string option"
  ci_grant_types :: "string list"
  ci_response_types :: "string list"
  ci_redirect_uris :: "any_url list"
  ci_scope :: "string option"
  ci_dump :: pydict
  ci_dump_length :: nat

definition get_client :: "(pydict \<Rightarrow> bool) \<Rightarrow> stamp \<Rightarrow> ident \<Rightarrow> cdb \<Rightarrow> oauth_client option" where
  "get_client validate now client_id db =
     (if client_id = [] \<or> length client_id > 64 then None
      else case get_oauth_client client_id db of
        None \<Rightarrow> None
      | Some row \<Rightarrow>
          if oc_revoked_at row \<noteq> None \<or> \<not> not_expired now (oc_expires_at row) then None
          else if validate (oc_info row) then Some row else None)"

definition registration_error :: "string \<Rightarrow> exc" where
  "registration_error code = OAuthError ''RegistrationError'' code"

definition check_redirect_uri :: "bool \<Rightarrow> any_url \<Rightarrow> exc option" where
  "check_redirect_uri dev uri =
     (if length (url_text uri) > MAX_TEXT then Some (registration_error ''invalid_redirect_uri'')
      else if url_fragment uri \<noteq> None then Some (registration_error ''invalid_redirect_uri'')
      else if url_username uri \<noteq> None \<or> url_password uri \<noteq> None
        then Some (registration_error ''invalid_redirect_uri'')
      else if url_scheme uri = ''https'' \<and> url_host uri \<noteq> None \<and> url_host uri \<noteq> Some [] then None
      else if dev \<and> url_scheme uri = ''http'' \<and> (case url_host uri of None \<Rightarrow> False
               | Some h \<Rightarrow> h \<in> set DEV_LOOPBACK) then None
      else Some (registration_error ''invalid_redirect_uri''))"

fun first_error :: "('a \<Rightarrow> exc option) \<Rightarrow> 'a list \<Rightarrow> exc option" where
  "first_error check [] = None"
| "first_error check (x # xs) = (case check x of None \<Rightarrow> first_error check xs | Some e \<Rightarrow> Some e)"

definition check_registration :: "bool \<Rightarrow> client_info \<Rightarrow> exc option" where
  "check_registration dev info =
     (if py_or (ci_auth_method info) ''client_secret_post'' \<notin> set AUTH_METHODS
        then Some (registration_error ''invalid_client_metadata'')
      else if \<not> set (ci_grant_types info) \<subseteq> set GRANT_TYPES
        then Some (registration_error ''invalid_client_metadata'')
      else if \<not> set (ci_response_types info) \<subseteq> {''code''}
        then Some (registration_error ''invalid_client_metadata'')
      else if (case ci_client_name info of None \<Rightarrow> False | Some n \<Rightarrow> length n > MAX_CLIENT_NAME)
        then Some (registration_error ''invalid_client_metadata'')
      else if ci_redirect_uris info = [] \<or> length (ci_redirect_uris info) > MAX_REDIRECT_URIS
        then Some (registration_error ''invalid_redirect_uri'')
      else first_error (check_redirect_uri dev) (ci_redirect_uris info))"

definition register_client ::
  "bool \<Rightarrow> stamp \<Rightarrow> ident \<Rightarrow> string option \<Rightarrow> client_info \<Rightarrow> unit handler" where
  "register_client dev now ev_id ip info db =
     (case check_registration dev info of
        Some e \<Rightarrow> (Inl e, db)
      | None \<Rightarrow>
          if ci_dump_length info > MAX_CLIENT_INFO_BYTES
          then (Inl (registration_error ''invalid_client_metadata''), db)
          else (case sql_insert oc_id
                  \<lparr>oc_id = ci_client_id info, oc_name = ci_client_name info,
                   oc_redirect_uris = map url_text (ci_redirect_uris info), oc_info = ci_dump info,
                   oc_created_at = now, oc_expires_at = None, oc_revoked_at = None\<rparr>
                  (oauth_clients db) of
                None \<Rightarrow> (Inl (PyRaise ''IntegrityError''), db)
              | Some clients \<Rightarrow>
                  with_event db
                    (record_event ev_id now None ''system'' None ''oauth.client_registered''
                       (Some (''oauth:'' @ ci_client_id info))
                       [(''client_id'', PStr (ci_client_id info))] ip
                       (db\<lparr>oauth_clients := clients\<rparr>))
                    (\<lambda>db1. (Inr (), db1))))"

section \<open>Authorization requests\<close>

text \<open>\<open>re.match(r"^[A-Za-z0-9_-]{43}$", s)\<close>: the final \<open>$\<close> also matches before one trailing newline.\<close>

definition pkce_s256 :: "string \<Rightarrow> bool" where
  "pkce_s256 s =
     (let body = (if s \<noteq> [] \<and> last s = CHR 10 then butlast s else s)
      in length body = 43 \<and> list_all is_urlsafe body)"

record auth_params =
  ap_scopes :: "string list option"
  ap_challenge :: string
  ap_redirect_uri :: string
  ap_redirect_explicit :: bool
  ap_state :: "string option"
  ap_resource :: "string option"

definition default_scopes_of :: "string option \<Rightarrow> string list" where
  "default_scopes_of scope =
     (let registered = filter (\<lambda>s. s \<in> set KEY_SCOPES) (py_split_ws (py_or scope []));
          ds = dedupe registered
      in if ds = [] then DEFAULT_SCOPES else ds)"

definition request_scopes :: "string option \<Rightarrow> string list option \<Rightarrow> string list" where
  "request_scopes client_scope scopes =
     (case scopes of
        Some (s # ss) \<Rightarrow> dedupe (s # ss)
      | _ \<Rightarrow> default_scopes_of client_scope)"

definition too_long :: "string option \<Rightarrow> bool" where
  "too_long v = (case v of None \<Rightarrow> False | Some s \<Rightarrow> length s > MAX_TEXT)"

definition authorize ::
  "oauth_provider \<Rightarrow> stamp \<Rightarrow> ident \<Rightarrow> ident \<Rightarrow> string option \<Rightarrow> auth_params \<Rightarrow> string handler" where
  "authorize pv now request_id client client_scope params db =
     (let scopes = request_scopes client_scope (ap_scopes params) in
      if scopes = [] \<or> (\<exists>s \<in> set scopes. s \<notin> set KEY_SCOPES)
        then (Inl (OAuthError ''AuthorizeError'' ''invalid_scope''), db)
      else if \<not> pkce_s256 (ap_challenge params)
        then (Inl (OAuthError ''AuthorizeError'' ''invalid_request''), db)
      else if too_long (Some (ap_redirect_uri params)) \<or> too_long (ap_state params)
             \<or> too_long (ap_resource params)
        then (Inl (OAuthError ''AuthorizeError'' ''invalid_request''), db)
      else (case sql_insert ac_id
              \<lparr>ac_id = request_id, ac_client = client, ac_org = None, ac_user = None, ac_hash = None,
               ac_scopes = scopes, ac_challenge = ap_challenge params,
               ac_redirect_uri = ap_redirect_uri params,
               ac_redirect_explicit = ap_redirect_explicit params, ac_state = ap_state params,
               ac_resource = ap_resource params, ac_status = CPending, ac_created_at = now,
               ac_expires_at = now + pv_authorization_ttl pv, ac_exchanged_at = None\<rparr>
              (oauth_codes db) of
            None \<Rightarrow> (Inl (PyRaise ''IntegrityError''), db)
          | Some codes \<Rightarrow>
              (Inr (pv_consent_origin pv @ ''/oauth/consent?request='' @ quote_plus request_id),
               db\<lparr>oauth_codes := codes\<rparr>)))"

section \<open>Consent (\<^verbatim>\<open>app/api/v1/oauth.py\<close>)\<close>

record url_parts =
  sp_scheme :: string
  sp_hostname :: "string option"
  sp_port :: "int option"

definition redirect_host :: "url_parts \<Rightarrow> string" where
  "redirect_host parts =
     (let host = py_or (sp_hostname parts) [] in
      case sp_port parts of
        None \<Rightarrow> host
      | Some p \<Rightarrow> if sp_scheme parts = ''https'' \<and> p = 443 then host else host @ '':'' @ dec_int p)"

definition memberships_of :: "ident \<Rightarrow> cdb \<Rightarrow> (membership \<times> org) list" where
  "memberships_of user_id db =
     sort_key (\<lambda>(m, og). (m_created_at m, o_id og))
       (List.map_filter (\<lambda>m. map_option (\<lambda>og. (m, og)) (get_org (m_org m) db))
          (filter (\<lambda>m. m_user m = user_id) (memberships db)))"

record org_option =
  oo_org :: ident
  oo_name :: string
  oo_role :: string
  oo_grantable :: "string list"

record request_out =
  ro_request :: ident
  ro_client :: ident
  ro_client_name :: "string option"
  ro_scopes :: "string list"
  ro_redirect_host :: string
  ro_expires_at :: stamp
  ro_organizations :: "org_option list"

definition not_found :: exc where "not_found = Problem 404 ''not_found''"
definition expired_problem :: exc where "expired_problem = Problem 410 ''expired''"
definition already_decided :: exc where "already_decided = Problem 409 ''request_already_decided''"

definition get_request ::
  "(string \<Rightarrow> url_parts) \<Rightarrow> stamp \<Rightarrow> ident \<Rightarrow> ident \<Rightarrow> cdb \<Rightarrow> exc + request_out" where
  "get_request urlsplit now user_id request_id db =
     (case get_oauth_code request_id db of
        None \<Rightarrow> Inl not_found
      | Some row \<Rightarrow>
          if ac_status row \<noteq> CPending then Inl not_found
          else if ac_expires_at row \<le> now then Inl expired_problem
          else Inr \<lparr>ro_request = ac_id row, ro_client = ac_client row,
            ro_client_name = (case get_oauth_client (ac_client row) db of None \<Rightarrow> None
                              | Some c \<Rightarrow> oc_name c),
            ro_scopes = ac_scopes row, ro_redirect_host = redirect_host (urlsplit (ac_redirect_uri row)),
            ro_expires_at = ac_expires_at row,
            ro_organizations = map (\<lambda>(m, og). \<lparr>oo_org = o_id og, oo_name = o_name og, oo_role = m_role m,
                oo_grantable = grantable_scopes (ac_scopes row) (Some (m_role m))\<rparr>)
              (memberships_of user_id db)\<rparr>)"

record decision =
  d_approve :: bool
  d_org :: "ident option"
  d_scopes :: "string list option"

definition pending_code :: "ident \<Rightarrow> stamp \<Rightarrow> oauth_code \<Rightarrow> bool" where
  "pending_code request_id now c =
     (ac_id c = request_id \<and> ac_status c = CPending \<and> now < ac_expires_at c)"

definition granted_scopes :: "string list \<Rightarrow> string \<Rightarrow> string list option \<Rightarrow> string list" where
  "granted_scopes requested role wanted =
     (let grantable = grantable_scopes requested (Some role) in
      case wanted of None \<Rightarrow> grantable | Some ws \<Rightarrow> filter (\<lambda>s. s \<in> set ws) grantable)"

definition decide ::
  "(string \<Rightarrow> string) \<Rightarrow> (string \<Rightarrow> (string \<times> string option) list \<Rightarrow> string) \<Rightarrow> stamp \<Rightarrow> string \<Rightarrow> ident
    \<Rightarrow> string option \<Rightarrow> ident \<Rightarrow> ident \<Rightarrow> decision \<Rightarrow> string handler" where
  "decide sha construct_redirect_uri now token ev_id ip user_id request_id body db =
     (case get_oauth_code request_id db of
        None \<Rightarrow> (Inl not_found, db)
      | Some row \<Rightarrow>
        if ac_status row \<noteq> CPending then (Inl already_decided, db)
        else if ac_expires_at row \<le> now then (Inl expired_problem, db)
        else if \<not> d_approve body then
          (if rowcount (pending_code (ac_id row) now) (oauth_codes db) \<noteq> 1 then (Inl already_decided, db)
           else (Inr (construct_redirect_uri (ac_redirect_uri row)
                   [(''error'', Some ''access_denied''), (''state'', ac_state row)]),
                 db\<lparr>oauth_codes := sql_update (pending_code (ac_id row) now)
                   (\<lambda>c. c\<lparr>ac_status := CDenied, ac_user := Some user_id\<rparr>) (oauth_codes db)\<rparr>))
        else if d_org body = None \<or> d_org body = Some [] then (Inl (Problem 422 ''validation_error''), db)
        else (case get_membership (the (d_org body)) user_id db of
            None \<Rightarrow> (Inl (Problem 403 ''forbidden''), db)
          | Some m \<Rightarrow>
              let granted = granted_scopes (ac_scopes row) (m_role m) (d_scopes body) in
              if granted = [] then (Inl (Problem 422 ''no_grantable_scopes''), db)
              else if rowcount (pending_code (ac_id row) now) (oauth_codes db) \<noteq> 1
                then (Inl already_decided, db)
              else
                let db1 = db\<lparr>oauth_codes := sql_update (pending_code (ac_id row) now)
                      (\<lambda>c. c\<lparr>ac_status := CApproved, ac_hash := Some (sha token), ac_org := d_org body,
                         ac_user := Some user_id, ac_scopes := granted,
                         ac_expires_at := now + CODE_TTL\<rparr>) (oauth_codes db)\<rparr>
                in with_event db
                     (record_event ev_id now (d_org body) ''user'' (Some user_id) ''oauth.consent''
                        (Some (''oauth:'' @ ac_client row))
                        [(''client_id'', PStr (ac_client row)), (''scopes'', PList (map PStr granted))] ip db1)
                     (\<lambda>db2. (Inr (construct_redirect_uri (ac_redirect_uri row)
                        [(''code'', Some token), (''state'', ac_state row)]), db2))))"

section \<open>Connected applications\<close>

record grant_out =
  go_token :: ident
  go_client :: ident
  go_client_name :: "string option"
  go_user :: "ident option"
  go_role :: "string option"
  go_scopes :: "string list"
  go_created_at :: stamp
  go_last_used_at :: "stamp option"
  go_expires_at :: "stamp option"

definition listed_token :: "ident \<Rightarrow> stamp \<Rightarrow> cdb \<Rightarrow> oauth_token \<Rightarrow> bool" where
  "listed_token org_id now db t =
     (t_org t = org_id \<and> t_kind t = Refresh \<and> t_revoked_at t = None \<and> grant_live db (t_grant t)
      \<and> get_oauth_client (t_client t) db \<noteq> None \<and> not_expired now (t_expires_at t))"

definition max_stamp :: "stamp list \<Rightarrow> stamp option" where
  "max_stamp xs = (case xs of [] \<Rightarrow> None | y # ys \<Rightarrow> Some (fold max ys y))"

definition used_stamps :: "ident \<Rightarrow> ident \<Rightarrow> cdb \<Rightarrow> stamp list" where
  "used_stamps org_id token_id db =
     List.map_filter t_last_used_at
       (filter (\<lambda>a. t_org a = org_id \<and> t_kind a = Access \<and> t_parent a = Some token_id) (oauth_tokens db))"

definition list_grants :: "ident \<Rightarrow> stamp \<Rightarrow> cdb \<Rightarrow> grant_out list" where
  "list_grants org_id now db =
     map (\<lambda>t. \<lparr>go_token = t_id t, go_client = t_client t,
          go_client_name = (case get_oauth_client (t_client t) db of None \<Rightarrow> None | Some c \<Rightarrow> oc_name c),
          go_user = t_user t,
          go_role = (case t_user t of None \<Rightarrow> None
                     | Some u \<Rightarrow> map_option m_role (get_membership (t_org t) u db)),
          go_scopes = t_scopes t, go_created_at = t_created_at t,
          go_last_used_at = max_stamp ((case t_last_used_at t of None \<Rightarrow> [] | Some u \<Rightarrow> [u])
             @ (case max_stamp (used_stamps org_id (t_id t) db) of None \<Rightarrow> [] | Some u \<Rightarrow> [u])),
          go_expires_at = t_expires_at t\<rparr>)
       (rev (sort_key (\<lambda>t. (t_created_at t, t_id t))
          (filter (listed_token org_id now db) (oauth_tokens db))))"

definition revoke_grant ::
  "stamp \<Rightarrow> ident \<Rightarrow> string option \<Rightarrow> string \<Rightarrow> ident option \<Rightarrow> ident \<Rightarrow> ident \<Rightarrow> unit handler" where
  "revoke_grant now ev_id ip actor_type actor_id org_id token_id db =
     (case sql_first (\<lambda>t. t_id t = token_id \<and> t_org t = org_id \<and> t_kind t = Refresh) (oauth_tokens db) of
        None \<Rightarrow> (Inl not_found, db)
      | Some token \<Rightarrow>
          (case t_grant token of
             None \<Rightarrow> (Inr (), db)
           | Some gid \<Rightarrow>
               (case revoke_oauth_grant now ev_id ip gid ''disconnected'' actor_type actor_id db of
                  (Inl e, _) \<Rightarrow> (Inl e, db)
                | (Inr _, db1) \<Rightarrow> (Inr (), db1))))"

end
