(* ===== verification/OAuthHandlers.thy ===== *)
theory OAuthHandlers
  imports OAuthConsent
begin

text \<open>
  Every handler of \<open>OAuthTokens\<close> and \<open>OAuthConsent\<close> keeps the invariant of the OAuth tables, and what
  the shared steps return: \<open>_revoke_guarded_grant\<close>, \<open>revoke_subtree\<close>, \<open>_issue_pair\<close>,
  \<open>_usable_refresh\<close>.
\<close>

section \<open>The handlers keep the invariant\<close>

definition oauth_inv :: "cdb \<Rightarrow> bool" where
  "oauth_inv db = tables_inv (oauth_grants db) (oauth_tokens db)"

text \<open>Everything but the grant and token tables is irrelevant.\<close>

lemma oauth_inv_frame [simp]:
  "oauth_inv (db\<lparr>oauth_codes := x\<rparr>) = oauth_inv db"
  "oauth_inv (db\<lparr>audit_events := y\<rparr>) = oauth_inv db"
  "oauth_inv (db\<lparr>memberships := z\<rparr>) = oauth_inv db"
  "oauth_inv (db\<lparr>oauth_clients := w\<rparr>) = oauth_inv db"
  by (simp_all add: oauth_inv_def)

text \<open>The database after a revocation, spelled out; it never fails.\<close>

definition after_revocation :: "stamp \<Rightarrow> ident \<Rightarrow> string \<Rightarrow> cdb \<Rightarrow> cdb" where
  "after_revocation now gid reason db =
     db\<lparr>oauth_grants := sql_update (live_grant gid)
          (\<lambda>g. g\<lparr>g_revoked_at := Some now, g_revocation_reason := Some reason\<rparr>) (oauth_grants db),
        oauth_tokens := sql_update (live_token_of gid) (t_revoked_at_update (\<lambda>_. Some now))
          (oauth_tokens db)\<rparr>"

lemma revoke_guarded_grant_eq:
  assumes "get_oauth_grant gid db = Some g"
  shows "\<exists>evs. revoke_guarded_grant now ev ip gid reason at ai db =
        (Inr (rowcount (live_token_of gid) (oauth_tokens db)),
         (after_revocation now gid reason db)\<lparr>audit_events := evs\<rparr>)"
  using assms
  by (auto simp: revoke_guarded_grant_def Let_def record_event_known after_revocation_def
      intro: exI [of _ "audit_events db"])

lemma revoke_guarded_grant_cases:
  obtains (gone) "get_oauth_grant gid db = None"
      "revoke_guarded_grant now ev ip gid reason at ai db = (Inr 0, db)"
    | (revoked) evs where "get_oauth_grant gid db \<noteq> None"
      "revoke_guarded_grant now ev ip gid reason at ai db =
        (Inr (rowcount (live_token_of gid) (oauth_tokens db)),
         (after_revocation now gid reason db)\<lparr>audit_events := evs\<rparr>)"
proof (cases "get_oauth_grant gid db")
  case None
  then show ?thesis by (intro gone) (simp_all add: revoke_guarded_grant_def)
next
  case (Some g)
  with revoke_guarded_grant_eq [OF Some, of now ev ip reason at ai] show ?thesis
    by (auto intro: revoked)
qed

lemma oauth_inv_after_revocation: "oauth_inv db \<Longrightarrow> oauth_inv (after_revocation now gid reason db)"
  by (simp add: oauth_inv_def after_revocation_def tables_inv_revoke_grant)

lemma oauth_inv_revoke_guarded:
  "oauth_inv db \<Longrightarrow> revoke_guarded_grant now ev ip gid reason at ai db = (r, db') \<Longrightarrow> oauth_inv db'"
  by (cases rule: revoke_guarded_grant_cases [of gid db now ev ip reason at ai])
    (auto simp: oauth_inv_after_revocation)

lemma oauth_inv_guard: "oauth_inv db \<Longrightarrow> guard_grant gid db = Some db' \<Longrightarrow> oauth_inv db'"
  by (simp add: oauth_inv_def tables_inv_guard)

lemma oauth_inv_revoke_grant:
  assumes inv: "oauth_inv db" and eq: "revoke_oauth_grant now ev ip gid reason at ai db = (r, db')"
  shows "oauth_inv db'"
proof (cases "guard_grant gid db")
  case None
  with inv eq show ?thesis by (simp add: revoke_oauth_grant_def)
next
  case (Some db1)
  with eq have "revoke_guarded_grant now ev ip gid reason at ai db1 = (r, db')"
    by (simp add: revoke_oauth_grant_def)
  with oauth_inv_guard [OF inv Some] show ?thesis by (rule oauth_inv_revoke_guarded)
qed

lemma oauth_inv_revoke_grants:
  "oauth_inv db \<Longrightarrow> revoke_grants now evs ip gids reason db = (r, db') \<Longrightarrow> oauth_inv db'"
proof (induction gids arbitrary: db evs)
  case (Cons g gs)
  from Cons.prems(2) show ?case
    by (auto split: prod.splits sum.splits intro: Cons.IH dest: oauth_inv_revoke_grant [OF Cons.prems(1)])
qed simp

text \<open>The subtree query: what it returns contains its seed and is closed under children.\<close>

lemma subtree_levels_closed:
  assumes "subtree_levels fuel client toks level = Some ids"
  shows "set level \<subseteq> set ids"
    and "t \<in> set toks \<Longrightarrow> t_client t = client \<Longrightarrow> t_parent t = Some p \<Longrightarrow> p \<in> set ids \<Longrightarrow> t_id t \<in> set ids"
  using assms
proof (induction fuel client toks level arbitrary: ids rule: subtree_levels.induct)
  case (2 n client toks level)
  { case 1 with "2.IH" show ?case by (auto split: if_splits) }
  { case 2
    show ?case
    proof (cases "level = []")
      case False
      with 2 obtain rest where rest: "subtree_levels n client toks (subtree_children client toks level) = Some rest"
        and ids: "ids = level @ rest" by auto
      have sub: "set (subtree_children client toks level) \<subseteq> set rest"
        using "2.IH"(1) False rest by blast
      show ?thesis
      proof (cases "p \<in> set level")
        case True
        with 2 have "t_id t \<in> set (subtree_children client toks level)"
          by (auto simp: subtree_children_def)
        with sub ids show ?thesis by auto
      next
        case notin: False
        with 2 ids have "p \<in> set rest" by auto
        with "2.IH"(2) False 2 rest ids show ?thesis by auto
      qed
    qed (use 2 in auto)
  }
qed simp_all

lemma subtree_levels_client:
  assumes "subtree_levels fuel client toks level = Some ids" and "i \<in> set ids" and "i \<notin> set level"
  shows "\<exists>t \<in> set toks. t_id t = i \<and> t_client t = client"
  using assms
proof (induction fuel client toks level arbitrary: ids rule: subtree_levels.induct)
  case (2 n client toks level)
  then show ?case
    by (cases "i \<in> set (subtree_children client toks level)")
      (auto simp: subtree_children_def split: if_splits)
qed simp

lemma oauth_inv_revoke_subtree:
  assumes inv: "oauth_inv db" and eq: "revoke_subtree fuel client roots now db = Some (n, db')"
  shows "oauth_inv db'"
proof (cases "dedupe roots = []")
  case True
  with eq inv show ?thesis by (simp add: revoke_subtree_def)
next
  case False
  let ?ts = "oauth_tokens db"
  from False eq obtain ids where ids: "subtree_levels fuel client ?ts (subtree_seed client (dedupe roots) ?ts) = Some ids"
    and db': "db' = db\<lparr>oauth_tokens := sql_update (\<lambda>t. t_id t \<in> set ids \<and> t_revoked_at t = None)
      (t_revoked_at_update (\<lambda>_. Some now)) ?ts\<rparr>"
    by (auto simp: revoke_subtree_def Let_def)
  have client: "t_client r = client" if r: "r \<in> set ?ts" "t_id r \<in> set ids" for r
  proof -
    have "\<exists>t \<in> set ?ts. t_id t = t_id r \<and> t_client t = client"
    proof (cases "t_id r \<in> set (subtree_seed client (dedupe roots) ?ts)")
      case True
      then show ?thesis by (auto simp: subtree_seed_def)
    qed (rule subtree_levels_client [OF ids r(2)])
    then obtain t where "t \<in> set ?ts" "t_id t = t_id r" "t_client t = client" by blast
    with r(1) inv show ?thesis
      by (metis keys_inv_def oauth_inv_def tables_invD(1) unique_row)
  qed
  have "tables_inv (oauth_grants db) (sql_update (\<lambda>t. t_id t \<in> set ids \<and> t_revoked_at t = None)
      (t_revoked_at_update (\<lambda>_. Some now)) ?ts)"
  proof (rule tables_inv_revoke)
    fix r a assume "r \<in> set ?ts" "a \<in> set ?ts" "t_id r \<in> set ids \<and> t_revoked_at r = None" "child_of r a"
      and "\<not> tok_revoked a"
    then show "t_id a \<in> set ids \<and> t_revoked_at a = None"
      using client subtree_levels_closed(2) [OF ids] by (simp add: child_of_def tok_revoked_def)
  qed (use inv in \<open>simp_all add: oauth_inv_def\<close>)
  with db' show ?thesis by (simp add: oauth_inv_def)
qed

lemma oauth_inv_code_family:
  "oauth_inv db \<Longrightarrow> revoke_code_family fuel now evs ip row db = (Inr u, db') \<Longrightarrow> oauth_inv db'"
  by (auto simp: revoke_code_family_def Let_def record_event_known
      split: if_splits option.splits prod.splits
      dest: oauth_inv_revoke_grants oauth_inv_revoke_subtree)

lemma oauth_inv_load_code:
  "oauth_inv db \<Longrightarrow> oauth_inv (snd (load_authorization_code sha fuel now evs ip client code db))"
  by (auto simp: load_authorization_code_def Let_def
      split: option.splits prod.splits sum.splits dest: oauth_inv_code_family)


lemma issue_pair_Inr:
  assumes "issue_pair sha ttl mint gid client org usr gscopes ascopes resource parent now used db
      = Inr (resp, db')"
  obtains ts1 ts2 where
    "insert_token (refresh_row ttl (pm_refresh_id mint) (sha (REFRESH_PREFIX @ pm_refresh_random mint))
       gid client org usr gscopes resource parent now used) (oauth_tokens db) = Some ts1"
    "insert_token (access_row ttl (pm_access_id mint) (sha (ACCESS_PREFIX @ pm_access_random mint))
       gid client org usr ascopes resource (pm_refresh_id mint) now) ts1 = Some ts2"
    "db' = db\<lparr>oauth_tokens := ts2\<rparr>"
    "resp = \<lparr>tr_access_token = ACCESS_PREFIX @ pm_access_random mint,
      tr_expires_in = access_ttl ttl div 1000000, tr_scope = py_join '' '' ascopes,
      tr_refresh_token = REFRESH_PREFIX @ pm_refresh_random mint\<rparr>"
  using assms
  by (auto simp: issue_pair_def Let_def new_secret_def refresh_row_def split: option.splits)

lemma row_simps [simp]:
  "t_kind (refresh_row ttl i h g c og u sc rs p n us) = Refresh"
  "t_grant (refresh_row ttl i h g c og u sc rs p n us) = Some g"
  "t_id (refresh_row ttl i h g c og u sc rs p n us) = i"
  "t_hash (refresh_row ttl i h g c og u sc rs p n us) = h"
  "t_parent (refresh_row ttl i h g c og u sc rs p n us) = Some p"
  "\<not> tok_revoked (refresh_row ttl i h g c og u sc rs p n us)"
  "\<not> tok_rotated (refresh_row ttl i h g c og u sc rs p n us)"
  "t_kind (access_row ttl i h g c og u sc rs p n) = Access"
  "t_grant (access_row ttl i h g c og u sc rs p n) = Some g"
  "t_id (access_row ttl i h g c og u sc rs p n) = i"
  "t_hash (access_row ttl i h g c og u sc rs p n) = h"
  "t_parent (access_row ttl i h g c og u sc rs p n) = Some p"
  "\<not> tok_revoked (access_row ttl i h g c og u sc rs p n)"
  "\<not> tok_rotated (access_row ttl i h g c og u sc rs p n)"
  by (simp_all add: refresh_row_def access_row_def tok_revoked_def tok_rotated_def)

lemma of_grant_rows:
  "of_grant g (refresh_row ttl i h gid (g_client g) (g_org g) (g_user g) (g_scopes g) rs p n us)"
  "set sc \<subseteq> set (g_scopes g) \<Longrightarrow>
     of_grant g (access_row ttl i h gid (g_client g) (g_org g) (g_user g) sc rs p n)"
  by (simp_all add: of_grant_def refresh_row_def access_row_def)

lemma oauth_inv_issue:
  assumes inv: "oauth_inv db" and g: "g \<in> set (oauth_grants db)" "\<not> grant_revoked g"
    and none: "rowcount (live_refresh_of (g_id g)) (oauth_tokens db) = 0"
    and sc: "set ascopes \<subseteq> set (g_scopes g)"
    and eq: "issue_pair sha ttl mint (g_id g) (g_client g) (g_org g) (g_user g) (g_scopes g) ascopes
      resource parent now used db = Inr (resp, db')"
  shows "oauth_inv db'"
  using eq
proof (rule issue_pair_Inr)
  fix ts1 ts2
  assume ins: "insert_token (refresh_row ttl (pm_refresh_id mint) (sha (REFRESH_PREFIX @ pm_refresh_random mint))
       (g_id g) (g_client g) (g_org g) (g_user g) (g_scopes g) resource parent now used) (oauth_tokens db) = Some ts1"
    "insert_token (access_row ttl (pm_access_id mint) (sha (ACCESS_PREFIX @ pm_access_random mint))
       (g_id g) (g_client g) (g_org g) (g_user g) ascopes resource (pm_refresh_id mint) now) ts1 = Some ts2"
    and db': "db' = db\<lparr>oauth_tokens := ts2\<rparr>"
  have "tables_inv (oauth_grants db) ts2"
    by (rule tables_inv_issue [OF _ g _ _ _ _ _ _ _ _ _ _ ins none])
      (use inv sc in \<open>simp_all add: oauth_inv_def of_grant_rows\<close>)
  with db' show ?thesis by (simp add: oauth_inv_def)
qed

lemma oauth_inv_exchange_code:
  assumes inv: "oauth_inv db"
  shows "oauth_inv (snd (exchange_authorization_code sha ttl fuel now now' gid mint evs ip client code db))"
proof (cases "rowcount (code_consumable (dc_request_id code) now) (oauth_codes db) \<noteq> 1")
  case True
  with inv show ?thesis
    by (auto simp: exchange_authorization_code_def split: option.splits prod.splits sum.splits
        dest: oauth_inv_code_family)
next
  case False
  let ?g = "\<lparr>g_id = gid, g_client = client, g_org = dc_org code, g_user = Some (dc_subject code),
     g_scopes = dc_scopes code, g_resource = dc_resource code, g_created_at = now, g_revoked_at = None,
     g_revocation_reason = None, g_lock_seq = 0\<rparr>"
  let ?db1 = "db\<lparr>oauth_codes := sql_update (code_consumable (dc_request_id code) now)
                (\<lambda>c. c\<lparr>ac_status := CExchanged, ac_exchanged_at := Some now\<rparr>) (oauth_codes db)\<rparr>"
  show ?thesis
  proof (cases "sql_insert g_id ?g (oauth_grants db)")
    case None
    with False inv show ?thesis by (simp add: exchange_authorization_code_def)
  next
    case (Some gs)
    note new = tables_inv_new_grant [OF inv [unfolded oauth_inv_def] Some]
    show ?thesis
    proof (cases "issue_pair sha ttl mint gid client (dc_org code) (Some (dc_subject code))
        (dc_scopes code) (dc_scopes code) (dc_resource code) (dc_request_id code) now None
        (?db1\<lparr>oauth_grants := gs\<rparr>)")
      case (Inl e)
      with False Some inv show ?thesis by (simp add: exchange_authorization_code_def)
    next
      case (Inr p)
      then obtain resp db2 where p: "p = (resp, db2)" by (cases p)
      have "oauth_inv db2"
        using oauth_inv_issue [of "?db1\<lparr>oauth_grants := gs\<rparr>" ?g "dc_scopes code" sha ttl mint "dc_resource code"
            "dc_request_id code" now None resp db2] new Inr p
        by (simp add: oauth_inv_def grant_revoked_def)
      with False Some Inr p show ?thesis
        by (simp add: exchange_authorization_code_def record_event_known)
    qed
  qed
qed

lemma oauth_inv_issue_of:
  assumes "g_id g = gid" "g_client g = client" "g_org g = org" "g_user g = usr" "g_scopes g = scopes"
    and "issue_pair sha ttl mint gid client org usr scopes ascopes resource parent now used db
      = Inr (resp, db')"
    and "oauth_inv db" "g \<in> set (oauth_grants db)" "\<not> grant_revoked g"
    and "rowcount (live_refresh_of gid) (oauth_tokens db) = 0" "set ascopes \<subseteq> set scopes"
  shows "oauth_inv db'"
  using assms(6-11) unfolding assms(1-5) [symmetric] by (blast intro: oauth_inv_issue)

text \<open>What \<open>_usable_refresh\<close> returns: nothing and possibly a revoked grant, or a live row of a live grant.\<close>

lemma usable_refresh_cases:
  assumes "usable_refresh now now' ev ip gid tid client db = (r, db')"
  obtains (refused) "r = Inr None" "db' = db"
    | (revoked) evs reason where "r = Inr None" "db' = (after_revocation now' gid reason db)\<lparr>audit_events := evs\<rparr>"
    | (usable) row grant where "r = Inr (Some row)" "db' = db" "row \<in> set (oauth_tokens db)"
        "t_id row = tid" "t_grant row = Some gid" "t_client row = client" "t_kind row = Refresh"
        "\<not> tok_revoked row" "\<not> tok_rotated row" "not_expired now (t_expires_at row)"
        "grant \<in> set (oauth_grants db)" "g_id grant = gid" "\<not> grant_revoked grant"
        "\<exists>u. t_user row = Some u \<and> get_membership (t_org row) u db \<noteq> None"
proof (cases "sql_first (\<lambda>t. t_id t = tid \<and> t_grant t = Some gid \<and> t_client t = client
                          \<and> t_kind t = Refresh) (oauth_tokens db)")
  case None
  with assms show ?thesis by (intro refused) (simp_all add: usable_refresh_def)
next
  case (Some row)
  note row = sql_first_Some [OF Some]
  show ?thesis
  proof (cases "get_oauth_grant gid db")
    case None
    with assms Some show ?thesis by (intro refused) (simp_all add: usable_refresh_def)
  next
    case g: (Some grant)
    then have grant: "grant \<in> set (oauth_grants db)" "g_id grant = gid"
      by (auto simp: get_oauth_grant_def dest: sql_first_Some)
    show ?thesis
    proof (cases "classify_refresh now db row grant")
      case Usable
      with assms Some g have "r = Inr (Some row)" "db' = db" by (simp_all add: usable_refresh_def)
      moreover from Usable have "\<not> grant_revoked grant" "\<not> tok_revoked row" "\<not> tok_rotated row"
        "not_expired now (t_expires_at row)" "\<exists>u. t_user row = Some u \<and> get_membership (t_org row) u db \<noteq> None"
        by (auto simp: classify_refresh_def grant_revoked_def tok_revoked_def tok_rotated_def
            split: if_splits option.splits)
      ultimately show ?thesis using row grant by (intro usable) auto
    next
      case Refused
      with assms Some g show ?thesis by (intro refused) (simp_all add: usable_refresh_def)
    next
      case (RevokeGrant reason)
      obtain n evs where "revoke_guarded_grant now' ev ip gid reason ''system'' None db =
          (Inr n, (after_revocation now' gid reason db)\<lparr>audit_events := evs\<rparr>)"
        using revoke_guarded_grant_eq [OF g, of now' ev ip reason "''system''" None] by blast
      with assms Some g RevokeGrant show ?thesis by (intro revoked) (auto simp: usable_refresh_def)
    qed
  qed
qed

lemma oauth_inv_usable:
  assumes "oauth_inv db" and "usable_refresh now now' ev ip gid tid client db = (r, db')"
  shows "oauth_inv db'"
  using assms(2) by (cases rule: usable_refresh_cases) (use assms(1) in \<open>auto simp: oauth_inv_after_revocation\<close>)

lemma oauth_inv_load_refresh_txn:
  assumes inv: "oauth_inv db"
  shows "oauth_inv (snd (load_refresh_txn now now' ev ip client raw tid gid db))"
proof (cases "guard_grant gid db")
  case (Some db1)
  obtain r db2 where u: "usable_refresh now now' ev ip gid tid client db1 = (r, db2)" by fastforce
  with oauth_inv_usable [OF oauth_inv_guard [OF inv Some] u] inv Some show ?thesis
    by (cases r) (simp_all add: load_refresh_txn_def)
qed (simp add: load_refresh_txn_def inv)

text \<open>Rotation: the presented row and its live access tokens are revoked in one step.\<close>

lemma tables_inv_rotate:
  fixes now :: stamp
  assumes inv: "tables_inv gs ts" and row: "row \<in> set ts" "t_kind row = Refresh" "t_grant row = Some gid"
    "t_client row = client" "\<not> tok_revoked row"
  defines "toks1 \<equiv> sql_update (rotatable (t_id row))
     (\<lambda>t. t\<lparr>t_revoked_at := Some now, t_rotated_at := Some now\<rparr>) ts"
  defines "toks2 \<equiv> sql_update (child_access client (t_id row)) (t_revoked_at_update (\<lambda>_. Some now)) toks1"
  shows "tables_inv gs toks2" and "rowcount (live_refresh_of gid) toks2 = 0"
proof -
  let ?f = "\<lambda>t. if rotatable (t_id row) t then t\<lparr>t_revoked_at := Some now, t_rotated_at := Some now\<rparr>
     else t_revoked_at_update (\<lambda>_. Some now) t"
  let ?hit = "\<lambda>t. rotatable (t_id row) t \<or> child_access client (t_id row) t"
  have eq: "toks2 = sql_update ?hit ?f ts"
    by (auto simp: toks2_def toks1_def sql_update_def child_access_def)
  have rv: "revoking ?f" by (simp add: revoking_def token_core_def tok_revoked_def)
  have uniq: "t = row" if "t \<in> set ts" "t_id t = t_id row" for t
    using tables_invD(1) [OF inv] row(1) that by (metis keys_inv_def unique_row)
  show inv2: "tables_inv gs toks2"
    unfolding eq using inv rv
  proof (rule tables_inv_revoke)
    fix r a assume ra: "r \<in> set ts" "a \<in> set ts" "?hit r" "child_of r a" "\<not> tok_revoked a"
    from ra(3,4) have "t_id r = t_id row" by (auto simp: child_of_def child_access_def rotatable_def)
    with ra uniq have "r = row" by blast
    with ra row show "?hit a" by (simp add: child_of_def child_access_def tok_revoked_def)
  qed
  have rot: "rotatable (t_id row) row"
  proof -
    have "\<not> tok_rotated row" using row(5) rotatedD [OF tables_invD(4) [OF inv] row(1)] by blast
    with row(5) show ?thesis by (simp add: rotatable_def tok_revoked_def tok_rotated_def)
  qed
  show "rowcount (live_refresh_of gid) toks2 = 0"
  proof -
    have "t = row" if "t \<in> set ts" "live_refresh_of gid t" for t
    proof (rule ccontr)
      assume "t \<noteq> row"
      with that(1) row(1) have "t_id t \<noteq> t_id row" using uniq by blast
      have "row \<in> set (filter (live_refresh_of gid) ts)" "t \<in> set (filter (live_refresh_of gid) ts)"
        using row that by (auto simp: live_refresh_of_def)
      moreover have "length (filter (live_refresh_of gid) ts) \<le> 1"
        using singleD [OF tables_invD(6) [OF inv]] by (simp add: rowcount_def)
      ultimately show False using \<open>t \<noteq> row\<close>
        by (cases "filter (live_refresh_of gid) ts") auto
    qed
    then have "\<not> (live_refresh_of gid t \<and> \<not> ?hit t)" if "t \<in> set ts" for t using that rot by blast
    then show ?thesis
      unfolding eq by (auto simp: table_simps live_refresh_of_def tok_revoked_def)
  qed
qed

lemma oauth_inv_exchange_refresh:
  assumes inv: "oauth_inv db"
  shows "oauth_inv (snd (exchange_refresh_txn sha ttl t1 t2 now mint ev ip client gid tid scopes db))"
proof (cases "guard_grant gid db")
  case None
  with inv show ?thesis by (simp add: exchange_refresh_txn_def)
next
  case (Some db1)
  obtain r db2 where u: "usable_refresh t1 t2 ev ip gid tid client db1 = (r, db2)" by fastforce
  have inv2: "oauth_inv db2" by (rule oauth_inv_usable [OF oauth_inv_guard [OF inv Some] u])
  from u show ?thesis
  proof (cases rule: usable_refresh_cases)
    case refused
    with Some u inv2 show ?thesis by (simp add: exchange_refresh_txn_def)
  next
    case (revoked evs reason)
    with Some u inv2 show ?thesis by (simp add: exchange_refresh_txn_def)
  next
    case (usable row grant)
    obtain r' db3 where u2: "usable_refresh t1 t2 ev ip gid (t_id row) client db2 = (r', db3)" by fastforce
    have inv3: "oauth_inv db3" by (rule oauth_inv_usable [OF inv2 u2])
    let ?req = "if dedupe scopes = [] then t_scopes row else dedupe scopes"
    let ?toks1 = "sql_update (rotatable (t_id row))
       (\<lambda>t. t\<lparr>t_revoked_at := Some now, t_rotated_at := Some now\<rparr>) (oauth_tokens db2)"
    let ?toks2 = "sql_update (child_access client (t_id row)) (t_revoked_at_update (\<lambda>_. Some now)) ?toks1"
    have og: "of_grant grant row"
    proof -
      obtain g where "g \<in> set (oauth_grants db1)" "g_id g = gid" "of_grant g row"
        using consentD [OF tables_invD(2)] inv2 usable by (metis oauth_inv_def)
      with usable inv2 show ?thesis by (metis keys_inv_def oauth_inv_def tables_invD(1) unique_row)
    qed
    have rot: "tables_inv (oauth_grants db2) ?toks2" "rowcount (live_refresh_of gid) ?toks2 = 0"
      using tables_inv_rotate [of "oauth_grants db2" "oauth_tokens db2" row gid client now] inv2 usable
      by (simp_all add: oauth_inv_def)
    have f: "g_id grant = gid" "g_client grant = client" "g_org grant = t_org row"
      "g_user grant = t_user row" "g_scopes grant = t_scopes row"
      using og usable by (simp_all add: of_grant_def)
    have issue: "oauth_inv db4"
      if sub: "set ?req \<subseteq> set (t_scopes row)"
        and i: "issue_pair sha ttl mint gid client (t_org row) (t_user row) (t_scopes row) ?req
          (t_resource row) (t_id row) now (Some now) (db2\<lparr>oauth_tokens := ?toks2\<rparr>) = Inr (resp, db4)" for resp db4
      using oauth_inv_issue_of [OF f i] rot usable sub by (simp add: oauth_inv_def)
    show ?thesis
    proof (cases "set ?req \<subseteq> set (t_scopes row) \<and> rowcount (rotatable (t_id row)) (oauth_tokens db2) = 1")
      case False
      with Some u usable(1) u2 inv inv3 show ?thesis
        by (cases r') (simp_all add: exchange_refresh_txn_def Let_def)
    next
      case True
      show ?thesis
      proof (cases "issue_pair sha ttl mint gid client (t_org row) (t_user row) (t_scopes row) ?req
          (t_resource row) (t_id row) now (Some now) (db2\<lparr>oauth_tokens := ?toks2\<rparr>)")
        case (Inl e)
        with True Some u usable(1) inv show ?thesis
          by (simp add: exchange_refresh_txn_def Let_def)
      next
        case (Inr p)
        then obtain resp db4 where p: "p = (resp, db4)" by (cases p)
        from issue Inr p True have "oauth_inv db4" by blast
        with True Some u usable(1) Inr p show ?thesis
          by (simp add: exchange_refresh_txn_def Let_def record_event_known)
      qed
    qed
  qed
qed

end
