(* ===== verification/OAuthRuns.thy ===== *)
theory OAuthRuns
  imports OAuthHandlers
begin

text \<open>
  The authorization server as a machine: one event per transaction, arbitrary interleavings. The
  invariant of the OAuth tables holds in every run; a revoked grant stays dead unless its identifier
  is minted again; the table of codes keeps its key, and a redeemed code stays spent.
\<close>

section \<open>Every handler keeps the invariant\<close>

lemma oauth_inv_revoke_token_txn:
  assumes inv: "oauth_inv db"
  shows "oauth_inv (snd (revoke_token_txn now ev ip client gid tid db))"
proof (cases "guard_grant gid db")
  case None
  with inv show ?thesis by (simp add: revoke_token_txn_def)
next
  case (Some db1)
  note inv1 = oauth_inv_guard [OF inv Some]
  show ?thesis
  proof (cases "sql_first (\<lambda>t. t_id t = tid \<and> t_grant t = Some gid \<and> t_client t = client) (oauth_tokens db1)")
    case None
    with Some inv show ?thesis by (simp add: revoke_token_txn_def)
  next
    case row: (Some row)
    then have r: "row \<in> set (oauth_tokens db1)" by (rule sql_first_Some)
    show ?thesis
    proof (cases "t_kind row")
      case Refresh
      obtain x db2 where "revoke_guarded_grant now ev ip gid ''client_revoked'' ''user'' (t_user row) db1 = (x, db2)"
        by fastforce
      moreover from oauth_inv_revoke_guarded [OF inv1 this] have "oauth_inv db2" .
      ultimately show ?thesis using Some row Refresh inv
        by (cases x) (simp_all add: revoke_token_txn_def)
    next
      case Access
      have "tables_inv (oauth_grants db1) (sql_update (\<lambda>t. t_id t = t_id row \<and> t_revoked_at t = None)
          (t_revoked_at_update (\<lambda>_. Some now)) (oauth_tokens db1))"
      proof (rule tables_inv_revoke)
        fix a b assume ab: "a \<in> set (oauth_tokens db1)" "t_id a = t_id row \<and> t_revoked_at a = None"
          "child_of a b"
        from inv1 have "distinct (map t_id (oauth_tokens db1))"
          by (simp add: oauth_inv_def tables_inv_def keys_inv_def)
        with ab(1,2) r have "a = row" by (auto dest: unique_row)
        with ab(3) Access show "t_id b = t_id row \<and> t_revoked_at b = None" by (simp add: child_of_def)
      qed (use inv1 in \<open>simp_all add: oauth_inv_def\<close>)
      with Some row Access show ?thesis
        by (simp add: revoke_token_txn_def Let_def record_event_known oauth_inv_def)
    qed
  qed
qed

lemma oauth_inv_principal: "oauth_inv db \<Longrightarrow> oauth_inv (snd (principal_for sha now token db))"
  by (auto simp: principal_for_def Let_def oauth_inv_def split: option.splits prod.splits
      intro!: tables_inv_touch)

lemma oauth_inv_purge: "oauth_inv db \<Longrightarrow> oauth_inv (snd (purge_expired now db))"
  unfolding purge_expired_def Let_def oauth_inv_def snd_conv
  by (simp, rule tables_inv_delete_grants, rule tables_inv_delete_tokens) (simp_all add: table_simps)

lemma oauth_inv_decide: "oauth_inv (snd (decide sha cru now token ev ip usr rid body db)) = oauth_inv db"
  by (auto simp: decide_def Let_def record_event_known split: option.splits)

lemma oauth_inv_authorize: "oauth_inv (snd (authorize pv now rid client cscope params db)) = oauth_inv db"
  by (auto simp: authorize_def Let_def split: option.splits)

lemma oauth_inv_register: "oauth_inv (snd (register_client dev now ev ip info db)) = oauth_inv db"
  by (auto simp: register_client_def Let_def record_event_known split: option.splits)

lemma oauth_inv_disconnect:
  "oauth_inv db \<Longrightarrow> oauth_inv (snd (revoke_grant now ev ip at ai org tid db))"
  by (auto simp: revoke_grant_def split: option.splits prod.splits sum.splits
      dest: oauth_inv_revoke_grant)


section \<open>Runs\<close>

text \<open>One event per transaction; the arguments are arbitrary, so a run is any interleaving of requests of
  any number of clients, at any times, with any secrets and identifiers. \<open>SetMemberships\<close> is every change
  the rest of the application makes to the memberships.\<close>

datatype oauth_event =
    Register bool stamp ident "string option" client_info
  | Authorize oauth_provider stamp ident ident "string option" auth_params
  | Decide stamp string ident "string option" ident ident decision
  | LoadCode nat stamp "ident list" "string option" ident string
  | ExchangeCode nat stamp stamp ident pair_mint "ident list" "string option" ident auth_code
  | LoadRefresh stamp stamp ident "string option" ident string ident ident
  | ExchangeRefresh stamp stamp stamp pair_mint ident "string option" ident ident ident "string list"
  | RevokeToken stamp ident "string option" ident ident ident
  | Disconnect stamp ident "string option" string "ident option" ident ident
  | UseToken stamp string
  | Purge stamp
  | SetMemberships "membership list"

fun oauth_step ::
  "(string \<Rightarrow> string) \<Rightarrow> (string \<Rightarrow> (string \<times> string option) list \<Rightarrow> string) \<Rightarrow> oauth_ttls
    \<Rightarrow> oauth_event \<Rightarrow> cdb \<Rightarrow> cdb" where
  "oauth_step sha cru ttl (Register dev now ev ip info) db = snd (register_client dev now ev ip info db)"
| "oauth_step sha cru ttl (Authorize pv now rid client cscope params) db =
     snd (authorize pv now rid client cscope params db)"
| "oauth_step sha cru ttl (Decide now token ev ip usr rid body) db =
     snd (decide sha cru now token ev ip usr rid body db)"
| "oauth_step sha cru ttl (LoadCode fuel now evs ip client code) db =
     snd (load_authorization_code sha fuel now evs ip client code db)"
| "oauth_step sha cru ttl (ExchangeCode fuel now now' gid mint evs ip client code) db =
     snd (exchange_authorization_code sha ttl fuel now now' gid mint evs ip client code db)"
| "oauth_step sha cru ttl (LoadRefresh now now' ev ip client raw tid gid) db =
     snd (load_refresh_txn now now' ev ip client raw tid gid db)"
| "oauth_step sha cru ttl (ExchangeRefresh t1 t2 now mint ev ip client gid tid scopes) db =
     snd (exchange_refresh_txn sha ttl t1 t2 now mint ev ip client gid tid scopes db)"
| "oauth_step sha cru ttl (RevokeToken now ev ip client gid tid) db =
     snd (revoke_token_txn now ev ip client gid tid db)"
| "oauth_step sha cru ttl (Disconnect now ev ip at ai org tid) db =
     snd (revoke_grant now ev ip at ai org tid db)"
| "oauth_step sha cru ttl (UseToken now token) db = snd (principal_for sha now token db)"
| "oauth_step sha cru ttl (Purge now) db = snd (purge_expired now db)"
| "oauth_step sha cru ttl (SetMemberships ms) db = db\<lparr>memberships := ms\<rparr>"

lemma oauth_step_inv: "oauth_inv db \<Longrightarrow> oauth_inv (oauth_step sha cru ttl e db)"
  by (cases e) (simp_all add: oauth_inv_decide oauth_inv_authorize oauth_inv_register oauth_inv_load_code
      oauth_inv_exchange_code oauth_inv_load_refresh_txn oauth_inv_exchange_refresh
      oauth_inv_revoke_token_txn oauth_inv_disconnect oauth_inv_principal oauth_inv_purge)

interpretation tokens: machine "oauth_step sha cru ttl" oauth_inv for sha cru ttl
  by unfold_locales (rule oauth_step_inv)

lemma oauth_inv_empty: "oauth_inv empty_cdb"
  by (simp add: oauth_inv_def empty_cdb_def tables_inv_def keys_inv_def consent_inv_def revoked_inv_def
      rotated_inv_def child_inv_def single_inv_def)

section \<open>A revoked grant stays dead\<close>

definition dead :: "ident \<Rightarrow> oauth_grant list \<Rightarrow> oauth_token list \<Rightarrow> bool" where
  "dead gid gs ts = ((\<forall>g \<in> set gs. g_id g = gid \<longrightarrow> grant_revoked g) \<and>
     (\<forall>t \<in> set ts. t_grant t = Some gid \<longrightarrow> tok_revoked t))"

definition grant_dead :: "ident \<Rightarrow> cdb \<Rightarrow> bool" where
  "grant_dead gid db = dead gid (oauth_grants db) (oauth_tokens db)"

lemma grant_dead_frame [simp]:
  "grant_dead gid (db\<lparr>oauth_codes := x\<rparr>) = grant_dead gid db"
  "grant_dead gid (db\<lparr>audit_events := y\<rparr>) = grant_dead gid db"
  "grant_dead gid (db\<lparr>memberships := z\<rparr>) = grant_dead gid db"
  "grant_dead gid (db\<lparr>oauth_clients := w\<rparr>) = grant_dead gid db"
  by (simp_all add: grant_dead_def)

lemma dead_tokens_update:
  assumes "dead gid gs ts" and "\<And>t. t_grant (f t) = t_grant t" and "\<And>t. tok_revoked t \<Longrightarrow> tok_revoked (f t)"
  shows "dead gid gs (sql_update P f ts)"
  using assms by (auto simp: dead_def table_simps)

lemma dead_grants_update:
  assumes "dead gid gs ts" and "\<And>g. g_id (f g) = g_id g" and "\<And>g. grant_revoked g \<Longrightarrow> grant_revoked (f g)"
  shows "dead gid (sql_update P f gs) ts"
  using assms by (auto simp: dead_def table_simps)

lemma dead_delete: "dead gid gs ts \<Longrightarrow> dead gid (sql_delete P gs) (sql_delete Q ts)"
  by (auto simp: dead_def table_simps)

lemma dead_insert_token:
  "dead gid gs ts \<Longrightarrow> insert_token t ts = Some ts' \<Longrightarrow> t_grant t \<noteq> Some gid \<Longrightarrow> dead gid gs ts'"
  by (auto simp: dead_def insert_token_def sql_insert_def split: if_splits)

lemma dead_insert_grant:
  "dead gid gs ts \<Longrightarrow> sql_insert g_id g gs = Some gs' \<Longrightarrow> g_id g \<noteq> gid \<Longrightarrow> dead gid gs' ts"
  by (auto simp: dead_def sql_insert_def split: if_splits)

lemma dead_after_revocation: "grant_dead gid db \<Longrightarrow> grant_dead gid (after_revocation now gid' reason db)"
  unfolding grant_dead_def after_revocation_def
  by (simp, rule dead_tokens_update, rule dead_grants_update, assumption)
    (simp_all only: tok_revoked_def grant_revoked_def, simp_all)

text \<open>The revocation itself makes the grant dead.\<close>

lemma after_revocation_dead: "grant_dead gid (after_revocation now gid reason db)"
  unfolding grant_dead_def dead_def after_revocation_def
  by (simp, intro conjI ballI impI; erule in_sql_updateE)
    (simp_all add: live_grant_def live_token_of_def grant_revoked_def tok_revoked_def)

lemma guard_grant_Some:
  assumes "guard_grant gid db = Some db'"
  shows "db' = db\<lparr>oauth_grants := sql_update (\<lambda>g. g_id g = gid) (\<lambda>g. g\<lparr>g_lock_seq := g_lock_seq g + 1\<rparr>)
    (oauth_grants db)\<rparr>"
  using assms by (simp add: guard_grant_def Let_def split: if_splits)

lemma dead_guard:
  assumes "grant_dead gid db" and "guard_grant gid' db = Some db'"
  shows "grant_dead gid db'"
  using dead_grants_update [OF assms(1) [unfolded grant_dead_def],
      of "\<lambda>g. g\<lparr>g_lock_seq := g_lock_seq g + 1\<rparr>" "\<lambda>g. g_id g = gid'"]
  by (simp add: guard_grant_Some [OF assms(2)] grant_dead_def grant_revoked_def)

lemma dead_revoke_guarded:
  "grant_dead gid db \<Longrightarrow> revoke_guarded_grant now ev ip gid' reason at ai db = (r, db') \<Longrightarrow> grant_dead gid db'"
  by (cases rule: revoke_guarded_grant_cases [of gid' db now ev ip reason at ai])
    (auto simp: dead_after_revocation)

lemma dead_revoke_grant:
  assumes "grant_dead gid db" and "revoke_oauth_grant now ev ip gid' reason at ai db = (r, db')"
  shows "grant_dead gid db'"
proof (cases "guard_grant gid' db")
  case (Some db1)
  with assms(2) have "revoke_guarded_grant now ev ip gid' reason at ai db1 = (r, db')"
    by (simp add: revoke_oauth_grant_def)
  with dead_guard [OF assms(1) Some] show ?thesis by (rule dead_revoke_guarded)
qed (use assms in \<open>simp add: revoke_oauth_grant_def\<close>)

lemma dead_revoke_grants:
  "grant_dead gid db \<Longrightarrow> revoke_grants now evs ip gids reason db = (r, db') \<Longrightarrow> grant_dead gid db'"
proof (induction gids arbitrary: db evs)
  case (Cons g gs)
  from Cons.prems(2) show ?case
    by (auto split: prod.splits sum.splits intro: Cons.IH dest: dead_revoke_grant [OF Cons.prems(1)])
qed simp

lemma dead_revoke_subtree:
  "grant_dead gid db \<Longrightarrow> revoke_subtree fuel client roots now db = Some (n, db') \<Longrightarrow> grant_dead gid db'"
  by (auto simp: revoke_subtree_def Let_def grant_dead_def tok_revoked_def split: if_splits
      intro!: dead_tokens_update)

lemma dead_code_family:
  "grant_dead gid db \<Longrightarrow> revoke_code_family fuel now evs ip row db = (Inr u, db') \<Longrightarrow> grant_dead gid db'"
  by (auto simp: revoke_code_family_def Let_def record_event_known
      split: if_splits option.splits prod.splits
      dest: dead_revoke_grants dead_revoke_subtree)

lemma dead_usable:
  assumes "grant_dead gid db" and "usable_refresh now now' ev ip gid' tid client db = (r, db')"
  shows "grant_dead gid db'" and "r = Inr (Some row) \<Longrightarrow> gid' \<noteq> gid"
proof -
  show "grant_dead gid db'"
    using assms(2) by (cases rule: usable_refresh_cases) (use assms(1) in \<open>auto simp: dead_after_revocation\<close>)
  show "r = Inr (Some row) \<Longrightarrow> gid' \<noteq> gid"
    using assms(2) by (cases rule: usable_refresh_cases) (use assms(1) in \<open>auto simp: grant_dead_def dead_def\<close>)
qed

lemma dead_issue:
  assumes "grant_dead gid db" and "gid' \<noteq> gid"
    and "issue_pair sha ttl mint gid' client org usr gs as resource parent now used db = Inr (resp, db')"
  shows "grant_dead gid db'"
  using assms(3)
proof (rule issue_pair_Inr)
  fix ts1 ts2
  assume ins: "insert_token (refresh_row ttl (pm_refresh_id mint) (sha (REFRESH_PREFIX @ pm_refresh_random mint))
       gid' client org usr gs resource parent now used) (oauth_tokens db) = Some ts1"
    "insert_token (access_row ttl (pm_access_id mint) (sha (ACCESS_PREFIX @ pm_access_random mint))
       gid' client org usr as resource (pm_refresh_id mint) now) ts1 = Some ts2"
    and db': "db' = db\<lparr>oauth_tokens := ts2\<rparr>"
  from assms(1) have "dead gid (oauth_grants db) (oauth_tokens db)" by (simp add: grant_dead_def)
  from dead_insert_token [OF dead_insert_token [OF this ins(1)] ins(2)] assms(2) db'
  show ?thesis by (simp add: grant_dead_def)
qed


text \<open>What a refresh exchange does: nothing, what \<open>_usable_refresh\<close> did, or rotate and issue.\<close>

definition rotated_tokens :: "stamp \<Rightarrow> ident \<Rightarrow> ident \<Rightarrow> oauth_token list \<Rightarrow> oauth_token list" where
  "rotated_tokens now client tid toks =
     sql_update (child_access client tid) (t_revoked_at_update (\<lambda>_. Some now))
       (sql_update (rotatable tid) (\<lambda>t. t\<lparr>t_revoked_at := Some now, t_rotated_at := Some now\<rparr>) toks)"

definition requested_of :: "oauth_token \<Rightarrow> string list \<Rightarrow> string list" where
  "requested_of row scopes = (if dedupe scopes = [] then t_scopes row else dedupe scopes)"

lemma exchange_refresh_cases:
  assumes eq: "exchange_refresh_txn sha ttl t1 t2 now mint ev ip client gid tid scopes db = (r, db')"
  obtains (failed) e where "r = Inl e" "db' = db"
    | (refused) e db1 x where "r = Inl e" "guard_grant gid db = Some db1"
        "usable_refresh t1 t2 ev ip gid tid client db1 = (x, db')"
    | (issued) resp db1 row grant db3 evs where "r = Inr resp" "guard_grant gid db = Some db1"
        "usable_refresh t1 t2 ev ip gid tid client db1 = (Inr (Some row), db1)"
        "row \<in> set (oauth_tokens db1)"
        "t_id row = tid" "t_grant row = Some gid" "t_client row = client" "t_kind row = Refresh"
        "\<not> tok_revoked row" "\<not> tok_rotated row" "not_expired t1 (t_expires_at row)"
        "grant \<in> set (oauth_grants db1)" "g_id grant = gid" "\<not> grant_revoked grant"
        "set (requested_of row scopes) \<subseteq> set (t_scopes row)"
        "issue_pair sha ttl mint gid client (t_org row) (t_user row) (t_scopes row)
           (requested_of row scopes) (t_resource row) tid now (Some now)
           (db1\<lparr>oauth_tokens := rotated_tokens now client tid (oauth_tokens db1)\<rparr>) = Inr (resp, db3)"
        "db' = db3\<lparr>audit_events := evs\<rparr>"
proof (cases "guard_grant gid db")
  case None
  with eq show ?thesis by (intro failed) (auto simp: exchange_refresh_txn_def)
next
  case g: (Some db1)
  obtain x db2 where u: "usable_refresh t1 t2 ev ip gid tid client db1 = (x, db2)" by fastforce
  from u show ?thesis
  proof (cases rule: usable_refresh_cases)
    case refused
    with g u eq show ?thesis by (intro that(2)) (auto simp: exchange_refresh_txn_def)
  next
    case revoked
    with g u eq show ?thesis by (intro that(2)) (auto simp: exchange_refresh_txn_def)
  next
    case (usable row grant)
    from usable u have u2: "usable_refresh t1 t2 ev ip gid tid client db1 = (Inr (Some row), db1)" by simp
    note eq' = eq [unfolded exchange_refresh_txn_def g Let_def, simplified,
      unfolded u2, simplified, folded requested_of_def, unfolded usable(4) rotated_tokens_def [symmetric]]
    show ?thesis
    proof (cases "set (requested_of row scopes) \<subseteq> set (t_scopes row)")
      case False
      with eq' show ?thesis by (intro failed [of "OAuthError ''TokenError'' ''invalid_scope''"]) simp_all
    next
      case sub: True
      show ?thesis
      proof (cases "rowcount (rotatable tid) (oauth_tokens db1) = 1")
        case False
        with eq' sub u2 have "r = Inl invalid_grant" "db' = db1" by simp_all
        with u2 g show ?thesis by (intro that(2)) simp_all
      next
        case one: True
        show ?thesis
        proof (cases "issue_pair sha ttl mint gid client (t_org row) (t_user row) (t_scopes row)
           (requested_of row scopes) (t_resource row) tid now (Some now)
           (db1\<lparr>oauth_tokens := rotated_tokens now client tid (oauth_tokens db1)\<rparr>)")
          case (Inl e)
          with eq' sub one show ?thesis by (intro failed [of e]) simp_all
        next
          case (Inr p)
          then obtain resp db3 where p: "p = (resp, db3)" by (cases p)
          from eq' sub one Inr p have "r = Inr resp" "\<exists>evs. db' = db3\<lparr>audit_events := evs\<rparr>"
            by (auto simp: record_event_known)
          then obtain evs where "r = Inr resp" "db' = db3\<lparr>audit_events := evs\<rparr>" by blast
          with g u2 usable sub Inr p show ?thesis by (intro issued) simp_all
        qed
      qed
    qed
  qed
qed

lemma grant_dead_tokens_update:
  assumes "grant_dead gid db" and "\<And>t. t_grant (f t) = t_grant t" and "\<And>t. tok_revoked t \<Longrightarrow> tok_revoked (f t)"
  shows "grant_dead gid (db\<lparr>oauth_tokens := sql_update P f (oauth_tokens db)\<rparr>)"
  using dead_tokens_update [OF assms(1) [unfolded grant_dead_def] assms(2,3)] by (simp add: grant_dead_def)

lemma dead_rotated_tokens:
  "grant_dead gid db \<Longrightarrow>
    grant_dead gid (db\<lparr>oauth_tokens := rotated_tokens now client tid (oauth_tokens db)\<rparr>)"
  unfolding grant_dead_def rotated_tokens_def
  by (simp, intro dead_tokens_update) (simp_all add: tok_revoked_def)

lemma dead_exchange_refresh:
  assumes dead: "grant_dead gid db"
  shows "grant_dead gid (snd (exchange_refresh_txn sha ttl t1 t2 now mint ev ip client gid' tid scopes db))"
proof -
  obtain r db' where eq: "exchange_refresh_txn sha ttl t1 t2 now mint ev ip client gid' tid scopes db = (r, db')"
    by fastforce
  from eq have "grant_dead gid db'"
  proof (cases rule: exchange_refresh_cases)
    case (refused e db1 x)
    then show ?thesis using dead_usable(1) [OF dead_guard [OF dead]] by blast
  next
    case (issued resp db1 row grant db3 evs)
    from dead_guard [OF dead issued(2)] have d1: "grant_dead gid db1" .
    from dead_usable(2) [OF d1 issued(3) refl] have "gid' \<noteq> gid" .
    from dead_issue [OF dead_rotated_tokens [OF d1] this issued(16)] issued(17) show ?thesis by simp
  qed (simp add: dead)
  with eq show ?thesis by simp
qed

lemma dead_exchange_code:
  assumes dead: "grant_dead gid db" and "gid' \<noteq> gid"
  shows "grant_dead gid (snd (exchange_authorization_code sha ttl fuel now now' gid' mint evs ip client code db))"
proof (cases "rowcount (code_consumable (dc_request_id code) now) (oauth_codes db) \<noteq> 1")
  case True
  with dead show ?thesis
    by (auto simp: exchange_authorization_code_def split: option.splits prod.splits sum.splits
        dest: dead_code_family)
next
  case False
  let ?g = "\<lparr>g_id = gid', g_client = client, g_org = dc_org code, g_user = Some (dc_subject code),
     g_scopes = dc_scopes code, g_resource = dc_resource code, g_created_at = now, g_revoked_at = None,
     g_revocation_reason = None, g_lock_seq = 0\<rparr>"
  let ?db1 = "db\<lparr>oauth_codes := sql_update (code_consumable (dc_request_id code) now)
                (\<lambda>c. c\<lparr>ac_status := CExchanged, ac_exchanged_at := Some now\<rparr>) (oauth_codes db)\<rparr>"
  show ?thesis
  proof (cases "sql_insert g_id ?g (oauth_grants db)")
    case None
    with False dead show ?thesis by (simp add: exchange_authorization_code_def)
  next
    case (Some gs)
    have d1: "grant_dead gid (?db1\<lparr>oauth_grants := gs\<rparr>)"
      using dead_insert_grant [OF dead [unfolded grant_dead_def] Some] assms(2) by (simp add: grant_dead_def)
    show ?thesis
    proof (cases "issue_pair sha ttl mint gid' client (dc_org code) (Some (dc_subject code))
        (dc_scopes code) (dc_scopes code) (dc_resource code) (dc_request_id code) now None
        (?db1\<lparr>oauth_grants := gs\<rparr>)")
      case (Inl e)
      with False Some dead show ?thesis by (simp add: exchange_authorization_code_def)
    next
      case (Inr p)
      then obtain resp db2 where p: "p = (resp, db2)" by (cases p)
      from dead_issue [OF d1 assms(2)] Inr p have "grant_dead gid db2" by blast
      with False Some Inr p show ?thesis
        by (simp add: exchange_authorization_code_def record_event_known)
    qed
  qed
qed

lemma dead_load_refresh:
  assumes "grant_dead gid db"
  shows "grant_dead gid (snd (load_refresh_txn now now' ev ip client raw tid gid' db))"
proof (cases "guard_grant gid' db")
  case (Some db1)
  obtain r db2 where u: "usable_refresh now now' ev ip gid' tid client db1 = (r, db2)" by fastforce
  from dead_usable(1) [OF dead_guard [OF assms Some] u] assms Some u show ?thesis
    by (cases r) (simp_all add: load_refresh_txn_def)
qed (use assms in \<open>simp add: load_refresh_txn_def\<close>)

lemma dead_revoke_token:
  assumes dead: "grant_dead gid db"
  shows "grant_dead gid (snd (revoke_token_txn now ev ip client gid' tid db))"
proof (cases "guard_grant gid' db")
  case None
  with dead show ?thesis by (simp add: revoke_token_txn_def)
next
  case (Some db1)
  note d1 = dead_guard [OF dead Some]
  show ?thesis
  proof (cases "sql_first (\<lambda>t. t_id t = tid \<and> t_grant t = Some gid' \<and> t_client t = client) (oauth_tokens db1)")
    case None
    with Some dead show ?thesis by (simp add: revoke_token_txn_def)
  next
    case row: (Some row)
    show ?thesis
    proof (cases "t_kind row")
      case Refresh
      obtain x db2 where "revoke_guarded_grant now ev ip gid' ''client_revoked'' ''user'' (t_user row) db1 = (x, db2)"
        by fastforce
      moreover from dead_revoke_guarded [OF d1 this] have "grant_dead gid db2" .
      ultimately show ?thesis using Some row Refresh dead
        by (cases x) (simp_all add: revoke_token_txn_def)
    next
      case Access
      have "grant_dead gid (db1\<lparr>oauth_tokens := sql_update (\<lambda>t. t_id t = t_id row \<and> t_revoked_at t = None)
          (t_revoked_at_update (\<lambda>_. Some now)) (oauth_tokens db1)\<rparr>)"
        by (rule grant_dead_tokens_update [OF d1]) (simp_all add: tok_revoked_def)
      with Some row Access show ?thesis
        by (simp add: revoke_token_txn_def Let_def record_event_known)
    qed
  qed
qed

lemma dead_principal: "grant_dead gid db \<Longrightarrow> grant_dead gid (snd (principal_for sha now token db))"
  by (auto simp: principal_for_def Let_def tok_revoked_def split: option.splits prod.splits
      intro!: grant_dead_tokens_update)

lemma dead_purge: "grant_dead gid db \<Longrightarrow> grant_dead gid (snd (purge_expired now db))"
  by (simp add: purge_expired_def Let_def grant_dead_def dead_delete)

lemma dead_disconnect:
  "grant_dead gid db \<Longrightarrow> grant_dead gid (snd (revoke_grant now ev ip at ai org tid db))"
  by (auto simp: revoke_grant_def split: option.splits prod.splits sum.splits dest: dead_revoke_grant)

lemma dead_load_code:
  "grant_dead gid db \<Longrightarrow> grant_dead gid (snd (load_authorization_code sha fuel now evs ip client code db))"
  by (auto simp: load_authorization_code_def Let_def
      split: option.splits prod.splits sum.splits dest: dead_code_family)

lemma dead_frames:
  "grant_dead gid (snd (decide sha cru now token ev ip usr rid body db)) = grant_dead gid db"
  "grant_dead gid (snd (authorize pv now rid client cscope params db)) = grant_dead gid db"
  "grant_dead gid (snd (register_client dev now ev ip info db)) = grant_dead gid db"
  by (auto simp: decide_def authorize_def register_client_def Let_def record_event_known split: option.splits)

text \<open>Grant identifiers are fresh ULIDs; the only event that creates a grant names its identifier.\<close>

fun mints_grant :: "ident \<Rightarrow> oauth_event \<Rightarrow> bool" where
  "mints_grant gid (ExchangeCode fuel now now' gid' mint evs ip client code) = (gid' = gid)"
| "mints_grant gid e = False"

lemma oauth_step_dead:
  "grant_dead gid db \<Longrightarrow> \<not> mints_grant gid e \<Longrightarrow> grant_dead gid (oauth_step sha cru ttl e db)"
  by (cases e) (simp_all add: dead_frames dead_load_code dead_exchange_code dead_load_refresh
      dead_exchange_refresh dead_revoke_token dead_disconnect dead_principal dead_purge)

interpretation revoked_grants:
  machine "\<lambda>e db. if mints_grant gid e then db else oauth_step sha cru ttl e db" "grant_dead gid"
  for sha cru ttl gid
  by unfold_locales (simp add: oauth_step_dead)

lemma grant_dead_run:
  assumes "grant_dead gid db" and "\<forall>e \<in> set es. \<not> mints_grant gid e"
  shows "grant_dead gid (fold (oauth_step sha cru ttl) es db)"
proof -
  have "fold (oauth_step sha cru ttl) es db
      = fold (\<lambda>e db. if mints_grant gid e then db else oauth_step sha cru ttl e db) es db"
    using assms(2) by (intro fold_cong) auto
  with revoked_grants.run_inv [OF assms(1)] show ?thesis by simp
qed


section \<open>A code is redeemed at most once\<close>

lemma codes_revoke_guarded:
  "revoke_guarded_grant now ev ip gid reason at ai db = (r, db') \<Longrightarrow> oauth_codes db' = oauth_codes db"
  by (cases rule: revoke_guarded_grant_cases [of gid db now ev ip reason at ai])
    (auto simp: after_revocation_def)

lemma codes_guard: "guard_grant gid db = Some db' \<Longrightarrow> oauth_codes db' = oauth_codes db"
  by (auto dest: guard_grant_Some)

lemma codes_revoke_grant:
  assumes "revoke_oauth_grant now ev ip gid reason at ai db = (r, db')"
  shows "oauth_codes db' = oauth_codes db"
proof (cases "guard_grant gid db")
  case (Some db1)
  with assms have "revoke_guarded_grant now ev ip gid reason at ai db1 = (r, db')"
    by (simp add: revoke_oauth_grant_def)
  from codes_revoke_guarded [OF this] codes_guard [OF Some] show ?thesis by simp
qed (use assms in \<open>simp add: revoke_oauth_grant_def\<close>)

lemma codes_revoke_grants:
  "revoke_grants now evs ip gids reason db = (r, db') \<Longrightarrow> oauth_codes db' = oauth_codes db"
proof (induction gids arbitrary: db evs)
  case (Cons g gs)
  obtain x db1 where g: "revoke_oauth_grant now (first_id evs) ip g reason ''system'' None db = (x, db1)"
    by fastforce
  from Cons.prems Cons.IH codes_revoke_grant [OF g] g show ?case by (cases x) fastforce+
qed simp

lemma codes_revoke_subtree:
  "revoke_subtree fuel client roots now db = Some (n, db') \<Longrightarrow> oauth_codes db' = oauth_codes db"
  by (auto simp: revoke_subtree_def Let_def split: if_splits)

lemma codes_code_family:
  "revoke_code_family fuel now evs ip row db = (r, db') \<Longrightarrow> oauth_codes db' = oauth_codes db"
  by (auto simp: revoke_code_family_def Let_def record_event_known
      split: if_splits option.splits prod.splits
      dest: codes_revoke_grants codes_revoke_subtree)

lemma codes_usable:
  assumes "usable_refresh now now' ev ip gid tid client db = (r, db')"
  shows "oauth_codes db' = oauth_codes db"
  using assms by (cases rule: usable_refresh_cases) (simp_all add: after_revocation_def)

lemma codes_issue:
  "issue_pair sha ttl mint gid client org usr gs as resource parent now used db = Inr (resp, db')
    \<Longrightarrow> oauth_codes db' = oauth_codes db"
  by (erule issue_pair_Inr) simp

lemma codes_exchange_refresh:
  "oauth_codes (snd (exchange_refresh_txn sha ttl t1 t2 now mint ev ip client gid tid scopes db)) = oauth_codes db"
proof -
  obtain r db' where eq: "exchange_refresh_txn sha ttl t1 t2 now mint ev ip client gid tid scopes db = (r, db')"
    by fastforce
  then have "oauth_codes db' = oauth_codes db"
    by (cases rule: exchange_refresh_cases) (auto dest!: codes_guard codes_usable codes_issue)
  with eq show ?thesis by simp
qed

lemma codes_load_refresh:
  "oauth_codes (snd (load_refresh_txn now now' ev ip client raw tid gid db)) = oauth_codes db"
  by (auto simp: load_refresh_txn_def split: option.splits prod.splits sum.splits
      dest!: codes_guard codes_usable)

lemma codes_revoke_token:
  "oauth_codes (snd (revoke_token_txn now ev ip client gid tid db)) = oauth_codes db"
  by (auto simp: revoke_token_txn_def Let_def record_event_known
      split: option.splits prod.splits sum.splits dest!: codes_guard codes_revoke_guarded)

lemma codes_disconnect: "oauth_codes (snd (revoke_grant now ev ip at ai org tid db)) = oauth_codes db"
  by (auto simp: revoke_grant_def split: option.splits prod.splits sum.splits dest: codes_revoke_grant)

lemma codes_load_code:
  "oauth_codes (snd (load_authorization_code sha fuel now evs ip client code db)) = oauth_codes db"
  by (auto simp: load_authorization_code_def Let_def
      split: option.splits prod.splits sum.splits dest: codes_code_family)

lemma codes_frames:
  "oauth_codes (snd (principal_for sha now token db)) = oauth_codes db"
  "oauth_codes (snd (register_client dev now ev ip info db)) = oauth_codes db"
  by (auto simp: principal_for_def register_client_def Let_def record_event_known
      split: option.splits prod.splits)

lemma codes_purge:
  "oauth_codes (snd (purge_expired now db))
    = sql_delete (\<lambda>c. ac_expires_at c < now - CODE_RETENTION) (oauth_codes db)"
  by (simp add: purge_expired_def Let_def)

text \<open>An exchange either leaves the codes alone or consumes the one it redeems.\<close>

lemma codes_exchange_code:
  fixes now :: stamp
  obtains (kept) "oauth_codes (snd (exchange_authorization_code sha ttl fuel now now' gid mint evs ip client code db))
        = oauth_codes db"
      "\<nexists>resp. fst (exchange_authorization_code sha ttl fuel now now' gid mint evs ip client code db) = Inr resp"
    | (redeemed) "rowcount (code_consumable (dc_request_id code) now) (oauth_codes db) = 1"
      "oauth_codes (snd (exchange_authorization_code sha ttl fuel now now' gid mint evs ip client code db))
        = sql_update (code_consumable (dc_request_id code) now)
            (\<lambda>c. c\<lparr>ac_status := CExchanged, ac_exchanged_at := Some now\<rparr>) (oauth_codes db)"
proof (cases "rowcount (code_consumable (dc_request_id code) now) (oauth_codes db) \<noteq> 1")
  case True
  then show ?thesis
    by (intro kept) (auto simp: exchange_authorization_code_def
        split: option.splits prod.splits sum.splits if_splits dest: codes_code_family)
next
  case False
  let ?g = "\<lparr>g_id = gid, g_client = client, g_org = dc_org code, g_user = Some (dc_subject code),
     g_scopes = dc_scopes code, g_resource = dc_resource code, g_created_at = now, g_revoked_at = None,
     g_revocation_reason = None, g_lock_seq = 0\<rparr>"
  let ?db1 = "db\<lparr>oauth_codes := sql_update (code_consumable (dc_request_id code) now)
                (\<lambda>c. c\<lparr>ac_status := CExchanged, ac_exchanged_at := Some now\<rparr>) (oauth_codes db)\<rparr>"
  show ?thesis
  proof (cases "sql_insert g_id ?g (oauth_grants db)")
    case None
    with False show ?thesis by (intro kept) (simp_all add: exchange_authorization_code_def)
  next
    case (Some gs)
    show ?thesis
    proof (cases "issue_pair sha ttl mint gid client (dc_org code) (Some (dc_subject code))
        (dc_scopes code) (dc_scopes code) (dc_resource code) (dc_request_id code) now None
        (?db1\<lparr>oauth_grants := gs\<rparr>)")
      case (Inl e)
      with False Some show ?thesis by (intro kept) (simp_all add: exchange_authorization_code_def)
    next
      case (Inr p)
      then obtain resp db2 where p: "p = (resp, db2)" by (cases p)
      from codes_issue Inr p have "oauth_codes db2 = oauth_codes (?db1\<lparr>oauth_grants := gs\<rparr>)" by blast
      with False Some Inr p show ?thesis
        by (intro redeemed) (simp_all add: exchange_authorization_code_def record_event_known)
    qed
  qed
qed

definition codes_keyed :: "cdb \<Rightarrow> bool" where
  "codes_keyed db = distinct (map ac_id (oauth_codes db))"

definition code_spent :: "ident \<Rightarrow> cdb \<Rightarrow> bool" where
  "code_spent rid db = (\<forall>c \<in> set (oauth_codes db). ac_id c = rid \<longrightarrow> ac_status c = CExchanged)"

fun authorizes :: "ident \<Rightarrow> oauth_event \<Rightarrow> bool" where
  "authorizes rid (Authorize pv now rid' client cscope params) = (rid' = rid)"
| "authorizes rid e = False"

lemma codes_decide:
  obtains "oauth_codes (snd (decide sha cru now token ev ip usr rid body db)) = oauth_codes db"
    | f where "oauth_codes (snd (decide sha cru now token ev ip usr rid body db))
        = sql_update (pending_code rid now) f (oauth_codes db)" "\<And>c. ac_id (f c) = ac_id c"
proof -
  have id: "ac_id row = rid" if "get_oauth_code rid db = Some row" for row
    using that by (auto simp: get_oauth_code_def dest: sql_first_Some)
  consider (none) "get_oauth_code rid db = None" | (some) row where "get_oauth_code rid db = Some row"
    by fastforce
  then show ?thesis
  proof cases
    case none
    then show ?thesis by (intro that(1)) (simp add: decide_def)
  next
    case (some row)
    show ?thesis
    proof (cases "oauth_codes (snd (decide sha cru now token ev ip usr rid body db)) = oauth_codes db")
      case False
      with some id [OF some] have "\<exists>f. oauth_codes (snd (decide sha cru now token ev ip usr rid body db))
        = sql_update (pending_code rid now) f (oauth_codes db) \<and> (\<forall>c. ac_id (f c) = ac_id c)"
        by (auto simp: decide_def Let_def record_event_known split: if_splits option.splits)
      then show ?thesis using that(2) by blast
    qed (rule that(1))
  qed
qed

lemma codes_keyed_step:
  assumes "codes_keyed db"
  shows "codes_keyed (oauth_step sha cru ttl e db)"
proof (cases e)
  case (Authorize pv now rid client cscope params)
  with assms show ?thesis
    by (auto simp: codes_keyed_def authorize_def Let_def split: option.splits dest: distinct_sql_insert)
next
  case (Decide now token ev ip usr rid body)
  show ?thesis
    by (rule codes_decide [of sha cru now token ev ip usr rid body db])
      (use assms Decide in \<open>simp_all add: codes_keyed_def map_sql_update\<close>)
next
  case (ExchangeCode fuel now now' gid mint evs ip client code)
  show ?thesis
    by (rule codes_exchange_code [of sha ttl fuel now now' gid mint evs ip client code db])
      (use assms ExchangeCode in \<open>simp_all add: codes_keyed_def map_sql_update\<close>)
qed (use assms in \<open>simp_all add: codes_keyed_def codes_load_code codes_load_refresh codes_exchange_refresh
   codes_revoke_token codes_disconnect codes_frames codes_purge distinct_sql_delete\<close>)

lemma code_spent_step:
  assumes "code_spent rid db" and "\<not> authorizes rid e"
  shows "code_spent rid (oauth_step sha cru ttl e db)"
proof (cases e)
  case (Authorize pv now rid' client cscope params)
  with assms show ?thesis
    by (auto simp: code_spent_def authorize_def Let_def sql_insert_def split: option.splits if_splits)
next
  case (Decide now token ev ip usr rid' body)
  show ?thesis
  proof (rule codes_decide [of sha cru now token ev ip usr rid' body db])
    fix f :: "oauth_code \<Rightarrow> oauth_code"
    assume "oauth_codes (snd (decide sha cru now token ev ip usr rid' body db))
        = sql_update (pending_code rid' now) f (oauth_codes db)" and "\<And>c. ac_id (f c) = ac_id c"
    with assms Decide show ?thesis by (auto simp: code_spent_def table_simps pending_code_def)
  qed (use assms Decide in \<open>simp add: code_spent_def\<close>)
next
  case (ExchangeCode fuel now now' gid mint evs ip client code)
  show ?thesis
    by (rule codes_exchange_code [of sha ttl fuel now now' gid mint evs ip client code db])
      (use assms ExchangeCode in \<open>auto simp: code_spent_def table_simps\<close>)
qed (use assms in \<open>simp_all add: code_spent_def codes_load_code codes_load_refresh codes_exchange_refresh
   codes_revoke_token codes_disconnect codes_frames codes_purge table_simps\<close>)

interpretation codes: machine "oauth_step sha cru ttl" codes_keyed for sha cru ttl
  by unfold_locales (rule codes_keyed_step)

interpretation spent_codes:
  machine "\<lambda>e db. if authorizes rid e then db else oauth_step sha cru ttl e db" "code_spent rid"
  for sha cru ttl rid
  by unfold_locales (simp add: code_spent_step)

lemma code_spent_run:
  assumes "code_spent rid db" and "\<forall>e \<in> set es. \<not> authorizes rid e"
  shows "code_spent rid (fold (oauth_step sha cru ttl) es db)"
proof -
  have "fold (oauth_step sha cru ttl) es db
      = fold (\<lambda>e db. if authorizes rid e then db else oauth_step sha cru ttl e db) es db"
    using assms(2) by (intro fold_cong) auto
  with spent_codes.run_inv [OF assms(1)] show ?thesis by simp
qed

lemma redeemed_spent:
  assumes "codes_keyed db"
    and "fst (exchange_authorization_code sha ttl fuel now now' gid mint evs ip client code db) = Inr resp"
  shows "code_spent (dc_request_id code)
    (snd (exchange_authorization_code sha ttl fuel now now' gid mint evs ip client code db))"
proof (rule codes_exchange_code [of sha ttl fuel now now' gid mint evs ip client code db])
  assume one: "rowcount (code_consumable (dc_request_id code) now) (oauth_codes db) = 1"
    and eq: "oauth_codes (snd (exchange_authorization_code sha ttl fuel now now' gid mint evs ip client code db))
        = sql_update (code_consumable (dc_request_id code) now)
            (\<lambda>c. c\<lparr>ac_status := CExchanged, ac_exchanged_at := Some now\<rparr>) (oauth_codes db)"
  from rowcount_one_ex [OF one] obtain c where c: "c \<in> set (oauth_codes db)"
    "code_consumable (dc_request_id code) now c" by blast
  have "code_consumable (dc_request_id code) now x" if "x \<in> set (oauth_codes db)" "ac_id x = dc_request_id code" for x
    using assms(1) c that unique_row [of ac_id "oauth_codes db" x c]
    by (auto simp: codes_keyed_def code_consumable_def)
  with eq show ?thesis
    by (auto simp: code_spent_def elim!: in_sql_updateE)
qed (use assms(2) in auto)

lemma spent_not_redeemed:
  assumes "code_spent (dc_request_id code) db"
  shows "fst (exchange_authorization_code sha ttl fuel now now' gid mint evs ip client code db) \<noteq> Inr resp"
proof (rule codes_exchange_code [of sha ttl fuel now now' gid mint evs ip client code db])
  assume "rowcount (code_consumable (dc_request_id code) now) (oauth_codes db) = 1"
  from rowcount_one_ex [OF this] assms show ?thesis
    by (auto simp: code_spent_def code_consumable_def)
qed auto

end
