(* ===== verification/OAuthSafety.thy ===== *)
theory OAuthSafety
  imports OAuthRuns
begin

text \<open>
  What the authorization server guarantees: reuse detection, one redemption per code, the worth of an
  access token, rotation, retention, the subtree query, consent. Each property is stated over the
  handlers of \<open>OAuthTokens\<close> and \<open>OAuthConsent\<close> and the runs of \<open>OAuthRuns\<close>.
\<close>

section \<open>The invariant in every run\<close>

text \<open>C1. Whatever the requests, their order and their arguments: keys stay unique, a token belongs to a grant
  of its own client, organization and user and never has a scope the grant lacks, a revoked grant has no
  live token, a rotated token is revoked, a revoked refresh token has no live access token, and a grant has
  at most one live refresh token.\<close>

theorem oauth_runs_keep_invariant: "oauth_inv (fold (oauth_step sha cru ttl) es empty_cdb)"
  by (rule tokens.run_inv [OF oauth_inv_empty])

section \<open>Reuse of a rotated refresh token\<close>

lemma keysD:
  assumes "oauth_inv db"
  shows "distinct (map g_id (oauth_grants db))" "distinct (map t_id (oauth_tokens db))"
    "distinct (map t_hash (oauth_tokens db))"
  using assms by (simp_all add: oauth_inv_def tables_inv_def keys_inv_def)

lemma sql_first_found:
  assumes "distinct (map key rows)" and "r \<in> set rows" and "P r" and "\<And>x. P x \<Longrightarrow> key x = key r"
  shows "sql_first P rows = Some r"
proof (cases "sql_first P rows")
  case None
  with assms show ?thesis by (auto simp: table_simps)
next
  case (Some x)
  then have "x \<in> set rows" and "P x" by (auto dest: sql_first_Some)
  with assms Some show ?thesis by (metis unique_row)
qed

lemma grant_of_token:
  assumes "oauth_inv db" and "t \<in> set (oauth_tokens db)" and "t_grant t = Some gid"
  obtains g where "g \<in> set (oauth_grants db)" "g_id g = gid" "of_grant g t" "get_oauth_grant gid db = Some g"
proof -
  obtain g where g: "g \<in> set (oauth_grants db)" "g_id g = gid" "of_grant g t"
    using consentD [OF tables_invD(2)] assms by (metis oauth_inv_def)
  moreover have "get_oauth_grant gid db = Some g"
    unfolding get_oauth_grant_def by (rule sql_first_found [OF keysD(1) [OF assms(1)]]) (use g in auto)
  ultimately show ?thesis by (rule that)
qed

lemma guard_grant_found:
  assumes "oauth_inv db" and "g \<in> set (oauth_grants db)"
  shows "\<exists>db'. guard_grant (g_id g) db = Some db'"
proof -
  have "rowcount (\<lambda>x. g_id x = g_id g) (oauth_grants db) \<le> 1"
    by (rule rowcount_le_one [OF keysD(1) [OF assms(1)]])
  moreover have "rowcount (\<lambda>x. g_id x = g_id g) (oauth_grants db) \<noteq> 0"
    using assms(2) by (auto simp: table_simps)
  ultimately show ?thesis by (simp add: guard_grant_def Let_def)
qed

lemma guard_grant_frame:
  "guard_grant gid db = Some db' \<Longrightarrow> oauth_tokens db' = oauth_tokens db \<and> memberships db' = memberships db"
  by (drule guard_grant_Some) simp

lemma revoked_grant_dead:
  assumes "oauth_inv db" and "g \<in> set (oauth_grants db)" and "grant_revoked g"
  shows "grant_dead (g_id g) db"
  unfolding grant_dead_def dead_def
proof (intro conjI ballI impI)
  fix x assume "x \<in> set (oauth_grants db)" "g_id x = g_id g"
  with assms keysD(1) [OF assms(1)] show "grant_revoked x" by (metis unique_row)
next
  fix t assume "t \<in> set (oauth_tokens db)" "t_grant t = Some (g_id g)"
  with assms revokedD [OF tables_invD(3)] show "tok_revoked t" by (metis oauth_inv_def)
qed

text \<open>Presenting a rotated token: the grant is dead afterwards, whoever revoked it.\<close>

lemma rotated_usable_dead:
  assumes inv: "oauth_inv db" and row: "row \<in> set (oauth_tokens db)" "t_kind row = Refresh"
    "t_grant row = Some gid" "tok_rotated row"
  shows "\<exists>db'. usable_refresh now now' ev ip gid (t_id row) (t_client row) db = (Inr None, db') \<and> grant_dead gid db'"
proof -
  have find: "sql_first (\<lambda>t. t_id t = t_id row \<and> t_grant t = Some gid \<and> t_client t = t_client row
      \<and> t_kind t = Refresh) (oauth_tokens db) = Some row"
    by (rule sql_first_found [OF keysD(2) [OF inv]]) (use row in auto)
  obtain g where g: "g \<in> set (oauth_grants db)" "g_id g = gid" "get_oauth_grant gid db = Some g"
    using grant_of_token [OF inv row(1,3)] by metis
  show ?thesis
  proof (cases "grant_revoked g")
    case True
    with find g row(4) revoked_grant_dead [OF inv g(1)] show ?thesis
      by (auto simp: usable_refresh_def classify_refresh_def grant_revoked_def)
  next
    case False
    obtain evs n where "revoke_guarded_grant now' ev ip gid ''reuse_detected'' ''system'' None db
        = (Inr n, (after_revocation now' gid ''reuse_detected'' db)\<lparr>audit_events := evs\<rparr>)"
      using revoke_guarded_grant_eq [OF g(3), of now' ev ip "''reuse_detected''" "''system''" None] by blast
    with False find g(3) row(4) show ?thesis
      by (auto simp: usable_refresh_def classify_refresh_def grant_revoked_def tok_rotated_def
          after_revocation_dead)
  qed
qed

lemma load_rotated_dead:
  assumes inv: "oauth_inv db" and row: "row \<in> set (oauth_tokens db)" "t_kind row = Refresh"
    "t_grant row = Some gid" "tok_rotated row" "t_hash row = sha raw" "t_client row = client"
    and raw: "raw \<noteq> []" "length raw \<le> MAX_SECRET_LEN"
  shows "\<exists>db'. load_refresh_token sha False now now' ev ip client raw db = (Inr None, db') \<and> grant_dead gid db'"
proof -
  have find: "load_refresh_lookup sha client raw db = Some row"
    unfolding load_refresh_lookup_def by (rule sql_first_found [OF keysD(3) [OF inv]]) (use row in auto)
  obtain g where g: "g \<in> set (oauth_grants db)" "g_id g = gid"
    using grant_of_token [OF inv row(1,3)] by metis
  obtain db1 where db1: "guard_grant gid db = Some db1" using guard_grant_found [OF inv g(1)] g(2) by blast
  have "oauth_inv db1" "row \<in> set (oauth_tokens db1)"
    using oauth_inv_guard [OF inv db1] guard_grant_frame [OF db1] row(1) by simp_all
  from rotated_usable_dead [OF this row(2,3,4), of now now' ev ip] row(6)
  obtain db2 where "usable_refresh now now' ev ip gid (t_id row) client db1 = (Inr None, db2)"
    "grant_dead gid db2" by blast
  with raw find row(3) db1 show ?thesis
    by (auto simp: load_refresh_token_def load_refresh_txn_def)
qed

text \<open>A principal is served only from a live access token of a live grant.\<close>

lemma principal_for_Some:
  assumes "fst (principal_for sha now token db) = Inr (Some p)"
  obtains t m u where "t \<in> set (oauth_tokens db)" "t_hash t = sha token" "t_kind t = Access"
    "t_revoked_at t = None" "not_expired now (t_expires_at t)" "grant_live db (t_grant t)"
    "\<exists>c \<in> set (oauth_clients db). oc_id c = t_client t \<and> oc_revoked_at c = None"
    "t_user t = Some u" "get_membership (t_org t) u db = Some m"
    "p = \<lparr>op_org = t_org t, op_scopes = set (t_scopes t) \<inter> role_scopes (m_role m),
      op_user = m_user m, op_token_id = t_id t, op_client_id = t_client t\<rparr>"
proof -
  from assms obtain t m where pr: "principal_row sha token db = Some (t, m)"
    and ne: "not_expired now (t_expires_at t)"
    and p: "p = \<lparr>op_org = t_org t, op_scopes = set (t_scopes t) \<inter> role_scopes (m_role m),
      op_user = m_user m, op_token_id = t_id t, op_client_id = t_client t\<rparr>"
    by (auto simp: principal_for_def Let_def split: if_splits option.splits)
  from pr obtain u where "sql_first (\<lambda>t. t_hash t = sha token \<and> t_kind t = Access \<and> t_revoked_at t = None
            \<and> (\<exists>c \<in> set (oauth_clients db). oc_id c = t_client t \<and> oc_revoked_at c = None)
            \<and> grant_live db (t_grant t)
            \<and> (\<exists>u. t_user t = Some u \<and> get_membership (t_org t) u db \<noteq> None \<and> get_user u db \<noteq> None))
          (oauth_tokens db) = Some t" "t_user t = Some u" "get_membership (t_org t) u db = Some m"
    by (auto simp: principal_row_alt split: option.splits)
  with sql_first_Some [OF this(1)] ne p that show ?thesis by blast
qed


lemma oauth_inv_load_refresh:
  "oauth_inv db \<Longrightarrow> oauth_inv (snd (load_refresh_token sha on_revoke now now' ev ip client raw db))"
  by (auto simp: load_refresh_token_def oauth_inv_load_refresh_txn split: option.splits)

lemma dead_no_principal:
  assumes "oauth_inv db" and "grant_dead gid db"
    and some: "fst (principal_for sha now token db) = Inr (Some p)"
    and t: "t \<in> set (oauth_tokens db)" "t_id t = op_token_id p"
  shows "t_grant t \<noteq> Some gid"
proof (rule principal_for_Some [OF some])
  fix t' and m :: membership and u :: ident
  assume t': "t' \<in> set (oauth_tokens db)" "t_revoked_at t' = None"
    "p = \<lparr>op_org = t_org t', op_scopes = set (t_scopes t') \<inter> role_scopes (m_role m),
      op_user = m_user m, op_token_id = t_id t', op_client_id = t_client t'\<rparr>"
  with t keysD(2) [OF assms(1)] have "t = t'" by (auto dest: unique_row)
  with t'(1,2) assms(2) show ?thesis by (auto simp: grant_dead_def dead_def tok_revoked_def)
qed

lemma dead_no_refresh:
  assumes "grant_dead gid db"
  shows "fst (exchange_refresh_txn sha ttl t1 t2 now mint ev ip client gid tid scopes db) \<noteq> Inr resp"
proof
  assume "fst (exchange_refresh_txn sha ttl t1 t2 now mint ev ip client gid tid scopes db) = Inr resp"
  then obtain db' where "exchange_refresh_txn sha ttl t1 t2 now mint ev ip client gid tid scopes db = (Inr resp, db')"
    by (cases "exchange_refresh_txn sha ttl t1 t2 now mint ev ip client gid tid scopes db") auto
  then show False
  proof (cases rule: exchange_refresh_cases)
    case issued
    with dead_usable(2) [OF dead_guard [OF assms]] show ?thesis by blast
  qed simp_all
qed

text \<open>C2. Reuse detection. Presenting a refresh token that was already rotated is refused and revokes its
  grant. From then on, in every continuation by any events that do not mint the grant's identifier again,
  every token of the grant is revoked, none of its access tokens yields a principal and none of its
  refresh tokens can be exchanged.\<close>

theorem reused_refresh_kills_grant:
  assumes inv: "oauth_inv db" and row: "row \<in> set (oauth_tokens db)" "t_kind row = Refresh"
    "t_grant row = Some gid" "t_rotated_at row \<noteq> None" "t_hash row = sha raw" "t_client row = client"
    and raw: "raw \<noteq> []" "length raw \<le> MAX_SECRET_LEN"
    and fresh: "\<forall>e \<in> set es. \<not> mints_grant gid e"
    and db1: "db1 = snd (load_refresh_token sha False now now' ev ip client raw db)"
    and db2: "db2 = fold (oauth_step sha cru ttl) es db1"
  shows "fst (load_refresh_token sha False now now' ev ip client raw db) = Inr None \<and>
    (\<forall>t \<in> set (oauth_tokens db2). t_grant t = Some gid \<longrightarrow> t_revoked_at t \<noteq> None) \<and>
    (\<forall>later token p. fst (principal_for sha later token db2) = Inr (Some p) \<longrightarrow>
       (\<forall>t \<in> set (oauth_tokens db2). t_id t = op_token_id p \<longrightarrow> t_grant t \<noteq> Some gid)) \<and>
    (\<forall>t1 t2 later mint ev ip client tid scopes resp.
       fst (exchange_refresh_txn sha ttl t1 t2 later mint ev ip client gid tid scopes db2) \<noteq> Inr resp)"
proof -
  have rot: "tok_rotated row" using row(4) by (simp add: tok_rotated_def)
  obtain x where x: "load_refresh_token sha False now now' ev ip client raw db = (Inr None, x)"
    "grant_dead gid x"
    using load_rotated_dead [of db row gid sha raw client now now' ev ip] inv row rot raw by blast
  from x db1 db2 grant_dead_run [OF _ fresh] have dead: "grant_dead gid db2" by simp
  have inv2: "oauth_inv db2"
    unfolding db2 db1 by (rule tokens.run_inv [OF oauth_inv_load_refresh [OF inv]])
  from dead have "\<forall>t \<in> set (oauth_tokens db2). t_grant t = Some gid \<longrightarrow> t_revoked_at t \<noteq> None"
    by (simp add: grant_dead_def dead_def tok_revoked_def)
  with x(1) dead_no_principal [OF inv2 dead] dead_no_refresh [OF dead] show ?thesis by auto
qed

text \<open>C3. An authorization code is redeemed at most once: after a successful exchange in a run of any
  events, no exchange of the same request succeeds in any continuation (request identifiers are not
  authorized twice), whatever the client, the code presented and the interleaving.\<close>

theorem code_redeemed_at_most_once:
  assumes db: "db = fold (oauth_step sha cru ttl) es empty_cdb"
    and once: "fst (exchange_authorization_code sha ttl fuel now now' gid mint evs ip client code db) = Inr resp"
    and db1: "db1 = snd (exchange_authorization_code sha ttl fuel now now' gid mint evs ip client code db)"
    and fresh: "\<forall>e \<in> set es'. \<not> authorizes (dc_request_id code) e"
    and again: "dc_request_id code' = dc_request_id code"
  shows "fst (exchange_authorization_code sha ttl fuel2 now2 now2' gid2 mint2 evs2 ip2 client2 code'
    (fold (oauth_step sha cru ttl) es' db1)) \<noteq> Inr resp'"
proof -
  have "codes_keyed db"
    unfolding db by (rule codes.run_inv) (simp add: codes_keyed_def empty_cdb_def)
  from redeemed_spent [OF this once] db1 have "code_spent (dc_request_id code) db1" by simp
  from code_spent_run [OF this fresh] again show ?thesis by (intro spent_not_redeemed) simp
qed

text \<open>C4. What an access token is worth. A principal is returned only for an unrevoked, unexpired access
  token whose hash was presented, of a client and a grant that are not revoked; its scopes are exactly
  those of the token that the member's current role allows, and never more than the user consented to.\<close>

theorem principal_within_role_and_consent:
  assumes inv: "oauth_inv db" and some: "fst (principal_for sha now token db) = Inr (Some p)"
  shows "\<exists>t \<in> set (oauth_tokens db). \<exists>g \<in> set (oauth_grants db). \<exists>m \<in> set (memberships db).
    t_hash t = sha token \<and> t_kind t = Access \<and> t_revoked_at t = None \<and> not_expired now (t_expires_at t) \<and>
    t_grant t = Some (g_id g) \<and> g_revoked_at g = None \<and>
    (\<exists>c \<in> set (oauth_clients db). oc_id c = op_client_id p \<and> oc_revoked_at c = None) \<and>
    m_org m = op_org p \<and> m_user m = op_user p \<and> op_org p = g_org g \<and> Some (op_user p) = g_user g \<and>
    op_scopes p = set (t_scopes t) \<inter> role_scopes (m_role m) \<and> op_scopes p \<subseteq> set (g_scopes g)"
proof (rule principal_for_Some [OF some])
  fix t m u
  assume t: "t \<in> set (oauth_tokens db)" "t_hash t = sha token" "t_kind t = Access"
    "t_revoked_at t = None" "not_expired now (t_expires_at t)" "grant_live db (t_grant t)"
    "\<exists>c \<in> set (oauth_clients db). oc_id c = t_client t \<and> oc_revoked_at c = None"
    "t_user t = Some u" "get_membership (t_org t) u db = Some m"
    "p = \<lparr>op_org = t_org t, op_scopes = set (t_scopes t) \<inter> role_scopes (m_role m),
      op_user = m_user m, op_token_id = t_id t, op_client_id = t_client t\<rparr>"
  then obtain g where g: "g \<in> set (oauth_grants db)" "t_grant t = Some (g_id g)" "g_revoked_at g = None"
    by (auto simp: grant_live_def split: option.splits)
  have "of_grant g t"
    using grant_of_token [OF inv t(1) g(2)] g(1) keysD(1) [OF inv] by (metis unique_row)
  moreover have "m \<in> set (memberships db)" "m_org m = t_org t" "m_user m = u"
    using sql_first_Some [OF t(9) [unfolded get_membership_def]] by simp_all
  ultimately show ?thesis using t g
    by (intro bexI [OF _ t(1)] bexI [OF _ g(1)] bexI [of _ m]) (auto simp: of_grant_def)
qed

text \<open>Rotation. A successful refresh leaves exactly one live refresh token in the grant, the new one,
  with the grant's scopes and a full lifetime; the presented token is revoked and marked rotated, the
  access tokens issued beside it are revoked, and the new access token has the requested scopes, which
  are among the granted ones.\<close>

theorem refresh_rotates:
  assumes inv: "oauth_inv db"
    and eq: "exchange_refresh_txn sha ttl t1 t2 now mint ev ip client gid tid scopes db = (Inr resp, db')"
  shows "\<exists>r \<in> set (oauth_tokens db'). \<exists>a \<in> set (oauth_tokens db'). \<exists>row \<in> set (oauth_tokens db'). \<exists>old \<in> set (oauth_tokens db).
    t_hash r = sha (tr_refresh_token resp) \<and> t_kind r = Refresh \<and> t_revoked_at r = None \<and>
    t_expires_at r = Some (now + refresh_ttl ttl) \<and> t_scopes r = t_scopes old \<and>
    t_hash a = sha (tr_access_token resp) \<and> t_kind a = Access \<and> t_revoked_at a = None \<and>
    t_scopes a = requested_of old scopes \<and> set (t_scopes a) \<subseteq> set (t_scopes old) \<and>
    filter (live_refresh_of gid) (oauth_tokens db') = [r] \<and>
    t_id old = tid \<and> t_revoked_at old = None \<and>
    row = old\<lparr>t_revoked_at := Some now, t_rotated_at := Some now\<rparr> \<and>
    (\<forall>x \<in> set (oauth_tokens db'). child_of row x \<longrightarrow> t_revoked_at x \<noteq> None)"
  using eq
proof (cases rule: exchange_refresh_cases)
  case (issued resp' db1 row grant db3 evs)
  let ?toks = "rotated_tokens now client tid (oauth_tokens db1)"
  let ?r = "refresh_row ttl (pm_refresh_id mint) (sha (REFRESH_PREFIX @ pm_refresh_random mint))
       gid client (t_org row) (t_user row) (t_scopes row) (t_resource row) tid now (Some now)"
  let ?a = "access_row ttl (pm_access_id mint) (sha (ACCESS_PREFIX @ pm_access_random mint))
       gid client (t_org row) (t_user row) (requested_of row scopes) (t_resource row) (pm_refresh_id mint) now"
  let ?old = "row\<lparr>t_revoked_at := Some now, t_rotated_at := Some now\<rparr>"
  note inv1 = oauth_inv_guard [OF inv issued(2)]
  from issued(1,16) obtain ts1 ts2 where ins: "insert_token ?r ?toks = Some ts1" "insert_token ?a ts1 = Some ts2"
    and db3: "oauth_tokens db3 = ts2"
    and resp: "tr_refresh_token resp = REFRESH_PREFIX @ pm_refresh_random mint"
      "tr_access_token resp = ACCESS_PREFIX @ pm_access_random mint"
    by (auto elim!: issue_pair_Inr)
  have toks: "oauth_tokens db' = ?toks @ [?r, ?a]"
    using ins db3 issued(17) by (auto simp: insert_token_def sql_insert_def split: if_splits)
  have "tables_inv (oauth_grants db1) ?toks" "rowcount (live_refresh_of gid) ?toks = 0"
    using tables_inv_rotate [of "oauth_grants db1" "oauth_tokens db1" row gid client now] inv1 issued
    by (simp_all add: oauth_inv_def rotated_tokens_def)
  then have one: "filter (live_refresh_of gid) (oauth_tokens db') = [?r]"
    unfolding toks by (simp add: rowcount_def live_refresh_of_def)
  have "rotatable tid row" using issued by (simp add: rotatable_def tok_revoked_def tok_rotated_def)
  then have "?old \<in> set ?toks"
    using issued(4,8) unfolding rotated_tokens_def
    by (auto simp: table_simps child_access_def intro!: image_eqI [of ?old _ row])
  then have old: "?old \<in> set (oauth_tokens db')" by (simp add: toks)
  have inv': "oauth_inv db'"
    using oauth_inv_exchange_refresh [OF inv, of sha ttl t1 t2 now mint ev ip client gid tid scopes] eq by simp
  have child: "\<forall>x \<in> set (oauth_tokens db'). child_of ?old x \<longrightarrow> t_revoked_at x \<noteq> None"
    using childD [OF tables_invD(5) [OF inv' [unfolded oauth_inv_def]] old] by (auto simp: tok_revoked_def)
  have row: "row \<in> set (oauth_tokens db)" using guard_grant_frame [OF issued(2)] issued(4) by simp
  have r: "?r \<in> set (oauth_tokens db')" and a: "?a \<in> set (oauth_tokens db')" by (simp_all add: toks)
  show ?thesis
    using issued one child resp
    by (intro bexI [OF _ r] bexI [OF _ a] bexI [OF _ old] bexI [OF _ row])
      (simp_all add: refresh_row_def access_row_def tok_revoked_def)
qed simp_all


section \<open>Retention\<close>

lemma sql_first_delete:
  assumes "sql_first P rows = Some r" and "\<not> Q r"
  shows "sql_first P (sql_delete Q rows) = Some r"
  using assms by (induction rows) (auto simp: sql_first_def sql_delete_def)

lemma sql_first_cong:
  "(\<And>r. r \<in> set rows \<Longrightarrow> P r = P' r) \<Longrightarrow> sql_first P rows = sql_first P' rows"
  by (induction rows) (auto simp: sql_first_def)

text \<open>The tables after the sweep: rows that are gone were unusable, rows that a kept token needs stay.\<close>

lemma purge_tables:
  fixes now :: stamp and db :: cdb
  defines "db' \<equiv> snd (purge_expired now db)"
  shows "oauth_tokens db' = sql_delete (purgeable_token (now - TOKEN_RETENTION) db) (oauth_tokens db)"
    and "oauth_grants db' = sql_delete (\<lambda>g. \<not> (\<exists>t \<in> set (oauth_tokens db'). t_grant t = Some (g_id g)))
      (oauth_grants db)"
    and "\<exists>P. oauth_clients db' = sql_delete P (oauth_clients db) \<and>
      (\<forall>c. P c \<longrightarrow> (\<forall>t \<in> set (oauth_tokens db'). t_client t \<noteq> oc_id c))"
    and "memberships db' = memberships db" and "users db' = users db"
proof -
  have "purgeable_token c (db\<lparr>oauth_codes := x\<rparr>) = purgeable_token c db" for c x
    by (simp add: purgeable_token_def fun_eq_iff)
  note simps = purge_expired_def Let_def this
  show "oauth_tokens db' = sql_delete (purgeable_token (now - TOKEN_RETENTION) db) (oauth_tokens db)"
    and "oauth_grants db' = sql_delete (\<lambda>g. \<not> (\<exists>t \<in> set (oauth_tokens db'). t_grant t = Some (g_id g)))
      (oauth_grants db)"
    and "memberships db' = memberships db" and "users db' = users db"
    by (simp_all add: db'_def simps)
  show "\<exists>P. oauth_clients db' = sql_delete P (oauth_clients db) \<and>
      (\<forall>c. P c \<longrightarrow> (\<forall>t \<in> set (oauth_tokens db'). t_client t \<noteq> oc_id c))"
    unfolding db'_def by (simp add: simps, intro exI conjI, rule refl) auto
qed

lemma purge_keeps_grant:
  assumes "t \<in> set (oauth_tokens (snd (purge_expired now db)))"
  shows "grant_live (snd (purge_expired now db)) (t_grant t) = grant_live db (t_grant t)"
  using assms unfolding grant_live_def purge_tables(2) by (auto simp: table_simps split: option.splits)

lemma purge_keeps_client:
  assumes "t \<in> set (oauth_tokens (snd (purge_expired now db)))"
  shows "(\<exists>c \<in> set (oauth_clients (snd (purge_expired now db))). oc_id c = t_client t \<and> oc_revoked_at c = None)
    = (\<exists>c \<in> set (oauth_clients db). oc_id c = t_client t \<and> oc_revoked_at c = None)"
proof -
  obtain P where P: "oauth_clients (snd (purge_expired now db)) = sql_delete P (oauth_clients db)"
    "\<forall>c. P c \<longrightarrow> (\<forall>t \<in> set (oauth_tokens (snd (purge_expired now db))). t_client t \<noteq> oc_id c)"
    using purge_tables(3) by blast
  have "oc_id c = t_client t \<Longrightarrow> \<not> P c" for c using P(2) assms by metis
  then show ?thesis unfolding P(1) by (auto simp: table_simps)
qed

lemma purged_access_expired:
  assumes "purgeable_token (now - TOKEN_RETENTION) db t" and "t_kind t = Access" and "t_grant t \<noteq> None"
    and "now \<le> later"
  shows "\<not> not_expired later (t_expires_at t)"
  using assms by (auto simp: purgeable_token_def expired_before_def not_expired_def TOKEN_RETENTION_def
      split: option.splits)

definition served_row :: "(string \<Rightarrow> string) \<Rightarrow> string \<Rightarrow> cdb \<Rightarrow> oauth_token \<Rightarrow> bool" where
  "served_row sha token db t = (t_hash t = sha token \<and> t_kind t = Access \<and> t_revoked_at t = None
     \<and> (\<exists>c \<in> set (oauth_clients db). oc_id c = t_client t \<and> oc_revoked_at c = None)
     \<and> grant_live db (t_grant t)
     \<and> (\<exists>u. t_user t = Some u \<and> get_membership (t_org t) u db \<noteq> None \<and> get_user u db \<noteq> None))"

lemma principal_row_served:
  "principal_row sha token db = (case sql_first (served_row sha token db) (oauth_tokens db) of
     None \<Rightarrow> None
   | Some row \<Rightarrow> (case t_user row of None \<Rightarrow> None
       | Some u \<Rightarrow> map_option (\<lambda>m. (row, m)) (get_membership (t_org row) u db)))"
  unfolding principal_row_alt served_row_def [abs_def] by simp

lemma principal_for_row:
  "principal_row sha token db' = principal_row sha token db \<Longrightarrow>
    fst (principal_for sha now token db') = fst (principal_for sha now token db)"
  by (simp add: principal_for_def Let_def split: option.split)

lemma served_row_purge:
  assumes "t \<in> set (oauth_tokens (snd (purge_expired now db)))"
  shows "served_row sha token (snd (purge_expired now db)) t = served_row sha token db t"
  using purge_keeps_grant [OF assms] purge_keeps_client [OF assms]
  by (simp add: served_row_def get_membership_def get_user_def purge_tables(4,5))

text \<open>The retention sweep is invisible to access tokens: at the time of the sweep and ever after,
  presenting any token gives the same principal as if the sweep had not run.\<close>

theorem purge_keeps_principals:
  assumes inv: "oauth_inv db" and later: "now \<le> later"
  shows "fst (principal_for sha later token (snd (purge_expired now db)))
    = fst (principal_for sha later token db)"
proof -
  let ?db' = "snd (purge_expired now db)" and ?Q = "purgeable_token (now - TOKEN_RETENTION) db"
  have toks: "oauth_tokens ?db' = sql_delete ?Q (oauth_tokens db)" by (rule purge_tables(1))
  have cong: "sql_first (served_row sha token ?db') (oauth_tokens ?db')
      = sql_first (served_row sha token db) (sql_delete ?Q (oauth_tokens db))"
    unfolding toks [symmetric] by (rule sql_first_cong) (rule served_row_purge)
  show ?thesis
  proof (cases "sql_first (served_row sha token db) (oauth_tokens db)")
    case None
    then have "sql_first (served_row sha token db) (sql_delete ?Q (oauth_tokens db)) = None"
      by (auto simp: table_simps)
    with None cong show ?thesis by (simp add: principal_for_def principal_row_served)
  next
    case (Some t)
    note t = sql_first_Some [OF Some]
    show ?thesis
    proof (cases "?Q t")
      case False
      with Some have "sql_first (served_row sha token db) (sql_delete ?Q (oauth_tokens db)) = Some t"
        by (intro sql_first_delete)
      with cong Some have "principal_row sha token ?db' = principal_row sha token db"
        by (simp add: principal_row_served get_membership_def purge_tables(4) cong: option.case_cong)
      then show ?thesis by (rule principal_for_row)
    next
      case True
      have "\<not> not_expired later (t_expires_at t)"
        by (rule purged_access_expired [OF True _ _ later])
          (use t(2) in \<open>auto simp: served_row_def grant_live_def split: option.splits\<close>)
      moreover have "sql_first (served_row sha token db) (sql_delete ?Q (oauth_tokens db)) = None"
      proof -
        have "x = t" if "x \<in> set (oauth_tokens db)" "served_row sha token db x" for x
          using that t keysD(3) [OF inv] unique_row [of t_hash "oauth_tokens db" x t]
          by (simp add: served_row_def)
        with True show ?thesis by (auto simp: table_simps)
      qed
      ultimately show ?thesis using Some cong
        by (auto simp: principal_for_def principal_row_served split: option.splits)
    qed
  qed
qed


section \<open>The subtree query ends, and finds every descendant\<close>

text \<open>\<open>descends client toks roots i\<close>: \<open>i\<close> is one of the roots or below one, along \<open>parent_id\<close>, within the
  tokens of the client. A root of the query may be a code, which is no token: its tokens name it as parent.\<close>

inductive descends :: "ident \<Rightarrow> oauth_token list \<Rightarrow> ident set \<Rightarrow> ident \<Rightarrow> bool"
  for client toks roots where
  root: "t \<in> set toks \<Longrightarrow> t_client t = client \<Longrightarrow> t_id t \<in> roots \<Longrightarrow> descends client toks roots (t_id t)"
| child_of_root: "t \<in> set toks \<Longrightarrow> t_client t = client \<Longrightarrow> t_parent t = Some p \<Longrightarrow> p \<in> roots
    \<Longrightarrow> descends client toks roots (t_id t)"
| child: "descends client toks roots p \<Longrightarrow> t \<in> set toks \<Longrightarrow> t_client t = client \<Longrightarrow> t_parent t = Some p
    \<Longrightarrow> descends client toks roots (t_id t)"

lemma seed_descends: "i \<in> set (subtree_seed client roots toks) \<Longrightarrow> descends client toks (set roots) i"
  by (auto simp: subtree_seed_def split: option.splits intro: descends.intros)

lemma levels_descend:
  assumes "subtree_levels fuel client toks level = Some ids"
    and "\<And>i. i \<in> set level \<Longrightarrow> descends client toks roots i" and "i \<in> set ids"
  shows "descends client toks roots i"
  using assms
proof (induction fuel client toks level arbitrary: ids i rule: subtree_levels.induct)
  case (2 n client toks level)
  show ?case
  proof (cases "i \<in> set level")
    case False
    with "2.prems" obtain rest where rest: "level \<noteq> []"
      "subtree_levels n client toks (subtree_children client toks level) = Some rest" "i \<in> set rest"
      by (auto split: if_splits)
    have "descends client toks roots j" if "j \<in> set (subtree_children client toks level)" for j
      using that "2.prems"(2) by (auto simp: subtree_children_def split: option.splits intro: descends.child)
    from "2.IH" [OF rest(1,2) this rest(3)] show ?thesis .
  qed (use "2.prems"(2) in blast)
qed simp

lemma descends_in_levels:
  assumes "descends client toks (set roots) i"
    and "subtree_levels fuel client toks (subtree_seed client roots toks) = Some ids"
  shows "i \<in> set ids"
  using assms
proof (induction rule: descends.induct)
  case (root t)
  then have "t_id t \<in> set (subtree_seed client roots toks)" by (auto simp: subtree_seed_def)
  with subtree_levels_closed(1) [OF root.prems] show ?case by blast
next
  case (child_of_root t p)
  then have "t_id t \<in> set (subtree_seed client roots toks)" by (auto simp: subtree_seed_def)
  with subtree_levels_closed(1) [OF child_of_root.prems] show ?case by blast
next
  case (child p t)
  with subtree_levels_closed(2) [OF child.prems] show ?case by blast
qed

text \<open>The parent relation of the table is well founded when every token is added after its parent and no
  earlier token names its identifier: \<open>parent_depth\<close> bounds the number of levels.\<close>

definition ranked :: "(ident \<Rightarrow> nat) \<Rightarrow> oauth_token list \<Rightarrow> bool" where
  "ranked depth toks = (\<forall>t \<in> set toks. \<forall>p. t_parent t = Some p \<longrightarrow> depth p < depth (t_id t))"

lemma levels_end:
  assumes "ranked depth toks" and "\<And>t. t \<in> set toks \<Longrightarrow> depth (t_id t) < bound"
    and "\<And>i. i \<in> set level \<Longrightarrow> k \<le> depth i \<and> (\<exists>t \<in> set toks. t_id t = i)" and "bound < fuel + k"
    and "0 < fuel"
  shows "\<exists>ids. subtree_levels fuel client toks level = Some ids"
  using assms(3-)
proof (induction fuel arbitrary: level k)
  case (Suc n)
  show ?case
  proof (cases "level = []")
    case False
    have next_level: "Suc k \<le> depth i \<and> (\<exists>t \<in> set toks. t_id t = i)"
      if "i \<in> set (subtree_children client toks level)" for i
    proof -
      from that obtain t p where t: "t \<in> set toks" "i = t_id t" "t_parent t = Some p" "p \<in> set level"
        by (auto simp: subtree_children_def split: option.splits)
      with assms(1) have "depth p < depth (t_id t)" by (simp add: ranked_def)
      with Suc.prems(1) [OF t(4)] t show ?thesis by auto
    qed
    have "0 < n"
    proof -
      from False obtain i where "i \<in> set level" by (cases level) auto
      with Suc.prems(1) obtain t where "t \<in> set toks" "t_id t = i" "k \<le> depth i" by blast
      with assms(2) Suc.prems(2) show ?thesis by fastforce
    qed
    with Suc.IH [OF next_level] Suc.prems(2) False show ?thesis by auto
  qed simp
qed simp

text \<open>\<open>revoke_subtree\<close> ends, and revokes exactly the unrevoked tokens of the client at or below the
  roots: for a table whose tokens are ranked above their parents, more levels than ranks are enough.\<close>

theorem revoke_subtree_exact:
  assumes ranked: "ranked depth (oauth_tokens db)"
    and bound: "\<And>t. t \<in> set (oauth_tokens db) \<Longrightarrow> depth (t_id t) < fuel" and pos: "0 < fuel"
  shows "\<exists>n db'. revoke_subtree (Suc fuel) client roots now db = Some (n, db') \<and>
    oauth_tokens db' = map (\<lambda>t. if descends client (oauth_tokens db) {r \<in> set roots. r \<noteq> []} (t_id t)
        \<and> t_revoked_at t = None then t\<lparr>t_revoked_at := Some now\<rparr> else t) (oauth_tokens db) \<and>
    n = length (filter (\<lambda>t. descends client (oauth_tokens db) {r \<in> set roots. r \<noteq> []} (t_id t)
        \<and> t_revoked_at t = None) (oauth_tokens db))"
proof -
  let ?ts = "oauth_tokens db" and ?seed = "subtree_seed client (dedupe roots) (oauth_tokens db)"
  have "\<exists>ids. subtree_levels (Suc fuel) client ?ts ?seed = Some ids"
    by (rule levels_end [OF ranked bound, where k = 0]) (use pos in \<open>auto simp: subtree_seed_def\<close>)
  then obtain ids where ids: "subtree_levels (Suc fuel) client ?ts ?seed = Some ids" ..
  have eq: "i \<in> set ids \<longleftrightarrow> descends client ?ts (set (dedupe roots)) i" for i
    using levels_descend [OF ids seed_descends] descends_in_levels [OF _ ids] by blast
  show ?thesis
  proof (cases "dedupe roots = []")
    case True
    then have none: "{r \<in> set roots. r \<noteq> []} = {}" by (metis list.set(1) set_dedupe)
    have "\<not> descends client ?ts {} i" for i
    proof
      assume "descends client ?ts {} i"
      then show False by (induction rule: descends.induct) auto
    qed
    with True show ?thesis unfolding none by (simp add: revoke_subtree_def)
  next
    case False
    with ids eq show ?thesis
      by (simp add: revoke_subtree_def Let_def sql_update_def rowcount_def)
  qed
qed

section \<open>Consent\<close>

text \<open>Approving a request: the code that results carries only scopes that were requested, that the
  user asked to grant and that the user's current role in the chosen organization allows; it lives for 60
  seconds, is stored as a hash, and the request cannot be decided again.\<close>

theorem approval_grants_within_role:
  assumes keyed: "codes_keyed db" and yes: "d_approve body"
    and eq: "decide sha cru now token ev ip usr rid body db = (Inr uri, db')"
  shows "\<exists>row \<in> set (oauth_codes db). \<exists>c \<in> set (oauth_codes db'). \<exists>m \<in> set (memberships db).
    ac_id row = rid \<and> ac_status row = CPending \<and> now < ac_expires_at row \<and>
    ac_id c = rid \<and> ac_status c = CApproved \<and> ac_hash c = Some (sha token) \<and>
    ac_expires_at c = now + seconds 60 \<and> ac_user c = Some usr \<and> ac_org c = d_org body \<and>
    m_user m = usr \<and> Some (m_org m) = d_org body \<and> ac_scopes c \<noteq> [] \<and>
    set (ac_scopes c) = set (ac_scopes row) \<inter> role_scopes (m_role m) \<inter>
      (case d_scopes body of None \<Rightarrow> UNIV | Some ws \<Rightarrow> set ws) \<and>
    fst (decide sha cru now2 token2 ev2 ip2 usr2 rid body2 db') = Inl already_decided"
proof -
  from eq yes obtain row where row: "get_oauth_code rid db = Some row" "ac_status row = CPending"
      "now < ac_expires_at row"
    by (auto simp: decide_def split: option.splits if_splits)
  then have r: "row \<in> set (oauth_codes db)" "ac_id row = rid"
    by (auto simp: get_oauth_code_def dest: sql_first_Some)
  from eq yes row obtain m where m: "get_membership (the (d_org body)) usr db = Some m" "d_org body \<noteq> None"
    and ne: "granted_scopes (ac_scopes row) (m_role m) (d_scopes body) \<noteq> []"
    by (auto simp: decide_def Let_def split: option.splits if_splits)
  let ?gr = "granted_scopes (ac_scopes row) (m_role m) (d_scopes body)"
  let ?f = "\<lambda>c. c\<lparr>ac_status := CApproved, ac_hash := Some (sha token), ac_org := d_org body,
       ac_user := Some usr, ac_scopes := ?gr, ac_expires_at := now + CODE_TTL\<rparr>"
  from eq yes row m ne have db': "oauth_codes db' = sql_update (pending_code (ac_id row) now) ?f (oauth_codes db)"
    by (auto simp: decide_def Let_def record_event_known split: if_splits)
  have "pending_code (ac_id row) now row" using row by (simp add: pending_code_def)
  with r have c: "?f row \<in> set (oauth_codes db')" by (auto simp: db' table_simps)
  have "codes_keyed db'"
    using codes_keyed_step [OF keyed, of sha cru _ "Decide now token ev ip usr rid body"] eq by simp
  then have "get_oauth_code rid db' = Some (?f row)"
    unfolding get_oauth_code_def codes_keyed_def by (rule sql_first_unique) (use c r in auto)
  then have again: "fst (decide sha cru now2 token2 ev2 ip2 usr2 rid body2 db') = Inl already_decided"
    by (simp add: decide_def)
  have mem: "m \<in> set (memberships db)" "m_user m = usr" "m_org m = the (d_org body)"
    using sql_first_Some [OF m(1) [unfolded get_membership_def]] by simp_all
  have "set ?gr = set (ac_scopes row) \<inter> role_scopes (m_role m) \<inter>
      (case d_scopes body of None \<Rightarrow> UNIV | Some ws \<Rightarrow> set ws)"
    by (auto simp: granted_scopes_def split: option.splits)
  with row r m(2) mem ne again show ?thesis
    by (intro bexI [OF _ r(1)] bexI [OF _ c] bexI [OF _ mem(1)]) (auto simp: CODE_TTL_def)
qed

end
