(* ===== verification/OAuthExamples.thy ===== *)
theory OAuthExamples
  imports OAuthSafety
begin

text \<open>
  Concrete inputs at which the hypotheses of the properties of \<open>OAuthSafety\<close> hold, evaluated.
\<close>

text \<open>One organization, one member, one client; the hash is the identity.\<close>

definition demo_sha :: "string \<Rightarrow> string" where "demo_sha s = s"
definition demo_uri :: "string \<Rightarrow> (string \<times> string option) list \<Rightarrow> string" where "demo_uri u ps = u"
definition demo_ttl :: oauth_ttls where "demo_ttl = \<lparr>access_ttl = hours 1, refresh_ttl = days 30\<rparr>"
definition demo_member :: membership where
  "demo_member = \<lparr>m_org = ''org'', m_user = ''usr'', m_role = ''member'', m_created_at = 0\<rparr>"
definition demo_user :: user where
  "demo_user = \<lparr>u_id = ''usr'', u_email = ''u@x'', u_name = None, u_locale = ''fr'', u_created_at = 0\<rparr>"
definition demo_client :: oauth_client where
  "demo_client = \<lparr>oc_id = ''cli'', oc_name = None, oc_redirect_uris = [], oc_info = [],
     oc_created_at = 0, oc_expires_at = None, oc_revoked_at = None\<rparr>"
definition demo_grant :: oauth_grant where
  "demo_grant = \<lparr>g_id = ''g'', g_client = ''cli'', g_org = ''org'', g_user = Some ''usr'',
     g_scopes = [RUNS_READ, USAGE_READ], g_resource = None, g_created_at = 0, g_revoked_at = None,
     g_revocation_reason = None, g_lock_seq = 0\<rparr>"
definition demo_old :: oauth_token where
  "demo_old = \<lparr>t_id = ''r1'', t_kind = Refresh, t_hash = ''daas_ort_1'', t_client = ''cli'',
     t_grant = Some ''g'', t_org = ''org'', t_user = Some ''usr'', t_scopes = [RUNS_READ, USAGE_READ],
     t_resource = None, t_parent = Some ''code'', t_created_at = 0, t_expires_at = Some (days 30),
     t_revoked_at = Some 5, t_rotated_at = Some 5, t_last_used_at = None\<rparr>"
definition demo_live :: oauth_token where
  "demo_live = \<lparr>t_id = ''r2'', t_kind = Refresh, t_hash = ''daas_ort_2'', t_client = ''cli'',
     t_grant = Some ''g'', t_org = ''org'', t_user = Some ''usr'', t_scopes = [RUNS_READ, USAGE_READ],
     t_resource = None, t_parent = Some ''r1'', t_created_at = 5, t_expires_at = Some (days 30),
     t_revoked_at = None, t_rotated_at = None, t_last_used_at = Some 5\<rparr>"
definition demo_access :: oauth_token where
  "demo_access = \<lparr>t_id = ''a2'', t_kind = Access, t_hash = ''daas_oat_2'', t_client = ''cli'',
     t_grant = Some ''g'', t_org = ''org'', t_user = Some ''usr'', t_scopes = [RUNS_READ],
     t_resource = None, t_parent = Some ''r2'', t_created_at = 5, t_expires_at = Some (hours 1),
     t_revoked_at = None, t_rotated_at = None, t_last_used_at = None\<rparr>"
definition demo_db :: cdb where
  "demo_db = empty_cdb\<lparr>users := [demo_user], memberships := [demo_member],
     oauth_clients := [demo_client], oauth_grants := [demo_grant],
     oauth_tokens := [demo_old, demo_live, demo_access]\<rparr>"

lemmas demo_defs = demo_old_def demo_live_def demo_access_def demo_grant_def demo_client_def
  demo_user_def demo_member_def demo_db_def empty_cdb_def demo_ttl_def

lemma demo_inv: "oauth_inv demo_db"
  by (simp add: oauth_inv_def tables_inv_def demo_defs keys_inv_def consent_inv_def revoked_inv_def
      rotated_inv_def child_inv_def single_inv_def of_grant_def child_of_def live_refresh_of_def
      tok_revoked_def tok_rotated_def grant_revoked_def)

theorem reused_refresh_kills_grant_witness:
  "filter (\<lambda>t. t_grant t = Some ''g'' \<and> t_revoked_at t = None)
      (oauth_tokens (fold (oauth_step demo_sha demo_uri demo_ttl) [Purge 6]
        (snd (load_refresh_token demo_sha False 6 6 ''ev'' None ''cli'' ''daas_ort_1'' demo_db)))) = []"
proof -
  have "\<forall>t \<in> set (oauth_tokens (fold (oauth_step demo_sha demo_uri demo_ttl) [Purge 6]
        (snd (load_refresh_token demo_sha False 6 6 ''ev'' None ''cli'' ''daas_ort_1'' demo_db)))).
      t_grant t = Some ''g'' \<longrightarrow> t_revoked_at t \<noteq> None"
    using reused_refresh_kills_grant [of demo_db demo_old "''g''" demo_sha "''daas_ort_1''" "''cli''"
        "[Purge 6]" _ 6 6 "''ev''" None _ demo_uri demo_ttl, OF demo_inv _ _ _ _ _ _ _ _ _ refl refl]
    by (simp add: demo_db_def demo_old_def demo_sha_def MAX_SECRET_LEN_def)
  then show ?thesis unfolding filter_empty_conv by blast
qed

theorem principal_within_role_and_consent_witness:
  "\<exists>p. fst (principal_for demo_sha 6 ''daas_oat_2'' demo_db) = Inr (Some p) \<and>
     op_scopes p = {RUNS_READ} \<and> op_scopes p \<subseteq> set (g_scopes demo_grant)"
proof -
  have "fst (principal_for demo_sha 6 ''daas_oat_2'' demo_db) = Inr (Some \<lparr>op_org = ''org'',
     op_scopes = {RUNS_READ}, op_user = ''usr'', op_token_id = ''a2'', op_client_id = ''cli''\<rparr>)"
    by (simp add: principal_for_def principal_row_alt demo_defs demo_sha_def ACCESS_PREFIX_def
        MAX_SECRET_LEN_def sql_first_def grant_live_def get_membership_def get_user_def not_expired_def
        Let_def role_scopes_def MEMBER_SCOPES_def RUNS_READ_def)
  with principal_within_role_and_consent [OF demo_inv this] show ?thesis
    by (auto simp: demo_db_def)
qed

theorem purge_keeps_principals_witness:
  "fst (principal_for demo_sha 7 ''daas_oat_2'' (snd (purge_expired 6 demo_db)))
     = fst (principal_for demo_sha 7 ''daas_oat_2'' demo_db)"
  by (rule purge_keeps_principals [OF demo_inv]) simp


definition demo_mint :: pair_mint where
  "demo_mint = \<lparr>pm_refresh_id = ''r3'', pm_access_id = ''a3'', pm_refresh_random = ''3'', pm_access_random = ''3''\<rparr>"

theorem refresh_rotates_witness:
  "\<exists>resp db'. exchange_refresh_txn demo_sha demo_ttl 6 6 6 demo_mint ''ev'' None ''cli'' ''g'' ''r2'' [RUNS_READ] demo_db
      = (Inr resp, db') \<and>
    (\<exists>r \<in> set (oauth_tokens db'). t_scopes r = [RUNS_READ, USAGE_READ] \<and>
       filter (live_refresh_of ''g'') (oauth_tokens db') = [r])"
proof -
  have "\<exists>resp db'. exchange_refresh_txn demo_sha demo_ttl 6 6 6 demo_mint ''ev'' None ''cli'' ''g'' ''r2'' [RUNS_READ] demo_db
      = (Inr resp, db')"
    by (simp add: exchange_refresh_txn_def guard_grant_def usable_refresh_def classify_refresh_def demo_defs
        Let_def sql_first_def get_oauth_grant_def get_membership_def not_expired_def dedupe_def
        rotatable_def child_access_def issue_pair_def new_secret_def demo_mint_def demo_sha_def
        REFRESH_PREFIX_def ACCESS_PREFIX_def refresh_row_def insert_token_def sql_insert_def
        record_event_known RUNS_READ_def)
  then obtain resp db' where eq: "exchange_refresh_txn demo_sha demo_ttl 6 6 6 demo_mint ''ev'' None ''cli''
      ''g'' ''r2'' [RUNS_READ] demo_db = (Inr resp, db')" by blast
  from refresh_rotates [OF demo_inv eq] obtain r old where
    "r \<in> set (oauth_tokens db')" "t_scopes r = t_scopes old" "old \<in> set (oauth_tokens demo_db)"
    "t_id old = ''r2''" "filter (live_refresh_of ''g'') (oauth_tokens db') = [r]" by blast
  with eq show ?thesis
    by (auto simp: demo_db_def demo_old_def demo_live_def demo_access_def)
qed

definition demo_provider :: oauth_provider where
  "demo_provider = \<lparr>pv_issuer = ''https://i'', pv_consent_origin = ''https://i'',
     pv_resource_url = ''https://i/mcp'', pv_dev = False, pv_ttls = demo_ttl,
     pv_authorization_ttl = minutes 10\<rparr>"
definition demo_challenge :: string where "demo_challenge = replicate 43 (CHR ''a'')"
definition demo_params :: auth_params where
  "demo_params = \<lparr>ap_scopes = Some [RUNS_READ, KEYS_MANAGE], ap_challenge = demo_challenge,
     ap_redirect_uri = ''https://c'', ap_redirect_explicit = True, ap_state = None, ap_resource = None\<rparr>"
definition demo_approval :: decision where
  "demo_approval = \<lparr>d_approve = True, d_org = Some ''org'', d_scopes = None\<rparr>"
definition demo_run :: "oauth_event list" where
  "demo_run = [SetMemberships [demo_member], Authorize demo_provider 0 ''req'' ''cli'' None demo_params,
     Decide 1 ''tok'' ''ev'' None ''usr'' ''req'' demo_approval]"
definition demo_code :: auth_code where
  "demo_code = \<lparr>dc_client = ''cli'', dc_scopes = [RUNS_READ], dc_expires_at = 60000001,
     dc_challenge = demo_challenge, dc_redirect_uri = ''https://c'', dc_resource = None,
     dc_subject = ''usr'', dc_request_id = ''req'', dc_org = ''org''\<rparr>"

lemma demo_challenge_ok: "pkce_s256 demo_challenge"
  by code_simp

lemma demo_pending:
  "fold (oauth_step demo_sha demo_uri demo_ttl) (butlast demo_run) empty_cdb =
     empty_cdb\<lparr>memberships := [demo_member], oauth_codes := [\<lparr>ac_id = ''req'', ac_client = ''cli'',
       ac_org = None, ac_user = None, ac_hash = None, ac_scopes = [RUNS_READ, KEYS_MANAGE],
       ac_challenge = demo_challenge, ac_redirect_uri = ''https://c'',
       ac_redirect_explicit = True, ac_state = None, ac_resource = None, ac_status = CPending,
       ac_created_at = 0, ac_expires_at = minutes 10, ac_exchanged_at = None\<rparr>]\<rparr>"
  by (simp add: demo_run_def authorize_def Let_def request_scopes_def demo_params_def dedupe_def
      KEY_SCOPES_def scope_names demo_challenge_ok too_long_def MAX_TEXT_def demo_provider_def
      sql_insert_def empty_cdb_def)


lemma demo_member_scopes: "{RUNS_READ, KEYS_MANAGE} \<inter> MEMBER_SCOPES = {RUNS_READ}"
  by (auto simp: MEMBER_SCOPES_def scope_names)

theorem approval_grants_within_role_witness:
  "\<exists>db' c. decide demo_sha demo_uri 1 ''tok'' ''ev'' None ''usr'' ''req'' demo_approval
       (fold (oauth_step demo_sha demo_uri demo_ttl) (butlast demo_run) empty_cdb) = (Inr ''https://c'', db') \<and>
     c \<in> set (oauth_codes db') \<and> ac_status c = CApproved \<and> set (ac_scopes c) = {RUNS_READ}"
proof -
  let ?db = "fold (oauth_step demo_sha demo_uri demo_ttl) (butlast demo_run) empty_cdb"
  have keyed: "codes_keyed ?db" by (simp add: demo_pending codes_keyed_def)
  have ok: "fst (decide demo_sha demo_uri 1 ''tok'' ''ev'' None ''usr'' ''req'' demo_approval ?db) = Inr ''https://c''"
    unfolding demo_pending
    by (simp add: decide_def get_oauth_code_def sql_first_def demo_approval_def
        get_membership_def demo_member_def empty_cdb_def Let_def granted_scopes_def grantable_scopes_def
        role_scopes_def MEMBER_SCOPES_def scope_names pending_code_def record_event_known demo_uri_def)
  then obtain db' where eq: "decide demo_sha demo_uri 1 ''tok'' ''ev'' None ''usr'' ''req'' demo_approval ?db
      = (Inr ''https://c'', db')"
    by (cases "decide demo_sha demo_uri 1 ''tok'' ''ev'' None ''usr'' ''req'' demo_approval ?db") auto
  have yes: "d_approve demo_approval" by (simp add: demo_approval_def)
  from approval_grants_within_role [OF keyed yes eq]
  obtain row c m where rm: "row \<in> set (oauth_codes ?db)" "m \<in> set (memberships ?db)" and c: "c \<in> set (oauth_codes db')"
    "ac_status c = CApproved" "set (ac_scopes c) = set (ac_scopes row) \<inter> role_scopes (m_role m) \<inter>
      (case d_scopes demo_approval of None \<Rightarrow> UNIV | Some ws \<Rightarrow> set ws)" by blast
  from rm(1) have "ac_scopes row = [RUNS_READ, KEYS_MANAGE]" by (simp add: demo_pending)
  moreover from rm(2) have "m_role m = ''member''" by (simp add: demo_pending demo_member_def)
  ultimately have "set (ac_scopes c) = {RUNS_READ}"
    using c(3) demo_member_scopes by (simp add: demo_approval_def role_scopes_def)
  with eq c(1,2) show ?thesis by (intro exI conjI)
qed

lemma demo_approved:
  "fold (oauth_step demo_sha demo_uri demo_ttl) demo_run empty_cdb =
     snd (decide demo_sha demo_uri 1 ''tok'' ''ev'' None ''usr'' ''req'' demo_approval
       (fold (oauth_step demo_sha demo_uri demo_ttl) (butlast demo_run) empty_cdb))"
  by (simp add: demo_run_def)

lemma demo_redeemed:
  "\<exists>resp. fst (exchange_authorization_code demo_sha demo_ttl 1 2 2 ''g'' demo_mint [''e''] None ''cli''
     demo_code (fold (oauth_step demo_sha demo_uri demo_ttl) demo_run empty_cdb)) = Inr resp"
  unfolding demo_approved demo_pending
  by (simp add: decide_def get_oauth_code_def sql_first_def demo_approval_def CODE_TTL_def
        get_membership_def demo_member_def empty_cdb_def Let_def granted_scopes_def grantable_scopes_def
        role_scopes_def MEMBER_SCOPES_def scope_names pending_code_def record_event_known
        exchange_authorization_code_def code_consumable_def demo_code_def demo_mint_def sql_insert_def
        issue_pair_def new_secret_def refresh_row_def insert_token_def demo_sha_def REFRESH_PREFIX_def
        ACCESS_PREFIX_def)

theorem code_redeemed_at_most_once_witness:
  "\<exists>resp db1. exchange_authorization_code demo_sha demo_ttl 1 2 2 ''g'' demo_mint [''e''] None ''cli''
       demo_code (fold (oauth_step demo_sha demo_uri demo_ttl) demo_run empty_cdb) = (Inr resp, db1) \<and>
     (\<forall>resp'. fst (exchange_authorization_code demo_sha demo_ttl 1 3 3 ''g4'' demo_mint [''e''] None ''cli''
       demo_code (fold (oauth_step demo_sha demo_uri demo_ttl) [Purge 3] db1)) \<noteq> Inr resp')"
proof -
  obtain resp where resp: "fst (exchange_authorization_code demo_sha demo_ttl 1 2 2 ''g'' demo_mint [''e''] None ''cli''
       demo_code (fold (oauth_step demo_sha demo_uri demo_ttl) demo_run empty_cdb)) = Inr resp"
    using demo_redeemed by blast
  have "\<forall>resp'. fst (exchange_authorization_code demo_sha demo_ttl 1 3 3 ''g4'' demo_mint [''e''] None ''cli''
       demo_code (fold (oauth_step demo_sha demo_uri demo_ttl) [Purge 3] (snd (exchange_authorization_code demo_sha
         demo_ttl 1 2 2 ''g'' demo_mint [''e''] None ''cli'' demo_code
         (fold (oauth_step demo_sha demo_uri demo_ttl) demo_run empty_cdb))))) \<noteq> Inr resp'"
    by (intro allI, rule code_redeemed_at_most_once [OF refl resp refl]) simp_all
  then show ?thesis using resp
    by - (intro exI [of _ resp] exI [of _ "snd (exchange_authorization_code demo_sha demo_ttl 1 2 2 ''g'' demo_mint
       [''e''] None ''cli'' demo_code (fold (oauth_step demo_sha demo_uri demo_ttl) demo_run empty_cdb))"], simp add: prod_eq_iff)
qed

theorem revoke_subtree_exact_witness:
  "\<exists>n db'. revoke_subtree 5 ''cli'' [''code''] 9 demo_db = Some (n, db') \<and> n = 2"
proof -
  let ?depth = "\<lambda>i. if i = ''code'' then 0 else if i = ''r1'' then 1 else if i = ''r2'' then 2 else (3::nat)"
  have "ranked ?depth (oauth_tokens demo_db)" by (simp add: ranked_def demo_defs)
  moreover have "?depth (t_id t) < 4" for t :: oauth_token by simp
  ultimately have "\<exists>n db'. revoke_subtree (Suc 4) ''cli'' [''code''] 9 demo_db = Some (n, db')"
    using revoke_subtree_exact [of ?depth demo_db 4 "''cli''" "[''code'']" 9] by auto
  then obtain n db' where r: "revoke_subtree 5 ''cli'' [''code''] 9 demo_db = Some (n, db')" by auto
  moreover have "n = 2" using r
    by (simp add: revoke_subtree_def dedupe_def subtree_seed_def subtree_children_def demo_defs Let_def
        numeral_eq_Suc rowcount_def split: if_splits)
  ultimately show ?thesis by blast
qed

end
