(* ===== verification/Identifiers.thy ===== *)
theory Identifiers
  imports PyText
begin

text \<open>
  ULIDs (\<^verbatim>\<open>app/control/ids.py\<close>): 48 bits of milliseconds and 80 random bits in Crockford base 32.
  The module's globals \<open>_last_ms\<close> and \<open>_last_rand\<close> are the generator's state; the clock and
  \<open>secrets.randbits\<close> are arguments of a call. The lock makes a call one step.
\<close>

section \<open>Encoding\<close>

definition ALPHABET :: string where "ALPHABET = ''0123456789ABCDEFGHJKMNPQRSTVWXYZ''"

text \<open>\<open>_encode\<close> appends the low digit first and reverses at the end.\<close>

fun encode_rev :: "nat \<Rightarrow> nat \<Rightarrow> string" where
  "encode_rev value 0 = []"
| "encode_rev value (Suc n) = ALPHABET ! (value mod 32) # encode_rev (value div 32) n"

definition encode :: "nat \<Rightarrow> nat \<Rightarrow> string" where
  "encode value len = rev (encode_rev value len)"

section \<open>The generator\<close>

record ulid_state =
  last_ms :: int
  last_rand :: nat

definition ulid_init :: ulid_state where
  "ulid_init = \<lparr>last_ms = -1, last_rand = 0\<rparr>"

definition ulid_next :: "nat \<Rightarrow> nat \<Rightarrow> nat \<Rightarrow> ulid_state \<Rightarrow> ulid_state" where
  "ulid_next now_ms rand80 rand79 st =
     (if int now_ms \<le> last_ms st then
        (let r = last_rand st + 1 in
         if r \<ge> 2 ^ 80 then \<lparr>last_ms = last_ms st + 1, last_rand = rand80\<rparr>
         else \<lparr>last_ms = last_ms st, last_rand = r\<rparr>)
      else \<lparr>last_ms = int now_ms, last_rand = rand79\<rparr>)"

definition ulid_text :: "ulid_state \<Rightarrow> string" where
  "ulid_text st = encode (nat (last_ms st)) 10 @ encode (last_rand st) 16"

definition new_ulid :: "nat \<Rightarrow> nat \<Rightarrow> nat \<Rightarrow> ulid_state \<Rightarrow> string \<times> ulid_state" where
  "new_ulid now_ms rand80 rand79 st =
     (let st' = ulid_next now_ms rand80 rand79 st in (ulid_text st', st'))"

text \<open>The identifiers of a sequence of calls.\<close>

fun ulids :: "(nat \<times> nat \<times> nat) list \<Rightarrow> ulid_state \<Rightarrow> string list" where
  "ulids [] st = []"
| "ulids ((now, r80, r79) # calls) st =
     (let (u, st') = new_ulid now r80 r79 st in u # ulids calls st')"

section \<open>The encoding is an order embedding\<close>

definition digit_value :: "char \<Rightarrow> nat" where
  "digit_value c = length (takeWhile (\<lambda>d. d \<noteq> c) ALPHABET)"

definition decode :: "string \<Rightarrow> nat" where
  "decode s = foldl (\<lambda>acc c. acc * 32 + digit_value c) 0 s"

lemma length_encode [simp]: "length (encode v n) = n"
proof -
  have "length (encode_rev v n) = n" by (induction n arbitrary: v) auto
  then show ?thesis by (simp add: encode_def)
qed

lemma encode_Suc: "encode v (Suc n) = encode (v div 32) n @ [ALPHABET ! (v mod 32)]"
  by (simp add: encode_def)

lemma all_below_32: "(\<forall>i < 32. P i) \<longleftrightarrow> list_all P [0..<32]" for P :: "nat \<Rightarrow> bool"
  by (auto simp: list_all_iff)

lemma digit_value_alphabet: "i < 32 \<Longrightarrow> digit_value (ALPHABET ! i) = i"
proof -
  have "\<forall>i < 32. digit_value (ALPHABET ! i) = i"
    unfolding all_below_32 by code_simp
  then show "i < 32 \<Longrightarrow> digit_value (ALPHABET ! i) = i" by blast
qed

lemma alphabet_mono: "i < j \<Longrightarrow> j < 32 \<Longrightarrow> ALPHABET ! i < ALPHABET ! j"
proof -
  have "\<forall>j < 32. list_all (\<lambda>i. ALPHABET ! i < ALPHABET ! j) [0..<j]"
    unfolding all_below_32 by code_simp
  then show "i < j \<Longrightarrow> j < 32 \<Longrightarrow> ALPHABET ! i < ALPHABET ! j" by (auto simp: list_all_iff)
qed

lemma decode_encode: "decode (encode v n) = v mod 32 ^ n"
proof (induction n arbitrary: v)
  case 0
  show ?case by (simp add: encode_def decode_def)
next
  case (Suc n)
  have "decode (encode v (Suc n)) = decode (encode (v div 32) n) * 32 + v mod 32"
    by (simp add: encode_Suc decode_def digit_value_alphabet)
  also have "\<dots> = v mod 32 ^ Suc n"
    by (simp add: Suc.IH mod_mult2_eq mult.commute)
  finally show ?case .
qed

lemma append_same_length_less:
  fixes a b c d :: string
  assumes "length a = length b"
  shows "a @ c < b @ d \<longleftrightarrow> a < b \<or> a = b \<and> c < d"
  using assms by (induction a b rule: list_induct2) auto

lemma encode_mono:
  assumes "v < w" and "w < 32 ^ n"
  shows "encode v n < encode w n"
  using assms
proof (induction n arbitrary: v w)
  case (Suc n)
  have lt: "ALPHABET ! (v mod 32) < ALPHABET ! (w mod 32)" if "v div 32 = w div 32"
  proof (rule alphabet_mono)
    from that Suc.prems(1) show "v mod 32 < w mod 32"
      by (metis div_mult_mod_eq nat_add_left_cancel_less)
  qed simp
  show ?case
  proof (cases "v div 32 = w div 32")
    case True
    with lt show ?thesis by (simp add: encode_Suc append_same_length_less)
  next
    case False
    with Suc.prems(1) have "v div 32 < w div 32"
      by (meson div_le_mono le_neq_implies_less less_imp_le)
    moreover have "w div 32 < 32 ^ n" using Suc.prems(2) by (simp add: less_mult_imp_div_less mult.commute)
    ultimately have "encode (v div 32) n < encode (w div 32) n" by (rule Suc.IH)
    then show ?thesis by (simp add: encode_Suc append_same_length_less)
  qed
qed simp

section \<open>Strictly increasing identifiers\<close>

definition ulid_less :: "ulid_state \<Rightarrow> ulid_state \<Rightarrow> bool" where
  "ulid_less s t = (last_ms s < last_ms t \<or> last_ms s = last_ms t \<and> last_rand s < last_rand t)"

definition ulid_ok :: "ulid_state \<Rightarrow> bool" where
  "ulid_ok s = (- 1 \<le> last_ms s \<and> last_rand s < 2 ^ 80)"

text \<open>\<open>secrets.randbits(k)\<close> is below \<open>2 ^ k\<close>.\<close>

definition randoms_ok :: "nat \<times> nat \<times> nat \<Rightarrow> bool" where
  "randoms_ok call = (case call of (now, r80, r79) \<Rightarrow> r80 < 2 ^ 80 \<and> r79 < 2 ^ 79)"

lemma ulid_next_ok:
  "ulid_ok st \<Longrightarrow> randoms_ok (now, r80, r79) \<Longrightarrow> ulid_ok (ulid_next now r80 r79 st)"
  by (auto simp: ulid_next_def ulid_ok_def randoms_ok_def Let_def)

lemma ulid_next_less: "ulid_less st (ulid_next now r80 r79 st)"
  by (auto simp: ulid_next_def ulid_less_def Let_def)

lemma ulid_next_ms:
  assumes "last_ms st < int b" and "now < b"
  shows "last_ms (ulid_next now r80 r79 st) < int (Suc b)" "- 1 \<le> last_ms st \<Longrightarrow>
    0 \<le> last_ms (ulid_next now r80 r79 st)"
  using assms by (auto simp: ulid_next_def Let_def)

definition ulid_call :: "nat \<times> nat \<times> nat \<Rightarrow> ulid_state \<Rightarrow> ulid_state" where
  "ulid_call call st = (case call of (now, r80, r79) \<Rightarrow>
     if randoms_ok call then ulid_next now r80 r79 st else st)"

interpretation generator: monotone_machine ulid_call ulid_ok "\<lambda>s t. s = t \<or> ulid_less s t"
proof
  show "ulid_ok s \<Longrightarrow> ulid_ok (ulid_call e s)" for s e
    by (auto simp: ulid_call_def ulid_next_ok split: prod.splits)
  show "s = ulid_call e s \<or> ulid_less s (ulid_call e s)" for s e
    by (auto simp: ulid_call_def ulid_next_less split: prod.splits)
qed (auto simp: ulid_less_def)

lemma ulid_text_mono:
  assumes "ulid_less s t" and "0 \<le> last_ms s" and "last_ms t < 32 ^ 10"
    and "ulid_ok s" and "ulid_ok t"
  shows "ulid_text s < ulid_text t"
proof (cases "last_ms s = last_ms t")
  case True
  with assms have "last_rand s < last_rand t" "last_rand t < 32 ^ 16"
    by (simp_all add: ulid_less_def ulid_ok_def)
  with True show ?thesis by (simp add: ulid_text_def append_same_length_less encode_mono)
next
  case False
  with assms have "nat (last_ms s) < nat (last_ms t)" "nat (last_ms t) < 32 ^ 10"
    by (auto simp: ulid_less_def nat_less_iff)
  then show ?thesis by (simp add: ulid_text_def append_same_length_less encode_mono)
qed


lemma ulids_increase:
  assumes "ulid_ok st" and "last_ms st < int b" and "b + length calls \<le> 2 ^ 50"
    and "\<forall>call \<in> set calls. randoms_ok call \<and> fst call < b"
  shows "sorted_wrt (<) (ulids calls st) \<and> (0 \<le> last_ms st \<longrightarrow> (\<forall>u \<in> set (ulids calls st). ulid_text st < u))"
  using assms
proof (induction calls arbitrary: st b)
  case (Cons call calls)
  obtain now r80 r79 where call: "call = (now, r80, r79)" by (cases call)
  let ?st = "ulid_next now r80 r79 st"
  from Cons.prems(4) have ok: "randoms_ok (now, r80, r79)" "now < b" by (simp_all add: call)
  have st: "ulid_ok ?st" "last_ms ?st < int (Suc b)" "0 \<le> last_ms ?st"
    using ulid_next_ok [OF Cons.prems(1) ok(1)] ulid_next_ms [OF Cons.prems(2) ok(2), of r80 r79] Cons.prems(1)
    by (auto simp: ulid_ok_def)
  have IH: "sorted_wrt (<) (ulids calls ?st)" "\<forall>u \<in> set (ulids calls ?st). ulid_text ?st < u"
    using Cons.IH [OF st(1,2)] Cons.prems(3,4) st(3) by (auto simp: less_SucI)
  have less: "ulid_text st < ulid_text ?st" if "0 \<le> last_ms st"
  proof (rule ulid_text_mono [OF ulid_next_less that _ Cons.prems(1) st(1)])
    from st(2) Cons.prems(3) show "last_ms ?st < 32 ^ 10" by simp
  qed
  from IH less show ?case
    by (auto simp: call new_ulid_def Let_def dest: less_trans)
qed simp

lemma length_ulids: "u \<in> set (ulids calls st) \<Longrightarrow> length u = 26"
  by (induction calls st rule: ulids.induct) (auto simp: new_ulid_def ulid_text_def Let_def)

text \<open>The identifiers one process mints are 26 characters long and strictly increase as strings, call
  after call, even when the clock stands still or goes backwards (audit pagination relies on it). The bound on
  the clock is the 48 bits of the format; fewer than \<open>2 ^ 48\<close> calls cannot carry past the 10 characters.\<close>

theorem ulids_strictly_increase:
  assumes "\<forall>call \<in> set calls. randoms_ok call \<and> fst call < 2 ^ 48" and "length calls < 2 ^ 48"
  shows "sorted_wrt (<) (ulids calls ulid_init) \<and> (\<forall>u \<in> set (ulids calls ulid_init). length u = 26)"
  using ulids_increase [of ulid_init "2 ^ 48" calls] assms length_ulids
  by (auto simp: ulid_init_def ulid_ok_def)

theorem ulids_strictly_increase_witness:
  "sorted_wrt (<) (ulids [(1700000000000, 5, 7), (1700000000000, 5, 9), (1699999999999, 5, 9)] ulid_init)"
  using ulids_strictly_increase [of "[(1700000000000, 5, 7), (1700000000000, 5, 9), (1699999999999, 5, 9)]"]
  by (simp add: randoms_ok_def)

text \<open>A ULID reads back: its first 10 characters decode to the millisecond it was minted in, the other 16
  to its random part.\<close>

theorem ulid_reads_back:
  assumes "new_ulid now r80 r79 st = (u, st')" and "ulid_ok st" and "randoms_ok (now, r80, r79)"
    and "now < 2 ^ 48" and "last_ms st < 2 ^ 48"
  shows "int (decode (take 10 u)) = last_ms st' \<and> decode (drop 10 u) = last_rand st' \<and>
    (last_ms st < int now \<longrightarrow> last_ms st' = int now)"
proof -
  have st': "st' = ulid_next now r80 r79 st" and u: "u = ulid_text st'"
    using assms(1) by (auto simp: new_ulid_def Let_def)
  have ok: "ulid_ok st'" unfolding st' by (rule ulid_next_ok [OF assms(2,3)])
  have ms: "0 \<le> last_ms st'" "last_ms st' < 32 ^ 10"
    using ulid_next_ms [of st "2 ^ 48" now r80 r79] assms(2,4,5) by (auto simp: st' ulid_ok_def)
  then have "nat (last_ms st') < 32 ^ 10" by (simp add: nat_less_iff)
  moreover have "last_rand st' < 32 ^ 16" using ok by (simp add: ulid_ok_def)
  ultimately show ?thesis using ms by (simp add: u ulid_text_def decode_encode st' ulid_next_def)
qed

theorem ulid_reads_back_witness:
  "int (decode (take 10 (fst (new_ulid 1700000000000 5 7 ulid_init)))) = 1700000000000"
  using ulid_reads_back [of 1700000000000 5 7 ulid_init "fst (new_ulid 1700000000000 5 7 ulid_init)"
      "snd (new_ulid 1700000000000 5 7 ulid_init)"]
  by (simp add: ulid_ok_def ulid_init_def randoms_ok_def ulid_next_def new_ulid_def)

end
