(* ===== verification/Security.thy ===== *)
theory Security
  imports PyText "HOL-Library.Word"
begin

text \<open>
  API keys, session cookies and signatures (\<^verbatim>\<open>app/control/security.py\<close>). SHA-256 (\<open>sha\<close>, to
  hexadecimal text), the HMAC-SHA256 digest (\<open>mac\<close>, to bytes) and the random texts of the \<open>secrets\<close>
  module are arguments.
\<close>

section \<open>API keys\<close>

definition KEY_PREFIX_LEN :: nat where "KEY_PREFIX_LEN = 8"
definition KEY_BRAND :: string where "KEY_BRAND = ''daas_''"

definition new_api_key :: "(string \<Rightarrow> string) \<Rightarrow> string \<Rightarrow> string \<Rightarrow> string \<times> string \<times> string" where
  "new_api_key sha token_hex token_urlsafe =
     (let raw = KEY_BRAND @ token_hex @ ''_'' @ token_urlsafe in (raw, token_hex, sha raw))"

text \<open>\<open>^daas_([0-9a-f]{8})_[A-Za-z0-9_-]{32,128}$\<close> on a stripped text, which has no trailing newline.\<close>

definition key_re :: "string \<Rightarrow> string option" where
  "key_re s =
     (let hex = take 8 (drop 5 s); secret = drop 14 s in
      if take 5 s = KEY_BRAND \<and> length hex = 8 \<and> list_all is_lower_hex hex
         \<and> take 1 (drop 13 s) = ''_'' \<and> 32 \<le> length secret \<and> length secret \<le> 128
         \<and> list_all is_urlsafe secret
      then Some hex else None)"

definition parse_api_key :: "string option \<Rightarrow> string option" where
  "parse_api_key presented =
     (case presented of None \<Rightarrow> None
      | Some p \<Rightarrow> if p = [] then None else key_re (py_strip p))"

section \<open>Session cookies\<close>

definition hex_digit :: "nat \<Rightarrow> char" where
  "hex_digit d = (if d < 10 then char_of (48 + d) else char_of (87 + d))"

text \<open>\<open>bytes.hex()\<close>, and \<open>_hmac\<close>: the keyed digest as text.\<close>

definition hexdigest :: "8 word list \<Rightarrow> string" where
  "hexdigest bs = concat (map (\<lambda>b. [hex_digit (unat b div 16), hex_digit (unat b mod 16)]) bs)"

definition hmac_hex :: "(string \<Rightarrow> string \<Rightarrow> 8 word list) \<Rightarrow> string \<Rightarrow> string \<Rightarrow> string" where
  "hmac_hex mac secret message = hexdigest (mac secret message)"

definition sign_session_id :: "(string \<Rightarrow> string \<Rightarrow> 8 word list) \<Rightarrow> string \<Rightarrow> string \<Rightarrow> string" where
  "sign_session_id mac session_id secret = session_id @ ''.'' @ hmac_hex mac secret (''session:'' @ session_id)"

definition unsign_session_cookie ::
  "(string \<Rightarrow> string \<Rightarrow> 8 word list) \<Rightarrow> string option \<Rightarrow> string option \<Rightarrow> string option" where
  "unsign_session_cookie mac cookie secret =
     (case (cookie, secret) of
        (Some c, Some k) \<Rightarrow>
          if c = [] \<or> k = [] then None
          else (case py_rpartition (CHR ''.'') c of
              None \<Rightarrow> None
            | Some (session_id, signature) \<Rightarrow>
                if session_id = [] \<or> signature \<noteq> hmac_hex mac k (''session:'' @ session_id) then None
                else Some session_id)
      | _ \<Rightarrow> None)"

section \<open>Webhook signatures\<close>

definition webhook_signing_secret :: "(string \<Rightarrow> string \<Rightarrow> 8 word list) \<Rightarrow> string \<Rightarrow> string \<Rightarrow> string" where
  "webhook_signing_secret mac webhook_id secret = ''whsec_'' @ hmac_hex mac secret (''webhook:'' @ webhook_id)"

definition sign_payload :: "(string \<Rightarrow> string \<Rightarrow> 8 word list) \<Rightarrow> string \<Rightarrow> string \<Rightarrow> string" where
  "sign_payload mac body signing_secret = ''sha256='' @ hmac_hex mac signing_secret body"

section \<open>Properties\<close>

text \<open>A codec with a signature: what was signed reads back, and nothing else does.\<close>

locale signed_codec =
  fixes sign :: "'a \<Rightarrow> string" and unsign :: "string \<Rightarrow> 'a option" and valid :: "'a \<Rightarrow> bool"
  assumes unsign_sign: "valid x \<Longrightarrow> unsign (sign x) = Some x"
    and unsign_sound: "unsign s = Some x \<Longrightarrow> valid x \<and> s = sign x"
begin

lemma unsign_iff: "unsign s = Some x \<longleftrightarrow> valid x \<and> s = sign x"
  using unsign_sign unsign_sound by blast

lemma sign_inj: "valid x \<Longrightarrow> valid y \<Longrightarrow> sign x = sign y \<Longrightarrow> x = y"
  using unsign_sign by (metis option.inject)

text \<open>A cookie that is not a signed value is refused.\<close>

lemma unsign_None: "unsign s = None \<longleftrightarrow> (\<forall>x. valid x \<longrightarrow> s \<noteq> sign x)"
  by (metis not_None_eq unsign_iff)

end

lemma hex_digit_lower_hex: "d < 16 \<Longrightarrow> is_lower_hex (hex_digit d)"
  by (auto simp: hex_digit_def is_lower_hex_def is_digit_def Let_def)

lemma hmac_hex_chars: "c \<in> set (hmac_hex mac k m) \<Longrightarrow> is_lower_hex c"
proof -
  have "unat (b :: 8 word) div 16 < 16" for b
  proof -
    have "unat b < 2 ^ LENGTH(8)" by (rule unsigned_less)
    then show ?thesis by simp
  qed
  then show "c \<in> set (hmac_hex mac k m) \<Longrightarrow> is_lower_hex c"
    by (auto simp: hmac_hex_def hexdigest_def hex_digit_lower_hex)
qed

lemma dot_not_hex: "\<not> is_lower_hex (CHR ''.'')"
  by (simp add: is_lower_hex_def is_digit_def Let_def)

lemma hmac_hex_no_dot: "CHR ''.'' \<notin> set (hmac_hex mac k m)"
  using hmac_hex_chars dot_not_hex by blast

interpretation cookies: signed_codec "\<lambda>s. sign_session_id mac s k"
  "\<lambda>c. unsign_session_cookie mac (Some c) (Some k)" "\<lambda>s. s \<noteq> [] \<and> k \<noteq> []" for mac k
proof
  show "unsign_session_cookie mac (Some (sign_session_id mac s k)) (Some k) = Some s"
    if "s \<noteq> [] \<and> k \<noteq> []" for s
    using that py_rpartition_append [OF hmac_hex_no_dot]
    by (simp add: unsign_session_cookie_def sign_session_id_def)
  show "(s \<noteq> [] \<and> k \<noteq> []) \<and> c = sign_session_id mac s k"
    if "unsign_session_cookie mac (Some c) (Some k) = Some s" for c s
    using that by (auto simp: unsign_session_cookie_def sign_session_id_def
        split: if_splits option.splits dest: py_rpartition_Some(1))
qed

text \<open>A session cookie is accepted exactly when it is the signature of a non-empty session identifier
  under the server's secret, and then it yields that identifier: forged, truncated or re-dotted cookies yield
  nothing, whatever the identifier contains.\<close>

theorem session_cookie_roundtrip:
  "unsign_session_cookie mac (Some cookie) (Some secret) = Some sid
    \<longleftrightarrow> sid \<noteq> [] \<and> secret \<noteq> [] \<and> cookie = sign_session_id mac sid secret"
  using cookies.unsign_iff by simp

lemma is_lower_hex_not_space: "is_lower_hex c \<Longrightarrow> \<not> py_isspace c"
  by (auto simp: is_lower_hex_def py_isspace_def is_digit_def Let_def)

lemma is_urlsafe_not_space: "is_urlsafe c \<Longrightarrow> \<not> py_isspace c"
  by (auto simp: is_urlsafe_def is_ascii_alnum_def py_isspace_def is_digit_def is_lower_alpha_def
      is_upper_alpha_def Let_def)

lemma key_re_iff:
  "key_re s = Some hex \<longleftrightarrow> (\<exists>secret. s = KEY_BRAND @ hex @ ''_'' @ secret \<and> length hex = 8 \<and>
     list_all is_lower_hex hex \<and> list_all is_urlsafe secret \<and> 32 \<le> length secret \<and> length secret \<le> 128)"
proof
  assume k: "key_re s = Some hex"
  let ?secret = "drop 14 s"
  from k have hex: "hex = take 8 (drop 5 s)" and u: "take 1 (drop 13 s) = ''_''" and b: "take 5 s = KEY_BRAND"
    and rest: "length hex = 8" "list_all is_lower_hex hex" "list_all is_urlsafe ?secret"
      "32 \<le> length ?secret" "length ?secret \<le> 128"
    by (auto simp: key_re_def Let_def split: if_splits)
  have "s = take 5 s @ drop 5 s" "drop 5 s = take 8 (drop 5 s) @ drop 13 s"
    using append_take_drop_id [of 8 "drop 5 s"] by simp_all
  moreover have "drop 13 s = take 1 (drop 13 s) @ drop 14 s"
    using append_take_drop_id [of 1 "drop 13 s"] by (simp del: append_take_drop_id)
  ultimately have "s = KEY_BRAND @ hex @ ''_'' @ ?secret" using hex u b by metis
  with rest show "\<exists>secret. s = KEY_BRAND @ hex @ ''_'' @ secret \<and> length hex = 8 \<and>
     list_all is_lower_hex hex \<and> list_all is_urlsafe secret \<and> 32 \<le> length secret \<and> length secret \<le> 128"
    by blast
next
  assume "\<exists>secret. s = KEY_BRAND @ hex @ ''_'' @ secret \<and> length hex = 8 \<and>
     list_all is_lower_hex hex \<and> list_all is_urlsafe secret \<and> 32 \<le> length secret \<and> length secret \<le> 128"
  then show "key_re s = Some hex" by (auto simp: key_re_def KEY_BRAND_def)
qed

text \<open>The format of API keys: a presented text is accepted exactly when, stripped of surrounding
  whitespace, it is the brand, 8 lower-case hexadecimal digits, an underscore and a URL-safe secret of 32 to
  128 characters; the result is the 8 digits, under which \<open>new_api_key\<close> stored the key.\<close>

theorem api_key_accepted_iff:
  "parse_api_key (Some p) = Some hex \<longleftrightarrow>
     (\<exists>secret. py_strip p = fst (new_api_key sha hex secret) \<and>
       length hex = KEY_PREFIX_LEN \<and> list_all is_lower_hex hex \<and> list_all is_urlsafe secret \<and>
       32 \<le> length secret \<and> length secret \<le> 128)"
proof (cases "p = []")
  case True
  then show ?thesis
    by (simp add: parse_api_key_def new_api_key_def py_strip_def py_lstrip_def py_rstrip_def KEY_BRAND_def Let_def)
next
  case False
  then show ?thesis
    by (simp add: parse_api_key_def key_re_iff new_api_key_def Let_def KEY_PREFIX_LEN_def)
qed

end
