(* ===== verification/Service.thy ===== *)
theory Service
  imports AuditTrail Scopes Security
begin

text \<open>
  Domain operations of the control plane (\<^verbatim>\<open>app/control/service.py\<close>): e-mail addresses, slugs, users,
  organizations, API keys, invitations, usage counters, and the guarded changes of memberships. New
  identifiers, times and random texts are arguments. A function that the source runs inside the caller's
  transaction maps the database to the database; the caller commits or rolls back.
\<close>

section \<open>The calendar\<close>

text \<open>\<open>strftime("%Y-%m")\<close> of a UTC stamp at or after 1970: years and months are taken off one by one.\<close>

definition leap_year :: "nat \<Rightarrow> bool" where
  "leap_year y = (4 dvd y \<and> (\<not> 100 dvd y \<or> 400 dvd y))"

definition year_length :: "nat \<Rightarrow> nat" where
  "year_length y = (if leap_year y then 366 else 365)"

definition month_lengths :: "nat \<Rightarrow> nat list" where
  "month_lengths y = [31, if leap_year y then 29 else 28, 31, 30, 31, 30, 31, 31, 30, 31, 30, 31]"

function year_and_day :: "nat \<Rightarrow> nat \<Rightarrow> nat \<times> nat" where
  "year_and_day y d = (if d < year_length y then (y, d) else year_and_day (y + 1) (d - year_length y))"
  by pat_completeness auto
termination
  by (relation "measure snd") (auto simp: year_length_def)

fun month_and_day :: "nat list \<Rightarrow> nat \<Rightarrow> nat \<Rightarrow> nat \<times> nat" where
  "month_and_day [] m d = (m, d)"
| "month_and_day (l # ls) m d = (if d < l then (m, d) else month_and_day ls (m + 1) (d - l))"

definition civil :: "stamp \<Rightarrow> nat \<times> nat \<times> nat" where
  "civil t =
     (let (y, doy) = year_and_day 1970 (nat (t div days 1));
          (m, d) = month_and_day (month_lengths y) 1 doy
      in (y, m, d + 1))"

definition current_period :: "stamp \<Rightarrow> string" where
  "current_period now = (let (y, m, d) = civil now in period_of y m)"

section \<open>Addresses and slugs\<close>

definition DEFAULT_ORG_ID :: ident where "DEFAULT_ORG_ID = ''default''"
definition DEFAULT_ORG_NAME :: string where "DEFAULT_ORG_NAME = ''Default''"

definition normalize_email :: "string \<Rightarrow> string" where
  "normalize_email email = py_lower (py_strip email)"

text \<open>\<open>^[^@\s]{1,64}@[^@\s]{1,189}\.[^@\s.]{2,}$\<close>: one \<open>@\<close>, then the last dot of the rest is the one the
  pattern matches, since the text after it has no dot; the final \<open>$\<close> also matches before a newline.\<close>

definition email_text :: "string \<Rightarrow> bool" where
  "email_text s = list_all (\<lambda>c. c \<noteq> CHR ''@'' \<and> \<not> py_isspace c) s"

definition email_re :: "string \<Rightarrow> bool" where
  "email_re s =
     (case py_partition (CHR ''@'') s of
        None \<Rightarrow> False
      | Some (local_part, rest) \<Rightarrow>
          (case py_rpartition (CHR ''.'') rest of
             None \<Rightarrow> False
           | Some (domain, tld) \<Rightarrow>
               local_part \<noteq> [] \<and> length local_part \<le> 64 \<and> email_text local_part \<and>
               domain \<noteq> [] \<and> length domain \<le> 189 \<and> email_text domain \<and>
               2 \<le> length tld \<and> email_text tld))"

definition is_valid_email :: "string \<Rightarrow> bool" where
  "is_valid_email email =
     ((email_re email \<or> (email \<noteq> [] \<and> last email = CHR 10 \<and> email_re (butlast email))) \<and> length email \<le> 254)"

text \<open>\<open>translit\<close>: the replacement of the letter l with stroke and the NFKD decomposition to ASCII (\<open>unicodedata\<close>);
  then every run of other characters than \<open>[a-z0-9]\<close> becomes one hyphen.\<close>

fun hyphenate :: "bool \<Rightarrow> string \<Rightarrow> string" where
  "hyphenate in_run [] = []"
| "hyphenate in_run (c # cs) =
     (if is_lower_alpha c \<or> is_digit c then c # hyphenate False cs
      else if in_run then hyphenate True cs else CHR ''-'' # hyphenate True cs)"

definition slugify :: "(string \<Rightarrow> string) \<Rightarrow> string \<Rightarrow> string" where
  "slugify translit name =
     (let slug = take 60 (strip_chars ''-'' (hyphenate False (py_lower (translit name))))
      in if slug = [] then ''org'' else slug)"

definition slug_candidate :: "string \<Rightarrow> nat \<Rightarrow> string" where
  "slug_candidate base n = (if n = 1 then base else base @ ''-'' @ dec_nat n)"

text \<open>The loop of \<open>unique_slug\<close>; \<open>None\<close> is a loop that has not ended within the fuel.\<close>

fun slug_loop :: "nat \<Rightarrow> string list \<Rightarrow> string \<Rightarrow> nat \<Rightarrow> string option" where
  "slug_loop 0 taken base n = None"
| "slug_loop (Suc fuel) taken base n =
     (if slug_candidate base n \<in> set taken then slug_loop fuel taken base (n + 1)
      else Some (slug_candidate base n))"

definition unique_slug :: "(string \<Rightarrow> string) \<Rightarrow> nat \<Rightarrow> cdb \<Rightarrow> string \<Rightarrow> string option" where
  "unique_slug translit fuel db name = slug_loop fuel (map o_slug (orgs db)) (slugify translit name) 1"

section \<open>Users and organizations\<close>

definition get_or_create_user ::
  "ident \<Rightarrow> stamp \<Rightarrow> string \<Rightarrow> string \<Rightarrow> cdb \<Rightarrow> exc + ((user \<times> bool) \<times> cdb)" where
  "get_or_create_user new_id now email locale db =
     (let email = normalize_email email in
      case sql_first (\<lambda>u. u_email u = email) (users db) of
        Some u \<Rightarrow> Inr ((u, False), db)
      | None \<Rightarrow>
          let u = \<lparr>u_id = new_id, u_email = email, u_name = None, u_locale = locale, u_created_at = now\<rparr>
          in (case sql_insert u_id u (users db) of
                None \<Rightarrow> Inl (PyRaise ''IntegrityError'')
              | Some us \<Rightarrow> Inr ((u, True), db\<lparr>users := us\<rparr>)))"

definition create_org ::
  "(string \<Rightarrow> string) \<Rightarrow> nat \<Rightarrow> ident \<Rightarrow> stamp \<Rightarrow> string \<Rightarrow> ident option \<Rightarrow> string \<Rightarrow> string \<Rightarrow> int
    \<Rightarrow> string option \<Rightarrow> ident option \<Rightarrow> cdb \<Rightarrow> exc + (org \<times> cdb)" where
  "create_org translit fuel new_id now name owner plan locale retention_days dpa_version org_id db =
     (case unique_slug translit fuel db name of
        None \<Rightarrow> Inl (PyRaise ''non-terminating loop'')
      | Some slug \<Rightarrow>
          let has_dpa = (dpa_version \<noteq> None \<and> dpa_version \<noteq> Some []);
              oid = (case org_id of None \<Rightarrow> new_id | Some i \<Rightarrow> if i = [] then new_id else i);
              og = \<lparr>o_id = oid, o_slug = slug, o_name = py_strip name, o_plan = plan,
                o_dpa_accepted_at = (if has_dpa then Some now else None), o_dpa_version = dpa_version,
                o_locale = locale, o_retention_days = retention_days, o_llm_narrative = False,
                o_created_at = now\<rparr>
          in (case sql_insert o_id og (orgs db) of
                None \<Rightarrow> Inl (PyRaise ''IntegrityError'')
              | Some os \<Rightarrow>
                  (case owner of
                     None \<Rightarrow> Inr (og, db\<lparr>orgs := os\<rparr>)
                   | Some usr \<Rightarrow>
                       (case sql_insert (\<lambda>m. (m_org m, m_user m))
                            \<lparr>m_org = oid, m_user = usr, m_role = ''owner'', m_created_at = now\<rparr> (memberships db) of
                          None \<Rightarrow> Inl (PyRaise ''IntegrityError'')
                        | Some ms \<Rightarrow> Inr (og, db\<lparr>orgs := os, memberships := ms\<rparr>)))))"

definition ensure_default_org ::
  "(string \<Rightarrow> string) \<Rightarrow> nat \<Rightarrow> ident \<Rightarrow> stamp \<Rightarrow> int \<Rightarrow> cdb \<Rightarrow> exc + (org \<times> cdb)" where
  "ensure_default_org translit fuel new_id now retention_days db =
     (case get_org DEFAULT_ORG_ID db of
        Some og \<Rightarrow> Inr (og, db)
      | None \<Rightarrow> create_org translit fuel new_id now DEFAULT_ORG_NAME None ''selfhost'' ''pl'' retention_days None
          (Some DEFAULT_ORG_ID) db)"

section \<open>API keys\<close>

text \<open>Up to five attempts at a prefix that is not taken; an attempt is the pair of its random texts.\<close>

fun fresh_key ::
  "(string \<Rightarrow> string) \<Rightarrow> api_key list \<Rightarrow> (string \<times> string) list \<Rightarrow> (string \<times> string \<times> string) option" where
  "fresh_key sha keys [] = None"
| "fresh_key sha keys ((hex, rnd) # attempts) =
     (let (raw, pre, hash) = new_api_key sha hex rnd in
      if \<exists>k \<in> set keys. k_prefix k = pre then fresh_key sha keys attempts else Some (raw, pre, hash))"

definition py_sorted_set :: "string list \<Rightarrow> string list" where
  "py_sorted_set xs = sort (remdups xs)"

definition issue_api_key ::
  "(string \<Rightarrow> string) \<Rightarrow> (string \<times> string) list \<Rightarrow> ident \<Rightarrow> stamp \<Rightarrow> ident \<Rightarrow> string \<Rightarrow> string list
    \<Rightarrow> ident option \<Rightarrow> stamp option \<Rightarrow> cdb \<Rightarrow> exc + ((api_key \<times> string) \<times> cdb)" where
  "issue_api_key sha attempts new_id now org_id name scopes created_by expires_at db =
     (case fresh_key sha (api_keys db) (take 5 attempts) of
        None \<Rightarrow> Inl (PyRaise ''RuntimeError'')
      | Some (raw, pre, hash) \<Rightarrow>
          if set scopes - set KEY_SCOPES \<noteq> {} then Inl (PyRaise ''ValueError'')
          else
            let key = \<lparr>k_id = new_id, k_org = org_id, k_name = py_strip name, k_prefix = pre, k_hash = hash,
                  k_scopes = py_sorted_set scopes, k_created_by = created_by, k_created_at = now,
                  k_expires_at = expires_at, k_last_used_at = None, k_revoked_at = None\<rparr>
            in (case sql_insert k_id key (api_keys db) of
                  None \<Rightarrow> Inl (PyRaise ''IntegrityError'')
                | Some ks \<Rightarrow> Inr ((key, raw), db\<lparr>api_keys := ks\<rparr>)))"

definition expiry_in_days :: "stamp \<Rightarrow> int option \<Rightarrow> stamp option" where
  "expiry_in_days now d = (case d of None \<Rightarrow> None | Some n \<Rightarrow> if n = 0 then None else Some (now + days n))"

section \<open>Invitations\<close>

definition pending_invitation :: "string \<Rightarrow> stamp \<Rightarrow> invitation \<Rightarrow> bool" where
  "pending_invitation email now i = (i_email i = email \<and> i_accepted_at i = None \<and> now < i_expires_at i)"

definition accept_one :: "user \<Rightarrow> stamp \<Rightarrow> invitation \<Rightarrow> membership list \<times> (ident \<times> string) list
    \<Rightarrow> membership list \<times> (ident \<times> string) list" where
  "accept_one u now i acc =
     (let (ms, added) = acc in
      if \<exists>m \<in> set ms. m_org m = i_org i \<and> m_user m = u_id u then (ms, added)
      else (ms @ [\<lparr>m_org = i_org i, m_user = u_id u, m_role = i_role i, m_created_at = now\<rparr>],
            added @ [(i_org i, i_role i)]))"

definition accept_pending_invitations :: "stamp \<Rightarrow> user \<Rightarrow> cdb \<Rightarrow> (ident \<times> string) list \<times> cdb" where
  "accept_pending_invitations now u db =
     (let pending = filter (pending_invitation (u_email u) now) (invitations db);
          (ms, added) = fold (accept_one u now) pending (memberships db, [])
      in (added, db\<lparr>memberships := ms,
            invitations := sql_update (pending_invitation (u_email u) now)
              (i_accepted_at_update (\<lambda>_. Some now)) (invitations db)\<rparr>))"

section \<open>Usage counters\<close>

definition usage_row :: "ident \<Rightarrow> string \<Rightarrow> usage_counter \<Rightarrow> bool" where
  "usage_row org_id period c = (uc_org c = org_id \<and> uc_period c = period)"

definition bump_usage :: "ident \<Rightarrow> string \<Rightarrow> int \<Rightarrow> int \<Rightarrow> cdb \<Rightarrow> nat \<times> cdb" where
  "bump_usage org_id period runs upload_bytes db =
     (rowcount (usage_row org_id period) (usage_counters db),
      db\<lparr>usage_counters := sql_update (usage_row org_id period)
        (\<lambda>c. c\<lparr>uc_runs := uc_runs c + runs, uc_upload_bytes := uc_upload_bytes c + upload_bytes\<rparr>)
        (usage_counters db)\<rparr>)"

text \<open>The race of two first writes is in the argument \<open>meanwhile\<close>: what other transactions committed between
  the failed update and the insert in the savepoint.\<close>

definition add_usage :: "(cdb \<Rightarrow> cdb) \<Rightarrow> stamp \<Rightarrow> ident \<Rightarrow> int \<Rightarrow> int \<Rightarrow> cdb \<Rightarrow> cdb" where
  "add_usage meanwhile now org_id runs upload_bytes db =
     (let period = current_period now;
          (n, db1) = bump_usage org_id period runs upload_bytes db
      in if n \<noteq> 0 then db1
         else
           let db2 = meanwhile db1 in
           case sql_insert (\<lambda>c. (uc_org c, uc_period c))
                  \<lparr>uc_org = org_id, uc_period = period, uc_runs = runs, uc_upload_bytes = upload_bytes\<rparr>
                  (usage_counters db2) of
             Some cs \<Rightarrow> db2\<lparr>usage_counters := cs\<rparr>
           | None \<Rightarrow> snd (bump_usage org_id period runs upload_bytes db2))"

section \<open>Members: at least one owner\<close>

definition owner_of :: "ident \<Rightarrow> membership \<Rightarrow> bool" where
  "owner_of org_id m = (m_org m = org_id \<and> m_role m = ''owner'')"

definition other_owners_exist :: "ident \<Rightarrow> membership list \<Rightarrow> bool" where
  "other_owners_exist org_id ms = (rowcount (owner_of org_id) ms > 1)"

definition changeable_member :: "ident \<Rightarrow> ident \<Rightarrow> membership list \<Rightarrow> membership \<Rightarrow> bool" where
  "changeable_member org_id user_id ms m =
     (m_org m = org_id \<and> m_user m = user_id \<and> (m_role m \<noteq> ''owner'' \<or> other_owners_exist org_id ms))"

definition delete_member_guarded :: "ident \<Rightarrow> ident \<Rightarrow> cdb \<Rightarrow> bool \<times> cdb" where
  "delete_member_guarded org_id user_id db =
     (let hit = changeable_member org_id user_id (memberships db)
      in (rowcount hit (memberships db) = 1, db\<lparr>memberships := sql_delete hit (memberships db)\<rparr>))"

definition set_member_role_guarded :: "ident \<Rightarrow> ident \<Rightarrow> string \<Rightarrow> cdb \<Rightarrow> bool \<times> cdb" where
  "set_member_role_guarded org_id user_id role db =
     (let hit = changeable_member org_id user_id (memberships db)
      in (rowcount hit (memberships db) = 1,
          db\<lparr>memberships := sql_update hit (m_role_update (\<lambda>_. role)) (memberships db)\<rparr>))"


section \<open>Properties\<close>

lemma slug_candidate_inj:
  "slug_candidate base m = slug_candidate base n \<Longrightarrow> 1 \<le> m \<Longrightarrow> 1 \<le> n \<Longrightarrow> m = n"
  by (auto simp: slug_candidate_def dec_nat_inj split: if_splits)

lemma slug_loop_ends:
  assumes "\<exists>m. n \<le> m \<and> m < n + fuel \<and> slug_candidate base m \<notin> set taken"
  shows "\<exists>s. slug_loop fuel taken base n = Some s \<and> s \<notin> set taken"
  using assms
proof (induction fuel arbitrary: n)
  case (Suc fuel)
  show ?case
  proof (cases "slug_candidate base n \<in> set taken")
    case True
    obtain m where m: "n \<le> m" "m < n + Suc fuel" "slug_candidate base m \<notin> set taken" using Suc.prems by blast
    with True have "n \<noteq> m" by blast
    with m have "\<exists>m. n + 1 \<le> m \<and> m < n + 1 + fuel \<and> slug_candidate base m \<notin> set taken"
      by (intro exI [of _ m]) auto
    from Suc.IH [OF this] True show ?thesis by simp
  qed simp
qed auto

text \<open>Slugs: the search always ends, after at most one candidate more than there are organizations, with a
  slug no organization has; the slug is the name's, or the name's with a number.\<close>

theorem unique_slug_fresh:
  "\<exists>s n. unique_slug translit (length (orgs db) + 1) db name = Some s \<and> s \<notin> o_slug ` set (orgs db) \<and>
     s = slug_candidate (slugify translit name) n"
proof -
  let ?base = "slugify translit name" and ?taken = "map o_slug (orgs db)"
  have "\<exists>m \<in> {1 ..< 1 + (length (orgs db) + 1)}. slug_candidate ?base m \<notin> set ?taken"
  proof (rule ccontr)
    assume "\<not> ?thesis"
    then have "slug_candidate ?base ` {1 ..< 1 + (length (orgs db) + 1)} \<subseteq> set ?taken" by blast
    moreover have "inj_on (slug_candidate ?base) {1 ..< 1 + (length (orgs db) + 1)}"
      by (rule inj_onI) (auto dest: slug_candidate_inj)
    ultimately have "card {1 ..< 1 + (length (orgs db) + 1)} \<le> card (set ?taken)"
      by (metis List.finite_set card_image card_mono)
    also have "\<dots> \<le> length (orgs db)" by (metis card_length length_map)
    finally show False by simp
  qed
  then have "\<exists>m. 1 \<le> m \<and> m < 1 + (length (orgs db) + 1) \<and> slug_candidate ?base m \<notin> set ?taken" by auto
  from slug_loop_ends [OF this] obtain s where s: "slug_loop (length (orgs db) + 1) ?taken ?base 1 = Some s"
    "s \<notin> set ?taken" by blast
  have "slug_loop fuel ?taken ?base k = Some s \<Longrightarrow> \<exists>n. s = slug_candidate ?base n" for fuel k
    by (induction fuel arbitrary: k) (auto split: if_splits)
  from this [OF s(1)] s(1) s(2) [unfolded list.set_map] show ?thesis unfolding unique_slug_def by blast
qed

definition usage_keyed :: "cdb \<Rightarrow> bool" where
  "usage_keyed db = distinct (map (\<lambda>c. (uc_org c, uc_period c)) (usage_counters db))"

definition usage_total :: "ident \<Rightarrow> string \<Rightarrow> cdb \<Rightarrow> int" where
  "usage_total org_id period db = (\<Sum>c \<leftarrow> filter (usage_row org_id period) (usage_counters db). uc_runs c)"

lemma usage_total_bump:
  assumes "usage_keyed db" and "rowcount (usage_row og p) (usage_counters db) \<noteq> 0"
  shows "usage_total og p (snd (bump_usage og p runs upload_bytes db)) = usage_total og p db + runs"
    and "usage_keyed (snd (bump_usage og p runs upload_bytes db))"
proof -
  let ?f = "\<lambda>c. c\<lparr>uc_runs := uc_runs c + runs, uc_upload_bytes := uc_upload_bytes c + upload_bytes\<rparr>"
  have row: "usage_row og p (c\<lparr>uc_runs := a, uc_upload_bytes := b\<rparr>) = usage_row og p c" for c a b
    by (simp add: usage_row_def)
  have one: "rowcount (usage_row og p) (usage_counters db) = 1"
    using rowcount_le_one [OF assms(1) [unfolded usage_keyed_def], of "usage_row og p" "(og, p)"] assms(2)
    by (auto simp: usage_row_def)
  have "(\<Sum>c \<leftarrow> filter (usage_row og p) (sql_update (usage_row og p) ?f cs). uc_runs c)
      = (\<Sum>c \<leftarrow> filter (usage_row og p) cs. uc_runs c) + int (rowcount (usage_row og p) cs) * runs" for cs
    by (induction cs) (simp_all add: row algebra_simps)
  with one show "usage_total og p (snd (bump_usage og p runs upload_bytes db)) = usage_total og p db + runs"
    by (simp add: usage_total_def bump_usage_def)
  show "usage_keyed (snd (bump_usage og p runs upload_bytes db))"
    using assms(1) by (simp add: usage_keyed_def bump_usage_def map_sql_update)
qed

lemma bump_usage_none:
  "rowcount (usage_row og p) (usage_counters db) = 0 \<Longrightarrow> snd (bump_usage og p runs upload_bytes db) = db"
  by (simp add: bump_usage_def table_simps sql_update_none)

text \<open>Usage is counted once: whether the month's counter exists, is created here, or is created by another
  transaction between the failed update and the insert, the organization's counter grows by exactly the given
  runs over what the database held, and there is still one counter per organization and month.\<close>

theorem add_usage_counts_once:
  assumes keyed: "usage_keyed db" and others: "\<And>d. usage_keyed d \<Longrightarrow> usage_keyed (meanwhile d)"
  shows "usage_keyed (add_usage meanwhile now og runs upload_bytes db) \<and>
    usage_total og (current_period now) (add_usage meanwhile now og runs upload_bytes db) =
      usage_total og (current_period now)
        (if rowcount (usage_row og (current_period now)) (usage_counters db) = 0 then meanwhile db else db) + runs"
proof (cases "rowcount (usage_row og (current_period now)) (usage_counters db) = 0")
  case False
  with usage_total_bump [OF keyed False] show ?thesis
    by (simp add: add_usage_def Let_def bump_usage_def)
next
  case True
  let ?p = "current_period now" and ?db = "meanwhile db"
  let ?c = "\<lparr>uc_org = og, uc_period = current_period now, uc_runs = runs, uc_upload_bytes = upload_bytes\<rparr>"
  let ?key = "\<lambda>c. (uc_org c, uc_period c)"
  have k2: "usage_keyed ?db" by (rule others [OF keyed])
  have add: "add_usage meanwhile now og runs upload_bytes db =
    (case sql_insert ?key ?c (usage_counters ?db) of Some cs \<Rightarrow> ?db\<lparr>usage_counters := cs\<rparr>
     | None \<Rightarrow> snd (bump_usage og ?p runs upload_bytes ?db))"
    using True bump_usage_none [OF True] by (simp add: add_usage_def Let_def bump_usage_def split: option.splits)
  show ?thesis
  proof (cases "sql_insert ?key ?c (usage_counters ?db)")
    case None
    then have "rowcount (usage_row og ?p) (usage_counters ?db) \<noteq> 0"
      unfolding rowcount_pos by (auto simp: sql_insert_def usage_row_def split: if_splits)
    from usage_total_bump [OF k2 this] True None add show ?thesis by simp
  next
    case (Some cs)
    have cs: "cs = usage_counters ?db @ [?c]" by (rule sql_insert_Some [OF Some])
    have "distinct (map ?key cs)" using distinct_sql_insert [OF Some] k2 by (simp add: usage_keyed_def)
    with True Some add cs show ?thesis
      by (simp add: usage_keyed_def usage_total_def usage_row_def)
  qed
qed

theorem add_usage_counts_once_witness:
  "usage_total ''o'' (current_period 0) (add_usage (\<lambda>d. d) 0 ''o'' 1 0 empty_cdb) = 1"
proof -
  have keyed: "usage_keyed empty_cdb" and zero: "usage_total ''o'' (current_period 0) empty_cdb = 0"
    by (simp_all add: usage_keyed_def usage_total_def empty_cdb_def)
  show ?thesis
    using add_usage_counts_once [of empty_cdb "\<lambda>d. d" 0 "''o''" 1 0, OF keyed] zero by (simp only: if_cancel)
qed

definition members_keyed :: "membership list \<Rightarrow> bool" where
  "members_keyed ms = distinct (map (\<lambda>m. (m_org m, m_user m)) ms)"

lemma accept_fold:
  assumes "members_keyed ms"
  shows "members_keyed (fst (fold (accept_one u now) is (ms, added))) \<and>
    (\<exists>new. fst (fold (accept_one u now) is (ms, added)) = ms @ new \<and>
       (\<forall>m \<in> set new. m_user m = u_id u \<and> (\<exists>i \<in> set is. m_org m = i_org i \<and> m_role m = i_role i)))"
  using assms
proof (induction "is" arbitrary: ms added)
  case (Cons i "is")
  show ?case
  proof (cases "\<exists>m \<in> set ms. m_org m = i_org i \<and> m_user m = u_id u")
    case True
    then have "accept_one u now i (ms, added) = (ms, added)" by (simp add: accept_one_def)
    with Cons.IH [OF Cons.prems, of added] show ?thesis by fastforce
  next
    case False
    let ?m = "\<lparr>m_org = i_org i, m_user = u_id u, m_role = i_role i, m_created_at = now\<rparr>"
    have one: "accept_one u now i (ms, added) = (ms @ [?m], added @ [(i_org i, i_role i)])"
      using False by (auto simp: accept_one_def)
    have "members_keyed (ms @ [?m])" using Cons.prems False by (auto simp: members_keyed_def)
    from Cons.IH [OF this, of "added @ [(i_org i, i_role i)]"] one show ?thesis by fastforce
  qed
qed simp

text \<open>Accepting invitations: one membership per organization and user is kept, every pending invitation of
  the address is marked, existing roles are untouched, and a second call adds nothing.\<close>

theorem invitations_accepted_once:
  assumes keyed: "members_keyed (memberships db)"
    and acc: "accept_pending_invitations now u db = (added, db')"
  shows "members_keyed (memberships db') \<and> prefix (memberships db) (memberships db') \<and>
    (\<forall>i \<in> set (invitations db'). \<not> pending_invitation (u_email u) now i) \<and>
    accept_pending_invitations now u db' = ([], db')"
proof -
  let ?pend = "pending_invitation (u_email u) now"
  from acc have db': "db' = db\<lparr>memberships := fst (fold (accept_one u now) (filter ?pend (invitations db)) (memberships db, [])),
      invitations := sql_update ?pend (i_accepted_at_update (\<lambda>_. Some now)) (invitations db)\<rparr>"
    by (simp add: accept_pending_invitations_def Let_def case_prod_beta)
  have none: "\<forall>i \<in> set (invitations db'). \<not> ?pend i"
    unfolding db' by (auto simp: pending_invitation_def elim!: in_sql_updateE)
  then have "filter ?pend (invitations db') = []" by (simp add: filter_empty_conv)
  then have "accept_pending_invitations now u db' = ([], db')"
    using none by (simp add: accept_pending_invitations_def sql_update_none)
  moreover have "members_keyed (memberships db')" "prefix (memberships db) (memberships db')"
    using accept_fold [OF keyed, of u now "filter ?pend (invitations db)" "[]"] by (auto simp: db')
  ultimately show ?thesis using none by blast
qed

theorem invitations_accepted_once_witness:
  "\<exists>added db'. accept_pending_invitations 5 \<lparr>u_id = ''u'', u_email = ''e'', u_name = None, u_locale = [], u_created_at = 0\<rparr>
     (empty_cdb\<lparr>invitations := [\<lparr>i_id = ''i'', i_org = ''o'', i_email = ''e'', i_role = ''member'', i_token_hash = [],
        i_invited_by = None, i_created_at = 0, i_expires_at = 9, i_accepted_at = None\<rparr>]\<rparr>) = (added, db') \<and>
     added = [(''o'', ''member'')] \<and> members_keyed (memberships db')"
proof -
  let ?u = "\<lparr>u_id = ''u'', u_email = ''e'', u_name = None, u_locale = [], u_created_at = 0\<rparr>"
  let ?db = "empty_cdb\<lparr>invitations := [\<lparr>i_id = ''i'', i_org = ''o'', i_email = ''e'', i_role = ''member'', i_token_hash = [],
        i_invited_by = None, i_created_at = 0, i_expires_at = 9, i_accepted_at = None\<rparr>]\<rparr>"
  obtain added db' where acc: "accept_pending_invitations 5 ?u ?db = (added, db')" by fastforce
  then have "added = [(''o'', ''member'')]"
    by (simp add: accept_pending_invitations_def pending_invitation_def accept_one_def empty_cdb_def Let_def)
  with invitations_accepted_once [OF _ acc] acc show ?thesis
    by (simp add: members_keyed_def empty_cdb_def)
qed

end
