(* ===== verification/RateLimit.thy ===== *)
theory RateLimit
  imports Prelude "HOL-Library.AList" Complex_Main
begin

text \<open>
  The token buckets (\<^verbatim>\<open>app/core/ratelimit.py\<close>, \<^verbatim>\<open>app/core/ratelimit_v1.py\<close>). Python's floats are
  modelled as rational numbers (no rounding); the monotonic clock is an argument, in seconds. The
  dictionary of buckets is an association list in insertion order: an update keeps the place of its key.
\<close>

section \<open>The limiter\<close>

record bucket =
  b_tokens :: rat
  b_stamp :: rat

type_synonym rl_key = "string \<times> string"
type_synonym limiter = "(rl_key \<times> bucket) list"

definition FULL_REFILL_SEC :: rat where "FULL_REFILL_SEC = 60"

definition idle_pruned :: "rat \<Rightarrow> limiter \<Rightarrow> limiter" where
  "idle_pruned now bs = filter (\<lambda>(k, b). \<not> now - b_stamp b \<ge> FULL_REFILL_SEC) bs"

definition oldest_keys :: "nat \<Rightarrow> limiter \<Rightarrow> rl_key list" where
  "oldest_keys n bs = take n (map fst (sort_key (\<lambda>(k, b). b_stamp b) bs))"

definition prune :: "nat \<Rightarrow> rat \<Rightarrow> limiter \<Rightarrow> limiter" where
  "prune max_buckets now bs =
     (if length bs < max_buckets then bs
      else let kept = idle_pruned now bs in
        if length kept \<ge> max_buckets
        then filter (\<lambda>(k, b). k \<notin> set (oldest_keys (max 1 (max_buckets div 10)) kept)) kept
        else kept)"

definition rate_of :: "int \<Rightarrow> rat" where
  "rate_of per_minute = of_int per_minute / 60"

definition refilled :: "int \<Rightarrow> rat \<Rightarrow> bucket \<Rightarrow> bucket" where
  "refilled per_minute now b =
     \<lparr>b_tokens = min (of_int per_minute) (b_tokens b + (now - b_stamp b) * rate_of per_minute), b_stamp = now\<rparr>"

definition hit :: "nat \<Rightarrow> rat \<Rightarrow> string \<Rightarrow> string \<Rightarrow> int \<Rightarrow> limiter \<Rightarrow> rat \<times> limiter" where
  "hit max_buckets now rule key per_minute bs =
     (if per_minute \<le> 0 then (0, bs)
      else
        let (bucket, bs1) = (case map_of bs (rule, key) of
              None \<Rightarrow> (\<lparr>b_tokens = of_int per_minute, b_stamp = now\<rparr>, prune max_buckets now bs)
            | Some b \<Rightarrow> (refilled per_minute now b, bs))
        in if b_tokens bucket \<ge> 1
           then (0, AList.update (rule, key) (bucket\<lparr>b_tokens := b_tokens bucket - 1\<rparr>) bs1)
           else ((1 - b_tokens bucket) / rate_of per_minute, AList.update (rule, key) bucket bs1))"

section \<open>The dependencies\<close>

text \<open>\<open>too_many\<close>: the \<open>Retry-After\<close> of the 429 answer, in whole seconds.\<close>

definition retry_after :: "rat \<Rightarrow> int" where
  "retry_after wait_sec = max 1 \<lceil>wait_sec\<rceil>"

text \<open>In what follows \<open>Some\<close> is the 429 answer with its \<open>Retry-After\<close>.\<close>

definition enforce :: "nat \<Rightarrow> rat \<Rightarrow> string \<Rightarrow> string \<Rightarrow> int \<Rightarrow> limiter \<Rightarrow> int option \<times> limiter" where
  "enforce max_buckets now rule key per_minute bs =
     (let (wait, bs') = hit max_buckets now rule key per_minute bs
      in (if wait > 0 then Some (retry_after wait) else None, bs'))"

definition principal_key :: "string option \<Rightarrow> string \<Rightarrow> string" where
  "principal_key actor_tag ip =
     (case actor_tag of None \<Rightarrow> ''ip:'' @ ip | Some t \<Rightarrow> if t = [] then ''ip:'' @ ip else t)"

definition client_ip :: "string option \<Rightarrow> string" where
  "client_ip host = (case host of None \<Rightarrow> ''unknown'' | Some h \<Rightarrow> h)"

definition key_id :: "(string \<Rightarrow> string) \<Rightarrow> string option \<Rightarrow> string" where
  "key_id sha x_api_key = take 16 (sha (case x_api_key of None \<Rightarrow> [] | Some k \<Rightarrow> k))"

definition limit_ip :: "nat \<Rightarrow> rat \<Rightarrow> string option \<Rightarrow> int \<Rightarrow> limiter \<Rightarrow> int option \<times> limiter" where
  "limit_ip mx now host ip_per_min bs = enforce mx now ''ip'' (client_ip host) ip_per_min bs"

definition limit_run ::
  "(string \<Rightarrow> string) \<Rightarrow> nat \<Rightarrow> rat \<Rightarrow> string option \<Rightarrow> int \<Rightarrow> limiter \<Rightarrow> int option \<times> limiter" where
  "limit_run sha mx now x_api_key run_per_min bs = enforce mx now ''run'' (key_id sha x_api_key) run_per_min bs"

definition limit_upload ::
  "(string \<Rightarrow> string) \<Rightarrow> nat \<Rightarrow> rat \<Rightarrow> string option \<Rightarrow> int \<Rightarrow> limiter \<Rightarrow> int option \<times> limiter" where
  "limit_upload sha mx now x_api_key upload_per_min bs =
     enforce mx now ''upload'' (key_id sha x_api_key) upload_per_min bs"

definition throttle_auth_failure ::
  "nat \<Rightarrow> rat \<Rightarrow> string option \<Rightarrow> int \<Rightarrow> limiter \<Rightarrow> int option \<times> limiter" where
  "throttle_auth_failure mx now host auth_fail_per_min bs =
     enforce mx now ''auth_fail'' (client_ip host) auth_fail_per_min bs"

section \<open>Size\<close>

record rl_event =
  re_now :: rat
  re_rule :: string
  re_key :: string
  re_per_minute :: int

definition rl_step :: "nat \<Rightarrow> rl_event \<Rightarrow> limiter \<Rightarrow> limiter" where
  "rl_step mx e bs = snd (hit mx (re_now e) (re_rule e) (re_key e) (re_per_minute e) bs)"

definition rl_inv :: "nat \<Rightarrow> limiter \<Rightarrow> bool" where
  "rl_inv mx bs = (distinct (map fst bs) \<and> length bs \<le> max 1 mx)"

lemma distinct_filter_keys: "distinct (map fst bs) \<Longrightarrow> distinct (map fst (filter P bs))"
  by (induction bs) auto

lemma prune_subset: "set (prune mx now bs) \<subseteq> set bs"
  by (auto simp: prune_def idle_pruned_def Let_def)

lemma prune_distinct: "distinct (map fst bs) \<Longrightarrow> distinct (map fst (prune mx now bs))"
  by (auto simp: prune_def idle_pruned_def Let_def intro!: distinct_filter_keys)

lemma prune_length:
  assumes "length bs \<le> max 1 mx"
  shows "Suc (length (prune mx now bs)) \<le> max 1 mx"
proof -
  let ?kept = "idle_pruned now bs"
  let ?old = "oldest_keys (max 1 (mx div 10)) ?kept"
  have kept: "length ?kept \<le> length bs" by (simp add: idle_pruned_def)
  have shrink: "length (filter (\<lambda>(k, b). k \<notin> set ?old) ?kept) < length ?kept" if "?kept \<noteq> []"
  proof -
    from that have "sort_key (\<lambda>(k, b). b_stamp b) ?kept \<noteq> []" by (metis length_0_conv length_sort)
    then obtain p ps where s: "sort_key (\<lambda>(k, b). b_stamp b) ?kept = p # ps" by (cases "sort_key (\<lambda>(k, b). b_stamp b) ?kept") auto
    then have "p \<in> set ?kept" by (metis list.set_intros(1) set_sort)
    moreover have "fst p \<in> set ?old"
      using s by (cases "max 1 (mx div 10)") (auto simp: oldest_keys_def)
    ultimately show ?thesis
      by (intro length_filter_less [of p]) (auto split: prod.splits)
  qed
  show ?thesis
  proof (cases "length bs < mx")
    case False
    show ?thesis
    proof (cases "length ?kept \<ge> mx")
      case True
      show ?thesis
      proof (cases "?kept = []")
        case True
        with False \<open>length ?kept \<ge> mx\<close> show ?thesis by (simp add: prune_def Let_def)
      next
        case False
        with shrink kept assms \<open>length ?kept \<ge> mx\<close> \<open>\<not> length bs < mx\<close> show ?thesis
          by (simp add: prune_def Let_def)
      qed
    qed (use False in \<open>simp add: prune_def Let_def\<close>)
  qed (simp add: prune_def)
qed

lemma length_update_new: "map_of bs k = None \<Longrightarrow> length (AList.update k v bs) = Suc (length bs)"
  by (induction bs) (auto split: if_splits)

lemma length_update_old: "map_of bs k \<noteq> None \<Longrightarrow> length (AList.update k v bs) = length bs"
  by (induction bs) (auto split: if_splits)

lemma map_of_filter_None: "map_of bs k = None \<Longrightarrow> map_of (filter P bs) k = None"
  by (auto simp: map_of_eq_None_iff)

lemma prune_None: "map_of bs k = None \<Longrightarrow> map_of (prune mx now bs) k = None"
  using prune_subset [of mx now bs] by (auto simp: map_of_eq_None_iff)

lemma rl_step_inv: "rl_inv mx bs \<Longrightarrow> rl_inv mx (rl_step mx e bs)"
  using prune_length [of bs mx "re_now e"]
  by (auto simp: rl_inv_def rl_step_def hit_def Let_def distinct_update prune_distinct
      length_update_new length_update_old prune_None split: option.splits)

interpretation limiter: machine "rl_step mx" "rl_inv mx" for mx
  by unfold_locales (rule rl_step_inv)

text \<open>Memory is bounded: whatever the requests, keys and times, the table never holds more buckets than
  its limit, one per rule and key.\<close>

theorem limiter_size_bounded:
  "length (fold (rl_step mx) es []) \<le> max 1 mx \<and> distinct (map fst (fold (rl_step mx) es []))"
  using limiter.run_inv [of mx "[]" es] by (simp add: rl_inv_def)

section \<open>The limit\<close>

definition admitted :: "nat \<Rightarrow> rl_event \<Rightarrow> limiter \<Rightarrow> bool" where
  "admitted mx e bs = (fst (hit mx (re_now e) (re_rule e) (re_key e) (re_per_minute e) bs) = 0)"

definition key_of :: "rl_event \<Rightarrow> rl_key" where
  "key_of e = (re_rule e, re_key e)"

fun admissions :: "nat \<Rightarrow> rl_key \<Rightarrow> rl_event list \<Rightarrow> limiter \<Rightarrow> nat" where
  "admissions mx k [] bs = 0"
| "admissions mx k (e # es) bs =
     (if key_of e = k \<and> admitted mx e bs then 1 else 0) + admissions mx k es (rl_step mx e bs)"

text \<open>The one case in which the limiter forgets a bucket that is not idle: a new key, and the table is full
  even without the idle buckets.\<close>

definition forces :: "nat \<Rightarrow> rl_event \<Rightarrow> limiter \<Rightarrow> bool" where
  "forces mx e bs = (0 < re_per_minute e \<and> map_of bs (key_of e) = None \<and> mx \<le> length (idle_pruned (re_now e) bs))"

fun unforced :: "nat \<Rightarrow> rl_event list \<Rightarrow> limiter \<Rightarrow> bool" where
  "unforced mx [] bs = True"
| "unforced mx (e # es) bs = (\<not> forces mx e bs \<and> unforced mx es (rl_step mx e bs))"

fun in_order :: "rat \<Rightarrow> rl_event list \<Rightarrow> bool" where
  "in_order t [] = True"
| "in_order t (e # es) = (t \<le> re_now e \<and> in_order (re_now e) es)"

definition avail :: "int \<Rightarrow> rl_key \<Rightarrow> rat \<Rightarrow> limiter \<Rightarrow> rat" where
  "avail n k t bs = (case map_of bs k of None \<Rightarrow> of_int n
     | Some b \<Rightarrow> min (of_int n) (b_tokens b + (t - b_stamp b) * rate_of n))"

definition rl_good :: "rl_key \<Rightarrow> rat \<Rightarrow> limiter \<Rightarrow> bool" where
  "rl_good k t bs = (distinct (map fst bs) \<and>
     (\<forall>b. map_of bs k = Some b \<longrightarrow> 0 \<le> b_tokens b \<and> b_stamp b \<le> t))"

lemma rate_pos: "0 < n \<Longrightarrow> 0 < rate_of n"
  by (simp add: rate_of_def)

lemma avail_le: "avail n k t bs \<le> of_int n"
  by (simp add: avail_def split: option.split)

lemma avail_nonneg: "rl_good k t bs \<Longrightarrow> 0 < n \<Longrightarrow> 0 \<le> avail n k t bs"
  using rate_pos [of n] by (auto simp: avail_def rl_good_def split: option.split)

lemma avail_later:
  assumes "t \<le> t'" and "0 < n"
  shows "avail n k t' bs \<le> avail n k t bs + (t' - t) * rate_of n"
proof -
  have r: "0 \<le> (t' - t) * rate_of n" using assms rate_pos [of n] by simp
  show ?thesis
  proof (cases "map_of bs k")
    case None
    with r show ?thesis by (simp add: avail_def)
  next
    case (Some b)
    have eq: "b_tokens b + (t' - b_stamp b) * rate_of n =
        (b_tokens b + (t - b_stamp b) * rate_of n) + (t' - t) * rate_of n"
      by (simp add: algebra_simps)
    have "min (of_int n) (x + (t' - t) * rate_of n) \<le> min (of_int n) x + (t' - t) * rate_of n" for x
      using r by (auto simp: min_def)
    then show ?thesis unfolding avail_def Some option.case eq .
  qed
qed

lemma map_of_filter_keys:
  "distinct (map fst bs) \<Longrightarrow> map_of (filter P bs) k =
     (case map_of bs k of None \<Rightarrow> None | Some b \<Rightarrow> if P (k, b) then Some b else None)"
  by (induction bs) (auto split: option.splits dest: map_of_SomeD intro: rev_image_eqI)

text \<open>Dropping an idle bucket changes nothing for its key: after 60 seconds it is full again.\<close>

lemma idle_is_full:
  assumes "rl_good k t bs" and "0 < n"
  shows "avail n k t (idle_pruned t bs) = avail n k t bs"
proof (cases "map_of bs k")
  case None
  then show ?thesis by (simp add: avail_def idle_pruned_def map_of_filter_None)
next
  case (Some b)
  have b: "0 \<le> b_tokens b" using assms(1) Some by (simp add: rl_good_def)
  have full: "of_int n \<le> b_tokens b + (t - b_stamp b) * rate_of n" if "60 \<le> t - b_stamp b"
  proof -
    have "60 * rate_of n \<le> (t - b_stamp b) * rate_of n"
      using that rate_pos [OF assms(2)] by (simp add: mult_right_mono)
    then have "of_int n \<le> (t - b_stamp b) * rate_of n" by (simp add: rate_of_def)
    with b show ?thesis by linarith
  qed
  have "distinct (map fst bs)" using assms(1) by (simp add: rl_good_def)
  then have "map_of (idle_pruned t bs) k = (if 60 \<le> t - b_stamp b then None else Some b)"
    by (simp add: idle_pruned_def map_of_filter_keys Some FULL_REFILL_SEC_def)
  then show ?thesis using full Some by (simp add: avail_def min_def)
qed

text \<open>One request: an admission of the key takes one token, and the limits in force are at most \<open>n\<close>.\<close>

lemma hit_same_key:
  assumes good: "rl_good (key_of e) t bs" and t: "t \<le> re_now e" and m: "0 < re_per_minute e" "re_per_minute e \<le> n"
  shows "avail n (key_of e) (re_now e) (rl_step mx e bs) + (if admitted mx e bs then 1 else 0) \<le> avail n (key_of e) (re_now e) bs"
    and "rl_good (key_of e) (re_now e) (rl_step mx e bs)"
proof -
  let ?m = "re_per_minute e" and ?now = "re_now e" and ?k = "key_of e"
  have m1: "1 \<le> rat_of_int ?m" "rat_of_int ?m \<le> of_int n" using m by simp_all
  have r: "0 < rate_of ?m" "rate_of ?m \<le> rate_of n" using m by (simp_all add: rate_of_def)
  have dist: "distinct (map fst bs)" using good by (simp add: rl_good_def)
  obtain b bs1 where b: "(case map_of bs ?k of
              None \<Rightarrow> (\<lparr>b_tokens = of_int ?m, b_stamp = ?now\<rparr>, prune mx ?now bs)
            | Some b \<Rightarrow> (refilled ?m ?now b, bs)) = (b, bs1)" by (metis surj_pair)
  have tok: "b_tokens b \<le> avail n ?k ?now bs" "b_stamp b = ?now" "0 \<le> b_tokens b"
  proof (atomize(full), cases "map_of bs ?k")
    case None
    with b m1 show "b_tokens b \<le> avail n ?k ?now bs \<and> b_stamp b = ?now \<and> 0 \<le> b_tokens b" by (auto simp: avail_def)
  next
    case (Some x)
    with good t have x: "0 \<le> b_tokens x" "0 \<le> ?now - b_stamp x" by (auto simp: rl_good_def)
    from r(2) x(2) have "(?now - b_stamp x) * rate_of ?m \<le> (?now - b_stamp x) * rate_of n" by (rule mult_left_mono)
    with x r(1) b Some m1 show "b_tokens b \<le> avail n ?k ?now bs \<and> b_stamp b = ?now \<and> 0 \<le> b_tokens b"
      by (auto simp: avail_def refilled_def)
  qed
  have d1: "distinct (map fst bs1)" using b dist by (auto simp: prune_distinct split: option.splits)
  have step: "rl_step mx e bs = (if b_tokens b \<ge> 1 then AList.update ?k (b\<lparr>b_tokens := b_tokens b - 1\<rparr>) bs1
      else AList.update ?k b bs1)"
    and adm: "admitted mx e bs = (b_tokens b \<ge> 1)"
    using m b r by (auto simp: rl_step_def admitted_def hit_def key_of_def)
  show "avail n ?k ?now (rl_step mx e bs) + (if admitted mx e bs then 1 else 0) \<le> avail n ?k ?now bs"
    using tok by (auto simp: step adm avail_def [of _ _ _ "AList.update _ _ _"] update_conv' min_def)
  show "rl_good ?k ?now (rl_step mx e bs)"
    using tok d1 by (auto simp: step rl_good_def distinct_update update_conv' simp del: map_of_eq_Some_iff)
qed

text \<open>The key's bucket is forgotten before it is full again: it had one, less than 60 seconds old, and has none.\<close>

definition forgotten :: "nat \<Rightarrow> rl_key \<Rightarrow> rl_event \<Rightarrow> limiter \<Rightarrow> bool" where
  "forgotten mx k e bs =
     (case map_of bs k of None \<Rightarrow> False
      | Some b \<Rightarrow> re_now e - b_stamp b < FULL_REFILL_SEC \<and> map_of (rl_step mx e bs) k = None)"

fun losses :: "nat \<Rightarrow> rl_key \<Rightarrow> rl_event list \<Rightarrow> limiter \<Rightarrow> nat" where
  "losses mx k [] bs = 0"
| "losses mx k (e # es) bs = (if forgotten mx k e bs then 1 else 0) + losses mx k es (rl_step mx e bs)"

lemma other_key_bucket:
  assumes "distinct (map fst bs)" and "key_of e \<noteq> k"
  shows "map_of (rl_step mx e bs) k \<in> {map_of bs k, None}"
    and "map_of (rl_step mx e bs) k \<noteq> map_of bs k \<Longrightarrow> forces mx e bs \<or> map_of (idle_pruned (re_now e) bs) k = None"
    and "distinct (map fst (rl_step mx e bs))"
proof -
  have dist: "distinct (map fst (prune mx (re_now e) bs))" using assms(1) by (rule prune_distinct)
  have pruned: "map_of (prune mx (re_now e) bs) k \<in> {map_of bs k, None}"
    using assms(1) by (auto simp: prune_def idle_pruned_def Let_def map_of_filter_keys distinct_filter_keys split: option.splits)
  have calm: "mx \<le> length (idle_pruned (re_now e) bs) \<or> map_of (prune mx (re_now e) bs) k = map_of bs k \<or>
      map_of (idle_pruned (re_now e) bs) k = None"
    using assms(1) by (auto simp: prune_def idle_pruned_def Let_def map_of_filter_keys split: option.splits)
  obtain bs1 where step: "map_of (rl_step mx e bs) k = map_of bs1 k" "distinct (map fst (rl_step mx e bs))"
    and bs1: "bs1 = bs \<or> bs1 = prune mx (re_now e) bs \<and> 0 < re_per_minute e \<and> map_of bs (key_of e) = None"
  proof (cases "re_per_minute e \<le> 0 \<or> map_of bs (key_of e) \<noteq> None")
    case True
    with assms show ?thesis
      by (intro that [of bs]) (auto simp: rl_step_def hit_def key_of_def Let_def update_conv' distinct_update)
  next
    case False
    with assms(2) dist show ?thesis
      by (intro that [of "prune mx (re_now e) bs"])
        (auto simp: rl_step_def hit_def key_of_def Let_def update_conv' distinct_update)
  qed
  show "map_of (rl_step mx e bs) k \<in> {map_of bs k, None}" using step(1) bs1 pruned by auto
  show "distinct (map fst (rl_step mx e bs))" by (rule step(2))
  show "forces mx e bs \<or> map_of (idle_pruned (re_now e) bs) k = None" if "map_of (rl_step mx e bs) k \<noteq> map_of bs k"
    using that step(1) bs1 calm by (auto simp: forces_def)
qed

lemma hit_other_key:
  assumes good: "rl_good k t bs" and t: "t \<le> re_now e" and n: "0 < n" and other: "key_of e \<noteq> k"
  shows "avail n k (re_now e) (rl_step mx e bs) \<le> avail n k (re_now e) bs + (if forgotten mx k e bs then of_int n else 0)"
    and "rl_good k (re_now e) (rl_step mx e bs)"
proof -
  let ?now = "re_now e"
  have good': "rl_good k ?now bs" using good t by (auto simp: rl_good_def)
  then have dist: "distinct (map fst bs)" by (simp add: rl_good_def)
  note bucket = other_key_bucket [OF dist other, of mx]
  have idle: "map_of (idle_pruned ?now bs) k = None" if "map_of bs k = Some b" "FULL_REFILL_SEC \<le> ?now - b_stamp b" for b
    using that dist by (simp add: idle_pruned_def map_of_filter_keys)
  show "avail n k ?now (rl_step mx e bs) \<le> avail n k ?now bs + (if forgotten mx k e bs then of_int n else 0)"
  proof (cases "map_of (rl_step mx e bs) k = map_of bs k")
    case True
    then show ?thesis using n by (simp add: avail_def)
  next
    case False
    with bucket(1) obtain b where b: "map_of bs k = Some b" "map_of (rl_step mx e bs) k = None"
      by (cases "map_of bs k") auto
    show ?thesis
    proof (cases "forgotten mx k e bs")
      case True
      then show ?thesis using avail_nonneg [OF good' n] avail_le [of n k ?now "rl_step mx e bs"] by simp
    next
      case False
      with b have "FULL_REFILL_SEC \<le> ?now - b_stamp b" by (auto simp: forgotten_def)
      with b(1) have "map_of (idle_pruned ?now bs) k = None" by (rule idle)
      then have "avail n k ?now (rl_step mx e bs) = avail n k ?now (idle_pruned ?now bs)" using b(2) by (simp add: avail_def)
      with idle_is_full [OF good' n] False show ?thesis by simp
    qed
  qed
  show "rl_good k ?now (rl_step mx e bs)" using bucket(1,3) good' by (auto simp: rl_good_def)
qed

text \<open>A bucket is forgotten only when a new key finds the table full of buckets that are not idle.\<close>

lemma forgotten_forced:
  assumes "distinct (map fst bs)" and "forgotten mx k e bs"
  shows "forces mx e bs"
proof -
  from assms(2) obtain b where b: "map_of bs k = Some b" "re_now e - b_stamp b < FULL_REFILL_SEC" "map_of (rl_step mx e bs) k = None"
    by (auto simp: forgotten_def split: option.splits)
  have "key_of e \<noteq> k"
  proof
    assume "key_of e = k"
    with b show False by (auto simp: rl_step_def hit_def key_of_def Let_def update_conv' split: if_splits)
  qed
  note bucket = other_key_bucket(2) [OF assms(1) this, of mx]
  have "map_of (idle_pruned (re_now e) bs) k = Some b" using b(1,2) assms(1) by (simp add: idle_pruned_def map_of_filter_keys)
  with bucket b show ?thesis by simp
qed

lemma losses_unforced: "distinct (map fst bs) \<Longrightarrow> unforced mx es bs \<Longrightarrow> losses mx k es bs = 0"
proof (induction es arbitrary: bs)
  case (Cons e es)
  have "distinct (map fst (rl_step mx e bs))"
    using Cons.prems(1) prune_distinct [of bs mx "re_now e"]
    by (auto simp: rl_step_def hit_def Let_def distinct_update split: option.splits)
  with Cons forgotten_forced [of bs mx k e] show ?case by auto
qed simp

definition limits_within :: "rl_key \<Rightarrow> int \<Rightarrow> rl_event list \<Rightarrow> bool" where
  "limits_within k n es = (\<forall>e \<in> set es. key_of e = k \<longrightarrow> 0 < re_per_minute e \<and> re_per_minute e \<le> n)"

lemma one_hit:
  assumes "rl_good k t bs" and "t \<le> re_now e" and "0 < n" and "limits_within k n (e # es)"
  shows "avail n k (re_now e) (rl_step mx e bs) + (if key_of e = k \<and> admitted mx e bs then 1 else 0)
      \<le> avail n k (re_now e) bs + (if forgotten mx k e bs then of_int n else 0)"
    and "rl_good k (re_now e) (rl_step mx e bs)"
proof (atomize(full), cases "key_of e = k")
  case True
  have n: "0 \<le> (if forgotten mx k e bs then rat_of_int n else 0)" using assms(3) by simp
  from True assms have "rl_good (key_of e) t bs" "0 < re_per_minute e" "re_per_minute e \<le> n" by (simp_all add: limits_within_def)
  from hit_same_key [OF this(1) assms(2) this(2,3), where mx = mx] n True
  show "avail n k (re_now e) (rl_step mx e bs) + (if key_of e = k \<and> admitted mx e bs then 1 else 0)
      \<le> avail n k (re_now e) bs + (if forgotten mx k e bs then of_int n else 0) \<and> rl_good k (re_now e) (rl_step mx e bs)"
    by (simp only: simp_thms)
next
  case False
  with hit_other_key [OF assms(1-3), where mx = mx]
  show "avail n k (re_now e) (rl_step mx e bs) + (if key_of e = k \<and> admitted mx e bs then 1 else 0)
      \<le> avail n k (re_now e) bs + (if forgotten mx k e bs then of_int n else 0) \<and> rl_good k (re_now e) (rl_step mx e bs)"
    by simp
qed

lemma admissions_bound:
  assumes "rl_good k t bs" and "0 < n" and "in_order t es" and "limits_within k n es"
    and "t \<le> T" and "\<forall>e \<in> set es. re_now e \<le> T"
  shows "of_nat (admissions mx k es bs) \<le> avail n k t bs + of_nat (losses mx k es bs) * of_int n + (T - t) * rate_of n"
  using assms
proof (induction es arbitrary: bs t)
  case Nil
  then show ?case using avail_nonneg [OF Nil.prems(1,2)] rate_pos [OF Nil.prems(2)] by simp
next
  case (Cons e es)
  let ?now = "re_now e" and ?bs = "rl_step mx e bs"
  have t: "t \<le> ?now" "in_order ?now es" "?now \<le> T" using Cons.prems(3,6) by simp_all
  have later: "avail n k ?now bs \<le> avail n k t bs + (?now - t) * rate_of n"
    by (rule avail_later [OF t(1) Cons.prems(2)])
  note one = one_hit [OF Cons.prems(1) t(1) Cons.prems(2,4), of mx]
  have "of_nat (admissions mx k es ?bs) \<le> avail n k ?now ?bs + of_nat (losses mx k es ?bs) * of_int n + (T - ?now) * rate_of n"
    by (rule Cons.IH) (use one(2) Cons.prems t in \<open>auto simp: limits_within_def\<close>)
  then have "of_nat (admissions mx k (e # es) bs) \<le>
      avail n k ?now bs + of_nat (losses mx k (e # es) bs) * of_int n + (T - ?now) * rate_of n"
    using one(1) by (auto simp: distrib_right split: if_splits)
  also have "\<dots> \<le> avail n k t bs + (?now - t) * rate_of n + of_nat (losses mx k (e # es) bs) * of_int n + (T - ?now) * rate_of n"
    using later by simp
  also have "\<dots> = avail n k t bs + of_nat (losses mx k (e # es) bs) * of_int n + (T - t) * rate_of n" by (simp add: algebra_simps)
  finally show ?case .
qed

lemma rl_good_run:
  assumes "rl_good k t bs" and "0 < n" and "in_order t es" and "limits_within k n es"
    and "t \<le> T" and "\<forall>e \<in> set es. re_now e \<le> T"
  shows "rl_good k T (fold (rl_step mx) es bs)"
  using assms
proof (induction es arbitrary: bs t)
  case Nil
  then show ?case by (auto simp: rl_good_def)
next
  case (Cons e es)
  have "rl_good k (re_now e) (rl_step mx e bs)" by (rule one_hit(2)) (use Cons.prems in auto)
  with Cons.prems show ?case by (auto simp: limits_within_def intro!: Cons.IH)
qed

text \<open>C9. Under a clock that does not go back, of the requests of one key that fall in a window, after any earlier requests
  and whatever the other keys do, at most \<open>n\<close> plus \<open>n / 60\<close> per second of the window are admitted, where \<open>n\<close> is the highest
  limit in force for the key, and \<open>n\<close> more for each time its bucket was forgotten before it was full again. That happens
  only in the emergency pruning: never while no new key finds the table full of buckets that are not idle.\<close>

theorem admissions_within_limit:
  assumes "0 < n" and "in_order 0 (before @ window)" and "\<forall>e \<in> set before. re_now e \<le> from_t"
    and "in_order from_t window" and "\<forall>e \<in> set window. re_now e \<le> to_t" and "from_t \<le> to_t" and "0 \<le> from_t"
    and "limits_within k n (before @ window)"
  shows "of_nat (admissions mx k window (fold (rl_step mx) before [])) \<le>
      of_int n + (to_t - from_t) * (of_int n / 60) + of_nat (losses mx k window (fold (rl_step mx) before [])) * of_int n \<and>
    (unforced mx window (fold (rl_step mx) before []) \<longrightarrow> losses mx k window (fold (rl_step mx) before []) = 0)"
proof -
  let ?bs = "fold (rl_step mx) before []"
  have split: "in_order t (xs @ ys) \<Longrightarrow> in_order t xs" for t xs ys by (induction xs arbitrary: t) auto
  have good: "rl_good k from_t ?bs"
    by (rule rl_good_run [where t = 0 and n = n])
      (use assms split in \<open>auto simp: rl_good_def limits_within_def\<close>)
  have "of_nat (admissions mx k window ?bs) \<le> avail n k from_t ?bs + of_nat (losses mx k window ?bs) * of_int n + (to_t - from_t) * rate_of n"
    by (rule admissions_bound [OF good assms(1) assms(4)])
      (use assms in \<open>auto simp: limits_within_def\<close>)
  with avail_le [of n k from_t ?bs] losses_unforced [of ?bs mx window] good show ?thesis by (simp add: rate_of_def rl_good_def)
qed

text \<open>A table of one bucket: another address makes the first one's bucket forgotten, and its second request is admitted.\<close>

definition demo_hit :: "rat \<Rightarrow> string \<Rightarrow> rl_event" where
  "demo_hit now key = \<lparr>re_now = now, re_rule = ''ip'', re_key = key, re_per_minute = 1\<rparr>"

lemmas demo_hit_defs = demo_hit_def key_of_def rl_step_def hit_def prune_def oldest_keys_def idle_pruned_def FULL_REFILL_SEC_def
  Let_def refilled_def rate_of_def admitted_def forgotten_def forces_def

theorem admissions_within_limit_witness:
  "admissions 5 (''ip'', ''a'') [demo_hit 1 ''a'', demo_hit 2 ''a''] (fold (rl_step 5) [] []) \<le> 1 \<and>
   losses 1 (''ip'', ''a'') [demo_hit 1 ''a'', demo_hit 2 ''b'', demo_hit 3 ''a''] (fold (rl_step 1) [] []) = 1 \<and>
   admissions 1 (''ip'', ''a'') [demo_hit 1 ''a'', demo_hit 2 ''b'', demo_hit 3 ''a''] (fold (rl_step 1) [] []) = 2"
proof -
  have "of_nat (admissions 5 (''ip'', ''a'') [demo_hit 1 ''a'', demo_hit 2 ''a''] (fold (rl_step 5) [] []))
     \<le> (of_int 1 + (2 - 1) * (of_int 1 / 60) +
        of_nat (losses 5 (''ip'', ''a'') [demo_hit 1 ''a'', demo_hit 2 ''a''] (fold (rl_step 5) [] [])) * of_int 1 :: rat)"
    by (rule conjunct1, rule admissions_within_limit) (simp_all add: limits_within_def demo_hit_defs)
  moreover have "losses 5 (''ip'', ''a'') [demo_hit 1 ''a'', demo_hit 2 ''a''] (fold (rl_step 5) [] []) = 0"
    by (simp add: demo_hit_defs)
  moreover have "losses 1 (''ip'', ''a'') [demo_hit 1 ''a'', demo_hit 2 ''b'', demo_hit 3 ''a''] (fold (rl_step 1) [] []) = 1"
    "admissions 1 (''ip'', ''a'') [demo_hit 1 ''a'', demo_hit 2 ''b'', demo_hit 3 ''a''] (fold (rl_step 1) [] []) = 2"
    by (simp_all add: demo_hit_defs)
  ultimately show ?thesis by simp
qed

text \<open>\<open>Retry-After\<close> is honest: a refused request tells how long to wait, and the same key, hit again once
  that time has passed with nothing in between, is admitted.\<close>

theorem retry_after_admits:
  assumes "0 < n" and "hit mx now rule key n bs = (wait, bs')" and "0 < wait" and "now + wait \<le> later"
  shows "fst (hit mx later rule key n bs') = 0"
proof -
  let ?k = "(rule, key)"
  have r: "0 < rate_of n" by (rule rate_pos [OF assms(1)])
  obtain b bs1 where b: "(case map_of bs ?k of
              None \<Rightarrow> (\<lparr>b_tokens = of_int n, b_stamp = now\<rparr>, prune mx now bs)
            | Some b \<Rightarrow> (refilled n now b, bs)) = (b, bs1)" by (metis surj_pair)
  have stamp: "b_stamp b = now" using b by (auto simp: refilled_def split: option.splits)
  have out: "\<not> 1 \<le> b_tokens b" "wait = (1 - b_tokens b) / rate_of n" "bs' = AList.update ?k b bs1"
    using assms(1-3) b by (auto simp: hit_def split: if_splits)
  have "wait * rate_of n = 1 - b_tokens b" using out(2) r by simp
  moreover have "wait * rate_of n \<le> (later - now) * rate_of n"
    using assms(4) r by (intro mult_right_mono) auto
  ultimately have "1 \<le> b_tokens b + (later - now) * rate_of n" by linarith
  moreover have "1 \<le> rat_of_int n" using assms(1) by simp
  ultimately have "1 \<le> b_tokens (refilled n later b)" by (simp add: refilled_def stamp)
  then show ?thesis using assms(1) by (simp add: hit_def out(3) update_conv' Let_def)
qed

theorem retry_after_admits_witness:
  "\<exists>wait bs'. hit 5 2 ''ip'' ''a'' 1 [((''ip'', ''a''), \<lparr>b_tokens = 0, b_stamp = 1\<rparr>)] = (wait, bs') \<and>
     0 < wait \<and> fst (hit 5 (2 + wait) ''ip'' ''a'' 1 bs') = 0"
proof -
  have "\<exists>wait bs'. hit 5 2 ''ip'' ''a'' 1 [((''ip'', ''a''), \<lparr>b_tokens = 0, b_stamp = 1\<rparr>)] = (wait, bs') \<and> 0 < wait"
    by (simp add: hit_def refilled_def rate_of_def Let_def)
  then obtain wait bs' where h: "hit 5 2 ''ip'' ''a'' 1 [((''ip'', ''a''), \<lparr>b_tokens = 0, b_stamp = 1\<rparr>)] = (wait, bs')"
    "0 < wait" by blast
  from retry_after_admits [OF _ h order_refl] h show ?thesis by auto
qed

end
