(* ===== verification/Access.thy ===== *)
theory Access
  imports OAuthConsent Service RateLimit
begin

text \<open>
  Authentication and authorization of API v1 (\<^verbatim>\<open>app/api/v1/deps.py\<close>) and the routes of API keys
  (\<^verbatim>\<open>app/api/v1/api_keys.py\<close>). A request carries what the code reads of it; a handler maps the
  application state (the control database and the rate limiter) to a result and the state after it. What
  was committed before an exception stays.
\<close>

section \<open>Requests and principals\<close>

record server =
  sv_secret_key :: "string option"
  sv_cloud :: bool
  sv_deploy_hash :: "string option"
  sv_auth_fail_per_min :: int
  sv_max_buckets :: nat
  sv_maintenance :: bool

record http_request =
  rq_method :: string
  rq_path :: string
  rq_api_key :: "string option"
  rq_cookie :: "string option"
  rq_csrf_header :: string
  rq_csrf_cookie :: string
  rq_host :: "string option"
  rq_now :: stamp
  rq_clock :: rat
  rq_event :: ident

record app =
  ap_db :: cdb
  ap_limiter :: limiter

type_synonym 'a app_handler = "app \<Rightarrow> (exc + 'a) \<times> app"

datatype principal_kind = ApiKeyPrincipal | SelfhostKey | UserPrincipal | OAuthPrincipal

record principal =
  pr_kind :: principal_kind
  pr_org :: "ident option"
  pr_scopes :: "string set"
  pr_user :: "user option"
  pr_key :: "api_key option"
  pr_session :: "session option"

definition actor_type :: "principal \<Rightarrow> string" where
  "actor_type p = (if pr_kind p = UserPrincipal \<or> pr_kind p = OAuthPrincipal then ''user'' else ''key'')"

definition actor_id :: "principal \<Rightarrow> ident option" where
  "actor_id p = (case pr_user p of Some u \<Rightarrow> Some (u_id u)
     | None \<Rightarrow> (case pr_key p of Some k \<Rightarrow> Some (k_id k)
         | None \<Rightarrow> if pr_kind p = SelfhostKey then Some ''selfhost'' else None))"

definition actor_tag :: "principal \<Rightarrow> string option" where
  "actor_tag p = (case actor_id p of None \<Rightarrow> None
     | Some i \<Rightarrow> if i = [] then None else Some (actor_type p @ '':'' @ i))"

definition SAFE_METHODS :: "string list" where "SAFE_METHODS = [''GET'', ''HEAD'', ''OPTIONS'']"
definition KEY_LAST_USED_THROTTLE :: int where "KEY_LAST_USED_THROTTLE = minutes 5"

text \<open>\<open>_unauthorized\<close>: counts the failure; the answer is 401, or 429 once the budget is spent.\<close>

definition unauthorized :: "server \<Rightarrow> http_request \<Rightarrow> 'a app_handler" where
  "unauthorized sv rq st =
     (let (wait, bs) = throttle_auth_failure (sv_max_buckets sv) (rq_clock rq) (rq_host rq)
            (sv_auth_fail_per_min sv) (ap_limiter st)
      in (Inl (case wait of None \<Rightarrow> Problem 401 ''unauthorized'' | Some _ \<Rightarrow> Problem 429 ''rate_limited''),
          st\<lparr>ap_limiter := bs\<rparr>))"

text \<open>A committed audit event. \<open>rq_host\<close> is the address \<open>record_event\<close> takes from the request.\<close>

definition audit_denied :: "http_request \<Rightarrow> api_key \<Rightarrow> string \<Rightarrow> app \<Rightarrow> app" where
  "audit_denied rq key reason st =
     (case record_event (rq_event rq) (rq_now rq) (Some (k_org key)) ''key'' (Some (k_id key)) ''auth_denied''
            (Some (''key:'' @ k_prefix key)) [(''reason'', PStr reason)] (rq_host rq) (ap_db st) of
        Inl _ \<Rightarrow> st | Inr db \<Rightarrow> st\<lparr>ap_db := db\<rparr>)"

section \<open>Authentication\<close>

definition key_principal :: "api_key \<Rightarrow> principal" where
  "key_principal key = \<lparr>pr_kind = ApiKeyPrincipal, pr_org = Some (k_org key), pr_scopes = set (k_scopes key),
     pr_user = None, pr_key = Some key, pr_session = None\<rparr>"

definition selfhost_principal :: principal where
  "selfhost_principal = \<lparr>pr_kind = SelfhostKey, pr_org = Some DEFAULT_ORG_ID, pr_scopes = SELFHOST_KEY_SCOPES,
     pr_user = None, pr_key = None, pr_session = None\<rparr>"

definition find_key :: "string \<Rightarrow> cdb \<Rightarrow> api_key option" where
  "find_key presented db =
     (case parse_api_key (Some presented) of None \<Rightarrow> None
      | Some pre \<Rightarrow> sql_first (\<lambda>k. k_prefix k = pre) (api_keys db))"

definition authenticate_key ::
  "(string \<Rightarrow> string) \<Rightarrow> server \<Rightarrow> http_request \<Rightarrow> string \<Rightarrow> principal app_handler" where
  "authenticate_key sha sv rq presented0 st =
     (let presented = py_strip presented0 in
      if \<not> sv_cloud sv \<and> sv_deploy_hash sv = Some (sha presented) then (Inr selfhost_principal, st)
      else (case find_key presented (ap_db st) of
          None \<Rightarrow> unauthorized sv rq st
        | Some key \<Rightarrow>
            if sha presented \<noteq> k_hash key then unauthorized sv rq st
            else if k_revoked_at key \<noteq> None then unauthorized sv rq (audit_denied rq key ''key_revoked'' st)
            else if \<not> not_expired (rq_now rq) (k_expires_at key)
              then unauthorized sv rq (audit_denied rq key ''key_expired'' st)
            else
              let touch = (case k_last_used_at key of None \<Rightarrow> True
                    | Some u \<Rightarrow> rq_now rq - u > KEY_LAST_USED_THROTTLE);
                  db = (if touch then (ap_db st)\<lparr>api_keys := sql_update (\<lambda>k. k_id k = k_id key)
                     (k_last_used_at_update (\<lambda>_. Some (rq_now rq))) (api_keys (ap_db st))\<rparr> else ap_db st)
              in (Inr (key_principal key), st\<lparr>ap_db := db\<rparr>)))"

definition get_session :: "string \<Rightarrow> cdb \<Rightarrow> session option" where
  "get_session sid db = sql_first (\<lambda>s. s_id s = sid) (sessions db)"

definition user_principal :: "user \<Rightarrow> session \<Rightarrow> principal" where
  "user_principal u s = \<lparr>pr_kind = UserPrincipal, pr_org = None, pr_scopes = {}, pr_user = Some u,
     pr_key = None, pr_session = Some s\<rparr>"

definition authenticate_session ::
  "(string \<Rightarrow> string \<Rightarrow> 8 word list) \<Rightarrow> server \<Rightarrow> http_request \<Rightarrow> string \<Rightarrow> principal app_handler" where
  "authenticate_session mac sv rq cookie st =
     (case unsign_session_cookie mac (Some cookie) (sv_secret_key sv) of
        None \<Rightarrow> unauthorized sv rq st
      | Some sid \<Rightarrow>
          (case get_session sid (ap_db st) of
             None \<Rightarrow> unauthorized sv rq st
           | Some s \<Rightarrow>
               if s_expires_at s \<le> rq_now rq then unauthorized sv rq st
               else (case get_user (s_user s) (ap_db st) of
                   None \<Rightarrow> unauthorized sv rq st
                 | Some u \<Rightarrow>
                     if rq_method rq \<notin> set SAFE_METHODS \<and>
                        \<not> (rq_csrf_header rq \<noteq> [] \<and> rq_csrf_header rq = rq_csrf_cookie rq \<and>
                           rq_csrf_header rq = s_csrf_token s)
                     then (Inl (Problem 403 ''csrf_failed''), st)
                     else (Inr (user_principal u s), st))))"

definition get_principal ::
  "(string \<Rightarrow> string) \<Rightarrow> (string \<Rightarrow> string \<Rightarrow> 8 word list) \<Rightarrow> server \<Rightarrow> http_request \<Rightarrow> principal app_handler" where
  "get_principal sha mac sv rq st =
     (case rq_api_key rq of
        Some k \<Rightarrow>
          if py_strip k \<noteq> [] then authenticate_key sha sv rq k st
          else (case rq_cookie rq of
              None \<Rightarrow> unauthorized sv rq st
            | Some c \<Rightarrow> if c = [] then unauthorized sv rq st else authenticate_session mac sv rq c st)
      | None \<Rightarrow>
          (case rq_cookie rq of
             None \<Rightarrow> unauthorized sv rq st
           | Some c \<Rightarrow> if c = [] then unauthorized sv rq st else authenticate_session mac sv rq c st))"

section \<open>Access to an organization\<close>

record org_context =
  cx_org :: org
  cx_principal :: principal
  cx_role :: "string option"
  cx_scopes :: "string set"

definition cx_org_id :: "org_context \<Rightarrow> ident" where
  "cx_org_id ctx = o_id (cx_org ctx)"

definition hidden :: "bool \<Rightarrow> exc" where
  "hidden members_route = (if members_route then Problem 403 ''forbidden'' else Problem 404 ''not_found'')"

definition membership_scopes :: "principal \<Rightarrow> ident \<Rightarrow> cdb \<Rightarrow> (string option \<times> string set) option" where
  "membership_scopes p org_id db =
     (if pr_kind p = UserPrincipal then
        (case pr_user p of None \<Rightarrow> None
         | Some u \<Rightarrow> map_option (\<lambda>m. (Some (m_role m), role_scopes (m_role m))) (get_membership org_id (u_id u) db))
      else if pr_org p \<noteq> Some org_id then None
      else Some (None, pr_scopes p))"

definition org_access ::
  "string option \<Rightarrow> bool \<Rightarrow> http_request \<Rightarrow> ident \<Rightarrow> principal \<Rightarrow> org_context app_handler" where
  "org_access scope members_route rq org_id p st =
     (case membership_scopes p org_id (ap_db st) of
        None \<Rightarrow> (Inl (hidden members_route), st)
      | Some (role, scopes) \<Rightarrow>
          (case get_org org_id (ap_db st) of
             None \<Rightarrow> (Inl (hidden members_route), st)
           | Some og \<Rightarrow>
               (case scope of
                  None \<Rightarrow> (Inr \<lparr>cx_org = og, cx_principal = p, cx_role = role, cx_scopes = scopes\<rparr>, st)
                | Some sc \<Rightarrow>
                    if sc \<notin> scopes then
                      (case record_event (rq_event rq) (rq_now rq) (Some (o_id og)) (actor_type p) (actor_id p)
                             ''auth_denied'' (Some (take 80 (rq_path rq)))
                             [(''reason'', PStr ''insufficient_scope''), (''scope'', PStr sc)] (rq_host rq)
                             (ap_db st) of
                         Inl e \<Rightarrow> (Inl e, st)
                       | Inr db \<Rightarrow> (Inl (Problem 403 ''insufficient_scope''), st\<lparr>ap_db := db\<rparr>))
                    else (Inr \<lparr>cx_org = og, cx_principal = p, cx_role = role, cx_scopes = scopes\<rparr>, st))))"

definition session_user :: "principal \<Rightarrow> exc + user" where
  "session_user p = (case pr_user p of None \<Rightarrow> Inl (Problem 403 ''user_session_required'') | Some u \<Rightarrow> Inr u)"

section \<open>API keys (\<^verbatim>\<open>app/api/v1/api_keys.py\<close>)\<close>

definition MAX_ACTIVE_KEYS :: nat where "MAX_ACTIVE_KEYS = 50"

record api_key_out =
  ko_id :: ident
  ko_name :: string
  ko_prefix :: string
  ko_scopes :: "string list"
  ko_created_at :: stamp
  ko_expires_at :: "stamp option"
  ko_last_used_at :: "stamp option"
  ko_revoked_at :: "stamp option"

definition key_out :: "api_key \<Rightarrow> api_key_out" where
  "key_out k = \<lparr>ko_id = k_id k, ko_name = k_name k, ko_prefix = KEY_BRAND @ k_prefix k, ko_scopes = k_scopes k,
     ko_created_at = k_created_at k, ko_expires_at = k_expires_at k, ko_last_used_at = k_last_used_at k,
     ko_revoked_at = k_revoked_at k\<rparr>"

definition list_keys :: "org_context \<Rightarrow> cdb \<Rightarrow> api_key_out list" where
  "list_keys ctx db =
     map key_out (rev (sort_key k_id (filter (\<lambda>k. k_org k = cx_org_id ctx) (api_keys db))))"

definition active_key_of :: "ident \<Rightarrow> api_key \<Rightarrow> bool" where
  "active_key_of org_id k = (k_org k = org_id \<and> k_revoked_at k = None)"

record key_create =
  kc_name :: string
  kc_scopes :: "string list"
  kc_expires_in_days :: "int option"

text \<open>\<open>ApiKeyCreate\<close>'s validators: unknown scopes are refused, the others sorted without duplicates; the
  name is stripped and must not be blank.\<close>

definition key_create_valid :: "key_create \<Rightarrow> key_create option" where
  "key_create_valid body =
     (if kc_scopes body = [] \<or> set (kc_scopes body) - set KEY_SCOPES \<noteq> {} \<or> py_strip (kc_name body) = []
         \<or> length (kc_name body) > 120
         \<or> (case kc_expires_in_days body of None \<Rightarrow> False | Some d \<Rightarrow> d < 1 \<or> d > 3650) then None
      else Some (body\<lparr>kc_scopes := py_sorted_set (kc_scopes body), kc_name := py_strip (kc_name body)\<rparr>))"

definition create_key ::
  "(string \<Rightarrow> string) \<Rightarrow> (string \<times> string) list \<Rightarrow> ident \<Rightarrow> http_request \<Rightarrow> org_context \<Rightarrow> key_create
    \<Rightarrow> (api_key_out \<times> string) handler" where
  "create_key sha attempts new_id rq ctx body db =
     (if set (kc_scopes body) - cx_scopes ctx \<noteq> {} then (Inl (Problem 403 ''scope_escalation''), db)
      else if rowcount (active_key_of (cx_org_id ctx)) (api_keys db) \<ge> MAX_ACTIVE_KEYS
        then (Inl (Problem 409 ''key_limit_reached''), db)
      else (case issue_api_key sha attempts new_id (rq_now rq) (cx_org_id ctx) (kc_name body) (kc_scopes body)
               (actor_id (cx_principal ctx)) (expiry_in_days (rq_now rq) (kc_expires_in_days body)) db of
          Inl e \<Rightarrow> (Inl e, db)
        | Inr ((key, raw), db1) \<Rightarrow>
            with_event db
              (record_event (rq_event rq) (rq_now rq) (Some (cx_org_id ctx)) (actor_type (cx_principal ctx))
                 (actor_id (cx_principal ctx)) ''key.created'' (Some (''key:'' @ k_id key))
                 [(''key_prefix'', PStr (k_prefix key)), (''scopes'', PList (map PStr (k_scopes key)))]
                 (rq_host rq) db1)
              (\<lambda>db2. (Inr (key_out key, raw), db2))))"

definition revoke_key :: "http_request \<Rightarrow> org_context \<Rightarrow> ident \<Rightarrow> unit handler" where
  "revoke_key rq ctx kid db =
     (case sql_first (\<lambda>k. k_id k = kid \<and> k_org k = cx_org_id ctx) (api_keys db) of
        None \<Rightarrow> (Inl not_found, db)
      | Some key \<Rightarrow>
          if k_revoked_at key \<noteq> None then (Inr (), db)
          else with_event db
            (record_event (rq_event rq) (rq_now rq) (Some (cx_org_id ctx)) (actor_type (cx_principal ctx))
               (actor_id (cx_principal ctx)) ''key.revoked'' (Some (''key:'' @ k_id key))
               [(''key_prefix'', PStr (k_prefix key))] (rq_host rq)
               (db\<lparr>api_keys := sql_update (\<lambda>k. k_id k = k_id key)
                  (k_revoked_at_update (\<lambda>_. Some (rq_now rq))) (api_keys db)\<rparr>))
            (\<lambda>db1. (Inr (), db1)))"


section \<open>Properties\<close>

lemma unauthorized_Inl: "fst (unauthorized sv rq st) \<noteq> Inr p"
  by (simp add: unauthorized_def Let_def split: prod.splits option.splits)

lemma unauthorized_db: "ap_db (snd (unauthorized sv rq st)) = ap_db st"
  by (simp add: unauthorized_def Let_def split: prod.splits)

text \<open>C7. A presented key authenticates only as the deployment key outside the cloud mode, or as a stored key of
  which it is, stripped of whitespace, the exact pre-image: same prefix, same hash, not revoked, not expired;
  the principal has that key's organization and scopes.\<close>

theorem key_authentication_sound:
  assumes ok: "fst (authenticate_key sha sv rq presented st) = Inr p"
  shows "(p = selfhost_principal \<and> \<not> sv_cloud sv \<and> sv_deploy_hash sv = Some (sha (py_strip presented))) \<or>
    (\<exists>k \<in> set (api_keys (ap_db st)). p = key_principal k \<and> k_hash k = sha (py_strip presented) \<and>
       k_revoked_at k = None \<and> not_expired (rq_now rq) (k_expires_at k) \<and>
       parse_api_key (Some (py_strip presented)) = Some (k_prefix k))"
proof (cases "\<not> sv_cloud sv \<and> sv_deploy_hash sv = Some (sha (py_strip presented))")
  case True
  with ok show ?thesis by (simp add: authenticate_key_def Let_def)
next
  case False
  show ?thesis
  proof (cases "find_key (py_strip presented) (ap_db st)")
    case None
    with ok False show ?thesis by (auto simp: authenticate_key_def Let_def unauthorized_Inl)
  next
    case (Some k)
    then have k: "k \<in> set (api_keys (ap_db st))" "parse_api_key (Some (py_strip presented)) = Some (k_prefix k)"
      by (auto simp: find_key_def dest: sql_first_Some split: option.splits)
    from ok False Some have "p = key_principal k" "k_hash k = sha (py_strip presented)" "k_revoked_at k = None"
      "not_expired (rq_now rq) (k_expires_at k)"
      by (auto simp: authenticate_key_def Let_def unauthorized_Inl split: if_splits)
    with k show ?thesis by blast
  qed
qed

text \<open>C8. A state-changing request of a browser session is served only with the session's own CSRF token in both
  the header and the cookie, under a cookie signed by this server for an unexpired session of an existing user.\<close>

theorem session_needs_csrf:
  assumes ok: "fst (authenticate_session mac sv rq cookie st) = Inr p" and unsafe: "rq_method rq \<notin> set SAFE_METHODS"
  shows "\<exists>s \<in> set (sessions (ap_db st)). \<exists>u \<in> set (users (ap_db st)). p = user_principal u s \<and>
    rq_csrf_header rq = s_csrf_token s \<and> rq_csrf_cookie rq = s_csrf_token s \<and> s_csrf_token s \<noteq> [] \<and>
    rq_now rq < s_expires_at s \<and> u_id u = s_user s \<and>
    (\<exists>secret. sv_secret_key sv = Some secret \<and> cookie = sign_session_id mac (s_id s) secret)"
proof -
  obtain sid where sid: "unsign_session_cookie mac (Some cookie) (sv_secret_key sv) = Some sid"
    using ok by (cases "unsign_session_cookie mac (Some cookie) (sv_secret_key sv)")
      (auto simp: authenticate_session_def unauthorized_Inl)
  then obtain secret where secret: "sv_secret_key sv = Some secret"
    by (cases "sv_secret_key sv") (auto simp: unsign_session_cookie_def)
  have cookie: "cookie = sign_session_id mac sid secret" using sid secret cookies.unsign_sound by metis
  obtain s where s: "get_session sid (ap_db st) = Some s" "\<not> s_expires_at s \<le> rq_now rq"
    using ok sid by (auto simp: authenticate_session_def unauthorized_Inl split: option.splits if_splits)
  obtain u where u: "get_user (s_user s) (ap_db st) = Some u"
    using ok sid s by (auto simp: authenticate_session_def unauthorized_Inl split: option.splits)
  from ok sid s u unsafe have "p = user_principal u s" "rq_csrf_header rq \<noteq> []"
    "rq_csrf_header rq = rq_csrf_cookie rq" "rq_csrf_header rq = s_csrf_token s"
    by (auto simp: authenticate_session_def split: if_splits)
  moreover have "s \<in> set (sessions (ap_db st))" "s_id s = sid" "u \<in> set (users (ap_db st))" "u_id u = s_user s"
    using s(1) u by (auto simp: get_session_def get_user_def dest: sql_first_Some)
  ultimately show ?thesis using secret cookie s(2) by (intro bexI [of _ s] bexI [of _ u]) auto
qed

text \<open>C5. Tenant isolation: a context is handed out only for the organization in the path, which exists; a key or
  an OAuth token only for its own organization and with its own scopes; a user only as a current member, with
  exactly the scopes of the role held there. The required scope is among them.\<close>

theorem org_access_sound:
  assumes ok: "fst (org_access scope members_route rq org_id p st) = Inr ctx"
  shows "cx_org ctx \<in> set (orgs (ap_db st)) \<and> cx_org_id ctx = org_id \<and> cx_principal ctx = p \<and>
    (scope = None \<or> the scope \<in> cx_scopes ctx) \<and>
    (if pr_kind p = UserPrincipal
     then \<exists>m \<in> set (memberships (ap_db st)). \<exists>u. pr_user p = Some u \<and> m_org m = org_id \<and> m_user m = u_id u \<and>
       cx_role ctx = Some (m_role m) \<and> cx_scopes ctx = role_scopes (m_role m)
     else pr_org p = Some org_id \<and> cx_role ctx = None \<and> cx_scopes ctx = pr_scopes p)"
proof -
  from ok obtain role scopes where ms: "membership_scopes p org_id (ap_db st) = Some (role, scopes)"
    by (auto simp: org_access_def split: option.splits)
  from ok ms obtain og where og: "get_org org_id (ap_db st) = Some og"
    by (auto simp: org_access_def split: option.splits)
  from ok ms og have ctx: "ctx = \<lparr>cx_org = og, cx_principal = p, cx_role = role, cx_scopes = scopes\<rparr>"
    and sc: "scope = None \<or> the scope \<in> scopes"
    by (auto simp: org_access_def split: option.splits if_splits sum.splits)
  from og have "og \<in> set (orgs (ap_db st))" "o_id og = org_id"
    by (auto simp: get_org_def dest: sql_first_Some)
  moreover have "if pr_kind p = UserPrincipal
     then \<exists>m \<in> set (memberships (ap_db st)). \<exists>u. pr_user p = Some u \<and> m_org m = org_id \<and> m_user m = u_id u \<and>
       role = Some (m_role m) \<and> scopes = role_scopes (m_role m)
     else pr_org p = Some org_id \<and> role = None \<and> scopes = pr_scopes p"
    using ms by (auto simp: membership_scopes_def get_membership_def dest: sql_first_Some
        split: if_splits option.splits)
  ultimately show ?thesis using ctx sc by (simp add: cx_org_id_def)
qed

text \<open>No scope escalation through keys: a created key belongs to the caller's organization, has no scope the
  caller does not hold, none that only a session may have, and the organization has at most 50 active keys; no
  other key changes.\<close>

theorem created_key_within_scopes:
  assumes ok: "create_key sha attempts new_id rq ctx body db = (Inr (out, raw), db')"
  shows "\<exists>k. api_keys db' = api_keys db @ [k] \<and> k_org k = cx_org_id ctx \<and> k_hash k = sha raw \<and>
    set (k_scopes k) = set (kc_scopes body) \<and> set (k_scopes k) \<subseteq> cx_scopes ctx \<and>
    set (k_scopes k) \<subseteq> set KEY_SCOPES \<and> ORG_DELETE \<notin> set (k_scopes k) \<and> k_revoked_at k = None \<and>
    rowcount (active_key_of (cx_org_id ctx)) (api_keys db') \<le> MAX_ACTIVE_KEYS"
proof -
  from ok have sub: "set (kc_scopes body) \<subseteq> cx_scopes ctx"
    and cap: "rowcount (active_key_of (cx_org_id ctx)) (api_keys db) < MAX_ACTIVE_KEYS"
    by (auto simp: create_key_def split: if_splits)
  from ok obtain key db1 where iss: "issue_api_key sha attempts new_id (rq_now rq) (cx_org_id ctx) (kc_name body)
      (kc_scopes body) (actor_id (cx_principal ctx)) (expiry_in_days (rq_now rq) (kc_expires_in_days body)) db
      = Inr ((key, raw), db1)"
    by (auto simp: create_key_def record_event_known split: if_splits sum.splits)
  with ok have keys: "api_keys db' = api_keys db1"
    by (auto simp: create_key_def record_event_known split: if_splits)
  from iss have "api_keys db1 = api_keys db @ [key] \<and> k_org key = cx_org_id ctx \<and> k_hash key = sha raw \<and>
      set (k_scopes key) = set (kc_scopes body) \<and> set (kc_scopes body) \<subseteq> set KEY_SCOPES \<and> k_revoked_at key = None"
  proof -
    obtain pre hash where f: "fresh_key sha (api_keys db) (take 5 attempts) = Some (raw, pre, hash)"
      using iss by (auto simp: issue_api_key_def Let_def split: option.splits if_splits)
    have "fresh_key sha ks as = Some (raw, pre, hash) \<Longrightarrow> hash = sha raw" for ks as
      by (induction as) (auto simp: new_api_key_def Let_def split: if_splits)
    with f have "hash = sha raw" by blast
    with iss f show ?thesis
      by (auto simp: issue_api_key_def Let_def py_sorted_set_def sql_insert_def split: option.splits if_splits)
  qed
  with keys sub cap org_delete_not_key_scope show ?thesis
    by (intro exI [of _ key]) (auto simp: active_key_of_def)
qed

section \<open>Concrete inputs\<close>

definition demo_server :: server where
  "demo_server = \<lparr>sv_secret_key = Some ''s'', sv_cloud = True, sv_deploy_hash = None, sv_auth_fail_per_min = 10,
     sv_max_buckets = 100, sv_maintenance = False\<rparr>"
definition demo_request :: http_request where
  "demo_request = \<lparr>rq_method = ''POST'', rq_path = ''/'', rq_api_key = None, rq_cookie = None,
     rq_csrf_header = ''c'', rq_csrf_cookie = ''c'', rq_host = None, rq_now = 5, rq_clock = 0, rq_event = ''ev''\<rparr>"
definition demo_raw_key :: string where
  "demo_raw_key = ''daas_0123abcd_'' @ replicate 32 (CHR ''k'')"
definition demo_key :: api_key where
  "demo_key = \<lparr>k_id = ''k1'', k_org = ''org'', k_name = ''n'', k_prefix = ''0123abcd'', k_hash = demo_raw_key,
     k_scopes = [RUNS_READ], k_created_by = None, k_created_at = 0, k_expires_at = None, k_last_used_at = None,
     k_revoked_at = None\<rparr>"
definition demo_owner :: user where
  "demo_owner = \<lparr>u_id = ''u'', u_email = ''u@x'', u_name = None, u_locale = [], u_created_at = 0\<rparr>"
definition demo_session :: session where
  "demo_session = \<lparr>s_id = ''sid'', s_user = ''u'', s_org = None, s_csrf_token = ''c'', s_created_at = 0, s_expires_at = 9\<rparr>"
definition demo_org :: org where
  "demo_org = \<lparr>o_id = ''org'', o_slug = ''org'', o_name = ''Org'', o_plan = ''free'', o_dpa_accepted_at = None,
     o_dpa_version = None, o_locale = [], o_retention_days = 90, o_llm_narrative = False, o_created_at = 0\<rparr>"
definition demo_app :: app where
  "demo_app = \<lparr>ap_db = empty_cdb\<lparr>orgs := [demo_org], users := [demo_owner],
     memberships := [\<lparr>m_org = ''org'', m_user = ''u'', m_role = ''admin'', m_created_at = 0\<rparr>],
     api_keys := [demo_key], sessions := [demo_session]\<rparr>, ap_limiter = []\<rparr>"

lemmas demo_app_defs = demo_server_def demo_request_def demo_key_def demo_owner_def demo_session_def demo_org_def
  demo_app_def empty_cdb_def

lemma demo_raw_key_text: "py_strip demo_raw_key = demo_raw_key" "key_re demo_raw_key = Some ''0123abcd''"
  by code_simp+

theorem key_authentication_sound_witness:
  "fst (authenticate_key (\<lambda>s. s) demo_server demo_request demo_raw_key demo_app) = Inr (key_principal demo_key) \<and>
   (\<exists>k \<in> set (api_keys (ap_db demo_app)). key_principal demo_key = key_principal k \<and> k_revoked_at k = None)"
proof -
  have "demo_raw_key \<noteq> []" by (simp add: demo_raw_key_def)
  then have ok: "fst (authenticate_key (\<lambda>s. s) demo_server demo_request demo_raw_key demo_app) = Inr (key_principal demo_key)"
    by (simp add: authenticate_key_def Let_def find_key_def parse_api_key_def demo_raw_key_text demo_app_defs
        sql_first_def not_expired_def)
  have "key_principal demo_key \<noteq> selfhost_principal" by (simp add: key_principal_def selfhost_principal_def)
  with key_authentication_sound [OF ok] ok show ?thesis by blast
qed

theorem session_needs_csrf_witness:
  "\<exists>s \<in> set (sessions (ap_db demo_app)). \<exists>u. fst (authenticate_session (\<lambda>k m. []) demo_server demo_request
      (sign_session_id (\<lambda>k m. []) ''sid'' ''s'') demo_app) = Inr (user_principal u s) \<and>
      rq_csrf_header demo_request = s_csrf_token s"
proof -
  have "unsign_session_cookie (\<lambda>k m. []) (Some (sign_session_id (\<lambda>k m. []) ''sid'' ''s'')) (Some ''s'') = Some ''sid''"
    by (rule cookies.unsign_sign) simp
  then have ok: "fst (authenticate_session (\<lambda>k m. []) demo_server demo_request
      (sign_session_id (\<lambda>k m. []) ''sid'' ''s'') demo_app) = Inr (user_principal demo_owner demo_session)"
    by (simp add: authenticate_session_def demo_app_defs get_session_def get_user_def sql_first_def SAFE_METHODS_def)
  have "rq_method demo_request \<notin> set SAFE_METHODS" by (simp add: demo_request_def SAFE_METHODS_def)
  from session_needs_csrf [OF ok this] obtain s u where "s \<in> set (sessions (ap_db demo_app))"
    "user_principal demo_owner demo_session = user_principal u s" "rq_csrf_header demo_request = s_csrf_token s"
    by blast
  with ok show ?thesis by (intro bexI [of _ s] exI [of _ u]) simp_all
qed

theorem org_access_sound_witness:
  "\<exists>ctx. fst (org_access (Some KEYS_MANAGE) False demo_request ''org'' (user_principal demo_owner demo_session) demo_app)
     = Inr ctx \<and> cx_org_id ctx = ''org'' \<and> KEYS_MANAGE \<in> cx_scopes ctx"
proof -
  have "KEYS_MANAGE \<in> ADMIN_SCOPES" by (simp add: ADMIN_SCOPES_def)
  then have "\<exists>ctx. fst (org_access (Some KEYS_MANAGE) False demo_request ''org''
      (user_principal demo_owner demo_session) demo_app) = Inr ctx"
    by (simp add: org_access_def membership_scopes_def user_principal_def demo_app_defs get_membership_def
        get_org_def sql_first_def role_scopes_def)
  then obtain ctx where ok: "fst (org_access (Some KEYS_MANAGE) False demo_request ''org''
      (user_principal demo_owner demo_session) demo_app) = Inr ctx" by blast
  with org_access_sound [OF ok] show ?thesis by (intro exI [of _ ctx]) auto
qed

definition demo_ctx :: org_context where
  "demo_ctx = \<lparr>cx_org = demo_org, cx_principal = user_principal demo_owner demo_session, cx_role = Some ''admin'',
     cx_scopes = ADMIN_SCOPES\<rparr>"

theorem created_key_within_scopes_witness:
  "\<exists>out raw db' k. create_key (\<lambda>s. s) [(''deadbeef'', ''x'')] ''k2'' demo_request demo_ctx
      \<lparr>kc_name = ''n'', kc_scopes = [RUNS_WRITE], kc_expires_in_days = None\<rparr> (ap_db demo_app) = (Inr (out, raw), db') \<and>
     api_keys db' = api_keys (ap_db demo_app) @ [k] \<and> set (k_scopes k) = {RUNS_WRITE}"
proof -
  let ?body = "\<lparr>kc_name = ''n'', kc_scopes = [RUNS_WRITE], kc_expires_in_days = None\<rparr>"
  have "{RUNS_WRITE} \<subseteq> ADMIN_SCOPES" "RUNS_WRITE \<in> set KEY_SCOPES"
    by (simp_all add: ADMIN_SCOPES_def MEMBER_SCOPES_def KEY_SCOPES_def)
  then have "\<exists>out raw db'. create_key (\<lambda>s. s) [(''deadbeef'', ''x'')] ''k2'' demo_request demo_ctx ?body (ap_db demo_app)
      = (Inr (out, raw), db')"
    by (simp add: create_key_def demo_ctx_def demo_app_defs cx_org_id_def active_key_of_def MAX_ACTIVE_KEYS_def
        issue_api_key_def new_api_key_def Let_def sql_insert_def record_event_known)
  then obtain out raw db' where ok: "create_key (\<lambda>s. s) [(''deadbeef'', ''x'')] ''k2'' demo_request demo_ctx ?body
      (ap_db demo_app) = (Inr (out, raw), db')" by blast
  from created_key_within_scopes [OF ok] obtain k where "api_keys db' = api_keys (ap_db demo_app) @ [k]"
    "set (k_scopes k) = {RUNS_WRITE}" by auto
  with ok show ?thesis by blast
qed

end
