(* ===== verification/Members.thy ===== *)
theory Members
  imports Access
begin

text \<open>
  The routes of members and invitations (\<^verbatim>\<open>app/api/v1/members.py\<close>). E-mails are sent after the commit
  and their failure is only logged, so the handlers end with the list of messages to send.
\<close>

section \<open>Invitations\<close>

definition INVITATION_TTL :: int where "INVITATION_TTL = days 7"
definition INVITATION_DAILY_WINDOW :: int where "INVITATION_DAILY_WINDOW = hours 24"
definition INVITATIONS_PER_ORG_PER_DAY :: nat where "INVITATIONS_PER_ORG_PER_DAY = 20"
definition INVITATIONS_PER_PRINCIPAL_PER_MIN :: int where "INVITATIONS_PER_PRINCIPAL_PER_MIN = 5"

text \<open>\<open>_check_role_grant\<close>. The role of a request body is one of the three literals; \<open>sc.ROLE_SCOPES[role]\<close>
  raises \<open>KeyError\<close> for any other, which the schema excludes.\<close>

definition check_role_grant :: "org_context \<Rightarrow> string \<Rightarrow> exc option" where
  "check_role_grant ctx role =
     (if role = ''owner'' \<and> cx_role ctx \<noteq> Some ''owner'' then Some (Problem 403 ''forbidden'')
      else if role \<notin> set ROLES then Some (PyRaise ''KeyError'')
      else if \<not> role_scopes role \<subseteq> cx_scopes ctx then Some (Problem 403 ''forbidden'')
      else None)"

record member_out =
  mo_user :: ident
  mo_email :: string
  mo_name :: "string option"
  mo_role :: string
  mo_created_at :: stamp

definition list_members :: "org_context \<Rightarrow> cdb \<Rightarrow> member_out list" where
  "list_members ctx db =
     map (\<lambda>(m, u). \<lparr>mo_user = u_id u, mo_email = u_email u, mo_name = u_name u, mo_role = m_role m,
         mo_created_at = m_created_at m\<rparr>)
       (sort_key (\<lambda>(m, u). (m_created_at m, u_email u))
         (List.map_filter (\<lambda>m. map_option (\<lambda>u. (m, u)) (get_user (m_user m) db))
            (filter (\<lambda>m. m_org m = cx_org_id ctx) (memberships db))))"

record invitation_create =
  iv_email :: string
  iv_role :: string

datatype mail = InvitationMail string string string string | MagicLinkMail string string string

definition sent_today :: "ident \<Rightarrow> stamp \<Rightarrow> audit_event \<Rightarrow> bool" where
  "sent_today org_id since e = (ae_org e = Some org_id \<and> ae_action e = ''member.invited'' \<and> since < ae_ts e)"

definition open_invitation :: "ident \<Rightarrow> string \<Rightarrow> invitation \<Rightarrow> bool" where
  "open_invitation org_id email i = (i_org i = org_id \<and> i_email i = email \<and> i_accepted_at i = None)"

text \<open>The invitation row after \<open>invite\<close>: a new one, or the open one of the address refreshed.
  \<open>scalar_one_or_none\<close> raises when there is more than one.\<close>

definition store_invitation ::
  "ident \<Rightarrow> string \<Rightarrow> stamp \<Rightarrow> org_context \<Rightarrow> invitation_create \<Rightarrow> cdb \<Rightarrow> exc + (ident \<times> cdb)" where
  "store_invitation new_id digest now ctx body db =
     (let hit = open_invitation (cx_org_id ctx) (iv_email body) in
      if rowcount hit (invitations db) > 1 then Inl (PyRaise ''MultipleResultsFound'')
      else case sql_first hit (invitations db) of
          None \<Rightarrow>
            (case sql_insert i_id \<lparr>i_id = new_id, i_org = cx_org_id ctx, i_email = iv_email body,
                  i_role = iv_role body, i_token_hash = digest, i_invited_by = actor_id (cx_principal ctx),
                  i_created_at = now, i_expires_at = now + INVITATION_TTL, i_accepted_at = None\<rparr>
                  (invitations db) of
               None \<Rightarrow> Inl (PyRaise ''IntegrityError'')
             | Some is \<Rightarrow> Inr (new_id, db\<lparr>invitations := is\<rparr>))
        | Some i \<Rightarrow> Inr (i_id i, db\<lparr>invitations := sql_update hit
            (\<lambda>i. i\<lparr>i_role := iv_role body, i_token_hash := digest, i_expires_at := now + INVITATION_TTL\<rparr>)
            (invitations db)\<rparr>))"

definition is_member_of :: "ident \<Rightarrow> string \<Rightarrow> cdb \<Rightarrow> bool" where
  "is_member_of org_id email db =
     (case sql_first (\<lambda>u. u_email u = email) (users db) of None \<Rightarrow> False
      | Some u \<Rightarrow> get_membership org_id (u_id u) db \<noteq> None)"

definition invite ::
  "(string \<Rightarrow> string) \<Rightarrow> server \<Rightarrow> http_request \<Rightarrow> ident \<Rightarrow> string \<Rightarrow> org_context \<Rightarrow> invitation_create
    \<Rightarrow> mail list app_handler" where
  "invite sha sv rq new_id token ctx body st =
     (if sv_maintenance sv then (Inl (Problem 503 ''maintenance''), st)
      else (case check_role_grant ctx (iv_role body) of
        Some e \<Rightarrow> (Inl e, st)
      | None \<Rightarrow>
          if rowcount (sent_today (cx_org_id ctx) (rq_now rq - INVITATION_DAILY_WINDOW)) (audit_events (ap_db st))
             \<ge> INVITATIONS_PER_ORG_PER_DAY then (Inl (Problem 429 ''invitation_limit''), st)
          else
            let (wait, bs) = enforce (sv_max_buckets sv) (rq_clock rq) ''invite''
                  (principal_key (actor_tag (cx_principal ctx)) (client_ip (rq_host rq)))
                  INVITATIONS_PER_PRINCIPAL_PER_MIN (ap_limiter st);
                st1 = st\<lparr>ap_limiter := bs\<rparr>
            in if wait \<noteq> None then (Inl (Problem 429 ''invitation_limit''), st1)
               else if is_member_of (cx_org_id ctx) (iv_email body) (ap_db st) then (Inr [], st1)
               else (case store_invitation new_id (sha token) (rq_now rq) ctx body (ap_db st) of
                   Inl e \<Rightarrow> (Inl e, st1)
                 | Inr (inv_id, db1) \<Rightarrow>
                     (case record_event (rq_event rq) (rq_now rq) (Some (cx_org_id ctx))
                            (actor_type (cx_principal ctx)) (actor_id (cx_principal ctx)) ''member.invited''
                            (Some (''invitation:'' @ inv_id))
                            [(''role'', PStr (iv_role body)), (''email_hash'', PStr (take 16 (sha (iv_email body))))]
                            (rq_host rq) db1 of
                        Inl e \<Rightarrow> (Inl e, st1)
                      | Inr db2 \<Rightarrow> (Inr [InvitationMail (iv_email body) (o_name (cx_org ctx)) (iv_role body)
                            (o_locale (cx_org ctx))], st1\<lparr>ap_db := db2\<rparr>)))))"

definition list_invitations :: "org_context \<Rightarrow> cdb \<Rightarrow> invitation list" where
  "list_invitations ctx db =
     sort_key i_id (filter (\<lambda>i. i_org i = cx_org_id ctx \<and> i_accepted_at i = None) (invitations db))"

definition revoke_invitation :: "http_request \<Rightarrow> org_context \<Rightarrow> ident \<Rightarrow> unit handler" where
  "revoke_invitation rq ctx inv_id db =
     (case sql_first (\<lambda>i. i_id i = inv_id \<and> i_org i = cx_org_id ctx \<and> i_accepted_at i = None) (invitations db) of
        None \<Rightarrow> (Inl not_found, db)
      | Some i \<Rightarrow>
          with_event db
            (record_event (rq_event rq) (rq_now rq) (Some (cx_org_id ctx)) (actor_type (cx_principal ctx))
               (actor_id (cx_principal ctx)) ''invitation.revoked'' (Some (''invitation:'' @ inv_id))
               [(''role'', PStr (i_role i))] (rq_host rq)
               (db\<lparr>invitations := sql_delete (\<lambda>x. i_id x = i_id i) (invitations db)\<rparr>))
            (\<lambda>db1. (Inr (), db1)))"

section \<open>Members\<close>

definition member_of :: "ident \<Rightarrow> ident \<Rightarrow> cdb \<Rightarrow> (membership \<times> user) option" where
  "member_of org_id user_id db =
     (case get_membership org_id user_id db of None \<Rightarrow> None
      | Some m \<Rightarrow> map_option (\<lambda>u. (m, u)) (get_user user_id db))"

definition last_owner :: exc where "last_owner = Problem 409 ''last_owner''"

text \<open>The keys the member created here, revoked one by one with their events; the event identifiers are a
  list.\<close>

definition revocable_key :: "ident \<Rightarrow> ident \<Rightarrow> api_key \<Rightarrow> bool" where
  "revocable_key org_id user_id k = (k_org k = org_id \<and> k_created_by k = Some user_id \<and> k_revoked_at k = None)"

fun revoke_keys :: "ident list \<Rightarrow> http_request \<Rightarrow> org_context \<Rightarrow> api_key list \<Rightarrow> cdb \<Rightarrow> exc + cdb" where
  "revoke_keys evs rq ctx [] db = Inr db"
| "revoke_keys evs rq ctx (k # ks) db =
     bind_res
       (record_event (first_id evs) (rq_now rq) (Some (cx_org_id ctx)) (actor_type (cx_principal ctx))
          (actor_id (cx_principal ctx)) ''key.revoked'' (Some (''key:'' @ k_id k))
          [(''key_prefix'', PStr (k_prefix k)), (''reason'', PStr ''member_removed'')] (rq_host rq)
          (db\<lparr>api_keys := sql_update (\<lambda>x. k_id x = k_id k) (k_revoked_at_update (\<lambda>_. Some (rq_now rq)))
             (api_keys db)\<rparr>))
       (revoke_keys (tl evs) rq ctx ks)"

definition remove_member :: "ident list \<Rightarrow> http_request \<Rightarrow> org_context \<Rightarrow> ident \<Rightarrow> unit handler" where
  "remove_member evs rq ctx user_id db =
     (case member_of (cx_org_id ctx) user_id db of
        None \<Rightarrow> (Inl not_found, db)
      | Some (m, u) \<Rightarrow>
          if m_role m = ''owner'' \<and> cx_role ctx \<noteq> Some ''owner'' then (Inl (Problem 403 ''forbidden''), db)
          else
            let (removed, db1) = delete_member_guarded (cx_org_id ctx) user_id db
            in if \<not> removed then
                 (Inl (if get_membership (cx_org_id ctx) user_id db1 = None then not_found else last_owner), db)
               else
                 let db2 = db1\<lparr>sessions := sql_delete (\<lambda>s. s_user s = user_id \<and> s_org s = Some (cx_org_id ctx))
                       (sessions db1)\<rparr>;
                     keys = filter (revocable_key (cx_org_id ctx) user_id) (api_keys db2)
                 in with_event db
                      (bind_res (revoke_keys evs rq ctx keys db2)
                        (record_event (rq_event rq) (rq_now rq) (Some (cx_org_id ctx)) (actor_type (cx_principal ctx))
                          (actor_id (cx_principal ctx)) ''member.removed'' (Some (''user:'' @ user_id))
                          [(''role'', PStr (m_role m)), (''count'', PInt (int (length keys)))] (rq_host rq)))
                      (\<lambda>db3. (Inr (), db3)))"

definition member_view :: "membership \<Rightarrow> user \<Rightarrow> string \<Rightarrow> member_out" where
  "member_view m u role = \<lparr>mo_user = u_id u, mo_email = u_email u, mo_name = u_name u, mo_role = role,
     mo_created_at = m_created_at m\<rparr>"

definition change_role :: "http_request \<Rightarrow> org_context \<Rightarrow> ident \<Rightarrow> string \<Rightarrow> member_out handler" where
  "change_role rq ctx user_id role db =
     (case member_of (cx_org_id ctx) user_id db of
        None \<Rightarrow> (Inl not_found, db)
      | Some (m, u) \<Rightarrow>
          if cx_role ctx \<noteq> Some ''owner'' then (Inl (Problem 403 ''forbidden''), db)
          else if m_role m = role then (Inr (member_view m u role), db)
          else
            let (changed, db1) = set_member_role_guarded (cx_org_id ctx) user_id role db
            in if \<not> changed then
                 (Inl (if get_membership (cx_org_id ctx) user_id db1 = None then not_found else last_owner), db)
               else with_event db
                 (record_event (rq_event rq) (rq_now rq) (Some (cx_org_id ctx)) (actor_type (cx_principal ctx))
                    (actor_id (cx_principal ctx)) ''member.role_changed'' (Some (''user:'' @ user_id))
                    [(''role'', PStr role)] (rq_host rq) db1)
                 (\<lambda>db2. (Inr (member_view m u role), db2)))"

section \<open>An organization keeps an owner\<close>

definition owners :: "ident \<Rightarrow> cdb \<Rightarrow> nat" where
  "owners org_id db = rowcount (owner_of org_id) (memberships db)"

definition owned :: "ident \<Rightarrow> cdb \<Rightarrow> bool" where
  "owned org_id db = (members_keyed (memberships db) \<and> 0 < owners org_id db)"

lemma changeable_le_one:
  "members_keyed ms \<Longrightarrow> rowcount (\<lambda>m. changeable_member og usr ms m \<and> Q m) ms \<le> 1"
  unfolding members_keyed_def
  by (rule rowcount_le_one [where key = "\<lambda>m. (m_org m, m_user m)" and k = "(og, usr)"])
    (auto simp: changeable_member_def)

lemma rowcount_split: "rowcount P rows = rowcount (\<lambda>r. P r \<and> Q r) rows + rowcount (\<lambda>r. P r \<and> \<not> Q r) rows"
  by (induction rows) auto

text \<open>Deleting or changing guarded rows leaves an owner: the only row it may touch is an owner's only when
  there is another.\<close>

lemma guarded_keeps_owner:
  assumes keyed: "members_keyed ms" and pos: "0 < rowcount (owner_of og) ms"
  shows "0 < rowcount (\<lambda>m. owner_of og m \<and> \<not> changeable_member og' usr ms m) ms"
proof -
  let ?hit = "changeable_member og' usr ms"
  have le: "rowcount (\<lambda>m. ?hit m \<and> owner_of og m) ms \<le> 1" by (rule changeable_le_one [OF keyed])
  have split: "rowcount (owner_of og) ms
      = rowcount (\<lambda>m. owner_of og m \<and> ?hit m) ms + rowcount (\<lambda>m. owner_of og m \<and> \<not> ?hit m) ms"
    by (rule rowcount_split)
  show ?thesis
  proof (cases "rowcount (\<lambda>m. owner_of og m \<and> ?hit m) ms = 0")
    case True
    with pos split show ?thesis by simp
  next
    case False
    then obtain m where "owner_of og m" "?hit m" using False [unfolded rowcount_pos] by blast
    then have "1 < rowcount (owner_of og) ms"
      by (auto simp: changeable_member_def owner_of_def other_owners_exist_def)
    moreover have "rowcount (\<lambda>m. owner_of og m \<and> ?hit m) ms \<le> 1" using le by (simp add: conj_commute)
    ultimately show ?thesis using split by linarith
  qed
qed

lemma owned_delete: "owned og db \<Longrightarrow> owned og (snd (delete_member_guarded og' usr db))"
  using guarded_keeps_owner [of "memberships db" og og' usr]
  by (auto simp: owned_def owners_def delete_member_guarded_def Let_def rowcount_sql_delete members_keyed_def
      distinct_sql_delete)

lemma owned_set_role: "owned og db \<Longrightarrow> owned og (snd (set_member_role_guarded og' usr role db))"
proof -
  let ?ms = "memberships db" and ?hit = "changeable_member og' usr (memberships db)"
  assume o: "owned og db"
  then have "0 < rowcount (\<lambda>m. owner_of og m \<and> \<not> ?hit m) ?ms"
    using guarded_keeps_owner by (auto simp: owned_def owners_def)
  also have "\<dots> \<le> rowcount (owner_of og) (sql_update ?hit (m_role_update (\<lambda>_. role)) ?ms)"
    unfolding rowcount_sql_update by (rule rowcount_mono) auto
  finally show ?thesis using o
    by (simp add: owned_def owners_def set_member_role_guarded_def Let_def members_keyed_def map_sql_update)
qed

lemma memberships_revoke_keys: "revoke_keys evs rq ctx ks db = Inr db' \<Longrightarrow> memberships db' = memberships db \<and> sessions db' = sessions db"
proof (induction ks arbitrary: evs db)
  case (Cons k ks)
  from Cons.prems obtain db1 where one: "record_event (first_id evs) (rq_now rq) (Some (cx_org_id ctx))
      (actor_type (cx_principal ctx)) (actor_id (cx_principal ctx)) ''key.revoked'' (Some (''key:'' @ k_id k))
      [(''key_prefix'', PStr (k_prefix k)), (''reason'', PStr ''member_removed'')] (rq_host rq)
      (db\<lparr>api_keys := sql_update (\<lambda>x. k_id x = k_id k) (k_revoked_at_update (\<lambda>_. Some (rq_now rq)))
         (api_keys db)\<rparr>) = Inr db1" and rest: "revoke_keys (tl evs) rq ctx ks db1 = Inr db'"
    by (auto simp: bind_res_Inr)
  from one have "memberships db1 = memberships db \<and> sessions db1 = sessions db"
    by (auto simp: record_event_known)
  with Cons.IH [OF rest] show ?case by simp
qed simp

text \<open>What a removal did when it succeeded.\<close>

lemma remove_member_Inr:
  assumes "remove_member evs rq ctx usr db = (Inr (), db')"
  obtains m where "get_membership (cx_org_id ctx) usr db = Some m"
    and "m_role m = ''owner'' \<longrightarrow> cx_role ctx = Some ''owner''"
    and "rowcount (changeable_member (cx_org_id ctx) usr (memberships db)) (memberships db) = 1"
    and "memberships db' = sql_delete (changeable_member (cx_org_id ctx) usr (memberships db)) (memberships db)"
    and "sessions db' = sql_delete (\<lambda>s. s_user s = usr \<and> s_org s = Some (cx_org_id ctx)) (sessions db)"
    and "\<exists>db2 db3. api_keys db2 = api_keys db \<and> api_keys db' = api_keys db3 \<and>
      revoke_keys evs rq ctx (filter (revocable_key (cx_org_id ctx) usr) (api_keys db)) db2 = Inr db3"
proof -
  let ?hit = "changeable_member (cx_org_id ctx) usr (memberships db)"
  let ?db2 = "db\<lparr>memberships := sql_delete ?hit (memberships db),
    sessions := sql_delete (\<lambda>s. s_user s = usr \<and> s_org s = Some (cx_org_id ctx)) (sessions db)\<rparr>"
  let ?keys = "filter (revocable_key (cx_org_id ctx) usr) (api_keys db)"
  from assms obtain m u where m: "get_membership (cx_org_id ctx) usr db = Some m" "get_user usr db = Some u"
    by (auto simp: remove_member_def member_of_def split: option.splits)
  with assms have own: "m_role m = ''owner'' \<longrightarrow> cx_role ctx = Some ''owner''"
    by (auto simp: remove_member_def member_of_def split: if_splits)
  from assms m own have hit: "rowcount ?hit (memberships db) = 1"
    by (auto simp: remove_member_def member_of_def delete_member_guarded_def Let_def split: if_splits)
  obtain db3 where db3: "revoke_keys evs rq ctx ?keys ?db2 = Inr db3"
    and rest: "record_event (rq_event rq) (rq_now rq) (Some (cx_org_id ctx)) (actor_type (cx_principal ctx))
          (actor_id (cx_principal ctx)) ''member.removed'' (Some (''user:'' @ usr))
          [(''role'', PStr (m_role m)), (''count'', PInt (int (length ?keys)))] (rq_host rq) db3 = Inr db'"
    using assms m own hit
    by (cases "revoke_keys evs rq ctx ?keys ?db2")
      (auto simp: remove_member_def member_of_def delete_member_guarded_def Let_def with_event_def
        split: if_splits sum.splits)
  from rest have "memberships db' = memberships db3" "sessions db' = sessions db3" "api_keys db' = api_keys db3"
    by (auto simp: record_event_known)
  with memberships_revoke_keys [OF db3] have tabs: "memberships db' = sql_delete ?hit (memberships db)"
    "sessions db' = sql_delete (\<lambda>s. s_user s = usr \<and> s_org s = Some (cx_org_id ctx)) (sessions db)" by simp_all
  show thesis
    by (rule that [OF m(1) own hit tabs], intro exI [of _ ?db2] exI [of _ db3] conjI)
      (simp, fact \<open>api_keys db' = api_keys db3\<close>, fact db3)
qed

lemma remove_member_Inl: "remove_member evs rq ctx usr db = (Inl e, db') \<Longrightarrow> db' = db"
  by (auto simp: remove_member_def with_event_def Let_def split: option.splits if_splits sum.splits prod.splits)

lemma change_role_memberships:
  assumes "change_role rq ctx usr role db = (res, db')"
  shows "memberships db' = memberships db \<or>
    (cx_role ctx = Some ''owner'' \<and>
     memberships db' = memberships (snd (set_member_role_guarded (cx_org_id ctx) usr role db)))"
proof (cases "get_membership (cx_org_id ctx) usr db \<noteq> None \<and> get_user usr db \<noteq> None \<and> cx_role ctx = Some ''owner''")
  case False
  with assms show ?thesis by (auto simp: change_role_def member_of_def split: option.splits)
next
  case True
  then obtain m u where m: "get_membership (cx_org_id ctx) usr db = Some m" "get_user usr db = Some u"
    "cx_role ctx = Some ''owner''" by auto
  obtain c db1 where c: "set_member_role_guarded (cx_org_id ctx) usr role db = (c, db1)" by fastforce
  show ?thesis using assms m c
    by (simp add: change_role_def member_of_def with_event_def record_event_known split: if_splits) auto
qed

lemma owned_cong: "memberships db' = memberships db \<Longrightarrow> owned og db' = owned og db"
  by (simp add: owned_def owners_def)

lemma owned_accept:
  assumes "owned og db"
  shows "owned og (snd (accept_pending_invitations now u db))"
proof -
  let ?is = "filter (pending_invitation (u_email u) now) (invitations db)"
  from assms have keyed: "members_keyed (memberships db)" by (simp add: owned_def)
  obtain new where "members_keyed (fst (fold (accept_one u now) ?is (memberships db, [])))"
    "fst (fold (accept_one u now) ?is (memberships db, [])) = memberships db @ new"
    using accept_fold [OF keyed, of u now ?is "[]"] by blast
  with assms show ?thesis
    by (simp add: owned_def owners_def accept_pending_invitations_def Let_def case_prod_beta)
qed

lemma owned_remove: "owned og db \<Longrightarrow> owned og (snd (remove_member evs rq ctx usr db))"
proof -
  assume o: "owned og db"
  obtain res db' where eq: "remove_member evs rq ctx usr db = (res, db')" by fastforce
  show ?thesis
  proof (cases res)
    case (Inl e)
    with eq o show ?thesis by (auto dest: remove_member_Inl)
  next
    case (Inr x)
    then have "remove_member evs rq ctx usr db = (Inr (), db')" using eq by simp
    then have "memberships db' = memberships (snd (delete_member_guarded (cx_org_id ctx) usr db))"
      by (rule remove_member_Inr) (simp add: delete_member_guarded_def Let_def)
    from owned_cong [OF this] eq owned_delete [OF o] show ?thesis by simp
  qed
qed

lemma owned_change: "owned og db \<Longrightarrow> owned og (snd (change_role rq ctx usr role db))"
proof -
  assume o: "owned og db"
  from change_role_memberships [of rq ctx usr role db, OF prod.collapse [symmetric]] show ?thesis
  proof
    assume "memberships (snd (change_role rq ctx usr role db)) = memberships db"
    from owned_cong [OF this] o show ?thesis by simp
  next
    assume "cx_role ctx = Some ''owner'' \<and> memberships (snd (change_role rq ctx usr role db))
      = memberships (snd (set_member_role_guarded (cx_org_id ctx) usr role db))"
    from owned_cong [OF conjunct2 [OF this]] owned_set_role [OF o] show ?thesis by simp
  qed
qed

datatype member_event =
    RemoveMember "ident list" http_request org_context ident
  | ChangeRole http_request org_context ident string
  | AcceptInvitations stamp user

fun member_step :: "member_event \<Rightarrow> cdb \<Rightarrow> cdb" where
  "member_step (RemoveMember evs rq ctx usr) db = snd (remove_member evs rq ctx usr db)"
| "member_step (ChangeRole rq ctx usr role) db = snd (change_role rq ctx usr role db)"
| "member_step (AcceptInvitations now u) db = snd (accept_pending_invitations now u db)"

interpretation ownership: machine member_step "owned og" for og
proof unfold_locales
  fix e db assume "owned og db"
  then show "owned og (member_step e db)"
    by (cases e) (simp_all add: owned_remove owned_change owned_accept)
qed

section \<open>Properties\<close>

text \<open>C6. An organization that has an owner keeps one, with one membership per user, over any sequence of
  removals, role changes and accepted invitations by any callers, in any organization.\<close>

theorem organization_keeps_owner:
  assumes keyed: "members_keyed (memberships db)" and own: "0 < owners og db"
  shows "members_keyed (memberships (fold member_step es db)) \<and> 0 < owners og (fold member_step es db)"
  using ownership.run_inv [of og db es] keyed own by (simp add: owned_def)

lemma changeable_non_owner:
  assumes keyed: "members_keyed ms" and m: "sql_first (\<lambda>r. m_org r = og \<and> m_user r = usr) ms = Some m"
    and role: "m_role m \<noteq> ''owner''" and x: "x \<in> set ms" "changeable_member og usr ms x"
  shows "x = m"
proof -
  from m have "m \<in> set ms" "m_org m = og" "m_user m = usr" by (auto dest: sql_first_Some)
  with x keyed show ?thesis
    by (auto simp: members_keyed_def changeable_member_def intro: unique_row [where key = "\<lambda>m. (m_org m, m_user m)"])
qed

text \<open>Only owners decide about owners: whatever a caller who is not an owner of the organization does with
  the member routes, the owners of every organization stay the same rows; and such a caller can only invite for
  a role below owner whose scopes are among the caller's.\<close>

theorem owners_changed_by_owners_only:
  assumes keyed: "members_keyed (memberships db)" and caller: "cx_role ctx \<noteq> Some ''owner''"
  shows "filter (owner_of og) (memberships (snd (remove_member evs rq ctx usr db))) = filter (owner_of og) (memberships db) \<and>
    memberships (snd (change_role rq ctx usr role db)) = memberships db \<and>
    (check_role_grant ctx r = None \<longrightarrow> r \<noteq> ''owner'' \<and> role_scopes r \<subseteq> cx_scopes ctx)"
proof (intro conjI impI)
  show "filter (owner_of og) (memberships (snd (remove_member evs rq ctx usr db))) = filter (owner_of og) (memberships db)"
  proof (cases "remove_member evs rq ctx usr db")
    case (Pair res db')
    show ?thesis
    proof (cases res)
      case (Inl e)
      with Pair show ?thesis by (auto dest: remove_member_Inl)
    next
      case (Inr x)
      with Pair have ok: "remove_member evs rq ctx usr db = (Inr (), db')" by simp
      obtain m where m: "get_membership (cx_org_id ctx) usr db = Some m"
        and role: "m_role m = ''owner'' \<longrightarrow> cx_role ctx = Some ''owner''"
        and ms: "memberships db' = sql_delete (changeable_member (cx_org_id ctx) usr (memberships db)) (memberships db)"
        by (rule remove_member_Inr [OF ok])
      from role caller have non: "m_role m \<noteq> ''owner''" by blast
      have "\<not> owner_of og y" if "y \<in> set (memberships db)" "changeable_member (cx_org_id ctx) usr (memberships db) y" for y
        using changeable_non_owner [OF keyed m [unfolded get_membership_def] non that] non by (simp add: owner_of_def)
      then have "filter (\<lambda>y. \<not> changeable_member (cx_org_id ctx) usr (memberships db) y \<and> owner_of og y) (memberships db)
          = filter (owner_of og) (memberships db)"
        by (intro filter_cong) auto
      with ms Pair show ?thesis by (simp add: sql_delete_def conj_commute)
    qed
  qed
  show "memberships (snd (change_role rq ctx usr role db)) = memberships db"
    using change_role_memberships [of rq ctx usr role db, OF prod.collapse [symmetric]] caller by blast
  assume "check_role_grant ctx r = None"
  with caller show "r \<noteq> ''owner''" "role_scopes r \<subseteq> cx_scopes ctx"
    by (auto simp: check_role_grant_def split: if_splits)
qed

lemma revoke_keys_Inr:
  assumes "revoke_keys evs rq ctx ks db = Inr db'"
  shows "\<forall>k \<in> set (api_keys db'). (k_id k \<in> k_id ` set ks \<longrightarrow> k_revoked_at k \<noteq> None) \<and>
    (\<exists>k0 \<in> set (api_keys db). k = k0 \<or> k = k0\<lparr>k_revoked_at := Some (rq_now rq)\<rparr> \<and> k_id k0 \<in> k_id ` set ks)"
  using assms
proof (induction ks arbitrary: evs db)
  case (Cons x ks)
  let ?upd = "sql_update (\<lambda>y. k_id y = k_id x) (k_revoked_at_update (\<lambda>_. Some (rq_now rq))) (api_keys db)"
  from Cons.prems obtain db1 where one: "record_event (first_id evs) (rq_now rq) (Some (cx_org_id ctx))
      (actor_type (cx_principal ctx)) (actor_id (cx_principal ctx)) ''key.revoked'' (Some (''key:'' @ k_id x))
      [(''key_prefix'', PStr (k_prefix x)), (''reason'', PStr ''member_removed'')] (rq_host rq)
      (db\<lparr>api_keys := ?upd\<rparr>) = Inr db1" and rest: "revoke_keys (tl evs) rq ctx ks db1 = Inr db'"
    by (auto simp: bind_res_Inr)
  from one have keys: "api_keys db1 = ?upd" by (auto simp: record_event_known)
  show ?case
  proof
    fix k assume "k \<in> set (api_keys db')"
    with Cons.IH [OF rest] obtain k1 where k1: "k1 \<in> set ?upd" "k = k1 \<or> k = k1\<lparr>k_revoked_at := Some (rq_now rq)\<rparr> \<and> k_id k1 \<in> k_id ` set ks"
      and rev: "k_id k \<in> k_id ` set ks \<longrightarrow> k_revoked_at k \<noteq> None"
      unfolding keys by blast
    from k1(1) show "(k_id k \<in> k_id ` set (x # ks) \<longrightarrow> k_revoked_at k \<noteq> None) \<and>
      (\<exists>k0 \<in> set (api_keys db). k = k0 \<or> k = k0\<lparr>k_revoked_at := Some (rq_now rq)\<rparr> \<and> k_id k0 \<in> k_id ` set (x # ks))"
    proof (cases rule: in_sql_updateE)
      case same
      with k1(2) rev show ?thesis by (intro conjI bexI [of _ k1]) auto
    next
      case (updated k0)
      with k1(2) rev show ?thesis by (intro conjI bexI [of _ k0]) auto
    qed
  qed
qed auto

text \<open>A removed member loses all access at once: the membership is gone, every session bound to the
  organization is deleted, and every key the member created there is revoked; the other memberships and sessions
  stay.\<close>

theorem removed_member_loses_access:
  assumes keyed: "members_keyed (memberships db)" and ok: "remove_member evs rq ctx usr db = (Inr (), db')"
  shows "get_membership (cx_org_id ctx) usr db' = None \<and>
    (\<forall>s \<in> set (sessions db'). \<not> (s_user s = usr \<and> s_org s = Some (cx_org_id ctx))) \<and>
    (\<forall>k \<in> set (api_keys db'). \<not> revocable_key (cx_org_id ctx) usr k) \<and>
    (\<forall>m \<in> set (memberships db). \<not> (m_org m = cx_org_id ctx \<and> m_user m = usr) \<longrightarrow> m \<in> set (memberships db')) \<and>
    (\<forall>s \<in> set (sessions db). \<not> (s_user s = usr \<and> s_org s = Some (cx_org_id ctx)) \<longrightarrow> s \<in> set (sessions db'))"
proof (rule remove_member_Inr [OF ok], intro conjI)
  let ?og = "cx_org_id ctx"
  let ?hit = "changeable_member ?og usr (memberships db)"
  fix m
  assume m: "get_membership ?og usr db = Some m" and one: "rowcount ?hit (memberships db) = 1"
    and ms: "memberships db' = sql_delete ?hit (memberships db)"
    and ss: "sessions db' = sql_delete (\<lambda>s. s_user s = usr \<and> s_org s = Some ?og) (sessions db)"
    and keys: "\<exists>db2 db3. api_keys db2 = api_keys db \<and> api_keys db' = api_keys db3 \<and>
      revoke_keys evs rq ctx (filter (revocable_key ?og usr) (api_keys db)) db2 = Inr db3"
  obtain h where h: "h \<in> set (memberships db)" "?hit h" using rowcount_one_ex [OF one] by blast
  have same: "x = h" if "x \<in> set (memberships db)" "m_org x = ?og" "m_user x = usr" for x
    using unique_row [OF keyed [unfolded members_keyed_def] that(1) h(1)] that h(2) by (simp add: changeable_member_def)
  show "get_membership ?og usr db' = None"
    using same h(2) by (auto simp: get_membership_def table_simps ms)
  show "\<forall>s \<in> set (sessions db'). \<not> (s_user s = usr \<and> s_org s = Some ?og)"
    by (simp add: ss table_simps)
  show "\<forall>x \<in> set (memberships db). \<not> (m_org x = ?og \<and> m_user x = usr) \<longrightarrow> x \<in> set (memberships db')"
    by (auto simp: ms table_simps changeable_member_def)
  show "\<forall>s \<in> set (sessions db). \<not> (s_user s = usr \<and> s_org s = Some ?og) \<longrightarrow> s \<in> set (sessions db')"
    by (simp add: ss table_simps)
  from keys obtain db2 db3 where d: "api_keys db2 = api_keys db" "api_keys db' = api_keys db3"
    "revoke_keys evs rq ctx (filter (revocable_key ?og usr) (api_keys db)) db2 = Inr db3" by blast
  show "\<forall>k \<in> set (api_keys db'). \<not> revocable_key ?og usr k"
  proof
    fix k assume "k \<in> set (api_keys db')"
    with revoke_keys_Inr [OF d(3)] d(1,2) obtain k0 where k0: "k0 \<in> set (api_keys db)"
      "k = k0 \<or> k = k0\<lparr>k_revoked_at := Some (rq_now rq)\<rparr>"
      and rev: "k_id k \<in> k_id ` set (filter (revocable_key ?og usr) (api_keys db)) \<longrightarrow> k_revoked_at k \<noteq> None"
      by auto
    show "\<not> revocable_key ?og usr k"
    proof
      assume r: "revocable_key ?og usr k"
      with k0 have "k = k0" by (auto simp: revocable_key_def)
      with k0(1) r have "k_id k \<in> k_id ` set (filter (revocable_key ?og usr) (api_keys db))" by auto
      with rev r show False by (simp add: revocable_key_def)
    qed
  qed
qed

section \<open>Concrete inputs\<close>

definition demo_team :: cdb where
  "demo_team = empty_cdb\<lparr>orgs := [demo_org], users := [demo_owner, demo_owner\<lparr>u_id := ''v''\<rparr>],
     memberships := [\<lparr>m_org = ''org'', m_user = ''u'', m_role = ''owner'', m_created_at = 0\<rparr>,
       \<lparr>m_org = ''org'', m_user = ''v'', m_role = ''member'', m_created_at = 1\<rparr>],
     api_keys := [demo_key\<lparr>k_created_by := Some ''v''\<rparr>],
     sessions := [demo_session\<lparr>s_user := ''v'', s_org := Some ''org''\<rparr>]\<rparr>"

lemma demo_team_keyed: "members_keyed (memberships demo_team)" "0 < owners ''org'' demo_team"
  by (simp_all add: demo_team_def members_keyed_def owners_def owner_of_def)

theorem organization_keeps_owner_witness:
  "0 < owners ''org'' (fold member_step [RemoveMember [] demo_request demo_ctx ''v'', RemoveMember [] demo_request demo_ctx ''u''] demo_team)"
  using organization_keeps_owner [OF demo_team_keyed, of "[RemoveMember [] demo_request demo_ctx ''v'', RemoveMember [] demo_request demo_ctx ''u'']"]
  by blast

theorem owners_changed_by_owners_only_witness:
  "fst (remove_member [''e''] demo_request demo_ctx ''u'' demo_team) = Inl (Problem 403 ''forbidden'') \<and>
   filter (owner_of ''org'') (memberships (snd (remove_member [''e''] demo_request demo_ctx ''u'' demo_team)))
     = filter (owner_of ''org'') (memberships demo_team)"
proof -
  have role: "cx_role demo_ctx \<noteq> Some ''owner''" by (simp add: demo_ctx_def)
  have "cx_org_id demo_ctx = ''org''" by (simp add: cx_org_id_def demo_ctx_def demo_org_def)
  then have "fst (remove_member [''e''] demo_request demo_ctx ''u'' demo_team) = Inl (Problem 403 ''forbidden'')"
    by (simp add: remove_member_def member_of_def get_membership_def get_user_def sql_first_def demo_team_def
        role demo_owner_def)
  with owners_changed_by_owners_only [OF demo_team_keyed(1) role] show ?thesis by blast
qed

theorem removed_member_loses_access_witness:
  "\<exists>db'. remove_member [''e''] demo_request demo_ctx ''v'' demo_team = (Inr (), db') \<and>
     get_membership ''org'' ''v'' db' = None \<and> (\<forall>k \<in> set (api_keys db'). \<not> revocable_key ''org'' ''v'' k)"
proof -
  have org: "cx_org_id demo_ctx = ''org''" by (simp add: cx_org_id_def demo_ctx_def demo_org_def)
  have "\<exists>db'. remove_member [''e''] demo_request demo_ctx ''v'' demo_team = (Inr (), db')"
    by (simp add: remove_member_def member_of_def get_membership_def get_user_def sql_first_def demo_team_def org
        demo_owner_def delete_member_guarded_def changeable_member_def Let_def with_event_def record_event_known
        revocable_key_def demo_key_def)
  then obtain db' where ok: "remove_member [''e''] demo_request demo_ctx ''v'' demo_team = (Inr (), db')" by blast
  from removed_member_loses_access [OF demo_team_keyed(1) ok] ok show ?thesis unfolding org by blast
qed

end
