(* ===== verification/Login.thy ===== *)
theory Login
  imports Members
begin

text \<open>
  Sign-in without passwords (\<^verbatim>\<open>app/api/v1/auth.py\<close>): a magic link is mailed, its token is exchanged
  once for a session. The exchange is split where the code is: a first read that refuses unknown links and
  links of another browser, and a transaction that consumes the link by one conditional update. Other
  requests may commit between the two.
\<close>

record login_settings =
  lg_server :: server
  lg_cookie_secure :: bool
  lg_magic_ip_per_min :: int
  lg_magic_email_per_min :: int
  lg_magic_link_ttl_minutes :: int
  lg_session_ttl_hours :: int

text \<open>\<open>Settings.has_secret_key\<close> (\<^verbatim>\<open>app/core/config.py\<close>).\<close>

definition MIN_SECRET_KEY_LENGTH :: nat where "MIN_SECRET_KEY_LENGTH = 32"

definition is_blank :: "string option \<Rightarrow> bool" where
  "is_blank v = (case v of None \<Rightarrow> True
     | Some s \<Rightarrow> py_strip s = [] \<or>
         py_lower (py_strip s) \<in> set [''none'', ''null'', ''changeme'', ''change_me''])"

definition has_secret_key :: "server \<Rightarrow> bool" where
  "has_secret_key sv = (\<not> is_blank (sv_secret_key sv) \<and>
     (case sv_secret_key sv of None \<Rightarrow> False | Some s \<Rightarrow> length (py_strip s) \<ge> MIN_SECRET_KEY_LENGTH))"

definition ML_COOKIE :: string where "ML_COOKIE = ''daas_ml''"
definition SESSION_COOKIE :: string where "SESSION_COOKIE = ''daas_session''"
definition CSRF_COOKIE :: string where "CSRF_COOKIE = ''daas_csrf''"

definition ml_cookie_name :: "login_settings \<Rightarrow> string" where
  "ml_cookie_name lg = (if lg_cookie_secure lg then ''__Host-'' @ ML_COOKIE else ML_COOKIE)"

text \<open>\<open>^[A-Za-z0-9_-]{32,64}$\<close>; the \<open>$\<close> also matches before a final newline.\<close>

definition nonce_text :: "string \<Rightarrow> bool" where
  "nonce_text s = (list_all is_urlsafe s \<and> 32 \<le> length s \<and> length s \<le> 64)"

definition nonce_re :: "string \<Rightarrow> bool" where
  "nonce_re s = (nonce_text s \<or> (s \<noteq> [] \<and> last s = CHR 10 \<and> nonce_text (butlast s)))"

definition mask_email :: "string \<Rightarrow> string" where
  "mask_email email =
     (let (local_part, domain) = (case py_partition (CHR ''@'') (py_lower email) of
            None \<Rightarrow> (py_lower email, []) | Some p \<Rightarrow> p)
      in take 1 local_part @ ''***@'' @ domain)"

definition email_hash :: "(string \<Rightarrow> string) \<Rightarrow> string \<Rightarrow> string" where
  "email_hash sha email = take 16 (sha email)"

text \<open>The \<open>Set-Cookie\<close> headers of an answer.\<close>

record set_cookie =
  ck_name :: string
  ck_value :: "string option"
  ck_max_age :: int
  ck_secure :: bool
  ck_httponly :: bool

definition set_session_cookies ::
  "(string \<Rightarrow> string \<Rightarrow> 8 word list) \<Rightarrow> login_settings \<Rightarrow> session \<Rightarrow> set_cookie list" where
  "set_session_cookies mac lg s =
     (let max_age = lg_session_ttl_hours lg * 3600;
          secret = (case sv_secret_key (lg_server lg) of None \<Rightarrow> [] | Some k \<Rightarrow> k)
      in [\<lparr>ck_name = SESSION_COOKIE, ck_value = Some (sign_session_id mac (s_id s) secret), ck_max_age = max_age,
           ck_secure = lg_cookie_secure lg, ck_httponly = True\<rparr>,
          \<lparr>ck_name = CSRF_COOKIE, ck_value = Some (s_csrf_token s), ck_max_age = max_age,
           ck_secure = lg_cookie_secure lg, ck_httponly = False\<rparr>])"

definition delete_cookie :: "login_settings \<Rightarrow> string \<Rightarrow> bool \<Rightarrow> set_cookie" where
  "delete_cookie lg name httponly = \<lparr>ck_name = name, ck_value = None, ck_max_age = 0,
     ck_secure = lg_cookie_secure lg, ck_httponly = httponly\<rparr>"

definition clear_session_cookies :: "login_settings \<Rightarrow> set_cookie list" where
  "clear_session_cookies lg = [delete_cookie lg SESSION_COOKIE True, delete_cookie lg CSRF_COOKIE False]"

section \<open>Requesting a link\<close>

record magic_link_request =
  mr_email :: string
  mr_locale :: string

definition email_field :: "string \<Rightarrow> string option" where
  "email_field v = (let e = normalize_email v in if is_valid_email e then Some e else None)"

definition too_many :: "rat \<Rightarrow> exc" where "too_many wait = Problem 429 ''rate_limited''"

text \<open>The two limits in turn: the address of the client, then the e-mail; the first refusal ends the request.\<close>

fun hit_rules :: "nat \<Rightarrow> rat \<Rightarrow> (string \<times> string \<times> int) list \<Rightarrow> limiter \<Rightarrow> exc option \<times> limiter" where
  "hit_rules mx now [] bs = (None, bs)"
| "hit_rules mx now ((rule, key, per_min) # rules) bs =
     (let (wait, bs1) = hit mx now rule key per_min bs
      in if wait > 0 then (Some (too_many wait), bs1) else hit_rules mx now rules bs1)"

definition request_magic_link ::
  "(string \<Rightarrow> string) \<Rightarrow> login_settings \<Rightarrow> http_request \<Rightarrow> string \<Rightarrow> string \<Rightarrow> string \<Rightarrow> magic_link_request
    \<Rightarrow> (set_cookie \<times> mail) app_handler" where
  "request_magic_link sha lg rq ml_cookie token new_nonce body st =
     (if sv_maintenance (lg_server lg) then (Inl (Problem 503 ''maintenance''), st)
      else if \<not> has_secret_key (lg_server lg) then (Inl (Problem 503 ''sessions_unavailable''), st)
      else
        let (refused, bs) = hit_rules (sv_max_buckets (lg_server lg)) (rq_clock rq)
              [(''magic_ip'', client_ip (rq_host rq), lg_magic_ip_per_min lg),
               (''magic_email'', email_hash sha (mr_email body), lg_magic_email_per_min lg)] (ap_limiter st);
            st1 = st\<lparr>ap_limiter := bs\<rparr>
        in (case refused of
              Some e \<Rightarrow> (Inl e, st1)
            | None \<Rightarrow>
                let now = rq_now rq;
                    nonce = (if nonce_re ml_cookie then ml_cookie else new_nonce);
                    ttl = minutes (lg_magic_link_ttl_minutes lg);
                    kept = sql_delete (\<lambda>l. ml_expires_at l < now - days 1) (magic_links (ap_db st1))
                in (case sql_insert ml_token_hash \<lparr>ml_token_hash = sha token, ml_email = mr_email body,
                        ml_created_at = now, ml_expires_at = now + ttl, ml_used_at = None,
                        ml_nonce_hash = Some (sha nonce)\<rparr> kept of
                      None \<Rightarrow> (Inl (PyRaise ''IntegrityError''), st1)
                    | Some ls \<Rightarrow>
                        (Inr (\<lparr>ck_name = ml_cookie_name lg, ck_value = Some nonce,
                            ck_max_age = lg_magic_link_ttl_minutes lg * 60, ck_secure = lg_cookie_secure lg,
                            ck_httponly = True\<rparr>, MagicLinkMail (mr_email body) token (mr_locale body)),
                         st1\<lparr>ap_db := (ap_db st1)\<lparr>magic_links := ls\<rparr>\<rparr>))))"

section \<open>Exchanging the link\<close>

datatype login_error = Plain exc | ConfirmRequired string

record magic_link_confirm =
  mc_token :: string
  mc_confirm :: bool

record session_out =
  so_user :: user
  so_orgs :: "(membership \<times> org) list"
  so_csrf_token :: string
  so_expires_at :: stamp

record sign_in_mint =
  sm_user_id :: ident
  sm_session_id :: string
  sm_csrf_token :: string
  sm_events :: "ident list"

definition usable_link :: "string \<Rightarrow> stamp \<Rightarrow> magic_link \<Rightarrow> bool" where
  "usable_link digest now l = (ml_token_hash l = digest \<and> ml_used_at l = None \<and> now < ml_expires_at l)"

definition same_browser :: "(string \<Rightarrow> string) \<Rightarrow> string \<Rightarrow> magic_link \<Rightarrow> bool" where
  "same_browser sha presented l =
     (case ml_nonce_hash l of None \<Rightarrow> False
      | Some h \<Rightarrow> h \<noteq> [] \<and> presented \<noteq> [] \<and> sha presented = h)"

definition invalid_link :: "login_settings \<Rightarrow> http_request \<Rightarrow> app \<Rightarrow> (login_error + 'a) \<times> app" where
  "invalid_link lg rq st =
     (let (wait, bs) = throttle_auth_failure (sv_max_buckets (lg_server lg)) (rq_clock rq) (rq_host rq)
            (sv_auth_fail_per_min (lg_server lg)) (ap_limiter st)
      in (Inl (Plain (case wait of None \<Rightarrow> Problem 401 ''invalid_token'' | Some _ \<Rightarrow> Problem 429 ''rate_limited'')),
          st\<lparr>ap_limiter := bs\<rparr>))"

definition check_link ::
  "(string \<Rightarrow> string) \<Rightarrow> login_settings \<Rightarrow> http_request \<Rightarrow> string \<Rightarrow> magic_link_confirm \<Rightarrow> app
    \<Rightarrow> (login_error + magic_link) \<times> app" where
  "check_link sha lg rq ml_cookie body st =
     (if \<not> has_secret_key (lg_server lg) then (Inl (Plain (Problem 503 ''sessions_unavailable'')), st)
      else (case sql_first (usable_link (sha (mc_token body)) (rq_now rq)) (magic_links (ap_db st)) of
          None \<Rightarrow> invalid_link lg rq st
        | Some l \<Rightarrow>
            if \<not> same_browser sha ml_cookie l \<and> \<not> mc_confirm body
            then (Inl (ConfirmRequired (mask_email (ml_email l))), st)
            else (Inr l, st)))"

text \<open>The events of the memberships that were just added; the event identifiers are a list.\<close>

fun record_added ::
  "(string \<Rightarrow> string) \<Rightarrow> ident list \<Rightarrow> http_request \<Rightarrow> user \<Rightarrow> (ident \<times> string) list \<Rightarrow> cdb \<Rightarrow> exc + cdb" where
  "record_added sha evs rq u [] db = Inr db"
| "record_added sha evs rq u ((org_id, role) # added) db =
     bind_res (record_event (first_id evs) (rq_now rq) (Some org_id) ''user'' (Some (u_id u)) ''member.added''
         (Some (''user:'' @ u_id u)) [(''role'', PStr role), (''email_hash'', PStr (email_hash sha (u_email u)))]
         (rq_host rq) db)
       (record_added sha (tl evs) rq u added)"

definition consume_link :: "string \<Rightarrow> stamp \<Rightarrow> cdb \<Rightarrow> nat \<times> cdb" where
  "consume_link digest now db =
     (rowcount (usable_link digest now) (magic_links db),
      db\<lparr>magic_links := sql_update (usable_link digest now) (ml_used_at_update (\<lambda>_. Some now)) (magic_links db)\<rparr>)"

definition sign_in_session :: "login_settings \<Rightarrow> http_request \<Rightarrow> sign_in_mint \<Rightarrow> user \<Rightarrow> (membership \<times> org) list \<Rightarrow> session" where
  "sign_in_session lg rq mint u ms = \<lparr>s_id = sm_session_id mint, s_user = u_id u,
     s_org = (case ms of [] \<Rightarrow> None | (m, og) # _ \<Rightarrow> Some (o_id og)), s_csrf_token = sm_csrf_token mint,
     s_created_at = rq_now rq, s_expires_at = rq_now rq + hours (lg_session_ttl_hours lg)\<rparr>"

definition sign_in_txn ::
  "(string \<Rightarrow> string) \<Rightarrow> login_settings \<Rightarrow> http_request \<Rightarrow> sign_in_mint \<Rightarrow> magic_link_confirm \<Rightarrow> app
    \<Rightarrow> (login_error + (session_out \<times> session)) \<times> app" where
  "sign_in_txn sha lg rq mint body st =
     (let digest = sha (mc_token body);
          (n, db1) = consume_link digest (rq_now rq) (ap_db st)
      in if n \<noteq> 1 then invalid_link lg rq st
         else (case sql_first (\<lambda>l. ml_token_hash l = digest) (magic_links db1) of
             None \<Rightarrow> (Inl (Plain (PyRaise ''AttributeError'')), st)
           | Some link \<Rightarrow>
               (case get_or_create_user (sm_user_id mint) (rq_now rq) (ml_email link) ''pl'' db1 of
                  Inl e \<Rightarrow> (Inl (Plain e), st)
                | Inr ((u, created), db2) \<Rightarrow>
                    let (added, db3) = accept_pending_invitations (rq_now rq) u db2;
                        ms = memberships_of (u_id u) db3;
                        s = sign_in_session lg rq mint u ms
                    in (case sql_insert s_id s (sessions db3) of
                          None \<Rightarrow> (Inl (Plain (PyRaise ''IntegrityError'')), st)
                        | Some ss \<Rightarrow>
                            (case bind_res (record_added sha (tl (sm_events mint)) rq u added (db3\<lparr>sessions := ss\<rparr>))
                                (record_event (first_id (sm_events mint)) (rq_now rq) (s_org s) ''user'' (Some (u_id u))
                                   ''auth.login'' None [] (rq_host rq)) of
                               Inl e \<Rightarrow> (Inl (Plain e), st)
                             | Inr db4 \<Rightarrow> (Inr (\<lparr>so_user = u, so_orgs = ms, so_csrf_token = s_csrf_token s,
                                   so_expires_at = s_expires_at s\<rparr>, s), st\<lparr>ap_db := db4\<rparr>))))))"

definition verify_magic_link ::
  "(app \<Rightarrow> app) \<Rightarrow> (string \<Rightarrow> string) \<Rightarrow> (string \<Rightarrow> string \<Rightarrow> 8 word list) \<Rightarrow> login_settings \<Rightarrow> http_request
    \<Rightarrow> string \<Rightarrow> sign_in_mint \<Rightarrow> magic_link_confirm \<Rightarrow> app \<Rightarrow> (login_error + (session_out \<times> set_cookie list)) \<times> app" where
  "verify_magic_link meanwhile sha mac lg rq ml_cookie mint body st =
     (case check_link sha lg rq ml_cookie body st of
        (Inl e, st1) \<Rightarrow> (Inl e, st1)
      | (Inr l, st1) \<Rightarrow>
          (case sign_in_txn sha lg rq mint body (meanwhile st1) of
             (Inl e, st2) \<Rightarrow> (Inl e, st2)
           | (Inr (out, s), st2) \<Rightarrow>
               (Inr (out, set_session_cookies mac lg s @ [delete_cookie lg (ml_cookie_name lg) True]), st2)))"

section \<open>Signing out, and who am I\<close>

definition logout :: "login_settings \<Rightarrow> http_request \<Rightarrow> principal \<Rightarrow> set_cookie list handler" where
  "logout lg rq p db =
     (case (pr_session p, pr_user p) of
        (None, _) \<Rightarrow> (Inl (Problem 403 ''user_session_required''), db)
      | (Some s, None) \<Rightarrow> (Inl (PyRaise ''AttributeError''), db)
      | (Some s, Some u) \<Rightarrow>
          with_event db
            (record_event (rq_event rq) (rq_now rq) (s_org s) ''user'' (Some (u_id u)) ''auth.logout'' None []
               (rq_host rq) db)
            (\<lambda>db1. (Inr (clear_session_cookies lg),
               db1\<lparr>sessions := sql_delete (\<lambda>x. s_id x = s_id s) (sessions db1)\<rparr>)))"

record me_out =
  me_type :: string
  me_user :: "user option"
  me_org_id :: "ident option"
  me_scopes :: "string set"
  me_orgs :: "(ident \<times> string \<times> string \<times> string option) list"

definition org_entry :: "(membership \<times> org) \<Rightarrow> ident \<times> string \<times> string \<times> string option" where
  "org_entry = (\<lambda>(m, og). (o_id og, o_name og, o_slug og, Some (m_role m)))"

definition me :: "(string \<Rightarrow> string) \<Rightarrow> ident list \<Rightarrow> http_request \<Rightarrow> principal \<Rightarrow> me_out handler" where
  "me sha evs rq p db =
     (case pr_user p of
        Some u \<Rightarrow>
          let (added, db1) = accept_pending_invitations (rq_now rq) u db
          in with_event db (record_added sha evs rq u added db1)
               (\<lambda>db2. (Inr \<lparr>me_type = ''user'', me_user = Some u, me_org_id = None, me_scopes = {},
                   me_orgs = map org_entry (memberships_of (u_id u) db2)\<rparr>,
                  if added = [] then db else db2))
      | None \<Rightarrow>
          let og = (case pr_org p of None \<Rightarrow> None | Some i \<Rightarrow> get_org i db)
          in (Inr \<lparr>me_type = ''api_key'', me_user = None, me_org_id = pr_org p, me_scopes = pr_scopes p,
                me_orgs = (case og of None \<Rightarrow> [] | Some x \<Rightarrow> [(o_id x, o_name x, o_slug x, None)])\<rparr>, db))"

section \<open>Links are consumed once\<close>

definition links_keyed :: "app \<Rightarrow> bool" where
  "links_keyed st = distinct (map ml_token_hash (magic_links (ap_db st)))"

definition link_spent :: "string \<Rightarrow> app \<Rightarrow> bool" where
  "link_spent digest st = (links_keyed st \<and>
     (\<forall>l \<in> set (magic_links (ap_db st)). ml_token_hash l = digest \<longrightarrow> ml_used_at l \<noteq> None))"

lemma link_spent_cong: "magic_links (ap_db st') = magic_links (ap_db st) \<Longrightarrow> link_spent d st' = link_spent d st"
  by (simp add: link_spent_def links_keyed_def)

lemma get_or_create_user_links: "get_or_create_user new_id now email loc db = Inr ((u, c), db') \<Longrightarrow> magic_links db' = magic_links db"
  by (auto simp: get_or_create_user_def Let_def split: option.splits)

lemma accept_links: "magic_links (snd (accept_pending_invitations now u db)) = magic_links db"
  by (simp add: accept_pending_invitations_def Let_def case_prod_beta)

lemma record_added_links:
  "record_added sha evs rq u added db = Inr db' \<Longrightarrow> magic_links db' = magic_links db \<and> sessions db' = sessions db
     \<and> users db' = users db \<and> memberships db' = memberships db \<and> orgs db' = orgs db"
proof (induction added arbitrary: evs db)
  case (Cons a added)
  obtain og role where a: "a = (og, role)" by fastforce
  from Cons.prems a obtain db1 where "record_added sha (tl evs) rq u added db1 = Inr db'"
    and "magic_links db1 = magic_links db" "sessions db1 = sessions db" "users db1 = users db"
      "memberships db1 = memberships db" "orgs db1 = orgs db"
    by (auto simp: bind_res_Inr record_event_known)
  with Cons.IH [of "tl evs" db1] show ?case by simp
qed simp

lemma unauthorized_link: "fst (invalid_link lg rq st) \<noteq> Inr x" "ap_db (snd (invalid_link lg rq st)) = ap_db st"
  by (simp_all add: invalid_link_def Let_def split: prod.splits)

lemma invalid_link_not [simp]: "invalid_link lg rq st \<noteq> (Inr x, st')"
  "invalid_link lg rq st \<noteq> (Inl (ConfirmRequired hint), st')"
  by (auto simp: invalid_link_def Let_def case_prod_beta)

text \<open>The anatomy of a successful sign-in.\<close>

lemma sign_in_txn_Inr:
  assumes ok: "sign_in_txn sha lg rq mint body st = (Inr (out, s), st')"
  obtains link u created db2 added db3 where
    "rowcount (usable_link (sha (mc_token body)) (rq_now rq)) (magic_links (ap_db st)) = 1"
    and "sql_first (\<lambda>l. ml_token_hash l = sha (mc_token body))
       (magic_links (snd (consume_link (sha (mc_token body)) (rq_now rq) (ap_db st)))) = Some link"
    and "get_or_create_user (sm_user_id mint) (rq_now rq) (ml_email link) ''pl''
       (snd (consume_link (sha (mc_token body)) (rq_now rq) (ap_db st))) = Inr ((u, created), db2)"
    and "accept_pending_invitations (rq_now rq) u db2 = (added, db3)"
    and "s = sign_in_session lg rq mint u (memberships_of (u_id u) db3)"
    and "so_user out = u" and "so_orgs out = memberships_of (u_id u) db3"
    and "sessions (ap_db st') = sessions db3 @ [s]"
    and "s_id s \<notin> s_id ` set (sessions db3)"
    and "users (ap_db st') = users db3" and "orgs (ap_db st') = orgs db3"
    and "memberships (ap_db st') = memberships db3"
    and "magic_links (ap_db st') = magic_links (snd (consume_link (sha (mc_token body)) (rq_now rq) (ap_db st)))"
proof -
  let ?d = "sha (mc_token body)" and ?now = "rq_now rq"
  obtain n db1 where c: "consume_link ?d ?now (ap_db st) = (n, db1)" by fastforce
  from ok c have n: "n = 1" by (auto simp: sign_in_txn_def split: if_splits)
  from ok c n obtain link where link: "sql_first (\<lambda>l. ml_token_hash l = ?d) (magic_links db1) = Some link"
    by (auto simp: sign_in_txn_def split: option.splits)
  from ok c n link obtain u created db2
    where u: "get_or_create_user (sm_user_id mint) ?now (ml_email link) ''pl'' db1 = Inr ((u, created), db2)"
    by (cases "get_or_create_user (sm_user_id mint) ?now (ml_email link) ''pl'' db1") (auto simp: sign_in_txn_def)
  obtain added db3 where acc: "accept_pending_invitations ?now u db2 = (added, db3)" by fastforce
  let ?s = "sign_in_session lg rq mint u (memberships_of (u_id u) db3)"
  from ok c n link u acc obtain ss where ss: "sql_insert s_id ?s (sessions db3) = Some ss"
    by (auto simp: sign_in_txn_def Let_def split: option.splits)
  from ok c n link u acc ss obtain db4 where fin: "bind_res (record_added sha (tl (sm_events mint)) rq u added (db3\<lparr>sessions := ss\<rparr>))
      (record_event (first_id (sm_events mint)) ?now (s_org ?s) ''user'' (Some (u_id u)) ''auth.login'' None [] (rq_host rq))
      = Inr db4" and res: "st' = st\<lparr>ap_db := db4\<rparr>" "s = ?s" "so_user out = u" "so_orgs out = memberships_of (u_id u) db3"
    by (auto simp: sign_in_txn_def Let_def split: sum.splits)
  from fin obtain db5 where db5: "record_added sha (tl (sm_events mint)) rq u added (db3\<lparr>sessions := ss\<rparr>) = Inr db5"
    and ev: "record_event (first_id (sm_events mint)) ?now (s_org ?s) ''user'' (Some (u_id u)) ''auth.login'' None []
       (rq_host rq) db5 = Inr db4" unfolding bind_res_Inr by blast
  have "''auth.login'' \<in> set AUDIT_ACTIONS_V1" by (simp add: AUDIT_ACTIONS_V1_def)
  from ev [unfolded record_event_known [OF this]] have db4: "sessions db4 = sessions db5" "users db4 = users db5"
    "orgs db4 = orgs db5" "memberships db4 = memberships db5" "magic_links db4 = magic_links db5" by auto
  have links3: "magic_links db3 = magic_links db1"
    using accept_links [of ?now u db2] get_or_create_user_links [OF u] acc by simp
  note rest = record_added_links [OF db5] sql_insert_Some [OF ss]
  show thesis
    by (rule that [of link u created db2 added db3]) (use c n link u acc res rest db4 links3 in \<open>simp_all add: consume_link_def\<close>)
qed

lemma sign_in_txn_Inl: "sign_in_txn sha lg rq mint body st = (Inl e, st') \<Longrightarrow> ap_db st' = ap_db st"
proof -
  assume eq: "sign_in_txn sha lg rq mint body st = (Inl e, st')"
  obtain n db1 where c: "consume_link (sha (mc_token body)) (rq_now rq) (ap_db st) = (n, db1)" by fastforce
  show ?thesis
  proof (cases "n = 1")
    case False
    with eq c have "(invalid_link lg rq st :: (login_error + (session_out \<times> session)) \<times> app) = (Inl e, st')"
      by (simp add: sign_in_txn_def)
    with unauthorized_link(2) [of lg rq st] show ?thesis by (metis snd_conv)
  next
    case True
    with eq c show ?thesis by (auto simp: sign_in_txn_def Let_def case_prod_beta split: option.splits sum.splits)
  qed
qed

lemma consume_spends:
  assumes "links_keyed st" and "rowcount (usable_link d now) (magic_links (ap_db st)) = 1"
    and "magic_links (ap_db st') = magic_links (snd (consume_link d now (ap_db st)))"
  shows "link_spent d st'"
proof -
  obtain l where l: "l \<in> set (magic_links (ap_db st))" "usable_link d now l" using rowcount_one_ex [OF assms(2)] by blast
  have same: "x = l" if "x \<in> set (magic_links (ap_db st))" "ml_token_hash x = d" for x
    using unique_row [OF assms(1) [unfolded links_keyed_def] that(1) l(1)] that l(2) by (simp add: usable_link_def)
  have "links_keyed st'" using assms(1,3) by (simp add: links_keyed_def consume_link_def map_sql_update)
  moreover have "ml_used_at x \<noteq> None" if "x \<in> set (magic_links (ap_db st'))" "ml_token_hash x = d" for x
  proof -
    from that(1) have "x \<in> set (sql_update (usable_link d now) (ml_used_at_update (\<lambda>_. Some now)) (magic_links (ap_db st)))"
      by (simp add: assms(3) consume_link_def)
    then show ?thesis
      using same l that(2) by (cases rule: in_sql_updateE) auto
  qed
  ultimately show ?thesis by (simp add: link_spent_def)
qed

lemma link_spent_consume:
  assumes "link_spent d st" and "magic_links (ap_db st') = magic_links (snd (consume_link d' now (ap_db st)))"
  shows "link_spent d st'"
proof -
  have "ml_used_at x \<noteq> None" if "x \<in> set (magic_links (ap_db st'))" "ml_token_hash x = d" for x
  proof -
    from that(1) have "x \<in> set (sql_update (usable_link d' now) (ml_used_at_update (\<lambda>_. Some now)) (magic_links (ap_db st)))"
      by (simp add: assms(2) consume_link_def)
    then show ?thesis
      using assms(1) that(2) by (cases rule: in_sql_updateE) (auto simp: link_spent_def)
  qed
  moreover have "links_keyed st'"
    using assms by (simp add: link_spent_def links_keyed_def consume_link_def map_sql_update)
  ultimately show ?thesis by (simp add: link_spent_def)
qed

datatype login_event =
    LinkRequested login_settings http_request string string string magic_link_request
  | SignIn login_settings http_request sign_in_mint magic_link_confirm
  | SignOut login_settings http_request principal
  | WhoAmI "ident list" http_request principal

fun login_step :: "(string \<Rightarrow> string) \<Rightarrow> login_event \<Rightarrow> app \<Rightarrow> app" where
  "login_step sha (LinkRequested lg rq ck token nonce body) st = snd (request_magic_link sha lg rq ck token nonce body st)"
| "login_step sha (SignIn lg rq mint body) st = snd (sign_in_txn sha lg rq mint body st)"
| "login_step sha (SignOut lg rq p) st = st\<lparr>ap_db := snd (logout lg rq p (ap_db st))\<rparr>"
| "login_step sha (WhoAmI evs rq p) st = st\<lparr>ap_db := snd (me sha evs rq p (ap_db st))\<rparr>"

fun mints_link :: "(string \<Rightarrow> string) \<Rightarrow> string \<Rightarrow> login_event \<Rightarrow> bool" where
  "mints_link sha d (LinkRequested lg rq ck token nonce body) = (sha token = d)"
| "mints_link sha d e = False"

lemma request_links:
  assumes "request_magic_link sha lg rq ck token nonce body st = (res, st')"
  shows "magic_links (ap_db st') = magic_links (ap_db st) \<or>
    (\<exists>P l. magic_links (ap_db st') = sql_delete P (magic_links (ap_db st)) @ [l] \<and> ml_token_hash l = sha token \<and>
       sha token \<notin> ml_token_hash ` set (sql_delete P (magic_links (ap_db st))))"
proof -
  obtain refused bs where h: "hit_rules (sv_max_buckets (lg_server lg)) (rq_clock rq)
      [(''magic_ip'', client_ip (rq_host rq), lg_magic_ip_per_min lg),
       (''magic_email'', email_hash sha (mr_email body), lg_magic_email_per_min lg)] (ap_limiter st) = (refused, bs)"
    by fastforce
  show ?thesis
  proof (cases "sv_maintenance (lg_server lg) \<or> \<not> has_secret_key (lg_server lg) \<or> refused \<noteq> None")
    case True
    with assms h show ?thesis by (auto simp: request_magic_link_def split: if_splits)
  next
    case False
    let ?kept = "sql_delete (\<lambda>l. ml_expires_at l < rq_now rq - days 1) (magic_links (ap_db st))"
    let ?l = "\<lparr>ml_token_hash = sha token, ml_email = mr_email body, ml_created_at = rq_now rq,
      ml_expires_at = rq_now rq + minutes (lg_magic_link_ttl_minutes lg), ml_used_at = None,
      ml_nonce_hash = Some (sha (if nonce_re ck then ck else nonce))\<rparr>"
    show ?thesis
    proof (cases "sql_insert ml_token_hash ?l ?kept")
      case None
      with False assms h show ?thesis by (auto simp: request_magic_link_def Let_def)
    next
      case (Some ls)
      with False assms h have "magic_links (ap_db st') = ls" by (auto simp: request_magic_link_def Let_def)
      with sql_insert_Some [OF Some] show ?thesis
        by (intro disjI2 exI [of _ "\<lambda>l. ml_expires_at l < rq_now rq - days 1"] exI [of _ ?l]) simp
    qed
  qed
qed

lemma logout_links: "magic_links (snd (logout lg rq p db)) = magic_links db"
  by (simp add: logout_def with_event_def record_event_def split: option.splits)

lemma me_links: "magic_links (snd (me sha evs rq p db)) = magic_links db"
proof (cases "pr_user p")
  case (Some u)
  obtain added db1 where a: "accept_pending_invitations (rq_now rq) u db = (added, db1)" by fastforce
  then have "magic_links db1 = magic_links db" using accept_links [of "rq_now rq" u db] by simp
  with Some a record_added_links [of sha evs rq u added db1] show ?thesis
    by (cases "record_added sha evs rq u added db1") (simp_all add: me_def)
qed (simp add: me_def Let_def)

lemma link_spent_step:
  assumes spent: "link_spent d st" and fresh: "\<not> mints_link sha d e"
  shows "link_spent d (login_step sha e st)"
proof (cases e)
  case (LinkRequested lg rq ck token nonce body)
  obtain res st' where eq: "request_magic_link sha lg rq ck token nonce body st = (res, st')" by fastforce
  from request_links [OF eq] show ?thesis
  proof
    assume "magic_links (ap_db st') = magic_links (ap_db st)"
    from link_spent_cong [OF this] eq spent LinkRequested show ?thesis by simp
  next
    assume "\<exists>P l. magic_links (ap_db st') = sql_delete P (magic_links (ap_db st)) @ [l] \<and> ml_token_hash l = sha token \<and>
       sha token \<notin> ml_token_hash ` set (sql_delete P (magic_links (ap_db st)))"
    then obtain P l where "magic_links (ap_db st') = sql_delete P (magic_links (ap_db st)) @ [l]" "ml_token_hash l = sha token"
      "sha token \<notin> ml_token_hash ` set (sql_delete P (magic_links (ap_db st)))" by blast
    with spent fresh LinkRequested eq show ?thesis
      by (auto simp: link_spent_def links_keyed_def distinct_sql_delete table_simps)
  qed
next
  case (SignIn lg rq mint body)
  obtain res st' where eq: "sign_in_txn sha lg rq mint body st = (res, st')" by fastforce
  show ?thesis
  proof (cases res)
    case (Inl x)
    with eq SignIn link_spent_cong [of st' st d] spent show ?thesis by (simp add: sign_in_txn_Inl)
  next
    case (Inr r)
    obtain out s where r: "r = (out, s)" by fastforce
    from eq Inr r have "sign_in_txn sha lg rq mint body st = (Inr (out, s), st')" by simp
    then have "magic_links (ap_db st') = magic_links (snd (consume_link (sha (mc_token body)) (rq_now rq) (ap_db st)))"
      by (rule sign_in_txn_Inr)
    from link_spent_consume [OF spent this] eq SignIn show ?thesis by simp
  qed
next
  case (SignOut lg rq p)
  with spent link_spent_cong [of "login_step sha e st" st d] show ?thesis by (simp add: logout_links)
next
  case (WhoAmI evs rq p)
  with spent link_spent_cong [of "login_step sha e st" st d] show ?thesis by (simp add: me_links)
qed

text \<open>Runs that do not mint the token again.\<close>

definition other_link_step :: "(string \<Rightarrow> string) \<Rightarrow> string \<Rightarrow> login_event \<Rightarrow> app \<Rightarrow> app" where
  "other_link_step sha d e st = (if mints_link sha d e then st else login_step sha e st)"

interpretation spent_links: machine "other_link_step sha d" "link_spent d" for sha d
  by unfold_locales (simp add: other_link_step_def link_spent_step)

lemma fold_other_link_step:
  "\<forall>e \<in> set es. \<not> mints_link sha d e \<Longrightarrow> fold (login_step sha) es st = fold (other_link_step sha d) es st"
  by (induction es arbitrary: st) (auto simp: other_link_step_def)

lemma spent_link_refused:
  assumes "link_spent (sha (mc_token body)) st"
  shows "fst (sign_in_txn sha lg rq mint body st) \<noteq> Inr r"
proof
  assume "fst (sign_in_txn sha lg rq mint body st) = Inr r"
  then obtain out s st' where "sign_in_txn sha lg rq mint body st = (Inr (out, s), st')"
    by (metis prod.collapse)
  then have "rowcount (usable_link (sha (mc_token body)) (rq_now rq)) (magic_links (ap_db st)) = 1"
    by (rule sign_in_txn_Inr)
  from rowcount_one_ex [OF this] assms show False by (auto simp: usable_link_def link_spent_def)
qed

section \<open>Properties\<close>

text \<open>C14. A magic link signs in at most once: after one successful exchange, no exchange of a token with the same
  hash succeeds, after any sequence of requests for other links, exchanges, sign-outs and \<open>/me\<close> calls, with any
  browser, confirmation and clock; two exchanges that both passed the first read included.\<close>

theorem link_signs_in_once:
  assumes keyed: "links_keyed st" and ok: "sign_in_txn sha lg rq mint body st = (Inr r, st1)"
    and fresh: "\<forall>e \<in> set es. \<not> mints_link sha (sha (mc_token body)) e"
    and same: "sha (mc_token body') = sha (mc_token body)"
  shows "fst (sign_in_txn sha lg' rq' mint' body' (fold (login_step sha) es st1)) \<noteq> Inr r'"
proof -
  obtain out s where "r = (out, s)" by fastforce
  with ok have ok': "sign_in_txn sha lg rq mint body st = (Inr (out, s), st1)" by simp
  then have "link_spent (sha (mc_token body)) st1"
    by (rule sign_in_txn_Inr) (rule consume_spends [OF keyed])
  from spent_links.run_inv [OF this, of sha es] have "link_spent (sha (mc_token body')) (fold (login_step sha) es st1)"
    using fold_other_link_step [OF fresh] same by simp
  then show ?thesis by (rule spent_link_refused)
qed

lemma memberships_of_set:
  "set (memberships_of k db) = {(m, og). m \<in> set (memberships db) \<and> m_user m = k \<and> get_org (m_org m) db = Some og}"
  by (force simp: memberships_of_def List.map_filter_def)

lemma bound_to_own:
  assumes "set rows = {(m, og). m \<in> set (memberships db) \<and> m_user m = k \<and> get_org (m_org m) db = Some og}"
    and "org_id = (case rows of [] \<Rightarrow> None | (m, og) # _ \<Rightarrow> Some (o_id og))"
  shows "case org_id of
       None \<Rightarrow> \<not> (\<exists>m \<in> set (memberships db). m_user m = k \<and> get_org (m_org m) db \<noteq> None)
     | Some i \<Rightarrow> \<exists>m \<in> set (memberships db). m_user m = k \<and> m_org m = i"
proof (cases rows)
  case Nil
  with assms show ?thesis by auto
next
  case (Cons r rest)
  obtain m og where r: "r = (m, og)" by fastforce
  with Cons assms(1) have "(m, og) \<in> {(m, og). m \<in> set (memberships db) \<and> m_user m = k \<and> get_org (m_org m) db = Some og}"
    by (metis list.set_intros(1))
  then have "m \<in> set (memberships db)" "m_user m = k" "o_id og = m_org m" by (auto simp: get_org_def dest: sql_first_Some)
  with assms(2) Cons r show ?thesis by auto
qed

text \<open>C15. Who gets a session: an exchange that succeeds, whatever other requests committed in between, started from
  an unused, unexpired link with the token's hash that either this browser asked for (its nonce cookie hashes to
  the link's) or whose use here was confirmed; the session belongs to the user with the address of a link with that
  hash, lives for the configured time, is bound to an organization the user is a member of if there is one and to none otherwise, and its
  signed cookie is what the browser gets; the answer lists the user's memberships with their organizations, and nothing else.\<close>

theorem sign_in_sound:
  assumes ok: "verify_magic_link meanwhile sha mac lg rq ck mint body st = (Inr (out, cookies), st')"
  shows "\<exists>l \<in> set (magic_links (ap_db st)). usable_link (sha (mc_token body)) (rq_now rq) l \<and>
      (same_browser sha ck l \<or> mc_confirm body) \<and>
    (\<exists>l' \<in> set (magic_links (ap_db (meanwhile st))). usable_link (sha (mc_token body)) (rq_now rq) l') \<and>
    (\<exists>s \<in> set (sessions (ap_db st')). s_id s = sm_session_id mint \<and> s_user s = u_id (so_user out) \<and>
       so_user out \<in> set (users (ap_db st')) \<and> s_expires_at s = rq_now rq + hours (lg_session_ttl_hours lg) \<and>
       (\<exists>l'' \<in> set (magic_links (ap_db st')). ml_token_hash l'' = sha (mc_token body) \<and>
          u_email (so_user out) = normalize_email (ml_email l'')) \<and>
       s_org s = (case so_orgs out of [] \<Rightarrow> None | (m, og) # _ \<Rightarrow> Some (o_id og)) \<and>
       set (so_orgs out) = {(m, og). m \<in> set (memberships (ap_db st')) \<and> m_user m = u_id (so_user out) \<and>
         get_org (m_org m) (ap_db st') = Some og} \<and>
       (case s_org s of
          None \<Rightarrow> \<not> (\<exists>m \<in> set (memberships (ap_db st')). m_user m = u_id (so_user out) \<and> get_org (m_org m) (ap_db st') \<noteq> None)
        | Some k \<Rightarrow> \<exists>m \<in> set (memberships (ap_db st')). m_user m = u_id (so_user out) \<and> m_org m = k) \<and>
       cookies = set_session_cookies mac lg s @ [delete_cookie lg (ml_cookie_name lg) True])"
proof -
  obtain res st1 where chk: "check_link sha lg rq ck body st = (res, st1)" by fastforce
  with ok obtain l where l: "res = Inr l" by (cases res) (auto simp: verify_magic_link_def)
  with chk have st1: "st1 = st" and first: "sql_first (usable_link (sha (mc_token body)) (rq_now rq)) (magic_links (ap_db st)) = Some l"
    and br: "same_browser sha ck l \<or> mc_confirm body"
    by (auto simp: check_link_def split: if_splits option.splits)
  obtain res2 st2 where txn: "sign_in_txn sha lg rq mint body (meanwhile st) = (res2, st2)" by fastforce
  with ok chk l st1 obtain s where s: "res2 = Inr (out, s)"
    "cookies = set_session_cookies mac lg s @ [delete_cookie lg (ml_cookie_name lg) True]" "st' = st2"
    by (cases res2) (auto simp: verify_magic_link_def)
  from txn s have txn': "sign_in_txn sha lg rq mint body (meanwhile st) = (Inr (out, s), st')" by simp
  from txn' show ?thesis
  proof (rule sign_in_txn_Inr)
    fix link u created db2 added db3
    assume one: "rowcount (usable_link (sha (mc_token body)) (rq_now rq)) (magic_links (ap_db (meanwhile st))) = 1"
      and link: "sql_first (\<lambda>l. ml_token_hash l = sha (mc_token body))
       (magic_links (snd (consume_link (sha (mc_token body)) (rq_now rq) (ap_db (meanwhile st))))) = Some link"
      and u: "get_or_create_user (sm_user_id mint) (rq_now rq) (ml_email link) ''pl''
       (snd (consume_link (sha (mc_token body)) (rq_now rq) (ap_db (meanwhile st)))) = Inr ((u, created), db2)"
      and acc: "accept_pending_invitations (rq_now rq) u db2 = (added, db3)"
      and sess: "s = sign_in_session lg rq mint u (memberships_of (u_id u) db3)"
      and out: "so_user out = u" "so_orgs out = memberships_of (u_id u) db3"
      and tabs: "sessions (ap_db st') = sessions db3 @ [s]" "users (ap_db st') = users db3"
        "magic_links (ap_db st') = magic_links (snd (consume_link (sha (mc_token body)) (rq_now rq) (ap_db (meanwhile st))))"
        "orgs (ap_db st') = orgs db3" "memberships (ap_db st') = memberships db3"
    have own: "set (so_orgs out) = {(m, og). m \<in> set (memberships (ap_db st')) \<and> m_user m = u_id (so_user out) \<and>
         get_org (m_org m) (ap_db st') = Some og}"
      by (simp add: out memberships_of_set tabs get_org_def)
    have bound: "s_org s = (case so_orgs out of [] \<Rightarrow> None | (m, og) # _ \<Rightarrow> Some (o_id og))"
      by (simp add: sess out sign_in_session_def)
    from bound_to_own [OF own bound] bound own
    have orgs: "s_org s = (case so_orgs out of [] \<Rightarrow> None | (m, og) # _ \<Rightarrow> Some (o_id og)) \<and>
       set (so_orgs out) = {(m, og). m \<in> set (memberships (ap_db st')) \<and> m_user m = u_id (so_user out) \<and>
         get_org (m_org m) (ap_db st') = Some og} \<and>
       (case s_org s of
          None \<Rightarrow> \<not> (\<exists>m \<in> set (memberships (ap_db st')). m_user m = u_id (so_user out) \<and> get_org (m_org m) (ap_db st') \<noteq> None)
        | Some k \<Rightarrow> \<exists>m \<in> set (memberships (ap_db st')). m_user m = u_id (so_user out) \<and> m_org m = k)" by blast
    from u have "u \<in> set (users db2)" "u_email u = normalize_email (ml_email link)"
      by (auto simp: get_or_create_user_def Let_def sql_insert_def split: option.splits if_splits dest: sql_first_Some)
    moreover have "users db3 = users db2"
      using acc by (auto simp: accept_pending_invitations_def Let_def case_prod_beta)
    moreover have "link \<in> set (magic_links (ap_db st'))" "ml_token_hash link = sha (mc_token body)"
      using sql_first_Some [OF link] tabs by simp_all
    moreover have "s \<in> set (sessions (ap_db st'))" using tabs by simp
    ultimately show ?thesis
      using sql_first_Some [OF first] br rowcount_one_ex [OF one] s(2) sess out tabs orgs
      by (intro bexI [where A = "set (magic_links (ap_db st))" and x = l] conjI
          bexI [where A = "set (sessions (ap_db st'))" and x = s]
          bexI [where A = "set (magic_links (ap_db st'))" and x = link])
        (simp_all add: sign_in_session_def)
  qed
qed

text \<open>A link opened in another browser is not consumed: the answer asks for confirmation, gives only the first
  character of the address and its domain, and changes nothing; the browser that asked for the link, or this one
  with a confirmation, can still exchange it.\<close>

theorem other_browser_keeps_link:
  assumes ask: "verify_magic_link meanwhile sha mac lg rq ck mint body st = (Inl (ConfirmRequired hint), st')"
  shows "st' = st \<and> \<not> mc_confirm body \<and>
    (\<exists>l \<in> set (magic_links (ap_db st)). usable_link (sha (mc_token body)) (rq_now rq) l \<and> \<not> same_browser sha ck l \<and>
       hint = mask_email (ml_email l) \<and>
       check_link sha lg rq ck (body\<lparr>mc_confirm := True\<rparr>) st = (Inr l, st) \<and>
       (\<forall>ck'. same_browser sha ck' l \<longrightarrow> check_link sha lg rq ck' body st = (Inr l, st)))"
proof -
  have txn: "fst (sign_in_txn sha lg rq mint body x) \<noteq> Inl (ConfirmRequired hint)" for x
    by (simp add: sign_in_txn_def invalid_link_def Let_def case_prod_beta split: option.splits sum.splits)
  obtain res st1 where chk: "check_link sha lg rq ck body st = (res, st1)" by fastforce
  obtain res2 st2 where t: "sign_in_txn sha lg rq mint body (meanwhile st1) = (res2, st2)" by fastforce
  with txn [of "meanwhile st1"] have "res2 \<noteq> Inl (ConfirmRequired hint)" by simp
  with ask chk t have res: "res = Inl (ConfirmRequired hint)" "st' = st1"
    by (cases res; cases res2; auto simp: verify_magic_link_def)+
  have key: "has_secret_key (lg_server lg)"
    using chk res by (auto simp: check_link_def split: if_splits)
  obtain l where l: "sql_first (usable_link (sha (mc_token body)) (rq_now rq)) (magic_links (ap_db st)) = Some l"
    using chk res key by (cases "sql_first (usable_link (sha (mc_token body)) (rq_now rq)) (magic_links (ap_db st))")
      (auto simp: check_link_def)
  with chk res key have *: "\<not> same_browser sha ck l" "\<not> mc_confirm body" "hint = mask_email (ml_email l)" "st1 = st"
    by (auto simp: check_link_def split: if_splits)
  with l key res(2) show ?thesis
    by (intro conjI bexI [of _ l]) (auto simp: check_link_def dest: sql_first_Some)
qed

text \<open>Signing out ends the session: from then on no cookie authenticates as that session.\<close>

theorem logout_ends_session:
  assumes ok: "logout lg rq p db = (Inr cookies, db')" and st: "ap_db st = db'"
    and auth: "fst (authenticate_session mac sv rq' cookie st) = Inr p'"
  shows "\<exists>s s'. pr_session p = Some s \<and> pr_session p' = Some s' \<and> s_id s' \<noteq> s_id s"
proof -
  from ok obtain s u where p: "pr_session p = Some s" "pr_user p = Some u"
    by (auto simp: logout_def split: option.splits)
  have known: "''auth.logout'' \<in> set AUDIT_ACTIONS_V1" by (simp add: AUDIT_ACTIONS_V1_def)
  from ok p have sess: "sessions db' = sql_delete (\<lambda>x. s_id x = s_id s) (sessions db)"
    by (auto simp: logout_def record_event_known [OF known])
  from auth obtain sid s' where s': "get_session sid (ap_db st) = Some s'" "pr_session p' = Some s'"
    by (auto simp: authenticate_session_def unauthorized_Inl user_principal_def split: option.splits if_splits)
  from sql_first_Some(1) [OF s'(1) [unfolded get_session_def]] st sess have "s_id s' \<noteq> s_id s"
    by (simp add: table_simps)
  with p s' show ?thesis by blast
qed

section \<open>Concrete inputs\<close>

definition demo_login :: login_settings where
  "demo_login = \<lparr>lg_server = demo_server\<lparr>sv_secret_key := Some (replicate 32 (CHR ''s''))\<rparr>, lg_cookie_secure = True,
     lg_magic_ip_per_min = 10, lg_magic_email_per_min = 3, lg_magic_link_ttl_minutes = 15, lg_session_ttl_hours = 12\<rparr>"
definition demo_link :: magic_link where
  "demo_link = \<lparr>ml_token_hash = ''tok'', ml_email = ''u@x'', ml_created_at = 0, ml_expires_at = 9, ml_used_at = None,
     ml_nonce_hash = Some ''nonce''\<rparr>"
definition demo_link_app :: app where
  "demo_link_app = demo_app\<lparr>ap_db := (ap_db demo_app)\<lparr>magic_links := [demo_link]\<rparr>\<rparr>"
definition demo_mint :: sign_in_mint where
  "demo_mint = \<lparr>sm_user_id = ''w'', sm_session_id = ''sid2'', sm_csrf_token = ''c2'', sm_events = [''e'']\<rparr>"
definition demo_confirm :: magic_link_confirm where
  "demo_confirm = \<lparr>mc_token = ''tok'', mc_confirm = False\<rparr>"

lemma demo_email: "normalize_email ''u@x'' = ''u@x''" "mask_email ''u@x'' = ''u***@x''"
  by code_simp+

lemma demo_secret: "has_secret_key (lg_server demo_login)"
  by code_simp

lemma demo_sign_in: "\<exists>r st1. sign_in_txn (\<lambda>s. s) demo_login demo_request demo_mint demo_confirm demo_link_app = (Inr r, st1)"
proof -
  have "''auth.login'' \<in> set AUDIT_ACTIONS_V1" by (simp add: AUDIT_ACTIONS_V1_def)
  then show ?thesis
    by (simp add: sign_in_txn_def demo_link_app_def demo_app_defs demo_link_def demo_confirm_def consume_link_def
        usable_link_def sql_first_def get_or_create_user_def Let_def demo_email accept_pending_invitations_def
        sql_insert_def sign_in_session_def demo_mint_def record_event_known)
qed

lemma demo_keyed: "links_keyed demo_link_app"
  by (simp add: links_keyed_def demo_link_app_def)

theorem link_signs_in_once_witness:
  "\<exists>r st1. sign_in_txn (\<lambda>s. s) demo_login demo_request demo_mint demo_confirm demo_link_app = (Inr r, st1) \<and>
     (\<forall>r'. fst (sign_in_txn (\<lambda>s. s) demo_login demo_request demo_mint demo_confirm
        (fold (login_step (\<lambda>s. s)) [WhoAmI [] demo_request (user_principal demo_owner demo_session)] st1)) \<noteq> Inr r')"
proof -
  obtain r st1 where ok: "sign_in_txn (\<lambda>s. s) demo_login demo_request demo_mint demo_confirm demo_link_app = (Inr r, st1)"
    using demo_sign_in by blast
  have "fst (sign_in_txn (\<lambda>s. s) demo_login demo_request demo_mint demo_confirm
        (fold (login_step (\<lambda>s. s)) [WhoAmI [] demo_request (user_principal demo_owner demo_session)] st1)) \<noteq> Inr r'" for r'
    by (rule link_signs_in_once [OF demo_keyed ok]) simp_all
  with ok show ?thesis by blast
qed

lemma demo_check: "check_link (\<lambda>s. s) demo_login demo_request ck demo_confirm demo_link_app =
    (if ck = ''nonce'' then (Inr demo_link, demo_link_app) else (Inl (ConfirmRequired ''u***@x''), demo_link_app))"
  by (simp add: check_link_def demo_secret demo_confirm_def demo_link_app_def sql_first_def usable_link_def demo_link_def
      demo_request_def same_browser_def demo_email)

theorem sign_in_sound_witness:
  "\<exists>out cookies st'. verify_magic_link (\<lambda>a. a) (\<lambda>s. s) (\<lambda>k m. []) demo_login demo_request ''nonce'' demo_mint demo_confirm
      demo_link_app = (Inr (out, cookies), st') \<and>
     (\<exists>s \<in> set (sessions (ap_db st')). s_id s = ''sid2'' \<and> s_user s = u_id (so_user out))"
proof -
  obtain out s st1 where "sign_in_txn (\<lambda>s. s) demo_login demo_request demo_mint demo_confirm demo_link_app = (Inr (out, s), st1)"
    using demo_sign_in by fastforce
  then obtain cookies where ok: "verify_magic_link (\<lambda>a. a) (\<lambda>s. s) (\<lambda>k m. []) demo_login demo_request ''nonce'' demo_mint
      demo_confirm demo_link_app = (Inr (out, cookies), st1)"
    by (simp add: verify_magic_link_def demo_check)
  have "sm_session_id demo_mint = ''sid2''" by (simp add: demo_mint_def)
  with sign_in_sound [OF ok] ok show ?thesis by (metis (no_types, lifting))
qed

theorem other_browser_keeps_link_witness:
  "verify_magic_link (\<lambda>a. a) (\<lambda>s. s) (\<lambda>k m. []) demo_login demo_request ''other'' demo_mint demo_confirm demo_link_app
     = (Inl (ConfirmRequired ''u***@x''), demo_link_app) \<and> \<not> mc_confirm demo_confirm"
proof -
  have ask: "verify_magic_link (\<lambda>a. a) (\<lambda>s. s) (\<lambda>k m. []) demo_login demo_request ''other'' demo_mint demo_confirm
      demo_link_app = (Inl (ConfirmRequired ''u***@x''), demo_link_app)"
    by (simp add: verify_magic_link_def demo_check)
  with other_browser_keeps_link [OF ask] show ?thesis by blast
qed

definition demo_second :: session where "demo_second = demo_session\<lparr>s_id := ''sid2''\<rparr>"

theorem logout_ends_session_witness:
  "\<exists>cookies db' p'. logout demo_login demo_request (user_principal demo_owner demo_session)
       (ap_db demo_app\<lparr>sessions := [demo_session, demo_second]\<rparr>) = (Inr cookies, db') \<and>
     fst (authenticate_session (\<lambda>k m. []) demo_server demo_request (sign_session_id (\<lambda>k m. []) ''sid2'' ''s'')
       (demo_app\<lparr>ap_db := db'\<rparr>)) = Inr p' \<and> s_id (the (pr_session p')) \<noteq> s_id demo_session"
proof -
  have known: "''auth.logout'' \<in> set AUDIT_ACTIONS_V1" by (simp add: AUDIT_ACTIONS_V1_def)
  then obtain cookies db' where ok: "logout demo_login demo_request (user_principal demo_owner demo_session)
      (ap_db demo_app\<lparr>sessions := [demo_session, demo_second]\<rparr>) = (Inr cookies, db')"
    and db': "sessions db' = [demo_second]" "users db' = [demo_owner]"
    by (simp add: logout_def user_principal_def record_event_known [OF known] demo_second_def demo_session_def
        sql_delete_def demo_app_def)
  have "unsign_session_cookie (\<lambda>k m. []) (Some (sign_session_id (\<lambda>k m. []) ''sid2'' ''s'')) (Some ''s'') = Some ''sid2''"
    by (rule cookies.unsign_sign) simp
  with db' have auth: "fst (authenticate_session (\<lambda>k m. []) demo_server demo_request (sign_session_id (\<lambda>k m. []) ''sid2'' ''s'')
      (demo_app\<lparr>ap_db := db'\<rparr>)) = Inr (user_principal demo_owner demo_second)"
    by (simp add: authenticate_session_def demo_server_def demo_request_def demo_second_def demo_session_def
        demo_owner_def get_session_def get_user_def sql_first_def SAFE_METHODS_def)
  from logout_ends_session [OF ok _ auth] have "s_id demo_second \<noteq> s_id demo_session"
    by (auto simp: user_principal_def)
  with ok auth show ?thesis by (intro exI [of _ cookies] exI [of _ db'] exI [of _ "user_principal demo_owner demo_second"])
    (simp add: user_principal_def)
qed

end
