(* ===== verification/Tenancy.thy ===== *)
theory Tenancy
  imports Login
begin

text \<open>
  Directories of tenants and the registry of their runners (\<^verbatim>\<open>app/control/tenancy.py\<close>). A path is the list of
  its components; \<open>resolve\<close> is what the file system makes of a path (symbolic links, dots). A runner is any
  value: the registry never looks inside. Lock objects are numbered in the order they are created.
\<close>

section \<open>Paths\<close>

type_synonym path = "string list"

text \<open>\<open>^[A-Za-z0-9][A-Za-z0-9_-]{0,63}$\<close>; the \<open>$\<close> also matches before a final newline.\<close>

definition org_id_text :: "string \<Rightarrow> bool" where
  "org_id_text s = (case s of [] \<Rightarrow> False | c # cs \<Rightarrow> is_ascii_alnum c \<and> list_all is_urlsafe cs \<and> length cs \<le> 63)"

definition org_id_pattern :: "string \<Rightarrow> bool" where
  "org_id_pattern s = (org_id_text s \<or> (s \<noteq> [] \<and> last s = CHR 10 \<and> org_id_text (butlast s)))"

record tenant_paths =
  tp_org_id :: ident
  tp_root :: path

definition for_org :: "(path \<Rightarrow> path) \<Rightarrow> path \<Rightarrow> ident \<Rightarrow> exc + tenant_paths" where
  "for_org resolve tenants_root org_id =
     (if \<not> org_id_pattern org_id then Inl (PyRaise ''InvalidOrgId'')
      else
        let base = resolve tenants_root; root = resolve (base @ [org_id])
        in if root = base \<or> \<not> prefix base root then Inl (PyRaise ''InvalidOrgId'')
           else Inr \<lparr>tp_org_id = org_id, tp_root = root\<rparr>)"

definition tp_duckdb :: "tenant_paths \<Rightarrow> path" where "tp_duckdb p = tp_root p @ [''daas.duckdb'']"
definition tp_uploads :: "tenant_paths \<Rightarrow> path" where "tp_uploads p = tp_root p @ [''uploads'']"
definition tp_reports :: "tenant_paths \<Rightarrow> path" where "tp_reports p = tp_root p @ [''reports'']"
definition tp_audit_log :: "tenant_paths \<Rightarrow> path" where "tp_audit_log p = tp_root p @ [''audit.jsonl'']"

definition path_contains :: "(path \<Rightarrow> path) \<Rightarrow> tenant_paths \<Rightarrow> path \<Rightarrow> bool" where
  "path_contains resolve p candidate = prefix (resolve (tp_uploads p)) (resolve candidate)"

section \<open>The registry\<close>

record 'r entry =
  en_runner :: 'r
  en_llm :: "bool option"

record 'r registry =
  rg_max_active :: nat
  rg_entries :: "(ident \<times> 'r entry) list"
  rg_locks :: "(ident \<times> nat) list"
  rg_in_use :: "(ident \<times> int) list"
  rg_evictions :: nat
  rg_new_lock :: nat

definition new_registry :: "nat \<Rightarrow> 'r registry" where
  "new_registry max_active = \<lparr>rg_max_active = max_active, rg_entries = [], rg_locks = [], rg_in_use = [],
     rg_evictions = 0, rg_new_lock = 0\<rparr>"

definition without :: "'k \<Rightarrow> ('k \<times> 'v) list \<Rightarrow> ('k \<times> 'v) list" where
  "without k es = filter (\<lambda>e. fst e \<noteq> k) es"

text \<open>\<open>d[k] = v\<close> followed by \<open>d.move_to_end(k)\<close> on an \<open>OrderedDict\<close>.\<close>

definition put_last :: "'k \<Rightarrow> 'v \<Rightarrow> ('k \<times> 'v) list \<Rightarrow> ('k \<times> 'v) list" where
  "put_last k v es = without k es @ [(k, v)]"

definition in_use :: "'r registry \<Rightarrow> ident \<Rightarrow> int" where
  "in_use rg org_id = (case map_of (rg_in_use rg) org_id of None \<Rightarrow> 0 | Some n \<Rightarrow> n)"

text \<open>The loop of \<open>_evict_over_limit\<close> over the keys as they were when it began.\<close>

fun evict_loop ::
  "(ident \<Rightarrow> bool) \<Rightarrow> nat \<Rightarrow> ident list \<Rightarrow> (ident \<times> 'e) list \<times> nat \<Rightarrow> (ident \<times> 'e) list \<times> nat" where
  "evict_loop spared max_active [] (es, n) = (es, n)"
| "evict_loop spared max_active (k # ks) (es, n) =
     (if length es \<le> max_active then (es, n)
      else if spared k then evict_loop spared max_active ks (es, n)
      else evict_loop spared max_active ks (without k es, n + 1))"

definition evict_over_limit :: "ident \<Rightarrow> 'r registry \<Rightarrow> 'r registry" where
  "evict_over_limit keep rg =
     (let (es, n) = evict_loop (\<lambda>k. k = keep \<or> in_use rg k > 0) (rg_max_active rg) (map fst (rg_entries rg))
            (rg_entries rg, rg_evictions rg)
      in rg\<lparr>rg_entries := es, rg_evictions := n\<rparr>)"

text \<open>\<open>get\<close>: the runner built when there is none to reuse is the argument \<open>new_runner\<close>.\<close>

definition registry_get ::
  "(path \<Rightarrow> path) \<Rightarrow> path \<Rightarrow> 'r \<Rightarrow> ident \<Rightarrow> bool option \<Rightarrow> 'r registry \<Rightarrow> (exc + 'r) \<times> 'r registry" where
  "registry_get resolve tenants_root new_runner org_id llm rg =
     (case for_org resolve tenants_root org_id of
        Inl e \<Rightarrow> (Inl e, rg)
      | Inr paths \<Rightarrow>
          (case map_of (rg_entries rg) org_id of
             Some entry \<Rightarrow>
               if llm = None \<or> en_llm entry = llm
               then (Inr (en_runner entry), rg\<lparr>rg_entries := put_last org_id entry (rg_entries rg)\<rparr>)
               else (Inr new_runner, evict_over_limit org_id
                  (rg\<lparr>rg_entries := put_last org_id \<lparr>en_runner = new_runner, en_llm = llm\<rparr> (rg_entries rg)\<rparr>))
           | None \<Rightarrow> (Inr new_runner, evict_over_limit org_id
                  (rg\<lparr>rg_entries := put_last org_id \<lparr>en_runner = new_runner, en_llm = llm\<rparr> (rg_entries rg)\<rparr>))))"

definition registry_evict :: "ident \<Rightarrow> 'r registry \<Rightarrow> 'r registry" where
  "registry_evict org_id rg = (if in_use rg org_id = 0 then rg\<lparr>rg_entries := without org_id (rg_entries rg)\<rparr> else rg)"

definition registry_active :: "'r registry \<Rightarrow> ident list" where
  "registry_active rg = map fst (rg_entries rg)"

definition mark_in_use :: "ident \<Rightarrow> 'r registry \<Rightarrow> 'r registry" where
  "mark_in_use org_id rg = rg\<lparr>rg_in_use := put_last org_id (in_use rg org_id + 1) (rg_in_use rg)\<rparr>"

definition release_use :: "ident \<Rightarrow> 'r registry \<Rightarrow> 'r registry" where
  "release_use org_id rg = rg\<lparr>rg_in_use := put_last org_id (max 0 (in_use rg org_id - 1)) (rg_in_use rg)\<rparr>"

definition close_all :: "'r registry \<Rightarrow> 'r registry" where
  "close_all rg = rg\<lparr>rg_entries := []\<rparr>"

definition registry_lock :: "ident \<Rightarrow> 'r registry \<Rightarrow> nat \<times> 'r registry" where
  "registry_lock org_id rg =
     (case map_of (rg_locks rg) org_id of
        Some l \<Rightarrow> (l, rg)
      | None \<Rightarrow> (rg_new_lock rg, rg\<lparr>rg_locks := rg_locks rg @ [(org_id, rg_new_lock rg)],
                    rg_new_lock := rg_new_lock rg + 1\<rparr>))"

definition registry_forget :: "ident \<Rightarrow> 'r registry \<Rightarrow> 'r registry" where
  "registry_forget org_id rg = rg\<lparr>rg_entries := without org_id (rg_entries rg),
     rg_locks := without org_id (rg_locks rg), rg_in_use := without org_id (rg_in_use rg)\<rparr>"

section \<open>Lookups\<close>

lemma map_of_without [simp]: "map_of (without k es) x = (if x = k then None else map_of es x)"
  by (induction es) (auto simp: without_def)

lemma map_of_put_last [simp]: "map_of (put_last k v es) x = (if x = k then Some v else map_of es x)"
  by (simp add: put_last_def map_add_def split: option.splits)

lemma fst_without: "map fst (without k es) = filter (\<lambda>x. x \<noteq> k) (map fst es)"
  by (induction es) (auto simp: without_def)

lemma distinct_without: "distinct (map fst es) \<Longrightarrow> distinct (map fst (without k es))"
  by (simp add: fst_without)

lemma distinct_put_last: "distinct (map fst es) \<Longrightarrow> distinct (map fst (put_last k v es))"
  by (simp add: put_last_def fst_without)

lemma without_absent: "k \<notin> fst ` set es \<Longrightarrow> without k es = es"
  by (induction es) (auto simp: without_def)

lemma evict_loop_keeps:
  "spared k \<Longrightarrow> map_of (fst (evict_loop spared mx ks (es, n))) k = map_of es k"
  by (induction ks arbitrary: es n) auto

lemma evict_loop_sub: "distinct (map fst es) \<Longrightarrow> distinct (map fst (fst (evict_loop spared mx ks (es, n)))) \<and>
    set (fst (evict_loop spared mx ks (es, n))) \<subseteq> set es"
proof (induction ks arbitrary: es n)
  case (Cons k ks)
  have "set (without k es) \<subseteq> set es" by (auto simp: without_def)
  with Cons.IH [OF distinct_without [OF Cons.prems, of k], of "n + 1"] Cons.IH [OF Cons.prems, of n] Cons.prems
  show ?case by auto
qed simp

lemma length_without: "distinct (map fst es) \<Longrightarrow> k \<in> fst ` set es \<Longrightarrow> length es = Suc (length (without k es))"
proof (induction es)
  case (Cons e es)
  show ?case
  proof (cases "fst e = k")
    case True
    with Cons.prems(1) have "k \<notin> fst ` set es" by auto
    from without_absent [OF this] True show ?thesis by (simp add: without_def)
  next
    case False
    with Cons show ?thesis by (auto simp: without_def)
  qed
qed simp

text \<open>After the loop the table fits, or only spared entries are left; it never removes more than needed.\<close>

lemma evict_loop_fits:
  "distinct (map fst es) \<Longrightarrow> fst ` set es - set ks \<subseteq> {k. spared k} \<Longrightarrow>
   length (fst (evict_loop spared mx ks (es, n))) \<le> mx \<or>
   (\<forall>k \<in> fst ` set (fst (evict_loop spared mx ks (es, n))). spared k)"
proof (induction ks arbitrary: es n)
  case (Cons k ks)
  have "fst ` set (without k es) - set ks \<subseteq> {k. spared k}" using Cons.prems(2) by (auto simp: without_def)
  with Cons.IH [OF distinct_without [OF Cons.prems(1), of k], of "n + 1"] Cons.IH [OF Cons.prems(1), of n] Cons.prems(2)
  show ?case by auto
qed auto

lemma evict_loop_min:
  "distinct (map fst es) \<Longrightarrow> min mx (length es) \<le> length (fst (evict_loop spared mx ks (es, n)))"
proof (induction ks arbitrary: es n)
  case (Cons k ks)
  have "length es \<le> Suc (length (without k es))"
    using length_without [OF Cons.prems, of k] without_absent [of k es] by (cases "k \<in> fst ` set es") simp_all
  with Cons.IH [OF distinct_without [OF Cons.prems, of k], of "n + 1"] Cons.IH [OF Cons.prems, of n] show ?case by auto
qed simp

section \<open>A tenant in use keeps its runner\<close>

datatype 'r registry_event =
    Get 'r ident "bool option" | Evict ident | MarkInUse ident | Release ident | CloseAll | Lock ident | Forget ident

fun registry_step :: "(path \<Rightarrow> path) \<Rightarrow> path \<Rightarrow> 'r registry_event \<Rightarrow> 'r registry \<Rightarrow> 'r registry" where
  "registry_step resolve base (Get r k llm) rg = snd (registry_get resolve base r k llm rg)"
| "registry_step resolve base (Evict k) rg = registry_evict k rg"
| "registry_step resolve base (MarkInUse k) rg = mark_in_use k rg"
| "registry_step resolve base (Release k) rg = release_use k rg"
| "registry_step resolve base CloseAll rg = close_all rg"
| "registry_step resolve base (Lock k) rg = snd (registry_lock k rg)"
| "registry_step resolve base (Forget k) rg = registry_forget k rg"

text \<open>The events that may take the runner \<open>e\<close> of \<open>og\<close> away: its last user leaving, a request for the other
  setting of summaries, closing, forgetting.\<close>

fun disturbs :: "ident \<Rightarrow> bool option \<Rightarrow> 'r registry_event \<Rightarrow> bool" where
  "disturbs og llm (Get r k l) = (k = og \<and> l \<noteq> None \<and> l \<noteq> llm)"
| "disturbs og llm (Release k) = (k = og)"
| "disturbs og llm CloseAll = True"
| "disturbs og llm (Forget k) = (k = og)"
| "disturbs og llm e = False"

definition registry_inv :: "'r registry \<Rightarrow> bool" where
  "registry_inv rg = (distinct (map fst (rg_entries rg)) \<and> (\<forall>k. 0 \<le> in_use rg k))"

definition holds_runner :: "ident \<Rightarrow> 'r entry \<Rightarrow> 'r registry \<Rightarrow> bool" where
  "holds_runner og e rg = (map_of (rg_entries rg) og = Some e \<and> 0 < in_use rg og)"

lemma in_use_cong [simp]: "in_use (rg\<lparr>rg_entries := es\<rparr>) k = in_use rg k"
  "in_use (rg\<lparr>rg_entries := es, rg_evictions := n\<rparr>) k = in_use rg k"
  "in_use (rg\<lparr>rg_locks := ls, rg_new_lock := m\<rparr>) k = in_use rg k"
  by (simp_all add: in_use_def)

lemma in_use_updates [simp]:
  "in_use (mark_in_use j rg) k = (if k = j then in_use rg k + 1 else in_use rg k)"
  "in_use (release_use j rg) k = (if k = j then max 0 (in_use rg k - 1) else in_use rg k)"
  "in_use (registry_forget j rg) k = (if k = j then 0 else in_use rg k)"
  "in_use (evict_over_limit j rg) k = in_use rg k"
  by (simp_all add: in_use_def mark_in_use_def release_use_def registry_forget_def evict_over_limit_def
      case_prod_beta Let_def)

lemma in_use_get [simp]: "in_use (snd (registry_get res base r j llm rg)) k = in_use rg k"
  by (simp add: registry_get_def split: sum.splits option.splits)

lemma map_of_evict: "0 < in_use rg k \<or> k = j \<Longrightarrow> map_of (rg_entries (evict_over_limit j rg)) k = map_of (rg_entries rg) k"
  using evict_loop_keeps [of "\<lambda>k. k = j \<or> 0 < in_use rg k" k] by (auto simp: evict_over_limit_def case_prod_beta Let_def)

lemma entries_updates [simp]:
  "rg_entries (mark_in_use j rg) = rg_entries rg" "rg_entries (release_use j rg) = rg_entries rg"
  "rg_entries (registry_forget j rg) = without j (rg_entries rg)"
  by (simp_all add: mark_in_use_def release_use_def registry_forget_def)

lemma distinct_evict: "distinct (map fst (rg_entries rg)) \<Longrightarrow> distinct (map fst (rg_entries (evict_over_limit j rg)))"
  using evict_loop_sub [of "rg_entries rg"] by (simp add: evict_over_limit_def case_prod_beta Let_def)

lemma registry_inv_step: "registry_inv rg \<Longrightarrow> registry_inv (registry_step res base ev rg)"
proof (cases ev)
  case (Get r k llm)
  assume "registry_inv rg"
  with Get show ?thesis
    by (auto simp: registry_inv_def registry_get_def distinct_put_last intro!: distinct_evict
        split: sum.splits option.splits)
qed (auto simp: registry_inv_def registry_evict_def distinct_without close_all_def registry_lock_def
    split: option.splits)

lemma holds_runner_step:
  assumes h: "holds_runner og e rg" and quiet: "\<not> disturbs og (en_llm e) ev"
  shows "holds_runner og e (registry_step res base ev rg)"
proof (cases ev)
  case (Get r k llm)
  with h quiet show ?thesis
    by (auto simp: holds_runner_def registry_get_def map_of_evict split: sum.splits option.splits)
next
  case (MarkInUse k)
  with h show ?thesis by (auto simp: holds_runner_def)
next
  case (Release k)
  with h quiet show ?thesis by (auto simp: holds_runner_def)
next
  case (Evict k)
  with h show ?thesis by (auto simp: holds_runner_def registry_evict_def)
next
  case (Lock k)
  with h show ?thesis by (auto simp: holds_runner_def registry_lock_def split: option.splits)
next
  case (Forget k)
  with h quiet show ?thesis by (auto simp: holds_runner_def)
qed (use h quiet in simp)

definition quiet_step ::
  "(path \<Rightarrow> path) \<Rightarrow> path \<Rightarrow> ident \<Rightarrow> bool option \<Rightarrow> 'r registry_event \<Rightarrow> 'r registry \<Rightarrow> 'r registry" where
  "quiet_step res base og llm ev rg = (if disturbs og llm ev then rg else registry_step res base ev rg)"

interpretation runners: machine "registry_step res base" registry_inv for res base
  by unfold_locales (rule registry_inv_step)

interpretation held: machine "quiet_step res base og (en_llm e)" "holds_runner og e" for res base og e
  by unfold_locales (simp add: quiet_step_def holds_runner_step)

lemma fold_quiet_step:
  "\<forall>ev \<in> set evs. \<not> disturbs og llm ev \<Longrightarrow> fold (registry_step res base) evs rg = fold (quiet_step res base og llm) evs rg"
  by (induction evs arbitrary: rg) (auto simp: quiet_step_def)

section \<open>Properties\<close>

text \<open>A tenant whose run is under way keeps its runner (and with it the only writer of its database file):
  whatever other tenants are opened, evicted, released or forgotten meanwhile, and however often the limit is
  exceeded, the same runner stays registered and is what every lookup of this tenant returns.\<close>

theorem tenant_in_use_keeps_runner:
  assumes entry: "map_of (rg_entries rg) og = Some e" and used: "0 < in_use rg og"
    and quiet: "\<forall>ev \<in> set evs. \<not> disturbs og (en_llm e) ev" and ok: "for_org res base og = Inr paths"
    and llm: "llm = None \<or> llm = en_llm e"
  shows "fst (registry_get res base r og llm (fold (registry_step res base) evs rg)) = Inr (en_runner e) \<and>
    map_of (rg_entries (fold (registry_step res base) evs rg)) og = Some e"
proof -
  from entry used have "holds_runner og e rg" by (simp add: holds_runner_def)
  from held.run_inv [OF this] fold_quiet_step [OF quiet]
  have "holds_runner og e (fold (registry_step res base) evs rg)" by simp
  then show ?thesis using ok llm by (auto simp: holds_runner_def registry_get_def)
qed

text \<open>The registry is bounded: after a lookup, in any run from an empty registry, there is one entry per tenant, the one looked
  up last is among them, and either at most \<open>max_active\<close> tenants are open or every other open tenant is in use;
  entries of tenants in use are the ones they were before.\<close>

theorem registry_bounded:
  assumes got: "registry_get res base r og llm (fold (registry_step res base) evs (new_registry mx)) = (Inr r', rg')"
  shows "distinct (registry_active rg') \<and> og \<in> set (registry_active rg') \<and>
    (length (registry_active rg') \<le> rg_max_active rg' \<or>
      length (registry_active rg') \<le> length (registry_active (fold (registry_step res base) evs (new_registry mx))) \<or>
      (\<forall>k \<in> set (registry_active rg'). k = og \<or> 0 < in_use rg' k))"
proof -
  let ?rg = "fold (registry_step res base) evs (new_registry mx)"
  have "registry_inv (new_registry mx :: 'a registry)" by (simp add: registry_inv_def new_registry_def in_use_def)
  from runners.run_inv [OF this] have inv: "registry_inv ?rg" .
  let ?e = "\<lparr>en_runner = r, en_llm = llm\<rparr>"
  let ?rg1 = "?rg\<lparr>rg_entries := put_last og ?e (rg_entries ?rg)\<rparr>"
  from got consider (reused) e where "map_of (rg_entries ?rg) og = Some e"
      "rg' = ?rg\<lparr>rg_entries := put_last og e (rg_entries ?rg)\<rparr>"
    | (built) "rg' = evict_over_limit og ?rg1"
    by (auto simp: registry_get_def split: sum.splits option.splits if_splits)
  then show ?thesis
  proof cases
    case reused
    from inv have d: "distinct (map fst (rg_entries ?rg))" by (simp add: registry_inv_def)
    have "og \<in> fst ` set (rg_entries ?rg)" using reused(1) by (metis map_of_eq_None_iff option.distinct(1))
    from length_without [OF d this] d reused(2) show ?thesis
      by (simp add: registry_active_def distinct_put_last) (simp add: put_last_def)
  next
    case built
    from inv have d: "distinct (map fst (rg_entries ?rg1))" by (simp add: registry_inv_def distinct_put_last)
    have "map_of (rg_entries rg') og = Some ?e" using built by (simp add: map_of_evict)
    then have "og \<in> set (registry_active rg')"
      unfolding registry_active_def by (metis list.set_map map_of_eq_None_iff option.distinct(1))
    moreover have "distinct (registry_active rg')" using distinct_evict [OF d] built by (simp add: registry_active_def)
    moreover have "rg_max_active rg' = rg_max_active ?rg"
      using built by (simp add: evict_over_limit_def case_prod_beta Let_def)
    moreover have "length (registry_active rg') \<le> rg_max_active ?rg \<or>
        (\<forall>k \<in> set (registry_active rg'). k = og \<or> 0 < in_use rg' k)"
      using evict_loop_fits [OF d, of "map fst (rg_entries ?rg1)" "\<lambda>k. k = og \<or> 0 < in_use ?rg k" "rg_max_active ?rg"
          "rg_evictions ?rg"] built
      by (auto simp: registry_active_def evict_over_limit_def case_prod_beta Let_def)
    ultimately show ?thesis by metis
  qed
qed

section \<open>Concrete inputs\<close>

definition demo_registry :: "nat registry" where
  "demo_registry = \<lparr>rg_max_active = 1, rg_entries = [(''org'', \<lparr>en_runner = 7, en_llm = Some False\<rparr>)], rg_locks = [],
     rg_in_use = [(''org'', 1)], rg_evictions = 0, rg_new_lock = 0\<rparr>"

lemma demo_paths: "for_org (\<lambda>p. p) [''t''] ''org'' = Inr \<lparr>tp_org_id = ''org'', tp_root = [''t'', ''org'']\<rparr>"
  by code_simp

theorem tenant_in_use_keeps_runner_witness:
  "fst (registry_get (\<lambda>p. p) [''t''] 9 ''org'' None
      (fold (registry_step (\<lambda>p. p) [''t'']) [Get 8 ''org2'' None, Evict ''org''] demo_registry)) = Inr 7"
  using tenant_in_use_keeps_runner [of demo_registry "''org''" "\<lparr>en_runner = 7, en_llm = Some False\<rparr>"
      "[Get 8 ''org2'' None, Evict ''org'']" "\<lambda>p. p" "[''t'']" _ None 9, OF _ _ _ demo_paths]
  by (simp add: demo_registry_def in_use_def)

theorem registry_bounded_witness:
  "\<exists>rg'. registry_get (\<lambda>p. p) [''t''] (8::nat) ''org'' None (new_registry 1) = (Inr 8, rg') \<and>
     ''org'' \<in> set (registry_active rg') \<and> distinct (registry_active rg')"
proof -
  obtain rg' where got: "registry_get (\<lambda>p. p) [''t''] (8::nat) ''org'' None (new_registry 1) = (Inr 8, rg')"
    by (simp add: registry_get_def demo_paths new_registry_def)
  then have "registry_get (\<lambda>p. p) [''t''] (8::nat) ''org'' None
      (fold (registry_step (\<lambda>p. p) [''t'']) [] (new_registry 1)) = (Inr 8, rg')" by simp
  from registry_bounded [OF this] got show ?thesis by blast
qed

end
