(* ===== verification/Paging.thy ===== *)
theory Paging
  imports PyText
begin

text \<open>
  Lists in pages: the routes that list jobs, runs and audit events all select the rows below a cursor in
  descending order of a unique key, fetch one row more than the page holds, and hand out the key of the
  page's last row as the next cursor when there are more.
\<close>

definition rows_below :: "('r \<Rightarrow> 'k::linorder) \<Rightarrow> 'k option \<Rightarrow> 'r list \<Rightarrow> 'r list" where
  "rows_below key cursor rows =
     rev (sort_key key (filter (\<lambda>r. case cursor of None \<Rightarrow> True | Some c \<Rightarrow> key r < c) rows))"

definition page_of :: "('r \<Rightarrow> 'k::linorder) \<Rightarrow> nat \<Rightarrow> 'k option \<Rightarrow> 'r list \<Rightarrow> 'r list \<times> 'k option" where
  "page_of key limit cursor rows =
     (let fetched = take (limit + 1) (rows_below key cursor rows); page = take limit fetched
      in (page, if length fetched > limit then Some (key (last page)) else None))"

text \<open>A client that follows the cursors; \<open>fuel\<close> bounds the number of requests.\<close>

fun follow_pages :: "nat \<Rightarrow> ('r \<Rightarrow> 'k::linorder) \<Rightarrow> nat \<Rightarrow> 'k option \<Rightarrow> 'r list \<Rightarrow> 'r list option" where
  "follow_pages 0 key limit cursor rows = None"
| "follow_pages (Suc fuel) key limit cursor rows =
     (case page_of key limit cursor rows of
        (page, None) \<Rightarrow> Some page
      | (page, Some c) \<Rightarrow> map_option (\<lambda>rest. page @ rest) (follow_pages fuel key limit (Some c) rows))"

lemma distinct_sort_key: "distinct (map key rows) \<Longrightarrow> distinct (map key (sort_key key rows))"
  by (simp add: distinct_map)

lemma rows_below_desc:
  "distinct (map key rows) \<Longrightarrow> sorted_wrt (\<lambda>r s. key s < key r) (rows_below key cursor rows)"
proof -
  assume d: "distinct (map key rows)"
  let ?xs = "sort_key key (filter (\<lambda>r. case cursor of None \<Rightarrow> True | Some c \<Rightarrow> key r < c) rows)"
  have "distinct (map key (filter (\<lambda>r. case cursor of None \<Rightarrow> True | Some c \<Rightarrow> key r < c) rows))"
    using d by (simp add: distinct_map_filter)
  then have "sorted (map key ?xs)" "distinct (map key ?xs)" using distinct_sort_key by auto
  then have "sorted_wrt (<) (map key ?xs)" by (rule strict_sorted_iff [THEN iffD2, OF conjI])
  then show ?thesis by (simp add: rows_below_def sorted_wrt_rev sorted_wrt_map)
qed

text \<open>Two lists that descend strictly and have the same elements are equal.\<close>

lemma desc_unique:
  assumes "sorted_wrt (\<lambda>r s. (key s :: 'k::linorder) < key r) xs" "sorted_wrt (\<lambda>r s. key s < key r) ys" "set xs = set ys"
  shows "xs = ys"
  using assms
proof (induction xs arbitrary: ys)
  case (Cons x xs)
  then obtain y ys' where ys: "ys = y # ys'" by (cases ys) auto
  have "x = y"
  proof (rule ccontr)
    assume "x \<noteq> y"
    with Cons.prems(3) ys have "x \<in> set ys'" "y \<in> set xs" by auto
    with Cons.prems(1,2) ys show False by (auto dest: less_asym)
  qed
  moreover have "x \<notin> set xs" "x \<notin> set ys'" using Cons.prems(1,2) ys \<open>x = y\<close> by auto
  ultimately have "set xs = set ys'" using Cons.prems(3) ys by auto
  with Cons.IH [of ys'] Cons.prems(1,2) ys \<open>x = y\<close> show ?case by simp
qed simp

lemma rows_below_last:
  assumes d: "distinct (map key rows)" and lim: "0 < limit" "limit < length (rows_below key cursor rows)"
  shows "rows_below key (Some (key (last (take limit (rows_below key cursor rows))))) rows
    = drop limit (rows_below key cursor rows)"
proof (rule desc_unique)
  let ?rs = "rows_below key cursor rows"
  let ?k = "key (last (take limit ?rs))"
  have "take limit ?rs \<noteq> []" using lim by auto
  then have last: "last (take limit ?rs) = ?rs ! (limit - 1)" using lim by (simp add: last_conv_nth min_def)
  note desc = rows_below_desc [OF d, of cursor]
  show "sorted_wrt (\<lambda>r s. key s < key r) (rows_below key (Some ?k) rows)" by (rule rows_below_desc [OF d])
  show "sorted_wrt (\<lambda>r s. key s < key r) (drop limit ?rs)" using desc by (rule sorted_wrt_drop)
  have mem: "set ?rs = {r \<in> set rows. case cursor of None \<Rightarrow> True | Some c \<Rightarrow> key r < c}"
    by (auto simp: rows_below_def)
  have at: "?rs ! (limit - 1) \<in> set ?rs" using lim by simp
  show "set (rows_below key (Some ?k) rows) = set (drop limit ?rs)"
  proof
    show "set (rows_below key (Some ?k) rows) \<subseteq> set (drop limit ?rs)"
    proof
      fix r assume "r \<in> set (rows_below key (Some ?k) rows)"
      then have r: "r \<in> set rows" "key r < ?k" by (auto simp: rows_below_def)
      have "case cursor of None \<Rightarrow> True | Some c \<Rightarrow> key r < c"
        using at r(2) last mem by (auto split: option.splits dest: less_trans)
      with r(1) mem have "r \<in> set ?rs" by simp
      then obtain i where i: "i < length ?rs" "r = ?rs ! i" by (metis in_set_conv_nth)
      have "limit \<le> i"
      proof (rule ccontr)
        assume "\<not> limit \<le> i"
        then consider "i = limit - 1" | "i < limit - 1" by linarith
        then show False
        proof cases
          case 2
          have "key (?rs ! (limit - 1)) < key (?rs ! i)"
            using sorted_wrt_nth_less [OF desc 2] lim by simp
          with r(2) i(2) last show False by simp
        qed (use r(2) i(2) last in simp)
      qed
      then have "drop limit ?rs ! (i - limit) = r" "i - limit < length (drop limit ?rs)" using i by auto
      then show "r \<in> set (drop limit ?rs)" by (metis nth_mem)
    qed
    show "set (drop limit ?rs) \<subseteq> set (rows_below key (Some ?k) rows)"
    proof
      fix r assume "r \<in> set (drop limit ?rs)"
      then obtain i where "i < length (drop limit ?rs)" "r = drop limit ?rs ! i" by (metis in_set_conv_nth)
      then have i: "limit + i < length ?rs" "r = ?rs ! (limit + i)" by simp_all
      have "key (?rs ! (limit + i)) < key (?rs ! (limit - 1))"
        using sorted_wrt_nth_less [OF desc, of "limit - 1" "limit + i"] i(1) lim(1) by simp
      moreover have "r \<in> set rows" using i mem by (metis (mono_tags, lifting) mem_Collect_eq nth_mem)
      ultimately show "r \<in> set (rows_below key (Some ?k) rows)" using i(2) last by (simp add: rows_below_def)
    qed
  qed
qed

lemma page_of_simps:
  "length (rows_below key cursor rows) \<le> limit \<Longrightarrow> page_of key limit cursor rows = (rows_below key cursor rows, None)"
  "limit < length (rows_below key cursor rows) \<Longrightarrow> page_of key limit cursor rows =
     (take limit (rows_below key cursor rows), Some (key (last (take limit (rows_below key cursor rows)))))"
  by (auto simp: page_of_def Let_def min_def)

text \<open>Following the cursors yields every row once, newest first, in no more requests than there are rows.\<close>

lemma follow_pages_from:
  assumes "distinct (map key rows)" and "0 < limit" and "length (rows_below key cursor rows) < fuel"
  shows "follow_pages fuel key limit cursor rows = Some (rows_below key cursor rows)"
  using assms(3)
proof (induction fuel arbitrary: cursor)
  case (Suc fuel)
  show ?case
  proof (cases "length (rows_below key cursor rows) \<le> limit")
    case True
    then show ?thesis by (simp add: page_of_simps)
  next
    case False
    then have lim: "limit < length (rows_below key cursor rows)" by simp
    note next_page = rows_below_last [OF assms(1,2) lim]
    from Suc.IH [of "Some (key (last (take limit (rows_below key cursor rows))))"] Suc.prems lim assms(2)
    show ?thesis by (simp add: page_of_simps(2) [OF lim] next_page)
  qed
qed simp

lemma follow_pages_all:
  assumes "distinct (map key rows)" and "0 < limit"
  shows "follow_pages (length rows + 1) key limit None rows = Some (rev (sort_key key rows))"
  using follow_pages_from [OF assms, of None "length rows + 1"] by (simp add: rows_below_def)

end
