(* ===== verification/Jobs.thy ===== *)
theory Jobs
  imports Tenancy Paging
begin

text \<open>
  Jobs of an organization (\<^verbatim>\<open>app/api/v1/jobs.py\<close>), the monthly limits of its plan
  (\<^verbatim>\<open>app/api/v1/plan_guard.py\<close>) and the usage report (\<^verbatim>\<open>app/api/v1/usage.py\<close>). A calendar day is the number
  of days since 1970-01-01.
\<close>

section \<open>Requests\<close>

definition PERIOD_MIN_DATE :: int where "PERIOD_MIN_DATE = 10957"
definition PERIOD_MAX_DAYS :: int where "PERIOD_MAX_DAYS = 400"

definition check_period_date :: "int option \<Rightarrow> bool" where
  "check_period_date v = (case v of None \<Rightarrow> True | Some d \<Rightarrow> PERIOD_MIN_DATE \<le> d)"

definition check_period_range :: "int option \<Rightarrow> int option \<Rightarrow> bool" where
  "check_period_range from_day to_day =
     (case (from_day, to_day) of (Some a, Some b) \<Rightarrow> a \<le> b \<and> (b - a) + 1 \<le> PERIOD_MAX_DAYS | _ \<Rightarrow> True)"

record job_create =
  jc_pipeline :: string
  jc_upload_id :: "ident option"
  jc_force_mock :: bool
  jc_client_name :: "string option"
  jc_period_from :: "int option"
  jc_period_to :: "int option"

definition is_upload_id :: "string \<Rightarrow> bool" where
  "is_upload_id s = ((length s = 32 \<and> list_all is_lower_hex s) \<or>
     (length s = 33 \<and> last s = CHR 10 \<and> list_all is_lower_hex (butlast s)))"

definition job_create_valid :: "job_create \<Rightarrow> bool" where
  "job_create_valid b =
     (jc_pipeline b \<in> set [''cs2_demo'', ''ecommerce_demo'', ''uksc_evidence''] \<and>
      (case jc_upload_id b of None \<Rightarrow> True | Some u \<Rightarrow> is_upload_id u) \<and>
      (case jc_client_name b of None \<Rightarrow> True | Some n \<Rightarrow> length n \<le> 200) \<and>
      check_period_date (jc_period_from b) \<and> check_period_date (jc_period_to b) \<and>
      check_period_range (jc_period_from b) (jc_period_to b))"

definition MAX_PENDING_JOBS :: nat where "MAX_PENDING_JOBS = 20"

text \<open>The outer option is the dictionary lookup, the inner one its value.\<close>

definition PIPELINE_UPLOAD_KINDS :: "string \<Rightarrow> string list option option" where
  "PIPELINE_UPLOAD_KINDS pipeline =
     (if pipeline = ''ecommerce_demo'' then Some (Some [''csv'', ''xlsx''])
      else if pipeline = ''uksc_evidence'' then Some (Some [''package''])
      else if pipeline = ''cs2_demo'' then Some None
      else None)"

definition check_period :: "job_create \<Rightarrow> exc option" where
  "check_period body =
     (if jc_period_from body = None \<and> jc_period_to body = None then None
      else (case PIPELINE_UPLOAD_KINDS (jc_pipeline body) of
          None \<Rightarrow> Some (PyRaise ''KeyError'')
        | Some kinds \<Rightarrow>
            if ''csv'' \<notin> set (case kinds of None \<Rightarrow> [] | Some ks \<Rightarrow> ks)
            then Some (Problem 422 ''period_not_supported'') else None))"

definition load_job :: "ident \<Rightarrow> ident \<Rightarrow> cdb \<Rightarrow> exc + job" where
  "load_job org_id job_id db =
     of_option not_found (sql_first (\<lambda>j. j_id j = job_id \<and> j_org j = org_id) (jobs db))"

text \<open>\<open>date.isoformat()\<close>.\<close>

definition iso_date :: "int \<Rightarrow> string" where
  "iso_date d = (let (y, m, dd) = civil (days d)
     in pad_left 4 (dec_nat y) @ ''-'' @ pad_left 2 (dec_nat m) @ ''-'' @ pad_left 2 (dec_nat dd))"

section \<open>Queueing\<close>

definition pending_job :: "ident \<Rightarrow> job \<Rightarrow> bool" where
  "pending_job org_id j = (j_org j = org_id \<and> (j_status j = Queued \<or> j_status j = Running))"

definition blank_id :: "ident option \<Rightarrow> bool" where
  "blank_id i = (i = None \<or> i = Some [])"

text \<open>The checks before anything is written.\<close>

definition check_job :: "bool \<Rightarrow> ident \<Rightarrow> job_create \<Rightarrow> cdb \<Rightarrow> exc option" where
  "check_job cloud org_id body db =
     (case check_period body of
        Some e \<Rightarrow> Some e
      | None \<Rightarrow>
          (case PIPELINE_UPLOAD_KINDS (jc_pipeline body) of
             None \<Rightarrow> Some (PyRaise ''KeyError'')
           | Some kinds \<Rightarrow>
               if cloud \<and> \<not> jc_force_mock body \<and> kinds = None then Some (Problem 422 ''mock_required'')
               else if cloud \<and> \<not> jc_force_mock body \<and> blank_id (jc_upload_id body)
                 then Some (Problem 422 ''upload_required'')
               else if \<not> blank_id (jc_upload_id body) \<and> kinds = None then Some (Problem 422 ''upload_not_applicable'')
               else if \<not> blank_id (jc_upload_id body) then
                 (case sql_first (\<lambda>u. Some (up_id u) = jc_upload_id body \<and> up_org u = org_id) (uploads db) of
                    None \<Rightarrow> Some not_found
                  | Some u \<Rightarrow>
                      if up_kind u \<notin> set (the kinds) then Some (Problem 422 ''upload_kind_mismatch'')
                      else if rowcount (pending_job org_id) (jobs db) \<ge> MAX_PENDING_JOBS
                        then Some (Problem 409 ''queue_full'') else None)
               else if rowcount (pending_job org_id) (jobs db) \<ge> MAX_PENDING_JOBS
                 then Some (Problem 409 ''queue_full'') else None))"

definition new_job :: "ident \<Rightarrow> stamp \<Rightarrow> ident \<Rightarrow> principal \<Rightarrow> job_create \<Rightarrow> job" where
  "new_job new_id now org_id p body = \<lparr>j_id = new_id, j_org = org_id, j_pipeline = jc_pipeline body,
     j_status = Queued, j_progress = 0, j_message = Some ''queued'', j_run = None, j_upload = jc_upload_id body,
     j_client_name = jc_client_name body, j_force_mock = jc_force_mock body, j_created_by = actor_tag p,
     j_created_at = now, j_started_at = None, j_finished_at = None, j_error_code = None,
     j_period_from = jc_period_from body, j_period_to = jc_period_to body\<rparr>"

definition job_meta :: "ident \<Rightarrow> job_create \<Rightarrow> string option \<Rightarrow> pydict" where
  "job_meta new_id body reason =
     [(''job_id'', PStr new_id), (''pipeline'', PStr (jc_pipeline body)),
      (''upload_id'', case jc_upload_id body of None \<Rightarrow> PNone | Some u \<Rightarrow> PStr u)]
     @ (case jc_period_from body of None \<Rightarrow> [] | Some d \<Rightarrow> [(''period_from'', PStr (iso_date d))])
     @ (case jc_period_to body of None \<Rightarrow> [] | Some d \<Rightarrow> [(''period_to'', PStr (iso_date d))])
     @ (case reason of None \<Rightarrow> [] | Some r \<Rightarrow> if r = [] then [] else [(''reason'', PStr r)])"

text \<open>\<open>queue_job\<close>; submitting the job to the executor is the caller's next step.\<close>

definition queue_job ::
  "bool \<Rightarrow> bool \<Rightarrow> ident \<Rightarrow> ident \<Rightarrow> stamp \<Rightarrow> string option \<Rightarrow> ident \<Rightarrow> principal \<Rightarrow> job_create \<Rightarrow> string option
    \<Rightarrow> job handler" where
  "queue_job maintenance cloud new_id ev now host org_id p body reason db =
     (if maintenance then (Inl (Problem 503 ''maintenance''), db)
      else (case check_job cloud org_id body db of
          Some e \<Rightarrow> (Inl e, db)
        | None \<Rightarrow>
            let j = new_job new_id now org_id p body
            in (case sql_insert j_id j (jobs db) of
                  None \<Rightarrow> (Inl (PyRaise ''IntegrityError''), db)
                | Some js \<Rightarrow>
                    with_event db
                      (record_event ev now (Some org_id) (actor_type p) (actor_id p) ''job.created''
                         (Some (''job:'' @ new_id)) (job_meta new_id body reason) host (db\<lparr>jobs := js\<rparr>))
                      (\<lambda>db1. (Inr j, db1)))))"

definition submit_job ::
  "server \<Rightarrow> http_request \<Rightarrow> int \<Rightarrow> ident \<Rightarrow> org_context \<Rightarrow> job_create \<Rightarrow> job app_handler" where
  "submit_job sv rq run_per_min new_id ctx body st =
     (if sv_maintenance sv then (Inl (Problem 503 ''maintenance''), st)
      else
        let (wait, bs) = enforce (sv_max_buckets sv) (rq_clock rq) ''v1_run''
              (principal_key (actor_tag (cx_principal ctx)) (client_ip (rq_host rq))) run_per_min (ap_limiter st);
            st1 = st\<lparr>ap_limiter := bs\<rparr>
        in if wait \<noteq> None then (Inl (Problem 429 ''rate_limited''), st1)
           else
             let (res, db) = queue_job (sv_maintenance sv) (sv_cloud sv) new_id (rq_event rq) (rq_now rq) (rq_host rq)
                   (cx_org_id ctx) (cx_principal ctx) body None (ap_db st1)
             in (res, st1\<lparr>ap_db := db\<rparr>))"

definition create_job ::
  "server \<Rightarrow> http_request \<Rightarrow> int \<Rightarrow> ident \<Rightarrow> org_context \<Rightarrow> job_create \<Rightarrow> (job \<times> string) app_handler" where
  "create_job sv rq run_per_min new_id ctx body st =
     (case submit_job sv rq run_per_min new_id ctx body st of
        (Inl e, st1) \<Rightarrow> (Inl e, st1)
      | (Inr j, st1) \<Rightarrow> (Inr (j, ''/api/v1/orgs/'' @ cx_org_id ctx @ ''/jobs/'' @ j_id j), st1))"

section \<open>Reading and cancelling\<close>

definition list_jobs ::
  "job_status option \<Rightarrow> nat \<Rightarrow> ident option \<Rightarrow> org_context \<Rightarrow> cdb \<Rightarrow> job list \<times> ident option" where
  "list_jobs status limit cursor ctx db =
     page_of j_id limit (if blank_id cursor then None else cursor)
       (filter (\<lambda>j. j_org j = cx_org_id ctx \<and> (case status of None \<Rightarrow> True | Some s \<Rightarrow> j_status j = s)) (jobs db))"

definition cancel_job_row :: "ident \<Rightarrow> stamp \<Rightarrow> cdb \<Rightarrow> nat \<times> cdb" where
  "cancel_job_row job_id now db =
     (let hit = (\<lambda>j. j_id j = job_id \<and> j_status j = Queued)
      in (rowcount hit (jobs db), db\<lparr>jobs := sql_update hit
           (\<lambda>j. j\<lparr>j_status := Cancelled, j_finished_at := Some now, j_message := Some ''cancelled'', j_progress := 0\<rparr>)
           (jobs db)\<rparr>))"

definition cancel_job :: "http_request \<Rightarrow> org_context \<Rightarrow> ident \<Rightarrow> job handler" where
  "cancel_job rq ctx job_id db =
     (case load_job (cx_org_id ctx) job_id db of
        Inl e \<Rightarrow> (Inl e, db)
      | Inr j \<Rightarrow>
          let (n, db1) = cancel_job_row (j_id j) (rq_now rq) db
          in if n \<noteq> 1 then (Inl (Problem 409 ''not_cancellable''), db)
             else with_event db
               (record_event (rq_event rq) (rq_now rq) (Some (cx_org_id ctx)) (actor_type (cx_principal ctx))
                  (actor_id (cx_principal ctx)) ''job.cancelled'' (Some (''job:'' @ j_id j))
                  [(''job_id'', PStr (j_id j))] (rq_host rq) db1)
               (\<lambda>db2. (of_option (PyRaise ''InvalidRequestError'') (get_job (j_id j) db2), db2)))"

section \<open>Limits of the plan\<close>

definition GUARDED :: "string \<times> string \<Rightarrow> string option" where
  "GUARDED = map_of [((''POST'', ''/orgs/{org_id}/jobs''), RUNS_WRITE),
     ((''POST'', ''/orgs/{org_id}/uploads''), UPLOADS_WRITE)]"

definition scopes_in_org :: "principal \<Rightarrow> ident \<Rightarrow> cdb \<Rightarrow> string set option" where
  "scopes_in_org p org_id db =
     (case pr_user p of
        Some u \<Rightarrow> map_option (\<lambda>m. role_scopes (m_role m)) (get_membership org_id (u_id u) db)
      | None \<Rightarrow> if pr_org p = Some org_id then Some (pr_scopes p) else None)"

definition runs_used :: "ident \<Rightarrow> stamp \<Rightarrow> cdb \<Rightarrow> int" where
  "runs_used org_id now db = (case get_usage org_id (current_period now) db of None \<Rightarrow> 0 | Some c \<Rightarrow> uc_runs c)"

definition bytes_used :: "ident \<Rightarrow> stamp \<Rightarrow> cdb \<Rightarrow> int" where
  "bytes_used org_id now db = (case get_usage org_id (current_period now) db of None \<Rightarrow> 0 | Some c \<Rightarrow> uc_upload_bytes c)"

definition runs_limit_reached :: "org \<Rightarrow> stamp \<Rightarrow> cdb \<Rightarrow> (int \<times> int) option" where
  "runs_limit_reached og now db =
     (case runs_per_month (limits_for (o_plan og)) of
        None \<Rightarrow> None
      | Some limit \<Rightarrow>
          let used = runs_used (o_id og) now db + int (rowcount (pending_job (o_id og)) (jobs db))
          in if used \<ge> limit then Some (limit, used) else None)"

datatype resource = Runs | UploadBytes

definition limit_reached :: "resource \<Rightarrow> int \<Rightarrow> org \<Rightarrow> stamp \<Rightarrow> cdb \<Rightarrow> (int \<times> int) option" where
  "limit_reached r declared og now db =
     (case r of
        Runs \<Rightarrow> runs_limit_reached og now db
      | UploadBytes \<Rightarrow>
          (case upload_bytes_per_month (limits_for (o_plan og)) of
             None \<Rightarrow> None
           | Some limit \<Rightarrow>
               if bytes_used (o_id og) now db + declared \<ge> limit then Some (limit, bytes_used (o_id og) now db)
               else None))"

definition check_plan_limit ::
  "bool \<Rightarrow> http_request \<Rightarrow> principal \<Rightarrow> org \<Rightarrow> resource \<Rightarrow> int \<Rightarrow> string option \<Rightarrow> unit handler" where
  "check_plan_limit maintenance rq p og r declared target db =
     (if r = Runs \<and> maintenance then (Inl (Problem 503 ''maintenance''), db)
      else (case limit_reached r declared og (rq_now rq) db of
          None \<Rightarrow> (Inr (), db)
        | Some (limit, used) \<Rightarrow>
            with_event db
              (record_event (rq_event rq) (rq_now rq) (Some (o_id og)) (actor_type p) (actor_id p) ''auth_denied''
                 (Some (take 80 (case target of None \<Rightarrow> rq_path rq | Some t \<Rightarrow> if t = [] then rq_path rq else t)))
                 [(''reason'', PStr ''plan_limit''), (''plan'', PStr (o_plan og))] (rq_host rq) db)
              (\<lambda>db1. (Inl (Problem 429 ''plan_limit''), db1))))"

text \<open>\<open>max(0, int(header))\<close>, 0 when the header is no number; \<open>declared\<close> is what \<open>int\<close> makes of it.\<close>

definition content_length :: "int option \<Rightarrow> int" where
  "content_length declared = (case declared of None \<Rightarrow> 0 | Some n \<Rightarrow> max 0 n)"

definition ends_with :: "string \<Rightarrow> string \<Rightarrow> bool" where
  "ends_with s suf = suffix suf s"

definition plan_guard ::
  "bool \<Rightarrow> http_request \<Rightarrow> string \<Rightarrow> int option \<Rightarrow> ident \<Rightarrow> principal \<Rightarrow> unit handler" where
  "plan_guard maintenance rq template declared org_id p db =
     (case GUARDED (rq_method rq, template) of
        None \<Rightarrow> (Inr (), db)
      | Some required \<Rightarrow>
          (case scopes_in_org p org_id db of
             None \<Rightarrow> (Inr (), db)
           | Some scopes \<Rightarrow>
               (case get_org org_id db of
                  None \<Rightarrow> (Inr (), db)
                | Some og \<Rightarrow>
                    if required \<notin> scopes then (Inr (), db)
                    else if ends_with (rq_path rq) ''/jobs'' then check_plan_limit maintenance rq p og Runs 0 None db
                    else if ends_with (rq_path rq) ''/uploads''
                      then check_plan_limit maintenance rq p og UploadBytes (content_length declared) None db
                    else (Inr (), db))))"

section \<open>The usage report\<close>

record usage_period =
  us_period :: string
  us_runs :: int
  us_upload_bytes :: int

record usage_out =
  uo_org :: ident
  uo_plan :: string
  uo_retention_days :: int
  uo_current :: usage_period
  uo_previous :: usage_period
  uo_limits :: plan_limits

definition usage_of_period :: "ident \<Rightarrow> string \<Rightarrow> cdb \<Rightarrow> usage_period" where
  "usage_of_period org_id name db =
     (case sql_first (usage_row org_id name) (rev (usage_counters db)) of
        None \<Rightarrow> \<lparr>us_period = name, us_runs = 0, us_upload_bytes = 0\<rparr>
      | Some c \<Rightarrow> \<lparr>us_period = name, us_runs = uc_runs c, us_upload_bytes = uc_upload_bytes c\<rparr>)"

definition usage_report :: "stamp \<Rightarrow> org \<Rightarrow> cdb \<Rightarrow> usage_out" where
  "usage_report now og db =
     (let current = current_period now; previous = previous_period current
      in \<lparr>uo_org = o_id og, uo_plan = o_plan og, uo_retention_days = o_retention_days og,
           uo_current = usage_of_period (o_id og) current db, uo_previous = usage_of_period (o_id og) previous db,
           uo_limits = limits_for (o_plan og)\<rparr>)"

section \<open>Properties\<close>

lemma queue_job_Inr:
  assumes "queue_job m cloud new_id ev now host og p body reason db = (Inr j, db')"
  shows "\<not> m" "check_job cloud og body db = None" "j = new_job new_id now og p body" "jobs db' = jobs db @ [j]"
    "new_id \<notin> j_id ` set (jobs db)" "usage_counters db' = usage_counters db" "run_records db' = run_records db"
    "orgs db' = orgs db" "uploads db' = uploads db"
proof -
  from assms show m: "\<not> m" and c: "check_job cloud og body db = None"
    by (auto simp: queue_job_def split: if_splits option.splits)
  let ?j = "new_job new_id now og p body"
  from assms m c obtain js where js: "sql_insert j_id ?j (jobs db) = Some js"
    by (auto simp: queue_job_def Let_def split: option.splits)
  note ins = sql_insert_Some [OF js]
  from assms m c js have res: "(Inr ?j, db\<lparr>jobs := js, audit_events := audit_events db
      @ [new_event ev now (Some og) (actor_type p) (actor_id p) ''job.created'' (Some (''job:'' @ new_id))
           (job_meta new_id body reason) host]\<rparr>) = (Inr j, db')"
    by (simp add: queue_job_def record_event_known)
  then show "j = ?j" "jobs db' = jobs db @ [j]" "usage_counters db' = usage_counters db"
    "run_records db' = run_records db" "orgs db' = orgs db" "uploads db' = uploads db" using ins(1) by auto
  show "new_id \<notin> j_id ` set (jobs db)" using ins(2) by (simp add: new_job_def)
qed

lemma queue_job_Inl: "queue_job m cloud new_id ev now host og p body reason db = (Inl e, db') \<Longrightarrow> db' = db"
  by (auto simp: queue_job_def Let_def with_event_def record_event_known split: if_splits option.splits sum.splits)

text \<open>A job enters the queue only if it can be run for this organization: its upload, if it names one, is the
  organization's and of a kind the pipeline reads; in the cloud it has such an upload or is marked synthetic, so
  that the operator's own sources are never read; and the organization has at most 20 jobs in the queue. A refused
  request changes nothing.\<close>

theorem queued_job_is_runnable:
  "(case queue_job m cloud new_id ev now host og p body reason db of
      (Inl e, db') \<Rightarrow> db' = db
    | (Inr j, db') \<Rightarrow> jobs db' = jobs db @ [j] \<and> j_org j = og \<and> j_status j = Queued \<and>
        rowcount (pending_job og) (jobs db') \<le> MAX_PENDING_JOBS \<and>
        (cloud \<longrightarrow> j_force_mock j \<or> \<not> blank_id (j_upload j)) \<and>
        (\<not> blank_id (j_upload j) \<longrightarrow> (\<exists>u \<in> set (uploads db). \<exists>kinds. j_upload j = Some (up_id u) \<and> up_org u = og \<and>
           PIPELINE_UPLOAD_KINDS (j_pipeline j) = Some (Some kinds) \<and> up_kind u \<in> set kinds)))"
proof (cases "queue_job m cloud new_id ev now host og p body reason db")
  case (Pair res db')
  show ?thesis
  proof (cases res)
    case (Inl e)
    with Pair queue_job_Inl show ?thesis by simp
  next
    case (Inr j)
    note ok = queue_job_Inr [OF Pair [unfolded Inr]]
    from ok(2) obtain kinds where kinds: "PIPELINE_UPLOAD_KINDS (jc_pipeline body) = Some kinds"
      by (auto simp: check_job_def split: option.splits)
    from ok(2) kinds have cl: "cloud \<longrightarrow> jc_force_mock body \<or> \<not> blank_id (jc_upload_id body)"
      by (auto simp: check_job_def split: option.splits if_splits)
    have up: "\<exists>u \<in> set (uploads db). \<exists>ks. jc_upload_id body = Some (up_id u) \<and> up_org u = og \<and>
        kinds = Some ks \<and> up_kind u \<in> set ks" if nb: "\<not> blank_id (jc_upload_id body)"
    proof -
      from ok(2) kinds nb obtain u where u: "sql_first (\<lambda>u. Some (up_id u) = jc_upload_id body \<and> up_org u = og) (uploads db) = Some u"
        by (auto simp: check_job_def split: option.splits if_splits)
      from ok(2) kinds nb u have "kinds \<noteq> None" "up_kind u \<in> set (the kinds)"
        by (auto simp: check_job_def split: option.splits if_splits)
      with sql_first_Some [OF u] show ?thesis by (intro bexI [of _ u]) auto
    qed
    have cap: "rowcount (pending_job og) (jobs db) < MAX_PENDING_JOBS"
      using ok(2) kinds by (auto simp: check_job_def split: option.splits if_splits)
    have j: "j_org j = og" "j_status j = Queued" "j_force_mock j = jc_force_mock body" "j_upload j = jc_upload_id body"
      "j_pipeline j = jc_pipeline body" using ok(3) by (simp_all add: new_job_def)
    have "rowcount (pending_job og) (jobs db') \<le> MAX_PENDING_JOBS" using ok(4) cap j by (simp add: pending_job_def)
    with ok(4) j cl up kinds Pair Inr show ?thesis by auto
  qed
qed

text \<open>Listing jobs page by page, following the cursors with any positive limit and any status filter, gives every
  job of the organization with that status exactly once, newest identifier first, and ends.\<close>

theorem job_pages_complete:
  assumes keyed: "distinct (map j_id (jobs db))" and lim: "0 < limit"
    and rows: "rows = filter (\<lambda>j. j_org j = cx_org_id ctx \<and> (case status of None \<Rightarrow> True | Some s \<Rightarrow> j_status j = s)) (jobs db)"
  shows "follow_pages (length (jobs db) + 1) j_id limit None rows = Some (rev (sort_key j_id rows)) \<and>
    list_jobs status limit None ctx db = page_of j_id limit None rows \<and>
    (\<forall>c. c \<noteq> [] \<longrightarrow> list_jobs status limit (Some c) ctx db = page_of j_id limit (Some c) rows)"
proof -
  have d: "distinct (map j_id rows)" using keyed unfolding rows by (rule distinct_map_filter)
  have "length (rows_below j_id None rows) < length (jobs db) + 1"
    by (simp add: rows_below_def rows le_imp_less_Suc)
  from follow_pages_from [OF d lim this]
  show ?thesis by (simp add: list_jobs_def rows blank_id_def rows_below_def)
qed

text \<open>The guard of the plan: a request that passes it to start a job, from a caller the route will serve, leaves
  room in the month's limit for that job beside the runs counted and the jobs in the queue; a refused one only
  leaves an audit event.\<close>

theorem plan_guard_leaves_room:
  assumes route: "rq_method rq = ''POST''" "suffix ''/jobs'' (rq_path rq)" and acc: "scopes_in_org p og db = Some scopes"
    and scope: "RUNS_WRITE \<in> scopes" and org: "get_org og db = Some o1"
    and lim: "runs_per_month (limits_for (o_plan o1)) = Some limit"
  shows "(case plan_guard m rq ''/orgs/{org_id}/jobs'' declared og p db of
      (Inr _, db') \<Rightarrow> db' = db \<and> runs_used og (rq_now rq) db + int (rowcount (pending_job og) (jobs db)) < limit
    | (Inl e, db') \<Rightarrow> \<exists>evs. db' = db\<lparr>audit_events := audit_events db @ evs\<rparr> \<and>
        (e = Problem 503 ''maintenance'' \<or> e = Problem 429 ''plan_limit'' \<and>
           limit \<le> runs_used og (rq_now rq) db + int (rowcount (pending_job og) (jobs db))))"
proof -
  have id: "o_id o1 = og" using org by (auto simp: get_org_def dest: sql_first_Some)
  have g: "plan_guard m rq ''/orgs/{org_id}/jobs'' declared og p db = check_plan_limit m rq p o1 Runs 0 None db"
    using route acc scope org by (simp add: plan_guard_def GUARDED_def ends_with_def)
  have same: "\<exists>evs. db = db\<lparr>audit_events := audit_events db @ evs\<rparr>" by (rule exI [of _ "[]"]) simp
  show ?thesis
  proof (cases "m")
    case True
    with g same show ?thesis by (simp add: check_plan_limit_def)
  next
    case False
    with g lim id show ?thesis
      by (auto simp: check_plan_limit_def limit_reached_def runs_limit_reached_def Let_def record_event_known)
  qed
qed

section \<open>Concrete inputs\<close>

definition demo_upload :: upload where
  "demo_upload = \<lparr>up_id = replicate 32 CHR ''a'', up_org = ''org'', up_kind = ''csv'', up_filename = ''f.csv'', up_bytes = 9,
     up_sha256 = [], up_path = ''f'', up_created_at = 0, up_retention_until = 9\<rparr>"
definition demo_job_body :: job_create where
  "demo_job_body = \<lparr>jc_pipeline = ''ecommerce_demo'', jc_upload_id = Some (up_id demo_upload), jc_force_mock = False,
     jc_client_name = None, jc_period_from = Some 20000, jc_period_to = Some 20006\<rparr>"
definition demo_jobs_db :: cdb where
  "demo_jobs_db = (ap_db demo_app)\<lparr>uploads := [demo_upload]\<rparr>"
definition demo_job :: "ident \<Rightarrow> job" where
  "demo_job i = new_job i 5 ''org'' (user_principal demo_owner demo_session) demo_job_body"

lemma demo_queue: "queue_job False True ''j1'' ''e'' 5 None ''org'' (user_principal demo_owner demo_session) demo_job_body None
    demo_jobs_db = (Inr (demo_job ''j1''), demo_jobs_db\<lparr>jobs := [demo_job ''j1''],
      audit_events := [new_event ''e'' 5 (Some ''org'') (actor_type (user_principal demo_owner demo_session))
        (actor_id (user_principal demo_owner demo_session)) ''job.created'' (Some (''job:'' @ ''j1''))
        (job_meta ''j1'' demo_job_body None) None]\<rparr>)"
  by (simp add: queue_job_def check_job_def check_period_def demo_job_body_def PIPELINE_UPLOAD_KINDS_def blank_id_def
      demo_jobs_db_def demo_app_defs demo_upload_def sql_first_def MAX_PENDING_JOBS_def sql_insert_def demo_job_def
      new_job_def record_event_known Let_def)

theorem queued_job_is_runnable_witness:
  "\<exists>j db'. queue_job False True ''j1'' ''e'' 5 None ''org'' (user_principal demo_owner demo_session) demo_job_body None
     demo_jobs_db = (Inr j, db') \<and> jobs db' = jobs demo_jobs_db @ [j] \<and> rowcount (pending_job ''org'') (jobs db') \<le> MAX_PENDING_JOBS"
proof -
  obtain db' where ok: "queue_job False True ''j1'' ''e'' 5 None ''org'' (user_principal demo_owner demo_session)
      demo_job_body None demo_jobs_db = (Inr (demo_job ''j1''), db')" using demo_queue by blast
  from queued_job_is_runnable [where m = False and cloud = True and new_id = "''j1''" and ev = "''e''" and now = 5
      and host = None and og = "''org''" and p = "user_principal demo_owner demo_session" and body = demo_job_body
      and reason = None and db = demo_jobs_db, unfolded ok prod.case sum.case] ok
  show ?thesis by blast
qed

definition demo_three_jobs :: cdb where
  "demo_three_jobs = demo_jobs_db\<lparr>jobs := [demo_job ''b'', demo_job ''c'', demo_job ''a'']\<rparr>"

theorem job_pages_complete_witness:
  "follow_pages 4 j_id 2 None [demo_job ''b'', demo_job ''c'', demo_job ''a''] =
     Some (rev (sort_key j_id [demo_job ''b'', demo_job ''c'', demo_job ''a'']))"
proof -
  have keyed: "distinct (map j_id (jobs demo_three_jobs))"
    by (simp add: demo_three_jobs_def demo_job_def new_job_def)
  have rows: "[demo_job ''b'', demo_job ''c'', demo_job ''a''] =
      filter (\<lambda>j. j_org j = cx_org_id demo_ctx \<and> (case None of None \<Rightarrow> True | Some s \<Rightarrow> j_status j = s)) (jobs demo_three_jobs)"
    by (simp add: demo_three_jobs_def demo_job_def new_job_def cx_org_id_def demo_ctx_def demo_org_def)
  have "length (jobs demo_three_jobs) + 1 = 4" by (simp add: demo_three_jobs_def)
  with conjunct1 [OF job_pages_complete [OF keyed _ rows, of 2]] show ?thesis by (simp only: zero_less_numeral simp_thms)
qed

theorem plan_guard_leaves_room_witness:
  "plan_guard False (demo_request\<lparr>rq_path := ''/jobs''\<rparr>) ''/orgs/{org_id}/jobs'' None ''org''
     (user_principal demo_owner demo_session) demo_jobs_db = (Inr (), demo_jobs_db) \<and>
   runs_used ''org'' 5 demo_jobs_db + int (rowcount (pending_job ''org'') (jobs demo_jobs_db)) < 20"
proof -
  let ?rq = "demo_request\<lparr>rq_path := ''/jobs''\<rparr>" and ?p = "user_principal demo_owner demo_session"
  have acc: "scopes_in_org ?p ''org'' demo_jobs_db = Some ADMIN_SCOPES"
    by (simp add: scopes_in_org_def user_principal_def demo_jobs_db_def demo_app_defs get_membership_def sql_first_def
        role_scopes_def)
  have scope: "RUNS_WRITE \<in> ADMIN_SCOPES" by (simp add: ADMIN_SCOPES_def MEMBER_SCOPES_def)
  have org: "get_org ''org'' demo_jobs_db = Some demo_org"
    by (simp add: get_org_def sql_first_def demo_jobs_db_def demo_app_defs)
  have lim: "runs_per_month (limits_for (o_plan demo_org)) = Some 20"
    by (simp add: limits_for_def PLAN_LIMITS_def demo_org_def)
  have pass: "plan_guard False ?rq ''/orgs/{org_id}/jobs'' None ''org'' ?p demo_jobs_db = (Inr (), demo_jobs_db)"
    using acc scope org lim
    by (simp add: plan_guard_def GUARDED_def ends_with_def demo_request_def check_plan_limit_def limit_reached_def
        runs_limit_reached_def runs_used_def get_usage_def sql_first_def demo_jobs_db_def demo_app_def empty_cdb_def
        suffix_def)
  have rq: "rq_method ?rq = ''POST''" "suffix ''/jobs'' (rq_path ?rq)" "rq_now ?rq = 5" by (simp_all add: demo_request_def)
  from plan_guard_leaves_room [OF rq(1,2) acc scope org lim, of False None] pass rq(3) show ?thesis by simp
qed

end
