(* ===== verification/Executor.thy ===== *)
theory Executor
  imports Jobs
begin

text \<open>
  The executor of jobs (\<^verbatim>\<open>app/control/executor.py\<close>). The state of a job is its row; the tasks of the process
  are a list, each at one of the points where the coroutine \<open>_run\<close> can be suspended. One step of the relation
  \<open>exec_step\<close> is what happens between two such points, so that every interleaving of the tasks with each other,
  with progress callbacks, with the routes that queue and cancel jobs, and with a restart of the process is a path
  of the relation. What the pipeline computes is not fixed: a run may return any result, or raise.
\<close>

section \<open>Results of runs\<close>

datatype run_status = SUCCESS | PARTIAL | FAILED

definition run_status_value :: "run_status \<Rightarrow> string" where
  "run_status_value s = (case s of SUCCESS \<Rightarrow> ''SUCCESS'' | PARTIAL \<Rightarrow> ''PARTIAL'' | FAILED \<Rightarrow> ''FAILED'')"

text \<open>What \<open>_execute\<close> keeps of a \<open>RunResult\<close>: with the digests of the report files and the dates in the data.\<close>

record run_outcome =
  rs_run_id :: ident
  rs_status :: run_status
  rs_error :: "string option"
  rs_records :: int
  rs_html :: "string option"
  rs_md :: "string option"
  rs_json :: "string option"
  rs_period :: "int option \<times> int option"

text \<open>\<open>error_code_of\<close> (\<^verbatim>\<open>app/core/redact.py\<close>): the code for the exception type before the first colon.\<close>

definition ERROR_CODES :: "string \<Rightarrow> string option" where
  "ERROR_CODES = map_of [(''FileNotFoundError'', ''SOURCE_UNAVAILABLE''), (''PolicyError'', ''POLICY_DENIED''),
     (''ValidationError'', ''INVALID_DATA''), (''ValueError'', ''INVALID_DATA'')]"

definition error_code_of :: "string option \<Rightarrow> string option" where
  "error_code_of raw =
     (case raw of None \<Rightarrow> None
      | Some r \<Rightarrow> if r = [] then None
          else (case ERROR_CODES (py_strip (takeWhile (\<lambda>c. c \<noteq> CHR '':'') r)) of
              None \<Rightarrow> Some ''RUN_FAILED'' | Some c \<Rightarrow> Some c))"

section \<open>Updates of jobs\<close>

definition terminal :: "job_status \<Rightarrow> bool" where
  "terminal s = (s = Succeeded \<or> s = Failed \<or> s = Cancelled)"

definition abandon :: "stamp \<Rightarrow> job \<Rightarrow> job" where
  "abandon now j = j\<lparr>j_status := Failed, j_error_code := Some ''abandoned'', j_message := Some ''interrupted by restart'',
     j_finished_at := Some now\<rparr>"

text \<open>The recovery in \<open>start\<close>: the identifiers and organizations of the jobs to submit again, oldest first.\<close>

definition recover_jobs :: "stamp \<Rightarrow> cdb \<Rightarrow> (ident \<times> ident) list \<times> cdb" where
  "recover_jobs now db =
     (map (\<lambda>j. (j_id j, j_org j)) (sort_key j_id (filter (\<lambda>j. j_status j = Queued) (jobs db))),
      db\<lparr>jobs := sql_update (\<lambda>j. j_status j = Running) (abandon now) (jobs db)\<rparr>)"

definition claimable :: "ident \<Rightarrow> job \<Rightarrow> bool" where
  "claimable job_id j = (j_id j = job_id \<and> j_status j = Queued)"

definition claim_job :: "ident \<Rightarrow> stamp \<Rightarrow> cdb \<Rightarrow> nat \<times> cdb" where
  "claim_job job_id now db =
     (rowcount (claimable job_id) (jobs db),
      db\<lparr>jobs := sql_update (claimable job_id) (\<lambda>j. j\<lparr>j_status := Running, j_started_at := Some now, j_progress := 5,
          j_message := Some ''starting''\<rparr>) (jobs db)\<rparr>)"

definition progressing :: "ident \<Rightarrow> int \<Rightarrow> job \<Rightarrow> bool" where
  "progressing job_id percent j = (j_id j = job_id \<and> j_status j = Running \<and> j_progress j < percent)"

definition progress_job :: "ident \<Rightarrow> int \<Rightarrow> string \<Rightarrow> cdb \<Rightarrow> cdb" where
  "progress_job job_id percent msg db =
     db\<lparr>jobs := sql_update (progressing job_id percent) (\<lambda>j. j\<lparr>j_progress := percent, j_message := Some (take 200 msg)\<rparr>)
        (jobs db)\<rparr>"

definition unfinished :: "ident \<Rightarrow> job \<Rightarrow> bool" where
  "unfinished job_id j = (j_id j = job_id \<and> (j_status j = Queued \<or> j_status j = Running))"

definition finish_job :: "ident \<Rightarrow> stamp \<Rightarrow> job_status \<Rightarrow> string option \<Rightarrow> string \<Rightarrow> cdb \<Rightarrow> cdb" where
  "finish_job job_id now status code msg db =
     db\<lparr>jobs := sql_update (unfinished job_id) (\<lambda>j. j\<lparr>j_status := status, j_error_code := code,
        j_message := Some (take 200 msg), j_progress := 100, j_finished_at := Some now\<rparr>) (jobs db)\<rparr>"

text \<open>The transaction after a run: the run record, the usage of a job that did not fail, the job's last state, the
  audit event. A run without records fails its job.\<close>

definition job_failed :: "run_outcome \<Rightarrow> bool" where
  "job_failed r = (rs_status r = FAILED \<or> rs_records r = 0)"

definition outcome_code :: "run_outcome \<Rightarrow> string option" where
  "outcome_code r = (if rs_status r = FAILED then error_code_of (rs_error r)
     else if rs_records r = 0 then Some ''no_records'' else None)"

definition outcome_message :: "run_outcome \<Rightarrow> string" where
  "outcome_message r = (if rs_status r = FAILED then ''run failed''
     else if rs_records r = 0 then ''no records in the source'' else ''done'')"

definition settle :: "stamp \<Rightarrow> run_outcome \<Rightarrow> job \<Rightarrow> job" where
  "settle now r j = j\<lparr>j_status := (if job_failed r then Failed else Succeeded), j_progress := 100,
     j_run := Some (rs_run_id r), j_error_code := outcome_code r, j_finished_at := Some now,
     j_message := Some (outcome_message r)\<rparr>"

definition record_of :: "stamp \<Rightarrow> ident \<Rightarrow> ident \<Rightarrow> string \<Rightarrow> run_outcome \<Rightarrow> run_record" where
  "record_of now job_id org_id pipeline r =
     (let period = (if rs_status r = FAILED then (None, None) else rs_period r)
      in \<lparr>rr_id = rs_run_id r, rr_org = org_id, rr_pipeline = pipeline, rr_status = run_status_value (rs_status r),
          rr_job = Some job_id, rr_sha_html = rs_html r, rr_sha_md = rs_md r, rr_sha_json = rs_json r,
          rr_period_from = fst period, rr_period_to = snd period, rr_report_purged_at = None, rr_created_at = now\<rparr>)"

definition complete_job :: "ident \<Rightarrow> stamp \<Rightarrow> ident \<Rightarrow> ident \<Rightarrow> string \<Rightarrow> run_outcome \<Rightarrow> cdb \<Rightarrow> exc + cdb" where
  "complete_job ev now job_id org_id pipeline r db =
     (case sql_insert rr_id (record_of now job_id org_id pipeline r) (run_records db) of
        None \<Rightarrow> Inl (PyRaise ''IntegrityError'')
      | Some rs \<Rightarrow>
          let db1 = db\<lparr>run_records := rs\<rparr>;
              db2 = (if job_failed r then db1 else add_usage (\<lambda>d. d) now org_id 1 0 db1);
              db3 = db2\<lparr>jobs := sql_update (\<lambda>j. j_id j = job_id) (settle now r) (jobs db2)\<rparr>
          in record_event ev now (Some org_id) ''system'' None ''run.finished'' (Some (''run:'' @ rs_run_id r))
               [(''pipeline'', PStr pipeline), (''run_id'', PStr (rs_run_id r)), (''job_id'', PStr job_id),
                (''status'', PStr (run_status_value (rs_status r)))] None db3)"

text \<open>Before the run: the uploaded file must still be there, and in the cloud a job that is not synthetic must have
  one. \<open>file_ok\<close> is the file system's answer (\<open>paths.contains\<close> and \<open>is_file\<close>) for the upload's path.\<close>

definition prepare_run :: "bool \<Rightarrow> (upload \<Rightarrow> bool) \<Rightarrow> job \<Rightarrow> cdb \<Rightarrow> (string \<times> string) + string option" where
  "prepare_run cloud file_ok j db =
     (let up = (if blank_id (j_upload j) then None else get_upload (the (j_upload j)) db) in
      case up of
        Some u \<Rightarrow> if file_ok u then Inr (Some (up_path u))
          else Inl (''SOURCE_UNAVAILABLE'', ''uploaded file is no longer available'')
      | None \<Rightarrow> if cloud \<and> \<not> j_force_mock j then Inl (''SOURCE_UNAVAILABLE'', ''no source file for this job'')
          else Inr None)"

definition effective_llm :: "bool \<Rightarrow> bool \<Rightarrow> org \<Rightarrow> bool" where
  "effective_llm cloud deployment_llm og = (o_llm_narrative og \<or> (deployment_llm \<and> \<not> cloud))"

section \<open>Tasks\<close>

datatype phase = Waiting | Locked | Ready | Claimed | Executing | Returned run_outcome | Done

record exec_task =
  tk_job :: ident
  tk_org :: ident
  tk_phase :: phase

definition holds_lock :: "phase \<Rightarrow> bool" where "holds_lock p = (p \<noteq> Waiting \<and> p \<noteq> Done)"
definition holds_slot :: "phase \<Rightarrow> bool" where "holds_slot p = (p \<noteq> Waiting \<and> p \<noteq> Locked \<and> p \<noteq> Done)"
definition owns_job :: "phase \<Rightarrow> bool" where
  "owns_job p = (p = Claimed \<or> p = Executing \<or> (\<exists>r. p = Returned r))"

record exec_params =
  ep_cloud :: bool
  ep_max_runs :: nat
  ep_file_ok :: "upload \<Rightarrow> bool"

record exec =
  ex_db :: cdb
  ex_tasks :: "exec_task list"
  ex_running_now :: int
  ex_max_seen :: int

definition set_phase :: "nat \<Rightarrow> phase \<Rightarrow> exec \<Rightarrow> exec" where
  "set_phase i p s = s\<lparr>ex_tasks := (ex_tasks s)[i := (ex_tasks s ! i)\<lparr>tk_phase := p\<rparr>]\<rparr>"

definition at_phase :: "exec \<Rightarrow> nat \<Rightarrow> phase \<Rightarrow> bool" where
  "at_phase s i p = (i < length (ex_tasks s) \<and> tk_phase (ex_tasks s ! i) = p)"

definition lock_free :: "ident \<Rightarrow> exec_task list \<Rightarrow> bool" where
  "lock_free og ts = (rowcount (\<lambda>t. tk_org t = og \<and> holds_lock (tk_phase t)) ts = 0)"

definition slots_used :: "exec_task list \<Rightarrow> nat" where
  "slots_used ts = rowcount (\<lambda>t. holds_slot (tk_phase t)) ts"

definition new_task :: "ident \<times> ident \<Rightarrow> exec_task" where
  "new_task jo = \<lparr>tk_job = fst jo, tk_org = snd jo, tk_phase = Waiting\<rparr>"

text \<open>Each rule names the code between two suspension points. \<open>crash\<close> is the handler of \<open>_run\<close> for any
  exception raised while the task holds a slot; \<open>restart\<close> is the end of the process and \<open>start\<close> of the next.\<close>

inductive exec_step :: "exec_params \<Rightarrow> exec \<Rightarrow> exec \<Rightarrow> bool" for P where
  enqueue: "queue_job False (ep_cloud P) i ev now host og p body reason (ex_db s) = (Inr j, db') \<Longrightarrow>
    exec_step P s (s\<lparr>ex_db := db', ex_tasks := ex_tasks s @ [new_task (j_id j, og)]\<rparr>)"
| cancel: "cancel_job rq ctx i (ex_db s) = (res, db') \<Longrightarrow> exec_step P s (s\<lparr>ex_db := db'\<rparr>)"
| lock: "at_phase s i Waiting \<Longrightarrow> lock_free (tk_org (ex_tasks s ! i)) (ex_tasks s) \<Longrightarrow>
    exec_step P s (set_phase i Locked s)"
| slot: "at_phase s i Locked \<Longrightarrow> slots_used (ex_tasks s) < ep_max_runs P \<Longrightarrow> exec_step P s (set_phase i Ready s)"
| claim: "at_phase s i Ready \<Longrightarrow> claim_job (tk_job (ex_tasks s ! i)) now (ex_db s) = (1, db') \<Longrightarrow>
    exec_step P s (set_phase i Claimed (s\<lparr>ex_db := db'\<rparr>))"
| skip: "at_phase s i Ready \<Longrightarrow> claim_job (tk_job (ex_tasks s ! i)) now (ex_db s) = (n, db') \<Longrightarrow> n \<noteq> 1 \<Longrightarrow>
    exec_step P s (set_phase i Done (s\<lparr>ex_db := db'\<rparr>))"
| refuse: "at_phase s i Claimed \<Longrightarrow> get_job (tk_job (ex_tasks s ! i)) (ex_db s) = Some j \<Longrightarrow>
    prepare_run (ep_cloud P) (ep_file_ok P) j (ex_db s) = Inl (code, msg) \<Longrightarrow>
    exec_step P s (set_phase i Done (s\<lparr>ex_db := finish_job (tk_job (ex_tasks s ! i)) now Failed (Some code) msg (ex_db s)\<rparr>))"
| start: "at_phase s i Claimed \<Longrightarrow> get_job (tk_job (ex_tasks s ! i)) (ex_db s) = Some j \<Longrightarrow>
    prepare_run (ep_cloud P) (ep_file_ok P) j (ex_db s) = Inr src \<Longrightarrow>
    exec_step P s (set_phase i Executing (s\<lparr>ex_running_now := ex_running_now s + 1,
      ex_max_seen := max (ex_max_seen s) (ex_running_now s + 1)\<rparr>))"
| progress: "exec_step P s (s\<lparr>ex_db := progress_job k percent msg (ex_db s)\<rparr>)"
| return: "at_phase s i Executing \<Longrightarrow>
    exec_step P s (set_phase i (Returned r) (s\<lparr>ex_running_now := ex_running_now s - 1\<rparr>))"
| complete: "at_phase s i (Returned r) \<Longrightarrow>
    complete_job ev now (tk_job (ex_tasks s ! i)) (tk_org (ex_tasks s ! i)) pipeline r (ex_db s) = Inr db' \<Longrightarrow>
    exec_step P s (set_phase i Done (s\<lparr>ex_db := db'\<rparr>))"
| crash: "at_phase s i p \<Longrightarrow> holds_slot p \<Longrightarrow>
    exec_step P s (set_phase i Done (s\<lparr>ex_running_now := (if p = Executing then ex_running_now s - 1 else ex_running_now s),
      ex_db := finish_job (tk_job (ex_tasks s ! i)) now Failed (Some ''internal_error'') ''internal error'' (ex_db s)\<rparr>))"
| restart: "recover_jobs now (ex_db s) = (queued, db') \<Longrightarrow>
    exec_step P s \<lparr>ex_db = db', ex_tasks = map new_task queued, ex_running_now = 0, ex_max_seen = 0\<rparr>"

end
