(* ===== verification/ExecutorInvariant.thy ===== *)
theory ExecutorInvariant
  imports Executor
begin

text \<open>
  What every step of the executor keeps: the tables (unique jobs, usage equal to the jobs that succeeded, a record
  for each of them), the schedule (one task per organization past the lock, as many slots as configured), and the
  link between tasks and rows (a task that claimed a job finds it running). And how a step moves a row: along the
  life of a job.
\<close>

section \<open>The life of a job\<close>

text \<open>The abstract machine: the status of a job, and how it may change.\<close>

definition lifecycle :: "job_status \<Rightarrow> job_status \<Rightarrow> bool" where
  "lifecycle a b = (a = b \<or> (a = Queued \<and> (b = Running \<or> b = Cancelled \<or> b = Failed)) \<or>
     (a = Running \<and> (b = Succeeded \<or> b = Failed)))"

text \<open>What one step may do to a row: nothing once it is terminal; while it runs, progress only grows.\<close>

definition row_moves :: "job \<Rightarrow> job \<Rightarrow> bool" where
  "row_moves j j' = (j_id j' = j_id j \<and> j_org j' = j_org j \<and> lifecycle (j_status j) (j_status j') \<and>
     (terminal (j_status j) \<longrightarrow> j' = j) \<and>
     (j_status j = Running \<and> j_status j' = Running \<longrightarrow> j_progress j \<le> j_progress j'))"

definition jobs_move :: "cdb \<Rightarrow> cdb \<Rightarrow> bool" where
  "jobs_move db db' = (\<forall>j \<in> set (jobs db). \<exists>j' \<in> set (jobs db'). row_moves j j')"

lemma row_moves_refl: "row_moves j j"
  by (simp add: row_moves_def lifecycle_def)

lemma jobs_move_append: "jobs db' = jobs db @ js \<Longrightarrow> jobs_move db db'"
  unfolding jobs_move_def by (auto intro: row_moves_refl)

lemma jobs_move_update:
  assumes "jobs db' = sql_update sel f (jobs db)" and "\<And>j. j \<in> set (jobs db) \<Longrightarrow> sel j \<Longrightarrow> row_moves j (f j)"
  shows "jobs_move db db'"
  unfolding jobs_move_def assms(1) set_sql_update
proof
  fix j assume j: "j \<in> set (jobs db)"
  show "\<exists>j' \<in> {r \<in> set (jobs db). \<not> sel r} \<union> f ` {r \<in> set (jobs db). sel r}. row_moves j j'"
  proof (cases "sel j")
    case True
    with j assms(2) [OF j True] show ?thesis by (intro bexI [of _ "f j"]) auto
  next
    case False
    with j show ?thesis by (intro bexI [of _ j]) (auto intro: row_moves_refl)
  qed
qed

section \<open>The invariant\<close>

definition runs_total :: "ident \<Rightarrow> cdb \<Rightarrow> int" where
  "runs_total og db = (\<Sum>c \<leftarrow> filter (\<lambda>c. uc_org c = og) (usage_counters db). uc_runs c)"

definition succeeded_of :: "ident \<Rightarrow> job \<Rightarrow> bool" where
  "succeeded_of og j = (j_org j = og \<and> j_status j = Succeeded)"

definition recorded :: "job \<Rightarrow> run_record list \<Rightarrow> bool" where
  "recorded j rs = (\<exists>r \<in> set rs. j_run j = Some (rr_id r) \<and> rr_job r = Some (j_id j) \<and> rr_org r = j_org j)"

definition db_inv :: "cdb \<Rightarrow> bool" where
  "db_inv db = (distinct (map j_id (jobs db)) \<and> usage_keyed db \<and>
     (\<forall>og. runs_total og db = int (rowcount (succeeded_of og) (jobs db))) \<and>
     (\<forall>j \<in> set (jobs db). j_status j = Succeeded \<longrightarrow> recorded j (run_records db)))"

definition sched_inv :: "exec_params \<Rightarrow> exec \<Rightarrow> bool" where
  "sched_inv P s =
     ((\<forall>og. rowcount (\<lambda>t. tk_org t = og \<and> holds_lock (tk_phase t)) (ex_tasks s) \<le> 1) \<and>
      slots_used (ex_tasks s) \<le> ep_max_runs P \<and>
      ex_running_now s = int (rowcount (\<lambda>t. tk_phase t = Executing) (ex_tasks s)) \<and>
      ex_max_seen s \<le> int (ep_max_runs P))"

definition has_row :: "cdb \<Rightarrow> exec_task \<Rightarrow> bool" where
  "has_row db t = (\<exists>j \<in> set (jobs db). j_id j = tk_job t \<and> j_org j = tk_org t \<and>
     (owns_job (tk_phase t) \<longrightarrow> j_status j = Running))"

definition link_inv :: "exec \<Rightarrow> bool" where
  "link_inv s = (\<forall>t \<in> set (ex_tasks s). has_row (ex_db s) t)"

definition exec_inv :: "exec_params \<Rightarrow> exec \<Rightarrow> bool" where
  "exec_inv P s = (db_inv (ex_db s) \<and> sched_inv P s \<and> link_inv s)"

subsection \<open>The tables\<close>

lemma runs_total_cong: "usage_counters db' = usage_counters db \<Longrightarrow> runs_total og db' = runs_total og db"
  by (simp add: runs_total_def)

text \<open>Updates that touch neither succeeded jobs nor make any.\<close>

lemma db_inv_update:
  assumes inv: "db_inv db" and js: "jobs db' = sql_update sel f (jobs db)"
    and same: "usage_counters db' = usage_counters db" "run_records db' = run_records db"
    and f: "\<And>j. sel j \<Longrightarrow> j_id (f j) = j_id j \<and> j_status j \<noteq> Succeeded \<and> j_status (f j) \<noteq> Succeeded"
  shows "db_inv db'"
proof -
  have ids: "map j_id (jobs db') = map j_id (jobs db)" using f by (auto simp: js sql_update_def)
  have cnt: "rowcount (succeeded_of og) (jobs db') = rowcount (succeeded_of og) (jobs db)" for og
    unfolding js rowcount_sql_update by (rule rowcount_cong) (auto simp: succeeded_of_def dest: f)
  have "recorded j (run_records db')" if "j \<in> set (jobs db')" "j_status j = Succeeded" for j
    using that(1) unfolding js
  proof (cases rule: in_sql_updateE)
    case same
    with inv that(2) \<open>run_records db' = run_records db\<close> show ?thesis by (auto simp: db_inv_def)
  next
    case (updated j0)
    with f that(2) show ?thesis by auto
  qed
  with inv ids cnt same(1) runs_total_cong [OF same(1)] show ?thesis
    by (simp add: db_inv_def usage_keyed_def)
qed

lemma db_inv_queue:
  assumes inv: "db_inv db" and js: "jobs db' = jobs db @ [j]" and new: "j_id j \<notin> j_id ` set (jobs db)" "j_status j = Queued"
    and same: "usage_counters db' = usage_counters db" "run_records db' = run_records db"
  shows "db_inv db'"
  using inv new same runs_total_cong [OF same(1)]
  by (auto simp: db_inv_def js usage_keyed_def succeeded_of_def)

text \<open>The transaction of a completed run.\<close>

lemma runs_total_bump:
  assumes "usage_keyed db" and "rowcount (usage_row og p) (usage_counters db) \<noteq> 0"
  shows "runs_total og' (snd (bump_usage og p n b db)) = runs_total og' db + (if og' = og then n else 0)"
proof -
  let ?f = "\<lambda>c. c\<lparr>uc_runs := uc_runs c + n, uc_upload_bytes := uc_upload_bytes c + b\<rparr>"
  have one: "rowcount (usage_row og p) (usage_counters db) = 1"
    using rowcount_le_one [OF assms(1) [unfolded usage_keyed_def], of "usage_row og p" "(og, p)"] assms(2)
    by (auto simp: usage_row_def)
  have "(\<Sum>c \<leftarrow> filter (\<lambda>c. uc_org c = og') (sql_update (usage_row og p) ?f cs). uc_runs c)
      = (\<Sum>c \<leftarrow> filter (\<lambda>c. uc_org c = og') cs. uc_runs c) + (if og' = og then int (rowcount (usage_row og p) cs) * n else 0)" for cs
    by (induction cs) (auto simp: usage_row_def algebra_simps)
  with one show ?thesis by (simp add: runs_total_def bump_usage_def)
qed

lemma usage_keyed_add: "usage_keyed db \<Longrightarrow> usage_keyed (add_usage (\<lambda>d. d) now og n b db)"
proof (cases "rowcount (usage_row og (current_period now)) (usage_counters db) = 0")
  case False
  assume "usage_keyed db"
  from usage_total_bump(2) [OF this False] False show ?thesis by (simp add: add_usage_def Let_def bump_usage_def)
next
  case True
  assume "usage_keyed db"
  with True bump_usage_none [OF True] show ?thesis
    by (auto simp: add_usage_def Let_def bump_usage_def usage_keyed_def dest: distinct_sql_insert split: option.splits)
qed

lemma add_usage_total:
  assumes keyed: "usage_keyed db"
  shows "runs_total og' (add_usage (\<lambda>d. d) now og n b db) = runs_total og' db + (if og' = og then n else 0)"
    and "usage_keyed (add_usage (\<lambda>d. d) now og n b db)"
    and "jobs (add_usage (\<lambda>d. d) now og n b db) = jobs db" "run_records (add_usage (\<lambda>d. d) now og n b db) = run_records db"
proof -
  let ?p = "current_period now"
  let ?c = "\<lparr>uc_org = og, uc_period = ?p, uc_runs = n, uc_upload_bytes = b\<rparr>"
  show "usage_keyed (add_usage (\<lambda>d. d) now og n b db)" using usage_keyed_add [OF keyed] by blast
  show "jobs (add_usage (\<lambda>d. d) now og n b db) = jobs db" "run_records (add_usage (\<lambda>d. d) now og n b db) = run_records db"
    by (simp_all add: add_usage_def Let_def bump_usage_def split: option.splits)
  show "runs_total og' (add_usage (\<lambda>d. d) now og n b db) = runs_total og' db + (if og' = og then n else 0)"
  proof (cases "rowcount (usage_row og ?p) (usage_counters db) = 0")
    case False
    with runs_total_bump [OF keyed False] show ?thesis by (simp add: add_usage_def Let_def bump_usage_def)
  next
    case True
    then have "sql_insert (\<lambda>c. (uc_org c, uc_period c)) ?c (usage_counters db) = Some (usage_counters db @ [?c])"
      by (auto simp: sql_insert_def rowcount_zero usage_row_def)
    with True bump_usage_none [OF True] show ?thesis
      by (simp add: add_usage_def Let_def bump_usage_def runs_total_def)
  qed
qed

lemma complete_job_Inr:
  assumes inv: "db_inv db" and ok: "complete_job ev now k og pipeline r db = Inr db'"
  shows "jobs db' = sql_update (\<lambda>j. j_id j = k) (settle now r) (jobs db)"
    and "run_records db' = run_records db @ [record_of now k og pipeline r]" and "usage_keyed db'"
    and "runs_total og' db' = runs_total og' db + (if og' = og \<and> \<not> job_failed r then 1 else 0)"
proof -
  from ok obtain rs where rs: "sql_insert rr_id (record_of now k og pipeline r) (run_records db) = Some rs"
    by (auto simp: complete_job_def split: option.splits)
  let ?db1 = "db\<lparr>run_records := rs\<rparr>"
  let ?db2 = "if job_failed r then ?db1 else add_usage (\<lambda>d. d) now og 1 0 ?db1"
  have k1: "usage_keyed ?db1" using inv by (simp add: db_inv_def usage_keyed_def)
  note au = add_usage_total [OF k1, where now = now and og = og and n = 1 and b = 0]
  from ok rs have res: "jobs db' = sql_update (\<lambda>j. j_id j = k) (settle now r) (jobs ?db2)"
    "run_records db' = run_records ?db2" "usage_counters db' = usage_counters ?db2"
    by (auto simp: complete_job_def Let_def record_event_known)
  show "jobs db' = sql_update (\<lambda>j. j_id j = k) (settle now r) (jobs db)" using res(1) au(3) by simp
  show "run_records db' = run_records db @ [record_of now k og pipeline r]"
    using res(2) au(4) sql_insert_Some(1) [OF rs] by simp
  have "usage_keyed ?db2" using au(2) k1 by simp
  with res(3) show "usage_keyed db'" by (simp add: usage_keyed_def)
  have "runs_total og' ?db1 = runs_total og' db" by (rule runs_total_cong) simp
  with au(1) [of og'] runs_total_cong [OF res(3), of og'] show "runs_total og' db' = runs_total og' db + (if og' = og \<and> \<not> job_failed r then 1 else 0)"
    by (cases "og' = og") simp_all
qed

lemma db_inv_complete:
  assumes inv: "db_inv db" and ok: "complete_job ev now k og pipeline r db = Inr db'"
    and row: "j0 \<in> set (jobs db)" "j_id j0 = k" "j_org j0 = og" "j_status j0 = Running"
  shows "db_inv db'"
proof -
  note c = complete_job_Inr [OF inv ok]
  have d: "distinct (map j_id (jobs db))" using inv by (simp add: db_inv_def)
  have only: "j = j0" if "j \<in> set (jobs db)" "j_id j = k" for j
    using unique_row [OF d that(1) row(1)] that(2) row(2) by simp
  have "map j_id (jobs db') = map j_id (jobs db)" unfolding c(1) by (rule map_sql_update) (simp add: settle_def)
  moreover have "runs_total og' db' = int (rowcount (succeeded_of og') (jobs db'))" for og'
  proof -
    have le: "rowcount (\<lambda>j. j_id j = k \<and> j_org j = og') (jobs db) \<le> 1"
      by (rule rowcount_le_one [OF d, where k = k]) simp
    have "rowcount (\<lambda>j. j_id j = k \<and> j_org j = og') (jobs db) = (if og' = og then 1 else 0)"
    proof (cases "og' = og")
      case True
      have "rowcount (\<lambda>j. j_id j = k \<and> j_org j = og') (jobs db) \<noteq> 0"
        unfolding rowcount_pos using row True by blast
      with le True show ?thesis by simp
    next
      case False
      have "rowcount (\<lambda>j. j_id j = k \<and> j_org j = og') (jobs db) = 0"
        unfolding rowcount_zero using only row(3) False by blast
      with False show ?thesis by simp
    qed
    moreover have "rowcount (succeeded_of og') (jobs db') = rowcount (\<lambda>j. succeeded_of og' j) (jobs db)
        + (if job_failed r then 0 else rowcount (\<lambda>j. j_id j = k \<and> j_org j = og') (jobs db))"
    proof -
      have split: "rowcount A js = rowcount B js + rowcount C js"
        if "\<And>j. j \<in> set js \<Longrightarrow> A j = (B j \<or> C j) \<and> \<not> (B j \<and> C j)" for A B C and js :: "job list"
        using that by (induction js) auto
      have nots: "\<not> succeeded_of og' j" if "j \<in> set (jobs db)" "j_id j = k" for j
        using only [OF that] row(4) by (simp add: succeeded_of_def)
      show ?thesis
      proof (cases "job_failed r")
        case True
        have "rowcount (succeeded_of og') (jobs db') = rowcount (succeeded_of og') (jobs db)"
          unfolding c(1) rowcount_sql_update
          by (rule rowcount_cong) (use True nots in \<open>auto simp: settle_def succeeded_of_def\<close>)
        with True show ?thesis by simp
      next
        case False
        have "rowcount (succeeded_of og') (jobs db') = rowcount (succeeded_of og') (jobs db)
            + rowcount (\<lambda>j. j_id j = k \<and> j_org j = og') (jobs db)"
          unfolding c(1) rowcount_sql_update
          by (rule split) (use False nots in \<open>auto simp: settle_def succeeded_of_def\<close>)
        with False show ?thesis by simp
      qed
    qed
    moreover have "runs_total og' db = int (rowcount (succeeded_of og') (jobs db))" using inv by (simp add: db_inv_def)
    ultimately show ?thesis using c(4) [of og'] by (cases "og' = og") simp_all
  qed
  moreover have "recorded j (run_records db')" if "j \<in> set (jobs db')" "j_status j = Succeeded" for j
    using that(1) unfolding c(1)
  proof (cases rule: in_sql_updateE)
    case same
    with inv that(2) have "recorded j (run_records db)" by (simp add: db_inv_def)
    then show ?thesis unfolding c(2) recorded_def by auto
  next
    case (updated j1)
    with only row have "j1 = j0" by blast
    with updated row show ?thesis
      unfolding c(2) recorded_def by (auto simp: settle_def record_of_def Let_def)
  qed
  ultimately show ?thesis using d c(3) by (simp add: db_inv_def)
qed

subsection \<open>The tasks\<close>

lemma rowcount_two:
  assumes "rowcount P xs \<le> 1" and "i < length xs" "j < length xs" "P (xs ! i)" "P (xs ! j)"
  shows "i = j"
  using assms
proof (induction xs arbitrary: i j)
  case (Cons x xs)
  have none: "\<not> P (xs ! k)" if "P x" "k < length xs" for k
    using Cons.prems(1) that nth_mem [OF that(2)] by (auto simp: rowcount_zero)
  show ?case
  proof (cases i)
    case 0
    with Cons.prems none show ?thesis by (cases j) auto
  next
    case (Suc i')
    with Cons none show ?thesis by (cases j) auto
  qed
qed simp

lemma owns_holds: "owns_job p \<Longrightarrow> holds_lock p"
  by (auto simp: owns_job_def holds_lock_def)

lemma sched_set_phase:
  assumes inv: "sched_inv P s" and i: "at_phase s i p"
    and tasks: "ex_tasks s' = (ex_tasks s)[i := (ex_tasks s ! i)\<lparr>tk_phase := q\<rparr>]"
    and lock: "holds_lock q \<Longrightarrow> holds_lock p \<or> lock_free (tk_org (ex_tasks s ! i)) (ex_tasks s)"
    and slot: "holds_slot q \<Longrightarrow> holds_slot p \<or> slots_used (ex_tasks s) < ep_max_runs P"
    and now: "ex_running_now s' = ex_running_now s + (if q = Executing then 1 else 0) - (if p = Executing then 1 else 0)"
    and seen: "ex_max_seen s' = ex_max_seen s \<or> ex_max_seen s' = max (ex_max_seen s) (ex_running_now s')"
  shows "sched_inv P s'"
proof -
  from i have len: "i < length (ex_tasks s)" and p: "tk_phase (ex_tasks s ! i) = p" by (simp_all add: at_phase_def)
  note upd = rowcount_list_update [OF len, where y = "(ex_tasks s ! i)\<lparr>tk_phase := q\<rparr>", folded tasks]
  have locks: "rowcount (\<lambda>t. tk_org t = og \<and> holds_lock (tk_phase t)) (ex_tasks s') \<le> 1" for og
  proof -
    have old: "rowcount (\<lambda>t. tk_org t = og \<and> holds_lock (tk_phase t)) (ex_tasks s) \<le> 1"
      using inv by (simp add: sched_inv_def)
    show ?thesis
    proof (cases "tk_org (ex_tasks s ! i) = og \<and> holds_lock q \<and> \<not> holds_lock p")
      case True
      with lock have "rowcount (\<lambda>t. tk_org t = og \<and> holds_lock (tk_phase t)) (ex_tasks s) = 0" by (simp add: lock_free_def)
      with upd [of "\<lambda>t. tk_org t = og \<and> holds_lock (tk_phase t)"] show ?thesis by (simp split: if_splits)
    next
      case False
      with upd [of "\<lambda>t. tk_org t = og \<and> holds_lock (tk_phase t)"] old p show ?thesis by (auto split: if_splits)
    qed
  qed
  have slots: "slots_used (ex_tasks s') \<le> ep_max_runs P"
    using upd [of "\<lambda>t. holds_slot (tk_phase t)"] slot inv p by (auto simp: slots_used_def sched_inv_def split: if_splits)
  have run: "ex_running_now s' = int (rowcount (\<lambda>t. tk_phase t = Executing) (ex_tasks s'))"
    using upd [of "\<lambda>t. tk_phase t = Executing"] now inv p by (auto simp: sched_inv_def split: if_splits)
  have "rowcount (\<lambda>t. tk_phase t = Executing) (ex_tasks s') \<le> slots_used (ex_tasks s')"
    unfolding slots_used_def by (rule rowcount_mono) (simp add: holds_slot_def)
  with slots run have "ex_running_now s' \<le> int (ep_max_runs P)" by simp
  with seen inv have "ex_max_seen s' \<le> int (ep_max_runs P)" by (auto simp: sched_inv_def)
  with locks slots run show ?thesis by (simp add: sched_inv_def)
qed

lemma sched_same:
  "sched_inv P s \<Longrightarrow> ex_tasks s' = ex_tasks s \<Longrightarrow> ex_running_now s' = ex_running_now s \<Longrightarrow> ex_max_seen s' = ex_max_seen s \<Longrightarrow>
   sched_inv P s'"
  by (simp add: sched_inv_def)

lemma sched_add: "sched_inv P s \<Longrightarrow> ex_tasks s' = ex_tasks s @ [new_task jo] \<Longrightarrow> ex_running_now s' = ex_running_now s \<Longrightarrow>
   ex_max_seen s' = ex_max_seen s \<Longrightarrow> sched_inv P s'"
  by (simp add: sched_inv_def new_task_def holds_lock_def holds_slot_def slots_used_def)

subsection \<open>Tasks and rows\<close>

lemma has_row_update:
  assumes t: "has_row db t" and js: "jobs db' = sql_update sel f (jobs db)"
    and keys: "\<And>j. sel j \<Longrightarrow> j_id (f j) = j_id j \<and> j_org (f j) = j_org j"
    and run: "\<And>j. j \<in> set (jobs db) \<Longrightarrow> sel j \<Longrightarrow> j_id j = tk_job t \<Longrightarrow> owns_job (tk_phase t) \<Longrightarrow> j_status j = Running \<Longrightarrow>
      j_status (f j) = Running"
  shows "has_row db' t"
proof -
  from t obtain j where j: "j \<in> set (jobs db)" "j_id j = tk_job t" "j_org j = tk_org t"
    "owns_job (tk_phase t) \<longrightarrow> j_status j = Running" by (auto simp: has_row_def)
  show ?thesis
  proof (cases "sel j")
    case True
    with j have "f j \<in> set (jobs db')" by (auto simp: js table_simps)
    with j keys [OF True] run [OF j(1) True j(2)] show ?thesis unfolding has_row_def by (intro bexI [of _ "f j"]) auto
  next
    case False
    with j have "j \<in> set (jobs db')" by (auto simp: js table_simps)
    with j show ?thesis unfolding has_row_def by blast
  qed
qed

lemma has_row_append: "has_row db t \<Longrightarrow> jobs db' = jobs db @ js \<Longrightarrow> has_row db' t"
  by (auto simp: has_row_def)

lemma link_set_phase:
  assumes "at_phase s i p" and "ex_tasks s' = (ex_tasks s)[i := (ex_tasks s ! i)\<lparr>tk_phase := q\<rparr>]"
    and "\<And>k. k < length (ex_tasks s) \<Longrightarrow> k \<noteq> i \<Longrightarrow> has_row (ex_db s') (ex_tasks s ! k)"
    and "has_row (ex_db s') ((ex_tasks s ! i)\<lparr>tk_phase := q\<rparr>)"
  shows "link_inv s'"
  unfolding link_inv_def assms(2)
proof
  fix t assume "t \<in> set ((ex_tasks s)[i := (ex_tasks s ! i)\<lparr>tk_phase := q\<rparr>])"
  then obtain k where k: "k < length (ex_tasks s)" "t = (ex_tasks s)[i := (ex_tasks s ! i)\<lparr>tk_phase := q\<rparr>] ! k"
    by (metis in_set_conv_nth length_list_update)
  with assms(3) [of k] assms(4) show "has_row (ex_db s') t" by (cases "k = i") auto
qed

text \<open>A task that holds its organization's lock is the only one that can own its job.\<close>

lemma sole_owner:
  assumes inv: "exec_inv P s" and i: "at_phase s i p" "holds_lock p" and k: "k < length (ex_tasks s)" "k \<noteq> i"
    and same: "tk_job (ex_tasks s ! k) = tk_job (ex_tasks s ! i)"
  shows "\<not> owns_job (tk_phase (ex_tasks s ! k))"
proof
  assume own: "owns_job (tk_phase (ex_tasks s ! k))"
  from i have len: "i < length (ex_tasks s)" "tk_phase (ex_tasks s ! i) = p" by (simp_all add: at_phase_def)
  from inv len(1) k(1) have "has_row (ex_db s) (ex_tasks s ! i)" "has_row (ex_db s) (ex_tasks s ! k)"
    by (simp_all add: exec_inv_def link_inv_def)
  then obtain a b where ab: "a \<in> set (jobs (ex_db s))" "j_id a = tk_job (ex_tasks s ! i)" "j_org a = tk_org (ex_tasks s ! i)"
    "b \<in> set (jobs (ex_db s))" "j_id b = tk_job (ex_tasks s ! k)" "j_org b = tk_org (ex_tasks s ! k)"
    unfolding has_row_def by blast
  have "distinct (map j_id (jobs (ex_db s)))" using inv by (simp add: exec_inv_def db_inv_def)
  from unique_row [OF this ab(1) ab(4)] ab(2,5) same have "a = b" by simp
  with ab have org: "tk_org (ex_tasks s ! k) = tk_org (ex_tasks s ! i)" by simp
  have "rowcount (\<lambda>t. tk_org t = tk_org (ex_tasks s ! i) \<and> holds_lock (tk_phase t)) (ex_tasks s) \<le> 1"
    using inv by (simp add: exec_inv_def sched_inv_def)
  from rowcount_two [OF this len(1) k(1)] org own i(2) len(2) owns_holds k(2) show False by auto
qed

text \<open>Ending job \<open>k\<close> of task \<open>i\<close> by an update that keeps keys: the other tasks keep their rows.\<close>

lemma link_finish:
  assumes inv: "exec_inv P s" and i: "at_phase s i p" "holds_lock p"
    and tasks: "ex_tasks s' = (ex_tasks s)[i := (ex_tasks s ! i)\<lparr>tk_phase := Done\<rparr>]"
    and js: "jobs (ex_db s') = sql_update sel f (jobs (ex_db s))"
    and keys: "\<And>j. sel j \<Longrightarrow> j_id j = tk_job (ex_tasks s ! i) \<and> j_id (f j) = j_id j \<and> j_org (f j) = j_org j"
  shows "link_inv s'"
proof (rule link_set_phase [OF i(1) tasks])
  have rows: "has_row (ex_db s) t" if "t \<in> set (ex_tasks s)" for t
    using inv that by (simp add: exec_inv_def link_inv_def)
  fix k assume k: "k < length (ex_tasks s)" "k \<noteq> i"
  show "has_row (ex_db s') (ex_tasks s ! k)"
  proof (rule has_row_update [OF rows [OF nth_mem [OF k(1)]] js])
    fix j assume "sel j" "j_id j = tk_job (ex_tasks s ! k)" "owns_job (tk_phase (ex_tasks s ! k))"
    with keys sole_owner [OF inv i k] show "j_status (f j) = Running" by auto
  qed (use keys in blast)
next
  have "has_row (ex_db s) (ex_tasks s ! i)"
    using inv i(1) by (simp add: exec_inv_def link_inv_def at_phase_def)
  then have "has_row (ex_db s) ((ex_tasks s ! i)\<lparr>tk_phase := Done\<rparr>)" by (auto simp: has_row_def owns_job_def)
  then show "has_row (ex_db s') ((ex_tasks s ! i)\<lparr>tk_phase := Done\<rparr>)"
    by (rule has_row_update [OF _ js]) (use keys in \<open>auto simp: owns_job_def\<close>)
qed

text \<open>Updates that leave running jobs running, under a task that moves without taking a job.\<close>

lemma link_keep:
  assumes inv: "link_inv s" and i: "at_phase s i p"
    and tasks: "ex_tasks s' = (ex_tasks s)[i := (ex_tasks s ! i)\<lparr>tk_phase := q\<rparr>]"
    and js: "jobs (ex_db s') = jobs (ex_db s)" and own: "owns_job q \<Longrightarrow> owns_job p"
  shows "link_inv s'"
proof (rule link_set_phase [OF i tasks])
  have cong: "has_row (ex_db s') t = has_row (ex_db s) t" for t by (simp add: has_row_def js)
  show "has_row (ex_db s') (ex_tasks s ! k)" if "k < length (ex_tasks s)" for k
    using inv that by (simp add: link_inv_def cong)
  have "has_row (ex_db s) (ex_tasks s ! i)" "tk_phase (ex_tasks s ! i) = p"
    using inv i by (simp_all add: link_inv_def at_phase_def)
  with own show "has_row (ex_db s') ((ex_tasks s ! i)\<lparr>tk_phase := q\<rparr>)"
    unfolding cong by (auto simp: has_row_def)
qed

section \<open>Every step keeps the invariant and moves jobs along their life\<close>

lemma job_updates:
  "jobs (finish_job k now st code msg db) = sql_update (unfinished k) (\<lambda>j. j\<lparr>j_status := st, j_error_code := code,
     j_message := Some (take 200 msg), j_progress := 100, j_finished_at := Some now\<rparr>) (jobs db)"
  "jobs (progress_job k percent msg db) = sql_update (progressing k percent)
     (\<lambda>j. j\<lparr>j_progress := percent, j_message := Some (take 200 msg)\<rparr>) (jobs db)"
  by (simp_all add: finish_job_def progress_job_def)

lemma db_inv_finish: "db_inv db \<Longrightarrow> st \<noteq> Succeeded \<Longrightarrow> db_inv (finish_job k now st code msg db)"
  by (erule db_inv_update [OF _ job_updates(1)]) (auto simp: finish_job_def unfinished_def)

lemma db_inv_progress: "db_inv db \<Longrightarrow> db_inv (progress_job k percent msg db)"
  by (erule db_inv_update [OF _ job_updates(2)]) (auto simp: progress_job_def progressing_def)

lemma move_finish: "jobs_move db (finish_job k now Failed code msg db)"
  by (rule jobs_move_update [OF job_updates(1)]) (auto simp: row_moves_def lifecycle_def unfinished_def terminal_def)

lemma move_progress: "jobs_move db (progress_job k percent msg db)"
  by (rule jobs_move_update [OF job_updates(2)]) (auto simp: row_moves_def lifecycle_def progressing_def terminal_def)

lemma claim_job_eq: "claim_job k now db = (n, db') \<Longrightarrow> n = rowcount (claimable k) (jobs db) \<and>
    jobs db' = sql_update (claimable k) (\<lambda>j. j\<lparr>j_status := Running, j_started_at := Some now, j_progress := 5,
      j_message := Some ''starting''\<rparr>) (jobs db) \<and> usage_counters db' = usage_counters db \<and> run_records db' = run_records db"
  by (auto simp: claim_job_def)

lemma claim_none: "claim_job k now db = (n, db') \<Longrightarrow> distinct (map j_id (jobs db)) \<Longrightarrow> n \<noteq> 1 \<Longrightarrow> jobs db' = jobs db"
proof -
  assume c: "claim_job k now db = (n, db')" and d: "distinct (map j_id (jobs db))" and n: "n \<noteq> 1"
  have "rowcount (claimable k) (jobs db) \<le> 1" by (rule rowcount_le_one [OF d, where k = k]) (simp add: claimable_def)
  with claim_job_eq [OF c] n have "rowcount (claimable k) (jobs db) = 0" by linarith
  then have "\<forall>j \<in> set (jobs db). \<not> claimable k j" by (simp add: rowcount_zero)
  from sql_update_none [OF this] claim_job_eq [OF c] show ?thesis by simp
qed

lemma cancel_job_row: "cancel_job rq ctx i db = (res, db') \<Longrightarrow> jobs db' = jobs db \<or>
    (\<exists>k now. jobs db' = sql_update (claimable k) (\<lambda>j. j\<lparr>j_status := Cancelled, j_finished_at := Some now,
       j_message := Some ''cancelled'', j_progress := 0\<rparr>) (jobs db))"
  by (auto simp: cancel_job_def cancel_job_row_def Let_def record_event_known claimable_def [abs_def]
      split: sum.splits if_splits) blast

lemma cancel_job_frame: "cancel_job rq ctx i db = (res, db') \<Longrightarrow>
    usage_counters db' = usage_counters db \<and> run_records db' = run_records db"
  by (auto simp: cancel_job_def cancel_job_row_def Let_def record_event_known split: sum.splits if_splits)

lemma recover_jobs_eq: "recover_jobs now db = (queued, db') \<Longrightarrow>
    queued = map (\<lambda>j. (j_id j, j_org j)) (sort_key j_id (filter (\<lambda>j. j_status j = Queued) (jobs db))) \<and>
    jobs db' = sql_update (\<lambda>j. j_status j = Running) (abandon now) (jobs db) \<and>
    usage_counters db' = usage_counters db \<and> run_records db' = run_records db"
  by (auto simp: recover_jobs_def)

lemma db_inv_cong: "jobs db' = jobs db \<Longrightarrow> usage_counters db' = usage_counters db \<Longrightarrow> run_records db' = run_records db \<Longrightarrow>
    db_inv db' = db_inv db"
  by (simp add: db_inv_def usage_keyed_def runs_total_def)

text \<open>Tasks keep their rows when other requests only touch queued rows or progress.\<close>

lemma link_rows:
  assumes "link_inv s" and "ex_tasks s' = ex_tasks s" and js: "jobs (ex_db s') = sql_update sel f (jobs (ex_db s))"
    and "\<And>j. sel j \<Longrightarrow> j_id (f j) = j_id j \<and> j_org (f j) = j_org j \<and> (j_status j = Running \<longrightarrow> j_status (f j) = Running)"
  shows "link_inv s'"
  unfolding link_inv_def assms(2)
proof
  fix t assume "t \<in> set (ex_tasks s)"
  with assms(1) have "has_row (ex_db s) t" by (simp add: link_inv_def)
  then show "has_row (ex_db s') t" by (rule has_row_update [OF _ js]) (use assms(4) in blast)+
qed

text \<open>One lemma per rule.\<close>

lemma keeps_enqueue:
  assumes inv: "exec_inv P s" and enqueue: "s' = s\<lparr>ex_db := db', ex_tasks := ex_tasks s @ [new_task (j_id j, og)]\<rparr>"
    "queue_job False (ep_cloud P) i ev now host og p body reason (ex_db s) = (Inr j, db')"
  shows "exec_inv P s' \<and> jobs_move (ex_db s) (ex_db s')"
proof -
  note q = queue_job_Inr [OF enqueue(2)]
  have j: "j_status j = Queued" "j_id j = i" "j_org j = og" using q(3) by (simp_all add: new_job_def)
  from inv have d: "db_inv (ex_db s)" and sc: "sched_inv P s" and l: "link_inv s" by (simp_all add: exec_inv_def)
  have "db_inv db'" using db_inv_queue [OF d q(4) _ j(1) q(6,7)] q(5) j(2) by simp
  moreover have "link_inv s'"
    unfolding link_inv_def enqueue(1)
  proof
    fix t assume "t \<in> set (ex_tasks (s\<lparr>ex_db := db', ex_tasks := ex_tasks s @ [new_task (j_id j, og)]\<rparr>))"
    then consider "t \<in> set (ex_tasks s)" | "t = new_task (j_id j, og)" by auto
    then show "has_row (ex_db (s\<lparr>ex_db := db', ex_tasks := ex_tasks s @ [new_task (j_id j, og)]\<rparr>)) t"
    proof cases
      case 1
      with l have "has_row (ex_db s) t" by (simp add: link_inv_def)
      from has_row_append [OF this q(4)] show ?thesis by simp
    next
      case 2
      with q(4) j show ?thesis by (auto simp: has_row_def new_task_def owns_job_def)
    qed
  qed
  ultimately show ?thesis
    using sched_add [OF sc, of s' "(j_id j, og)"] jobs_move_append [OF q(4)] enqueue(1) by (simp add: exec_inv_def)
qed

lemma keeps_cancel:
  assumes inv: "exec_inv P s" and cancel: "s' = s\<lparr>ex_db := db'\<rparr>"
    "cancel_job rq ctx i (ex_db s) = (res, db')"
  shows "exec_inv P s' \<and> jobs_move (ex_db s) (ex_db s')"
proof -
  from inv have d: "db_inv (ex_db s)" and sc: "sched_inv P s" and l: "link_inv s" by (simp_all add: exec_inv_def)
  note frame = cancel_job_frame [OF cancel(2)]
  from sched_same [OF sc, of s'] cancel(1) have sc': "sched_inv P s'" by simp
  from cancel_job_row [OF cancel(2)] show ?thesis
  proof
    assume same: "jobs db' = jobs (ex_db s)"
    have "db_inv db'" using db_inv_cong [OF same] frame d by simp
    moreover have "link_inv s'" using l cancel(1) same by (simp add: link_inv_def has_row_def)
    ultimately show ?thesis using sc' cancel(1) jobs_move_append [of db' "ex_db s" "[]"] same by (simp add: exec_inv_def)
  next
    assume "\<exists>k now. jobs db' = sql_update (claimable k) (\<lambda>j. j\<lparr>j_status := Cancelled, j_finished_at := Some now,
       j_message := Some ''cancelled'', j_progress := 0\<rparr>) (jobs (ex_db s))"
    then obtain k now where js: "jobs db' = sql_update (claimable k) (\<lambda>j. j\<lparr>j_status := Cancelled, j_finished_at := Some now,
       j_message := Some ''cancelled'', j_progress := 0\<rparr>) (jobs (ex_db s))" by blast
    have "db_inv db'" by (rule db_inv_update [OF d js]) (use frame in \<open>auto simp: claimable_def\<close>)
    moreover have "link_inv s'"
      by (rule link_rows [OF l, of s' "claimable k"]) (use cancel(1) js in \<open>auto simp: claimable_def\<close>)
    moreover have "jobs_move (ex_db s) db'"
      by (rule jobs_move_update [OF js]) (auto simp: row_moves_def lifecycle_def claimable_def terminal_def)
    ultimately show ?thesis using sc' cancel(1) by (simp add: exec_inv_def)
  qed
qed

lemma keeps_lock:
  assumes inv: "exec_inv P s" and lock: "s' = set_phase i Locked s"
    "at_phase s i Waiting"
    "lock_free (tk_org (ex_tasks s ! i)) (ex_tasks s)"
  shows "exec_inv P s' \<and> jobs_move (ex_db s) (ex_db s')"
proof -
  from inv have d: "db_inv (ex_db s)" and sc: "sched_inv P s" and l: "link_inv s" by (simp_all add: exec_inv_def)
  have "sched_inv P s'"
    by (rule sched_set_phase [OF sc lock(2), where q = Locked]) (use lock in \<open>auto simp: set_phase_def holds_slot_def\<close>)
  moreover have "link_inv s'"
    by (rule link_keep [OF l lock(2), where q = Locked]) (use lock(1) in \<open>auto simp: set_phase_def owns_job_def\<close>)
  ultimately show ?thesis using d lock(1) jobs_move_append [of "ex_db s" "ex_db s" "[]"] by (simp add: exec_inv_def set_phase_def)
qed

lemma keeps_slot:
  assumes inv: "exec_inv P s" and slot: "s' = set_phase i Ready s"
    "at_phase s i Locked"
    "slots_used (ex_tasks s) < ep_max_runs P"
  shows "exec_inv P s' \<and> jobs_move (ex_db s) (ex_db s')"
proof -
  from inv have d: "db_inv (ex_db s)" and sc: "sched_inv P s" and l: "link_inv s" by (simp_all add: exec_inv_def)
  have "sched_inv P s'"
    by (rule sched_set_phase [OF sc slot(2), where q = Ready]) (use slot in \<open>auto simp: set_phase_def holds_lock_def\<close>)
  moreover have "link_inv s'"
    by (rule link_keep [OF l slot(2), where q = Ready]) (use slot(1) in \<open>auto simp: set_phase_def owns_job_def\<close>)
  ultimately show ?thesis using d slot(1) jobs_move_append [of "ex_db s" "ex_db s" "[]"] by (simp add: exec_inv_def set_phase_def)
qed

lemma keeps_claim:
  assumes inv: "exec_inv P s" and claim: "s' = set_phase i Claimed (s\<lparr>ex_db := db'\<rparr>)"
    "at_phase s i Ready"
    "claim_job (tk_job (ex_tasks s ! i)) now (ex_db s) = (1, db')"
  shows "exec_inv P s' \<and> jobs_move (ex_db s) (ex_db s')"
proof -
  from inv have d: "db_inv (ex_db s)" and sc: "sched_inv P s" and l: "link_inv s" by (simp_all add: exec_inv_def)
  note c = claim_job_eq [OF claim(3)]
  then have js: "jobs db' = sql_update (claimable (tk_job (ex_tasks s ! i))) (\<lambda>j. j\<lparr>j_status := Running,
      j_started_at := Some now, j_progress := 5, j_message := Some ''starting''\<rparr>) (jobs (ex_db s))" by blast
  have "db_inv db'" by (rule db_inv_update [OF d js]) (use c in \<open>auto simp: claimable_def\<close>)
  moreover have "sched_inv P s'"
    by (rule sched_set_phase [OF sc claim(2), where q = Claimed])
      (use claim(1) in \<open>auto simp: set_phase_def holds_lock_def holds_slot_def\<close>)
  moreover have "jobs_move (ex_db s) db'"
    by (rule jobs_move_update [OF js]) (auto simp: row_moves_def lifecycle_def claimable_def terminal_def)
  moreover have "link_inv s'"
  proof (rule link_set_phase [OF claim(2), where q = Claimed])
    show "ex_tasks s' = (ex_tasks s)[i := (ex_tasks s ! i)\<lparr>tk_phase := Claimed\<rparr>]" using claim(1) by (simp add: set_phase_def)
    have db: "ex_db s' = db'" using claim(1) by (simp add: set_phase_def)
    show "has_row (ex_db s') (ex_tasks s ! k)" if "k < length (ex_tasks s)" for k
    proof -
      have "has_row (ex_db s) (ex_tasks s ! k)" using l that by (simp add: link_inv_def)
      then show ?thesis unfolding db by (rule has_row_update [OF _ js]) (auto simp: claimable_def)
    qed
    have ti: "i < length (ex_tasks s)" using claim(2) by (simp add: at_phase_def)
    with l have "has_row (ex_db s) (ex_tasks s ! i)" by (simp add: link_inv_def)
    then obtain j where j: "j \<in> set (jobs (ex_db s))" "j_id j = tk_job (ex_tasks s ! i)" "j_org j = tk_org (ex_tasks s ! i)"
      by (auto simp: has_row_def)
    from c have "rowcount (claimable (tk_job (ex_tasks s ! i))) (jobs (ex_db s)) = 1" by simp
    from rowcount_one_ex [OF this] obtain j1 where j1: "j1 \<in> set (jobs (ex_db s))" "claimable (tk_job (ex_tasks s ! i)) j1" by blast
    have "j1 = j" using unique_row [of j_id "jobs (ex_db s)" j1 j] d j j1 by (simp add: db_inv_def claimable_def)
    with j j1 have "j\<lparr>j_status := Running, j_started_at := Some now, j_progress := 5, j_message := Some ''starting''\<rparr> \<in> set (jobs db')"
      unfolding js set_sql_update by blast
    with j show "has_row (ex_db s') ((ex_tasks s ! i)\<lparr>tk_phase := Claimed\<rparr>)"
      unfolding db has_row_def by (intro bexI) auto
  qed
  ultimately show ?thesis using claim(1) by (simp add: exec_inv_def set_phase_def)
qed

lemma keeps_skip:
  assumes inv: "exec_inv P s" and skip: "s' = set_phase i Done (s\<lparr>ex_db := db'\<rparr>)"
    "at_phase s i Ready"
    "claim_job (tk_job (ex_tasks s ! i)) now (ex_db s) = (n, db')"
    "n \<noteq> 1"
  shows "exec_inv P s' \<and> jobs_move (ex_db s) (ex_db s')"
proof -
  from inv have d: "db_inv (ex_db s)" and sc: "sched_inv P s" and l: "link_inv s" by (simp_all add: exec_inv_def)
  have dj: "distinct (map j_id (jobs (ex_db s)))" using d by (simp add: db_inv_def)
  note same = claim_none [OF skip(3) dj skip(4)]
  have "sched_inv P s'"
    by (rule sched_set_phase [OF sc skip(2), where q = Done])
      (use skip(1) in \<open>auto simp: set_phase_def holds_lock_def holds_slot_def\<close>)
  moreover have "link_inv s'"
    by (rule link_keep [OF l skip(2), where q = Done]) (use skip(1) same in \<open>auto simp: set_phase_def owns_job_def\<close>)
  moreover have "db_inv db'" using db_inv_cong [OF same] claim_job_eq [OF skip(3)] d by simp
  ultimately show ?thesis using skip(1) jobs_move_append [of db' "ex_db s" "[]"] same by (simp add: exec_inv_def set_phase_def)
qed

lemma keeps_refuse:
  assumes inv: "exec_inv P s" and refuse: "s' = set_phase i Done (s\<lparr>ex_db := finish_job (tk_job (ex_tasks s ! i)) now Failed (Some code) msg (ex_db s)\<rparr>)"
    "at_phase s i Claimed"
  shows "exec_inv P s' \<and> jobs_move (ex_db s) (ex_db s')"
proof -
  from inv have d: "db_inv (ex_db s)" and sc: "sched_inv P s" by (simp_all add: exec_inv_def)
  have tasks: "ex_tasks s' = (ex_tasks s)[i := (ex_tasks s ! i)\<lparr>tk_phase := Done\<rparr>]" using refuse(1) by (simp add: set_phase_def)
  have js: "jobs (ex_db s') = sql_update (unfinished (tk_job (ex_tasks s ! i))) (\<lambda>j. j\<lparr>j_status := Failed,
      j_error_code := Some code, j_message := Some (take 200 msg), j_progress := 100, j_finished_at := Some now\<rparr>) (jobs (ex_db s))"
    using refuse(1) by (simp add: set_phase_def job_updates)
  have "sched_inv P s'"
    by (rule sched_set_phase [OF sc refuse(2) tasks])
      (use refuse(1) in \<open>auto simp: set_phase_def holds_lock_def holds_slot_def\<close>)
  moreover have "link_inv s'"
    by (rule link_finish [OF inv refuse(2) _ tasks js]) (auto simp: holds_lock_def unfinished_def)
  ultimately show ?thesis using refuse(1) db_inv_finish [OF d, of Failed] move_finish
    by (simp add: exec_inv_def set_phase_def)
qed

lemma keeps_start:
  assumes inv: "exec_inv P s" and start: "s' = set_phase i Executing (s\<lparr>ex_running_now := ex_running_now s + 1,
      ex_max_seen := max (ex_max_seen s) (ex_running_now s + 1)\<rparr>)"
    "at_phase s i Claimed"
  shows "exec_inv P s' \<and> jobs_move (ex_db s) (ex_db s')"
proof -
  from inv have d: "db_inv (ex_db s)" and sc: "sched_inv P s" and l: "link_inv s" by (simp_all add: exec_inv_def)
  have "sched_inv P s'"
    by (rule sched_set_phase [OF sc start(2), where q = Executing])
      (use start(1) in \<open>auto simp: set_phase_def holds_lock_def holds_slot_def\<close>)
  moreover have "link_inv s'"
    by (rule link_keep [OF l start(2), where q = Executing]) (use start(1) in \<open>auto simp: set_phase_def owns_job_def\<close>)
  ultimately show ?thesis using d start(1) jobs_move_append [of "ex_db s" "ex_db s" "[]"] by (simp add: exec_inv_def set_phase_def)
qed

lemma keeps_progress:
  assumes inv: "exec_inv P s" and progress: "s' = s\<lparr>ex_db := progress_job k percent msg (ex_db s)\<rparr>"
  shows "exec_inv P s' \<and> jobs_move (ex_db s) (ex_db s')"
proof -
  from inv have d: "db_inv (ex_db s)" and sc: "sched_inv P s" and l: "link_inv s" by (simp_all add: exec_inv_def)
  have "link_inv s'"
    by (rule link_rows [OF l, of s' "progressing k percent"]) (use progress in \<open>auto simp: job_updates\<close>)
  with sched_same [OF sc, of s'] db_inv_progress [OF d] move_progress progress show ?thesis by (simp add: exec_inv_def)
qed

lemma keeps_return:
  assumes inv: "exec_inv P s" and return: "s' = set_phase i (Returned r) (s\<lparr>ex_running_now := ex_running_now s - 1\<rparr>)"
    "at_phase s i Executing"
  shows "exec_inv P s' \<and> jobs_move (ex_db s) (ex_db s')"
proof -
  from inv have d: "db_inv (ex_db s)" and sc: "sched_inv P s" and l: "link_inv s" by (simp_all add: exec_inv_def)
  have "sched_inv P s'"
    by (rule sched_set_phase [OF sc return(2), where q = "Returned r"])
      (use return(1) in \<open>auto simp: set_phase_def holds_lock_def holds_slot_def\<close>)
  moreover have "link_inv s'"
    by (rule link_keep [OF l return(2), where q = "Returned r"]) (use return(1) in \<open>auto simp: set_phase_def owns_job_def\<close>)
  ultimately show ?thesis using d return(1) jobs_move_append [of "ex_db s" "ex_db s" "[]"] by (simp add: exec_inv_def set_phase_def)
qed

lemma keeps_complete:
  assumes inv: "exec_inv P s" and complete: "s' = set_phase i Done (s\<lparr>ex_db := db'\<rparr>)"
    "at_phase s i (Returned r)"
    "complete_job ev now (tk_job (ex_tasks s ! i)) (tk_org (ex_tasks s ! i)) pipeline r (ex_db s) = Inr db'"
  shows "exec_inv P s' \<and> jobs_move (ex_db s) (ex_db s')"
proof -
  from inv have d: "db_inv (ex_db s)" and sc: "sched_inv P s" and l: "link_inv s" by (simp_all add: exec_inv_def)
  note c = complete_job_Inr [OF d complete(3)]
  have ti: "i < length (ex_tasks s)" "tk_phase (ex_tasks s ! i) = Returned r" using complete(2) by (simp_all add: at_phase_def)
  with l have "has_row (ex_db s) (ex_tasks s ! i)" by (simp add: link_inv_def)
  with ti obtain j where j: "j \<in> set (jobs (ex_db s))" "j_id j = tk_job (ex_tasks s ! i)" "j_org j = tk_org (ex_tasks s ! i)"
    "j_status j = Running" by (auto simp: has_row_def owns_job_def)
  have only: "x = j" if "x \<in> set (jobs (ex_db s))" "j_id x = tk_job (ex_tasks s ! i)" for x
    using unique_row [of j_id "jobs (ex_db s)" x j] d j that by (simp add: db_inv_def)
  have tasks: "ex_tasks s' = (ex_tasks s)[i := (ex_tasks s ! i)\<lparr>tk_phase := Done\<rparr>]" and db: "ex_db s' = db'"
    using complete(1) by (simp_all add: set_phase_def)
  have "sched_inv P s'"
    by (rule sched_set_phase [OF sc complete(2) tasks])
      (use complete(1) in \<open>auto simp: set_phase_def holds_lock_def holds_slot_def\<close>)
  moreover have "link_inv s'"
    by (rule link_finish [OF inv complete(2) _ tasks, where sel = "\<lambda>j. j_id j = tk_job (ex_tasks s ! i)" and f = "settle now r"])
      (use c(1) db in \<open>auto simp: holds_lock_def settle_def\<close>)
  moreover have "db_inv db'" by (rule db_inv_complete [OF d complete(3) j])
  moreover have "jobs_move (ex_db s) db'"
    by (rule jobs_move_update [OF c(1)]) (use only j in \<open>auto simp: row_moves_def lifecycle_def settle_def terminal_def\<close>)
  ultimately show ?thesis using db by (simp add: exec_inv_def)
qed

lemma keeps_crash:
  assumes inv: "exec_inv P s" and crash: "s' = set_phase i Done (s\<lparr>ex_running_now := (if p = Executing then ex_running_now s - 1 else ex_running_now s),
      ex_db := finish_job (tk_job (ex_tasks s ! i)) now Failed (Some ''internal_error'') ''internal error'' (ex_db s)\<rparr>)"
    "at_phase s i p"
    "holds_slot p"
  shows "exec_inv P s' \<and> jobs_move (ex_db s) (ex_db s')"
proof -
  from inv have d: "db_inv (ex_db s)" and sc: "sched_inv P s" by (simp_all add: exec_inv_def)
  have tasks: "ex_tasks s' = (ex_tasks s)[i := (ex_tasks s ! i)\<lparr>tk_phase := Done\<rparr>]" using crash(1) by (simp add: set_phase_def)
  have js: "jobs (ex_db s') = sql_update (unfinished (tk_job (ex_tasks s ! i))) (\<lambda>j. j\<lparr>j_status := Failed,
      j_error_code := Some ''internal_error'', j_message := Some (take 200 ''internal error''), j_progress := 100,
      j_finished_at := Some now\<rparr>) (jobs (ex_db s))"
    using crash(1) by (simp add: set_phase_def job_updates)
  have "sched_inv P s'"
    by (rule sched_set_phase [OF sc crash(2) tasks])
      (use crash(1) in \<open>auto simp: set_phase_def holds_lock_def holds_slot_def\<close>)
  moreover have "link_inv s'"
    by (rule link_finish [OF inv crash(2) _ tasks js]) (use crash(3) in \<open>auto simp: holds_lock_def holds_slot_def unfinished_def\<close>)
  ultimately show ?thesis using crash(1) db_inv_finish [OF d, of Failed] move_finish
    by (simp add: exec_inv_def set_phase_def)
qed

lemma keeps_restart:
  assumes inv: "exec_inv P s" and restart: "s' = \<lparr>ex_db = db', ex_tasks = map new_task queued, ex_running_now = 0, ex_max_seen = 0\<rparr>"
    "recover_jobs now (ex_db s) = (queued, db')"
  shows "exec_inv P s' \<and> jobs_move (ex_db s) (ex_db s')"
proof -
  from inv have d: "db_inv (ex_db s)" by (simp_all add: exec_inv_def)
  note r = recover_jobs_eq [OF restart(2)]
  then have js: "jobs db' = sql_update (\<lambda>j. j_status j = Running) (abandon now) (jobs (ex_db s))" by blast
  have "db_inv db'" by (rule db_inv_update [OF d js]) (use r in \<open>auto simp: abandon_def\<close>)
  moreover have "jobs_move (ex_db s) db'"
    by (rule jobs_move_update [OF js]) (auto simp: row_moves_def lifecycle_def abandon_def terminal_def)
  moreover have "link_inv s'"
    unfolding link_inv_def
  proof
    fix t assume "t \<in> set (ex_tasks s')"
    with restart(1) r obtain j where j: "j \<in> set (jobs (ex_db s))" "j_status j = Queued" "t = new_task (j_id j, j_org j)" by auto
    then have "j \<in> set (jobs db')" unfolding js set_sql_update by simp
    with j restart(1) show "has_row (ex_db s') t" by (auto simp: has_row_def new_task_def owns_job_def)
  qed
  moreover have "sched_inv P s'"
  proof -
    have "rowcount Q (map new_task qs) = 0" if "\<And>jo. \<not> Q (new_task jo)" for Q and qs :: "(ident \<times> ident) list"
      using that by (simp add: rowcount_zero)
    with restart(1) show ?thesis
      by (simp add: sched_inv_def slots_used_def new_task_def holds_lock_def holds_slot_def)
  qed
  ultimately show ?thesis using restart(1) by (simp add: exec_inv_def)
qed

lemma exec_step_keeps:
  assumes "exec_step P s s'" and inv: "exec_inv P s"
  shows "exec_inv P s' \<and> jobs_move (ex_db s) (ex_db s')"
  using assms(1)
proof (cases rule: exec_step.cases)
  case enqueue
  then show ?thesis by (intro keeps_enqueue [OF inv]) 
next
  case cancel
  then show ?thesis by (intro keeps_cancel [OF inv]) 
next
  case lock
  then show ?thesis by (intro keeps_lock [OF inv]) 
next
  case slot
  then show ?thesis by (intro keeps_slot [OF inv]) 
next
  case claim
  then show ?thesis by (intro keeps_claim [OF inv]) 
next
  case skip
  then show ?thesis by (intro keeps_skip [OF inv]) 
next
  case refuse
  then show ?thesis by (intro keeps_refuse [OF inv]) 
next
  case start
  then show ?thesis by (intro keeps_start [OF inv]) 
next
  case progress
  then show ?thesis by (intro keeps_progress [OF inv]) 
next
  case return
  then show ?thesis by (intro keeps_return [OF inv]) 
next
  case complete
  then show ?thesis by (intro keeps_complete [OF inv]) 
next
  case crash
  then show ?thesis by (intro keeps_crash [OF inv]) 
next
  case restart
  then show ?thesis by (intro keeps_restart [OF inv]) 
qed

end
