(* ===== verification/ExecutorSafety.thy ===== *)
theory ExecutorSafety
  imports ExecutorInvariant
begin

text \<open>
  Runs of the executor: the process boots on the database another one left and takes any steps. Mutual exclusion,
  refinement of the life of a job, finality, usage, and that no job is lost: from every reachable state the tasks
  can finish every job.
\<close>

section \<open>Runs\<close>

definition reaches :: "job_status \<Rightarrow> job_status \<Rightarrow> bool" where
  "reaches a b = (a = b \<or> a = Queued \<or> (a = Running \<and> (b = Succeeded \<or> b = Failed)))"

definition row_later :: "job \<Rightarrow> job \<Rightarrow> bool" where
  "row_later j j' = (j_id j' = j_id j \<and> j_org j' = j_org j \<and> reaches (j_status j) (j_status j') \<and>
     (terminal (j_status j) \<longrightarrow> j' = j) \<and>
     (j_status j = Running \<and> j_status j' = Running \<longrightarrow> j_progress j \<le> j_progress j'))"

definition jobs_later :: "exec \<Rightarrow> exec \<Rightarrow> bool" where
  "jobs_later s s' = (\<forall>j \<in> set (jobs (ex_db s)). \<exists>j' \<in> set (jobs (ex_db s')). row_later j j')"

lemma row_later_trans:
  assumes "row_later a b" and "row_later b c"
  shows "row_later a c"
proof -
  have "reaches (j_status a) (j_status c)" using assms by (auto simp: row_later_def reaches_def)
  moreover have "c = a" if "terminal (j_status a)" using assms that by (auto simp: row_later_def)
  moreover have "j_progress a \<le> j_progress c" if "j_status a = Running" "j_status c = Running"
  proof -
    from assms that have "j_status b = Running" by (auto simp: row_later_def reaches_def)
    with assms that show ?thesis by (auto simp: row_later_def)
  qed
  ultimately show ?thesis using assms by (simp add: row_later_def)
qed

lemma jobs_later_trans: "jobs_later s t \<Longrightarrow> jobs_later t u \<Longrightarrow> jobs_later s u"
  unfolding jobs_later_def by (meson row_later_trans)

lemma jobs_later_refl: "jobs_later s s"
  unfolding jobs_later_def by (auto simp: row_later_def reaches_def)

lemma row_moves_later: "row_moves j j' \<Longrightarrow> row_later j j'"
  by (auto simp: row_moves_def row_later_def lifecycle_def reaches_def)

lemma jobs_move_later: "jobs_move (ex_db s) (ex_db s') \<Longrightarrow> jobs_later s s'"
  unfolding jobs_later_def jobs_move_def by (meson row_moves_later)

interpretation executor: transitions "exec_step P" "exec_inv P" jobs_later for P
proof unfold_locales
  show "exec_inv P t" if "exec_inv P s" "exec_step P s t" for s t using exec_step_keeps that by blast
  show "jobs_later s t" if "exec_inv P s" "exec_step P s t" for s t using exec_step_keeps jobs_move_later that by blast
qed (rule jobs_later_refl, erule jobs_later_trans)

text \<open>The process as \<open>start\<close> leaves it, on the database of the one before.\<close>

definition boot :: "stamp \<Rightarrow> cdb \<Rightarrow> exec" where
  "boot now db = (let (queued, db') = recover_jobs now db
     in \<lparr>ex_db = db', ex_tasks = map new_task queued, ex_running_now = 0, ex_max_seen = 0\<rparr>)"

lemma idle_inv: "db_inv db \<Longrightarrow> exec_inv P \<lparr>ex_db = db, ex_tasks = [], ex_running_now = 0, ex_max_seen = 0\<rparr>"
  by (simp add: exec_inv_def sched_inv_def link_inv_def slots_used_def)

lemma boot_step: "exec_step P \<lparr>ex_db = db, ex_tasks = [], ex_running_now = 0, ex_max_seen = 0\<rparr> (boot now db)"
  using exec_step.restart [of now "\<lparr>ex_db = db, ex_tasks = [], ex_running_now = 0, ex_max_seen = 0\<rparr>" _ _ P]
  by (simp add: boot_def case_prod_beta)

lemma boot_inv: "db_inv db \<Longrightarrow> exec_inv P (boot now db)"
  using exec_step_keeps [OF boot_step idle_inv] by blast

lemma run_inv_later: "db_inv db \<Longrightarrow> (exec_step P)\<^sup>*\<^sup>* (boot now db) s \<Longrightarrow> exec_inv P s"
  using executor.reach_inv_later boot_inv by blast

text \<open>New rows come from \<open>queue_job\<close> only.\<close>

lemma ids_sql_update:
  assumes "jobs db' = sql_update sel f (jobs db)" and "\<And>j. sel j \<Longrightarrow> j_id (f j) = j_id j"
  shows "j_id ` set (jobs db') = j_id ` set (jobs db)"
proof -
  have "map j_id (jobs db') = map j_id (jobs db)" using assms by (auto simp: sql_update_def)
  then show ?thesis by (metis list.set_map)
qed

lemma claim_ids: "claim_job k now db = (n, db') \<Longrightarrow> j_id ` set (jobs db') = j_id ` set (jobs db)"
  by (drule claim_job_eq, elim conjE, erule ids_sql_update) auto

lemma cancel_ids: "cancel_job rq ctx i db = (res, db') \<Longrightarrow> j_id ` set (jobs db') = j_id ` set (jobs db)"
  by (drule cancel_job_row, elim disjE exE, simp, erule ids_sql_update) auto

lemma finish_ids: "j_id ` set (jobs (finish_job k now st code msg db)) = j_id ` set (jobs db)"
  by (rule ids_sql_update [OF job_updates(1)]) simp

lemma progress_ids: "j_id ` set (jobs (progress_job k percent msg db)) = j_id ` set (jobs db)"
  by (rule ids_sql_update [OF job_updates(2)]) simp

lemma recover_ids: "recover_jobs now db = (q, db') \<Longrightarrow> j_id ` set (jobs db') = j_id ` set (jobs db)"
  by (drule recover_jobs_eq, elim conjE, erule ids_sql_update) (simp add: abandon_def)

lemma new_jobs_queued:
  assumes "exec_step P s s'" and inv: "exec_inv P s" and j: "j \<in> set (jobs (ex_db s'))"
  shows "j_id j \<in> j_id ` set (jobs (ex_db s)) \<or> j_status j = Queued"
  using assms(1)
proof (cases rule: exec_step.cases)
  case (enqueue i ev now host og p body reason jb db')
  from queue_job_Inr [OF enqueue(2)] j enqueue(1) show ?thesis by (auto simp: new_job_def)
next
  case (cancel rq ctx i res db')
  from cancel_ids [OF cancel(2)] j cancel(1) show ?thesis by auto
next
  case (claim i now db')
  from claim_ids [OF claim(3)] j claim(1) show ?thesis by (auto simp: set_phase_def)
next
  case (skip i now n db')
  from claim_ids [OF skip(3)] j skip(1) show ?thesis by (auto simp: set_phase_def)
next
  case (refuse i ja code msg now)
  with j have "j_id j \<in> j_id ` set (jobs (finish_job (tk_job (ex_tasks s ! i)) now Failed (Some code) msg (ex_db s)))"
    by (simp add: set_phase_def)
  then show ?thesis unfolding finish_ids by blast
next
  case (crash i p now)
  with j have "j_id j \<in> j_id ` set (jobs (finish_job (tk_job (ex_tasks s ! i)) now Failed (Some ''internal_error'')
      ''internal error'' (ex_db s)))"
    by (simp add: set_phase_def)
  then show ?thesis unfolding finish_ids by blast
next
  case (progress k percent msg)
  with j have "j_id j \<in> j_id ` set (jobs (progress_job k percent msg (ex_db s)))" by simp
  then show ?thesis unfolding progress_ids by blast
next
  case (complete i r ev now pipeline db')
  have d: "db_inv (ex_db s)" using inv by (simp add: exec_inv_def)
  have "j_id ` set (jobs db') = j_id ` set (jobs (ex_db s))"
    by (rule ids_sql_update [OF complete_job_Inr(1) [OF d complete(3)]]) (simp add: settle_def)
  with j complete(1) show ?thesis by (auto simp: set_phase_def)
next
  case (restart now queued db')
  from recover_ids [OF restart(2)] j restart(1) show ?thesis by auto
qed (use j in \<open>auto simp: set_phase_def\<close>)

section \<open>Properties\<close>

text \<open>C10. Isolation of runs: in every state the executor can reach, whatever the interleaving, two tasks of one
  organization never run at the same time, at most \<open>max_concurrent_runs\<close> tasks hold a slot, and the counters
  report exactly that.\<close>

theorem one_run_per_organization:
  assumes db: "db_inv db" and reach: "(exec_step P)\<^sup>*\<^sup>* (boot now db) s"
    and i: "at_phase s i p" "holds_lock p" and k: "at_phase s k q" "holds_lock q"
    and same: "tk_org (ex_tasks s ! i) = tk_org (ex_tasks s ! k)"
  shows "i = k \<and> slots_used (ex_tasks s) \<le> ep_max_runs P \<and>
    ex_running_now s = int (rowcount (\<lambda>t. tk_phase t = Executing) (ex_tasks s)) \<and> ex_max_seen s \<le> int (ep_max_runs P)"
proof -
  have inv: "sched_inv P s" using run_inv_later [OF db reach] by (simp add: exec_inv_def)
  then have "rowcount (\<lambda>t. tk_org t = tk_org (ex_tasks s ! k) \<and> holds_lock (tk_phase t)) (ex_tasks s) \<le> 1"
    by (simp add: sched_inv_def)
  from rowcount_two [OF this, of i k] i k same have "i = k" by (simp add: at_phase_def)
  with inv show ?thesis by (simp add: sched_inv_def)
qed

definition status_of :: "cdb \<Rightarrow> ident \<Rightarrow> job_status option" where
  "status_of db k = map_option j_status (get_job k db)"

definition lifecycle_step :: "(ident \<Rightarrow> job_status option) \<Rightarrow> (ident \<Rightarrow> job_status option) \<Rightarrow> bool" where
  "lifecycle_step m m' = (\<forall>k a. m k = Some a \<longrightarrow> (\<exists>b. m' k = Some b \<and> lifecycle a b))"

lemma status_of_row: "distinct (map j_id (jobs db)) \<Longrightarrow> j \<in> set (jobs db) \<Longrightarrow> status_of db (j_id j) = Some (j_status j)"
  by (simp add: status_of_def get_job_def sql_first_unique)

text \<open>C11. The executor refines the life of a job: whatever happens in one step, the status of every job stays or moves
  as queued to running, cancelled or failed, or running to succeeded or failed; jobs appear queued and never
  disappear.\<close>

theorem executor_refines_lifecycle:
  assumes db: "db_inv db" and reach: "(exec_step P)\<^sup>*\<^sup>* (boot now db) s" and step: "exec_step P s s'"
  shows "lifecycle_step (status_of (ex_db s)) (status_of (ex_db s')) \<and>
    (\<forall>k a. status_of (ex_db s) k = None \<and> status_of (ex_db s') k = Some a \<longrightarrow> a = Queued)"
proof -
  have inv: "exec_inv P s" by (rule run_inv_later [OF db reach])
  note keep = exec_step_keeps [OF step inv]
  have d: "distinct (map j_id (jobs (ex_db s)))" "distinct (map j_id (jobs (ex_db s')))"
    using inv keep by (simp_all add: exec_inv_def db_inv_def)
  have "\<exists>b. status_of (ex_db s') k = Some b \<and> lifecycle a b" if "status_of (ex_db s) k = Some a" for k a
  proof -
    from that obtain j where j: "j \<in> set (jobs (ex_db s))" "j_id j = k" "j_status j = a"
      by (auto simp: status_of_def get_job_def dest: sql_first_Some)
    with keep obtain j' where j': "j' \<in> set (jobs (ex_db s'))" "row_moves j j'" unfolding jobs_move_def by blast
    then have "j_id j' = k" "lifecycle a (j_status j')" using j by (simp_all add: row_moves_def)
    with status_of_row [OF d(2) j'(1)] show ?thesis by auto
  qed
  moreover have "a = Queued" if new: "status_of (ex_db s) k = None" "status_of (ex_db s') k = Some a" for k a
  proof -
    from new(2) obtain j' where j': "j' \<in> set (jobs (ex_db s'))" "j_id j' = k" "j_status j' = a"
      by (auto simp: status_of_def get_job_def dest: sql_first_Some)
    have old: "\<forall>j \<in> set (jobs (ex_db s)). j_id j \<noteq> k"
      using new(1) by (auto simp: status_of_def get_job_def sql_first_None)
    from new_jobs_queued [OF step inv j'(1)] j' old show ?thesis by auto
  qed
  ultimately show ?thesis unfolding lifecycle_step_def by blast
qed

text \<open>What is finished stays finished: once a job has succeeded, failed or been cancelled, its row never changes
  again (late progress callbacks, crashes, cancellations and restarts included), and while it runs its progress
  never goes back.\<close>

theorem finished_jobs_are_final:
  assumes db: "db_inv db" and reach: "(exec_step P)\<^sup>*\<^sup>* (boot now db) s" and more: "(exec_step P)\<^sup>*\<^sup>* s s'"
    and j: "j \<in> set (jobs (ex_db s))"
  shows "(terminal (j_status j) \<longrightarrow> j \<in> set (jobs (ex_db s'))) \<and>
    (\<forall>j' \<in> set (jobs (ex_db s')). j_id j' = j_id j \<and> j_status j = Running \<and> j_status j' = Running \<longrightarrow>
       j_progress j \<le> j_progress j')"
proof -
  have inv: "exec_inv P s" by (rule run_inv_later [OF db reach])
  from executor.reach_inv_later [OF more inv] have inv': "exec_inv P s'" and later: "jobs_later s s'" by blast+
  from later j obtain j1 where j1: "j1 \<in> set (jobs (ex_db s'))" "row_later j j1" unfolding jobs_later_def by blast
  have "j' = j1" if "j' \<in> set (jobs (ex_db s'))" "j_id j' = j_id j" for j'
    using unique_row [of j_id "jobs (ex_db s')" j' j1] inv' that j1 by (simp add: exec_inv_def db_inv_def row_later_def)
  with j1 show ?thesis by (auto simp: row_later_def)
qed

text \<open>C12. Usage is what was delivered: in every reachable state the runs counted for an organization, over all
  months, are exactly its succeeded jobs, and every succeeded job has the record of its run; failed, abandoned,
  cancelled and empty runs are not charged.\<close>

theorem usage_counts_succeeded_jobs:
  assumes db: "db_inv db" and reach: "(exec_step P)\<^sup>*\<^sup>* (boot now db) s"
  shows "runs_total og (ex_db s) = int (rowcount (succeeded_of og) (jobs (ex_db s))) \<and>
    (\<forall>j \<in> set (jobs (ex_db s)). j_status j = Succeeded \<longrightarrow>
       (\<exists>r \<in> set (run_records (ex_db s)). j_run j = Some (rr_id r) \<and> rr_job r = Some (j_id j) \<and> rr_org r = j_org j))"
  using run_inv_later [OF db reach] by (simp add: exec_inv_def db_inv_def recorded_def)


section \<open>No job is lost\<close>

text \<open>Every job that is not finished has a task that will look at it, and a running one a task that owns it.\<close>

definition covered :: "cdb \<Rightarrow> exec_task list \<Rightarrow> bool" where
  "covered db ts = (\<forall>j \<in> set (jobs db). \<not> terminal (j_status j) \<longrightarrow>
     (\<exists>t \<in> set ts. tk_job t = j_id j \<and> tk_phase t \<noteq> Done \<and> (j_status j = Running \<longrightarrow> owns_job (tk_phase t))))"

lemma covered_cong: "jobs db' = jobs db \<Longrightarrow> covered db' ts = covered db ts"
  by (simp add: covered_def)

lemma covered_phase:
  assumes c: "covered (ex_db s) (ex_tasks s)" and i: "at_phase s i p" and q: "q \<noteq> Done" "owns_job p \<Longrightarrow> owns_job q"
  shows "covered (ex_db s) ((ex_tasks s)[i := (ex_tasks s ! i)\<lparr>tk_phase := q\<rparr>])"
  unfolding covered_def
proof (intro ballI impI)
  fix j assume j: "j \<in> set (jobs (ex_db s))" "\<not> terminal (j_status j)"
  with c obtain t where t: "t \<in> set (ex_tasks s)" "tk_job t = j_id j" "tk_phase t \<noteq> Done"
    "j_status j = Running \<longrightarrow> owns_job (tk_phase t)" unfolding covered_def by blast
  from t(1) obtain k where k: "k < length (ex_tasks s)" "t = ex_tasks s ! k" by (metis in_set_conv_nth)
  from i have len: "i < length (ex_tasks s)" "tk_phase (ex_tasks s ! i) = p" by (simp_all add: at_phase_def)
  show "\<exists>t \<in> set ((ex_tasks s)[i := (ex_tasks s ! i)\<lparr>tk_phase := q\<rparr>]). tk_job t = j_id j \<and> tk_phase t \<noteq> Done \<and>
      (j_status j = Running \<longrightarrow> owns_job (tk_phase t))"
  proof (cases "k = i")
    case True
    have "(ex_tasks s ! i)\<lparr>tk_phase := q\<rparr> \<in> set ((ex_tasks s)[i := (ex_tasks s ! i)\<lparr>tk_phase := q\<rparr>])"
      using len(1) by (rule set_update_memI)
    then show ?thesis using t k True len(2) q by (intro bexI) auto
  next
    case False
    then have "t \<in> set ((ex_tasks s)[i := (ex_tasks s ! i)\<lparr>tk_phase := q\<rparr>])"
      using k by (metis length_list_update nth_list_update_neq nth_mem)
    with t show ?thesis by blast
  qed
qed

text \<open>A task that stops covering its job: the rows that are left unfinished are other jobs, are owned by another
  task, or are covered by the task's new phase.\<close>

lemma covered_leave:
  assumes c: "covered (ex_db s) (ex_tasks s)" and i: "at_phase s i p"
    and rows: "\<And>j'. j' \<in> set (jobs db') \<Longrightarrow> \<not> terminal (j_status j') \<Longrightarrow>
      (\<exists>j \<in> set (jobs (ex_db s)). j_id j = j_id j' \<and> j_status j = j_status j' \<and>
         (j_id j \<noteq> tk_job (ex_tasks s ! i) \<or> (j_status j = Running \<and> \<not> owns_job p))) \<or>
      (tk_job (ex_tasks s ! i) = j_id j' \<and> owns_job q)"
  shows "covered db' ((ex_tasks s)[i := (ex_tasks s ! i)\<lparr>tk_phase := q\<rparr>])"
  unfolding covered_def
proof (intro ballI impI)
  let ?ts = "(ex_tasks s)[i := (ex_tasks s ! i)\<lparr>tk_phase := q\<rparr>]"
  from i have len: "i < length (ex_tasks s)" "tk_phase (ex_tasks s ! i) = p" by (simp_all add: at_phase_def)
  fix j' assume j': "j' \<in> set (jobs db')" "\<not> terminal (j_status j')"
  from rows [OF j'] show "\<exists>t \<in> set ?ts. tk_job t = j_id j' \<and> tk_phase t \<noteq> Done \<and>
      (j_status j' = Running \<longrightarrow> owns_job (tk_phase t))"
  proof
    assume own: "tk_job (ex_tasks s ! i) = j_id j' \<and> owns_job q"
    have "(ex_tasks s ! i)\<lparr>tk_phase := q\<rparr> \<in> set ?ts" using len(1) by (rule set_update_memI)
    with own show ?thesis by (intro bexI) (auto simp: owns_job_def)
  next
    assume "\<exists>j \<in> set (jobs (ex_db s)). j_id j = j_id j' \<and> j_status j = j_status j' \<and>
         (j_id j \<noteq> tk_job (ex_tasks s ! i) \<or> (j_status j = Running \<and> \<not> owns_job p))"
    then obtain j where j: "j \<in> set (jobs (ex_db s))" "j_id j = j_id j'" "j_status j = j_status j'"
      "j_id j \<noteq> tk_job (ex_tasks s ! i) \<or> (j_status j = Running \<and> \<not> owns_job p)" by blast
    with c j'(2) obtain t where t: "t \<in> set (ex_tasks s)" "tk_job t = j_id j" "tk_phase t \<noteq> Done"
      "j_status j = Running \<longrightarrow> owns_job (tk_phase t)" unfolding covered_def by metis
    from t(1) obtain k where k: "k < length (ex_tasks s)" "t = ex_tasks s ! k" by (metis in_set_conv_nth)
    have "k \<noteq> i" using j(4) t k len(2) by auto
    then have "t \<in> set ?ts" using k by (metis length_list_update nth_list_update_neq nth_mem)
    with t j show ?thesis by auto
  qed
qed

text \<open>Ending a job by an update of all its unfinished rows.\<close>

lemma covered_finish:
  assumes c: "covered (ex_db s) (ex_tasks s)" and i: "at_phase s i p"
    and js: "jobs db' = sql_update sel f (jobs (ex_db s))"
    and sel: "\<And>j. sel j \<Longrightarrow> j_id j = tk_job (ex_tasks s ! i) \<and> terminal (j_status (f j))"
    and all: "\<And>j. j \<in> set (jobs (ex_db s)) \<Longrightarrow> j_id j = tk_job (ex_tasks s ! i) \<Longrightarrow> \<not> terminal (j_status j) \<Longrightarrow> sel j"
  shows "covered db' ((ex_tasks s)[i := (ex_tasks s ! i)\<lparr>tk_phase := Done\<rparr>])"
proof (rule covered_leave [OF c i], rule disjI1)
  fix j' assume "j' \<in> set (jobs db')" and nt: "\<not> terminal (j_status j')"
  then have "j' \<in> set (sql_update sel f (jobs (ex_db s)))" by (simp add: js)
  then show "\<exists>j \<in> set (jobs (ex_db s)). j_id j = j_id j' \<and> j_status j = j_status j' \<and>
         (j_id j \<noteq> tk_job (ex_tasks s ! i) \<or> (j_status j = Running \<and> \<not> owns_job p))"
  proof (cases rule: in_sql_updateE)
    case same
    with all [OF same(1)] nt show ?thesis by (intro bexI [of _ j']) auto
  next
    case (updated j)
    with sel nt show ?thesis by auto
  qed
qed

lemma covered_rows:
  assumes c: "covered db ts" and js: "jobs db' = sql_update sel f (jobs db)"
    and f: "\<And>j. sel j \<Longrightarrow> j_id (f j) = j_id j \<and> (j_status (f j) = j_status j \<or> terminal (j_status (f j)))"
  shows "covered db' ts"
  unfolding covered_def
proof (intro ballI impI)
  fix j' assume "j' \<in> set (jobs db')" and nt: "\<not> terminal (j_status j')"
  then have "j' \<in> set (sql_update sel f (jobs db))" by (simp add: js)
  then obtain j where j: "j \<in> set (jobs db)" "j_id j = j_id j'" "j_status j = j_status j'"
  proof (cases rule: in_sql_updateE)
    case (updated j)
    with f [OF updated(2)] nt show ?thesis by (intro that [of j]) auto
  qed (use that in blast)
  with c nt show "\<exists>t \<in> set ts. tk_job t = j_id j' \<and> tk_phase t \<noteq> Done \<and> (j_status j' = Running \<longrightarrow> owns_job (tk_phase t))"
    unfolding covered_def by metis
qed

lemma terminal_failed [simp]: "terminal Failed" "terminal Succeeded" "terminal Cancelled"
  by (simp_all add: terminal_def)

lemma not_terminal: "\<not> terminal st \<longleftrightarrow> st = Queued \<or> st = Running"
  by (cases st) (simp_all add: terminal_def)

lemma covered_claim:
  assumes c: "covered (ex_db s) (ex_tasks s)" and i: "at_phase s i Ready"
    and cl: "claim_job (tk_job (ex_tasks s ! i)) now (ex_db s) = (n, db')" and q: "n = 1 \<Longrightarrow> owns_job q"
    and d: "distinct (map j_id (jobs (ex_db s)))"
  shows "covered db' ((ex_tasks s)[i := (ex_tasks s ! i)\<lparr>tk_phase := q\<rparr>])"
proof (rule covered_leave [OF c i])
  let ?k = "tk_job (ex_tasks s ! i)"
  note eq = claim_job_eq [OF cl]
  fix j' assume j': "j' \<in> set (jobs db')" and nt: "\<not> terminal (j_status j')"
  show "(\<exists>j \<in> set (jobs (ex_db s)). j_id j = j_id j' \<and> j_status j = j_status j' \<and>
         (j_id j \<noteq> ?k \<or> (j_status j = Running \<and> \<not> owns_job Ready))) \<or> (?k = j_id j' \<and> owns_job q)"
  proof (cases "n = 1")
    case True
    have "j' \<in> set (sql_update (claimable ?k) (\<lambda>j. j\<lparr>j_status := Running, j_started_at := Some now, j_progress := 5,
      j_message := Some ''starting''\<rparr>) (jobs (ex_db s)))" using j' eq by simp
    then show ?thesis
    proof (cases rule: in_sql_updateE)
      case same
      then show ?thesis using nt q [OF True] by (cases "j_id j' = ?k") (auto simp: claimable_def not_terminal)
    next
      case (updated j)
      then show ?thesis using q [OF True] by (simp add: claimable_def)
    qed
  next
    case False
    with claim_none [OF cl d] j' have old: "j' \<in> set (jobs (ex_db s))" by simp
    have "\<not> claimable ?k j'"
    proof
      assume "claimable ?k j'"
      with old have "rowcount (claimable ?k) (jobs (ex_db s)) \<noteq> 0" unfolding rowcount_pos by blast
      moreover have "rowcount (claimable ?k) (jobs (ex_db s)) \<le> 1"
        by (rule rowcount_le_one [OF d, where k = ?k]) (simp add: claimable_def)
      ultimately show False using eq False by simp
    qed
    with old nt show ?thesis by (intro disjI1 bexI [of _ j']) (auto simp: claimable_def not_terminal owns_job_def)
  qed
qed

lemma recover_covers:
  assumes r: "recover_jobs now db = (queued, db')"
  shows "covered db' (map new_task queued)"
  unfolding covered_def
proof (intro ballI impI)
  fix j' assume j': "j' \<in> set (jobs db')" and nt: "\<not> terminal (j_status j')"
  then have "j' \<in> set (sql_update (\<lambda>j. j_status j = Running) (abandon now) (jobs db))" using recover_jobs_eq [OF r] by simp
  then have q: "j' \<in> set (jobs db) \<and> j_status j' = Queued"
    by (cases rule: in_sql_updateE) (use nt in \<open>simp_all add: abandon_def not_terminal\<close>)
  then have "(j_id j', j_org j') \<in> set queued" using r by (auto simp: recover_jobs_def)
  then have "new_task (j_id j', j_org j') \<in> set (map new_task queued)" by simp
  with q show "\<exists>t \<in> set (map new_task queued). tk_job t = j_id j' \<and> tk_phase t \<noteq> Done \<and>
      (j_status j' = Running \<longrightarrow> owns_job (tk_phase t))"
    by (intro bexI) (simp_all add: new_task_def)
qed

lemma covered_step:
  assumes "exec_step P s s'" and inv: "exec_inv P s" and c: "covered (ex_db s) (ex_tasks s)"
  shows "covered (ex_db s') (ex_tasks s')"
  using assms(1)
proof (cases rule: exec_step.cases)
  case (enqueue i ev now host og p body reason j db')
  from queue_job_Inr(4) [OF enqueue(2)] c show ?thesis
    unfolding enqueue(1) by (auto simp: covered_def new_task_def queue_job_Inr(3) [OF enqueue(2)] new_job_def)
next
  case (cancel rq ctx i res db')
  from cancel_job_row [OF cancel(2)] show ?thesis
  proof
    assume "jobs db' = jobs (ex_db s)"
    from covered_cong [OF this] c cancel(1) show ?thesis by simp
  next
    assume "\<exists>k now. jobs db' = sql_update (claimable k) (\<lambda>j. j\<lparr>j_status := Cancelled, j_finished_at := Some now,
       j_message := Some ''cancelled'', j_progress := 0\<rparr>) (jobs (ex_db s))"
    then obtain k now where js: "jobs db' = sql_update (claimable k) (\<lambda>j. j\<lparr>j_status := Cancelled, j_finished_at := Some now,
       j_message := Some ''cancelled'', j_progress := 0\<rparr>) (jobs (ex_db s))" by blast
    have "covered db' (ex_tasks s)" by (rule covered_rows [OF c js]) (simp add: terminal_def)
    with cancel(1) show ?thesis by simp
  qed
next
  case (lock i)
  with covered_phase [OF c lock(2), of Locked] show ?thesis by (simp add: set_phase_def owns_job_def)
next
  case (slot i)
  with covered_phase [OF c slot(2), of Ready] show ?thesis by (simp add: set_phase_def owns_job_def)
next
  case (claim i now db')
  have "distinct (map j_id (jobs (ex_db s)))" using inv by (simp add: exec_inv_def db_inv_def)
  from covered_claim [OF c claim(2,3) _ this, of Claimed] claim(1) show ?thesis by (simp add: set_phase_def owns_job_def)
next
  case (skip i now n db')
  have "distinct (map j_id (jobs (ex_db s)))" using inv by (simp add: exec_inv_def db_inv_def)
  from covered_claim [OF c skip(2,3) _ this, of Done] skip(1,4) show ?thesis by (simp add: set_phase_def)
next
  case (refuse i j code msg now)
  have "covered (finish_job (tk_job (ex_tasks s ! i)) now Failed (Some code) msg (ex_db s))
      ((ex_tasks s)[i := (ex_tasks s ! i)\<lparr>tk_phase := Done\<rparr>])"
    by (rule covered_finish [OF c refuse(2) job_updates(1)]) (simp_all add: unfinished_def not_terminal)
  with refuse(1) show ?thesis by (simp add: set_phase_def)
next
  case (start i j src)
  with covered_phase [OF c start(2), of Executing] show ?thesis by (simp add: set_phase_def owns_job_def)
next
  case (progress k percent msg)
  have "covered (progress_job k percent msg (ex_db s)) (ex_tasks s)"
    by (rule covered_rows [OF c job_updates(2)]) simp
  with progress show ?thesis by simp
next
  case (return i r)
  with covered_phase [OF c return(2), of "Returned r"] show ?thesis by (simp add: set_phase_def owns_job_def)
next
  case (complete i r ev now pipeline db')
  have d: "db_inv (ex_db s)" using inv by (simp add: exec_inv_def)
  have "covered db' ((ex_tasks s)[i := (ex_tasks s ! i)\<lparr>tk_phase := Done\<rparr>])"
    by (rule covered_finish [OF c complete(2) complete_job_Inr(1) [OF d complete(3)]]) (auto simp: settle_def terminal_def)
  with complete(1) show ?thesis by (simp add: set_phase_def)
next
  case (crash i p now)
  have "covered (finish_job (tk_job (ex_tasks s ! i)) now Failed (Some ''internal_error'') ''internal error'' (ex_db s))
      ((ex_tasks s)[i := (ex_tasks s ! i)\<lparr>tk_phase := Done\<rparr>])"
    by (rule covered_finish [OF c crash(2) job_updates(1)]) (simp_all add: unfinished_def not_terminal)
  with crash(1) show ?thesis by (simp add: set_phase_def)
next
  case (restart now queued db')
  from recover_covers [OF restart(2)] restart(1) show ?thesis by simp
qed

text \<open>Some unfinished task can always go on.\<close>

definition rank :: "phase \<Rightarrow> nat" where
  "rank p = (case p of Waiting \<Rightarrow> 6 | Locked \<Rightarrow> 5 | Ready \<Rightarrow> 4 | Claimed \<Rightarrow> 3 | Executing \<Rightarrow> 2 | Returned r \<Rightarrow> 1 | Done \<Rightarrow> 0)"

definition work_left :: "exec \<Rightarrow> nat" where
  "work_left s = (\<Sum>t \<leftarrow> ex_tasks s. rank (tk_phase t))"

lemma work_left_phase:
  assumes i: "at_phase s i p" and q: "rank q < rank p" and ts: "ex_tasks s' = (ex_tasks s)[i := (ex_tasks s ! i)\<lparr>tk_phase := q\<rparr>]"
  shows "work_left s' < work_left s"
proof -
  from i have len: "i < length (ex_tasks s)" "tk_phase (ex_tasks s ! i) = p" by (simp_all add: at_phase_def)
  let ?r = "\<lambda>t. rank (tk_phase t)"
  let ?ns = "map ?r (ex_tasks s)"
  from len have n: "i < length ?ns" "?ns ! i = rank p" by simp_all
  from member_le_sum_list [OF nth_mem [OF n(1)]] have "rank p \<le> sum_list ?ns" unfolding n(2) by simp
  moreover have "sum_list (?ns[i := rank q]) = sum_list ?ns + rank q - rank p"
    unfolding sum_list_update [OF n(1)] n(2) ..
  moreover have "map ?r (ex_tasks s') = ?ns[i := rank q]" by (simp add: ts map_update)
  ultimately have "work_left s' = work_left s + rank q - rank p" "rank p \<le> work_left s" by (simp_all add: work_left_def)
  with q show ?thesis by linarith
qed

lemma set_phase_jobs: "map tk_job (ex_tasks (set_phase i q s)) = map tk_job (ex_tasks s)"
proof (cases "i < length (ex_tasks s)")
  case True
  then have "(map tk_job (ex_tasks s))[i := tk_job (ex_tasks s ! i)] = map tk_job (ex_tasks s)"
    by (metis list_update_id nth_map)
  then show ?thesis by (simp add: set_phase_def map_update)
qed (simp add: set_phase_def list_update_beyond)

definition some_outcome :: run_outcome where
  "some_outcome = \<lparr>rs_run_id = [], rs_status = FAILED, rs_error = None, rs_records = 0, rs_html = None, rs_md = None,
     rs_json = None, rs_period = (None, None)\<rparr>"

lemma slot_holder_goes_on:
  assumes inv: "exec_inv P s" and i: "at_phase s i p" and p: "holds_slot p"
  shows "\<exists>s'. exec_step P s s' \<and> work_left s' < work_left s \<and> map tk_job (ex_tasks s') = map tk_job (ex_tasks s)"
proof -
  let ?k = "tk_job (ex_tasks s ! i)"
  from i have len: "i < length (ex_tasks s)" by (simp add: at_phase_def)
  with inv have row: "has_row (ex_db s) (ex_tasks s ! i)" by (simp add: exec_inv_def link_inv_def)
  have go: "exec_step P s (set_phase i q s1) \<Longrightarrow> ex_tasks s1 = ex_tasks s \<Longrightarrow> rank q < rank p \<Longrightarrow> ?thesis" for q s1
    using work_left_phase [OF i, of q "set_phase i q s1"] set_phase_jobs [of i q s1] by (auto simp: set_phase_def)
  show ?thesis
  proof (cases p)
    case Ready
    obtain n db' where c: "claim_job ?k 0 (ex_db s) = (n, db')" by fastforce
    show ?thesis
    proof (cases "n = 1")
      case True
      with go [OF exec_step.claim, of 0 db'] i c Ready show ?thesis by (simp add: rank_def)
    next
      case False
      with go [OF exec_step.skip, of 0 n db'] i c Ready show ?thesis by (simp add: rank_def)
    qed
  next
    case Claimed
    from row obtain j where j: "get_job ?k (ex_db s) = Some j"
      by (cases "get_job ?k (ex_db s)") (auto simp: has_row_def get_job_def sql_first_None)
    show ?thesis
    proof (cases "prepare_run (ep_cloud P) (ep_file_ok P) j (ex_db s)")
      case (Inl cm)
      obtain code msg where "cm = (code, msg)" by fastforce
      with go [OF exec_step.refuse, of j code msg 0] i j Claimed Inl show ?thesis by (simp add: rank_def)
    next
      case (Inr src)
      with go [OF exec_step.start, of j src] i j Claimed show ?thesis by (simp add: rank_def)
    qed
  next
    case Executing
    with go [OF exec_step.return, of some_outcome] i show ?thesis by (simp add: rank_def)
  next
    case (Returned r)
    show ?thesis
    proof (cases "complete_job [] 0 ?k (tk_org (ex_tasks s ! i)) [] r (ex_db s)")
      case (Inl e)
      with go [OF exec_step.crash, of p 0] i p Returned show ?thesis by (simp add: rank_def)
    next
      case (Inr db')
      with go [OF exec_step.complete, of r "[]" 0 "[]" db'] i Returned show ?thesis by (simp add: rank_def)
    qed
  qed (use p in \<open>simp_all add: holds_slot_def\<close>)
qed

lemma some_task_goes_on:
  assumes inv: "exec_inv P s" and slots: "0 < ep_max_runs P" and t: "t \<in> set (ex_tasks s)" "tk_phase t \<noteq> Done"
  shows "\<exists>s'. exec_step P s s' \<and> work_left s' < work_left s \<and> map tk_job (ex_tasks s') = map tk_job (ex_tasks s)"
proof (cases "\<exists>t \<in> set (ex_tasks s). holds_slot (tk_phase t)")
  case True
  then obtain i where "i < length (ex_tasks s)" "holds_slot (tk_phase (ex_tasks s ! i))" by (metis in_set_conv_nth)
  with slot_holder_goes_on [OF inv, of i "tk_phase (ex_tasks s ! i)"] show ?thesis by (simp add: at_phase_def)
next
  case noslot: False
  then have used: "slots_used (ex_tasks s) = 0" by (simp add: slots_used_def rowcount_zero)
  from t obtain i where i: "i < length (ex_tasks s)" "ex_tasks s ! i = t" by (metis in_set_conv_nth)
  show ?thesis
  proof (cases "\<exists>t \<in> set (ex_tasks s). holds_lock (tk_phase t)")
    case True
    then obtain k where k: "k < length (ex_tasks s)" "holds_lock (tk_phase (ex_tasks s ! k))" by (metis in_set_conv_nth)
    with noslot have "tk_phase (ex_tasks s ! k) = Locked" by (auto simp: holds_lock_def holds_slot_def)
    with k have at: "at_phase s k Locked" by (simp add: at_phase_def)
    have "exec_step P s (set_phase k Ready s)" by (rule exec_step.slot [OF at]) (use used slots in simp)
    moreover have "work_left (set_phase k Ready s) < work_left s"
      by (rule work_left_phase [OF at, of Ready]) (simp_all add: rank_def set_phase_def)
    ultimately show ?thesis using set_phase_jobs by blast
  next
    case False
    with t i have at: "at_phase s i Waiting" by (auto simp: at_phase_def holds_lock_def)
    have "exec_step P s (set_phase i Locked s)"
      by (rule exec_step.lock [OF at]) (use False in \<open>auto simp: lock_free_def rowcount_zero\<close>)
    moreover have "work_left (set_phase i Locked s) < work_left s"
      by (rule work_left_phase [OF at, of Locked]) (simp_all add: rank_def set_phase_def)
    ultimately show ?thesis using set_phase_jobs by blast
  qed
qed

lemma tasks_can_finish:
  assumes "exec_inv P s" and "0 < ep_max_runs P"
  shows "\<exists>s'. (exec_step P)\<^sup>*\<^sup>* s s' \<and> (\<forall>t \<in> set (ex_tasks s'). tk_phase t = Done) \<and>
    map tk_job (ex_tasks s') = map tk_job (ex_tasks s)"
  using assms(1)
proof (induction "work_left s" arbitrary: s rule: less_induct)
  case less
  show ?case
  proof (cases "\<forall>t \<in> set (ex_tasks s). tk_phase t = Done")
    case False
    then obtain t where "t \<in> set (ex_tasks s)" "tk_phase t \<noteq> Done" by blast
    from some_task_goes_on [OF less.prems assms(2) this] obtain s1 where s1: "exec_step P s s1" "work_left s1 < work_left s"
      "map tk_job (ex_tasks s1) = map tk_job (ex_tasks s)" by blast
    with exec_step_keeps less.prems have "exec_inv P s1" by blast
    from less.hyps [OF s1(2) this] s1(1,3) show ?thesis by (metis converse_rtranclp_into_rtranclp)
  qed blast
qed

lemma covered_reach: "(exec_step P)\<^sup>*\<^sup>* s s' \<Longrightarrow> exec_inv P s \<Longrightarrow> covered (ex_db s) (ex_tasks s) \<Longrightarrow> covered (ex_db s') (ex_tasks s')"
proof (induction rule: rtranclp_induct)
  case (step t u)
  from executor.reach_inv_later [OF step.hyps(1) step.prems(1)] have "exec_inv P t" by blast
  from covered_step [OF step.hyps(2) this step.IH [OF step.prems]] show ?case .
qed

lemma boot_covered: "covered (ex_db (boot now db)) (ex_tasks (boot now db))"
  using recover_covers [of now db] by (simp add: boot_def case_prod_beta)

text \<open>C13. No job is lost and the executor never gets stuck: from every state it can reach, the tasks there are, with
  no other help than that each run returns, can bring every job in the database to a final state.\<close>

theorem every_job_can_finish:
  assumes db: "db_inv db" and reach: "(exec_step P)\<^sup>*\<^sup>* (boot now db) s" and slots: "0 < ep_max_runs P"
  shows "\<exists>s'. (exec_step P)\<^sup>*\<^sup>* s s' \<and> map tk_job (ex_tasks s') = map tk_job (ex_tasks s) \<and>
    (\<forall>j \<in> set (jobs (ex_db s')). terminal (j_status j)) \<and>
    (\<forall>j \<in> set (jobs (ex_db s)). j_id j \<in> j_id ` set (jobs (ex_db s')))"
proof -
  have inv: "exec_inv P s" by (rule run_inv_later [OF db reach])
  from tasks_can_finish [OF inv slots] obtain s' where s': "(exec_step P)\<^sup>*\<^sup>* s s'" "\<forall>t \<in> set (ex_tasks s'). tk_phase t = Done"
      "map tk_job (ex_tasks s') = map tk_job (ex_tasks s)" by blast
  have "covered (ex_db s') (ex_tasks s')"
    using covered_reach [OF s'(1) inv covered_reach [OF reach boot_inv [OF db] boot_covered]] .
  with s'(2) have "\<forall>j \<in> set (jobs (ex_db s')). terminal (j_status j)" unfolding covered_def by blast
  moreover have "j_id j \<in> j_id ` set (jobs (ex_db s'))" if "j \<in> set (jobs (ex_db s))" for j
    using executor.reach_inv_later [OF s'(1) inv] that unfolding jobs_later_def row_later_def by (metis image_eqI)
  ultimately show ?thesis using s'(1,3) by blast
qed

section \<open>Examples\<close>

definition demo_exec_db :: cdb where
  "demo_exec_db = demo_jobs_db\<lparr>jobs := [(demo_job ''a'')\<lparr>j_status := Running\<rparr>, demo_job ''b'']\<rparr>"

definition demo_params :: exec_params where
  "demo_params = \<lparr>ep_cloud = False, ep_max_runs = 1, ep_file_ok = (\<lambda>u. True)\<rparr>"

definition demo_locked :: exec where "demo_locked = set_phase 0 Locked (boot 9 demo_exec_db)"

lemmas demo_exec_defs = demo_exec_db_def demo_jobs_db_def demo_app_defs demo_job_def new_job_def

lemma demo_exec_inv: "db_inv demo_exec_db"
  by (simp add: db_inv_def demo_exec_defs usage_keyed_def runs_total_def succeeded_of_def)

lemma demo_boot: "boot 9 demo_exec_db =
    \<lparr>ex_db = demo_exec_db\<lparr>jobs := [abandon 9 ((demo_job ''a'')\<lparr>j_status := Running\<rparr>), demo_job ''b'']\<rparr>,
     ex_tasks = [new_task (''b'', ''org'')], ex_running_now = 0, ex_max_seen = 0\<rparr>"
  by (simp add: boot_def recover_jobs_def sql_update_def demo_exec_db_def demo_job_def new_job_def)

lemma demo_lock: "exec_step demo_params (boot 9 demo_exec_db) demo_locked"
  unfolding demo_locked_def
  by (rule exec_step.lock) (simp_all add: demo_boot at_phase_def new_task_def lock_free_def holds_lock_def)

lemma demo_reach: "(exec_step demo_params)\<^sup>*\<^sup>* (boot 9 demo_exec_db) demo_locked"
  using demo_lock by blast

theorem one_run_per_organization_witness:
  "slots_used (ex_tasks demo_locked) \<le> ep_max_runs demo_params \<and>
   ex_running_now demo_locked = int (rowcount (\<lambda>t. tk_phase t = Executing) (ex_tasks demo_locked))"
proof -
  have at: "at_phase demo_locked 0 Locked" "holds_lock Locked"
    by (simp_all add: demo_locked_def demo_boot at_phase_def set_phase_def holds_lock_def)
  from one_run_per_organization [OF demo_exec_inv demo_reach at at refl] show ?thesis by blast
qed

theorem executor_refines_lifecycle_witness:
  "lifecycle_step (status_of (ex_db (boot 9 demo_exec_db))) (status_of (ex_db demo_locked))"
  using executor_refines_lifecycle [OF demo_exec_inv rtranclp.rtrancl_refl demo_lock] by blast

theorem finished_jobs_are_final_witness:
  "abandon 9 ((demo_job ''a'')\<lparr>j_status := Running\<rparr>) \<in> set (jobs (ex_db demo_locked))"
  using finished_jobs_are_final [OF demo_exec_inv rtranclp.rtrancl_refl demo_reach,
      of "abandon 9 ((demo_job ''a'')\<lparr>j_status := Running\<rparr>)"]
  by (simp add: demo_boot abandon_def)

theorem usage_counts_succeeded_jobs_witness:
  "runs_total ''org'' (ex_db demo_locked) = int (rowcount (succeeded_of ''org'') (jobs (ex_db demo_locked)))"
  using usage_counts_succeeded_jobs [OF demo_exec_inv demo_reach] by blast

theorem every_job_can_finish_witness:
  "\<exists>s. (exec_step demo_params)\<^sup>*\<^sup>* demo_locked s \<and> map tk_job (ex_tasks s) = [''b''] \<and>
    (\<forall>j \<in> set (jobs (ex_db s)). terminal (j_status j)) \<and> ''b'' \<in> j_id ` set (jobs (ex_db s))"
proof -
  have slots: "0 < ep_max_runs demo_params" by (simp add: demo_params_def)
  have b: "demo_job ''b'' \<in> set (jobs (ex_db demo_locked))" "j_id (demo_job ''b'') = ''b''"
    "map tk_job (ex_tasks demo_locked) = [''b'']"
    by (simp_all add: demo_locked_def demo_boot set_phase_def new_task_def demo_job_def new_job_def)
  from every_job_can_finish [OF demo_exec_inv demo_reach slots] b show ?thesis by metis
qed

end
