(* ===== verification/Orgs.thy ===== *)
theory Orgs
  imports Login Tenancy
begin

text \<open>
  Organizations (\<^verbatim>\<open>app/api/v1/orgs.py\<close>): onboarding, settings and deletion. Deleting the row of an
  organization runs the \<open>ondelete\<close> actions of the foreign keys (\<^verbatim>\<open>app/control/models.py\<close>; SQLite enforces
  them, \<^verbatim>\<open>app/control/db.py\<close>); then the tenant leaves the registry and its directory is removed.
\<close>

section \<open>Creating\<close>

record org_create =
  oc_org_name :: string
  oc_dpa_accepted :: bool
  oc_dpa_version :: string
  oc_locale :: string

text \<open>\<open>OrgCreate\<close>'s validator of the name.\<close>

definition org_name_valid :: "string \<Rightarrow> string option" where
  "org_name_valid v = (if v = [] \<or> length v > 200 \<or> py_strip v = [] then None else Some (py_strip v))"

definition ORG_CREATE_PER_MIN :: int where "ORG_CREATE_PER_MIN = 5"

text \<open>A session that is bound to no organization yet is bound to the new one.\<close>

definition bind_session :: "principal \<Rightarrow> ident \<Rightarrow> cdb \<Rightarrow> cdb" where
  "bind_session p org_id db =
     (case pr_session p of
        None \<Rightarrow> db
      | Some s \<Rightarrow> if s_org s = None
          then db\<lparr>sessions := sql_update (\<lambda>x. s_id x = s_id s) (s_org_update (\<lambda>_. Some org_id)) (sessions db)\<rparr>
          else db)"

definition create_org_route ::
  "(string \<Rightarrow> string) \<Rightarrow> server \<Rightarrow> http_request \<Rightarrow> int \<Rightarrow> ident \<Rightarrow> principal \<Rightarrow> org_create \<Rightarrow> (org \<times> string) app_handler"
where
  "create_org_route translit sv rq retention_days new_id p body st =
     (if \<not> sv_cloud sv then (Inl (Problem 403 ''orgs_disabled_in_selfhost''), st)
      else (case pr_user p of
          None \<Rightarrow> (Inl (Problem 403 ''user_session_required''), st)
        | Some u \<Rightarrow>
            if \<not> oc_dpa_accepted body then (Inl (Problem 422 ''dpa_required''), st)
            else
              let (wait, bs) = hit (sv_max_buckets sv) (rq_clock rq) ''org_create'' (u_id u) ORG_CREATE_PER_MIN (ap_limiter st);
                  st1 = st\<lparr>ap_limiter := bs\<rparr>
              in if wait > 0 then (Inl (too_many wait), st1)
                 else (case create_org translit (length (orgs (ap_db st)) + 1) new_id (rq_now rq) (oc_org_name body)
                         (Some (u_id u)) ''free'' (oc_locale body) retention_days (Some (oc_dpa_version body)) None (ap_db st) of
                     Inl e \<Rightarrow> (Inl e, st1)
                   | Inr (og, db1) \<Rightarrow>
                       (case record_event (rq_event rq) (rq_now rq) (Some (o_id og)) ''user'' (Some (u_id u)) ''org.created''
                              (Some (''org:'' @ o_id og)) [(''plan'', PStr (o_plan og))] (rq_host rq)
                              (bind_session p (o_id og) db1) of
                          Inl e \<Rightarrow> (Inl e, st1)
                        | Inr db2 \<Rightarrow> (Inr (og, ''/api/v1/orgs/'' @ o_id og), st1\<lparr>ap_db := db2\<rparr>)))))"

section \<open>Settings\<close>

record org_patch =
  op_name :: "string option"
  op_retention_days :: "int option"
  op_llm_narrative :: "bool option"
  op_locale :: "string option"
  op_plan :: "string option"

text \<open>\<open>OrgPatch\<close>'s constraints; a plan is refused.\<close>

definition org_patch_valid :: "org_patch \<Rightarrow> bool" where
  "org_patch_valid b =
     ((case op_name b of None \<Rightarrow> True | Some n \<Rightarrow> 1 \<le> length n \<and> length n \<le> 200) \<and>
      (case op_retention_days b of None \<Rightarrow> True | Some d \<Rightarrow> 1 \<le> d \<and> d \<le> 3650) \<and> op_plan b = None)"

definition set_or :: "'a option \<Rightarrow> 'a \<Rightarrow> 'a" where
  "set_or v old = (case v of None \<Rightarrow> old | Some x \<Rightarrow> x)"

definition patched :: "org_patch \<Rightarrow> org \<Rightarrow> org" where
  "patched b og = og\<lparr>o_name := set_or (op_name b) (o_name og), o_retention_days := set_or (op_retention_days b) (o_retention_days og),
     o_llm_narrative := set_or (op_llm_narrative b) (o_llm_narrative og), o_locale := set_or (op_locale b) (o_locale og)\<rparr>"

definition patch_org :: "http_request \<Rightarrow> org_context \<Rightarrow> org_patch \<Rightarrow> org handler" where
  "patch_org rq ctx b db =
     (case get_org (cx_org_id ctx) db of
        None \<Rightarrow> (Inl (PyRaise ''AttributeError''), db)
      | Some og \<Rightarrow>
          with_event db
            (record_event (rq_event rq) (rq_now rq) (Some (o_id og)) (actor_type (cx_principal ctx))
               (actor_id (cx_principal ctx)) ''org.updated'' (Some (''org:'' @ o_id og))
               ((case op_retention_days b of None \<Rightarrow> [] | Some d \<Rightarrow> [(''retention_days'', PInt d)]) @
                (case op_llm_narrative b of None \<Rightarrow> [] | Some l \<Rightarrow> [(''llm_narrative'', PBool l)]))
               (rq_host rq) (db\<lparr>orgs := sql_update (\<lambda>o1. o_id o1 = o_id og) (patched b) (orgs db)\<rparr>))
            (\<lambda>db1. (Inr (patched b og), db1)))"

section \<open>Deleting\<close>

text \<open>The \<open>ondelete\<close> actions of the foreign keys to \<open>orgs.id\<close>, and of those to rows that go with it.\<close>

definition cascade_org :: "ident \<Rightarrow> cdb \<Rightarrow> cdb" where
  "cascade_org og db =
     (let gone_upload = (\<lambda>i. \<exists>u \<in> set (uploads db). up_org u = og \<and> up_id u = i);
          gone_grant = (\<lambda>i. \<exists>g \<in> set (oauth_grants db). g_org g = og \<and> g_id g = i)
      in db\<lparr>orgs := sql_delete (\<lambda>r. o_id r = og) (orgs db),
         memberships := sql_delete (\<lambda>r. m_org r = og) (memberships db),
         api_keys := sql_delete (\<lambda>r. k_org r = og) (api_keys db),
         sessions := sql_update (\<lambda>r. s_org r = Some og) (s_org_update (\<lambda>_. None)) (sessions db),
         invitations := sql_delete (\<lambda>r. i_org r = og) (invitations db),
         uploads := sql_delete (\<lambda>r. up_org r = og) (uploads db),
         jobs := sql_update (\<lambda>r. case j_upload r of None \<Rightarrow> False | Some i \<Rightarrow> gone_upload i) (j_upload_update (\<lambda>_. None))
           (sql_delete (\<lambda>r. j_org r = og) (jobs db)),
         run_records := sql_delete (\<lambda>r. rr_org r = og) (run_records db),
         audit_events := sql_delete (\<lambda>r. ae_org r = Some og) (audit_events db),
         usage_counters := sql_delete (\<lambda>r. uc_org r = og) (usage_counters db),
         webhooks := sql_delete (\<lambda>r. w_org r = og) (webhooks db),
         org_schedules := sql_delete (\<lambda>r. os_org r = og) (org_schedules db),
         oauth_codes := sql_delete (\<lambda>r. ac_org r = Some og) (oauth_codes db),
         oauth_grants := sql_delete (\<lambda>r. g_org r = og) (oauth_grants db),
         oauth_tokens := sql_delete (\<lambda>r. t_org r = og \<or> (case t_grant r of None \<Rightarrow> False | Some i \<Rightarrow> gone_grant i)) (oauth_tokens db)\<rparr>)"

lemma cascade_org_alt:
  "cascade_org og db =
     (let gone_upload = (\<lambda>i. \<exists>u \<in> set (uploads db). up_org u = og \<and> up_id u = i);
          gone_grant = (\<lambda>i. \<exists>g \<in> set (oauth_grants db). g_org g = og \<and> g_id g = i)
      in db\<lparr>orgs := sql_delete (\<lambda>r. o_id r = og) (orgs db),
         memberships := sql_delete (\<lambda>r. m_org r = og) (memberships db),
         api_keys := sql_delete (\<lambda>r. k_org r = og) (api_keys db),
         sessions := sql_update (\<lambda>r. s_org r = Some og) (s_org_update (\<lambda>_. None)) (sessions db),
         invitations := sql_delete (\<lambda>r. i_org r = og) (invitations db),
         uploads := sql_delete (\<lambda>r. up_org r = og) (uploads db),
         jobs := sql_update (\<lambda>r. \<exists>i. j_upload r = Some i \<and> gone_upload i) (j_upload_update (\<lambda>_. None))
           (sql_delete (\<lambda>r. j_org r = og) (jobs db)),
         run_records := sql_delete (\<lambda>r. rr_org r = og) (run_records db),
         audit_events := sql_delete (\<lambda>r. ae_org r = Some og) (audit_events db),
         usage_counters := sql_delete (\<lambda>r. uc_org r = og) (usage_counters db),
         webhooks := sql_delete (\<lambda>r. w_org r = og) (webhooks db),
         org_schedules := sql_delete (\<lambda>r. os_org r = og) (org_schedules db),
         oauth_codes := sql_delete (\<lambda>r. ac_org r = Some og) (oauth_codes db),
         oauth_grants := sql_delete (\<lambda>r. g_org r = og) (oauth_grants db),
         oauth_tokens := sql_delete (\<lambda>r. t_org r = og \<or> (\<exists>i. t_grant r = Some i \<and> gone_grant i)) (oauth_tokens db)\<rparr>)"
  unfolding cascade_org_def case_option_ex by (rule refl)

definition busy_job :: "ident \<Rightarrow> job \<Rightarrow> bool" where
  "busy_job og j = (j_org j = og \<and> (j_status j = Queued \<or> j_status j = Running))"

text \<open>The route on the database and the registry. The directory to remove is the result, when \<open>exists\<close> says it is
  there; everything before it is committed already.\<close>

definition delete_org ::
  "(path \<Rightarrow> path) \<Rightarrow> path \<Rightarrow> (path \<Rightarrow> bool) \<Rightarrow> http_request \<Rightarrow> org_context \<Rightarrow> cdb \<times> 'r registry
    \<Rightarrow> (exc + path option) \<times> cdb \<times> 'r registry" where
  "delete_org resolve base exists rq ctx st =
     (let (db, rg) = st in
      case get_org (cx_org_id ctx) db of
        None \<Rightarrow> (Inl (PyRaise ''AttributeError''), st)
      | Some og \<Rightarrow>
          if o_plan og = ''selfhost'' then (Inl (Problem 403 ''org_protected''), st)
          else if rowcount (busy_job (o_id og)) (jobs db) > 0 then (Inl (Problem 409 ''org_busy''), st)
          else (case record_event (rq_event rq) (rq_now rq) None (actor_type (cx_principal ctx)) (actor_id (cx_principal ctx))
                  ''org.deleted'' (Some (''org:'' @ o_id og)) [] (rq_host rq) db of
              Inl e \<Rightarrow> (Inl e, st)
            | Inr db1 \<Rightarrow>
                let st1 = (cascade_org (o_id og) db1, registry_forget (o_id og) rg) in
                (case for_org resolve base (o_id og) of
                   Inl e \<Rightarrow> (Inl e, st1)
                 | Inr paths \<Rightarrow> (Inr (if exists (tp_root paths) then Some (tp_root paths) else None), st1))))"

section \<open>Facts\<close>

text \<open>What an organization has: the rows that name it; \<open>None\<close> stands for the rows that name none.\<close>

record org_data =
  od_orgs :: "org list"
  od_memberships :: "membership list"
  od_keys :: "api_key list"
  od_invitations :: "invitation list"
  od_uploads :: "upload list"
  od_jobs :: "job list"
  od_runs :: "run_record list"
  od_events :: "audit_event list"
  od_usage :: "usage_counter list"
  od_webhooks :: "webhook list"
  od_schedules :: "org_schedule list"
  od_codes :: "oauth_code list"
  od_grants :: "oauth_grant list"
  od_tokens :: "oauth_token list"

definition org_rows :: "ident option \<Rightarrow> cdb \<Rightarrow> org_data" where
  "org_rows k db =
     \<lparr>od_orgs = filter (\<lambda>r. Some (o_id r) = k) (orgs db), od_memberships = filter (\<lambda>r. Some (m_org r) = k) (memberships db),
      od_keys = filter (\<lambda>r. Some (k_org r) = k) (api_keys db), od_invitations = filter (\<lambda>r. Some (i_org r) = k) (invitations db),
      od_uploads = filter (\<lambda>r. Some (up_org r) = k) (uploads db), od_jobs = filter (\<lambda>r. Some (j_org r) = k) (jobs db),
      od_runs = filter (\<lambda>r. Some (rr_org r) = k) (run_records db), od_events = filter (\<lambda>r. ae_org r = k) (audit_events db),
      od_usage = filter (\<lambda>r. Some (uc_org r) = k) (usage_counters db), od_webhooks = filter (\<lambda>r. Some (w_org r) = k) (webhooks db),
      od_schedules = filter (\<lambda>r. Some (os_org r) = k) (org_schedules db), od_codes = filter (\<lambda>r. ac_org r = k) (oauth_codes db),
      od_grants = filter (\<lambda>r. Some (g_org r) = k) (oauth_grants db), od_tokens = filter (\<lambda>r. Some (t_org r) = k) (oauth_tokens db)\<rparr>"

definition no_data :: org_data where
  "no_data = \<lparr>od_orgs = [], od_memberships = [], od_keys = [], od_invitations = [], od_uploads = [], od_jobs = [], od_runs = [],
     od_events = [], od_usage = [], od_webhooks = [], od_schedules = [], od_codes = [], od_grants = [], od_tokens = []\<rparr>"

text \<open>A job's upload and a token's grant are of its own organization.\<close>

definition own_references :: "cdb \<Rightarrow> bool" where
  "own_references db =
     ((\<forall>j \<in> set (jobs db). \<forall>u \<in> set (uploads db). j_upload j = Some (up_id u) \<longrightarrow> up_org u = j_org j) \<and>
      (\<forall>t \<in> set (oauth_tokens db). \<forall>g \<in> set (oauth_grants db). t_grant t = Some (g_id g) \<longrightarrow> g_org g = t_org t))"

lemma filter_map_same: "(\<And>r. r \<in> set rows \<Longrightarrow> P (f r) = P r \<and> (P r \<longrightarrow> f r = r)) \<Longrightarrow> filter P (map f rows) = filter P rows"
  by (induction rows) auto

lemma filter_delete_same: "(\<And>r. r \<in> set rows \<Longrightarrow> P r \<Longrightarrow> \<not> Q r) \<Longrightarrow> filter P (sql_delete Q rows) = filter P rows"
  by (induction rows) (auto simp: sql_delete_def)

lemma cascade_other_jobs:
  assumes "own_references db" and "k \<noteq> Some og"
  shows "filter (\<lambda>r. Some (j_org r) = k) (jobs (cascade_org og db)) = filter (\<lambda>r. Some (j_org r) = k) (jobs db)"
proof -
  have "filter (\<lambda>r. Some (j_org r) = k) (jobs (cascade_org og db)) =
      filter (\<lambda>r. Some (j_org r) = k) (sql_delete (\<lambda>r. j_org r = og) (jobs db))"
    unfolding cascade_org_alt Let_def sql_update_def
    by simp (rule filter_map_same, use assms in \<open>auto simp: own_references_def table_simps\<close>)
  also have "\<dots> = filter (\<lambda>r. Some (j_org r) = k) (jobs db)" using assms(2) by (intro filter_delete_same) auto
  finally show ?thesis .
qed

lemma cascade_other_tokens:
  assumes "own_references db" and "k \<noteq> Some og"
  shows "filter (\<lambda>r. Some (t_org r) = k) (oauth_tokens (cascade_org og db)) = filter (\<lambda>r. Some (t_org r) = k) (oauth_tokens db)"
  unfolding cascade_org_alt Let_def
  by simp (rule filter_delete_same, use assms in \<open>auto simp: own_references_def\<close>)

lemma cascade_other: "own_references db \<Longrightarrow> k \<noteq> Some og \<Longrightarrow> org_rows k (cascade_org og db) = org_rows k db"
  using cascade_other_jobs [of db k og] cascade_other_tokens [of db k og]
  by (auto simp: org_rows_def cascade_org_alt Let_def intro!: filter_delete_same)

lemma cascade_gone: "org_rows (Some og) (cascade_org og db) = no_data"
  by (auto simp: org_rows_def no_data_def cascade_org_alt Let_def filter_empty_conv table_simps)

lemma cascade_rest:
  "users (cascade_org og db) = users db" "magic_links (cascade_org og db) = magic_links db"
  "oauth_clients (cascade_org og db) = oauth_clients db"
  "sessions (cascade_org og db) = map (\<lambda>s. if s_org s = Some og then s\<lparr>s_org := None\<rparr> else s) (sessions db)"
  by (simp_all add: cascade_org_alt Let_def sql_update_def)

lemma no_org_no_access: "get_org og (ap_db st) = None \<Longrightarrow> fst (org_access scope mr rq og p st) = Inl (hidden mr)"
  by (simp add: org_access_def split: option.splits)

lemma get_org_none: "org_rows (Some og) db = no_data \<Longrightarrow> get_org og db = None"
  by (simp add: org_rows_def no_data_def get_org_def table_simps filter_empty_conv)

lemma delete_org_Inr:
  assumes "delete_org resolve base ex rq ctx (db, rg) = (Inr dir, db', rg')"
  obtains og ev where "get_org (cx_org_id ctx) db = Some og" and "o_plan og \<noteq> ''selfhost''"
    and "rowcount (busy_job (cx_org_id ctx)) (jobs db) = 0" and "ae_org ev = None" and "ae_action ev = ''org.deleted''"
    and "db' = cascade_org (cx_org_id ctx) (db\<lparr>audit_events := audit_events db @ [ev]\<rparr>)"
    and "rg' = registry_forget (cx_org_id ctx) rg"
proof -
  from assms obtain og where og: "get_org (cx_org_id ctx) db = Some og"
    by (auto simp: delete_org_def split: option.splits)
  then have id: "o_id og = cx_org_id ctx" by (auto simp: get_org_def dest: sql_first_Some)
  show ?thesis
    by (rule that [OF og])
      (use assms og id in \<open>auto simp: delete_org_def Let_def record_event_def new_event_def split: if_splits sum.splits\<close>)
qed

section \<open>Properties\<close>

text \<open>C16. A deleted organization is gone and nothing else is: the route deletes only an organization that is not the
  selfhost one and has no job queued or running; afterwards no principal, whatever it claims, gets access to it, no row of any
  table refers to it (sessions bound to it stay, bound to none), no runner and no lock is left for it, and every other
  organization has the rows it had, its events included. Users, links and clients are untouched, and the rows of no
  organization only gain the event of the deletion. Jobs and tokens refer to uploads and grants of their own organization.\<close>

theorem deleted_org_is_gone:
  assumes ok: "delete_org resolve base ex rq ctx (db, rg) = (Inr dir, db', rg')" and og: "og = cx_org_id ctx"
    and own: "own_references db"
  shows "(\<exists>o1. get_org og db = Some o1 \<and> o_plan o1 \<noteq> ''selfhost'') \<and> rowcount (busy_job og) (jobs db) = 0 \<and>
    (\<forall>scope mr rq' p. fst (org_access scope mr rq' og p (st\<lparr>ap_db := db'\<rparr>)) = Inl (hidden mr)) \<and>
    org_rows (Some og) db' = no_data \<and> (\<forall>k. k \<noteq> og \<longrightarrow> org_rows (Some k) db' = org_rows (Some k) db) \<and>
    (\<exists>ev. ae_action ev = ''org.deleted'' \<and> org_rows None db' = (org_rows None db)\<lparr>od_events := od_events (org_rows None db) @ [ev]\<rparr>) \<and>
    sessions db' = map (\<lambda>s. if s_org s = Some og then s\<lparr>s_org := None\<rparr> else s) (sessions db) \<and>
    users db' = users db \<and> magic_links db' = magic_links db \<and> oauth_clients db' = oauth_clients db \<and>
    og \<notin> set (registry_active rg') \<and> map_of (rg_locks rg') og = None"
proof -
  from delete_org_Inr [OF ok] obtain o1 ev where o1: "get_org og db = Some o1" "o_plan o1 \<noteq> ''selfhost''"
    and idle: "rowcount (busy_job og) (jobs db) = 0" and ev: "ae_org ev = None" "ae_action ev = ''org.deleted''"
    and db': "db' = cascade_org og (db\<lparr>audit_events := audit_events db @ [ev]\<rparr>)" and rg': "rg' = registry_forget og rg"
    unfolding og by metis
  let ?db1 = "db\<lparr>audit_events := audit_events db @ [ev]\<rparr>"
  have own1: "own_references ?db1" using own by (simp add: own_references_def)
  have gone: "org_rows (Some og) db' = no_data" unfolding db' by (rule cascade_gone)
  then have "get_org og db' = None" by (rule get_org_none)
  then have access: "fst (org_access scope mr rq' og p (st\<lparr>ap_db := db'\<rparr>)) = Inl (hidden mr)" for scope mr rq' p
    by (intro no_org_no_access) simp
  have other: "org_rows (Some k) db' = org_rows (Some k) db" if "k \<noteq> og" for k
    using cascade_other [OF own1, of "Some k" og] that ev by (simp add: db' org_rows_def)
  have none: "org_rows None db' = (org_rows None db)\<lparr>od_events := od_events (org_rows None db) @ [ev]\<rparr>"
    using cascade_other [OF own1, of None og] ev by (simp add: db' org_rows_def)
  have reg: "og \<notin> set (registry_active rg')" "map_of (rg_locks rg') og = None"
    unfolding rg' by (auto simp: registry_forget_def registry_active_def without_def map_of_eq_None_iff)
  from o1 idle gone access other reg none ev(2) show ?thesis
    using cascade_rest [of og ?db1] unfolding db' by auto
qed

lemma slug_loop_fresh: "slug_loop fuel taken base n = Some s \<Longrightarrow> s \<notin> set taken"
  by (induction fuel taken base n rule: slug_loop.induct) (auto split: if_splits)

lemma create_org_Inr:
  assumes "create_org translit fuel new_id now name (Some usr) plan locale retention dpa None db = Inr (og, db')"
  shows "o_id og = new_id \<and> o_plan og = plan \<and> o_slug og \<notin> o_slug ` set (orgs db) \<and> new_id \<notin> o_id ` set (orgs db) \<and>
    db' = db\<lparr>orgs := orgs db @ [og],
      memberships := memberships db @ [\<lparr>m_org = new_id, m_user = usr, m_role = ''owner'', m_created_at = now\<rparr>]\<rparr>"
  using assms
  by (auto simp: create_org_def Let_def unique_slug_def sql_insert_def split: option.splits if_splits dest!: slug_loop_fresh)

lemma create_org_route_Inr:
  assumes "create_org_route translit sv rq retention new_id p body st = (Inr (og, loc), st')"
  obtains u db1 ev where "pr_user p = Some u" and "oc_dpa_accepted body" and "sv_cloud sv"
    and "create_org translit (length (orgs (ap_db st)) + 1) new_id (rq_now rq) (oc_org_name body) (Some (u_id u)) ''free''
      (oc_locale body) retention (Some (oc_dpa_version body)) None (ap_db st) = Inr (og, db1)"
    and "ap_db st' = (bind_session p (o_id og) db1)\<lparr>audit_events := ev\<rparr>"
  using assms
  by (auto simp: create_org_route_def Let_def record_event_def case_prod_beta split: if_splits option.splits sum.splits)

lemma bind_session_frame [simp]: "orgs (bind_session p k db) = orgs db" "memberships (bind_session p k db) = memberships db"
  by (simp_all add: bind_session_def split: option.splits)

lemma owner_access:
  assumes "pr_kind p = UserPrincipal" and "pr_user p = Some u" and "get_org k (ap_db st) = Some og"
    and "get_membership k (u_id u) (ap_db st) = Some m" and "scope \<in> role_scopes (m_role m)"
  shows "\<exists>ctx. fst (org_access (Some scope) mr rq k p st) = Inr ctx \<and> cx_scopes ctx = role_scopes (m_role m)"
  using assms by (simp add: org_access_def membership_scopes_def)

text \<open>Onboarding: a created organization belongs to a signed-in user who accepted the agreement; the user is its
  one member and owner, with the owner's scopes in it; it is on the free plan, its slug is no other's, and
  nothing of other organizations changes.\<close>

theorem created_org_has_its_owner:
  assumes ok: "create_org_route translit sv rq retention new_id p body st = (Inr (og, loc), st')"
    and kind: "pr_kind p = UserPrincipal" and fresh: "\<forall>m \<in> set (memberships (ap_db st)). m_org m \<noteq> new_id"
  shows "\<exists>u. pr_user p = Some u \<and> oc_dpa_accepted body \<and> sv_cloud sv \<and>
    filter (\<lambda>m. m_org m = o_id og) (memberships (ap_db st')) =
      [\<lparr>m_org = o_id og, m_user = u_id u, m_role = ''owner'', m_created_at = rq_now rq\<rparr>] \<and>
    (\<exists>ctx. fst (org_access (Some ORG_DELETE) mr rq' (o_id og) p st') = Inr ctx \<and> cx_scopes ctx = role_scopes ''owner'') \<and>
    o_plan og = ''free'' \<and> o_slug og \<notin> o_slug ` set (orgs (ap_db st)) \<and> orgs (ap_db st') = orgs (ap_db st) @ [og]"
proof -
  from create_org_route_Inr [OF ok] obtain u db1 ev where u: "pr_user p = Some u" "oc_dpa_accepted body" "sv_cloud sv"
    and c: "create_org translit (length (orgs (ap_db st)) + 1) new_id (rq_now rq) (oc_org_name body) (Some (u_id u)) ''free''
      (oc_locale body) retention (Some (oc_dpa_version body)) None (ap_db st) = Inr (og, db1)"
    and db: "ap_db st' = (bind_session p (o_id og) db1)\<lparr>audit_events := ev\<rparr>" by metis
  let ?m = "\<lparr>m_org = o_id og, m_user = u_id u, m_role = ''owner'', m_created_at = rq_now rq\<rparr>"
  note created = create_org_Inr [OF c]
  then have tables: "orgs (ap_db st') = orgs (ap_db st) @ [og]" "memberships (ap_db st') = memberships (ap_db st) @ [?m]"
    using db by simp_all
  have old: "\<forall>m \<in> set (memberships (ap_db st)). m_org m \<noteq> o_id og" using fresh created by simp
  then have only: "filter (\<lambda>m. m_org m = o_id og) (memberships (ap_db st')) = [?m]"
    by (simp add: tables filter_empty_conv)
  have "\<forall>r \<in> set (orgs (ap_db st)). o_id r \<noteq> o_id og" using created by (metis image_eqI)
  then have "get_org (o_id og) (ap_db st') = Some og" "get_membership (o_id og) (u_id u) (ap_db st') = Some ?m"
    using old by (auto simp: tables get_org_def get_membership_def intro!: sql_first_new)
  from owner_access [OF kind u(1) this, of ORG_DELETE mr rq'] u created only tables
  show ?thesis by (simp add: org_delete_owner_only)
qed

section \<open>Examples\<close>

lemma demo_delete:
  "delete_org (\<lambda>p. p) [] (\<lambda>p. True) demo_request demo_ctx (ap_db demo_app, new_registry 1 :: bool registry) =
     (Inr (Some [''org'']),
      cascade_org ''org'' ((ap_db demo_app)\<lparr>audit_events := [new_event ''ev'' 5 None (actor_type (cx_principal demo_ctx))
        (actor_id (cx_principal demo_ctx)) ''org.deleted'' (Some (''org:'' @ ''org'')) [] None]\<rparr>),
      registry_forget ''org'' (new_registry 1))"
  by (simp add: delete_org_def demo_app_defs cx_org_id_def demo_ctx_def get_org_def sql_first_def record_event_def
      AUDIT_ACTIONS_V1_def for_org_def org_id_pattern_def org_id_text_def is_urlsafe_def is_ascii_alnum_def is_lower_alpha_def
      is_digit_def Let_def)

theorem deleted_org_is_gone_witness:
  "\<exists>db' rg'. delete_org (\<lambda>p. p) [] (\<lambda>p. True) demo_request demo_ctx (ap_db demo_app, new_registry 1 :: bool registry) =
      (Inr (Some [''org'']), db', rg') \<and> org_rows (Some ''org'') db' = no_data \<and> users db' = [demo_owner] \<and>
      fst (org_access None False demo_request ''org'' (user_principal demo_owner demo_session) (demo_app\<lparr>ap_db := db'\<rparr>))
        = Inl (Problem 404 ''not_found'')"
proof -
  have "''org'' = cx_org_id demo_ctx" by (simp add: cx_org_id_def demo_ctx_def demo_org_def)
  moreover have "own_references (ap_db demo_app)" by (simp add: own_references_def demo_app_def empty_cdb_def)
  moreover have "users (ap_db demo_app) = [demo_owner]" by (simp add: demo_app_def)
  ultimately show ?thesis using deleted_org_is_gone [OF demo_delete, of "''org''" demo_app] demo_delete by (auto simp: hidden_def)
qed

definition demo_org_create :: org_create where
  "demo_org_create = \<lparr>oc_org_name = ''New'', oc_dpa_accepted = True, oc_dpa_version = ''v1'', oc_locale = ''pl''\<rparr>"

theorem created_org_has_its_owner_witness:
  "\<exists>og loc st'. create_org_route (\<lambda>s. s) demo_server demo_request 90 ''n'' (user_principal demo_owner demo_session)
      demo_org_create demo_app = (Inr (og, loc), st') \<and> o_slug og \<notin> o_slug ` set (orgs (ap_db demo_app)) \<and>
      filter (\<lambda>m. m_org m = o_id og) (memberships (ap_db st')) =
        [\<lparr>m_org = o_id og, m_user = ''u'', m_role = ''owner'', m_created_at = 5\<rparr>]"
proof -
  let ?r = "create_org_route (\<lambda>s. s) demo_server demo_request 90 ''n'' (user_principal demo_owner demo_session)
      demo_org_create demo_app"
  let ?base = "slugify (\<lambda>s. s) ''New''"
  have "slug_candidate ?base 1 \<noteq> slug_candidate ?base 2" using slug_candidate_inj [of ?base 1 2] by auto
  then consider "slug_candidate ?base 1 \<notin> set [''org'']" | "slug_candidate ?base 2 \<notin> set [''org'']"
    by (cases "slug_candidate ?base 1 = ''org''") auto
  then have "\<exists>m. 1 \<le> m \<and> m < 1 + 2 \<and> slug_candidate ?base m \<notin> set [''org'']" by cases (auto intro: exI [of _ 2])
  from slug_loop_ends [OF this] obtain sl where "slug_loop 2 [''org''] ?base 1 = Some sl" by blast
  then have "unique_slug (\<lambda>s. s) (Suc (Suc 0)) (ap_db demo_app) ''New'' = Some sl"
    by (simp add: unique_slug_def demo_app_defs numeral_2_eq_2)
  then have "\<exists>og loc. fst ?r = Inr (og, loc)"
    by (simp add: create_org_route_def create_org_def demo_org_create_def demo_app_defs user_principal_def hit_def Let_def
        ORG_CREATE_PER_MIN_def sql_insert_def record_event_def AUDIT_ACTIONS_V1_def)
  then obtain og loc st' where ok: "?r = (Inr (og, loc), st')" by (metis prod.collapse)
  have kind: "pr_kind (user_principal demo_owner demo_session) = UserPrincipal" by (simp add: user_principal_def)
  have "\<forall>m \<in> set (memberships (ap_db demo_app)). m_org m \<noteq> ''n''" by (simp add: demo_app_defs)
  from created_org_has_its_owner [OF ok kind this] ok show ?thesis
    by (auto simp: user_principal_def demo_owner_def demo_request_def)
qed

end
