(* ===== verification/Streams.thy ===== *)
theory Streams
  imports Executor "HOL-Library.AList"
begin

text \<open>
  The streams of job events: the bus of the executor with its limits on open streams (\<open>JobBus\<close>, \<open>StreamSlot\<close> in
  \<^verbatim>\<open>app/control/executor.py\<close>) and the generator of server-sent events (\<open>_event_stream\<close> in
  \<^verbatim>\<open>app/api/v1/jobs.py\<close>). Events and slots are objects shared by reference: an event is a number, a slot an index in
  the list of slots handed out so far. One iteration of the generator is a function of what it observes.
\<close>

section \<open>The bus\<close>

record stream_slot =
  sl_key :: string
  sl_released :: bool

record job_bus =
  jb_events :: "(ident \<times> nat list) list"
  jb_streams :: "(string \<times> int) list"
  jb_closing :: bool
  jb_flags :: "nat list"
  jb_next_event :: nat
  jb_slots :: "stream_slot list"

definition new_bus :: job_bus where
  "new_bus = \<lparr>jb_events = [], jb_streams = [], jb_closing = False, jb_flags = [], jb_next_event = 0, jb_slots = []\<rparr>"

definition listeners_of :: "ident \<Rightarrow> job_bus \<Rightarrow> nat list" where
  "listeners_of job_id b = (case map_of (jb_events b) job_id of None \<Rightarrow> [] | Some es \<Rightarrow> es)"

definition subscribe :: "ident \<Rightarrow> job_bus \<Rightarrow> nat \<times> job_bus" where
  "subscribe job_id b =
     (let ev = jb_next_event b
      in (ev, b\<lparr>jb_next_event := ev + 1, jb_events := AList.update job_id (listeners_of job_id b @ [ev]) (jb_events b)\<rparr>))"

definition unsubscribe :: "ident \<Rightarrow> nat \<Rightarrow> job_bus \<Rightarrow> job_bus" where
  "unsubscribe job_id ev b =
     (if listeners_of job_id b = [] then b
      else let left = removeAll ev (listeners_of job_id b)
           in b\<lparr>jb_events := (if left = [] then AList.delete job_id (jb_events b)
                 else AList.update job_id left (jb_events b))\<rparr>)"

definition set_flags :: "nat list \<Rightarrow> job_bus \<Rightarrow> job_bus" where
  "set_flags evs b = b\<lparr>jb_flags := filter (\<lambda>e. e \<notin> set evs) (jb_flags b) @ evs\<rparr>"

definition clear_flag :: "nat \<Rightarrow> job_bus \<Rightarrow> job_bus" where
  "clear_flag ev b = b\<lparr>jb_flags := removeAll ev (jb_flags b)\<rparr>"

definition publish :: "ident \<Rightarrow> job_bus \<Rightarrow> job_bus" where
  "publish job_id b = set_flags (listeners_of job_id b) b"

definition stream_count :: "string \<Rightarrow> job_bus \<Rightarrow> int" where
  "stream_count key b = (case map_of (jb_streams b) key of None \<Rightarrow> 0 | Some n \<Rightarrow> n)"

definition active_streams :: "job_bus \<Rightarrow> int" where
  "active_streams b = sum_list (map snd (jb_streams b))"

definition open_stream :: "string \<Rightarrow> int \<Rightarrow> int \<Rightarrow> job_bus \<Rightarrow> nat option \<times> job_bus" where
  "open_stream key per_key overall b =
     (if stream_count key b \<ge> per_key \<or> active_streams b \<ge> overall then (None, b)
      else (Some (length (jb_slots b)),
            b\<lparr>jb_streams := AList.update key (stream_count key b + 1) (jb_streams b),
              jb_slots := jb_slots b @ [\<lparr>sl_key = key, sl_released = False\<rparr>]\<rparr>))"

definition release_key :: "string \<Rightarrow> job_bus \<Rightarrow> job_bus" where
  "release_key key b =
     (let left = stream_count key b - 1
      in b\<lparr>jb_streams := (if left > 0 then AList.update key left (jb_streams b) else AList.delete key (jb_streams b))\<rparr>)"

definition release_slot :: "nat \<Rightarrow> job_bus \<Rightarrow> job_bus" where
  "release_slot i b =
     (if i < length (jb_slots b) \<and> \<not> sl_released (jb_slots b ! i)
      then release_key (sl_key (jb_slots b ! i)) (b\<lparr>jb_slots := (jb_slots b)[i := (jb_slots b ! i)\<lparr>sl_released := True\<rparr>]\<rparr>)
      else b)"

definition shutdown_bus :: "job_bus \<Rightarrow> job_bus" where
  "shutdown_bus b = (let b1 = b\<lparr>jb_closing := True\<rparr> in set_flags (concat (map snd (jb_events b1))) b1)"

section \<open>The generator\<close>

datatype payload = Snapshot job | Fields pydict

datatype frame = Event string payload | Raw string

text \<open>\<open>_sse\<close>; \<open>dumps\<close> is the JSON text of the data.\<close>

definition render_frame :: "(payload \<Rightarrow> string) \<Rightarrow> frame \<Rightarrow> string" where
  "render_frame dumps f = (case f of Raw s \<Rightarrow> s
     | Event e d \<Rightarrow> ''event: '' @ e @ [CHR 10] @ ''data: '' @ dumps d @ [CHR 10, CHR 10])"

definition SSE_FALLBACK_POLL_SEC :: rat where "SSE_FALLBACK_POLL_SEC = 5"

record sse_conf =
  sc_job :: ident
  sc_heartbeat :: rat
  sc_deadline :: rat

record sse_state =
  ss_last :: "(job_status \<times> int \<times> string option) option"
  ss_last_beat :: rat

text \<open>What one iteration sees: the row, the flag of the bus, the connection, and the clock at its three readings.\<close>

record observation =
  ob_job :: "job option"
  ob_closing :: bool
  ob_disconnected :: bool
  ob_changed_at :: rat
  ob_checked_at :: rat
  ob_now :: rat
  ob_utc :: stamp

datatype sse_next = Stop | Wait rat sse_state

definition job_state :: "job \<Rightarrow> job_status \<times> int \<times> string option" where
  "job_state j = (j_status j, j_progress j, j_message j)"

definition change_frames :: "(job_status \<times> int \<times> string option) option \<Rightarrow> stamp \<Rightarrow> job \<Rightarrow> frame list" where
  "change_frames seen utc j =
     (if seen = None \<or> j_status j \<noteq> fst (the seen) then [Event ''status'' (Snapshot j)] else []) @
     (if seen \<noteq> None \<and> j_progress j \<noteq> fst (snd (the seen))
      then [Event ''progress'' (Fields [(''id'', PStr (j_id j)), (''progress'', PInt (j_progress j))])] else []) @
     (case j_message j of
        None \<Rightarrow> []
      | Some m \<Rightarrow> if m \<noteq> [] \<and> (seen = None \<or> j_message j \<noteq> snd (snd (the seen)))
          then [Event ''log'' (Fields [(''id'', PStr (j_id j)), (''message'', PStr m), (''ts'', PInt utc)])] else [])"

definition missing_frame :: "ident \<Rightarrow> frame" where
  "missing_frame job_id = Event ''done'' (Fields [(''id'', PStr job_id), (''status'', PStr ''failed''),
     (''error_code'', PStr ''job_missing'')])"

definition sse_iter :: "sse_conf \<Rightarrow> observation \<Rightarrow> sse_state \<Rightarrow> frame list \<times> sse_next" where
  "sse_iter c ob s =
     (case ob_job ob of
        None \<Rightarrow> ([missing_frame (sc_job c)], Stop)
      | Some j \<Rightarrow>
          let changed = (ss_last s \<noteq> Some (job_state j));
              fs = (if changed then change_frames (ss_last s) (ob_utc ob) j else []);
              s1 = (if changed then \<lparr>ss_last = Some (job_state j), ss_last_beat = ob_changed_at ob\<rparr> else s)
          in if terminal (j_status j) then (fs @ [Event ''done'' (Snapshot j)], Stop)
             else if ob_closing ob then (fs @ [Raw ('': server shutting down, reconnect'' @ [CHR 10, CHR 10])], Stop)
             else if ob_checked_at ob \<ge> sc_deadline c
               then (fs @ [Raw ('': maximum stream lifetime reached, reconnect'' @ [CHR 10, CHR 10])], Stop)
             else if ob_disconnected ob then (fs, Stop)
             else let beat = (ob_now ob - ss_last_beat s1 \<ge> sc_heartbeat c)
                  in (fs @ (if beat then [Raw ('': heartbeat'' @ [CHR 10, CHR 10])] else []),
                      Wait (max (1/20) (min SSE_FALLBACK_POLL_SEC (min (sc_heartbeat c) (sc_deadline c - ob_now ob))))
                        (if beat then s1\<lparr>ss_last_beat := ob_now ob\<rparr> else s1)))"

text \<open>The whole stream over the observations of its iterations; \<open>True\<close> when it has ended.\<close>

fun sse_loop :: "sse_conf \<Rightarrow> observation list \<Rightarrow> sse_state \<Rightarrow> frame list \<times> bool" where
  "sse_loop c [] s = ([], False)"
| "sse_loop c (ob # obs) s =
     (case sse_iter c ob s of
        (fs, Stop) \<Rightarrow> (fs, True)
      | (fs, Wait t s1) \<Rightarrow> (let (rest, ended) = sse_loop c obs s1 in (fs @ rest, ended)))"

definition event_stream :: "sse_conf \<Rightarrow> rat \<Rightarrow> observation list \<Rightarrow> frame list \<times> bool" where
  "event_stream c started obs =
     (let (fs, ended) = sse_loop c obs \<lparr>ss_last = None, ss_last_beat = started\<rparr>
      in (Raw (''retry: 3000'' @ [CHR 10, CHR 10]) # fs, ended))"

text \<open>The route up to the start of the generator, and what its \<open>finally\<close> does (the background task releases the
  slot once more).\<close>

definition job_events :: "int \<Rightarrow> int \<Rightarrow> string \<Rightarrow> org_context \<Rightarrow> ident \<Rightarrow> cdb \<Rightarrow> job_bus \<Rightarrow> (exc + nat \<times> nat) \<times> job_bus" where
  "job_events per_principal overall key ctx job_id db b =
     (case load_job (cx_org_id ctx) job_id db of
        Inl e \<Rightarrow> (Inl e, b)
      | Inr j \<Rightarrow>
          if jb_closing b then (Inl (Problem 503 ''shutting_down''), b)
          else (case open_stream key per_principal overall b of
              (None, b1) \<Rightarrow> (Inl (Problem 429 ''sse_limit''), b1)
            | (Some slot, b1) \<Rightarrow> let (ev, b2) = subscribe job_id b1 in (Inr (slot, ev), b2)))"

definition end_stream :: "ident \<Rightarrow> nat \<Rightarrow> nat \<Rightarrow> job_bus \<Rightarrow> job_bus" where
  "end_stream job_id slot ev b = release_slot slot (release_slot slot (unsubscribe job_id ev b))"

section \<open>Facts about the counters\<close>

lemma sum_update:
  "distinct (map fst al) \<Longrightarrow> sum_list (map snd (AList.update k v al)) =
     sum_list (map snd al) - (case map_of al k of None \<Rightarrow> 0 | Some n \<Rightarrow> n) + (v :: int)"
  by (induction al) (auto split: option.splits)

lemma map_of_not_key: "k \<notin> fst ` set al \<Longrightarrow> map_of al k = None"
  by (simp add: map_of_eq_None_iff)

lemma delete_not_key: "k \<notin> fst ` set al \<Longrightarrow> AList.delete k al = al"
  by (induction al) auto

lemma sum_delete:
  "distinct (map fst al) \<Longrightarrow> sum_list (map snd (AList.delete k al)) =
     sum_list (map snd al) - (case map_of al k of None \<Rightarrow> 0 | Some (n :: int) \<Rightarrow> n)"
  by (induction al) (auto simp: delete_not_key map_of_not_key)

definition open_slots :: "string \<Rightarrow> job_bus \<Rightarrow> nat" where
  "open_slots key b = rowcount (\<lambda>s. sl_key s = key \<and> \<not> sl_released s) (jb_slots b)"

definition all_open_slots :: "job_bus \<Rightarrow> nat" where
  "all_open_slots b = rowcount (\<lambda>s. \<not> sl_released s) (jb_slots b)"

definition bus_inv :: "int \<Rightarrow> int \<Rightarrow> job_bus \<Rightarrow> bool" where
  "bus_inv per_key overall b =
     (distinct (map fst (jb_streams b)) \<and> (\<forall>k. stream_count k b = int (open_slots k b)) \<and>
      active_streams b = int (all_open_slots b) \<and> (\<forall>k. stream_count k b \<le> max 0 per_key) \<and>
      active_streams b \<le> max 0 overall)"

datatype bus_event = Open string | Release nat | Subscribe ident | Unsubscribe ident nat | Publish ident | Clear nat | Close

fun bus_step :: "int \<Rightarrow> int \<Rightarrow> bus_event \<Rightarrow> job_bus \<Rightarrow> job_bus" where
  "bus_step per_key overall (Open k) b = snd (open_stream k per_key overall b)"
| "bus_step per_key overall (Release i) b = release_slot i b"
| "bus_step per_key overall (Subscribe j) b = snd (subscribe j b)"
| "bus_step per_key overall (Unsubscribe j e) b = unsubscribe j e b"
| "bus_step per_key overall (Publish j) b = publish j b"
| "bus_step per_key overall (Clear e) b = clear_flag e b"
| "bus_step per_key overall Close b = shutdown_bus b"

lemma bus_inv_cong:
  "jb_streams b' = jb_streams b \<Longrightarrow> jb_slots b' = jb_slots b \<Longrightarrow> bus_inv p t b' = bus_inv p t b"
  by (simp add: bus_inv_def stream_count_def open_slots_def active_streams_def all_open_slots_def)

lemma open_inv:
  assumes inv: "bus_inv p t b"
  shows "bus_inv p t (snd (open_stream k p t b))"
proof (cases "stream_count k b \<ge> p \<or> active_streams b \<ge> t")
  case True
  then show ?thesis using inv by (simp add: open_stream_def)
next
  case False
  let ?b = "snd (open_stream k p t b)"
  from False have st: "jb_streams ?b = AList.update k (stream_count k b + 1) (jb_streams b)"
    and sl: "jb_slots ?b = jb_slots b @ [\<lparr>sl_key = k, sl_released = False\<rparr>]"
    by (simp_all add: open_stream_def)
  have d: "distinct (map fst (jb_streams b))" using inv by (simp add: bus_inv_def)
  have cnt: "stream_count k' ?b = stream_count k' b + (if k' = k then 1 else 0)" for k'
    by (simp add: stream_count_def st update_conv')
  have act: "active_streams ?b = active_streams b + 1"
    using sum_update [OF d, of k "stream_count k b + 1"] by (simp add: active_streams_def st stream_count_def split: option.splits)
  have os: "open_slots k' ?b = open_slots k' b + (if k' = k then 1 else 0)" for k' by (simp add: open_slots_def sl)
  have all: "all_open_slots ?b = all_open_slots b + 1" by (simp add: all_open_slots_def sl)
  show ?thesis using inv False unfolding bus_inv_def cnt act os all
    by (auto simp: st distinct_update)
qed

lemma rowcount_released:
  assumes "i < length xs" and "\<not> sl_released (xs ! i)"
  shows "rowcount (\<lambda>s. \<not> sl_released s) (xs[i := (xs ! i)\<lparr>sl_released := True\<rparr>]) + 1 = rowcount (\<lambda>s. \<not> sl_released s) xs"
    "rowcount (\<lambda>s. sl_key s = k \<and> \<not> sl_released s) (xs[i := (xs ! i)\<lparr>sl_released := True\<rparr>]) + (if sl_key (xs ! i) = k then 1 else 0)
      = rowcount (\<lambda>s. sl_key s = k \<and> \<not> sl_released s) xs"
  using rowcount_list_update [OF assms(1), of "\<lambda>s. \<not> sl_released s" "(xs ! i)\<lparr>sl_released := True\<rparr>"]
    rowcount_list_update [OF assms(1), of "\<lambda>s. sl_key s = k \<and> \<not> sl_released s" "(xs ! i)\<lparr>sl_released := True\<rparr>"] assms(2)
  by simp_all

lemma release_inv:
  assumes inv: "bus_inv p t b"
  shows "bus_inv p t (release_slot i b)"
proof (cases "i < length (jb_slots b) \<and> \<not> sl_released (jb_slots b ! i)")
  case False
  then show ?thesis using inv by (auto simp: release_slot_def)
next
  case True
  let ?k = "sl_key (jb_slots b ! i)"
  let ?b = "release_slot i b"
  let ?left = "stream_count ?k b - 1"
  from True have st: "jb_streams ?b = (if ?left > 0 then AList.update ?k ?left (jb_streams b) else AList.delete ?k (jb_streams b))"
    and sl: "jb_slots ?b = (jb_slots b)[i := (jb_slots b ! i)\<lparr>sl_released := True\<rparr>]"
    by (simp_all add: release_slot_def release_key_def stream_count_def Let_def)
  have d: "distinct (map fst (jb_streams b))" using inv by (simp add: bus_inv_def)
  note fewer = rowcount_released [of i "jb_slots b", OF conjunct1 [OF True] conjunct2 [OF True], folded sl]
  have "open_slots ?k b \<noteq> 0" using fewer(2) [of ?k] by (simp add: open_slots_def)
  then have pos: "?left \<ge> 0" using inv by (simp add: bus_inv_def)
  have cnt: "stream_count k' ?b = stream_count k' b - (if k' = ?k then 1 else 0)" for k'
  proof (cases "?left > 0")
    case False
    then have "stream_count ?k b = 1" using pos by simp
    then show ?thesis using False by (auto simp: stream_count_def st delete_conv')
  qed (simp add: stream_count_def st update_conv')
  have act: "active_streams ?b = active_streams b - 1"
  proof (cases "?left > 0")
    case True
    then show ?thesis using sum_update [OF d, of ?k ?left] by (simp add: active_streams_def st stream_count_def split: option.splits)
  next
    case False
    then have "stream_count ?k b = 1" using pos by simp
    then show ?thesis using False sum_delete [OF d, of ?k] by (simp add: active_streams_def st stream_count_def)
  qed
  have os: "int (open_slots k' ?b) = int (open_slots k' b) - (if k' = ?k then 1 else 0)" for k'
    using fewer(2) [of k'] by (auto simp: open_slots_def split: if_splits)
  have all: "int (all_open_slots ?b) = int (all_open_slots b) - 1" using fewer(1) by (simp add: all_open_slots_def)
  have "distinct (map fst (jb_streams ?b))" using d by (simp add: st distinct_update distinct_delete)
  moreover have "stream_count k' b - (if k' = ?k then 1 else 0) \<le> max 0 p" for k'
    using inv by (auto simp: bus_inv_def intro: order_trans [of _ "stream_count k' b"])
  ultimately show ?thesis using inv unfolding bus_inv_def cnt act os all by auto
qed

lemma bus_step_inv: "bus_inv p t b \<Longrightarrow> bus_inv p t (bus_step p t e b)"
proof (induction p t e b rule: bus_step.induct)
  case (1 p t k b)
  then show ?case by (simp add: open_inv)
next
  case (2 p t i b)
  then show ?case by (simp add: release_inv)
next
  case (3 p t j b)
  then show ?case using bus_inv_cong [of "snd (subscribe j b)" b p t] by (simp add: subscribe_def Let_def)
next
  case (4 p t j e b)
  then show ?case using bus_inv_cong [of "unsubscribe j e b" b p t] by (simp add: unsubscribe_def Let_def)
next
  case (5 p t j b)
  then show ?case using bus_inv_cong [of "publish j b" b p t] by (simp add: publish_def set_flags_def)
next
  case (6 p t e b)
  then show ?case using bus_inv_cong [of "clear_flag e b" b p t] by (simp add: clear_flag_def)
next
  case (7 p t b)
  then show ?case using bus_inv_cong [of "shutdown_bus b" b p t] by (simp add: shutdown_bus_def set_flags_def Let_def)
qed

interpretation bus: machine "bus_step p t" "bus_inv p t" for p t
  by unfold_locales (rule bus_step_inv)

lemma new_bus_inv: "bus_inv p t new_bus"
  by (simp add: bus_inv_def new_bus_def stream_count_def open_slots_def active_streams_def all_open_slots_def)

text \<open>The limits on open streams hold: after any sequence of openings, closings (each slot may be released by the
  generator, by the background task, by both, in any order), notifications and a shutdown, the counters are exactly
  the numbers of slots not yet released, no caller has more than its limit, and all together no more than the
  overall limit.\<close>

theorem stream_limits_hold:
  "let b = fold (bus_step per_key overall) es new_bus
   in stream_count k b = int (open_slots k b) \<and> active_streams b = int (all_open_slots b) \<and>
      int (open_slots k b) \<le> max 0 per_key \<and> int (all_open_slots b) \<le> max 0 overall"
proof -
  have inv: "bus_inv per_key overall (fold (bus_step per_key overall) es new_bus)" by (rule bus.run_inv [OF new_bus_inv])
  let ?b = "fold (bus_step per_key overall) es new_bus"
  have "stream_count k ?b = int (open_slots k ?b)" "active_streams ?b = int (all_open_slots ?b)"
    "stream_count k ?b \<le> max 0 per_key" "active_streams ?b \<le> max 0 overall"
    using inv unfolding bus_inv_def by blast+
  then show ?thesis unfolding Let_def by simp
qed

section \<open>What a stream tells\<close>

definition ends_stream :: "sse_conf \<Rightarrow> observation \<Rightarrow> bool" where
  "ends_stream c ob = (case ob_job ob of None \<Rightarrow> True
     | Some j \<Rightarrow> terminal (j_status j) \<or> ob_closing ob \<or> sc_deadline c \<le> ob_checked_at ob \<or> ob_disconnected ob)"

fun processed :: "sse_conf \<Rightarrow> observation list \<Rightarrow> observation list" where
  "processed c [] = []"
| "processed c (ob # obs) = ob # (if ends_stream c ob then [] else processed c obs)"

definition observed :: "sse_conf \<Rightarrow> observation list \<Rightarrow> job list" where
  "observed c obs = List.map_filter ob_job (processed c obs)"

fun shown_status :: "frame \<Rightarrow> job_status list" where
  "shown_status (Event e (Snapshot j)) = (if e = ''status'' then [j_status j] else [])"
| "shown_status f = []"

fun shown_done :: "frame \<Rightarrow> job option list" where
  "shown_done (Event e (Snapshot j)) = (if e = ''done'' then [Some j] else [])"
| "shown_done (Event e (Fields d)) = (if e = ''done'' then [None] else [])"
| "shown_done (Raw s) = []"

definition statuses :: "frame list \<Rightarrow> job_status list" where "statuses fs = concat (map shown_status fs)"
definition dones :: "frame list \<Rightarrow> job option list" where "dones fs = concat (map shown_done fs)"

lemma shown_simps [simp]:
  "statuses [] = []" "statuses (f # fs) = shown_status f @ statuses fs" "statuses (fs @ gs) = statuses fs @ statuses gs"
  "dones [] = []" "dones (f # fs) = shown_done f @ dones fs" "dones (fs @ gs) = dones fs @ dones gs"
  by (simp_all add: statuses_def dones_def)

lemma change_frames_shown:
  "statuses (change_frames seen utc j) = (if seen = None \<or> j_status j \<noteq> fst (the seen) then [j_status j] else [])"
  "dones (change_frames seen utc j) = []"
  by (simp_all add: change_frames_def split: option.splits)

text \<open>One iteration.\<close>

lemma sse_iter_job:
  assumes "ob_job ob = Some j"
  shows "statuses (fst (sse_iter c ob s)) = (if map_option fst (ss_last s) = Some (j_status j) then [] else [j_status j])"
    "dones (fst (sse_iter c ob s)) = (if terminal (j_status j) then [Some j] else [])"
    "ends_stream c ob \<Longrightarrow> snd (sse_iter c ob s) = Stop"
    "\<not> ends_stream c ob \<Longrightarrow> \<exists>t s1. snd (sse_iter c ob s) = Wait t s1 \<and> ss_last s1 = Some (job_state j)"
  using assms
  by (auto simp: sse_iter_def Let_def change_frames_shown ends_stream_def job_state_def map_option_case split: option.splits)

lemma sse_iter_missing: "ob_job ob = None \<Longrightarrow> sse_iter c ob s = ([missing_frame (sc_job c)], Stop)"
  by (simp add: sse_iter_def)

text \<open>The loop from any state.\<close>

lemma sse_loop_statuses:
  "statuses (fst (sse_loop c obs s)) =
     (case ss_last s of None \<Rightarrow> remdups_adj (map j_status (observed c obs))
      | Some x \<Rightarrow> tl (remdups_adj (fst x # map j_status (observed c obs))))"
proof (induction obs arbitrary: s)
  case Nil
  then show ?case by (simp add: observed_def split: option.split)
next
  case (Cons ob obs)
  show ?case
  proof (cases "ob_job ob")
    case None
    then show ?thesis
      by (simp add: sse_iter_missing ends_stream_def observed_def missing_frame_def split: option.split)
  next
    case (Some j)
    note it = sse_iter_job [OF Some, where c = c and s = s]
    show ?thesis
    proof (cases "ends_stream c ob")
      case True
      with Some have "observed c (ob # obs) = [j]" by (simp add: observed_def)
      moreover have "sse_loop c (ob # obs) s = (fst (sse_iter c ob s), True)"
        using it(3) [OF True] by (simp add: split: prod.split) (metis fst_conv sse_next.simps(4) snd_conv)
      ultimately show ?thesis using it(1) by (cases "ss_last s") auto
    next
      case False
      from it(4) [OF False] obtain t s1 where n: "snd (sse_iter c ob s) = Wait t s1" "ss_last s1 = Some (job_state j)" by blast
      have "observed c (ob # obs) = j # observed c obs" using Some False by (simp add: observed_def)
      moreover have "statuses (fst (sse_loop c (ob # obs) s)) = statuses (fst (sse_iter c ob s)) @ statuses (fst (sse_loop c obs s1))"
        using n(1) by (cases "sse_iter c ob s") (simp add: case_prod_beta)
      ultimately show ?thesis using it(1) Cons.IH [of s1] n(2)
        by (cases "ss_last s"; cases "map j_status (observed c obs)") (auto simp: job_state_def)
    qed
  qed
qed

lemma sse_loop_ends: "snd (sse_loop c obs s) = (\<exists>ob \<in> set obs. ends_stream c ob)"
proof (induction obs arbitrary: s)
  case (Cons ob obs)
  show ?case
  proof (cases "ob_job ob")
    case (Some j)
    show ?thesis
      using sse_iter_job(3,4) [OF Some, where c = c and s = s] Cons.IH
      by (cases "ends_stream c ob"; cases "sse_iter c ob s") (auto simp: case_prod_beta)
  qed (simp add: sse_iter_missing ends_stream_def)
qed simp

lemma sse_loop_dones:
  "dones (fst (sse_loop c obs s)) =
     (if processed c obs = [] then [] else (case ob_job (last (processed c obs)) of None \<Rightarrow> [None]
        | Some j \<Rightarrow> if terminal (j_status j) then [Some j] else []))"
proof (induction obs arbitrary: s)
  case (Cons ob obs)
  show ?case
  proof (cases "ob_job ob")
    case None
    then show ?thesis by (simp add: sse_iter_missing ends_stream_def missing_frame_def)
  next
    case (Some j)
    note it = sse_iter_job [OF Some, where c = c and s = s]
    show ?thesis
    proof (cases "ends_stream c ob")
      case True
      with Some it(2,3) show ?thesis by (cases "sse_iter c ob s") auto
    next
      case False
      then have "\<not> terminal (j_status j)" using Some by (simp add: ends_stream_def)
      moreover from it(4) [OF False] obtain t s1 where "snd (sse_iter c ob s) = Wait t s1" by blast
      ultimately show ?thesis using Some False it(2) Cons.IH [of s1]
        by (cases "sse_iter c ob s") (auto simp: case_prod_beta)
    qed
  qed
qed simp

text \<open>A stream tells the job's story: the statuses it sends are exactly the statuses observed with repetitions
  removed, the first observation always included; it ends at the first observation that finds the row gone, a final
  status, the server closing, the deadline passed or the client gone; and it sends one \<open>done\<close> event, with the
  final snapshot (or the error that the job is missing), exactly when that is why it ends.\<close>

theorem stream_tells_every_status:
  "let (fs, ended) = event_stream c started obs
   in statuses fs = remdups_adj (map j_status (observed c obs)) \<and> ended = (\<exists>ob \<in> set obs. ends_stream c ob) \<and>
      dones fs = (if processed c obs = [] then [] else (case ob_job (last (processed c obs)) of None \<Rightarrow> [None]
        | Some j \<Rightarrow> if terminal (j_status j) then [Some j] else []))"
  using sse_loop_statuses [of c obs "\<lparr>ss_last = None, ss_last_beat = started\<rparr>"]
    sse_loop_ends [of c obs "\<lparr>ss_last = None, ss_last_beat = started\<rparr>"]
    sse_loop_dones [of c obs "\<lparr>ss_last = None, ss_last_beat = started\<rparr>"]
  by (simp add: event_stream_def Let_def case_prod_beta)

end
