(* ===== verification/NetAddr.thy ===== *)
theory NetAddr
  imports PyText
begin

text \<open>
  What the sources use of Python's \<open>ipaddress\<close> and \<open>urllib.parse\<close>: parsing of IPv4 and IPv6 texts, the
  special-purpose networks behind \<open>is_private\<close>, \<open>is_reserved\<close>, \<open>is_global\<close> (as of Python 3.12), and
  \<open>urlsplit\<close> with the parts of the network location. An address is the integer Python keeps, so that a network
  of prefix length \<open>k\<close> is a range of integers that agree after dropping the host bits.
\<close>

section \<open>Texts of addresses\<close>

datatype ip = V4 nat | V6 nat

definition parse_octet :: "string \<Rightarrow> nat option" where
  "parse_octet s =
     (if s = [] \<or> \<not> list_all is_digit s \<or> length s > 3 \<or> (s \<noteq> ''0'' \<and> hd s = CHR ''0'') \<or> parse_nat s > 255 then None
      else Some (parse_nat s))"

definition parse_v4 :: "string \<Rightarrow> nat option" where
  "parse_v4 s =
     (case map parse_octet (py_split (CHR ''.'') s) of
        [Some a, Some b, Some c, Some d] \<Rightarrow> Some (((a * 256 + b) * 256 + c) * 256 + d)
      | _ \<Rightarrow> None)"

definition is_hex :: "char \<Rightarrow> bool" where
  "is_hex c = (let n = (of_char c :: nat) in is_digit c \<or> 97 \<le> n \<and> n \<le> 102 \<or> 65 \<le> n \<and> n \<le> 70)"

definition hex_val :: "char \<Rightarrow> nat" where
  "hex_val c = (let n = of_char c in if n < 65 then n - 48 else if n < 97 then n - 55 else n - 87)"

definition parse_hextet :: "string \<Rightarrow> nat option" where
  "parse_hextet s =
     (if list_all is_hex s \<and> s \<noteq> [] \<and> length s \<le> 4 then Some (foldl (\<lambda>n c. 16 * n + hex_val c) 0 s) else None)"

fun all_some :: "'a option list \<Rightarrow> 'a list option" where
  "all_some [] = Some []"
| "all_some (None # xs) = None"
| "all_some (Some x # xs) = map_option (\<lambda>ys. x # ys) (all_some xs)"

text \<open>The parts between colons; a dotted suffix becomes two parts. A part is here already a number, or \<open>None\<close> when it is
  empty: \<open>v6_parts\<close> fails for any other text.\<close>

definition v6_part :: "string \<Rightarrow> nat option option" where
  "v6_part s = (if s = [] then Some None else map_option Some (parse_hextet s))"

definition v6_parts :: "string \<Rightarrow> nat option list option" where
  "v6_parts s =
     (let ps = py_split (CHR '':'') s in
      if length ps < 3 then None
      else if CHR ''.'' \<in> set (last ps) then
        (case parse_v4 (last ps) of None \<Rightarrow> None
         | Some n \<Rightarrow> map_option (\<lambda>qs. qs @ [Some (n div 65536), Some (n mod 65536)]) (all_some (map v6_part (butlast ps))))
      else all_some (map v6_part ps))"

definition hextets_value :: "nat list \<Rightarrow> nat" where
  "hextets_value hs = foldl (\<lambda>n h. n * 65536 + h) 0 hs"

text \<open>The inner empty parts decide: none, then eight parts are needed; one, then it stands for the missing zeroes, and
  an empty end is only allowed next to it.\<close>

definition v6_value :: "nat option list \<Rightarrow> nat option" where
  "v6_value ps =
     (let inner = filter (\<lambda>i. ps ! i = None) [1..<length ps - 1] in
      if length ps > 9 then None
      else (case inner of
          [] \<Rightarrow> if length ps \<noteq> 8 then None else map_option hextets_value (all_some ps)
        | [i] \<Rightarrow>
            let hi0 = take i ps; lo0 = drop (i + 1) ps;
                hi = (if hd hi0 = None then tl hi0 else hi0);
                lo = (if last lo0 = None then butlast lo0 else lo0)
            in if (hd hi0 = None \<and> hi \<noteq> []) \<or> (last lo0 = None \<and> lo \<noteq> []) \<or> length hi + length lo > 7 then None
               else (case (all_some hi, all_some lo) of
                   (Some hs, Some ls) \<Rightarrow> Some (hextets_value (hs @ replicate (8 - (length hs + length ls)) 0 @ ls))
                 | _ \<Rightarrow> None)
        | _ \<Rightarrow> None))"

definition parse_v6 :: "string \<Rightarrow> nat option" where
  "parse_v6 s =
     (let addr = (case py_partition (CHR ''%'') s of None \<Rightarrow> Some s
            | Some (a, scope) \<Rightarrow> if scope = [] \<or> CHR ''%'' \<in> set scope then None else Some a)
      in if CHR ''/'' \<in> set s then None
         else (case addr of None \<Rightarrow> None
           | Some a \<Rightarrow> (case v6_parts a of None \<Rightarrow> None | Some ps \<Rightarrow> v6_value ps)))"

definition ip_address :: "string \<Rightarrow> ip option" where
  "ip_address s = (case (if CHR ''/'' \<in> set s then None else parse_v4 s) of
     Some n \<Rightarrow> Some (V4 n) | None \<Rightarrow> map_option V6 (parse_v6 s))"

section \<open>Networks\<close>

definition dotted_value :: "nat \<Rightarrow> nat \<Rightarrow> nat \<Rightarrow> nat \<Rightarrow> nat" where
  "dotted_value a b c d = ((a * 256 + b) * 256 + c) * 256 + d"

definition in_v4_net :: "nat \<Rightarrow> (nat \<times> nat \<times> nat \<times> nat) \<times> nat \<Rightarrow> bool" where
  "in_v4_net n net = (case net of ((a, b, c, d), len) \<Rightarrow> n div 2 ^ (32 - len) = dotted_value a b c d div 2 ^ (32 - len))"

text \<open>An IPv6 network by its first four hextets; every network used here has a zero tail or a full length.\<close>

definition in_v6_net :: "nat \<Rightarrow> nat list \<times> nat \<Rightarrow> bool" where
  "in_v6_net n net = (n div 2 ^ (128 - snd net) = hextets_value (fst net @ replicate (8 - length (fst net)) 0) div 2 ^ (128 - snd net))"

definition V4_PRIVATE :: "((nat \<times> nat \<times> nat \<times> nat) \<times> nat) list" where
  "V4_PRIVATE = [((0, 0, 0, 0), 8), ((10, 0, 0, 0), 8), ((127, 0, 0, 0), 8), ((169, 254, 0, 0), 16), ((172, 16, 0, 0), 12),
     ((192, 0, 0, 0), 24), ((192, 0, 0, 170), 31), ((192, 0, 2, 0), 24), ((192, 168, 0, 0), 16), ((198, 18, 0, 0), 15),
     ((198, 51, 100, 0), 24), ((203, 0, 113, 0), 24), ((240, 0, 0, 0), 4), ((255, 255, 255, 255), 32)]"

definition V4_PRIVATE_EXCEPTIONS :: "((nat \<times> nat \<times> nat \<times> nat) \<times> nat) list" where
  "V4_PRIVATE_EXCEPTIONS = [((192, 0, 0, 9), 32), ((192, 0, 0, 10), 32)]"

definition V6_PRIVATE :: "(nat list \<times> nat) list" where
  "V6_PRIVATE = [([0, 0, 0, 0, 0, 0, 0, 1], 128), ([0], 128), ([0, 0, 0, 0, 0, 0xffff], 96), ([0x64, 0xff9b, 1], 48),
     ([0x100], 64), ([0x2001], 23), ([0x2001, 0xdb8], 32), ([0x2002], 16), ([0xfc00], 7), ([0xfe80], 10)]"

definition V6_PRIVATE_EXCEPTIONS :: "(nat list \<times> nat) list" where
  "V6_PRIVATE_EXCEPTIONS = [([0x2001, 1, 0, 0, 0, 0, 0, 1], 128), ([0x2001, 1, 0, 0, 0, 0, 0, 2], 128), ([0x2001, 3], 32),
     ([0x2001, 4, 0x112], 48), ([0x2001, 0x20], 28), ([0x2001, 0x30], 28)]"

definition V6_RESERVED :: "(nat list \<times> nat) list" where
  "V6_RESERVED = [([0], 8), ([0x100], 8), ([0x200], 7), ([0x400], 6), ([0x800], 5), ([0x1000], 4), ([0x4000], 3), ([0x6000], 3),
     ([0x8000], 3), ([0xa000], 3), ([0xc000], 3), ([0xe000], 4), ([0xf000], 5), ([0xf800], 6), ([0xfe00], 9)]"

definition v4_private :: "nat \<Rightarrow> bool" where
  "v4_private n = (list_ex (in_v4_net n) V4_PRIVATE \<and> \<not> list_ex (in_v4_net n) V4_PRIVATE_EXCEPTIONS)"

definition v6_private :: "nat \<Rightarrow> bool" where
  "v6_private n = (list_ex (in_v6_net n) V6_PRIVATE \<and> \<not> list_ex (in_v6_net n) V6_PRIVATE_EXCEPTIONS)"

section \<open>URLs\<close>

record url_parts =
  ur_scheme :: string
  ur_netloc :: string
  ur_path :: string
  ur_query :: string
  ur_fragment :: string

definition scheme_char :: "char \<Rightarrow> bool" where
  "scheme_char c = (is_ascii_alnum c \<or> c \<in> set ''+-.'')"

definition is_alpha :: "char \<Rightarrow> bool" where
  "is_alpha c = (is_lower_alpha c \<or> is_upper_alpha c)"

text \<open>\<open>\\Av[a-fA-F0-9]+\\..+\\Z\<close>.\<close>

definition ipv_future :: "string \<Rightarrow> bool" where
  "ipv_future s = (case s of [] \<Rightarrow> False | v # r \<Rightarrow>
     let hs = takeWhile is_hex r; rest = dropWhile is_hex r
     in v = CHR ''v'' \<and> hs \<noteq> [] \<and> rest \<noteq> [] \<and> hd rest = CHR ''.'' \<and> tl rest \<noteq> [] \<and> CHR 10 \<notin> set (tl rest))"

definition bracketed_ok :: "string \<Rightarrow> bool" where
  "bracketed_ok netloc =
     (let host = (case py_partition (CHR ''['') netloc of None \<Rightarrow> [] | Some (a, b) \<Rightarrow>
            (case py_partition (CHR '']'') b of None \<Rightarrow> b | Some (h, r) \<Rightarrow> h))
      in if host \<noteq> [] \<and> hd host = CHR ''v'' then ipv_future host
         else (case ip_address host of Some (V6 n) \<Rightarrow> True | _ \<Rightarrow> False))"

text \<open>\<open>urlsplit\<close>; \<open>None\<close> is its \<open>ValueError\<close>. (Its check of compatibility characters refuses nothing below code
  point 256.)\<close>

definition urlsplit :: "string \<Rightarrow> url_parts option" where
  "urlsplit url0 =
     (let url = filter (\<lambda>c. c \<notin> {CHR 9, CHR 10, CHR 13}) (dropWhile (\<lambda>c. (of_char c :: nat) \<le> 32) url0);
          (scheme, rest) = (case py_partition (CHR '':'') url of
              None \<Rightarrow> ([], url)
            | Some (a, b) \<Rightarrow> if a \<noteq> [] \<and> is_alpha (hd url) \<and> list_all scheme_char a then (py_lower a, b) else ([], url));
          (netloc, tail) = (if take 2 rest = ''//''
              then (takeWhile (\<lambda>c. c \<notin> set ''/?#'') (drop 2 rest), dropWhile (\<lambda>c. c \<notin> set ''/?#'') (drop 2 rest)) else ([], rest));
          (before, fragment) = (case py_partition (CHR ''#'') tail of None \<Rightarrow> (tail, []) | Some p \<Rightarrow> p);
          (path, query) = (case py_partition (CHR ''?'') before of None \<Rightarrow> (before, []) | Some p \<Rightarrow> p)
      in if (CHR ''['' \<in> set netloc) \<noteq> (CHR '']'' \<in> set netloc) then None
         else if CHR ''['' \<in> set netloc \<and> \<not> bracketed_ok netloc then None
         else Some \<lparr>ur_scheme = scheme, ur_netloc = netloc, ur_path = path, ur_query = query, ur_fragment = fragment\<rparr>)"

definition url_userinfo :: "url_parts \<Rightarrow> string option \<times> string option" where
  "url_userinfo u = (case py_rpartition (CHR ''@'') (ur_netloc u) of
     None \<Rightarrow> (None, None)
   | Some (info, host) \<Rightarrow> (case py_partition (CHR '':'') info of None \<Rightarrow> (Some info, None) | Some (n, p) \<Rightarrow> (Some n, Some p)))"

definition url_hostinfo :: "url_parts \<Rightarrow> string \<times> string option" where
  "url_hostinfo u =
     (let hostinfo = (case py_rpartition (CHR ''@'') (ur_netloc u) of None \<Rightarrow> ur_netloc u | Some (a, b) \<Rightarrow> b);
          (host, port) = (case py_partition (CHR ''['') hostinfo of
              Some (a, bracketed) \<Rightarrow>
                (case py_partition (CHR '']'') bracketed of
                   None \<Rightarrow> (bracketed, [])
                 | Some (h, r) \<Rightarrow> (h, case py_partition (CHR '':'') r of None \<Rightarrow> [] | Some (x, p) \<Rightarrow> p))
            | None \<Rightarrow> (case py_partition (CHR '':'') hostinfo of None \<Rightarrow> (hostinfo, []) | Some p \<Rightarrow> p))
      in (host, if port = [] then None else Some port))"

definition url_hostname :: "url_parts \<Rightarrow> string option" where
  "url_hostname u =
     (let h = fst (url_hostinfo u)
      in if h = [] then None
         else Some (case py_partition (CHR ''%'') h of None \<Rightarrow> py_lower h | Some (a, z) \<Rightarrow> py_lower a @ ''%'' @ z))"

text \<open>\<open>parts.port\<close>: \<open>Inl ()\<close> is its \<open>ValueError\<close>.\<close>

definition url_port :: "url_parts \<Rightarrow> unit + nat option" where
  "url_port u = (case snd (url_hostinfo u) of
     None \<Rightarrow> Inr None
   | Some p \<Rightarrow> if list_all is_digit p \<and> parse_nat p \<le> 65535 then Inr (Some (parse_nat p)) else Inl ())"

end
