(* ===== verification/Webhooks.thy ===== *)
theory Webhooks
  imports NetAddr Executor Members
begin

text \<open>
  Outgoing webhooks (\<^verbatim>\<open>app/control/webhooks.py\<close>) and their routes (\<^verbatim>\<open>app/api/v1/webhooks.py\<close>): which
  addresses may be called (SSRF protection), one signed POST, deliveries with retries. The name resolver, the HTTP client
  and \<open>httpx.URL.copy_with\<close> are parameters; what was contacted and how long the loop slept are part of the results.
\<close>

section \<open>Addresses that may be called\<close>

definition EVENT_RUN_FINISHED :: string where "EVENT_RUN_FINISHED = ''run.finished''"
definition EVENT_PING :: string where "EVENT_PING = ''ping''"
definition MAX_ATTEMPTS :: nat where "MAX_ATTEMPTS = 3"
definition MAX_URL_LEN :: nat where "MAX_URL_LEN = 2000"
definition MAX_PINNED_ADDRESSES :: nat where "MAX_PINNED_ADDRESSES = 3"
definition BLOCKED_NAMES :: "string list" where "BLOCKED_NAMES = [''localhost'', ''localhost.localdomain'']"
definition BLOCKED_SUFFIXES :: "string list" where
  "BLOCKED_SUFFIXES = [''.localhost'', ''.local'', ''.internal'', ''.lan'', ''.home.arpa'']"

definition is_dev :: "string \<Rightarrow> bool" where
  "is_dev app_env = (py_lower (py_strip app_env) = ''dev'')"

text \<open>\<open>_is_public_ip\<close> on an address; the address an IPv6 one embeds is judged itself.\<close>

definition public_v4 :: "nat \<Rightarrow> bool" where
  "public_v4 n =
     (\<not> (n = 0 \<or> in_v4_net n ((127, 0, 0, 0), 8) \<or> in_v4_net n ((169, 254, 0, 0), 16) \<or> in_v4_net n ((224, 0, 0, 0), 4)
         \<or> in_v4_net n ((240, 0, 0, 0), 4) \<or> v4_private n)
      \<and> \<not> in_v4_net n ((100, 64, 0, 0), 10) \<and> \<not> v4_private n)"

definition public_v6 :: "nat \<Rightarrow> bool" where
  "public_v6 n =
     (if in_v6_net n ([0, 0, 0, 0, 0, 0xffff], 96) then public_v4 (n mod 2 ^ 32)
      else if in_v6_net n ([0x64, 0xff9b], 96) then public_v4 (n mod 2 ^ 32)
      else if in_v6_net n ([0x64, 0xff9b, 1], 48) \<or> in_v6_net n ([0x2002], 16) then False
      else \<not> (n = 0 \<or> n = 1 \<or> in_v6_net n ([0xfe80], 10) \<or> in_v6_net n ([0xff00], 8) \<or> list_ex (in_v6_net n) V6_RESERVED
          \<or> v6_private n) \<and> \<not> v6_private n)"

definition is_public_ip :: "string \<Rightarrow> bool" where
  "is_public_ip v =
     (case ip_address (case py_partition (CHR ''%'') v of None \<Rightarrow> v | Some (a, b) \<Rightarrow> a) of
        None \<Rightarrow> False | Some (V4 n) \<Rightarrow> public_v4 n | Some (V6 n) \<Rightarrow> public_v6 n)"

definition is_ip_literal :: "string \<Rightarrow> bool" where
  "is_ip_literal host = (ip_address host \<noteq> None)"

text \<open>\<open>validate_url\<close>: the reason of the refusal, or the host and the port.\<close>

definition validate_url :: "bool \<Rightarrow> string \<Rightarrow> string + string \<times> nat" where
  "validate_url dev url =
     (if length url > MAX_URL_LEN \<or> list_ex (\<lambda>c. c \<in> set ('' '' @ [CHR 9, CHR 13, CHR 10, CHR 0x00])) url then Inl ''url_malformed''
      else (case urlsplit url of
          None \<Rightarrow> Inl ''url_malformed''
        | Some parts \<Rightarrow>
            (case url_port parts of
               Inl e \<Rightarrow> Inl ''url_malformed''
             | Inr port \<Rightarrow>
                 let host = rstrip_chars ''.'' (py_lower (case url_hostname parts of None \<Rightarrow> [] | Some h \<Rightarrow> h));
                     scheme = ur_scheme parts
                 in if (scheme \<noteq> ''https'' \<and> scheme \<noteq> ''http'') \<or> host = [] then Inl ''url_malformed''
                    else if scheme \<noteq> ''https'' \<and> \<not> dev then Inl ''https_required''
                    else if url_userinfo parts \<noteq> (None, None) then Inl ''credentials_in_url''
                    else if ur_fragment parts \<noteq> [] then Inl ''url_malformed''
                    else if \<not> dev \<and> (host \<in> set BLOCKED_NAMES \<or> list_ex (\<lambda>x. suffix x host) BLOCKED_SUFFIXES
                         \<or> (CHR ''.'' \<notin> set host \<and> CHR '':'' \<notin> set host)) then Inl ''private_address''
                    else if \<not> dev \<and> is_ip_literal host \<and> \<not> is_public_ip host then Inl ''private_address''
                    else Inr (host, case port of
                        None \<Rightarrow> if scheme = ''https'' then 443 else 80
                      | Some n \<Rightarrow> if n = 0 then (if scheme = ''https'' then 443 else 80) else n))))"

text \<open>The resolver answers with the addresses of a name, or an \<open>OSError\<close>.\<close>

type_synonym resolver = "string \<Rightarrow> nat \<Rightarrow> string list option"

definition resolve_public :: "resolver \<Rightarrow> string \<Rightarrow> nat \<Rightarrow> string + string list" where
  "resolve_public resolver host port =
     (case (if is_ip_literal host then Some [host] else resolver host port) of
        None \<Rightarrow> Inl ''dns_failed''
      | Some addresses \<Rightarrow> if addresses = [] \<or> \<not> list_all is_public_ip addresses then Inl ''private_address'' else Inr addresses)"

record target =
  tg_url :: string
  tg_host_header :: "string option"
  tg_sni :: "string option"

definition pinned_targets :: "(string \<Rightarrow> string \<Rightarrow> string) \<Rightarrow> string \<Rightarrow> string \<Rightarrow> string list \<Rightarrow> target list" where
  "pinned_targets with_host url host addresses =
     (if is_ip_literal host then [\<lparr>tg_url = url, tg_host_header = None, tg_sni = None\<rparr>]
      else
        let netloc = (case urlsplit url of None \<Rightarrow> [] | Some p \<Rightarrow> ur_netloc p)
        in map (\<lambda>a. \<lparr>tg_url = with_host url a, tg_host_header = Some netloc, tg_sni = Some host\<rparr>)
             (take MAX_PINNED_ADDRESSES addresses))"

section \<open>One attempt\<close>

text \<open>What the HTTP client does with a request: an answer, a failure to connect, or another error.\<close>

datatype reply = Answered int | ConnectFailed string | HttpError string

fun send_first :: "(target \<Rightarrow> reply) \<Rightarrow> string option \<Rightarrow> target list \<Rightarrow> (int option \<times> string option) \<times> target list" where
  "send_first send err [] = ((None, err), [])"
| "send_first send err (t # ts) =
     (case send t of
        Answered code \<Rightarrow> ((Some code, None), [t])
      | ConnectFailed e \<Rightarrow> (let (r, used) = send_first send (Some e) ts in (r, t # used))
      | HttpError e \<Rightarrow> ((None, Some e), [t]))"

text \<open>\<open>post_json\<close>: the status or the error, and the targets a connection was tried to.\<close>

definition post_json ::
  "(string \<Rightarrow> string \<Rightarrow> string) \<Rightarrow> resolver \<Rightarrow> (target \<Rightarrow> reply) \<Rightarrow> bool \<Rightarrow> string
    \<Rightarrow> (int option \<times> string option) \<times> target list" where
  "post_json with_host resolver send dev url =
     (case validate_url dev url of
        Inl reason \<Rightarrow> ((None, Some reason), [])
      | Inr (host, port) \<Rightarrow>
          if dev then send_first send None [\<lparr>tg_url = url, tg_host_header = None, tg_sni = None\<rparr>]
          else (case resolve_public resolver host port of
              Inl reason \<Rightarrow> ((None, Some reason), [])
            | Inr addresses \<Rightarrow> send_first send None (pinned_targets with_host url host addresses)))"

section \<open>Bodies\<close>

definition json_char :: "char \<Rightarrow> string" where
  "json_char c =
     (let n = (of_char c :: nat) in
      if c = CHR 34 then [CHR 92, CHR 34] else if c = CHR 92 then [CHR 92, CHR 92]
      else if n = 10 then [CHR 92, CHR ''n''] else if n = 13 then [CHR 92, CHR ''r'']
      else if n = 9 then [CHR 92, CHR ''t''] else if n = 8 then [CHR 92, CHR ''b''] else if n = 12 then [CHR 92, CHR ''f'']
      else if n < 32 then CHR 92 # ''u00'' @ [hex_digit (n div 16), hex_digit (n mod 16)] else [c])"

definition json_string :: "string \<Rightarrow> string" where
  "json_string s = CHR 34 # concat (map json_char s) @ [CHR 34]"

text \<open>\<open>json.dumps\<close> of a flat dictionary of texts with sorted keys and no spaces.\<close>

definition json_object :: "(string \<times> string) list \<Rightarrow> string" where
  "json_object kvs =
     ''{'' @ py_join '','' (map (\<lambda>(k, v). json_string k @ '':'' @ json_string v) (sort_key fst kvs)) @ ''}''"

definition build_body :: "string \<Rightarrow> (string \<times> string) list \<Rightarrow> string" where
  "build_body event kvs = json_object ((''event'', event) # kvs)"

record run_finished =
  rf_org :: ident
  rf_job :: ident
  rf_run :: ident
  rf_pipeline :: string
  rf_status :: string
  rf_run_status :: string
  rf_finished_at :: string

definition run_finished_fields :: "run_finished \<Rightarrow> (string \<times> string) list" where
  "run_finished_fields e = [(''org_id'', rf_org e), (''job_id'', rf_job e), (''run_id'', rf_run e),
     (''pipeline'', rf_pipeline e), (''status'', rf_status e), (''run_status'', rf_run_status e),
     (''finished_at'', rf_finished_at e)]"

section \<open>Deliveries\<close>

record delivery_result =
  dr_delivered :: bool
  dr_status_code :: "int option"
  dr_attempts :: nat
  dr_delivery_id :: ident
  dr_error_type :: "string option"

text \<open>The settings a delivery reads, with the hash and the signature they are used with.\<close>

record delivery_conf =
  dc_sha :: "string \<Rightarrow> string"
  dc_mac :: "string \<Rightarrow> string \<Rightarrow> 8 word list"
  dc_secret_key :: "string option"
  dc_maintenance :: bool
  dc_backoff :: "rat list"

definition signing_secret :: "delivery_conf \<Rightarrow> webhook \<Rightarrow> string option" where
  "signing_secret c w =
     (case dc_secret_key c of None \<Rightarrow> None
      | Some master \<Rightarrow> if master = [] then None
          else let secret = webhook_signing_secret (dc_mac c) (w_id w) master
               in if dc_sha c secret = w_secret_hash w then Some secret else None)"

definition PERMANENT_ERRORS :: "string list" where
  "PERMANENT_ERRORS = [''private_address'', ''dns_failed'', ''https_required'', ''url_malformed'', ''credentials_in_url'']"

definition success_status :: "int option \<Rightarrow> bool" where
  "success_status st = (case st of None \<Rightarrow> False | Some n \<Rightarrow> 200 \<le> n \<and> n < 300)"

definition pause_after :: "rat list \<Rightarrow> nat \<Rightarrow> rat" where
  "pause_after backoff attempt =
     (if attempt - 1 < length backoff then backoff ! (attempt - 1) else if backoff \<noteq> [] then last backoff else 0)"

text \<open>The loop over the attempts: the last status and error, the attempts made, the pauses between them.\<close>

fun deliver_loop ::
  "(nat \<Rightarrow> int option \<times> string option) \<Rightarrow> rat list \<Rightarrow> nat \<Rightarrow> nat list \<Rightarrow> int option \<times> string option \<times> nat \<Rightarrow> rat list
    \<Rightarrow> bool \<times> (int option \<times> string option \<times> nat) \<times> rat list" where
  "deliver_loop try backoff most [] st slept = (False, st, slept)"
| "deliver_loop try backoff most (a # as) st slept =
     (let (status, err) = try a in
      if success_status status then (True, (status, None, a), slept)
      else if err \<in> Some ` set PERMANENT_ERRORS then (False, (status, err, a), slept)
      else deliver_loop try backoff most as (status, err, a)
             (if a < most then slept @ [pause_after backoff a] else slept))"

text \<open>\<open>deliver\<close>; \<open>post a body signature\<close> is attempt \<open>a\<close>, \<open>_attempt\<close> with its headers.\<close>

definition deliver ::
  "delivery_conf \<Rightarrow> ident \<Rightarrow> (nat \<Rightarrow> string \<Rightarrow> string \<Rightarrow> int option \<times> string option) \<Rightarrow> nat \<Rightarrow> webhook \<Rightarrow> string
    \<Rightarrow> delivery_result \<times> rat list" where
  "deliver c delivery_id post max_attempts w body =
     (if dc_maintenance c then (\<lparr>dr_delivered = False, dr_status_code = None, dr_attempts = 0, dr_delivery_id = delivery_id,
          dr_error_type = Some ''maintenance''\<rparr>, [])
      else (case signing_secret c w of
          None \<Rightarrow> (\<lparr>dr_delivered = False, dr_status_code = None, dr_attempts = 0, dr_delivery_id = delivery_id,
            dr_error_type = Some ''secret_unavailable''\<rparr>, [])
        | Some secret \<Rightarrow>
            let signature = sign_payload (dc_mac c) body secret;
                (done, (status, err, n), slept) = deliver_loop (\<lambda>a. post a body signature) (dc_backoff c) max_attempts
                  [1..<max_attempts + 1] (None, None, 0) []
            in (\<lparr>dr_delivered = done, dr_status_code = status, dr_attempts = n, dr_delivery_id = delivery_id,
                  dr_error_type = (if done then None else Some (case err of None \<Rightarrow> ''http_status''
                     | Some e \<Rightarrow> if e = [] then ''http_status'' else e))\<rparr>, slept)))"

definition audit_result ::
  "ident \<Rightarrow> stamp \<Rightarrow> string option \<Rightarrow> string \<Rightarrow> ident option \<Rightarrow> webhook \<Rightarrow> string \<Rightarrow> delivery_result \<Rightarrow> cdb \<Rightarrow> exc + cdb" where
  "audit_result ev now host actor_ty actor w event r db =
     record_event ev now (Some (w_org w)) actor_ty actor (if dr_delivered r then ''webhook.delivered'' else ''webhook.failed'')
       (Some (''webhook:'' @ w_id w))
       [(''webhook_id'', PStr (w_id w)), (''delivery_id'', PStr (dr_delivery_id r)), (''event'', PStr event),
        (''attempt'', PInt (int (dr_attempts r))),
        (''status_code'', case dr_status_code r of None \<Rightarrow> PNone | Some n \<Rightarrow> PInt n),
        (''error_type'', case dr_error_type r of None \<Rightarrow> PNone | Some e \<Rightarrow> PStr e)] host db"

text \<open>The listener of the executor: the hooks a delivery is started for, oldest first, and the body they all get.\<close>

definition on_run_finished :: "bool \<Rightarrow> run_finished \<Rightarrow> cdb \<Rightarrow> (webhook \<times> string) list" where
  "on_run_finished maintenance e db =
     (if maintenance then []
      else map (\<lambda>w. (w, build_body EVENT_RUN_FINISHED (run_finished_fields e)))
        (filter (\<lambda>w. EVENT_RUN_FINISHED \<in> set (w_events w))
          (sort_key w_id (filter (\<lambda>w. w_org w = rf_org e \<and> w_active w) (webhooks db)))))"

section \<open>Routes\<close>

definition MAX_WEBHOOKS :: nat where "MAX_WEBHOOKS = 10"

definition load_webhook :: "ident \<Rightarrow> ident \<Rightarrow> cdb \<Rightarrow> exc + webhook" where
  "load_webhook org_id webhook_id db =
     of_option not_found (sql_first (\<lambda>w. w_id w = webhook_id \<and> w_org w = org_id) (webhooks db))"

definition list_webhooks :: "org_context \<Rightarrow> cdb \<Rightarrow> webhook list" where
  "list_webhooks ctx db = sort_key w_id (filter (\<lambda>w. w_org w = cx_org_id ctx) (webhooks db))"

text \<open>Two constraints of the table: the primary key, and one URL per organization.\<close>

definition insert_webhook :: "webhook \<Rightarrow> webhook list \<Rightarrow> webhook list option" where
  "insert_webhook w ws =
     (if (w_org w, w_url w) \<in> (\<lambda>x. (w_org x, w_url x)) ` set ws then None else sql_insert w_id w ws)"

definition create_webhook ::
  "delivery_conf \<Rightarrow> bool \<Rightarrow> http_request \<Rightarrow> ident \<Rightarrow> org_context \<Rightarrow> string \<Rightarrow> string list \<Rightarrow> (webhook \<times> string) handler" where
  "create_webhook c dev rq new_id ctx url0 events0 db =
     (case dc_secret_key c of
        None \<Rightarrow> (Inl (Problem 503 ''webhooks_unavailable''), db)
      | Some master \<Rightarrow>
          let events = py_sorted_set events0; url = py_strip url0 in
          if master = [] then (Inl (Problem 503 ''webhooks_unavailable''), db)
          else if events = [] then (Inl (Problem 422 ''events_required''), db)
          else (case validate_url dev url of
              Inl reason \<Rightarrow> (Inl (Problem 422 ''webhook_url_invalid''), db)
            | Inr hp \<Rightarrow>
                if rowcount (\<lambda>w. w_org w = cx_org_id ctx) (webhooks db) \<ge> MAX_WEBHOOKS
                then (Inl (Problem 409 ''webhook_limit_reached''), db)
                else
                  let secret = webhook_signing_secret (dc_mac c) new_id master;
                      w = \<lparr>w_id = new_id, w_org = cx_org_id ctx, w_url = url, w_secret_hash = dc_sha c secret,
                        w_events = events, w_active = True, w_created_at = rq_now rq\<rparr>
                  in (case insert_webhook w (webhooks db) of
                        None \<Rightarrow> (Inl (Problem 409 ''webhook_exists''), db)
                      | Some ws \<Rightarrow>
                          with_event db
                            (record_event (rq_event rq) (rq_now rq) (Some (cx_org_id ctx)) (actor_type (cx_principal ctx))
                               (actor_id (cx_principal ctx)) ''webhook.created'' (Some (''webhook:'' @ new_id))
                               [(''webhook_id'', PStr new_id)] (rq_host rq) (db\<lparr>webhooks := ws\<rparr>))
                            (\<lambda>db1. (Inr (w, secret), db1)))))"

definition delete_webhook :: "http_request \<Rightarrow> org_context \<Rightarrow> ident \<Rightarrow> unit handler" where
  "delete_webhook rq ctx webhook_id db =
     (case load_webhook (cx_org_id ctx) webhook_id db of
        Inl e \<Rightarrow> (Inl e, db)
      | Inr w \<Rightarrow>
          with_event db
            (record_event (rq_event rq) (rq_now rq) (Some (cx_org_id ctx)) (actor_type (cx_principal ctx))
               (actor_id (cx_principal ctx)) ''webhook.deleted'' (Some (''webhook:'' @ webhook_id))
               [(''webhook_id'', PStr webhook_id)] (rq_host rq)
               (db\<lparr>webhooks := sql_delete (\<lambda>x. w_id x = w_id w) (webhooks db)\<rparr>))
            (\<lambda>db1. (Inr (), db1)))"

definition status_class :: "int option \<Rightarrow> string" where
  "status_class code = (case code of None \<Rightarrow> ''error''
     | Some n \<Rightarrow> if 200 \<le> n \<and> n < 600 then dec_int (n div 100) @ ''xx'' else ''error'')"

definition ping_webhook ::
  "delivery_conf \<Rightarrow> ident \<Rightarrow> (nat \<Rightarrow> string \<Rightarrow> string \<Rightarrow> int option \<times> string option) \<Rightarrow> http_request \<Rightarrow> org_context \<Rightarrow> ident
    \<Rightarrow> (bool \<times> string) handler" where
  "ping_webhook c delivery_id post rq ctx webhook_id db =
     (if dc_maintenance c then (Inl (Problem 503 ''maintenance''), db)
      else (case load_webhook (cx_org_id ctx) webhook_id db of
          Inl e \<Rightarrow> (Inl e, db)
        | Inr w \<Rightarrow>
            let r = fst (deliver c delivery_id post 1 w (build_body EVENT_PING [(''org_id'', cx_org_id ctx)]))
            in with_event db
                 (audit_result (rq_event rq) (rq_now rq) (rq_host rq) (actor_type (cx_principal ctx))
                    (actor_id (cx_principal ctx)) w EVENT_PING r db)
                 (\<lambda>db1. (Inr (dr_delivered r, status_class (dr_status_code r)), db1))))"

end
