(* ===== verification/WebhookSafety.thy ===== *)
theory WebhookSafety
  imports Webhooks
begin

text \<open>
  What the webhooks guarantee: the filter of addresses is exactly the list of special-purpose IPv4 networks, only
  addresses it accepts are contacted, deliveries stop and retry as documented, and the secret shown once is the one
  deliveries are signed with.
\<close>

section \<open>Dotted texts\<close>

definition dotted :: "nat \<Rightarrow> nat \<Rightarrow> nat \<Rightarrow> nat \<Rightarrow> string" where
  "dotted a b c d = py_join ''.'' (map dec_nat [a, b, c, d])"

lemma py_split_append: "c \<notin> set w \<Longrightarrow> py_split c (w @ c # s) = w # py_split c s"
  by (induction w) auto

lemma py_split_single: "c \<notin> set w \<Longrightarrow> py_split c w = [w]"
  by (induction w) auto

lemma dec_nat_no: "\<not> is_digit c \<Longrightarrow> c \<notin> set (dec_nat n)"
  using dec_nat_digits by blast

lemma not_digits: "\<not> is_digit (CHR ''.'')" "\<not> is_digit (CHR ''/'')" "\<not> is_digit (CHR ''%'')"
  by (simp_all add: is_digit_def)

lemma split_dotted: "py_split (CHR ''.'') (dotted a b c d) = [dec_nat a, dec_nat b, dec_nat c, dec_nat d]"
  by (simp add: dotted_def py_split_append py_split_single dec_nat_no not_digits)

lemma dotted_chars: "CHR ''/'' \<notin> set (dotted a b c d)" "CHR ''%'' \<notin> set (dotted a b c d)"
  by (simp_all add: dotted_def dec_nat_no not_digits)

lemma dec_nat_length: "n < 1000 \<Longrightarrow> length (dec_nat n) \<le> 3"
  by (simp add: dec_nat.simps [of n] dec_nat.simps [of "n div 10"] dec_nat.simps [of "n div 10 div 10"])

lemma hd_dec_nat: "n \<noteq> 0 \<Longrightarrow> hd (dec_nat n) \<noteq> CHR ''0''"
proof (induction n rule: dec_nat.induct)
  case (1 n)
  show ?case
  proof (cases "n < 10")
    case True
    have "(of_char (digit_char n) :: nat) \<noteq> of_char (CHR ''0'')" using 1 True by (simp add: of_char_digit_char)
    then have "digit_char n \<noteq> CHR ''0''" by metis
    with True show ?thesis by (simp add: dec_nat.simps [of n])
  next
    case False
    with 1 show ?thesis by (simp add: dec_nat.simps [of n] hd_append)
  qed
qed

lemma parse_octet_dec: "n < 256 \<Longrightarrow> parse_octet (dec_nat n) = Some n"
proof -
  assume n: "n < 256"
  have "char_of (48 :: nat) = CHR ''0''" using char_of_char [where 'a = nat and c = "CHR ''0''"] by simp
  then have "n = 0 \<Longrightarrow> dec_nat n = ''0''" by (simp add: dec_nat.simps digit_char_def)
  then have "dec_nat n \<noteq> ''0'' \<Longrightarrow> hd (dec_nat n) \<noteq> CHR ''0''" using hd_dec_nat by blast
  then show ?thesis using n dec_nat_length [of n] dec_nat_digits by (auto simp: parse_octet_def list_all_iff)
qed

lemma ip_address_dotted:
  assumes "a < 256" "b < 256" "c < 256" "d < 256"
  shows "ip_address (dotted a b c d) = Some (V4 (dotted_value a b c d))"
  using assms by (simp add: ip_address_def parse_v4_def split_dotted dotted_chars parse_octet_dec dotted_value_def)

section \<open>Networks of dotted addresses\<close>

lemma dotted_div:
  assumes "b < 256" "c < 256" "d < 256"
  shows "dotted_value a b c d div 2 ^ 8 = (a * 256 + b) * 256 + c" "dotted_value a b c d div 2 ^ 16 = a * 256 + b"
    "dotted_value a b c d div 2 ^ 24 = a"
proof -
  have e: "(y * 256 + z) div 256 = y" if "z < 256" for y z :: nat using that by simp
  show 1: "dotted_value a b c d div 2 ^ 8 = (a * 256 + b) * 256 + c" using e [OF assms(3)] by (simp add: dotted_value_def)
  have "dotted_value a b c d div 2 ^ 16 = dotted_value a b c d div 2 ^ 8 div 256" by (simp add: div_mult2_eq [symmetric])
  then show 2: "dotted_value a b c d div 2 ^ 16 = a * 256 + b" using 1 e [OF assms(2)] by simp
  have "dotted_value a b c d div 2 ^ 24 = dotted_value a b c d div 2 ^ 16 div 256" by (simp add: div_mult2_eq [symmetric])
  then show "dotted_value a b c d div 2 ^ 24 = a" using 2 e [OF assms(1)] by simp
qed

text \<open>Positional notation: digits below the base are determined.\<close>

lemma place_eq: "r < k \<Longrightarrow> r' < k \<Longrightarrow> x * k + r = x' * k + r' \<longleftrightarrow> x = x' \<and> r = (r' :: nat)"
proof
  assume r: "r < k" "r' < k" and eq: "x * k + r = x' * k + r'"
  have "(x * k + r) div k = x" "(x' * k + r') div k = x'" "(x * k + r) mod k = r" "(x' * k + r') mod k = r'"
    using r by simp_all
  then show "x = x' \<and> r = r'" unfolding eq by simp
qed simp

lemma place_div: "0 < k \<Longrightarrow> (x * (j * k) + r) div k = x * j + r div (k :: nat)"
  by (metis add.commute div_mult_self1 mult.assoc not_gr_zero)

lemma dotted_nets:
  assumes b: "b < 256" "c < 256" "d < 256" and b': "b' < 256" "c' < 256" "d' < 256"
  shows "in_v4_net (dotted_value a b c d) ((a', b', c', d'), 8) \<longleftrightarrow> a = a'"
    "in_v4_net (dotted_value a b c d) ((a', b', c', d'), 16) \<longleftrightarrow> a = a' \<and> b = b'"
    "in_v4_net (dotted_value a b c d) ((a', b', c', d'), 24) \<longleftrightarrow> a = a' \<and> b = b' \<and> c = c'"
    "in_v4_net (dotted_value a b c d) ((a', b', c', d'), 32) \<longleftrightarrow> a = a' \<and> b = b' \<and> c = c' \<and> d = d'"
proof -
  have l: "32 - 8 = (24 :: nat)" "32 - 16 = (16 :: nat)" "32 - 24 = (8 :: nat)" "32 - 32 = (0 :: nat)" by simp_all
  note u = in_v4_net_def prod.case l dotted_div [OF b] dotted_div [OF b'] place_eq [OF b(1) b'(1)] place_eq [OF b(2) b'(2)]
    place_eq [OF b(3) b'(3)] power_0 div_by_1 dotted_value_def [of a b c d] dotted_value_def [of a' b' c' d'] conj_assoc
  show "in_v4_net (dotted_value a b c d) ((a', b', c', d'), 8) \<longleftrightarrow> a = a'" unfolding u(1-12) ..
  show "in_v4_net (dotted_value a b c d) ((a', b', c', d'), 16) \<longleftrightarrow> a = a' \<and> b = b'" unfolding u(1-13) ..
  show "in_v4_net (dotted_value a b c d) ((a', b', c', d'), 24) \<longleftrightarrow> a = a' \<and> b = b' \<and> c = c'"
    unfolding u(1-14) conj_assoc ..
  show "in_v4_net (dotted_value a b c d) ((a', b', c', d'), 32) \<longleftrightarrow> a = a' \<and> b = b' \<and> c = c' \<and> d = d'"
    unfolding u(1,2,6,13-) conj_assoc ..
qed

lemma in_net_finer: "len \<le> 32 \<Longrightarrow> k \<le> 32 - len \<Longrightarrow>
    in_v4_net n ((a', b', c', d'), len) \<longleftrightarrow> n div 2 ^ k div 2 ^ (32 - len - k) = dotted_value a' b' c' d' div 2 ^ k div 2 ^ (32 - len - k)"
  by (simp add: in_v4_net_def div_mult2_eq [symmetric] power_add [symmetric])

lemma dotted_odd_nets:
  assumes b: "b < 256" "c < 256" "d < 256" and b': "b' < 256" "c' < 256" "d' < 256"
  shows "in_v4_net (dotted_value a b c d) ((a', b', c', d'), 4) \<longleftrightarrow> a div 16 = a' div 16"
    "in_v4_net (dotted_value a b c d) ((a', b', c', d'), 10) \<longleftrightarrow> a = a' \<and> b div 64 = b' div 64"
    "in_v4_net (dotted_value a b c d) ((a', b', c', d'), 12) \<longleftrightarrow> a = a' \<and> b div 16 = b' div 16"
    "in_v4_net (dotted_value a b c d) ((a', b', c', d'), 15) \<longleftrightarrow> a = a' \<and> b div 2 = b' div 2"
    "in_v4_net (dotted_value a b c d) ((a', b', c', d'), 31) \<longleftrightarrow> a = a' \<and> b = b' \<and> c = c' \<and> d div 2 = d' div 2"
proof -
  show "in_v4_net (dotted_value a b c d) ((a', b', c', d'), 4) \<longleftrightarrow> a div 16 = a' div 16"
    using in_net_finer [of 4 24 "dotted_value a b c d" a' b' c' d'] unfolding dotted_div [OF b] dotted_div [OF b'] by simp
  have q: "(x * 256 + y) div 64 = x * 4 + y div 64" "(x * 256 + y) div 16 = x * 16 + y div 16"
    "(x * 256 + y) div 2 = x * 128 + y div 2" for x y :: nat
    using place_div [of 64 x 4 y] place_div [of 16 x 16 y] place_div [of 2 x 128 y] by simp_all
  have small: "y < 256 \<Longrightarrow> y div 64 < 4 \<and> y div 16 < 16 \<and> y div 2 < 128" for y :: nat
    using less_mult_imp_div_less [of y 4 64] less_mult_imp_div_less [of y 16 16] less_mult_imp_div_less [of y 128 2] by simp
  note s = small [OF b(1)] small [OF b'(1)] small [OF b(3)] small [OF b'(3)]
  show "in_v4_net (dotted_value a b c d) ((a', b', c', d'), 10) \<longleftrightarrow> a = a' \<and> b div 64 = b' div 64"
    using in_net_finer [of 10 16 "dotted_value a b c d" a' b' c' d'] place_eq [of "b div 64" 4 "b' div 64" a a'] s(1,2)
    unfolding dotted_div [OF b] dotted_div [OF b'] by (simp add: q)
  show "in_v4_net (dotted_value a b c d) ((a', b', c', d'), 12) \<longleftrightarrow> a = a' \<and> b div 16 = b' div 16"
    using in_net_finer [of 12 16 "dotted_value a b c d" a' b' c' d'] place_eq [of "b div 16" 16 "b' div 16" a a'] s(1,2)
    unfolding dotted_div [OF b] dotted_div [OF b'] by (simp add: q)
  show "in_v4_net (dotted_value a b c d) ((a', b', c', d'), 15) \<longleftrightarrow> a = a' \<and> b div 2 = b' div 2"
    using in_net_finer [of 15 16 "dotted_value a b c d" a' b' c' d'] place_eq [of "b div 2" 128 "b' div 2" a a'] s(1,2)
    unfolding dotted_div [OF b] dotted_div [OF b'] by (simp add: q)
  have "in_v4_net (dotted_value a b c d) ((a', b', c', d'), 31) \<longleftrightarrow>
      ((a * 256 + b) * 256 + c) * 128 + d div 2 = ((a' * 256 + b') * 256 + c') * 128 + d' div 2"
    unfolding in_v4_net_def prod.case dotted_value_def q(3) [symmetric] by simp
  also have "\<dots> \<longleftrightarrow> a = a' \<and> b = b' \<and> c = c' \<and> d div 2 = d' div 2"
    using place_eq [of "d div 2" 128 "d' div 2"] s(3,4) unfolding place_eq [OF b(2) b'(2), symmetric] place_eq [OF b(1) b'(1), symmetric]
    by (metis (no_types, lifting) b(1,2) b'(1,2) place_eq)
  finally show "in_v4_net (dotted_value a b c d) ((a', b', c', d'), 31) \<longleftrightarrow> a = a' \<and> b = b' \<and> c = c' \<and> d div 2 = d' div 2" .
qed

lemma div_is: "0 < k \<Longrightarrow> x div k = q \<longleftrightarrow> k * q \<le> x \<and> x < k * Suc q" for x k q :: nat
  using div_nat_eqI [of k q x] times_div_less_eq_dividend [of k x] dividend_less_times_div [of k x] by auto

text \<open>The address filter, for every dotted IPv4 text: a webhook may call it exactly when it lies in none of the
  special-purpose networks: this network, private (10/8, 172.16/12, 192.168/16), shared (100.64/10), loopback,
  link-local, protocol assignments (192.0.0/24 but the anycast .9 and .10), documentation, benchmarking, multicast,
  reserved and broadcast.\<close>

theorem public_ipv4_iff:
  assumes "a < 256" "b < 256" "c < 256" "d < 256"
  shows "is_public_ip (dotted a b c d) \<longleftrightarrow>
    \<not> (a = 0 \<or> a = 10 \<or> a = 127 \<or> 224 \<le> a \<or> (a = 100 \<and> 64 \<le> b \<and> b \<le> 127) \<or> (a = 169 \<and> b = 254) \<or>
       (a = 172 \<and> 16 \<le> b \<and> b \<le> 31) \<or> (a = 192 \<and> b = 168) \<or> (a = 192 \<and> b = 0 \<and> c = 0 \<and> d \<noteq> 9 \<and> d \<noteq> 10) \<or>
       (a = 192 \<and> b = 0 \<and> c = 2) \<or> (a = 198 \<and> (b = 18 \<or> b = 19)) \<or> (a = 198 \<and> b = 51 \<and> c = 100) \<or>
       (a = 203 \<and> b = 0 \<and> c = 113))"
proof -
  let ?n = "dotted_value a b c d"
  have parsed: "is_public_ip (dotted a b c d) = public_v4 ?n"
    using ip_address_dotted [OF assms] dotted_chars(2) [of a b c d] by (simp add: is_public_ip_def py_partition_def)
  have ranges: "b div 64 = 1 \<longleftrightarrow> 64 \<le> b \<and> b \<le> 127" "b div 16 = 1 \<longleftrightarrow> 16 \<le> b \<and> b \<le> 31" "b div 2 = 9 \<longleftrightarrow> b = 18 \<or> b = 19"
    by (subst div_is; auto)+
  have "a div 16 = 14 \<longleftrightarrow> 224 \<le> a \<and> a < 240" "a div 16 = 15 \<longleftrightarrow> 240 \<le> a \<and> a < 256"
    by (subst div_is; auto)+
  then have top: "a div 16 = 14 \<or> a div 16 = 15 \<longleftrightarrow> 224 \<le> a" using assms(1) by auto
  have zero: "?n = 0 \<longleftrightarrow> a = 0 \<and> b = 0 \<and> c = 0 \<and> d = 0" by (simp add: dotted_value_def)
  have nets: "public_v4 ?n \<longleftrightarrow>
      \<not> (a = 0 \<and> b = 0 \<and> c = 0 \<and> d = 0 \<or> a = 127 \<or> (a = 169 \<and> b = 254) \<or> a div 16 = 14 \<or> a div 16 = 15 \<or> v4_private ?n) \<and>
      \<not> (a = 100 \<and> b div 64 = 1) \<and> \<not> v4_private ?n"
    unfolding public_v4_def zero using assms by (simp add: dotted_nets dotted_odd_nets)
  have listed: "list_ex (in_v4_net ?n) V4_PRIVATE \<longleftrightarrow>
      a = 0 \<or> a = 10 \<or> a = 127 \<or> (a = 169 \<and> b = 254) \<or> (a = 172 \<and> b div 16 = 1) \<or> (a = 192 \<and> b = 0 \<and> c = 0)
        \<or> (a = 192 \<and> b = 0 \<and> c = 0 \<and> d div 2 = 85) \<or> (a = 192 \<and> b = 0 \<and> c = 2) \<or> (a = 192 \<and> b = 168)
        \<or> (a = 198 \<and> b div 2 = 9) \<or> (a = 198 \<and> b = 51 \<and> c = 100) \<or> (a = 203 \<and> b = 0 \<and> c = 113) \<or> a div 16 = 15
        \<or> (a = 255 \<and> b = 255 \<and> c = 255 \<and> d = 255)"
    using assms by (simp add: V4_PRIVATE_def dotted_nets dotted_odd_nets)
  have excepted: "list_ex (in_v4_net ?n) V4_PRIVATE_EXCEPTIONS \<longleftrightarrow>
      (a = 192 \<and> b = 0 \<and> c = 0 \<and> d = 9) \<or> (a = 192 \<and> b = 0 \<and> c = 0 \<and> d = 10)"
    using assms by (simp add: V4_PRIVATE_EXCEPTIONS_def dotted_nets)
  have "a = 255 \<Longrightarrow> a div 16 = 15" by simp
  then have priv: "v4_private ?n \<longleftrightarrow>
      (a = 0 \<or> a = 10 \<or> a = 127 \<or> (a = 169 \<and> b = 254) \<or> (a = 172 \<and> b div 16 = 1) \<or> (a = 192 \<and> b = 0 \<and> c = 0)
        \<or> (a = 192 \<and> b = 0 \<and> c = 2) \<or> (a = 192 \<and> b = 168) \<or> (a = 198 \<and> b div 2 = 9) \<or> (a = 198 \<and> b = 51 \<and> c = 100)
        \<or> (a = 203 \<and> b = 0 \<and> c = 113) \<or> a div 16 = 15) \<and>
      \<not> (a = 192 \<and> b = 0 \<and> c = 0 \<and> (d = 9 \<or> d = 10))"
    unfolding v4_private_def listed excepted by argo
  show ?thesis
  proof (cases "a = 192")
    case True
    then show ?thesis unfolding parsed nets priv ranges by auto
  next
    case False
    then show ?thesis unfolding parsed nets priv ranges using top by argo
  qed
qed

theorem public_ipv4_iff_witness:
  "\<not> is_public_ip (dotted 169 254 169 254) \<and> is_public_ip (dotted 8 8 8 8)"
  using public_ipv4_iff [of 169 254 169 254] public_ipv4_iff [of 8 8 8 8] by simp

text \<open>The registry of \<open>ipaddress\<close> has no entry for the deprecated site-local IPv6 addresses, so the filter lets them
  pass.\<close>

lemma site_local_accepted: "is_public_ip ''fec0::1''"
proof -
  have zeros: "replicate (numeral k) 0 = 0 # replicate (pred_numeral k) (0 :: nat)" for k
    by (simp add: numeral_eq_Suc)
  have parts: "v6_parts ''fec0::1'' = Some [Some 0xfec0, None, Some 1]"
    by (simp add: v6_parts_def v6_part_def parse_hextet_def is_hex_def is_digit_def hex_val_def Let_def)
  have "v6_value [Some 0xfec0, None, Some 1] = Some (hextets_value ([0xfec0] @ replicate 6 0 @ [1]))"
    by (simp add: v6_value_def Let_def upt_rec)
  moreover have "replicate 6 0 = [0, 0, 0, 0, 0, 0 :: nat]" by (simp add: numeral_eq_Suc)
  ultimately have "v6_value [Some 0xfec0, None, Some 1] = Some (0xfec0 * 2 ^ 112 + 1)" by (simp add: hextets_value_def)
  then have v6: "parse_v6 ''fec0::1'' = Some (0xfec0 * 2 ^ 112 + 1)"
    using parts by (simp add: parse_v6_def py_partition_def)
  have "parse_v4 ''fec0::1'' = None" by (simp add: parse_v4_def parse_octet_def is_digit_def)
  then have "ip_address ''fec0::1'' = Some (V6 (0xfec0 * 2 ^ 112 + 1))" using v6 by (simp add: ip_address_def)
  moreover have "public_v6 (0xfec0 * 2 ^ 112 + 1)"
    by (simp add: zeros public_v6_def v6_private_def V6_RESERVED_def V6_PRIVATE_def V6_PRIVATE_EXCEPTIONS_def in_v6_net_def
        hextets_value_def)
  ultimately show ?thesis by (simp add: is_public_ip_def py_partition_def)
qed

section \<open>What is contacted\<close>

lemma send_first_used:
  "send_first send err ts = (r, used) \<Longrightarrow> prefix used ts \<and> (\<forall>t \<in> set (butlast used). \<exists>e. send t = ConnectFailed e)"
proof (induction ts arbitrary: err r used)
  case (Cons t ts)
  show ?case
  proof (cases "send t")
    case (ConnectFailed e)
    obtain r' used' where rest: "send_first send (Some e) ts = (r', used')" by fastforce
    with Cons.prems ConnectFailed have "used = t # used'" by simp
    with Cons.IH [OF rest] ConnectFailed show ?thesis by auto
  qed (use Cons.prems in auto)
qed simp

text \<open>C17. Server-side request forgery: outside development a connection is only ever tried to a target made from an
  accepted URL whose host is a public address, or from a name all of whose addresses (as resolved once, before
  connecting) are public; the target then holds one of these very addresses and keeps the name for the certificate; at
  most three are tried, the next one only when no connection could be made.\<close>

theorem only_public_addresses_contacted:
  assumes post: "post_json with_host resolver send False url = (r, used)" and some: "used \<noteq> []"
  shows "\<exists>host port. validate_url False url = Inr (host, port) \<and> length used \<le> 3 \<and>
    (\<forall>t \<in> set (butlast used). \<exists>e. send t = ConnectFailed e) \<and>
    (is_ip_literal host \<and> is_public_ip host \<and> used = [\<lparr>tg_url = url, tg_host_header = None, tg_sni = None\<rparr>] \<or>
     (\<exists>addresses. resolver host port = Some addresses \<and> list_all is_public_ip addresses \<and>
        (\<forall>t \<in> set used. tg_sni t = Some host \<and> (\<exists>a \<in> set addresses. tg_url t = with_host url a))))"
proof -
  from post some obtain host port addresses where v: "validate_url False url = Inr (host, port)"
    and a: "resolve_public resolver host port = Inr addresses"
    and sent: "send_first send None (pinned_targets with_host url host addresses) = (r, used)"
    by (auto simp: post_json_def split: sum.splits)
  note used = send_first_used [OF sent]
  have public: "addresses \<noteq> []" "list_all is_public_ip addresses"
    using a by (auto simp: resolve_public_def split: option.splits if_splits)
  show ?thesis
  proof (cases "is_ip_literal host")
    case True
    then have "addresses = [host]" using a by (simp add: resolve_public_def split: if_splits)
    then have "pinned_targets with_host url host addresses = [\<lparr>tg_url = url, tg_host_header = None, tg_sni = None\<rparr>]"
      using True by (simp add: pinned_targets_def)
    then have "used = [\<lparr>tg_url = url, tg_host_header = None, tg_sni = None\<rparr>]" using used some by (auto simp: prefix_Cons)
    with v True public used \<open>addresses = [host]\<close> show ?thesis by auto
  next
    case False
    let ?ts = "pinned_targets with_host url host addresses"
    have res: "resolver host port = Some addresses" using a False by (auto simp: resolve_public_def split: option.splits if_splits)
    have "length ?ts \<le> 3" using False by (simp add: pinned_targets_def MAX_PINNED_ADDRESSES_def Let_def)
    then have "length used \<le> 3" using used by (metis le_trans prefix_length_le)
    moreover have "tg_sni t = Some host \<and> (\<exists>a \<in> set addresses. tg_url t = with_host url a)" if "t \<in> set used" for t
    proof -
      from that used have "t \<in> set ?ts" by (auto dest: set_mono_prefix)
      with False show ?thesis by (auto simp: pinned_targets_def Let_def dest: in_set_takeD)
    qed
    ultimately show ?thesis using v used res public(2) by blast
  qed
qed

section \<open>Deliveries\<close>

definition gives_up :: "int option \<times> string option \<Rightarrow> bool" where
  "gives_up r = (\<not> success_status (fst r) \<and> snd r \<in> Some ` set PERMANENT_ERRORS)"

lemma deliver_loop_spec:
  assumes "deliver_loop tr backoff most [k..<most + 1] st slept = (done, (status, err, n), slept')" and "k \<le> most"
  shows "k \<le> n \<and> n \<le> most \<and> (\<forall>a. k \<le> a \<and> a < n \<longrightarrow> \<not> success_status (fst (tr a)) \<and> \<not> gives_up (tr a)) \<and>
    status = fst (tr n) \<and> done = success_status (fst (tr n)) \<and> (\<not> done \<longrightarrow> err = snd (tr n)) \<and>
    (n < most \<longrightarrow> done \<or> gives_up (tr n)) \<and> slept' = slept @ map (pause_after backoff) [k..<n]"
  using assms
proof (induction "most - k" arbitrary: k st slept)
  case (0 k)
  then have k: "k = most" by simp
  then have "[k..<most + 1] = [k]" by simp
  with 0 k show ?case by (auto simp: Let_def case_prod_beta gives_up_def split: if_splits)
next
  case (Suc m k)
  then have k: "k < most" "m = most - Suc k" by auto
  then have u: "[k..<most + 1] = k # [Suc k..<most + 1]" by (simp add: upt_conv_Cons del: upt_Suc)
  show ?case
  proof (cases "success_status (fst (tr k)) \<or> gives_up (tr k)")
    case True
    with Suc.prems k show ?thesis unfolding u by (auto simp: Let_def case_prod_beta gives_up_def split: if_splits)
  next
    case False
    then have rest: "deliver_loop tr backoff most [Suc k..<most + 1] (fst (tr k), snd (tr k), k) (slept @ [pause_after backoff k])
        = (done, (status, err, n), slept')"
      using Suc.prems(1) k unfolding u by (auto simp: Let_def case_prod_beta gives_up_def simp del: upt_Suc split: if_splits)
    from Suc.hyps(1) [OF k(2) rest] k have ih: "Suc k \<le> n" "n \<le> most"
      "\<forall>a. Suc k \<le> a \<and> a < n \<longrightarrow> \<not> success_status (fst (tr a)) \<and> \<not> gives_up (tr a)"
      "status = fst (tr n)" "done = success_status (fst (tr n))" "\<not> done \<longrightarrow> err = snd (tr n)"
      "n < most \<longrightarrow> done \<or> gives_up (tr n)" "slept' = (slept @ [pause_after backoff k]) @ map (pause_after backoff) [Suc k..<n]"
      by auto
    have "[k..<n] = k # [Suc k..<n]" using ih(1) by (simp add: upt_conv_Cons)
    with ih have "slept' = slept @ map (pause_after backoff) [k..<n]" by simp
    moreover have "\<forall>a. k \<le> a \<and> a < n \<longrightarrow> \<not> success_status (fst (tr a)) \<and> \<not> gives_up (tr a)"
      using ih(3) False by (metis le_antisym not_less_eq_eq)
    ultimately show ?thesis using ih by simp
  qed
qed

text \<open>A delivery with a valid secret makes between one and the allowed number of attempts, all with the signature of
  exactly the body sent; it is delivered exactly when its last attempt was answered 2xx, it stops before the limit only
  for that or for an error that cannot pass, and between attempts it sleeps the configured pauses.\<close>

theorem delivery_retries:
  assumes up: "\<not> dc_maintenance c" and secret: "signing_secret c w = Some secret" and most: "0 < most"
    and sig: "sig = sign_payload (dc_mac c) body secret" and r: "deliver c i post most w body = (r, slept)"
  shows "1 \<le> dr_attempts r \<and> dr_attempts r \<le> most \<and>
    (\<forall>a. 1 \<le> a \<and> a < dr_attempts r \<longrightarrow> \<not> success_status (fst (post a body sig)) \<and> \<not> gives_up (post a body sig)) \<and>
    dr_status_code r = fst (post (dr_attempts r) body sig) \<and>
    dr_delivered r = success_status (dr_status_code r) \<and>
    (dr_attempts r < most \<longrightarrow> dr_delivered r \<or> gives_up (post (dr_attempts r) body sig)) \<and>
    slept = map (pause_after (dc_backoff c)) [1..<dr_attempts r] \<and> (dr_error_type r = None) = dr_delivered r"
proof -
  obtain ok status err n sl where loop: "deliver_loop (\<lambda>a. post a body sig) (dc_backoff c) most [1..<most + 1]
      (None, None, 0) [] = (ok, (status, err, n), sl)" by (metis prod.collapse)
  with r have fields: "dr_attempts r = n" "dr_status_code r = status" "dr_delivered r = ok" "slept = sl"
    "(dr_error_type r = None) = ok"
    by (auto simp: deliver_def up secret sig Let_def simp del: upt_Suc split: if_splits)
  have "1 \<le> most" using most by simp
  from deliver_loop_spec [OF loop this] show ?thesis unfolding fields by auto
qed

text \<open>The secret of a webhook: creating one stores an accepted URL and a hash, never the secret; the secret in
  the answer is the one every delivery is signed with as long as the deployment key stays; an organization has at most
  ten webhooks, no two with one URL.\<close>

theorem created_webhook_signs_with_its_secret:
  assumes ok: "create_webhook c dev rq i ctx url events db = (Inr (w, secret), db')"
    and keys: "dc_secret_key c' = dc_secret_key c" "dc_mac c' = dc_mac c" "dc_sha c' = dc_sha c"
  shows "signing_secret c' w = Some secret \<and> w_secret_hash w = dc_sha c secret \<and> webhooks db' = webhooks db @ [w] \<and>
    (\<exists>hp. validate_url dev (w_url w) = Inr hp) \<and> w_events w \<noteq> [] \<and> w_org w = cx_org_id ctx \<and>
    rowcount (\<lambda>x. w_org x = cx_org_id ctx) (webhooks db') \<le> MAX_WEBHOOKS \<and>
    (\<forall>x. x \<in> set (webhooks db) \<and> w_org x = cx_org_id ctx \<longrightarrow> w_url x \<noteq> w_url w)"
proof -
  from ok obtain master where m: "dc_secret_key c = Some master" "master \<noteq> []"
    by (auto simp: create_webhook_def Let_def split: option.splits if_splits)
  have w: "secret = webhook_signing_secret (dc_mac c) i master" "w_id w = i" "w_secret_hash w = dc_sha c secret"
      "w_org w = cx_org_id ctx" "w_events w \<noteq> []" "\<exists>hp. validate_url dev (w_url w) = Inr hp"
      "rowcount (\<lambda>x. w_org x = cx_org_id ctx) (webhooks db) < MAX_WEBHOOKS" "webhooks db' = webhooks db @ [w]"
      "(w_org w, w_url w) \<notin> (\<lambda>x. (w_org x, w_url x)) ` set (webhooks db)"
    using ok m by (auto simp: create_webhook_def Let_def insert_webhook_def sql_insert_def record_event_def
        split: option.splits if_splits sum.splits)
  then have "signing_secret c' w = Some secret" using keys m by (simp add: signing_secret_def)
  moreover have "rowcount (\<lambda>x. w_org x = cx_org_id ctx) (webhooks db') \<le> MAX_WEBHOOKS" using w by simp
  moreover have "\<forall>x. x \<in> set (webhooks db) \<and> w_org x = cx_org_id ctx \<longrightarrow> w_url x \<noteq> w_url w"
    using w(4,9) by (metis (no_types, lifting) image_eqI)
  ultimately show ?thesis using w by blast
qed

section \<open>Examples\<close>

definition demo_url :: string where "demo_url = ''https://a.example/x''"

lemma demo_url_valid: "validate_url False demo_url = Inr (''a.example'', 443)"
proof -
  have s: "urlsplit demo_url = Some \<lparr>ur_scheme = ''https'', ur_netloc = ''a.example'', ur_path = ''/x'', ur_query = [], ur_fragment = []\<rparr>"
    by (simp add: urlsplit_def demo_url_def py_partition_def Let_def is_alpha_def is_lower_alpha_def scheme_char_def
        is_ascii_alnum_def py_lower_def lower_char_def)
  have "\<not> is_ip_literal ''a.example''"
    by (simp add: is_ip_literal_def ip_address_def parse_v4_def parse_octet_def parse_v6_def py_partition_def v6_parts_def Let_def)
  moreover have "url_port p = Inr None \<and> url_hostname p = Some ''a.example'' \<and> url_userinfo p = (None, None)"
    if "ur_netloc p = ''a.example''" for p
    using that by (simp add: url_port_def url_hostinfo_def url_hostname_def url_userinfo_def py_rpartition_def
        py_partition_def py_lower_def lower_char_def Let_def)
  moreover have "rstrip_chars ''.'' (py_lower ''a.example'') = ''a.example''"
    by (simp add: py_lower_def lower_char_def rstrip_chars_def)
  moreover have "\<not> list_ex (\<lambda>x. suffix x ''a.example'') BLOCKED_SUFFIXES"
    by (simp add: BLOCKED_SUFFIXES_def suffix_to_prefix)
  moreover have "length demo_url \<le> MAX_URL_LEN \<and> \<not> list_ex (\<lambda>c. c \<in> set ('' '' @ [CHR 9, CHR 13, CHR 10, CHR 0x00])) demo_url"
    by (simp add: demo_url_def MAX_URL_LEN_def)
  ultimately show ?thesis by (simp add: validate_url_def s BLOCKED_NAMES_def)
qed

lemma eight_public: "is_public_ip (dotted 8 8 8 8)"
  using ip_address_dotted [of 8 8 8 8] dotted_chars(2) [of 8 8 8 8]
  by (simp add: is_public_ip_def py_partition_def public_v4_def v4_private_def V4_PRIVATE_def V4_PRIVATE_EXCEPTIONS_def
      dotted_value_def in_v4_net_def)

theorem only_public_addresses_contacted_witness:
  "\<exists>used. post_json (\<lambda>u a. a) (\<lambda>h p. Some [dotted 8 8 8 8]) (\<lambda>t. Answered 200) False demo_url = ((Some 200, None), used) \<and>
     used \<noteq> [] \<and> (\<forall>t \<in> set used. tg_url t = dotted 8 8 8 8)"
proof -
  have name: "\<not> is_ip_literal ''a.example''"
    by (simp add: is_ip_literal_def ip_address_def parse_v4_def parse_octet_def parse_v6_def py_partition_def v6_parts_def Let_def)
  define ts where "ts = pinned_targets (\<lambda>u a. a) demo_url ''a.example'' [dotted 8 8 8 8]"
  then obtain t where ts: "ts = [t]" using name by (auto simp: pinned_targets_def MAX_PINNED_ADDRESSES_def Let_def)
  have run: "post_json (\<lambda>u a. a) (\<lambda>h p. Some [dotted 8 8 8 8]) (\<lambda>t. Answered 200) False demo_url = ((Some 200, None), [t])"
    using ts name eight_public by (simp add: post_json_def demo_url_valid resolve_public_def ts_def)
  from only_public_addresses_contacted [OF run] name show ?thesis
    by (intro exI [of _ "[t]"]) (auto simp: run demo_url_valid)
qed

definition demo_delivery_conf :: delivery_conf where
  "demo_delivery_conf = \<lparr>dc_sha = (\<lambda>s. s), dc_mac = (\<lambda>k m. []), dc_secret_key = Some ''k'', dc_maintenance = False,
     dc_backoff = [1, 5]\<rparr>"

definition demo_webhook :: webhook where
  "demo_webhook = \<lparr>w_id = ''w'', w_org = ''org'', w_url = demo_url, w_secret_hash = ''whsec_'', w_events = [EVENT_RUN_FINISHED],
     w_active = True, w_created_at = 0\<rparr>"

definition demo_post :: "nat \<Rightarrow> string \<Rightarrow> string \<Rightarrow> int option \<times> string option" where
  "demo_post a body sig = (if a = 2 then (Some 204, None) else (Some 500, None))"

theorem delivery_retries_witness:
  "\<exists>r slept. deliver demo_delivery_conf ''d'' demo_post 3 demo_webhook ''{}'' = (r, slept) \<and> dr_attempts r = 2 \<and>
     dr_delivered r \<and> slept = [1]"
proof -
  have secret: "signing_secret demo_delivery_conf demo_webhook = Some ''whsec_''"
    by (simp add: signing_secret_def demo_delivery_conf_def demo_webhook_def webhook_signing_secret_def hmac_hex_def hexdigest_def)
  have up: "\<not> dc_maintenance demo_delivery_conf" by (simp add: demo_delivery_conf_def)
  obtain r slept where r: "deliver demo_delivery_conf ''d'' demo_post 3 demo_webhook ''{}'' = (r, slept)" by fastforce
  let ?p = "\<lambda>a. demo_post a ''{}'' (sign_payload (dc_mac demo_delivery_conf) ''{}'' ''whsec_'')"
  from delivery_retries [OF up secret _ refl r] have n: "1 \<le> dr_attempts r" "dr_attempts r \<le> 3"
    and before: "\<forall>a. 1 \<le> a \<and> a < dr_attempts r \<longrightarrow> \<not> success_status (fst (?p a)) \<and> \<not> gives_up (?p a)"
    and status: "dr_status_code r = fst (?p (dr_attempts r))" "dr_delivered r = success_status (dr_status_code r)"
    and stop: "dr_attempts r < 3 \<longrightarrow> dr_delivered r \<or> gives_up (?p (dr_attempts r))"
    and slept: "slept = map (pause_after (dc_backoff demo_delivery_conf)) [1..<dr_attempts r]" by auto
  have "\<not> 2 < dr_attempts r" using spec [OF before, of 2] by (simp add: demo_post_def success_status_def)
  moreover have "dr_attempts r \<noteq> 1" using stop status by (auto simp: demo_post_def success_status_def gives_up_def)
  ultimately have two: "dr_attempts r = 2" using n by simp
  have "slept = [1]" unfolding slept two by (simp add: upt_rec pause_after_def demo_delivery_conf_def)
  moreover have "dr_delivered r" using status two by (simp add: demo_post_def success_status_def)
  ultimately show ?thesis using r two by blast
qed

theorem created_webhook_signs_with_its_secret_witness:
  "\<exists>w secret db'. create_webhook demo_delivery_conf False demo_request ''w'' demo_ctx demo_url [EVENT_RUN_FINISHED] empty_cdb =
      (Inr (w, secret), db') \<and> signing_secret demo_delivery_conf w = Some secret \<and> webhooks db' = [w]"
proof -
  have "py_strip demo_url = demo_url" by (simp add: demo_url_def py_strip_def py_lstrip_def py_rstrip_def py_isspace_def Let_def)
  then have "\<exists>w secret db'. create_webhook demo_delivery_conf False demo_request ''w'' demo_ctx demo_url [EVENT_RUN_FINISHED]
      empty_cdb = (Inr (w, secret), db')"
    by (simp add: create_webhook_def demo_delivery_conf_def demo_url_valid Let_def insert_webhook_def sql_insert_def
        empty_cdb_def record_event_def AUDIT_ACTIONS_V1_def py_sorted_set_def MAX_WEBHOOKS_def)
  then obtain w secret db' where ok: "create_webhook demo_delivery_conf False demo_request ''w'' demo_ctx demo_url
      [EVENT_RUN_FINISHED] empty_cdb = (Inr (w, secret), db')" by blast
  from created_webhook_signs_with_its_secret [OF ok refl refl refl] ok show ?thesis by (auto simp: empty_cdb_def)
qed

end
