(* ===== verification/Schedule.thy ===== *)
theory Schedule
  imports Webhooks
begin

text \<open>
  The weekly reminder (\<^verbatim>\<open>app/control/schedule.py\<close>) and its routes (\<^verbatim>\<open>app/api/v1/schedule.py\<close>). The time
  zone database of \<open>zoneinfo\<close> and the mail transport are parameters; \<open>send_reminder\<close> is split at the points where
  another worker may intervene: the read of the row, the conditional claim of the slot, the mails with their audit
  event.
\<close>

section \<open>Time zones\<close>

text \<open>A zone: the offset at a UTC instant (\<open>astimezone\<close>), and the one of a wall-clock reading with \<open>fold=0\<close>, where
  a reading is the number of microseconds its fields would denote in UTC.\<close>

record tzone =
  tz_offset :: "stamp \<Rightarrow> int"
  tz_wall :: "int \<Rightarrow> int"

record tzdata =
  td_names :: "string list"
  td_zone :: "string \<Rightarrow> tzone option"

text \<open>\<open>datetime\<close> accepts only offsets strictly between minus and plus 24 hours.\<close>

definition zone_ok :: "tzone \<Rightarrow> bool" where
  "zone_ok z = ((\<forall>t. \<bar>tz_offset z t\<bar> < days 1) \<and> (\<forall>w. \<bar>tz_wall z w\<bar> < days 1))"

definition tzdata_ok :: "tzdata \<Rightarrow> bool" where
  "tzdata_ok td = (\<forall>name z. td_zone td name = Some z \<longrightarrow> zone_ok z)"

definition DEFAULT_TIMEZONE :: string where "DEFAULT_TIMEZONE = ''Europe/Warsaw''"
definition RECENT_UPLOAD_WINDOW :: int where "RECENT_UPLOAD_WINDOW = days 6"
definition HINT_MIN_PATH :: nat where "HINT_MIN_PATH = 16"
definition HINT_TAIL :: nat where "HINT_TAIL = 4"

definition is_valid_timezone :: "tzdata \<Rightarrow> string \<Rightarrow> bool" where
  "is_valid_timezone td name = (name \<in> set (td_names td))"

section \<open>The next slot\<close>

text \<open>Days are counted from 1970-01-01, a Thursday; \<open>date.weekday()\<close> is 0 on Mondays.\<close>

definition weekday_of :: "int \<Rightarrow> int" where "weekday_of day = (day + 3) mod 7"

definition local_day :: "tzone \<Rightarrow> stamp \<Rightarrow> int" where
  "local_day z t = (t + tz_offset z t) div days 1"

definition slot_utc :: "tzone \<Rightarrow> int \<Rightarrow> int \<Rightarrow> stamp" where
  "slot_utc z hour day = (let w = days day + hours hour in w - tz_wall z w)"

definition slot_search :: "tzone \<Rightarrow> int \<Rightarrow> int \<Rightarrow> stamp \<Rightarrow> int list \<Rightarrow> stamp option" where
  "slot_search z weekday hour after day_list =
     map_option (slot_utc z hour)
       (List.find (\<lambda>day. weekday_of day = weekday \<and> after < slot_utc z hour day) day_list)"

definition compute_next_reminder :: "tzdata \<Rightarrow> int \<Rightarrow> int \<Rightarrow> string \<Rightarrow> stamp \<Rightarrow> exc + stamp" where
  "compute_next_reminder td weekday hour tz after =
     (if \<not> (0 \<le> weekday \<and> weekday \<le> 6) then Inl (PyRaise ''ValueError'')
      else if \<not> (0 \<le> hour \<and> hour \<le> 23) then Inl (PyRaise ''ValueError'')
      else (case td_zone td tz of
          None \<Rightarrow> Inl (PyRaise ''ZoneInfoNotFoundError'')
        | Some z \<Rightarrow>
            of_option (PyRaise ''AssertionError'')
              (slot_search z weekday hour after (map (\<lambda>i. local_day z after + int i) [0..<15]))))"

definition next_for :: "tzdata \<Rightarrow> org_schedule \<Rightarrow> stamp \<Rightarrow> exc + stamp option" where
  "next_for td s after =
     (if \<not> os_reminder_enabled s then Inr None
      else map_sum id Some (compute_next_reminder td (os_reminder_weekday s) (os_reminder_hour s) (os_timezone s) after))"

section \<open>Rows\<close>

definition default_schedule :: "ident \<Rightarrow> org_schedule" where
  "default_schedule org_id = \<lparr>os_org = org_id, os_reminder_enabled = False, os_reminder_weekday = 0, os_reminder_hour = 8,
     os_timezone = DEFAULT_TIMEZONE, os_skip_if_recent = True, os_auto_run = False, os_notify_on_finish = False,
     os_webhook_url = None, os_webhook_kind = ''slack'', os_next_reminder_at = None, os_last_reminder_at = None,
     os_updated_at = None\<rparr>"

definition get_schedule :: "ident \<Rightarrow> cdb \<Rightarrow> org_schedule option" where
  "get_schedule org_id db = sql_first (\<lambda>s. os_org s = org_id) (org_schedules db)"

definition is_due :: "stamp \<Rightarrow> org_schedule \<Rightarrow> bool" where
  "is_due now s = (os_reminder_enabled s \<and> (case os_next_reminder_at s of None \<Rightarrow> False | Some t \<Rightarrow> t \<le> now))"

text \<open>Rows ordered by the slot, then by the organization.\<close>

definition due_schedules :: "stamp \<Rightarrow> cdb \<Rightarrow> ident list" where
  "due_schedules now db =
     map os_org (sort_key (\<lambda>s. the (os_next_reminder_at s)) (sort_key os_org (filter (is_due now) (org_schedules db))))"

definition org_recipients :: "ident \<Rightarrow> cdb \<Rightarrow> (string \<times> string) list" where
  "org_recipients org_id db =
     map (\<lambda>u. (u_email u, if u_locale u = [] then ''pl'' else u_locale u))
       (filter (\<lambda>u. u_email u \<noteq> [])
         (sort_key u_email
           (concat (map (\<lambda>m. filter (\<lambda>u. u_id u = m_user m) (users db))
             (filter (\<lambda>m. m_org m = org_id \<and> m_role m \<in> set ROLES) (memberships db))))))"

section \<open>Sending a reminder\<close>

text \<open>A reminder to send: the address, the name of the organization, the language; the transport accepts it or fails.\<close>

type_synonym reminder = "string \<times> string \<times> string"

definition send_mails :: "('m \<Rightarrow> bool) \<Rightarrow> 'm list \<Rightarrow> nat" where
  "send_mails mailer mails = length (filter mailer mails)"

record reminder_result =
  rs_org :: ident
  rs_sent :: bool
  rs_recipients :: nat
  rs_skipped :: "string option"

text \<open>What \<open>send_reminder\<close> holds between its read and its claim.\<close>

record slot_claim =
  cl_org :: ident
  cl_due :: stamp
  cl_following :: "stamp option"
  cl_disabled :: bool
  cl_now :: stamp
  cl_skip_if_recent :: bool

definition slot_of :: "stamp \<Rightarrow> org_schedule \<Rightarrow> stamp option \<Rightarrow> slot_claim" where
  "slot_of now s following = \<lparr>cl_org = os_org s, cl_due = the (os_next_reminder_at s), cl_following = following,
     cl_disabled = (following = None), cl_now = now, cl_skip_if_recent = os_skip_if_recent s\<rparr>"

definition read_due :: "tzdata \<Rightarrow> stamp \<Rightarrow> ident \<Rightarrow> cdb \<Rightarrow> exc + slot_claim option" where
  "read_due td now org_id db =
     (case get_schedule org_id db of
        None \<Rightarrow> Inr None
      | Some s \<Rightarrow>
          if \<not> is_due now s then Inr None
          else (case compute_next_reminder td (os_reminder_weekday s) (os_reminder_hour s) (os_timezone s) now of
              Inr t \<Rightarrow> Inr (Some (slot_of now s (Some t)))
            | Inl e \<Rightarrow> if e = PyRaise ''ZoneInfoNotFoundError'' \<or> e = PyRaise ''ValueError''
                then Inr (Some (slot_of now s None)) else Inl e))"

definition claimable :: "slot_claim \<Rightarrow> org_schedule \<Rightarrow> bool" where
  "claimable c s = (os_org s = cl_org c \<and> os_reminder_enabled s \<and> os_next_reminder_at s = Some (cl_due c))"

definition claimed :: "slot_claim \<Rightarrow> org_schedule \<Rightarrow> org_schedule" where
  "claimed c s = s\<lparr>os_next_reminder_at := cl_following c, os_last_reminder_at := Some (cl_now c),
     os_reminder_enabled := \<not> cl_disabled c\<rparr>"

definition claim_slot :: "slot_claim \<Rightarrow> cdb \<Rightarrow> cdb option" where
  "claim_slot c db =
     (if rowcount (claimable c) (org_schedules db) \<noteq> 1 then None
      else Some (db\<lparr>org_schedules := sql_update (claimable c) (claimed c) (org_schedules db)\<rparr>))"

definition reminder_outcome :: "(reminder \<Rightarrow> bool) \<Rightarrow> slot_claim \<Rightarrow> cdb \<Rightarrow> reminder_result" where
  "reminder_outcome mailer c db =
     (let none = (\<lambda>reason. \<lparr>rs_org = cl_org c, rs_sent = False, rs_recipients = 0, rs_skipped = Some reason\<rparr>);
          skip = (\<not> cl_disabled c \<and> cl_skip_if_recent c \<and>
            list_ex (\<lambda>u. up_org u = cl_org c \<and> cl_now c - RECENT_UPLOAD_WINDOW \<le> up_created_at u) (uploads db))
      in if cl_disabled c then none ''unknown_timezone''
         else if skip then none ''recent_upload''
         else (case get_org (cl_org c) db of
             None \<Rightarrow> none ''no_recipients''
           | Some og \<Rightarrow>
               if org_recipients (cl_org c) db = [] then none ''no_recipients''
               else
                 let sent = send_mails mailer (map (\<lambda>(email, locale). (email, o_name og, locale)) (org_recipients (cl_org c) db))
                 in \<lparr>rs_org = cl_org c, rs_sent = 0 < sent, rs_recipients = sent,
                      rs_skipped = (if sent = 0 then Some ''mail_failed'' else None)\<rparr>))"

definition send_reminder ::
  "tzdata \<Rightarrow> bool \<Rightarrow> (reminder \<Rightarrow> bool) \<Rightarrow> ident \<Rightarrow> stamp \<Rightarrow> ident \<Rightarrow> reminder_result option handler" where
  "send_reminder td maintenance mailer ev now org_id db =
     (if maintenance then (Inr None, db)
      else (case read_due td now org_id db of
          Inl e \<Rightarrow> (Inl e, db)
        | Inr None \<Rightarrow> (Inr None, db)
        | Inr (Some c) \<Rightarrow>
            (case claim_slot c db of
               None \<Rightarrow> (Inr None, db)
             | Some db1 \<Rightarrow>
                 let r = reminder_outcome mailer c db1
                 in with_event db1
                      (record_event ev now (Some org_id) ''system'' None ''schedule.reminder'' (Some (''org:'' @ org_id))
                         ([(''sent'', PBool (rs_sent r)), (''recipients'', PInt (int (rs_recipients r)))] @
                          (case rs_skipped r of None \<Rightarrow> [] | Some reason \<Rightarrow> [(''skipped_reason'', PStr reason)])) None db1)
                      (\<lambda>db2. (Inr (Some r), db2)))))"

text \<open>One pass of the loop; an error of one organization is logged and the others are served.\<close>

fun tick_orgs ::
  "tzdata \<Rightarrow> (reminder \<Rightarrow> bool) \<Rightarrow> (ident \<Rightarrow> ident) \<Rightarrow> stamp \<Rightarrow> ident list \<Rightarrow> cdb \<Rightarrow> reminder_result list \<times> cdb" where
  "tick_orgs td mailer ev now [] db = ([], db)"
| "tick_orgs td mailer ev now (k # ks) db =
     (let (r, db1) = send_reminder td False mailer (ev k) now k db;
          (rs, db2) = tick_orgs td mailer ev now ks db1
      in (case r of Inr (Some x) \<Rightarrow> x # rs | _ \<Rightarrow> rs, db2))"

definition tick ::
  "tzdata \<Rightarrow> bool \<Rightarrow> (reminder \<Rightarrow> bool) \<Rightarrow> (ident \<Rightarrow> ident) \<Rightarrow> stamp \<Rightarrow> cdb \<Rightarrow> reminder_result list \<times> cdb" where
  "tick td maintenance mailer ev now db =
     (if maintenance then ([], db) else tick_orgs td mailer ev now (due_schedules now db) db)"

section \<open>Routes\<close>

text \<open>The masked address of the chat webhook: unreadable (a bare ellipsis), the host, or the host with the last
  characters of the path after an ellipsis.\<close>

datatype hint = Unreadable | HostOnly string | HostTail string string

definition webhook_hint :: "string option \<Rightarrow> hint option" where
  "webhook_hint url0 =
     (case url0 of
        None \<Rightarrow> None
      | Some url \<Rightarrow>
          if url = [] then None
          else (case urlsplit url of
              None \<Rightarrow> Some Unreadable
            | Some parts \<Rightarrow>
                let host = py_lower (case url_hostname parts of None \<Rightarrow> [] | Some h \<Rightarrow> h);
                    path = rstrip_chars ''/'' (ur_path parts)
                in if host = [] then Some Unreadable
                   else if HINT_MIN_PATH \<le> length path then Some (HostTail host (drop (length path - HINT_TAIL) path))
                   else Some (HostOnly host)))"

record schedule_view =
  sw_row :: org_schedule
  sw_kind :: string
  sw_webhook_set :: bool
  sw_hint :: "hint option"

text \<open>\<open>schedule_out\<close>: every column but the address, which is cut out.\<close>

definition schedule_out :: "org_schedule \<Rightarrow> schedule_view" where
  "schedule_out s = \<lparr>sw_row = s\<lparr>os_webhook_url := None\<rparr>,
     sw_kind = (if os_webhook_kind s = [] then ''slack'' else os_webhook_kind s),
     sw_webhook_set = (case os_webhook_url s of None \<Rightarrow> False | Some u \<Rightarrow> u \<noteq> []),
     sw_hint = webhook_hint (os_webhook_url s)\<rparr>"

text \<open>\<open>ScheduleIn\<close>: an omitted field has its default, but for the pair of the chat webhook, where \<open>None\<close> means
  omitted.\<close>

record schedule_in =
  sn_reminder_enabled :: bool
  sn_reminder_weekday :: int
  sn_reminder_hour :: int
  sn_timezone :: string
  sn_skip_if_recent :: bool
  sn_auto_run :: bool
  sn_notify_on_finish :: bool
  sn_webhook_kind :: "string option"
  sn_webhook_url :: "string option option"

definition schedule_in_valid :: "tzdata \<Rightarrow> schedule_in \<Rightarrow> schedule_in option" where
  "schedule_in_valid td b =
     (if 0 \<le> sn_reminder_weekday b \<and> sn_reminder_weekday b \<le> 6 \<and> 0 \<le> sn_reminder_hour b \<and> sn_reminder_hour b \<le> 23 \<and>
         1 \<le> length (sn_timezone b) \<and> length (sn_timezone b) \<le> 64 \<and>
         (case sn_webhook_kind b of None \<Rightarrow> True | Some k \<Rightarrow> k \<in> {''slack'', ''teams'', ''generic''}) \<and>
         (case sn_webhook_url b of Some (Some u) \<Rightarrow> length u \<le> 512 | _ \<Rightarrow> True) \<and>
         is_valid_timezone td (py_strip (sn_timezone b))
      then Some (b\<lparr>sn_timezone := py_strip (sn_timezone b)\<rparr>) else None)"

definition checked_webhook_url :: "bool \<Rightarrow> string option \<Rightarrow> exc + string option" where
  "checked_webhook_url dev v =
     (case v of None \<Rightarrow> Inr None
      | Some u \<Rightarrow> (case validate_url dev (py_strip u) of
            Inl reason \<Rightarrow> Inl (Problem 422 ''validation_error'') | Inr hp \<Rightarrow> Inr (Some (py_strip u))))"

definition get_schedule_route :: "org_context \<Rightarrow> cdb \<Rightarrow> schedule_view" where
  "get_schedule_route ctx db =
     schedule_out (case get_schedule (cx_org_id ctx) db of None \<Rightarrow> default_schedule (cx_org_id ctx) | Some s \<Rightarrow> s)"

text \<open>The values of \<open>EDITABLE_FIELDS\<close>.\<close>

definition editable :: "org_schedule \<Rightarrow> (string \<times> pyval) list" where
  "editable s = [(''reminder_enabled'', PBool (os_reminder_enabled s)), (''reminder_weekday'', PInt (os_reminder_weekday s)),
     (''reminder_hour'', PInt (os_reminder_hour s)), (''timezone'', PStr (os_timezone s)),
     (''reminder_skip_if_recent_upload'', PBool (os_skip_if_recent s)), (''auto_run_on_upload'', PBool (os_auto_run s)),
     (''notify_on_finish'', PBool (os_notify_on_finish s)),
     (''notify_webhook_url'', case os_webhook_url s of None \<Rightarrow> PNone | Some u \<Rightarrow> PStr u),
     (''notify_webhook_kind'', PStr (os_webhook_kind s))]"

definition changed_fields :: "org_schedule \<Rightarrow> org_schedule \<Rightarrow> string list" where
  "changed_fields old new =
     sort (map (fst \<circ> fst) (filter (\<lambda>(a, b). snd a \<noteq> snd b) (zip (editable old) (editable new))))"

definition with_body :: "schedule_in \<Rightarrow> string option \<Rightarrow> stamp \<Rightarrow> org_schedule \<Rightarrow> org_schedule" where
  "with_body b url now s = s\<lparr>os_reminder_enabled := sn_reminder_enabled b, os_reminder_weekday := sn_reminder_weekday b,
     os_reminder_hour := sn_reminder_hour b, os_timezone := sn_timezone b, os_skip_if_recent := sn_skip_if_recent b,
     os_auto_run := sn_auto_run b, os_notify_on_finish := sn_notify_on_finish b,
     os_webhook_kind := (case sn_webhook_kind b of None \<Rightarrow> os_webhook_kind s | Some k \<Rightarrow> k),
     os_webhook_url := (case sn_webhook_url b of None \<Rightarrow> os_webhook_url s | Some _ \<Rightarrow> url), os_updated_at := Some now\<rparr>"

definition save_schedule :: "org_schedule \<Rightarrow> org_schedule list \<Rightarrow> org_schedule list" where
  "save_schedule s rows =
     (if os_org s \<in> os_org ` set rows then sql_update (\<lambda>r. os_org r = os_org s) (\<lambda>_. s) rows else rows @ [s])"

definition put_schedule :: "tzdata \<Rightarrow> bool \<Rightarrow> http_request \<Rightarrow> org_context \<Rightarrow> schedule_in \<Rightarrow> schedule_view handler" where
  "put_schedule td dev rq ctx b db =
     (case (case sn_webhook_url b of None \<Rightarrow> Inr None | Some v \<Rightarrow> checked_webhook_url dev v) of
        Inl e \<Rightarrow> (Inl e, db)
      | Inr url \<Rightarrow>
          let current = (case get_schedule (cx_org_id ctx) db of None \<Rightarrow> default_schedule (cx_org_id ctx) | Some s \<Rightarrow> s);
              row = with_body b url (rq_now rq) current
          in (case next_for td row (rq_now rq) of
                Inl e \<Rightarrow> (Inl e, db)
              | Inr t \<Rightarrow>
                  let new = row\<lparr>os_next_reminder_at := t\<rparr>
                  in with_event db
                       (record_event (rq_event rq) (rq_now rq) (Some (cx_org_id ctx)) (actor_type (cx_principal ctx))
                          (actor_id (cx_principal ctx)) ''schedule.updated'' (Some (''org:'' @ cx_org_id ctx))
                          [(''fields'', PList (map PStr (changed_fields current new)))] (rq_host rq)
                          (db\<lparr>org_schedules := save_schedule new (org_schedules db)\<rparr>))
                       (\<lambda>db1. (Inr (schedule_out new), db1))))"

end
