(* ===== verification/Reminders.thy ===== *)
theory Reminders
  imports Schedule
begin

text \<open>
  What the weekly reminder promises: the next slot always exists and is the first one after the given moment; a slot is
  claimed at most once however workers, restarts and saves interleave; a pass of the loop leaves nobody due; saving the
  schedule recomputes the slot and keeps the chat webhook's secret.
\<close>

section \<open>The next slot\<close>

lemma slot_search_Some:
  assumes "slot_search z weekday hour after (map (\<lambda>i. s + int i) [0..<n]) = Some t"
  obtains day where "t = slot_utc z hour day" and "weekday_of day = weekday" and "after < t" and "s \<le> day" and "day < s + int n"
    and "\<And>d. s \<le> d \<Longrightarrow> d < day \<Longrightarrow> weekday_of d = weekday \<Longrightarrow> slot_utc z hour d \<le> after"
proof -
  let ?P = "\<lambda>day. weekday_of day = weekday \<and> after < slot_utc z hour day"
  from assms obtain day where find: "List.find ?P (map (\<lambda>i. s + int i) [0..<n]) = Some day" and t: "t = slot_utc z hour day"
    by (auto simp: slot_search_def)
  from find obtain i where i: "i < n" "day = s + int i" "?P day" and before: "\<And>j. j < i \<Longrightarrow> \<not> ?P (s + int j)"
    by (auto simp: find_Some_iff)
  show ?thesis
  proof (rule that [OF t])
    fix d assume d: "s \<le> d" "d < day" "weekday_of d = weekday"
    then have "nat (d - s) < i" "d = s + int (nat (d - s))" using i by auto
    then have "\<not> ?P d" using before by metis
    with d show "slot_utc z hour d \<le> after" by auto
  qed (use i t in auto)
qed

lemma slot_search_finds:
  assumes "weekday_of d = weekday" and "after < slot_utc z hour d" and "s \<le> d" and "d < s + int n"
  shows "slot_search z weekday hour after (map (\<lambda>i. s + int i) [0..<n]) \<noteq> None"
proof -
  have "nat (d - s) < n" "d = s + int (nat (d - s))" using assms by auto
  then have "d \<in> set (map (\<lambda>i. s + int i) [0..<n])" by (auto simp: image_iff intro!: bexI [of _ "nat (d - s)"])
  with assms(1,2) show ?thesis unfolding slot_search_def by (auto simp: find_None_iff)
qed

text \<open>A slot on a day at least a week after the local day is still ahead, whatever the offsets are.\<close>

lemma slot_ahead:
  assumes "zone_ok z" and "0 \<le> hour" and "local_day z after + 7 \<le> day"
  shows "after < slot_utc z hour day"
proof -
  have "\<bar>tz_offset z after\<bar> < days 1" "\<bar>tz_wall z (days day + hours hour)\<bar> < days 1" using assms(1) unfolding zone_ok_def by blast+
  moreover have "after + tz_offset z after < days (local_day z after + 1)"
    unfolding local_day_def by simp
  ultimately show ?thesis using assms(2,3) unfolding slot_utc_def Let_def by simp
qed

lemma weekday_hit:
  assumes "0 \<le> weekday" and "weekday \<le> 6"
  shows "\<exists>d. s \<le> d \<and> d \<le> s + 6 \<and> weekday_of d = weekday"
proof -
  let ?k = "(weekday - (s + 3)) mod 7"
  have "0 \<le> ?k" "?k < 7" by simp_all
  moreover have "(s + 3 + ?k) mod 7 = (s + 3 + (weekday - (s + 3))) mod 7" by (rule mod_add_right_eq)
  then have "weekday_of (s + ?k) = weekday" using assms by (simp add: weekday_of_def algebra_simps)
  ultimately show ?thesis by (intro exI [of _ "s + ?k"]) simp
qed

lemma compute_next_reminder_exists:
  assumes zone: "td_zone td tz = Some z" "zone_ok z" and "0 \<le> weekday" "weekday \<le> 6" "0 \<le> hour" "hour \<le> 23"
  shows "\<exists>t. compute_next_reminder td weekday hour tz after = Inr t"
proof -
  from weekday_hit assms(3,4) obtain d where d: "local_day z after + 7 \<le> d" "d \<le> local_day z after + 7 + 6" "weekday_of d = weekday"
    by metis
  from slot_ahead [OF zone(2) assms(5) d(1)] have "after < slot_utc z hour d" .
  from slot_search_finds [OF d(3) this, of "local_day z after" 15] d show ?thesis
    using assms by (auto simp: compute_next_reminder_def)
qed

lemma compute_next_reminder_Inr:
  assumes "compute_next_reminder td weekday hour tz after = Inr t"
  obtains z where "td_zone td tz = Some z"
    and "slot_search z weekday hour after (map (\<lambda>i. local_day z after + int i) [0..<15]) = Some t"
  using assms by (auto simp: compute_next_reminder_def of_option_Inr split: if_splits option.splits)

lemma compute_next_reminder_later: "compute_next_reminder td weekday hour tz after = Inr t \<Longrightarrow> after < t"
  by (elim compute_next_reminder_Inr slot_search_Some)

text \<open>C19. The next reminder always exists within two weeks: for a known zone with offsets below a day it is the given
  hour of a day of the given weekday, strictly after the given moment, and the first such from the local
  date on. The loop over 15 days cannot end without an answer.\<close>

theorem next_reminder_is_next_slot:
  assumes zone: "td_zone td tz = Some z" "zone_ok z" and "0 \<le> weekday" "weekday \<le> 6" "0 \<le> hour" "hour \<le> 23"
  shows "\<exists>day. compute_next_reminder td weekday hour tz after = Inr (slot_utc z hour day) \<and> weekday_of day = weekday \<and>
    after < slot_utc z hour day \<and> local_day z after \<le> day \<and> day \<le> local_day z after + 13 \<and>
    (\<forall>d. local_day z after \<le> d \<and> d < day \<and> weekday_of d = weekday \<longrightarrow> slot_utc z hour d \<le> after)"
proof -
  from compute_next_reminder_exists [OF assms] obtain t where t: "compute_next_reminder td weekday hour tz after = Inr t" by blast
  with zone(1) have "slot_search z weekday hour after (map (\<lambda>i. local_day z after + int i) [0..<15]) = Some t"
    by (auto elim: compute_next_reminder_Inr)
  then obtain day where day: "t = slot_utc z hour day" "weekday_of day = weekday" "after < t" "local_day z after \<le> day"
    and first: "\<And>d. local_day z after \<le> d \<Longrightarrow> d < day \<Longrightarrow> weekday_of d = weekday \<Longrightarrow> slot_utc z hour d \<le> after"
    by (elim slot_search_Some) blast
  have "day \<le> local_day z after + 13"
  proof (rule ccontr)
    assume late: "\<not> day \<le> local_day z after + 13"
    from weekday_hit assms(3,4) obtain d where d: "local_day z after + 7 \<le> d" "d \<le> local_day z after + 7 + 6" "weekday_of d = weekday"
      by metis
    with late first [of d] slot_ahead [OF zone(2) assms(5) d(1)] show False by auto
  qed
  with t day first show ?thesis by blast
qed

section \<open>One claim per slot\<close>

text \<open>Workers read and claim in any order (\<open>pending\<close> holds what was read, and a claim may be tried again); schedules
  are saved, organizations deleted, everything else of the database changes, and the clock moves forward.\<close>

record sched_state =
  sx_db :: cdb
  sx_clock :: stamp
  sx_pending :: "slot_claim list"
  sx_log :: "(ident \<times> stamp) list"

datatype sched_event = Elapse nat | ReadDue ident | Claim nat | Put http_request org_context schedule_in
  | DropOrg ident | Elsewhere cdb

fun sched_step :: "tzdata \<Rightarrow> bool \<Rightarrow> sched_event \<Rightarrow> sched_state \<Rightarrow> sched_state" where
  "sched_step td dev (Elapse n) s = s\<lparr>sx_clock := sx_clock s + int n\<rparr>"
| "sched_step td dev (ReadDue k) s =
     (case read_due td (sx_clock s) k (sx_db s) of Inr (Some c) \<Rightarrow> s\<lparr>sx_pending := sx_pending s @ [c]\<rparr> | _ \<Rightarrow> s)"
| "sched_step td dev (Claim i) s =
     (if i < length (sx_pending s)
      then (let c = sx_pending s ! i
            in case claim_slot c (sx_db s) of None \<Rightarrow> s
               | Some db \<Rightarrow> s\<lparr>sx_db := db, sx_log := (cl_org c, cl_due c) # sx_log s\<rparr>)
      else s)"
| "sched_step td dev (Put rq ctx b) s =
     s\<lparr>sx_db := snd (put_schedule td dev (rq\<lparr>rq_now := sx_clock s\<rparr>) ctx b (sx_db s))\<rparr>"
| "sched_step td dev (DropOrg k) s =
     s\<lparr>sx_db := (sx_db s)\<lparr>org_schedules := sql_delete (\<lambda>r. os_org r = k) (org_schedules (sx_db s))\<rparr>\<rparr>"
| "sched_step td dev (Elsewhere db) s = s\<lparr>sx_db := db\<lparr>org_schedules := org_schedules (sx_db s)\<rparr>\<rparr>"

definition ahead_of :: "(ident \<times> stamp) list \<Rightarrow> org_schedule \<Rightarrow> bool" where
  "ahead_of lg r = (\<forall>d t. (os_org r, d) \<in> set lg \<longrightarrow> os_next_reminder_at r = Some t \<longrightarrow> d < t)"

definition claim_ok :: "stamp \<Rightarrow> slot_claim \<Rightarrow> bool" where
  "claim_ok clock c = (cl_due c \<le> cl_now c \<and> cl_now c \<le> clock \<and> (\<forall>t. cl_following c = Some t \<longrightarrow> cl_now c < t))"

definition rows_ok :: "(ident \<times> stamp) list \<Rightarrow> org_schedule list \<Rightarrow> bool" where
  "rows_ok lg rows = (distinct (map os_org rows) \<and> (\<forall>r \<in> set rows. ahead_of lg r))"

definition sched_inv :: "sched_state \<Rightarrow> bool" where
  "sched_inv s = (distinct (sx_log s) \<and> (\<forall>k d. (k, d) \<in> set (sx_log s) \<longrightarrow> d \<le> sx_clock s) \<and>
     rows_ok (sx_log s) (org_schedules (sx_db s)) \<and> (\<forall>c \<in> set (sx_pending s). claim_ok (sx_clock s) c))"

lemma get_schedule_org: "get_schedule k db = Some s \<Longrightarrow> os_org s = k"
  by (auto simp: get_schedule_def dest: sql_first_Some)

lemma read_due_Some:
  assumes "read_due td now k db = Inr (Some c)"
  obtains s t where "get_schedule k db = Some s" and "is_due now s" and "c = slot_of now s t" and "\<And>u. t = Some u \<Longrightarrow> now < u"
  using assms that [where t = "cl_following c"]
  by (auto simp: read_due_def slot_of_def compute_next_reminder_later split: option.splits if_splits sum.splits)

lemma read_due_ok: "read_due td now k db = Inr (Some c) \<Longrightarrow> claim_ok now c"
  by (erule read_due_Some) (auto simp: claim_ok_def slot_of_def is_due_def split: option.splits)

lemma claim_slot_Some:
  assumes "claim_slot c db = Some db'"
  obtains r where "r \<in> set (org_schedules db)" and "claimable c r"
    and "db' = db\<lparr>org_schedules := sql_update (claimable c) (claimed c) (org_schedules db)\<rparr>"
  using assms rowcount_one_ex [of "claimable c" "org_schedules db"] by (auto simp: claim_slot_def split: if_splits)

text \<open>A successful claim: its slot was not claimed before, and the rows stay ahead of the claims.\<close>

lemma claim_fresh:
  assumes "claim_slot c db = Some db'" and "rows_ok lg (org_schedules db)"
  shows "(cl_org c, cl_due c) \<notin> set lg"
  using assms(1)
proof (rule claim_slot_Some)
  fix r assume "r \<in> set (org_schedules db)" "claimable c r"
  then have "ahead_of lg r" "os_org r = cl_org c" "os_next_reminder_at r = Some (cl_due c)"
    using assms(2) by (auto simp: rows_ok_def claimable_def)
  then show ?thesis unfolding ahead_of_def by fastforce
qed

lemma claim_keeps_rows:
  assumes "claim_slot c db = Some db'" and ok: "rows_ok lg (org_schedules db)" and c: "claim_ok clock c"
  shows "rows_ok ((cl_org c, cl_due c) # lg) (org_schedules db')"
  using assms(1)
proof (rule claim_slot_Some)
  fix r0 assume r0: "r0 \<in> set (org_schedules db)" "claimable c r0"
    and db': "db' = db\<lparr>org_schedules := sql_update (claimable c) (claimed c) (org_schedules db)\<rparr>"
  have keys: "distinct (map os_org (org_schedules db))" using ok by (simp add: rows_ok_def)
  have "ahead_of ((cl_org c, cl_due c) # lg) r" if "r \<in> set (org_schedules db')" for r
  proof -
    from that have "r \<in> set (sql_update (claimable c) (claimed c) (org_schedules db))" unfolding db' by simp
    then show ?thesis
  proof (cases rule: in_sql_updateE)
    case same
    then have "os_org r \<noteq> cl_org c" using unique_row [OF keys same(1) r0(1)] r0(2) by (auto simp: claimable_def)
    then show ?thesis using ok same by (auto simp: rows_ok_def ahead_of_def)
  next
    case (updated r1)
    then show ?thesis using ok c by (fastforce simp: rows_ok_def ahead_of_def claim_ok_def claimable_def claimed_def)
  qed
  qed
  moreover have "map os_org (org_schedules db') = map os_org (org_schedules db)"
    unfolding db' by (simp add: map_sql_update claimed_def)
  ultimately show ?thesis using keys by (simp add: rows_ok_def)
qed

lemma save_schedule_rows:
  assumes ok: "rows_ok lg rows" and new: "ahead_of lg s"
  shows "rows_ok lg (save_schedule s rows)"
proof (cases "os_org s \<in> os_org ` set rows")
  case True
  have "map os_org (sql_update (\<lambda>r. os_org r = os_org s) (\<lambda>_. s) rows) = map os_org rows" by (auto simp: sql_update_def)
  with True assms show ?thesis by (auto simp: save_schedule_def rows_ok_def table_simps)
qed (use assms in \<open>auto simp: save_schedule_def rows_ok_def\<close>)

lemma next_for_later: "next_for td r now = Inr (Some t) \<Longrightarrow> now < t"
  by (cases "compute_next_reminder td (os_reminder_weekday r) (os_reminder_hour r) (os_timezone r) now")
    (auto simp: next_for_def compute_next_reminder_later split: if_splits)

text \<open>Saving either is refused and changes nothing, or stores the new row with its next slot.\<close>

definition current_schedule :: "ident \<Rightarrow> cdb \<Rightarrow> org_schedule" where
  "current_schedule k db = (case get_schedule k db of None \<Rightarrow> default_schedule k | Some s \<Rightarrow> s)"

lemma put_schedule_cases:
  obtains (refused) e where "put_schedule td dev rq ctx b db = (Inl e, db)"
  | (saved) url t new ev where
      "(case sn_webhook_url b of None \<Rightarrow> Inr None | Some v \<Rightarrow> checked_webhook_url dev v) = Inr url"
      and "next_for td (with_body b url (rq_now rq) (current_schedule (cx_org_id ctx) db)) (rq_now rq) = Inr t"
      and "new = (with_body b url (rq_now rq) (current_schedule (cx_org_id ctx) db))\<lparr>os_next_reminder_at := t\<rparr>"
      and "put_schedule td dev rq ctx b db = (Inr (schedule_out new),
         db\<lparr>org_schedules := save_schedule new (org_schedules db), audit_events := audit_events db @ [ev]\<rparr>)"
proof (cases "case sn_webhook_url b of None \<Rightarrow> Inr None | Some v \<Rightarrow> checked_webhook_url dev v")
  case (Inl e)
  then show ?thesis by (intro refused) (simp add: put_schedule_def)
next
  case url: (Inr url)
  let ?row = "with_body b url (rq_now rq) (current_schedule (cx_org_id ctx) db)"
  show ?thesis
  proof (cases "next_for td ?row (rq_now rq)")
    case (Inl e)
    with url show ?thesis by (intro refused) (simp add: put_schedule_def current_schedule_def Let_def)
  next
    case (Inr t)
    have "''schedule.updated'' \<in> set AUDIT_ACTIONS_V1" by (simp add: AUDIT_ACTIONS_V1_def)
    with url Inr show ?thesis
      by (intro saved [OF url Inr refl]) (simp add: put_schedule_def current_schedule_def Let_def record_event_def)
  qed
qed

lemma put_schedule_db:
  "org_schedules (snd (put_schedule td dev rq ctx b db)) = org_schedules db \<or>
   (\<exists>s. (\<forall>t. os_next_reminder_at s = Some t \<longrightarrow> rq_now rq < t) \<and>
        org_schedules (snd (put_schedule td dev rq ctx b db)) = save_schedule s (org_schedules db))"
proof (cases td dev rq ctx b db rule: put_schedule_cases)
  case (saved url t new ev)
  then have "\<forall>u. os_next_reminder_at new = Some u \<longrightarrow> rq_now rq < u" by (auto dest: next_for_later)
  with saved(4) show ?thesis by auto
qed simp

lemma sched_step_inv: "sched_inv s \<Longrightarrow> sched_inv (sched_step td dev e s)"
proof (induction td dev e s rule: sched_step.induct)
  case (1 td dev n s)
  then show ?case by (fastforce simp: sched_inv_def claim_ok_def)
next
  case (2 td dev k s)
  then show ?case by (auto simp: sched_inv_def read_due_ok split: sum.splits option.splits)
next
  case (3 td dev i s)
  show ?case
  proof (cases "i < length (sx_pending s) \<and> claim_slot (sx_pending s ! i) (sx_db s) \<noteq> None")
    case True
    then obtain db where db: "claim_slot (sx_pending s ! i) (sx_db s) = Some db" and i: "i < length (sx_pending s)" by auto
    let ?c = "sx_pending s ! i"
    have c: "claim_ok (sx_clock s) ?c" and ok: "rows_ok (sx_log s) (org_schedules (sx_db s))"
      using 3 i by (auto simp: sched_inv_def)
    then have "cl_due ?c \<le> sx_clock s" by (simp add: claim_ok_def)
    with claim_fresh [OF db ok] claim_keeps_rows [OF db ok c] 3 db i show ?thesis by (auto simp: sched_inv_def Let_def)
  qed (use 3 in \<open>auto simp: Let_def split: option.splits\<close>)
next
  case (4 td dev rq ctx b s)
  let ?rq = "rq\<lparr>rq_now := sx_clock s\<rparr>"
  from put_schedule_db [of td dev ?rq ctx b "sx_db s"]
  have "rows_ok (sx_log s) (org_schedules (snd (put_schedule td dev ?rq ctx b (sx_db s))))"
  proof
    assume "\<exists>r. (\<forall>t. os_next_reminder_at r = Some t \<longrightarrow> rq_now ?rq < t) \<and>
        org_schedules (snd (put_schedule td dev ?rq ctx b (sx_db s))) = save_schedule r (org_schedules (sx_db s))"
    then obtain r where r: "\<forall>t. os_next_reminder_at r = Some t \<longrightarrow> sx_clock s < t"
      "org_schedules (snd (put_schedule td dev ?rq ctx b (sx_db s))) = save_schedule r (org_schedules (sx_db s))" by auto
    have "ahead_of (sx_log s) r" using 4 r(1) by (fastforce simp: ahead_of_def sched_inv_def)
    then show ?thesis using 4 unfolding r(2) by (intro save_schedule_rows) (auto simp: sched_inv_def)
  qed (use 4 in \<open>simp add: sched_inv_def\<close>)
  with 4 show ?case by (simp add: sched_inv_def)
next
  case (5 td dev k s)
  then show ?case by (auto simp: sched_inv_def rows_ok_def distinct_sql_delete table_simps)
next
  case (6 td dev db s)
  then show ?case by (simp add: sched_inv_def)
qed

interpretation sched: machine "sched_step td dev" sched_inv for td dev
  by unfold_locales (rule sched_step_inv)

definition sched_start :: "stamp \<Rightarrow> cdb \<Rightarrow> sched_state" where
  "sched_start now db = \<lparr>sx_db = db, sx_clock = now, sx_pending = [], sx_log = []\<rparr>"

text \<open>C18. At most one reminder per slot: whatever workers read and claim and in whatever order, across restarts (what was
  read before may be claimed later, and again), saves of the schedule and deletions, no slot of an organization is
  claimed twice while the clock does not go back; and every claimed slot was due.\<close>

theorem slot_claimed_once:
  assumes "distinct (map os_org (org_schedules db))"
  shows "let s = fold (sched_step td dev) es (sched_start now db)
    in distinct (sx_log s) \<and> (\<forall>k d. (k, d) \<in> set (sx_log s) \<longrightarrow> d \<le> sx_clock s)"
proof -
  have "sched_inv (sched_start now db)" using assms by (simp add: sched_inv_def sched_start_def rows_ok_def ahead_of_def)
  from sched.run_inv [OF this, of td dev es] show ?thesis unfolding Let_def sched_inv_def by blast
qed

section \<open>A pass of the loop\<close>

lemma rowcount_key:
  assumes "distinct (map key rows)" and "r \<in> set rows" and "P r" and "\<And>x. P x \<Longrightarrow> key x = key r"
  shows "rowcount P rows = 1"
proof -
  have "rowcount P rows \<le> 1" using assms(1) assms(4) by (rule rowcount_le_one)
  moreover have "rowcount P rows \<noteq> 0" unfolding rowcount_pos using assms by blast
  ultimately show ?thesis by simp
qed

lemma claim_only_row:
  assumes "distinct (map os_org rows)" and "r \<in> set rows" and "claimable c r"
  shows "sql_update (claimable c) f rows = sql_update (\<lambda>x. os_org x = cl_org c) f rows"
proof -
  have "claimable c x = (os_org x = cl_org c)" if "x \<in> set rows" for x
    using unique_row [OF assms(1) that assms(2)] assms(3) by (auto simp: claimable_def)
  then show ?thesis by (simp add: sql_update_def)
qed

text \<open>With sound zones a due row can always be claimed: its next slot is computed, or the row is disabled.\<close>

lemma read_due_finds:
  assumes td: "tzdata_ok td" and s: "get_schedule k db = Some s" "is_due now s"
  obtains c where "read_due td now k db = Inr (Some c)"
proof (cases "compute_next_reminder td (os_reminder_weekday s) (os_reminder_hour s) (os_timezone s) now")
  case (Inl e)
  then have "e = PyRaise ''ZoneInfoNotFoundError'' \<or> e = PyRaise ''ValueError''"
  proof (cases "td_zone td (os_timezone s)")
    case (Some z)
    then have "zone_ok z" using td by (simp add: tzdata_ok_def)
    with compute_next_reminder_exists [OF Some this, of "os_reminder_weekday s" "os_reminder_hour s" now] Inl
    show ?thesis by (auto simp: compute_next_reminder_def split: if_splits)
  qed (auto simp: compute_next_reminder_def split: if_splits)
  with s Inl that show ?thesis by (auto simp: read_due_def)
qed (use s that in \<open>auto simp: read_due_def\<close>)

text \<open>Serving a due organization: one result, and its row moves on.\<close>

lemma send_reminder_due:
  assumes td: "tzdata_ok td" and keys: "distinct (map os_org (org_schedules db))" and s: "s \<in> set (org_schedules db)" "is_due now s"
  obtains r c db' where "send_reminder td False mailer ev now (os_org s) db = (Inr (Some r), db')" and "rs_org r = os_org s"
    and "org_schedules db' = sql_update (\<lambda>x. os_org x = os_org s) (claimed c) (org_schedules db)"
    and "claim_ok now c" and "cl_now c = now"
proof -
  have get: "get_schedule (os_org s) db = Some s" unfolding get_schedule_def by (rule sql_first_unique [OF keys s(1) refl])
  from read_due_finds [OF td this s(2)] obtain c where c: "read_due td now (os_org s) db = Inr (Some c)" .
  then obtain t where "c = slot_of now s t" using get by (auto elim: read_due_Some)
  then have "claimable c s" "cl_org c = os_org s" "cl_now c = now" using s(2)
    by (auto simp: slot_of_def claimable_def is_due_def split: option.splits)
  then have "rowcount (claimable c) (org_schedules db) = 1" by (intro rowcount_key [OF keys s(1)]) (auto simp: claimable_def)
  then have claim: "claim_slot c db = Some (db\<lparr>org_schedules := sql_update (\<lambda>x. os_org x = os_org s) (claimed c) (org_schedules db)\<rparr>)"
    using claim_only_row [OF keys s(1) \<open>claimable c s\<close>] \<open>cl_org c = os_org s\<close> by (simp add: claim_slot_def)
  let ?db = "db\<lparr>org_schedules := sql_update (\<lambda>x. os_org x = os_org s) (claimed c) (org_schedules db)\<rparr>"
  have org: "rs_org (reminder_outcome mailer c ?db) = os_org s"
    using \<open>cl_org c = os_org s\<close> by (simp add: reminder_outcome_def Let_def split: option.split)
  have "''schedule.reminder'' \<in> set AUDIT_ACTIONS_V1" by (simp add: AUDIT_ACTIONS_V1_def)
  then obtain ae where
    "send_reminder td False mailer ev now (os_org s) db = (Inr (Some (reminder_outcome mailer c ?db)), ?db\<lparr>audit_events := ae\<rparr>)"
    by (simp add: send_reminder_def c claim record_event_def Let_def)
  with org \<open>cl_now c = now\<close> show ?thesis
    by (intro that [of "reminder_outcome mailer c ?db" "?db\<lparr>audit_events := ae\<rparr>" c]) (simp_all add: read_due_ok [OF c])
qed

lemma claimed_not_due: "claim_ok now c \<Longrightarrow> cl_now c = now \<Longrightarrow> \<not> is_due now (claimed c s)"
  by (auto simp: is_due_def claimed_def claim_ok_def split: option.splits)

lemma filter_sql_update:
  assumes "\<And>x. P x \<Longrightarrow> \<not> Q x \<and> \<not> Q (f x)"
  shows "filter Q (sql_update P f rows) = filter Q rows"
  using assms by (induction rows) auto

lemma tick_orgs_serves:
  assumes td: "tzdata_ok td" and "distinct (map os_org (org_schedules db))" and "distinct ks"
    and "\<forall>k \<in> set ks. \<exists>s \<in> set (org_schedules db). os_org s = k \<and> is_due now s"
    and "tick_orgs td mailer ev now ks db = (rs, db')"
  shows "map rs_org rs = ks \<and> filter (\<lambda>s. os_org s \<notin> set ks) (org_schedules db') = filter (\<lambda>s. os_org s \<notin> set ks) (org_schedules db) \<and>
    (\<forall>s \<in> set (org_schedules db'). os_org s \<in> set ks \<longrightarrow> \<not> is_due now s)"
  using assms(2-)
proof (induction ks arbitrary: db rs)
  case (Cons k ks)
  from Cons.prems obtain s where s: "s \<in> set (org_schedules db)" "os_org s = k" "is_due now s" by auto
  obtain r c db1 where sent: "send_reminder td False mailer (ev k) now k db = (Inr (Some r), db1)" and r: "rs_org r = k"
    and db1: "org_schedules db1 = sql_update (\<lambda>x. os_org x = k) (claimed c) (org_schedules db)"
    and c: "claim_ok now c" "cl_now c = now"
    using send_reminder_due [OF td Cons.prems(1) s(1,3), of mailer "ev k"] s(2) by metis
  obtain rs1 where rs: "tick_orgs td mailer ev now ks db1 = (rs1, db')" "rs = r # rs1"
    using that [of "fst (tick_orgs td mailer ev now ks db1)"] Cons.prems(4) sent by (auto simp: case_prod_beta Let_def)
  have org: "os_org (claimed c x) = os_org x" for x by (simp add: claimed_def)
  have keys: "map os_org (org_schedules db1) = map os_org (org_schedules db)" unfolding db1 by (rule map_sql_update) (rule org)
  have rest: "\<forall>j \<in> set ks. \<exists>x \<in> set (org_schedules db1). os_org x = j \<and> is_due now x"
    using Cons.prems(2,3) unfolding db1 by (fastforce simp: table_simps)
  have frame: "filter (\<lambda>x. os_org x \<notin> insert k A) (org_schedules db1) = filter (\<lambda>x. os_org x \<notin> insert k A) (org_schedules db)" for A
    unfolding db1 by (rule filter_sql_update) (auto simp: org)
  have done1: "\<not> is_due now x" if "x \<in> set (org_schedules db1)" "os_org x = k" for x
    using that claimed_not_due [OF c] unfolding db1 by (auto simp: table_simps)
  have "distinct (map os_org (org_schedules db1))" using Cons.prems(1) keys by simp
  from Cons.IH [OF this _ rest rs(1)] Cons.prems(2)
  have IH: "map rs_org rs1 = ks"
    "filter (\<lambda>x. os_org x \<notin> set ks) (org_schedules db') = filter (\<lambda>x. os_org x \<notin> set ks) (org_schedules db1)"
    "\<forall>x \<in> set (org_schedules db'). os_org x \<in> set ks \<longrightarrow> \<not> is_due now x" by auto
  have "x \<in> set (org_schedules db1)" if "x \<in> set (org_schedules db')" "os_org x \<notin> set ks" for x
    using arg_cong [OF IH(2), of set] that by auto
  then have all: "\<forall>x \<in> set (org_schedules db'). os_org x \<in> set (k # ks) \<longrightarrow> \<not> is_due now x"
    using IH(3) done1 by auto
  have "filter (\<lambda>x. os_org x \<noteq> k) (filter (\<lambda>x. os_org x \<notin> set ks) (org_schedules db')) =
      filter (\<lambda>x. os_org x \<noteq> k) (filter (\<lambda>x. os_org x \<notin> set ks) (org_schedules db1))" using IH(2) by simp
  then have "filter (\<lambda>x. os_org x \<notin> set (k # ks)) (org_schedules db') = filter (\<lambda>x. os_org x \<notin> set (k # ks)) (org_schedules db)"
    using frame [of "set ks"] by (simp add: conj_commute)
  with all IH(1) r rs(2) show ?case by simp
qed simp

lemma set_due_schedules: "set (due_schedules now db) = os_org ` {s \<in> set (org_schedules db). is_due now s}"
  by (auto simp: due_schedules_def)

lemma distinct_due_schedules: "distinct (map os_org (org_schedules db)) \<Longrightarrow> distinct (due_schedules now db)"
  by (simp add: due_schedules_def distinct_map inj_on_def)

text \<open>A pass of the loop serves every due organization exactly once, in the order of the slots, and leaves nobody due
  at that moment: a second pass at once does nothing. The rows of organizations that were not due are untouched.\<close>

theorem tick_serves_all_due:
  assumes td: "tzdata_ok td" and keys: "distinct (map os_org (org_schedules db))" and tick: "tick td False mailer ev now db = (rs, db')"
  shows "map rs_org rs = due_schedules now db \<and> due_schedules now db' = [] \<and> tick td False mailer ev now db' = ([], db') \<and>
    filter (\<lambda>s. os_org s \<notin> set (due_schedules now db)) (org_schedules db') =
      filter (\<lambda>s. os_org s \<notin> set (due_schedules now db)) (org_schedules db)"
proof -
  let ?ks = "due_schedules now db"
  have "\<forall>k \<in> set ?ks. \<exists>s \<in> set (org_schedules db). os_org s = k \<and> is_due now s" by (auto simp: set_due_schedules)
  from tick_orgs_serves [OF td keys distinct_due_schedules [OF keys] this] tick
  have out: "map rs_org rs = ?ks"
    "filter (\<lambda>s. os_org s \<notin> set ?ks) (org_schedules db') = filter (\<lambda>s. os_org s \<notin> set ?ks) (org_schedules db)"
    "\<forall>s \<in> set (org_schedules db'). os_org s \<in> set ?ks \<longrightarrow> \<not> is_due now s"
    by (auto simp: tick_def)
  have "\<not> is_due now s" if s: "s \<in> set (org_schedules db')" for s
  proof (cases "os_org s \<in> set ?ks")
    case False
    then have "s \<in> set (org_schedules db)" using arg_cong [OF out(2), of set] s by auto
    then show ?thesis using False by (auto simp: set_due_schedules)
  qed (use out(3) s in blast)
  then have none: "due_schedules now db' = []" by (simp add: due_schedules_def filter_empty_conv)
  with out show ?thesis by (simp add: tick_def)
qed

section \<open>Saving\<close>

lemma get_saved: "get_schedule (os_org s) (db\<lparr>org_schedules := save_schedule s rows, audit_events := ae\<rparr>) = Some s"
proof (cases "os_org s \<in> os_org ` set rows")
  case True
  then have "sql_first (\<lambda>r. os_org r = os_org s) rows \<noteq> None" by (auto simp: table_simps)
  with True show ?thesis by (auto simp: get_schedule_def save_schedule_def sql_first_update)
next
  case False
  then show ?thesis by (induction rows) (auto simp: get_schedule_def save_schedule_def sql_first_def)
qed

lemma save_schedule_others: "filter (\<lambda>r. os_org r \<noteq> os_org s) (save_schedule s rows) = filter (\<lambda>r. os_org r \<noteq> os_org s) rows"
  unfolding save_schedule_def by (simp add: filter_sql_update)

lemma current_schedule_org: "os_org (current_schedule k db) = k"
  by (auto simp: current_schedule_def default_schedule_def get_schedule_def dest: sql_first_Some split: option.split)

text \<open>The address a save leaves behind.\<close>

definition saved_url :: "schedule_in \<Rightarrow> string option \<Rightarrow> string option" where
  "saved_url b old = (case sn_webhook_url b of None \<Rightarrow> old | Some v \<Rightarrow> map_option py_strip v)"

text \<open>What saving a schedule does: the answer is what a later read gives, without the chat webhook's address; an omitted
  address stays, a null one is removed, a sent one is stored stripped and only if the address filter accepts it; the
  next reminder is set, to a moment after the save, exactly when the reminder is enabled; no other row changes.\<close>

theorem saved_schedule_reads_back:
  assumes "put_schedule td dev rq ctx b db = (Inr v, db')"
  shows "get_schedule_route ctx db' = v \<and> os_webhook_url (sw_row v) = None \<and>
    (\<exists>new. get_schedule (cx_org_id ctx) db' = Some new \<and>
       os_webhook_url new = saved_url b (os_webhook_url (current_schedule (cx_org_id ctx) db)) \<and>
       (\<forall>u. sn_webhook_url b = Some (Some u) \<longrightarrow> (\<exists>hp. validate_url dev (py_strip u) = Inr hp)) \<and>
       (case os_next_reminder_at new of None \<Rightarrow> \<not> sn_reminder_enabled b | Some t \<Rightarrow> sn_reminder_enabled b \<and> rq_now rq < t)) \<and>
    filter (\<lambda>r. os_org r \<noteq> cx_org_id ctx) (org_schedules db') = filter (\<lambda>r. os_org r \<noteq> cx_org_id ctx) (org_schedules db)"
proof (cases td dev rq ctx b db rule: put_schedule_cases)
  case (saved url t new ev)
  then have v: "v = schedule_out new"
    and db': "db' = db\<lparr>org_schedules := save_schedule new (org_schedules db), audit_events := audit_events db @ [ev]\<rparr>"
    using assms by simp_all
  have org: "os_org new = cx_org_id ctx" unfolding saved(3) by (simp add: with_body_def current_schedule_org)
  have get: "get_schedule (cx_org_id ctx) db' = Some new" unfolding db' org [symmetric] by (rule get_saved)
  have "os_webhook_url new = saved_url b (os_webhook_url (current_schedule (cx_org_id ctx) db))"
    and "\<forall>u. sn_webhook_url b = Some (Some u) \<longrightarrow> (\<exists>hp. validate_url dev (py_strip u) = Inr hp)"
    using saved(1) unfolding saved(3)
    by (auto simp: with_body_def saved_url_def checked_webhook_url_def split: option.splits sum.splits)
  moreover have "case os_next_reminder_at new of None \<Rightarrow> \<not> sn_reminder_enabled b | Some t \<Rightarrow> sn_reminder_enabled b \<and> rq_now rq < t"
  proof (cases t)
    case None
    with saved(2) have "\<not> sn_reminder_enabled b"
      by (auto simp: next_for_def with_body_def map_sum_def split: if_splits sum.splits)
    with None saved(3) show ?thesis by simp
  next
    case (Some u)
    with saved(2) have "sn_reminder_enabled b" by (auto simp: next_for_def with_body_def split: if_splits)
    with Some saved(2,3) show ?thesis by (auto dest: next_for_later)
  qed
  moreover have "filter (\<lambda>r. os_org r \<noteq> cx_org_id ctx) (org_schedules db') = filter (\<lambda>r. os_org r \<noteq> cx_org_id ctx) (org_schedules db)"
    using save_schedule_others [of new "org_schedules db"] unfolding db' org by simp
  ultimately show ?thesis using get v by (auto simp: get_schedule_route_def schedule_out_def)
qed (use assms in simp)

section \<open>Examples\<close>

definition demo_zone :: tzone where "demo_zone = \<lparr>tz_offset = (\<lambda>t. hours 2), tz_wall = (\<lambda>w. hours 2)\<rparr>"

definition demo_tzdata :: tzdata where
  "demo_tzdata = \<lparr>td_names = [''Z''], td_zone = (\<lambda>n. if n = ''Z'' then Some demo_zone else None)\<rparr>"

text \<open>Monday 00:00 local time of the zone is Sunday 22:00 in UTC.\<close>

theorem next_reminder_is_next_slot_witness:
  "compute_next_reminder demo_tzdata 0 0 ''Z'' 0 = Inr (days 4 - hours 2) \<and>
   (\<exists>day. compute_next_reminder demo_tzdata 0 0 ''Z'' 0 = Inr (slot_utc demo_zone 0 day) \<and> weekday_of day = 0 \<and> day \<le> 13)"
proof -
  have "compute_next_reminder demo_tzdata 0 0 ''Z'' 0 = Inr (days 4 - hours 2)"
    by (simp add: compute_next_reminder_def demo_tzdata_def demo_zone_def slot_search_def slot_utc_def weekday_of_def
        local_day_def upt_rec)
  moreover have "td_zone demo_tzdata ''Z'' = Some demo_zone" "zone_ok demo_zone"
    by (simp_all add: demo_tzdata_def zone_ok_def demo_zone_def)
  from next_reminder_is_next_slot [OF this, of 0 0 0]
  have "\<exists>day. compute_next_reminder demo_tzdata 0 0 ''Z'' 0 = Inr (slot_utc demo_zone 0 day) \<and> weekday_of day = 0 \<and> day \<le> 13"
    by (auto simp: local_day_def demo_zone_def)
  ultimately show ?thesis by blast
qed

definition demo_row :: org_schedule where
  "demo_row = (default_schedule ''org'')\<lparr>os_reminder_enabled := True, os_timezone := ''Z'', os_next_reminder_at := Some 4\<rparr>"

definition demo_schedules :: cdb where "demo_schedules = (ap_db demo_app)\<lparr>org_schedules := [demo_row]\<rparr>"

lemmas demo_schedule_defs = demo_schedules_def demo_row_def default_schedule_def get_schedule_def is_due_def

definition demo_claim :: slot_claim where
  "demo_claim = \<lparr>cl_org = ''org'', cl_due = 4, cl_following = Some (days 4 + hours 6), cl_disabled = False, cl_now = 5,
     cl_skip_if_recent = True\<rparr>"

lemma demo_read: "read_due demo_tzdata 5 ''org'' demo_schedules = Inr (Some demo_claim)"
  by (simp add: read_due_def demo_schedule_defs sql_first_def compute_next_reminder_def demo_tzdata_def demo_zone_def
      slot_search_def slot_utc_def weekday_of_def local_day_def upt_rec demo_claim_def slot_of_def)

lemma demo_claims:
  "claim_slot demo_claim demo_schedules = Some (demo_schedules\<lparr>org_schedules := [claimed demo_claim demo_row]\<rparr>)"
  "claim_slot demo_claim (demo_schedules\<lparr>org_schedules := [claimed demo_claim demo_row]\<rparr>) = None"
  by (simp_all add: claim_slot_def demo_schedules_def demo_row_def default_schedule_def claimable_def claimed_def
      demo_claim_def)

text \<open>Two workers read the same due slot; one of them claims it.\<close>

theorem slot_claimed_once_witness:
  "\<exists>s. s = fold (sched_step demo_tzdata False) [ReadDue ''org'', ReadDue ''org'', Claim 1, Claim 0] (sched_start 5 demo_schedules)
     \<and> sx_log s = [(''org'', 4)] \<and> distinct (sx_log s)"
proof -
  let ?s = "fold (sched_step demo_tzdata False) [ReadDue ''org'', ReadDue ''org'', Claim 1, Claim 0] (sched_start 5 demo_schedules)"
  have "distinct (map os_org (org_schedules demo_schedules))" by (simp add: demo_schedules_def)
  from slot_claimed_once [OF this, of demo_tzdata False "[ReadDue ''org'', ReadDue ''org'', Claim 1, Claim 0]" 5]
  have "distinct (sx_log ?s)" unfolding Let_def by (rule conjunct1)
  moreover have "cl_org demo_claim = ''org''" "cl_due demo_claim = 4" by (simp_all add: demo_claim_def)
  then have "sx_log ?s = [(''org'', 4)]"
    by (simp add: sched_start_def demo_read Let_def demo_claims)
  ultimately show ?thesis by blast
qed

theorem tick_serves_all_due_witness:
  "\<exists>rs db'. tick demo_tzdata False (\<lambda>m. True) (\<lambda>k. ''ev'') 5 demo_schedules = (rs, db') \<and> map rs_org rs = [''org''] \<and>
     due_schedules 5 db' = []"
proof -
  obtain rs db' where t: "tick demo_tzdata False (\<lambda>m. True) (\<lambda>k. ''ev'') 5 demo_schedules = (rs, db')" by (metis prod.collapse)
  have "distinct (map os_org (org_schedules demo_schedules))" by (simp add: demo_schedules_def)
  moreover have "tzdata_ok demo_tzdata" by (simp add: tzdata_ok_def demo_tzdata_def zone_ok_def demo_zone_def)
  ultimately have "map rs_org rs = due_schedules 5 demo_schedules \<and> due_schedules 5 db' = []"
    using tick_serves_all_due [OF _ _ t] by blast
  with t show ?thesis by (auto simp: due_schedules_def demo_schedule_defs)
qed

definition demo_schedule_in :: schedule_in where
  "demo_schedule_in = \<lparr>sn_reminder_enabled = True, sn_reminder_weekday = 0, sn_reminder_hour = 0, sn_timezone = ''Z'',
     sn_skip_if_recent = True, sn_auto_run = False, sn_notify_on_finish = False, sn_webhook_kind = None, sn_webhook_url = Some None\<rparr>"

theorem saved_schedule_reads_back_witness:
  "\<exists>v db'. put_schedule demo_tzdata False demo_request demo_ctx demo_schedule_in demo_schedules = (Inr v, db') \<and>
     get_schedule_route demo_ctx db' = v \<and> os_next_reminder_at (sw_row v) = Some (days 4 - hours 2)"
proof -
  have "\<exists>v db'. put_schedule demo_tzdata False demo_request demo_ctx demo_schedule_in demo_schedules = (Inr v, db') \<and>
      os_next_reminder_at (sw_row v) = Some (days 4 - hours 2)"
    by (simp add: put_schedule_def demo_schedule_in_def checked_webhook_url_def with_body_def next_for_def Let_def
        compute_next_reminder_def demo_tzdata_def demo_zone_def slot_search_def slot_utc_def weekday_of_def local_day_def
        upt_rec demo_request_def record_event_def AUDIT_ACTIONS_V1_def schedule_out_def)
  then obtain v db' where ok: "put_schedule demo_tzdata False demo_request demo_ctx demo_schedule_in demo_schedules = (Inr v, db')"
    "os_next_reminder_at (sw_row v) = Some (days 4 - hours 2)" by blast
  from saved_schedule_reads_back [OF ok(1)] ok show ?thesis by blast
qed

end
