(* ===== verification/ReportFiles.thy ===== *)
theory ReportFiles
  imports Tenancy
begin

text \<open>
  Report files on disk: finding the file a row of the tenant's database names (\<^verbatim>\<open>app/control/report_paths.py\<close>) and
  removing files inside a directory only (\<open>_unlink_inside\<close> of \<^verbatim>\<open>app/control/retention.py\<close>). The parts of a file
  system the code does not control are a record of parameters: how a location resolves (links, mount points, an error)
  and which files cannot be removed. The files themselves are a map from resolved paths to contents.
\<close>

type_synonym files = "path \<Rightarrow> string option"

text \<open>\<open>Path(raw)\<close>, a path that has been resolved, \<open>base / name\<close>.\<close>

datatype location = Raw string | At path | Under path string

record disk =
  dk_resolve :: "location \<Rightarrow> path option"
  dk_exists :: "path \<Rightarrow> bool"
  dk_stuck :: "path \<Rightarrow> bool"

text \<open>Resolving is idempotent: the result of \<open>resolve()\<close> resolves to itself.\<close>

definition disk_ok :: "disk \<Rightarrow> bool" where
  "disk_ok d = (\<forall>l p. dk_resolve d l = Some p \<longrightarrow> dk_resolve d (At p) = Some p)"

section \<open>Names\<close>

text \<open>\<open>PurePosixPath(raw).name\<close> and \<open>PureWindowsPath(raw).name\<close> (the last component after the drive and the dir).\<close>

definition last_part :: "char \<Rightarrow> string \<Rightarrow> string" where
  "last_part sep s =
     (let parts = filter (\<lambda>x. x \<noteq> [] \<and> x \<noteq> ''.'') (py_split sep s) in if parts = [] then [] else last parts)"

definition posix_name :: "string \<Rightarrow> string" where "posix_name raw = last_part (CHR ''/'') raw"

abbreviation (input) backslash :: char where "backslash \<equiv> CHR 92"

definition upper_text :: "string \<Rightarrow> string" where
  "upper_text s = map (\<lambda>c. if is_lower_alpha c then char_of (of_char c - (32 :: nat)) else c) s"

text \<open>\<open>ntpath.splitroot(p)[2]\<close>: what follows the drive (or the share) and the root.\<close>

definition after_sep :: "string \<Rightarrow> string option" where
  "after_sep s = map_option snd (py_partition backslash s)"

definition nt_relative :: "string \<Rightarrow> string" where
  "nt_relative p =
     (if take 2 p = [backslash, backslash]
      then (let start = (if upper_text (take 8 p) = [backslash, backslash, CHR ''?'', backslash] @ ''UNC'' @ [backslash] then 8 else 2)
            in case after_sep (drop start p) of None \<Rightarrow> []
               | Some share \<Rightarrow> (case after_sep share of None \<Rightarrow> [] | Some r \<Rightarrow> r))
      else if take 1 p = [backslash] then drop 1 p
      else if take 1 (drop 1 p) = '':''
        then (if take 1 (drop 2 p) = [backslash] then drop 3 p else drop 2 p)
      else p)"

definition windows_name :: "string \<Rightarrow> string" where
  "windows_name raw = last_part backslash (nt_relative (map (\<lambda>c. if c = CHR ''/'' then backslash else c) raw))"

section \<open>Finding\<close>

definition file_name :: "string \<Rightarrow> string" where
  "file_name raw = (if windows_name raw \<noteq> [] then windows_name raw else posix_name raw)"

definition candidates :: "path \<Rightarrow> string \<Rightarrow> location list" where
  "candidates base raw =
     Raw raw # (if file_name raw \<noteq> [] \<and> file_name raw \<noteq> ''.'' \<and> file_name raw \<noteq> ''..'' then [Under base (file_name raw)] else [])"

fun try_candidates :: "disk \<Rightarrow> files \<Rightarrow> path \<Rightarrow> bool \<Rightarrow> location list \<Rightarrow> exc + path option" where
  "try_candidates d fs base raising [] = Inr None"
| "try_candidates d fs base raising (c # cs) =
     (case dk_resolve d c of
        None \<Rightarrow> if raising \<and> cs = [] then Inl (PyRaise ''OSError'') else try_candidates d fs base raising cs
      | Some p \<Rightarrow> if prefix base p \<and> fs p \<noteq> None then Inr (Some p) else try_candidates d fs base raising cs)"

definition resolve_report :: "disk \<Rightarrow> files \<Rightarrow> path \<Rightarrow> string option \<Rightarrow> bool \<Rightarrow> exc + path option" where
  "resolve_report d fs reports_dir raw raising =
     (case raw of
        None \<Rightarrow> Inr None
      | Some r \<Rightarrow>
          if r = [] then Inr None
          else (case dk_resolve d (At reports_dir) of
              None \<Rightarrow> Inl (PyRaise ''OSError'')
            | Some base \<Rightarrow> try_candidates d fs base raising (candidates base r)))"

section \<open>Removing\<close>

datatype unlink_result = Removed | Missing | UnlinkFailed

definition unlink_inside :: "disk \<Rightarrow> path \<Rightarrow> bool \<Rightarrow> location \<Rightarrow> files \<Rightarrow> unlink_result \<times> files" where
  "unlink_inside d dir dry l fs =
     (case (dk_resolve d l, dk_resolve d (At dir)) of
        (Some p, Some base) \<Rightarrow>
          if \<not> prefix base p \<or> fs p = None then (Missing, fs)
          else if dry then (Removed, fs)
          else if dk_stuck d p then (UnlinkFailed, fs)
          else (Removed, fs(p := None))
      | _ \<Rightarrow> (UnlinkFailed, fs))"

section \<open>Lemmas\<close>

lemma try_candidates_Some:
  assumes "try_candidates d fs base raising ls = Inr (Some p)"
  shows "prefix base p" and "fs p \<noteq> None" and "\<exists>l \<in> set ls. dk_resolve d l = Some p"
  using assms by (induction ls) (auto split: option.splits if_splits)

text \<open>A found file is an existing file inside the directory, and \<open>raise_errors\<close> never changes which one is found.\<close>

lemma resolve_report_Some:
  assumes "resolve_report d fs dir raw raising = Inr (Some p)"
  obtains base where "dk_resolve d (At dir) = Some base" and "prefix base p" and "fs p \<noteq> None"
    and "\<exists>l. dk_resolve d l = Some p"
proof -
  from assms obtain r base where base: "dk_resolve d (At dir) = Some base"
    and "try_candidates d fs base raising (candidates base r) = Inr (Some p)"
    by (auto simp: resolve_report_def split: option.splits if_splits)
  from try_candidates_Some [OF this(2)] show ?thesis by (intro that [OF base]) auto
qed

lemma try_candidates_raising:
  "try_candidates d fs base False ls = Inr (Some p) \<Longrightarrow> try_candidates d fs base True ls = Inr (Some p)"
  by (induction ls) (auto split: option.splits if_splits)

lemma resolve_report_raising:
  "resolve_report d fs dir raw False = Inr (Some p) \<Longrightarrow> resolve_report d fs dir raw True = Inr (Some p)"
  by (auto simp: resolve_report_def try_candidates_raising split: option.splits if_splits)

text \<open>Taking files away: what was found is found again unless it is gone.\<close>

definition fewer :: "files \<Rightarrow> files \<Rightarrow> bool" where
  "fewer fs' fs = (\<forall>p. fs' p = None \<or> fs' p = fs p)"

lemma fewer_refl [simp]: "fewer fs fs"
  by (simp add: fewer_def)

lemma fewer_trans: "fewer f g \<Longrightarrow> fewer g h \<Longrightarrow> fewer f h"
  unfolding fewer_def by metis

lemma try_candidates_fewer:
  assumes "fewer fs' fs" and "fs' p \<noteq> None" and "try_candidates d fs base raising ls = Inr (Some p)"
  shows "try_candidates d fs' base raising ls = Inr (Some p)"
  using assms(3)
proof (induction ls)
  case (Cons l ls)
  show ?case
  proof (cases "dk_resolve d l")
    case (Some q)
    have "fs' q = None" if "fs q = None" using assms(1) that unfolding fewer_def by metis
    then show ?thesis using Some Cons assms(2) by (auto split: if_splits)
  qed (use Cons in \<open>auto split: if_splits\<close>)
qed simp

lemma resolve_report_fewer:
  assumes "fewer fs' fs" and "fs' p \<noteq> None" and "resolve_report d fs dir raw raising = Inr (Some p)"
  shows "resolve_report d fs' dir raw raising = Inr (Some p)"
  using assms try_candidates_fewer [OF assms(1,2)] by (auto simp: resolve_report_def split: option.splits if_splits)

lemma unlink_inside_fewer: "fewer (snd (unlink_inside d dir dry l fs)) fs"
  by (auto simp: unlink_inside_def fewer_def split: option.splits)

lemma unlink_inside_scope:
  "snd (unlink_inside d dir dry l fs) p \<noteq> fs p \<Longrightarrow> \<exists>base. dk_resolve d (At dir) = Some base \<and> prefix base p"
  by (auto simp: unlink_inside_def split: option.splits if_splits)

lemma unlink_inside_dry: "snd (unlink_inside d dir True l fs) = fs"
  by (auto simp: unlink_inside_def split: option.splits)

lemma unlink_inside_gone:
  assumes "fst (unlink_inside d dir False l fs) \<noteq> UnlinkFailed" and "dk_resolve d l = Some p"
    and "dk_resolve d (At dir) = Some base" and "prefix base p"
  shows "snd (unlink_inside d dir False l fs) p = None"
  using assms by (auto simp: unlink_inside_def split: if_splits)

end
