(* ===== verification/Reports.thy ===== *)
theory Reports
  imports ReportFiles Executor Paging "HOL-Library.Product_Lexorder"
begin

text \<open>
  Runs and their reports (\<^verbatim>\<open>app/api/v1/runs.py\<close>): listing in pages, links, downloading a report after the check of its
  hash, conditional requests, and the check of a hash. The hash, the text form of a timestamp and the rows of the tenant's
  own database are parameters.
\<close>

section \<open>Run records\<close>

definition FORMATS :: "string list" where "FORMATS = [''html'', ''md'', ''json'']"

definition report_sha256 :: "run_record \<Rightarrow> (string \<times> string option) list" where
  "report_sha256 r = [(''html'', rr_sha_html r), (''md'', rr_sha_md r), (''json'', rr_sha_json r)]"

definition has_digest :: "string option \<Rightarrow> bool" where
  "has_digest d = (case d of None \<Rightarrow> False | Some s \<Rightarrow> s \<noteq> [])"

definition run_links :: "ident \<Rightarrow> run_record \<Rightarrow> (string \<times> string) list" where
  "run_links org_id r =
     (let base = ''/api/v1/orgs/'' @ org_id @ ''/runs/'' @ rr_id r @ ''/report''
      in map (\<lambda>(fmt, digest). (fmt, base @ ''?fmt='' @ fmt)) (filter (has_digest \<circ> snd) (report_sha256 r)))"

record run_view =
  rv_run_id :: ident
  rv_pipeline :: string
  rv_status :: string
  rv_created_at :: stamp
  rv_job_id :: "ident option"
  rv_sha256 :: "(string \<times> string option) list"
  rv_links :: "(string \<times> string) list"
  rv_period_from :: "int option"
  rv_period_to :: "int option"

definition run_out :: "run_record \<Rightarrow> run_view" where
  "run_out r = \<lparr>rv_run_id = rr_id r, rv_pipeline = rr_pipeline r, rv_status = rr_status r, rv_created_at = rr_created_at r,
     rv_job_id = rr_job r, rv_sha256 = report_sha256 r, rv_links = run_links (rr_org r) r,
     rv_period_from = rr_period_from r, rv_period_to = rr_period_to r\<rparr>"

definition load_run_record :: "ident \<Rightarrow> ident \<Rightarrow> cdb \<Rightarrow> exc + run_record" where
  "load_run_record org_id run_id db =
     of_option not_found (sql_first (\<lambda>r. rr_id r = run_id \<and> rr_org r = org_id) (run_records db))"

text \<open>\<open>to_iso\<close> and \<open>from_iso\<close> are \<open>datetime.isoformat\<close> and \<open>fromisoformat\<close>. The order of the rows is
  \<open>(created_at, run_id)\<close>, descending.\<close>

definition run_key :: "run_record \<Rightarrow> stamp \<times> ident" where "run_key r = (rr_created_at r, rr_id r)"

definition run_cursor :: "(string \<Rightarrow> stamp option) \<Rightarrow> string option \<Rightarrow> exc + (stamp \<times> ident) option" where
  "run_cursor from_iso cursor =
     (case cursor of
        None \<Rightarrow> Inr None
      | Some c \<Rightarrow>
          if c = [] then Inr None
          else (let (at_text, last_id) = (case py_partition (CHR ''|'') c of None \<Rightarrow> (c, []) | Some p \<Rightarrow> p)
                in case from_iso at_text of None \<Rightarrow> Inl (Problem 422 ''invalid_cursor'') | Some t \<Rightarrow> Inr (Some (t, last_id))))"

definition list_run_page ::
  "(stamp \<Rightarrow> string) \<Rightarrow> (string \<Rightarrow> stamp option) \<Rightarrow> string option \<Rightarrow> nat \<Rightarrow> string option \<Rightarrow> ident \<Rightarrow> cdb
    \<Rightarrow> exc + run_view list \<times> string option" where
  "list_run_page to_iso from_iso pipeline limit cursor org_id db =
     bind_res (run_cursor from_iso cursor) (\<lambda>k.
       let (page, nxt) = page_of run_key limit k (filter (\<lambda>r. rr_org r = org_id \<and>
             (case pipeline of None \<Rightarrow> True | Some p \<Rightarrow> p = [] \<or> rr_pipeline r = p)) (run_records db))
       in Inr (map run_out page, map_option (\<lambda>(t, i). to_iso t @ ''|'' @ i) nxt))"

section \<open>The tenant's runs\<close>

text \<open>A row of \<open>runs\<close> in the tenant's database: the columns retention and downloads read.\<close>

record tenant_row =
  tn_id :: ident
  tn_started_at :: stamp
  tn_report_path :: "string option"
  tn_report_json_path :: "string option"
  tn_report_html_path :: "string option"

definition path_key :: "string \<Rightarrow> tenant_row \<Rightarrow> string option" where
  "path_key fmt row = (if fmt = ''html'' then tn_report_html_path row
     else if fmt = ''md'' then tn_report_path row else tn_report_json_path row)"

record store =
  sr_runs :: "tenant_row list"
  sr_rows :: "(string \<times> ident) list"
  sr_files :: files

definition tenant_run :: "ident \<Rightarrow> store \<Rightarrow> tenant_row option" where
  "tenant_run run_id st = sql_first (\<lambda>r. tn_id r = run_id) (sr_runs st)"

section \<open>Downloading\<close>

definition stored_body :: "(string \<Rightarrow> string) \<Rightarrow> disk \<Rightarrow> path \<Rightarrow> files \<Rightarrow> string \<Rightarrow> string option \<Rightarrow> exc + string" where
  "stored_body sha d reports_dir fs expected raw =
     bind_res (resolve_report d fs reports_dir raw False) (\<lambda>found.
       case found of
         None \<Rightarrow> Inl not_found
       | Some p \<Rightarrow>
           (case fs p of
              None \<Rightarrow> Inl (PyRaise ''FileNotFoundError'')
            | Some body \<Rightarrow> if sha body \<noteq> expected then Inl (Problem 500 ''report_integrity_error'') else Inr body))"

definition read_report_file ::
  "(string \<Rightarrow> string) \<Rightarrow> disk \<Rightarrow> path \<Rightarrow> ident \<Rightarrow> ident \<Rightarrow> string \<Rightarrow> store \<Rightarrow> cdb \<Rightarrow> exc + run_record \<times> string \<times> string" where
  "read_report_file sha d reports_dir org_id run_id fmt st db =
     bind_res (load_run_record org_id run_id db) (\<lambda>r.
       if rr_report_purged_at r \<noteq> None then Inl (Problem 410 ''report_expired'')
       else (case map_of (report_sha256 r) fmt of
           Some (Some expected) \<Rightarrow>
             if expected = [] then Inl not_found
             else
               bind_res (stored_body sha d reports_dir (sr_files st) expected
                   (case tenant_run run_id st of None \<Rightarrow> None | Some row \<Rightarrow> path_key fmt row))
                 (\<lambda>body. Inr (r, body, expected))
         | _ \<Rightarrow> Inl not_found))"

text \<open>\<open>_etag_matches\<close>.\<close>

definition etag_tag_matches :: "string \<Rightarrow> string \<Rightarrow> bool" where
  "etag_tag_matches digest part =
     (let tag = py_strip part in
      if tag = ''*'' then True
      else strip_chars [CHR 34, CHR '' ''] (if take 2 tag = ''W/'' \<or> take 2 tag = ''w/'' then drop 2 tag else tag) = digest)"

definition etag_matches :: "string \<Rightarrow> string \<Rightarrow> bool" where
  "etag_matches header digest = list_ex (etag_tag_matches digest) (py_split (CHR '','') header)"

record report_response =
  rp_status :: int
  rp_etag :: string
  rp_media :: "string option"
  rp_disposition :: "string option"
  rp_body :: string

definition get_report ::
  "(string \<Rightarrow> string) \<Rightarrow> disk \<Rightarrow> path \<Rightarrow> string \<Rightarrow> string \<Rightarrow> org_context \<Rightarrow> ident \<Rightarrow> store \<Rightarrow> cdb \<Rightarrow> exc + report_response" where
  "get_report sha d reports_dir if_none_match fmt ctx run_id st db =
     bind_res (read_report_file sha d reports_dir (cx_org_id ctx) run_id fmt st db) (\<lambda>(r, body, expected).
       let etag = [CHR 34] @ expected @ [CHR 34];
           safe_name = rr_pipeline r @ ''-'' @ rr_id r @ ''.'' @ fmt;
           quoted = (\<lambda>kind. kind @ ''; filename='' @ [CHR 34] @ safe_name @ [CHR 34])
       in if etag_matches if_none_match expected
          then Inr \<lparr>rp_status = 304, rp_etag = etag, rp_media = None, rp_disposition = None, rp_body = []\<rparr>
          else if fmt = ''html''
          then Inr \<lparr>rp_status = 200, rp_etag = etag, rp_media = Some ''text/html; charset=utf-8'',
            rp_disposition = Some (quoted ''inline''), rp_body = body\<rparr>
          else Inr \<lparr>rp_status = 200, rp_etag = etag,
            rp_media = Some (if fmt = ''md'' then ''text/markdown; charset=utf-8'' else ''application/json''),
            rp_disposition = Some (quoted ''attachment''), rp_body = body\<rparr>)"

section \<open>Checking a hash\<close>

text \<open>\<open>VerifyIn\<close>: 64 hexadecimal digits, lower-cased.\<close>

definition verify_in_valid :: "string \<Rightarrow> string option" where
  "verify_in_valid v =
     (let s = py_lower (py_strip v) in if length s = 64 \<and> list_all is_lower_hex s then Some s else None)"

record verify_out =
  vo_run_id :: ident
  vo_pipeline :: string
  vo_created_at :: stamp
  vo_format :: string

definition matches_sha :: "string \<Rightarrow> run_record \<Rightarrow> bool" where
  "matches_sha digest r = (rr_sha_html r = Some digest \<or> rr_sha_md r = Some digest \<or> rr_sha_json r = Some digest)"

text \<open>The newest record of the organization with the hash; \<open>None\<close> is \<open>known=False\<close>.\<close>

definition verify :: "org_context \<Rightarrow> string \<Rightarrow> cdb \<Rightarrow> verify_out option" where
  "verify ctx digest db =
     (case rev (sort_key rr_created_at (filter (\<lambda>r. rr_org r = cx_org_id ctx \<and> matches_sha digest r) (run_records db))) of
        [] \<Rightarrow> None
      | r # _ \<Rightarrow> Some \<lparr>vo_run_id = rr_id r, vo_pipeline = rr_pipeline r, vo_created_at = rr_created_at r,
          vo_format = (case List.find (\<lambda>(f, dg). dg = Some digest) (report_sha256 r) of None \<Rightarrow> [] | Some (f, dg) \<Rightarrow> f)\<rparr>)"

section \<open>Collector runs\<close>

definition evidence_record :: "org_context \<Rightarrow> cdb \<Rightarrow> exc + run_record" where
  "evidence_record ctx db =
     (case rows_below run_key None (filter (\<lambda>r. rr_org r = cx_org_id ctx \<and> rr_pipeline r = ''uksc_evidence''
           \<and> rr_status r \<noteq> ''FAILED'') (run_records db)) of
        [] \<Rightarrow> Inl not_found | r # _ \<Rightarrow> Inr r)"

section \<open>What a download guarantees\<close>

lemma of_option_Inr_iff: "(of_option e x = Inr y) = (x = Some y)"
  by (cases x) simp_all

lemma stored_body_Inr:
  assumes "stored_body sha d dir fs expected raw = Inr body"
  obtains p where "resolve_report d fs dir raw False = Inr (Some p)" and "fs p = Some body" and "sha body = expected"
  using assms by (auto simp: stored_body_def bind_res_Inr split: option.splits if_splits)

lemma read_report_file_Inr:
  assumes "read_report_file sha d dir og k fmt st db = Inr (r, body, expected)"
  obtains raw where "r \<in> set (run_records db)" and "rr_id r = k" and "rr_org r = og" and "rr_report_purged_at r = None"
    and "map_of (report_sha256 r) fmt = Some (Some expected)" and "stored_body sha d dir (sr_files st) expected raw = Inr body"
proof -
  from assms have r: "sql_first (\<lambda>r. rr_id r = k \<and> rr_org r = og) (run_records db) = Some r"
    and rest: "rr_report_purged_at r = None" "map_of (report_sha256 r) fmt = Some (Some expected)"
      "stored_body sha d dir (sr_files st) expected (case tenant_run k st of None \<Rightarrow> None | Some row \<Rightarrow> path_key fmt row) = Inr body"
    by (auto simp: read_report_file_def load_run_record_def bind_res_Inr of_option_Inr_iff split: if_splits option.splits)
  from that [OF _ _ _ rest] sql_first_Some [OF r] show ?thesis by blast
qed

lemma report_sha256_matches: "map_of (report_sha256 r) fmt = Some (Some digest) \<Longrightarrow> matches_sha digest r"
  by (auto simp: report_sha256_def matches_sha_def split: if_splits)

lemma verify_known: "r \<in> set (run_records db) \<Longrightarrow> rr_org r = cx_org_id ctx \<Longrightarrow> matches_sha digest r \<Longrightarrow> verify ctx digest db \<noteq> None"
proof -
  assume r: "r \<in> set (run_records db)" "rr_org r = cx_org_id ctx" "matches_sha digest r"
  let ?rs = "filter (\<lambda>r. rr_org r = cx_org_id ctx \<and> matches_sha digest r) (run_records db)"
  from r have "r \<in> set (rev (sort_key rr_created_at ?rs))" by simp
  then show ?thesis unfolding verify_def by (cases "rev (sort_key rr_created_at ?rs)") auto
qed

text \<open>C21. A downloaded report is genuine: it is sent only for a run record of the caller's organization whose files retention
  has not removed; it is a file inside the organization's report directory whose hash is the one recorded for
  the format; the entity tag is that hash, the body is left out exactly when the request names the tag; and the check
  of the hash says that it is known.\<close>

theorem downloaded_report_is_genuine:
  assumes "get_report sha d dir inm fmt ctx k st db = Inr resp"
  shows "\<exists>r p base body. r \<in> set (run_records db) \<and> rr_id r = k \<and> rr_org r = cx_org_id ctx \<and> rr_report_purged_at r = None \<and>
    dk_resolve d (At dir) = Some base \<and> prefix base p \<and> sr_files st p = Some body \<and>
    map_of (report_sha256 r) fmt = Some (Some (sha body)) \<and> rp_etag resp = [CHR 34] @ sha body @ [CHR 34] \<and>
    (rp_status resp, rp_body resp) = (if etag_matches inm (sha body) then (304, []) else (200, body)) \<and>
    verify ctx (sha body) db \<noteq> None"
proof -
  from assms obtain r body expected where read: "read_report_file sha d dir (cx_org_id ctx) k fmt st db = Inr (r, body, expected)"
    and resp: "rp_etag resp = [CHR 34] @ expected @ [CHR 34]"
      "(rp_status resp, rp_body resp) = (if etag_matches inm expected then (304, []) else (200, body))"
    by (auto simp: get_report_def bind_res_Inr Let_def split: if_splits)
  from read show ?thesis
  proof (rule read_report_file_Inr)
    fix raw
    assume r: "r \<in> set (run_records db)" "rr_id r = k" "rr_org r = cx_org_id ctx" "rr_report_purged_at r = None"
      and dg: "map_of (report_sha256 r) fmt = Some (Some expected)"
      and body: "stored_body sha d dir (sr_files st) expected raw = Inr body"
    from body obtain p where p: "resolve_report d (sr_files st) dir raw False = Inr (Some p)" "sr_files st p = Some body"
      and sha: "sha body = expected" by (rule stored_body_Inr)
    from resolve_report_Some [OF p(1)] obtain base where "dk_resolve d (At dir) = Some base" "prefix base p" by metis
    moreover have "verify ctx expected db \<noteq> None" using verify_known r(1,3) report_sha256_matches [OF dg] by blast
    ultimately show ?thesis using r p(2) dg sha resp by blast
  qed
qed

text \<open>Listing: without a cursor, and with the cursor a page hands out, as for jobs.\<close>

lemma run_cursor_roundtrip:
  assumes "from_iso (to_iso t) = Some t" and "CHR ''|'' \<notin> set (to_iso t)"
  shows "run_cursor from_iso (Some (to_iso t @ ''|'' @ i)) = Inr (Some (t, i))"
proof -
  have "py_partition (CHR ''|'') (to_iso t @ ''|'' @ i) = Some (to_iso t, i)"
    using assms(2) by (simp add: py_partition_def takeWhile_append dropWhile_append)
  with assms(1) show ?thesis by (simp add: run_cursor_def)
qed

section \<open>Examples\<close>

definition demo_disk :: disk where
  "demo_disk = \<lparr>dk_resolve = (\<lambda>l. case l of Raw s \<Rightarrow> None | At p \<Rightarrow> Some p | Under p s \<Rightarrow> Some (p @ [s])), dk_exists = (\<lambda>p. True),
     dk_stuck = (\<lambda>p. False)\<rparr>"

definition demo_run :: run_record where
  "demo_run = \<lparr>rr_id = ''r1'', rr_org = ''org'', rr_pipeline = ''p'', rr_status = ''SUCCESS'', rr_job = None,
     rr_sha_html = Some ''body'', rr_sha_md = None, rr_sha_json = None, rr_period_from = None, rr_period_to = None,
     rr_report_purged_at = None, rr_created_at = 7\<rparr>"

definition demo_tenant_run :: tenant_row where
  "demo_tenant_run = \<lparr>tn_id = ''r1'', tn_started_at = 6, tn_report_path = None, tn_report_json_path = None,
     tn_report_html_path = Some ''/old/r1.html''\<rparr>"

definition demo_store :: store where
  "demo_store = \<lparr>sr_runs = [demo_tenant_run], sr_rows = [(''cs2_matches'', ''r1'')],
     sr_files = (\<lambda>p. if p = [''reports'', ''r1.html''] then Some ''body'' else None)\<rparr>"

definition demo_reports_db :: cdb where "demo_reports_db = (ap_db demo_app)\<lparr>run_records := [demo_run]\<rparr>"

lemma demo_file_name: "file_name ''/old/r1.html'' = ''r1.html''"
  by code_simp

lemma demo_found: "resolve_report demo_disk (sr_files demo_store) [''reports''] (Some ''/old/r1.html'') raising
    = Inr (Some [''reports'', ''r1.html''])"
  by (simp add: resolve_report_def demo_disk_def candidates_def demo_file_name demo_store_def)

text \<open>The path in the row is of another host; the file of the same name in the directory is sent.\<close>

theorem downloaded_report_is_genuine_witness:
  "\<exists>resp. get_report (\<lambda>s. s) demo_disk [''reports''] [] ''html'' demo_ctx ''r1'' demo_store demo_reports_db = Inr resp \<and>
     rp_body resp = ''body'' \<and> rp_status resp = 200 \<and> verify demo_ctx ''body'' demo_reports_db \<noteq> None"
proof -
  have read: "read_report_file (\<lambda>s. s) demo_disk [''reports''] (cx_org_id demo_ctx) ''r1'' ''html'' demo_store demo_reports_db =
      Inr (demo_run, ''body'', ''body'')"
  proof -
    have "tenant_run ''r1'' demo_store = Some demo_tenant_run"
      by (simp add: tenant_run_def demo_store_def demo_tenant_run_def sql_first_def)
    moreover have "load_run_record (cx_org_id demo_ctx) ''r1'' demo_reports_db = Inr demo_run"
      by (simp add: load_run_record_def demo_reports_db_def demo_run_def sql_first_def cx_org_id_def demo_ctx_def demo_org_def)
    moreover have "path_key ''html'' demo_tenant_run = Some ''/old/r1.html''" by (simp add: path_key_def demo_tenant_run_def)
    moreover have "stored_body (\<lambda>s. s) demo_disk [''reports''] (sr_files demo_store) ''body'' (Some ''/old/r1.html'') = Inr ''body''"
      unfolding stored_body_def demo_found by (simp add: demo_store_def)
    moreover have "map_of (report_sha256 demo_run) ''html'' = Some (Some ''body'')" "rr_report_purged_at demo_run = None"
      by (simp_all add: report_sha256_def demo_run_def)
    ultimately show ?thesis by (simp add: read_report_file_def)
  qed
  have "\<not> etag_matches [] ''body''" by (simp add: etag_matches_def etag_tag_matches_def py_strip_def py_lstrip_def py_rstrip_def
      strip_chars_def rstrip_chars_def Let_def)
  then obtain resp where ok: "get_report (\<lambda>s. s) demo_disk [''reports''] [] ''html'' demo_ctx ''r1'' demo_store demo_reports_db
      = Inr resp" "rp_body resp = ''body''" "rp_status resp = 200"
    by (simp add: get_report_def read Let_def)
  from downloaded_report_is_genuine [OF ok(1)] ok show ?thesis by (auto simp: demo_store_def split: if_splits)
qed

end
