(* ===== verification/Retention.thy ===== *)
theory Retention
  imports Reports
begin

text \<open>
  Retention (\<^verbatim>\<open>app/control/retention.py\<close>): removing uploads past their date, report files of old runs and the rows of
  those runs in the tenant's database. A purge maps the control database and the tenant's store (rows and files) to a
  report and both after it; \<open>ev\<close> supplies the identifiers of audit events. The lock of the organization keeps its runs
  away meanwhile; the tables of the tenant's database other than \<open>runs\<close> are the pairs of a table and a run.
\<close>

definition RUN_TABLES :: "string list" where
  "RUN_TABLES = [''cs2_matches'', ''ecommerce_orders'', ''uksc_checks'', ''uksc_inventory'', ''uksc_hosts'', ''runs'']"

text \<open>\<open>REPORT_PATH_COLUMNS\<close> of a row.\<close>

definition report_paths :: "tenant_row \<Rightarrow> string option list" where
  "report_paths row = [tn_report_path row, tn_report_json_path row, tn_report_html_path row]"

record purge_report =
  pg_org :: ident
  pg_uploads :: nat
  pg_reports :: nat
  pg_files :: nat
  pg_rows :: nat
  pg_dry_run :: bool
  pg_failed :: nat

section \<open>Files of the tenant\<close>

text \<open>\<open>_purge_uploads_files\<close>.\<close>

fun unlink_uploads :: "disk \<Rightarrow> path \<Rightarrow> bool \<Rightarrow> string list \<Rightarrow> files \<Rightarrow> unlink_result list \<times> files" where
  "unlink_uploads d dir dry [] fs = ([], fs)"
| "unlink_uploads d dir dry (n # ns) fs =
     (let (r, fs1) = unlink_inside d dir dry (Under dir n) fs; (rs, fs2) = unlink_uploads d dir dry ns fs1 in (r # rs, fs2))"

text \<open>One column of a row: what became of the file it names (\<open>Missing\<close> when there is none).\<close>

definition purge_path :: "disk \<Rightarrow> path \<Rightarrow> bool \<Rightarrow> string option \<Rightarrow> files \<Rightarrow> unlink_result \<times> files" where
  "purge_path d dir dry raw fs =
     (case resolve_report d fs dir raw True of
        Inl e \<Rightarrow> (UnlinkFailed, fs)
      | Inr None \<Rightarrow> (Missing, fs)
      | Inr (Some p) \<Rightarrow> unlink_inside d dir dry (At p) fs)"

fun purge_paths :: "disk \<Rightarrow> path \<Rightarrow> bool \<Rightarrow> string option list \<Rightarrow> files \<Rightarrow> unlink_result list \<times> files" where
  "purge_paths d dir dry [] fs = ([], fs)"
| "purge_paths d dir dry (raw # raws) fs =
     (let (r, fs1) = purge_path d dir dry raw fs; (rs, fs2) = purge_paths d dir dry raws fs1 in (r # rs, fs2))"

text \<open>The loop over the runs: for each the results of its columns.\<close>

fun purge_runs :: "disk \<Rightarrow> path \<Rightarrow> bool \<Rightarrow> tenant_row list \<Rightarrow> ident list \<Rightarrow> files \<Rightarrow> (ident \<times> unlink_result list) list \<times> files" where
  "purge_runs d dir dry rows [] fs = ([], fs)"
| "purge_runs d dir dry rows (k # ks) fs =
     (let (rs, fs1) = purge_paths d dir dry (case sql_first (\<lambda>r. tn_id r = k) rows of None \<Rightarrow> [] | Some row \<Rightarrow> report_paths row) fs;
          (rest, fs2) = purge_runs d dir dry rows ks fs1
      in ((k, rs) # rest, fs2))"

definition old_ids :: "stamp \<Rightarrow> store \<Rightarrow> ident list" where
  "old_ids cutoff st = map tn_id (filter (\<lambda>r. tn_started_at r < cutoff) (sr_runs st))"

definition results_of :: "unlink_result \<Rightarrow> (ident \<times> unlink_result list) list \<Rightarrow> nat" where
  "results_of x outcome = rowcount (\<lambda>r. r = x) (concat (map snd outcome))"

definition failed_runs :: "(ident \<times> unlink_result list) list \<Rightarrow> ident list" where
  "failed_runs outcome = map fst (filter (\<lambda>(k, rs). UnlinkFailed \<in> set rs) outcome)"

definition drop_runs :: "ident list \<Rightarrow> store \<Rightarrow> store" where
  "drop_runs ks st = st\<lparr>sr_runs := sql_delete (\<lambda>r. tn_id r \<in> set ks) (sr_runs st),
     sr_rows := sql_delete (\<lambda>(t, k). t \<in> set RUN_TABLES \<and> k \<in> set ks) (sr_rows st)\<rparr>"

record tenant_purge =
  tu_files :: nat
  tu_rows :: nat
  tu_failed_runs :: "ident list"
  tu_failed :: nat

definition purge_tenant ::
  "disk \<Rightarrow> path \<Rightarrow> bool \<Rightarrow> ident list \<Rightarrow> stamp \<Rightarrow> store \<Rightarrow> tenant_purge \<times> store" where
  "purge_tenant d dir dry run_ids cutoff st =
     (let targets = py_sorted_set (run_ids @ old_ids cutoff st);
          (outcome, fs) = purge_runs d dir dry (sr_runs st) targets (sr_files st);
          clean = filter (\<lambda>k. k \<notin> set (failed_runs outcome)) targets;
          st1 = st\<lparr>sr_files := fs\<rparr>
      in (\<lparr>tu_files = results_of Removed outcome, tu_rows = rowcount (\<lambda>r. tn_id r \<in> set clean) (sr_runs st),
            tu_failed_runs = failed_runs outcome, tu_failed = results_of UnlinkFailed outcome\<rparr>,
          if dry then st1 else drop_runs clean st1))"

section \<open>One organization\<close>

text \<open>The actions below are in the list \<open>record_event\<close> knows, so it does not raise here.\<close>

definition log_event :: "(nat \<Rightarrow> ident) \<Rightarrow> stamp \<Rightarrow> ident \<Rightarrow> string \<Rightarrow> string \<Rightarrow> pydict \<Rightarrow> cdb \<Rightarrow> cdb" where
  "log_event ev now org_id action target meta db =
     (case record_event (ev (length (audit_events db))) now (Some org_id) ''system'' None action (Some target) meta None db of
        Inl e \<Rightarrow> db | Inr db1 \<Rightarrow> db1)"

definition upload_busy :: "ident \<Rightarrow> cdb \<Rightarrow> ident \<Rightarrow> bool" where
  "upload_busy org_id db k = list_ex (\<lambda>j. j_org j = org_id \<and> (j_status j = Queued \<or> j_status j = Running) \<and> j_upload j = Some k) (jobs db)"

definition expired_uploads :: "ident \<Rightarrow> stamp \<Rightarrow> cdb \<Rightarrow> upload list" where
  "expired_uploads org_id now db =
     filter (\<lambda>u. up_org u = org_id \<and> up_retention_until u < now \<and> \<not> upload_busy org_id db (up_id u)) (uploads db)"

definition purge_uploads ::
  "disk \<Rightarrow> path \<Rightarrow> (nat \<Rightarrow> ident) \<Rightarrow> ident \<Rightarrow> bool \<Rightarrow> stamp \<Rightarrow> cdb \<Rightarrow> files \<Rightarrow> (nat \<times> nat) \<times> cdb \<times> files" where
  "purge_uploads d dir ev org_id dry now db fs =
     (let expired = expired_uploads org_id now db in
      if expired = [] \<or> dry then ((length expired, 0), db, fs)
      else
        let (results, fs1) = unlink_uploads d dir False (map up_path expired) fs;
            clean = map fst (filter (\<lambda>(u, r). r \<noteq> UnlinkFailed) (zip expired results));
            failed = rowcount (\<lambda>r. r = UnlinkFailed) results;
            db1 = fold (\<lambda>u. log_event ev now org_id ''upload.purged'' (''upload:'' @ up_id u)
              [(''upload_id'', PStr (up_id u)), (''kind'', PStr (up_kind u)), (''bytes'', PInt (up_bytes u))]) clean db;
            db2 = db1\<lparr>uploads := sql_delete (\<lambda>u. up_id u \<in> up_id ` set clean) (uploads db1),
              jobs := sql_update (\<lambda>j. case j_upload j of None \<Rightarrow> False | Some k \<Rightarrow> k \<in> up_id ` set clean) (j_upload_update (\<lambda>_. None)) (jobs db1)\<rparr>;
            db3 = (if failed = 0 then db2
              else log_event ev now org_id ''upload.purge_failed'' (''org:'' @ org_id) [(''count'', PInt (int failed))] db2)
        in ((length clean, failed), db3, fs1))"

lemma purge_uploads_alt:
  "purge_uploads d dir ev org_id dry now db fs =
     (let expired = expired_uploads org_id now db in
      if expired = [] \<or> dry then ((length expired, 0), db, fs)
      else
        let (results, fs1) = unlink_uploads d dir False (map up_path expired) fs;
            clean = map fst (filter (\<lambda>(u, r). r \<noteq> UnlinkFailed) (zip expired results));
            failed = rowcount (\<lambda>r. r = UnlinkFailed) results;
            db1 = fold (\<lambda>u. log_event ev now org_id ''upload.purged'' (''upload:'' @ up_id u)
              [(''upload_id'', PStr (up_id u)), (''kind'', PStr (up_kind u)), (''bytes'', PInt (up_bytes u))]) clean db;
            db2 = db1\<lparr>uploads := sql_delete (\<lambda>u. up_id u \<in> up_id ` set clean) (uploads db1),
              jobs := sql_update (\<lambda>j. \<exists>k. j_upload j = Some k \<and> k \<in> up_id ` set clean) (j_upload_update (\<lambda>_. None)) (jobs db1)\<rparr>;
            db3 = (if failed = 0 then db2
              else log_event ev now org_id ''upload.purge_failed'' (''org:'' @ org_id) [(''count'', PInt (int failed))] db2)
        in ((length clean, failed), db3, fs1))"
  unfolding purge_uploads_def case_option_ex by (rule refl)

definition old_runs :: "ident \<Rightarrow> stamp \<Rightarrow> cdb \<Rightarrow> ident list" where
  "old_runs org_id cutoff db =
     map rr_id (filter (\<lambda>r. rr_org r = org_id \<and> rr_created_at r < cutoff \<and> rr_report_purged_at r = None) (run_records db))"

definition mark_purged :: "(nat \<Rightarrow> ident) \<Rightarrow> stamp \<Rightarrow> ident \<Rightarrow> ident list \<Rightarrow> ident list \<Rightarrow> cdb \<Rightarrow> cdb" where
  "mark_purged ev now org_id clean failed db =
     (let db1 = (if clean = [] then db
            else log_event ev now org_id ''report.purged'' (''org:'' @ org_id) [(''count'', PInt (int (length clean)))]
              (db\<lparr>run_records := sql_update (\<lambda>r. rr_id r \<in> set clean) (rr_report_purged_at_update (\<lambda>_. Some now)) (run_records db)\<rparr>))
      in if failed = [] then db1
         else log_event ev now org_id ''report.purge_failed'' (''org:'' @ org_id) [(''count'', PInt (int (length failed)))] db1)"

text \<open>Without a directory of the tenant there is nothing to remove in it.\<close>

definition purge_store :: "disk \<Rightarrow> tenant_paths \<Rightarrow> bool \<Rightarrow> ident list \<Rightarrow> stamp \<Rightarrow> store \<Rightarrow> tenant_purge \<times> store" where
  "purge_store d paths dry old cutoff st =
     (if dk_exists d (tp_root paths) then purge_tenant d (tp_reports paths) dry old cutoff st
      else (\<lparr>tu_files = 0, tu_rows = 0, tu_failed_runs = [], tu_failed = 0\<rparr>, st))"

definition purge_org ::
  "(path \<Rightarrow> path) \<Rightarrow> path \<Rightarrow> disk \<Rightarrow> (nat \<Rightarrow> ident) \<Rightarrow> org \<Rightarrow> bool \<Rightarrow> stamp \<Rightarrow> cdb \<times> store \<Rightarrow> purge_report \<times> cdb \<times> store" where
  "purge_org resolve tenants_root d ev og dry now s =
     (let db = fst s; st = snd s;
          empty = \<lparr>pg_org = o_id og, pg_uploads = 0, pg_reports = 0, pg_files = 0, pg_rows = 0, pg_dry_run = dry, pg_failed = 0\<rparr>
      in case for_org resolve tenants_root (o_id og) of
           Inl e \<Rightarrow> (empty, db, st)
         | Inr paths \<Rightarrow>
             let cutoff = now - days (o_retention_days og);
                 ((n, failed), db1, fs1) = purge_uploads d (tp_uploads paths) ev (o_id og) dry now db (sr_files st);
                 st1 = st\<lparr>sr_files := fs1\<rparr>;
                 old = old_runs (o_id og) cutoff db1;
                 (t, st2) = purge_store d paths dry old cutoff st1;
                 clean = filter (\<lambda>k. k \<notin> set (tu_failed_runs t)) old;
                 db2 = (if (clean \<noteq> [] \<or> tu_failed_runs t \<noteq> []) \<and> \<not> dry
                   then mark_purged ev now (o_id og) clean (tu_failed_runs t) db1 else db1)
             in (empty\<lparr>pg_uploads := n, pg_reports := length clean, pg_files := tu_files t, pg_rows := tu_rows t,
                   pg_failed := failed + tu_failed t\<rparr>, db2, st2))"

text \<open>All organizations by identifier, or one of them; an organization's store does not depend on another's.\<close>

definition purge_targets :: "ident option \<Rightarrow> cdb \<Rightarrow> org list" where
  "purge_targets only db =
     filter (\<lambda>og. case only of None \<Rightarrow> True | Some k \<Rightarrow> k = [] \<or> o_id og = k) (sort_key o_id (orgs db))"

fun purge_each ::
  "(path \<Rightarrow> path) \<Rightarrow> path \<Rightarrow> disk \<Rightarrow> (nat \<Rightarrow> ident) \<Rightarrow> bool \<Rightarrow> stamp \<Rightarrow> org list \<Rightarrow> cdb \<times> (ident \<Rightarrow> store)
    \<Rightarrow> purge_report list \<times> cdb \<times> (ident \<Rightarrow> store)" where
  "purge_each resolve tenants_root d ev dry now [] (db, sts) = ([], db, sts)"
| "purge_each resolve tenants_root d ev dry now (og # ogs) (db, sts) =
     (let (r, db1, st1) = purge_org resolve tenants_root d ev og dry now (db, sts (o_id og));
          (rs, out) = purge_each resolve tenants_root d ev dry now ogs (db1, sts(o_id og := st1))
      in (r # rs, out))"

definition purge_all ::
  "(path \<Rightarrow> path) \<Rightarrow> path \<Rightarrow> disk \<Rightarrow> (nat \<Rightarrow> ident) \<Rightarrow> ident option \<Rightarrow> bool \<Rightarrow> stamp \<Rightarrow> cdb \<times> (ident \<Rightarrow> store)
    \<Rightarrow> purge_report list \<times> cdb \<times> (ident \<Rightarrow> store)" where
  "purge_all resolve tenants_root d ev only dry now s =
     purge_each resolve tenants_root d ev dry now (purge_targets only (fst s)) s"

section \<open>Lemmas\<close>

lemma log_event_frame [simp]:
  "uploads (log_event ev now og act t m db) = uploads db" "jobs (log_event ev now og act t m db) = jobs db"
  "run_records (log_event ev now og act t m db) = run_records db" "orgs (log_event ev now og act t m db) = orgs db"
  by (auto simp: log_event_def record_event_def split: sum.split)

lemma fold_log_frame [simp]:
  "uploads (fold (\<lambda>u. log_event ev now og act (t u) (m u)) us db) = uploads db"
  "jobs (fold (\<lambda>u. log_event ev now og act (t u) (m u)) us db) = jobs db"
  "run_records (fold (\<lambda>u. log_event ev now og act (t u) (m u)) us db) = run_records db"
  by (induction us arbitrary: db) simp_all

lemma mark_purged_frame [simp]:
  "uploads (mark_purged ev now og clean failed db) = uploads db" "jobs (mark_purged ev now og clean failed db) = jobs db"
  by (simp_all add: mark_purged_def Let_def)

lemma mark_purged_runs:
  "run_records (mark_purged ev now og clean failed db) =
     sql_update (\<lambda>r. rr_id r \<in> set clean) (rr_report_purged_at_update (\<lambda>_. Some now)) (run_records db)"
  by (simp add: mark_purged_def Let_def sql_update_none)

subsection \<open>Files\<close>

lemma unlink_uploads_fewer: "fewer (snd (unlink_uploads d dir dry ns fs)) fs"
proof (induction ns arbitrary: fs)
  case (Cons n ns)
  then show ?case using fewer_trans unlink_inside_fewer by (fastforce simp: case_prod_beta Let_def)
qed simp

lemma unlink_uploads_length: "length (fst (unlink_uploads d dir dry ns fs)) = length ns"
  by (induction ns arbitrary: fs) (simp_all add: case_prod_beta Let_def)

lemma unlink_uploads_scope:
  "snd (unlink_uploads d dir dry ns fs) p \<noteq> fs p \<Longrightarrow> \<exists>base. dk_resolve d (At dir) = Some base \<and> prefix base p"
proof (induction ns arbitrary: fs)
  case (Cons n ns)
  let ?fs1 = "snd (unlink_inside d dir dry (Under dir n) fs)"
  have step: "snd (unlink_uploads d dir dry (n # ns) fs) p = snd (unlink_uploads d dir dry ns ?fs1) p"
    by (simp add: case_prod_beta Let_def)
  show ?case
  proof (cases "snd (unlink_uploads d dir dry ns ?fs1) p = ?fs1 p")
    case True
    then show ?thesis using Cons.prems step unlink_inside_scope by metis
  qed (rule Cons.IH)
qed simp

lemma purge_path_fewer: "fewer (snd (purge_path d dir dry raw fs)) fs"
  by (auto simp: purge_path_def unlink_inside_fewer split: sum.split option.split)

lemma purge_path_scope:
  "snd (purge_path d dir dry raw fs) p \<noteq> fs p \<Longrightarrow> \<exists>base. dk_resolve d (At dir) = Some base \<and> prefix base p"
  by (auto simp: purge_path_def split: sum.splits option.splits dest: unlink_inside_scope)

lemma purge_path_dry: "snd (purge_path d dir True raw fs) = fs"
  by (auto simp: purge_path_def unlink_inside_dry split: sum.split option.split)

text \<open>Unless the removal failed, the file that was to be found at the start is gone.\<close>

lemma purge_path_gone:
  assumes ok: "disk_ok d" and res: "fst (purge_path d dir False raw fs) \<noteq> UnlinkFailed" and less: "fewer fs fs0"
    and found: "resolve_report d fs0 dir raw False = Inr (Some p)"
  shows "snd (purge_path d dir False raw fs) p = None"
proof (cases "fs p = None")
  case True
  then show ?thesis using purge_path_fewer unfolding fewer_def by metis
next
  case False
  from resolve_report_raising [OF resolve_report_fewer [OF less False found]]
  have now: "resolve_report d fs dir raw True = Inr (Some p)" .
  from resolve_report_Some [OF now] obtain base l where "dk_resolve d (At dir) = Some base" "prefix base p" "dk_resolve d l = Some p"
    by metis
  moreover from this have "dk_resolve d (At p) = Some p" using ok by (auto simp: disk_ok_def)
  ultimately show ?thesis using res unfolding purge_path_def now by (auto intro: unlink_inside_gone)
qed

lemma purge_paths_fewer: "fewer (snd (purge_paths d dir dry raws fs)) fs"
proof (induction raws arbitrary: fs)
  case (Cons raw raws)
  then show ?case using fewer_trans purge_path_fewer by (fastforce simp: case_prod_beta Let_def)
qed simp

lemma purge_paths_scope:
  "snd (purge_paths d dir dry raws fs) p \<noteq> fs p \<Longrightarrow> \<exists>base. dk_resolve d (At dir) = Some base \<and> prefix base p"
proof (induction raws arbitrary: fs)
  case (Cons raw raws)
  let ?fs1 = "snd (purge_path d dir dry raw fs)"
  have step: "snd (purge_paths d dir dry (raw # raws) fs) p = snd (purge_paths d dir dry raws ?fs1) p"
    by (simp add: case_prod_beta Let_def)
  show ?case
  proof (cases "snd (purge_paths d dir dry raws ?fs1) p = ?fs1 p")
    case True
    then show ?thesis using Cons.prems step purge_path_scope by metis
  qed (rule Cons.IH)
qed simp

lemma purge_paths_dry: "snd (purge_paths d dir True raws fs) = fs"
  by (induction raws arbitrary: fs) (simp_all add: case_prod_beta Let_def purge_path_dry)

lemma purge_paths_gone:
  assumes ok: "disk_ok d" and res: "UnlinkFailed \<notin> set (fst (purge_paths d dir False raws fs))" and less: "fewer fs fs0"
    and raw: "raw \<in> set raws" and found: "resolve_report d fs0 dir raw False = Inr (Some p)"
  shows "snd (purge_paths d dir False raws fs) p = None"
  using res less raw
proof (induction raws arbitrary: fs)
  case (Cons r raws)
  let ?fs1 = "snd (purge_path d dir False r fs)"
  have less1: "fewer ?fs1 fs0" using purge_path_fewer Cons.prems(2) by (rule fewer_trans)
  have res1: "fst (purge_path d dir False r fs) \<noteq> UnlinkFailed" "UnlinkFailed \<notin> set (fst (purge_paths d dir False raws ?fs1))"
    using Cons.prems(1) by (auto simp: case_prod_beta Let_def)
  have step: "snd (purge_paths d dir False (r # raws) fs) p = snd (purge_paths d dir False raws ?fs1) p"
    by (simp add: case_prod_beta Let_def)
  show ?case
  proof (cases "raw = r")
    case True
    then have "?fs1 p = None" using purge_path_gone [OF ok res1(1) Cons.prems(2)] found by simp
    then show ?thesis using purge_paths_fewer unfolding step fewer_def by metis
  next
    case False
    then show ?thesis using Cons.IH [OF res1(2) less1] Cons.prems(3) step by simp
  qed
qed simp

lemma purge_runs_fewer: "fewer (snd (purge_runs d dir dry rows ks fs)) fs"
proof (induction ks arbitrary: fs)
  case (Cons k ks)
  then show ?case using fewer_trans purge_paths_fewer by (fastforce simp: case_prod_beta Let_def)
qed simp

lemma purge_runs_scope:
  "snd (purge_runs d dir dry rows ks fs) p \<noteq> fs p \<Longrightarrow> \<exists>base. dk_resolve d (At dir) = Some base \<and> prefix base p"
proof (induction ks arbitrary: fs)
  case (Cons k ks)
  let ?raws = "case sql_first (\<lambda>r. tn_id r = k) rows of None \<Rightarrow> [] | Some row \<Rightarrow> report_paths row"
  let ?fs1 = "snd (purge_paths d dir dry ?raws fs)"
  have step: "snd (purge_runs d dir dry rows (k # ks) fs) p = snd (purge_runs d dir dry rows ks ?fs1) p"
    by (simp add: case_prod_beta Let_def)
  show ?case
  proof (cases "snd (purge_runs d dir dry rows ks ?fs1) p = ?fs1 p")
    case True
    then show ?thesis using Cons.prems step purge_paths_scope by metis
  qed (rule Cons.IH)
qed simp

lemma purge_runs_dry: "snd (purge_runs d dir True rows ks fs) = fs"
  by (induction ks arbitrary: fs) (simp_all add: case_prod_beta Let_def purge_paths_dry)

lemma failed_runs_sub: "set (failed_runs (fst (purge_runs d dir dry rows ks fs))) \<subseteq> set ks"
  by (induction ks arbitrary: fs) (auto simp: case_prod_beta Let_def failed_runs_def)

lemma purge_runs_gone:
  assumes ok: "disk_ok d" and k: "k \<in> set ks" "k \<notin> set (failed_runs (fst (purge_runs d dir False rows ks fs)))" and less: "fewer fs fs0"
    and row: "sql_first (\<lambda>r. tn_id r = k) rows = Some row" "raw \<in> set (report_paths row)"
    and found: "resolve_report d fs0 dir raw False = Inr (Some p)"
  shows "snd (purge_runs d dir False rows ks fs) p = None"
  using k less
proof (induction ks arbitrary: fs)
  case (Cons j ks)
  let ?raws = "case sql_first (\<lambda>r. tn_id r = j) rows of None \<Rightarrow> [] | Some row \<Rightarrow> report_paths row"
  let ?fs1 = "snd (purge_paths d dir False ?raws fs)"
  have less1: "fewer ?fs1 fs0" using purge_paths_fewer Cons.prems(3) by (rule fewer_trans)
  have step: "snd (purge_runs d dir False rows (j # ks) fs) p = snd (purge_runs d dir False rows ks ?fs1) p"
    by (simp add: case_prod_beta Let_def)
  have rest: "k \<notin> set (failed_runs (fst (purge_runs d dir False rows ks ?fs1)))"
    using Cons.prems(2) by (auto simp: case_prod_beta Let_def failed_runs_def split: if_splits)
  show ?case
  proof (cases "k = j")
    case True
    with Cons.prems(2) row(1) have "UnlinkFailed \<notin> set (fst (purge_paths d dir False ?raws fs))"
      by (auto simp: case_prod_beta Let_def failed_runs_def split: if_splits)
    then have "?fs1 p = None" using purge_paths_gone [OF ok _ Cons.prems(3) row(2) found] True row(1) by simp
    then show ?thesis using purge_runs_fewer unfolding step fewer_def by metis
  next
    case False
    then show ?thesis using Cons.IH [OF _ rest less1] Cons.prems(1) step by simp
  qed
qed simp

end
