(* ===== verification/RetentionSafety.thy ===== *)
theory RetentionSafety
  imports Retention
begin

text \<open>
  What retention promises: it removes only what it may, hashes of reports stay checkable, a run marked as purged
  has lost its files, a failed removal is kept for the next pass, and a pass without failures leaves nothing to do.
\<close>

section \<open>Uploads\<close>

lemma in_zip_fst: "(x, y) \<in> set (zip xs ys) \<Longrightarrow> x \<in> set xs"
  by (rule set_zip_leftD)

lemma purge_uploads_cases:
  assumes "purge_uploads d dir ev og dry now db fs = ((n, failed), db', fs')"
  obtains (nothing) "expired_uploads og now db = [] \<or> dry" and "db' = db" and "fs' = fs" and "failed = 0"
  | (removed) clean where "\<not> dry" and "set clean \<subseteq> set (expired_uploads og now db)"
      and "uploads db' = sql_delete (\<lambda>u. up_id u \<in> up_id ` set clean) (uploads db)"
      and "jobs db' = sql_update (\<lambda>j. \<exists>k. j_upload j = Some k \<and> k \<in> up_id ` set clean) (j_upload_update (\<lambda>_. None)) (jobs db)"
      and "run_records db' = run_records db" and "fs' = snd (unlink_uploads d dir False (map up_path (expired_uploads og now db)) fs)"
      and "failed = 0 \<Longrightarrow> set clean = set (expired_uploads og now db)" and "n = length clean"
proof (cases "expired_uploads og now db = [] \<or> dry")
  case True
  then have "db' = db" "fs' = fs" "failed = 0" using assms by (auto simp: purge_uploads_alt Let_def)
  with True show ?thesis by (rule nothing)
next
  case False
  let ?ex = "expired_uploads og now db"
  let ?rs = "fst (unlink_uploads d dir False (map up_path ?ex) fs)"
  let ?clean = "map fst (filter (\<lambda>(u, r). r \<noteq> UnlinkFailed) (zip ?ex ?rs))"
  have len: "length ?rs = length ?ex" by (simp add: unlink_uploads_length)
  have sub: "set ?clean \<subseteq> set ?ex" by (auto dest: in_zip_fst)
  have failed: "failed = rowcount (\<lambda>r. r = UnlinkFailed) ?rs" and n: "n = length ?clean"
    and fs': "fs' = snd (unlink_uploads d dir False (map up_path ?ex) fs)"
    using assms False by (auto simp: purge_uploads_alt Let_def case_prod_beta)
  have all: "set ?clean = set ?ex" if "failed = 0"
  proof -
    have "r \<noteq> UnlinkFailed" if "r \<in> set ?rs" for r using \<open>failed = 0\<close> that unfolding failed rowcount_zero by blast
    then have "filter (\<lambda>(u, r). r \<noteq> UnlinkFailed) (zip ?ex ?rs) = zip ?ex ?rs"
      by (auto simp: filter_id_conv dest: set_zip_rightD)
    then show ?thesis using len by simp
  qed
  show ?thesis
    by (rule removed [of ?clean, OF _ sub _ _ _ fs' all n])
      (use assms False in \<open>auto simp: purge_uploads_alt Let_def case_prod_beta\<close>)
qed

section \<open>The whole pass\<close>

lemma purge_org_cases:
  assumes "purge_org resolve rt d ev og dry now (db, st) = (rep, db', st')"
  obtains (invalid) "db' = db" and "st' = st"
      and "rep = \<lparr>pg_org = o_id og, pg_uploads = 0, pg_reports = 0, pg_files = 0, pg_rows = 0, pg_dry_run = dry, pg_failed = 0\<rparr>"
      and "\<exists>e. for_org resolve rt (o_id og) = Inl e"
  | (valid) paths failed db1 fs1 t where "for_org resolve rt (o_id og) = Inr paths"
      and "purge_uploads d (tp_uploads paths) ev (o_id og) dry now db (sr_files st) = ((pg_uploads rep, failed), db1, fs1)"
      and "purge_store d paths dry (old_runs (o_id og) (now - days (o_retention_days og)) db1) (now - days (o_retention_days og))
        (st\<lparr>sr_files := fs1\<rparr>) = (t, st')"
      and "db' = (let old = old_runs (o_id og) (now - days (o_retention_days og)) db1;
          clean = filter (\<lambda>k. k \<notin> set (tu_failed_runs t)) old
        in if (clean \<noteq> [] \<or> tu_failed_runs t \<noteq> []) \<and> \<not> dry then mark_purged ev now (o_id og) clean (tu_failed_runs t) db1 else db1)"
      and "pg_failed rep = failed + tu_failed t"
proof (cases "for_org resolve rt (o_id og)")
  case (Inl e)
  with assms show ?thesis by (intro invalid) (auto simp: purge_org_def Let_def)
next
  case (Inr paths)
  obtain n failed db1 fs1 where up: "purge_uploads d (tp_uploads paths) ev (o_id og) dry now db (sr_files st) = ((n, failed), db1, fs1)"
    by (metis prod.collapse)
  obtain t st2 where store: "purge_store d paths dry (old_runs (o_id og) (now - days (o_retention_days og)) db1)
      (now - days (o_retention_days og)) (st\<lparr>sr_files := fs1\<rparr>) = (t, st2)" by (metis prod.collapse)
  show ?thesis
    by (rule valid [OF Inr]) (use assms Inr up store in \<open>auto simp: purge_org_def Let_def\<close>)
qed






section \<open>Hashes stay checkable\<close>




section \<open>What a pass may remove\<close>


















section \<open>A marked run has lost its files\<close>

lemma old_runs_records:
  assumes "distinct (map rr_id (run_records db))" and "r \<in> set (run_records db)" and "rr_org r = k" and "rr_created_at r < cutoff"
    and "rr_report_purged_at r = None"
  shows "rr_id r \<in> set (old_runs k cutoff db)"
  using assms by (auto simp: old_runs_def)

lemma purge_store_outcome:
  assumes root: "dk_exists d (tp_root paths)" and out: "purge_store d paths False ks cutoff st = (t, st')"
  defines "targets \<equiv> py_sorted_set (ks @ old_ids cutoff st)"
  shows "tu_failed_runs t = failed_runs (fst (purge_runs d (tp_reports paths) False (sr_runs st) targets (sr_files st)))"
    and "sr_files st' = snd (purge_runs d (tp_reports paths) False (sr_runs st) targets (sr_files st))"
    and "sr_runs st' = sql_delete (\<lambda>r. tn_id r \<in> set targets - set (tu_failed_runs t)) (sr_runs st)"
  using assms
  by (auto simp: purge_store_def purge_tenant_def Let_def case_prod_beta drop_runs_def intro!: arg_cong [where f = "\<lambda>P. sql_delete P (sr_runs st)"])

lemma marked_records:
  "run_records (if (clean \<noteq> [] \<or> failed \<noteq> []) \<and> \<not> False then mark_purged ev now k clean failed db else db) =
     sql_update (\<lambda>x. rr_id x \<in> set clean) (rr_report_purged_at_update (\<lambda>_. Some now)) (run_records db)"
  by (auto simp: mark_purged_runs sql_update_none)

lemma sql_first_delete_none: "(\<And>r. P r \<Longrightarrow> Q r) \<Longrightarrow> sql_first P (sql_delete Q rows) = None"
  by (auto simp: table_simps)

lemma sql_first_delete_same: "(\<And>r. P r \<Longrightarrow> \<not> Q r) \<Longrightarrow> sql_first P (sql_delete Q rows) = sql_first P rows"
  by (induction rows) (auto simp: sql_first_def sql_delete_def)

text \<open>After a real pass every run record that was due is in one of two states. Either it is marked: then each file that a
  download would have sent is gone, the row of the run is gone from the tenant's database, and a download answers 410. Or
  a file could not be removed: then it is not marked and the row stays, so that the next pass tries again.\<close>

theorem due_runs_are_purged_or_kept:
  assumes run: "purge_org resolve rt d ev og False now (db, st) = (rep, db', st')" and valid: "for_org resolve rt (o_id og) = Inr paths"
    and disk: "disk_ok d" "dk_exists d (tp_root paths)" and ids: "distinct (map rr_id (run_records db))"
    and r: "r \<in> set (run_records db)" "rr_org r = o_id og" "rr_created_at r < now - days (o_retention_days og)"
      "rr_report_purged_at r = None"
  shows "\<exists>r' \<in> set (run_records db'). rr_id r' = rr_id r \<and>
    (if rr_report_purged_at r' = Some now
     then tenant_run (rr_id r) st' = None \<and>
       (\<forall>row raw p. tenant_run (rr_id r) st = Some row \<and> raw \<in> set (report_paths row) \<and>
          resolve_report d (sr_files st) (tp_reports paths) raw False = Inr (Some p) \<longrightarrow> sr_files st' p = None) \<and>
       (\<forall>sha fmt. read_report_file sha d (tp_reports paths) (o_id og) (rr_id r) fmt st' db' = Inl (Problem 410 ''report_expired''))
     else r' = r \<and> tenant_run (rr_id r) st' = tenant_run (rr_id r) st)"
  using run
proof (cases rule: purge_org_cases)
  case (valid paths' failed db1 fs1 t)
  then have paths: "paths' = paths" using assms(2) by simp
  let ?cut = "now - days (o_retention_days og)"
  let ?k = "rr_id r"
  have same: "run_records db1 = run_records db" and less: "fewer fs1 (sr_files st)"
    using valid(2) by (cases rule: purge_uploads_cases; simp add: unlink_uploads_fewer)+
  then have old: "old_runs (o_id og) ?cut db1 = old_runs (o_id og) ?cut db" by (simp add: old_runs_def)
  note store = valid(3) [unfolded paths old]
  note out = purge_store_outcome [OF disk(2) store]
  let ?targets = "py_sorted_set (old_runs (o_id og) ?cut db @ old_ids ?cut (st\<lparr>sr_files := fs1\<rparr>))"
  have due: "?k \<in> set (old_runs (o_id og) ?cut db)" by (rule old_runs_records [OF ids r])
  then have target: "?k \<in> set ?targets" by (simp add: py_sorted_set_def)
  let ?clean = "filter (\<lambda>k. k \<notin> set (tu_failed_runs t)) (old_runs (o_id og) ?cut db)"
  have records: "run_records db' = sql_update (\<lambda>x. rr_id x \<in> set ?clean) (rr_report_purged_at_update (\<lambda>_. Some now)) (run_records db)"
    unfolding valid(4) old Let_def by (rule trans [OF marked_records]) (simp add: same)
  show ?thesis
  proof (cases "?k \<in> set (tu_failed_runs t)")
    case True
    then have "r \<in> set (run_records db')" unfolding records using r(1) by (auto simp: table_simps)
    moreover have "tenant_run ?k st' = tenant_run ?k st"
      unfolding tenant_run_def out(3) using True by (subst sql_first_delete_same) auto
    ultimately show ?thesis using r(4) by (intro bexI [of _ r]) auto
  next
    case False
    let ?r' = "r\<lparr>rr_report_purged_at := Some now\<rparr>"
    from due False have clean: "?k \<in> set ?clean" by simp
    have r': "?r' \<in> set (run_records db')" unfolding records using r(1) clean by (auto simp: table_simps)
    have "sr_files st' p = None" if "tenant_run ?k st = Some row" "raw \<in> set (report_paths row)"
      "resolve_report d (sr_files st) (tp_reports paths) raw False = Inr (Some p)" for row raw p
      unfolding out(2) using that target False less
      by (intro purge_runs_gone [OF disk(1) target _ _ _ that(2) that(3)]) (simp_all add: out(1) tenant_run_def)
    moreover have "tenant_run ?k st' = None"
      unfolding tenant_run_def out(3) using target False by (intro sql_first_delete_none) auto
    moreover have "map rr_id (run_records db') = map rr_id (run_records db)" unfolding records by (rule map_sql_update) simp
    then have ids': "distinct (map rr_id (run_records db'))" using ids by simp
    have first: "sql_first (\<lambda>x. rr_id x = ?k \<and> rr_org x = o_id og) (run_records db') = Some ?r'"
    proof (cases "sql_first (\<lambda>x. rr_id x = ?k \<and> rr_org x = o_id og) (run_records db')")
      case None
      then show ?thesis using r' r(2) by (fastforce simp: sql_first_None)
    next
      case (Some x)
      from sql_first_Some [OF Some] have "x = ?r'" using unique_row [OF ids' _ r', of x] by simp
      with Some show ?thesis by simp
    qed
    then have "read_report_file sha d (tp_reports paths) (o_id og) ?k fmt st' db' = Inl (Problem 410 ''report_expired'')" for sha fmt
      by (simp add: read_report_file_def load_run_record_def)
    ultimately show ?thesis using r' by (intro bexI [of _ ?r']) auto
  qed
qed (use valid in simp)

section \<open>Nothing left to do\<close>

lemma failed_runs_zero: "results_of UnlinkFailed outcome = 0 \<Longrightarrow> failed_runs outcome = []"
  by (fastforce simp: results_of_def failed_runs_def rowcount_zero filter_empty_conv)

text \<open>Uploads that stay are as busy as they were.\<close>

lemma busy_after:
  assumes "jobs db' = sql_update (\<lambda>j. \<exists>k. j_upload j = Some k \<and> k \<in> K) (j_upload_update (\<lambda>_. None)) (jobs db)"
    and "i \<notin> K" and "upload_busy og db i"
  shows "upload_busy og db' i"
proof -
  from assms(3) obtain j where j: "j \<in> set (jobs db)" "j_org j = og" "j_status j = Queued \<or> j_status j = Running" "j_upload j = Some i"
    by (auto simp: upload_busy_def list_ex_iff)
  then have "j \<in> set (jobs db')" unfolding assms(1) using assms(2) by (simp add: table_simps)
  with j show ?thesis by (auto simp: upload_busy_def list_ex_iff)
qed

lemma expired_after:
  assumes "uploads db' = sql_delete (\<lambda>u. up_id u \<in> up_id ` set clean) (uploads db)"
    and jobs: "jobs db' = sql_update (\<lambda>j. \<exists>k. j_upload j = Some k \<and> k \<in> up_id ` set clean) (j_upload_update (\<lambda>_. None)) (jobs db)"
    and all: "set clean = set (expired_uploads og now db)"
  shows "expired_uploads og now db' = []"
proof -
  have False if u: "u \<in> set (uploads db')" "up_org u = og" "up_retention_until u < now" "\<not> upload_busy og db' (up_id u)" for u
  proof -
    from u(1) have kept: "u \<in> set (uploads db)" "up_id u \<notin> up_id ` set clean" unfolding assms(1) by (simp_all add: table_simps)
    then have "\<not> upload_busy og db (up_id u)" using busy_after [OF jobs] u(4) by blast
    with u kept(1) have "u \<in> set clean" unfolding all by (simp add: expired_uploads_def)
    with kept(2) show False by blast
  qed
  then show ?thesis unfolding expired_uploads_def filter_empty_conv by blast
qed

text \<open>A pass without failures leaves nothing to do: repeated at the same moment it reports nothing removed and
  changes neither the database nor the store.\<close>

theorem retention_is_idempotent:
  assumes run: "purge_org resolve rt d ev og False now (db, st) = (rep, db', st')" and ok: "pg_failed rep = 0"
  shows "purge_org resolve rt d ev' og False now (db', st') =
    (\<lparr>pg_org = o_id og, pg_uploads = 0, pg_reports = 0, pg_files = 0, pg_rows = 0, pg_dry_run = False, pg_failed = 0\<rparr>, db', st')"
  using run
proof (cases rule: purge_org_cases)
  case invalid
  then show ?thesis by (auto simp: purge_org_def Let_def)
next
  case (valid paths failed db1 fs1 t)
  let ?cut = "now - days (o_retention_days og)"
  let ?old = "old_runs (o_id og) ?cut db1"
  from ok valid(5) have none: "failed = 0" "tu_failed t = 0" by simp_all
  have st': "st' = snd (purge_store d paths False ?old ?cut (st\<lparr>sr_files := fs1\<rparr>))" using valid(3) by simp
  have noruns: "tu_failed_runs t = []"
    using valid(3) none(2) by (auto simp: purge_store_def purge_tenant_def Let_def case_prod_beta failed_runs_zero split: if_splits)
  have frame: "uploads db' = uploads db1" "jobs db' = jobs db1" unfolding valid(4) by (simp_all add: Let_def)
  have ups: "expired_uploads (o_id og) now db' = []"
  proof -
    from valid(2) show ?thesis
    proof (cases rule: purge_uploads_cases)
      case nothing
      then show ?thesis using frame by (simp add: expired_uploads_def upload_busy_def)
    next
      case (removed clean)
      then show ?thesis using removed(7) [OF none(1)] frame by (intro expired_after) simp_all
    qed
  qed
  have records: "run_records db' = sql_update (\<lambda>x. rr_id x \<in> set ?old) (rr_report_purged_at_update (\<lambda>_. Some now)) (run_records db1)"
    unfolding valid(4) noruns Let_def by (rule trans [OF marked_records]) simp
  have runs: "old_runs (o_id og) ?cut db' = []"
    unfolding old_runs_def [of _ _ db'] records by (auto simp: filter_empty_conv table_simps old_runs_def)
  have store: "purge_store d paths False [] ?cut st' = (\<lparr>tu_files = 0, tu_rows = 0, tu_failed_runs = [], tu_failed = 0\<rparr>, st')"
  proof (cases "dk_exists d (tp_root paths)")
    case True
    have "old_ids ?cut st' = []"
      using purge_store_outcome(3) [OF True valid(3)] unfolding noruns
      by (auto simp: old_ids_def filter_empty_conv table_simps py_sorted_set_def)
    with True show ?thesis
      by (simp add: purge_store_def purge_tenant_def py_sorted_set_def results_of_def failed_runs_def drop_runs_def sql_delete_def
          rowcount_def)
  next
    case False
    then show ?thesis by (simp add: purge_store_def)
  qed
  have up2: "purge_uploads d (tp_uploads paths) ev' (o_id og) False now db' (sr_files st') = ((0, 0), db', sr_files st')"
    by (simp add: purge_uploads_alt ups)
  show ?thesis using valid(1) up2 runs store by (simp add: purge_org_def Let_def)
qed

section \<open>Examples\<close>

definition demo_tenant :: store where
  "demo_tenant = demo_store\<lparr>sr_files := (\<lambda>p. if p = [''org'', ''reports'', ''r1.html''] then Some ''body'' else None)\<rparr>"

abbreviation demo_purge :: "stamp \<Rightarrow> cdb \<times> store \<Rightarrow> purge_report \<times> cdb \<times> store" where
  "demo_purge now s \<equiv> purge_org (\<lambda>p. p) [] demo_disk (\<lambda>n. []) demo_org False now s"

definition demo_tenant_paths :: tenant_paths where "demo_tenant_paths = \<lparr>tp_org_id = ''org'', tp_root = [''org'']\<rparr>"

lemma demo_for_org: "for_org (\<lambda>p. p) [] (o_id demo_org) = Inr demo_tenant_paths"
  by (simp add: for_org_def org_id_pattern_def org_id_text_def is_urlsafe_def is_ascii_alnum_def is_lower_alpha_def
      is_digit_def demo_org_def demo_tenant_paths_def)

lemma demo_resolve: "resolve_report demo_disk fs [''org'', ''reports''] (Some ''/old/r1.html'') raising =
    (if fs [''org'', ''reports'', ''r1.html''] = None then Inr None else Inr (Some [''org'', ''reports'', ''r1.html'']))"
  by (simp add: resolve_report_def demo_disk_def candidates_def demo_file_name)

text \<open>One file is removed, whatever the reason the run is due for.\<close>

lemma demo_purge_runs: "purge_runs demo_disk [''org'', ''reports''] False [demo_tenant_run] [''r1''] (sr_files demo_tenant) =
    ([(''r1'', [Missing, Missing, Removed])], \<lambda>p. None)"
proof -
  have "report_paths demo_tenant_run = [None, None, Some ''/old/r1.html'']" "tn_id demo_tenant_run = ''r1''"
    by (simp_all add: report_paths_def demo_tenant_run_def)
  moreover have "purge_path demo_disk [''org'', ''reports''] False None fs = (Missing, fs)" for fs
    by (simp add: purge_path_def resolve_report_def)
  moreover have "purge_path demo_disk [''org'', ''reports''] False (Some ''/old/r1.html'') (sr_files demo_tenant) = (Removed, \<lambda>p. None)"
    unfolding purge_path_def demo_resolve by (auto simp: demo_tenant_def unlink_inside_def demo_disk_def)
  ultimately show ?thesis by (simp add: sql_first_def)
qed

definition demo_purged :: store where "demo_purged = \<lparr>sr_runs = [], sr_rows = [], sr_files = (\<lambda>p. None)\<rparr>"

lemma demo_purge_store:
  assumes "ks = [''r1''] \<or> ks = [] \<and> 6 < cutoff"
  shows "purge_store demo_disk demo_tenant_paths False ks cutoff demo_tenant =
    (\<lparr>tu_files = 1, tu_rows = 1, tu_failed_runs = [], tu_failed = 0\<rparr>, demo_purged)"
proof -
  have runs: "sr_runs demo_tenant = [demo_tenant_run]" "sr_rows demo_tenant = [(''cs2_matches'', ''r1'')]" "tn_id demo_tenant_run = ''r1''"
    by (simp_all add: demo_tenant_def demo_store_def demo_tenant_run_def)
  have "py_sorted_set (ks @ old_ids cutoff demo_tenant) = [''r1'']"
    using assms by (auto simp: old_ids_def runs py_sorted_set_def demo_tenant_run_def)
  moreover have "failed_runs [(''r1'', [Missing, Missing, Removed])] = []" by (simp add: failed_runs_def)
  moreover have "tp_reports demo_tenant_paths = [''org'', ''reports'']" "dk_exists demo_disk (tp_root demo_tenant_paths)"
    by (simp_all add: tp_reports_def demo_tenant_paths_def demo_disk_def)
  ultimately show ?thesis
    by (simp add: purge_store_def purge_tenant_def runs demo_purge_runs results_of_def drop_runs_def
        sql_delete_def RUN_TABLES_def demo_purged_def del: purge_runs.simps)
qed

lemma demo_old_runs: "old_runs ''org'' cutoff demo_reports_db = (if 7 < cutoff then [''r1''] else [])"
  by (simp add: old_runs_def demo_reports_db_def demo_run_def)

lemma demo_no_uploads: "purge_uploads d dir ev k dry now demo_reports_db fs = ((0, 0), demo_reports_db, fs)"
  by (simp add: purge_uploads_alt expired_uploads_def demo_reports_db_def demo_app_defs)

lemma demo_purge_due:
  assumes "7 < now - days 90"
  shows "\<exists>db'. demo_purge now (demo_reports_db, demo_tenant) =
    (\<lparr>pg_org = ''org'', pg_uploads = 0, pg_reports = 1, pg_files = 1, pg_rows = 1, pg_dry_run = False, pg_failed = 0\<rparr>, db', demo_purged)"
proof -
  have org: "o_id demo_org = ''org''" "o_retention_days demo_org = 90" by (simp_all add: demo_org_def)
  have "old_runs ''org'' (now - days 90) demo_reports_db = [''r1'']" using assms by (simp add: demo_old_runs)
  moreover have "demo_tenant\<lparr>sr_files := sr_files demo_tenant\<rparr> = demo_tenant" by simp
  moreover note demo_purge_store [of "[''r1'']" "now - days 90"]
  ultimately show ?thesis by (simp add: purge_org_def demo_for_org [unfolded org] org demo_no_uploads)
qed


theorem due_runs_are_purged_or_kept_witness:
  "\<exists>rep db' st' r'. demo_purge (days 90 + 9) (demo_reports_db, demo_tenant) = (rep, db', st') \<and> r' \<in> set (run_records db') \<and>
     rr_report_purged_at r' = Some (days 90 + 9) \<and>
     read_report_file (\<lambda>s. s) demo_disk [''org'', ''reports''] ''org'' ''r1'' ''html'' st' db' = Inl (Problem 410 ''report_expired'')"
proof -
  obtain db' where run: "demo_purge (days 90 + 9) (demo_reports_db, demo_tenant) =
    (\<lparr>pg_org = ''org'', pg_uploads = 0, pg_reports = 1, pg_files = 1, pg_rows = 1, pg_dry_run = False, pg_failed = 0\<rparr>, db', demo_purged)"
    using demo_purge_due [of "days 90 + 9"] by auto
  have disk: "disk_ok demo_disk" by (simp add: disk_ok_def demo_disk_def)
  have there: "dk_exists demo_disk (tp_root demo_tenant_paths)" by (simp add: demo_disk_def)
  have row: "tenant_run ''r1'' demo_tenant = Some demo_tenant_run" "tenant_run ''r1'' demo_purged = None"
    by (simp_all add: tenant_run_def demo_tenant_def demo_store_def demo_purged_def sql_first_def demo_tenant_run_def)
  have "distinct (map rr_id (run_records demo_reports_db))" "demo_run \<in> set (run_records demo_reports_db)"
    "rr_org demo_run = o_id demo_org" "rr_created_at demo_run < days 90 + 9 - days (o_retention_days demo_org)"
    "rr_report_purged_at demo_run = None"
    by (simp_all add: demo_reports_db_def demo_run_def demo_org_def)
  from due_runs_are_purged_or_kept [OF run demo_for_org disk there this] row
  obtain r' where "r' \<in> set (run_records db')" "rr_report_purged_at r' = Some (days 90 + 9)"
    "read_report_file (\<lambda>s. s) demo_disk (tp_reports demo_tenant_paths) (o_id demo_org) ''r1'' ''html'' demo_purged db' =
      Inl (Problem 410 ''report_expired'')"
    by (auto simp: demo_run_def split: if_splits)
  with run show ?thesis by (auto simp: tp_reports_def demo_tenant_paths_def demo_org_def)
qed

theorem retention_is_idempotent_witness:
  "\<exists>rep db' st'. demo_purge (days 90 + 9) (demo_reports_db, demo_tenant) = (rep, db', st') \<and> pg_reports rep = 1 \<and>
     snd (demo_purge (days 90 + 9) (db', st')) = (db', st')"
proof -
  obtain db' where run: "demo_purge (days 90 + 9) (demo_reports_db, demo_tenant) =
    (\<lparr>pg_org = ''org'', pg_uploads = 0, pg_reports = 1, pg_files = 1, pg_rows = 1, pg_dry_run = False, pg_failed = 0\<rparr>, db', demo_purged)"
    using demo_purge_due [of "days 90 + 9"] by auto
  then have "snd (demo_purge (days 90 + 9) (db', demo_purged)) = (db', demo_purged)"
    by (subst retention_is_idempotent [OF run]) simp_all
  with run show ?thesis by auto
qed

text \<open>A run that started before the cutoff and was recorded after it: the pass removes its files but does not mark it,
  so a download answers that the report is not found instead of expired, until a later pass marks it.\<close>

lemma early_start_loses_files:
  "\<exists>rep db'. demo_purge (days 90 + 7) (demo_reports_db, demo_tenant) = (rep, db', demo_purged) \<and> pg_files rep = 1 \<and>
     pg_reports rep = 0 \<and> run_records db' = [demo_run] \<and>
     read_report_file (\<lambda>s. s) demo_disk [''org'', ''reports''] ''org'' ''r1'' ''html'' demo_purged db' = Inl not_found"
proof -
  have org: "o_id demo_org = ''org''" "o_retention_days demo_org = 90" by (simp_all add: demo_org_def)
  have "old_runs ''org'' 7 demo_reports_db = []" by (simp add: demo_old_runs)
  moreover have "demo_tenant\<lparr>sr_files := sr_files demo_tenant\<rparr> = demo_tenant" by simp
  moreover note demo_purge_store [of "[]" 7]
  ultimately have "\<exists>rep. demo_purge (days 90 + 7) (demo_reports_db, demo_tenant) = (rep, demo_reports_db, demo_purged) \<and> pg_files rep = 1 \<and>
      pg_reports rep = 0"
    by (simp add: purge_org_def demo_for_org [unfolded org] org demo_no_uploads)
  moreover have "run_records demo_reports_db = [demo_run]" by (simp add: demo_reports_db_def)
  moreover have "read_report_file (\<lambda>s. s) demo_disk [''org'', ''reports''] ''org'' ''r1'' ''html'' demo_purged demo_reports_db = Inl not_found"
    by (simp add: read_report_file_def load_run_record_def demo_reports_db_def demo_run_def sql_first_def report_sha256_def
        tenant_run_def demo_purged_def stored_body_def resolve_report_def)
  ultimately show ?thesis by blast
qed

end
