(* ===== verification/Restore.thy ===== *)
theory Restore
  imports Reminders
begin

text \<open>
  Offline tools for a restored control database, run with the API stopped: the quarantine of restored credentials
  (\<^verbatim>\<open>app/control/restore.py\<close>) and corrections of memberships (\<^verbatim>\<open>app/control/restore_members.py\<close>). Each runs in
  one transaction; \<open>ev\<close> supplies the identifiers of its audit events.
\<close>

section \<open>Quarantine\<close>

text \<open>One entry of \<open>operations\<close>: the rows it affects and the statement on its table.\<close>

record quarantine_op =
  qo_category :: string
  qo_table :: string
  qo_count :: "cdb \<Rightarrow> nat"
  qo_apply :: "cdb \<Rightarrow> cdb"

definition open_code :: "oauth_code \<Rightarrow> bool" where
  "open_code c = (ac_status c = CPending \<or> ac_status c = CApproved)"

definition basic_ops :: "stamp \<Rightarrow> quarantine_op list" where
  "basic_ops now =
    [\<lparr>qo_category = ''sessions_deleted'', qo_table = ''sessions'', qo_count = (\<lambda>db. length (sessions db)),
        qo_apply = (\<lambda>db. db\<lparr>sessions := []\<rparr>)\<rparr>,
     \<lparr>qo_category = ''magic_links_consumed'', qo_table = ''magic_links'',
        qo_count = (\<lambda>db. rowcount (\<lambda>l. ml_used_at l = None) (magic_links db)),
        qo_apply = (\<lambda>db. db\<lparr>magic_links := sql_update (\<lambda>l. ml_used_at l = None) (ml_used_at_update (\<lambda>_. Some now)) (magic_links db)\<rparr>)\<rparr>,
     \<lparr>qo_category = ''oauth_codes_expired'', qo_table = ''oauth_codes'', qo_count = (\<lambda>db. rowcount open_code (oauth_codes db)),
        qo_apply = (\<lambda>db. db\<lparr>oauth_codes := sql_update open_code (ac_status_update (\<lambda>_. CExpired)) (oauth_codes db)\<rparr>)\<rparr>]"

definition quarantined_grant :: "stamp \<Rightarrow> oauth_grant \<Rightarrow> oauth_grant" where
  "quarantined_grant now g = g\<lparr>g_revoked_at := Some now, g_revocation_reason := Some ''restore_quarantine''\<rparr>"

definition quarantined_job :: "stamp \<Rightarrow> job \<Rightarrow> job" where
  "quarantined_job now j = j\<lparr>j_status := Cancelled, j_error_code := Some ''restore_quarantine'', j_finished_at := Some now\<rparr>"

definition revoke_ops :: "stamp \<Rightarrow> quarantine_op list" where
  "revoke_ops now =
    [\<lparr>qo_category = ''api_keys_revoked'', qo_table = ''api_keys'', qo_count = (\<lambda>db. rowcount (\<lambda>k. k_revoked_at k = None) (api_keys db)),
        qo_apply = (\<lambda>db. db\<lparr>api_keys := sql_update (\<lambda>k. k_revoked_at k = None) (k_revoked_at_update (\<lambda>_. Some now)) (api_keys db)\<rparr>)\<rparr>,
     \<lparr>qo_category = ''oauth_grants_revoked'', qo_table = ''oauth_grants'',
        qo_count = (\<lambda>db. rowcount (\<lambda>g. g_revoked_at g = None) (oauth_grants db)),
        qo_apply = (\<lambda>db. db\<lparr>oauth_grants := sql_update (\<lambda>g. g_revoked_at g = None) (quarantined_grant now) (oauth_grants db)\<rparr>)\<rparr>,
     \<lparr>qo_category = ''oauth_tokens_revoked'', qo_table = ''oauth_tokens'',
        qo_count = (\<lambda>db. rowcount (\<lambda>t. t_revoked_at t = None) (oauth_tokens db)),
        qo_apply = (\<lambda>db. db\<lparr>oauth_tokens := sql_update (\<lambda>t. t_revoked_at t = None) (t_revoked_at_update (\<lambda>_. Some now)) (oauth_tokens db)\<rparr>)\<rparr>,
     \<lparr>qo_category = ''oauth_clients_revoked'', qo_table = ''oauth_clients'',
        qo_count = (\<lambda>db. rowcount (\<lambda>c. oc_revoked_at c = None) (oauth_clients db)),
        qo_apply = (\<lambda>db. db\<lparr>oauth_clients := sql_update (\<lambda>c. oc_revoked_at c = None) (oc_revoked_at_update (\<lambda>_. Some now)) (oauth_clients db)\<rparr>)\<rparr>,
     \<lparr>qo_category = ''invitations_deleted'', qo_table = ''invitations'',
        qo_count = (\<lambda>db. rowcount (\<lambda>i. i_accepted_at i = None) (invitations db)),
        qo_apply = (\<lambda>db. db\<lparr>invitations := sql_delete (\<lambda>i. i_accepted_at i = None) (invitations db)\<rparr>)\<rparr>,
     \<lparr>qo_category = ''webhooks_disabled'', qo_table = ''webhooks'', qo_count = (\<lambda>db. rowcount w_active (webhooks db)),
        qo_apply = (\<lambda>db. db\<lparr>webhooks := sql_update w_active (w_active_update (\<lambda>_. False)) (webhooks db)\<rparr>)\<rparr>,
     \<lparr>qo_category = ''reminders_disabled'', qo_table = ''org_schedules'', qo_count = (\<lambda>db. rowcount os_reminder_enabled (org_schedules db)),
        qo_apply = (\<lambda>db. db\<lparr>org_schedules := sql_update os_reminder_enabled
          (\<lambda>s. s\<lparr>os_reminder_enabled := False, os_next_reminder_at := None\<rparr>) (org_schedules db)\<rparr>)\<rparr>,
     \<lparr>qo_category = ''schedule_webhooks_disabled'', qo_table = ''org_schedules'',
        qo_count = (\<lambda>db. rowcount (\<lambda>s. os_webhook_url s \<noteq> None) (org_schedules db)),
        qo_apply = (\<lambda>db. db\<lparr>org_schedules := sql_update (\<lambda>s. os_webhook_url s \<noteq> None) (os_webhook_url_update (\<lambda>_. None)) (org_schedules db)\<rparr>)\<rparr>,
     \<lparr>qo_category = ''jobs_cancelled'', qo_table = ''jobs'', qo_count = (\<lambda>db. rowcount (\<lambda>j. j_status j = Queued) (jobs db)),
        qo_apply = (\<lambda>db. db\<lparr>jobs := sql_update (\<lambda>j. j_status j = Queued) (quarantined_job now) (jobs db)\<rparr>)\<rparr>,
     \<lparr>qo_category = ''run_notifications_disabled'', qo_table = ''org_schedules'',
        qo_count = (\<lambda>db. rowcount os_notify_on_finish (org_schedules db)),
        qo_apply = (\<lambda>db. db\<lparr>org_schedules := sql_update os_notify_on_finish (os_notify_on_finish_update (\<lambda>_. False)) (org_schedules db)\<rparr>)\<rparr>,
     \<lparr>qo_category = ''auto_runs_disabled'', qo_table = ''org_schedules'', qo_count = (\<lambda>db. rowcount os_auto_run (org_schedules db)),
        qo_apply = (\<lambda>db. db\<lparr>org_schedules := sql_update os_auto_run (os_auto_run_update (\<lambda>_. False)) (org_schedules db)\<rparr>)\<rparr>]"

fun run_ops ::
  "(nat \<Rightarrow> ident) \<Rightarrow> stamp \<Rightarrow> bool \<Rightarrow> quarantine_op list \<Rightarrow> (string \<times> nat) list \<times> cdb \<Rightarrow> exc + (string \<times> nat) list \<times> cdb" where
  "run_ops ev now dry [] (counts, db) = Inr (counts, db)"
| "run_ops ev now dry (q # qs) (counts, db) =
     (let n = qo_count q db; db1 = (if dry then db else qo_apply q db)
      in bind_res (if n \<noteq> 0 \<and> \<not> dry
           then record_event (ev (length (audit_events db1))) now None ''system'' None (''restore.'' @ qo_category q)
             (Some (qo_table q)) [(''count'', PInt (int n))] None db1
           else Inr db1)
         (\<lambda>db2. run_ops ev now dry qs (counts @ [(qo_category q, n)], db2)))"

text \<open>The transaction: an exception would roll everything back.\<close>

definition restore_quarantine :: "(nat \<Rightarrow> ident) \<Rightarrow> stamp \<Rightarrow> bool \<Rightarrow> bool \<Rightarrow> (string \<times> nat) list handler" where
  "restore_quarantine ev now dry revoke_all db =
     (case run_ops ev now dry (basic_ops now @ (if revoke_all then revoke_ops now else [])) ([], db) of
        Inl e \<Rightarrow> (Inl e, db) | Inr (counts, db1) \<Rightarrow> (Inr counts, db1))"

section \<open>Memberships\<close>

definition ROLE_RANKS :: "(string \<times> nat) list" where
  "ROLE_RANKS = [(''member'', 0), (''admin'', 1), (''owner'', 2)]"

text \<open>\<open>[0-7][0-9A-HJKMNP-TV-Z]{25}\<close>, all of it.\<close>

definition ulid_char :: "char \<Rightarrow> bool" where
  "ulid_char c = (is_digit c \<or> (is_upper_alpha c \<and> c \<notin> set ''ILOU''))"

definition is_ulid :: "string \<Rightarrow> bool" where
  "is_ulid s = (length s = 26 \<and> list_all ulid_char s \<and> (of_char (hd s) :: nat) \<le> of_char (CHR ''7''))"

definition restore_error :: exc where "restore_error = PyRaise ''RestoreMembersError''"

definition valid_restore_id :: "bool \<Rightarrow> string \<Rightarrow> bool" where
  "valid_restore_id org v = (org \<and> v = ''default'' \<or> is_ulid v)"

record member_row =
  mr_org :: ident
  mr_user :: ident
  mr_role :: string
  mr_created_at :: stamp
  mr_user_created_at :: stamp
  mr_email :: "string option"
  mr_action :: "string option"

definition member_row_of :: "bool \<Rightarrow> membership \<times> user \<Rightarrow> exc + member_row" where
  "member_row_of show_emails mu =
     (let (m, u) = mu in
      if \<not> valid_restore_id True (m_org m) \<or> \<not> valid_restore_id False (u_id u) \<or> map_of ROLE_RANKS (m_role m) = None
      then Inl restore_error
      else Inr \<lparr>mr_org = m_org m, mr_user = u_id u, mr_role = m_role m, mr_created_at = m_created_at m,
        mr_user_created_at = u_created_at u, mr_email = (if show_emails then Some (u_email u) else None), mr_action = None\<rparr>)"

fun member_rows :: "bool \<Rightarrow> (membership \<times> user) list \<Rightarrow> exc + member_row list" where
  "member_rows show_emails [] = Inr []"
| "member_rows show_emails (mu # mus) =
     bind_res (member_row_of show_emails mu) (\<lambda>r. bind_res (member_rows show_emails mus) (\<lambda>rs. Inr (r # rs)))"

definition selected_members :: "ident option \<Rightarrow> ident option \<Rightarrow> cdb \<Rightarrow> (membership \<times> user) list" where
  "selected_members org_id user_id db =
     concat (map (\<lambda>m. map (\<lambda>u. (m, u)) (filter (\<lambda>u. u_id u = m_user m) (users db)))
       (sort_key m_org (sort_key m_user (filter (\<lambda>m. (org_id = None \<or> org_id = Some (m_org m)) \<and>
          (user_id = None \<or> user_id = Some (m_user m))) (memberships db)))))"

record members_request =
  mq_org :: "ident option"
  mq_user :: "ident option"
  mq_remove :: bool
  mq_demote_to :: "string option"
  mq_show_emails :: bool

definition members_request_ok :: "members_request \<Rightarrow> bool" where
  "members_request_ok q =
     (\<not> (mq_remove q \<and> mq_demote_to q \<noteq> None) \<and>
      (mq_remove q \<or> mq_demote_to q \<noteq> None \<longrightarrow> mq_org q \<noteq> None \<and> mq_user q \<noteq> None) \<and>
      (case mq_demote_to q of None \<Rightarrow> True | Some r \<Rightarrow> r \<in> {''admin'', ''member''}) \<and>
      (case mq_org q of None \<Rightarrow> True | Some k \<Rightarrow> valid_restore_id True k) \<and>
      (case mq_user q of None \<Rightarrow> True | Some k \<Rightarrow> valid_restore_id False k))"

text \<open>One correction of a membership: what is applied, the action, the role in the output.\<close>

definition correct_member :: "members_request \<Rightarrow> membership \<Rightarrow> cdb \<Rightarrow> exc + (string \<times> string) \<times> bool \<times> cdb" where
  "correct_member q m db =
     (case mq_demote_to q of
        None \<Rightarrow> Inr ((''removed'', m_role m), delete_member_guarded (m_org m) (m_user m) db)
      | Some r \<Rightarrow>
          if the (map_of ROLE_RANKS r) \<ge> the (map_of ROLE_RANKS (m_role m)) then Inl restore_error
          else Inr ((''demoted'', r), set_member_role_guarded (m_org m) (m_user m) r db))"

definition restore_members :: "ident \<Rightarrow> stamp \<Rightarrow> members_request \<Rightarrow> member_row list handler" where
  "restore_members ev now q db =
     (if \<not> members_request_ok q then (Inl restore_error, db)
      else
        let rows = selected_members (mq_org q) (mq_user q) db in
        if \<not> (mq_remove q \<or> mq_demote_to q \<noteq> None) then (member_rows (mq_show_emails q) rows, db)
        else (case rows of
            [(m, u)] \<Rightarrow>
              (case member_row_of False (m, u) of
                 Inl e \<Rightarrow> (Inl e, db)
               | Inr row \<Rightarrow>
                   (case correct_member q m db of
                      Inl e \<Rightarrow> (Inl e, db)
                    | Inr ((action, role), applied, db1) \<Rightarrow>
                        if \<not> applied then (Inl restore_error, db)
                        else with_event db
                          (record_event ev now (Some (m_org m)) ''system'' None (''restore.member_'' @ action)
                             (Some (''user:'' @ m_user m)) [(''role'', PStr role)] None db1)
                          (\<lambda>db2. (Inr [row\<lparr>mr_role := role, mr_action := Some action\<rparr>], db2))))
          | _ \<Rightarrow> (Inl restore_error, db)))"

end
