(* ===== verification/OrgNames.thy ===== *)
theory OrgNames
  imports PyText
begin

text \<open>
  The name of an organization in mails and chat messages (\<open>sanitize_org_name\<close> of \<^verbatim>\<open>app/control/mailer.py\<close>): the two regular
  expressions as matchers at a position, \<open>re.sub\<close> from left to right, and the clean-up of the text. Character classes are those
  of \<open>re\<close> for code points up to 255.
\<close>

section \<open>Character classes\<close>

definition is_letter :: "char \<Rightarrow> bool" where "is_letter c = (is_lower_alpha c \<or> is_upper_alpha c)"

text \<open>\<open>\w\<close>.\<close>

definition word_char :: "char \<Rightarrow> bool" where
  "word_char c =
     (let n = (of_char c :: nat) in is_ascii_alnum c \<or> c = CHR ''_'' \<or> n \<in> {170, 178, 179, 181, 185, 186, 188, 189, 190} \<or>
        192 \<le> n \<and> n \<noteq> 215 \<and> n \<noteq> 247)"

definition label_char :: "char \<Rightarrow> bool" where "label_char c = (word_char c \<or> c = CHR ''-'')"
definition scheme_char :: "char \<Rightarrow> bool" where "scheme_char c = (is_letter c \<or> is_digit c \<or> c \<in> set ''+.-'')"

text \<open>\<open>\b\<close> between the character before (if any) and a text.\<close>

definition boundary :: "char option \<Rightarrow> string \<Rightarrow> bool" where
  "boundary prev s = ((case prev of None \<Rightarrow> False | Some c \<Rightarrow> word_char c) \<noteq> (case s of [] \<Rightarrow> False | c # _ \<Rightarrow> word_char c))"

definition skip_word :: "string \<Rightarrow> string" where "skip_word s = dropWhile (\<lambda>c. \<not> py_isspace c) s"

section \<open>The patterns\<close>

text \<open>\<open>_URL_RE\<close>: a matcher returns what follows the match.\<close>

definition scheme_rest :: "string \<Rightarrow> string option" where
  "scheme_rest s =
     (case s of [] \<Rightarrow> None
      | c # t \<Rightarrow> let u = dropWhile scheme_char t in if is_letter c \<and> take 3 u = ''://'' then Some (drop 3 u) else None)"

definition literal_rest :: "string \<Rightarrow> string \<Rightarrow> string option" where
  "literal_rest w s = (if map lower_char (take (length w) s) = w then Some (drop (length w) s) else None)"

fun first_rest :: "(string \<Rightarrow> string option) list \<Rightarrow> string \<Rightarrow> string option" where
  "first_rest [] s = None"
| "first_rest (m # ms) s = (case m s of Some r \<Rightarrow> Some r | None \<Rightarrow> first_rest ms s)"

definition url_match :: "char option \<Rightarrow> string \<Rightarrow> string option" where
  "url_match prev s =
     (if boundary prev s
      then map_option skip_word (first_rest [scheme_rest, literal_rest ''www.'', literal_rest ''mailto:'', literal_rest ''tel:''] s)
      else None)"

text \<open>\<open>_DOMAIN_RE\<close>: as many labels as possible, of which the last one taken begins with two letters; then a path.\<close>

definition path_rest :: "string \<Rightarrow> string" where
  "path_rest s = (if take 1 s = ''/'' then skip_word (drop 1 s) else s)"

function domain_rest :: "string \<Rightarrow> string option" where
  "domain_rest s =
     (if take 1 s \<noteq> ''.'' \<or> takeWhile label_char (drop 1 s) = [] then None
      else (case domain_rest (dropWhile label_char (drop 1 s)) of
          Some r \<Rightarrow> Some r
        | None \<Rightarrow> if 2 \<le> length (takeWhile is_letter (drop 1 s)) then Some (path_rest (dropWhile is_letter (drop 1 s))) else None))"
  by pat_completeness auto
termination
proof (relation "measure length", simp)
  fix s :: string
  assume "\<not> (take 1 s \<noteq> ''.'' \<or> takeWhile label_char (drop 1 s) = [])"
  then have "s \<noteq> []" by auto
  then have "length (dropWhile label_char (drop 1 s)) < length s"
    using length_dropWhile_le [of label_char "drop 1 s"] by (cases s) auto
  then show "(dropWhile label_char (drop 1 s), s) \<in> measure length" by simp
qed

declare domain_rest.simps [simp del]

definition domain_match :: "char option \<Rightarrow> string \<Rightarrow> string option" where
  "domain_match prev s =
     (if boundary prev s \<and> takeWhile label_char s \<noteq> [] then domain_rest (dropWhile label_char s) else None)"

section \<open>Substitution and clean-up\<close>

text \<open>\<open>pattern.sub(" ", text)\<close> for a pattern that matches no empty text.\<close>

function re_sub :: "(char option \<Rightarrow> string \<Rightarrow> string option) \<Rightarrow> char option \<Rightarrow> string \<Rightarrow> string" where
  "re_sub m prev [] = []"
| "re_sub m prev (c # s) =
     (case m prev (c # s) of
        Some rest \<Rightarrow>
          if length rest \<le> length s then CHR '' '' # re_sub m (Some ((c # s) ! (length s - length rest))) rest
          else c # re_sub m (Some c) s
      | None \<Rightarrow> c # re_sub m (Some c) s)"
  by pat_completeness auto
termination by (relation "measure (\<lambda>(m, prev, s). length s)") auto

text \<open>A control or format character or an angle bracket becomes a space.\<close>

definition unprintable :: "char \<Rightarrow> bool" where
  "unprintable c = (let n = (of_char c :: nat) in n < 32 \<or> 127 \<le> n \<and> n \<le> 159 \<or> n = 173)"

definition blank_char :: "char \<Rightarrow> char" where
  "blank_char c = (if unprintable c \<or> c \<in> set ''<>'' then CHR '' '' else c)"

definition ORG_NAME_MAX :: nat where "ORG_NAME_MAX = 80"

definition sanitize_org_name :: "string \<Rightarrow> string" where
  "sanitize_org_name name =
     (let text = re_sub domain_match None (re_sub url_match None name);
          text = py_strip (take ORG_NAME_MAX (py_join '' '' (py_split_ws (map blank_char text))))
      in if text = [] then ''organization'' else text)"

section \<open>What a name may hold\<close>

lemma split_ws_acc_chars: "w \<in> set (split_ws_acc acc s) \<Longrightarrow> c \<in> set w \<Longrightarrow> c \<in> set acc \<or> c \<in> set s \<and> \<not> py_isspace c"
  by (induction acc s rule: split_ws_acc.induct) (auto split: if_splits)

lemma set_py_join: "c \<in> set (py_join sep ws) \<Longrightarrow> c \<in> set sep \<or> (\<exists>w \<in> set ws. c \<in> set w)"
  by (induction sep ws rule: py_join.induct) auto

text \<open>Printable, without angle brackets, the only blank a space.\<close>

definition plain_char :: "char \<Rightarrow> bool" where
  "plain_char c = (\<not> unprintable c \<and> c \<notin> set ''<>'' \<and> (py_isspace c \<longrightarrow> c = CHR '' ''))"

lemma blank_char_plain: "\<not> unprintable (blank_char c) \<and> blank_char c \<notin> set ''<>''"
  by (auto simp: blank_char_def unprintable_def Let_def)

lemma plain_name: "\<forall>c \<in> set (sanitize_org_name name). plain_char c"
proof -
  let ?t = "map blank_char (re_sub domain_match None (re_sub url_match None name))"
  have "plain_char c" if "c \<in> set (py_join '' '' (py_split_ws ?t))" for c
  proof -
    have "c = CHR '' '' \<or> c \<in> set ?t \<and> \<not> py_isspace c"
      using set_py_join [OF that] split_ws_acc_chars [of _ "[]" ?t c] by (auto simp: py_split_ws_def)
    then show ?thesis using blank_char_plain by (auto simp: plain_char_def unprintable_def Let_def)
  qed
  then have "\<forall>c \<in> set (py_strip (take ORG_NAME_MAX (py_join '' '' (py_split_ws ?t)))). plain_char c"
    using set_py_strip in_set_takeD by (metis subsetD)
  moreover have "\<forall>c \<in> set ''organization''. plain_char c" by (simp add: plain_char_def unprintable_def py_isspace_def)
  ultimately show ?thesis by (auto simp: sanitize_org_name_def Let_def)
qed

lemma name_length: "sanitize_org_name name \<noteq> [] \<and> length (sanitize_org_name name) \<le> 80"
proof -
  have "length (py_strip (take ORG_NAME_MAX s)) \<le> 80" for s
    using length_py_strip [of "take ORG_NAME_MAX s"] by (simp add: ORG_NAME_MAX_def)
  then show ?thesis by (simp add: sanitize_org_name_def Let_def)
qed

text \<open>A digit before the scheme hides an address without a domain from both patterns.\<close>

lemma address_after_digit_stays: "sanitize_org_name ''1http://10.0.0.1/x'' = ''1http://10.0.0.1/x''"
  by code_simp

lemma addresses_removed: "sanitize_org_name ''see HTTP://evil.example/a and evil.co/b now'' = ''see and now''"
  by code_simp

end
