(* ===== verification/NumberText.thy ===== *)
theory NumberText
  imports Complex_Main Prelude
begin

text \<open>
  Reading numbers from the cells of a client's file (\<open>parse_number\<close> of \<^verbatim>\<open>app/sources/csv_mapper.py\<close>). A text is the list
  of its code points. A float is modelled as the rational it is read from, without rounding; only the overflow to
  infinity is kept. \<open>dv\<close> is Python's table of decimal digits (\<open>\d\<close> and \<open>float\<close> accept all of them), a parameter.
\<close>

type_synonym utext = "nat list"

definition utext_of :: "string \<Rightarrow> utext" where
  "utext_of s = map of_char s"

abbreviation (input) NBSP :: nat where "NBSP \<equiv> 160"
abbreviation (input) MINUS_SIGN :: nat where "MINUS_SIGN \<equiv> 8722"
abbreviation (input) DOT :: nat where "DOT \<equiv> 46"
abbreviation (input) COMMA :: nat where "COMMA \<equiv> 44"
abbreviation (input) HYPHEN :: nat where "HYPHEN \<equiv> 45"
abbreviation (input) PLUS :: nat where "PLUS \<equiv> 43"
abbreviation (input) SPACE :: nat where "SPACE \<equiv> 32"

section \<open>Characters\<close>

text \<open>\<open>str.isspace\<close>; \<open>_WS\<close>; \<open>[0-9]\<close>; the folding of \<open>re.IGNORECASE\<close> on the letters that occur.\<close>

definition py_uspace :: "nat \<Rightarrow> bool" where
  "py_uspace c = ((9 \<le> c \<and> c \<le> 13) \<or> (28 \<le> c \<and> c \<le> 32) \<or> c = 133 \<or> c = 160 \<or> c = 5760 \<or> (8192 \<le> c \<and> c \<le> 8202) \<or>
     c = 8232 \<or> c = 8233 \<or> c = 8239 \<or> c = 8287 \<or> c = 12288)"

definition u_strip :: "utext \<Rightarrow> utext" where
  "u_strip s = rev (dropWhile py_uspace (rev (dropWhile py_uspace s)))"

definition is_ws :: "nat \<Rightarrow> bool" where
  "is_ws c = (c \<in> {32, 9, 160, 8239, 8201})"

definition is_d :: "nat \<Rightarrow> bool" where
  "is_d c = (48 \<le> c \<and> c \<le> 57)"

definition fold_case :: "nat \<Rightarrow> nat" where
  "fold_case c = (if 65 \<le> c \<and> c \<le> 90 then c + 32 else if c = 321 then 322 else if c = 383 then 115 else if c = 8490 then 107 else c)"

text \<open>The digits in a text, and the number they make.\<close>

definition udigit :: "(nat \<Rightarrow> nat option) \<Rightarrow> nat \<Rightarrow> bool" where
  "udigit dv c = (dv c \<noteq> None)"

definition digits_val :: "(nat \<Rightarrow> nat option) \<Rightarrow> utext \<Rightarrow> nat" where
  "digits_val dv ds = foldl (\<lambda>a c. 10 * a + the (dv c)) 0 ds"

definition ascii_digit :: "nat \<Rightarrow> nat option" where
  "ascii_digit c = (if is_d c then Some (c - 48) else None)"

definition decimal :: "(nat \<Rightarrow> nat option) \<Rightarrow> utext \<Rightarrow> utext \<Rightarrow> rat" where
  "decimal dv int_part fr = of_nat (digits_val dv (int_part @ fr)) / 10 ^ length fr"

section \<open>Plain and scientific numbers\<close>

text \<open>\<open>-?(\d+)(?:\.(\d+))?\<close>, all of it: the sign and the two groups.\<close>

definition plain_number :: "(nat \<Rightarrow> nat option) \<Rightarrow> utext \<Rightarrow> (bool \<times> utext \<times> utext) option" where
  "plain_number dv s =
     (let neg = (take 1 s = [HYPHEN]); t = (if neg then drop 1 s else s);
          i = takeWhile (udigit dv) t; r = dropWhile (udigit dv) t
      in if i = [] then None
         else if r = [] then Some (neg, i, [])
         else if hd r = DOT \<and> tl r \<noteq> [] \<and> list_all (udigit dv) (tl r) then Some (neg, i, tl r) else None)"

definition signed :: "bool \<Rightarrow> rat \<Rightarrow> rat" where
  "signed neg x = (if neg then - x else x)"

text \<open>An optional sign, then the rest.\<close>

definition split_sign :: "utext \<Rightarrow> bool \<times> utext" where
  "split_sign s = (if take 1 s = [HYPHEN] then (True, drop 1 s) else if take 1 s = [PLUS] then (False, drop 1 s) else (False, s))"

text \<open>\<open>[0-9]+(?:[.,][0-9]+)?|[.,][0-9]+\<close>: the digits before and after the separator.\<close>

definition mantissa :: "utext \<Rightarrow> (utext \<times> utext) option" where
  "mantissa s =
     (let i = takeWhile is_d s; r = dropWhile is_d s in
      if r = [] then (if i = [] then None else Some (i, []))
      else if hd r \<in> {DOT, COMMA} \<and> tl r \<noteq> [] \<and> list_all is_d (tl r) then Some (i, tl r) else None)"

definition exponent :: "utext \<Rightarrow> int option" where
  "exponent s =
     (let (neg, t) = split_sign s in
      if t = [] \<or> \<not> list_all is_d t then None
      else Some (if neg then - int (digits_val ascii_digit t) else int (digits_val ascii_digit t)))"

definition pow10 :: "int \<Rightarrow> rat" where
  "pow10 e = (if e < 0 then 1 / 10 ^ nat (- e) else 10 ^ nat e)"

definition scientific :: "utext \<Rightarrow> rat option" where
  "scientific s =
     (let (neg, t) = split_sign s; m = takeWhile (\<lambda>c. c \<notin> {69, 101}) t; e = dropWhile (\<lambda>c. c \<notin> {69, 101}) t in
      if e = [] then None
      else case (mantissa m, exponent (tl e)) of
          (Some (i, f), Some x) \<Rightarrow> Some (signed neg (decimal ascii_digit i f * pow10 x))
        | _ \<Rightarrow> None)"

text \<open>\<open>float\<close> of a decimal is finite: it does not round to infinity.\<close>

definition float_finite :: "rat \<Rightarrow> bool" where
  "float_finite x = (\<bar>x\<bar> < 2 ^ 1024 - 2 ^ 970)"

section \<open>Currencies and units\<close>

definition AFFIX_ITEMS :: "utext list" where
  "AFFIX_ITEMS = [[122, 322], utext_of ''zl'', utext_of ''pln'', utext_of ''eur'', utext_of ''usd'', utext_of ''gbp'', utext_of ''chf'',
     utext_of ''czk'', utext_of ''brutto'', utext_of ''netto'', utext_of ''sztuk'', utext_of ''szt'', utext_of ''pcs'',
     [36], [8364], [163], [165], [37]]"

text \<open>One item with its optional dot, the longest that fits: what follows it.\<close>

definition after_item :: "utext \<Rightarrow> utext option" where
  "after_item s =
     map_option (\<lambda>i. let r = drop (length i) s in if take 1 r = [DOT] then drop 1 r else r)
       (List.find (\<lambda>i. map fold_case (take (length i) s) = i) AFFIX_ITEMS)"

lemma after_item_shorter: "after_item s = Some r \<Longrightarrow> length r < length s"
proof -
  assume a: "after_item s = Some r"
  then obtain i where i: "List.find (\<lambda>i. map fold_case (take (length i) s) = i) AFFIX_ITEMS = Some i"
    and r: "r = (let r = drop (length i) s in if take 1 r = [DOT] then drop 1 r else r)" by (auto simp: after_item_def)
  from i have mem: "i \<in> set AFFIX_ITEMS" and eq: "map fold_case (take (length i) s) = i" by (auto simp: find_Some_iff)
  from mem have "0 < length i" by (auto simp: AFFIX_ITEMS_def utext_of_def)
  moreover from eq have "length i \<le> length s" by (metis length_map length_take min.cobounded1)
  ultimately show ?thesis using r by (cases i; cases s; auto simp: Let_def)
qed

function skip_affix :: "utext \<Rightarrow> utext" where
  "skip_affix s = (case after_item s of None \<Rightarrow> s | Some r \<Rightarrow> skip_affix (dropWhile is_ws r))"
  by pat_completeness auto
termination
  by (relation "measure length") (auto dest!: after_item_shorter intro: le_less_trans [OF length_dropWhile_le])

declare skip_affix.simps [simp del]

definition affix_only :: "utext \<Rightarrow> bool" where
  "affix_only s = (skip_affix (dropWhile is_ws s) = [])"

section \<open>Grouped digits\<close>

datatype number_flag = Invalid | Ambiguous | DotThousands

fun split_on :: "'a \<Rightarrow> 'a list \<Rightarrow> 'a list list" where
  "split_on sep [] = [[]]"
| "split_on sep (c # cs) =
     (if c = sep then [] # split_on sep cs else (case split_on sep cs of [] \<Rightarrow> [[c]] | p # ps \<Rightarrow> (c # p) # ps))"

text \<open>\<open>[0-9]{1,3}(?:sep[0-9]{3})+\<close>, all of it.\<close>

definition grouped :: "nat \<Rightarrow> utext \<Rightarrow> bool" where
  "grouped sep s =
     (case split_on sep s of
        first # second # rest \<Rightarrow> first \<noteq> [] \<and> length first \<le> 3 \<and> list_all is_d first \<and>
          list_all (\<lambda>g. length g = 3 \<and> list_all is_d g) (second # rest)
      | _ \<Rightarrow> False)"

text \<open>The two parts around the decimal separator and the flag; \<open>None\<close> when the text is not a number.\<close>

definition number_parts :: "utext \<Rightarrow> (utext \<times> utext \<times> number_flag option) option" where
  "number_parts num =
     (let has_dot = (DOT \<in> set num); has_comma = (COMMA \<in> set num) in
      if has_dot \<and> has_comma then
        let dec = hd (filter (\<lambda>c. c \<in> {DOT, COMMA}) (rev num)); thou = (if dec = DOT then COMMA else DOT) in
        (case split_on dec num of
           [int_part, fr] \<Rightarrow> if thou \<in> set fr \<or> SPACE \<in> set fr then None else Some (int_part, fr, None)
         | _ \<Rightarrow> None)
      else if has_dot \<or> has_comma then
        let sep = (if has_dot then DOT else COMMA) in
        (case split_on sep num of
           [int_part, fr] \<Rightarrow> Some (int_part, fr,
              if length fr = 3 \<and> SPACE \<notin> set int_part \<and> 1 \<le> length int_part \<and> length int_part \<le> 3 \<and> hd int_part \<noteq> 48
              then Some Ambiguous else None)
         | _ \<Rightarrow> Some (num, [], if sep = DOT then Some DotThousands else None))
      else Some (num, [], None))"

definition integer_digits :: "utext \<Rightarrow> utext option" where
  "integer_digits int_part =
     (if list_all is_d int_part then Some int_part
      else
        let kinds = remdups (filter (\<lambda>c. \<not> is_d c) int_part) in
        if length kinds = 1 \<and> grouped (hd kinds) int_part then Some (filter is_d int_part) else None)"

definition digits_to_float :: "utext \<Rightarrow> (rat \<times> number_flag option) option" where
  "digits_to_float num0 =
     (let num1 = map (\<lambda>c. if is_ws c then SPACE else c) num0;
          num = rev (dropWhile (\<lambda>c. c = SPACE) (rev (dropWhile (\<lambda>c. c = SPACE) num1)))
      in case number_parts num of
           None \<Rightarrow> None
         | Some (int_part, fr, flag) \<Rightarrow>
             if \<not> list_all is_d fr then None
             else (case integer_digits int_part of
                 None \<Rightarrow> None
               | Some i \<Rightarrow> if i = [] \<and> fr = [] then None else Some (decimal ascii_digit i fr, flag)))"

section \<open>Cells\<close>

text \<open>\<open>None\<close> and NaN, a finite number, an infinite one, any other value by its text.\<close>

datatype cell = Missing | Number rat | Infinity | Text utext

definition split_accounting :: "utext \<Rightarrow> (utext \<times> utext) option" where
  "split_accounting s =
     (if take 1 s \<noteq> [40] \<or> count_list s 40 \<noteq> 1 \<or> count_list s 41 \<noteq> 1 then None
      else Some (u_strip (takeWhile (\<lambda>c. c \<noteq> 41) (drop 1 s)), u_strip (drop 1 (dropWhile (\<lambda>c. c \<noteq> 41) s))))"

text \<open>\<open>_CORE_RE\<close>, all of it: the sign (\<open>True\<close> for a minus) and the digits with their separators.\<close>

definition core_number :: "utext \<Rightarrow> (bool \<times> utext) option" where
  "core_number s =
     (let (neg, t) = split_sign s; u = skip_affix (dropWhile is_ws t);
          num = takeWhile (\<lambda>c. is_d c \<or> c = DOT \<or> c = COMMA \<or> is_ws c) u;
          rest = dropWhile (\<lambda>c. is_d c \<or> c = DOT \<or> c = COMMA \<or> is_ws c) u;
          starts = (case u of [] \<Rightarrow> False | c # cs \<Rightarrow> is_d c \<or> (c \<in> {DOT, COMMA} \<and> (case cs of [] \<Rightarrow> False | d # _ \<Rightarrow> is_d d)))
      in if starts \<and> skip_affix rest = [] then Some (neg, num) else None)"

definition MAX_NUMBER_CELL_CHARS :: nat where "MAX_NUMBER_CELL_CHARS = 64"

definition NUM_NULLS :: "utext list" where
  "NUM_NULLS = [utext_of ''nan'', utext_of ''none'', utext_of ''null'', [HYPHEN]]"

definition invalid :: "rat option \<times> number_flag option" where "invalid = (None, Some Invalid)"

text \<open>The accounting notation: whether the text is in parentheses, and what is in and after them.\<close>

definition unwrap :: "utext \<Rightarrow> (bool \<times> utext) option" where
  "unwrap s =
     (if 40 \<in> set s \<or> 41 \<in> set s then
        (case split_accounting s of
           None \<Rightarrow> None
         | Some (inner, rest) \<Rightarrow>
             if HYPHEN \<in> set inner \<or> PLUS \<in> set inner \<or> \<not> affix_only rest then None else Some (True, inner @ [SPACE] @ rest))
      else Some (False, s))"

text \<open>The number in decorated text: what is left after the plain and the scientific notation.\<close>

definition decorated_number :: "utext \<Rightarrow> rat option \<times> number_flag option" where
  "decorated_number s =
     (case unwrap s of
        None \<Rightarrow> invalid
      | Some (parens, t) \<Rightarrow>
          (case core_number (u_strip t) of
             None \<Rightarrow> invalid
           | Some (neg, num) \<Rightarrow>
               (case digits_to_float num of
                  None \<Rightarrow> invalid
                | Some (x, flag) \<Rightarrow> if neg \<and> parens then invalid else (Some (signed (neg \<or> parens) x), flag))))"

definition parse_text :: "(nat \<Rightarrow> nat option) \<Rightarrow> utext \<Rightarrow> rat option \<times> number_flag option" where
  "parse_text dv s0 =
     (let s = u_strip s0 in
      if s = [] \<or> map fold_case s \<in> set NUM_NULLS then (None, None)
      else if length s > MAX_NUMBER_CELL_CHARS then invalid
      else
        let t = map (\<lambda>c. if c = MINUS_SIGN then HYPHEN else c) s;
            slow = (case scientific t of Some x \<Rightarrow> if float_finite x then (Some x, None) else invalid | None \<Rightarrow> decorated_number t)
        in case plain_number dv s of
             Some (neg, i, f) \<Rightarrow>
               if length f = 3 \<and> length i \<le> 3 \<and> hd i \<noteq> 48 then slow else (Some (signed neg (decimal dv i f)), None)
           | None \<Rightarrow> slow)"

definition parse_number :: "(nat \<Rightarrow> nat option) \<Rightarrow> cell \<Rightarrow> rat option \<times> number_flag option" where
  "parse_number dv v =
     (case v of Missing \<Rightarrow> (None, None) | Number x \<Rightarrow> (Some x, None) | Infinity \<Rightarrow> invalid | Text s \<Rightarrow> parse_text dv s)"

definition to_number :: "(nat \<Rightarrow> nat option) \<Rightarrow> cell \<Rightarrow> rat option" where
  "to_number dv v = fst (parse_number dv v)"

section \<open>Rounding\<close>

text \<open>\<open>round(x, 1)\<close>: ties go to the even digit.\<close>

definition round_even :: "rat \<Rightarrow> int" where
  "round_even x = (let f = \<lfloor>x\<rfloor>; d = x - of_int f in if d < 1 / 2 then f else if d > 1 / 2 then f + 1 else if even f then f else f + 1)"

definition round1 :: "rat \<Rightarrow> rat" where "round1 x = of_int (round_even (x * 10)) / 10"

end
