(* ===== verification/Evidence.thy ===== *)
theory Evidence
  imports NumberText ReportFiles Security "HOL-Library.Product_Lexorder"
begin

text \<open>
  Packages of the UKSC collector: the source that reads and verifies them (\<^verbatim>\<open>app/sources/uksc_source.py\<close>, the contract in
  \<^verbatim>\<open>app/core/models.py\<close>) and the metrics of a report (\<^verbatim>\<open>app/transforms/uksc_transform.py\<close>). The evidence of a control is JSON;
  its canonical bytes are what the collector and the service hash. SHA-256, the file system and the decoding of a file's bytes
  to typed fields (UTF-8, JSON, pydantic's types) are parameters; the patterns, the version and every hash check are the code's.
\<close>

section \<open>JSON and its canonical form\<close>

text \<open>A float is carried as its \<open>repr\<close>; a dictionary keeps its keys in order, each once.\<close>

datatype json = JNull | JBool bool | JInt int | JReal string | JText utext | JList "json list" | JDict "(utext \<times> json) list"

text \<open>\<open>json.dumps(..., ensure_ascii=True)\<close> of a text: printable ASCII as it is, the rest as escapes of UTF-16 units.\<close>

definition hex4 :: "nat \<Rightarrow> string" where
  "hex4 u = map hex_digit [u div 4096 mod 16, u div 256 mod 16, u div 16 mod 16, u mod 16]"

definition unit_escape :: "nat \<Rightarrow> string" where "unit_escape u = CHR 92 # CHR ''u'' # hex4 u"

definition json_char :: "nat \<Rightarrow> string" where
  "json_char n =
     (if n = 34 then [CHR 92, CHR 34] else if n = 92 then [CHR 92, CHR 92]
      else if n = 10 then [CHR 92, CHR ''n''] else if n = 13 then [CHR 92, CHR ''r''] else if n = 9 then [CHR 92, CHR ''t'']
      else if n = 12 then [CHR 92, CHR ''f''] else if n = 8 then [CHR 92, CHR ''b'']
      else if 32 \<le> n \<and> n < 127 then [char_of n]
      else if n < 0x10000 then unit_escape n
      else unit_escape (0xD800 + (n - 0x10000) div 0x400) @ unit_escape (0xDC00 + (n - 0x10000) mod 0x400))"

definition json_text :: "utext \<Rightarrow> string" where
  "json_text t = CHR 34 # concat (map json_char t) @ [CHR 34]"

text \<open>\<open>json.dumps(v, sort_keys=True, separators=(",", ":"), ensure_ascii=True)\<close>.\<close>

fun json_dump :: "json \<Rightarrow> string" where
  "json_dump JNull = ''null''"
| "json_dump (JBool b) = (if b then ''true'' else ''false'')"
| "json_dump (JInt i) = dec_int i"
| "json_dump (JReal r) = r"
| "json_dump (JText t) = json_text t"
| "json_dump (JList vs) = ''['' @ py_join '','' (map json_dump vs) @ '']''"
| "json_dump (JDict kvs) =
     ''{'' @ py_join '','' (map (\<lambda>(k, s). json_text k @ '':'' @ s) (sort_key fst (map (\<lambda>(k, v). (k, json_dump v)) kvs))) @ ''}''"

definition canonical_evidence :: "(utext \<times> json) list \<Rightarrow> string" where
  "canonical_evidence e = json_dump (JDict e)"

definition compute_evidence_hash :: "(string \<Rightarrow> string) \<Rightarrow> (utext \<times> json) list \<Rightarrow> string" where
  "compute_evidence_hash sha e = sha (canonical_evidence e)"

definition compute_package_hash :: "(string \<Rightarrow> string) \<Rightarrow> string list \<Rightarrow> string" where
  "compute_package_hash sha hashes = sha (concat (sort (map py_lower hashes)))"

section \<open>The package\<close>

definition UKSC_SCHEMA_VERSION :: string where "UKSC_SCHEMA_VERSION = ''1.0''"
definition MAX_PACKAGE_BYTES :: nat where "MAX_PACKAGE_BYTES = 5 * 1024 * 1024"

datatype data_status = LiveData | MockData | BlockedMissingSecret

datatype check_status = Pass | Fail | Warn | Manual | NaNoAdmin | CollectError

datatype evidence_source = Powershell | Rmm | ManualAttestation | Document

record uksc_check =
  ck_control_id :: string
  ck_ref :: utext
  ck_title :: utext
  ck_status :: check_status
  ck_evidence :: "(utext \<times> json) list"
  ck_source :: evidence_source
  ck_collected_at :: stamp
  ck_hash :: "string option"
  ck_threshold :: "utext option"
  ck_owner :: "utext option"
  ck_exception :: "utext option"
  ck_last_test :: "int option"
  ck_reviewer :: "utext option"
  ck_reviewed_at :: "stamp option"

record uksc_host =
  hs_name :: string
  hs_os :: string
  hs_build :: string
  hs_domain_joined :: bool
  hs_is_admin_run :: bool

record uksc_package =
  pk_schema_version :: string
  pk_collector_version :: string
  pk_collected_at :: stamp
  pk_host :: uksc_host
  pk_checks :: "uksc_check list"
  pk_inventory :: json
  pk_sha256 :: string

text \<open>The patterns of the fields: \<open>^[A-Z]{2,5}-\d{2}$\<close> and \<open>^[0-9a-f]{64}$\<close>.\<close>

definition control_id_ok :: "string \<Rightarrow> bool" where
  "control_id_ok s =
     (case py_partition (CHR ''-'') s of
        None \<Rightarrow> False
      | Some (a, b) \<Rightarrow> 2 \<le> length a \<and> length a \<le> 5 \<and> list_all is_upper_alpha a \<and> length b = 2 \<and> list_all is_digit b)"

definition sha256_text :: "string \<Rightarrow> bool" where
  "sha256_text s = (length s = 64 \<and> list_all is_lower_hex s)"

definition check_ok :: "uksc_check \<Rightarrow> bool" where
  "check_ok c = (control_id_ok (ck_control_id c) \<and> (case ck_hash c of None \<Rightarrow> True | Some h \<Rightarrow> sha256_text h))"

definition package_ok :: "uksc_package \<Rightarrow> bool" where
  "package_ok p = (pk_schema_version p = UKSC_SCHEMA_VERSION \<and> list_all check_ok (pk_checks p) \<and> sha256_text (pk_sha256 p))"

section \<open>The source\<close>

text \<open>The text of a detail renders these facts.\<close>

datatype integrity = Unverifiable | Intact | Mismatch

datatype blocked = OutsideUploads | SourceNotFound | PackageNotFound | TooLarge | NotJson | SchemaFailed |
  HashMissing "string list" | HashMismatch string | PackageMismatch

datatype origin = ForcedMock | NoSource | CollectorPackage string

datatype source_detail = Blocked blocked | Loaded origin nat string integrity

record raw_meta =
  rm_path :: path
  rm_host :: uksc_host
  rm_collected_at :: stamp
  rm_collector_version :: string
  rm_schema_version :: string
  rm_package_sha256 :: string
  rm_integrity :: integrity
  rm_inventory :: json

record source_result =
  sr_records :: "uksc_check list"
  sr_status :: data_status
  sr_detail :: source_detail
  sr_meta :: "raw_meta option"

definition blocked_result :: "blocked \<Rightarrow> source_result" where
  "blocked_result b = \<lparr>sr_records = [], sr_status = BlockedMissingSecret, sr_detail = Blocked b, sr_meta = None\<rparr>"

definition blank_text :: "string option \<Rightarrow> bool" where
  "blank_text h = (case h of None \<Rightarrow> True | Some s \<Rightarrow> s = [])"

text \<open>The controls of the collector without a hash, and the first whose hash is not that of its evidence.\<close>

definition missing_hashes :: "uksc_package \<Rightarrow> string list" where
  "missing_hashes p = map ck_control_id (filter (\<lambda>c. ck_source c = Powershell \<and> blank_text (ck_hash c)) (pk_checks p))"

definition mismatched :: "(string \<Rightarrow> string) \<Rightarrow> uksc_check \<Rightarrow> bool" where
  "mismatched sha c =
     (\<not> blank_text (ck_hash c) \<and> ck_source c = Powershell \<and> ck_hash c \<noteq> Some (compute_evidence_hash sha (ck_evidence c)))"

definition package_hashes :: "uksc_package \<Rightarrow> string list" where
  "package_hashes p = map (\<lambda>c. the (ck_hash c)) (filter (\<lambda>c. \<not> blank_text (ck_hash c)) (pk_checks p))"

definition package_integrity :: "(string \<Rightarrow> string) \<Rightarrow> uksc_package \<Rightarrow> integrity" where
  "package_integrity sha p =
     (let hashes = package_hashes p in
      if hashes \<noteq> [] \<and> length hashes = length (pk_checks p)
      then (if compute_package_hash sha hashes = pk_sha256 p then Intact else Mismatch)
      else Unverifiable)"

definition meta_of :: "path \<Rightarrow> integrity \<Rightarrow> uksc_package \<Rightarrow> raw_meta" where
  "meta_of f i p =
     \<lparr>rm_path = f, rm_host = pk_host p, rm_collected_at = pk_collected_at p, rm_collector_version = pk_collector_version p,
      rm_schema_version = pk_schema_version p, rm_package_sha256 = pk_sha256 p, rm_integrity = i, rm_inventory = pk_inventory p\<rparr>"

text \<open>\<open>_load\<close> after the package has been read.\<close>

definition verify_package :: "(string \<Rightarrow> string) \<Rightarrow> path \<Rightarrow> data_status \<Rightarrow> origin \<Rightarrow> uksc_package \<Rightarrow> source_result" where
  "verify_package sha f st og p =
     (if \<not> package_ok p then blocked_result SchemaFailed
      else if missing_hashes p \<noteq> [] then blocked_result (HashMissing (take 5 (missing_hashes p)))
      else (case List.find (mismatched sha) (pk_checks p) of
          Some c \<Rightarrow> blocked_result (HashMismatch (ck_control_id c))
        | None \<Rightarrow>
            let i = package_integrity sha p in
            if i = Mismatch then blocked_result PackageMismatch
            else \<lparr>sr_records = pk_checks p, sr_status = st, sr_detail = Loaded og (length (pk_checks p)) (hs_name (pk_host p)) i,
                  sr_meta = Some (meta_of f i p)\<rparr>))"

datatype decoded = BadJson | BadFields | Package uksc_package

definition load_package ::
  "(string \<Rightarrow> string) \<Rightarrow> (string \<Rightarrow> decoded) \<Rightarrow> files \<Rightarrow> path \<Rightarrow> data_status \<Rightarrow> origin \<Rightarrow> source_result" where
  "load_package sha dec fs f st og =
     (case fs f of
        None \<Rightarrow> blocked_result PackageNotFound
      | Some content \<Rightarrow>
          if length content > MAX_PACKAGE_BYTES then blocked_result TooLarge
          else (case dec content of
              BadJson \<Rightarrow> blocked_result NotJson
            | BadFields \<Rightarrow> blocked_result SchemaFailed
            | Package p \<Rightarrow> verify_package sha f st og p))"

text \<open>\<open>fetch\<close>: the fixture, or a file inside the uploads directory.\<close>

definition fetch_package ::
  "(string \<Rightarrow> string) \<Rightarrow> (string \<Rightarrow> decoded) \<Rightarrow> disk \<Rightarrow> files \<Rightarrow> path \<Rightarrow> path \<Rightarrow> bool \<Rightarrow> string option \<Rightarrow> exc + source_result" where
  "fetch_package sha dec d fs fixture uploads_root force_mock source =
     (if force_mock \<or> blank_text source
      then Inr (load_package sha dec fs fixture MockData (if force_mock then ForcedMock else NoSource))
      else (case dk_resolve d (Raw (the source)) of
          None \<Rightarrow> Inl (PyRaise ''OSError'')
        | Some p \<Rightarrow>
            if \<not> prefix uploads_root p then Inr (blocked_result OutsideUploads)
            else if fs p = None then Inr (blocked_result SourceNotFound)
            else Inr (load_package sha dec fs p LiveData (CollectorPackage (if p = [] then [] else last p)))))"

section \<open>Metrics of a report\<close>

datatype verdict = VPass | VFail | VWarn | VManual

record article =
  ar_ref :: utext
  ar_controls :: nat
  ar_pass :: nat
  ar_fail :: nat
  ar_warn :: nat
  ar_manual :: nat
  ar_not_collected :: nat
  ar_documented :: bool
  ar_verdict :: verdict

definition NO_REFERENCE :: utext where "NO_REFERENCE = utext_of ''brak odniesienia''"

definition article_ref :: "uksc_check \<Rightarrow> utext" where
  "article_ref c = (if ck_ref c = [] then NO_REFERENCE else ck_ref c)"

definition new_article :: "utext \<Rightarrow> article" where
  "new_article ref = \<lparr>ar_ref = ref, ar_controls = 0, ar_pass = 0, ar_fail = 0, ar_warn = 0, ar_manual = 0, ar_not_collected = 0,
     ar_documented = False, ar_verdict = VManual\<rparr>"

definition count_check :: "uksc_check \<Rightarrow> article \<Rightarrow> article" where
  "count_check c row =
     (let row = row\<lparr>ar_controls := ar_controls row + 1\<rparr> in
      case ck_status c of
        Pass \<Rightarrow> row\<lparr>ar_pass := ar_pass row + 1\<rparr>
      | Fail \<Rightarrow> row\<lparr>ar_fail := ar_fail row + 1\<rparr>
      | Warn \<Rightarrow> row\<lparr>ar_warn := ar_warn row + 1\<rparr>
      | Manual \<Rightarrow> row\<lparr>ar_manual := ar_manual row + 1\<rparr>
      | _ \<Rightarrow> row\<lparr>ar_not_collected := ar_not_collected row + 1\<rparr>)"

text \<open>An \<open>OrderedDict\<close> by reference; \<open>setdefault\<close> appends a new article.\<close>

definition add_check :: "uksc_check \<Rightarrow> article list \<Rightarrow> article list" where
  "add_check c rows =
     (let rows' = (if \<exists>r \<in> set rows. ar_ref r = article_ref c then rows else rows @ [new_article (article_ref c)])
      in map (\<lambda>r. if ar_ref r = article_ref c then count_check c r else r) rows')"

definition judge :: "article \<Rightarrow> article" where
  "judge row =
     (let auto = ar_pass row + ar_fail row + ar_warn row in
      row\<lparr>ar_documented := auto > 0,
          ar_verdict := (if auto > 0 then if ar_fail row > 0 then VFail else if ar_warn row > 0 then VWarn else VPass else VManual)\<rparr>)"

definition by_article :: "uksc_check list \<Rightarrow> article list" where
  "by_article records = map judge (fold add_check records [])"

definition status_count :: "check_status \<Rightarrow> uksc_check list \<Rightarrow> nat" where
  "status_count s records = length (filter (\<lambda>c. ck_status c = s) records)"

text \<open>\<open>round(100.0 * a / b, 1)\<close>, and 0 where there is nothing to divide by.\<close>

definition percent1 :: "nat \<Rightarrow> nat \<Rightarrow> rat" where
  "percent1 a b = (if b = 0 then 0 else round1 (100 * of_nat a / of_nat b))"

text \<open>The comparison with the previous run of the host: dictionaries by control, the last row counts.\<close>

record uksc_diff =
  df_improved :: "string list"
  df_regressed :: "string list"
  df_new :: "string list"
  df_removed :: "string list"
  df_previous_checks :: nat

definition status_dict :: "(string \<times> check_status) list \<Rightarrow> string \<Rightarrow> check_status option" where
  "status_dict rows = map_of (rev rows)"

definition sorted_keys :: "(string \<times> check_status) list \<Rightarrow> (string \<Rightarrow> bool) \<Rightarrow> string list" where
  "sorted_keys rows P = sort (filter P (remdups (map fst rows)))"

definition diff_runs :: "(string \<times> check_status) list \<Rightarrow> (string \<times> check_status) list \<Rightarrow> uksc_diff" where
  "diff_runs prev_rows cur_rows =
     (let prev = status_dict prev_rows; cur = status_dict cur_rows in
      \<lparr>df_improved = sorted_keys cur_rows (\<lambda>c. prev c \<in> {Some Fail, Some Warn} \<and> cur c = Some Pass),
       df_regressed = sorted_keys cur_rows (\<lambda>c. prev c = Some Pass \<and> cur c \<in> {Some Fail, Some Warn}),
       df_new = sorted_keys cur_rows (\<lambda>c. prev c = None),
       df_removed = sorted_keys prev_rows (\<lambda>c. cur c = None),
       df_previous_checks = length (remdups (map fst prev_rows))\<rparr>)"

text \<open>\<open>_brief\<close>: what the report says of a control.\<close>

record brief_check =
  br_control_id :: string
  br_title :: utext
  br_ref :: utext
  br_status :: check_status
  br_threshold :: "utext option"
  br_evidence :: "(utext \<times> json) list"
  br_exception :: "utext option"

definition brief :: "uksc_check \<Rightarrow> brief_check" where
  "brief c = \<lparr>br_control_id = ck_control_id c, br_title = ck_title c, br_ref = ck_ref c, br_status = ck_status c,
     br_threshold = ck_threshold c, br_evidence = ck_evidence c, br_exception = ck_exception c\<rparr>"

record uksc_metrics =
  um_host :: string
  um_collected_at :: stamp
  um_is_admin_run :: bool
  um_checks_total :: nat
  um_passed :: nat
  um_failed :: nat
  um_warned :: nat
  um_manual :: nat
  um_na_no_admin :: nat
  um_errors :: nat
  um_coverage_pct :: rat
  um_pass_pct :: rat
  um_by_article :: "article list"
  um_failed_controls :: "brief_check list"
  um_manual_controls :: "brief_check list"
  um_diff :: "uksc_diff option"

definition transform_uksc ::
  "uksc_check list \<Rightarrow> uksc_host \<Rightarrow> stamp \<Rightarrow> (string \<times> check_status) list option \<Rightarrow> uksc_metrics" where
  "transform_uksc records host collected previous =
     (let n = length records; automated = status_count Pass records + status_count Fail records + status_count Warn records in
      \<lparr>um_host = hs_name host, um_collected_at = collected, um_is_admin_run = hs_is_admin_run host, um_checks_total = n,
       um_passed = status_count Pass records, um_failed = status_count Fail records, um_warned = status_count Warn records,
       um_manual = status_count Manual records, um_na_no_admin = status_count NaNoAdmin records,
       um_errors = status_count CollectError records,
       um_coverage_pct = percent1 automated n, um_pass_pct = percent1 (status_count Pass records) automated,
       um_by_article = by_article records,
       um_failed_controls = map brief (filter (\<lambda>c. ck_status c \<in> {Fail, Warn}) records),
       um_manual_controls = map brief (filter (\<lambda>c. ck_status c \<in> {Manual, NaNoAdmin, CollectError}) records),
       um_diff = (case previous of None \<Rightarrow> None
         | Some prev \<Rightarrow> if prev = [] then None
             else Some (diff_runs prev (map (\<lambda>c. (ck_control_id c, ck_status c)) records)))\<rparr>)"

end
