(* ===== verification/Notifications.thy ===== *)
theory Notifications
  imports OrgNames Evidence Webhooks Schedule
begin

text \<open>
  What is sent to people: the mails of \<^verbatim>\<open>app/control/mailer.py\<close>, and when a run has finished the chat message
  (\<^verbatim>\<open>app/control/chat_messages.py\<close>) and the listener that sends mail and message (\<^verbatim>\<open>app/control/notifications.py\<close>). Texts are lists of code
  points, for the Polish letters; a payload is the JSON value that is encoded. The mail transport, the resolver and the HTTP
  client are parameters.
\<close>

section \<open>The message\<close>

definition DEFAULT_CHAT_KIND :: string where "DEFAULT_CHAT_KIND = ''slack''"

record run_message =
  ms_event :: run_finished
  ms_organization :: string
  ms_period_from :: "string option"
  ms_period_to :: "string option"
  ms_report_sha :: "string option"
  ms_error_code :: "string option"
  ms_link :: string

definition ms_succeeded :: "run_message \<Rightarrow> bool" where "ms_succeeded m = (rf_status (ms_event m) = ''succeeded'')"
definition ms_partial :: "run_message \<Rightarrow> bool" where "ms_partial m = (ms_succeeded m \<and> rf_run_status (ms_event m) = ''PARTIAL'')"

definition cockpit_origin :: "string option \<Rightarrow> string" where
  "cockpit_origin origin =
     rstrip_chars ''/'' (case origin of None \<Rightarrow> ''http://localhost:3000'' | Some s \<Rightarrow> if s = [] then ''http://localhost:3000'' else s)"

definition make_run_message ::
  "string option \<Rightarrow> run_finished \<Rightarrow> string \<Rightarrow> string option \<times> string option \<Rightarrow> string option \<Rightarrow> string option \<Rightarrow> run_message" where
  "make_run_message origin e org_name period sha err =
     \<lparr>ms_event = e, ms_organization = sanitize_org_name org_name, ms_period_from = fst period, ms_period_to = snd period,
      ms_report_sha = sha, ms_error_code = err, ms_link = cockpit_origin origin @ ''/runs/'' @ rf_run e\<rparr>"

definition filled :: "string option \<Rightarrow> bool" where "filled s = (case s of None \<Rightarrow> False | Some t \<Rightarrow> t \<noteq> [])"

definition or_question :: "string option \<Rightarrow> utext" where
  "or_question s = (if filled s then utext_of (the s) else utext_of ''?'')"

definition dash :: utext where "dash = [32, 0x2013, 32]"

section \<open>Chat messages\<close>

definition FAILED_HEADLINE :: utext where
  "FAILED_HEADLINE = utext_of ''Przetwarzanie raportu nie powiod'' @ [0x142] @ utext_of ''o si'' @ [0x119]"
definition PARTIAL_HEADLINE :: utext where
  "PARTIAL_HEADLINE = utext_of ''Raport jest gotowy (cz'' @ [0x119, 0x15B] @ utext_of ''ciowy)''"
definition READY_HEADLINE :: utext where "READY_HEADLINE = utext_of ''Raport jest gotowy''"
definition FINISHED_WORD :: utext where "FINISHED_WORD = utext_of ''zako'' @ [0x144] @ utext_of ''czony''"
definition PARTLY_WORD :: utext where "PARTLY_WORD = utext_of '' cz'' @ [0x119, 0x15B] @ utext_of ''ciowo''"
definition ERROR_WORD :: utext where "ERROR_WORD = [98, 0x142, 0x105, 100]"
definition ERROR_CODE_LABEL :: utext where "ERROR_CODE_LABEL = utext_of ''Kod b'' @ [0x142, 0x119] @ utext_of ''du''"
definition FINISHED_AT_LABEL :: utext where "FINISHED_AT_LABEL = utext_of ''Zako'' @ [0x144] @ utext_of ''czono''"
definition OPEN_RUN :: utext where "OPEN_RUN = utext_of ''Otw'' @ [0xF3] @ utext_of ''rz run''"

definition headline :: "run_message \<Rightarrow> utext" where
  "headline m = (if \<not> ms_succeeded m then FAILED_HEADLINE else if ms_partial m then PARTIAL_HEADLINE else READY_HEADLINE)"

definition status_label :: "run_message \<Rightarrow> utext" where
  "status_label m = (if \<not> ms_succeeded m then ERROR_WORD else if ms_partial m then FINISHED_WORD @ PARTLY_WORD else FINISHED_WORD)"

text \<open>\<open>from_iso\<close> is \<open>datetime.fromisoformat\<close>, a naive moment taken as UTC.\<close>

definition finished_label :: "(string \<Rightarrow> stamp option) \<Rightarrow> string \<Rightarrow> string" where
  "finished_label from_iso iso_text =
     (case from_iso iso_text of
        None \<Rightarrow> iso_text
      | Some t \<Rightarrow> iso_date (t div days 1) @ '' '' @ pad_left 2 (dec_nat (nat (t mod days 1 div hours 1))) @ '':'' @
          pad_left 2 (dec_nat (nat (t mod hours 1 div minutes 1))) @ '' UTC'')"

definition message_facts :: "(string \<Rightarrow> stamp option) \<Rightarrow> run_message \<Rightarrow> (utext \<times> utext) list" where
  "message_facts from_iso m =
     [(utext_of ''Organizacja'', utext_of (ms_organization m)), (utext_of ''Pipeline'', utext_of (rf_pipeline (ms_event m))),
      (utext_of ''Status'', status_label m)] @
     (if filled (ms_period_from m) \<or> filled (ms_period_to m)
      then [(utext_of ''Okres danych'', or_question (ms_period_from m) @ dash @ or_question (ms_period_to m))] else []) @
     (if filled (ms_report_sha m) then [(utext_of ''SHA-256 raportu (HTML)'', utext_of (the (ms_report_sha m)))] else []) @
     (if filled (ms_error_code m) \<and> \<not> ms_succeeded m then [(ERROR_CODE_LABEL, utext_of (the (ms_error_code m)))] else []) @
     [(FINISHED_AT_LABEL, utext_of (finished_label from_iso (rf_finished_at (ms_event m))))]"

text \<open>\<open>text.replace(c, w)\<close> for one character, and \<open>_slack_escape\<close>.\<close>

definition replace_char :: "nat \<Rightarrow> utext \<Rightarrow> utext \<Rightarrow> utext" where
  "replace_char c w t = concat (map (\<lambda>x. if x = c then w else [x]) t)"

definition slack_escape :: "utext \<Rightarrow> utext" where
  "slack_escape t =
     replace_char 62 (utext_of ''&gt;'') (replace_char 60 (utext_of ''&lt;'') (replace_char 38 (utext_of ''&amp;'') t))"

definition join_lines :: "utext list \<Rightarrow> utext" where
  "join_lines ls = (case ls of [] \<Rightarrow> [] | l # rest \<Rightarrow> l @ concat (map (\<lambda>x. 10 # x) rest))"

definition jdict :: "(string \<times> json) list \<Rightarrow> json" where
  "jdict kvs = JDict (map (\<lambda>(k, v). (utext_of k, v)) kvs)"

definition jtext :: "string \<Rightarrow> json" where "jtext s = JText (utext_of s)"

definition jopt :: "string option \<Rightarrow> json" where "jopt s = (case s of None \<Rightarrow> JNull | Some t \<Rightarrow> jtext t)"

definition slack_section :: "(string \<Rightarrow> stamp option) \<Rightarrow> run_message \<Rightarrow> utext" where
  "slack_section from_iso m =
     join_lines ((utext_of ''*'' @ slack_escape (headline m) @ utext_of ''*'') #
       map (\<lambda>(label, v). utext_of ''*'' @ label @ utext_of '':* '' @ slack_escape v) (message_facts from_iso m))"

definition slack_fallback :: "run_message \<Rightarrow> utext" where
  "slack_fallback m =
     slack_escape (headline m @ utext_of '': '' @ utext_of (rf_pipeline (ms_event m)) @ utext_of '', '' @
       utext_of (ms_organization m) @ utext_of '' ('' @ status_label m @ utext_of '')'')"

definition slack_payload :: "(string \<Rightarrow> stamp option) \<Rightarrow> run_message \<Rightarrow> json" where
  "slack_payload from_iso m =
     jdict [(''text'', JText (slack_fallback m)),
       (''blocks'', JList
         [jdict [(''type'', jtext ''section''), (''text'', jdict [(''type'', jtext ''mrkdwn''), (''text'', JText (slack_section from_iso m))])],
          jdict [(''type'', jtext ''actions''),
            (''elements'', JList [jdict [(''type'', jtext ''button''),
              (''text'', jdict [(''type'', jtext ''plain_text''), (''text'', JText OPEN_RUN)]), (''url'', jtext (ms_link m))]])]])]"

definition teams_payload :: "(string \<Rightarrow> stamp option) \<Rightarrow> run_message \<Rightarrow> json" where
  "teams_payload from_iso m =
     (let color = (if \<not> ms_succeeded m then ''Attention'' else if ms_partial m then ''Warning'' else ''Good'');
          card = jdict
            [(''$schema'', jtext ''http://adaptivecards.io/schemas/adaptive-card.json''), (''type'', jtext ''AdaptiveCard''),
             (''version'', jtext ''1.4''),
             (''body'', JList
               [jdict [(''type'', jtext ''TextBlock''), (''text'', JText (headline m)), (''weight'', jtext ''Bolder''),
                  (''size'', jtext ''Medium''), (''color'', jtext color), (''wrap'', JBool True)],
                jdict [(''type'', jtext ''FactSet''),
                  (''facts'', JList (map (\<lambda>(l, v). jdict [(''title'', JText l), (''value'', JText v)]) (message_facts from_iso m)))]]),
             (''actions'', JList [jdict [(''type'', jtext ''Action.OpenUrl''), (''title'', JText OPEN_RUN), (''url'', jtext (ms_link m))]])]
      in jdict [(''type'', jtext ''message''),
           (''attachments'', JList [jdict [(''contentType'', jtext ''application/vnd.microsoft.card.adaptive''), (''content'', card)]])])"

definition generic_payload :: "run_message \<Rightarrow> json" where
  "generic_payload m =
     jdict ([(''event'', jtext EVENT_RUN_FINISHED)] @ map (\<lambda>(k, v). (k, jtext v)) (run_finished_fields (ms_event m)) @
       [(''organization'', jtext (ms_organization m)), (''period_from'', jopt (ms_period_from m)), (''period_to'', jopt (ms_period_to m)),
        (''report_sha256'', jopt (ms_report_sha m)), (''error_code'', jopt (ms_error_code m)), (''link'', jtext (ms_link m))])"

definition build_payload :: "(string \<Rightarrow> stamp option) \<Rightarrow> string \<Rightarrow> run_message \<Rightarrow> exc + json" where
  "build_payload from_iso kind m =
     (if kind = ''slack'' then Inr (slack_payload from_iso m) else if kind = ''teams'' then Inr (teams_payload from_iso m)
      else if kind = ''generic'' then Inr (generic_payload m) else Inl (PyRaise ''ValueError''))"

section \<open>Mails\<close>

record run_mail =
  ml_to :: string
  ml_subject :: utext
  ml_body :: utext
  ml_link :: string

definition mail_lines :: "bool \<Rightarrow> bool \<Rightarrow> bool \<Rightarrow> run_message \<Rightarrow> utext list" where
  "mail_lines english ok part m =
     (let say = (\<lambda>en pl. if english then utext_of en else pl);
          status = (if english then utext_of (if ok then if part then ''partial'' else ''succeeded'' else ''failed'')
            else if ok then if part then FINISHED_WORD @ PARTLY_WORD else FINISHED_WORD else ERROR_WORD)
      in [say ''Organization: '' (utext_of ''Organizacja: '') @ utext_of (ms_organization m),
          utext_of ''Pipeline: '' @ utext_of (rf_pipeline (ms_event m)), utext_of ''Status: '' @ status] @
         (if filled (ms_period_from m) \<or> filled (ms_period_to m)
          then [say ''Data period: '' (utext_of ''Okres danych: '') @ or_question (ms_period_from m) @ dash @ or_question (ms_period_to m)]
          else []) @
         (if filled (ms_report_sha m)
          then [say ''Report SHA-256 (HTML): '' (utext_of ''SHA-256 raportu (HTML): '') @ utext_of (the (ms_report_sha m))] else []) @
         (if filled (ms_error_code m) \<and> \<not> ok
          then [say ''Error code: '' (ERROR_CODE_LABEL @ utext_of '': '') @ utext_of (the (ms_error_code m))] else []) @
         [[], say ''Open the run in the cockpit: '' (OPEN_RUN @ utext_of '' w kokpicie: '') @ utext_of (ms_link m)])"

definition run_finished_mail :: "string \<Rightarrow> string \<Rightarrow> run_message \<Rightarrow> run_mail" where
  "run_finished_mail to locale m =
     (let english = (locale = ''en''); ok = ms_succeeded m; part = ms_partial m;
          subject = (if english
            then utext_of (if ok then if part then ''Your report is ready (partial)'' else ''Your report is ready'' else ''The report run failed'')
            else headline m)
      in \<lparr>ml_to = to, ml_subject = subject, ml_body = join_lines (mail_lines english ok part m) @ [10], ml_link = ms_link m\<rparr>)"

text \<open>The mails of a sign-in, an invitation and a reminder.\<close>

definition magic_link_mail :: "string option \<Rightarrow> int \<Rightarrow> string \<Rightarrow> string \<Rightarrow> string \<Rightarrow> run_mail" where
  "magic_link_mail origin ttl to token locale =
    (let link = cockpit_origin origin @ ''/login/verify?token='' @ token;
         subject = (if locale = ''en'' then utext_of ''Your DaaS Engine sign-in link''
           else utext_of ''Link do logowania w DaaS Engine'');
         body = (if locale = ''en'' then
       utext_of ''Open this link to sign in (valid '' @ utext_of (dec_int ttl) @ utext_of '' minutes, single use):'' @
       [10, 10] @ utext_of link @ [10, 10] @ utext_of ''If you did not request it, ignore this message.'' @ [10]
     else
       utext_of ''Otw'' @ [0xF3] @ utext_of ''rz link, aby si'' @ [0x119] @ utext_of '' zalogowa'' @ [0x107] @
       utext_of '' (wa'' @ [0x17C] @ utext_of ''ny '' @ utext_of (dec_int ttl) @ utext_of '' min, jednorazowy):'' @ [10, 10] @
       utext_of link @ [10, 10] @ utext_of ''Je'' @ [0x15B] @ utext_of ''li to nie Ty prosi'' @ [0x142] @ utext_of ''e'' @
       [0x15B] @ utext_of '' o logowanie, zignoruj t'' @ [0x119] @ utext_of '' wiadomo'' @ [0x15B, 0x107] @ utext_of ''.'' @
       [10])
     in \<lparr>ml_to = to, ml_subject = subject, ml_body = body, ml_link = link\<rparr>)"

definition invitation_mail :: "string option \<Rightarrow> string \<Rightarrow> string \<Rightarrow> string \<Rightarrow> string \<Rightarrow> run_mail" where
  "invitation_mail origin to org_name role locale =
    (let link = cockpit_origin origin @ ''/login''; name = sanitize_org_name org_name;
         subject = (if locale = ''en'' then utext_of ''You were invited to DaaS Engine''
           else utext_of ''Zaproszenie do DaaS Engine'');
         body = (if locale = ''en'' then
       utext_of ''You were invited to the organization '' @ [34] @ utext_of name @ [34] @ utext_of '' as '' @ utext_of role @
       utext_of ''.'' @ [10] @ utext_of ''Sign in with this e-mail address to join: '' @ utext_of link @ [10]
     else
       utext_of ''Zaproszono Ci'' @ [0x119] @ utext_of '' do organizacji '' @ [0x201E] @ utext_of name @ [0x201D] @
       utext_of '' jako '' @ utext_of role @ utext_of ''.'' @ [10] @ utext_of ''Zaloguj si'' @ [0x119] @
       utext_of '' tym adresem e-mail, aby do'' @ [0x142, 0x105] @ utext_of ''czy'' @ [0x107] @ utext_of '': '' @
       utext_of link @ [10])
     in \<lparr>ml_to = to, ml_subject = subject, ml_body = body, ml_link = link\<rparr>)"

definition reminder_mail :: "string option \<Rightarrow> string \<Rightarrow> string \<Rightarrow> string \<Rightarrow> run_mail" where
  "reminder_mail origin to org_name locale =
    (let link = cockpit_origin origin @ ''/upload''; name = sanitize_org_name org_name;
         subject = (if locale = ''en'' then utext_of ''Time for this week'' @ [39] @ utext_of ''s export''
           else utext_of ''Czas na cotygodniowy eksport'');
         body = (if locale = ''en'' then
       utext_of ''Time for the export for '' @ [34] @ utext_of name @ [34] @
       utext_of '': upload the file and the report will be ready in a few minutes.'' @ [10, 10] @ utext_of link @ [10, 10] @
       utext_of ''You get this reminder because the weekly reminder is on in the organization settings.'' @ [10]
     else
       utext_of ''Czas na eksport dla '' @ [0x201E] @ utext_of name @ [0x201D] @ utext_of '' '' @ [0x2014] @
       utext_of '' wgraj plik, raport b'' @ [0x119] @ utext_of ''dzie gotowy po kilku minutach.'' @ [10, 10] @ utext_of link @
       [10, 10] @ utext_of ''Dostajesz to przypomnienie, bo w ustawieniach organizacji jest w'' @ [0x142, 0x105] @
       utext_of ''czone cotygodniowe przypomnienie.'' @ [10])
     in \<lparr>ml_to = to, ml_subject = subject, ml_body = body, ml_link = link\<rparr>)"

section \<open>The listener\<close>

record notify_conf =
  nc_maintenance :: bool
  nc_origin :: "string option"
  nc_dev :: bool
  nc_from_iso :: "string \<Rightarrow> stamp option"

datatype notice = MailNotice run_finished | ChatNotice run_finished string string

definition notices_of :: "bool \<Rightarrow> run_finished \<Rightarrow> cdb \<Rightarrow> notice list" where
  "notices_of maintenance e db =
     (if maintenance then []
      else (case get_schedule (rf_org e) db of
          None \<Rightarrow> []
        | Some s \<Rightarrow>
            (if os_notify_on_finish s then [MailNotice e] else []) @
            (case os_webhook_url s of
               None \<Rightarrow> []
             | Some url \<Rightarrow> if url = [] then []
                 else [ChatNotice e url (if os_webhook_kind s = [] then DEFAULT_CHAT_KIND else os_webhook_kind s)])))"

text \<open>The message about a run, from the rows of the run and of the job, if they are there.\<close>

definition message_for :: "notify_conf \<Rightarrow> run_finished \<Rightarrow> org \<Rightarrow> cdb \<Rightarrow> run_message" where
  "message_for conf e og db =
     (let record = sql_first (\<lambda>r. rr_id r = rf_run e) (run_records db); job = sql_first (\<lambda>j. j_id j = rf_job e) (jobs db);
          period = (case record of None \<Rightarrow> (None, None)
            | Some r \<Rightarrow> (map_option iso_date (rr_period_from r), map_option iso_date (rr_period_to r)))
      in make_run_message (nc_origin conf) e (o_name og) period (case record of None \<Rightarrow> None | Some r \<Rightarrow> rr_sha_html r)
           (case job of None \<Rightarrow> None | Some j \<Rightarrow> j_error_code j))"

definition keep_event :: "cdb \<Rightarrow> exc + cdb \<Rightarrow> cdb" where
  "keep_event db r = (case r of Inl _ \<Rightarrow> db | Inr db1 \<Rightarrow> db1)"

definition notify_by_mail :: "notify_conf \<Rightarrow> (run_mail \<Rightarrow> bool) \<Rightarrow> ident \<Rightarrow> stamp \<Rightarrow> run_finished \<Rightarrow> cdb \<Rightarrow> run_mail list \<times> cdb" where
  "notify_by_mail conf mailer ev now e db =
     (if nc_maintenance conf then ([], db)
      else (case get_org (rf_org e) db of
          None \<Rightarrow> ([], db)
        | Some og \<Rightarrow>
            let mails = map (\<lambda>(email, locale). run_finished_mail email locale (message_for conf e og db)) (org_recipients (rf_org e) db);
                sent = send_mails mailer mails
            in (mails, keep_event db (record_event ev now (Some (rf_org e)) ''system'' None ''schedule.notified'' (Some (''run:'' @ rf_run e))
                 [(''run_id'', PStr (rf_run e)), (''job_id'', PStr (rf_job e)), (''status'', PStr (rf_status e)),
                  (''sent'', PBool (sent > 0)), (''recipients'', PInt (int sent))] None db))))"

definition chat_meta :: "run_finished \<Rightarrow> string \<Rightarrow> int option \<times> string option \<Rightarrow> pydict" where
  "chat_meta e kind r =
     (let (status, err) = r; sent = (case status of None \<Rightarrow> False | Some s \<Rightarrow> 200 \<le> s \<and> s < 300);
          err' = (if \<not> sent \<and> err = None then Some ''http_status'' else err)
      in [(''run_id'', PStr (rf_run e)), (''job_id'', PStr (rf_job e)), (''status'', PStr (rf_run_status e)), (''channel'', PStr kind),
          (''sent'', PBool sent)] @
         (case status of None \<Rightarrow> [] | Some s \<Rightarrow> [(''status_code'', PInt s)]) @
         (case err' of None \<Rightarrow> [] | Some x \<Rightarrow> [(''error_type'', PStr x)]))"

text \<open>One attempt; the targets a connection was tried to, and the database after it. An exception is logged.\<close>

definition notify_chat ::
  "notify_conf \<Rightarrow> (string \<Rightarrow> string \<Rightarrow> string) \<Rightarrow> resolver \<Rightarrow> (json \<Rightarrow> target \<Rightarrow> reply) \<Rightarrow> ident \<Rightarrow> stamp
    \<Rightarrow> run_finished \<Rightarrow> string \<Rightarrow> string \<Rightarrow> cdb \<Rightarrow> target list \<times> cdb" where
  "notify_chat conf with_host resolver post ev now e url kind db =
     (if nc_maintenance conf then ([], db)
      else (case get_org (rf_org e) db of
          None \<Rightarrow> ([], db)
        | Some og \<Rightarrow>
            (case build_payload (nc_from_iso conf) kind (message_for conf e og db) of
               Inl _ \<Rightarrow> ([], db)
             | Inr payload \<Rightarrow>
                 let (r, used) = post_json with_host resolver (post payload) (nc_dev conf) url
                 in (used, keep_event db (record_event ev now (Some (rf_org e)) ''system'' None ''schedule.webhook_notified''
                      (Some (''run:'' @ rf_run e)) (chat_meta e kind r) None db)))))"

end
