(* ===== verification/CsvText.thy ===== *)
theory CsvText
  imports NumberText
begin

text \<open>
  Python's \<open>csv\<close> module as the sources use it (\<^verbatim>\<open>app/core/upload_guard.py\<close>, \<^verbatim>\<open>app/core/xlsx_import.py\<close>): the reader's state
  machine for the \<open>excel\<close> dialect with a chosen delimiter and a limit on the length of a field, on the lines of an
  \<open>io.StringIO\<close> (split after every line feed), and the writer with minimal quoting and the line terminator \<open>"\n"\<close>.
\<close>

section \<open>The reader\<close>

abbreviation (input) QUOTE :: nat where "QUOTE \<equiv> 34"
abbreviation (input) LF :: nat where "LF \<equiv> 10"
abbreviation (input) CR :: nat where "CR \<equiv> 13"

datatype csv_state = Start_Record | Start_Field | In_Field | In_Quoted | Quote_In_Quoted | Eat_Crnl

datatype csv_error = Field_too_large | Stray_newline

record csv_parser =
  cp_state :: csv_state
  cp_field :: utext
  cp_fields :: "utext list"

definition fresh_parser :: csv_parser where
  "fresh_parser = \<lparr>cp_state = Start_Record, cp_field = [], cp_fields = []\<rparr>"

definition save_field :: "csv_state \<Rightarrow> csv_parser \<Rightarrow> csv_parser" where
  "save_field st p = p\<lparr>cp_state := st, cp_field := [], cp_fields := cp_fields p @ [cp_field p]\<rparr>"

definition add_char :: "nat \<Rightarrow> csv_state \<Rightarrow> nat \<Rightarrow> csv_parser \<Rightarrow> csv_error + csv_parser" where
  "add_char limit st c p =
     (if limit \<le> length (cp_field p) then Inl Field_too_large else Inr (p\<lparr>cp_state := st, cp_field := cp_field p @ [c]\<rparr>))"

text \<open>One character; \<open>None\<close> is the end of a line.\<close>

definition is_newline :: "nat option \<Rightarrow> bool" where
  "is_newline c = (c \<in> {None, Some LF, Some CR})"

definition end_of_record :: "nat option \<Rightarrow> csv_state" where
  "end_of_record c = (if c = None then Start_Record else Eat_Crnl)"

definition start_field :: "nat \<Rightarrow> nat \<Rightarrow> nat option \<Rightarrow> csv_parser \<Rightarrow> csv_error + csv_parser" where
  "start_field limit d c p =
     (if is_newline c then Inr (save_field (end_of_record c) p)
      else if c = Some QUOTE then Inr (p\<lparr>cp_state := In_Quoted\<rparr>)
      else if c = Some d then Inr (save_field Start_Field p)
      else add_char limit In_Field (the c) p)"

definition csv_char :: "nat \<Rightarrow> nat \<Rightarrow> nat option \<Rightarrow> csv_parser \<Rightarrow> csv_error + csv_parser" where
  "csv_char limit d c p =
     (case cp_state p of
        Start_Record \<Rightarrow>
          if c = None then Inr p
          else if is_newline c then Inr (p\<lparr>cp_state := Eat_Crnl\<rparr>)
          else start_field limit d c p
      | Start_Field \<Rightarrow> start_field limit d c p
      | In_Field \<Rightarrow>
          if is_newline c then Inr (save_field (end_of_record c) p)
          else if c = Some d then Inr (save_field Start_Field p)
          else add_char limit In_Field (the c) p
      | In_Quoted \<Rightarrow>
          if c = None then Inr p
          else if c = Some QUOTE then Inr (p\<lparr>cp_state := Quote_In_Quoted\<rparr>)
          else add_char limit In_Quoted (the c) p
      | Quote_In_Quoted \<Rightarrow>
          if c = Some QUOTE then add_char limit In_Quoted QUOTE p
          else if c = Some d then Inr (save_field Start_Field p)
          else if is_newline c then Inr (save_field (end_of_record c) p)
          else add_char limit In_Field (the c) p
      | Eat_Crnl \<Rightarrow>
          if c = None then Inr (p\<lparr>cp_state := Start_Record\<rparr>)
          else if is_newline c then Inr p
          else Inl Stray_newline)"

fun csv_chars :: "nat \<Rightarrow> nat \<Rightarrow> nat option list \<Rightarrow> csv_parser \<Rightarrow> csv_error + csv_parser" where
  "csv_chars limit d [] p = Inr p"
| "csv_chars limit d (c # cs) p = (case csv_char limit d c p of Inl e \<Rightarrow> Inl e | Inr p' \<Rightarrow> csv_chars limit d cs p')"

text \<open>The lines of a \<open>StringIO\<close>: each keeps its line feed, the last may have none.\<close>

fun text_lines :: "utext \<Rightarrow> utext list" where
  "text_lines [] = []"
| "text_lines (c # cs) =
     (if c = LF then [LF] # text_lines cs
      else case text_lines cs of [] \<Rightarrow> [[c]] | l # ls \<Rightarrow> (c # l) # ls)"

datatype csv_next = Row "utext list" "utext list" | No_more | Csv_error csv_error

text \<open>\<open>next(reader)\<close> on the lines that are left: a row and the lines after it.\<close>

fun next_row :: "nat \<Rightarrow> nat \<Rightarrow> utext list \<Rightarrow> csv_parser \<Rightarrow> csv_next" where
  "next_row limit d [] p =
     (if cp_field p \<noteq> [] \<or> cp_state p = In_Quoted then Row (cp_fields p @ [cp_field p]) [] else No_more)"
| "next_row limit d (l # ls) p =
     (case csv_chars limit d (map Some l @ [None]) p of
        Inl e \<Rightarrow> Csv_error e
      | Inr p' \<Rightarrow> if cp_state p' = Start_Record then Row (cp_fields p') ls else next_row limit d ls p')"

definition csv_next :: "nat \<Rightarrow> nat \<Rightarrow> utext list \<Rightarrow> csv_next" where
  "csv_next limit d ls = next_row limit d ls fresh_parser"

lemma next_row_shorter: "next_row limit d ls p = Row r rest \<Longrightarrow> ls \<noteq> [] \<Longrightarrow> length rest < length ls"
proof (induction ls arbitrary: p)
  case (Cons l ls)
  show ?case
  proof (cases "csv_chars limit d (map Some l @ [None]) p")
    case (Inr p')
    show ?thesis
    proof (cases "cp_state p' = Start_Record")
      case False
      with Cons.prems(1) Inr have n: "next_row limit d ls p' = Row r rest" by simp
      show ?thesis
      proof (cases "ls = []")
        case True
        with n show ?thesis by (simp split: if_splits)
      next
        case False
        from Cons.IH [OF n this] show ?thesis by simp
      qed
    qed (use Cons.prems Inr in simp)
  qed (use Cons.prems in simp)
qed simp

lemma csv_next_shorter: "csv_next limit d ls = Row r rest \<Longrightarrow> length rest < length ls"
  using next_row_shorter [of limit d ls fresh_parser r rest]
  by (cases "ls = []") (simp_all add: csv_next_def fresh_parser_def)

section \<open>The writer\<close>

text \<open>A field is quoted when it contains the delimiter, the quote character, a line feed or a carriage return; a row of one
  empty field is written as two quotes.\<close>

definition needs_quotes :: "nat \<Rightarrow> utext \<Rightarrow> bool" where
  "needs_quotes d f = (d \<in> set f \<or> QUOTE \<in> set f \<or> LF \<in> set f \<or> CR \<in> set f)"

definition quoted :: "utext \<Rightarrow> utext" where
  "quoted f = [QUOTE] @ concat (map (\<lambda>c. if c = QUOTE then [QUOTE, QUOTE] else [c]) f) @ [QUOTE]"

definition written_field :: "nat \<Rightarrow> utext \<Rightarrow> utext" where
  "written_field d f = (if needs_quotes d f then quoted f else f)"

fun joined :: "nat \<Rightarrow> utext list \<Rightarrow> utext" where
  "joined d [] = []"
| "joined d [f] = f"
| "joined d (f # fs) = f @ [d] @ joined d fs"

definition write_row :: "nat \<Rightarrow> utext list \<Rightarrow> utext" where
  "write_row d fs = (if fs = [[]] then [QUOTE, QUOTE] else joined d (map (written_field d) fs)) @ [LF]"

definition write_rows :: "nat \<Rightarrow> utext list list \<Rightarrow> utext" where
  "write_rows d rows = concat (map (write_row d) rows)"

end
