(* ===== verification/Columns.thy ===== *)
theory Columns
  imports NumberText AuditTrail
begin

text \<open>
  The column mapper's parts (\<^verbatim>\<open>app/sources/csv_mapper.py\<close>): finding the columns of an order export among a client's
  headers, and reading a whole column of numbers, statuses or dates. \<open>nfkd\<close> is Unicode's compatibility decomposition
  (\<open>unicodedata.normalize\<close>), \<open>parse\<close> and \<open>guess\<close> are pandas' date parsers for one format and for any, which decide
  on every cell by itself; they are parameters.
\<close>

section \<open>Headers\<close>

datatype canon = OrderId | Date | Product | Category | Quantity | Revenue | Cost | Profit | Discount | Status

definition ALIASES :: "(canon \<times> string list) list" where
  "ALIASES = [
    (OrderId,
      [''orderid'', ''id'', ''orderno'', ''ordernumber'', ''nrzamowienia'', ''numerzamowienia'', ''zamowienie'',
       ''idzamowienia'', ''numer'', ''nr'', ''transactionid'', ''idtransakcji'', ''invoice'', ''faktura'',
       ''nrfaktury'']),
    (Date,
      [''date'', ''orderdate'', ''data'', ''datazamowienia'', ''datasprzedazy'', ''datazakupu'', ''created'',
       ''createdat'', ''datautworzenia'', ''purchasedate'', ''datatransakcji'', ''czas'', ''time'', ''timestamp'']),
    (Product,
      [''product'', ''produkt'', ''nazwaproduktu'', ''productname'', ''item'', ''itemname'', ''nazwa'', ''towar'',
       ''title'', ''tytul'', ''sku'', ''nazwatowaru'', ''oferta'', ''offer'']),
    (Category,
      [''category'', ''kategoria'', ''productcategory'', ''kategoriaproduktu'', ''grupa'', ''group'', ''typ'',
       ''type'', ''dzial'', ''branza'']),
    (Quantity,
      [''quantity'', ''qty'', ''ilosc'', ''liczba'', ''sztuk'', ''szt'', ''units'', ''count'', ''iloscsztuk'']),
    (Revenue,
      [''revenue'', ''przychod'', ''total'', ''amount'', ''kwota'', ''wartosc'', ''wartoscbrutto'', ''cenabrutto'',
       ''brutto'', ''kwotabrutto'', ''sales'', ''sprzedaz'', ''cena'', ''price'', ''ordertotal'', ''totalprice'',
       ''wartosczamowienia'', ''kwotazamowienia'', ''razem'', ''sum'', ''suma'', ''netto'', ''kwotanetto'',
       ''wartoscnetto'']),
    (Cost,
      [''cost'', ''koszt'', ''cogs'', ''kosztzakupu'', ''cenazakupu'', ''purchaseprice'', ''unitcost'',
       ''kosztwlasny'', ''kosztjednostkowy'', ''buyprice'', ''zakup'']),
    (Profit,
      [''profit'', ''zysk'', ''marza'', ''margin'', ''marzakwotowa'', ''dochod'', ''grossprofit'', ''zyskbrutto'']),
    (Discount,
      [''discount'', ''rabat'', ''znizka'', ''upust'', ''discountpct'', ''rabatproc'', ''promocja'', ''kupon'',
       ''coupon'']),
    (Status,
      [''status'', ''orderstatus'', ''statuszamowienia'', ''stan'', ''state'', ''paymentstatus'', ''statusplatnosci''])]"

definition STATUS_MAP :: "(string \<times> string) list" where
  "STATUS_MAP = [
    (''completed'', ''completed''), (''complete'', ''completed''), (''zrealizowane'', ''completed''),
    (''zrealizowano'', ''completed''), (''done'', ''completed''), (''paid'', ''completed''),
    (''oplacone'', ''completed''), (''zaplacone'', ''completed''), (''wyslane'', ''completed''),
    (''shipped'', ''completed''), (''delivered'', ''completed''), (''dostarczone'', ''completed''),
    (''ok'', ''completed''), (''finished'', ''completed''), (''zakonczone'', ''completed''),
    (''success'', ''completed''), (''refunded'', ''refunded''), (''refund'', ''refunded''),
    (''zwrot'', ''refunded''), (''zwrocone'', ''refunded''), (''zwrocono'', ''refunded''),
    (''returned'', ''refunded''), (''reklamacja'', ''refunded''), (''cancelled'', ''cancelled''),
    (''canceled'', ''cancelled''), (''anulowane'', ''cancelled''), (''anulowano'', ''cancelled''),
    (''cancel'', ''cancelled''), (''odrzucone'', ''cancelled''), (''failed'', ''cancelled''),
    (''pending'', ''pending''), (''oczekujace'', ''pending''), (''oczekuje'', ''pending''),
    (''wtrakcie'', ''pending''), (''processing'', ''pending''), (''new'', ''pending''), (''nowe'', ''pending''),
    (''unpaid'', ''pending''), (''nieoplacone'', ''pending''), (''open'', ''pending'')]"

text \<open>\<open>_norm\<close>: decompose, drop what is not ASCII, lower-case, keep letters and digits.\<close>

definition norm_char :: "nat \<Rightarrow> nat" where
  "norm_char c = (if 65 \<le> c \<and> c \<le> 90 then c + 32 else c)"

definition norm_text :: "(utext \<Rightarrow> utext) \<Rightarrow> utext \<Rightarrow> utext" where
  "norm_text nfkd s =
     filter (\<lambda>c. (97 \<le> c \<and> c \<le> 122) \<or> (48 \<le> c \<and> c \<le> 57)) (map norm_char (filter (\<lambda>c. c < 128) (nfkd s)))"

text \<open>The keys of a dictionary filled from a list, in order; the first of several.\<close>

definition dict_keys :: "'a list \<Rightarrow> 'a list" where
  "dict_keys xs = rev (remdups (rev xs))"

definition next_free :: "(utext \<Rightarrow> bool) \<Rightarrow> utext list \<Rightarrow> utext list \<Rightarrow> utext option" where
  "next_free P columns used =
     (case List.find (\<lambda>c. P c \<and> c \<notin> set used) (dict_keys columns) of
        Some c \<Rightarrow> if c = [] then None else Some c
      | None \<Rightarrow> None)"

fun first_alias :: "(string \<Rightarrow> utext option) \<Rightarrow> string list \<Rightarrow> utext option" where
  "first_alias try [] = None"
| "first_alias try (a # as) = (case try a of Some c \<Rightarrow> Some c | None \<Rightarrow> first_alias try as)"

definition exact_alias :: "(utext \<Rightarrow> utext) \<Rightarrow> utext list \<Rightarrow> utext list \<Rightarrow> string \<Rightarrow> utext option" where
  "exact_alias nfkd columns used a = next_free (\<lambda>c. norm_text nfkd c = utext_of a) columns used"

definition part_alias :: "(utext \<Rightarrow> utext) \<Rightarrow> utext list \<Rightarrow> utext list \<Rightarrow> string \<Rightarrow> utext option" where
  "part_alias nfkd columns used a =
     (if length a < 4 then None else next_free (\<lambda>c. sublist (utext_of a) (norm_text nfkd c)) columns used)"

text \<open>One pass over the aliases. The mapping is the dictionary in insertion order; \<open>used\<close> are its values. A column that
  is already mapped is skipped, which only the second pass can meet.\<close>

type_synonym mapping = "(canon \<times> utext) list"

definition map_step :: "(utext list \<Rightarrow> string \<Rightarrow> utext option) \<Rightarrow> canon \<times> string list \<Rightarrow> mapping \<Rightarrow> mapping" where
  "map_step try ca m =
     (if fst ca \<in> fst ` set m then m
      else case first_alias (try (map snd m)) (snd ca) of None \<Rightarrow> m | Some c \<Rightarrow> m @ [(fst ca, c)])"

definition detect_mapping :: "(utext \<Rightarrow> utext) \<Rightarrow> utext list \<Rightarrow> mapping \<times> utext list" where
  "detect_mapping nfkd columns =
     (let m1 = fold (map_step (exact_alias nfkd columns)) ALIASES [];
          m2 = fold (map_step (part_alias nfkd columns)) ALIASES m1
      in (m2, filter (\<lambda>c. c \<notin> snd ` set m2) columns))"

section \<open>Columns of numbers\<close>

datatype series = NumericSeries "cell list" | ObjectSeries "cell list"

fun cells_of :: "series \<Rightarrow> cell list" where
  "cells_of (NumericSeries cs) = cs"
| "cells_of (ObjectSeries cs) = cs"

text \<open>The values, how many rows have a flag, and the first text with it (only texts read as numbers are shown). A text is
  parsed once; the rows look their value up.\<close>

type_synonym parsed_column = "rat option list \<times> (number_flag \<Rightarrow> nat) \<times> (number_flag \<Rightarrow> utext option)"

definition to_number_series_ex :: "(nat \<Rightarrow> nat option) \<Rightarrow> series \<Rightarrow> parsed_column" where
  "to_number_series_ex dv col =
     (case col of
        NumericSeries cs \<Rightarrow>
          (map (\<lambda>c. case c of Number x \<Rightarrow> Some x | _ \<Rightarrow> None) cs,
           (\<lambda>f. if f = Invalid then length (filter (\<lambda>c. c = Infinity) cs) else 0), \<lambda>f. None)
      | ObjectSeries cs \<Rightarrow>
          let uniq = dict_keys (filter (\<lambda>c. c \<noteq> Missing) cs);
              parsed = map (\<lambda>u. (u, parse_number dv u)) uniq;
              flagged = filter (\<lambda>p. snd (snd p) \<noteq> None) parsed
          in (map (\<lambda>c. case map_of parsed c of Some r \<Rightarrow> fst r | None \<Rightarrow> None) cs,
              (\<lambda>f. length (filter (\<lambda>c. case map_of flagged c of Some r \<Rightarrow> snd r = Some f | None \<Rightarrow> False) cs)),
              (\<lambda>f. case List.find (\<lambda>p. snd (snd p) = Some f) flagged of
                     Some (Text s, _) \<Rightarrow> Some (take 24 (u_strip s))
                   | _ \<Rightarrow> None)))"

definition to_number_series :: "(nat \<Rightarrow> nat option) \<Rightarrow> series \<Rightarrow> rat option list" where
  "to_number_series dv col = fst (to_number_series_ex dv col)"

section \<open>Columns of statuses\<close>

definition completed :: utext where "completed = utext_of ''completed''"

definition status_of :: "(utext \<Rightarrow> utext) \<Rightarrow> utext \<Rightarrow> utext" where
  "status_of nfkd s =
     (case List.find (\<lambda>p. utext_of (fst p) = norm_text nfkd s) STATUS_MAP of Some p \<Rightarrow> utext_of (snd p) | None \<Rightarrow> completed)"

definition normalize_status_series :: "(utext \<Rightarrow> utext) \<Rightarrow> utext option list \<Rightarrow> utext list" where
  "normalize_status_series nfkd col =
     (let filled = map (\<lambda>c. case c of Some s \<Rightarrow> s | None \<Rightarrow> completed) col;
          lookup = map (\<lambda>v. (v, status_of nfkd v)) (dict_keys filled)
      in map (\<lambda>v. the (map_of lookup v)) filled)"

section \<open>Columns of dates\<close>

definition DATE_FORMATS :: "string list" where
  "DATE_FORMATS = [''%Y-%m-%d'', ''%d.%m.%Y'', ''%d/%m/%Y'', ''%d-%m-%Y'', ''%Y/%m/%d'', ''%Y-%m-%d %H:%M:%S'', ''%d.%m.%Y %H:%M'']"

text \<open>\<open>Series.mask\<close>, and the loop over the formats while rows remain: the result so far, the rows no format has read, the
  number of formats that read some.\<close>

definition mask :: "bool list \<Rightarrow> 'a list \<Rightarrow> 'a list \<Rightarrow> 'a list" where
  "mask hits new old = map (\<lambda>(h, n, x). if h then n else x) (zip hits (zip new old))"

fun format_loop ::
  "(string \<Rightarrow> utext \<Rightarrow> stamp option) \<Rightarrow> utext option list \<Rightarrow> string list \<Rightarrow> stamp option list \<times> bool list \<times> nat \<Rightarrow>
   stamp option list \<times> bool list \<times> nat" where
  "format_loop parse s [] st = st"
| "format_loop parse s (f # fs) (res, remaining, n) =
     (if True \<notin> set remaining then (res, remaining, n)
      else
        let parsed = map (\<lambda>c. case c of Some t \<Rightarrow> parse f t | None \<Rightarrow> None) s;
            hits = map2 (\<lambda>p r. p \<noteq> None \<and> r) parsed remaining
        in if True \<in> set hits
           then format_loop parse s fs (mask hits parsed res, map2 (\<lambda>r h. r \<and> \<not> h) remaining hits, n + 1)
           else format_loop parse s fs (res, remaining, n))"

text \<open>The dates, the number of formats that read some rows, and the number of rows only the guess has read.\<close>

definition parse_dates_ex ::
  "(string \<Rightarrow> utext \<Rightarrow> stamp option) \<Rightarrow> (utext \<Rightarrow> stamp option) \<Rightarrow> utext option list \<Rightarrow> stamp option list \<times> nat \<times> nat" where
  "parse_dates_ex parse guess col =
     (let s = map (map_option u_strip) col;
          non_empty = map (\<lambda>c. c \<noteq> None \<and> c \<noteq> Some []) s;
          none = replicate (length s) None
      in if True \<notin> set non_empty then (none, 0, 0)
         else
           let (res, remaining, formats) = format_loop parse s DATE_FORMATS (none, non_empty, 0)
           in if True \<in> set remaining then
                let fb = map2 (\<lambda>c r. if r then (case c of Some t \<Rightarrow> guess t | None \<Rightarrow> None) else None) s remaining;
                    hits = map (\<lambda>p. p \<noteq> None) fb
                in if True \<in> set hits then (mask hits fb res, formats, length (filter id hits)) else (res, formats, 0)
              else (res, formats, 0))"

definition parse_dates ::
  "(string \<Rightarrow> utext \<Rightarrow> stamp option) \<Rightarrow> (utext \<Rightarrow> stamp option) \<Rightarrow> utext option list \<Rightarrow> stamp option list" where
  "parse_dates parse guess col = fst (parse_dates_ex parse guess col)"

end
