(* ===== verification/UploadGuard.thy ===== *)
theory UploadGuard
  imports CsvText Columns
begin

text \<open>
  The checks of an uploaded file before it is stored (\<^verbatim>\<open>app/core/upload_guard.py\<close>). Bytes are a \<open>string\<close>, decoded text is
  a list of code points. The codecs, \<open>csv.Sniffer\<close> and SHA-256 are parameters; a directory is the list of its entries, and
  \<open>fails\<close> tells the entries whose calls raise \<open>OSError\<close> (gone since the listing, or locked).
\<close>

section \<open>Limits and refusals\<close>

definition MAX_UPLOAD_BYTES :: nat where "MAX_UPLOAD_BYTES = 10485760"
definition MAX_FILENAME_LEN :: nat where "MAX_FILENAME_LEN = 128"
definition MAX_RECORDS :: nat where "MAX_RECORDS = 100000"
definition MAX_CSV_FIELD_BYTES :: nat where "MAX_CSV_FIELD_BYTES = 65536"
definition CHUNK_SIZE :: nat where "CHUNK_SIZE = 65536"
definition ALLOWED_UPLOAD_SUFFIXES :: "string list" where "ALLOWED_UPLOAD_SUFFIXES = [''.csv'', ''.xlsx'']"
definition REQUIRED_CANON_COLUMNS :: "canon list" where "REQUIRED_CANON_COLUMNS = [Revenue, Date]"

text \<open>\<open>UploadRejected\<close>: the reason and the HTTP status.\<close>

datatype refusal = Rejected string nat

section \<open>Names\<close>

definition ILLEGAL_IN_FILENAME :: "string list" where
  "ILLEGAL_IN_FILENAME = [''..'', ''/'', [CHR 92], [CHR 0x00]]"

definition is_xlsx_name :: "string \<Rightarrow> bool" where
  "is_xlsx_name name = suffix ''.xlsx'' (py_lower name)"

definition validate_original_filename :: "string option \<Rightarrow> refusal + string" where
  "validate_original_filename name =
     (case name of
        None \<Rightarrow> Inl (Rejected ''empty_filename'' 400)
      | Some n \<Rightarrow>
          if py_strip n = [] then Inl (Rejected ''empty_filename'' 400)
          else if length n > MAX_FILENAME_LEN then Inl (Rejected ''filename_too_long'' 400)
          else if \<exists>bad \<in> set ILLEGAL_IN_FILENAME. sublist bad n then Inl (Rejected ''filename_illegal_chars'' 400)
          else if \<not> (\<exists>s \<in> set ALLOWED_UPLOAD_SUFFIXES. suffix s (py_lower n)) then Inl (Rejected ''extension_not_allowed'' 415)
          else Inr n)"

section \<open>Files of the directory of uploads\<close>

record dir_entry =
  de_name :: string
  de_is_file :: bool
  de_size :: nat
  de_mtime :: rat

definition STALE_TMP_AGE_SEC :: rat where "STALE_TMP_AGE_SEC = 900"

text \<open>\<open>^[0-9a-f]{32}\.tmp$\<close> with \<open>match\<close>: the \<open>$\<close> also matches before a final newline.\<close>

definition tmp_name :: "string \<Rightarrow> bool" where
  "tmp_name n =
     (list_all is_lower_hex (take 32 n) \<and> 32 \<le> length n \<and> (drop 32 n = ''.tmp'' \<or> drop 32 n = ''.tmp'' @ [CHR 10]))"

text \<open>The sweep: how many it removed and what is left. \<open>max_age_sec = 0\<close> takes all.\<close>

definition stale :: "rat \<Rightarrow> rat \<Rightarrow> dir_entry \<Rightarrow> bool" where
  "stale max_age cutoff e = (max_age \<le> 0 \<or> de_mtime e \<le> cutoff)"

definition swept :: "(string \<Rightarrow> bool) \<Rightarrow> rat \<Rightarrow> rat \<Rightarrow> dir_entry \<Rightarrow> bool" where
  "swept fails max_age cutoff e =
     (de_is_file e \<and> tmp_name (de_name e) \<and> stale max_age cutoff e \<and> \<not> fails (de_name e))"

definition cleanup_stale_tmp :: "(string \<Rightarrow> bool) \<Rightarrow> rat \<Rightarrow> rat \<Rightarrow> dir_entry list \<Rightarrow> nat \<times> dir_entry list" where
  "cleanup_stale_tmp fails max_age now entries =
     (let cutoff = now - max_age in
      (length (filter (swept fails max_age cutoff) entries), filter (\<lambda>e. \<not> swept fails max_age cutoff e) entries))"

definition dir_usage_bytes :: "(string \<Rightarrow> bool) \<Rightarrow> dir_entry list \<Rightarrow> nat" where
  "dir_usage_bytes fails entries = sum_list (map de_size (filter (\<lambda>e. de_is_file e \<and> \<not> fails (de_name e)) entries))"

text \<open>\<open>remove_quietly\<close>: up to six attempts, a pause after each that finds the file locked.\<close>

datatype attempt = Unlinked | Locked | Os_error

definition REMOVE_ATTEMPTS :: nat where "REMOVE_ATTEMPTS = 6"

fun remove_attempts :: "nat \<Rightarrow> (nat \<Rightarrow> attempt) \<Rightarrow> nat \<Rightarrow> bool" where
  "remove_attempts 0 try i = False"
| "remove_attempts (Suc n) try i =
     (case try i of Unlinked \<Rightarrow> True | Os_error \<Rightarrow> False | Locked \<Rightarrow> remove_attempts n try (i + 1))"

definition remove_quietly :: "(nat \<Rightarrow> attempt) \<Rightarrow> bool" where
  "remove_quietly try = remove_attempts REMOVE_ATTEMPTS try 0"

section \<open>Decoding\<close>

record codecs =
  cd_utf8_sig :: "string \<Rightarrow> utext option"
  cd_utf8 :: "string \<Rightarrow> utext option"
  cd_cp1250 :: "string \<Rightarrow> utext option"

definition BOM :: string where "BOM = [char_of (239 :: nat), char_of (187 :: nat), char_of (191 :: nat)]"

definition decode_strict :: "codecs \<Rightarrow> string \<Rightarrow> refusal + utext \<times> string" where
  "decode_strict cd raw =
     (case (if prefix BOM raw then cd_utf8_sig cd raw else None) of
        Some t \<Rightarrow> Inr (t, ''utf-8-sig'')
      | None \<Rightarrow>
          (case cd_utf8 cd raw of
             Some t \<Rightarrow> Inr (t, ''utf-8'')
           | None \<Rightarrow>
               (case cd_cp1250 cd raw of
                  Some t \<Rightarrow> Inr (t, ''cp1250'')
                | None \<Rightarrow> Inl (Rejected ''decode_failed'' 422))))"

section \<open>Rows\<close>

abbreviation (input) SEMICOLON :: nat where "SEMICOLON \<equiv> 59"
abbreviation (input) TAB :: nat where "TAB \<equiv> 9"

text \<open>The delimiter the sniffer finds, else the most frequent of the three (the first of equals), else a comma.\<close>

definition char_count :: "utext \<Rightarrow> nat \<Rightarrow> nat" where
  "char_count s c = length (filter (\<lambda>x. x = c) s)"

definition sniff_delimiter :: "(utext \<Rightarrow> nat option) \<Rightarrow> utext \<Rightarrow> nat" where
  "sniff_delimiter sniff sample =
     (case sniff sample of
        Some d \<Rightarrow> d
      | None \<Rightarrow>
          let n = char_count sample;
              best = (if n COMMA \<ge> n SEMICOLON \<and> n COMMA \<ge> n TAB then COMMA else if n SEMICOLON \<ge> n TAB then SEMICOLON else TAB)
          in if n best > 0 then best else COMMA)"

definition blank_row :: "utext list \<Rightarrow> bool" where
  "blank_row r = list_all (\<lambda>c. u_strip c = []) r"

definition csv_refusal :: "csv_error \<Rightarrow> refusal" where
  "csv_refusal e = (case e of Field_too_large \<Rightarrow> Rejected ''field_too_large'' 422 | Stray_newline \<Rightarrow> Rejected ''parser_error'' 422)"

text \<open>The generator run to its end: blank rows are skipped, one row too many ends it.\<close>

function data_rows :: "nat \<Rightarrow> nat \<Rightarrow> nat \<Rightarrow> utext list \<Rightarrow> refusal + utext list list" where
  "data_rows max_records d count ls =
     (case csv_next MAX_CSV_FIELD_BYTES d ls of
        No_more \<Rightarrow> Inr []
      | Csv_error e \<Rightarrow> Inl (csv_refusal e)
      | Row r rest \<Rightarrow>
          if blank_row r then data_rows max_records d count rest
          else if count + 1 > max_records then Inl (Rejected ''too_many_records'' 413)
          else (case data_rows max_records d (count + 1) rest of Inl e \<Rightarrow> Inl e | Inr rs \<Rightarrow> Inr (r # rs)))"
  by pat_completeness auto
termination by (relation "measure (\<lambda>(_, _, _, ls). length ls)") (auto dest: csv_next_shorter)

declare data_rows.simps [simp del]

definition validated_rows :: "(utext \<Rightarrow> nat option) \<Rightarrow> nat \<Rightarrow> utext \<Rightarrow> refusal + utext list \<times> utext list list" where
  "validated_rows sniff max_records t =
     (let d = sniff_delimiter sniff (take 8192 t) in
      case csv_next MAX_CSV_FIELD_BYTES d (text_lines t) of
        No_more \<Rightarrow> Inl (Rejected ''header_missing'' 422)
      | Csv_error e \<Rightarrow> Inl (csv_refusal e)
      | Row header rest \<Rightarrow>
          if blank_row header then Inl (Rejected ''header_missing'' 422)
          else (case data_rows max_records d 0 rest of Inl e \<Rightarrow> Inl e | Inr rs \<Rightarrow> Inr (header, rs)))"

definition assert_schema :: "(utext \<Rightarrow> utext) \<Rightarrow> utext list \<Rightarrow> refusal option" where
  "assert_schema nfkd header =
     (let (m, _) = detect_mapping nfkd (map u_strip header)
      in if \<exists>k \<in> set REQUIRED_CANON_COLUMNS. k \<notin> fst ` set m then Some (Rejected ''schema_mismatch'' 422) else None)"

text \<open>The encoding, the header and the number of records.\<close>

definition py_bytes_strip_empty :: "string \<Rightarrow> bool" where
  "py_bytes_strip_empty raw = list_all (\<lambda>c. c \<in> {CHR 32, CHR 9, CHR 10, CHR 11, CHR 12, CHR 13}) raw"

definition validate_csv_bytes ::
  "codecs \<Rightarrow> (utext \<Rightarrow> nat option) \<Rightarrow> (utext \<Rightarrow> utext) \<Rightarrow> nat \<Rightarrow> string \<Rightarrow> refusal + string \<times> utext list \<times> nat" where
  "validate_csv_bytes cd sniff nfkd max_records raw =
     (if py_bytes_strip_empty raw then Inl (Rejected ''file_empty'' 400)
      else case decode_strict cd raw of
        Inl e \<Rightarrow> Inl e
      | Inr (t, enc) \<Rightarrow>
          (case validated_rows sniff max_records t of
             Inl e \<Rightarrow> Inl e
           | Inr (header, rs) \<Rightarrow>
               (case assert_schema nfkd header of Some e \<Rightarrow> Inl e | None \<Rightarrow> Inr (enc, header, length rs))))"

section \<open>Audit events of the deployment's log\<close>

definition AUDIT_EVENT_ACTIONS :: "string list" where "AUDIT_EVENT_ACTIONS = [''upload'', ''run'', ''auth_denied'']"

definition AUDIT_ALLOWED_KEYS :: "string list" where
  "AUDIT_ALLOWED_KEYS = [''event_id'', ''ts'', ''deployment_id'', ''action'', ''decision'', ''reason_code'', ''size_bytes'',
     ''upload_id'', ''encoding'', ''content_sha256'', ''pipeline'', ''run_id'', ''request_id'', ''client_ip'', ''route'']"

record audit_fields =
  af_upload_id :: "string option"
  af_encoding :: "string option"
  af_content_sha256 :: "string option"
  af_pipeline :: "string option"
  af_run_id :: "string option"
  af_request_id :: "string option"
  af_client_ip :: "string option"
  af_route :: "string option"

definition optional_fields :: "audit_fields \<Rightarrow> (string \<times> string option) list" where
  "optional_fields f =
     [(''upload_id'', af_upload_id f), (''encoding'', af_encoding f), (''content_sha256'', af_content_sha256 f),
      (''pipeline'', af_pipeline f), (''run_id'', af_run_id f), (''request_id'', af_request_id f),
      (''client_ip'', af_client_ip f), (''route'', af_route f)]"

text \<open>\<open>ts\<close> is the clock in milliseconds, the identifier is fresh; both are arguments.\<close>

definition build_audit_event ::
  "ident \<Rightarrow> int \<Rightarrow> bool \<Rightarrow> string \<Rightarrow> string \<Rightarrow> nat \<Rightarrow> string \<Rightarrow> audit_fields \<Rightarrow> exc + pydict" where
  "build_audit_event event_id ts allowed reason deployment_id size_bytes action f =
     (if action \<notin> set AUDIT_EVENT_ACTIONS then Inl (PyRaise ''ValueError'')
      else Inr ([(''event_id'', PStr event_id), (''ts'', PInt ts), (''deployment_id'', PStr deployment_id), (''action'', PStr action),
                 (''decision'', PStr (if allowed then ''allow'' else ''deny'')), (''reason_code'', PStr reason),
                 (''size_bytes'', PInt (int size_bytes))] @
                List.map_filter (\<lambda>(k, v). case v of Some s \<Rightarrow> if s = [] then None else Some (k, PStr s) | None \<Rightarrow> None)
                  (optional_fields f)))"

end
