(* ===== verification/XlsxImport.thy ===== *)
theory XlsxImport
  imports UploadGuard Jobs
begin

text \<open>
  Workbooks (\<^verbatim>\<open>app/core/xlsx_import.py\<close>): the checks of the archive before any of its XML is parsed, and the conversion of
  one sheet to CSV. The archive is the list of its entries with their contents (\<open>None\<close> when reading one raises), the
  workbook is what \<open>openpyxl\<close> gives: the names of the sheets and their rows, and whether the reader raises after them.
  The format \<open>.15g\<close> and UTF-8 are parameters. The flag \<open>cancel\<close> only ends a thread nobody waits for any more.
\<close>

section \<open>Limits\<close>

definition MAX_XLSX_ROWS :: nat where "MAX_XLSX_ROWS = 200000"
definition MAX_XLSX_COLUMNS :: nat where "MAX_XLSX_COLUMNS = 256"
definition MAX_XLSX_SHEETS :: nat where "MAX_XLSX_SHEETS = 20"
definition MAX_XLSX_ENTRIES :: nat where "MAX_XLSX_ENTRIES = 5000"
definition MAX_XLSX_UNCOMPRESSED_BYTES :: nat where "MAX_XLSX_UNCOMPRESSED_BYTES = 48 * 1024 * 1024"
definition MAX_XLSX_RATIO :: nat where "MAX_XLSX_RATIO = 100"
definition RATIO_CHECK_FROM_BYTES :: nat where "RATIO_CHECK_FROM_BYTES = 10 * 1024 * 1024"
definition MAX_XLSX_SCANNED_ROWS :: nat where "MAX_XLSX_SCANNED_ROWS = 1048577"
definition MAX_SHARED_STRINGS :: nat where "MAX_SHARED_STRINGS = 200000"
definition MAX_SHARED_STRINGS_BYTES :: nat where "MAX_SHARED_STRINGS_BYTES = 24 * 1024 * 1024"
definition SCAN_CHUNK_BYTES :: nat where "SCAN_CHUNK_BYTES = 256 * 1024"
definition MAX_CONTENT_TYPES_BYTES :: nat where "MAX_CONTENT_TYPES_BYTES = 1024 * 1024"
definition SCAN_OVERLAP :: nat where "SCAN_OVERLAP = 64"

definition xlsx_invalid :: refusal where "xlsx_invalid = Rejected ''xlsx_invalid'' 415"
definition xlsx_too_large :: refusal where "xlsx_too_large = Rejected ''xlsx_unpacked_too_large'' 413"
definition xlsx_macros :: refusal where "xlsx_macros = Rejected ''xlsx_macros_not_allowed'' 415"

section \<open>Scanning a part\<close>

definition XML_BOMS :: "string list" where
  "XML_BOMS = [[char_of (255 :: nat), char_of (254 :: nat)], [char_of (254 :: nat), char_of (255 :: nat)],
     [char_of (0 :: nat), char_of (0 :: nat), char_of (254 :: nat), char_of (255 :: nat)],
     [char_of (255 :: nat), char_of (254 :: nat), char_of (0 :: nat), char_of (0 :: nat)]]"

definition XML_FORBIDDEN_MARKERS :: "string list" where
  "XML_FORBIDDEN_MARKERS = [''<!DOCTYPE'', ''<!ENTITY'']"

text \<open>\<open><(?:\w+:)?si[\s/>]\<close> at the front of a text: the length of the match. No match contains a second \<open><\<close>, so the matches
  of \<open>finditer\<close> are the positions where one begins.\<close>

definition word_byte :: "char \<Rightarrow> bool" where
  "word_byte c = (is_ascii_alnum c \<or> c = CHR ''_'')"

definition si_tail :: "string \<Rightarrow> bool" where
  "si_tail s = (take 2 s = ''si'' \<and> (case drop 2 s of c # _ \<Rightarrow> c \<in> {CHR 32, CHR 9, CHR 10, CHR 13, CHR 12, CHR 11, CHR ''/'', CHR ''>''} | [] \<Rightarrow> False))"

definition si_match :: "string \<Rightarrow> nat option" where
  "si_match s =
     (case s of
        [] \<Rightarrow> None
      | c # t \<Rightarrow>
          if c \<noteq> CHR ''<'' then None
          else
            let w = takeWhile word_byte t; r = dropWhile word_byte t
            in if w \<noteq> [] \<and> take 1 r = '':'' \<and> si_tail (drop 1 r) then Some (length w + 5)
               else if si_tail t then Some 4 else None)"

text \<open>The matches that end after the first \<open>k\<close> bytes.\<close>

fun si_count :: "nat \<Rightarrow> string \<Rightarrow> nat" where
  "si_count k [] = 0"
| "si_count k (c # cs) = (case si_match (c # cs) of Some n \<Rightarrow> if n > k then 1 else 0 | None \<Rightarrow> 0) + si_count (k - 1) cs"

text \<open>The chunks \<open>read(n)\<close> returns, and the loop over them.\<close>

function chunks :: "nat \<Rightarrow> 'a list \<Rightarrow> 'a list list" where
  "chunks n xs = (if xs = [] \<or> n = 0 then [] else take n xs # chunks n (drop n xs))"
  by pat_completeness auto
termination by (relation "measure (\<lambda>(_, xs). length xs)") auto

declare chunks.simps [simp del]

definition keep_last :: "nat \<Rightarrow> 'a list \<Rightarrow> 'a list" where
  "keep_last n xs = drop (length xs - n) xs"

fun scan_chunks :: "bool \<Rightarrow> string list \<Rightarrow> string \<Rightarrow> bool \<Rightarrow> nat \<Rightarrow> nat \<Rightarrow> refusal option" where
  "scan_chunks count_strings [] carry first seen strings = None"
| "scan_chunks count_strings (chunk # rest) carry first seen strings =
     (if first \<and> (\<exists>b \<in> set XML_BOMS. prefix b chunk) then Some xlsx_invalid
      else
        let window = carry @ chunk in
        if \<exists>m \<in> set XML_FORBIDDEN_MARKERS. sublist m window then Some xlsx_invalid
        else
          let seen' = seen + length chunk; strings' = strings + si_count (length carry) window in
          if count_strings \<and> (seen' > MAX_SHARED_STRINGS_BYTES \<or> strings' > MAX_SHARED_STRINGS) then Some xlsx_too_large
          else scan_chunks count_strings rest (keep_last SCAN_OVERLAP window) False seen' strings')"

definition scan_xml_part :: "bool \<Rightarrow> string \<Rightarrow> refusal option" where
  "scan_xml_part count_strings content = scan_chunks count_strings (chunks SCAN_CHUNK_BYTES content) [] True 0 0"

section \<open>The archive\<close>

record zip_entry =
  ze_name :: string
  ze_size :: nat
  ze_packed :: nat
  ze_encrypted :: bool
  ze_content :: "string option"

definition FORBIDDEN_PREFIXES :: "string list" where
  "FORBIDDEN_PREFIXES = [''xl/macrosheets/'', ''xl/dialogsheets/'', ''xl/embeddings/'', ''xl/activex/'']"

definition FORBIDDEN_SUFFIXES :: "string list" where
  "FORBIDDEN_SUFFIXES = [''vbaproject.bin'', ''vbaprojectsignature.bin'', ''vbadata.xml'']"

definition CONTENT_TYPES :: string where "CONTENT_TYPES = ''[content_types].xml''"
definition SHARED_STRINGS_PART :: string where "SHARED_STRINGS_PART = ''xl/sharedstrings.xml''"

definition forbidden_name :: "string \<Rightarrow> bool" where
  "forbidden_name n = ((\<exists>p \<in> set FORBIDDEN_PREFIXES. prefix p n) \<or> (\<exists>s \<in> set FORBIDDEN_SUFFIXES. suffix s n))"

definition xml_name :: "string \<Rightarrow> bool" where
  "xml_name n = (suffix ''.xml'' n \<or> suffix ''.rels'' n)"

text \<open>The last entry of a name (\<open>names\<close> is a dictionary by the lower-cased name).\<close>

definition entry_named :: "zip_entry list \<Rightarrow> string \<Rightarrow> zip_entry option" where
  "entry_named infos n = List.find (\<lambda>i. py_lower (ze_name i) = n) (rev infos)"

fun scan_entries :: "zip_entry list \<Rightarrow> refusal option" where
  "scan_entries [] = None"
| "scan_entries (i # is) =
     (let name = py_lower (ze_name i) in
      if \<not> xml_name name then scan_entries is
      else case ze_content i of
        None \<Rightarrow> Some xlsx_invalid
      | Some content \<Rightarrow>
          (case scan_xml_part (name = SHARED_STRINGS_PART) content of Some e \<Rightarrow> Some e | None \<Rightarrow> scan_entries is))"

text \<open>\<open>None\<close> for the archive: it cannot be opened.\<close>

definition too_large :: "zip_entry list \<Rightarrow> bool" where
  "too_large infos =
     (let unpacked = sum_list (map ze_size infos); packed = max 1 (sum_list (map ze_packed infos))
      in unpacked > MAX_XLSX_UNCOMPRESSED_BYTES \<or> (unpacked > RATIO_CHECK_FROM_BYTES \<and> unpacked > MAX_XLSX_RATIO * packed))"

definition validate_container :: "zip_entry list option \<Rightarrow> refusal option" where
  "validate_container archive =
     (case archive of
        None \<Rightarrow> Some xlsx_invalid
      | Some infos \<Rightarrow>
          if infos = [] \<or> length infos > MAX_XLSX_ENTRIES then Some xlsx_invalid
          else if too_large infos then Some xlsx_too_large
          else if entry_named infos ''xl/workbook.xml'' = None then Some xlsx_invalid
          else (case entry_named infos CONTENT_TYPES of
            None \<Rightarrow> Some xlsx_invalid
          | Some ct \<Rightarrow>
              if \<exists>i \<in> set infos. ze_encrypted i then Some xlsx_invalid
              else if \<exists>i \<in> set infos. forbidden_name (py_lower (ze_name i)) then Some xlsx_macros
              else if ze_size ct > MAX_CONTENT_TYPES_BYTES then Some xlsx_invalid
              else (case ze_content ct of
                None \<Rightarrow> Some xlsx_invalid
              | Some content \<Rightarrow>
                  if sublist ''macroenabled'' (py_lower content) then Some xlsx_macros
                  else if (case entry_named infos SHARED_STRINGS_PART of Some s \<Rightarrow> ze_size s > MAX_SHARED_STRINGS_BYTES | None \<Rightarrow> False)
                  then Some xlsx_too_large
                  else scan_entries infos)))"

section \<open>Cells and rows\<close>

text \<open>What \<open>openpyxl\<close> gives for a cell; the values shown by \<open>str\<close> are given as that text.\<close>

datatype xl_cell = X_none | X_bool bool | X_int int | X_float rat | X_datetime stamp | X_date int | X_text utext

definition clock_text :: "int \<Rightarrow> string" where
  "clock_text t =
     (let s = (t div seconds 1) mod (24 * 60 * 60)
      in pad_left 2 (dec_nat (nat (s div 3600))) @ '':'' @ pad_left 2 (dec_nat (nat (s div 60 mod 60))) @ '':'' @
         pad_left 2 (dec_nat (nat (s mod 60))))"

definition cell_text :: "(rat \<Rightarrow> utext) \<Rightarrow> xl_cell \<Rightarrow> utext" where
  "cell_text fmt c =
     (case c of
        X_none \<Rightarrow> []
      | X_bool b \<Rightarrow> utext_of (if b then ''true'' else ''false'')
      | X_int i \<Rightarrow> utext_of (dec_int i)
      | X_float x \<Rightarrow> fmt x
      | X_datetime t \<Rightarrow> utext_of (if t mod days 1 = 0 then iso_date (t div days 1) else iso_date (t div days 1) @ '' '' @ clock_text t)
      | X_date d \<Rightarrow> utext_of (iso_date d)
      | X_text s \<Rightarrow> s)"

definition trim_row :: "(rat \<Rightarrow> utext) \<Rightarrow> xl_cell list \<Rightarrow> utext list" where
  "trim_row fmt cs = rev (dropWhile (\<lambda>c. u_strip c = []) (rev (map (cell_text fmt) cs)))"

text \<open>The loop of \<open>_sheet_to_csv\<close>: rows scanned so far, the header (once found), data rows so far, rows written; \<open>broken\<close>
  says that the reader raises after the last row.\<close>

definition fit_row :: "nat \<Rightarrow> utext list \<Rightarrow> utext list" where
  "fit_row width cells = take width (cells @ replicate width [])"

fun sheet_rows ::
  "(rat \<Rightarrow> utext) \<Rightarrow> bool \<Rightarrow> xl_cell list list \<Rightarrow> nat \<Rightarrow> utext list option \<Rightarrow> nat \<Rightarrow> utext list list \<Rightarrow> refusal + utext list list \<times> nat" where
  "sheet_rows fmt broken [] scanned header n written =
     (if broken then Inl xlsx_invalid else if header = None then Inl (Rejected ''header_missing'' 422) else Inr (written, n))"
| "sheet_rows fmt broken (values # rows) scanned header n written =
     (if scanned + 1 > MAX_XLSX_SCANNED_ROWS then Inl (Rejected ''too_many_records'' 413)
      else
        let cells = trim_row fmt values in
        if cells = [] then sheet_rows fmt broken rows (scanned + 1) header n written
        else if length cells > MAX_XLSX_COLUMNS then Inl (Rejected ''xlsx_too_wide'' 413)
        else (case header of
          None \<Rightarrow> sheet_rows fmt broken rows (scanned + 1) (Some cells) n (written @ [cells])
        | Some h \<Rightarrow>
            (if n + 1 > MAX_XLSX_ROWS then Inl (Rejected ''too_many_records'' 413)
             else sheet_rows fmt broken rows (scanned + 1) header (n + 1) (written @ [fit_row (length h) cells]))))"

definition sheet_to_csv :: "(rat \<Rightarrow> utext) \<Rightarrow> bool \<Rightarrow> xl_cell list list \<Rightarrow> refusal + utext \<times> nat" where
  "sheet_to_csv fmt broken rows =
     (case sheet_rows fmt broken rows 0 None 0 [] of Inl e \<Rightarrow> Inl e | Inr (written, n) \<Rightarrow> Inr (write_rows COMMA written, n))"

section \<open>Conversion\<close>

record workbook =
  wk_sheets :: "(utext \<times> (xl_cell list list \<times> bool)) list"

definition choose_sheet :: "utext list \<Rightarrow> utext option \<Rightarrow> refusal + utext" where
  "choose_sheet names sheet =
     (if names = [] then Inl xlsx_invalid
      else if length names > MAX_XLSX_SHEETS then Inl (Rejected ''xlsx_too_many_sheets'' 422)
      else case sheet of
        Some s \<Rightarrow> (if s \<notin> set names then Inl (Rejected ''xlsx_sheet_not_found'' 422) else Inr s)
      | None \<Rightarrow> (if length names > 1 then Inl (Rejected ''xlsx_multiple_sheets'' 422) else Inr (hd names)))"

text \<open>\<open>_convert\<close>: \<open>book\<close> is \<open>None\<close> when loading raises; \<open>encode\<close> gives \<open>None\<close> for a text UTF-8 cannot encode.\<close>

definition convert_sheet ::
  "(rat \<Rightarrow> utext) \<Rightarrow> (utext \<Rightarrow> string option) \<Rightarrow> xl_cell list list \<Rightarrow> bool \<Rightarrow> refusal + string \<times> nat" where
  "convert_sheet fmt encode rows broken =
     (case sheet_to_csv fmt broken rows of
        Inl e \<Rightarrow> Inl e
      | Inr (t, n) \<Rightarrow> (case encode t of None \<Rightarrow> Inl xlsx_invalid | Some raw \<Rightarrow> Inr (raw, n)))"

definition convert ::
  "(rat \<Rightarrow> utext) \<Rightarrow> (utext \<Rightarrow> string option) \<Rightarrow> zip_entry list option \<Rightarrow> workbook option \<Rightarrow> utext option \<Rightarrow> refusal + string \<times> nat" where
  "convert fmt encode archive book sheet =
     (case validate_container archive of
        Some e \<Rightarrow> Inl e
      | None \<Rightarrow>
          (case book of
             None \<Rightarrow> Inl xlsx_invalid
           | Some wb \<Rightarrow>
               (case choose_sheet (map fst (wk_sheets wb)) sheet of
                  Inl e \<Rightarrow> Inl e
                | Inr s \<Rightarrow>
                    (case map_of (wk_sheets wb) s of
                       None \<Rightarrow> Inl xlsx_invalid
                     | Some (rows, broken) \<Rightarrow> convert_sheet fmt encode rows broken))))"

text \<open>\<open>run_bounded\<close>: the result of the work when it ends in time.\<close>

definition run_bounded :: "bool \<Rightarrow> refusal + 'a \<Rightarrow> refusal + 'a" where
  "run_bounded in_time result = (if in_time then result else Inl (Rejected ''xlsx_timeout'' 422))"

definition xlsx_to_csv_bytes ::
  "(rat \<Rightarrow> utext) \<Rightarrow> (utext \<Rightarrow> string option) \<Rightarrow> bool \<Rightarrow> zip_entry list option \<Rightarrow> workbook option \<Rightarrow> utext option \<Rightarrow> refusal + string \<times> nat" where
  "xlsx_to_csv_bytes fmt encode in_time archive book sheet = run_bounded in_time (convert fmt encode archive book sheet)"

end
