(* ===== verification/OrderTable.thy ===== *)
theory OrderTable
  imports Columns
begin

text \<open>
  The table of orders from a client's file (\<open>map_dataframe\<close> of \<^verbatim>\<open>app/sources/csv_mapper.py\<close>). A frame is what
  \<open>read_client_csv\<close> returns: named columns of texts, with \<open>None\<close> for a missing cell. \<open>wild\<close> is what the cast of a float
  beyond the 64-bit integers gives (\<open>astype(int)\<close>), a parameter. The texts of the warnings are left out, the numbers and
  examples they show are kept.
\<close>

section \<open>Frames, reports and rows\<close>

record frame =
  fr_columns :: "(utext \<times> utext option list) list"
  fr_height :: nat

datatype mapping_warning =
    Unreadable_values nat canon
  | Ambiguous_values nat canon "utext option"
  | Dot_thousands nat canon "utext option"
  | No_cost_column
  | Mixed_dates
  | Bad_dates nat
  | No_revenue nat
  | Negative_revenue nat
  | Repeated_ids nat

record mapping_report =
  rep_mapping :: mapping
  rep_unmapped :: "utext list"
  rep_generated :: "string list"
  rep_warnings :: "mapping_warning list"
  rep_rows_in :: nat
  rep_rows_out :: nat
  rep_confidence :: rat

record order =
  or_order_id :: utext
  or_date :: int
  or_product :: utext
  or_category :: utext
  or_quantity :: int
  or_revenue :: rat
  or_cost :: rat
  or_profit :: rat
  or_discount :: rat
  or_status :: utext

text \<open>A row before the rows without a date or a revenue are dropped.\<close>

record draft =
  dr_order_id :: utext
  dr_date :: "int option"
  dr_product :: utext
  dr_category :: utext
  dr_quantity :: int
  dr_revenue :: "rat option"
  dr_cost :: rat
  dr_profit :: "rat option"
  dr_discount :: rat
  dr_status :: utext

section \<open>Selecting the columns\<close>

text \<open>The columns with a name after \<open>str.strip\<close>; a name that occurs twice selects a table, which cannot be assigned.\<close>

definition stripped :: "frame \<Rightarrow> (utext \<times> utext option list) list" where
  "stripped df = map (\<lambda>(c, xs). (u_strip c, xs)) (fr_columns df)"

definition column_named :: "(utext \<times> utext option list) list \<Rightarrow> utext \<Rightarrow> exc + utext option list" where
  "column_named cols c =
     (case filter (\<lambda>p. fst p = c) cols of
        [(_, xs)] \<Rightarrow> Inr xs
      | [] \<Rightarrow> Inl (PyRaise ''KeyError'')
      | _ \<Rightarrow> Inl (PyRaise ''ValueError''))"

fun select_columns :: "(utext \<times> utext option list) list \<Rightarrow> mapping \<Rightarrow> exc + (canon \<times> utext option list) list" where
  "select_columns cols [] = Inr []"
| "select_columns cols ((k, c) # m) =
     (case column_named cols c of
        Inl e \<Rightarrow> Inl e
      | Inr xs \<Rightarrow> (case select_columns cols m of Inl e \<Rightarrow> Inl e | Inr out \<Rightarrow> Inr ((k, xs) # out)))"

section \<open>Completing the columns\<close>

definition text_cell :: "utext option \<Rightarrow> cell" where
  "text_cell c = (case c of Some s \<Rightarrow> Text s | None \<Rightarrow> Missing)"

type_synonym out_columns = "canon \<Rightarrow> utext option list option"

definition number_column :: "(nat \<Rightarrow> nat option) \<Rightarrow> out_columns \<Rightarrow> canon \<Rightarrow> parsed_column option" where
  "number_column dv raw k = map_option (\<lambda>xs. to_number_series_ex dv (ObjectSeries (map text_cell xs))) (raw k)"

definition numbers :: "(nat \<Rightarrow> nat option) \<Rightarrow> out_columns \<Rightarrow> canon \<Rightarrow> rat option list option" where
  "numbers dv raw k = map_option fst (number_column dv raw k)"

definition number_warnings :: "(nat \<Rightarrow> nat option) \<Rightarrow> out_columns \<Rightarrow> canon \<Rightarrow> mapping_warning list" where
  "number_warnings dv raw k =
     (case number_column dv raw k of
        None \<Rightarrow> []
      | Some (_, flags, examples) \<Rightarrow>
          (if flags Invalid > 0 then [Unreadable_values (flags Invalid) k] else []) @
          (if flags Ambiguous > 0 then [Ambiguous_values (flags Ambiguous) k (examples Ambiguous)] else []) @
          (if flags DotThousands > 0 then [Dot_thousands (flags DotThousands) k (examples DotThousands)] else []))"

definition NUMBER_COLUMNS :: "canon list" where
  "NUMBER_COLUMNS = [Revenue, Cost, Profit, Discount, Quantity]"

definition row_id :: "nat \<Rightarrow> utext" where
  "row_id i = utext_of (''ROW-'' @ pad_left 5 (dec_nat (i + 1)))"

definition order_ids :: "out_columns \<Rightarrow> nat \<Rightarrow> utext list" where
  "order_ids raw n =
     map u_strip (case raw OrderId of
                    None \<Rightarrow> map row_id [0..<n]
                  | Some xs \<Rightarrow> map (\<lambda>c. case c of Some s \<Rightarrow> s | None \<Rightarrow> utext_of ''nan'') xs)"

definition to_int64 :: "(rat \<Rightarrow> int) \<Rightarrow> rat \<Rightarrow> int" where
  "to_int64 wild x = (if x < 2 ^ 63 then \<lfloor>x\<rfloor> else wild x)"

definition quantities :: "(rat \<Rightarrow> int) \<Rightarrow> (nat \<Rightarrow> nat option) \<Rightarrow> out_columns \<Rightarrow> nat \<Rightarrow> int list" where
  "quantities wild dv raw n =
     map (\<lambda>q. to_int64 wild (max 1 (case q of Some x \<Rightarrow> x | None \<Rightarrow> 1)))
       (case numbers dv raw Quantity of None \<Rightarrow> replicate n (Some 1) | Some qs \<Rightarrow> qs)"

definition filled_text :: "utext \<Rightarrow> utext option \<Rightarrow> utext" where
  "filled_text dflt c = u_strip (case c of Some s \<Rightarrow> s | None \<Rightarrow> dflt)"

definition products :: "out_columns \<Rightarrow> nat \<Rightarrow> utext list" where
  "products raw n =
     (let dflt = utext_of ''Produkt''
      in map (filled_text dflt) (case raw Product of None \<Rightarrow> replicate n (Some dflt) | Some xs \<Rightarrow> xs))"

definition categories :: "out_columns \<Rightarrow> nat \<Rightarrow> utext list" where
  "categories raw n =
     (let dflt = utext_of ''Inne''
      in map (\<lambda>c. let s = filled_text dflt c in if s = [] then dflt else s)
           (case raw Category of None \<Rightarrow> replicate n (Some dflt) | Some xs \<Rightarrow> xs))"

text \<open>\<open>a - b\<close> on columns with missing values, and \<open>fillna\<close>.\<close>

definition minus_missing :: "rat option \<Rightarrow> rat option \<Rightarrow> rat option" where
  "minus_missing a b = (case (a, b) of (Some x, Some y) \<Rightarrow> Some (x - y) | _ \<Rightarrow> None)"

definition fill :: "rat \<Rightarrow> rat option \<Rightarrow> rat" where
  "fill d x = (case x of Some y \<Rightarrow> y | None \<Rightarrow> d)"

definition costs :: "rat option list \<Rightarrow> rat option list option \<Rightarrow> rat option list option \<Rightarrow> rat list" where
  "costs revenue cost profit =
     map (fill 0)
       (case cost of
          Some cs \<Rightarrow> cs
        | None \<Rightarrow> (case profit of Some ps \<Rightarrow> map2 minus_missing revenue ps | None \<Rightarrow> map (\<lambda>_. Some 0) revenue))"

definition profits :: "rat option list \<Rightarrow> rat list \<Rightarrow> rat option list option \<Rightarrow> rat option list" where
  "profits revenue cost profit =
     (let gain = map2 (\<lambda>r c. minus_missing r (Some c)) revenue cost
      in case profit of
           None \<Rightarrow> gain
         | Some ps \<Rightarrow> map2 (\<lambda>p g. case p of Some _ \<Rightarrow> p | None \<Rightarrow> g) ps gain)"

definition discount_of :: "rat option \<Rightarrow> rat" where
  "discount_of x = (let d = fill 0 x; e = (if d > 1 then d / 100 else d) in max 0 (min 1 e))"

definition discounts :: "(nat \<Rightarrow> nat option) \<Rightarrow> out_columns \<Rightarrow> nat \<Rightarrow> rat list" where
  "discounts dv raw n = map discount_of (case numbers dv raw Discount of None \<Rightarrow> replicate n (Some 0) | Some ds \<Rightarrow> ds)"

definition statuses :: "(utext \<Rightarrow> utext) \<Rightarrow> out_columns \<Rightarrow> nat \<Rightarrow> utext list" where
  "statuses nfkd raw n =
     normalize_status_series nfkd (case raw Status of None \<Rightarrow> replicate n (Some completed) | Some xs \<Rightarrow> xs)"

definition generated_columns :: "out_columns \<Rightarrow> string list" where
  "generated_columns raw =
     (if raw OrderId = None then [''order_id''] else []) @
     (if raw Quantity = None then [''quantity''] else []) @
     (if raw Product = None then [''product''] else []) @
     (if raw Category = None then [''category''] else []) @
     (if raw Cost = None then (if raw Profit \<noteq> None then [''cost (= revenue - profit)''] else [''cost (=0, brak danych o koszcie)'']) else []) @
     (if raw Profit = None then [''profit (= revenue - cost)''] else []) @
     (if raw Discount = None then [''discount (=0)''] else []) @
     (if raw Status = None then [''status (=completed)''] else [])"

section \<open>The table\<close>

text \<open>\<open>drop_duplicates(keep="first")\<close>.\<close>

fun keep_first :: "('a \<Rightarrow> 'k) \<Rightarrow> 'a list \<Rightarrow> 'a list" where
  "keep_first key [] = []"
| "keep_first key (x # xs) = x # keep_first key (filter (\<lambda>y. key y \<noteq> key x) xs)"

definition draft_rows ::
  "(rat \<Rightarrow> int) \<Rightarrow> (utext \<Rightarrow> utext) \<Rightarrow> (nat \<Rightarrow> nat option) \<Rightarrow> out_columns \<Rightarrow> rat option list \<Rightarrow> stamp option list \<Rightarrow> nat \<Rightarrow> draft list" where
  "draft_rows wild nfkd dv raw revenue dates n =
     (let ids = order_ids raw n; qs = quantities wild dv raw n; ps = products raw n; gs = categories raw n;
          cs = costs revenue (numbers dv raw Cost) (numbers dv raw Profit);
          gains = profits revenue cs (numbers dv raw Profit);
          ds = discounts dv raw n; ss = statuses nfkd raw n
      in map (\<lambda>i. \<lparr>dr_order_id = ids ! i, dr_date = map_option (\<lambda>t. t div days 1) (dates ! i), dr_product = ps ! i,
                   dr_category = gs ! i, dr_quantity = qs ! i, dr_revenue = revenue ! i, dr_cost = cs ! i,
                   dr_profit = gains ! i, dr_discount = ds ! i, dr_status = ss ! i\<rparr>) [0..<n])"

text \<open>A row with a date and a revenue; its profit is then known.\<close>

definition order_of :: "draft \<Rightarrow> order" where
  "order_of d = \<lparr>or_order_id = dr_order_id d, or_date = the (dr_date d), or_product = dr_product d, or_category = dr_category d,
     or_quantity = dr_quantity d, or_revenue = the (dr_revenue d), or_cost = dr_cost d, or_profit = the (dr_profit d),
     or_discount = dr_discount d, or_status = dr_status d\<rparr>"

definition CORE_COLUMNS :: "canon list" where
  "CORE_COLUMNS = [OrderId, Date, Product, Revenue, Cost, Status]"

definition round2 :: "rat \<Rightarrow> rat" where
  "round2 x = of_int (round (x * 100)) / 100"

text \<open>The warnings: the numbers, the missing cost, the formats of the dates, and how many rows have an unreadable date, no
  revenue, a negative revenue, a repeated number.\<close>

definition warned :: "nat \<Rightarrow> (nat \<Rightarrow> mapping_warning) \<Rightarrow> mapping_warning list" where
  "warned k w = (if k > 0 then [w k] else [])"

definition table_warnings ::
  "(nat \<Rightarrow> nat option) \<Rightarrow> out_columns \<Rightarrow> nat \<Rightarrow> nat \<Rightarrow> nat \<Rightarrow> nat \<Rightarrow> nat \<Rightarrow> nat \<Rightarrow> mapping_warning list" where
  "table_warnings dv raw formats fallback bad unpriced negative repeated =
     concat (map (number_warnings dv raw) NUMBER_COLUMNS) @
     (if raw Cost = None \<and> raw Profit = None then [No_cost_column] else []) @
     (if formats > 1 \<or> fallback > 0 then [Mixed_dates] else []) @
     warned bad Bad_dates @ warned unpriced No_revenue @ warned negative Negative_revenue @ warned repeated Repeated_ids"

definition map_dataframe ::
  "(rat \<Rightarrow> int) \<Rightarrow> (utext \<Rightarrow> utext) \<Rightarrow> (nat \<Rightarrow> nat option) \<Rightarrow> (string \<Rightarrow> utext \<Rightarrow> stamp option) \<Rightarrow> (utext \<Rightarrow> stamp option) \<Rightarrow>
   frame \<Rightarrow> exc + order list \<times> mapping_report" where
  "map_dataframe wild nfkd dv parse guess df =
     (let cols = stripped df; n = fr_height df; (m, unmapped) = detect_mapping nfkd (map fst cols)
      in case select_columns cols m of
           Inl e \<Rightarrow> Inl e
         | Inr out \<Rightarrow>
             let raw = map_of out in
             (case (raw Revenue, raw Date) of
                (None, _) \<Rightarrow> Inl (PyRaise ''ValueError'')
              | (Some _, None) \<Rightarrow> Inl (PyRaise ''ValueError'')
              | (Some _, Some ds) \<Rightarrow>
                  let revenue = the (numbers dv raw Revenue);
                      (dates, formats, fallback) = parse_dates_ex parse guess ds;
                      drafts = draft_rows wild nfkd dv raw revenue dates n;
                      dated = filter (\<lambda>d. dr_date d \<noteq> None) drafts;
                      priced = filter (\<lambda>d. dr_revenue d \<noteq> None) dated;
                      negative = length (filter (\<lambda>d. the (dr_revenue d) < 0) priced);
                      kept = keep_first dr_order_id priced;
                      warnings = table_warnings dv raw formats fallback (length drafts - length dated)
                        (length dated - length priced) negative (length priced - length kept)
                  in Inr (map order_of kept,
                       \<lparr>rep_mapping = m, rep_unmapped = unmapped, rep_generated = generated_columns raw, rep_warnings = warnings,
                        rep_rows_in = n, rep_rows_out = length kept,
                        rep_confidence = round2 (of_nat (length (filter (\<lambda>k. k \<in> fst ` set m) CORE_COLUMNS)) / of_nat (length CORE_COLUMNS))\<rparr>)))"

end
