(* ===== verification/ClientFile.thy ===== *)
theory ClientFile
  imports XlsxImport OrderTable
begin

text \<open>
  Reading a stored file into a frame (\<open>read_client_csv\<close> of \<^verbatim>\<open>app/sources/csv_mapper.py\<close>) and counting the formulas of a
  workbook that have no saved value (\<^verbatim>\<open>app/sources/xlsx_formulas.py\<close>). pandas' reader is a parameter: what it makes of the
  bytes under an encoding and a separator, the separator being absent for its own detection.
\<close>

section \<open>Client files\<close>

datatype csv_read = Frame frame | Bad_bytes | Bad_layout | Read_error

definition ALLOWED_ENCODINGS :: "string list" where "ALLOWED_ENCODINGS = [''utf-8-sig'', ''utf-8'', ''cp1250'']"

definition SNIFF_BYTES :: nat where "SNIFF_BYTES = 65536"

definition codec_named :: "codecs \<Rightarrow> string \<Rightarrow> string \<Rightarrow> utext option" where
  "codec_named cd enc raw =
     (if enc = ''utf-8-sig'' then cd_utf8_sig cd raw else if enc = ''utf-8'' then cd_utf8 cd raw else cd_cp1250 cd raw)"

text \<open>The sample, without its last line when it may be cut; \<open>None\<close> when the bytes of the sample do not decode.\<close>

definition cut_last_line :: "utext \<Rightarrow> utext" where
  "cut_last_line s = (case dropWhile (\<lambda>c. c \<noteq> LF) (rev s) of [] \<Rightarrow> s | _ # r \<Rightarrow> rev r)"

definition sniff_separator :: "codecs \<Rightarrow> (utext \<Rightarrow> nat option) \<Rightarrow> string \<Rightarrow> string \<Rightarrow> nat option" where
  "sniff_separator cd sniff enc raw =
     (let bytes = take SNIFF_BYTES raw in
      case codec_named cd enc bytes of
        None \<Rightarrow> None
      | Some s \<Rightarrow>
          let sample = (if LF \<in> set s \<and> length bytes = SNIFF_BYTES then cut_last_line s else s)
          in Some (case sniff sample of
                     Some d \<Rightarrow> d
                   | None \<Rightarrow> sniff_delimiter (\<lambda>_. None) (takeWhile (\<lambda>c. c \<noteq> LF) sample)))"

text \<open>The loop over the encodings; a layout the fast parser refuses is read once more without a separator.\<close>

fun try_encodings ::
  "codecs \<Rightarrow> (utext \<Rightarrow> nat option) \<Rightarrow> (string \<Rightarrow> nat option \<Rightarrow> string \<Rightarrow> csv_read) \<Rightarrow> string \<Rightarrow> string list \<Rightarrow> exc + frame" where
  "try_encodings cd sniff read raw [] = Inl (PyRaise ''UnicodeDecodeError'')"
| "try_encodings cd sniff read raw (enc # encs) =
     (case sniff_separator cd sniff enc raw of
        None \<Rightarrow> try_encodings cd sniff read raw encs
      | Some sep \<Rightarrow>
          (case read enc (Some sep) raw of
             Frame df \<Rightarrow> Inr df
           | Bad_bytes \<Rightarrow> try_encodings cd sniff read raw encs
           | Bad_layout \<Rightarrow> (case read enc None raw of Frame df \<Rightarrow> Inr df | _ \<Rightarrow> Inl (PyRaise ''ParserError''))
           | Read_error \<Rightarrow> Inl (PyRaise ''ParserError'')))"

definition read_client_csv ::
  "codecs \<Rightarrow> (utext \<Rightarrow> nat option) \<Rightarrow> (string \<Rightarrow> nat option \<Rightarrow> string \<Rightarrow> csv_read) \<Rightarrow> string \<Rightarrow> exc + frame" where
  "read_client_csv cd sniff read raw = try_encodings cd sniff read raw ALLOWED_ENCODINGS"

text \<open>A character cut by the end of the sample makes UTF-8 fail on it, though the whole file decodes: the file is then read
  as CP1250, and its letters outside ASCII become others.\<close>

lemma cut_character_changes_encoding:
  assumes "cd_utf8_sig cd (take SNIFF_BYTES raw) = None" and "cd_utf8 cd (take SNIFF_BYTES raw) = None"
    and "cd_cp1250 cd (take SNIFF_BYTES raw) = Some s"
    and "read ''cp1250'' (sniff_separator cd sniff ''cp1250'' raw) raw = Frame df"
  shows "read_client_csv cd sniff read raw = Inr df"
proof -
  obtain sep where "sniff_separator cd sniff ''cp1250'' raw = Some sep"
    using assms(3) by (simp add: sniff_separator_def codec_named_def Let_def)
  moreover have "sniff_separator cd sniff ''utf-8-sig'' raw = None" "sniff_separator cd sniff ''utf-8'' raw = None"
    using assms(1,2) by (simp_all add: sniff_separator_def codec_named_def Let_def)
  ultimately show ?thesis using assms(4) by (simp add: read_client_csv_def ALLOWED_ENCODINGS_def)
qed

section \<open>Formulas without a value\<close>

text \<open>The rows with formulas as texts and the rows with values; \<open>None\<close> when reading raises.\<close>

definition lost_formula :: "xl_cell \<Rightarrow> xl_cell \<Rightarrow> bool" where
  "lost_formula f v = (case f of X_text s \<Rightarrow> take 1 s = [61] \<and> v = X_none | _ \<Rightarrow> False)"

definition lost_in_row :: "xl_cell list \<Rightarrow> xl_cell list \<Rightarrow> nat" where
  "lost_in_row fs vs = length (filter (\<lambda>(f, v). lost_formula f v) (List.zip fs vs))"

definition count_formulas_without_value :: "(xl_cell list list \<times> xl_cell list list) option \<Rightarrow> nat" where
  "count_formulas_without_value book =
     (case book of
        None \<Rightarrow> 0
      | Some (fs, vs) \<Rightarrow> sum_list (map (\<lambda>(f, v). lost_in_row f v) (take MAX_XLSX_SCANNED_ROWS (List.zip fs vs))))"

text \<open>The number in the warning, when there is one.\<close>

definition formula_warning :: "bool \<Rightarrow> (xl_cell list list \<times> xl_cell list list) option \<Rightarrow> nat option" where
  "formula_warning in_time book =
     (case run_bounded in_time (Inr (count_formulas_without_value book)) of
        Inl _ \<Rightarrow> None
      | Inr n \<Rightarrow> if n = 0 then None else Some n)"

end
