(* ===== verification/Policy.thy ===== *)
theory Policy
  imports ReportFiles
begin

text \<open>
  The policy layer for agents' tools (\<^verbatim>\<open>app/core/policy.py\<close>): the contracts of the tools, the allowlist, the budget and the
  audit line of every call. A tool maps its arguments and a state of the world to a result; SHA-256, \<open>json.dumps\<close> and
  \<open>repr\<close> are parameters, as is how the file system resolves a path. \<open>_AUDIT_LOCK\<close> makes the writing of a line one step.
\<close>

section \<open>Tables\<close>

definition DESTRUCTIVE :: "string list" where
  "DESTRUCTIVE = [''send_email'', ''publish'', ''delete_file'', ''git_push'', ''charge'']"

definition ALLOW :: "(string \<times> string list) list" where
  "ALLOW = [(''researcher'', [''web_search'', ''fetch_url'', ''read_file'']), (''analyst'', [''read_file'', ''run_sql'']),
     (''executor'', [''write_file'', ''send_email'', ''publish'', ''git_push''])]"

definition policy_error :: exc where "policy_error = PyRaise ''PolicyError''"

section \<open>Contracts\<close>

text \<open>What building the model from raw arguments gives: its fields, a \<open>PolicyError\<close>, any other exception.\<close>

datatype validation = Accepted pydict | Refused | Malformed

definition path_text :: "path \<Rightarrow> string" where
  "path_text p = ''/'' @ py_join ''/'' p"

text \<open>\<open>ReadFile\<close>, under \<open>active_workspace()\<close>; unknown fields are ignored.\<close>

definition read_file_contract :: "disk \<Rightarrow> path \<Rightarrow> pydict \<Rightarrow> validation" where
  "read_file_contract d workspace raw =
     (case map_of raw ''path'' of
        Some (PStr v) \<Rightarrow>
          (case dk_resolve d (At workspace) of
             None \<Rightarrow> Malformed
           | Some base \<Rightarrow>
               (case dk_resolve d (if take 1 v = ''/'' then Raw v else Under base v) of
                  None \<Rightarrow> Malformed
                | Some p \<Rightarrow> if \<not> prefix base p then Refused else Accepted [(''path'', PStr (path_text p))]))
      | _ \<Rightarrow> Malformed)"

definition BANNED_SQL :: "string list" where
  "BANNED_SQL = [''attach'', ''copy '', ''install'', ''load '', ''pragma'', ''export'']"

definition run_sql_contract :: "pydict \<Rightarrow> validation" where
  "run_sql_contract raw =
     (case map_of raw ''query'' of
        Some (PStr v) \<Rightarrow>
          let q = py_lower (py_strip v) in
          if \<not> (prefix ''select'' q \<or> prefix ''with'' q) then Refused
          else if list_ex (\<lambda>k. sublist k q) BANNED_SQL then Refused
          else Accepted [(''query'', PStr v)]
      | _ \<Rightarrow> Malformed)"

section \<open>The budget\<close>

record budget =
  bu_max_steps :: int
  bu_max_cost :: rat
  bu_max_wall_s :: int
  bu_steps :: int
  bu_cost :: rat
  bu_t0 :: stamp
  bu_fingerprints :: "string list"

definition new_budget :: "stamp \<Rightarrow> budget" where
  "new_budget now = \<lparr>bu_max_steps = 25, bu_max_cost = 2, bu_max_wall_s = 900, bu_steps = 0, bu_cost = 0, bu_t0 = now,
     bu_fingerprints = []\<rparr>"

definition last3_same :: "'a list \<Rightarrow> bool" where
  "last3_same xs = (case rev xs of c # b # a # r \<Rightarrow> a = b \<and> b = c | _ \<Rightarrow> False)"

text \<open>Whether the call is within the budget, and the budget after it: it is changed on a refusal too.\<close>

definition charge ::
  "(string \<Rightarrow> string) \<Rightarrow> (pydict \<Rightarrow> string) \<Rightarrow> stamp \<Rightarrow> string \<Rightarrow> pydict \<Rightarrow> rat \<Rightarrow> budget \<Rightarrow> bool \<times> budget" where
  "charge sha dumps now tool args usd b =
     (let b1 = b\<lparr>bu_steps := bu_steps b + 1, bu_cost := bu_cost b + usd\<rparr> in
      if bu_steps b1 > bu_max_steps b1 then (False, b1)
      else if bu_cost b1 > bu_max_cost b1 then (False, b1)
      else if now - bu_t0 b1 > seconds (bu_max_wall_s b1) then (False, b1)
      else
        let b2 = b1\<lparr>bu_fingerprints := bu_fingerprints b1 @ [take 16 (sha (tool @ dumps args))]\<rparr>
        in (\<not> last3_same (bu_fingerprints b2), b2))"

section \<open>Calls\<close>

datatype decision = Allow | NotAllowlisted | InvalidArgs | SchemaDenied | BudgetDenied | NoHumanApproval

fun decision_text :: "decision \<Rightarrow> string" where
  "decision_text Allow = ''allow''" | "decision_text NotAllowlisted = ''deny:not_allowlisted''"
| "decision_text InvalidArgs = ''deny:invalid_args''" | "decision_text SchemaDenied = ''deny:schema''"
| "decision_text BudgetDenied = ''deny:budget''" | "decision_text NoHumanApproval = ''deny:no_human_approval''"

record audit_line =
  al_ts :: stamp
  al_role :: string
  al_tool :: string
  al_args :: pydict
  al_decision :: decision
  al_result_sha :: string
  al_steps :: int
  al_cost :: rat

text \<open>One call of \<open>enforce\<close>: \<open>tc_approve\<close> is the gate for irreversible tools, which may raise.\<close>

record ('r, 's) tool_call =
  tc_tool :: string
  tc_args :: pydict
  tc_role :: string
  tc_allow :: "(string \<times> string list) list"
  tc_schema :: "pydict \<Rightarrow> validation"
  tc_fn :: "pydict \<Rightarrow> 's \<Rightarrow> (exc + 'r) \<times> 's"
  tc_approve :: "(string \<Rightarrow> pydict \<Rightarrow> exc + bool) option"
  tc_now :: stamp

definition allowlisted :: "('r, 's) tool_call \<Rightarrow> bool" where
  "allowlisted c = (case map_of (tc_allow c) (tc_role c) of None \<Rightarrow> False | Some ts \<Rightarrow> tc_tool c \<in> set ts)"

text \<open>The gate for irreversible tools: whether the call goes on, or the exception of \<open>approve\<close>.\<close>

definition human_gate :: "('r, 's) tool_call \<Rightarrow> pydict \<Rightarrow> exc + bool" where
  "human_gate c args =
     (if tc_tool c \<notin> set DESTRUCTIVE then Inr True
      else case tc_approve c of None \<Rightarrow> Inr False | Some approve \<Rightarrow> approve (tc_tool c) args)"

text \<open>The body of the \<open>try\<close>: the decision, the result and what it leaves of the budget and the world.\<close>

definition guarded_call ::
  "(string \<Rightarrow> string) \<Rightarrow> (pydict \<Rightarrow> string) \<Rightarrow> ('r, 's) tool_call \<Rightarrow> budget \<times> 's \<Rightarrow> decision \<times> (exc + 'r) \<times> budget \<times> 's" where
  "guarded_call sha dumps c st =
     (let (b, w) = st in
      if \<not> allowlisted c then (NotAllowlisted, Inl policy_error, b, w)
      else case tc_schema c (tc_args c) of
          Refused \<Rightarrow> (InvalidArgs, Inl policy_error, b, w)
        | Malformed \<Rightarrow> (SchemaDenied, Inl policy_error, b, w)
        | Accepted args \<Rightarrow>
            (case charge sha dumps (tc_now c) (tc_tool c) args 0 b of
               (False, b1) \<Rightarrow> (BudgetDenied, Inl policy_error, b1, w)
             | (True, b1) \<Rightarrow>
                 (case human_gate c args of
                    Inl e \<Rightarrow> (Allow, Inl e, b1, w)
                  | Inr True \<Rightarrow> (let (r, w1) = tc_fn c args w in (Allow, r, b1, w1))
                  | Inr False \<Rightarrow> (NoHumanApproval, Inl policy_error, b1, w))))"

text \<open>\<open>enforce\<close>: the \<open>finally\<close> block writes the line whatever happened; the result is \<open>None\<close> after an exception.\<close>

definition enforce_tool ::
  "(string \<Rightarrow> string) \<Rightarrow> (pydict \<Rightarrow> string) \<Rightarrow> ('r option \<Rightarrow> string) \<Rightarrow> ('r, 's) tool_call \<Rightarrow> budget \<times> audit_line list \<times> 's
    \<Rightarrow> (exc + 'r) \<times> budget \<times> audit_line list \<times> 's" where
  "enforce_tool sha dumps repr c st =
     (let (b, lines, w) = st;
          (d, r, b1, w1) = guarded_call sha dumps c (b, w);
          line = \<lparr>al_ts = tc_now c, al_role = tc_role c, al_tool = tc_tool c, al_args = tc_args c, al_decision = d,
            al_result_sha = take 16 (sha (repr (case r of Inl e \<Rightarrow> None | Inr x \<Rightarrow> Some x))), al_steps = bu_steps b1, al_cost = bu_cost b1\<rparr>
      in (r, b1, lines @ [line], w1))"

text \<open>The calls of a session, one after another with the same budget.\<close>

definition enforce_all ::
  "(string \<Rightarrow> string) \<Rightarrow> (pydict \<Rightarrow> string) \<Rightarrow> ('r option \<Rightarrow> string) \<Rightarrow> ('r, 's) tool_call list \<Rightarrow> budget \<times> audit_line list \<times> 's
    \<Rightarrow> budget \<times> audit_line list \<times> 's" where
  "enforce_all sha dumps repr cs st = fold (\<lambda>c s. snd (enforce_tool sha dumps repr c s)) cs st"

section \<open>Lemmas\<close>

lemma charge_frame:
  assumes "charge sha dumps now tool args usd b = (ok, b1)"
  shows "bu_steps b1 = bu_steps b + 1" "bu_max_steps b1 = bu_max_steps b" "bu_t0 b1 = bu_t0 b" "bu_max_wall_s b1 = bu_max_wall_s b"
    "ok \<longrightarrow> bu_steps b1 \<le> bu_max_steps b1 \<and> now - bu_t0 b1 \<le> seconds (bu_max_wall_s b1)"
    "bu_fingerprints b1 = bu_fingerprints b @ [take 16 (sha (tool @ dumps args))] \<or> (\<not> ok \<and> bu_fingerprints b1 = bu_fingerprints b)"
    "ok \<longrightarrow> bu_fingerprints b1 = bu_fingerprints b @ [take 16 (sha (tool @ dumps args))] \<and> \<not> last3_same (bu_fingerprints b1)"
  using assms by (auto simp: charge_def Let_def split: if_splits)

text \<open>What a call can come to.\<close>

lemma guarded_call_cases:
  assumes "guarded_call sha dumps c (b, w) = (d, r, b1, w1)"
  obtains (refused) e where "d \<in> {NotAllowlisted, InvalidArgs, SchemaDenied}" "r = Inl e" "b1 = b" "w1 = w"
  | (broke) args where "d = BudgetDenied" "r = Inl policy_error" "w1 = w" "charge sha dumps (tc_now c) (tc_tool c) args 0 b = (False, b1)"
      "allowlisted c" "tc_schema c (tc_args c) = Accepted args"
  | (unapproved) args e where "d \<in> {NoHumanApproval, Allow}" "r = Inl e" "w1 = w" "charge sha dumps (tc_now c) (tc_tool c) args 0 b = (True, b1)"
      "allowlisted c" "tc_schema c (tc_args c) = Accepted args" "human_gate c args \<noteq> Inr True"
  | (ran) args where "d = Allow" "allowlisted c" "tc_schema c (tc_args c) = Accepted args"
      "charge sha dumps (tc_now c) (tc_tool c) args 0 b = (True, b1)" "human_gate c args = Inr True" "tc_fn c args w = (r, w1)"
  using assms that
  by (auto simp: guarded_call_def Let_def split: if_splits validation.splits prod.splits bool.splits sum.splits)

text \<open>A call whose tool also notes that it ran, with which arguments and when.\<close>

type_synonym tool_run = "string \<times> string \<times> pydict \<times> stamp"

definition recorded :: "('r, 's) tool_call \<Rightarrow> ('r, tool_run list \<times> 's) tool_call" where
  "recorded c = \<lparr>tc_tool = tc_tool c, tc_args = tc_args c, tc_role = tc_role c, tc_allow = tc_allow c, tc_schema = tc_schema c,
     tc_fn = (\<lambda>args (runs, w). let (r, w1) = tc_fn c args w in (r, runs @ [(tc_tool c, tc_role c, args, tc_now c)], w1)),
     tc_approve = tc_approve c, tc_now = tc_now c\<rparr>"

lemma recorded_simps [simp]:
  "tc_tool (recorded c) = tc_tool c" "tc_args (recorded c) = tc_args c" "tc_role (recorded c) = tc_role c"
  "tc_schema (recorded c) = tc_schema c" "tc_now (recorded c) = tc_now c" "allowlisted (recorded c) = allowlisted c"
  "human_gate (recorded c) args = human_gate c args"
  by (simp_all add: recorded_def allowlisted_def human_gate_def split: option.split)

lemma tc_fn_recorded [simp]:
  "tc_fn (recorded c) args (runs, w) = (fst (tc_fn c args w), runs @ [(tc_tool c, tc_role c, args, tc_now c)], snd (tc_fn c args w))"
  by (simp add: recorded_def case_prod_beta)

text \<open>What may run: allowlisted, with arguments the contract accepts, approved if irreversible, in time.\<close>

definition permitted :: "stamp \<Rightarrow> ('r, 's) tool_call list \<Rightarrow> tool_run \<Rightarrow> bool" where
  "permitted deadline cs e =
     (case e of (tool, role, args, now) \<Rightarrow> now \<le> deadline \<and>
       (\<exists>c \<in> set cs. tc_tool c = tool \<and> tc_role c = role \<and> tc_now c = now \<and> allowlisted c \<and> tc_schema c (tc_args c) = Accepted args \<and>
          (tool \<in> set DESTRUCTIVE \<longrightarrow> (\<exists>approve. tc_approve c = Some approve \<and> approve tool args = Inr True))))"

lemma permitted_mono: "permitted t cs e \<Longrightarrow> set cs \<subseteq> set cs' \<Longrightarrow> permitted t cs' e"
  unfolding permitted_def by (auto split: prod.splits)

text \<open>One recorded call: at most one run, charged and permitted, and always one line.\<close>

lemma recorded_step:
  assumes "snd (enforce_tool sha dumps repr (recorded c) (b, lines, runs, w)) = (b1, lines1, runs1, w1)"
  obtains (still) "runs1 = runs" "length lines1 = Suc (length lines)" "bu_steps b \<le> bu_steps b1" "bu_max_steps b1 = bu_max_steps b"
      "bu_t0 b1 = bu_t0 b" "bu_max_wall_s b1 = bu_max_wall_s b" "b1 = b \<or> (\<exists>ok args. charge sha dumps (tc_now c) (tc_tool c) args 0 b = (ok, b1) \<and>
        allowlisted c \<and> tc_schema c (tc_args c) = Accepted args)"
  | (ran) args where "runs1 = runs @ [(tc_tool c, tc_role c, args, tc_now c)]" "length lines1 = Suc (length lines)"
      "charge sha dumps (tc_now c) (tc_tool c) args 0 b = (True, b1)" "allowlisted c" "tc_schema c (tc_args c) = Accepted args"
      "human_gate c args = Inr True"
proof -
  obtain d r b' w' where call: "guarded_call sha dumps (recorded c) (b, runs, w) = (d, r, b', w')" by (metis prod_cases4)
  with assms have out: "b1 = b'" "(runs1, w1) = w'" "length lines1 = Suc (length lines)" by (auto simp: enforce_tool_def Let_def)
  from call show ?thesis
  proof (cases rule: guarded_call_cases)
    case (ran args)
    then show ?thesis using out by (intro that(2)) auto
  next
    case (refused e)
    with out show ?thesis by (intro that(1)) auto
  next
    case (broke args)
    with broke out charge_frame [OF broke(4)] show ?thesis by (intro that(1)) auto
  next
    case (unapproved args e)
    with out charge_frame [OF unapproved(4)] show ?thesis by (intro that(1)) auto
  qed
qed

lemma human_gate_True:
  "human_gate c args = Inr True \<Longrightarrow> tc_tool c \<in> set DESTRUCTIVE \<longrightarrow> (\<exists>approve. tc_approve c = Some approve \<and> approve (tc_tool c) args = Inr True)"
  by (auto simp: human_gate_def split: option.splits if_splits)

definition session_ok :: "budget \<Rightarrow> ('r, 's) tool_call list \<Rightarrow> budget \<times> audit_line list \<times> tool_run list \<times> 's \<Rightarrow> bool" where
  "session_ok b0 cs st =
     (case st of (b, lines, runs, w) \<Rightarrow>
       bu_max_steps b = bu_max_steps b0 \<and> bu_t0 b = bu_t0 b0 \<and> bu_max_wall_s b = bu_max_wall_s b0 \<and>
       int (length runs) \<le> bu_steps b \<and> int (length runs) \<le> max 0 (bu_max_steps b) \<and>
       (\<forall>e \<in> set runs. permitted (bu_t0 b + seconds (bu_max_wall_s b)) cs e))"

lemma session_step:
  assumes ok: "session_ok b0 cs st" and c: "c \<in> set cs"
  shows "session_ok b0 cs (snd (enforce_tool sha dumps repr (recorded c) st))"
proof -
  obtain b lines runs w where st: "st = (b, lines, runs, w)" by (cases st)
  obtain b1 lines1 runs1 w1 where step: "snd (enforce_tool sha dumps repr (recorded c) (b, lines, runs, w)) = (b1, lines1, runs1, w1)"
    by (metis prod_cases4)
  from step show ?thesis
  proof (cases rule: recorded_step)
    case still
    with ok st step show ?thesis by (auto simp: session_ok_def)
  next
    case (ran args)
    note frame = charge_frame [OF ran(3)]
    have "permitted (bu_t0 b1 + seconds (bu_max_wall_s b1)) cs (tc_tool c, tc_role c, args, tc_now c)"
      unfolding permitted_def using frame(5) ran(4,5) human_gate_True [OF ran(6)] c by auto
    with ok st step frame ran(1) show ?thesis by (auto simp: session_ok_def)
  qed
qed

lemma session_fold:
  assumes "set ds \<subseteq> set cs" "session_ok b0 cs st"
  shows "session_ok b0 cs (enforce_all sha dumps repr (map recorded ds) st)"
  using assms
proof (induction ds arbitrary: st)
  case (Cons d ds)
  then show ?case using session_step [OF Cons.prems(2)] by (simp add: enforce_all_def)
qed (simp add: enforce_all_def)

lemma enforce_all_lines:
  "length (fst (snd (enforce_all sha dumps repr cs st))) = length (fst (snd st)) + length cs"
  by (induction cs arbitrary: st) (simp_all add: enforce_all_def enforce_tool_def Let_def case_prod_beta)

text \<open>C24. Whatever an agent calls in a session, a tool runs only for a role it is allowlisted for, with arguments its
  contract accepts, with a human's approval if it is irreversible, within the time of the budget and at most as often
  as the budget has steps; every call, refused or not, leaves exactly one audit line.\<close>

theorem agent_session_bounded:
  fixes cs :: "('r, 's) tool_call list"
  shows "\<exists>b lines runs w1. enforce_all sha dumps repr (map recorded cs) (new_budget now, [], [], w) = (b, lines, runs, w1) \<and>
    length lines = length cs \<and> length runs \<le> 25 \<and> (\<forall>e \<in> set runs. permitted (now + seconds 900) cs e)"
proof -
  obtain b lines runs w1 where run: "enforce_all sha dumps repr (map recorded cs) (new_budget now, [], [], w) = (b, lines, runs, w1)"
    by (metis prod_cases4)
  have "session_ok (new_budget now) cs (new_budget now, [], [], w)" by (simp add: session_ok_def new_budget_def)
  from session_fold [OF order_refl this, of sha dumps repr] have "session_ok (new_budget now) cs (b, lines, runs, w1)" by (simp only: run)
  then have "length runs \<le> 25"
    "\<forall>e \<in> set runs. permitted (now + seconds 900) cs e" by (auto simp: session_ok_def new_budget_def)
  moreover have "length lines = length cs" using enforce_all_lines [of sha dumps repr "map recorded cs" "(new_budget now, [], [], w)"]
    by (simp add: run)
  ultimately show ?thesis using run by blast
qed

lemma last3_same_all:
  assumes "set fps \<subseteq> {x}" "2 \<le> length fps"
  shows "last3_same (fps @ [x])"
proof -
  from assms(2) obtain a b r where r: "rev fps = a # b # r" by (metis One_nat_def Suc_1 Suc_le_length_iff length_rev)
  then have "a \<in> set fps" "b \<in> set fps" by (metis list.set_intros set_rev)+
  with assms(1) r show ?thesis by (auto simp: last3_same_def)
qed

text \<open>A loop is stopped: however often an agent makes one and the same call, its tool runs at most twice.\<close>

theorem repeated_call_runs_twice:
  fixes cs :: "('r, 's) tool_call list"
  assumes same: "\<forall>c \<in> set cs. tc_tool c = tool \<and> tc_schema c (tc_args c) = Accepted args"
  shows "length (fst (snd (snd (enforce_all sha dumps repr (map recorded cs) (new_budget now, [], [], w))))) \<le> 2"
proof -
  let ?fp = "take 16 (sha (tool @ dumps args))"
  let ?inv = "\<lambda>st :: budget \<times> audit_line list \<times> tool_run list \<times> 's. set (bu_fingerprints (fst st)) \<subseteq> {?fp} \<and>
    length (fst (snd (snd st))) \<le> length (bu_fingerprints (fst st)) \<and> length (fst (snd (snd st))) \<le> 2"
  have step: "?inv (snd (enforce_tool sha dumps repr (recorded c) st))" if inv: "?inv st" and c: "c \<in> set cs" for c st
  proof -
    obtain b lines runs w where st: "st = (b, lines, runs, w)" by (cases st)
    obtain b1 lines1 runs1 w1 where step: "snd (enforce_tool sha dumps repr (recorded c) (b, lines, runs, w)) = (b1, lines1, runs1, w1)"
      by (metis prod_cases4)
    from c same have tool: "tc_tool c = tool" and acc: "tc_schema c (tc_args c) = Accepted args" by auto
    from step show ?thesis
    proof (cases rule: recorded_step)
      case still
      with inv st step show ?thesis by (auto dest!: charge_frame(6) simp: tool acc)
    next
      case (ran args')
      with acc have "args' = args" by simp
      with charge_frame(7) [OF ran(3)] have fps: "bu_fingerprints b1 = bu_fingerprints b @ [?fp]" "\<not> last3_same (bu_fingerprints b @ [?fp])"
        by (auto simp: tool)
      with last3_same_all [of "bu_fingerprints b" ?fp] inv have "\<not> 2 \<le> length (bu_fingerprints b)" by (auto simp: st)
      with inv st step ran(1) fps show ?thesis by auto
    qed
  qed
  have "?inv (enforce_all sha dumps repr (map recorded ds) st)" if "set ds \<subseteq> set cs" "?inv st" for ds st
    using that
  proof (induction ds arbitrary: st)
    case (Cons d ds)
    from Cons.prems have "?inv (snd (enforce_tool sha dumps repr (recorded d) st))" by (intro step) auto
    with Cons show ?case by (simp add: enforce_all_def)
  qed (simp add: enforce_all_def)
  from this [OF order_refl, of "(new_budget now, [], [], w)"] show ?thesis by (simp add: new_budget_def)
qed

text \<open>What the two contracts let through: files inside the workspace, and queries that begin with \<open>select\<close> or \<open>with\<close>.\<close>

lemma read_file_inside:
  assumes "read_file_contract d workspace raw = Accepted args"
  shows "\<exists>base p. dk_resolve d (At workspace) = Some base \<and> prefix base p \<and> args = [(''path'', PStr (path_text p))]"
  using assms by (auto simp: read_file_contract_def split: option.splits pyval.splits if_splits)

lemma run_sql_reads:
  assumes "run_sql_contract raw = Accepted args"
  shows "\<exists>v. args = [(''query'', PStr v)] \<and> (prefix ''select'' (py_lower (py_strip v)) \<or> prefix ''with'' (py_lower (py_strip v))) \<and>
    list_all (\<lambda>k. \<not> sublist k (py_lower (py_strip v))) BANNED_SQL"
  using assms by (auto simp: run_sql_contract_def Let_def list_ex_iff list_all_iff split: option.splits pyval.splits if_splits)

text \<open>A statement that writes passes the contract when it follows a query, and no call of \<open>enforce\<close> ever costs anything.\<close>

lemma run_sql_accepts_delete:
  "run_sql_contract [(''query'', PStr ''SELECT 1; DELETE FROM runs'')] = Accepted [(''query'', PStr ''SELECT 1; DELETE FROM runs'')]"
  by code_simp

lemma enforce_costs_nothing: "bu_cost (fst (snd (enforce_tool sha dumps repr c (b, lines, w)))) = bu_cost b"
proof -
  obtain d r b1 w1 where call: "guarded_call sha dumps c (b, w) = (d, r, b1, w1)" by (metis prod_cases4)
  have "bu_cost b1 = bu_cost b"
    using call by (cases rule: guarded_call_cases) (auto simp: charge_def Let_def split: if_splits)
  with call show ?thesis by (simp add: enforce_tool_def)
qed

section \<open>Example\<close>

definition demo_query :: "stamp \<Rightarrow> (nat, nat) tool_call" where
  "demo_query now = \<lparr>tc_tool = ''run_sql'', tc_args = [(''query'', PStr ''SELECT 1'')], tc_role = ''analyst'', tc_allow = ALLOW,
     tc_schema = run_sql_contract, tc_fn = (\<lambda>args w. (Inr w, w + 1)), tc_approve = None, tc_now = now\<rparr>"

definition run_count :: "budget \<times> audit_line list \<times> tool_run list \<times> nat \<Rightarrow> nat \<times> decision list" where
  "run_count st = (length (fst (snd (snd st))), map al_decision (fst (snd st)))"

lemma demo_loop:
  "run_count (enforce_all (\<lambda>s. s) (\<lambda>a. ''{}'') (\<lambda>r. []) (map recorded [demo_query 1, demo_query 2, demo_query 3, demo_query 4])
     (new_budget 0, [], [], 0)) = (2, [Allow, Allow, BudgetDenied, BudgetDenied])"
  by code_simp

theorem repeated_call_runs_twice_witness:
  "length (fst (snd (snd (enforce_all (\<lambda>s. s) (\<lambda>a. ''{}'') (\<lambda>r. []) (map recorded [demo_query 1, demo_query 2, demo_query 3, demo_query 4])
     (new_budget 0, [], [], 0))))) \<le> 2 \<and>
   run_count (enforce_all (\<lambda>s. s) (\<lambda>a. ''{}'') (\<lambda>r. []) (map recorded [demo_query 1, demo_query 2, demo_query 3, demo_query 4])
     (new_budget 0, [], [], 0)) = (2, [Allow, Allow, BudgetDenied, BudgetDenied])"
proof -
  have "\<forall>c \<in> set [demo_query 1, demo_query 2, demo_query 3, demo_query 4]. tc_tool c = ''run_sql'' \<and>
      tc_schema c (tc_args c) = Accepted [(''query'', PStr ''SELECT 1'')]"
    by code_simp
  from repeated_call_runs_twice [OF this] demo_loop show ?thesis by blast
qed

theorem agent_session_bounded_witness:
  "\<exists>b lines runs w1. enforce_all (\<lambda>s. s) (\<lambda>a. ''{}'') (\<lambda>r. []) (map recorded [demo_query 1, demo_query 2, demo_query 3, demo_query 4])
       (new_budget 0, [], [], 0) = (b, lines, runs, w1) \<and> length lines = 4 \<and> length runs = 2 \<and>
     permitted (seconds 900) [demo_query 1, demo_query 2, demo_query 3, demo_query 4] (hd runs)"
proof -
  let ?cs = "[demo_query 1, demo_query 2, demo_query 3, demo_query 4]"
  obtain b lines runs w1 where run: "enforce_all (\<lambda>s. s) (\<lambda>a. ''{}'') (\<lambda>r. []) (map recorded ?cs) (new_budget 0, [], [], 0) = (b, lines, runs, w1)"
    "length lines = length ?cs" "\<forall>e \<in> set runs. permitted (0 + seconds 900) ?cs e"
    using agent_session_bounded [of "\<lambda>s. s" "\<lambda>a. ''{}''" "\<lambda>r. []" ?cs 0 0] by blast
  with demo_loop have "length runs = 2" by (simp add: run_count_def)
  moreover from this have "hd runs \<in> set runs" by (cases runs) auto
  ultimately show ?thesis using run by auto
qed

end
