(* ===== verification/Uploads.thy ===== *)
theory Uploads
  imports ClientFile Policy
begin

text \<open>
  The upload of a file (\<^verbatim>\<open>app/api/v1/uploads.py\<close>): receiving it under the limit and the quota, its checks, its place in
  the organization's directory, the row, the usage and the audit event, and the job a schedule may start. The state of the
  attempt is an explicit store of files; every step is a function on it which may be turned away or fail. The codecs, pandas,
  openpyxl, the schema of a package, the hash and the errors of the file system are a record of parameters.
\<close>

section \<open>The store of files\<close>

record stored_file =
  sf_content :: string
  sf_mtime :: rat

type_synonym file_store = "(path \<times> stored_file) list"

definition put_file :: "path \<Rightarrow> stored_file \<Rightarrow> file_store \<Rightarrow> file_store" where
  "put_file p f fs = (p, f) # filter (\<lambda>e. fst e \<noteq> p) fs"

definition remove_file :: "(path \<Rightarrow> bool) \<Rightarrow> path \<Rightarrow> file_store \<Rightarrow> file_store" where
  "remove_file stuck p fs = (if stuck p then fs else filter (\<lambda>e. fst e \<noteq> p) fs)"

definition in_directory :: "path \<Rightarrow> path \<Rightarrow> bool" where
  "in_directory dir p = (p \<noteq> [] \<and> butlast p = dir)"

definition entry_of :: "path \<times> stored_file \<Rightarrow> dir_entry" where
  "entry_of e = \<lparr>de_name = last (fst e), de_is_file = True, de_size = length (sf_content (snd e)), de_mtime = sf_mtime (snd e)\<rparr>"

definition listing :: "path \<Rightarrow> file_store \<Rightarrow> dir_entry list" where
  "listing dir fs = map entry_of (filter (\<lambda>e. in_directory dir (fst e)) fs)"

text \<open>\<open>cleanup_stale_tmp\<close> on the store.\<close>

definition sweep_directory :: "(string \<Rightarrow> bool) \<Rightarrow> rat \<Rightarrow> path \<Rightarrow> file_store \<Rightarrow> file_store" where
  "sweep_directory fails now dir fs =
     filter (\<lambda>e. \<not> (in_directory dir (fst e) \<and> swept fails STALE_TMP_AGE_SEC (now - STALE_TMP_AGE_SEC) (entry_of e))) fs"

lemma sweep_is_cleanup:
  "listing dir (sweep_directory fails now dir fs) = snd (cleanup_stale_tmp fails STALE_TMP_AGE_SEC now (listing dir fs))"
  by (induction fs) (auto simp: listing_def sweep_directory_def cleanup_stale_tmp_def Let_def)

section \<open>What the code calls\<close>

text \<open>Where the outside may fail; \<open>Answer_row\<close> is what follows the commit: reading the row again and building the answer.\<close>

datatype io_step = Write_temp | Read_temp | Rewrite_temp | Move_temp | Answer_row

record upload_env =
  ue_disk :: disk
  ue_io_fails :: "io_step \<Rightarrow> bool"
  ue_codecs :: codecs
  ue_sniff :: "utext \<Rightarrow> nat option"
  ue_nfkd :: "utext \<Rightarrow> utext"
  ue_digit :: "nat \<Rightarrow> nat option"
  ue_parse :: "string \<Rightarrow> utext \<Rightarrow> stamp option"
  ue_guess :: "utext \<Rightarrow> stamp option"
  ue_wild :: "rat \<Rightarrow> int"
  ue_read :: "string \<Rightarrow> nat option \<Rightarrow> string \<Rightarrow> csv_read"
  ue_float :: "rat \<Rightarrow> utext"
  ue_encode :: "utext \<Rightarrow> string option"
  ue_archive :: "string \<Rightarrow> zip_entry list option"
  ue_book :: "string \<Rightarrow> workbook option"
  ue_convert_in_time :: bool
  ue_formulas :: "string \<Rightarrow> utext option \<Rightarrow> (xl_cell list list \<times> xl_cell list list) option"
  ue_scan_in_time :: bool
  ue_package :: "string \<Rightarrow> bool"
  ue_sha :: "string \<Rightarrow> string"
  ue_dumps :: "pydict \<Rightarrow> string"
  ue_repr :: "string option \<Rightarrow> string"
  ue_meanwhile :: "cdb \<Rightarrow> cdb"

record upload_settings =
  ucf_upload_per_min :: int
  ucf_run_per_min :: int
  ucf_quota :: int
  ucf_policy :: bool

text \<open>The multipart form; a read of the file gives the next chunk, the empty one at its end.\<close>

record upload_form =
  uf_filename :: "string option"
  uf_chunks :: "string list"
  uf_sheet :: "utext option"

record fresh_ids =
  fi_upload :: ident
  fi_event :: ident
  fi_job :: ident
  fi_auto_event :: ident

section \<open>Names, limits, paths\<close>

definition SUGGESTED_PIPELINE :: "string \<Rightarrow> string option" where
  "SUGGESTED_PIPELINE = map_of [(''csv'', ''ecommerce_demo''), (''xlsx'', ''ecommerce_demo''), (''package'', ''uksc_evidence'')]"

definition MAX_PACKAGE_BYTES :: nat where "MAX_PACKAGE_BYTES = 5 * 1024 * 1024"

definition kind_of :: "string option \<Rightarrow> refusal + string" where
  "kind_of filename =
     (let name = py_strip (case filename of None \<Rightarrow> [] | Some f \<Rightarrow> f) in
      if suffix ''.json'' (py_lower name)
      then (case validate_original_filename (Some (take (length name - 5) name @ ''.csv'')) of Inl e \<Rightarrow> Inl e | Inr _ \<Rightarrow> Inr ''package'')
      else (case validate_original_filename (Some name) of
              Inl e \<Rightarrow> Inl e | Inr _ \<Rightarrow> Inr (if is_xlsx_name name then ''xlsx'' else ''csv'')))"

definition limit_of_kind :: "string \<Rightarrow> nat" where
  "limit_of_kind kind = (if kind = ''package'' then MAX_PACKAGE_BYTES else MAX_UPLOAD_BYTES)"

datatype upload_error = Turned_away refusal | Failed_processing

definition ensure_inside_root :: "disk \<Rightarrow> path \<Rightarrow> string \<Rightarrow> upload_error + path" where
  "ensure_inside_root d dir name =
     (case (dk_resolve d (At dir), dk_resolve d (Under dir name)) of
        (Some r, Some p) \<Rightarrow> (if prefix r p then Inr p else Inl (Turned_away (Rejected ''path_escape'' 400)))
      | _ \<Rightarrow> Inl Failed_processing)"

definition quota_remaining :: "int \<Rightarrow> nat \<Rightarrow> nat option" where
  "quota_remaining quota used = (if quota > 0 then Some (nat (max 0 (quota - int used))) else None)"

text \<open>The deployment's log and its pseudonym: the hash of where its files are.\<close>

definition append_audit :: "pydict \<Rightarrow> pydict list \<Rightarrow> pydict list" where
  "append_audit event lines = lines @ [event]"

definition safe_deployment_id :: "(string \<Rightarrow> string) \<Rightarrow> disk \<Rightarrow> path \<Rightarrow> string option" where
  "safe_deployment_id sha d dir = map_option (\<lambda>p. take 16 (sha (path_text p))) (dk_resolve d (At dir))"

section \<open>Steps of an attempt\<close>

record attempt_state =
  at_files :: file_store
  at_lines :: "Policy.audit_line list"
  at_size :: nat
  at_final :: "path option"

type_synonym 'a attempt_step = "attempt_state \<Rightarrow> (upload_error + 'a) \<times> attempt_state"

definition and_then :: "'a attempt_step \<Rightarrow> ('a \<Rightarrow> 'b attempt_step) \<Rightarrow> 'b attempt_step" where
  "and_then m k st = (case m st of (Inl e, st1) \<Rightarrow> (Inl e, st1) | (Inr x, st1) \<Rightarrow> k x st1)"

definition pure_step :: "upload_error + 'a \<Rightarrow> 'a attempt_step" where
  "pure_step r st = (r, st)"

definition turned_away :: "refusal + 'a \<Rightarrow> upload_error + 'a" where
  "turned_away r = (case r of Inl e \<Rightarrow> Inl (Turned_away e) | Inr x \<Rightarrow> Inr x)"

definition processed :: "exc + 'a \<Rightarrow> upload_error + 'a" where
  "processed r = (case r of Inl e \<Rightarrow> Inl Failed_processing | Inr x \<Rightarrow> Inr x)"

text \<open>The loop of \<open>_stream_to_temp\<close>: how many bytes came, and what is in the file when it stops.\<close>

fun stream_to_temp :: "nat \<Rightarrow> nat option \<Rightarrow> string list \<Rightarrow> string \<Rightarrow> (refusal + nat) \<times> string" where
  "stream_to_temp limit remaining [] written = (Inr (length written), written)"
| "stream_to_temp limit remaining (chunk # rest) written =
     (if chunk = [] then (Inr (length written), written)
      else if length written + length chunk > limit then (Inl (Rejected ''file_too_large'' 413), written)
      else if (case remaining of None \<Rightarrow> False | Some r \<Rightarrow> length written + length chunk > r)
        then (Inl (Rejected ''quota_exceeded'' 413), written)
      else stream_to_temp limit remaining rest (written @ chunk))"

definition receive :: "upload_env \<Rightarrow> rat \<Rightarrow> path \<Rightarrow> nat \<Rightarrow> nat option \<Rightarrow> string list \<Rightarrow> string attempt_step" where
  "receive env now tmp limit remaining pieces st =
     (if ue_io_fails env Write_temp then (Inl Failed_processing, st)
      else
        let (r, written) = stream_to_temp limit remaining pieces [];
            st1 = st\<lparr>at_files := put_file tmp \<lparr>sf_content = written, sf_mtime = now\<rparr> (at_files st)\<rparr>
        in case r of
             Inl e \<Rightarrow> (Inl (Turned_away e), st1)
           | Inr bytes \<Rightarrow>
               if ue_io_fails env Read_temp then (Inl Failed_processing, st1\<lparr>at_size := bytes\<rparr>)
               else (Inr written, st1\<lparr>at_size := bytes\<rparr>))"

definition name_final :: "upload_env \<Rightarrow> path \<Rightarrow> string \<Rightarrow> path attempt_step" where
  "name_final env dir name st =
     (case ensure_inside_root (ue_disk env) dir name of
        Inl e \<Rightarrow> (Inl e, st)
      | Inr p \<Rightarrow> (Inr p, st\<lparr>at_final := Some p\<rparr>))"

text \<open>The checks of the contents; what is stored and how many formulas had no value.\<close>

definition validate_package :: "upload_env \<Rightarrow> string \<Rightarrow> refusal + string" where
  "validate_package env raw =
     (if py_bytes_strip_empty raw then Inl (Rejected ''file_empty'' 422)
      else if \<not> ue_package env raw then Inl (Rejected ''schema_mismatch'' 422) else Inr raw)"

definition rewrite_temp :: "upload_env \<Rightarrow> rat \<Rightarrow> path \<Rightarrow> string \<Rightarrow> unit attempt_step" where
  "rewrite_temp env now tmp raw st =
     (if ue_io_fails env Rewrite_temp then (Inl Failed_processing, st)
      else (Inr (), st\<lparr>at_files := put_file tmp \<lparr>sf_content = raw, sf_mtime = now\<rparr> (at_files st)\<rparr>))"

definition validated :: "upload_env \<Rightarrow> nat \<Rightarrow> string \<Rightarrow> upload_error + string \<times> utext list \<times> nat" where
  "validated env max_records raw =
     turned_away (validate_csv_bytes (ue_codecs env) (ue_sniff env) (ue_nfkd env) max_records raw)"

definition converted :: "upload_env \<Rightarrow> utext option \<Rightarrow> string \<Rightarrow> upload_error + string \<times> nat" where
  "converted env sheet raw =
     turned_away (xlsx_to_csv_bytes (ue_float env) (ue_encode env) (ue_convert_in_time env) (ue_archive env raw) (ue_book env raw) sheet)"

definition check_contents ::
  "upload_env \<Rightarrow> rat \<Rightarrow> path \<Rightarrow> string \<Rightarrow> utext option \<Rightarrow> string \<Rightarrow> (string \<times> nat option) attempt_step" where
  "check_contents env now tmp kind sheet raw =
     (if kind = ''package''
      then and_then (pure_step (turned_away (validate_package env raw))) (\<lambda>raw. pure_step (Inr (raw, None)))
      else if kind = ''xlsx''
      then and_then (pure_step (converted env sheet raw)) (\<lambda>(csv, n).
           and_then (rewrite_temp env now tmp csv) (\<lambda>_.
           and_then (pure_step (validated env MAX_XLSX_ROWS csv)) (\<lambda>_.
             pure_step (Inr (csv, formula_warning (ue_scan_in_time env) (ue_formulas env raw sheet))))))
      else and_then (pure_step (validated env MAX_RECORDS raw)) (\<lambda>_. pure_step (Inr (raw, None))))"

text \<open>\<open>_enforce_policy_on_path\<close>: one call of the tool \<open>read_file\<close> on the final path, with a fresh budget.\<close>

definition read_call :: "upload_env \<Rightarrow> path \<Rightarrow> stamp \<Rightarrow> path \<Rightarrow> (string, unit) tool_call" where
  "read_call env dir now final =
     \<lparr>tc_tool = ''read_file'', tc_args = [(''path'', PStr (path_text final))], tc_role = ''analyst'', tc_allow = ALLOW,
      tc_schema = read_file_contract (ue_disk env) dir,
      tc_fn = (\<lambda>args w. (case map_of args ''path'' of Some (PStr p) \<Rightarrow> Inr p | _ \<Rightarrow> Inl (PyRaise ''TypeError''), w)),
      tc_approve = None, tc_now = now\<rparr>"

definition enforce_policy_on_path :: "upload_env \<Rightarrow> bool \<Rightarrow> path \<Rightarrow> stamp \<Rightarrow> path \<Rightarrow> unit attempt_step" where
  "enforce_policy_on_path env on dir now final st =
     (if \<not> on then (Inr (), st)
      else
        let (r, b, lines, w) = enforce_tool (ue_sha env) (ue_dumps env) (ue_repr env) (read_call env dir now final)
              (new_budget now, at_lines st, ());
            st1 = st\<lparr>at_lines := lines\<rparr>
        in case r of
             Inr _ \<Rightarrow> (Inr (), st1)
           | Inl e \<Rightarrow> (Inl (if e = policy_error then Turned_away (Rejected ''policy_denied'' 403) else Failed_processing), st1))"

definition move_temp :: "upload_env \<Rightarrow> path \<Rightarrow> path \<Rightarrow> unit attempt_step" where
  "move_temp env tmp final st =
     (case (ue_io_fails env Move_temp, map_of (at_files st) tmp) of
        (False, Some f) \<Rightarrow> (Inr (), st\<lparr>at_files := put_file final f (filter (\<lambda>e. fst e \<noteq> tmp) (at_files st))\<rparr>)
      | _ \<Rightarrow> (Inl Failed_processing, st))"

text \<open>The mapper's report on the stored file; a package has none.\<close>

definition mapped :: "upload_env \<Rightarrow> string \<Rightarrow> string \<Rightarrow> upload_error + (utext list \<times> mapping_report) option" where
  "mapped env kind content =
     (if kind = ''package'' then Inr None
      else case processed (read_client_csv (ue_codecs env) (ue_sniff env) (ue_read env) content) of
        Inl e \<Rightarrow> Inl e
      | Inr df \<Rightarrow>
          (case processed (map_dataframe (ue_wild env) (ue_nfkd env) (ue_digit env) (ue_parse env) (ue_guess env) df) of
             Inl e \<Rightarrow> Inl e
           | Inr (_, rep) \<Rightarrow> Inr (Some (map fst (fr_columns df), rep))))"

record accepted_file =
  acc_kind :: string
  acc_path :: path
  acc_received :: string
  acc_stored :: string
  acc_report :: "(utext list \<times> mapping_report) option"
  acc_note :: "nat option"

definition ingest_steps ::
  "upload_env \<Rightarrow> upload_settings \<Rightarrow> stamp \<Rightarrow> rat \<Rightarrow> ident \<Rightarrow> path \<Rightarrow> path \<Rightarrow> nat option \<Rightarrow> upload_form \<Rightarrow> accepted_file attempt_step" where
  "ingest_steps env cfg now clock upload_id dir tmp remaining form =
     and_then (pure_step (turned_away (kind_of (uf_filename form)))) (\<lambda>kind.
     and_then (receive env clock tmp (limit_of_kind kind) remaining (uf_chunks form)) (\<lambda>raw.
     and_then (name_final env dir (upload_id @ (if kind = ''package'' then ''.json'' else ''.csv''))) (\<lambda>final.
     and_then (check_contents env clock tmp kind (uf_sheet form) raw) (\<lambda>(content, note).
     and_then (enforce_policy_on_path env (ucf_policy cfg) dir now final) (\<lambda>_.
     and_then (move_temp env tmp final) (\<lambda>_.
     and_then (pure_step (mapped env kind content)) (\<lambda>report.
       pure_step (Inr \<lparr>acc_kind = kind, acc_path = final, acc_received = raw, acc_stored = content, acc_report = report, acc_note = note\<rparr>))))))))"

section \<open>The schedule's job\<close>

definition auto_body :: "string \<Rightarrow> ident \<Rightarrow> job_create" where
  "auto_body pipeline upload_id = \<lparr>jc_pipeline = pipeline, jc_upload_id = Some upload_id, jc_force_mock = False,
     jc_client_name = None, jc_period_from = None, jc_period_to = None\<rparr>"

definition internal_error :: string where "internal_error = ''internal_error''"

definition skip_reason :: "exc \<Rightarrow> string" where
  "skip_reason e = (case e of Problem status code \<Rightarrow> code | _ \<Rightarrow> internal_error)"

text \<open>\<open>queue_job\<close> behind the limit \<open>v1_run\<close>.\<close>

definition queue_auto ::
  "server \<Rightarrow> http_request \<Rightarrow> upload_settings \<Rightarrow> fresh_ids \<Rightarrow> org_context \<Rightarrow> job_create \<Rightarrow> job app_handler" where
  "queue_auto sv rq cfg ids ctx body st =
     (let (wait, bs) = enforce (sv_max_buckets sv) (rq_clock rq) ''v1_run''
            (principal_key (actor_tag (cx_principal ctx)) (client_ip (rq_host rq))) (ucf_run_per_min cfg) (ap_limiter st);
          st1 = st\<lparr>ap_limiter := bs\<rparr>
      in if wait \<noteq> None then (Inl (Problem 429 ''rate_limited''), st1)
         else if \<not> job_create_valid body then (Inl (PyRaise ''ValidationError''), st1)
         else
           let (res, db) = queue_job (sv_maintenance sv) (sv_cloud sv) (fi_job ids) (fi_auto_event ids) (rq_now rq) (rq_host rq)
                 (cx_org_id ctx) (cx_principal ctx) body (Some ''auto_run'') (ap_db st1)
           in (res, st1\<lparr>ap_db := db\<rparr>))"

definition skip_auto ::
  "http_request \<Rightarrow> fresh_ids \<Rightarrow> org_context \<Rightarrow> ident \<Rightarrow> string \<Rightarrow> string \<Rightarrow> app \<Rightarrow> app" where
  "skip_auto rq ids ctx upload_id pipeline reason st =
     (case record_event (fi_auto_event ids) (rq_now rq) (Some (cx_org_id ctx)) (actor_type (cx_principal ctx))
             (actor_id (cx_principal ctx)) ''schedule.auto_run_skipped'' (Some (''upload:'' @ upload_id))
             [(''upload_id'', PStr upload_id), (''pipeline'', PStr pipeline), (''reason'', PStr reason)] (rq_host rq) (ap_db st) of
        Inl _ \<Rightarrow> st
      | Inr db \<Rightarrow> st\<lparr>ap_db := db\<rparr>)"

definition auto_run ::
  "server \<Rightarrow> http_request \<Rightarrow> upload_settings \<Rightarrow> fresh_ids \<Rightarrow> org_context \<Rightarrow> upload \<Rightarrow> bool option \<Rightarrow> app \<Rightarrow> ident option \<times> app" where
  "auto_run sv rq cfg ids ctx up ready st =
     (case (sql_first (\<lambda>s. os_org s = cx_org_id ctx) (org_schedules (ap_db st)), SUGGESTED_PIPELINE (up_kind up)) of
        (Some schedule, Some pipeline) \<Rightarrow>
          (let skip = (\<lambda>reason st. (None, skip_auto rq ids ctx (up_id up) pipeline reason st)) in
           if \<not> os_auto_run schedule then (None, st)
           else if ready = Some False then skip ''upload_not_ready'' st
           else if RUNS_WRITE \<notin> cx_scopes ctx then skip ''insufficient_scope'' st
           else if runs_limit_reached (cx_org ctx) (rq_now rq) (ap_db st) \<noteq> None then skip ''plan_limit'' st
           else (case queue_auto sv rq cfg ids ctx (auto_body pipeline (up_id up)) st of
                   (Inr j, st1) \<Rightarrow> (Some (j_id j), st1)
                 | (Inl e, st1) \<Rightarrow> skip (skip_reason e) st1))
      | _ \<Rightarrow> (None, st))"

section \<open>The request\<close>

record upload_out =
  uo_row :: upload
  uo_pipeline :: string
  uo_columns :: "utext list option"
  uo_mapping :: "mapping_report option"
  uo_formula_note :: "nat option"
  uo_ready :: "bool option"
  uo_auto_job :: "ident option"

definition upload_row :: "http_request \<Rightarrow> fresh_ids \<Rightarrow> org_context \<Rightarrow> upload_env \<Rightarrow> upload_form \<Rightarrow> accepted_file \<Rightarrow> upload" where
  "upload_row rq ids ctx env form acc =
     \<lparr>up_id = fi_upload ids, up_org = cx_org_id ctx, up_kind = acc_kind acc,
      up_filename = take 128 (case uf_filename form of None \<Rightarrow> [] | Some f \<Rightarrow> f), up_bytes = int (length (acc_received acc)),
      up_sha256 = ue_sha env (acc_received acc), up_path = last (acc_path acc), up_created_at = rq_now rq,
      up_retention_until = rq_now rq + days (o_retention_days (cx_org ctx))\<rparr>"

definition out_of :: "upload \<Rightarrow> accepted_file \<Rightarrow> upload_out" where
  "out_of row acc = \<lparr>uo_row = row, uo_pipeline = (case SUGGESTED_PIPELINE (acc_kind acc) of Some p \<Rightarrow> p | None \<Rightarrow> []),
     uo_columns = map_option fst (acc_report acc), uo_mapping = map_option snd (acc_report acc),
     uo_formula_note = (if acc_report acc = None then None else acc_note acc),
     uo_ready = map_option (\<lambda>r. rep_rows_out (snd r) > 0) (acc_report acc), uo_auto_job = None\<rparr>"

text \<open>Row, usage and event in one transaction; a key that is taken leaves the session unusable.\<close>

definition commit_upload ::
  "upload_env \<Rightarrow> http_request \<Rightarrow> fresh_ids \<Rightarrow> org_context \<Rightarrow> upload_form \<Rightarrow> accepted_file \<Rightarrow> upload handler" where
  "commit_upload env rq ids ctx form acc db =
     (let row = upload_row rq ids ctx env form acc in
      case sql_insert up_id row (uploads db) of
        None \<Rightarrow> (Inl (PyRaise ''PendingRollbackError''), db)
      | Some us \<Rightarrow>
          let db1 = add_usage (ue_meanwhile env) (rq_now rq) (cx_org_id ctx) 0 (up_bytes row) (db\<lparr>uploads := us\<rparr>) in
          with_event db
            (record_event (fi_event ids) (rq_now rq) (Some (cx_org_id ctx)) (actor_type (cx_principal ctx))
               (actor_id (cx_principal ctx)) ''upload.created'' (Some (''upload:'' @ up_id row))
               [(''upload_id'', PStr (up_id row)), (''kind'', PStr (up_kind row)), (''bytes'', PInt (up_bytes row)),
                (''sha256'', PStr (up_sha256 row))] (rq_host rq) db1)
            (\<lambda>db2. (Inr row, db2)))"

definition denied :: "http_request \<Rightarrow> fresh_ids \<Rightarrow> org_context \<Rightarrow> nat \<Rightarrow> string \<Rightarrow> nat \<Rightarrow> cdb \<Rightarrow> exc \<times> cdb" where
  "denied rq ids ctx status reason bytes db =
     (case record_event (fi_event ids) (rq_now rq) (Some (cx_org_id ctx)) (actor_type (cx_principal ctx))
             (actor_id (cx_principal ctx)) ''auth_denied'' (Some ''upload'')
             [(''reason'', PStr reason), (''bytes'', PInt (int bytes))] (rq_host rq) db of
        Inl e \<Rightarrow> (e, db)
      | Inr db1 \<Rightarrow> (Problem status reason, db1))"

definition refusal_of :: "upload_error \<Rightarrow> string \<times> nat" where
  "refusal_of e = (case e of Turned_away (Rejected reason status) \<Rightarrow> (reason, status) | Failed_processing \<Rightarrow> (''parser_error'', 422))"

text \<open>The \<open>finally\<close> block and, before it, the removal of the final file by the handlers of exceptions.\<close>

definition tidy :: "upload_env \<Rightarrow> path \<Rightarrow> path option \<Rightarrow> file_store \<Rightarrow> file_store" where
  "tidy env tmp final fs =
     remove_file (dk_stuck (ue_disk env)) tmp
       (case final of None \<Rightarrow> fs | Some p \<Rightarrow> remove_file (dk_stuck (ue_disk env)) p fs)"

record upload_world =
  uw_app :: app
  uw_files :: file_store
  uw_lines :: "Policy.audit_line list"

definition drop_upload ::
  "upload_env \<Rightarrow> http_request \<Rightarrow> fresh_ids \<Rightarrow> org_context \<Rightarrow> path \<Rightarrow> upload_error \<Rightarrow> attempt_state \<Rightarrow> app \<Rightarrow> exc \<times> upload_world" where
  "drop_upload env rq ids ctx tmp e s1 st =
     (let (reason, status) = refusal_of e; (problem, db) = denied rq ids ctx status reason (at_size s1) (ap_db st)
      in (problem, \<lparr>uw_app = st\<lparr>ap_db := db\<rparr>, uw_files = tidy env tmp (at_final s1) (at_files s1), uw_lines = at_lines s1\<rparr>))"

text \<open>A failure after the commit is caught by the handler of every other exception: the file goes, the row stays.\<close>

definition keep_upload ::
  "upload_env \<Rightarrow> server \<Rightarrow> http_request \<Rightarrow> upload_settings \<Rightarrow> fresh_ids \<Rightarrow> org_context \<Rightarrow> upload_form \<Rightarrow> path \<Rightarrow> accepted_file
    \<Rightarrow> attempt_state \<Rightarrow> app \<Rightarrow> (exc + upload_out) \<times> upload_world" where
  "keep_upload env sv rq cfg ids ctx form tmp acc s1 st =
     (case commit_upload env rq ids ctx form acc (ap_db st) of
        (Inl e, db) \<Rightarrow> (Inl e, \<lparr>uw_app = st\<lparr>ap_db := db\<rparr>, uw_files = tidy env tmp (at_final s1) (at_files s1), uw_lines = at_lines s1\<rparr>)
      | (Inr row, db) \<Rightarrow>
          if ue_io_fails env Answer_row
          then (let (problem, w1) = drop_upload env rq (ids\<lparr>fi_event := fi_auto_event ids\<rparr>) ctx tmp Failed_processing s1 (st\<lparr>ap_db := db\<rparr>)
                in (Inl problem, w1))
          else
            let out = out_of row acc; (job, st1) = auto_run sv rq cfg ids ctx row (uo_ready out) (st\<lparr>ap_db := db\<rparr>)
            in (Inr (out\<lparr>uo_auto_job := job\<rparr>),
                \<lparr>uw_app = st1, uw_files = tidy env tmp None (at_files s1), uw_lines = at_lines s1\<rparr>))"

text \<open>The clock of the file system, in seconds.\<close>

definition wall_clock :: "http_request \<Rightarrow> rat" where
  "wall_clock rq = of_int (rq_now rq) / of_int (seconds 1)"

text \<open>After the limit of requests: the sweep, the quota, the attempt and its end.\<close>

definition attempt_upload ::
  "upload_env \<Rightarrow> server \<Rightarrow> http_request \<Rightarrow> upload_settings \<Rightarrow> fresh_ids \<Rightarrow> path \<Rightarrow> (string \<Rightarrow> bool) \<Rightarrow> org_context \<Rightarrow> upload_form
    \<Rightarrow> upload_world \<Rightarrow> (exc + upload_out) \<times> upload_world" where
  "attempt_upload env sv rq cfg ids dir fails ctx form w =
     (let fs = sweep_directory fails (wall_clock rq) dir (uw_files w);
          remaining = quota_remaining (ucf_quota cfg) (dir_usage_bytes fails (listing dir fs))
      in case ensure_inside_root (ue_disk env) dir (fi_upload ids @ ''.tmp'') of
           Inl e \<Rightarrow> (Inl (PyRaise (case e of Turned_away _ \<Rightarrow> ''UploadRejected'' | Failed_processing \<Rightarrow> ''OSError'')), w\<lparr>uw_files := fs\<rparr>)
         | Inr tmp \<Rightarrow>
             (case ingest_steps env cfg (rq_now rq) (wall_clock rq) (fi_upload ids) dir tmp remaining form
                     \<lparr>at_files = fs, at_lines = uw_lines w, at_size = 0, at_final = None\<rparr> of
                (Inr acc, s1) \<Rightarrow> keep_upload env sv rq cfg ids ctx form tmp acc s1 (uw_app w)
              | (Inl e, s1) \<Rightarrow> (let (problem, w1) = drop_upload env rq ids ctx tmp e s1 (uw_app w) in (Inl problem, w1))))"

definition ingest_upload ::
  "upload_env \<Rightarrow> server \<Rightarrow> http_request \<Rightarrow> upload_settings \<Rightarrow> fresh_ids \<Rightarrow> path \<Rightarrow> (string \<Rightarrow> bool) \<Rightarrow> org_context \<Rightarrow> upload_form
    \<Rightarrow> upload_world \<Rightarrow> (exc + upload_out) \<times> upload_world" where
  "ingest_upload env sv rq cfg ids dir fails ctx form w =
     (let (wait, bs) = enforce (sv_max_buckets sv) (rq_clock rq) ''v1_upload''
            (principal_key (actor_tag (cx_principal ctx)) (client_ip (rq_host rq))) (ucf_upload_per_min cfg) (ap_limiter (uw_app w));
          w1 = w\<lparr>uw_app := (uw_app w)\<lparr>ap_limiter := bs\<rparr>\<rparr>
      in if wait \<noteq> None then (Inl (Problem 429 ''rate_limited''), w1)
         else attempt_upload env sv rq cfg ids dir fails ctx form w1)"

end
