(* ===== verification/RestoreSafety.thy ===== *)
theory RestoreSafety
  imports Restore Members Notifications Uploads
begin

text \<open>
  What the offline tools promise: after a full quarantine no restored credential of any kind is accepted and nothing
  restored runs by itself; a correction of memberships only ever takes rights away and keeps an owner.
\<close>

section \<open>The transaction\<close>

definition op_ok :: "quarantine_op \<Rightarrow> bool" where
  "op_ok q = (''restore.'' @ qo_category q \<in> set AUDIT_ACTIONS_V1 \<and>
     (\<forall>db ae. qo_apply q (db\<lparr>audit_events := ae\<rparr>) = (qo_apply q db)\<lparr>audit_events := ae\<rparr>))"

lemma fold_op_ok:
  "\<forall>q \<in> set qs. op_ok q \<Longrightarrow> fold qo_apply qs (db\<lparr>audit_events := ae\<rparr>) = (fold qo_apply qs db)\<lparr>audit_events := ae\<rparr>"
  by (induction qs arbitrary: db) (auto simp: op_ok_def)

lemma run_ops_step:
  assumes "op_ok q"
  obtains ae where "run_ops ev now False (q # qs) (counts, db) =
    run_ops ev now False qs (counts @ [(qo_category q, qo_count q db)], (qo_apply q db)\<lparr>audit_events := ae\<rparr>)"
proof (cases "qo_count q db = 0")
  case True
  then have "run_ops ev now False (q # qs) (counts, db) = run_ops ev now False qs
      (counts @ [(qo_category q, qo_count q db)], (qo_apply q db)\<lparr>audit_events := audit_events (qo_apply q db)\<rparr>)"
    by (simp add: Let_def)
  then show ?thesis using that by blast
next
  case False
  with assms show ?thesis using that by (simp add: Let_def record_event_def op_ok_def)
qed

text \<open>No statement changes the rows a later one counts.\<close>

fun independent :: "quarantine_op list \<Rightarrow> bool" where
  "independent [] = True"
| "independent (q # qs) =
     ((\<forall>q' \<in> set qs. \<forall>db ae. qo_count q' ((qo_apply q db)\<lparr>audit_events := ae\<rparr>) = qo_count q' db) \<and> independent qs)"

lemma run_ops_counts:
  assumes "\<forall>q \<in> set qs. op_ok q" "independent qs"
  shows "\<exists>ae. run_ops ev now False qs (counts, db) =
    Inr (counts @ map (\<lambda>q. (qo_category q, qo_count q db)) qs, (fold qo_apply qs db)\<lparr>audit_events := ae\<rparr>)"
  using assms
proof (induction qs arbitrary: counts db)
  case Nil
  show ?case by (simp, rule exI [of _ "audit_events db"]) simp
next
  case (Cons q qs)
  from Cons.prems have q: "op_ok q" and ok: "\<forall>q \<in> set qs. op_ok q" and ind: "independent qs" by auto
  obtain ae where step: "run_ops ev now False (q # qs) (counts, db) =
      run_ops ev now False qs (counts @ [(qo_category q, qo_count q db)], (qo_apply q db)\<lparr>audit_events := ae\<rparr>)" by (rule run_ops_step [OF q])
  have "map (\<lambda>q'. (qo_category q', qo_count q' ((qo_apply q db)\<lparr>audit_events := ae\<rparr>))) qs = map (\<lambda>q'. (qo_category q', qo_count q' db)) qs"
    using Cons.prems(2) by simp
  with Cons.IH [OF ok ind, of "counts @ [(qo_category q, qo_count q db)]" "(qo_apply q db)\<lparr>audit_events := ae\<rparr>"] show ?case
    unfolding step by (simp add: fold_op_ok [OF ok])
qed

lemma run_ops_dry: "run_ops ev now True qs (counts, db) = Inr (counts @ map (\<lambda>q. (qo_category q, qo_count q db)) qs, db)"
  by (induction qs arbitrary: counts) (simp_all add: Let_def)

lemma ops_ok: "\<forall>q \<in> set (basic_ops now). op_ok q" "\<forall>q \<in> set (revoke_ops now). op_ok q"
  by (simp_all add: op_ok_def basic_ops_def revoke_ops_def AUDIT_ACTIONS_V1_def)

text \<open>The database after a full quarantine, but for the audit events.\<close>

definition quarantined :: "stamp \<Rightarrow> cdb \<Rightarrow> cdb" where
  "quarantined now db = fold qo_apply (basic_ops now @ revoke_ops now) db"

lemma rowcount_update_same: "(\<And>r. Q (f r) = Q r) \<Longrightarrow> rowcount Q (sql_update P f rows) = rowcount Q rows"
  by (induction rows) (simp_all add: rowcount_def sql_update_def)

lemma ops_independent: "independent (basic_ops now @ revoke_ops now)" "independent (basic_ops now)"
  by (simp_all add: basic_ops_def revoke_ops_def rowcount_update_same)

definition counted :: "bool \<Rightarrow> stamp \<Rightarrow> cdb \<Rightarrow> (string \<times> nat) list" where
  "counted revoke_all now db =
     map (\<lambda>q. (qo_category q, qo_count q db)) (basic_ops now @ (if revoke_all then revoke_ops now else []))"

lemma quarantine_dry: "restore_quarantine ev now True revoke_all db = (Inr (counted revoke_all now db), db)"
  by (simp add: restore_quarantine_def counted_def run_ops_dry)

lemma quarantine_full:
  "\<exists>ae. restore_quarantine ev now False True db = (Inr (counted True now db), (quarantined now db)\<lparr>audit_events := ae\<rparr>)"
proof -
  have "\<forall>q \<in> set (basic_ops now @ revoke_ops now). op_ok q" using ops_ok by auto
  from run_ops_counts [OF this ops_independent(1), of ev now "[]" db] show ?thesis
    unfolding restore_quarantine_def quarantined_def counted_def by auto
qed

lemma quarantined_fields:
  "sessions (quarantined now db) = []"
  "magic_links (quarantined now db) = sql_update (\<lambda>l. ml_used_at l = None) (ml_used_at_update (\<lambda>_. Some now)) (magic_links db)"
  "oauth_codes (quarantined now db) = sql_update open_code (ac_status_update (\<lambda>_. CExpired)) (oauth_codes db)"
  "api_keys (quarantined now db) = sql_update (\<lambda>k. k_revoked_at k = None) (k_revoked_at_update (\<lambda>_. Some now)) (api_keys db)"
  "oauth_grants (quarantined now db) = sql_update (\<lambda>g. g_revoked_at g = None) (quarantined_grant now) (oauth_grants db)"
  "oauth_tokens (quarantined now db) = sql_update (\<lambda>t. t_revoked_at t = None) (t_revoked_at_update (\<lambda>_. Some now)) (oauth_tokens db)"
  "invitations (quarantined now db) = sql_delete (\<lambda>i. i_accepted_at i = None) (invitations db)"
  "webhooks (quarantined now db) = sql_update w_active (w_active_update (\<lambda>_. False)) (webhooks db)"
  "jobs (quarantined now db) = sql_update (\<lambda>j. j_status j = Queued) (quarantined_job now) (jobs db)"
  "org_schedules (quarantined now db) =
     sql_update os_auto_run (os_auto_run_update (\<lambda>_. False))
       (sql_update os_notify_on_finish (os_notify_on_finish_update (\<lambda>_. False))
         (sql_update (\<lambda>s. os_webhook_url s \<noteq> None) (os_webhook_url_update (\<lambda>_. None))
           (sql_update os_reminder_enabled (\<lambda>s. s\<lparr>os_reminder_enabled := False, os_next_reminder_at := None\<rparr>) (org_schedules db))))"
  "orgs (quarantined now db) = orgs db" "users (quarantined now db) = users db" "memberships (quarantined now db) = memberships db"
  "run_records (quarantined now db) = run_records db" "uploads (quarantined now db) = uploads db"
  "oauth_clients (quarantined now db) = sql_update (\<lambda>c. oc_revoked_at c = None) (oc_revoked_at_update (\<lambda>_. Some now)) (oauth_clients db)"
  by (simp_all add: quarantined_def basic_ops_def revoke_ops_def)

text \<open>No row of the tables of credentials can be used, nothing is due.\<close>

definition no_live_credential :: "cdb \<Rightarrow> bool" where
  "no_live_credential db =
     (sessions db = [] \<and> (\<forall>l \<in> set (magic_links db). ml_used_at l \<noteq> None) \<and> (\<forall>k \<in> set (api_keys db). k_revoked_at k \<noteq> None) \<and>
      (\<forall>g \<in> set (oauth_grants db). g_revoked_at g \<noteq> None) \<and> (\<forall>t \<in> set (oauth_tokens db). t_revoked_at t \<noteq> None) \<and>
      (\<forall>c \<in> set (oauth_codes db). \<not> open_code c) \<and> (\<forall>i \<in> set (invitations db). i_accepted_at i \<noteq> None) \<and>
      (\<forall>w \<in> set (webhooks db). \<not> w_active w) \<and> (\<forall>j \<in> set (jobs db). j_status j \<noteq> Queued) \<and>
      (\<forall>s \<in> set (org_schedules db). \<not> os_reminder_enabled s \<and> os_webhook_url s = None \<and> \<not> os_notify_on_finish s \<and> \<not> os_auto_run s) \<and>
      (\<forall>c \<in> set (oauth_clients db). oc_revoked_at c \<noteq> None))"

lemma no_live_credentialD:
  assumes "no_live_credential db"
  shows "sessions db = []" "l \<in> set (magic_links db) \<Longrightarrow> ml_used_at l \<noteq> None" "k \<in> set (api_keys db) \<Longrightarrow> k_revoked_at k \<noteq> None"
    "g \<in> set (oauth_grants db) \<Longrightarrow> g_revoked_at g \<noteq> None" "t \<in> set (oauth_tokens db) \<Longrightarrow> t_revoked_at t \<noteq> None"
    "c \<in> set (oauth_codes db) \<Longrightarrow> \<not> open_code c" "i \<in> set (invitations db) \<Longrightarrow> i_accepted_at i \<noteq> None"
    "w \<in> set (webhooks db) \<Longrightarrow> \<not> w_active w" "j \<in> set (jobs db) \<Longrightarrow> j_status j \<noteq> Queued"
    "s \<in> set (org_schedules db) \<Longrightarrow> \<not> os_reminder_enabled s \<and> os_webhook_url s = None \<and> \<not> os_notify_on_finish s \<and> \<not> os_auto_run s"
    "oc \<in> set (oauth_clients db) \<Longrightarrow> oc_revoked_at oc \<noteq> None"
  using assms unfolding no_live_credential_def by simp_all

lemma updated_rows: "\<forall>r \<in> set rows. P r \<longrightarrow> Q (f r) \<Longrightarrow> \<forall>r \<in> set rows. \<not> P r \<longrightarrow> Q r \<Longrightarrow> \<forall>r \<in> set (sql_update P f rows). Q r"
  by (auto simp: sql_update_def)

lemma kept_rows: "\<forall>r \<in> set rows. \<not> P r \<longrightarrow> Q r \<Longrightarrow> \<forall>r \<in> set (sql_delete P rows). Q r"
  by (auto simp: table_simps)

lemma updated_row: "r \<in> set (sql_update P f rows) \<Longrightarrow> \<exists>r0 \<in> set rows. r = (if P r0 then f r0 else r0)"
  by (auto simp: sql_update_def)

lemma quarantined_schedule:
  assumes "s \<in> set (org_schedules (quarantined now db))"
  shows "\<not> os_reminder_enabled s \<and> os_webhook_url s = None \<and> \<not> os_notify_on_finish s \<and> \<not> os_auto_run s"
proof -
  from updated_row [OF assms [unfolded quarantined_fields]] obtain s3 where s: "s = (if os_auto_run s3 then s3\<lparr>os_auto_run := False\<rparr> else s3)"
    and "s3 \<in> set (sql_update os_notify_on_finish (os_notify_on_finish_update (\<lambda>_. False))
         (sql_update (\<lambda>s. os_webhook_url s \<noteq> None) (os_webhook_url_update (\<lambda>_. None))
           (sql_update os_reminder_enabled (\<lambda>s. s\<lparr>os_reminder_enabled := False, os_next_reminder_at := None\<rparr>) (org_schedules db))))" by blast
  from updated_row [OF this(2)] obtain s2 where s3: "s3 = (if os_notify_on_finish s2 then s2\<lparr>os_notify_on_finish := False\<rparr> else s2)"
    and "s2 \<in> set (sql_update (\<lambda>s. os_webhook_url s \<noteq> None) (os_webhook_url_update (\<lambda>_. None))
           (sql_update os_reminder_enabled (\<lambda>s. s\<lparr>os_reminder_enabled := False, os_next_reminder_at := None\<rparr>) (org_schedules db)))" by blast
  from updated_row [OF this(2)] obtain s1 where s2: "s2 = (if os_webhook_url s1 \<noteq> None then s1\<lparr>os_webhook_url := None\<rparr> else s1)"
    and "s1 \<in> set (sql_update os_reminder_enabled (\<lambda>s. s\<lparr>os_reminder_enabled := False, os_next_reminder_at := None\<rparr>) (org_schedules db))" by blast
  from updated_row [OF this(2)] obtain s0 where s1: "s1 = (if os_reminder_enabled s0
      then s0\<lparr>os_reminder_enabled := False, os_next_reminder_at := None\<rparr> else s0)" by blast
  have "\<not> os_reminder_enabled s1" by (simp add: s1)
  moreover from s2 have "os_webhook_url s2 = None" "os_reminder_enabled s2 = os_reminder_enabled s1" by simp_all
  moreover from s3 have "\<not> os_notify_on_finish s3" "os_webhook_url s3 = os_webhook_url s2" "os_reminder_enabled s3 = os_reminder_enabled s2"
    by simp_all
  ultimately show ?thesis using s by simp
qed

lemma quarantined_dead: "no_live_credential ((quarantined now db)\<lparr>audit_events := ae\<rparr>)"
  unfolding no_live_credential_def
proof (intro conjI)
  show "\<forall>s \<in> set (org_schedules ((quarantined now db)\<lparr>audit_events := ae\<rparr>)).
      \<not> os_reminder_enabled s \<and> os_webhook_url s = None \<and> \<not> os_notify_on_finish s \<and> \<not> os_auto_run s"
    using quarantined_schedule by simp
qed (simp_all add: quarantined_fields, (rule updated_rows kept_rows; simp add: quarantined_grant_def quarantined_job_def open_code_def)+)

section \<open>Nobody gets in\<close>

lemma first_none: "\<forall>r \<in> set rows. \<not> P r \<Longrightarrow> sql_first P rows = None"
  by (simp add: table_simps)

lemma unauthorized_range [simp]: "fst (unauthorized sv rq st) \<in> range Inl"
  by (simp add: unauthorized_def Let_def split: prod.splits)

lemma no_key:
  assumes "no_live_credential (ap_db st)"
  shows "fst (authenticate_key sha sv rq raw st) \<in> insert (Inr selfhost_principal) (range Inl)"
proof (cases "find_key (py_strip raw) (ap_db st)")
  case None
  then show ?thesis by (auto simp: authenticate_key_def Let_def unauthorized_Inl)
next
  case (Some k)
  then have "k \<in> set (api_keys (ap_db st))" by (auto simp: find_key_def dest: sql_first_Some split: option.splits)
  with Some no_live_credentialD(3) [OF assms] show ?thesis by (auto simp: authenticate_key_def Let_def unauthorized_Inl)
qed

lemma no_session:
  assumes "no_live_credential (ap_db st)"
  shows "fst (authenticate_session mac sv rq cookie st) \<in> range Inl"
  using no_live_credentialD(1) [OF assms]
  by (auto simp: authenticate_session_def get_session_def sql_first_def unauthorized_def case_prod_beta split: option.split)

lemma no_oauth_principal: "no_live_credential db \<Longrightarrow> fst (principal_for sha t raw db) = Inr None"
proof -
  assume "no_live_credential db"
  then have "principal_row sha raw db = None"
    unfolding principal_row_alt by (subst first_none) (auto dest: no_live_credentialD(5))
  then show ?thesis by (simp add: principal_for_def)
qed

lemma no_access_token: "no_live_credential db \<Longrightarrow> load_access_token sha t raw db = None"
proof -
  assume "no_live_credential db"
  then have "active_token sha t raw Access db = None"
    unfolding active_token_def by (subst first_none) (auto dest: no_live_credentialD(5))
  then show ?thesis by (simp add: load_access_token_def)
qed

lemma no_link: "no_live_credential db \<Longrightarrow> fst (consume_link digest t db) = 0"
  by (auto simp: consume_link_def rowcount_zero usable_link_def dest: no_live_credentialD(2))

lemma no_code:
  assumes "no_live_credential db"
  shows "fst (exchange_authorization_code sha ttl fuel t t' gid mint evs ip client code db) \<in> range Inl"
proof -
  have "rowcount (code_consumable (dc_request_id code) t) (oauth_codes db) = 0"
    using no_live_credentialD(6) [OF assms] by (auto simp: rowcount_zero code_consumable_def open_code_def)
  then show ?thesis
    by (auto simp: exchange_authorization_code_def split: option.split prod.split sum.split)
qed

lemma no_refresh:
  assumes "no_live_credential db"
  shows "fst (exchange_refresh_token sha ttl t1 t2 t3 mint evid ip client ptr scopes db) \<in> range Inl"
proof (cases "exchange_refresh_lookup sha client ptr db")
  case lookup: (Some gid)
  show ?thesis
  proof (cases "guard_grant gid db")
    case (Some db1)
    then have db1: "oauth_grants db1 = sql_update (\<lambda>g. g_id g = gid) (\<lambda>g. g\<lparr>g_lock_seq := g_lock_seq g + 1\<rparr>) (oauth_grants db)"
      by (auto simp: guard_grant_def Let_def split: if_splits)
    have dead: "\<forall>g \<in> set (oauth_grants db1). g_revoked_at g \<noteq> None"
      unfolding db1 by (rule updated_rows) (use no_live_credentialD(4) [OF assms] in auto)
    have "fst (usable_refresh t1 t2 evid ip gid (rp_token_id ptr) client db1) = Inr None"
    proof (cases "get_oauth_grant gid db1")
      case (Some g)
      then have "g_revoked_at g \<noteq> None" using dead by (auto simp: get_oauth_grant_def dest: sql_first_Some)
      then have "\<And>row. classify_refresh t1 db1 row g = refresh_verdict.Refused" by (simp add: classify_refresh_def)
      with Some show ?thesis by (auto simp: usable_refresh_def split: option.split)
    qed (auto simp: usable_refresh_def split: option.split)
    then obtain db2 where "usable_refresh t1 t2 evid ip gid (rp_token_id ptr) client db1 = (Inr None, db2)" by (metis prod.collapse)
    with lookup Some show ?thesis
      by (simp add: exchange_refresh_token_def exchange_refresh_txn_def)
  qed (use lookup in \<open>simp add: exchange_refresh_token_def exchange_refresh_txn_def\<close>)
qed (simp add: exchange_refresh_token_def)

lemma no_background:
  assumes "no_live_credential db"
  shows "due_schedules t db = []" "fst (recover_jobs t db) = []" "on_run_finished m e db = []" "fst (accept_pending_invitations t u db) = []"
proof -
  show "due_schedules t db = []"
    using no_live_credentialD(10) [OF assms] by (auto simp: due_schedules_def filter_empty_conv is_due_def)
  show "fst (recover_jobs t db) = []" using no_live_credentialD(9) [OF assms] by (auto simp: recover_jobs_def filter_empty_conv)
  have "filter (\<lambda>w. w_org w = rf_org e \<and> w_active w) (webhooks db) = []"
    using no_live_credentialD(8) [OF assms] by (auto simp: filter_empty_conv)
  then show "on_run_finished m e db = []" by (simp add: on_run_finished_def)
  have "filter (pending_invitation (u_email u) t) (invitations db) = []"
    using no_live_credentialD(7) [OF assms] by (auto simp: filter_empty_conv pending_invitation_def)
  then show "fst (accept_pending_invitations t u db) = []" by (simp add: accept_pending_invitations_def)
qed

lemma no_client: "no_live_credential db \<Longrightarrow> get_client validate t k db = None"
  using no_live_credentialD(11) [OF _ sql_first_Some(1)]
  by (fastforce simp: get_client_def get_oauth_client_def split: option.split)

lemma no_schedule:
  assumes "no_live_credential db"
  shows "notices_of maintenance e db = []" "ap_db st = db \<Longrightarrow> auto_run sv rq cfg ids ctx up ready st = (None, st)"
proof -
  have quiet: "os_webhook_url s = None \<and> \<not> os_notify_on_finish s \<and> \<not> os_auto_run s"
    if "sql_first P (org_schedules db) = Some s" for P s
    using no_live_credentialD(10) [OF assms sql_first_Some(1) [OF that]] by simp
  then show "notices_of maintenance e db = []" by (auto simp: notices_of_def get_schedule_def split: option.split)
  show "auto_run sv rq cfg ids ctx up ready st = (None, st)" if "ap_db st = db"
    using quiet unfolding that [symmetric] by (auto simp: auto_run_def Let_def split: option.split)
qed

lemma no_auto_run: "no_live_credential db \<Longrightarrow> fst (auto_run sv rq cfg ids ctx up ready (st\<lparr>ap_db := db\<rparr>)) = None"
  by (subst no_schedule(2)) simp_all

lemma closed_rows:
  assumes "no_live_credential db"
  shows "list_all (\<lambda>c. \<not> open_code c) (oauth_codes db)" "list_all (\<lambda>s. os_webhook_url s = None) (org_schedules db)"
  using no_live_credentialD(6,10) [OF assms] by (simp_all add: list_all_iff)

text \<open>C22. After a full quarantine of a restored database no restored credential works and nothing restored runs by
  itself. No API key (but the deployment's own), session cookie, access token or refresh token, authorization code, magic
  link or OAuth client is accepted, no authorization is left to be decided, signing in joins no organization; no reminder is
  due, no webhook fires, a finished run is announced to nobody by mail or chat and no address of a chat is left, an upload
  starts no run, and no job is recovered. Organizations, users, memberships, runs and uploads stay as they were, and the
  dry run announced exactly the counts of what is done.\<close>

theorem quarantine_admits_nobody:
  "\<exists>counts db1. restore_quarantine ev now False True db = (Inr counts, db1) \<and>
     restore_quarantine ev now True True db = (Inr counts, db) \<and>
     (orgs db1, users db1, memberships db1, run_records db1, uploads db1) = (orgs db, users db, memberships db, run_records db, uploads db) \<and>
     (\<forall>sha sv rq raw st. fst (authenticate_key sha sv rq raw (st\<lparr>ap_db := db1\<rparr>)) \<in> insert (Inr selfhost_principal) (range Inl)) \<and>
     (\<forall>mac sv rq cookie st. fst (authenticate_session mac sv rq cookie (st\<lparr>ap_db := db1\<rparr>)) \<in> range Inl) \<and>
     (\<forall>sha t raw. fst (principal_for sha t raw db1) = Inr None \<and> load_access_token sha t raw db1 = None) \<and>
     (\<forall>sha ttl t1 t2 t3 mint e ip client ptr scopes.
        fst (exchange_refresh_token sha ttl t1 t2 t3 mint e ip client ptr scopes db1) \<in> range Inl) \<and>
     (\<forall>sha ttl fuel t t' gid mint evs ip client code.
        fst (exchange_authorization_code sha ttl fuel t t' gid mint evs ip client code db1) \<in> range Inl) \<and>
     (\<forall>validate t k. get_client validate t k db1 = None) \<and> list_all (\<lambda>c. \<not> open_code c) (oauth_codes db1) \<and>
     (\<forall>digest t u. fst (consume_link digest t db1) = 0 \<and> fst (accept_pending_invitations t u db1) = []) \<and>
     (\<forall>t m e. due_schedules t db1 = [] \<and> on_run_finished m e db1 = [] \<and> fst (recover_jobs t db1) = []) \<and>
     (\<forall>m e. notices_of m e db1 = []) \<and> list_all (\<lambda>s. os_webhook_url s = None) (org_schedules db1) \<and>
     (\<forall>sv rq cfg ids ctx up ready st. fst (auto_run sv rq cfg ids ctx up ready (st\<lparr>ap_db := db1\<rparr>)) = None)"
proof -
  obtain ae where run: "restore_quarantine ev now False True db = (Inr (counted True now db), (quarantined now db)\<lparr>audit_events := ae\<rparr>)"
    using quarantine_full by blast
  show ?thesis
    by (rule exI [of _ "counted True now db"], rule exI [of _ "(quarantined now db)\<lparr>audit_events := ae\<rparr>"], intro conjI allI)
      (use run in \<open>simp_all only: quarantine_dry closed_rows [OF quarantined_dead] no_auto_run [OF quarantined_dead]\<close>,
       simp_all add: quarantined_fields quarantined_dead no_key [simplified] no_session no_oauth_principal no_access_token no_refresh no_code
         no_link no_background no_client no_schedule)
qed

section \<open>Corrections of memberships\<close>

lemma restore_members_cases:
  assumes "memberships (snd (restore_members ev now q db)) \<noteq> memberships db"
  obtains m where "m \<in> set (memberships db)" "mq_demote_to q = None"
      "memberships (snd (restore_members ev now q db)) = memberships (snd (delete_member_guarded (m_org m) (m_user m) db))"
  | m r where "m \<in> set (memberships db)" "the (map_of ROLE_RANKS r) < the (map_of ROLE_RANKS (m_role m))"
      "memberships (snd (restore_members ev now q db)) = memberships (snd (set_member_role_guarded (m_org m) (m_user m) r db))"
proof -
  let ?rows = "selected_members (mq_org q) (mq_user q) db"
  have "\<exists>m u. ?rows = [(m, u)]"
    using assms by (auto simp: restore_members_def Let_def split: if_splits list.splits)
  then obtain m u where rows: "?rows = [(m, u)]" by blast
  have m: "m \<in> set (memberships db)"
  proof -
    have "(m, u) \<in> set ?rows" by (simp add: rows)
    then show ?thesis by (auto simp: selected_members_def)
  qed
  show ?thesis
  proof (cases "mq_demote_to q")
    case None
    with rows assms have "memberships (snd (restore_members ev now q db)) = memberships (snd (delete_member_guarded (m_org m) (m_user m) db))"
      by (auto simp: restore_members_def Let_def correct_member_def with_event_def record_event_def split: if_splits sum.splits prod.splits)
    with m None show ?thesis by (rule that(1))
  next
    case (Some r)
    from Some rows assms have "the (map_of ROLE_RANKS r) < the (map_of ROLE_RANKS (m_role m)) \<and>
        memberships (snd (restore_members ev now q db)) = memberships (snd (set_member_role_guarded (m_org m) (m_user m) r db))"
      by (auto simp: restore_members_def Let_def correct_member_def with_event_def record_event_def split: if_splits sum.splits prod.splits)
    with m show ?thesis by (blast intro: that(2))
  qed
qed

text \<open>A correction of memberships never gives anybody a right and never takes an organization's last owner: each
  membership left was one before, of the same role or a higher one.\<close>

theorem correction_only_lowers:
  assumes "owned og db"
  shows "owned og (snd (restore_members ev now q db)) \<and>
    (\<forall>m' \<in> set (memberships (snd (restore_members ev now q db))). \<exists>m \<in> set (memberships db).
       m_org m' = m_org m \<and> m_user m' = m_user m \<and>
       (m' = m \<or> the (map_of ROLE_RANKS (m_role m')) < the (map_of ROLE_RANKS (m_role m))))"
proof (cases "memberships (snd (restore_members ev now q db)) = memberships db")
  case True
  with assms owned_cong [OF True] show ?thesis by auto
next
  case False
  then show ?thesis
  proof (cases rule: restore_members_cases)
    case (1 m)
    with owned_delete [OF assms] owned_cong [OF 1(3)] show ?thesis
      by (auto simp: delete_member_guarded_def Let_def table_simps)
  next
    case (2 m r)
    have keyed: "members_keyed (memberships db)" using assms by (simp add: owned_def)
    have "x = m" if "x \<in> set (memberships db)" "changeable_member (m_org m) (m_user m) (memberships db) x" for x
      using that 2(1) keyed by (auto simp: changeable_member_def members_keyed_def inj_on_def distinct_map)
    with 2 owned_set_role [OF assms] owned_cong [OF 2(3)] show ?thesis
      by (fastforce simp: set_member_role_guarded_def Let_def sql_update_def)
  qed
qed

section \<open>Example\<close>

definition restored_user :: "ident \<Rightarrow> user" where
  "restored_user k = \<lparr>u_id = k, u_email = k @ ''@example.com'', u_name = None, u_locale = ''pl'', u_created_at = 0\<rparr>"

definition restored_team :: cdb where
  "restored_team = empty_cdb\<lparr>users := [restored_user ''01ARZ3NDEKTSV4RRFFQ69G5FAV'', restored_user ''01ARZ3NDEKTSV4RRFFQ69G5FAW''],
     memberships := [\<lparr>m_org = ''default'', m_user = ''01ARZ3NDEKTSV4RRFFQ69G5FAV'', m_role = ''owner'', m_created_at = 0\<rparr>,
       \<lparr>m_org = ''default'', m_user = ''01ARZ3NDEKTSV4RRFFQ69G5FAW'', m_role = ''admin'', m_created_at = 1\<rparr>]\<rparr>"

definition demotion :: "ident \<Rightarrow> members_request" where
  "demotion k = \<lparr>mq_org = Some ''default'', mq_user = Some k, mq_remove = False, mq_demote_to = Some ''member'', mq_show_emails = False\<rparr>"

theorem correction_only_lowers_witness:
  "owned ''default'' (snd (restore_members ''e'' 5 (demotion ''01ARZ3NDEKTSV4RRFFQ69G5FAW'') restored_team)) \<and>
   map m_role (memberships (snd (restore_members ''e'' 5 (demotion ''01ARZ3NDEKTSV4RRFFQ69G5FAW'') restored_team))) = [''owner'', ''member''] \<and>
   fst (restore_members ''e'' 5 (demotion ''01ARZ3NDEKTSV4RRFFQ69G5FAV'') restored_team) = Inl restore_error"
proof -
  have "owned ''default'' restored_team"
    by (simp add: owned_def members_keyed_def owners_def owner_of_def restored_team_def rowcount_def)
  from correction_only_lowers [OF this, of "''e''" 5 "demotion ''01ARZ3NDEKTSV4RRFFQ69G5FAW''"]
  show ?thesis by (intro conjI) (blast, code_simp, code_simp)
qed

end
