(* ===== verification/Reconcile.thy ===== *)
theory Reconcile
  imports Restore Retention Orgs
begin

text \<open>
  Reconciling a restored control database with the one it replaced (\<^verbatim>\<open>app/control/restore_reconcile.py\<close>): nothing
  that was taken away since the backup comes back. \<open>pre\<close> is the database before the restore, read from an archive,
  \<open>current\<close> the restored one. Unpacking the archive, reading SQLite from bytes and the file system are parameters.
\<close>

definition reconcile_error :: exc where "reconcile_error = PyRaise ''ReconcileError''"

section \<open>Keys\<close>

text \<open>\<open>[A-Za-z0-9_-]{1,64}\<close>, all of it.\<close>

definition safe_id :: "string \<Rightarrow> bool" where
  "safe_id s = (s \<noteq> [] \<and> length s \<le> 64 \<and> list_all is_urlsafe s)"

definition all_keys :: "cdb \<Rightarrow> string list" where
  "all_keys db = map o_id (orgs db) @ map u_id (users db) @ concat (map (\<lambda>m. [m_org m, m_user m]) (memberships db)) @
     map i_id (invitations db) @ map k_id (api_keys db) @ map oc_id (oauth_clients db) @ map g_id (oauth_grants db) @
     map t_id (oauth_tokens db) @ map w_id (webhooks db) @ map os_org (org_schedules db) @ map up_id (uploads db) @
     map rr_id (run_records db) @ map j_id (jobs db)"

section \<open>The archive\<close>

definition is_hex :: "char \<Rightarrow> bool" where
  "is_hex c = (is_digit c \<or> c \<in> set ''abcdefABCDEF'')"

text \<open>\<open>([0-9a-fA-F]{64}) [ *]([^\r\n]+)\<close>, all of it: the digest and the name.\<close>

definition sidecar_fields :: "string \<Rightarrow> (string \<times> string) option" where
  "sidecar_fields s =
     (let digest = take 64 s; name = drop 66 s in
      if length digest = 64 \<and> list_all is_hex digest \<and> (take 2 (drop 64 s) = ''  '' \<or> take 2 (drop 64 s) = '' *'') \<and>
         name \<noteq> [] \<and> CHR 10 \<notin> set name \<and> CHR 13 \<notin> set name
      then Some (digest, name) else None)"

record 'b tar_entry =
  te_name :: string
  te_is_file :: bool
  te_size :: nat
  te_content :: 'b

definition posix_parts :: "string \<Rightarrow> string list" where
  "posix_parts s = filter (\<lambda>p. p \<noteq> [] \<and> p \<noteq> ''.'') (py_split (CHR ''/'') s)"

definition unsafe_entry :: "string \<Rightarrow> bool" where
  "unsafe_entry name =
     (take 1 name = ''/'' \<or> ''..'' \<in> set (posix_parts name) \<or> backslash \<in> set name \<or> posix_parts name = [] \<or>
      hd (posix_parts name) \<notin> {''control'', ''runtime''})"

fun scan_entries :: "'b tar_entry list \<Rightarrow> 'b option \<Rightarrow> exc + 'b option" where
  "scan_entries [] found = Inr found"
| "scan_entries (e # es) found =
     (if unsafe_entry (te_name e) then Inl reconcile_error
      else if posix_parts (te_name e) \<in> {[''control'', ''control.db-wal''], [''control'', ''control.db-journal'']} \<and> te_size e \<noteq> 0
        then Inl reconcile_error
      else if posix_parts (te_name e) \<noteq> [''control'', ''control.db''] then scan_entries es found
      else if found \<noteq> None \<or> \<not> te_is_file e then Inl reconcile_error
      else scan_entries es (Some (te_content e)))"

text \<open>\<open>_read_pre\<close> after SQLite has been read: \<open>open_db\<close> includes its integrity checks and those of the columns' types.\<close>

definition read_pre :: "('b \<Rightarrow> exc + cdb) \<Rightarrow> 'b \<Rightarrow> exc + cdb" where
  "read_pre open_db b =
     bind_res (open_db b) (\<lambda>pre.
       if \<not> list_all safe_id (all_keys pre) \<or> list_ex (\<lambda>m. map_of ROLE_RANKS (m_role m) = None) (memberships pre)
       then Inl reconcile_error else Inr pre)"

record 'b archive =
  ar_name :: string
  ar_sidecar :: string
  ar_bytes :: 'b

definition read_archive ::
  "('b \<Rightarrow> string) \<Rightarrow> ('b \<Rightarrow> 'b tar_entry list) \<Rightarrow> ('b \<Rightarrow> exc + cdb) \<Rightarrow> 'b archive \<Rightarrow> exc + cdb" where
  "read_archive sha untar open_db ar =
     (case sidecar_fields (py_strip (ar_sidecar ar)) of
        None \<Rightarrow> Inl reconcile_error
      | Some (digest, name) \<Rightarrow>
          if name \<noteq> ar_name ar \<or> sha (ar_bytes ar) \<noteq> py_lower digest then Inl reconcile_error
          else bind_res (scan_entries (untar (ar_bytes ar)) None) (\<lambda>found.
            case found of None \<Rightarrow> Inl reconcile_error | Some b \<Rightarrow> read_pre open_db b))"

section \<open>Actions\<close>

text \<open>The row of an action: its model and key.\<close>

datatype target =
    OrgRow ident | UserRow ident | MemberRow ident ident | InvitationRow ident | ApiKeyRow ident | ClientRow ident
  | GrantRow ident | TokenRow ident | WebhookRow ident | ScheduleRow ident | UploadRow ident | RunRow ident | JobRow ident

fun row_identifier :: "target \<Rightarrow> string" where
  "row_identifier (MemberRow og usr) = og @ '':'' @ usr"
| "row_identifier (OrgRow k) = k" | "row_identifier (UserRow k) = k" | "row_identifier (InvitationRow k) = k"
| "row_identifier (ApiKeyRow k) = k" | "row_identifier (ClientRow k) = k" | "row_identifier (GrantRow k) = k"
| "row_identifier (TokenRow k) = k" | "row_identifier (WebhookRow k) = k" | "row_identifier (ScheduleRow k) = k"
| "row_identifier (UploadRow k) = k" | "row_identifier (RunRow k) = k" | "row_identifier (JobRow k) = k"

text \<open>The values of an update; for flags \<open>True\<close> means the flag is cleared.\<close>

datatype row_values =
    EmailIs string
  | RoleIs string
  | RevokedAt stamp
  | WebhookIs "string option" "string list option" bool
  | ScheduleIs bool bool bool "string option option"
  | PurgedAt stamp
  | CancelledAt stamp

text \<open>\<open>an_org\<close> and \<open>an_path\<close> are the columns of the row the cleanup reads.\<close>

record action =
  an_category :: string
  an_target :: target
  an_values :: "row_values option"
  an_org :: ident
  an_path :: string

record reconcile_report =
  rc_categories :: "(string \<times> string) list"
  rc_blocked :: "ident list"
  rc_candidates :: "(ident \<times> ident list) list"
  rc_cleanup_failed :: "string list"
  rc_applied :: bool

text \<open>\<open>lines\<close>: what the operator sees; \<open>rc_categories\<close> is in the order of the planning.\<close>

definition id_line :: "string list \<Rightarrow> string" where
  "id_line ids = ''  ids: '' @ py_join '', '' (sort ids)"

definition report_lines :: "reconcile_report \<Rightarrow> string list" where
  "report_lines r =
     [''mode: '' @ (if rc_blocked r \<noteq> [] then ''blocked'' else if rc_applied r then ''applied'' else ''dry-run'')] @
     concat (map (\<lambda>c. let ids = map snd (filter (\<lambda>x. fst x = c) (rc_categories r))
         in [c @ '': '' @ dec_nat (length ids), id_line ids]) (sort (remdups (map fst (rc_categories r))))) @
     (if rc_blocked r = [] then []
      else [''owner_conflicts: '' @ dec_nat (length (rc_blocked r)), id_line (rc_blocked r)] @
        concat (map (\<lambda>k. [''owner_candidates: '' @ k, id_line (the (map_of (rc_candidates r) k))]) (sort (rc_blocked r)))) @
     (if rc_cleanup_failed r = [] then []
      else [''cleanup_failed: '' @ dec_nat (length (rc_cleanup_failed r)), id_line (rc_cleanup_failed r)])"

section \<open>The plan\<close>

definition gone_org :: "cdb \<Rightarrow> ident \<Rightarrow> bool" where
  "gone_org pre k = (get_org k pre = None)"

definition gone_user :: "cdb \<Rightarrow> ident \<Rightarrow> bool" where
  "gone_user pre k = (get_user k pre = None)"

definition owned_before :: "cdb \<Rightarrow> membership \<Rightarrow> bool" where
  "owned_before pre m =
     (case get_membership (m_org m) (m_user m) pre of None \<Rightarrow> False | Some old \<Rightarrow> m_role old = ''owner'')"

definition retained_owner :: "cdb \<Rightarrow> ident \<Rightarrow> membership \<Rightarrow> bool" where
  "retained_owner pre og m = (m_org m = og \<and> \<not> gone_user pre (m_user m) \<and> m_role m = ''owner'' \<and> owned_before pre m)"

definition conflicts :: "cdb \<Rightarrow> cdb \<Rightarrow> ident list" where
  "conflicts current pre =
     filter (\<lambda>og. \<not> gone_org pre og \<and> \<not> list_ex (retained_owner pre og) (memberships current)) (map o_id (orgs current))"

definition candidates_for :: "cdb \<Rightarrow> cdb \<Rightarrow> ident \<Rightarrow> ident list" where
  "candidates_for current pre og =
     map m_user (filter (\<lambda>m. m_org m = og \<and> get_user (m_user m) current \<noteq> None \<and> \<not> gone_user pre (m_user m) \<and>
       owned_before pre m) (memberships current))"

datatype plan_entry = Differs string string | Do action

definition act :: "string \<Rightarrow> target \<Rightarrow> row_values option \<Rightarrow> plan_entry" where
  "act category t v = Do \<lparr>an_category = category, an_target = t, an_values = v, an_org = [], an_path = []\<rparr>"

definition plan_resolution :: "ident \<times> ident \<Rightarrow> plan_entry list" where
  "plan_resolution r = [act ''owner_resolved'' (MemberRow (fst r) (snd r)) (Some (RoleIs ''owner''))]"

definition plan_org :: "cdb \<Rightarrow> org \<Rightarrow> plan_entry list" where
  "plan_org pre r =
     (case get_org (o_id r) pre of
        None \<Rightarrow> [Do \<lparr>an_category = ''org_deleted'', an_target = OrgRow (o_id r), an_values = None, an_org = o_id r, an_path = []\<rparr>]
      | Some old \<Rightarrow>
          if o_name r \<noteq> o_name old \<or> o_plan r \<noteq> o_plan old \<or> o_retention_days r \<noteq> o_retention_days old \<or>
             o_locale r \<noteq> o_locale old \<or> o_llm_narrative r \<noteq> o_llm_narrative old
          then [Differs ''org_differences'' (o_id r)] else [])"

definition plan_user :: "cdb \<Rightarrow> user \<Rightarrow> plan_entry list" where
  "plan_user pre r =
     (case get_user (u_id r) pre of
        None \<Rightarrow> [act ''user_deleted'' (UserRow (u_id r)) None]
      | Some old \<Rightarrow>
          (if u_email r \<noteq> u_email old then [act ''email_updated'' (UserRow (u_id r)) (Some (EmailIs (u_email old)))] else []) @
          (if u_name r \<noteq> u_name old \<or> u_locale r \<noteq> u_locale old then [Differs ''user_differences'' (u_id r)] else []))"

definition restored_rank :: "string \<Rightarrow> nat" where
  "restored_rank r = the (map_of ROLE_RANKS r)"

definition plan_member :: "cdb \<Rightarrow> membership \<Rightarrow> plan_entry list" where
  "plan_member pre r =
     (case (gone_user pre (m_user r), get_membership (m_org r) (m_user r) pre) of
        (False, Some old) \<Rightarrow>
          if restored_rank (m_role old) < restored_rank (m_role r)
          then [act ''member_demoted'' (MemberRow (m_org r) (m_user r)) (Some (RoleIs (m_role old)))] else []
      | _ \<Rightarrow> [act ''member_removed'' (MemberRow (m_org r) (m_user r)) None])"

definition plan_invitation :: "cdb \<Rightarrow> stamp \<Rightarrow> invitation \<Rightarrow> plan_entry list" where
  "plan_invitation pre now r =
     (case sql_first (\<lambda>i. i_id i = i_id r) (invitations pre) of
        Some old \<Rightarrow> if i_accepted_at old \<noteq> None \<or> i_expires_at old \<le> now
          then [act ''invitation_deleted'' (InvitationRow (i_id r)) None] else []
      | None \<Rightarrow> [act ''invitation_deleted'' (InvitationRow (i_id r)) None])"

text \<open>Gone or revoked before the restore.\<close>

definition dead_before :: "('r \<Rightarrow> ident) \<Rightarrow> ('r \<Rightarrow> stamp option) \<Rightarrow> 'r list \<Rightarrow> ident \<Rightarrow> bool" where
  "dead_before key revoked rows k =
     (case sql_first (\<lambda>r. key r = k) rows of None \<Rightarrow> True | Some old \<Rightarrow> revoked old \<noteq> None)"

abbreviation dead_client :: "cdb \<Rightarrow> ident \<Rightarrow> bool" where "dead_client pre \<equiv> dead_before oc_id oc_revoked_at (oauth_clients pre)"
abbreviation dead_grant :: "cdb \<Rightarrow> ident \<Rightarrow> bool" where "dead_grant pre \<equiv> dead_before g_id g_revoked_at (oauth_grants pre)"

definition plan_key :: "cdb \<Rightarrow> stamp \<Rightarrow> api_key \<Rightarrow> plan_entry list" where
  "plan_key pre now r =
     (if dead_before k_id k_revoked_at (api_keys pre) (k_id r) \<and> k_revoked_at r = None
      then [act ''key_revoked'' (ApiKeyRow (k_id r)) (Some (RevokedAt now))] else [])"

definition plan_client :: "cdb \<Rightarrow> stamp \<Rightarrow> oauth_client \<Rightarrow> plan_entry list" where
  "plan_client pre now r =
     (if dead_client pre (oc_id r) \<and> oc_revoked_at r = None
      then [act ''client_revoked'' (ClientRow (oc_id r)) (Some (RevokedAt now))] else [])"

definition plan_grant :: "cdb \<Rightarrow> stamp \<Rightarrow> oauth_grant \<Rightarrow> plan_entry list" where
  "plan_grant pre now r =
     (if (dead_grant pre (g_id r) \<or> dead_client pre (g_client r)) \<and> g_revoked_at r = None
      then [act ''grant_revoked'' (GrantRow (g_id r)) (Some (RevokedAt now))] else [])"

definition plan_token :: "cdb \<Rightarrow> stamp \<Rightarrow> oauth_token \<Rightarrow> plan_entry list" where
  "plan_token pre now r =
     (if (dead_before t_id t_revoked_at (oauth_tokens pre) (t_id r) \<or> dead_client pre (t_client r) \<or>
          (case t_grant r of None \<Rightarrow> False | Some g \<Rightarrow> g \<noteq> [] \<and> dead_grant pre g)) \<and> t_revoked_at r = None
      then [act ''token_revoked'' (TokenRow (t_id r)) (Some (RevokedAt now))] else [])"

definition changed :: "'a \<Rightarrow> 'a \<Rightarrow> 'a option" where
  "changed x old = (if x \<noteq> old then Some old else None)"

definition plan_webhook :: "cdb \<Rightarrow> webhook \<Rightarrow> plan_entry list" where
  "plan_webhook pre r =
     (case sql_first (\<lambda>w. w_id w = w_id r) (webhooks pre) of
        None \<Rightarrow> [act ''webhook_deleted'' (WebhookRow (w_id r)) None]
      | Some old \<Rightarrow>
          let v = WebhookIs (changed (w_url r) (w_url old)) (changed (w_events r) (w_events old)) (w_active r \<and> \<not> w_active old)
          in if v = WebhookIs None None False then []
             else [act ''webhook_updated'' (WebhookRow (w_id r)) (Some v)])"

definition plan_schedule :: "cdb \<Rightarrow> org_schedule \<Rightarrow> plan_entry list" where
  "plan_schedule pre r =
     (case sql_first (\<lambda>s. os_org s = os_org r) (org_schedules pre) of
        None \<Rightarrow> [act ''schedule_deleted'' (ScheduleRow (os_org r)) None]
      | Some old \<Rightarrow>
          (let v = ScheduleIs (os_reminder_enabled r \<and> \<not> os_reminder_enabled old)
                 (os_notify_on_finish r \<and> \<not> os_notify_on_finish old) (os_auto_run r \<and> \<not> os_auto_run old)
                 (changed (os_webhook_url r) (os_webhook_url old))
           in if v = ScheduleIs False False False None then []
              else [act ''schedule_updated'' (ScheduleRow (os_org r)) (Some v)]) @
          (if os_reminder_weekday r \<noteq> os_reminder_weekday old \<or> os_reminder_hour r \<noteq> os_reminder_hour old \<or>
              os_timezone r \<noteq> os_timezone old \<or> os_skip_if_recent r \<noteq> os_skip_if_recent old \<or> os_webhook_kind r \<noteq> os_webhook_kind old
           then [Differs ''schedule_differences'' (os_org r)] else []))"

definition plan_upload :: "cdb \<Rightarrow> upload \<Rightarrow> plan_entry list" where
  "plan_upload pre r =
     (if get_upload (up_id r) pre = None
      then [Do \<lparr>an_category = ''upload_deleted'', an_target = UploadRow (up_id r), an_values = None, an_org = up_org r, an_path = up_path r\<rparr>]
      else [])"

definition plan_run :: "cdb \<Rightarrow> stamp \<Rightarrow> run_record \<Rightarrow> plan_entry list" where
  "plan_run pre now r =
     (case sql_first (\<lambda>x. rr_id x = rr_id r) (run_records pre) of
        None \<Rightarrow> [Do \<lparr>an_category = ''run_deleted'', an_target = RunRow (rr_id r), an_values = None, an_org = rr_org r, an_path = []\<rparr>]
      | Some old \<Rightarrow>
          if rr_report_purged_at r = None \<and> rr_report_purged_at old \<noteq> None
          then [Do \<lparr>an_category = ''report_purged'', an_target = RunRow (rr_id r), an_values = Some (PurgedAt now), an_org = rr_org r, an_path = []\<rparr>]
          else [])"

definition ended_before :: "cdb \<Rightarrow> ident \<Rightarrow> bool" where
  "ended_before pre k = (case get_job k pre of None \<Rightarrow> True | Some old \<Rightarrow> j_status old \<in> {Succeeded, Failed, Cancelled})"

definition plan_job :: "cdb \<Rightarrow> stamp \<Rightarrow> job \<Rightarrow> plan_entry list" where
  "plan_job pre now r =
     (if j_status r = Queued \<and> ended_before pre (j_id r)
      then [act ''job_cancelled'' (JobRow (j_id r)) (Some (CancelledAt now))] else [])"

text \<open>The rows of organizations that go or are blocked are passed over.\<close>

definition passed_over :: "ident list \<Rightarrow> cdb \<Rightarrow> cdb \<Rightarrow> ident \<Rightarrow> bool" where
  "passed_over blocked pre current og = (og \<in> set blocked \<or> (gone_org pre og \<and> og \<in> o_id ` set (orgs current)))"

definition open_rows :: "ident list \<Rightarrow> cdb \<Rightarrow> cdb \<Rightarrow> ('r \<Rightarrow> ident) \<Rightarrow> 'r list \<Rightarrow> 'r list" where
  "open_rows blocked pre current org rows = filter (\<lambda>r. \<not> passed_over blocked pre current (org r)) rows"

definition plan_rows :: "ident list \<Rightarrow> cdb \<Rightarrow> stamp \<Rightarrow> cdb \<Rightarrow> plan_entry list" where
  "plan_rows blocked pre now current =
     concat (map (plan_org pre) (filter (\<lambda>r. o_id r \<notin> set blocked) (orgs current))) @
     concat (map (plan_user pre) (users current)) @
     concat (map (plan_member pre) (open_rows blocked pre current m_org (memberships current))) @
     concat (map (plan_invitation pre now) (open_rows blocked pre current i_org (invitations current))) @
     concat (map (plan_key pre now) (open_rows blocked pre current k_org (api_keys current))) @
     concat (map (plan_client pre now) (oauth_clients current)) @
     concat (map (plan_grant pre now) (open_rows blocked pre current g_org (oauth_grants current))) @
     concat (map (plan_token pre now) (open_rows blocked pre current t_org (oauth_tokens current))) @
     concat (map (plan_webhook pre) (open_rows blocked pre current w_org (webhooks current))) @
     concat (map (plan_schedule pre) (open_rows blocked pre current os_org (org_schedules current))) @
     concat (map (plan_upload pre) (open_rows blocked pre current up_org (uploads current))) @
     concat (map (plan_run pre now) (open_rows blocked pre current rr_org (run_records current))) @
     concat (map (plan_job pre now) (open_rows blocked pre current j_org (jobs current)))"

definition entry_line :: "plan_entry \<Rightarrow> string \<times> string" where
  "entry_line e = (case e of Differs c k \<Rightarrow> (c, k) | Do a \<Rightarrow> (an_category a, row_identifier (an_target a)))"

definition actions_of :: "plan_entry list \<Rightarrow> action list" where
  "actions_of es = concat (map (\<lambda>e. case e of Differs c k \<Rightarrow> [] | Do a \<Rightarrow> [a]) es)"

definition reconcile_plan ::
  "cdb \<Rightarrow> cdb \<Rightarrow> stamp \<Rightarrow> (ident \<times> ident) list \<Rightarrow> exc + reconcile_report \<times> action list" where
  "reconcile_plan current pre now resolutions =
     (let found = conflicts current pre in
      if orgs current \<noteq> [] \<and> \<not> list_ex (\<lambda>r. \<not> gone_org pre (o_id r)) (orgs current) then Inl reconcile_error
      else if list_ex (\<lambda>(og, usr). og \<notin> set found \<or> usr \<notin> set (candidates_for current pre og)) resolutions then Inl reconcile_error
      else
        let blocked = filter (\<lambda>og. og \<notin> fst ` set resolutions) found;
            entries = concat (map plan_resolution resolutions) @ plan_rows blocked pre now current
        in if list_ex (\<lambda>m. map_of ROLE_RANKS (m_role m) = None) (open_rows blocked pre current m_org (memberships current)) then Inl reconcile_error
           else Inr (\<lparr>rc_categories = map entry_line entries, rc_blocked = blocked,
             rc_candidates = map (\<lambda>og. (og, candidates_for current pre og)) found, rc_cleanup_failed = [], rc_applied = False\<rparr>,
             actions_of entries))"

section \<open>Statements\<close>

text \<open>The \<open>ondelete\<close> actions of the foreign keys to \<open>users.id\<close>.\<close>

definition cascade_user :: "ident \<Rightarrow> cdb \<Rightarrow> cdb" where
  "cascade_user usr db = db\<lparr>users := sql_delete (\<lambda>r. u_id r = usr) (users db),
     memberships := sql_delete (\<lambda>r. m_user r = usr) (memberships db),
     sessions := sql_delete (\<lambda>r. s_user r = usr) (sessions db),
     oauth_codes := sql_update (\<lambda>r. ac_user r = Some usr) (ac_user_update (\<lambda>_. None)) (oauth_codes db),
     oauth_grants := sql_update (\<lambda>r. g_user r = Some usr) (g_user_update (\<lambda>_. None)) (oauth_grants db),
     oauth_tokens := sql_update (\<lambda>r. t_user r = Some usr) (t_user_update (\<lambda>_. None)) (oauth_tokens db)\<rparr>"

fun delete_row :: "target \<Rightarrow> cdb \<Rightarrow> cdb" where
  "delete_row (OrgRow k) db = cascade_org k db"
| "delete_row (UserRow k) db = cascade_user k db"
| "delete_row (MemberRow og usr) db = db\<lparr>memberships := sql_delete (\<lambda>r. m_org r = og \<and> m_user r = usr) (memberships db)\<rparr>"
| "delete_row (InvitationRow k) db = db\<lparr>invitations := sql_delete (\<lambda>r. i_id r = k) (invitations db)\<rparr>"
| "delete_row (WebhookRow k) db = db\<lparr>webhooks := sql_delete (\<lambda>r. w_id r = k) (webhooks db)\<rparr>"
| "delete_row (ScheduleRow k) db = db\<lparr>org_schedules := sql_delete (\<lambda>r. os_org r = k) (org_schedules db)\<rparr>"
| "delete_row (UploadRow k) db = db\<lparr>uploads := sql_delete (\<lambda>r. up_id r = k) (uploads db),
     jobs := sql_update (\<lambda>j. j_upload j = Some k) (j_upload_update (\<lambda>_. None)) (jobs db)\<rparr>"
| "delete_row (RunRow k) db = db\<lparr>run_records := sql_delete (\<lambda>r. rr_id r = k) (run_records db)\<rparr>"
| "delete_row _ db = db"

definition set_webhook :: "string option \<Rightarrow> string list option \<Rightarrow> bool \<Rightarrow> webhook \<Rightarrow> webhook" where
  "set_webhook url events off w =
     w\<lparr>w_url := (case url of None \<Rightarrow> w_url w | Some x \<Rightarrow> x), w_events := (case events of None \<Rightarrow> w_events w | Some x \<Rightarrow> x),
       w_active := w_active w \<and> \<not> off\<rparr>"

definition set_schedule :: "bool \<Rightarrow> bool \<Rightarrow> bool \<Rightarrow> string option option \<Rightarrow> org_schedule \<Rightarrow> org_schedule" where
  "set_schedule reminder finish auto_off url s =
     s\<lparr>os_reminder_enabled := os_reminder_enabled s \<and> \<not> reminder, os_notify_on_finish := os_notify_on_finish s \<and> \<not> finish,
       os_auto_run := os_auto_run s \<and> \<not> auto_off,
       os_next_reminder_at := (if reminder then None else os_next_reminder_at s),
       os_webhook_url := (case url of None \<Rightarrow> os_webhook_url s | Some x \<Rightarrow> x)\<rparr>"

definition update_row :: "target \<Rightarrow> row_values \<Rightarrow> cdb \<Rightarrow> cdb" where
  "update_row t v db =
     (case v of
        EmailIs e \<Rightarrow> (case t of UserRow k \<Rightarrow>
            db\<lparr>users := sql_update (\<lambda>r. u_id r = k) (u_email_update (\<lambda>_. e)) (users db)\<rparr> | _ \<Rightarrow> db)
      | RoleIs x \<Rightarrow> (case t of MemberRow og usr \<Rightarrow>
            db\<lparr>memberships := sql_update (\<lambda>r. m_org r = og \<and> m_user r = usr) (m_role_update (\<lambda>_. x)) (memberships db)\<rparr> | _ \<Rightarrow> db)
      | RevokedAt at_time \<Rightarrow> (case t of
            ApiKeyRow k \<Rightarrow> db\<lparr>api_keys := sql_update (\<lambda>r. k_id r = k) (k_revoked_at_update (\<lambda>_. Some at_time)) (api_keys db)\<rparr>
          | ClientRow k \<Rightarrow>
              db\<lparr>oauth_clients := sql_update (\<lambda>r. oc_id r = k) (oc_revoked_at_update (\<lambda>_. Some at_time)) (oauth_clients db)\<rparr>
          | GrantRow k \<Rightarrow> db\<lparr>oauth_grants := sql_update (\<lambda>r. g_id r = k)
              (\<lambda>g. g\<lparr>g_revoked_at := Some at_time, g_revocation_reason := Some ''restore_reconcile''\<rparr>) (oauth_grants db)\<rparr>
          | TokenRow k \<Rightarrow>
              db\<lparr>oauth_tokens := sql_update (\<lambda>r. t_id r = k) (t_revoked_at_update (\<lambda>_. Some at_time)) (oauth_tokens db)\<rparr>
          | _ \<Rightarrow> db)
      | WebhookIs url events off \<Rightarrow> (case t of WebhookRow k \<Rightarrow>
            db\<lparr>webhooks := sql_update (\<lambda>r. w_id r = k) (set_webhook url events off) (webhooks db)\<rparr> | _ \<Rightarrow> db)
      | ScheduleIs rem fin aut url \<Rightarrow> (case t of ScheduleRow k \<Rightarrow>
            db\<lparr>org_schedules := sql_update (\<lambda>s. os_org s = k) (set_schedule rem fin aut url) (org_schedules db)\<rparr> | _ \<Rightarrow> db)
      | PurgedAt at_time \<Rightarrow> (case t of RunRow k \<Rightarrow>
            db\<lparr>run_records := sql_update (\<lambda>r. rr_id r = k) (rr_report_purged_at_update (\<lambda>_. Some at_time)) (run_records db)\<rparr> | _ \<Rightarrow> db)
      | CancelledAt at_time \<Rightarrow> (case t of JobRow k \<Rightarrow> db\<lparr>jobs := sql_update (\<lambda>j. j_id j = k)
            (\<lambda>j. j\<lparr>j_status := Cancelled, j_finished_at := Some at_time, j_error_code := Some ''restore_reconcile''\<rparr>) (jobs db)\<rparr> | _ \<Rightarrow> db))"

definition apply_action :: "action \<Rightarrow> cdb \<Rightarrow> cdb" where
  "apply_action a db = (case an_values a of None \<Rightarrow> delete_row (an_target a) db | Some v \<Rightarrow> update_row (an_target a) v db)"

text \<open>The unique constraints the statements can violate: each writes one row at a time.\<close>

definition unique_rows :: "cdb \<Rightarrow> bool" where
  "unique_rows db = (distinct (map u_email (users db)) \<and> distinct (map (\<lambda>w. (w_org w, w_url w)) (webhooks db)))"

definition constrained :: "cdb \<Rightarrow> exc + cdb" where
  "constrained db = (if unique_rows db then Inr db else Inl (PyRaise ''IntegrityError''))"

text \<open>A placeholder while values move between rows; \<open>fresh n\<close> is the identifier minted for the \<open>n\<close>-th action.\<close>

definition placeholder :: "ident \<Rightarrow> action \<Rightarrow> row_values option" where
  "placeholder ulid a =
     (case an_values a of
        Some (EmailIs e) \<Rightarrow> Some (EmailIs (''restore-'' @ ulid @ ''@example.invalid''))
      | Some (WebhookIs (Some url) ev off) \<Rightarrow> Some (WebhookIs (Some (''https://restore.example.invalid/'' @ ulid)) None False)
      | _ \<Rightarrow> None)"

fun prepare_actions :: "(nat \<Rightarrow> ident) \<Rightarrow> nat \<Rightarrow> action list \<Rightarrow> cdb \<Rightarrow> exc + cdb" where
  "prepare_actions fresh n [] db = Inr db"
| "prepare_actions fresh n (a # as) db =
     bind_res (case placeholder (fresh n) a of None \<Rightarrow> Inr db | Some v \<Rightarrow> constrained (update_row (an_target a) v db))
       (prepare_actions fresh (n + 1) as)"

fun apply_actions :: "(nat \<Rightarrow> ident) \<Rightarrow> stamp \<Rightarrow> action list \<Rightarrow> cdb \<Rightarrow> exc + cdb" where
  "apply_actions ev now [] db = Inr db"
| "apply_actions ev now (a # as) db =
     bind_res (constrained (apply_action a db)) (\<lambda>db1.
     bind_res (record_event (ev (length (audit_events db1))) now None ''system'' None (''restore.reconcile.'' @ an_category a)
         (Some (row_identifier (an_target a))) [(''count'', PInt 1)] None db1) (\<lambda>db2.
     apply_actions ev now as db2))"

text \<open>Deletions first, otherwise in the order of the plan.\<close>

definition in_order :: "action list \<Rightarrow> action list" where
  "in_order as = filter (\<lambda>a. an_values a = None) as @ filter (\<lambda>a. an_values a \<noteq> None) as"

section \<open>Runtime files\<close>

record runtime =
  rt_resolve :: "path \<Rightarrow> path"
  rt_root :: path
  rt_exists :: "path \<Rightarrow> bool"
  rt_nonempty :: "path \<Rightarrow> bool"
  rt_tables :: "path \<Rightarrow> exc option"
  rt_rmtree :: "path \<Rightarrow> store \<Rightarrow> store option"

definition single_name :: "string \<Rightarrow> bool" where
  "single_name s = (posix_name s = s \<and> s \<noteq> [])"

definition check_target :: "runtime \<Rightarrow> action \<Rightarrow> exc option" where
  "check_target rt a =
     (let res = rt_resolve rt in
      case for_org res (rt_root rt) (an_org a) of
        Inl e \<Rightarrow> Some e
      | Inr p \<Rightarrow>
          if tp_root p \<noteq> res (rt_root rt) @ [an_org a] \<or> list_ex (\<lambda>q. res q \<noteq> q) [tp_uploads p, tp_reports p, tp_duckdb p]
          then Some reconcile_error
          else (case an_target a of
              UploadRow k \<Rightarrow> if \<not> single_name (an_path a) \<or> res (tp_uploads p @ [an_path a]) \<noteq> tp_uploads p @ [an_path a]
                then Some reconcile_error else None
            | RunRow k \<Rightarrow> if \<not> rt_exists rt (tp_duckdb p)
                then (if rt_exists rt (tp_reports p) \<and> rt_nonempty rt (tp_reports p) then Some reconcile_error else None)
                else rt_tables rt (tp_duckdb p)
            | _ \<Rightarrow> None))"

fun runtime_target :: "target \<Rightarrow> bool" where
  "runtime_target (OrgRow k) = True" | "runtime_target (UploadRow k) = True" | "runtime_target (RunRow k) = True"
| "runtime_target _ = False"

fun check_targets :: "runtime \<Rightarrow> action list \<Rightarrow> exc option" where
  "check_targets rt [] = None"
| "check_targets rt (a # as) =
     (case (if runtime_target (an_target a) then check_target rt a else None) of Some e \<Rightarrow> Some e | None \<Rightarrow> check_targets rt as)"

text \<open>\<open>_cleanup\<close> of one action on the tenant's store: whether it failed and the store after it. \<open>rt_rmtree\<close> is what
  \<open>shutil.rmtree\<close> makes of a directory, \<open>None\<close> when it raises; nothing was started before \<open>datetime.min\<close>.\<close>

definition cleanup_one :: "runtime \<Rightarrow> disk \<Rightarrow> stamp \<Rightarrow> action \<Rightarrow> store \<Rightarrow> bool \<times> store" where
  "cleanup_one rt d datetime_min a st =
     (case for_org (rt_resolve rt) (rt_root rt) (an_org a) of
        Inl e \<Rightarrow> (False, st)
      | Inr p \<Rightarrow>
          if an_category a = ''org_deleted'' then
            (if \<not> rt_exists rt (tp_root p) then (False, st)
             else case rt_rmtree rt (tp_root p) st of None \<Rightarrow> (True, st) | Some st1 \<Rightarrow> (False, st1))
          else if an_category a = ''upload_deleted'' then
            (let (rs, fs) = unlink_uploads d (tp_uploads p) False [an_path a] (sr_files st)
             in (UnlinkFailed \<in> set rs, st\<lparr>sr_files := fs\<rparr>))
          else if \<not> rt_exists rt (tp_duckdb p) then (False, st)
          else (let (t, st1) = purge_tenant d (tp_reports p) False [row_identifier (an_target a)] datetime_min st in (tu_failed t \<noteq> 0, st1)))"

fun reconcile_cleanup ::
  "runtime \<Rightarrow> disk \<Rightarrow> stamp \<Rightarrow> action list \<Rightarrow> (ident \<Rightarrow> store) \<Rightarrow> string list \<times> (ident \<Rightarrow> store)" where
  "reconcile_cleanup rt d dmin [] sts = ([], sts)"
| "reconcile_cleanup rt d dmin (a # as) sts =
     (if an_category a \<notin> {''org_deleted'', ''upload_deleted'', ''run_deleted'', ''report_purged''} then reconcile_cleanup rt d dmin as sts
      else
        let (failed, st) = cleanup_one rt d dmin a (sts (an_org a));
            (rest, sts1) = reconcile_cleanup rt d dmin as (sts(an_org a := st))
        in ((if failed then row_identifier (an_target a) # rest else rest), sts1))"

section \<open>The command\<close>

fun parse_resolutions :: "string list \<Rightarrow> (ident \<times> ident) list \<Rightarrow> exc + (ident \<times> ident) list" where
  "parse_resolutions [] acc = Inr acc"
| "parse_resolutions (choice # rest) acc =
     (case py_split (CHR '':'') choice of
        [og, usr] \<Rightarrow>
          if \<not> is_ulid og \<or> \<not> is_ulid usr \<or> og \<in> fst ` set acc then Inl reconcile_error
          else parse_resolutions rest (acc @ [(og, usr)])
      | _ \<Rightarrow> Inl reconcile_error)"

record 'b reconcile_env =
  re_sha :: "'b \<Rightarrow> string"
  re_untar :: "'b \<Rightarrow> 'b tar_entry list"
  re_open :: "'b \<Rightarrow> exc + cdb"
  re_runtime :: runtime
  re_disk :: disk
  re_datetime_min :: stamp
  re_fresh :: "nat \<Rightarrow> ident"
  re_event :: "nat \<Rightarrow> ident"

text \<open>The transaction on the database: the report with the actions applied.\<close>

definition reconcile_txn ::
  "'b reconcile_env \<Rightarrow> stamp \<Rightarrow> bool \<Rightarrow> (ident \<times> ident) list \<Rightarrow> cdb \<Rightarrow> (reconcile_report \<times> action list) handler" where
  "reconcile_txn env now do_apply resolutions pre current =
     (if \<not> list_all safe_id (all_keys current) then (Inl reconcile_error, current)
      else (case reconcile_plan current pre now resolutions of
           Inl e \<Rightarrow> (Inl e, current)
         | Inr (report, actions) \<Rightarrow>
             if \<not> do_apply \<or> rc_blocked report \<noteq> [] then (Inr (report, []), current)
             else (case check_targets (re_runtime env) actions of
                 Some e \<Rightarrow> (Inl e, current)
               | None \<Rightarrow>
                   (case bind_res (prepare_actions (re_fresh env) 0 actions current) (apply_actions (re_event env) now (in_order actions)) of
                      Inl e \<Rightarrow> (Inl e, current)
                    | Inr db \<Rightarrow> (Inr (report\<lparr>rc_applied := True\<rparr>, actions), db)))))"

definition restore_reconcile ::
  "'b reconcile_env \<Rightarrow> stamp \<Rightarrow> bool \<Rightarrow> string list \<Rightarrow> 'b archive \<Rightarrow> cdb \<times> (ident \<Rightarrow> store)
    \<Rightarrow> (exc + reconcile_report) \<times> cdb \<times> (ident \<Rightarrow> store)" where
  "restore_reconcile env now do_apply choices ar st =
     (let (current, sts) = st in
      if choices \<noteq> [] \<and> \<not> do_apply then (Inl reconcile_error, st)
      else case bind_res (parse_resolutions choices []) (\<lambda>rs. bind_res (read_archive (re_sha env) (re_untar env) (re_open env) ar)
          (\<lambda>pre. Inr (rs, pre))) of
        Inl e \<Rightarrow> (Inl e, st)
      | Inr (resolutions, pre) \<Rightarrow>
          (case reconcile_txn env now do_apply resolutions pre current of
             (Inl e, db) \<Rightarrow> (Inl e, db, sts)
           | (Inr (report, actions), db) \<Rightarrow>
               let (failures, sts1) = reconcile_cleanup (re_runtime env) (re_disk env) (re_datetime_min env) actions sts
               in (Inr (report\<lparr>rc_cleanup_failed := failures\<rparr>), db, sts1)))"

end
