(* ===== verification/ReconcileRows.thy ===== *)
theory ReconcileRows
  imports Reconcile
begin

text \<open>
  The statements of a reconciliation, table by table: which of them may be planned, and that every one of them keeps the
  rows within what there was before the restore or brings them there.
\<close>

section \<open>Runs of statements\<close>

lemma constrained_Inr: "constrained db = Inr db' \<longleftrightarrow> unique_rows db \<and> db' = db"
  by (auto simp: constrained_def)

lemma apply_actions_Cons:
  assumes "apply_actions ev now (a # as) db = Inr db'"
  obtains ae where "unique_rows (apply_action a db)" "apply_actions ev now as ((apply_action a db)\<lparr>audit_events := ae\<rparr>) = Inr db'"
  using assms by (auto simp: bind_res_Inr constrained_Inr record_event_def split: if_splits)

lemma prepare_actions_Cons:
  assumes "prepare_actions fresh n (a # as) db = Inr db'"
  obtains "placeholder (fresh n) a = None" "prepare_actions fresh (n + 1) as db = Inr db'"
  | v where "placeholder (fresh n) a = Some v" "prepare_actions fresh (n + 1) as (update_row (an_target a) v db) = Inr db'"
  using assms by (cases "placeholder (fresh n) a") (auto simp: bind_res_Inr constrained_Inr)

lemma set_in_order [simp]: "set (in_order as) = set as"
  by (auto simp: in_order_def)

text \<open>A property of the rows of a table that every statement keeps, and that statements of the plan bring about where it
  does not hold: placeholders only touch rows that are cured later.\<close>

locale row_repair =
  fixes tab :: "cdb \<Rightarrow> 'r list" and key :: "'r \<Rightarrow> 'k" and good :: "'r \<Rightarrow> bool"
    and cures :: "action \<Rightarrow> 'k \<Rightarrow> bool" and legal :: "action \<Rightarrow> bool"
  assumes frame: "tab (db\<lparr>audit_events := ae\<rparr>) = tab db"
    and step: "legal a \<Longrightarrow> r' \<in> set (tab (apply_action a db)) \<Longrightarrow>
      \<exists>r \<in> set (tab db). key r' = key r \<and> (good r \<or> cures a (key r) \<longrightarrow> good r')"
    and prepared: "legal a \<Longrightarrow> placeholder u a = Some v \<Longrightarrow> r' \<in> set (tab (update_row (an_target a) v db)) \<Longrightarrow>
      \<exists>r \<in> set (tab db). key r' = key r \<and> (good r \<longrightarrow> good r' \<or> cures a (key r))"
begin

definition on_the_way :: "action list \<Rightarrow> cdb \<Rightarrow> bool" where
  "on_the_way as db = (\<forall>r \<in> set (tab db). good r \<or> (\<exists>a \<in> set as. cures a (key r)))"

lemma applied:
  "apply_actions ev now as db = Inr db' \<Longrightarrow> \<forall>a \<in> set as. legal a \<Longrightarrow> on_the_way as db \<Longrightarrow> \<forall>r \<in> set (tab db'). good r"
proof (induction as arbitrary: db)
  case Nil
  then show ?case by (simp add: on_the_way_def)
next
  case (Cons a as)
  obtain ae where rest: "apply_actions ev now as ((apply_action a db)\<lparr>audit_events := ae\<rparr>) = Inr db'"
    by (rule apply_actions_Cons [OF Cons.prems(1)])
  have "on_the_way as ((apply_action a db)\<lparr>audit_events := ae\<rparr>)"
    unfolding on_the_way_def frame
  proof
    fix r' assume "r' \<in> set (tab (apply_action a db))"
    from step [OF _ this] Cons.prems(2) obtain r where r: "r \<in> set (tab db)" "key r' = key r"
      and good: "good r \<or> cures a (key r) \<longrightarrow> good r'" by auto
    from r(1) Cons.prems(3) have "good r \<or> (\<exists>b \<in> set (a # as). cures b (key r))" unfolding on_the_way_def by blast
    with good r(2) show "good r' \<or> (\<exists>a \<in> set as. cures a (key r'))" by auto
  qed
  with Cons.IH [OF rest] Cons.prems(2) show ?case by simp
qed

lemma prepare_keeps:
  "prepare_actions fresh n as db = Inr db' \<Longrightarrow> \<forall>a \<in> set as. legal a \<Longrightarrow> set as \<subseteq> set all \<Longrightarrow> on_the_way all db \<Longrightarrow> on_the_way all db'"
proof (induction as arbitrary: n db)
  case (Cons a as)
  from Cons.prems(1) show ?case
  proof (cases rule: prepare_actions_Cons)
    case 1
    then show ?thesis using Cons.IH [OF 1(2)] Cons.prems by simp
  next
    case (2 v)
    have "on_the_way all (update_row (an_target a) v db)"
      unfolding on_the_way_def
    proof
      fix r' assume "r' \<in> set (tab (update_row (an_target a) v db))"
      from prepared [OF _ 2(1) this] Cons.prems(2) obtain r where r: "r \<in> set (tab db)" "key r' = key r" "good r \<longrightarrow> good r' \<or> cures a (key r)" by auto
      from r(1) Cons.prems(4) have "good r \<or> (\<exists>b \<in> set all. cures b (key r))" unfolding on_the_way_def by blast
      with r(2,3) Cons.prems(3) show "good r' \<or> (\<exists>a \<in> set all. cures a (key r'))" by auto
    qed
    with Cons.IH [OF 2(2)] Cons.prems show ?thesis by simp
  qed
qed simp

lemma repaired:
  assumes "bind_res (prepare_actions fresh n as db) (apply_actions ev now (in_order as)) = Inr db'"
    and "\<forall>a \<in> set as. legal a" and rows: "\<And>r. r \<in> set (tab db) \<Longrightarrow> good r \<or> (\<exists>a \<in> set as. cures a (key r))"
  shows "\<forall>r \<in> set (tab db'). good r"
proof -
  from assms(1) obtain db1 where prep: "prepare_actions fresh n as db = Inr db1"
    and run: "apply_actions ev now (in_order as) db1 = Inr db'" by (auto simp: bind_res_Inr)
  have "on_the_way as db1" by (rule prepare_keeps [OF prep]) (use assms(2) rows in \<open>auto simp: on_the_way_def\<close>)
  then have "on_the_way (in_order as) db1" by (simp add: on_the_way_def)
  with applied [OF run] assms(2) show ?thesis by simp
qed

end

section \<open>Legal actions\<close>

text \<open>What the plan may contain: it deletes what is gone, and updates only take values from before the restore.\<close>

definition deletes :: "cdb \<Rightarrow> target \<Rightarrow> bool" where
  "deletes pre t =
     (case t of
        OrgRow k \<Rightarrow> gone_org pre k
      | UserRow k \<Rightarrow> gone_user pre k
      | MemberRow og usr \<Rightarrow> gone_user pre usr \<or> get_membership og usr pre = None
      | InvitationRow k \<Rightarrow> True | WebhookRow k \<Rightarrow> True | ScheduleRow k \<Rightarrow> True | UploadRow k \<Rightarrow> True | RunRow k \<Rightarrow> True
      | _ \<Rightarrow> False)"

definition role_given :: "cdb \<Rightarrow> cdb \<Rightarrow> (ident \<times> ident) list \<Rightarrow> ident \<Rightarrow> ident \<Rightarrow> string \<Rightarrow> bool" where
  "role_given pre current rs og usr x =
     ((\<exists>old. get_membership og usr pre = Some old \<and> x = m_role old) \<and>
      ((og, usr) \<in> set rs \<or> (\<exists>cur \<in> set (memberships current). m_org cur = og \<and> m_user cur = usr \<and> restored_rank x \<le> restored_rank (m_role cur))))"

definition old_webhook :: "cdb \<Rightarrow> ident \<Rightarrow> webhook option" where
  "old_webhook pre k = sql_first (\<lambda>w. w_id w = k) (webhooks pre)"

definition old_schedule :: "cdb \<Rightarrow> ident \<Rightarrow> org_schedule option" where
  "old_schedule pre k = sql_first (\<lambda>s. os_org s = k) (org_schedules pre)"

definition updates :: "cdb \<Rightarrow> cdb \<Rightarrow> (ident \<times> ident) list \<Rightarrow> target \<Rightarrow> row_values \<Rightarrow> bool" where
  "updates pre current rs t v =
     (case v of
        EmailIs e \<Rightarrow> (case t of UserRow k \<Rightarrow> \<exists>old. get_user k pre = Some old \<and> e = u_email old | _ \<Rightarrow> False)
      | RoleIs x \<Rightarrow> (case t of MemberRow og usr \<Rightarrow> role_given pre current rs og usr x | _ \<Rightarrow> False)
      | RevokedAt now \<Rightarrow> (case t of ApiKeyRow k \<Rightarrow> True | ClientRow k \<Rightarrow> True | GrantRow k \<Rightarrow> True | TokenRow k \<Rightarrow> True | _ \<Rightarrow> False)
      | WebhookIs url ev off \<Rightarrow> (case t of WebhookRow k \<Rightarrow>
            (\<exists>old. old_webhook pre k = Some old \<and> url \<in> {None, Some (w_url old)} \<and> ev \<in> {None, Some (w_events old)}) | _ \<Rightarrow> False)
      | ScheduleIs rem fin aut url \<Rightarrow> (case t of ScheduleRow k \<Rightarrow>
            (\<exists>old. old_schedule pre k = Some old \<and> url \<in> {None, Some (os_webhook_url old)}) | _ \<Rightarrow> False)
      | PurgedAt now \<Rightarrow> (case t of RunRow k \<Rightarrow> sql_first (\<lambda>x. rr_id x = k) (run_records pre) \<noteq> None | _ \<Rightarrow> False)
      | CancelledAt now \<Rightarrow> (case t of JobRow k \<Rightarrow> True | _ \<Rightarrow> False))"

definition legal_action :: "cdb \<Rightarrow> cdb \<Rightarrow> (ident \<times> ident) list \<Rightarrow> action \<Rightarrow> bool" where
  "legal_action pre current rs a = (case an_values a of None \<Rightarrow> deletes pre (an_target a) | Some v \<Rightarrow> updates pre current rs (an_target a) v)"

text \<open>What each table is after a statement.\<close>

lemma rows_applied:
  "orgs (apply_action a db) = (case (an_values a, an_target a) of (None, OrgRow k) \<Rightarrow> sql_delete (\<lambda>r. o_id r = k) (orgs db) | _ \<Rightarrow> orgs db)"
  "users (apply_action a db) = (case (an_values a, an_target a) of (None, UserRow k) \<Rightarrow> sql_delete (\<lambda>r. u_id r = k) (users db)
     | (Some (EmailIs e), UserRow k) \<Rightarrow> sql_update (\<lambda>r. u_id r = k) (u_email_update (\<lambda>_. e)) (users db) | _ \<Rightarrow> users db)"
  "memberships (apply_action a db) = (case (an_values a, an_target a) of
       (None, OrgRow k) \<Rightarrow> sql_delete (\<lambda>r. m_org r = k) (memberships db)
     | (None, UserRow k) \<Rightarrow> sql_delete (\<lambda>r. m_user r = k) (memberships db)
     | (None, MemberRow og usr) \<Rightarrow> sql_delete (\<lambda>r. m_org r = og \<and> m_user r = usr) (memberships db)
     | (Some (RoleIs x), MemberRow og usr) \<Rightarrow> sql_update (\<lambda>r. m_org r = og \<and> m_user r = usr) (m_role_update (\<lambda>_. x)) (memberships db)
     | _ \<Rightarrow> memberships db)"
  "invitations (apply_action a db) = (case (an_values a, an_target a) of
       (None, OrgRow k) \<Rightarrow> sql_delete (\<lambda>r. i_org r = k) (invitations db)
     | (None, InvitationRow k) \<Rightarrow> sql_delete (\<lambda>r. i_id r = k) (invitations db) | _ \<Rightarrow> invitations db)"
  "api_keys (apply_action a db) = (case (an_values a, an_target a) of
       (None, OrgRow k) \<Rightarrow> sql_delete (\<lambda>r. k_org r = k) (api_keys db)
     | (Some (RevokedAt now), ApiKeyRow k) \<Rightarrow> sql_update (\<lambda>r. k_id r = k) (k_revoked_at_update (\<lambda>_. Some now)) (api_keys db)
     | _ \<Rightarrow> api_keys db)"
  "oauth_clients (apply_action a db) = (case (an_values a, an_target a) of
       (Some (RevokedAt now), ClientRow k) \<Rightarrow> sql_update (\<lambda>r. oc_id r = k) (oc_revoked_at_update (\<lambda>_. Some now)) (oauth_clients db)
     | _ \<Rightarrow> oauth_clients db)"
  "oauth_grants (apply_action a db) = (case (an_values a, an_target a) of
       (None, OrgRow k) \<Rightarrow> sql_delete (\<lambda>r. g_org r = k) (oauth_grants db)
     | (None, UserRow k) \<Rightarrow> sql_update (\<lambda>r. g_user r = Some k) (g_user_update (\<lambda>_. None)) (oauth_grants db)
     | (Some (RevokedAt now), GrantRow k) \<Rightarrow> sql_update (\<lambda>r. g_id r = k)
         (\<lambda>g. g\<lparr>g_revoked_at := Some now, g_revocation_reason := Some ''restore_reconcile''\<rparr>) (oauth_grants db)
     | _ \<Rightarrow> oauth_grants db)"
  "webhooks (apply_action a db) = (case (an_values a, an_target a) of
       (None, OrgRow k) \<Rightarrow> sql_delete (\<lambda>r. w_org r = k) (webhooks db)
     | (None, WebhookRow k) \<Rightarrow> sql_delete (\<lambda>r. w_id r = k) (webhooks db)
     | (Some (WebhookIs url ev off), WebhookRow k) \<Rightarrow> sql_update (\<lambda>r. w_id r = k) (set_webhook url ev off) (webhooks db)
     | _ \<Rightarrow> webhooks db)"
  "org_schedules (apply_action a db) = (case (an_values a, an_target a) of
       (None, OrgRow k) \<Rightarrow> sql_delete (\<lambda>r. os_org r = k) (org_schedules db)
     | (None, ScheduleRow k) \<Rightarrow> sql_delete (\<lambda>r. os_org r = k) (org_schedules db)
     | (Some (ScheduleIs rem fin aut url), ScheduleRow k) \<Rightarrow> sql_update (\<lambda>r. os_org r = k) (set_schedule rem fin aut url) (org_schedules db)
     | _ \<Rightarrow> org_schedules db)"
  "uploads (apply_action a db) = (case (an_values a, an_target a) of
       (None, OrgRow k) \<Rightarrow> sql_delete (\<lambda>r. up_org r = k) (uploads db)
     | (None, UploadRow k) \<Rightarrow> sql_delete (\<lambda>r. up_id r = k) (uploads db) | _ \<Rightarrow> uploads db)"
  "run_records (apply_action a db) = (case (an_values a, an_target a) of
       (None, OrgRow k) \<Rightarrow> sql_delete (\<lambda>r. rr_org r = k) (run_records db)
     | (None, RunRow k) \<Rightarrow> sql_delete (\<lambda>r. rr_id r = k) (run_records db)
     | (Some (PurgedAt now), RunRow k) \<Rightarrow> sql_update (\<lambda>r. rr_id r = k) (rr_report_purged_at_update (\<lambda>_. Some now)) (run_records db)
     | _ \<Rightarrow> run_records db)"
  by (cases "an_values a"; cases "an_target a"; simp add: apply_action_def cascade_org_alt cascade_user_def Let_def update_row_def
      split: row_values.split)+


lemma tokens_applied:
  "r \<in> set (oauth_tokens (apply_action a db)) \<Longrightarrow>
     (case (an_values a, an_target a) of
        (None, OrgRow k) \<Rightarrow> r \<in> set (oauth_tokens db) \<and> t_org r \<noteq> k
      | (None, UserRow k) \<Rightarrow> r \<in> set (sql_update (\<lambda>r. t_user r = Some k) (t_user_update (\<lambda>_. None)) (oauth_tokens db))
      | (Some (RevokedAt now), TokenRow k) \<Rightarrow> r \<in> set (sql_update (\<lambda>r. t_id r = k) (t_revoked_at_update (\<lambda>_. Some now)) (oauth_tokens db))
      | _ \<Rightarrow> r \<in> set (oauth_tokens db))"
  by (cases "an_values a"; cases "an_target a"; simp add: apply_action_def cascade_org_alt cascade_user_def Let_def update_row_def sql_delete_def
      split: row_values.splits)

lemma jobs_applied:
  "r \<in> set (jobs (apply_action a db)) \<Longrightarrow>
     (\<exists>r0 \<in> set (jobs db). j_org r = j_org r0 \<and> j_id r = j_id r0 \<and> (j_status r = Queued \<longrightarrow> j_status r0 = Queued) \<and>
        an_target a \<noteq> OrgRow (j_org r0) \<and> (an_target a = JobRow (j_id r0) \<and> (\<exists>t. an_values a = Some (CancelledAt t)) \<longrightarrow> j_status r \<noteq> Queued)) \<or>
     (an_values a \<noteq> None \<and> r \<in> set (jobs db) \<and> \<not> (\<exists>k t. an_target a = JobRow k \<and> an_values a = Some (CancelledAt t)))"
  by (cases "an_values a"; cases "an_target a";
      auto simp: apply_action_def cascade_org_alt cascade_user_def Let_def update_row_def table_simps split: row_values.splits)

text \<open>Placeholders only move e-mail addresses of users and addresses of webhooks.\<close>

lemma placeholder_cases:
  assumes "placeholder u a = Some v"
  obtains e where "an_values a = Some (EmailIs e)" "v = EmailIs (''restore-'' @ u @ ''@example.invalid'')"
  | url ev off where "an_values a = Some (WebhookIs (Some url) ev off)"
      "v = WebhookIs (Some (''https://restore.example.invalid/'' @ u)) None False"
  using assms by (auto simp: placeholder_def split: option.splits row_values.splits)

lemma placeholder_frame:
  assumes "placeholder u a = Some v"
  shows "orgs (update_row t v db) = orgs db" "memberships (update_row t v db) = memberships db"
    "invitations (update_row t v db) = invitations db" "api_keys (update_row t v db) = api_keys db"
    "oauth_clients (update_row t v db) = oauth_clients db" "oauth_grants (update_row t v db) = oauth_grants db"
    "oauth_tokens (update_row t v db) = oauth_tokens db" "org_schedules (update_row t v db) = org_schedules db"
    "uploads (update_row t v db) = uploads db" "run_records (update_row t v db) = run_records db" "jobs (update_row t v db) = jobs db"
  by (rule placeholder_cases [OF assms]; simp add: update_row_def split: target.split)+

section \<open>The tables\<close>

abbreviation drops :: "action \<Rightarrow> target \<Rightarrow> bool" where
  "drops a t \<equiv> an_target a = t \<and> an_values a = None"

interpretation org_rows: row_repair orgs o_id "\<lambda>r. r \<in> set (orgs current) \<and> \<not> gone_org pre (o_id r)" "\<lambda>a k. drops a (OrgRow k)" "legal_action pre current rs"
  for pre current rs
  by unfold_locales (auto simp: rows_applied placeholder_frame table_simps split: option.splits row_values.splits target.splits if_splits)

lemma user_applied:
  assumes "r' \<in> set (users (apply_action a db))"
  obtains "r' \<in> set (users db)" "\<not> (an_target a = UserRow (u_id r') \<and> (an_values a = None \<or> (\<exists>e. an_values a = Some (EmailIs e))))"
  | r e where "r \<in> set (users db)" "an_target a = UserRow (u_id r)" "an_values a = Some (EmailIs e)" "r' = r\<lparr>u_email := e\<rparr>"
proof (cases "an_values a = None \<or> (\<exists>e. an_values a = Some (EmailIs e))")
  case True
  with assms that show ?thesis by (auto simp: rows_applied table_simps split: target.splits if_splits)
next
  case False
  with assms have "r' \<in> set (users db)" by (auto simp: rows_applied split: option.splits row_values.splits target.splits)
  with False that(1) show ?thesis by blast
qed

lemma member_applied:
  assumes "r' \<in> set (memberships (apply_action a db))"
  obtains "r' \<in> set (memberships db)" "\<not> drops a (OrgRow (m_org r'))" "\<not> drops a (UserRow (m_user r'))"
      "\<not> drops a (MemberRow (m_org r') (m_user r'))" "\<not> (an_target a = MemberRow (m_org r') (m_user r') \<and> (\<exists>x. an_values a = Some (RoleIs x)))"
  | r x where "r \<in> set (memberships db)" "an_target a = MemberRow (m_org r) (m_user r)" "an_values a = Some (RoleIs x)"
      "r' = r\<lparr>m_role := x\<rparr>"
proof (cases "an_values a = None \<or> (\<exists>e. an_values a = Some (RoleIs e))")
  case True
  with assms that show ?thesis by (auto simp: rows_applied table_simps split: target.splits if_splits)
next
  case False
  with assms have "r' \<in> set (memberships db)" by (auto simp: rows_applied split: option.splits row_values.splits target.splits)
  with False that(1) show ?thesis by blast
qed

definition same_user :: "cdb \<Rightarrow> user \<Rightarrow> bool" where
  "same_user pre u = (\<exists>old. get_user (u_id u) pre = Some old \<and> u_email u = u_email old)"

interpretation user_rows: row_repair users u_id "same_user pre"
  "\<lambda>a k. an_target a = UserRow k \<and> (an_values a = None \<or> (\<exists>e. an_values a = Some (EmailIs e)))" "legal_action pre current rs"
  for pre current rs
proof unfold_locales
  fix a r' db assume legal: "legal_action pre current rs a" and row: "r' \<in> set (users (apply_action a db))"
  from row show "\<exists>r \<in> set (users db). u_id r' = u_id r \<and> (same_user pre r \<or> an_target a = UserRow (u_id r) \<and>
      (an_values a = None \<or> (\<exists>e. an_values a = Some (EmailIs e))) \<longrightarrow> same_user pre r')"
  proof (cases rule: user_applied)
    case 1
    then show ?thesis by auto
  next
    case (2 r e)
    with legal have "same_user pre r'" by (auto simp: legal_action_def updates_def same_user_def)
    with 2 show ?thesis by auto
  qed
next
  fix a u v r' db assume "placeholder u a = Some v" "r' \<in> set (users (update_row (an_target a) v db))"
  then show "\<exists>r \<in> set (users db). u_id r' = u_id r \<and> (same_user pre r \<longrightarrow> same_user pre r' \<or> an_target a = UserRow (u_id r) \<and>
      (an_values a = None \<or> (\<exists>e. an_values a = Some (EmailIs e))))"
    by (elim placeholder_cases) (auto simp: update_row_def table_simps split: target.splits if_splits)
qed simp

definition member_within :: "cdb \<Rightarrow> cdb \<Rightarrow> (ident \<times> ident) list \<Rightarrow> membership \<Rightarrow> bool" where
  "member_within pre current rs m =
     (\<not> gone_user pre (m_user m) \<and>
      (\<exists>old. get_membership (m_org m) (m_user m) pre = Some old \<and> restored_rank (m_role m) \<le> restored_rank (m_role old)) \<and>
      ((m_org m, m_user m) \<in> set rs \<or>
       (\<exists>cur \<in> set (memberships current). m_org cur = m_org m \<and> m_user cur = m_user m \<and> restored_rank (m_role m) \<le> restored_rank (m_role cur))))"

definition member_cured :: "cdb \<Rightarrow> action \<Rightarrow> ident \<times> ident \<Rightarrow> bool" where
  "member_cured pre a k =
     (drops a (MemberRow (fst k) (snd k)) \<or> drops a (OrgRow (fst k)) \<or> drops a (UserRow (snd k)) \<or>
      (an_target a = MemberRow (fst k) (snd k) \<and> (\<exists>x. an_values a = Some (RoleIs x)) \<and> \<not> gone_user pre (snd k)))"

interpretation member_rows: row_repair memberships "\<lambda>m. (m_org m, m_user m)" "member_within pre current rs" "member_cured pre"
  "legal_action pre current rs" for pre current rs
proof unfold_locales
  fix a r' db assume legal: "legal_action pre current rs a" and row: "r' \<in> set (memberships (apply_action a db))"
  from row show "\<exists>r \<in> set (memberships db). (m_org r', m_user r') = (m_org r, m_user r) \<and>
      (member_within pre current rs r \<or> member_cured pre a (m_org r, m_user r) \<longrightarrow> member_within pre current rs r')"
  proof (cases rule: member_applied)
    case 1
    then show ?thesis by (auto simp: member_cured_def)
  next
    case (2 r x)
    from 2(2,3) legal have given: "role_given pre current rs (m_org r) (m_user r) x"
      by (simp add: legal_action_def updates_def)
    show ?thesis
    proof (rule bexI [OF _ 2(1)], intro conjI impI)
      assume "member_within pre current rs r \<or> member_cured pre a (m_org r, m_user r)"
      then have "\<not> gone_user pre (m_user r)" using 2(2,3) by (auto simp: member_within_def member_cured_def)
      with given show "member_within pre current rs r'" unfolding 2(4) member_within_def role_given_def by auto
    qed (simp add: 2(4))
  qed
qed (auto simp: placeholder_frame)

definition invitation_open :: "cdb \<Rightarrow> cdb \<Rightarrow> stamp \<Rightarrow> invitation \<Rightarrow> bool" where
  "invitation_open pre current now i =
     (i \<in> set (invitations current) \<and>
      (\<exists>old. sql_first (\<lambda>x. i_id x = i_id i) (invitations pre) = Some old \<and> i_accepted_at old = None \<and> now < i_expires_at old))"

interpretation invitation_rows: row_repair invitations "\<lambda>i. (i_org i, i_id i)" "invitation_open pre current now"
  "\<lambda>a k. drops a (OrgRow (fst k)) \<or> drops a (InvitationRow (snd k))" "legal_action pre current rs" for pre current now rs
  by unfold_locales (auto simp: rows_applied placeholder_frame table_simps split: option.splits row_values.splits target.splits if_splits)

definition key_within :: "cdb \<Rightarrow> cdb \<Rightarrow> api_key \<Rightarrow> bool" where
  "key_within pre current k =
     (k_revoked_at k \<noteq> None \<or> (k \<in> set (api_keys current) \<and> \<not> dead_before k_id k_revoked_at (api_keys pre) (k_id k)))"

abbreviation revokes :: "action \<Rightarrow> target \<Rightarrow> bool" where
  "revokes a t \<equiv> an_target a = t \<and> (\<exists>now. an_values a = Some (RevokedAt now))"

interpretation key_rows: row_repair api_keys "\<lambda>k. (k_org k, k_id k)" "key_within pre current"
  "\<lambda>a k. drops a (OrgRow (fst k)) \<or> revokes a (ApiKeyRow (snd k))" "legal_action pre current rs" for pre current rs
proof unfold_locales
  fix a r' db assume "r' \<in> set (api_keys (apply_action a db))"
  then show "\<exists>r \<in> set (api_keys db). (k_org r', k_id r') = (k_org r, k_id r) \<and> (key_within pre current r \<or>
      drops a (OrgRow (fst (k_org r, k_id r))) \<or> revokes a (ApiKeyRow (snd (k_org r, k_id r))) \<longrightarrow> key_within pre current r')"
    by (auto simp: rows_applied key_within_def table_simps split: option.splits row_values.splits target.splits if_splits)
qed (auto simp: placeholder_frame)

definition client_within :: "cdb \<Rightarrow> cdb \<Rightarrow> oauth_client \<Rightarrow> bool" where
  "client_within pre current c = (oc_revoked_at c \<noteq> None \<or> (c \<in> set (oauth_clients current) \<and> \<not> dead_client pre (oc_id c)))"

interpretation client_rows: row_repair oauth_clients oc_id "client_within pre current"
  "\<lambda>a k. revokes a (ClientRow k)" "legal_action pre current rs" for pre current rs
proof unfold_locales
  fix a r' db assume "r' \<in> set (oauth_clients (apply_action a db))"
  then show "\<exists>r \<in> set (oauth_clients db). oc_id r' = oc_id r \<and>
      (client_within pre current r \<or> revokes a (ClientRow (oc_id r)) \<longrightarrow> client_within pre current r')"
    by (auto simp: rows_applied client_within_def table_simps split: option.splits row_values.splits target.splits if_splits)
qed (auto simp: placeholder_frame)


text \<open>Deleting a user clears it from the grants and tokens; they are otherwise the restored ones.\<close>

definition grant_within :: "cdb \<Rightarrow> cdb \<Rightarrow> oauth_grant \<Rightarrow> bool" where
  "grant_within pre current g =
     (g_revoked_at g \<noteq> None \<or>
      (\<not> dead_grant pre (g_id g) \<and> \<not> dead_client pre (g_client g) \<and>
       (\<exists>cur \<in> set (oauth_grants current). g\<lparr>g_user := g_user cur\<rparr> = cur \<and> g_user g \<in> {None, g_user cur})))"

lemma grant_applied:
  assumes "r' \<in> set (oauth_grants (apply_action a db))"
  obtains "r' \<in> set (oauth_grants db)" "\<not> drops a (OrgRow (g_org r'))" "\<not> revokes a (GrantRow (g_id r'))"
  | r where "r \<in> set (oauth_grants db)" "an_values a = None" "\<not> drops a (OrgRow (g_org r))" "r' = r\<lparr>g_user := None\<rparr>"
  | r where "r \<in> set (oauth_grants db)" "g_id r' = g_id r" "g_org r' = g_org r" "g_revoked_at r' \<noteq> None"
proof (cases "an_values a = None \<or> (\<exists>t. an_values a = Some (RevokedAt t))")
  case True
  with assms that show ?thesis by (auto simp: rows_applied table_simps split: target.splits if_splits)
next
  case False
  with assms have "r' \<in> set (oauth_grants db)" by (auto simp: rows_applied split: option.splits row_values.splits target.splits)
  with False that(1) show ?thesis by blast
qed

interpretation grant_rows: row_repair oauth_grants "\<lambda>g. (g_org g, g_id g)" "grant_within pre current"
  "\<lambda>a k. drops a (OrgRow (fst k)) \<or> revokes a (GrantRow (snd k))" "legal_action pre current rs" for pre current rs
proof unfold_locales
  fix a r' db assume "r' \<in> set (oauth_grants (apply_action a db))"
  then show "\<exists>r \<in> set (oauth_grants db). (g_org r', g_id r') = (g_org r, g_id r) \<and> (grant_within pre current r \<or>
      drops a (OrgRow (fst (g_org r, g_id r))) \<or> revokes a (GrantRow (snd (g_org r, g_id r))) \<longrightarrow> grant_within pre current r')"
  proof (cases rule: grant_applied)
    case 2
    then show ?thesis by (auto simp: grant_within_def)
  qed (auto simp: grant_within_def)
qed (auto simp: placeholder_frame)

definition token_within :: "cdb \<Rightarrow> cdb \<Rightarrow> oauth_token \<Rightarrow> bool" where
  "token_within pre current t =
     (t_revoked_at t \<noteq> None \<or>
      (\<not> dead_before t_id t_revoked_at (oauth_tokens pre) (t_id t) \<and> \<not> dead_client pre (t_client t) \<and>
       (case t_grant t of None \<Rightarrow> True | Some g \<Rightarrow> g = [] \<or> \<not> dead_grant pre g) \<and>
       (\<exists>cur \<in> set (oauth_tokens current). t\<lparr>t_user := t_user cur\<rparr> = cur \<and> t_user t \<in> {None, t_user cur})))"

lemma token_applied:
  assumes "r' \<in> set (oauth_tokens (apply_action a db))"
  obtains "r' \<in> set (oauth_tokens db)" "\<not> drops a (OrgRow (t_org r'))" "\<not> revokes a (TokenRow (t_id r'))"
  | r where "r \<in> set (oauth_tokens db)" "an_values a = None" "\<not> drops a (OrgRow (t_org r))" "r' = r\<lparr>t_user := None\<rparr>"
  | r where "r \<in> set (oauth_tokens db)" "t_id r' = t_id r" "t_org r' = t_org r" "t_revoked_at r' \<noteq> None"
proof (cases "an_values a = None \<or> (\<exists>t. an_values a = Some (RevokedAt t))")
  case True
  with tokens_applied [OF assms] that show ?thesis by (auto simp: table_simps split: target.splits if_splits)
next
  case False
  with tokens_applied [OF assms] have "r' \<in> set (oauth_tokens db)" by (auto split: option.splits row_values.splits target.splits)
  with False that(1) show ?thesis by blast
qed

interpretation token_rows: row_repair oauth_tokens "\<lambda>g. (t_org g, t_id g)" "token_within pre current"
  "\<lambda>a k. drops a (OrgRow (fst k)) \<or> revokes a (TokenRow (snd k))" "legal_action pre current rs" for pre current rs
proof unfold_locales
  fix a r' db assume "r' \<in> set (oauth_tokens (apply_action a db))"
  then show "\<exists>r \<in> set (oauth_tokens db). (t_org r', t_id r') = (t_org r, t_id r) \<and> (token_within pre current r \<or>
      drops a (OrgRow (fst (t_org r, t_id r))) \<or> revokes a (TokenRow (snd (t_org r, t_id r))) \<longrightarrow> token_within pre current r')"
  proof (cases rule: token_applied)
    case 2
    then show ?thesis by (auto simp: token_within_def)
  qed (auto simp: token_within_def)
qed (auto simp: placeholder_frame)

lemma webhook_applied:
  assumes "r' \<in> set (webhooks (apply_action a db))"
  obtains "r' \<in> set (webhooks db)" "\<not> drops a (OrgRow (w_org r'))" "\<not> drops a (WebhookRow (w_id r'))"
      "\<not> (an_target a = WebhookRow (w_id r') \<and> (\<exists>u e off. an_values a = Some (WebhookIs u e off)))"
  | r u e off where "r \<in> set (webhooks db)" "an_target a = WebhookRow (w_id r)" "an_values a = Some (WebhookIs u e off)"
      "r' = set_webhook u e off r"
proof (cases "an_values a = None \<or> (\<exists>u e off. an_values a = Some (WebhookIs u e off))")
  case True
  with assms that show ?thesis by (auto simp: rows_applied table_simps set_webhook_def split: target.splits if_splits)
next
  case False
  with assms have "r' \<in> set (webhooks db)" by (auto simp: rows_applied split: option.splits row_values.splits target.splits)
  with False that(1) show ?thesis by blast
qed

lemma set_webhook_simps [simp]:
  "w_id (set_webhook u e off w) = w_id w" "w_org (set_webhook u e off w) = w_org w"
  "w_active (set_webhook u e off w) = (w_active w \<and> \<not> off)"
  by (simp_all add: set_webhook_def)

definition webhook_active_within :: "cdb \<Rightarrow> cdb \<Rightarrow> webhook \<Rightarrow> bool" where
  "webhook_active_within pre current w =
     (\<exists>old. old_webhook pre (w_id w) = Some old \<and>
       (w_active w \<longrightarrow> w_active old \<and> (\<exists>cur \<in> set (webhooks current). w_id cur = w_id w \<and> w_org cur = w_org w \<and> w_active cur)))"

definition webhook_url_same :: "cdb \<Rightarrow> webhook \<Rightarrow> bool" where
  "webhook_url_same pre w = (\<forall>old. old_webhook pre (w_id w) = Some old \<longrightarrow> w_url w = w_url old)"

definition webhook_events_same :: "cdb \<Rightarrow> webhook \<Rightarrow> bool" where
  "webhook_events_same pre w = (\<forall>old. old_webhook pre (w_id w) = Some old \<longrightarrow> w_events w = w_events old)"

abbreviation webhook_set :: "(string option \<Rightarrow> string list option \<Rightarrow> bool \<Rightarrow> bool) \<Rightarrow> action \<Rightarrow> ident \<times> ident \<Rightarrow> bool" where
  "webhook_set P a k \<equiv> drops a (OrgRow (fst k)) \<or> drops a (WebhookRow (snd k)) \<or>
     (an_target a = WebhookRow (snd k) \<and> (\<exists>u e off. an_values a = Some (WebhookIs u e off) \<and> P u e off))"

lemma webhook_placeholder:
  assumes "placeholder i a = Some v" "r' \<in> set (webhooks (update_row (an_target a) v db))"
  obtains "r' \<in> set (webhooks db)"
  | r u where "r \<in> set (webhooks db)" "an_target a = WebhookRow (w_id r)"
      "\<exists>x e off. an_values a = Some (WebhookIs (Some x) e off)" "r' = set_webhook (Some u) None False r"
  using assms(1)
proof (cases rule: placeholder_cases)
  case 1
  then show ?thesis using assms(2) that(1) by (auto simp: update_row_def split: target.splits)
next
  case (2 url ev off)
  then show ?thesis using assms(2) that by (auto simp: update_row_def table_simps split: target.splits if_splits)
qed

text \<open>An attribute of a webhook that a statement either brings to its value or leaves alone.\<close>

lemma webhook_steps:
  assumes legal: "legal_action pre current rs a" and row: "r' \<in> set (webhooks (apply_action a db))"
    and kept: "\<And>r u e off. updates pre current rs (WebhookRow (w_id r)) (WebhookIs u e off) \<Longrightarrow> good r \<or> P u e off \<Longrightarrow> good (set_webhook u e off r)"
  shows "\<exists>r \<in> set (webhooks db). (w_org r', w_id r') = (w_org r, w_id r) \<and> (good r \<or> webhook_set P a (w_org r, w_id r) \<longrightarrow> good r')"
  using row
proof (cases rule: webhook_applied)
  case 1
  then show ?thesis by (intro bexI [of _ r']) auto
next
  case (2 r u e off)
  with legal have "updates pre current rs (WebhookRow (w_id r)) (WebhookIs u e off)" by (simp add: legal_action_def)
  with 2 kept show ?thesis by (intro bexI [OF _ 2(1)]) auto
qed

lemma webhook_prepared:
  assumes "placeholder i a = Some v" "r' \<in> set (webhooks (update_row (an_target a) v db))"
    and kept: "\<And>r u e off x. an_values a = Some (WebhookIs (Some x) e off) \<Longrightarrow> good r \<Longrightarrow> good (set_webhook (Some u) None False r) \<or> P (Some x) e off"
  shows "\<exists>r \<in> set (webhooks db). (w_org r', w_id r') = (w_org r, w_id r) \<and> (good r \<longrightarrow> good r' \<or> webhook_set P a (w_org r, w_id r))"
  using assms(1,2)
proof (cases rule: webhook_placeholder)
  case (2 r u)
  from 2(3) obtain x e off where v: "an_values a = Some (WebhookIs (Some x) e off)" by blast
  with kept [OF v, of r u] 2 show ?thesis by (intro bexI [OF _ 2(1)]) auto
qed auto

interpretation webhook_active: row_repair webhooks "\<lambda>w. (w_org w, w_id w)" "webhook_active_within pre current"
  "webhook_set (\<lambda>u e off. off)" "legal_action pre current rs" for pre current rs
proof unfold_locales
  show "legal_action pre current rs a \<Longrightarrow> r' \<in> set (webhooks (apply_action a db)) \<Longrightarrow>
      \<exists>r \<in> set (webhooks db). (w_org r', w_id r') = (w_org r, w_id r) \<and>
        (webhook_active_within pre current r \<or> webhook_set (\<lambda>u e off. off) a (w_org r, w_id r) \<longrightarrow> webhook_active_within pre current r')" for a r' db
    by (erule (1) webhook_steps) (auto simp: updates_def webhook_active_within_def)
  show "placeholder i a = Some v \<Longrightarrow> r' \<in> set (webhooks (update_row (an_target a) v db)) \<Longrightarrow>
      \<exists>r \<in> set (webhooks db). (w_org r', w_id r') = (w_org r, w_id r) \<and>
        (webhook_active_within pre current r \<longrightarrow> webhook_active_within pre current r' \<or> webhook_set (\<lambda>u e off. off) a (w_org r, w_id r))" for i a v r' db
    by (erule (1) webhook_prepared) (simp add: webhook_active_within_def)
qed simp

interpretation webhook_url: row_repair webhooks "\<lambda>w. (w_org w, w_id w)" "webhook_url_same pre"
  "webhook_set (\<lambda>u e off. u \<noteq> None)" "legal_action pre current rs" for pre current rs
proof unfold_locales
  show "legal_action pre current rs a \<Longrightarrow> r' \<in> set (webhooks (apply_action a db)) \<Longrightarrow>
      \<exists>r \<in> set (webhooks db). (w_org r', w_id r') = (w_org r, w_id r) \<and>
        (webhook_url_same pre r \<or> webhook_set (\<lambda>u e off. u \<noteq> None) a (w_org r, w_id r) \<longrightarrow> webhook_url_same pre r')" for a r' db
    by (erule (1) webhook_steps) (auto simp: updates_def webhook_url_same_def set_webhook_def)
  show "placeholder i a = Some v \<Longrightarrow> r' \<in> set (webhooks (update_row (an_target a) v db)) \<Longrightarrow>
      \<exists>r \<in> set (webhooks db). (w_org r', w_id r') = (w_org r, w_id r) \<and>
        (webhook_url_same pre r \<longrightarrow> webhook_url_same pre r' \<or> webhook_set (\<lambda>u e off. u \<noteq> None) a (w_org r, w_id r))" for i a v r' db
    by (erule (1) webhook_prepared) simp
qed simp

interpretation webhook_events: row_repair webhooks "\<lambda>w. (w_org w, w_id w)" "webhook_events_same pre"
  "webhook_set (\<lambda>u e off. e \<noteq> None)" "legal_action pre current rs" for pre current rs
proof unfold_locales
  show "legal_action pre current rs a \<Longrightarrow> r' \<in> set (webhooks (apply_action a db)) \<Longrightarrow>
      \<exists>r \<in> set (webhooks db). (w_org r', w_id r') = (w_org r, w_id r) \<and>
        (webhook_events_same pre r \<or> webhook_set (\<lambda>u e off. e \<noteq> None) a (w_org r, w_id r) \<longrightarrow> webhook_events_same pre r')" for a r' db
    by (erule (1) webhook_steps) (auto simp: updates_def webhook_events_same_def set_webhook_def)
  show "placeholder i a = Some v \<Longrightarrow> r' \<in> set (webhooks (update_row (an_target a) v db)) \<Longrightarrow>
      \<exists>r \<in> set (webhooks db). (w_org r', w_id r') = (w_org r, w_id r) \<and>
        (webhook_events_same pre r \<longrightarrow> webhook_events_same pre r' \<or> webhook_set (\<lambda>u e off. e \<noteq> None) a (w_org r, w_id r))" for i a v r' db
    by (erule (1) webhook_prepared) (simp add: webhook_events_same_def set_webhook_def)
qed simp


datatype sched_flag = Reminder | Finish | AutoRun

definition flag_of :: "sched_flag \<Rightarrow> org_schedule \<Rightarrow> bool" where
  "flag_of f s = (case f of Reminder \<Rightarrow> os_reminder_enabled s | Finish \<Rightarrow> os_notify_on_finish s | AutoRun \<Rightarrow> os_auto_run s)"

definition clears :: "sched_flag \<Rightarrow> bool \<Rightarrow> bool \<Rightarrow> bool \<Rightarrow> bool" where
  "clears f r n a = (case f of Reminder \<Rightarrow> r | Finish \<Rightarrow> n | AutoRun \<Rightarrow> a)"

lemma set_schedule_simps [simp]:
  "os_org (set_schedule r n a u s) = os_org s" "flag_of f (set_schedule r n a u s) = (flag_of f s \<and> \<not> clears f r n a)"
  "os_webhook_url (set_schedule r n a u s) = (case u of None \<Rightarrow> os_webhook_url s | Some x \<Rightarrow> x)"
  by (simp_all add: set_schedule_def flag_of_def clears_def split: sched_flag.split)

lemma schedule_applied:
  assumes "r' \<in> set (org_schedules (apply_action a db))"
  obtains "r' \<in> set (org_schedules db)" "\<not> drops a (OrgRow (os_org r'))" "\<not> drops a (ScheduleRow (os_org r'))"
      "\<not> (an_target a = ScheduleRow (os_org r') \<and> (\<exists>r n x u. an_values a = Some (ScheduleIs r n x u)))"
  | r p n x u where "r \<in> set (org_schedules db)" "an_target a = ScheduleRow (os_org r)" "an_values a = Some (ScheduleIs p n x u)"
      "r' = set_schedule p n x u r"
proof (cases "an_values a = None \<or> (\<exists>r n x u. an_values a = Some (ScheduleIs r n x u))")
  case True
  with assms that show ?thesis by (auto simp: rows_applied table_simps split: target.splits if_splits)
next
  case False
  with assms have "r' \<in> set (org_schedules db)" by (auto simp: rows_applied split: option.splits row_values.splits target.splits)
  with False that(1) show ?thesis by blast
qed

abbreviation schedule_set :: "(bool \<Rightarrow> bool \<Rightarrow> bool \<Rightarrow> string option option \<Rightarrow> bool) \<Rightarrow> action \<Rightarrow> ident \<Rightarrow> bool" where
  "schedule_set P a k \<equiv> drops a (OrgRow k) \<or> drops a (ScheduleRow k) \<or>
     (an_target a = ScheduleRow k \<and> (\<exists>r n x u. an_values a = Some (ScheduleIs r n x u) \<and> P r n x u))"

lemma schedule_steps:
  assumes legal: "legal_action pre current rs a" and row: "r' \<in> set (org_schedules (apply_action a db))"
    and kept: "\<And>r p n x u. updates pre current rs (ScheduleRow (os_org r)) (ScheduleIs p n x u) \<Longrightarrow> good r \<or> P p n x u \<Longrightarrow> good (set_schedule p n x u r)"
  shows "\<exists>r \<in> set (org_schedules db). os_org r' = os_org r \<and> (good r \<or> schedule_set P a (os_org r) \<longrightarrow> good r')"
  using row
proof (cases rule: schedule_applied)
  case 1
  then show ?thesis by (intro bexI [of _ r']) auto
next
  case (2 r p n x u)
  with legal have "updates pre current rs (ScheduleRow (os_org r)) (ScheduleIs p n x u)" by (simp add: legal_action_def)
  with 2 kept show ?thesis by (intro bexI [OF _ 2(1)]) auto
qed

definition schedule_within :: "cdb \<Rightarrow> cdb \<Rightarrow> sched_flag \<Rightarrow> org_schedule \<Rightarrow> bool" where
  "schedule_within pre current f s =
     (\<exists>old. old_schedule pre (os_org s) = Some old \<and>
       (flag_of f s \<longrightarrow> flag_of f old \<and> (\<exists>cur \<in> set (org_schedules current). os_org cur = os_org s \<and> flag_of f cur)))"

definition schedule_url_same :: "cdb \<Rightarrow> org_schedule \<Rightarrow> bool" where
  "schedule_url_same pre s = (\<forall>old. old_schedule pre (os_org s) = Some old \<longrightarrow> os_webhook_url s = os_webhook_url old)"

interpretation schedule_flag: row_repair org_schedules os_org "schedule_within pre current f"
  "schedule_set (\<lambda>r n x u. clears f r n x)" "legal_action pre current rs" for pre current f rs
proof unfold_locales
  show "legal_action pre current rs a \<Longrightarrow> r' \<in> set (org_schedules (apply_action a db)) \<Longrightarrow>
      \<exists>r \<in> set (org_schedules db). os_org r' = os_org r \<and>
        (schedule_within pre current f r \<or> schedule_set (\<lambda>r n x u. clears f r n x) a (os_org r) \<longrightarrow> schedule_within pre current f r')" for a r' db
    by (erule (1) schedule_steps) (auto simp: updates_def schedule_within_def)
qed (auto simp: placeholder_frame)

interpretation schedule_url: row_repair org_schedules os_org "schedule_url_same pre"
  "schedule_set (\<lambda>r n x u. u \<noteq> None)" "legal_action pre current rs" for pre current rs
proof unfold_locales
  show "legal_action pre current rs a \<Longrightarrow> r' \<in> set (org_schedules (apply_action a db)) \<Longrightarrow>
      \<exists>r \<in> set (org_schedules db). os_org r' = os_org r \<and>
        (schedule_url_same pre r \<or> schedule_set (\<lambda>r n x u. u \<noteq> None) a (os_org r) \<longrightarrow> schedule_url_same pre r')" for a r' db
    by (erule (1) schedule_steps) (auto simp: updates_def schedule_url_same_def)
qed (auto simp: placeholder_frame)

definition upload_within :: "cdb \<Rightarrow> cdb \<Rightarrow> upload \<Rightarrow> bool" where
  "upload_within pre current u = (u \<in> set (uploads current) \<and> get_upload (up_id u) pre \<noteq> None)"

interpretation upload_rows: row_repair uploads "\<lambda>u. (up_org u, up_id u)" "upload_within pre current"
  "\<lambda>a k. drops a (OrgRow (fst k)) \<or> drops a (UploadRow (snd k))" "legal_action pre current rs" for pre current rs
  by unfold_locales (auto simp: rows_applied placeholder_frame table_simps split: option.splits row_values.splits target.splits if_splits)

definition run_within :: "cdb \<Rightarrow> run_record \<Rightarrow> bool" where
  "run_within pre r =
     (\<exists>old. sql_first (\<lambda>x. rr_id x = rr_id r) (run_records pre) = Some old \<and>
       (rr_report_purged_at old \<noteq> None \<longrightarrow> rr_report_purged_at r \<noteq> None))"

lemma run_applied:
  assumes "r' \<in> set (run_records (apply_action a db))"
  obtains "r' \<in> set (run_records db)" "\<not> drops a (OrgRow (rr_org r'))" "\<not> drops a (RunRow (rr_id r'))"
      "\<not> (an_target a = RunRow (rr_id r') \<and> (\<exists>t. an_values a = Some (PurgedAt t)))"
  | r t where "r \<in> set (run_records db)" "an_target a = RunRow (rr_id r)" "an_values a = Some (PurgedAt t)"
      "r' = r\<lparr>rr_report_purged_at := Some t\<rparr>"
proof (cases "an_values a = None \<or> (\<exists>t. an_values a = Some (PurgedAt t))")
  case True
  with assms that show ?thesis by (auto simp: rows_applied table_simps split: target.splits if_splits)
next
  case False
  with assms have "r' \<in> set (run_records db)" by (auto simp: rows_applied split: option.splits row_values.splits target.splits)
  with False that(1) show ?thesis by blast
qed

interpretation run_rows: row_repair run_records "\<lambda>r. (rr_org r, rr_id r)" "run_within pre"
  "\<lambda>a k. drops a (OrgRow (fst k)) \<or> drops a (RunRow (snd k)) \<or> (an_target a = RunRow (snd k) \<and> (\<exists>t. an_values a = Some (PurgedAt t)))"
  "legal_action pre current rs" for pre current rs
proof unfold_locales
  fix a r' db assume legal: "legal_action pre current rs a" and row: "r' \<in> set (run_records (apply_action a db))"
  from row show "\<exists>r \<in> set (run_records db). (rr_org r', rr_id r') = (rr_org r, rr_id r) \<and> (run_within pre r \<or>
      drops a (OrgRow (fst (rr_org r, rr_id r))) \<or> drops a (RunRow (snd (rr_org r, rr_id r))) \<or>
      (an_target a = RunRow (snd (rr_org r, rr_id r)) \<and> (\<exists>t. an_values a = Some (PurgedAt t))) \<longrightarrow> run_within pre r')"
  proof (cases rule: run_applied)
    case (2 r t)
    with legal have "sql_first (\<lambda>x. rr_id x = rr_id r) (run_records pre) \<noteq> None" by (simp add: legal_action_def updates_def)
    then show ?thesis unfolding 2(4) by (intro bexI [OF _ 2(1)]) (auto simp: run_within_def)
  qed auto
qed (auto simp: placeholder_frame)

definition job_within :: "cdb \<Rightarrow> cdb \<Rightarrow> job \<Rightarrow> bool" where
  "job_within pre current j = (j_status j = Queued \<longrightarrow> \<not> ended_before pre (j_id j) \<and>
     (\<exists>cur \<in> set (jobs current). j_org cur = j_org j \<and> j_id cur = j_id j \<and> j_status cur = Queued))"

interpretation job_rows: row_repair jobs "\<lambda>j. (j_org j, j_id j)" "job_within pre current"
  "\<lambda>a k. drops a (OrgRow (fst k)) \<or> (an_target a = JobRow (snd k) \<and> (\<exists>t. an_values a = Some (CancelledAt t)))"
  "legal_action pre current rs" for pre current rs
proof unfold_locales
  fix a r' db assume "r' \<in> set (jobs (apply_action a db))"
  from jobs_applied [OF this]
  show "\<exists>r \<in> set (jobs db). (j_org r', j_id r') = (j_org r, j_id r) \<and> (job_within pre current r \<or>
      drops a (OrgRow (fst (j_org r, j_id r))) \<or> (an_target a = JobRow (snd (j_org r, j_id r)) \<and> (\<exists>t. an_values a = Some (CancelledAt t)))
      \<longrightarrow> job_within pre current r')"
  proof (elim disjE bexE)
    fix r0 assume r0: "r0 \<in> set (jobs db)" and "j_org r' = j_org r0 \<and> j_id r' = j_id r0 \<and> (j_status r' = Queued \<longrightarrow> j_status r0 = Queued) \<and>
        an_target a \<noteq> OrgRow (j_org r0) \<and> (an_target a = JobRow (j_id r0) \<and> (\<exists>t. an_values a = Some (CancelledAt t)) \<longrightarrow> j_status r' \<noteq> Queued)"
    then show ?thesis by (intro bexI [OF _ r0]) (auto simp: job_within_def)
  qed auto
qed (auto simp: placeholder_frame)

end
