(* ===== verification/ReconcileSafety.thy ===== *)
theory ReconcileSafety
  imports ReconcileRows
begin

text \<open>
  What a reconciliation promises: nothing taken away since the backup comes back, nobody gets more than the restored
  database gives (but for the owners the operator names), and every organization keeps an owner.
\<close>

section \<open>The plan\<close>

lemma set_actions_of [simp]: "a \<in> set (actions_of es) \<longleftrightarrow> Do a \<in> set es"
  by (force simp: actions_of_def split: plan_entry.splits)

lemma reconcile_plan_Inr:
  assumes "reconcile_plan current pre now rs = Inr (report, as)" "rc_blocked report = []"
  shows "as = actions_of (concat (map plan_resolution rs) @ plan_rows [] pre now current)"
    and "\<forall>(og, usr) \<in> set rs. og \<in> set (conflicts current pre) \<and> usr \<in> set (candidates_for current pre og)"
    and "set (conflicts current pre) \<subseteq> fst ` set rs"
proof -
  have "\<not> list_ex (\<lambda>(og, usr). og \<notin> set (conflicts current pre) \<or> usr \<notin> set (candidates_for current pre og)) rs"
    and blocked: "filter (\<lambda>og. og \<notin> fst ` set rs) (conflicts current pre) = []"
    and "as = actions_of (concat (map plan_resolution rs) @
        plan_rows (filter (\<lambda>og. og \<notin> fst ` set rs) (conflicts current pre)) pre now current)"
    using assms by (auto simp: reconcile_plan_def Let_def split: if_splits)
  then show "as = actions_of (concat (map plan_resolution rs) @ plan_rows [] pre now current)"
    "\<forall>(og, usr) \<in> set rs. og \<in> set (conflicts current pre) \<and> usr \<in> set (candidates_for current pre og)"
    unfolding blocked by (auto simp: list_ex_iff)
  show "set (conflicts current pre) \<subseteq> fst ` set rs" using blocked by (auto simp: filter_empty_conv)
qed

lemma candidate_owned:
  assumes "usr \<in> set (candidates_for current pre og)"
  obtains old m where "get_membership og usr pre = Some old" "m_role old = ''owner''" "\<not> gone_user pre usr"
    "m \<in> set (memberships current)" "m_org m = og" "m_user m = usr"
  using assms that by (auto simp: candidates_for_def owned_before_def split: option.splits)

lemma legal_act [simp]:
  "Do a \<in> set [act c t v] \<longleftrightarrow> a = \<lparr>an_category = c, an_target = t, an_values = v, an_org = [], an_path = []\<rparr>"
  by (simp add: act_def)

lemma legal_rows:
  "Do a \<in> set (plan_org pre og) \<Longrightarrow> legal_action pre current rs a"
  "Do a \<in> set (plan_user pre u) \<Longrightarrow> legal_action pre current rs a"
  "m \<in> set (memberships current) \<Longrightarrow> Do a \<in> set (plan_member pre m) \<Longrightarrow> legal_action pre current rs a"
  "Do a \<in> set (plan_invitation pre now i) \<Longrightarrow> legal_action pre current rs a"
  "Do a \<in> set (plan_key pre now k) \<Longrightarrow> legal_action pre current rs a"
  "Do a \<in> set (plan_client pre now c) \<Longrightarrow> legal_action pre current rs a"
  "Do a \<in> set (plan_grant pre now g) \<Longrightarrow> legal_action pre current rs a"
  "Do a \<in> set (plan_token pre now t) \<Longrightarrow> legal_action pre current rs a"
  "Do a \<in> set (plan_upload pre uld) \<Longrightarrow> legal_action pre current rs a"
  "Do a \<in> set (plan_run pre now r) \<Longrightarrow> legal_action pre current rs a"
  "Do a \<in> set (plan_job pre now j) \<Longrightarrow> legal_action pre current rs a"
  by (auto simp: plan_org_def plan_user_def plan_invitation_def plan_key_def plan_client_def plan_grant_def plan_token_def
      plan_upload_def plan_run_def plan_job_def act_def legal_action_def deletes_def updates_def gone_org_def gone_user_def
      split: option.splits if_splits)
    (auto simp: plan_member_def act_def legal_action_def deletes_def updates_def role_given_def intro!: bexI [of _ m] less_imp_le
      split: option.splits if_splits bool.splits)

lemma legal_webhook: "Do a \<in> set (plan_webhook pre w) \<Longrightarrow> legal_action pre current rs a"
  by (auto simp: plan_webhook_def act_def Let_def legal_action_def deletes_def updates_def old_webhook_def changed_def
      split: option.splits if_splits)

lemma legal_schedule: "Do a \<in> set (plan_schedule pre w) \<Longrightarrow> legal_action pre current rs a"
  by (auto simp: plan_schedule_def act_def Let_def legal_action_def deletes_def updates_def old_schedule_def changed_def
      split: option.splits if_splits)

lemma plan_legal:
  assumes plan: "reconcile_plan current pre now rs = Inr (report, as)" "rc_blocked report = []"
  shows "\<forall>a \<in> set as. legal_action pre current rs a"
proof
  fix a assume "a \<in> set as"
  then have "Do a \<in> set (concat (map plan_resolution rs)) \<or> Do a \<in> set (plan_rows [] pre now current)"
    unfolding reconcile_plan_Inr(1) [OF plan] by auto
  then show "legal_action pre current rs a"
  proof
    assume "Do a \<in> set (concat (map plan_resolution rs))"
    then obtain og usr where r: "(og, usr) \<in> set rs"
      and a: "a = \<lparr>an_category = ''owner_resolved'', an_target = MemberRow og usr, an_values = Some (RoleIs ''owner''), an_org = [], an_path = []\<rparr>"
      by (auto simp: plan_resolution_def act_def)
    from r reconcile_plan_Inr(2) [OF plan] have "usr \<in> set (candidates_for current pre og)" by auto
    then obtain old where "get_membership og usr pre = Some old" "m_role old = ''owner''" by (rule candidate_owned)
    with r show ?thesis by (simp add: a legal_action_def updates_def role_given_def)
  next
    assume "Do a \<in> set (plan_rows [] pre now current)"
    then show ?thesis
      unfolding plan_rows_def set_append Un_iff set_concat set_map UN_iff image_iff open_rows_def
      by (elim disjE bexE) (auto intro: legal_rows legal_webhook legal_schedule)
  qed
qed

text \<open>Every row is looked at, or its organization is deleted.\<close>

lemma covered:
  assumes row: "r \<in> set rows" and part: "set (concat (map f (open_rows [] pre current org rows))) \<subseteq> set es"
    and gone: "set (concat (map (plan_org pre) (orgs current))) \<subseteq> set es"
  obtains a where "Do a \<in> set es" "drops a (OrgRow (org r))" | "set (f r) \<subseteq> set es"
proof (cases "passed_over [] pre current (org r)")
  case True
  then obtain og where og: "og \<in> set (orgs current)" "o_id og = org r" "gone_org pre (o_id og)" by (auto simp: passed_over_def)
  then have "Do \<lparr>an_category = ''org_deleted'', an_target = OrgRow (o_id og), an_values = None, an_org = o_id og, an_path = []\<rparr> \<in> set (plan_org pre og)"
    by (simp add: plan_org_def gone_org_def)
  with gone og(1) have "Do \<lparr>an_category = ''org_deleted'', an_target = OrgRow (o_id og), an_values = None, an_org = o_id og, an_path = []\<rparr> \<in> set es"
    by auto
  then show ?thesis by (rule that(1)) (simp add: og(2))
next
  case False
  with row part have "set (f r) \<subseteq> set es" by (auto simp: open_rows_def)
  then show ?thesis by (rule that(2))
qed


text \<open>The rows of a table on which something is to be done, and what the plan does with them.\<close>

lemma plan_rows_parts:
  "set (concat (map (plan_org pre) (orgs current))) \<subseteq> set (plan_rows [] pre now current)"
  "set (concat (map (plan_user pre) (users current))) \<subseteq> set (plan_rows [] pre now current)"
  "set (concat (map (plan_member pre) (open_rows [] pre current m_org (memberships current)))) \<subseteq> set (plan_rows [] pre now current)"
  "set (concat (map (plan_invitation pre now) (open_rows [] pre current i_org (invitations current)))) \<subseteq> set (plan_rows [] pre now current)"
  "set (concat (map (plan_key pre now) (open_rows [] pre current k_org (api_keys current)))) \<subseteq> set (plan_rows [] pre now current)"
  "set (concat (map (plan_client pre now) (oauth_clients current))) \<subseteq> set (plan_rows [] pre now current)"
  "set (concat (map (plan_grant pre now) (open_rows [] pre current g_org (oauth_grants current)))) \<subseteq> set (plan_rows [] pre now current)"
  "set (concat (map (plan_token pre now) (open_rows [] pre current t_org (oauth_tokens current)))) \<subseteq> set (plan_rows [] pre now current)"
  "set (concat (map (plan_webhook pre) (open_rows [] pre current w_org (webhooks current)))) \<subseteq> set (plan_rows [] pre now current)"
  "set (concat (map (plan_schedule pre) (open_rows [] pre current os_org (org_schedules current)))) \<subseteq> set (plan_rows [] pre now current)"
  "set (concat (map (plan_upload pre) (open_rows [] pre current up_org (uploads current)))) \<subseteq> set (plan_rows [] pre now current)"
  "set (concat (map (plan_run pre now) (open_rows [] pre current rr_org (run_records current)))) \<subseteq> set (plan_rows [] pre now current)"
  "set (concat (map (plan_job pre now) (open_rows [] pre current j_org (jobs current)))) \<subseteq> set (plan_rows [] pre now current)"
  unfolding plan_rows_def by (simp_all add: le_supI1 le_supI2)

text \<open>A finished run of a plan.\<close>

definition reconciled :: "cdb \<Rightarrow> cdb \<Rightarrow> stamp \<Rightarrow> (ident \<times> ident) list \<Rightarrow> action list \<Rightarrow> cdb \<Rightarrow> bool" where
  "reconciled pre current now rs as db =
     ((\<exists>fresh ev. bind_res (prepare_actions fresh 0 as current) (apply_actions ev now (in_order as)) = Inr db) \<and>
      (\<forall>a \<in> set as. legal_action pre current rs a) \<and> (\<forall>a. Do a \<in> set (plan_rows [] pre now current) \<longrightarrow> a \<in> set as))"

lemma reconciledE:
  assumes "reconciled pre current now rs as db"
  obtains fresh ev where "bind_res (prepare_actions fresh 0 as current) (apply_actions ev now (in_order as)) = Inr db"
    "\<forall>a \<in> set as. legal_action pre current rs a" "\<And>a. Do a \<in> set (plan_rows [] pre now current) \<Longrightarrow> a \<in> set as"
  using assms by (auto simp: reconciled_def)

lemma reconciled_covers:
  assumes rec: "reconciled pre current now rs as db" and row: "r \<in> set rows"
    and part: "set (concat (map f (open_rows [] pre current org rows))) \<subseteq> set (plan_rows [] pre now current)"
  shows "(\<exists>a \<in> set as. drops a (OrgRow (org r))) \<or> (\<forall>a. Do a \<in> set (f r) \<longrightarrow> a \<in> set as)"
proof (rule covered [OF row part plan_rows_parts(1)])
  fix a assume "Do a \<in> set (plan_rows [] pre now current)" "drops a (OrgRow (org r))"
  with rec show ?thesis by (auto simp: reconciled_def)
next
  assume "set (f r) \<subseteq> set (plan_rows [] pre now current)"
  with rec show ?thesis by (auto simp: reconciled_def)
qed

lemma act_in: "act c t v \<in> set es \<Longrightarrow> \<forall>a. Do a \<in> set es \<longrightarrow> a \<in> set as \<Longrightarrow>
    \<exists>a \<in> set as. an_target a = t \<and> an_values a = v"
  by (force simp: act_def)

lemma orgs_reconciled:
  assumes rec: "reconciled pre current now rs as db"
  shows "\<forall>og \<in> set (orgs db). og \<in> set (orgs current) \<and> \<not> gone_org pre (o_id og)"
proof (rule reconciledE [OF rec], rule org_rows.repaired [where pre = pre and current = current and rs = rs], assumption, assumption)
  fix og assume og: "og \<in> set (orgs current)"
  have "\<exists>a \<in> set as. drops a (OrgRow (o_id og))" if gone: "gone_org pre (o_id og)"
  proof -
    let ?a = "\<lparr>an_category = ''org_deleted'', an_target = OrgRow (o_id og), an_values = None, an_org = o_id og, an_path = []\<rparr>"
    have "Do ?a \<in> set (plan_org pre og)" using gone by (simp add: plan_org_def gone_org_def)
    with og have "Do ?a \<in> set (concat (map (plan_org pre) (orgs current)))" by auto
    with plan_rows_parts(1) rec have "?a \<in> set as" unfolding reconciled_def by blast
    then show ?thesis by (rule rev_bexI) simp
  qed
  with og show "og \<in> set (orgs current) \<and> \<not> gone_org pre (o_id og) \<or> (\<exists>a \<in> set as. drops a (OrgRow (o_id og)))" by blast
qed

lemma users_reconciled:
  assumes rec: "reconciled pre current now rs as db"
  shows "\<forall>u \<in> set (users db). same_user pre u"
proof (rule reconciledE [OF rec], rule user_rows.repaired [where pre = pre and current = current and rs = rs], assumption, assumption)
  fix u assume u: "u \<in> set (users current)"
  then have sub: "\<forall>a. Do a \<in> set (plan_user pre u) \<longrightarrow> a \<in> set as"
    using plan_rows_parts(2) [of pre current now] rec unfolding reconciled_def by auto
  show "same_user pre u \<or> (\<exists>a \<in> set as. an_target a = UserRow (u_id u) \<and> (an_values a = None \<or> (\<exists>e. an_values a = Some (EmailIs e))))"
  proof (cases "get_user (u_id u) pre")
    case None
    then show ?thesis using act_in [OF _ sub, of "''user_deleted''" "UserRow (u_id u)" None] by (auto simp: plan_user_def)
  next
    case (Some old)
    then show ?thesis using act_in [OF _ sub, of "''email_updated''" "UserRow (u_id u)" "Some (EmailIs (u_email old))"]
      by (fastforce simp: plan_user_def same_user_def)
  qed
qed

lemma members_reconciled:
  assumes rec: "reconciled pre current now rs as db"
  shows "\<forall>m \<in> set (memberships db). member_within pre current rs m"
proof (rule reconciledE [OF rec], rule member_rows.repaired [where pre = pre and current = current and rs = rs], assumption, assumption)
  fix m assume m: "m \<in> set (memberships current)"
  from reconciled_covers [OF rec m plan_rows_parts(3)]
  show "member_within pre current rs m \<or> (\<exists>a \<in> set as. member_cured pre a (m_org m, m_user m))"
  proof
    assume sub: "\<forall>a. Do a \<in> set (plan_member pre m) \<longrightarrow> a \<in> set as"
    show ?thesis
    proof (cases "\<exists>old. get_membership (m_org m) (m_user m) pre = Some old \<and> \<not> gone_user pre (m_user m)")
      case True
      then obtain old where old: "get_membership (m_org m) (m_user m) pre = Some old" "\<not> gone_user pre (m_user m)" by blast
      with m show ?thesis
        using act_in [OF _ sub, of "''member_demoted''" "MemberRow (m_org m) (m_user m)" "Some (RoleIs (m_role old))"]
        by (fastforce simp: plan_member_def member_within_def member_cured_def)
    next
      case False
      then show ?thesis using act_in [OF _ sub, of "''member_removed''" "MemberRow (m_org m) (m_user m)" None]
        by (fastforce simp: plan_member_def member_cured_def split: bool.splits option.splits)
    qed
  qed (auto simp: member_cured_def)
qed

lemma invitations_reconciled:
  assumes rec: "reconciled pre current now rs as db"
  shows "\<forall>i \<in> set (invitations db). invitation_open pre current now i"
proof (rule reconciledE [OF rec], rule invitation_rows.repaired [where pre = pre and current = current and rs = rs], assumption, assumption)
  fix i assume i: "i \<in> set (invitations current)"
  from reconciled_covers [OF rec i plan_rows_parts(4)]
  show "invitation_open pre current now i \<or>
      (\<exists>a \<in> set as. drops a (OrgRow (fst (i_org i, i_id i))) \<or> drops a (InvitationRow (snd (i_org i, i_id i))))"
  proof
    assume sub: "\<forall>a. Do a \<in> set (plan_invitation pre now i) \<longrightarrow> a \<in> set as"
    from i show ?thesis using act_in [OF _ sub, of "''invitation_deleted''" "InvitationRow (i_id i)" None]
      by (fastforce simp: plan_invitation_def invitation_open_def split: option.splits if_splits)
  qed auto
qed

lemma keys_reconciled:
  assumes rec: "reconciled pre current now rs as db"
  shows "\<forall>k \<in> set (api_keys db). key_within pre current k"
proof (rule reconciledE [OF rec], rule key_rows.repaired [where pre = pre and current = current and rs = rs], assumption, assumption)
  fix k assume k: "k \<in> set (api_keys current)"
  from reconciled_covers [OF rec k plan_rows_parts(5)]
  show "key_within pre current k \<or>
      (\<exists>a \<in> set as. drops a (OrgRow (fst (k_org k, k_id k))) \<or> revokes a (ApiKeyRow (snd (k_org k, k_id k))))"
  proof
    assume sub: "\<forall>a. Do a \<in> set (plan_key pre now k) \<longrightarrow> a \<in> set as"
    from k show ?thesis using act_in [OF _ sub, of "''key_revoked''" "ApiKeyRow (k_id k)" "Some (RevokedAt now)"]
      by (fastforce simp: plan_key_def key_within_def)
  qed auto
qed

lemma grants_reconciled:
  assumes rec: "reconciled pre current now rs as db"
  shows "\<forall>g \<in> set (oauth_grants db). grant_within pre current g"
proof (rule reconciledE [OF rec], rule grant_rows.repaired [where pre = pre and current = current and rs = rs], assumption, assumption)
  fix g assume g: "g \<in> set (oauth_grants current)"
  from reconciled_covers [OF rec g plan_rows_parts(7)]
  show "grant_within pre current g \<or>
      (\<exists>a \<in> set as. drops a (OrgRow (fst (g_org g, g_id g))) \<or> revokes a (GrantRow (snd (g_org g, g_id g))))"
  proof
    assume sub: "\<forall>a. Do a \<in> set (plan_grant pre now g) \<longrightarrow> a \<in> set as"
    from g show ?thesis using act_in [OF _ sub, of "''grant_revoked''" "GrantRow (g_id g)" "Some (RevokedAt now)"]
      by (fastforce simp: plan_grant_def grant_within_def)
  qed auto
qed

lemma tokens_reconciled:
  assumes rec: "reconciled pre current now rs as db"
  shows "\<forall>t \<in> set (oauth_tokens db). token_within pre current t"
proof (rule reconciledE [OF rec], rule token_rows.repaired [where pre = pre and current = current and rs = rs], assumption, assumption)
  fix t assume t: "t \<in> set (oauth_tokens current)"
  from reconciled_covers [OF rec t plan_rows_parts(8)]
  show "token_within pre current t \<or>
      (\<exists>a \<in> set as. drops a (OrgRow (fst (t_org t, t_id t))) \<or> revokes a (TokenRow (snd (t_org t, t_id t))))"
  proof
    assume sub: "\<forall>a. Do a \<in> set (plan_token pre now t) \<longrightarrow> a \<in> set as"
    from t show ?thesis using act_in [OF _ sub, of "''token_revoked''" "TokenRow (t_id t)" "Some (RevokedAt now)"]
      by (fastforce simp: plan_token_def token_within_def split: option.splits)
  qed auto
qed

lemma clients_reconciled:
  assumes rec: "reconciled pre current now rs as db"
  shows "\<forall>c \<in> set (oauth_clients db). client_within pre current c"
proof (rule reconciledE [OF rec], rule client_rows.repaired [where pre = pre and current = current and rs = rs], assumption, assumption)
  fix c assume c: "c \<in> set (oauth_clients current)"
  then have sub: "\<forall>a. Do a \<in> set (plan_client pre now c) \<longrightarrow> a \<in> set as"
    using plan_rows_parts(6) [of pre now current] rec unfolding reconciled_def by auto
  from c show "client_within pre current c \<or> (\<exists>a \<in> set as. revokes a (ClientRow (oc_id c)))"
    using act_in [OF _ sub, of "''client_revoked''" "ClientRow (oc_id c)" "Some (RevokedAt now)"]
    by (fastforce simp: plan_client_def client_within_def)
qed

text \<open>What the plan has for a webhook: it goes, or each of its attributes is as before or set.\<close>

lemma webhook_planned:
  assumes rec: "reconciled pre current now rs as db" and w: "w \<in> set (webhooks current)"
  obtains a where "a \<in> set as" "drops a (OrgRow (w_org w)) \<or> drops a (WebhookRow (w_id w))"
  | old where "old_webhook pre (w_id w) = Some old" "w_url w = w_url old" "w_events w = w_events old" "w_active w \<longrightarrow> w_active old"
  | old a where "old_webhook pre (w_id w) = Some old" "a \<in> set as" "an_target a = WebhookRow (w_id w)"
      "an_values a = Some (WebhookIs (changed (w_url w) (w_url old)) (changed (w_events w) (w_events old)) (w_active w \<and> \<not> w_active old))"
  using reconciled_covers [OF rec w plan_rows_parts(9)]
proof
  assume sub: "\<forall>a. Do a \<in> set (plan_webhook pre w) \<longrightarrow> a \<in> set as"
  show ?thesis
  proof (cases "old_webhook pre (w_id w)")
    case None
    then have "act ''webhook_deleted'' (WebhookRow (w_id w)) None \<in> set (plan_webhook pre w)"
      by (simp add: plan_webhook_def old_webhook_def)
    from act_in [OF this sub] that(1) show ?thesis by blast
  next
    case (Some old)
    let ?v = "WebhookIs (changed (w_url w) (w_url old)) (changed (w_events w) (w_events old)) (w_active w \<and> \<not> w_active old)"
    show ?thesis
    proof (cases "?v = WebhookIs None None False")
      case True
      then show ?thesis by (intro that(2) [OF Some]) (auto simp: changed_def split: if_splits)
    next
      case False
      with Some have "act ''webhook_updated'' (WebhookRow (w_id w)) (Some ?v) \<in> set (plan_webhook pre w)"
        by (simp add: plan_webhook_def old_webhook_def)
      from act_in [OF this sub] Some that(3) show ?thesis by blast
    qed
  qed
qed (use that(1) in blast)

lemma changed_cases: "changed x y = Some y \<or> x = y"
  by (simp add: changed_def)

lemma webhooks_reconciled:
  assumes rec: "reconciled pre current now rs as db"
  shows "\<forall>w \<in> set (webhooks db). webhook_active_within pre current w" "\<forall>w \<in> set (webhooks db). webhook_url_same pre w"
    "\<forall>w \<in> set (webhooks db). webhook_events_same pre w"
proof -
  show "\<forall>w \<in> set (webhooks db). webhook_active_within pre current w"
  proof (rule reconciledE [OF rec], rule webhook_active.repaired [where pre = pre and current = current and rs = rs], assumption, assumption)
    fix w assume w: "w \<in> set (webhooks current)"
    show "webhook_active_within pre current w \<or> (\<exists>a \<in> set as. webhook_set (\<lambda>u e off. off) a (w_org w, w_id w))"
    proof (cases rule: webhook_planned [OF rec w])
      case (3 old a)
      then show ?thesis using w by (cases "w_active w \<and> \<not> w_active old") (auto simp: webhook_active_within_def)
    qed (use w in \<open>auto simp: webhook_active_within_def\<close>)
  qed
  show "\<forall>w \<in> set (webhooks db). webhook_url_same pre w"
  proof (rule reconciledE [OF rec], rule webhook_url.repaired [where pre = pre and current = current and rs = rs], assumption, assumption)
    fix w assume w: "w \<in> set (webhooks current)"
    show "webhook_url_same pre w \<or> (\<exists>a \<in> set as. webhook_set (\<lambda>u e off. u \<noteq> None) a (w_org w, w_id w))"
    proof (cases rule: webhook_planned [OF rec w])
      case (3 old a)
      then show ?thesis using changed_cases [of "w_url w" "w_url old"] by (auto simp: webhook_url_same_def)
    qed (auto simp: webhook_url_same_def)
  qed
  show "\<forall>w \<in> set (webhooks db). webhook_events_same pre w"
  proof (rule reconciledE [OF rec], rule webhook_events.repaired [where pre = pre and current = current and rs = rs], assumption, assumption)
    fix w assume w: "w \<in> set (webhooks current)"
    show "webhook_events_same pre w \<or> (\<exists>a \<in> set as. webhook_set (\<lambda>u e off. e \<noteq> None) a (w_org w, w_id w))"
    proof (cases rule: webhook_planned [OF rec w])
      case (3 old a)
      then show ?thesis using changed_cases [of "w_events w" "w_events old"] by (auto simp: webhook_events_same_def)
    qed (auto simp: webhook_events_same_def)
  qed
qed

lemma schedule_planned:
  assumes rec: "reconciled pre current now rs as db" and s: "s \<in> set (org_schedules current)"
  obtains a where "a \<in> set as" "drops a (OrgRow (os_org s)) \<or> drops a (ScheduleRow (os_org s))"
  | old where "old_schedule pre (os_org s) = Some old" "os_webhook_url s = os_webhook_url old" "\<And>f. flag_of f s \<longrightarrow> flag_of f old"
  | old a where "old_schedule pre (os_org s) = Some old" "a \<in> set as" "an_target a = ScheduleRow (os_org s)"
      "an_values a = Some (ScheduleIs (os_reminder_enabled s \<and> \<not> os_reminder_enabled old)
         (os_notify_on_finish s \<and> \<not> os_notify_on_finish old) (os_auto_run s \<and> \<not> os_auto_run old)
         (changed (os_webhook_url s) (os_webhook_url old)))"
  using reconciled_covers [OF rec s plan_rows_parts(10)]
proof
  assume sub: "\<forall>a. Do a \<in> set (plan_schedule pre s) \<longrightarrow> a \<in> set as"
  show ?thesis
  proof (cases "old_schedule pre (os_org s)")
    case None
    then have "act ''schedule_deleted'' (ScheduleRow (os_org s)) None \<in> set (plan_schedule pre s)"
      by (simp add: plan_schedule_def old_schedule_def)
    from act_in [OF this sub] that(1) show ?thesis by blast
  next
    case (Some old)
    let ?v = "ScheduleIs (os_reminder_enabled s \<and> \<not> os_reminder_enabled old)
         (os_notify_on_finish s \<and> \<not> os_notify_on_finish old) (os_auto_run s \<and> \<not> os_auto_run old)
         (changed (os_webhook_url s) (os_webhook_url old))"
    show ?thesis
    proof (cases "?v = ScheduleIs False False False None")
      case True
      then show ?thesis by (intro that(2) [OF Some]) (auto simp: changed_def flag_of_def split: if_splits sched_flag.splits)
    next
      case False
      with Some have "act ''schedule_updated'' (ScheduleRow (os_org s)) (Some ?v) \<in> set (plan_schedule pre s)"
        by (auto simp: plan_schedule_def old_schedule_def Let_def)
      from act_in [OF this sub] Some that(3) show ?thesis by blast
    qed
  qed
qed (use that(1) in blast)

lemma schedules_reconciled:
  assumes rec: "reconciled pre current now rs as db"
  shows "\<forall>s \<in> set (org_schedules db). schedule_within pre current f s" "\<forall>s \<in> set (org_schedules db). schedule_url_same pre s"
proof -
  show "\<forall>s \<in> set (org_schedules db). schedule_within pre current f s"
  proof (rule reconciledE [OF rec], rule schedule_flag.repaired [where pre = pre and current = current and rs = rs and f = f], assumption, assumption)
    fix s assume s: "s \<in> set (org_schedules current)"
    show "schedule_within pre current f s \<or> (\<exists>a \<in> set as. schedule_set (\<lambda>r n x u. clears f r n x) a (os_org s))"
    proof (cases rule: schedule_planned [OF rec s])
      case (3 old a)
      let ?clear = "clears f (os_reminder_enabled s \<and> \<not> os_reminder_enabled old)
          (os_notify_on_finish s \<and> \<not> os_notify_on_finish old) (os_auto_run s \<and> \<not> os_auto_run old)"
      have "?clear = (flag_of f s \<and> \<not> flag_of f old)" by (simp add: clears_def flag_of_def split: sched_flag.split)
      with 3 s show ?thesis by (cases ?clear) (auto simp: schedule_within_def)
    qed (use s in \<open>auto simp: schedule_within_def\<close>)
  qed
  show "\<forall>s \<in> set (org_schedules db). schedule_url_same pre s"
  proof (rule reconciledE [OF rec], rule schedule_url.repaired [where pre = pre and current = current and rs = rs], assumption, assumption)
    fix s assume s: "s \<in> set (org_schedules current)"
    show "schedule_url_same pre s \<or> (\<exists>a \<in> set as. schedule_set (\<lambda>r n x u. u \<noteq> None) a (os_org s))"
    proof (cases rule: schedule_planned [OF rec s])
      case (3 old a)
      then show ?thesis using changed_cases [of "os_webhook_url s" "os_webhook_url old"] by (auto simp: schedule_url_same_def)
    qed (auto simp: schedule_url_same_def)
  qed
qed

lemma uploads_reconciled:
  assumes rec: "reconciled pre current now rs as db"
  shows "\<forall>u \<in> set (uploads db). upload_within pre current u"
proof (rule reconciledE [OF rec], rule upload_rows.repaired [where pre = pre and current = current and rs = rs], assumption, assumption)
  fix u assume u: "u \<in> set (uploads current)"
  from reconciled_covers [OF rec u plan_rows_parts(11)]
  show "upload_within pre current u \<or>
      (\<exists>a \<in> set as. drops a (OrgRow (fst (up_org u, up_id u))) \<or> drops a (UploadRow (snd (up_org u, up_id u))))"
  proof
    assume sub: "\<forall>a. Do a \<in> set (plan_upload pre u) \<longrightarrow> a \<in> set as"
    let ?a = "\<lparr>an_category = ''upload_deleted'', an_target = UploadRow (up_id u), an_values = None, an_org = up_org u, an_path = up_path u\<rparr>"
    have "?a \<in> set as" if "get_upload (up_id u) pre = None" using sub that by (simp add: plan_upload_def)
    then have "\<exists>a \<in> set as. drops a (UploadRow (up_id u))" if "get_upload (up_id u) pre = None" using that by (intro bexI [of _ ?a]) simp_all
    with u show ?thesis by (auto simp: upload_within_def)
  qed auto
qed

lemma runs_reconciled:
  assumes rec: "reconciled pre current now rs as db"
  shows "\<forall>r \<in> set (run_records db). run_within pre r"
proof (rule reconciledE [OF rec], rule run_rows.repaired [where pre = pre and current = current and rs = rs], assumption, assumption)
  fix r assume r: "r \<in> set (run_records current)"
  let ?cured = "\<lambda>a k. drops a (OrgRow (fst k)) \<or> drops a (RunRow (snd k)) \<or> (an_target a = RunRow (snd k) \<and> (\<exists>t. an_values a = Some (PurgedAt t)))"
  from reconciled_covers [OF rec r plan_rows_parts(12)]
  show "run_within pre r \<or> (\<exists>a \<in> set as. ?cured a (rr_org r, rr_id r))"
  proof
    assume sub: "\<forall>a. Do a \<in> set (plan_run pre now r) \<longrightarrow> a \<in> set as"
    let ?a = "\<lambda>c v. \<lparr>an_category = c, an_target = RunRow (rr_id r), an_values = v, an_org = rr_org r, an_path = []\<rparr>"
    show ?thesis
    proof (cases "run_within pre r")
      case False
      then have "Do (?a ''run_deleted'' None) \<in> set (plan_run pre now r) \<or> Do (?a ''report_purged'' (Some (PurgedAt now))) \<in> set (plan_run pre now r)"
        by (auto simp: plan_run_def run_within_def split: option.splits)
      with sub have "?a ''run_deleted'' None \<in> set as \<or> ?a ''report_purged'' (Some (PurgedAt now)) \<in> set as" by blast
      then show ?thesis by (elim disjE) (rule disjI2, erule rev_bexI, simp)+
    qed simp
  qed auto
qed

lemma jobs_reconciled:
  assumes rec: "reconciled pre current now rs as db"
  shows "\<forall>j \<in> set (jobs db). job_within pre current j"
proof (rule reconciledE [OF rec], rule job_rows.repaired [where pre = pre and current = current and rs = rs], assumption, assumption)
  fix j assume j: "j \<in> set (jobs current)"
  from reconciled_covers [OF rec j plan_rows_parts(13)]
  show "job_within pre current j \<or> (\<exists>a \<in> set as. drops a (OrgRow (fst (j_org j, j_id j))) \<or>
      (an_target a = JobRow (snd (j_org j, j_id j)) \<and> (\<exists>t. an_values a = Some (CancelledAt t))))"
  proof
    assume sub: "\<forall>a. Do a \<in> set (plan_job pre now j) \<longrightarrow> a \<in> set as"
    from j show ?thesis using act_in [OF _ sub, of "''job_cancelled''" "JobRow (j_id j)" "Some (CancelledAt now)"]
      by (fastforce simp: plan_job_def job_within_def)
  qed auto
qed

section \<open>Owners\<close>

text \<open>An owner from before stays a member, and its role is only ever set to the one it had.\<close>

lemma owner_stays:
  assumes legal: "legal_action pre current rs a" and m: "m \<in> set (memberships db)" "m_org m = og" "m_user m = usr"
    and kept: "\<not> gone_org pre og" "\<not> gone_user pre usr" and old: "get_membership og usr pre = Some old" "m_role old = ''owner''"
  shows "\<exists>m' \<in> set (memberships (apply_action a db)). m_org m' = og \<and> m_user m' = usr \<and>
    (m_role m = ''owner'' \<or> (an_target a = MemberRow og usr \<and> an_values a = Some (RoleIs ''owner'')) \<longrightarrow> m_role m' = ''owner'')"
proof (cases "\<exists>x. an_values a = Some (RoleIs x) \<and> an_target a = MemberRow og usr")
  case True
  then obtain x where x: "an_values a = Some (RoleIs x)" "an_target a = MemberRow og usr" by blast
  with legal old have "x = ''owner''" by (auto simp: legal_action_def updates_def role_given_def)
  with x m have "m\<lparr>m_role := ''owner''\<rparr> \<in> set (memberships (apply_action a db))" by (force simp: rows_applied sql_update_def)
  with m show ?thesis by (intro bexI [of _ "m\<lparr>m_role := ''owner''\<rparr>"]) simp_all
next
  case False
  with legal kept old m have "m \<in> set (memberships (apply_action a db))"
    by (auto simp: rows_applied legal_action_def deletes_def table_simps split: option.splits row_values.splits target.splits)
  with m False show ?thesis by blast
qed

lemma prepare_memberships: "prepare_actions fresh n as db = Inr db' \<Longrightarrow> memberships db' = memberships db"
proof (induction as arbitrary: n db)
  case (Cons a as)
  from Cons.prems show ?case
    by (cases rule: prepare_actions_Cons) (auto dest: Cons.IH simp: placeholder_frame)
qed simp

lemma owner_applied:
  assumes kept: "\<not> gone_org pre og" "\<not> gone_user pre usr" and old: "get_membership og usr pre = Some old" "m_role old = ''owner''"
  shows "apply_actions ev now as db = Inr db' \<Longrightarrow> \<forall>a \<in> set as. legal_action pre current rs a \<Longrightarrow> m \<in> set (memberships db) \<Longrightarrow>
    m_org m = og \<Longrightarrow> m_user m = usr \<Longrightarrow>
    m_role m = ''owner'' \<or> (\<exists>a \<in> set as. an_target a = MemberRow og usr \<and> an_values a = Some (RoleIs ''owner'')) \<Longrightarrow>
    \<exists>m' \<in> set (memberships db'). m_org m' = og \<and> m_role m' = ''owner''"
proof (induction as arbitrary: db m)
  case Nil
  then show ?case by auto
next
  case (Cons a as)
  obtain ae where rest: "apply_actions ev now as ((apply_action a db)\<lparr>audit_events := ae\<rparr>) = Inr db'"
    by (rule apply_actions_Cons [OF Cons.prems(1)])
  from Cons.prems(2) have "legal_action pre current rs a" by simp
  from owner_stays [OF this Cons.prems(3,4,5) kept old] obtain m' where m': "m' \<in> set (memberships (apply_action a db))"
    "m_org m' = og" "m_user m' = usr"
    and role: "m_role m = ''owner'' \<or> (an_target a = MemberRow og usr \<and> an_values a = Some (RoleIs ''owner'')) \<longrightarrow> m_role m' = ''owner''" by blast
  show ?case
    by (rule Cons.IH [OF rest _ _ m'(2,3)]) (use Cons.prems(2,6) m'(1) role in auto)
qed

lemma owners_reconciled:
  assumes plan: "reconcile_plan current pre now rs = Inr (report, as)" "rc_blocked report = []"
    and run: "bind_res (prepare_actions fresh 0 as current) (apply_actions ev now (in_order as)) = Inr db"
    and og: "og \<in> set (orgs current)" "\<not> gone_org pre (o_id og)"
  shows "\<exists>m \<in> set (memberships db). m_org m = o_id og \<and> m_role m = ''owner''"
proof -
  from run obtain db1 where prep: "prepare_actions fresh 0 as current = Inr db1"
    and app: "apply_actions ev now (in_order as) db1 = Inr db" by (auto simp: bind_res_Inr)
  have legal: "\<forall>a \<in> set (in_order as). legal_action pre current rs a" using plan_legal [OF plan] by simp
  show ?thesis
  proof (cases "list_ex (retained_owner pre (o_id og)) (memberships current)")
    case True
    then obtain m old where m: "m \<in> set (memberships db1)" "m_org m = o_id og" "\<not> gone_user pre (m_user m)" "m_role m = ''owner''"
      and old: "get_membership (o_id og) (m_user m) pre = Some old" "m_role old = ''owner''"
      by (auto simp: list_ex_iff retained_owner_def owned_before_def prepare_memberships [OF prep] split: option.splits)
    show ?thesis by (rule owner_applied [OF og(2) m(3) old app legal m(1,2) refl]) (use m(4) in simp)
  next
    case False
    with og have "o_id og \<in> set (conflicts current pre)" by (auto simp: conflicts_def)
    with reconcile_plan_Inr(3) [OF plan] obtain usr where rs: "(o_id og, usr) \<in> set rs" by auto
    with reconcile_plan_Inr(2) [OF plan] have "usr \<in> set (candidates_for current pre (o_id og))" by auto
    then obtain old m where old: "get_membership (o_id og) usr pre = Some old" "m_role old = ''owner''" "\<not> gone_user pre usr"
      and m: "m \<in> set (memberships current)" "m_org m = o_id og" "m_user m = usr" by (rule candidate_owned)
    have m1: "m \<in> set (memberships db1)" using m(1) by (simp add: prepare_memberships [OF prep])
    have "\<exists>a \<in> set as. an_target a = MemberRow (o_id og) usr \<and> an_values a = Some (RoleIs ''owner'')"
      using rs unfolding reconcile_plan_Inr(1) [OF plan]
      by (intro bexI [of _ "\<lparr>an_category = ''owner_resolved'', an_target = MemberRow (o_id og) usr, an_values = Some (RoleIs ''owner''),
          an_org = [], an_path = []\<rparr>"]) (force simp: plan_resolution_def act_def)+
    then show ?thesis by (intro owner_applied [OF og(2) old(3) old(1,2) app legal m1 m(2,3)]) simp
  qed
qed

section \<open>The command\<close>

lemma reconcile_txn_Inr:
  assumes "reconcile_txn env now True rs pre current = (Inr (report, as), db)" "rc_blocked report = []"
  obtains report0 where "reconcile_plan current pre now rs = Inr (report0, as)" "rc_blocked report0 = []"
    "bind_res (prepare_actions (re_fresh env) 0 as current) (apply_actions (re_event env) now (in_order as)) = Inr db"
  using assms by (auto simp: reconcile_txn_def split: if_splits sum.splits prod.splits option.splits)

text \<open>C23. An applied reconciliation gives nobody more than both databases do. Every organization and user of the result
  was there before the restore, users with the address they had; a membership gives at most the role of before and at
  most the restored one (but for owners the operator named); keys, clients, grants and tokens that are not revoked
  are restored ones that were not revoked before, with their client and grant; invitations were open; webhooks and
  schedules are active only if they were, with the addresses they had; uploads and runs were there and files purged
  stay marked; queued jobs had not ended; and every organization has an owner.\<close>

theorem reconciliation_gives_nothing_back:
  assumes txn: "reconcile_txn env now True rs pre current = (Inr (report, as), db)" and ok: "rc_blocked report = []"
  shows "(\<forall>og \<in> set (orgs db). og \<in> set (orgs current) \<and> \<not> gone_org pre (o_id og) \<and>
        (\<exists>m \<in> set (memberships db). m_org m = o_id og \<and> m_role m = ''owner'')) \<and>
     (\<forall>u \<in> set (users db). same_user pre u) \<and>
     (\<forall>m \<in> set (memberships db). member_within pre current rs m) \<and>
     (\<forall>k \<in> set (api_keys db). key_within pre current k) \<and>
     (\<forall>c \<in> set (oauth_clients db). client_within pre current c) \<and>
     (\<forall>g \<in> set (oauth_grants db). grant_within pre current g) \<and>
     (\<forall>t \<in> set (oauth_tokens db). token_within pre current t) \<and>
     (\<forall>i \<in> set (invitations db). invitation_open pre current now i) \<and>
     (\<forall>w \<in> set (webhooks db). webhook_active_within pre current w \<and> webhook_url_same pre w \<and> webhook_events_same pre w) \<and>
     (\<forall>s \<in> set (org_schedules db). \<forall>f. schedule_within pre current f s \<and> schedule_url_same pre s) \<and>
     (\<forall>u \<in> set (uploads db). upload_within pre current u) \<and>
     (\<forall>r \<in> set (run_records db). run_within pre r) \<and>
     (\<forall>j \<in> set (jobs db). job_within pre current j)"
proof -
  obtain report0 where plan: "reconcile_plan current pre now rs = Inr (report0, as)" "rc_blocked report0 = []"
    and run: "bind_res (prepare_actions (re_fresh env) 0 as current) (apply_actions (re_event env) now (in_order as)) = Inr db"
    by (rule reconcile_txn_Inr [OF txn ok])
  have rec: "reconciled pre current now rs as db"
    unfolding reconciled_def using run plan_legal [OF plan] by (auto simp: reconcile_plan_Inr(1) [OF plan])
  note orgs = orgs_reconciled [OF rec]
  have "\<forall>og \<in> set (orgs db). \<exists>m \<in> set (memberships db). m_org m = o_id og \<and> m_role m = ''owner''"
    using owners_reconciled [OF plan run] orgs by blast
  with orgs show ?thesis
    using users_reconciled [OF rec] members_reconciled [OF rec] keys_reconciled [OF rec] clients_reconciled [OF rec]
      grants_reconciled [OF rec] tokens_reconciled [OF rec] invitations_reconciled [OF rec] webhooks_reconciled [OF rec]
      schedules_reconciled [OF rec] uploads_reconciled [OF rec] runs_reconciled [OF rec] jobs_reconciled [OF rec] by simp
qed

section \<open>Example\<close>

text \<open>The backup still has a member removed since and a key revoked since; a second organization was created later
  and deleted again.\<close>

definition lost_user :: "ident \<Rightarrow> user" where
  "lost_user k = \<lparr>u_id = k, u_email = k @ ''@example.com'', u_name = None, u_locale = ''pl'', u_created_at = 0\<rparr>"

definition lost_org :: "ident \<Rightarrow> org" where
  "lost_org k = \<lparr>o_id = k, o_slug = k, o_name = k, o_plan = ''free'', o_dpa_accepted_at = None, o_dpa_version = None, o_locale = ''pl'',
     o_retention_days = 30, o_llm_narrative = False, o_created_at = 0\<rparr>"

definition lost_key :: "stamp option \<Rightarrow> api_key" where
  "lost_key revoked = \<lparr>k_id = ''k'', k_org = ''a'', k_name = ''k'', k_prefix = ''p'', k_hash = ''h'', k_scopes = [''runs:read''],
     k_created_by = None, k_created_at = 0, k_expires_at = None, k_last_used_at = None, k_revoked_at = revoked\<rparr>"

definition before_loss :: cdb where
  "before_loss = empty_cdb\<lparr>orgs := [lost_org ''a''], users := [lost_user ''u'', lost_user ''v''],
     memberships := [\<lparr>m_org = ''a'', m_user = ''u'', m_role = ''owner'', m_created_at = 0\<rparr>], api_keys := [lost_key (Some 5)]\<rparr>"

definition after_restore :: cdb where
  "after_restore = empty_cdb\<lparr>orgs := [lost_org ''a'', lost_org ''b''],
     users := [lost_user ''u'', (lost_user ''v'')\<lparr>u_email := ''old@example.com''\<rparr>, lost_user ''w''],
     memberships := [\<lparr>m_org = ''a'', m_user = ''u'', m_role = ''owner'', m_created_at = 0\<rparr>,
       \<lparr>m_org = ''a'', m_user = ''v'', m_role = ''owner'', m_created_at = 0\<rparr>,
       \<lparr>m_org = ''b'', m_user = ''w'', m_role = ''owner'', m_created_at = 0\<rparr>], api_keys := [lost_key None]\<rparr>"

definition demo_env :: "string reconcile_env" where
  "demo_env = \<lparr>re_sha = (\<lambda>b. b), re_untar = (\<lambda>b. []), re_open = (\<lambda>b. Inr empty_cdb),
     re_runtime = \<lparr>rt_resolve = (\<lambda>p. p), rt_root = [''t''], rt_exists = (\<lambda>p. True), rt_nonempty = (\<lambda>p. False), rt_tables = (\<lambda>p. None),
       rt_rmtree = (\<lambda>p st. Some st)\<rparr>,
     re_disk = \<lparr>dk_resolve = (\<lambda>l. None), dk_exists = (\<lambda>p. True), dk_stuck = (\<lambda>p. False)\<rparr>, re_datetime_min = 0,
     re_fresh = (\<lambda>n. dec_nat n), re_event = (\<lambda>n. dec_nat n)\<rparr>"

definition reconcile_outcome :: "(exc + reconcile_report \<times> action list) \<times> cdb \<Rightarrow> (ident list \<times> nat) option" where
  "reconcile_outcome r = (case fst r of Inl e \<Rightarrow> None | Inr (report, as) \<Rightarrow> Some (rc_blocked report, length as))"

lemma demo_reconciled:
  "reconcile_outcome (reconcile_txn demo_env 9 True [] before_loss after_restore) = Some ([], 5)"
  by code_simp

theorem reconciliation_gives_nothing_back_witness:
  "\<exists>report as db. reconcile_txn demo_env 9 True [] before_loss after_restore = (Inr (report, as), db) \<and> length as = 5 \<and>
     rc_blocked report = [] \<and> (\<forall>u \<in> set (users db). same_user before_loss u) \<and>
     (\<forall>m \<in> set (memberships db). member_within before_loss after_restore [] m) \<and>
     (\<forall>k \<in> set (api_keys db). key_within before_loss after_restore k)"
proof -
  obtain report as db where txn: "reconcile_txn demo_env 9 True [] before_loss after_restore = (Inr (report, as), db)"
    and ok: "rc_blocked report = []" and n: "length as = 5"
    using demo_reconciled
    by (cases "reconcile_txn demo_env 9 True [] before_loss after_restore") (auto simp: reconcile_outcome_def split: sum.splits prod.splits)
  note main = reconciliation_gives_nothing_back [OF txn ok]
  show ?thesis
    by (rule exI [of _ report], rule exI [of _ as], rule exI [of _ db], intro conjI txn ok n) (insert main, elim conjE, assumption)+
qed

end
