(* ===== verification/NumberSafety.thy ===== *)
theory NumberSafety
  imports NumberText
begin

text \<open>
  What reading a number promises: the digits of the text are the digits of the number, in order, and amounts written
  the Polish way are read back exactly.
\<close>

section \<open>Digits of a text\<close>

text \<open>The table of digits on ASCII, on white space and on the signs and currencies the code names.\<close>

definition digit_table :: "(nat \<Rightarrow> nat option) \<Rightarrow> bool" where
  "digit_table dv = ((\<forall>c < 128. dv c = ascii_digit c) \<and> (\<forall>c. py_uspace c \<longrightarrow> dv c = None) \<and>
     (\<forall>c \<in> {163, 165, 321, 322, 383, 8364, 8490, 8722}. dv c = None))"

abbreviation digits_of :: "(nat \<Rightarrow> nat option) \<Rightarrow> utext \<Rightarrow> utext" where
  "digits_of dv s \<equiv> filter (udigit dv) s"

lemma digit_bound: "is_d c \<Longrightarrow> c < 128"
  by (simp add: is_d_def)

lemma udigit_ascii: "digit_table dv \<Longrightarrow> c < 128 \<Longrightarrow> udigit dv c = is_d c"
  by (simp add: digit_table_def udigit_def ascii_digit_def)

lemma dv_digit: "digit_table dv \<Longrightarrow> is_d c \<Longrightarrow> dv c = Some (c - 48)"
  by (simp add: digit_table_def digit_bound ascii_digit_def)

lemma dv_space: "digit_table dv \<Longrightarrow> py_uspace c \<Longrightarrow> \<not> udigit dv c"
  by (simp add: digit_table_def udigit_def)

lemma ws_space: "is_ws c \<Longrightarrow> py_uspace c"
  by (auto simp: is_ws_def py_uspace_def)

lemma dv_ws: "digit_table dv \<Longrightarrow> is_ws c \<Longrightarrow> \<not> udigit dv c"
  by (simp add: dv_space ws_space)

lemma dv_punctuation:
  assumes "digit_table dv"
  shows "\<not> udigit dv HYPHEN" "\<not> udigit dv PLUS" "\<not> udigit dv DOT" "\<not> udigit dv COMMA" "\<not> udigit dv SPACE"
    "\<not> udigit dv 40" "\<not> udigit dv 41" "\<not> udigit dv MINUS_SIGN"
  using assms by (simp_all add: udigit_ascii is_d_def) (simp add: digit_table_def udigit_def)

lemma digits_dropWhile: "(\<And>c. P c \<Longrightarrow> \<not> udigit dv c) \<Longrightarrow> digits_of dv (dropWhile P s) = digits_of dv s"
  by (induction s) auto

lemma digits_rev: "digits_of dv (rev s) = rev (digits_of dv s)"
  by (simp add: rev_filter)

lemma digits_strip:
  assumes "digit_table dv"
  shows "digits_of dv (u_strip s) = digits_of dv s"
proof -
  have drop: "digits_of dv (dropWhile py_uspace s) = digits_of dv s" for s by (rule digits_dropWhile) (rule dv_space [OF assms])
  show ?thesis by (simp only: u_strip_def drop digits_rev rev_rev_ident)
qed

lemma digits_map: "(\<And>c. f c \<noteq> c \<Longrightarrow> \<not> udigit dv c \<and> \<not> udigit dv (f c)) \<Longrightarrow> digits_of dv (map f s) = digits_of dv s"
proof (induction s)
  case (Cons c s)
  then show ?case by (cases "f c = c") auto
qed simp

section \<open>Affixes\<close>

lemma item_chars:
  assumes dv: "digit_table dv" and item: "i \<in> set AFFIX_ITEMS" and c: "fold_case c \<in> set i"
  shows "\<not> udigit dv c"
proof (cases "c < 128")
  case True
  have "\<not> is_d c" using item c by (auto simp: AFFIX_ITEMS_def utext_of_def fold_case_def is_d_def split: if_splits)
  with True dv show ?thesis by (simp add: udigit_ascii)
next
  case False
  have "c \<in> {163, 165, 321, 322, 383, 8364, 8490}"
    using item c False by (auto simp: AFFIX_ITEMS_def utext_of_def fold_case_def split: if_splits)
  with dv show ?thesis unfolding digit_table_def udigit_def by auto
qed

lemma digits_after_item:
  assumes dv: "digit_table dv" and a: "after_item s = Some r"
  shows "digits_of dv s = digits_of dv r"
proof -
  from a obtain i where i: "List.find (\<lambda>i. map fold_case (take (length i) s) = i) AFFIX_ITEMS = Some i"
    and r: "r = (let r = drop (length i) s in if take 1 r = [DOT] then drop 1 r else r)" by (auto simp: after_item_def)
  from i have mem: "i \<in> set AFFIX_ITEMS" and eq: "map fold_case (take (length i) s) = i" by (auto simp: find_Some_iff)
  have "fold_case c \<in> set i" if "c \<in> set (take (length i) s)" for c using that eq by (metis image_eqI list.set_map)
  then have none: "digits_of dv (take (length i) s) = []" using item_chars [OF dv mem] by (simp add: filter_empty_conv)
  have "digits_of dv s = digits_of dv (take (length i) s) @ digits_of dv (drop (length i) s)"
    by (simp only: filter_append [symmetric] append_take_drop_id)
  also have "\<dots> = digits_of dv (drop (length i) s)" by (simp only: none append_Nil)
  also have "\<dots> = digits_of dv r"
  proof (cases "take 1 (drop (length i) s) = [DOT]")
    case True
    then obtain x where "drop (length i) s = DOT # x" by (cases "drop (length i) s") auto
    with r dv_punctuation(3) [OF dv] show ?thesis by (simp add: Let_def)
  qed (simp add: r)
  finally show ?thesis .
qed

lemma digits_skip_affix: "digit_table dv \<Longrightarrow> digits_of dv (skip_affix s) = digits_of dv s"
proof (induction s rule: skip_affix.induct)
  case (1 s)
  show ?case
  proof (cases "after_item s")
    case None
    then show ?thesis by (subst skip_affix.simps) simp
  next
    case (Some r)
    with 1 have "digits_of dv (skip_affix (dropWhile is_ws r)) = digits_of dv (dropWhile is_ws r)" by simp
    also have "\<dots> = digits_of dv r" by (rule digits_dropWhile) (rule dv_ws [OF 1(2)])
    also have "\<dots> = digits_of dv s" using digits_after_item [OF 1(2) Some] by simp
    finally show ?thesis using Some by (subst skip_affix.simps) simp
  qed
qed

section \<open>Separators\<close>

lemma split_on_ne [simp]: "split_on sep s \<noteq> []"
  by (induction s) (auto split: list.split)

lemma split_on_concat: "filter (\<lambda>c. c \<noteq> sep) s = concat (split_on sep s)"
  by (induction s) (auto split: list.splits)

lemma split_on_two: "split_on sep s = [a, b] \<Longrightarrow> s = a @ [sep] @ b"
proof (induction s arbitrary: a)
  case (Cons c s)
  show ?case
  proof (cases "c = sep")
    case True
    with Cons.prems have "a = []" "split_on sep s = [b]" by auto
    moreover have "s = b" if "split_on sep s = [b]" for s using that
      by (induction s arbitrary: b) (auto split: if_splits list.splits)
    ultimately show ?thesis using True by simp
  next
    case False
    then obtain p ps where ps: "split_on sep s = p # ps" by (cases "split_on sep s") simp_all
    with Cons.prems False have "a = c # p" "ps = [b]" by auto
    with Cons.IH [of p] ps show ?thesis by simp
  qed
qed simp

lemma parts_digits:
  assumes "number_parts num = Some (i, fr, flag)"
  shows "filter is_d num = filter is_d i @ filter is_d fr"
proof -
  have sep: "\<not> is_d DOT" "\<not> is_d COMMA" by (simp_all add: is_d_def)
  have hd: "hd (filter (\<lambda>c. c \<in> {DOT, COMMA}) (rev num)) \<in> {DOT, COMMA}" if "DOT \<in> set num"
  proof -
    have "filter (\<lambda>c. c \<in> {DOT, COMMA}) (rev num) \<noteq> []" using that by (auto simp: filter_empty_conv)
    then have "hd (filter (\<lambda>c. c \<in> {DOT, COMMA}) (rev num)) \<in> set (filter (\<lambda>c. c \<in> {DOT, COMMA}) (rev num))" by (rule hd_in_set)
    then show ?thesis by auto
  qed
  from assms consider "i = num" "fr = []" | s where "s \<in> {DOT, COMMA}" "split_on s num = [i, fr]"
    using hd by (auto simp: number_parts_def Let_def split: if_splits list.splits)
  then show ?thesis by cases (use sep in \<open>auto dest: split_on_two\<close>)
qed

lemma integer_digits_filter: "integer_digits s = Some i \<Longrightarrow> i = filter is_d s"
  by (auto simp: integer_digits_def Let_def list_all_iff filter_id_conv split: if_splits)

lemma digits_to_float_digits:
  assumes "digits_to_float num = Some (x, flag)"
  shows "\<exists>i fr. filter is_d num = i @ fr \<and> x = decimal ascii_digit i fr"
proof -
  let ?num1 = "map (\<lambda>c. if is_ws c then SPACE else c) num"
  let ?num = "rev (dropWhile (\<lambda>c. c = SPACE) (rev (dropWhile (\<lambda>c. c = SPACE) ?num1)))"
  have d1: "filter is_d ?num1 = filter is_d num"
    by (induction num) (auto simp: is_ws_def is_d_def)
  have drop: "filter is_d (dropWhile (\<lambda>c. c = SPACE) s) = filter is_d s" for s
    by (induction s) (auto simp: is_d_def)
  have dnum: "filter is_d ?num = filter is_d num"
    by (simp only: rev_filter [symmetric] drop d1 rev_rev_ident)
  from assms obtain int_part fr fl i where p: "number_parts ?num = Some (int_part, fr, fl)" and fr: "list_all is_d fr"
    and i: "integer_digits int_part = Some i" and x: "x = decimal ascii_digit i fr"
    by (auto simp: digits_to_float_def Let_def split: option.splits if_splits prod.splits)
  from parts_digits [OF p] integer_digits_filter [OF i] have "filter is_d num = i @ fr"
    using fr dnum by (simp add: list_all_iff filter_id_conv)
  with x show ?thesis by blast
qed

section \<open>The digits of a number\<close>

definition made_of :: "(nat \<Rightarrow> nat option) \<Rightarrow> utext \<Rightarrow> rat \<Rightarrow> bool" where
  "made_of dv ds x = (\<exists>k \<le> length ds. \<bar>x\<bar> * 10 ^ k = of_nat (digits_val dv ds))"

lemma made_of_decimal: "made_of dv (i @ fr) (decimal dv i fr)"
  unfolding made_of_def by (intro exI [of _ "length fr"]) (simp add: decimal_def)

lemma made_of_signed [simp]: "made_of dv ds (signed neg x) = made_of dv ds x"
  by (simp add: made_of_def signed_def)

lemma digits_val_ascii:
  assumes "digit_table dv" "\<forall>c \<in> set ds. is_d c"
  shows "digits_val dv ds = digits_val ascii_digit ds"
proof -
  have "foldl (\<lambda>a c. 10 * a + the (dv c)) a ds = foldl (\<lambda>a c. 10 * a + the (ascii_digit c)) a ds" for a
    using assms(2) by (induction ds arbitrary: a) (auto simp: dv_digit [OF assms(1)] ascii_digit_def)
  then show ?thesis by (simp add: digits_val_def)
qed

lemma class_digits:
  assumes dv: "digit_table dv" and cls: "\<forall>c \<in> set s. is_d c \<or> c = DOT \<or> c = COMMA \<or> is_ws c"
  shows "digits_of dv s = filter is_d s"
proof (rule filter_cong [OF refl])
  fix c assume "c \<in> set s"
  with cls consider "is_d c" | "c = DOT" | "c = COMMA" | "is_ws c" by blast
  then show "udigit dv c = is_d c"
  proof cases
    case 1
    then show ?thesis by (simp add: udigit_ascii [OF dv digit_bound])
  next
    case 4
    have "\<not> is_d c" using 4 by (auto simp: is_ws_def is_d_def)
    with dv_ws [OF dv 4] show ?thesis by simp
  qed (simp_all add: udigit_ascii [OF dv])
qed

lemma core_digits:
  assumes dv: "digit_table dv" and core: "core_number s = Some (neg, num)"
  shows "digits_of dv s = filter is_d num"
proof -
  let ?cls = "\<lambda>c. is_d c \<or> c = DOT \<or> c = COMMA \<or> is_ws c"
  obtain sg t where sg: "split_sign s = (sg, t)" by (cases "split_sign s")
  let ?u = "skip_affix (dropWhile is_ws t)"
  from core have num: "num = takeWhile ?cls ?u" and rest: "skip_affix (dropWhile ?cls ?u) = []"
    by (auto simp: core_number_def Let_def sg split: if_splits)
  have "digits_of dv s = digits_of dv t"
    using sg dv_punctuation(1,2) [OF dv] by (cases s) (auto simp: split_sign_def split: if_splits)
  also have "\<dots> = digits_of dv (dropWhile is_ws t)" by (rule digits_dropWhile [symmetric]) (rule dv_ws [OF dv])
  also have "\<dots> = digits_of dv ?u" by (rule digits_skip_affix [OF dv, symmetric])
  also have "\<dots> = digits_of dv num @ digits_of dv (dropWhile ?cls ?u)"
    by (simp only: num filter_append [symmetric] takeWhile_dropWhile_id)
  also have "digits_of dv (dropWhile ?cls ?u) = []"
    using digits_skip_affix [OF dv, of "dropWhile ?cls ?u"] rest by simp
  also have "digits_of dv num = filter is_d num"
    by (rule class_digits [OF dv]) (auto simp: num dest: set_takeWhileD)
  finally show ?thesis by simp
qed

lemma accounting_digits:
  assumes dv: "digit_table dv" and acc: "split_accounting s = Some (inner, rest)"
  shows "digits_of dv s = digits_of dv (inner @ [SPACE] @ rest)"
proof -
  from acc obtain t where s: "s = 40 # t" by (cases s) (auto simp: split_accounting_def split: if_splits)
  from acc have "count_list t 41 = 1" by (auto simp: s split_accounting_def split: if_splits)
  then have "41 \<in> set t" by (metis count_notin zero_neq_one)
  then obtain r where r: "dropWhile (\<lambda>c. c \<noteq> 41) t = 41 # r"
    by (cases "dropWhile (\<lambda>c. c \<noteq> 41) t") (auto simp: dropWhile_eq_Cons_conv)
  have "t = takeWhile (\<lambda>c. c \<noteq> 41) t @ 41 # r" using r takeWhile_dropWhile_id [of "\<lambda>c. c \<noteq> 41" t] by simp
  then have "digits_of dv t = digits_of dv (takeWhile (\<lambda>c. c \<noteq> 41) t) @ digits_of dv r"
    using dv_punctuation(7) [OF dv] by (metis filter.simps(2) filter_append)
  moreover have "inner = u_strip (takeWhile (\<lambda>c. c \<noteq> 41) t)" "rest = u_strip r"
    using acc r by (auto simp: s split_accounting_def split: if_splits)
  ultimately show ?thesis using dv_punctuation(5,6) [OF dv] by (simp add: s digits_strip [OF dv])
qed

lemma decorated_digits:
  assumes dv: "digit_table dv" and num: "decorated_number s = (Some x, flag)"
  shows "made_of dv (digits_of dv s) x"
proof -
  from num obtain parens t where t: "unwrap s = Some (parens, t)" by (auto simp: decorated_number_def invalid_def split: option.splits)
  with num obtain neg cs where core: "core_number (u_strip t) = Some (neg, cs)"
    by (auto simp: decorated_number_def invalid_def split: option.splits)
  with num t obtain y where y: "digits_to_float cs = Some (y, flag)" and x: "x = signed (neg \<or> parens) y"
    by (auto simp: decorated_number_def invalid_def split: option.splits if_splits)
  have "digits_of dv s = digits_of dv t"
    using t accounting_digits [OF dv] by (auto simp: unwrap_def split: option.splits if_splits)
  also have "\<dots> = filter is_d cs" using core_digits [OF dv core] by (simp add: digits_strip [OF dv])
  finally have ds: "digits_of dv s = filter is_d cs" .
  from digits_to_float_digits [OF y] obtain i fr where i: "filter is_d cs = i @ fr" "y = decimal ascii_digit i fr" by blast
  have "\<forall>c \<in> set (i @ fr). is_d c" unfolding i(1) [symmetric] by simp
  then have "y = decimal dv i fr" using digits_val_ascii [OF dv] i(2) by (simp add: decimal_def)
  with x show ?thesis unfolding ds i(1) using made_of_decimal by auto
qed

lemma plain_digits:
  assumes dv: "digit_table dv" and p: "plain_number dv s = Some (neg, i, fr)"
  shows "digits_of dv s = i @ fr"
proof -
  define t where "t = (if take 1 s = [HYPHEN] then drop 1 s else s)"
  have st: "digits_of dv s = digits_of dv t" using dv_punctuation(1) [OF dv] by (cases s) (auto simp: t_def)
  let ?r = "dropWhile (udigit dv) t"
  from p have i: "i = takeWhile (udigit dv) t" and fr: "(?r = [] \<and> fr = []) \<or> (?r \<noteq> [] \<and> hd ?r = DOT \<and> fr = tl ?r \<and> list_all (udigit dv) fr)"
    by (auto simp: plain_number_def Let_def t_def split: if_splits)
  have "digits_of dv t = digits_of dv i @ digits_of dv ?r" unfolding i by (simp only: filter_append [symmetric] takeWhile_dropWhile_id)
  also have "digits_of dv i = i" by (auto simp: i filter_id_conv dest: set_takeWhileD)
  also have "digits_of dv ?r = fr"
  proof -
    obtain r where r: "?r = r" by blast
    show ?thesis using fr dv_punctuation(3) [OF dv] unfolding r by (cases r) (auto simp: list_all_iff filter_id_conv)
  qed
  finally show ?thesis using st by simp
qed

text \<open>Reading a number never loses, adds or reorders a digit and never moves one past the decimal point by more than the
  text has: unless the text is in scientific notation, the value is, but for its sign, the number that all the digits
  of the text make, divided by a power of ten no longer than they are.\<close>

theorem number_keeps_digits:
  assumes dv: "digit_table dv" and num: "parse_text dv s = (Some x, flag)"
    and plain: "scientific (map (\<lambda>c. if c = MINUS_SIGN then HYPHEN else c) (u_strip s)) = None"
  shows "\<exists>k \<le> length (digits_of dv s). \<bar>x\<bar> * 10 ^ k = of_nat (digits_val dv (digits_of dv s))"
proof -
  let ?t = "map (\<lambda>c. if c = MINUS_SIGN then HYPHEN else c) (u_strip s)"
  have t: "digits_of dv ?t = digits_of dv s"
    using dv_punctuation(1,8) [OF dv] by (subst digits_map) (auto simp: digits_strip [OF dv] split: if_splits)
  from num plain consider (deco) "decorated_number ?t = (Some x, flag)"
    | (plain) neg i fr where "plain_number dv (u_strip s) = Some (neg, i, fr)" "x = signed neg (decimal dv i fr)"
    unfolding parse_text_def invalid_def Let_def by (auto split: if_splits option.splits prod.splits)
  then have "made_of dv (digits_of dv s) x"
  proof cases
    case deco
    then show ?thesis using decorated_digits [OF dv deco] t by simp
  next
    case (plain neg i fr)
    with plain_digits [OF dv plain(1)] show ?thesis using made_of_decimal [of dv i fr] by (simp add: digits_strip [OF dv])
  qed
  then show ?thesis by (simp add: made_of_def)
qed

section \<open>Amounts written the Polish way\<close>

text \<open>Digits in groups of three, a no-break space between them, a comma, two digits, the currency.\<close>

fun chunks3 :: "'a list \<Rightarrow> 'a list list" where
  "chunks3 (a # b # c # r) = [a, b, c] # chunks3 r"
| "chunks3 r = []"

definition join_groups :: "utext list \<Rightarrow> utext" where
  "join_groups gs = hd gs @ concat (map (\<lambda>g. NBSP # g) (tl gs))"

definition polish_amount :: "utext list \<Rightarrow> utext \<Rightarrow> utext" where
  "polish_amount gs cents = join_groups gs @ [COMMA] @ cents @ [NBSP, 122, 322]"

text \<open>What a list of groups must be: the first of one to three digits, the others of three.\<close>

definition groups_ok :: "utext list \<Rightarrow> bool" where
  "groups_ok gs = (gs \<noteq> [] \<and> hd gs \<noteq> [] \<and> length (hd gs) \<le> 3 \<and> (\<forall>g \<in> set gs. \<forall>c \<in> set g. is_d c) \<and> (\<forall>g \<in> set (tl gs). length g = 3))"

lemma split_on_free: "sep \<notin> set s \<Longrightarrow> split_on sep s = [s]"
  by (induction s) auto

lemma split_on_append: "sep \<notin> set a \<Longrightarrow> split_on sep (a @ sep # b) = a # split_on sep b"
  by (induction a) auto

lemma split_on_groups:
  "\<forall>g \<in> set gs. sep \<notin> set g \<Longrightarrow> sep \<notin> set g0 \<Longrightarrow> split_on sep (g0 @ concat (map (\<lambda>g. sep # g) gs)) = g0 # gs"
proof (induction gs arbitrary: g0)
  case (Cons g gs)
  then have "split_on sep (g0 @ sep # (g @ concat (map (\<lambda>g. sep # g) gs))) = g0 # split_on sep (g @ concat (map (\<lambda>g. sep # g) gs))"
    by (intro split_on_append) simp
  with Cons show ?case by simp
qed (simp add: split_on_free)

lemma digit_codes: "is_d c \<Longrightarrow> c \<noteq> SPACE \<and> c \<noteq> COMMA \<and> c \<noteq> DOT \<and> c \<noteq> NBSP \<and> c \<noteq> HYPHEN \<and> c \<noteq> PLUS \<and> c \<noteq> 40 \<and> c \<noteq> 41 \<and>
    c \<noteq> 69 \<and> c \<noteq> 101 \<and> c \<noteq> MINUS_SIGN \<and> \<not> is_ws c \<and> \<not> py_uspace c"
  by (auto simp: is_d_def is_ws_def py_uspace_def)

lemma digit_no_item: "is_d c \<Longrightarrow> after_item (c # s) = None"
  by (auto simp: after_item_def find_None_iff AFFIX_ITEMS_def utext_of_def fold_case_def is_d_def)

lemma affix_zl: "skip_affix [122, 322] = []"
  by code_simp

lemma spaced_groups:
  assumes ok: "groups_ok gs"
  shows "integer_digits (map (\<lambda>c. if is_ws c then SPACE else c) (join_groups gs)) = Some (concat gs)"
proof -
  obtain g0 gr where gs: "gs = g0 # gr" using ok by (cases gs) (auto simp: groups_ok_def)
  have d: "\<forall>g \<in> set gs. \<forall>c \<in> set g. is_d c" using ok by (simp add: groups_ok_def)
  have keep: "map (\<lambda>c. if is_ws c then SPACE else c) g = g" if "g \<in> set gs" for g
    using that d by (intro map_idI) (use digit_codes in auto)
  have spaced: "map (\<lambda>c. if is_ws c then SPACE else c) (join_groups gs) = g0 @ concat (map (\<lambda>g. SPACE # g) gr)"
  proof -
    have "map (\<lambda>c. if is_ws c then SPACE else c) (concat (map (\<lambda>g. NBSP # g) gr)) = concat (map (\<lambda>g. SPACE # g) gr)"
      using keep unfolding gs by (induction gr) (auto simp: is_ws_def)
    then show ?thesis using keep by (simp add: join_groups_def gs)
  qed
  have digits: "filter is_d (g0 @ concat (map (\<lambda>g. SPACE # g) gr)) = concat gs"
  proof -
    have "filter is_d (concat (map (\<lambda>g. SPACE # g) gr)) = concat gr" if "\<forall>g \<in> set gr. \<forall>c \<in> set g. is_d c" for gr
      using that by (induction gr) (auto simp: filter_id_conv is_d_def)
    with d show ?thesis by (auto simp: gs filter_id_conv)
  qed
  show ?thesis
  proof (cases gr)
    case Nil
    with d show ?thesis unfolding spaced by (simp add: integer_digits_def gs list_all_iff)
  next
    case (Cons g1 gt)
    have split: "split_on SPACE (g0 @ concat (map (\<lambda>g. SPACE # g) gr)) = gs"
      unfolding gs using d digit_codes by (intro split_on_groups) (auto simp: gs)
    have "grouped SPACE (g0 @ concat (map (\<lambda>g. SPACE # g) gr))"
      unfolding grouped_def split using ok by (simp add: gs Cons groups_ok_def list_all_iff)
    moreover have "remdups (filter (\<lambda>c. \<not> is_d c) (g0 @ concat (map (\<lambda>g. SPACE # g) gr))) = [SPACE]"
    proof -
      have "set (filter (\<lambda>c. \<not> is_d c) (g0 @ concat (map (\<lambda>g. SPACE # g) gr))) = {SPACE}"
        using d by (auto simp: gs Cons is_d_def)
      then have "set (remdups (filter (\<lambda>c. \<not> is_d c) (g0 @ concat (map (\<lambda>g. SPACE # g) gr)))) = {SPACE}" by simp
      moreover have "xs = [a]" if "distinct xs" "set xs = {a}" for xs :: utext and a
        using that by (metis card.empty card.insert distinct_card empty_iff finite.emptyI length_0_conv length_Suc_conv list.set_intros singletonD)
      ultimately show ?thesis by (metis distinct_remdups)
    qed
    moreover have "\<not> list_all is_d (g0 @ concat (map (\<lambda>g. SPACE # g) gr))" by (simp add: Cons is_d_def)
    ultimately show ?thesis unfolding spaced integer_digits_def by (simp only: digits Let_def) simp
  qed
qed

lemma sep_distinct: "DOT \<noteq> SPACE" "COMMA \<noteq> SPACE" by simp_all

text \<open>An amount written the Polish way is read back: digits grouped by threes with no-break spaces, a comma, two
  digits and the currency give exactly the number, without a flag, however large.\<close>

theorem polish_amount_reads_back:
  assumes dv: "digit_table dv" and gs: "groups_ok gs" and cents: "length cents = 2" "\<forall>c \<in> set cents. is_d c"
    and short: "length (polish_amount gs cents) \<le> MAX_NUMBER_CELL_CHARS"
  shows "parse_text dv (polish_amount gs cents) = (Some (of_nat (digits_val ascii_digit (concat gs @ cents)) / 100), None)"
proof -
  let ?s = "polish_amount gs cents"
  let ?int = "join_groups gs"
  let ?cls = "\<lambda>c. is_d c \<or> c = DOT \<or> c = COMMA \<or> is_ws c"
  obtain c0 g0 gr where gs0: "gs = (c0 # g0) # gr" using gs by (cases gs; cases "hd gs") (auto simp: groups_ok_def)
  then have c0: "is_d c0" using gs by (simp add: groups_ok_def)
  obtain r where s: "?s = c0 # r" by (simp add: polish_amount_def join_groups_def gs0)
  have int_chars: "is_d c \<or> c = NBSP" if "c \<in> set ?int" for c
    using that gs by (auto simp: join_groups_def gs0 groups_ok_def split: if_splits)
  then have s_chars: "is_d c \<or> c \<in> {NBSP, COMMA, 122, 322}" if "c \<in> set ?s" for c
    using that cents by (auto simp: polish_amount_def)
  have strip: "u_strip ?s = ?s"
  proof -
    have "dropWhile py_uspace ?s = ?s" using digit_codes [OF c0] by (simp add: s)
    moreover have "dropWhile py_uspace (rev ?s) = rev ?s" by (simp add: polish_amount_def py_uspace_def)
    ultimately show ?thesis by (simp only: u_strip_def rev_rev_ident)
  qed
  have none: "c \<notin> set ?s" if "c \<in> {69, 101, 40, 41, MINUS_SIGN, HYPHEN, PLUS, DOT}" for c
  proof
    assume "c \<in> set ?s"
    from s_chars [OF this] that show False by (auto simp: is_d_def)
  qed
  have minus: "map (\<lambda>c. if c = MINUS_SIGN then HYPHEN else c) ?s = ?s" using none [of MINUS_SIGN] by (intro map_idI) auto
  have sign: "split_sign ?s = (False, ?s)" using digit_codes [OF c0] by (simp add: split_sign_def s)
  have sci: "scientific ?s = None"
  proof -
    have "dropWhile (\<lambda>c. c \<notin> {69, 101}) ?s = []" using none [of 69] none [of 101] by auto
    then show ?thesis by (simp add: scientific_def sign Let_def)
  qed
  have plain: "plain_number dv ?s = None"
  proof -
    have "COMMA \<in> set ?s" by (simp add: polish_amount_def)
    with dv_punctuation(4) [OF dv] have ne: "dropWhile (udigit dv) ?s \<noteq> []" by auto
    then have "hd (dropWhile (udigit dv) ?s) \<in> set ?s" by (metis hd_in_set set_dropWhileD)
    with none [of DOT] have "hd (dropWhile (udigit dv) ?s) \<noteq> DOT" by auto
    moreover have "take 1 ?s \<noteq> [HYPHEN]" using digit_codes [OF c0] by (simp add: s)
    ultimately show ?thesis using ne by (auto simp: plain_number_def Let_def)
  qed
  have core: "core_number ?s = Some (False, ?int @ [COMMA] @ cents @ [NBSP])"
  proof -
    have "dropWhile is_ws ?s = ?s" using digit_codes [OF c0] by (simp add: s)
    moreover have "skip_affix ?s = ?s" by (subst skip_affix.simps) (simp add: s digit_no_item [OF c0])
    moreover have amount: "?s = (?int @ [COMMA] @ cents @ [NBSP]) @ [122, 322]" by (simp add: polish_amount_def)
    moreover have cls: "?cls c" if "c \<in> set (?int @ [COMMA] @ cents @ [NBSP])" for c
      using that int_chars cents(2) by (auto simp: is_ws_def)
    moreover have "\<not> ?cls 122" by (simp add: is_d_def is_ws_def)
    ultimately have "takeWhile ?cls ?s = ?int @ [COMMA] @ cents @ [NBSP]" "dropWhile ?cls ?s = [122, 322]"
      "skip_affix (dropWhile is_ws ?s) = ?s"
      by (simp_all only: takeWhile_append2 [OF cls] dropWhile_append2 [OF cls]) simp_all
    then show ?thesis unfolding core_number_def sign Let_def prod.case using c0 by (simp add: affix_zl s [symmetric]) (simp add: s)
  qed
  have "digits_to_float (?int @ [COMMA] @ cents @ [NBSP]) = Some (decimal ascii_digit (concat gs) cents, None)"
  proof -
    let ?sp = "\<lambda>c. if is_ws c then SPACE else c"
    let ?m = "map ?sp ?int"
    have cm: "map ?sp cents = cents" using cents(2) digit_codes by (intro map_idI) auto
    have num1: "map ?sp (?int @ [COMMA] @ cents @ [NBSP]) = ?m @ [COMMA] @ cents @ [SPACE]"
      by (simp add: cm) (simp add: is_ws_def)
    have first: "?m = c0 # drop 1 ?m" using digit_codes [OF c0] by (simp add: join_groups_def gs0)
    have c2: "\<exists>a b. cents = [a, b]" using cents by (auto simp: length_Suc_conv numeral_2_eq_2)
    have front: "dropWhile (\<lambda>c. c = SPACE) (?m @ [COMMA] @ cents @ [SPACE]) = ?m @ [COMMA] @ cents @ [SPACE]"
      using digit_codes [OF c0] by (subst first, subst (2) first) simp
    have ending: "rev (dropWhile (\<lambda>c. c = SPACE) (rev (?m @ [COMMA] @ cents @ [SPACE]))) = ?m @ [COMMA] @ cents"
      using c2 cents(2) digit_codes by auto
    have m_chars: "is_d c \<or> c = SPACE" if "c \<in> set ?m" for c using that int_chars by (auto simp: is_ws_def)
    have not_d: "\<not> is_d DOT" "\<not> is_d COMMA" by (simp_all add: is_d_def)
    have "DOT \<notin> set ?m" using m_chars [of DOT] not_d by (metis sep_distinct(1))
    with not_d cents(2) have dot: "DOT \<notin> set (?m @ [COMMA] @ cents)" by (simp only: set_append) (auto simp del: set_map)
    have "COMMA \<notin> set ?m" using m_chars [of COMMA] not_d by (metis sep_distinct(2))
    moreover have "COMMA \<notin> set cents" using cents(2) not_d by metis
    ultimately have "split_on COMMA (?m @ COMMA # cents) = [?m, cents]" by (simp add: split_on_append split_on_free)
    moreover have "DOT \<notin> set cents" "SPACE \<notin> set cents" using cents(2) not_d digit_codes by auto
    moreover have "COMMA \<in> set (?m @ [COMMA] @ cents)" by simp
    moreover have "?m @ [COMMA] @ cents = ?m @ COMMA # cents" by simp
    ultimately have "number_parts (?m @ [COMMA] @ cents) = Some (?m, cents, None)"
      unfolding number_parts_def Let_def using dot cents(1) by (simp del: set_map set_append map_append)
    moreover have "integer_digits ?m = Some (concat gs)" by (rule spaced_groups [OF gs])
    ultimately show ?thesis
      unfolding digits_to_float_def num1 Let_def front ending using cents c2 by (auto simp: list_all_iff)
  qed
  with core have "decorated_number ?s = (Some (decimal ascii_digit (concat gs) cents), None)"
    using none [of 40] none [of 41] by (simp add: decorated_number_def unwrap_def strip signed_def)
  moreover have "?s \<noteq> []" "map fold_case ?s \<notin> set NUM_NULLS"
    using c0 by (auto simp: s NUM_NULLS_def utext_of_def fold_case_def is_d_def)
  ultimately show ?thesis
    using plain sci short cents by (simp add: parse_text_def strip minus decimal_def)
qed

section \<open>Example\<close>

lemma ascii_table: "digit_table ascii_digit"
  by (auto simp: digit_table_def ascii_digit_def is_d_def py_uspace_def)

theorem polish_amount_reads_back_witness:
  "parse_text ascii_digit (polish_amount [utext_of ''1'', utext_of ''299''] (utext_of ''00'')) = (Some 1299, None)"
proof -
  have ok: "groups_ok [utext_of ''1'', utext_of ''299'']" "length (utext_of ''00'') = 2" "\<forall>c \<in> set (utext_of ''00''). is_d c"
    "length (polish_amount [utext_of ''1'', utext_of ''299''] (utext_of ''00'')) \<le> MAX_NUMBER_CELL_CHARS" by code_simp+
  have "digits_val ascii_digit (concat [utext_of ''1'', utext_of ''299''] @ utext_of ''00'') = 129900"
    by (simp add: digits_val_def utext_of_def ascii_digit_def is_d_def)
  then have "(of_nat (digits_val ascii_digit (concat [utext_of ''1'', utext_of ''299''] @ utext_of ''00'')) / 100 :: rat) = 1299" by simp
  with polish_amount_reads_back [OF ascii_table ok] show ?thesis by simp
qed

end
