(* ===== verification/ColumnSafety.thy ===== *)
theory ColumnSafety
  imports Columns NumberSafety
begin

text \<open>
  What the column mapper's parts do: a column read at once is the column read cell by cell, the dates are read by the first
  format that fits, and no two columns of the table come from one column of the file.
\<close>

section \<open>Dictionaries over the values of a column\<close>

lemma set_dict_keys [simp]: "set (dict_keys xs) = set xs"
  by (simp add: dict_keys_def)

lemma map_of_values: "map_of (map (\<lambda>u. (u, f u)) us) c = (if c \<in> set us then Some (f c) else None)"
  by (induction us) auto

lemma map_of_flagged: "map_of (filter P (map (\<lambda>u. (u, f u)) us)) c = (if c \<in> set us \<and> P (c, f c) then Some (f c) else None)"
  by (induction us) auto

text \<open>Reading a column of numbers, each different text once, gives what \<open>_to_number\<close> gives on every cell, and counts
  every row with a flag.\<close>

lemma number_column_is_cellwise:
  "to_number_series dv (ObjectSeries cs) = map (to_number dv) cs \<and>
   fst (snd (to_number_series_ex dv (ObjectSeries cs))) f = length (filter (\<lambda>c. snd (parse_number dv c) = Some f) cs)"
proof
  have "parse_number dv Missing = (None, None)" by (simp add: parse_number_def)
  then show "to_number_series dv (ObjectSeries cs) = map (to_number dv) cs"
    by (auto simp: to_number_series_def to_number_series_ex_def Let_def map_of_values to_number_def)
  show "fst (snd (to_number_series_ex dv (ObjectSeries cs))) f = length (filter (\<lambda>c. snd (parse_number dv c) = Some f) cs)"
    unfolding to_number_series_ex_def Let_def series.case fst_conv snd_conv map_of_flagged
    by (intro arg_cong [where f = length] filter_cong) (auto simp: parse_number_def)
qed

lemma status_values: "status_of nfkd s \<in> utext_of ` set [''completed'', ''refunded'', ''cancelled'', ''pending'']"
proof (cases "List.find (\<lambda>p. utext_of (fst p) = norm_text nfkd s) STATUS_MAP")
  case None
  then show ?thesis by (simp add: status_of_def completed_def)
next
  case (Some p)
  have "\<forall>p \<in> set STATUS_MAP. snd p \<in> set [''completed'', ''refunded'', ''cancelled'', ''pending'']"
    by (simp add: STATUS_MAP_def)
  moreover have "p \<in> set STATUS_MAP" using Some by (auto simp: find_Some_iff)
  ultimately show ?thesis using Some by (auto simp: status_of_def)
qed

lemma statuses_cellwise:
  "normalize_status_series nfkd col = map (\<lambda>c. status_of nfkd (case c of Some s \<Rightarrow> s | None \<Rightarrow> completed)) col"
  by (auto simp: normalize_status_series_def Let_def map_of_values)

section \<open>Dates\<close>

definition first_format :: "(string \<Rightarrow> utext \<Rightarrow> stamp option) \<Rightarrow> string list \<Rightarrow> utext \<Rightarrow> (string \<times> stamp) option" where
  "first_format parse fs t =
     (case List.find (\<lambda>f. parse f t \<noteq> None) fs of Some f \<Rightarrow> Some (f, the (parse f t)) | None \<Rightarrow> None)"

definition date_text :: "utext option \<Rightarrow> utext option" where
  "date_text c = (case c of Some s \<Rightarrow> if u_strip s = [] then None else Some (u_strip s) | None \<Rightarrow> None)"

definition read_format :: "(string \<Rightarrow> utext \<Rightarrow> stamp option) \<Rightarrow> string list \<Rightarrow> utext option \<Rightarrow> (string \<times> stamp) option" where
  "read_format parse fs c = Option.bind (date_text c) (first_format parse fs)"

definition read_date :: "(string \<Rightarrow> utext \<Rightarrow> stamp option) \<Rightarrow> (utext \<Rightarrow> stamp option) \<Rightarrow> utext option \<Rightarrow> stamp option" where
  "read_date parse guess c =
     (case read_format parse DATE_FORMATS c of Some r \<Rightarrow> Some (snd r) | None \<Rightarrow> Option.bind (date_text c) guess)"

lemma mask_map: "mask (map h xs) (map n xs) (map r xs) = map (\<lambda>x. if h x then n x else r x) xs"
  by (induction xs) (auto simp: mask_def)

lemma True_in_map: "True \<in> set (map P xs) \<longleftrightarrow> (\<exists>x \<in> set xs. P x)"
  by (induction xs) auto

lemma map2_map: "map2 f (map g xs) (map h xs) = map (\<lambda>x. f (g x) (h x)) xs"
  by (induction xs) auto

lemma find_SomeD: "List.find P xs = Some x \<Longrightarrow> x \<in> set xs \<and> P x"
  by (auto simp: find_Some_iff)

lemma find_append: "List.find P (xs @ ys) = (case List.find P xs of Some x \<Rightarrow> Some x | None \<Rightarrow> List.find P ys)"
  by (induction xs) auto

lemma find_cong_None: "List.find P xs = None \<longleftrightarrow> (\<forall>x \<in> set xs. \<not> P x)"
  by (auto simp: find_None_iff)

lemma read_format_snoc:
  "read_format parse (fs @ [f]) c =
     (case read_format parse fs c of
        Some r \<Rightarrow> Some r
      | None \<Rightarrow> Option.bind (date_text c) (\<lambda>t. map_option (Pair f) (parse f t)))"
  by (cases "date_text c") (auto simp: read_format_def first_format_def find_append split: option.splits)

lemma read_format_Nil [simp]: "read_format parse [] c = None"
  by (cases "date_text c") (simp_all add: read_format_def first_format_def)

lemma first_format_in: "first_format parse fs t = Some r \<Longrightarrow> fst r \<in> set fs"
  by (cases "List.find (\<lambda>f. parse f t \<noteq> None) fs") (auto simp: first_format_def dest: find_SomeD)

lemma first_format_append:
  "first_format parse (fs @ gs) t = (case first_format parse fs t of Some r \<Rightarrow> Some r | None \<Rightarrow> first_format parse gs t)"
  by (simp add: first_format_def find_append split: option.splits)

lemma read_format_None [simp]: "date_text c = None \<Longrightarrow> read_format parse fs c = None"
  by (simp add: read_format_def)

lemma read_format_Some [simp]: "date_text c = Some t \<Longrightarrow> read_format parse fs c = first_format parse fs t"
  by (simp add: read_format_def)

lemma read_format_in: "read_format parse fs c = Some r \<Longrightarrow> fst r \<in> set fs"
  by (cases "date_text c") (auto dest: first_format_in)

lemma read_format_more: "read_format parse fs c = Some r \<Longrightarrow> read_format parse (fs @ gs) c = Some r"
  by (cases "date_text c") (auto simp: first_format_append)

lemma read_format_text: "read_format parse fs c = Some r \<Longrightarrow> date_text c \<noteq> None"
  by (cases "date_text c") auto

text \<open>The formats that are the first to read some row, and what the loop has done after some formats: the rows they read,
  the rows left, and the number of these formats.\<close>

definition formats_used :: "(string \<Rightarrow> utext \<Rightarrow> stamp option) \<Rightarrow> string list \<Rightarrow> utext option list \<Rightarrow> string set" where
  "formats_used parse fs col = set (List.map_filter (\<lambda>c. map_option fst (read_format parse fs c)) col)"

definition loop_state ::
  "(string \<Rightarrow> utext \<Rightarrow> stamp option) \<Rightarrow> string list \<Rightarrow> utext option list \<Rightarrow> stamp option list \<times> bool list \<times> nat" where
  "loop_state parse fs col =
     (map (\<lambda>c. map_option snd (read_format parse fs c)) col,
      map (\<lambda>c. date_text c \<noteq> None \<and> read_format parse fs c = None) col, card (formats_used parse fs col))"

lemma formats_used_iff: "f \<in> formats_used parse fs col \<longleftrightarrow> (\<exists>c \<in> set col. \<exists>t. read_format parse fs c = Some (f, t))"
  by (force simp: formats_used_def List.map_filter_def image_iff split: option.splits)

lemma finite_formats_used [simp]: "finite (formats_used parse fs col)"
  by (simp add: formats_used_def)

lemma formats_used_snoc:
  assumes "f \<notin> set fs"
  shows "card (formats_used parse (fs @ [f]) col) =
    card (formats_used parse fs col) +
      (if \<exists>c \<in> set col. read_format parse fs c = None \<and> read_format parse (fs @ [f]) c \<noteq> None then 1 else 0)"
proof -
  let ?new = "\<exists>c \<in> set col. read_format parse fs c = None \<and> read_format parse (fs @ [f]) c \<noteq> None"
  have "g \<in> formats_used parse (fs @ [f]) col \<longleftrightarrow> g \<in> formats_used parse fs col \<or> (g = f \<and> ?new)" for g
  proof -
    have "(\<exists>t. read_format parse (fs @ [f]) c = Some (g, t)) \<longleftrightarrow>
      (\<exists>t. read_format parse fs c = Some (g, t)) \<or> (g = f \<and> read_format parse fs c = None \<and> read_format parse (fs @ [f]) c \<noteq> None)" for c
      unfolding read_format_snoc by (cases "read_format parse fs c"; cases "date_text c") auto
    then show ?thesis unfolding formats_used_iff by blast
  qed
  then have eq: "formats_used parse (fs @ [f]) col = formats_used parse fs col \<union> (if ?new then {f} else {})"
    by (cases ?new) (simp_all only: if_True if_False set_eq_iff Un_iff singleton_iff empty_iff, blast+)
  have "f \<notin> formats_used parse fs col" using assms read_format_in by (fastforce simp: formats_used_iff)
  then show ?thesis
  proof (cases ?new)
    case True
    from \<open>f \<notin> formats_used parse fs col\<close> show ?thesis unfolding eq if_P [OF True] by simp
  next
    case False
    show ?thesis unfolding eq if_not_P [OF False] by simp
  qed
qed

lemma format_loop_step:
  assumes "True \<in> set remaining"
  shows "format_loop parse s (f # fs) (res, remaining, n) =
    format_loop parse s fs
      (let parsed = map (\<lambda>c. case c of Some t \<Rightarrow> parse f t | None \<Rightarrow> None) s;
           hits = map2 (\<lambda>p r. p \<noteq> None \<and> r) parsed remaining
       in if True \<in> set hits then (mask hits parsed res, map2 (\<lambda>r h. r \<and> \<not> h) remaining hits, n + 1) else (res, remaining, n))"
  using assms by (simp add: Let_def)

lemma loop_correct:
  assumes "distinct (fs @ gs)"
  shows "format_loop parse (map (map_option u_strip) col) gs (loop_state parse fs col) = loop_state parse (fs @ gs) col"
  using assms
proof (induction gs arbitrary: fs)
  case Nil
  then show ?case by (simp add: loop_state_def)
next
  case (Cons f gs)
  show ?case
  proof (cases "\<exists>c \<in> set col. date_text c \<noteq> None \<and> read_format parse fs c = None")
    case False
    then have same: "read_format parse (fs @ f # gs) c = read_format parse fs c" if "c \<in> set col" for c
      using that False by (cases "read_format parse fs c"; cases "date_text c") (auto simp: first_format_append)
    have "loop_state parse (fs @ f # gs) col = loop_state parse fs col"
      using same by (auto simp: loop_state_def formats_used_def List.map_filter_def cong: map_cong filter_cong)
    with False show ?thesis by (auto simp: loop_state_def image_iff)
  next
    case True
    let ?text = "\<lambda>c. case map_option u_strip c of Some t \<Rightarrow> parse f t | None \<Rightarrow> None"
    let ?left = "\<lambda>c. date_text c \<noteq> None \<and> read_format parse fs c = None"
    have step: "read_format parse (fs @ [f]) c =
      (if ?left c \<and> ?text c \<noteq> None then Some (f, the (?text c)) else read_format parse fs c)" for c
      by (auto simp: read_format_snoc date_text_def split: option.splits if_splits)
    let ?hit = "\<lambda>c. ?text c \<noteq> None \<and> ?left c"
    have step': "read_format parse (fs @ [f]) c = (if ?hit c then Some (f, the (?text c)) else read_format parse fs c)" for c
      unfolding step by simp
    have hits: "map2 (\<lambda>p r. p \<noteq> None \<and> r) (map ?text col) (map ?left col) = map ?hit col" by (rule map2_map)
    have parsed: "map (\<lambda>c. case c of Some t \<Rightarrow> parse f t | None \<Rightarrow> None) (map (map_option u_strip) col) = map ?text col" by simp
    have res: "mask (map ?hit col) (map ?text col) (map (\<lambda>c. map_option snd (read_format parse fs c)) col) =
      map (\<lambda>c. map_option snd (read_format parse (fs @ [f]) c)) col"
      unfolding mask_map by (intro map_cong) (auto simp: step')
    have left: "map2 (\<lambda>r h. r \<and> \<not> h) (map ?left col) (map ?hit col) =
      map (\<lambda>c. date_text c \<noteq> None \<and> read_format parse (fs @ [f]) c = None) col"
      unfolding map2_map by (intro map_cong) (auto simp: step')
    have new: "(\<exists>c \<in> set col. read_format parse fs c = None \<and> read_format parse (fs @ [f]) c \<noteq> None) = (\<exists>c \<in> set col. ?hit c)"
      by (intro bex_cong refl) (auto simp: step')
    have card: "card (formats_used parse (fs @ [f]) col) = card (formats_used parse fs col) + (if True \<in> set (map ?hit col) then 1 else 0)"
    proof -
      have "f \<notin> set fs" using Cons.prems by simp
      from formats_used_snoc [OF this, of parse col] show ?thesis unfolding new True_in_map .
    qed
    have more: "True \<in> set (map ?left col)" using True by (force simp: image_iff)
    have next_state: "loop_state parse (fs @ [f]) col = (if True \<in> set (map ?hit col)
        then (mask (map ?hit col) (map ?text col) (map (\<lambda>c. map_option snd (read_format parse fs c)) col),
              map2 (\<lambda>r h. r \<and> \<not> h) (map ?left col) (map ?hit col), card (formats_used parse fs col) + 1)
        else loop_state parse fs col)"
    proof (cases "True \<in> set (map ?hit col)")
      case no: False
      then have "read_format parse (fs @ [f]) c = read_format parse fs c" if "c \<in> set col" for c
        using that by (auto simp: step')
      then show ?thesis using no card by (auto simp: loop_state_def cong: map_cong)
    qed (simp only: loop_state_def res left card if_True)
    have "format_loop parse (map (map_option u_strip) col) (f # gs) (loop_state parse fs col) =
      format_loop parse (map (map_option u_strip) col) gs (loop_state parse (fs @ [f]) col)"
      unfolding next_state unfolding loop_state_def format_loop_step [OF more] Let_def parsed hits ..
    with Cons.IH [of "fs @ [f]"] Cons.prems show ?thesis by simp
  qed
qed

text \<open>A column of dates is read cell by cell: every text by the first format that fits it, only the others by the
  guess. The counts behind the warning of mixed formats are exact: the formats that read some cell, the cells guessed.\<close>

lemma dates_are_read_cellwise:
  "parse_dates_ex parse guess col =
     (map (read_date parse guess) col, card (formats_used parse DATE_FORMATS col),
      length (filter (\<lambda>c. read_format parse DATE_FORMATS c = None \<and> read_date parse guess c \<noteq> None) col))"
proof -
  let ?s = "map (map_option u_strip) col"
  have ne: "map (\<lambda>c. c \<noteq> None \<and> c \<noteq> Some []) ?s = map (\<lambda>c. date_text c \<noteq> None) col"
    by (auto simp: date_text_def split: option.splits)
  have start: "loop_state parse [] col = (replicate (length ?s) None, map (\<lambda>c. date_text c \<noteq> None) col, 0)"
    by (simp add: loop_state_def formats_used_def List.map_filter_def map_replicate_const)
  have loop: "format_loop parse ?s DATE_FORMATS (loop_state parse [] col) = loop_state parse DATE_FORMATS col"
    using loop_correct [of "[]" DATE_FORMATS parse col] by (simp add: DATE_FORMATS_def)
  let ?left = "\<lambda>c. date_text c \<noteq> None \<and> read_format parse DATE_FORMATS c = None"
  let ?fb = "\<lambda>c. if ?left c then (case map_option u_strip c of Some t \<Rightarrow> guess t | None \<Rightarrow> None) else None"
  have fb: "map2 (\<lambda>c r. if r then (case c of Some t \<Rightarrow> guess t | None \<Rightarrow> None) else None) ?s (map ?left col) = map ?fb col"
    by (rule map2_map)
  have date: "read_date parse guess c =
    (if ?fb c \<noteq> None then ?fb c else map_option snd (read_format parse DATE_FORMATS c))" for c
    using read_format_text [of parse DATE_FORMATS c]
    by (auto simp: read_date_def date_text_def split: option.splits if_splits)
  have count: "(read_format parse DATE_FORMATS c = None \<and> read_date parse guess c \<noteq> None) = (?fb c \<noteq> None)" for c
    using read_format_text [of parse DATE_FORMATS c]
    by (auto simp: date date_text_def split: option.splits if_splits)
  have guessed: "length (filter id (map (\<lambda>p. p \<noteq> None) (map ?fb col))) = length (filter (\<lambda>c. ?fb c \<noteq> None) col)"
    by (simp add: filter_map comp_def)
  have dates: "map (read_date parse guess) col =
    mask (map (\<lambda>p. p \<noteq> None) (map ?fb col)) (map ?fb col) (map (\<lambda>c. map_option snd (read_format parse DATE_FORMATS c)) col)"
    unfolding map_map comp_def mask_map by (intro map_cong refl) (rule date)
  show ?thesis
  proof (cases "True \<in> set (map (\<lambda>c. date_text c \<noteq> None) col)")
    case False
    then have "date_text c = None" if "c \<in> set col" for c using that by auto
    then have none: "read_date parse guess c = None" "read_format parse DATE_FORMATS c = None" if "c \<in> set col" for c
      using that by (simp_all add: read_date_def)
    then have "map (read_date parse guess) col = replicate (length ?s) None" "formats_used parse DATE_FORMATS col = {}"
      "filter (\<lambda>c. read_format parse DATE_FORMATS c = None \<and> read_date parse guess c \<noteq> None) col = []"
      by (auto simp: formats_used_iff filter_empty_conv map_replicate_const [symmetric])
    with False show ?thesis unfolding parse_dates_ex_def Let_def ne by simp
  next
    case True
    have all: "parse_dates_ex parse guess col =
      (if True \<in> set (map ?left col)
       then if True \<in> set (map (\<lambda>p. p \<noteq> None) (map ?fb col))
            then (map (read_date parse guess) col, card (formats_used parse DATE_FORMATS col), length (filter (\<lambda>c. ?fb c \<noteq> None) col))
            else (map (\<lambda>c. map_option snd (read_format parse DATE_FORMATS c)) col, card (formats_used parse DATE_FORMATS col), 0)
       else (map (\<lambda>c. map_option snd (read_format parse DATE_FORMATS c)) col, card (formats_used parse DATE_FORMATS col), 0))"
      unfolding parse_dates_ex_def Let_def ne start [symmetric] loop dates guessed [symmetric]
      using True by (simp only: loop_state_def prod.case fb if_True if_False not_True_eq_False)
    have unguessed: "map (\<lambda>c. map_option snd (read_format parse DATE_FORMATS c)) col = map (read_date parse guess) col"
      "filter (\<lambda>c. ?fb c \<noteq> None) col = []" if "\<not> (\<exists>c \<in> set col. ?fb c \<noteq> None)"
    proof -
      show "filter (\<lambda>c. ?fb c \<noteq> None) col = []" using that by (simp only: filter_empty_conv) blast
      show "map (\<lambda>c. map_option snd (read_format parse DATE_FORMATS c)) col = map (read_date parse guess) col"
      proof (intro map_cong refl)
        fix c assume "c \<in> set col"
        with that have "\<not> ?fb c \<noteq> None" by blast
        from date [of c, unfolded if_not_P [OF this]] show "map_option snd (read_format parse DATE_FORMATS c) = read_date parse guess c" by (rule sym)
      qed
    qed
    have left: "True \<in> set (map ?left col)" if "\<exists>c \<in> set col. ?fb c \<noteq> None" using that by (force simp: image_iff split: if_splits)
    have some: "True \<in> set (map (\<lambda>p. p \<noteq> None) (map ?fb col)) \<longleftrightarrow> (\<exists>c \<in> set col. ?fb c \<noteq> None)"
      unfolding map_map comp_def by (rule True_in_map)
    show ?thesis
    proof (cases "\<exists>c \<in> set col. ?fb c \<noteq> None")
      case True
      from all show ?thesis unfolding count if_P [OF left [OF True]] some if_P [OF True] .
    next
      case False
      from all show ?thesis unfolding count some if_not_P [OF False] if_cancel unguessed [OF False] list.size .
    qed
  qed
qed

section \<open>Headers\<close>

text \<open>What a search for a free column may return: a column that fits and is free, or nothing when all that fit are used.\<close>

definition searched :: "utext list \<Rightarrow> utext list \<Rightarrow> (utext \<Rightarrow> bool) \<Rightarrow> utext option \<Rightarrow> bool" where
  "searched columns used P r =
     (case r of
        Some c \<Rightarrow> c \<in> set columns \<and> c \<notin> set used \<and> P c
      | None \<Rightarrow> (\<forall>c \<in> set columns. P c \<longrightarrow> c \<in> set used))"

lemma searched_Some [simp]: "searched columns used P (Some c) = (c \<in> set columns \<and> c \<notin> set used \<and> P c)"
  by (simp add: searched_def)

lemma searched_None [simp]: "searched columns used P None = (\<forall>c \<in> set columns. P c \<longrightarrow> c \<in> set used)"
  by (simp add: searched_def)

lemma next_free_searched:
  assumes "\<not> P []"
  shows "searched columns used P (next_free P columns used)"
proof (cases "List.find (\<lambda>c. P c \<and> c \<notin> set used) (dict_keys columns)")
  case None
  then have "\<forall>c \<in> set columns. P c \<longrightarrow> c \<in> set used" by (auto simp: find_None_iff)
  then show ?thesis by (simp add: next_free_def None)
next
  case (Some c)
  from find_SomeD [OF this] assms show ?thesis by (auto simp: next_free_def Some)
qed

definition exactly :: "(utext \<Rightarrow> utext) \<Rightarrow> string \<Rightarrow> utext \<Rightarrow> bool" where
  "exactly nfkd a c = (norm_text nfkd c = utext_of a)"

definition partially :: "(utext \<Rightarrow> utext) \<Rightarrow> string \<Rightarrow> utext \<Rightarrow> bool" where
  "partially nfkd a c = (4 \<le> length a \<and> sublist (utext_of a) (norm_text nfkd c))"

text \<open>A way to try an alias on the columns not used yet.\<close>

definition tries :: "(utext list \<Rightarrow> string \<Rightarrow> utext option) \<Rightarrow> (string \<Rightarrow> utext \<Rightarrow> bool) \<Rightarrow> utext list \<Rightarrow> bool" where
  "tries try fits columns = (\<forall>used a. a \<noteq> [] \<longrightarrow> searched columns used (fits a) (try used a))"

lemma norm_empty: "nfkd [] = [] \<Longrightarrow> norm_text nfkd [] = []"
  by (simp add: norm_text_def)

lemma utext_of_empty [simp]: "utext_of a = [] \<longleftrightarrow> a = []" "[] = utext_of a \<longleftrightarrow> a = []"
  by (auto simp: utext_of_def)

lemma exact_tries:
  assumes "nfkd [] = []"
  shows "tries (exact_alias nfkd columns) (exactly nfkd) columns"
  unfolding tries_def exact_alias_def exactly_def using norm_empty [of nfkd, OF assms]
  by (intro allI impI next_free_searched) simp

lemma part_tries:
  assumes "nfkd [] = []"
  shows "tries (part_alias nfkd columns) (partially nfkd) columns"
  unfolding tries_def
proof (intro allI impI)
  fix used and a :: string assume "a \<noteq> []"
  then have "\<not> sublist (utext_of a) (norm_text nfkd [])" by (simp add: norm_empty [of nfkd, OF assms])
  from next_free_searched [where P = "\<lambda>c. sublist (utext_of a) (norm_text nfkd c)", OF this]
  show "searched columns used (partially nfkd a) (part_alias nfkd columns used a)"
    by (cases "length a < 4") (simp_all add: part_alias_def partially_def [abs_def] not_less)
qed

lemma first_alias_searched:
  assumes "tries try fits columns" and "[] \<notin> set as"
  shows "searched columns used (\<lambda>c. \<exists>a \<in> set as. fits a c) (first_alias (try used) as)"
  using assms(2)
proof (induction as)
  case (Cons a as)
  then have "a \<noteq> []" by auto
  with assms(1) have "searched columns used (fits a) (try used a)" unfolding tries_def by blast
  with Cons show ?case by (cases "try used a"; cases "first_alias (try used) as") auto
qed simp

definition mapping_ok :: "utext list \<Rightarrow> mapping \<Rightarrow> bool" where
  "mapping_ok columns m = (distinct (map fst m) \<and> distinct (map snd m) \<and> snd ` set m \<subseteq> set columns)"

text \<open>What a pass may do to the mapping: it stays one-to-one, what is new fits an alias of its column, and what is still
  missing fits no free column.\<close>

definition passed ::
  "(string \<Rightarrow> utext \<Rightarrow> bool) \<Rightarrow> utext list \<Rightarrow> (canon \<times> string list) list \<Rightarrow> mapping \<Rightarrow> mapping \<Rightarrow> bool" where
  "passed fits columns cas m m' =
     (mapping_ok columns m' \<and> set m \<subseteq> set m' \<and>
      (\<forall>k c. (k, c) \<in> set m' \<longrightarrow> (k, c) \<in> set m \<or> (k \<notin> fst ` set m \<and> (\<exists>as. (k, as) \<in> set cas \<and> (\<exists>a \<in> set as. fits a c)))) \<and>
      (\<forall>k as c. (k, as) \<in> set cas \<longrightarrow> k \<notin> fst ` set m' \<longrightarrow> c \<in> set columns \<longrightarrow> (\<exists>a \<in> set as. fits a c) \<longrightarrow> c \<in> snd ` set m'))"

lemma map_step_passed:
  assumes tries: "tries try fits columns" and as: "[] \<notin> set as" and ok: "mapping_ok columns m"
  shows "passed fits columns [(k, as)] m (map_step try (k, as) m)"
proof -
  note s = first_alias_searched [OF tries as, of "map snd m"]
  consider "k \<in> fst ` set m" | "k \<notin> fst ` set m" "first_alias (try (map snd m)) as = None"
    | c where "k \<notin> fst ` set m" "first_alias (try (map snd m)) as = Some c" by blast
  then show ?thesis
  proof cases
    case 1
    then show ?thesis using ok by (auto simp: passed_def map_step_def)
  next
    case 2
    then show ?thesis using ok s by (auto simp: passed_def map_step_def)
  next
    case (3 c)
    then have "c \<in> set columns" "c \<notin> snd ` set m" "\<exists>a \<in> set as. fits a c" using s by simp_all
    with 3 ok show ?thesis by (auto simp: passed_def map_step_def mapping_ok_def)
  qed
qed

lemma passedD:
  assumes "passed fits columns cas m m'"
  shows "mapping_ok columns m'" and "set m \<subseteq> set m'"
    and "(k, c) \<in> set m' \<Longrightarrow> (k, c) \<in> set m \<or> (k \<notin> fst ` set m \<and> (\<exists>as. (k, as) \<in> set cas \<and> (\<exists>a \<in> set as. fits a c)))"
    and "(k, as) \<in> set cas \<Longrightarrow> k \<notin> fst ` set m' \<Longrightarrow> c \<in> set columns \<Longrightarrow> \<exists>a \<in> set as. fits a c \<Longrightarrow> c \<in> snd ` set m'"
  using assms unfolding passed_def by simp_all

lemma passed_trans:
  assumes "passed fits columns [ca] m m1" and "passed fits columns cas m1 m2"
  shows "passed fits columns (ca # cas) m m2"
proof -
  note p1 = passedD [OF assms(1)] and p2 = passedD [OF assms(2)]
  note sub = p1(2) p2(2)
  have "(k, c) \<in> set m \<or> (k \<notin> fst ` set m \<and> (\<exists>as. (k, as) \<in> set (ca # cas) \<and> (\<exists>a \<in> set as. fits a c)))"
    if kc: "(k, c) \<in> set m2" for k c
  proof -
    consider "(k, c) \<in> set m1" | "k \<notin> fst ` set m1" "\<exists>as. (k, as) \<in> set cas \<and> (\<exists>a \<in> set as. fits a c)"
      using p2(3) [OF kc] by blast
    then show ?thesis
    proof cases
      case 1
      from p1(3) [OF this] show ?thesis by (simp only: list.set) blast
    next
      case 2
      with sub show ?thesis by (simp only: list.set) blast
    qed
  qed
  moreover have "c \<in> snd ` set m2"
    if k: "(k, as) \<in> set (ca # cas)" and new: "k \<notin> fst ` set m2" and c: "c \<in> set columns" "\<exists>a \<in> set as. fits a c" for k as c
  proof (cases "(k, as) = ca")
    case True
    have "k \<notin> fst ` set m1" using new sub by blast
    with p1(4) [OF _ _ c] True have "c \<in> snd ` set m1" by simp
    with sub show ?thesis by blast
  next
    case False
    with k have "(k, as) \<in> set cas" by simp
    from p2(4) [OF this new c] show ?thesis .
  qed
  ultimately show ?thesis unfolding passed_def using sub p2(1) by blast
qed

lemma passed_ok: "passed fits columns cas m m' \<Longrightarrow> mapping_ok columns m'"
  by (simp add: passed_def)

lemma map_pass:
  assumes tries: "tries try fits columns" and "mapping_ok columns m" and "\<forall>ca \<in> set cas. [] \<notin> set (snd ca)"
  shows "passed fits columns cas m (fold (map_step try) cas m)"
  using assms(2,3)
proof (induction cas arbitrary: m)
  case Nil
  then show ?case by (simp add: passed_def)
next
  case (Cons ca cas)
  have "passed fits columns [ca] m (map_step try ca m)"
    using map_step_passed [OF tries _ Cons.prems(1), of "snd ca" "fst ca"] Cons.prems(2) by simp
  moreover from this have "passed fits columns cas (map_step try ca m) (fold (map_step try) cas (map_step try ca m))"
    using Cons.prems(2) by (intro Cons.IH) (auto dest: passed_ok)
  ultimately show ?case using passed_trans by fastforce
qed

lemma aliases_named: "\<forall>ca \<in> set ALIASES. [] \<notin> set (snd ca)" "distinct (map fst ALIASES)"
  by (simp_all add: ALIASES_def)

text \<open>The aliases of a column of the table.\<close>

definition aliases :: "canon \<Rightarrow> string list" where
  "aliases k = (case map_of ALIASES k of Some as \<Rightarrow> as | None \<Rightarrow> [])"

lemma aliases_in: "(k, aliases k) \<in> set ALIASES"
  by (cases k) (simp_all add: aliases_def ALIASES_def)

lemma aliases_only: "(k, as) \<in> set ALIASES \<Longrightarrow> as = aliases k"
  using aliases_named(2) by (simp add: aliases_def)

lemma detect_passes:
  assumes nfkd: "nfkd [] = []" and m: "detect_mapping nfkd columns = (m, unmapped)"
  shows "passed (exactly nfkd) columns ALIASES [] (fold (map_step (exact_alias nfkd columns)) ALIASES [])"
    and "passed (partially nfkd) columns ALIASES (fold (map_step (exact_alias nfkd columns)) ALIASES []) m"
proof -
  have m2: "m = fold (map_step (part_alias nfkd columns)) ALIASES (fold (map_step (exact_alias nfkd columns)) ALIASES [])"
    using m by (auto simp: detect_mapping_def Let_def)
  have "mapping_ok columns []" by (simp add: mapping_ok_def)
  then show p1: "passed (exactly nfkd) columns ALIASES [] (fold (map_step (exact_alias nfkd columns)) ALIASES [])"
    by (rule map_pass [OF exact_tries [of nfkd, OF nfkd] _ aliases_named(1)])
  show "passed (partially nfkd) columns ALIASES (fold (map_step (exact_alias nfkd columns)) ALIASES []) m"
    unfolding m2 by (rule map_pass [OF part_tries [of nfkd, OF nfkd] passed_ok [OF p1] aliases_named(1)])
qed

text \<open>The columns found are one-to-one: no column of the file feeds two columns of the table. Each was named by an
  alias, or contains one while every column an alias names exactly is taken; a column of the table that was not found
  would have had nothing left to find; the rest is reported as unmapped.\<close>

theorem mapping_is_one_to_one:
  assumes nfkd: "nfkd [] = []" and m: "detect_mapping nfkd columns = (m, unmapped)"
  shows "distinct (map fst m) \<and> distinct (map snd m) \<and> snd ` set m \<subseteq> set columns \<and>
    unmapped = filter (\<lambda>c. c \<notin> snd ` set m) columns \<and>
    (\<forall>(k, c) \<in> set m. (\<exists>a \<in> set (aliases k). exactly nfkd a c) \<or>
      ((\<exists>a \<in> set (aliases k). partially nfkd a c) \<and>
       (\<forall>c' \<in> set columns. (\<exists>a \<in> set (aliases k). exactly nfkd a c') \<longrightarrow> c' \<in> snd ` set m))) \<and>
    (\<forall>k c. k \<notin> fst ` set m \<longrightarrow> c \<in> set columns \<longrightarrow>
      (\<exists>a \<in> set (aliases k). exactly nfkd a c \<or> partially nfkd a c) \<longrightarrow> c \<in> snd ` set m)"
proof -
  let ?m1 = "fold (map_step (exact_alias nfkd columns)) ALIASES []"
  have un: "unmapped = filter (\<lambda>c. c \<notin> snd ` set m) columns" using m by (auto simp: detect_mapping_def Let_def)
  note p1 = passedD [OF detect_passes(1) [of nfkd, OF nfkd m]] and p2 = passedD [OF detect_passes(2) [of nfkd, OF nfkd m]]
  have "(\<exists>a \<in> set (aliases k). exactly nfkd a c) \<or> ((\<exists>a \<in> set (aliases k). partially nfkd a c) \<and>
       (\<forall>c' \<in> set columns. (\<exists>a \<in> set (aliases k). exactly nfkd a c') \<longrightarrow> c' \<in> snd ` set m))"
    if "(k, c) \<in> set m" for k c
  proof -
    from p2(3) [OF that] consider "(k, c) \<in> set ?m1" | as where "k \<notin> fst ` set ?m1" "(k, as) \<in> set ALIASES" "\<exists>a \<in> set as. partially nfkd a c"
      by blast
    then show ?thesis
    proof cases
      case 1
      from p1(3) [OF this] show ?thesis using aliases_only by auto
    next
      case (2 as)
      have "c' \<in> snd ` set m" if "c' \<in> set columns" "\<exists>a \<in> set (aliases k). exactly nfkd a c'" for c'
        using p1(4) [OF aliases_in 2(1) that] p2(2) by blast
      with 2 aliases_only show ?thesis by blast
    qed
  qed
  moreover have "c \<in> snd ` set m"
    if "k \<notin> fst ` set m" "c \<in> set columns" "\<exists>a \<in> set (aliases k). exactly nfkd a c \<or> partially nfkd a c" for k c
  proof -
    have "k \<notin> fst ` set ?m1" using that(1) p2(2) by blast
    with that show ?thesis using p1(4) [OF aliases_in, of k c] p2(4) [OF aliases_in, of k c] p2(2) by blast
  qed
  moreover have "distinct (map fst m) \<and> distinct (map snd m) \<and> snd ` set m \<subseteq> set columns" using p2(1) by (simp add: mapping_ok_def)
  ultimately show ?thesis using un by blast
qed

text \<open>The Polish letter \<open>U+0142\<close> has no decomposition, so it is dropped and the alias written without it is missed: an unpaid
  order counts as completed.\<close>

definition unpaid_word :: utext where
  "unpaid_word = utext_of ''nieop'' @ [322] @ utext_of ''acone''"

lemma unpaid_counts_as_completed:
  assumes "nfkd unpaid_word = unpaid_word"
  shows "status_of nfkd unpaid_word = utext_of ''completed''" and "status_of id (utext_of ''nieoplacone'') = utext_of ''pending''"
proof -
  have "norm_text nfkd unpaid_word = utext_of ''nieopacone''"
    by (simp add: norm_text_def assms) (simp add: unpaid_word_def utext_of_def norm_char_def)
  then show "status_of nfkd unpaid_word = utext_of ''completed''"
    unfolding status_of_def completed_def by (simp add: STATUS_MAP_def utext_of_def)
  show "status_of id (utext_of ''nieoplacone'') = utext_of ''pending''" by code_simp
qed

section \<open>Example\<close>

definition demo_headers :: "utext list" where
  "demo_headers = map utext_of [''Data zakupu'', ''Kwota brutto (PLN)'', ''Nr zamowienia'', ''Uwagi'', ''Cena'']"

theorem mapping_is_one_to_one_witness:
  "\<exists>m unmapped. detect_mapping id demo_headers = (m, unmapped) \<and> distinct (map snd m) \<and>
    (Date \<in> fst ` set m \<or> utext_of ''Data zakupu'' \<in> snd ` set m) \<and> unmapped = filter (\<lambda>c. c \<notin> snd ` set m) demo_headers"
proof -
  obtain m unmapped where m: "detect_mapping id demo_headers = (m, unmapped)" by fastforce
  have "''datazakupu'' \<in> set (aliases Date)" "exactly id ''datazakupu'' (utext_of ''Data zakupu'')" by code_simp+
  moreover have "utext_of ''Data zakupu'' \<in> set demo_headers" by (simp add: demo_headers_def)
  moreover note mapping_is_one_to_one [OF _ m]
  ultimately have "Date \<in> fst ` set m \<or> utext_of ''Data zakupu'' \<in> snd ` set m" "distinct (map snd m)"
    "unmapped = filter (\<lambda>c. c \<notin> snd ` set m) demo_headers" by (blast | simp)+
  with m show ?thesis by blast
qed

end
