(* ===== verification/OrderSafety.thy ===== *)
theory OrderSafety
  imports OrderTable ColumnSafety
begin

text \<open>
  The table of orders row by row: what \<open>map_dataframe\<close> computes column by column is, for every row of the file, a function
  of that row's cells alone, and every row of the result is well-formed.
\<close>

section \<open>One row of the file\<close>

definition source_columns :: "frame \<Rightarrow> mapping \<Rightarrow> out_columns" where
  "source_columns df m k = Option.bind (map_of m k) (map_of (stripped df))"

definition cell_at :: "out_columns \<Rightarrow> canon \<Rightarrow> nat \<Rightarrow> utext option" where
  "cell_at raw k i = (case raw k of Some xs \<Rightarrow> xs ! i | None \<Rightarrow> None)"

definition number_at :: "(nat \<Rightarrow> nat option) \<Rightarrow> out_columns \<Rightarrow> canon \<Rightarrow> nat \<Rightarrow> rat option" where
  "number_at dv raw k i = to_number dv (text_cell (cell_at raw k i))"

definition cost_at :: "(nat \<Rightarrow> nat option) \<Rightarrow> out_columns \<Rightarrow> nat \<Rightarrow> rat \<Rightarrow> rat" where
  "cost_at dv raw i r =
     (if raw Cost \<noteq> None then fill 0 (number_at dv raw Cost i)
      else case number_at dv raw Profit i of Some p \<Rightarrow> r - p | None \<Rightarrow> 0)"

definition order_at ::
  "(rat \<Rightarrow> int) \<Rightarrow> (utext \<Rightarrow> utext) \<Rightarrow> (nat \<Rightarrow> nat option) \<Rightarrow> (string \<Rightarrow> utext \<Rightarrow> stamp option) \<Rightarrow> (utext \<Rightarrow> stamp option) \<Rightarrow>
   out_columns \<Rightarrow> nat \<Rightarrow> order option" where
  "order_at wild nfkd dv parse guess raw i =
     (case (read_date parse guess (cell_at raw Date i), number_at dv raw Revenue i) of
        (Some t, Some r) \<Rightarrow>
          Some \<lparr>or_order_id = u_strip (if raw OrderId = None then row_id i
                                      else case cell_at raw OrderId i of Some s \<Rightarrow> s | None \<Rightarrow> utext_of ''nan''),
                or_date = t div days 1,
                or_product = filled_text (utext_of ''Produkt'') (cell_at raw Product i),
                or_category = (let s = filled_text (utext_of ''Inne'') (cell_at raw Category i) in if s = [] then utext_of ''Inne'' else s),
                or_quantity = to_int64 wild (max 1 (fill 1 (number_at dv raw Quantity i))),
                or_revenue = r, or_cost = cost_at dv raw i r,
                or_profit = fill (r - cost_at dv raw i r) (number_at dv raw Profit i),
                or_discount = discount_of (number_at dv raw Discount i),
                or_status = status_of nfkd (case cell_at raw Status i of Some s \<Rightarrow> s | None \<Rightarrow> completed)\<rparr>
      | _ \<Rightarrow> None)"

definition frame_ok :: "frame \<Rightarrow> bool" where
  "frame_ok df = (\<forall>(c, xs) \<in> set (fr_columns df). length xs = fr_height df)"

section \<open>Columns are read cell by cell\<close>

lemma numbers_cellwise: "numbers dv raw k = map_option (map (\<lambda>c. to_number dv (text_cell c))) (raw k)"
  using number_column_is_cellwise [of dv]
  by (cases "raw k") (simp_all add: numbers_def number_column_def to_number_series_def)

lemma to_number_Missing [simp]: "to_number dv Missing = None"
  by (simp add: to_number_def parse_number_def)

lemma number_at_none [simp]: "raw k = None \<Longrightarrow> number_at dv raw k i = None"
  by (simp add: number_at_def cell_at_def text_cell_def)

definition raw_ok :: "out_columns \<Rightarrow> nat \<Rightarrow> bool" where
  "raw_ok raw n = (\<forall>k xs. raw k = Some xs \<longrightarrow> length xs = n)"

lemma numbers_nth: "raw k = Some xs \<Longrightarrow> i < length xs \<Longrightarrow> the (numbers dv raw k) ! i = number_at dv raw k i"
  by (simp add: numbers_cellwise number_at_def cell_at_def)

lemma draft_nth:
  assumes raw: "raw_ok raw n" and i: "i < n" and rev: "raw Revenue \<noteq> None"
  shows "order_ids raw n ! i = u_strip (if raw OrderId = None then row_id i
          else case cell_at raw OrderId i of Some s \<Rightarrow> s | None \<Rightarrow> utext_of ''nan'')"
    and "quantities wild dv raw n ! i = to_int64 wild (max 1 (fill 1 (number_at dv raw Quantity i)))"
    and "products raw n ! i = filled_text (utext_of ''Produkt'') (cell_at raw Product i)"
    and "categories raw n ! i =
      (let s = filled_text (utext_of ''Inne'') (cell_at raw Category i) in if s = [] then utext_of ''Inne'' else s)"
    and "discounts dv raw n ! i = discount_of (number_at dv raw Discount i)"
    and "statuses nfkd raw n ! i = status_of nfkd (case cell_at raw Status i of Some s \<Rightarrow> s | None \<Rightarrow> completed)"
proof -
  have len: "length xs = n" if "raw k = Some xs" for k xs using raw that by (simp add: raw_ok_def)
  show "order_ids raw n ! i = u_strip (if raw OrderId = None then row_id i
          else case cell_at raw OrderId i of Some s \<Rightarrow> s | None \<Rightarrow> utext_of ''nan'')"
    using i len [of OrderId] by (cases "raw OrderId") (simp_all add: order_ids_def cell_at_def)
  show "quantities wild dv raw n ! i = to_int64 wild (max 1 (fill 1 (number_at dv raw Quantity i)))"
    using i len [of Quantity] by (cases "raw Quantity") (simp_all add: quantities_def numbers_cellwise number_at_def cell_at_def fill_def text_cell_def)
  show "products raw n ! i = filled_text (utext_of ''Produkt'') (cell_at raw Product i)"
    using i len [of Product] by (cases "raw Product") (simp_all add: products_def cell_at_def filled_text_def Let_def)
  show "categories raw n ! i =
      (let s = filled_text (utext_of ''Inne'') (cell_at raw Category i) in if s = [] then utext_of ''Inne'' else s)"
    using i len [of Category] by (cases "raw Category") (simp_all add: categories_def cell_at_def filled_text_def Let_def)
  show "discounts dv raw n ! i = discount_of (number_at dv raw Discount i)"
    using i len [of Discount] by (cases "raw Discount") (simp_all add: discounts_def numbers_cellwise number_at_def cell_at_def discount_of_def fill_def text_cell_def)
  show "statuses nfkd raw n ! i = status_of nfkd (case cell_at raw Status i of Some s \<Rightarrow> s | None \<Rightarrow> completed)"
    using i len [of Status] by (cases "raw Status") (simp_all add: statuses_def statuses_cellwise cell_at_def)
qed

lemma cost_nth:
  assumes raw: "raw_ok raw n" and i: "i < n" and rev: "raw Revenue \<noteq> None" and r: "number_at dv raw Revenue i = Some r"
  shows "costs (the (numbers dv raw Revenue)) (numbers dv raw Cost) (numbers dv raw Profit) ! i = cost_at dv raw i r"
proof -
  have len: "length xs = n" if "raw k = Some xs" for k xs using raw that by (simp add: raw_ok_def)
  obtain rs where rs: "raw Revenue = Some rs" using rev by blast
  have r': "to_number dv (text_cell (rs ! i)) = Some r" using r by (simp add: number_at_def cell_at_def rs)
  show ?thesis
    using i len [OF rs] len [of Cost] len [of Profit] r'
    by (cases "raw Cost"; cases "raw Profit")
      (simp_all add: costs_def numbers_cellwise rs cost_at_def number_at_def cell_at_def minus_missing_def fill_def text_cell_def
        split: option.split)
qed

lemma length_costs:
  assumes "raw_ok raw n" and "raw Revenue \<noteq> None"
  shows "length (costs (the (numbers dv raw Revenue)) (numbers dv raw Cost) (numbers dv raw Profit)) = n"
proof -
  have len: "length xs = n" if "raw k = Some xs" for k xs using assms(1) that by (simp add: raw_ok_def)
  show ?thesis using assms(2) len
    by (cases "raw Revenue"; cases "raw Cost"; cases "raw Profit") (simp_all add: costs_def numbers_cellwise)
qed

lemma profit_nth:
  assumes raw: "raw_ok raw n" and i: "i < n" and rev: "raw Revenue \<noteq> None" and r: "number_at dv raw Revenue i = Some r"
  shows "profits (the (numbers dv raw Revenue)) (costs (the (numbers dv raw Revenue)) (numbers dv raw Cost) (numbers dv raw Profit))
      (numbers dv raw Profit) ! i = Some (fill (r - cost_at dv raw i r) (number_at dv raw Profit i))"
proof -
  have len: "length xs = n" if "raw k = Some xs" for k xs using raw that by (simp add: raw_ok_def)
  obtain rs where rs: "raw Revenue = Some rs" using rev by blast
  have r': "to_number dv (text_cell (rs ! i)) = Some r" using r by (simp add: number_at_def cell_at_def rs)
  note c = cost_nth [OF assms] and lc = length_costs [OF raw rev, of dv]
  let ?cs = "costs (the (numbers dv raw Revenue)) (numbers dv raw Cost) (numbers dv raw Profit)"
  have gain: "map2 (\<lambda>r c. minus_missing r (Some c)) (the (numbers dv raw Revenue)) ?cs ! i = Some (r - cost_at dv raw i r)"
    using i len [OF rs] lc c r' by (simp add: numbers_cellwise rs minus_missing_def)
  have lg: "length (map2 (\<lambda>r c. minus_missing r (Some c)) (the (numbers dv raw Revenue)) ?cs) = n"
    using len [OF rs] lc by (simp add: numbers_cellwise rs)
  show ?thesis
  proof (cases "raw Profit")
    case None
    then have "numbers dv raw Profit = None" by (simp add: numbers_cellwise)
    with None gain show ?thesis by (simp add: profits_def fill_def)
  next
    case (Some ps)
    then have "numbers dv raw Profit = Some (map (\<lambda>c. to_number dv (text_cell c)) ps)" by (simp add: numbers_cellwise)
    with gain lg i len [OF Some] show ?thesis
      unfolding profits_def Let_def number_at_def cell_at_def Some
      by (simp add: fill_def split: option.split)
  qed
qed

text \<open>The drafts that survive the two filters, as orders, are the orders of the rows.\<close>

lemma draft_order:
  assumes raw: "raw_ok raw n" and i: "i < n" and rev: "raw Revenue \<noteq> None" and ds: "raw Date = Some ds"
    and drafts: "drafts = draft_rows wild nfkd dv raw (the (numbers dv raw Revenue)) (map (read_date parse guess) ds) n"
    and d: "d = drafts ! i"
  shows "order_at wild nfkd dv parse guess raw i =
    (if dr_date d \<noteq> None \<and> dr_revenue d \<noteq> None then Some (order_of d) else None)"
proof -
  have len: "length xs = n" if "raw k = Some xs" for k xs using raw that by (simp add: raw_ok_def)
  obtain rs where rs: "raw Revenue = Some rs" using rev by blast
  have revenue: "the (numbers dv raw Revenue) ! i = number_at dv raw Revenue i"
    using i len [OF rs] numbers_nth [of raw Revenue rs i dv, OF rs] by simp
  have date: "map (read_date parse guess) ds ! i = read_date parse guess (cell_at raw Date i)"
    using i len [OF ds] by (simp add: cell_at_def ds)
  note draft = draft_nth [OF raw i rev]
  have dd: "dr_date d = map_option (\<lambda>t. t div days 1) (read_date parse guess (cell_at raw Date i))"
    and dr: "dr_revenue d = number_at dv raw Revenue i"
    and rest: "dr_order_id d = order_ids raw n ! i" "dr_product d = products raw n ! i" "dr_category d = categories raw n ! i"
      "dr_quantity d = quantities wild dv raw n ! i" "dr_discount d = discounts dv raw n ! i" "dr_status d = statuses nfkd raw n ! i"
      "dr_cost d = costs (the (numbers dv raw Revenue)) (numbers dv raw Cost) (numbers dv raw Profit) ! i"
      "dr_profit d = profits (the (numbers dv raw Revenue)) (costs (the (numbers dv raw Revenue)) (numbers dv raw Cost)
         (numbers dv raw Profit)) (numbers dv raw Profit) ! i"
    using i by (simp_all only: d drafts draft_rows_def Let_def nth_map length_upt nth_upt diff_zero add_0 draft.simps date revenue)
  show ?thesis
  proof (cases "\<exists>t r. read_date parse guess (cell_at raw Date i) = Some t \<and> number_at dv raw Revenue i = Some r")
    case True
    then obtain t r where t: "read_date parse guess (cell_at raw Date i) = Some t" and r: "number_at dv raw Revenue i = Some r" by blast
    show ?thesis
      unfolding order_at_def t r order_of_def rest draft cost_nth [OF raw i rev r] profit_nth [OF raw i rev r] dd dr by simp
  next
    case False
    then show ?thesis
      by (cases "read_date parse guess (cell_at raw Date i)"; cases "number_at dv raw Revenue i") (simp_all add: order_at_def dd dr)
  qed
qed

lemma map_keep_first: "(\<And>x. key' (f x) = key x) \<Longrightarrow> map f (keep_first key xs) = keep_first key' (map f xs)"
  by (induction key xs rule: keep_first.induct) (simp_all add: filter_map comp_def)

lemma length_keep_first: "length (keep_first key xs) \<le> length xs"
  by (induction key xs rule: keep_first.induct) (auto intro: order_trans [OF _ length_filter_le])

lemma set_keep_first: "set (keep_first key xs) \<subseteq> set xs"
  by (induction key xs rule: keep_first.induct) auto

lemma keys_keep_first: "key ` set (keep_first key xs) = key ` set xs"
  by (induction key xs rule: keep_first.induct) (auto simp: image_iff)

lemma distinct_keep_first: "distinct (map key (keep_first key xs))"
proof (induction key xs rule: keep_first.induct)
  case (2 key x xs)
  have "key x \<notin> key ` set (keep_first key (filter (\<lambda>y. key y \<noteq> key x) xs))" by (auto simp: keys_keep_first)
  with 2 show ?case by simp
qed simp

lemma map_filter_nth:
  assumes "\<And>i. i < length ds \<Longrightarrow> f i = (if P (ds ! i) then Some (g (ds ! i)) else None)"
  shows "List.map_filter f [0..<length ds] = map g (filter P ds)"
  using assms
proof (induction ds rule: rev_induct)
  case (snoc d ds)
  have "f i = (if P (ds ! i) then Some (g (ds ! i)) else None)" if "i < length ds" for i
    using snoc.prems [of i] that by (simp add: nth_append)
  with snoc.IH have "List.map_filter f [0..<length ds] = map g (filter P ds)" by blast
  moreover have "f (length ds) = (if P d then Some (g d) else None)" using snoc.prems [of "length ds"] by simp
  ultimately show ?case by (simp add: List.map_filter_def)
qed (simp add: List.map_filter_def)

lemma column_named_Inr:
  assumes "column_named cols c = Inr xs"
  shows "map_of cols c = Some xs" and "(c, xs) \<in> set cols"
proof -
  obtain c' where f: "filter (\<lambda>p. fst p = c) cols = [(c', xs)]"
    using assms by (auto simp: column_named_def split: list.splits)
  then have c: "(c', xs) \<in> {p \<in> set cols. fst p = c}" by (metis list.set_intros(1) set_filter)
  then show "(c, xs) \<in> set cols" by auto
  have "map_of cols c = map_of (filter (\<lambda>p. fst p = c) cols) c" by (induction cols) auto
  with f c show "map_of cols c = Some xs" by simp
qed

lemma select_columns_Inr:
  "select_columns cols m = Inr out \<Longrightarrow> map_of out = (\<lambda>k. Option.bind (map_of m k) (map_of cols))"
proof (induction m arbitrary: out)
  case (Cons p m)
  obtain k c where p: "p = (k, c)" by (cases p)
  from Cons.prems obtain xs out' where xs: "column_named cols c = Inr xs" and out': "select_columns cols m = Inr out'"
    and out: "out = (k, xs) # out'" by (auto simp: p split: sum.splits)
  with Cons.IH [OF out'] column_named_Inr(1) [OF xs] show ?case by (auto simp: p)
qed simp

lemma source_raw_ok:
  assumes "frame_ok df"
  shows "raw_ok (source_columns df m) (fr_height df)"
  using assms by (fastforce simp: raw_ok_def source_columns_def frame_ok_def stripped_def bind_eq_Some_conv dest!: map_of_SomeD)

lemma mixed_warning:
  "Mixed_dates \<in> set (table_warnings dv raw formats (length (filter P xs)) a b c d) \<longleftrightarrow> 1 < formats \<or> (\<exists>x \<in> set xs. P x)"
proof -
  have "Mixed_dates \<notin> set (number_warnings dv raw k)" for k
    by (auto simp: number_warnings_def split: option.splits prod.splits)
  then show ?thesis by (auto simp: table_warnings_def warned_def filter_empty_conv)
qed

text \<open>What an accepted file gives.\<close>

lemma map_dataframe_Inr:
  assumes "map_dataframe wild nfkd dv parse guess df = Inr (rows, rep)"
  obtains m unmapped raw ds drafts kept where
    "detect_mapping nfkd (map fst (stripped df)) = (m, unmapped)" "raw = source_columns df m"
    "raw Revenue \<noteq> None" "raw Date = Some ds"
    "drafts = draft_rows wild nfkd dv raw (the (numbers dv raw Revenue)) (map (read_date parse guess) ds) (fr_height df)"
    "kept = keep_first dr_order_id (filter (\<lambda>d. dr_revenue d \<noteq> None) (filter (\<lambda>d. dr_date d \<noteq> None) drafts))"
    "rows = map order_of kept" "rep_mapping rep = m" "rep_rows_in rep = fr_height df" "rep_rows_out rep = length kept"
    "Mixed_dates \<in> set (rep_warnings rep) \<longleftrightarrow>
       1 < card (formats_used parse DATE_FORMATS ds) \<or>
       (\<exists>c \<in> set ds. read_format parse DATE_FORMATS c = None \<and> read_date parse guess c \<noteq> None)"
proof -
  obtain m unmapped where m: "detect_mapping nfkd (map fst (stripped df)) = (m, unmapped)" by fastforce
  from assms obtain out where out: "select_columns (stripped df) m = Inr out"
    by (auto simp: map_dataframe_def Let_def m split: sum.splits)
  let ?raw = "source_columns df m"
  have raw: "map_of out = ?raw" by (rule ext) (simp add: select_columns_Inr [OF out] source_columns_def)
  from assms obtain rs ds where rs: "?raw Revenue = Some rs" and ds: "?raw Date = Some ds"
    unfolding map_dataframe_def Let_def m prod.case out sum.case raw by (auto split: option.splits)
  have "map_of out Revenue = Some rs" "map_of out Date = Some ds" using rs ds by (simp_all add: raw)
  note eq = assms [unfolded map_dataframe_def Let_def m prod.case out sum.case this option.case dates_are_read_cellwise,
    unfolded sum.inject prod.inject raw]
  note rows = conjunct1 [OF eq, symmetric] and rep = conjunct2 [OF eq, symmetric]
  show ?thesis
  proof (rule that [OF m refl _ ds refl refl rows])
    show "?raw Revenue \<noteq> None" using rs by simp
    show "rep_mapping rep = m" "rep_rows_in rep = fr_height df"
      "rep_rows_out rep = length (keep_first dr_order_id (filter (\<lambda>d. dr_revenue d \<noteq> None) (filter (\<lambda>d. dr_date d \<noteq> None)
        (draft_rows wild nfkd dv ?raw (the (numbers dv ?raw Revenue)) (map (read_date parse guess) ds) (fr_height df)))))"
      unfolding rep by (simp_all only: mapping_report.simps)
    show "Mixed_dates \<in> set (rep_warnings rep) \<longleftrightarrow> 1 < card (formats_used parse DATE_FORMATS ds) \<or>
       (\<exists>c \<in> set ds. read_format parse DATE_FORMATS c = None \<and> read_date parse guess c \<noteq> None)"
      unfolding rep by (simp only: mapping_report.simps mixed_warning)
  qed
qed

lemma table_rows:
  assumes ok: "frame_ok df" and run: "map_dataframe wild nfkd dv parse guess df = Inr (rows, rep)"
  defines "raw \<equiv> source_columns df (rep_mapping rep)"
  shows "rows = keep_first or_order_id (List.map_filter (order_at wild nfkd dv parse guess raw) [0..<fr_height df])"
    and "rep_rows_in rep = fr_height df" and "rep_rows_out rep = length rows" and "length rows \<le> fr_height df"
    and "Mixed_dates \<in> set (rep_warnings rep) \<longleftrightarrow>
       1 < card (formats_used parse DATE_FORMATS (the (raw Date))) \<or>
       (\<exists>c \<in> set (the (raw Date)). read_format parse DATE_FORMATS c = None \<and> read_date parse guess c \<noteq> None)"
proof -
  from run obtain m ds drafts kept where m: "rep_mapping rep = m" and rev: "source_columns df m Revenue \<noteq> None"
    and ds: "source_columns df m Date = Some ds"
    and drafts: "drafts = draft_rows wild nfkd dv (source_columns df m) (the (numbers dv (source_columns df m) Revenue))
      (map (read_date parse guess) ds) (fr_height df)"
    and kept: "kept = keep_first dr_order_id (filter (\<lambda>d. dr_revenue d \<noteq> None) (filter (\<lambda>d. dr_date d \<noteq> None) drafts))"
    and rows: "rows = map order_of kept" and rep: "rep_rows_in rep = fr_height df" "rep_rows_out rep = length kept"
    and mixed: "Mixed_dates \<in> set (rep_warnings rep) \<longleftrightarrow> 1 < card (formats_used parse DATE_FORMATS ds) \<or>
       (\<exists>c \<in> set ds. read_format parse DATE_FORMATS c = None \<and> read_date parse guess c \<noteq> None)"
    by (rule map_dataframe_Inr) blast
  have len: "length drafts = fr_height df" by (simp add: drafts draft_rows_def Let_def)
  have all: "List.map_filter (order_at wild nfkd dv parse guess (source_columns df m)) [0..<length drafts] =
    map order_of (filter (\<lambda>d. dr_date d \<noteq> None \<and> dr_revenue d \<noteq> None) drafts)"
  proof (rule map_filter_nth)
    fix i assume "i < length drafts"
    then show "order_at wild nfkd dv parse guess (source_columns df m) i =
      (if dr_date (drafts ! i) \<noteq> None \<and> dr_revenue (drafts ! i) \<noteq> None then Some (order_of (drafts ! i)) else None)"
      unfolding len by (rule draft_order [OF source_raw_ok [OF ok] _ rev ds drafts refl])
  qed
  have "rows = keep_first or_order_id (map order_of (filter (\<lambda>d. dr_date d \<noteq> None \<and> dr_revenue d \<noteq> None) drafts))"
    unfolding rows kept filter_filter
    by (subst map_keep_first [where key' = or_order_id]) (simp_all add: order_of_def conj_commute)
  then show "rows = keep_first or_order_id (List.map_filter (order_at wild nfkd dv parse guess raw) [0..<fr_height df])"
    unfolding raw_def m all [symmetric] len .
  show "rep_rows_in rep = fr_height df" "rep_rows_out rep = length rows" using rep by (simp_all add: rows)
  show "length rows \<le> fr_height df" unfolding rows kept length_map len [symmetric]
    by (intro order_trans [OF length_keep_first] order_trans [OF length_filter_le] length_filter_le)
  show "Mixed_dates \<in> set (rep_warnings rep) \<longleftrightarrow>
       1 < card (formats_used parse DATE_FORMATS (the (raw Date))) \<or>
       (\<exists>c \<in> set (the (raw Date)). read_format parse DATE_FORMATS c = None \<and> read_date parse guess c \<noteq> None)"
    unfolding raw_def m ds option.sel by (rule mixed)
qed

text \<open>C27. The table is the file read row by row: each row with a readable date and revenue becomes an order made of its own
  cells, with a missing cost or profit completed from the two others; the first of several rows with one number is kept,
  in the order of the file. The warning of mixed dates is given exactly when the dates have several formats or were guessed.\<close>

theorem table_is_read_row_by_row:
  assumes "frame_ok df" and "map_dataframe wild nfkd dv parse guess df = Inr (rows, rep)"
  shows "rows = keep_first or_order_id
      (List.map_filter (order_at wild nfkd dv parse guess (source_columns df (rep_mapping rep))) [0..<fr_height df]) \<and>
    (Mixed_dates \<in> set (rep_warnings rep) \<longleftrightarrow>
       1 < card (formats_used parse DATE_FORMATS (the (source_columns df (rep_mapping rep) Date))) \<or>
       (\<exists>c \<in> set (the (source_columns df (rep_mapping rep) Date)).
          read_format parse DATE_FORMATS c = None \<and> read_date parse guess c \<noteq> None))"
  using table_rows(1,5) [OF assms] by blast

lemma quantity_range:
  "x < 2 ^ 63 \<Longrightarrow> to_int64 wild (max 1 x) = max 1 \<lfloor>x\<rfloor> \<and> max 1 \<lfloor>x\<rfloor> < 2 ^ 63"
  "2 ^ 63 \<le> x \<Longrightarrow> to_int64 wild (max 1 x) = wild x"
proof -
  have "\<lfloor>max 1 x\<rfloor> = max 1 \<lfloor>x\<rfloor>"
  proof (cases "1 \<le> x")
    case True
    then show ?thesis by (simp add: max_def le_floor_iff)
  next
    case False
    then have "\<lfloor>x\<rfloor> < 1" by (simp add: floor_less_iff)
    with False show ?thesis by (simp add: max_def)
  qed
  then show "x < 2 ^ 63 \<Longrightarrow> to_int64 wild (max 1 x) = max 1 \<lfloor>x\<rfloor> \<and> max 1 \<lfloor>x\<rfloor> < 2 ^ 63"
    by (simp add: to_int64_def floor_less_iff)
  show "2 ^ 63 \<le> x \<Longrightarrow> to_int64 wild (max 1 x) = wild x"
    by (simp add: to_int64_def max_def)
qed

lemma order_at_Some:
  assumes "order_at wild nfkd dv parse guess raw i = Some r"
  shows "or_discount r = discount_of (number_at dv raw Discount i)"
    and "or_status r = status_of nfkd (case cell_at raw Status i of Some s \<Rightarrow> s | None \<Rightarrow> completed)"
    and "or_quantity r = to_int64 wild (max 1 (fill 1 (number_at dv raw Quantity i)))"
    and "or_category r \<noteq> []"
    and "\<exists>t. read_date parse guess (cell_at raw Date i) = Some t \<and> or_date r = t div days 1"
    and "number_at dv raw Revenue i = Some (or_revenue r)"
proof -
  from assms obtain t v where tv: "read_date parse guess (cell_at raw Date i) = Some t" "number_at dv raw Revenue i = Some v"
    by (auto simp: order_at_def split: option.splits)
  from assms have r: "r = the (order_at wild nfkd dv parse guess raw i)" by simp
  show "or_discount r = discount_of (number_at dv raw Discount i)"
    and "or_status r = status_of nfkd (case cell_at raw Status i of Some s \<Rightarrow> s | None \<Rightarrow> completed)"
    and "or_quantity r = to_int64 wild (max 1 (fill 1 (number_at dv raw Quantity i)))"
    unfolding r order_at_def tv by simp_all
  show "or_category r \<noteq> []" unfolding r order_at_def tv by (simp add: Let_def)
  show "\<exists>t. read_date parse guess (cell_at raw Date i) = Some t \<and> or_date r = t div days 1"
    and "number_at dv raw Revenue i = Some (or_revenue r)"
    unfolding r order_at_def tv by simp_all
qed

text \<open>C28. Every order of the table is well-formed: the numbers of the orders are distinct, the discount is a share between
  zero and one, the status one of the four known ones, the category not empty, and the order comes from a row of the file whose
  date can be read as its day and whose revenue is its revenue. Its quantity is that of the row (one where there is none),
  rounded down and at least one, a positive 64-bit integer, as long as the number in the cell is less than two to the sixty-third;
  from there on it is whatever the machine makes of the cast, which may be negative. The report counts the rows read and
  kept, and no more are kept than read.\<close>

theorem table_is_well_formed:
  assumes "frame_ok df" and "map_dataframe wild nfkd dv parse guess df = Inr (rows, rep)"
  shows "distinct (map or_order_id rows) \<and> rep_rows_in rep = fr_height df \<and> rep_rows_out rep = length rows \<and>
    rep_rows_out rep \<le> rep_rows_in rep \<and>
    (\<forall>r \<in> set rows. 0 \<le> or_discount r \<and> or_discount r \<le> 1 \<and> or_category r \<noteq> [] \<and>
       or_status r \<in> utext_of ` {''completed'', ''refunded'', ''cancelled'', ''pending''} \<and>
       (\<exists>i < fr_height df. let raw = source_columns df (rep_mapping rep);
            q = (case number_at dv raw Quantity i of None \<Rightarrow> 1 | Some x \<Rightarrow> x)
          in (\<exists>t. read_date parse guess (cell_at raw Date i) = Some t \<and> or_date r = t div days 1) \<and>
             number_at dv raw Revenue i = Some (or_revenue r) \<and>
             (q < 2 ^ 63 \<longrightarrow> or_quantity r = max 1 \<lfloor>q\<rfloor> \<and> or_quantity r < 2 ^ 63) \<and> (2 ^ 63 \<le> q \<longrightarrow> or_quantity r = wild q)))"
proof -
  note t = table_rows [OF assms]
  let ?raw = "source_columns df (rep_mapping rep)"
  let ?row = "\<lambda>i r. let q = (case number_at dv ?raw Quantity i of None \<Rightarrow> 1 | Some x \<Rightarrow> x)
          in (\<exists>t. read_date parse guess (cell_at ?raw Date i) = Some t \<and> or_date r = t div days 1) \<and>
             number_at dv ?raw Revenue i = Some (or_revenue r) \<and>
             (q < 2 ^ 63 \<longrightarrow> or_quantity r = max 1 \<lfloor>q\<rfloor> \<and> or_quantity r < 2 ^ 63) \<and> (2 ^ 63 \<le> q \<longrightarrow> or_quantity r = wild q)"
  have "0 \<le> or_discount r \<and> or_discount r \<le> 1 \<and> or_category r \<noteq> [] \<and>
       or_status r \<in> utext_of ` {''completed'', ''refunded'', ''cancelled'', ''pending''} \<and> (\<exists>i < fr_height df. ?row i r)"
    if "r \<in> set rows" for r
  proof -
    from that obtain i where i: "i < fr_height df" "order_at wild nfkd dv parse guess ?raw i = Some r"
      using t(1) set_keep_first by (fastforce simp: List.map_filter_def)
    note r = order_at_Some [OF i(2)]
    have fill: "fill 1 x = (case x of None \<Rightarrow> 1 | Some y \<Rightarrow> y)" for x :: "rat option" by (cases x) (simp_all add: fill_def)
    have "?row i r" unfolding Let_def using r(3,5,6) quantity_range by (simp add: fill)
    with i(1) have "\<exists>i < fr_height df. ?row i r" by blast
    moreover have "0 \<le> or_discount r" "or_discount r \<le> 1" by (simp_all add: r(1) discount_of_def Let_def)
    moreover have "or_status r \<in> utext_of ` {''completed'', ''refunded'', ''cancelled'', ''pending''}" using status_values by (simp add: r(2))
    ultimately show ?thesis using r(4) by blast
  qed
  with t show ?thesis using distinct_keep_first unfolding Let_def by metis
qed

section \<open>Example\<close>

text \<open>A file whose headers are distinct and name a date and a revenue exactly is accepted.\<close>

lemma select_columns_distinct:
  assumes "distinct (map fst cols)" and "snd ` set m \<subseteq> set (map fst cols)"
  shows "\<exists>out. select_columns cols m = Inr out"
  using assms(2)
proof (induction m)
  case (Cons p m)
  obtain k c where p: "p = (k, c)" by (cases p)
  then obtain xs where "(c, xs) \<in> set cols" using Cons.prems by auto
  then have "filter (\<lambda>p. fst p = c) cols = [(c, xs)]" using assms(1) by (induction cols) (force simp: filter_empty_conv)+
  then have "column_named cols c = Inr xs" by (simp add: column_named_def)
  with Cons p show ?case by auto
qed simp

lemma exact_column_found:
  assumes nfkd: "nfkd [] = []" and m: "detect_mapping nfkd columns = (m, unmapped)"
    and c: "c \<in> set columns" "exactly nfkd a c" "a \<in> set (aliases k)" and only: "\<And>k'. a \<in> set (aliases k') \<Longrightarrow> k' = k"
  shows "k \<in> fst ` set m"
proof -
  let ?m1 = "fold (map_step (exact_alias nfkd columns)) ALIASES []"
  note p1 = passedD [OF detect_passes(1) [of nfkd, OF nfkd m]] and p2 = passedD [OF detect_passes(2) [of nfkd, OF nfkd m]]
  have "set ?m1 \<subseteq> set m" by (rule p2(2))
  moreover have "k \<in> fst ` set ?m1"
  proof (rule ccontr)
    assume "k \<notin> fst ` set ?m1"
    then have "c \<in> snd ` set ?m1" using p1(4) [OF aliases_in, of k c] c by blast
    then obtain k' where k': "(k', c) \<in> set ?m1" by auto
    from p1(3) [OF this] obtain a' where "a' \<in> set (aliases k')" "exactly nfkd a' c" using aliases_only by auto
    moreover from this(2) c(2) have "a' = a"
      by (simp add: exactly_def utext_of_def) (metis inj_map_eq_map inj_of_char)
    ultimately show False using only [of k'] k' \<open>k \<notin> fst ` set ?m1\<close> by force
  qed
  ultimately show ?thesis by blast
qed

definition demo_frame :: frame where
  "demo_frame = \<lparr>fr_columns = [(utext_of ''data'', [Some (utext_of ''2026-01-02''), None]), (utext_of ''kwota'', [Some (utext_of ''12.5''), None])],
     fr_height = 2\<rparr>"

lemma demo_frame_accepted: "\<exists>res. map_dataframe (\<lambda>_. 0) id ascii_digit (\<lambda>_ _. None) (\<lambda>_. Some 0) demo_frame = Inr res"
proof -
  have names: "map fst (stripped demo_frame) = [utext_of ''data'', utext_of ''kwota'']"
    by (simp add: stripped_def demo_frame_def u_strip_def py_uspace_def utext_of_def)
  obtain m unmapped where m: "detect_mapping id [utext_of ''data'', utext_of ''kwota''] = (m, unmapped)" by fastforce
  have "mapping_ok [utext_of ''data'', utext_of ''kwota''] m"
    by (rule passed_ok [OF detect_passes(2) [OF _ m]]) simp
  then have "snd ` set m \<subseteq> set (map fst (stripped demo_frame))" by (simp add: mapping_ok_def names)
  moreover have "distinct (map fst (stripped demo_frame))" unfolding names by (simp add: utext_of_def)
  ultimately obtain out where out: "select_columns (stripped demo_frame) m = Inr out" using select_columns_distinct by blast
  have "exactly id ''data'' (utext_of ''data'')" "exactly id ''kwota'' (utext_of ''kwota'')"
    by (simp_all add: exactly_def norm_text_def norm_char_def utext_of_def)
  moreover have "''data'' \<in> set (aliases Date)" "''kwota'' \<in> set (aliases Revenue)" by (simp_all add: aliases_def ALIASES_def)
  moreover have "''data'' \<in> set (aliases k) \<Longrightarrow> k = Date" "''kwota'' \<in> set (aliases k) \<Longrightarrow> k = Revenue" for k
    by (cases k; simp add: aliases_def ALIASES_def)+
  ultimately have "Date \<in> fst ` set m" "Revenue \<in> fst ` set m"
    using exact_column_found [OF _ m, of "utext_of ''data''" "''data''" Date]
      exact_column_found [OF _ m, of "utext_of ''kwota''" "''kwota''" Revenue] by auto
  moreover have "map_of out = source_columns demo_frame m" using select_columns_Inr [OF out] by (auto simp: source_columns_def)
  moreover have "map fst out = map fst m" if "select_columns cols m = Inr out" for cols m out
    using that by (induction m arbitrary: out) (auto split: sum.splits)
  from this [OF out] have "fst ` set out = fst ` set m" by (metis list.set_map)
  ultimately obtain rs ds where "map_of out Revenue = Some rs" "map_of out Date = Some ds"
    by (metis map_of_eq_None_iff not_None_eq)
  then show ?thesis unfolding map_dataframe_def Let_def names m prod.case out sum.case by (simp split: prod.split)
qed

lemma demo_frame_ok: "frame_ok demo_frame"
  by (simp add: frame_ok_def demo_frame_def)

theorem table_is_read_row_by_row_witness:
  "\<exists>rows rep. map_dataframe (\<lambda>_. 0) id ascii_digit (\<lambda>_ _. None) (\<lambda>_. Some 0) demo_frame = Inr (rows, rep) \<and>
    rows = keep_first or_order_id (List.map_filter (order_at (\<lambda>_. 0) id ascii_digit (\<lambda>_ _. None) (\<lambda>_. Some 0)
      (source_columns demo_frame (rep_mapping rep))) [0..<2])"
proof -
  obtain rows rep where run: "map_dataframe (\<lambda>_. 0) id ascii_digit (\<lambda>_ _. None) (\<lambda>_. Some 0) demo_frame = Inr (rows, rep)"
    using demo_frame_accepted by auto
  have "fr_height demo_frame = 2" by (simp add: demo_frame_def)
  with run table_is_read_row_by_row [OF demo_frame_ok run] show ?thesis by auto
qed

theorem table_is_well_formed_witness:
  "\<exists>rows rep. map_dataframe (\<lambda>_. 0) id ascii_digit (\<lambda>_ _. None) (\<lambda>_. Some 0) demo_frame = Inr (rows, rep) \<and>
    distinct (map or_order_id rows) \<and> rep_rows_out rep = length rows"
proof -
  obtain rows rep where run: "map_dataframe (\<lambda>_. 0) id ascii_digit (\<lambda>_ _. None) (\<lambda>_. Some 0) demo_frame = Inr (rows, rep)"
    using demo_frame_accepted by auto
  with table_is_well_formed [OF demo_frame_ok run] show ?thesis by blast
qed

end
