(* ===== verification/CsvSafety.thy ===== *)
theory CsvSafety
  imports CsvText
begin

text \<open>What the writer writes, the reader reads back, whatever the fields contain.\<close>

section \<open>The reader on a text\<close>

lemma text_lines_Nil [simp]: "text_lines s = [] \<longleftrightarrow> s = []"
  by (induction s) (auto split: list.splits)

lemma next_char:
  assumes "c \<noteq> LF" and "cs \<noteq> []"
  shows "next_row limit d (text_lines (c # cs)) p =
    (case csv_char limit d (Some c) p of Inl e \<Rightarrow> Csv_error e | Inr p' \<Rightarrow> next_row limit d (text_lines cs) p')"
proof -
  obtain l ls where ls: "text_lines cs = l # ls" using assms(2) by (cases "text_lines cs") auto
  with assms(1) show ?thesis by (simp split: sum.split)
qed

lemma next_line_feed:
  "next_row limit d (text_lines (LF # cs)) p =
    (case csv_chars limit d [Some LF, None] p of
       Inl e \<Rightarrow> Csv_error e
     | Inr p' \<Rightarrow> if cp_state p' = Start_Record then Row (cp_fields p') (text_lines cs) else next_row limit d (text_lines cs) p')"
  by simp

declare text_lines.simps(2) [simp del] and next_row.simps(2) [simp del]

lemma step_char:
  assumes "csv_char limit d (Some c) p = Inr p'" and "c \<noteq> LF" and "cs \<noteq> []"
  shows "next_row limit d (text_lines (c # cs)) p = next_row limit d (text_lines cs) p'"
  using assms by (simp add: next_char)

section \<open>One field\<close>

definition plain_field :: "nat \<Rightarrow> utext \<Rightarrow> bool" where
  "plain_field d f = (\<forall>c \<in> set f. c \<noteq> d \<and> c \<noteq> QUOTE \<and> c \<noteq> LF \<and> c \<noteq> CR)"

lemma plain_iff: "plain_field d f \<longleftrightarrow> \<not> needs_quotes d f"
  by (auto simp: plain_field_def needs_quotes_def)

lemma read_in_field:
  assumes "plain_field d f" and "cp_state p = In_Field" and "length (cp_field p) + length f \<le> limit" and "rest \<noteq> []"
  shows "next_row limit d (text_lines (f @ rest)) p = next_row limit d (text_lines rest) (p\<lparr>cp_field := cp_field p @ f\<rparr>)"
  using assms(1-3)
proof (induction f arbitrary: p)
  case (Cons c f)
  have "csv_char limit d (Some c) p = Inr (p\<lparr>cp_field := cp_field p @ [c]\<rparr>)"
    using Cons.prems by (simp add: plain_field_def csv_char_def is_newline_def add_char_def)
  then have "next_row limit d (text_lines (c # f @ rest)) p =
      next_row limit d (text_lines (f @ rest)) (p\<lparr>cp_field := cp_field p @ [c]\<rparr>)"
    by (rule step_char) (use assms(4) Cons.prems(1) in \<open>simp_all add: plain_field_def\<close>)
  moreover have "next_row limit d (text_lines (f @ rest)) (p\<lparr>cp_field := cp_field p @ [c]\<rparr>) =
      next_row limit d (text_lines rest) (p\<lparr>cp_field := cp_field p @ c # f\<rparr>)"
    using Cons.IH [of "p\<lparr>cp_field := cp_field p @ [c]\<rparr>"] Cons.prems by (simp add: plain_field_def)
  ultimately show ?case by simp
qed simp

lemma read_plain:
  assumes "plain_field d f" and "f \<noteq> []" and "cp_state p \<in> {Start_Record, Start_Field}" and "cp_field p = []"
    and "length f \<le> limit" and "rest \<noteq> []"
  shows "next_row limit d (text_lines (f @ rest)) p =
    next_row limit d (text_lines rest) (p\<lparr>cp_state := In_Field, cp_field := f\<rparr>)"
proof -
  obtain c g where f: "f = c # g" using assms(2) by (cases f) auto
  have c: "c \<noteq> d" "c \<noteq> QUOTE" "c \<noteq> LF" "c \<noteq> CR" and g: "plain_field d g" using assms(1) by (simp_all add: f plain_field_def)
  have "start_field limit d (Some c) p = Inr (p\<lparr>cp_state := In_Field, cp_field := [c]\<rparr>)"
    using c assms(4,5) by (simp add: f start_field_def is_newline_def add_char_def)
  moreover have "csv_char limit d (Some c) p = start_field limit d (Some c) p"
    using c assms(3) by (auto simp: csv_char_def is_newline_def)
  ultimately have "next_row limit d (text_lines (c # g @ rest)) p =
      next_row limit d (text_lines (g @ rest)) (p\<lparr>cp_state := In_Field, cp_field := [c]\<rparr>)"
    using c(3) assms(6) by (intro step_char) simp_all
  also have "\<dots> = next_row limit d (text_lines rest) (p\<lparr>cp_state := In_Field, cp_field := f\<rparr>)"
    using read_in_field [of d g "p\<lparr>cp_state := In_Field, cp_field := [c]\<rparr>" limit rest] g assms(5,6) by (simp add: f)
  finally show ?thesis by (simp add: f)
qed

definition escaped :: "utext \<Rightarrow> utext" where
  "escaped f = concat (map (\<lambda>c. if c = QUOTE then [QUOTE, QUOTE] else [c]) f)"

lemma read_inside:
  assumes "cp_state p = In_Quoted" and "length (cp_field p) + length f \<le> limit" and "rest \<noteq> []"
  shows "next_row limit d (text_lines (escaped f @ rest)) p = next_row limit d (text_lines rest) (p\<lparr>cp_field := cp_field p @ f\<rparr>)"
  using assms(1,2)
proof (induction f arbitrary: p)
  case Nil
  then show ?case by (simp add: escaped_def)
next
  case (Cons c f)
  let ?p = "p\<lparr>cp_field := cp_field p @ [c]\<rparr>"
  have IH: "next_row limit d (text_lines (escaped f @ rest)) ?p =
      next_row limit d (text_lines rest) (p\<lparr>cp_field := cp_field p @ c # f\<rparr>)"
    using Cons.IH [of ?p] Cons.prems by simp
  have "next_row limit d (text_lines (escaped (c # f) @ rest)) p = next_row limit d (text_lines (escaped f @ rest)) ?p"
  proof (cases "c = QUOTE")
    case True
    have "csv_char limit d (Some QUOTE) p = Inr (p\<lparr>cp_state := Quote_In_Quoted\<rparr>)" using Cons.prems by (simp add: csv_char_def)
    moreover have "csv_char limit d (Some QUOTE) (p\<lparr>cp_state := Quote_In_Quoted\<rparr>) = Inr ?p"
      using Cons.prems by (simp add: csv_char_def add_char_def True)
    moreover have "escaped (c # f) = QUOTE # QUOTE # escaped f" by (simp add: escaped_def True)
    ultimately show ?thesis using assms(3) by (simp add: step_char)
  next
    case False
    then have e: "escaped (c # f) = c # escaped f" by (simp add: escaped_def)
    have add: "csv_char limit d (Some c) p = Inr ?p" using Cons.prems False by (simp add: csv_char_def add_char_def)
    show ?thesis
    proof (cases "c = LF")
      case True
      have "csv_char limit d None ?p = Inr ?p" using Cons.prems by (simp add: csv_char_def)
      moreover have "escaped (c # f) @ rest = LF # (escaped f @ rest)" using e True by simp
      ultimately show ?thesis using add True Cons.prems(1) by (simp only: next_line_feed) simp
    next
      case False
      show ?thesis unfolding e append_Cons using add False assms(3) by (simp add: step_char)
    qed
  qed
  with IH show ?case by simp
qed

lemma read_quoted:
  assumes "cp_state p = In_Quoted" and "length (cp_field p) + length f \<le> limit" and "rest \<noteq> []"
  shows "next_row limit d (text_lines (escaped f @ QUOTE # rest)) p =
    next_row limit d (text_lines rest) (p\<lparr>cp_state := Quote_In_Quoted, cp_field := cp_field p @ f\<rparr>)"
proof -
  let ?p = "p\<lparr>cp_field := cp_field p @ f\<rparr>"
  have "csv_char limit d (Some QUOTE) ?p = Inr (?p\<lparr>cp_state := Quote_In_Quoted\<rparr>)" using assms(1) by (simp add: csv_char_def)
  moreover have "?p\<lparr>cp_state := Quote_In_Quoted\<rparr> = p\<lparr>cp_state := Quote_In_Quoted, cp_field := cp_field p @ f\<rparr>" by (cases p) simp
  ultimately show ?thesis using read_inside [OF assms(1,2), of "QUOTE # rest" d] assms(3) by (simp add: step_char)
qed

lemma read_field:
  assumes "cp_state p \<in> {Start_Record, Start_Field}" and "cp_field p = []" and "length f \<le> limit" and "rest \<noteq> []"
    and "d \<noteq> QUOTE"
  shows "\<exists>p'. next_row limit d (text_lines (written_field d f @ rest)) p = next_row limit d (text_lines rest) p' \<and>
    cp_fields p' = cp_fields p \<and> cp_field p' = f \<and>
    (if needs_quotes d f then cp_state p' = Quote_In_Quoted else if f = [] then p' = p else cp_state p' = In_Field)"
proof (cases "needs_quotes d f")
  case True
  have "csv_char limit d (Some QUOTE) p = Inr (p\<lparr>cp_state := In_Quoted\<rparr>)"
    using assms(1,5) by (auto simp: csv_char_def start_field_def is_newline_def)
  then have "next_row limit d (text_lines (QUOTE # escaped f @ QUOTE # rest)) p =
      next_row limit d (text_lines rest) (p\<lparr>cp_state := Quote_In_Quoted, cp_field := f\<rparr>)"
    using assms(2-4) read_quoted [of "p\<lparr>cp_state := In_Quoted\<rparr>" f limit rest d] by (simp add: step_char)
  moreover have "written_field d f @ rest = QUOTE # escaped f @ QUOTE # rest"
    using True by (simp add: written_field_def quoted_def escaped_def)
  ultimately show ?thesis using True
    by (intro exI [of _ "p\<lparr>cp_state := Quote_In_Quoted, cp_field := f\<rparr>"]) simp
next
  case False
  then have plain: "plain_field d f" "written_field d f = f" by (simp_all add: plain_iff written_field_def)
  show ?thesis
  proof (cases "f = []")
    case True
    then show ?thesis using False assms(2) plain by (intro exI [of _ p]) simp
  next
    case f: False
    with False plain show ?thesis using read_plain [OF plain(1) f assms(1,2,3,4)]
      by (intro exI [of _ "p\<lparr>cp_state := In_Field, cp_field := f\<rparr>"]) simp
  qed
qed

text \<open>A field that is too long is an error, wherever the character is that is one too many.\<close>

lemma full_field:
  assumes "length (cp_field p) = limit" and "cp_state p = In_Field \<and> plain_field d (c # f) \<or> cp_state p = In_Quoted" and "rest \<noteq> []"
  shows "next_row limit d (text_lines ((if cp_state p = In_Field then c # f else escaped (c # f)) @ rest)) p = Csv_error Field_too_large"
proof (cases "cp_state p = In_Field")
  case True
  with assms have "csv_char limit d (Some c) p = Inl Field_too_large" "c \<noteq> LF"
    by (simp_all add: csv_char_def is_newline_def add_char_def plain_field_def)
  with True assms(3) show ?thesis by (simp add: next_char)
next
  case False
  with assms(2) have q: "cp_state p = In_Quoted" by simp
  show ?thesis
  proof (cases "c = QUOTE")
    case True
    have "csv_char limit d (Some QUOTE) p = Inr (p\<lparr>cp_state := Quote_In_Quoted\<rparr>)" using q by (simp add: csv_char_def)
    moreover have "csv_char limit d (Some QUOTE) (p\<lparr>cp_state := Quote_In_Quoted\<rparr>) = Inl Field_too_large"
      using assms(1) by (simp add: csv_char_def add_char_def)
    moreover have "escaped (c # f) = QUOTE # QUOTE # escaped f" by (simp add: escaped_def True)
    ultimately show ?thesis using q assms(3) by (simp add: step_char next_char)
  next
    case no_quote: False
    then have e: "escaped (c # f) = c # escaped f" by (simp add: escaped_def)
    have err: "csv_char limit d (Some c) p = Inl Field_too_large" using q no_quote assms(1) by (simp add: csv_char_def add_char_def)
    show ?thesis
    proof (cases "c = LF")
      case True
      with q e err show ?thesis by (simp add: next_line_feed)
    next
      case False
      with q e err assms(3) show ?thesis by (simp add: next_char)
    qed
  qed
qed

lemma read_long_field:
  assumes "cp_state p \<in> {Start_Record, Start_Field}" and "cp_field p = []" and "0 < limit" and "limit < length f" and "rest \<noteq> []"
    and "d \<noteq> QUOTE"
  shows "next_row limit d (text_lines (written_field d f @ rest)) p = Csv_error Field_too_large"
proof -
  let ?f = "take limit f"
  obtain c g where cg: "drop limit f = c # g" using assms(4) by (cases "drop limit f") auto
  then have f: "f = ?f @ c # g" by (metis append_take_drop_id)
  have len: "length ?f = limit" "?f \<noteq> []" using assms(3,4) by auto
  show ?thesis
  proof (cases "needs_quotes d f")
    case True
    let ?p = "p\<lparr>cp_state := In_Quoted\<rparr>"
    have e: "escaped f = escaped ?f @ escaped (c # g)" by (subst f) (simp only: escaped_def map_append concat_append)
    have "csv_char limit d (Some QUOTE) p = Inr ?p"
      using assms(1,6) by (auto simp: csv_char_def start_field_def is_newline_def)
    then have "next_row limit d (text_lines (QUOTE # escaped ?f @ escaped (c # g) @ QUOTE # rest)) p =
        next_row limit d (text_lines (escaped (c # g) @ QUOTE # rest)) (?p\<lparr>cp_field := ?f\<rparr>)"
      using read_inside [of ?p ?f limit "escaped (c # g) @ QUOTE # rest" d] assms(2) len by (simp add: step_char)
    also have "\<dots> = Csv_error Field_too_large"
      using full_field [of "?p\<lparr>cp_field := ?f\<rparr>" limit d c g "QUOTE # rest"] len by simp
    finally show ?thesis using True e by (simp add: written_field_def quoted_def escaped_def [symmetric])
  next
    case False
    then have plain: "plain_field d f" by (simp add: plain_iff)
    then have parts: "plain_field d ?f" "plain_field d (c # g)" by (subst (asm) f; simp add: plain_field_def)+
    have "next_row limit d (text_lines (?f @ (c # g) @ rest)) p =
        next_row limit d (text_lines ((c # g) @ rest)) (p\<lparr>cp_state := In_Field, cp_field := ?f\<rparr>)"
      using read_plain [OF parts(1) len(2) assms(1,2)] len by simp
    also have "\<dots> = Csv_error Field_too_large"
      using full_field [of "p\<lparr>cp_state := In_Field, cp_field := ?f\<rparr>" limit d c g rest] len parts(2) assms(5) by simp
    finally have "next_row limit d (text_lines (f @ rest)) p = Csv_error Field_too_large" by (metis append.assoc f)
    then show ?thesis using False by (simp add: written_field_def)
  qed
qed

section \<open>Rows\<close>

lemma saved_at:
  assumes "d \<noteq> QUOTE" and "d \<noteq> LF" and "d \<noteq> CR"
    and "cp_state p \<in> {In_Field, Quote_In_Quoted, Start_Field} \<or> (cp_state p = Start_Record \<and> cp_field p = [])"
  shows "csv_char limit d (Some d) p = Inr (save_field Start_Field p)"
  using assms by (cases "cp_state p") (simp_all add: csv_char_def start_field_def is_newline_def)

lemma ended_at:
  assumes "cp_state p \<in> {In_Field, Quote_In_Quoted, Start_Field}" and "d \<noteq> LF"
  shows "next_row limit d (text_lines (LF # rest)) p = Row (cp_fields p @ [cp_field p]) (text_lines rest)"
proof -
  have "csv_char limit d (Some LF) p = Inr (save_field Eat_Crnl p)"
    using assms by (auto simp: csv_char_def start_field_def is_newline_def end_of_record_def)
  moreover have "csv_char limit d None (save_field Eat_Crnl p) = Inr (save_field Start_Record p)"
    by (simp add: csv_char_def save_field_def)
  ultimately show ?thesis unfolding next_line_feed by (simp add: save_field_def)
qed

definition delimiter_ok :: "nat \<Rightarrow> bool" where
  "delimiter_ok d = (d \<noteq> QUOTE \<and> d \<noteq> LF \<and> d \<noteq> CR)"

lemma read_fields:
  assumes d: "delimiter_ok d" and "\<forall>f \<in> set fs. length f \<le> limit" and "fs \<noteq> []"
    and "cp_state p = Start_Field \<or> (cp_state p = Start_Record \<and> fs \<noteq> [[]])" and "cp_field p = []"
  shows "next_row limit d (text_lines (joined d (map (written_field d) fs) @ LF # rest)) p = Row (cp_fields p @ fs) (text_lines rest)"
  using assms(2-5)
proof (induction fs arbitrary: p rule: induct_list012)
  case (2 f)
  have "d \<noteq> QUOTE" using d by (simp add: delimiter_ok_def)
  then obtain p' where p': "next_row limit d (text_lines (written_field d f @ LF # rest)) p = next_row limit d (text_lines (LF # rest)) p'"
      "cp_fields p' = cp_fields p" "cp_field p' = f"
      "if needs_quotes d f then cp_state p' = Quote_In_Quoted else if f = [] then p' = p else cp_state p' = In_Field"
    using read_field [of p f limit "LF # rest" d] 2 by auto
  then have "cp_state p' \<in> {In_Field, Quote_In_Quoted, Start_Field}" using 2 by (auto split: if_splits)
  moreover have "d \<noteq> LF" using d by (simp add: delimiter_ok_def)
  ultimately show ?case using p' ended_at [of p' d limit rest] by simp
next
  case (3 f g fs)
  let ?rest = "d # (joined d (map (written_field d) (g # fs)) @ LF # rest)"
  have "d \<noteq> QUOTE" "d \<noteq> LF" "d \<noteq> CR" using d by (simp_all add: delimiter_ok_def)
  then obtain p' where p': "next_row limit d (text_lines (written_field d f @ ?rest)) p = next_row limit d (text_lines ?rest) p'"
      "cp_fields p' = cp_fields p" "cp_field p' = f"
      "if needs_quotes d f then cp_state p' = Quote_In_Quoted else if f = [] then p' = p else cp_state p' = In_Field"
    using read_field [of p f limit ?rest d] 3 by auto
  then have "cp_state p' \<in> {In_Field, Quote_In_Quoted, Start_Field} \<or> (cp_state p' = Start_Record \<and> cp_field p' = [])"
    using 3 by (auto split: if_splits)
  from saved_at [OF \<open>d \<noteq> QUOTE\<close> \<open>d \<noteq> LF\<close> \<open>d \<noteq> CR\<close> this, of limit]
  have "next_row limit d (text_lines ?rest) p' =
      next_row limit d (text_lines (joined d (map (written_field d) (g # fs)) @ LF # rest)) (save_field Start_Field p')"
    using \<open>d \<noteq> LF\<close> by (rule step_char) simp
  also have "\<dots> = Row (cp_fields p' @ f # g # fs) (text_lines rest)"
    using 3 p' by (subst "3.IH"(2)) (simp_all add: save_field_def)
  finally show ?case using p' by simp
qed simp

lemma read_long_fields:
  assumes d: "delimiter_ok d" and "0 < limit" and "\<exists>f \<in> set fs. limit < length f"
    and "cp_state p = Start_Field \<or> cp_state p = Start_Record" and "cp_field p = []"
  shows "next_row limit d (text_lines (joined d (map (written_field d) fs) @ LF # rest)) p = Csv_error Field_too_large"
  using assms(3-5)
proof (induction fs arbitrary: p rule: induct_list012)
  case (2 f)
  then show ?case using read_long_field [of p limit f "LF # rest" d] d assms(2) by (auto simp: delimiter_ok_def)
next
  case (3 f g fs)
  let ?rest = "d # (joined d (map (written_field d) (g # fs)) @ LF # rest)"
  have ok: "d \<noteq> QUOTE" "d \<noteq> LF" "d \<noteq> CR" using d by (simp_all add: delimiter_ok_def)
  show ?case
  proof (cases "limit < length f")
    case True
    then show ?thesis using read_long_field [of p limit f ?rest d] 3 ok assms(2) by auto
  next
    case False
    then obtain p' where p': "next_row limit d (text_lines (written_field d f @ ?rest)) p = next_row limit d (text_lines ?rest) p'"
        "cp_fields p' = cp_fields p" "cp_field p' = f"
        "if needs_quotes d f then cp_state p' = Quote_In_Quoted else if f = [] then p' = p else cp_state p' = In_Field"
      using read_field [of p f limit ?rest d] 3 ok by auto
    then have "cp_state p' \<in> {In_Field, Quote_In_Quoted, Start_Field} \<or> (cp_state p' = Start_Record \<and> cp_field p' = [])"
      using 3 by (auto split: if_splits)
    from saved_at [OF ok this, of limit]
    have "next_row limit d (text_lines ?rest) p' =
        next_row limit d (text_lines (joined d (map (written_field d) (g # fs)) @ LF # rest)) (save_field Start_Field p')"
      using ok(2) by (rule step_char) simp
    also have "\<dots> = Csv_error Field_too_large"
      using 3 False by (subst "3.IH"(2)) (auto simp: save_field_def)
    finally show ?thesis using p' by simp
  qed
qed simp

lemma read_written_row:
  assumes "delimiter_ok d" and "\<forall>f \<in> set fs. length f \<le> limit"
  shows "csv_next limit d (text_lines (write_row d fs @ rest)) = Row fs (text_lines rest)"
proof -
  consider "fs = []" | "fs = [[]]" | "fs \<noteq> []" "fs \<noteq> [[]]" by blast
  then show ?thesis
  proof cases
    case 1
    have "csv_chars limit d [Some LF, None] fresh_parser = Inr fresh_parser"
      by (simp add: csv_char_def fresh_parser_def is_newline_def)
    with 1 show ?thesis by (simp add: csv_next_def write_row_def next_line_feed del: csv_chars.simps) (simp add: fresh_parser_def)
  next
    case 2
    have "csv_char limit d (Some QUOTE) fresh_parser = Inr (fresh_parser\<lparr>cp_state := In_Quoted\<rparr>)"
      by (simp add: csv_char_def start_field_def fresh_parser_def is_newline_def)
    moreover have "csv_char limit d (Some QUOTE) (fresh_parser\<lparr>cp_state := In_Quoted\<rparr>) = Inr (fresh_parser\<lparr>cp_state := Quote_In_Quoted\<rparr>)"
      by (simp add: csv_char_def)
    moreover have "next_row limit d (text_lines (LF # rest)) (fresh_parser\<lparr>cp_state := Quote_In_Quoted\<rparr>) = Row [[]] (text_lines rest)"
      using assms(1) by (subst ended_at) (simp_all add: fresh_parser_def delimiter_ok_def)
    ultimately show ?thesis using 2 by (simp add: csv_next_def write_row_def step_char)
  next
    case 3
    with assms read_fields [of d fs limit fresh_parser rest] show ?thesis
      by (simp add: csv_next_def write_row_def fresh_parser_def)
  qed
qed

lemma read_long_row:
  assumes "delimiter_ok d" and "0 < limit" and "\<exists>f \<in> set fs. limit < length f"
  shows "csv_next limit d (text_lines (write_row d fs @ rest)) = Csv_error Field_too_large"
proof -
  have "fs \<noteq> []" "fs \<noteq> [[]]" using assms(3) by auto
  with assms read_long_fields [of d limit fs fresh_parser rest] show ?thesis
    by (simp add: csv_next_def write_row_def fresh_parser_def)
qed

lemma no_row_left [simp]: "csv_next limit d [] = No_more"
  by (simp add: csv_next_def fresh_parser_def)

end
