(* ===== verification/XlsxSafety.thy ===== *)
theory XlsxSafety
  imports XlsxImport CsvSafety
begin

text \<open>
  An accepted archive contains no macro, no encrypted entry and no document type or entity in any of its XML parts, at
  whatever place of the part; and what is converted to CSV is read back cell by cell.
\<close>

section \<open>The scan\<close>

lemma suffix_keep_last: "suffix (keep_last k xs) xs"
  by (simp add: keep_last_def suffix_drop)

lemma keep_last_append: "keep_last k (keep_last k xs @ ys) = keep_last k (xs @ ys)"
  by (cases "length xs \<le> k") (simp_all add: keep_last_def add.commute)

lemma suffix_of_keep_last: "suffix ys xs \<Longrightarrow> length ys \<le> k \<Longrightarrow> suffix ys (keep_last k xs)"
  by (auto simp: suffix_def keep_last_def)

text \<open>A text at most one longer than the overlap, that was not in what came before, is in the window when it is in what has
  been read: none escapes at the border of two chunks.\<close>

lemma window_sees:
  assumes "\<not> sublist m before" and "length m \<le> k + 1"
  shows "sublist m (keep_last k before @ chunk) \<longleftrightarrow> sublist m (before @ chunk)"
proof
  assume "sublist m (keep_last k before @ chunk)"
  moreover obtain us where "before = us @ keep_last k before" using suffix_keep_last [of k before] by (auto simp: suffix_def)
  then have "before @ chunk = us @ (keep_last k before @ chunk)" by (metis append.assoc)
  ultimately show "sublist m (before @ chunk)" by (metis sublist_append_leftI sublist_order.order_trans)
next
  assume "sublist m (before @ chunk)"
  then consider "sublist m chunk" | u v where "m = u @ v" "suffix u before" "prefix v chunk"
    using assms(1) by (auto simp: sublist_append)
  then show "sublist m (keep_last k before @ chunk)"
  proof cases
    case (2 u v)
    have "v \<noteq> []" using 2 assms(1) by (auto simp: suffix_imp_sublist)
    then have "length u \<le> k" using assms(2) 2(1) by (cases v) auto
    then have "suffix u (keep_last k before)" using 2(2) by (rule suffix_of_keep_last [rotated])
    with 2 show ?thesis by (auto simp: sublist_append)
  qed (simp add: sublist_append)
qed

definition has_marker :: "string \<Rightarrow> bool" where
  "has_marker s = (\<exists>m \<in> set XML_FORBIDDEN_MARKERS. sublist m s)"

definition has_bom :: "string \<Rightarrow> bool" where
  "has_bom s = (\<exists>b \<in> set XML_BOMS. prefix b s)"

lemma marker_window:
  assumes "\<not> has_marker before"
  shows "(\<exists>m \<in> set XML_FORBIDDEN_MARKERS. sublist m (keep_last SCAN_OVERLAP before @ chunk)) = has_marker (before @ chunk)"
proof -
  have "length m \<le> SCAN_OVERLAP + 1" if "m \<in> set XML_FORBIDDEN_MARKERS" for m
    using that by (auto simp: XML_FORBIDDEN_MARKERS_def SCAN_OVERLAP_def)
  with assms show ?thesis unfolding has_marker_def by (intro bex_cong refl window_sees) auto
qed

lemma marker_grows: "has_marker a \<Longrightarrow> has_marker (a @ b)"
  unfolding has_marker_def by (meson sublist_append_rightI sublist_order.order_trans)

lemma scan_loop:
  assumes "\<not> has_marker before"
  shows "scan_chunks b cs (keep_last SCAN_OVERLAP before) False n k = None \<Longrightarrow> \<not> has_marker (before @ concat cs)"
    and "scan_chunks False cs (keep_last SCAN_OVERLAP before) False n k = None \<longleftrightarrow> \<not> has_marker (before @ concat cs)"
  using assms
proof (induction cs arbitrary: before n k)
  case (Cons c cs)
  {
    case 1
    then have "\<not> has_marker (before @ c)" by (auto simp: marker_window Let_def split: if_splits)
    with 1 Cons.IH(1) [of "before @ c"] show ?case
      by (auto simp: marker_window Let_def keep_last_append split: if_splits)
  next
    case 2
    show ?case
    proof (cases "has_marker (before @ c)")
      case True
      then have "has_marker (before @ concat (c # cs))" using marker_grows by (metis append.assoc concat.simps(2))
      with True 2 show ?thesis by (simp add: marker_window)
    next
      case False
      with 2 Cons.IH(2) [of "before @ c"] show ?thesis by (simp add: marker_window Let_def keep_last_append)
    qed
  }
qed simp_all

lemma concat_chunks: "0 < n \<Longrightarrow> concat (chunks n xs) = xs"
  by (induction n xs rule: chunks.induct) (subst chunks.simps, auto)

lemma no_marker_empty: "\<not> has_marker []"
  by (simp add: has_marker_def XML_FORBIDDEN_MARKERS_def)

lemma bom_short: "b \<in> set XML_BOMS \<Longrightarrow> length b \<le> SCAN_CHUNK_BYTES \<and> b \<noteq> []"
  by (auto simp: XML_BOMS_def SCAN_CHUNK_BYTES_def)

lemma prefix_take: "length b \<le> n \<Longrightarrow> prefix b (take n s) \<longleftrightarrow> prefix b s"
  by (auto simp: prefix_def take_append) (metis append_take_drop_id append.assoc)

text \<open>The first chunk is scanned like the others, after the test for a byte order mark.\<close>

lemma scan_part:
  "scan_xml_part b s = None \<Longrightarrow> \<not> has_marker s \<and> \<not> has_bom s"
  "scan_xml_part False s = None \<longleftrightarrow> \<not> has_marker s \<and> \<not> has_bom s"
proof -
  have pos: "0 < SCAN_CHUNK_BYTES" by (simp add: SCAN_CHUNK_BYTES_def)
  have empty: "keep_last SCAN_OVERLAP [] = []" by (simp add: keep_last_def)
  have "(scan_xml_part b s = None \<longrightarrow> \<not> has_marker s \<and> \<not> has_bom s) \<and>
    (scan_xml_part False s = None \<longleftrightarrow> \<not> has_marker s \<and> \<not> has_bom s)"
  proof (cases "s = []")
    case True
    then show ?thesis using no_marker_empty bom_short
      by (auto simp: scan_xml_part_def chunks.simps has_bom_def)
  next
    case False
    let ?c = "take SCAN_CHUNK_BYTES s" and ?cs = "chunks SCAN_CHUNK_BYTES (drop SCAN_CHUNK_BYTES s)"
    have cs: "chunks SCAN_CHUNK_BYTES s = ?c # ?cs" using False pos by (subst chunks.simps) simp
    have all: "concat (?c # ?cs) = s" using concat_chunks [OF pos, of s] unfolding cs .
    have bom: "has_bom s \<longleftrightarrow> (\<exists>b \<in> set XML_BOMS. prefix b ?c)"
      unfolding has_bom_def using bom_short prefix_take by blast
    have head: "scan_chunks b' (?c # ?cs) [] True 0 0 =
      (if has_bom s then Some xlsx_invalid else scan_chunks b' (?c # ?cs) (keep_last SCAN_OVERLAP []) False 0 0)" for b'
      unfolding bom empty by simp
    show ?thesis unfolding scan_xml_part_def cs head
      using scan_loop(1) [OF no_marker_empty, of b "?c # ?cs" 0 0] scan_loop(2) [OF no_marker_empty, of "?c # ?cs" 0 0]
      unfolding append_Nil all by auto
  qed
  then show "scan_xml_part b s = None \<Longrightarrow> \<not> has_marker s \<and> \<not> has_bom s"
    and "scan_xml_part False s = None \<longleftrightarrow> \<not> has_marker s \<and> \<not> has_bom s" by blast+
qed

section \<open>Shared strings\<close>

text \<open>The tags of shared strings in a part: the positions where one begins that is no longer than the overlap and one byte. A
  longer one (a name space prefix of more than sixty bytes) can pass a border of two chunks uncounted.\<close>

fun si_tags :: "string \<Rightarrow> nat" where
  "si_tags [] = 0"
| "si_tags (c # s) = (case si_match (c # s) of Some n \<Rightarrow> if n \<le> SCAN_OVERLAP + 1 then 1 else 0 | None \<Rightarrow> 0) + si_tags s"

lemma si_tail_append: "3 \<le> length s \<Longrightarrow> si_tail (s @ t) = si_tail s"
  by (cases s; cases "tl s"; cases "tl (tl s)") (auto simp: si_tail_def)

lemma si_tail_length: "si_tail s \<Longrightarrow> 3 \<le> length s"
proof (rule ccontr)
  assume "si_tail s" "\<not> 3 \<le> length s"
  then have "drop 2 s = []" by simp
  with \<open>si_tail s\<close> show False by (simp add: si_tail_def)
qed

lemma si_match_pos: "si_match s = Some n \<Longrightarrow> 0 < n"
  by (auto simp: si_match_def Let_def split: list.splits if_splits)

text \<open>A match that ends within the first part of a text is one of that part.\<close>

lemma si_match_front:
  assumes "si_match (s @ t) = Some n" and "n \<le> length s"
  shows "si_match s = Some n"
proof (cases s)
  case Nil
  with assms si_match_pos show ?thesis by fastforce
next
  case (Cons c s')
  let ?w = "takeWhile word_byte" and ?r = "dropWhile word_byte"
  let ?P = "\<lambda>u. ?w u \<noteq> [] \<and> take 1 (?r u) = '':'' \<and> si_tail (drop 1 (?r u))"
  have c: "c = CHR ''<''" using assms(1) Cons by (auto simp: si_match_def split: if_splits)
  have whole: "si_match (s @ t) = (if ?P (s' @ t) then Some (length (?w (s' @ t)) + 5) else if si_tail (s' @ t) then Some 4 else None)"
    and front: "si_match s = (if ?P s' then Some (length (?w s') + 5) else if si_tail s' then Some 4 else None)"
    by (simp_all add: Cons c si_match_def Let_def)
  have grows: "?P (s' @ t) \<and> ?w (s' @ t) = ?w s'" if "?P s'"
  proof -
    have some: "?r s' \<noteq> []" using that by (metis list.distinct(1) take_Nil)
    then have "\<not> list_all word_byte s'" by (metis dropWhile_eq_Nil_conv list_all_iff)
    then obtain x where "x \<in> set s'" "\<not> word_byte x" by (auto simp: list_all_iff)
    then have e: "?w (s' @ t) = ?w s'" "?r (s' @ t) = ?r s' @ t" by simp_all
    have "3 \<le> length (drop 1 (?r s'))" using that si_tail_length by blast
    with that e show ?thesis using some by (auto simp: si_tail_append)
  qed
  show ?thesis
  proof (cases "?P (s' @ t)")
    case True
    with assms whole have n: "n = length (?w (s' @ t)) + 5" "length (?w (s' @ t)) + 4 \<le> length s'" by (simp_all add: Cons)
    have "\<exists>x \<in> set s'. \<not> word_byte x"
    proof (rule ccontr)
      assume "\<not> ?thesis"
      then have "length s' \<le> length (?w (s' @ t))" by (simp add: takeWhile_append)
      with n(2) show False by simp
    qed
    then obtain x where "x \<in> set s'" "\<not> word_byte x" by blast
    then have e: "?w (s' @ t) = ?w s'" "?r (s' @ t) = ?r s' @ t" by simp_all
    have "length s' = length (?w s') + length (?r s')" by (metis length_append takeWhile_dropWhile_id)
    with n(2) e have r: "4 \<le> length (?r s')" by simp
    then have "?P s'" using True unfolding e by (auto simp: si_tail_append)
    with True whole front assms(1) e show ?thesis by simp
  next
    case False
    then have "\<not> ?P s'" using grows by blast
    moreover from False whole assms have "n = 4" "si_tail (s' @ t)" by (auto split: if_splits)
    with assms(2) Cons have "si_tail s'" by (simp add: si_tail_append)
    ultimately show ?thesis using front \<open>n = 4\<close> by simp
  qed
qed

lemma si_tags_count: "si_tags s \<le> si_count 0 s"
  by (induction s) (auto split: option.split dest: si_match_pos)

lemma si_tags_window: "si_tags (carry @ chunk) \<le> si_tags carry + si_count (length carry) (carry @ chunk)"
proof (induction carry)
  case (Cons c carry)
  show ?case
  proof (cases "si_match ((c # carry) @ chunk)")
    case (Some n)
    with si_match_front [OF Some] Cons show ?thesis by (cases "n \<le> length (c # carry)") auto
  qed (use Cons in \<open>auto split: option.split\<close>)
qed (use si_tags_count in simp)

lemma si_tags_step:
  "u = [] \<or> length carry = SCAN_OVERLAP \<Longrightarrow>
   si_tags (u @ carry @ chunk) \<le> si_tags (u @ carry) + si_count (length carry) (carry @ chunk)"
proof (induction u)
  case (Cons c u)
  then have IH: "si_tags (u @ carry @ chunk) \<le> si_tags (u @ carry) + si_count (length carry) (carry @ chunk)" by simp
  show ?case
  proof (cases "si_match ((c # u @ carry) @ chunk)")
    case (Some n)
    then show ?thesis using si_match_front [OF Some] IH Cons.prems by (cases "n \<le> SCAN_OVERLAP + 1") auto
  qed (use IH in \<open>auto split: option.split\<close>)
qed (use si_tags_window in simp)

lemma scan_counts:
  assumes "scan_chunks True cs (keep_last SCAN_OVERLAP before) first (length before) strings = None"
    and "si_tags before \<le> strings" and "length before \<le> MAX_SHARED_STRINGS_BYTES" and "strings \<le> MAX_SHARED_STRINGS"
  shows "length (before @ concat cs) \<le> MAX_SHARED_STRINGS_BYTES \<and> si_tags (before @ concat cs) \<le> MAX_SHARED_STRINGS"
  using assms
proof (induction cs arbitrary: before first strings)
  case (Cons c cs)
  let ?carry = "keep_last SCAN_OVERLAP before"
  let ?strings = "strings + si_count (length ?carry) (?carry @ c)"
  from Cons.prems(1) have next_chunk: "scan_chunks True cs (keep_last SCAN_OVERLAP (before @ c)) False (length (before @ c)) ?strings = None"
    and small: "length (before @ c) \<le> MAX_SHARED_STRINGS_BYTES" "?strings \<le> MAX_SHARED_STRINGS"
    by (auto simp: Let_def keep_last_append split: if_splits)
  obtain u where u: "before = u @ ?carry" using suffix_keep_last [of SCAN_OVERLAP before] by (auto simp: suffix_def)
  have "u = [] \<or> length ?carry = SCAN_OVERLAP"
  proof (cases "length before \<le> SCAN_OVERLAP")
    case True
    then have "?carry = before" by (simp add: keep_last_def)
    with u show ?thesis by (metis append_self_conv2)
  next
    case False
    then show ?thesis by (simp add: keep_last_def)
  qed
  then have "si_tags (before @ c) \<le> ?strings" using si_tags_step [of u ?carry c] u Cons.prems(2) by (metis add_le_mono1 append.assoc le_trans)
  from Cons.IH [OF next_chunk this small] show ?case by simp
qed simp

lemma scan_shared:
  assumes "scan_xml_part True s = None"
  shows "length s \<le> MAX_SHARED_STRINGS_BYTES \<and> si_tags s \<le> MAX_SHARED_STRINGS"
proof -
  have "concat (chunks SCAN_CHUNK_BYTES s) = s" by (rule concat_chunks) (simp add: SCAN_CHUNK_BYTES_def)
  then show ?thesis
    using scan_counts [of "chunks SCAN_CHUNK_BYTES s" "[]" True 0] assms by (simp add: scan_xml_part_def keep_last_def)
qed

lemma scan_entries_shared:
  assumes "scan_entries infos = None" and "i \<in> set infos" and "py_lower (ze_name i) = SHARED_STRINGS_PART"
  shows "\<exists>s. ze_content i = Some s \<and> length s \<le> MAX_SHARED_STRINGS_BYTES \<and> si_tags s \<le> MAX_SHARED_STRINGS"
  using assms(1,2)
proof (induction infos)
  case (Cons j infos)
  have xml: "xml_name SHARED_STRINGS_PART" by (simp add: xml_name_def SHARED_STRINGS_PART_def suffix_def)
  from Cons.prems(1) have rest: "scan_entries infos = None" by (auto simp: Let_def split: if_splits option.splits)
  show ?case
  proof (cases "i = j")
    case True
    with Cons.prems(1) assms(3) xml obtain s where "ze_content i = Some s" "scan_xml_part True s = None"
      by (auto simp: Let_def split: option.splits)
    with scan_shared show ?thesis by blast
  next
    case False
    with Cons.prems(2) Cons.IH [OF rest] show ?thesis by simp
  qed
qed simp

section \<open>The archive\<close>

lemma scan_entries_None:
  assumes "scan_entries infos = None" and "i \<in> set infos" and "xml_name (py_lower (ze_name i))"
  shows "\<exists>s. ze_content i = Some s \<and> \<not> has_marker s \<and> \<not> has_bom s"
  using assms(1,2)
proof (induction infos)
  case (Cons j infos)
  show ?case
  proof (cases "xml_name (py_lower (ze_name j))")
    case True
    with Cons.prems(1) obtain s where s: "ze_content j = Some s" "scan_xml_part (py_lower (ze_name j) = SHARED_STRINGS_PART) s = None"
      and rest: "scan_entries infos = None" by (auto simp: Let_def split: option.splits)
    show ?thesis
    proof (cases "i = j")
      case True
      with s scan_part(1) [OF s(2)] show ?thesis by blast
    next
      case False
      with Cons.prems(2) Cons.IH [OF rest] show ?thesis by simp
    qed
  next
    case False
    with Cons assms(3) show ?thesis by (auto simp: Let_def)
  qed
qed simp

lemma container_accepted:
  assumes "validate_container (Some infos) = None"
  obtains ct content where "length infos \<le> MAX_XLSX_ENTRIES" "\<not> too_large infos"
    "entry_named infos ''xl/workbook.xml'' \<noteq> None" "entry_named infos CONTENT_TYPES = Some ct" "ze_content ct = Some content"
    "\<not> sublist ''macroenabled'' (py_lower content)" "ze_size ct \<le> MAX_CONTENT_TYPES_BYTES"
    "\<forall>i. entry_named infos SHARED_STRINGS_PART = Some i \<longrightarrow> ze_size i \<le> MAX_SHARED_STRINGS_BYTES"
    "\<forall>i \<in> set infos. \<not> ze_encrypted i" "\<forall>i \<in> set infos. \<not> forbidden_name (py_lower (ze_name i))" "scan_entries infos = None"
  using assms by (auto simp: validate_container_def xlsx_invalid_def xlsx_too_large_def split: if_splits option.splits)

lemma not_too_large:
  assumes "\<not> too_large infos"
  shows "sum_list (map ze_size infos) \<le> MAX_XLSX_UNCOMPRESSED_BYTES" and
    "RATIO_CHECK_FROM_BYTES < sum_list (map ze_size infos) \<Longrightarrow>
      sum_list (map ze_size infos) \<le> MAX_XLSX_RATIO * max 1 (sum_list (map ze_packed infos))"
  using assms by (simp_all add: too_large_def Let_def)

text \<open>C25. An archive the container check accepts is harmless. It is within every size limit: the number of entries, the
  unpacked bytes it declares, their ratio to the packed ones (from ten megabytes on), the declared size of the content types and of
  the shared strings, and, in every part of shared strings, the bytes read and the tags found (those no longer than the overlap
  of two chunks). It has a workbook, no encrypted entry, no macro or embedded object by name or content type, and no XML part
  contains a document type or an entity anywhere or begins with the mark of another encoding. A marker across the border of two
  chunks does not escape.\<close>

theorem accepted_archive_is_harmless:
  assumes "validate_container (Some infos) = None"
  shows "length infos \<le> MAX_XLSX_ENTRIES \<and> sum_list (map ze_size infos) \<le> MAX_XLSX_UNCOMPRESSED_BYTES \<and>
    (RATIO_CHECK_FROM_BYTES < sum_list (map ze_size infos) \<longrightarrow>
       sum_list (map ze_size infos) \<le> MAX_XLSX_RATIO * max 1 (sum_list (map ze_packed infos))) \<and>
    (\<forall>i. entry_named infos SHARED_STRINGS_PART = Some i \<longrightarrow> ze_size i \<le> MAX_SHARED_STRINGS_BYTES) \<and>
    (\<forall>i \<in> set infos. \<not> ze_encrypted i \<and> \<not> forbidden_name (py_lower (ze_name i)) \<and>
       (xml_name (py_lower (ze_name i)) \<longrightarrow> (\<exists>s. ze_content i = Some s \<and> \<not> has_bom s \<and>
          (\<forall>m \<in> set XML_FORBIDDEN_MARKERS. \<not> sublist m s))) \<and>
       (py_lower (ze_name i) = SHARED_STRINGS_PART \<longrightarrow>
          (\<exists>s. ze_content i = Some s \<and> length s \<le> MAX_SHARED_STRINGS_BYTES \<and> si_tags s \<le> MAX_SHARED_STRINGS))) \<and>
    entry_named infos ''xl/workbook.xml'' \<noteq> None \<and>
    (\<exists>ct content. entry_named infos CONTENT_TYPES = Some ct \<and> ze_size ct \<le> MAX_CONTENT_TYPES_BYTES \<and>
       ze_content ct = Some content \<and> \<not> sublist ''macroenabled'' (py_lower content))"
proof -
  from assms obtain ct content where c: "length infos \<le> MAX_XLSX_ENTRIES" "\<not> too_large infos"
    "entry_named infos ''xl/workbook.xml'' \<noteq> None" "entry_named infos CONTENT_TYPES = Some ct" "ze_content ct = Some content"
    "\<not> sublist ''macroenabled'' (py_lower content)" "ze_size ct \<le> MAX_CONTENT_TYPES_BYTES"
    "\<forall>i. entry_named infos SHARED_STRINGS_PART = Some i \<longrightarrow> ze_size i \<le> MAX_SHARED_STRINGS_BYTES"
    "\<forall>i \<in> set infos. \<not> ze_encrypted i" "\<forall>i \<in> set infos. \<not> forbidden_name (py_lower (ze_name i))" "scan_entries infos = None"
    by (rule container_accepted)
  have "\<exists>s. ze_content i = Some s \<and> \<not> has_bom s \<and> (\<forall>m \<in> set XML_FORBIDDEN_MARKERS. \<not> sublist m s)"
    if "i \<in> set infos" "xml_name (py_lower (ze_name i))" for i
    using scan_entries_None [OF c(11) that] by (auto simp: has_marker_def)
  with c(1,3-10) not_too_large [OF c(2)] scan_entries_shared [OF c(11)] show ?thesis by blast
qed

section \<open>From sheet to rows\<close>

text \<open>The rows of a sheet that are not empty, and what the conversion writes of them.\<close>

definition full_rows :: "(rat \<Rightarrow> utext) \<Rightarrow> xl_cell list list \<Rightarrow> utext list list" where
  "full_rows fmt rows = filter (\<lambda>r. r \<noteq> []) (map (trim_row fmt) rows)"

lemma sheet_rows_header:
  "sheet_rows fmt broken rows scanned (Some h) n written = Inr (out, n') \<Longrightarrow>
   out = written @ map (fit_row (length h)) (full_rows fmt rows) \<and> n' = n + length (full_rows fmt rows) \<and> (n \<le> MAX_XLSX_ROWS \<longrightarrow> n' \<le> MAX_XLSX_ROWS)"
proof (induction rows arbitrary: scanned n written)
  case (Cons r rows)
  then show ?case by (fastforce simp: Let_def full_rows_def split: if_splits)
qed (auto simp: full_rows_def split: if_splits)

lemma sheet_rows_start:
  "sheet_rows fmt broken rows scanned None 0 [] = Inr (out, n) \<Longrightarrow>
   \<exists>h rest. full_rows fmt rows = h # rest \<and> out = h # map (fit_row (length h)) rest \<and> n = length rest \<and> n \<le> MAX_XLSX_ROWS"
proof (induction rows arbitrary: scanned)
  case (Cons r rows)
  show ?case
  proof (cases "trim_row fmt r = []")
    case True
    with Cons show ?thesis by (auto simp: Let_def full_rows_def split: if_splits)
  next
    case False
    with Cons.prems have "sheet_rows fmt broken rows (scanned + 1) (Some (trim_row fmt r)) 0 [trim_row fmt r] = Inr (out, n)"
      by (simp add: Let_def split: if_splits)
    from sheet_rows_header [OF this] False show ?thesis by (simp add: full_rows_def)
  qed
qed (auto split: if_splits)

lemma trim_row_not_blank: "trim_row fmt cs \<noteq> [] \<Longrightarrow> \<not> blank_row (trim_row fmt cs)"
proof -
  assume "trim_row fmt cs \<noteq> []"
  then obtain c r where r: "dropWhile (\<lambda>c. u_strip c = []) (rev (map (cell_text fmt) cs)) = c # r"
    by (cases "dropWhile (\<lambda>c. u_strip c = []) (rev (map (cell_text fmt) cs))") (auto simp: trim_row_def)
  then have "u_strip c \<noteq> []" by (simp add: dropWhile_eq_Cons_conv)
  moreover have "c \<in> set (trim_row fmt cs)" by (simp add: trim_row_def r)
  ultimately show ?thesis by (auto simp: blank_row_def list_all_iff)
qed

lemma data_rows_written:
  assumes "delimiter_ok d" and "\<forall>r \<in> set rows. \<forall>f \<in> set r. length f \<le> MAX_CSV_FIELD_BYTES" and "count + length rows \<le> max_records"
  shows "data_rows max_records d count (text_lines (write_rows d rows)) = Inr (filter (\<lambda>r. \<not> blank_row r) rows)"
  using assms(2,3)
proof (induction rows arbitrary: count)
  case Nil
  show ?case by (subst data_rows.simps) (simp add: write_rows_def)
next
  case (Cons r rows)
  have row: "csv_next MAX_CSV_FIELD_BYTES d (text_lines (write_rows d (r # rows))) = Row r (text_lines (write_rows d rows))"
    using read_written_row [OF assms(1), of r MAX_CSV_FIELD_BYTES "write_rows d rows"] Cons.prems(1) by (simp add: write_rows_def)
  show ?case using Cons by (subst data_rows.simps) (simp add: row)
qed

lemma data_rows_long:
  assumes "delimiter_ok d" and "\<exists>r \<in> set rows. \<exists>f \<in> set r. MAX_CSV_FIELD_BYTES < length f" and "count + length rows \<le> max_records"
  shows "data_rows max_records d count (text_lines (write_rows d rows)) = Inl (csv_refusal Field_too_large)"
  using assms(2,3)
proof (induction rows arbitrary: count)
  case (Cons r rows)
  have pos: "0 < MAX_CSV_FIELD_BYTES" by (simp add: MAX_CSV_FIELD_BYTES_def)
  show ?case
  proof (cases "\<exists>f \<in> set r. MAX_CSV_FIELD_BYTES < length f")
    case True
    from read_long_row [OF assms(1) pos this, of "write_rows d rows"]
    have "csv_next MAX_CSV_FIELD_BYTES d (text_lines (write_rows d (r # rows))) = Csv_error Field_too_large" by (simp add: write_rows_def)
    then show ?thesis by (subst data_rows.simps) simp
  next
    case False
    then have "csv_next MAX_CSV_FIELD_BYTES d (text_lines (write_rows d (r # rows))) = Row r (text_lines (write_rows d rows))"
      using read_written_row [OF assms(1), of r MAX_CSV_FIELD_BYTES "write_rows d rows"] by (auto simp: write_rows_def not_less)
    with Cons False show ?thesis by (subst data_rows.simps) auto
  qed
qed simp

text \<open>What the sheet is read back as: its rows that are not empty, cut or filled to the width of the first.\<close>

definition fitted_rows :: "(rat \<Rightarrow> utext) \<Rightarrow> xl_cell list list \<Rightarrow> utext list list" where
  "fitted_rows fmt rows =
     (case full_rows fmt rows of [] \<Rightarrow> [] | h # rest \<Rightarrow> h # map (fit_row (length h)) rest)"

text \<open>C26. A workbook's sheet converted to CSV is read back as it was, provided that the reader finds the comma to be the
  separator: when no cell is longer than a field may be, the upload's reader finds the trimmed header and every row that is
  not blank, cut or filled to the width of the header, whatever quotes, separators or line breaks the cells contain; and when one
  is longer, the file is refused for it.\<close>

theorem converted_sheet_reads_back:
  assumes csv: "sheet_to_csv fmt broken rows = Inr (t, n)" and comma: "sniff_delimiter sniff (take 8192 t) = COMMA"
  shows "validated_rows sniff MAX_XLSX_ROWS t =
    (if \<exists>r \<in> set (fitted_rows fmt rows). \<exists>f \<in> set r. MAX_CSV_FIELD_BYTES < length f then Inl (csv_refusal Field_too_large)
     else Inr (hd (fitted_rows fmt rows), filter (\<lambda>r. \<not> blank_row r) (tl (fitted_rows fmt rows))))"
proof -
  from csv obtain out where out: "sheet_rows fmt broken rows 0 None 0 [] = Inr (out, n)" and t: "t = write_rows COMMA out"
    by (auto simp: sheet_to_csv_def split: sum.splits)
  from sheet_rows_start [OF out] obtain h rest where hr: "full_rows fmt rows = h # rest"
    and o: "out = h # map (fit_row (length h)) rest" and n: "length rest \<le> MAX_XLSX_ROWS" by blast
  let ?rest = "map (fit_row (length h)) rest"
  have fitted: "fitted_rows fmt rows = h # ?rest" by (simp add: fitted_rows_def hr)
  have ok: "delimiter_ok COMMA" and pos: "0 < MAX_CSV_FIELD_BYTES" by (simp_all add: delimiter_ok_def MAX_CSV_FIELD_BYTES_def)
  have "h \<in> set (full_rows fmt rows)" by (simp add: hr)
  then have head: "\<not> blank_row h" using trim_row_not_blank by (auto simp: full_rows_def)
  show ?thesis
  proof (cases "\<exists>f \<in> set h. MAX_CSV_FIELD_BYTES < length f")
    case True
    from read_long_row [OF ok pos this, of "write_rows COMMA ?rest"]
    have "csv_next MAX_CSV_FIELD_BYTES COMMA (text_lines t) = Csv_error Field_too_large" by (simp add: t o write_rows_def)
    with True show ?thesis by (simp add: validated_rows_def comma Let_def fitted)
  next
    case False
    then have row: "csv_next MAX_CSV_FIELD_BYTES COMMA (text_lines t) = Row h (text_lines (write_rows COMMA ?rest))"
      using read_written_row [OF ok, of h MAX_CSV_FIELD_BYTES] by (auto simp: t o write_rows_def not_less)
    have "data_rows MAX_XLSX_ROWS COMMA 0 (text_lines (write_rows COMMA ?rest)) =
        (if \<exists>r \<in> set ?rest. \<exists>f \<in> set r. MAX_CSV_FIELD_BYTES < length f then Inl (csv_refusal Field_too_large)
         else Inr (filter (\<lambda>r. \<not> blank_row r) ?rest))"
      using data_rows_long [OF ok, of ?rest 0 MAX_XLSX_ROWS] data_rows_written [OF ok, of ?rest 0 MAX_XLSX_ROWS] n by (auto simp: not_less)
    with row False head show ?thesis by (auto simp: validated_rows_def comma Let_def fitted)
  qed
qed

text \<open>The comma may be lost: a sheet of one column with semicolons in its cells is written without quotes, and the reader splits it.\<close>

definition one_column :: "xl_cell list list" where
  "one_column = [[X_text (utext_of ''a;b'')], [X_text (utext_of ''c;d'')]]"

lemma semicolons_split_a_column:
  "\<exists>t n. sheet_to_csv (\<lambda>_. []) False one_column = Inr (t, n) \<and>
     validated_rows (\<lambda>_. None) MAX_XLSX_ROWS t = Inr ([utext_of ''a'', utext_of ''b''], [[utext_of ''c'', utext_of ''d'']])"
proof -
  let ?t = "utext_of ''a;b'' @ [10] @ utext_of ''c;d'' @ [10]"
  have csv: "sheet_to_csv (\<lambda>_. []) False one_column = Inr (?t, 1)"
    by (simp add: sheet_to_csv_def one_column_def trim_row_def cell_text_def u_strip_def py_uspace_def utext_of_def fit_row_def
      MAX_XLSX_SCANNED_ROWS_def MAX_XLSX_COLUMNS_def MAX_XLSX_ROWS_def write_rows_def write_row_def written_field_def needs_quotes_def)
  have "?t = write_rows SEMICOLON [[utext_of ''a'', utext_of ''b''], [utext_of ''c'', utext_of ''d'']]"
    by (simp add: utext_of_def write_rows_def write_row_def written_field_def needs_quotes_def)
  moreover have "sniff_delimiter (\<lambda>_. None) (take 8192 ?t) = SEMICOLON"
    by (simp add: sniff_delimiter_def char_count_def utext_of_def Let_def)
  moreover have ok: "delimiter_ok SEMICOLON" by (simp add: delimiter_ok_def)
  have "csv_next MAX_CSV_FIELD_BYTES SEMICOLON (text_lines (write_rows SEMICOLON [[utext_of ''a'', utext_of ''b''], [utext_of ''c'', utext_of ''d'']])) =
      Row [utext_of ''a'', utext_of ''b''] (text_lines (write_rows SEMICOLON [[utext_of ''c'', utext_of ''d'']]))"
    using read_written_row [OF ok, of "[utext_of ''a'', utext_of ''b'']" MAX_CSV_FIELD_BYTES] by (simp add: write_rows_def utext_of_def MAX_CSV_FIELD_BYTES_def)
  moreover have "data_rows MAX_XLSX_ROWS SEMICOLON 0 (text_lines (write_rows SEMICOLON [[utext_of ''c'', utext_of ''d'']])) = Inr [[utext_of ''c'', utext_of ''d'']]"
    using data_rows_written [OF ok, of "[[utext_of ''c'', utext_of ''d'']]" 0 MAX_XLSX_ROWS]
    by (simp add: utext_of_def MAX_CSV_FIELD_BYTES_def MAX_XLSX_ROWS_def blank_row_def u_strip_def py_uspace_def)
  ultimately have "validated_rows (\<lambda>_. None) MAX_XLSX_ROWS ?t = Inr ([utext_of ''a'', utext_of ''b''], [[utext_of ''c'', utext_of ''d'']])"
    by (simp add: validated_rows_def blank_row_def u_strip_def py_uspace_def utext_of_def)
  with csv show ?thesis by blast
qed

section \<open>Examples\<close>

definition demo_archive :: "zip_entry list" where
  "demo_archive =
     [\<lparr>ze_name = ''[Content_Types].xml'', ze_size = 8, ze_packed = 8, ze_encrypted = False, ze_content = Some ''<Types/>''\<rparr>,
      \<lparr>ze_name = ''xl/workbook.xml'', ze_size = 4, ze_packed = 4, ze_encrypted = False, ze_content = Some ''<w/>''\<rparr>]"

lemma demo_archive_accepted: "validate_container (Some demo_archive) = None"
proof -
  have names: "py_lower ''[Content_Types].xml'' = ''[content_types].xml''" "py_lower ''xl/workbook.xml'' = ''xl/workbook.xml''"
    "py_lower ''<Types/>'' = ''<types/>''" by code_simp+
  have scans: "scan_xml_part False ''<Types/>'' = None" "scan_xml_part False ''<w/>'' = None"
    unfolding scan_part(2) has_marker_def has_bom_def by code_simp+
  have rest: "\<not> forbidden_name ''[content_types].xml''" "\<not> forbidden_name ''xl/workbook.xml''"
    "xml_name ''[content_types].xml''" "xml_name ''xl/workbook.xml''" "\<not> sublist ''macroenabled'' ''<types/>''" by code_simp+
  show ?thesis
    by (simp add: validate_container_def demo_archive_def MAX_XLSX_ENTRIES_def too_large_def MAX_XLSX_UNCOMPRESSED_BYTES_def
      RATIO_CHECK_FROM_BYTES_def entry_named_def names CONTENT_TYPES_def SHARED_STRINGS_PART_def rest MAX_CONTENT_TYPES_BYTES_def scans)
qed

theorem accepted_archive_is_harmless_witness:
  "sum_list (map ze_size demo_archive) \<le> MAX_XLSX_UNCOMPRESSED_BYTES \<and> (\<exists>i \<in> set demo_archive. \<not> ze_encrypted i)"
  using accepted_archive_is_harmless [OF demo_archive_accepted] by (auto simp: demo_archive_def)

definition demo_sheet :: "xl_cell list list" where
  "demo_sheet = [[X_text (utext_of ''a,b''), X_text (utext_of ''c'')], [X_none], [X_bool True, X_none, X_text (utext_of ''x'')]]"

lemma demo_full_rows: "full_rows (\<lambda>_. []) demo_sheet =
    [[utext_of ''a,b'', utext_of ''c''], [utext_of ''true'', [], utext_of ''x'']]"
  by (simp add: full_rows_def demo_sheet_def trim_row_def cell_text_def u_strip_def py_uspace_def utext_of_def)

lemma demo_sheet_converts: "\<exists>t n. sheet_to_csv (\<lambda>_. []) False demo_sheet = Inr (t, n)"
  by (simp add: sheet_to_csv_def demo_sheet_def trim_row_def cell_text_def u_strip_def py_uspace_def utext_of_def
    MAX_XLSX_SCANNED_ROWS_def MAX_XLSX_COLUMNS_def MAX_XLSX_ROWS_def)

theorem converted_sheet_reads_back_witness:
  "\<exists>t n. sheet_to_csv (\<lambda>_. []) False demo_sheet = Inr (t, n) \<and>
    validated_rows (\<lambda>_. Some COMMA) MAX_XLSX_ROWS t = Inr ([utext_of ''a,b'', utext_of ''c''], [[utext_of ''true'', []]])"
proof -
  obtain t n where csv: "sheet_to_csv (\<lambda>_. []) False demo_sheet = Inr (t, n)" using demo_sheet_converts by blast
  have rows: "fitted_rows (\<lambda>_. []) demo_sheet = [[utext_of ''a,b'', utext_of ''c''], [utext_of ''true'', []]]"
    by (simp add: fitted_rows_def demo_full_rows fit_row_def)
  have comma: "sniff_delimiter (\<lambda>_. Some COMMA) (take 8192 t) = COMMA" by (simp add: sniff_delimiter_def)
  have "\<not> blank_row [utext_of ''true'', []]" by (simp add: blank_row_def u_strip_def py_uspace_def utext_of_def)
  then have "validated_rows (\<lambda>_. Some COMMA) MAX_XLSX_ROWS t = Inr ([utext_of ''a,b'', utext_of ''c''], [[utext_of ''true'', []]])"
    using converted_sheet_reads_back [OF csv comma] by (simp add: rows utext_of_def MAX_CSV_FIELD_BYTES_def)
  with csv show ?thesis by blast
qed

end
