(* ===== verification/UploadSafety.thy ===== *)
theory UploadSafety
  imports Uploads
begin

text \<open>
  What an upload leaves behind: nothing when it is turned away, exactly the file, the row and the usage it reports when it is
  accepted, and a job only where its caller could have started one.
\<close>

section \<open>Attempts step by step\<close>

lemma and_then_Inr:
  "and_then m k st = (Inr y, st') \<longleftrightarrow> (\<exists>x s1. m st = (Inr x, s1) \<and> k x s1 = (Inr y, st'))"
  by (auto simp: and_then_def split: prod.splits sum.splits)

lemma pure_step_Inr [simp]: "pure_step r st = (Inr y, st') \<longleftrightarrow> r = Inr y \<and> st' = st"
  by (auto simp: pure_step_def)

lemma turned_away_Inr [simp]: "turned_away r = Inr x \<longleftrightarrow> r = Inr x"
  by (auto simp: turned_away_def split: sum.splits)

text \<open>The files an attempt has not made itself, and a step that keeps them.\<close>

definition untouched :: "path \<Rightarrow> file_store \<Rightarrow> path option \<Rightarrow> attempt_state \<Rightarrow> bool" where
  "untouched tmp fs final st =
     (at_final st = final \<and> filter (\<lambda>x. fst x \<noteq> tmp \<and> Some (fst x) \<noteq> final) (at_files st) = fs)"

definition keeps :: "path \<Rightarrow> file_store \<Rightarrow> path option \<Rightarrow> 'a attempt_step \<Rightarrow> bool" where
  "keeps tmp fs final m = (\<forall>st. untouched tmp fs final st \<longrightarrow> untouched tmp fs final (snd (m st)))"

lemma keeps_and_then:
  "keeps tmp fs final m \<Longrightarrow> (\<And>x. keeps tmp fs final (k x)) \<Longrightarrow> keeps tmp fs final (and_then m k)"
  unfolding keeps_def and_then_def by (auto split: prod.splits sum.splits)

lemma keeps_pure [simp]: "keeps tmp fs final (pure_step r)"
  by (simp add: keeps_def pure_step_def)

lemma untouched_put_tmp:
  "untouched tmp fs final st \<Longrightarrow> untouched tmp fs final (st\<lparr>at_files := put_file tmp f (at_files st)\<rparr>)"
  by (auto simp: untouched_def put_file_def conj_commute cong: filter_cong)

lemma keeps_receive: "keeps tmp fs final (receive env now tmp limit remaining pieces)"
  unfolding keeps_def
proof (intro allI impI)
  fix st assume "untouched tmp fs final st"
  then have "untouched tmp fs final (st\<lparr>at_files := put_file tmp f (at_files st)\<rparr>)" for f by (rule untouched_put_tmp)
  with \<open>untouched tmp fs final st\<close> show "untouched tmp fs final (snd (receive env now tmp limit remaining pieces st))"
    by (auto simp: receive_def untouched_def Let_def split: prod.splits sum.splits)
qed

lemma keeps_rewrite: "keeps tmp fs final (rewrite_temp env now tmp raw)"
  unfolding keeps_def rewrite_temp_def by (auto intro: untouched_put_tmp)

lemma keeps_contents: "keeps tmp fs final (check_contents env now tmp kind sheet raw)"
  unfolding check_contents_def by (auto intro!: keeps_and_then keeps_rewrite split: prod.splits)

lemma keeps_policy: "keeps tmp fs final (enforce_policy_on_path env on dir now p)"
  unfolding keeps_def enforce_policy_on_path_def by (auto simp: untouched_def Let_def split: prod.splits sum.splits)

lemma keeps_move: "keeps tmp fs (Some p) (move_temp env tmp p)"
  unfolding keeps_def move_temp_def
  by (auto simp: untouched_def put_file_def conj_commute split: bool.splits option.splits cong: filter_cong)

text \<open>What is left once the attempt's own files are removed; the names of those are the upload's.\<close>

definition own_file :: "upload_env \<Rightarrow> fresh_ids \<Rightarrow> path \<Rightarrow> path \<Rightarrow> bool" where
  "own_file env ids dir p = (\<exists>s. dk_resolve (ue_disk env) (Under dir (fi_upload ids @ s)) = Some p)"

definition left_alone :: "(path \<Rightarrow> bool) \<Rightarrow> path \<Rightarrow> file_store \<Rightarrow> attempt_state \<Rightarrow> bool" where
  "left_alone own tmp fs st = (\<exists>final. pred_option own final \<and> untouched tmp fs final st)"

lemma left_alone_and_then:
  assumes "keeps tmp fs final m" and "untouched tmp fs final st" and "pred_option own final"
    and "\<And>x s1. m st = (Inr x, s1) \<Longrightarrow> untouched tmp fs final s1 \<Longrightarrow> left_alone own tmp fs (snd (k x s1))"
  shows "left_alone own tmp fs (snd (and_then m k st))"
proof -
  obtain r s1 where m: "m st = (r, s1)" by fastforce
  then have u: "untouched tmp fs final s1" using assms(1,2) unfolding keeps_def by (metis snd_conv)
  show ?thesis
  proof (cases r)
    case (Inl e)
    then show ?thesis using m u assms(3) by (auto simp: and_then_def left_alone_def)
  next
    case (Inr x)
    then show ?thesis using m assms(4) [of x s1] u by (simp add: and_then_def)
  qed
qed

lemma keeps_left_alone:
  "keeps tmp fs final m \<Longrightarrow> pred_option own final \<Longrightarrow> untouched tmp fs final st \<Longrightarrow> left_alone own tmp fs (snd (m st))"
  by (auto simp: keeps_def left_alone_def)

lemma ensure_inside_root_Inr:
  "ensure_inside_root d dir name = Inr p \<Longrightarrow>
    dk_resolve d (Under dir name) = Some p \<and> (\<exists>r. dk_resolve d (At dir) = Some r \<and> prefix r p)"
  by (auto simp: ensure_inside_root_def split: option.splits if_splits)

lemma name_final_untouched:
  assumes "name_final env dir name st = (Inr p, s1)" and "untouched tmp fs None st" and "p \<notin> fst ` set fs"
  shows "untouched tmp fs (Some p) s1"
proof -
  from assms(1) have s1: "s1 = st\<lparr>at_final := Some p\<rparr>" by (auto simp: name_final_def split: sum.splits)
  have "filter (\<lambda>x. fst x \<noteq> tmp \<and> fst x \<noteq> p) (at_files st) = filter (\<lambda>x. fst x \<noteq> p) fs"
    using assms(2) by (auto simp: untouched_def conj_commute)
  also have "\<dots> = fs" using assms(3) by (intro filter_True) auto
  finally show ?thesis by (simp add: untouched_def s1)
qed

lemma name_final_left_alone:
  assumes "untouched tmp fs None st" and "\<And>p. own p \<Longrightarrow> p \<notin> fst ` set fs"
    and "\<And>p. dk_resolve (ue_disk env) (Under dir name) = Some p \<Longrightarrow> own p"
    and "\<And>p s1. own p \<Longrightarrow> untouched tmp fs (Some p) s1 \<Longrightarrow> left_alone own tmp fs (snd (k p s1))"
  shows "left_alone own tmp fs (snd (and_then (name_final env dir name) k st))"
proof (cases "ensure_inside_root (ue_disk env) dir name")
  case (Inl e)
  then show ?thesis using assms(1) by (auto simp: and_then_def name_final_def left_alone_def intro!: exI [of _ None])
next
  case (Inr p)
  then have nf: "name_final env dir name st = (Inr p, st\<lparr>at_final := Some p\<rparr>)" by (simp add: name_final_def)
  have own: "own p" using ensure_inside_root_Inr [OF Inr] assms(3) by blast
  from assms(4) [OF own name_final_untouched [OF nf assms(1) assms(2) [OF own]]] show ?thesis by (simp add: and_then_def nf)
qed

lemma ingest_left_alone:
  assumes "untouched tmp fs None st" and "\<And>p. own_file env ids dir p \<Longrightarrow> p \<notin> fst ` set fs"
  shows "left_alone (own_file env ids dir) tmp fs
    (snd (ingest_steps env cfg now clock (fi_upload ids) dir tmp remaining form st))"
proof -
  have own: "own_file env ids dir p" if "dk_resolve (ue_disk env) (Under dir (fi_upload ids @ s)) = Some p" for p s
    using that by (auto simp: own_file_def)
  show ?thesis
    unfolding ingest_steps_def
    apply (rule left_alone_and_then [OF keeps_pure assms(1)], simp)
    apply (erule left_alone_and_then [OF keeps_receive], simp)
    apply (erule name_final_left_alone)
      apply (erule assms(2))
     apply (erule own)
    apply (erule keeps_left_alone [rotated 2])
     apply (rule keeps_and_then [OF keeps_contents])
     apply (simp only: split_beta)
     apply (intro keeps_and_then keeps_policy keeps_move keeps_pure)
    apply simp
    done
qed

text \<open>The files that are not the attempt's own locked ones.\<close>

definition besides_locked :: "upload_env \<Rightarrow> fresh_ids \<Rightarrow> path \<Rightarrow> file_store \<Rightarrow> file_store" where
  "besides_locked env ids dir fs = filter (\<lambda>e. \<not> (own_file env ids dir (fst e) \<and> dk_stuck (ue_disk env) (fst e))) fs"

lemma tidy_left_alone:
  assumes left: "left_alone (own_file env ids dir) tmp fs st" and tmp: "own_file env ids dir tmp"
    and fresh: "\<And>p. own_file env ids dir p \<Longrightarrow> p \<notin> fst ` set fs"
  shows "besides_locked env ids dir (tidy env tmp (at_final st) (at_files st)) = fs"
proof -
  let ?P = "\<lambda>e. \<not> (own_file env ids dir (fst e) \<and> dk_stuck (ue_disk env) (fst e))"
  let ?kept = "\<lambda>e. (dk_stuck (ue_disk env) tmp \<or> fst e \<noteq> tmp) \<and>
    (\<forall>p. at_final st = Some p \<longrightarrow> dk_stuck (ue_disk env) p \<or> fst e \<noteq> p)"
  let ?Q = "\<lambda>e. fst e \<noteq> tmp \<and> Some (fst e) \<noteq> at_final st"
  from left have fs: "filter ?Q (at_files st) = fs" and final: "pred_option (own_file env ids dir) (at_final st)"
    by (auto simp: left_alone_def untouched_def)
  have tidied: "tidy env tmp (at_final st) (at_files st) = filter ?kept (at_files st)"
    by (cases "at_final st") (auto simp: tidy_def remove_file_def intro!: filter_cong)
  have "?P e \<and> ?kept e \<longleftrightarrow> ?P e \<and> ?Q e" for e
    using tmp final by (cases "at_final st") auto
  then have "besides_locked env ids dir (tidy env tmp (at_final st) (at_files st)) = filter ?P (filter ?Q (at_files st))"
    unfolding tidied besides_locked_def filter_filter by (metis (lifting))
  also have "\<dots> = fs" unfolding fs using fresh by (intro filter_True) auto
  finally show ?thesis .
qed

lemma besides_locked_fresh:
  "(\<And>p. own_file env ids dir p \<Longrightarrow> p \<notin> fst ` set fs) \<Longrightarrow> besides_locked env ids dir fs = fs"
  unfolding besides_locked_def by (intro filter_True) auto

section \<open>Turned away\<close>

text \<open>The tables of an upload.\<close>

definition same_uploads :: "cdb \<Rightarrow> cdb \<Rightarrow> bool" where
  "same_uploads db db' = (uploads db' = uploads db \<and> jobs db' = jobs db \<and> usage_counters db' = usage_counters db)"

lemma denied_keeps: "denied rq ids ctx status reason n db = (e, db') \<Longrightarrow> same_uploads db db'"
  by (auto simp: denied_def record_event_known same_uploads_def split: sum.splits)

lemma commit_upload_Inl: "commit_upload env rq ids ctx form acc db = (Inl e, db') \<Longrightarrow> db' = db"
  by (auto simp: commit_upload_def Let_def with_event_def split: option.splits sum.splits)

lemma sweep_subset: "set (sweep_directory fails now dir fs) \<subseteq> set fs"
  by (auto simp: sweep_directory_def)

lemma untouched_start:
  "tmp \<notin> fst ` set fs \<Longrightarrow> untouched tmp fs None \<lparr>at_files = fs, at_lines = l, at_size = 0, at_final = None\<rparr>"
  by (auto simp: untouched_def intro!: filter_True)

text \<open>What a refusal leaves of the database: what it was, or, when the answer failed after the commit, the row and its usage.\<close>

definition kept_after_commit ::
  "upload_env \<Rightarrow> http_request \<Rightarrow> fresh_ids \<Rightarrow> org_context \<Rightarrow> upload_form \<Rightarrow> cdb \<Rightarrow> cdb \<Rightarrow> bool" where
  "kept_after_commit env rq ids ctx form db db' =
     (ue_io_fails env Answer_row \<and> (\<exists>acc row db1. commit_upload env rq ids ctx form acc db = (Inr row, db1) \<and> same_uploads db1 db'))"

lemma refused_attempt:
  assumes "attempt_upload env sv rq cfg ids dir fails ctx form w = (Inl e, w')"
    and fresh: "\<And>p. own_file env ids dir p \<Longrightarrow> p \<notin> fst ` set (uw_files w)"
  shows "besides_locked env ids dir (uw_files w') = sweep_directory fails (wall_clock rq) dir (uw_files w) \<and>
    (same_uploads (ap_db (uw_app w)) (ap_db (uw_app w')) \<or>
     kept_after_commit env rq ids ctx form (ap_db (uw_app w)) (ap_db (uw_app w')))"
proof -
  let ?fs = "sweep_directory fails (wall_clock rq) dir (uw_files w)"
  let ?rem = "quota_remaining (ucf_quota cfg) (dir_usage_bytes fails (listing dir ?fs))"
  let ?st = "\<lparr>at_files = ?fs, at_lines = uw_lines w, at_size = 0, at_final = None\<rparr>"
  have fresh': "p \<notin> fst ` set ?fs" if "own_file env ids dir p" for p
    using fresh [OF that] sweep_subset by blast
  show ?thesis
  proof (cases "ensure_inside_root (ue_disk env) dir (fi_upload ids @ ''.tmp'')")
    case (Inl u)
    then show ?thesis using assms(1) besides_locked_fresh [OF fresh']
      by (auto simp: attempt_upload_def Let_def same_uploads_def)
  next
    case (Inr tmp)
    obtain r s1 where steps: "ingest_steps env cfg (rq_now rq) (wall_clock rq) (fi_upload ids) dir tmp ?rem form ?st = (r, s1)"
      by fastforce
    have own: "own_file env ids dir tmp" using ensure_inside_root_Inr [OF Inr] by (auto simp: own_file_def)
    have "left_alone (own_file env ids dir) tmp ?fs (snd (ingest_steps env cfg (rq_now rq) (wall_clock rq) (fi_upload ids) dir tmp ?rem form ?st))"
      by (rule ingest_left_alone [OF untouched_start [OF fresh' [OF own]] fresh'])
    then have "left_alone (own_file env ids dir) tmp ?fs s1" by (simp add: steps)
    from tidy_left_alone [OF this own fresh'] have tidy: "besides_locked env ids dir (tidy env tmp (at_final s1) (at_files s1)) = ?fs" .
    show ?thesis
    proof (cases r)
      case (Inl u)
      with assms(1) Inr steps tidy show ?thesis
        by (auto simp: attempt_upload_def Let_def drop_upload_def denied_keeps split: prod.splits dest: denied_keeps)
    next
      case (Inr acc)
      with assms(1) \<open>ensure_inside_root _ _ _ = Inr tmp\<close> steps
      have keep: "keep_upload env sv rq cfg ids ctx form tmp acc s1 (uw_app w) = (Inl e, w')"
        by (simp add: attempt_upload_def Let_def)
      show ?thesis
      proof (cases "commit_upload env rq ids ctx form acc (ap_db (uw_app w))")
        case (Pair c db1)
        show ?thesis
        proof (cases c)
          case (Inl a)
          with keep Pair tidy show ?thesis by (auto simp: keep_upload_def same_uploads_def dest: commit_upload_Inl)
        next
          case (Inr row)
          with keep Pair obtain db2 where "ue_io_fails env Answer_row" and "same_uploads db1 db2" and "ap_db (uw_app w') = db2"
            and "uw_files w' = tidy env tmp (at_final s1) (at_files s1)"
            by (auto simp: keep_upload_def drop_upload_def Let_def split: prod.splits if_splits dest: denied_keeps)
          with Pair Inr tidy show ?thesis by (auto simp: kept_after_commit_def)
        qed
      qed
    qed
  qed
qed

text \<open>C29. An upload that is refused leaves nothing behind unless its row was committed: besides files of its own that are locked, the
  files are those there were, less the abandoned temporary ones the sweep removes, and the organization's uploads, jobs and usage
  are as before. Only a failure of the answer after the commit keeps the row and its usage, though its file is removed just the
  same and the caller is told that the file could not be processed.\<close>

theorem refused_upload_leaves_nothing:
  assumes "ingest_upload env sv rq cfg ids dir fails ctx form w = (Inl e, w')"
    and "\<And>p. own_file env ids dir p \<Longrightarrow> p \<notin> fst ` set (uw_files w)"
  shows "besides_locked env ids dir (uw_files w') \<in> {uw_files w, sweep_directory fails (wall_clock rq) dir (uw_files w)} \<and>
    (uploads (ap_db (uw_app w')) = uploads (ap_db (uw_app w)) \<and> jobs (ap_db (uw_app w')) = jobs (ap_db (uw_app w)) \<and>
     usage_counters (ap_db (uw_app w')) = usage_counters (ap_db (uw_app w)) \<or>
     kept_after_commit env rq ids ctx form (ap_db (uw_app w)) (ap_db (uw_app w')))"
proof -
  obtain wait bs where lim: "enforce (sv_max_buckets sv) (rq_clock rq) ''v1_upload''
      (principal_key (actor_tag (cx_principal ctx)) (client_ip (rq_host rq))) (ucf_upload_per_min cfg) (ap_limiter (uw_app w)) = (wait, bs)"
    by fastforce
  let ?w = "w\<lparr>uw_app := (uw_app w)\<lparr>ap_limiter := bs\<rparr>\<rparr>"
  show ?thesis
  proof (cases "wait = None")
    case False
    then show ?thesis using assms(1) lim besides_locked_fresh [OF assms(2)] by (auto simp: ingest_upload_def Let_def)
  next
    case True
    then have "attempt_upload env sv rq cfg ids dir fails ctx form ?w = (Inl e, w')"
      using assms(1) lim by (simp add: ingest_upload_def Let_def)
    from refused_attempt [OF this] assms(2) show ?thesis by (auto simp: same_uploads_def)
  qed
qed

section \<open>Accepted\<close>

lemma stream_to_temp_Inr:
  "stream_to_temp limit remaining pieces written = (Inr n, out) \<Longrightarrow>
    out = written @ concat (takeWhile (\<lambda>c. c \<noteq> []) pieces) \<and> n = length out \<and>
    (length written \<le> limit \<longrightarrow> length out \<le> limit) \<and>
    (\<forall>r. remaining = Some r \<longrightarrow> length written \<le> r \<longrightarrow> length out \<le> r)"
  by (induction limit remaining pieces written rule: stream_to_temp.induct) (auto split: if_splits option.splits)

definition received_bytes :: "upload_form \<Rightarrow> string" where
  "received_bytes form = concat (takeWhile (\<lambda>c. c \<noteq> []) (uf_chunks form))"

lemma receive_Inr:
  assumes "receive env now tmp limit remaining (uf_chunks form) st = (Inr raw, s1)"
  shows "raw = received_bytes form" "length raw \<le> limit" "\<And>r. remaining = Some r \<Longrightarrow> length raw \<le> r"
    "map_of (at_files s1) tmp = Some \<lparr>sf_content = raw, sf_mtime = now\<rparr>"
proof -
  obtain r out where s: "stream_to_temp limit remaining (uf_chunks form) [] = (r, out)" by fastforce
  with assms obtain n where "r = Inr n" and raw: "raw = out"
    "s1 = st\<lparr>at_files := put_file tmp \<lparr>sf_content = out, sf_mtime = now\<rparr> (at_files st), at_size := n\<rparr>"
    by (auto simp: receive_def Let_def split: if_splits sum.splits)
  with s have "stream_to_temp limit remaining (uf_chunks form) [] = (Inr n, out)" by simp
  from stream_to_temp_Inr [OF this] raw show "raw = received_bytes form" "length raw \<le> limit"
      "\<And>r. remaining = Some r \<Longrightarrow> length raw \<le> r"
      "map_of (at_files s1) tmp = Some \<lparr>sf_content = raw, sf_mtime = now\<rparr>"
    by (auto simp: received_bytes_def put_file_def)
qed

text \<open>What is stored passed the checks of its kind.\<close>

definition checked_content :: "upload_env \<Rightarrow> string \<Rightarrow> utext option \<Rightarrow> string \<Rightarrow> string \<Rightarrow> bool" where
  "checked_content env kind sheet raw content =
     (if kind = ''package'' then content = raw \<and> ue_package env raw
      else if kind = ''xlsx'' then (\<exists>n. converted env sheet raw = Inr (content, n)) \<and> (\<exists>v. validated env MAX_XLSX_ROWS content = Inr v)
      else content = raw \<and> (\<exists>v. validated env MAX_RECORDS raw = Inr v))"

lemma check_contents_Inr:
  assumes "check_contents env now tmp kind sheet raw st = (Inr (content, note), s1)"
    and "map_of (at_files st) tmp = Some f" and "sf_content f = raw"
  shows "checked_content env kind sheet raw content \<and> (\<exists>f. map_of (at_files s1) tmp = Some f \<and> sf_content f = content)"
  using assms
  by (auto simp: check_contents_def and_then_Inr checked_content_def validate_package_def rewrite_temp_def put_file_def split: if_splits)

lemma policy_files: "enforce_policy_on_path env on dir now p st = (Inr u, s1) \<Longrightarrow> at_files s1 = at_files st"
  by (auto simp: enforce_policy_on_path_def Let_def split: if_splits prod.splits sum.splits)

lemma move_temp_Inr:
  "move_temp env tmp p st = (Inr u, s1) \<Longrightarrow> map_of (at_files s1) p = map_of (at_files st) tmp"
  by (auto simp: move_temp_def put_file_def split: bool.splits option.splits)

lemma name_final_Inr:
  "name_final env dir name st = (Inr p, s1) \<Longrightarrow> ensure_inside_root (ue_disk env) dir name = Inr p \<and> at_files s1 = at_files st"
  by (auto simp: name_final_def split: sum.splits)

text \<open>The name of the stored file.\<close>

definition stored_name :: "ident \<Rightarrow> string \<Rightarrow> string" where
  "stored_name upload_id kind = upload_id @ (if kind = ''package'' then ''.json'' else ''.csv'')"

lemma ingest_steps_Inr:
  assumes "ingest_steps env cfg now clock upload_id dir tmp remaining form st = (Inr acc, s1)"
  shows "acc_received acc = received_bytes form" "length (acc_received acc) \<le> limit_of_kind (acc_kind acc)"
    "\<And>r. remaining = Some r \<Longrightarrow> length (acc_received acc) \<le> r"
    "ensure_inside_root (ue_disk env) dir (stored_name upload_id (acc_kind acc)) = Inr (acc_path acc)"
    "checked_content env (acc_kind acc) (uf_sheet form) (acc_received acc) (acc_stored acc)"
    "\<exists>f. map_of (at_files s1) (acc_path acc) = Some f \<and> sf_content f = acc_stored acc"
proof -
  from assms obtain kind raw a final b content nt c d u v report where
    rec: "receive env clock tmp (limit_of_kind kind) remaining (uf_chunks form) st = (Inr raw, a)"
    and nf: "name_final env dir (stored_name upload_id kind) a = (Inr final, b)"
    and chk: "check_contents env clock tmp kind (uf_sheet form) raw b = (Inr (content, nt), c)"
    and pol: "enforce_policy_on_path env (ucf_policy cfg) dir now final c = (Inr u, d)"
    and mv: "move_temp env tmp final d = (Inr v, s1)"
    and acc: "acc = \<lparr>acc_kind = kind, acc_path = final, acc_received = raw, acc_stored = content, acc_report = report, acc_note = nt\<rparr>"
    by (auto simp: ingest_steps_def and_then_Inr stored_name_def)
  note r = receive_Inr [OF rec] and n = name_final_Inr [OF nf]
  have "map_of (at_files b) tmp = Some \<lparr>sf_content = raw, sf_mtime = clock\<rparr>" using r(4) n by simp
  from check_contents_Inr [OF chk this] policy_files [OF pol] move_temp_Inr [OF mv] r n acc
  show "acc_received acc = received_bytes form" "length (acc_received acc) \<le> limit_of_kind (acc_kind acc)"
    "\<And>r. remaining = Some r \<Longrightarrow> length (acc_received acc) \<le> r"
    "ensure_inside_root (ue_disk env) dir (stored_name upload_id (acc_kind acc)) = Inr (acc_path acc)"
    "checked_content env (acc_kind acc) (uf_sheet form) (acc_received acc) (acc_stored acc)"
    "\<exists>f. map_of (at_files s1) (acc_path acc) = Some f \<and> sf_content f = acc_stored acc"
    by simp_all
qed

text \<open>The database after the commit and the schedule's job.\<close>

lemma bytes_used_bump:
  assumes "rowcount (usage_row og (current_period now)) (usage_counters db) \<noteq> 0"
  shows "bytes_used og now (snd (bump_usage og (current_period now) r b db)) = bytes_used og now db + b"
    "runs_used og now (snd (bump_usage og (current_period now) r b db)) = runs_used og now db + r"
proof -
  have "sql_first (usage_row og (current_period now)) (usage_counters db) \<noteq> None"
    using assms unfolding rowcount_pos by (auto simp: sql_first_def find_None_iff)
  moreover have "get_usage og p db = sql_first (usage_row og p) (usage_counters db)" for p db
    by (simp add: get_usage_def usage_row_def [abs_def])
  moreover have "usage_row og p (c\<lparr>uc_runs := x, uc_upload_bytes := y\<rparr>) = usage_row og p c" for p c x y
    by (simp add: usage_row_def)
  ultimately show "bytes_used og now (snd (bump_usage og (current_period now) r b db)) = bytes_used og now db + b"
    "runs_used og now (snd (bump_usage og (current_period now) r b db)) = runs_used og now db + r"
    by (auto simp: bytes_used_def runs_used_def bump_usage_def sql_first_update split: option.splits)
qed

lemma bytes_used_add:
  "bytes_used og now (add_usage (\<lambda>d. d) now og r b db) = bytes_used og now db + b \<and>
   runs_used og now (add_usage (\<lambda>d. d) now og r b db) = runs_used og now db + r"
proof (cases "rowcount (usage_row og (current_period now)) (usage_counters db) = 0")
  case False
  with bytes_used_bump [OF False, where r = r and b = b] show ?thesis by (simp add: add_usage_def Let_def bump_usage_def)
next
  case True
  then have none: "\<forall>c \<in> set (usage_counters db). \<not> usage_row og (current_period now) c" by (simp add: rowcount_zero)
  let ?c = "\<lparr>uc_org = og, uc_period = current_period now, uc_runs = r, uc_upload_bytes = b\<rparr>"
  have ins: "sql_insert (\<lambda>c. (uc_org c, uc_period c)) ?c (usage_counters db) = Some (usage_counters db @ [?c])"
    using none by (auto simp: sql_insert_def usage_row_def)
  have "add_usage (\<lambda>d. d) now og r b db = db\<lparr>usage_counters := usage_counters db @ [?c]\<rparr>"
    using True bump_usage_none [OF True] by (simp add: add_usage_def Let_def bump_usage_def ins)
  moreover have "sql_first (usage_row og (current_period now)) (usage_counters db) = None"
    using none by (auto simp: sql_first_def find_None_iff)
  moreover have "sql_first (usage_row og (current_period now)) (usage_counters db @ [?c]) = Some ?c"
    using none by (intro sql_first_new) (simp_all add: usage_row_def)
  ultimately show ?thesis
    by (simp add: bytes_used_def runs_used_def get_usage_def usage_row_def [abs_def])
qed

lemma add_usage_frame:
  "uploads (add_usage (\<lambda>d. d) now og r b db) = uploads db" "org_schedules (add_usage (\<lambda>d. d) now og r b db) = org_schedules db"
  "jobs (add_usage (\<lambda>d. d) now og r b db) = jobs db"
  by (auto simp: add_usage_def bump_usage_def Let_def split: option.splits)

lemma bytes_used_cong:
  "usage_counters db' = usage_counters db \<Longrightarrow> bytes_used og now db' = bytes_used og now db"
  "usage_counters db' = usage_counters db \<Longrightarrow> runs_used og now db' = runs_used og now db"
  by (simp_all add: bytes_used_def runs_used_def get_usage_def)

lemma commit_upload_Inr:
  assumes "commit_upload env rq ids ctx form acc db = (Inr row, db')" and "ue_meanwhile env = (\<lambda>d. d)"
  shows "row = upload_row rq ids ctx env form acc" "uploads db' = uploads db @ [row]" "jobs db' = jobs db" "org_schedules db' = org_schedules db"
    "bytes_used (cx_org_id ctx) (rq_now rq) db' = bytes_used (cx_org_id ctx) (rq_now rq) db + up_bytes row"
    "runs_used (cx_org_id ctx) (rq_now rq) db' = runs_used (cx_org_id ctx) (rq_now rq) db"
proof -
  let ?row = "upload_row rq ids ctx env form acc"
  from assms(1) obtain us where ins: "sql_insert up_id ?row (uploads db) = Some us"
    and ev: "record_event (fi_event ids) (rq_now rq) (Some (cx_org_id ctx)) (actor_type (cx_principal ctx))
               (actor_id (cx_principal ctx)) ''upload.created'' (Some (''upload:'' @ up_id ?row))
               [(''upload_id'', PStr (up_id ?row)), (''kind'', PStr (up_kind ?row)), (''bytes'', PInt (up_bytes ?row)),
                (''sha256'', PStr (up_sha256 ?row))] (rq_host rq)
               (add_usage (\<lambda>d. d) (rq_now rq) (cx_org_id ctx) 0 (up_bytes ?row) (db\<lparr>uploads := us\<rparr>)) = Inr db'"
    and row: "row = ?row"
    by (auto simp: commit_upload_def Let_def with_event_def assms(2) split: option.splits sum.splits)
  from ev have frame: "uploads db' = us" "jobs db' = jobs db" "org_schedules db' = org_schedules db"
      "usage_counters db' = usage_counters (add_usage (\<lambda>d. d) (rq_now rq) (cx_org_id ctx) 0 (up_bytes ?row) (db\<lparr>uploads := us\<rparr>))"
    by (auto simp: record_event_def add_usage_frame split: if_splits)
  show "row = ?row" "uploads db' = uploads db @ [row]" "jobs db' = jobs db" "org_schedules db' = org_schedules db"
    using row frame(1-3) sql_insert_Some(1) [OF ins] by simp_all
  show "bytes_used (cx_org_id ctx) (rq_now rq) db' = bytes_used (cx_org_id ctx) (rq_now rq) db + up_bytes row"
    "runs_used (cx_org_id ctx) (rq_now rq) db' = runs_used (cx_org_id ctx) (rq_now rq) db"
    unfolding bytes_used_cong [OF frame(4)] conjunct1 [OF bytes_used_add] conjunct2 [OF bytes_used_add] row
    by (simp_all add: bytes_used_def runs_used_def get_usage_def)
qed

lemma skip_auto_frame:
  "uploads (ap_db (skip_auto rq ids ctx u p reason st)) = uploads (ap_db st)"
  "usage_counters (ap_db (skip_auto rq ids ctx u p reason st)) = usage_counters (ap_db st)"
  "jobs (ap_db (skip_auto rq ids ctx u p reason st)) = jobs (ap_db st)"
  by (auto simp: skip_auto_def record_event_def split: sum.splits if_splits)

lemma queue_auto_Inr:
  assumes "queue_auto sv rq cfg ids ctx body st = (Inr j, st1)"
  shows "jobs (ap_db st1) = jobs (ap_db st) @ [j]" "j = new_job (fi_job ids) (rq_now rq) (cx_org_id ctx) (cx_principal ctx) body"
    "uploads (ap_db st1) = uploads (ap_db st)" "usage_counters (ap_db st1) = usage_counters (ap_db st)"
    "check_job (sv_cloud sv) (cx_org_id ctx) body (ap_db st) = None" "job_create_valid body"
proof -
  from assms have ok: "job_create_valid body" and q: "queue_job (sv_maintenance sv) (sv_cloud sv) (fi_job ids) (fi_auto_event ids)
      (rq_now rq) (rq_host rq) (cx_org_id ctx) (cx_principal ctx) body (Some ''auto_run'') (ap_db st) = (Inr j, ap_db st1)"
    by (auto simp: queue_auto_def Let_def split: prod.splits if_splits)
  from queue_job_Inr [OF q] ok show "jobs (ap_db st1) = jobs (ap_db st) @ [j]"
      "j = new_job (fi_job ids) (rq_now rq) (cx_org_id ctx) (cx_principal ctx) body"
      "uploads (ap_db st1) = uploads (ap_db st)" "usage_counters (ap_db st1) = usage_counters (ap_db st)"
      "check_job (sv_cloud sv) (cx_org_id ctx) body (ap_db st) = None" "job_create_valid body"
    by simp_all
qed

text \<open>A job the schedule may queue is one that \<open>POST /jobs\<close> would queue for the same caller.\<close>

lemma queue_auto_as_submitted:
  assumes "queue_auto sv rq cfg ids ctx body st = (Inr j, st1)"
  shows "fst (submit_job sv rq (ucf_run_per_min cfg) (fi_job ids) ctx body st) = Inr j"
    "fst (enforce (sv_max_buckets sv) (rq_clock rq) ''v1_run''
       (principal_key (actor_tag (cx_principal ctx)) (client_ip (rq_host rq))) (ucf_run_per_min cfg) (ap_limiter st)) = None"
proof -
  obtain wait bs where e: "enforce (sv_max_buckets sv) (rq_clock rq) ''v1_run''
       (principal_key (actor_tag (cx_principal ctx)) (client_ip (rq_host rq))) (ucf_run_per_min cfg) (ap_limiter st) = (wait, bs)"
    by fastforce
  with assms have "wait = None" and q: "queue_job (sv_maintenance sv) (sv_cloud sv) (fi_job ids) (fi_auto_event ids)
      (rq_now rq) (rq_host rq) (cx_org_id ctx) (cx_principal ctx) body (Some ''auto_run'') (ap_db st) = (Inr j, ap_db st1)"
    by (auto simp: queue_auto_def Let_def split: prod.splits if_splits)
  moreover have "fst (queue_job (sv_maintenance sv) (sv_cloud sv) (fi_job ids) (rq_event rq) (rq_now rq) (rq_host rq)
      (cx_org_id ctx) (cx_principal ctx) body None (ap_db st)) = Inr j"
    using q by (auto simp: queue_job_def Let_def with_event_def record_event_known split: if_splits option.splits)
  moreover have "\<not> sv_maintenance sv" using queue_job_Inr(1) [OF q] .
  ultimately show "fst (submit_job sv rq (ucf_run_per_min cfg) (fi_job ids) ctx body st) = Inr j"
    "fst (enforce (sv_max_buckets sv) (rq_clock rq) ''v1_run''
       (principal_key (actor_tag (cx_principal ctx)) (client_ip (rq_host rq))) (ucf_run_per_min cfg) (ap_limiter st)) = None"
    using e by (auto simp: submit_job_def Let_def split: prod.splits)
qed

lemma queue_auto_Inl: "queue_auto sv rq cfg ids ctx body st = (Inl e, st1) \<Longrightarrow> ap_db st1 = ap_db st"
  by (auto simp: queue_auto_def Let_def split: prod.splits if_splits dest: queue_job_Inl)

lemma auto_run_frame:
  assumes "auto_run sv rq cfg ids ctx up ready st = (job, st1)"
  shows "uploads (ap_db st1) = uploads (ap_db st)" "usage_counters (ap_db st1) = usage_counters (ap_db st)"
  using assms
  by (auto simp: auto_run_def Let_def skip_auto_frame split: option.splits if_splits prod.splits sum.splits
      dest: queue_auto_Inr queue_auto_Inl)

lemma quota_room:
  assumes "\<And>r. quota_remaining q u = Some r \<Longrightarrow> n \<le> r"
  shows "q \<le> 0 \<or> n = 0 \<or> int (u + n) \<le> q"
proof (cases "q \<le> 0")
  case False
  with assms have "n \<le> nat (max 0 (q - int u))" by (simp add: quota_remaining_def)
  then show ?thesis by linarith
qed simp

lemma map_of_filter_other: "p \<noteq> q \<Longrightarrow> map_of (filter (\<lambda>e. fst e \<noteq> q) xs) p = map_of xs p"
  by (induction xs) auto

lemma auto_run_Some:
  assumes "auto_run sv rq cfg ids ctx up ready st = (Some j, st1)"
  shows "RUNS_WRITE \<in> cx_scopes ctx" "ready \<noteq> Some False" "runs_limit_reached (cx_org ctx) (rq_now rq) (ap_db st) = None"
    "\<exists>s \<in> set (org_schedules (ap_db st)). os_org s = cx_org_id ctx \<and> os_auto_run s"
    "\<exists>r p. jobs (ap_db st1) = jobs (ap_db st) @ [r] \<and> j_id r = j \<and> SUGGESTED_PIPELINE (up_kind up) = Some p \<and>
       r = new_job (fi_job ids) (rq_now rq) (cx_org_id ctx) (cx_principal ctx) (auto_body p (up_id up)) \<and>
       queue_auto sv rq cfg ids ctx (auto_body p (up_id up)) st = (Inr r, st1)"
proof -
  from assms obtain s p r where s: "sql_first (\<lambda>s. os_org s = cx_org_id ctx) (org_schedules (ap_db st)) = Some s" "os_auto_run s"
    and q: "SUGGESTED_PIPELINE (up_kind up) = Some p" "queue_auto sv rq cfg ids ctx (auto_body p (up_id up)) st = (Inr r, st1)" "j = j_id r"
    and cond: "RUNS_WRITE \<in> cx_scopes ctx" "ready \<noteq> Some False" "runs_limit_reached (cx_org ctx) (rq_now rq) (ap_db st) = None"
    by (auto simp: auto_run_def Let_def simp del: not_None_eq split: option.splits if_splits prod.splits sum.splits)
  show "RUNS_WRITE \<in> cx_scopes ctx" "ready \<noteq> Some False" "runs_limit_reached (cx_org ctx) (rq_now rq) (ap_db st) = None"
    by (rule cond)+
  show "\<exists>s \<in> set (org_schedules (ap_db st)). os_org s = cx_org_id ctx \<and> os_auto_run s"
    using s by (auto simp: sql_first_def find_Some_iff)
  show "\<exists>r p. jobs (ap_db st1) = jobs (ap_db st) @ [r] \<and> j_id r = j \<and> SUGGESTED_PIPELINE (up_kind up) = Some p \<and>
       r = new_job (fi_job ids) (rq_now rq) (cx_org_id ctx) (cx_principal ctx) (auto_body p (up_id up)) \<and>
       queue_auto sv rq cfg ids ctx (auto_body p (up_id up)) st = (Inr r, st1)"
    using q queue_auto_Inr(1,2) [OF q(2)] by blast
qed

text \<open>What holds of an accepted upload.\<close>

lemma accepted_upload:
  assumes "ingest_upload env sv rq cfg ids dir fails ctx form w = (Inr out, w')"
  obtains bs tmp acc s1 db where
    "enforce (sv_max_buckets sv) (rq_clock rq) ''v1_upload''
       (principal_key (actor_tag (cx_principal ctx)) (client_ip (rq_host rq))) (ucf_upload_per_min cfg) (ap_limiter (uw_app w)) = (None, bs)"
    "ensure_inside_root (ue_disk env) dir (fi_upload ids @ ''.tmp'') = Inr tmp"
    "ingest_steps env cfg (rq_now rq) (wall_clock rq) (fi_upload ids) dir tmp
       (quota_remaining (ucf_quota cfg) (dir_usage_bytes fails (listing dir (sweep_directory fails (wall_clock rq) dir (uw_files w))))) form
       \<lparr>at_files = sweep_directory fails (wall_clock rq) dir (uw_files w), at_lines = uw_lines w, at_size = 0, at_final = None\<rparr> = (Inr acc, s1)"
    "commit_upload env rq ids ctx form acc (ap_db (uw_app w)) = (Inr (uo_row out), db)"
    "auto_run sv rq cfg ids ctx (uo_row out) (uo_ready out) ((uw_app w)\<lparr>ap_limiter := bs, ap_db := db\<rparr>) = (uo_auto_job out, uw_app w')"
    "out = (out_of (uo_row out) acc)\<lparr>uo_auto_job := uo_auto_job out\<rparr>"
    "uw_files w' = tidy env tmp None (at_files s1)"
proof -
  obtain wait bs where lim: "enforce (sv_max_buckets sv) (rq_clock rq) ''v1_upload''
      (principal_key (actor_tag (cx_principal ctx)) (client_ip (rq_host rq))) (ucf_upload_per_min cfg) (ap_limiter (uw_app w)) = (wait, bs)"
    by fastforce
  let ?w = "w\<lparr>uw_app := (uw_app w)\<lparr>ap_limiter := bs\<rparr>\<rparr>"
  from assms lim have "attempt_upload env sv rq cfg ids dir fails ctx form ?w = (Inr out, w')"
    by (auto simp: ingest_upload_def Let_def split: if_splits)
  moreover from assms lim have "wait = None" by (auto simp: ingest_upload_def Let_def split: if_splits)
  ultimately obtain tmp acc s1 where free: "wait = None" and a: "ensure_inside_root (ue_disk env) dir (fi_upload ids @ ''.tmp'') = Inr tmp"
    "ingest_steps env cfg (rq_now rq) (wall_clock rq) (fi_upload ids) dir tmp
       (quota_remaining (ucf_quota cfg) (dir_usage_bytes fails (listing dir (sweep_directory fails (wall_clock rq) dir (uw_files w))))) form
       \<lparr>at_files = sweep_directory fails (wall_clock rq) dir (uw_files w), at_lines = uw_lines w, at_size = 0, at_final = None\<rparr> = (Inr acc, s1)"
    and k: "keep_upload env sv rq cfg ids ctx form tmp acc s1 ((uw_app w)\<lparr>ap_limiter := bs\<rparr>) = (Inr out, w')"
    by (auto simp: attempt_upload_def Let_def split: sum.splits prod.splits)
  from k obtain row db job st1 where c: "commit_upload env rq ids ctx form acc (ap_db (uw_app w)) = (Inr row, db)"
    and j: "auto_run sv rq cfg ids ctx row (uo_ready (out_of row acc)) ((uw_app w)\<lparr>ap_limiter := bs, ap_db := db\<rparr>) = (job, st1)"
    and o: "out = (out_of row acc)\<lparr>uo_auto_job := job\<rparr>" "uw_app w' = st1" "uw_files w' = tidy env tmp None (at_files s1)"
    by (auto simp: keep_upload_def Let_def split: sum.splits prod.splits if_splits)
  have row: "uo_row out = row" "uo_ready out = uo_ready (out_of row acc)" "uo_auto_job out = job"
    using o(1) by (simp_all add: out_of_def)
  show thesis by (rule that [OF lim [unfolded free] a]) (use c j o row in simp_all)
qed

text \<open>C30. An accepted upload is exactly what was received: within the limit of its kind and the quota of the organization, its
  row records the number of bytes and the hash of what came and is the only row added, the month's usage grows by it, and the
  file of the row's name in the organization's directory holds contents that passed the checks of its kind.\<close>

theorem accepted_upload_is_accounted:
  assumes ok: "ingest_upload env sv rq cfg ids dir fails ctx form w = (Inr out, w')"
    and alone: "ue_meanwhile env = (\<lambda>d. d)"
    and plain: "\<And>s p. dk_resolve (ue_disk env) (Under dir (fi_upload ids @ s)) = Some p \<Longrightarrow> last p = fi_upload ids @ s"
  shows "(let row = uo_row out; received = received_bytes form;
       before = dir_usage_bytes fails (listing dir (sweep_directory fails (wall_clock rq) dir (uw_files w))) in
     length received \<le> limit_of_kind (up_kind row) \<and>
     (ucf_quota cfg \<le> 0 \<or> received = [] \<or> int (before + length received) \<le> ucf_quota cfg) \<and>
     up_org row = cx_org_id ctx \<and> up_bytes row = int (length received) \<and> up_sha256 row = ue_sha env received \<and>
     uploads (ap_db (uw_app w')) = uploads (ap_db (uw_app w)) @ [row] \<and>
     bytes_used (cx_org_id ctx) (rq_now rq) (ap_db (uw_app w')) = bytes_used (cx_org_id ctx) (rq_now rq) (ap_db (uw_app w)) + up_bytes row \<and>
     up_path row = stored_name (up_id row) (up_kind row) \<and>
     (\<exists>p f. ensure_inside_root (ue_disk env) dir (up_path row) = Inr p \<and> map_of (uw_files w') p = Some f \<and>
        checked_content env (up_kind row) (uf_sheet form) received (sf_content f)))"
proof -
  from accepted_upload [OF ok] obtain bs tmp acc s1 db where
    tmp: "ensure_inside_root (ue_disk env) dir (fi_upload ids @ ''.tmp'') = Inr tmp" and
    steps: "ingest_steps env cfg (rq_now rq) (wall_clock rq) (fi_upload ids) dir tmp
       (quota_remaining (ucf_quota cfg) (dir_usage_bytes fails (listing dir (sweep_directory fails (wall_clock rq) dir (uw_files w))))) form
       \<lparr>at_files = sweep_directory fails (wall_clock rq) dir (uw_files w), at_lines = uw_lines w, at_size = 0, at_final = None\<rparr> = (Inr acc, s1)" and
    com: "commit_upload env rq ids ctx form acc (ap_db (uw_app w)) = (Inr (uo_row out), db)" and
    job: "auto_run sv rq cfg ids ctx (uo_row out) (uo_ready out) ((uw_app w)\<lparr>ap_limiter := bs, ap_db := db\<rparr>) = (uo_auto_job out, uw_app w')" and
    fs: "uw_files w' = tidy env tmp None (at_files s1)" by metis
  note acc = ingest_steps_Inr [OF steps] and row = commit_upload_Inr [OF com alone] and after = auto_run_frame [OF job]
  have kind: "up_kind (uo_row out) = acc_kind acc" and id: "up_id (uo_row out) = fi_upload ids"
    and bytes: "up_bytes (uo_row out) = int (length (acc_received acc))"
    by (simp_all add: row(1) upload_row_def)
  have name: "last (acc_path acc) = stored_name (fi_upload ids) (acc_kind acc)" "last tmp = fi_upload ids @ ''.tmp''"
    using ensure_inside_root_Inr [OF acc(4)] ensure_inside_root_Inr [OF tmp] plain by (auto simp: stored_name_def)
  then have "acc_path acc \<noteq> tmp" by (auto simp: stored_name_def split: if_splits)
  then have "map_of (uw_files w') (acc_path acc) = map_of (at_files s1) (acc_path acc)"
    by (simp add: fs tidy_def remove_file_def map_of_filter_other)
  with acc(6) obtain f where f: "map_of (uw_files w') (acc_path acc) = Some f" "sf_content f = acc_stored acc" by auto
  have path: "up_path (uo_row out) = stored_name (fi_upload ids) (acc_kind acc)" by (simp add: row(1) upload_row_def name)
  let ?before = "dir_usage_bytes fails (listing dir (sweep_directory fails (wall_clock rq) dir (uw_files w)))"
  have quota: "ucf_quota cfg \<le> 0 \<or> received_bytes form = [] \<or> int (?before + length (received_bytes form)) \<le> ucf_quota cfg"
    using quota_room [of "ucf_quota cfg" ?before "length (received_bytes form)"] acc(3) by (simp add: acc(1))
  have others: "up_org (uo_row out) = cx_org_id ctx" "up_sha256 (uo_row out) = ue_sha env (received_bytes form)"
    by (simp_all add: row(1) upload_row_def acc(1))
  have used: "bytes_used (cx_org_id ctx) (rq_now rq) (ap_db (uw_app w')) =
      bytes_used (cx_org_id ctx) (rq_now rq) (ap_db (uw_app w)) + up_bytes (uo_row out)"
    using bytes_used_cong(1) [OF after(2)] row(5) by simp
  show ?thesis unfolding Let_def
    using acc(2,4,5) quota others used bytes path f after(1) row(2) kind id by (auto simp: acc(1))
qed

text \<open>C40. The schedule queues a job for an upload only where its caller could have started it: the schedule says so, the caller
  may run, the mapper did not find the file empty, the month's runs of the plan are not used up, and the job is one that
  \<open>POST /jobs\<close> of the same caller, at the limit of requests \<open>v1_run\<close> left after the upload, would have queued: the
  suggested pipeline on this very upload.\<close>

theorem schedule_starts_what_its_caller_may:
  assumes ok: "ingest_upload env sv rq cfg ids dir fails ctx form w = (Inr out, w')" and alone: "ue_meanwhile env = (\<lambda>d. d)"
    and job: "uo_auto_job out = Some j"
  shows "RUNS_WRITE \<in> cx_scopes ctx \<and> uo_ready out \<noteq> Some False \<and>
    (\<exists>s \<in> set (org_schedules (ap_db (uw_app w))). os_org s = cx_org_id ctx \<and> os_auto_run s) \<and>
    runs_limit_reached (cx_org ctx) (rq_now rq) (ap_db (uw_app w)) = None \<and>
    (\<exists>r st key. key = principal_key (actor_tag (cx_principal ctx)) (client_ip (rq_host rq)) \<and>
       enforce (sv_max_buckets sv) (rq_clock rq) ''v1_upload'' key (ucf_upload_per_min cfg) (ap_limiter (uw_app w)) = (None, ap_limiter st) \<and>
       fst (enforce (sv_max_buckets sv) (rq_clock rq) ''v1_run'' key (ucf_run_per_min cfg) (ap_limiter st)) = None \<and>
       uploads (ap_db st) = uploads (ap_db (uw_app w)) @ [uo_row out] \<and> jobs (ap_db st) = jobs (ap_db (uw_app w)) \<and>
       fst (submit_job sv rq (ucf_run_per_min cfg) (fi_job ids) ctx (auto_body (j_pipeline r) (up_id (uo_row out))) st) = Inr r \<and>
       jobs (ap_db (uw_app w')) = jobs (ap_db (uw_app w)) @ [r] \<and> j_id r = j \<and> j_org r = cx_org_id ctx \<and>
       j_upload r = Some (up_id (uo_row out)) \<and> SUGGESTED_PIPELINE (up_kind (uo_row out)) = Some (j_pipeline r) \<and> j_status r = Queued)"
proof -
  from accepted_upload [OF ok] obtain bs acc db where
    lim: "enforce (sv_max_buckets sv) (rq_clock rq) ''v1_upload''
       (principal_key (actor_tag (cx_principal ctx)) (client_ip (rq_host rq))) (ucf_upload_per_min cfg) (ap_limiter (uw_app w)) = (None, bs)" and
    com: "commit_upload env rq ids ctx form acc (ap_db (uw_app w)) = (Inr (uo_row out), db)" and
    run: "auto_run sv rq cfg ids ctx (uo_row out) (uo_ready out) ((uw_app w)\<lparr>ap_limiter := bs, ap_db := db\<rparr>) = (Some j, uw_app w')"
    by (metis job)
  note row = commit_upload_Inr [OF com alone] and r = auto_run_Some [OF run]
  from r(5) obtain q p where q: "jobs (ap_db (uw_app w')) = jobs db @ [q]" "j_id q = j" "SUGGESTED_PIPELINE (up_kind (uo_row out)) = Some p"
      "q = new_job (fi_job ids) (rq_now rq) (cx_org_id ctx) (cx_principal ctx) (auto_body p (up_id (uo_row out)))"
    and queued: "queue_auto sv rq cfg ids ctx (auto_body p (up_id (uo_row out))) ((uw_app w)\<lparr>ap_limiter := bs, ap_db := db\<rparr>) = (Inr q, uw_app w')"
    by auto
  have fields: "j_pipeline q = p" "j_org q = cx_org_id ctx" "j_upload q = Some (up_id (uo_row out))" "j_status q = Queued"
    by (simp_all add: q(4) new_job_def auto_body_def)
  have "runs_limit_reached (cx_org ctx) (rq_now rq) db = runs_limit_reached (cx_org ctx) (rq_now rq) (ap_db (uw_app w))"
    using row(3,6) by (cases "runs_per_month (limits_for (o_plan (cx_org ctx)))") (simp_all add: runs_limit_reached_def cx_org_id_def)
  then have "runs_limit_reached (cx_org ctx) (rq_now rq) (ap_db (uw_app w)) = None" using r(3) by simp
  then show ?thesis
    using r(1,2,4) row(2,3,4) q(1-3) fields lim queue_auto_as_submitted [OF queued]
    by (auto intro!: exI [of _ q] exI [of _ "(uw_app w)\<lparr>ap_limiter := bs, ap_db := db\<rparr>"])
qed

end
