(* ===== verification/UploadExamples.thy ===== *)
theory UploadExamples
  imports UploadSafety
begin

text \<open>
  One organization, one abandoned file, a package that is accepted and an upload without a name that is not.
\<close>

definition demo_upload_disk :: disk where
  "demo_upload_disk = \<lparr>dk_resolve = (\<lambda>l. case l of Raw s \<Rightarrow> None | At p \<Rightarrow> Some p | Under p s \<Rightarrow> Some (p @ [s])),
     dk_exists = (\<lambda>p. True), dk_stuck = (\<lambda>p. False)\<rparr>"

definition demo_env :: upload_env where
  "demo_env = \<lparr>ue_disk = demo_upload_disk, ue_io_fails = (\<lambda>s. False),
     ue_codecs = \<lparr>cd_utf8_sig = (\<lambda>s. None), cd_utf8 = (\<lambda>s. None), cd_cp1250 = (\<lambda>s. None)\<rparr>,
     ue_sniff = (\<lambda>t. None), ue_nfkd = (\<lambda>t. t), ue_digit = (\<lambda>c. None), ue_parse = (\<lambda>f t. None), ue_guess = (\<lambda>t. None),
     ue_wild = (\<lambda>x. 0), ue_read = (\<lambda>e s t. Read_error), ue_float = (\<lambda>x. []), ue_encode = (\<lambda>t. None), ue_archive = (\<lambda>s. None),
     ue_book = (\<lambda>s. None), ue_convert_in_time = True, ue_formulas = (\<lambda>s t. None), ue_scan_in_time = True,
     ue_package = (\<lambda>s. s = ''{}''), ue_sha = (\<lambda>s. ''h'' @ s), ue_dumps = (\<lambda>d. []), ue_repr = (\<lambda>r. []), ue_meanwhile = (\<lambda>d. d)\<rparr>"

definition demo_cfg :: upload_settings where
  "demo_cfg = \<lparr>ucf_upload_per_min = 5, ucf_run_per_min = 5, ucf_quota = 100, ucf_policy = False\<rparr>"

definition demo_ids :: fresh_ids where
  "demo_ids = \<lparr>fi_upload = replicate 32 CHR ''a'', fi_event = ''e1'', fi_job = ''j1'', fi_auto_event = ''e2''\<rparr>"

definition demo_form :: "string option \<Rightarrow> upload_form" where
  "demo_form name = \<lparr>uf_filename = name, uf_chunks = [''{'', ''}'', [], ''rest''], uf_sheet = None\<rparr>"

definition demo_auto_schedule :: org_schedule where
  "demo_auto_schedule = \<lparr>os_org = ''org'', os_reminder_enabled = False, os_reminder_weekday = 0, os_reminder_hour = 8,
     os_timezone = ''UTC'', os_skip_if_recent = False, os_auto_run = True, os_notify_on_finish = False, os_webhook_url = None,
     os_webhook_kind = ''generic'', os_next_reminder_at = None, os_last_reminder_at = None, os_updated_at = None\<rparr>"

definition demo_world :: upload_world where
  "demo_world = \<lparr>uw_app = demo_app\<lparr>ap_db := (ap_db demo_app)\<lparr>org_schedules := [demo_auto_schedule]\<rparr>\<rparr>,
     uw_files = [([''u'', ''old.csv''], \<lparr>sf_content = ''a,b'', sf_mtime = 0\<rparr>)], uw_lines = []\<rparr>"

definition demo_ingest :: "string option \<Rightarrow> (exc + upload_out) \<times> upload_world" where
  "demo_ingest name = ingest_upload demo_env demo_server demo_request demo_cfg demo_ids [''u''] (\<lambda>n. False) demo_ctx (demo_form name) demo_world"

lemmas demo_env_simps = demo_env_def demo_upload_disk_def demo_cfg_def demo_form_def

lemma demo_names: "dk_resolve (ue_disk demo_env) (Under [''u''] n) = Some [''u'', n]" "dk_resolve (ue_disk demo_env) (At d) = Some d"
  by (simp_all add: demo_env_simps)

lemma demo_upload_id: "fi_upload demo_ids @ s = CHR ''a'' # replicate 31 CHR ''a'' @ s" "fi_upload demo_ids \<noteq> []"
  by (simp_all add: demo_ids_def numeral_eq_Suc)

lemma demo_inside: "ensure_inside_root (ue_disk demo_env) [''u''] n = Inr [''u'', n]"
  by (simp add: ensure_inside_root_def demo_names)

lemma demo_free: "besides_locked demo_env ids dir fs = fs"
  by (simp add: besides_locked_def demo_env_simps)

lemma demo_fresh:
  "own_file demo_env demo_ids [''u''] p \<Longrightarrow> p \<notin> fst ` set (uw_files demo_world)"
  "dk_resolve (ue_disk demo_env) (Under [''u''] (fi_upload demo_ids @ s)) = Some p \<Longrightarrow> last p = fi_upload demo_ids @ s"
  by (auto simp: own_file_def demo_names demo_world_def demo_upload_id)

lemma demo_room: "\<exists>bs. enforce (sv_max_buckets demo_server) (rq_clock demo_request) rule key 5 [] = (None, bs)"
  by (simp add: enforce_def hit_def prune_def demo_server_def demo_request_def)

lemma demo_swept: "sweep_directory f t [''u''] (uw_files demo_world) = uw_files demo_world"
  by (simp add: sweep_directory_def demo_world_def swept_def entry_of_def tmp_name_def)

lemma demo_env_fields:
  "\<not> ue_io_fails demo_env s" "ue_package demo_env raw = (raw = ''{}'')" "ue_meanwhile demo_env = (\<lambda>d. d)" "\<not> ucf_policy demo_cfg"
  by (simp_all add: demo_env_simps)

theorem refused_upload_leaves_nothing_witness:
  "\<exists>e w'. demo_ingest None = (Inl e, w') \<and> uw_files w' = uw_files demo_world \<and> uploads (ap_db (uw_app w')) = []"
proof -
  have "kind_of None = Inl (Rejected ''empty_filename'' 400)" by code_simp
  then have steps: "fst (ingest_steps demo_env cfg now clock i dir tmp r (demo_form None) st) = Inl (Turned_away (Rejected ''empty_filename'' 400))" for cfg now clock i dir tmp r st
    by (simp add: ingest_steps_def and_then_def pure_step_def turned_away_def demo_form_def)
  obtain bs where bs: "enforce (sv_max_buckets demo_server) (rq_clock demo_request) ''v1_upload''
      (principal_key (actor_tag (cx_principal demo_ctx)) (client_ip (rq_host demo_request))) 5 [] = (None, bs)" using demo_room by blast
  have lim: "ap_limiter (uw_app demo_world) = []" "ucf_upload_per_min demo_cfg = 5" by (simp_all add: demo_world_def demo_app_def demo_cfg_def)
  have "\<exists>e w'. demo_ingest None = (Inl e, w')"
    using steps by (auto simp: demo_ingest_def ingest_upload_def lim bs attempt_upload_def demo_inside Let_def split: prod.split sum.split)
      (metis Inl_Inr_False fst_conv)
  then obtain e w' where ok: "demo_ingest None = (Inl e, w')" by blast
  have "uploads (ap_db (uw_app demo_world)) = []" by (simp add: demo_world_def demo_app_defs)
  with refused_upload_leaves_nothing [OF ok [unfolded demo_ingest_def] demo_fresh(1)] ok
  show ?thesis by (auto simp: demo_swept demo_free kept_after_commit_def demo_env_fields)
qed

definition demo_accepted :: accepted_file where
  "demo_accepted = \<lparr>acc_kind = ''package'', acc_path = [''u'', fi_upload demo_ids @ ''.json''], acc_received = ''{}'', acc_stored = ''{}'',
     acc_report = None, acc_note = None\<rparr>"

lemma and_then_pure_step: "and_then (pure_step (Inr x)) k st = k x st"
  by (simp add: and_then_def pure_step_def)

lemma demo_steps:
  assumes "r = None \<or> r = Some n" and "2 \<le> n"
  shows "\<exists>s1. ingest_steps demo_env demo_cfg now clock (fi_upload demo_ids) [''u''] tmp r (demo_form (Some ''p.json'')) st = (Inr demo_accepted, s1)"
proof -
  have kind: "kind_of (Some ''p.json'') = Inr ''package''" by code_simp
  have limit: "\<not> limit_of_kind ''package'' < 2" "\<not> limit_of_kind ''package'' < Suc 0"
    by (simp_all add: limit_of_kind_def MAX_PACKAGE_BYTES_def)
  have "stream_to_temp (limit_of_kind ''package'') r [''{'', ''}'', [], ''rest''] [] = (Inr 2, ''{}'')"
    using assms limit by (auto simp: numeral_2_eq_2)
  then have "\<exists>a. receive demo_env clock tmp (limit_of_kind ''package'') r [''{'', ''}'', [], ''rest''] st = (Inr ''{}'', a) \<and>
      (\<exists>f. map_of (at_files a) tmp = Some f)"
    by (simp add: receive_def demo_env_fields put_file_def)
  then obtain a f where a: "receive demo_env clock tmp (limit_of_kind ''package'') r [''{'', ''}'', [], ''rest''] st = (Inr ''{}'', a)"
    "map_of (at_files a) tmp = Some f" by blast
  let ?p = "[''u'', fi_upload demo_ids @ ''.json'']" and ?b = "a\<lparr>at_final := Some [''u'', fi_upload demo_ids @ ''.json'']\<rparr>"
  have b: "name_final demo_env [''u''] (fi_upload demo_ids @ ''.json'') a = (Inr ?p, ?b)" by (simp add: name_final_def demo_inside)
  have "validate_package demo_env ''{}'' = Inr ''{}''" by (simp add: validate_package_def py_bytes_strip_empty_def demo_env_fields)
  then have c: "check_contents demo_env clock tmp ''package'' None ''{}'' ?b = (Inr (''{}'', None), ?b)"
    by (simp add: check_contents_def turned_away_def and_then_pure_step pure_step_def)
  have d: "enforce_policy_on_path demo_env (ucf_policy demo_cfg) [''u''] now ?p ?b = (Inr (), ?b)"
    by (simp add: enforce_policy_on_path_def demo_env_fields)
  obtain e where e: "move_temp demo_env tmp ?p ?b = (Inr (), e)" using a(2) by (simp add: move_temp_def demo_env_fields)
  have "ingest_steps demo_env demo_cfg now clock (fi_upload demo_ids) [''u''] tmp r (demo_form (Some ''p.json'')) st = (Inr demo_accepted, e)"
    unfolding ingest_steps_def demo_form_def upload_form.simps kind turned_away_def sum.case and_then_pure_step
    by (simp add: and_then_def a(1) b c d e mapped_def pure_step_def demo_accepted_def)
  then show ?thesis by blast
qed

definition demo_stored_row :: upload where
  "demo_stored_row = upload_row demo_request demo_ids demo_ctx demo_env (demo_form (Some ''p.json'')) demo_accepted"

lemma demo_stored_row_fields:
  "up_id demo_stored_row = fi_upload demo_ids" "up_org demo_stored_row = ''org''" "up_kind demo_stored_row = ''package''" "up_bytes demo_stored_row = 2"
  by (simp_all add: demo_stored_row_def upload_row_def demo_accepted_def demo_ctx_def demo_org_def cx_org_id_def)

lemma demo_commit:
  obtains db where "commit_upload demo_env demo_request demo_ids demo_ctx (demo_form (Some ''p.json'')) demo_accepted (ap_db (uw_app demo_world))
      = (Inr demo_stored_row, db)" "uploads db = [demo_stored_row]" "jobs db = []" "org_schedules db = [demo_auto_schedule]"
    "runs_used ''org'' 5 db = 0"
proof -
  have known: "''upload.created'' \<in> set AUDIT_ACTIONS_V1" by (simp add: AUDIT_ACTIONS_V1_def)
  have ctx: "cx_org_id demo_ctx = ''org''" "rq_now demo_request = 5" by (simp_all add: demo_ctx_def demo_org_def cx_org_id_def demo_request_def)
  have start: "uploads (ap_db (uw_app demo_world)) = []" "jobs (ap_db (uw_app demo_world)) = []"
      "org_schedules (ap_db (uw_app demo_world)) = [demo_auto_schedule]" "usage_counters (ap_db (uw_app demo_world)) = []"
    by (simp_all add: demo_world_def demo_app_defs)
  have "\<exists>db. commit_upload demo_env demo_request demo_ids demo_ctx (demo_form (Some ''p.json'')) demo_accepted (ap_db (uw_app demo_world))
      = (Inr demo_stored_row, db) \<and> runs_used ''org'' 5 db = 0"
    unfolding commit_upload_def demo_stored_row_def [symmetric] demo_env_fields Let_def ctx
    by (simp add: record_event_known [OF known] start sql_insert_def add_usage_def bump_usage_def Let_def sql_update_def rowcount_def
        runs_used_def get_usage_def sql_first_def)
  then obtain db where ok: "commit_upload demo_env demo_request demo_ids demo_ctx (demo_form (Some ''p.json'')) demo_accepted (ap_db (uw_app demo_world))
      = (Inr demo_stored_row, db)" and runs: "runs_used ''org'' 5 db = 0" by blast
  note after = commit_upload_Inr [OF ok demo_env_fields(3)]
  from after ok runs start show thesis by (intro that) simp_all
qed

lemma demo_auto:
  assumes "uploads db = [demo_stored_row]" "jobs db = []" "org_schedules db = [demo_auto_schedule]" "runs_used ''org'' 5 db = 0"
    and "\<exists>bs1. enforce (sv_max_buckets demo_server) (rq_clock demo_request) ''v1_run''
      (principal_key (actor_tag (cx_principal demo_ctx)) (client_ip (rq_host demo_request))) 5 bs = (None, bs1)"
  shows "\<exists>st1. auto_run demo_server demo_request demo_cfg demo_ids demo_ctx demo_stored_row None ((uw_app demo_world)\<lparr>ap_limiter := bs, ap_db := db\<rparr>)
    = (Some ''j1'', st1)"
proof -
  obtain bs1 where room: "enforce (sv_max_buckets demo_server) (rq_clock demo_request) ''v1_run''
      (principal_key (actor_tag (cx_principal demo_ctx)) (client_ip (rq_host demo_request))) 5 bs = (None, bs1)" using assms(5) by blast
  have limit: "runs_per_month (limits_for (o_plan demo_org)) = Some 20" by (simp add: limits_for_def PLAN_LIMITS_def demo_org_def)
  have ctx: "cx_org_id demo_ctx = ''org''" "cx_org demo_ctx = demo_org" "o_id demo_org = ''org''" "rq_now demo_request = 5"
      "sv_maintenance demo_server = False" "ucf_run_per_min demo_cfg = 5" "fi_job demo_ids = ''j1''"
    by (simp_all add: demo_ctx_def demo_org_def cx_org_id_def demo_request_def demo_server_def demo_cfg_def demo_ids_def)
  have may: "RUNS_WRITE \<in> cx_scopes demo_ctx" by (simp add: demo_ctx_def ADMIN_SCOPES_def MEMBER_SCOPES_def)
  have pipe: "SUGGESTED_PIPELINE ''package'' = Some ''uksc_evidence''" by (simp add: SUGGESTED_PIPELINE_def)
  let ?body = "auto_body ''uksc_evidence'' (fi_upload demo_ids)"
  have hex: "list_all is_lower_hex (replicate 32 CHR ''a'')" by code_simp
  have valid: "job_create_valid ?body"
    by (simp add: auto_body_def job_create_valid_def demo_ids_def is_upload_id_def hex check_period_date_def check_period_range_def)
  have check: "check_job cloud ''org'' ?body db = None" for cloud
    by (simp add: check_job_def check_period_def auto_body_def PIPELINE_UPLOAD_KINDS_def blank_id_def assms sql_first_def demo_stored_row_fields
        demo_upload_id MAX_PENDING_JOBS_def)
  have room20: "runs_limit_reached demo_org 5 db = None"
    by (simp add: runs_limit_reached_def limit ctx assms(2,4))
  let ?job = "new_job ''j1'' 5 ''org'' (cx_principal demo_ctx) ?body"
  have "\<exists>db1. queue_job False (sv_cloud demo_server) ''j1'' (fi_auto_event demo_ids) 5 (rq_host demo_request) ''org'' (cx_principal demo_ctx)
      ?body (Some ''auto_run'') db = (Inr ?job, db1)"
    by (simp add: queue_job_def check Let_def sql_insert_def assms(2) record_event_known)
  then obtain db1 where q: "queue_job False (sv_cloud demo_server) ''j1'' (fi_auto_event demo_ids) 5 (rq_host demo_request) ''org''
      (cx_principal demo_ctx) ?body (Some ''auto_run'') db = (Inr ?job, db1)" by blast
  have id: "j_id ?job = ''j1''" by (simp add: new_job_def)
  show ?thesis
    by (simp add: auto_run_def assms(3) sql_first_def demo_stored_row_fields ctx pipe may room20 queue_auto_def room valid Let_def q id)
      (simp add: demo_auto_schedule_def)
qed

lemma demo_ready: "\<exists>out w'. demo_ingest (Some ''p.json'') = (Inr out, w') \<and> uo_auto_job out = Some ''j1''"
proof -
  obtain bs where bs: "enforce (sv_max_buckets demo_server) (rq_clock demo_request) ''v1_upload''
      (principal_key (actor_tag (cx_principal demo_ctx)) (client_ip (rq_host demo_request))) 5 [] = (None, bs)" using demo_room by blast
  have lim: "ap_limiter (uw_app demo_world) = []" "ucf_upload_per_min demo_cfg = 5" by (simp_all add: demo_world_def demo_app_def demo_cfg_def)
  have used: "dir_usage_bytes (\<lambda>n. False) (listing [''u''] (uw_files demo_world)) = 3"
    by (simp add: dir_usage_bytes_def listing_def demo_world_def in_directory_def entry_of_def)
  have rem: "quota_remaining (ucf_quota demo_cfg) 3 = Some 97" by (simp add: quota_remaining_def demo_cfg_def)
  obtain s1 where steps: "ingest_steps demo_env demo_cfg (rq_now demo_request) (wall_clock demo_request)
      (fi_upload demo_ids) [''u''] [''u'', fi_upload demo_ids @ ''.tmp''] (Some 97) (demo_form (Some ''p.json''))
      \<lparr>at_files = uw_files demo_world, at_lines = uw_lines demo_world, at_size = 0, at_final = None\<rparr> = (Inr demo_accepted, s1)"
    using demo_steps [of "Some 97" 97] by fastforce
  obtain db where com: "commit_upload demo_env demo_request demo_ids demo_ctx (demo_form (Some ''p.json'')) demo_accepted
      (ap_db (uw_app demo_world)) = (Inr demo_stored_row, db)"
    and rows: "uploads db = [demo_stored_row]" "jobs db = []" "org_schedules db = [demo_auto_schedule]" "runs_used ''org'' 5 db = 0"
    by (rule demo_commit)
  have bs': "bs = [((''v1_upload'', principal_key (actor_tag (cx_principal demo_ctx)) (client_ip (rq_host demo_request))), \<lparr>b_tokens = 4, b_stamp = rq_clock demo_request\<rparr>)]"
    using bs by (simp add: enforce_def hit_def prune_def demo_server_def)
  have second: "\<exists>bs1. enforce (sv_max_buckets demo_server) (rq_clock demo_request) ''v1_run''
      (principal_key (actor_tag (cx_principal demo_ctx)) (client_ip (rq_host demo_request))) 5 bs = (None, bs1)"
    by (simp add: bs' enforce_def hit_def prune_def demo_server_def)
  obtain st1 where auto: "auto_run demo_server demo_request demo_cfg demo_ids demo_ctx demo_stored_row None
      ((uw_app demo_world)\<lparr>ap_limiter := bs, ap_db := db\<rparr>) = (Some ''j1'', st1)" using demo_auto [OF rows second] by blast
  have ready: "uo_ready (out_of demo_stored_row demo_accepted) = None" by (simp add: out_of_def demo_accepted_def)
  show ?thesis
    by (simp add: demo_ingest_def ingest_upload_def lim bs attempt_upload_def demo_inside demo_swept used rem steps Let_def
        keep_upload_def com ready auto demo_env_fields(1))
qed

theorem accepted_upload_is_accounted_witness:
  "\<exists>out w'. demo_ingest (Some ''p.json'') = (Inr out, w') \<and> up_bytes (uo_row out) = 2 \<and>
     uploads (ap_db (uw_app w')) = [uo_row out] \<and> up_sha256 (uo_row out) = ''h{}''"
proof -
  obtain out w' where ok: "demo_ingest (Some ''p.json'') = (Inr out, w')" using demo_ready by blast
  have "uploads (ap_db (uw_app demo_world)) = []" by (simp add: demo_world_def demo_app_defs)
  moreover have "received_bytes (demo_form (Some ''p.json'')) = ''{}''" by (simp add: received_bytes_def demo_form_def)
  ultimately show ?thesis
    using accepted_upload_is_accounted [OF ok [unfolded demo_ingest_def] demo_env_fields(3) demo_fresh(2)] ok
    by (auto simp: Let_def demo_env_def)
qed

theorem schedule_starts_what_its_caller_may_witness:
  "\<exists>out w' r. demo_ingest (Some ''p.json'') = (Inr out, w') \<and> uo_auto_job out = Some ''j1'' \<and> jobs (ap_db (uw_app w')) = [r] \<and>
     j_upload r = Some (up_id (uo_row out)) \<and> j_status r = Queued"
proof -
  obtain out w' where ok: "demo_ingest (Some ''p.json'') = (Inr out, w')" and job: "uo_auto_job out = Some ''j1''" using demo_ready by blast
  have "jobs (ap_db (uw_app demo_world)) = []" by (simp add: demo_world_def demo_app_defs)
  with schedule_starts_what_its_caller_may [OF ok [unfolded demo_ingest_def] demo_env_fields(3) job] ok job show ?thesis by auto
qed

end
