(* ===== verification/DataHealth.thy ===== *)
theory DataHealth
  imports Schedule Paging NumberText "HOL-Library.Product_Lexorder"
begin

text \<open>
  The data health dashboard (\<^verbatim>\<open>app/api/v1/data_health.py\<close>): weeks in the time zone of the organization's schedule, what
  happened in each of them, the summary and the issues; and the pages of the audit log (\<^verbatim>\<open>app/api/v1/audit.py\<close>). Dates are
  days since 1970-01-01, seconds are rationals; \<open>td_zone\<close> is \<open>ZoneInfo\<close>.
\<close>

section \<open>Weeks\<close>

definition MAX_WEEKS :: nat where "MAX_WEEKS = 26"
definition LOOKBACK_WEEKS :: nat where "LOOKBACK_WEEKS = MAX_WEEKS"
definition STALE_UPLOAD_AFTER :: int where "STALE_UPLOAD_AFTER = days 7"
definition NEAR_LIMIT :: "int \<times> int" where "NEAR_LIMIT = (4, 5)"
definition PARTIAL_WINDOW_WEEKS :: nat where "PARTIAL_WINDOW_WEEKS = 4"
definition FINISHED_JOB :: "job_status list" where "FINISHED_JOB = [Succeeded, Failed]"
definition REPORT_STATUSES :: "string list" where "REPORT_STATUSES = [''SUCCESS'', ''PARTIAL'']"

definition zone_of :: "tzdata \<Rightarrow> string \<Rightarrow> exc + string \<times> tzone" where
  "zone_of td name =
     (let n = (if name = [] then DEFAULT_TIMEZONE else name) in
      case td_zone td n of
        Some z \<Rightarrow> Inr (n, z)
      | None \<Rightarrow> (case td_zone td DEFAULT_TIMEZONE of
            Some z \<Rightarrow> Inr (DEFAULT_TIMEZONE, z) | None \<Rightarrow> Inl (PyRaise ''ZoneInfoNotFoundError'')))"

definition week_start :: "int \<Rightarrow> int" where "week_start day = day - weekday_of day"

definition week_of :: "tzone \<Rightarrow> stamp \<Rightarrow> int" where "week_of z instant = week_start (local_day z instant)"

definition week_starts :: "stamp \<Rightarrow> tzone \<Rightarrow> nat \<Rightarrow> int list" where
  "week_starts now z count = map (\<lambda>back. week_of z now - 7 * int back) (rev [0..<count])"

definition local_midnight :: "tzone \<Rightarrow> int \<Rightarrow> stamp" where "local_midnight z day = slot_utc z 0 day"

record week_bucket =
  wb_uploads :: nat
  wb_upload_bytes :: int
  wb_runs_succeeded :: nat
  wb_runs_failed :: nat
  wb_reports :: nat
  wb_run_seconds :: rat
  wb_timed_runs :: nat
  wb_last_report_at :: "stamp option"

definition empty_bucket :: week_bucket where
  "empty_bucket = \<lparr>wb_uploads = 0, wb_upload_bytes = 0, wb_runs_succeeded = 0, wb_runs_failed = 0, wb_reports = 0,
     wb_run_seconds = 0, wb_timed_runs = 0, wb_last_report_at = None\<rparr>"

record week_health =
  wh_start :: int
  wh_partial :: bool
  wh_uploads :: nat
  wh_upload_bytes :: int
  wh_runs_succeeded :: nat
  wh_runs_failed :: nat
  wh_reports :: nat
  wh_avg_run_seconds :: "rat option"
  wh_last_report_at :: "stamp option"

text \<open>The buckets are a dictionary; an event of no bucket is skipped.\<close>

definition in_bucket :: "int \<Rightarrow> (week_bucket \<Rightarrow> week_bucket) \<Rightarrow> (int \<times> week_bucket) list \<Rightarrow> (int \<times> week_bucket) list" where
  "in_bucket w f bs = map (\<lambda>(s, b). (s, (if s = w then f b else b))) bs"

definition count_upload :: "stamp \<times> int \<Rightarrow> week_bucket \<Rightarrow> week_bucket" where
  "count_upload u b = b\<lparr>wb_uploads := wb_uploads b + 1, wb_upload_bytes := wb_upload_bytes b + snd u\<rparr>"

definition seconds_between :: "stamp \<Rightarrow> stamp \<Rightarrow> rat" where
  "seconds_between s f = max 0 (of_int (f - s) / of_int (seconds 1))"

definition count_job :: "job_status \<times> stamp option \<times> stamp \<Rightarrow> week_bucket \<Rightarrow> week_bucket" where
  "count_job j b =
     (case j of (status, started, finished) \<Rightarrow>
        let b1 = (if status = Succeeded then b\<lparr>wb_runs_succeeded := wb_runs_succeeded b + 1\<rparr>
                  else b\<lparr>wb_runs_failed := wb_runs_failed b + 1\<rparr>)
        in (case started of
             None \<Rightarrow> b1
           | Some s \<Rightarrow> b1\<lparr>wb_run_seconds := wb_run_seconds b1 + seconds_between s finished, wb_timed_runs := wb_timed_runs b1 + 1\<rparr>))"

definition later :: "stamp option \<Rightarrow> stamp \<Rightarrow> stamp option" where
  "later l t = (case l of None \<Rightarrow> Some t | Some s \<Rightarrow> if t > s then Some t else Some s)"

definition count_report :: "string \<times> stamp \<Rightarrow> week_bucket \<Rightarrow> week_bucket" where
  "count_report r b = b\<lparr>wb_reports := wb_reports b + 1, wb_last_report_at := later (wb_last_report_at b) (snd r)\<rparr>"

definition count_all :: "tzone \<Rightarrow> ('e \<Rightarrow> stamp) \<Rightarrow> ('e \<Rightarrow> week_bucket \<Rightarrow> week_bucket) \<Rightarrow> 'e list \<Rightarrow> (int \<times> week_bucket) list \<Rightarrow> (int \<times> week_bucket) list" where
  "count_all z moment f es bs = fold (\<lambda>e. in_bucket (week_of z (moment e)) (f e)) es bs"

definition week_out :: "int \<Rightarrow> int \<times> week_bucket \<Rightarrow> week_health" where
  "week_out newest sb =
     (case sb of (start, b) \<Rightarrow>
        \<lparr>wh_start = start, wh_partial = (start = newest), wh_uploads = wb_uploads b, wh_upload_bytes = wb_upload_bytes b,
         wh_runs_succeeded = wb_runs_succeeded b, wh_runs_failed = wb_runs_failed b, wh_reports = wb_reports b,
         wh_avg_run_seconds = (if wb_timed_runs b = 0 then None else Some (round1 (wb_run_seconds b / of_nat (wb_timed_runs b)))),
         wh_last_report_at = wb_last_report_at b\<rparr>)"

definition bucket_weeks ::
  "int list \<Rightarrow> tzone \<Rightarrow> (stamp \<times> int) list \<Rightarrow> (job_status \<times> stamp option \<times> stamp) list \<Rightarrow> (string \<times> stamp) list \<Rightarrow> week_health list" where
  "bucket_weeks starts z ups js reps =
     map (week_out (last starts))
       (count_all z snd count_report reps
         (count_all z (\<lambda>(_, _, finished). finished) count_job js
           (count_all z fst count_upload ups (map (\<lambda>s. (s, empty_bucket)) starts))))"

text \<open>Finished weeks in a row with a report, counted back from last week.\<close>

definition streak_weeks :: "week_health list \<Rightarrow> nat" where
  "streak_weeks weeks = length (takeWhile (\<lambda>w. wh_reports w \<noteq> 0) (rev (butlast weeks)))"

section \<open>Issues\<close>

datatype severity = Severe | Warning | Info

fun severity_rank :: "severity \<Rightarrow> nat" where
  "severity_rank Severe = 0" | "severity_rank Warning = 1" | "severity_rank Info = 2"

record health_issue =
  hi_code :: string
  hi_severity :: severity
  hi_link :: string
  hi_since :: "stamp option"

record health_summary =
  hs_last_upload_at :: "stamp option"
  hs_last_success_at :: "stamp option"
  hs_last_failure_at :: "stamp option"
  hs_last_error_code :: "string option"
  hs_streak_weeks :: nat
  hs_reminder_enabled :: bool
  hs_next_reminder_at :: "stamp option"
  hs_auto_run :: bool
  hs_notify :: bool
  hs_plan :: string
  hs_runs_used :: int
  hs_runs_limit :: "int option"
  hs_retention_days :: int

record run_failure =
  fa_finished_at :: stamp
  fa_error_code :: "string option"
  fa_run_id :: "ident option"

definition issue :: "string \<Rightarrow> severity \<Rightarrow> string \<Rightarrow> stamp option \<Rightarrow> health_issue list" where
  "issue code sev link since = [\<lparr>hi_code = code, hi_severity = sev, hi_link = link, hi_since = since\<rparr>]"

definition failure_issues :: "health_summary \<Rightarrow> run_failure option \<Rightarrow> health_issue list" where
  "failure_issues s failure =
     (case failure of
        None \<Rightarrow> []
      | Some f \<Rightarrow>
          if (case hs_last_success_at s of None \<Rightarrow> True | Some t \<Rightarrow> fa_finished_at f > t)
          then issue ''last_run_failed'' Severe
                 (if blank_id (fa_run_id f) then ''/upload'' else ''/runs/'' @ the (fa_run_id f)) (Some (fa_finished_at f))
          else [])"

definition plan_issues :: "health_summary \<Rightarrow> health_issue list" where
  "plan_issues s =
     (case hs_runs_limit s of
        None \<Rightarrow> []
      | Some limit \<Rightarrow>
          if hs_runs_used s \<ge> limit then issue ''plan_limit_reached'' Severe ''/settings'' None
          else if hs_runs_used s * snd NEAR_LIMIT \<ge> limit * fst NEAR_LIMIT then issue ''plan_limit_near'' Warning ''/settings'' None
          else [])"

definition upload_issues :: "stamp \<Rightarrow> health_summary \<Rightarrow> bool \<Rightarrow> health_issue list" where
  "upload_issues now s uploaded_before =
     (case hs_last_upload_at s of
        Some t \<Rightarrow> (if now - t \<ge> STALE_UPLOAD_AFTER then issue ''stale_upload'' Warning ''/upload'' (Some t) else [])
      | None \<Rightarrow> (if uploaded_before then issue ''stale_upload'' Warning ''/upload'' None else issue ''no_uploads_yet'' Info ''/upload'' None))"

definition build_issues ::
  "stamp \<Rightarrow> health_summary \<Rightarrow> run_failure option \<Rightarrow> bool \<Rightarrow> stamp option \<Rightarrow> health_issue list" where
  "build_issues now s failure uploaded_before first_partial =
     sort_key (\<lambda>i. severity_rank (hi_severity i))
       (failure_issues s failure @ plan_issues s @ upload_issues now s uploaded_before @
        (case first_partial of None \<Rightarrow> [] | Some t \<Rightarrow> issue ''partial_reports'' Warning ''/'' (Some t)) @
        (if \<not> hs_reminder_enabled s then issue ''reminder_off'' Info ''/settings'' None else []) @
        (if \<not> hs_auto_run s then issue ''auto_run_off'' Info ''/settings'' None else []))"

section \<open>The dashboard\<close>

text \<open>The queries over the rows of the organization since the first week.\<close>

definition recent_uploads :: "ident \<Rightarrow> stamp \<Rightarrow> cdb \<Rightarrow> (stamp \<times> int) list" where
  "recent_uploads og since db =
     map (\<lambda>u. (up_created_at u, up_bytes u)) (filter (\<lambda>u. up_org u = og \<and> up_created_at u \<ge> since) (uploads db))"

definition finished_since :: "ident \<Rightarrow> stamp \<Rightarrow> job \<Rightarrow> bool" where
  "finished_since og since j =
     (j_org j = og \<and> j_status j \<in> set FINISHED_JOB \<and> (case j_finished_at j of None \<Rightarrow> False | Some t \<Rightarrow> t \<ge> since))"

definition recent_jobs :: "ident \<Rightarrow> stamp \<Rightarrow> cdb \<Rightarrow> (job_status \<times> stamp option \<times> stamp) list" where
  "recent_jobs og since db =
     map (\<lambda>j. (j_status j, j_started_at j, the (j_finished_at j))) (filter (finished_since og since) (jobs db))"

text \<open>The outer join: the record's job, if there is one, did not fail.\<close>

definition delivered :: "ident \<Rightarrow> cdb \<Rightarrow> run_record \<Rightarrow> bool" where
  "delivered og db r =
     (case sql_first (\<lambda>j. Some (j_id j) = rr_job r \<and> j_org j = rr_org r) (jobs db) of None \<Rightarrow> True | Some j \<Rightarrow> j_status j \<noteq> Failed)"

definition recent_reports :: "ident \<Rightarrow> stamp \<Rightarrow> cdb \<Rightarrow> (string \<times> stamp) list" where
  "recent_reports og since db =
     map (\<lambda>r. (rr_status r, rr_created_at r))
       (filter (\<lambda>r. rr_org r = og \<and> rr_created_at r \<ge> since \<and> rr_status r \<in> set REPORT_STATUSES \<and> delivered og db r) (run_records db))"

definition latest :: "int list \<Rightarrow> stamp option" where
  "latest ts = (if ts = [] then None else Some (last (sort ts)))"

definition ended_jobs :: "ident \<Rightarrow> job_status \<Rightarrow> cdb \<Rightarrow> job list" where
  "ended_jobs og st db = filter (\<lambda>j. j_org j = og \<and> j_status j = st \<and> j_finished_at j \<noteq> None) (jobs db)"

definition last_failed :: "ident \<Rightarrow> cdb \<Rightarrow> run_failure option" where
  "last_failed og db =
     (let js = sort_key (\<lambda>j. the (j_finished_at j)) (sort_key j_id (ended_jobs og Failed db)) in
      if js = [] then None
      else Some \<lparr>fa_finished_at = the (j_finished_at (last js)), fa_error_code = j_error_code (last js), fa_run_id = j_run (last js)\<rparr>)"

record health_out =
  ho_generated_at :: stamp
  ho_timezone :: string
  ho_weeks :: "week_health list"
  ho_summary :: health_summary
  ho_issues :: "health_issue list"

definition health_schedule :: "org \<Rightarrow> cdb \<Rightarrow> org_schedule" where
  "health_schedule og db = (case get_schedule (o_id og) db of Some s \<Rightarrow> s | None \<Rightarrow> default_schedule (o_id og))"

definition summary_of ::
  "stamp \<Rightarrow> org \<Rightarrow> org_schedule \<Rightarrow> week_health list \<Rightarrow> cdb \<Rightarrow> health_summary" where
  "summary_of now og s weeks db =
     (let u = usage_report now og db; failure = last_failed (o_id og) db in
      \<lparr>hs_last_upload_at = latest (map up_created_at (filter (\<lambda>u. up_org u = o_id og) (uploads db))),
       hs_last_success_at = latest (map (\<lambda>j. the (j_finished_at j)) (ended_jobs (o_id og) Succeeded db)),
       hs_last_failure_at = map_option fa_finished_at failure,
       hs_last_error_code = (case failure of None \<Rightarrow> None | Some f \<Rightarrow> fa_error_code f),
       hs_streak_weeks = streak_weeks weeks, hs_reminder_enabled = os_reminder_enabled s,
       hs_next_reminder_at = (if os_reminder_enabled s then os_next_reminder_at s else None),
       hs_auto_run = os_auto_run s, hs_notify = os_notify_on_finish s, hs_plan = o_plan og,
       hs_runs_used = us_runs (uo_current u), hs_runs_limit = runs_per_month (uo_limits u), hs_retention_days = o_retention_days og\<rparr>)"

definition data_health :: "tzdata \<Rightarrow> stamp \<Rightarrow> nat \<Rightarrow> org \<Rightarrow> cdb \<Rightarrow> exc + health_out" where
  "data_health td now weeks og db =
     (let s = health_schedule og db in
      bind_res (zone_of td (os_timezone s)) (\<lambda>(name, z).
        let starts = week_starts now z LOOKBACK_WEEKS; since = local_midnight z (hd starts);
            reports = recent_reports (o_id og) since db;
            all_weeks = bucket_weeks starts z (recent_uploads (o_id og) since db) (recent_jobs (o_id og) since db) reports;
            summary = summary_of now og s all_weeks db;
            uploaded_before = (hs_last_upload_at summary \<noteq> None \<or> (\<exists>c \<in> set (usage_counters db). uc_org c = o_id og \<and> uc_upload_bytes c > 0));
            window = starts ! (length starts - PARTIAL_WINDOW_WEEKS);
            partials = map snd (filter (\<lambda>(st, t). st = ''PARTIAL'' \<and> window \<le> week_of z t \<and> week_of z t \<le> last starts) reports)
        in Inr \<lparr>ho_generated_at = now, ho_timezone = name, ho_weeks = drop (length all_weeks - weeks) all_weeks, ho_summary = summary,
                ho_issues = build_issues now summary (last_failed (o_id og) db) uploaded_before
                  (if partials = [] then None else Some (hd (sort partials)))\<rparr>))"

definition get_data_health :: "tzdata \<Rightarrow> stamp \<Rightarrow> nat \<Rightarrow> org_context \<Rightarrow> cdb \<Rightarrow> exc + health_out" where
  "get_data_health td now weeks ctx db =
     (if weeks < 1 \<or> weeks > MAX_WEEKS then Inl (Problem 422 ''validation_error'') else data_health td now weeks (cx_org ctx) db)"

section \<open>The audit log\<close>

definition MAX_AUDIT_LIMIT :: nat where "MAX_AUDIT_LIMIT = 200"
definition MAX_CURSOR_LEN :: nat where "MAX_CURSOR_LEN = 120"

text \<open>The codec of cursors: \<open>None\<close> when base64, JSON or the date are malformed.\<close>

definition decode_cursor :: "(string \<Rightarrow> (stamp \<times> string) option) \<Rightarrow> string \<Rightarrow> exc + stamp \<times> string" where
  "decode_cursor unpack cursor =
     (case unpack cursor of
        None \<Rightarrow> Inl (Problem 422 ''invalid_cursor'')
      | Some (t, i) \<Rightarrow> if 1 \<le> length i \<and> length i \<le> 26 then Inr (t, i) else Inl (Problem 422 ''invalid_cursor''))"

definition audit_key :: "audit_event \<Rightarrow> stamp \<times> ident" where "audit_key e = (ae_ts e, ae_id e)"

definition audit_cursor :: "(string \<Rightarrow> (stamp \<times> string) option) \<Rightarrow> string option \<Rightarrow> exc + (stamp \<times> string) option" where
  "audit_cursor unpack cursor =
     (case cursor of None \<Rightarrow> Inr None | Some c \<Rightarrow> if c = [] then Inr None else map_sum id Some (decode_cursor unpack c))"

definition list_audit ::
  "(stamp \<times> string \<Rightarrow> string) \<Rightarrow> (string \<Rightarrow> (stamp \<times> string) option) \<Rightarrow> nat \<Rightarrow> string option \<Rightarrow> org_context \<Rightarrow> cdb
    \<Rightarrow> exc + audit_event list \<times> string option" where
  "list_audit pack unpack limit cursor ctx db =
     (if limit < 1 \<or> limit > MAX_AUDIT_LIMIT \<or> (case cursor of None \<Rightarrow> False | Some c \<Rightarrow> length c > MAX_CURSOR_LEN)
      then Inl (Problem 422 ''validation_error'')
      else bind_res (audit_cursor unpack cursor) (\<lambda>k.
        let (page, nxt) = page_of audit_key limit k (filter (\<lambda>e. ae_org e = Some (cx_org_id ctx)) (audit_events db))
        in Inr (page, map_option pack nxt)))"

end
