(* ===== verification/DataHealthSafety.thy ===== *)
theory DataHealthSafety
  imports DataHealth "HOL-Library.Multiset"
begin

text \<open>
  What the dashboard promises: every event counts in the one week of its local date, the issues are what their rules say, most
  severe first; and whoever follows the cursors of the audit log sees every event of the organization once, newest first.
\<close>

section \<open>Weeks\<close>

lemma week_starts_nth: "i < n \<Longrightarrow> week_starts now z n ! i = week_of z now - 7 * int (n - 1 - i)"
  by (simp add: week_starts_def rev_nth)

lemma length_week_starts [simp]: "length (week_starts now z n) = n"
  by (simp add: week_starts_def)

lemma distinct_week_starts: "distinct (week_starts now z n)"
  by (auto simp: distinct_conv_nth week_starts_nth)

lemma last_week_starts: "0 < n \<Longrightarrow> last (week_starts now z n) = week_of z now"
  by (subst last_conv_nth) (auto simp: week_starts_nth simp flip: length_0_conv)

text \<open>The weeks begin on Mondays.\<close>

lemma week_of_monday: "weekday_of (week_of z t) = 0"
proof -
  have "(d - (d + 3) mod 7 + 3) mod 7 = 0" for d :: int by presburger
  then show ?thesis by (simp add: week_of_def week_start_def weekday_of_def)
qed

lemma week_of_contains: "week_of z t \<le> local_day z t" "local_day z t < week_of z t + 7"
  by (simp_all add: week_of_def week_start_def weekday_of_def)

lemma count_all_map:
  "count_all z m f es bs = map (\<lambda>(s, b). (s, fold f (filter (\<lambda>e. week_of z (m e) = s) es) b)) bs"
proof (induction es arbitrary: bs)
  case (Cons e es)
  have "count_all z m f (e # es) bs = count_all z m f es (in_bucket (week_of z (m e)) (f e) bs)" by (simp add: count_all_def)
  also have "\<dots> = map (\<lambda>(s, b). (s, fold f (filter (\<lambda>e. week_of z (m e) = s) (e # es)) b)) bs"
    unfolding Cons.IH by (auto simp: in_bucket_def)
  finally show ?case .
qed (simp add: count_all_def)

lemma fold_count_upload:
  "fold count_upload us b = b\<lparr>wb_uploads := wb_uploads b + length us, wb_upload_bytes := wb_upload_bytes b + sum_list (map snd us)\<rparr>"
  by (induction us arbitrary: b) (simp_all add: count_upload_def)

lemma fold_count_job:
  "wb_runs_succeeded (fold count_job js b) = wb_runs_succeeded b + length (filter (\<lambda>j. fst j = Succeeded) js)"
  "wb_runs_failed (fold count_job js b) = wb_runs_failed b + length (filter (\<lambda>j. fst j \<noteq> Succeeded) js)"
  "wb_uploads (fold count_job js b) = wb_uploads b" "wb_upload_bytes (fold count_job js b) = wb_upload_bytes b"
  "wb_reports (fold count_job js b) = wb_reports b" "wb_last_report_at (fold count_job js b) = wb_last_report_at b"
  by (induction js arbitrary: b) (auto simp: count_job_def Let_def split: option.splits)

lemma fold_count_report:
  "wb_reports (fold count_report rs b) = wb_reports b + length rs"
  "wb_uploads (fold count_report rs b) = wb_uploads b" "wb_upload_bytes (fold count_report rs b) = wb_upload_bytes b"
  "wb_runs_succeeded (fold count_report rs b) = wb_runs_succeeded b" "wb_runs_failed (fold count_report rs b) = wb_runs_failed b"
  "wb_last_report_at (fold count_report rs b) = fold (\<lambda>t l. later l t) (map snd rs) (wb_last_report_at b)"
  by (induction rs arbitrary: b) (simp_all add: count_report_def)

lemma fold_later: "fold (\<lambda>t l. later l t) ts (Some s) = Some (fold max ts s)"
  by (induction ts arbitrary: s) (auto simp: later_def max_def)

lemma fold_later_None: "fold (\<lambda>t l. later l t) ts None = (if ts = [] then None else Some (Max (set ts)))"
proof (cases ts)
  case (Cons t ts')
  have "later None t = Some t" by (simp add: later_def)
  then show ?thesis unfolding Cons using fold_later [of ts' t] Max.set_eq_fold [of t ts'] by simp
qed simp

lemma week_of_iff: "weekday_of s = 0 \<Longrightarrow> week_of z t = s \<longleftrightarrow> s \<le> local_day z t \<and> local_day z t < s + 7"
  unfolding week_of_def week_start_def weekday_of_def by presburger

definition in_week :: "tzone \<Rightarrow> ('e \<Rightarrow> stamp) \<Rightarrow> int \<Rightarrow> 'e list \<Rightarrow> 'e list" where
  "in_week z m s es = filter (\<lambda>e. week_of z (m e) = s) es"

lemma bucket_week_nth:
  assumes "i < length starts" and "w = bucket_weeks starts z ups js reps ! i"
  shows "wh_start w = starts ! i" "wh_partial w = (starts ! i = last starts)"
    "wh_uploads w = length (in_week z fst (starts ! i) ups)" "wh_upload_bytes w = sum_list (map snd (in_week z fst (starts ! i) ups))"
    "wh_runs_succeeded w = length (filter (\<lambda>j. fst j = Succeeded) (in_week z (\<lambda>j. snd (snd j)) (starts ! i) js))"
    "wh_runs_failed w = length (filter (\<lambda>j. fst j \<noteq> Succeeded) (in_week z (\<lambda>j. snd (snd j)) (starts ! i) js))"
    "wh_reports w = length (in_week z snd (starts ! i) reps)"
    "wh_last_report_at w = fold (\<lambda>t l. later l t) (map snd (in_week z snd (starts ! i) reps)) None"
  using assms(1) unfolding assms(2)
  by (simp_all add: bucket_weeks_def count_all_map week_out_def in_week_def fold_count_upload fold_count_job fold_count_report
      empty_bucket_def case_prod_beta)

lemma length_bucket_weeks: "length (bucket_weeks starts z ups js reps) = length starts"
  by (simp add: bucket_weeks_def count_all_map)

text \<open>Each event of the window is in exactly one of its weeks.\<close>

lemma in_weeks_total:
  "distinct starts \<Longrightarrow> sum_list (map (\<lambda>s. length (in_week z m s es)) starts) = length (filter (\<lambda>e. week_of z (m e) \<in> set starts) es)"
proof (induction starts)
  case (Cons s starts)
  have "length (filter (\<lambda>e. week_of z (m e) \<in> set (s # starts)) es) =
      length (in_week z m s es) + length (filter (\<lambda>e. week_of z (m e) \<in> set starts) es)"
    using Cons.prems by (induction es) (auto simp: in_week_def)
  with Cons show ?case by simp
qed simp

text \<open>The numbers of the week that begins on a day are those of the events of its seven days.\<close>

definition of_week :: "tzone \<Rightarrow> ('e \<Rightarrow> stamp) \<Rightarrow> int \<Rightarrow> 'e list \<Rightarrow> 'e list" where
  "of_week z m s es = filter (\<lambda>e. s \<le> local_day z (m e) \<and> local_day z (m e) < s + 7) es"

definition week_is ::
  "tzone \<Rightarrow> stamp \<Rightarrow> (stamp \<times> int) list \<Rightarrow> (job_status \<times> stamp option \<times> stamp) list \<Rightarrow> (string \<times> stamp) list \<Rightarrow> nat \<Rightarrow> week_health \<Rightarrow> bool" where
  "week_is z now ups js reps i w =
     (let s = wh_start w; my_ups = of_week z fst s ups; my_jobs = of_week z (\<lambda>j. snd (snd j)) s js; my_reps = of_week z snd s reps in
      weekday_of s = 0 \<and> s = week_of z now - 7 * (25 - int i) \<and> wh_partial w = (i = 25) \<and>
      wh_uploads w = length my_ups \<and> wh_upload_bytes w = sum_list (map snd my_ups) \<and>
      wh_runs_succeeded w = length (filter (\<lambda>j. fst j = Succeeded) my_jobs) \<and>
      wh_runs_failed w = length (filter (\<lambda>j. fst j \<noteq> Succeeded) my_jobs) \<and> wh_reports w = length my_reps \<and>
      wh_last_report_at w = (if my_reps = [] then None else Some (Max (snd ` set my_reps))))"

lemma in_week_days: "weekday_of s = 0 \<Longrightarrow> in_week z m s es = of_week z m s es"
  by (simp add: in_week_def of_week_def week_of_iff)

lemma week_starts_monday: "i < n \<Longrightarrow> weekday_of (week_starts now z n ! i) = 0"
  using week_of_monday [of z now] unfolding week_starts_nth weekday_of_def by presburger

lemma bucket_week_is:
  assumes "i < 26"
  shows "week_is z now ups js reps i (bucket_weeks (week_starts now z 26) z ups js reps ! i)"
proof -
  let ?starts = "week_starts now z 26"
  have len: "i < length ?starts" using assms by simp
  note w = bucket_week_nth [OF len refl, of z ups js reps]
  have monday: "weekday_of (?starts ! i) = 0" using assms by (rule week_starts_monday)
  have start: "?starts ! i = week_of z now - 7 * (25 - int i)" using assms by (simp add: week_starts_nth)
  have partial: "(?starts ! i = last ?starts) = (i = 25)" by (simp add: last_week_starts start)
  show ?thesis
    unfolding week_is_def Let_def w in_week_days [OF monday]
    by (intro conjI monday start partial refl) (simp add: fold_later_None)
qed

text \<open>C38. The dashboard's weeks are twenty-six consecutive weeks from Monday to Sunday of the schedule's zone, the last one the
  current week, and every upload, finished job and report counts in the one week its local date falls into: a week's numbers are
  those of the events of its days, and over the whole window no upload is lost or counted twice.\<close>

theorem weeks_count_every_event_once:
  "list_all2 (week_is z now ups js reps) [0..<26] (bucket_weeks (week_starts now z LOOKBACK_WEEKS) z ups js reps) \<and>
   sum_list (map wh_uploads (bucket_weeks (week_starts now z LOOKBACK_WEEKS) z ups js reps)) =
     length (filter (\<lambda>u. week_of z now - 175 \<le> local_day z (fst u) \<and> local_day z (fst u) < week_of z now + 7) ups)"
proof
  let ?starts = "week_starts now z LOOKBACK_WEEKS" and ?weeks = "bucket_weeks (week_starts now z LOOKBACK_WEEKS) z ups js reps"
  have n: "LOOKBACK_WEEKS = 26" by (simp add: LOOKBACK_WEEKS_def MAX_WEEKS_def)
  show "list_all2 (week_is z now ups js reps) [0..<26] ?weeks"
    unfolding n by (auto simp: list_all2_conv_all_nth length_bucket_weeks intro: bucket_week_is)
  have "map wh_uploads ?weeks = map (\<lambda>s. length (in_week z fst s ups)) ?starts"
    by (rule nth_equalityI) (simp_all add: length_bucket_weeks bucket_week_nth(3) [OF _ refl])
  then have "sum_list (map wh_uploads ?weeks) = length (filter (\<lambda>u. week_of z (fst u) \<in> set ?starts) ups)"
    by (simp add: in_weeks_total distinct_week_starts)
  moreover have "(week_of z t \<in> set ?starts) = (week_of z now - 175 \<le> local_day z t \<and> local_day z t < week_of z now + 7)" for t
  proof -
    have "(week_of z t \<in> set ?starts) = (\<exists>i < 26. week_of z t = week_of z now - 7 * int i)"
      by (auto simp: week_starts_def n)
    also have "\<dots> = (week_of z now - 175 \<le> week_of z t \<and> week_of z t \<le> week_of z now)"
    proof
      assume r: "week_of z now - 175 \<le> week_of z t \<and> week_of z t \<le> week_of z now"
      have "(week_of z now - week_of z t) mod 7 = 0"
        using week_of_monday [of z t] week_of_monday [of z now] unfolding weekday_of_def by presburger
      then obtain k where "week_of z now - week_of z t = 7 * k" by (auto simp: zmod_eq_0_iff)
      with r show "\<exists>i < 26. week_of z t = week_of z now - 7 * int i" by (intro exI [of _ "nat k"]) auto
    qed auto
    also have "\<dots> = (week_of z now - 175 \<le> local_day z t \<and> local_day z t < week_of z now + 7)"
      using week_of_monday [of z t] week_of_monday [of z now] week_of_contains [of z t] unfolding weekday_of_def by presburger
    finally show ?thesis .
  qed
  ultimately show "sum_list (map wh_uploads ?weeks) =
      length (filter (\<lambda>u. week_of z now - 175 \<le> local_day z (fst u) \<and> local_day z (fst u) < week_of z now + 7) ups)"
    by (simp only:)
qed

section \<open>Issues\<close>

lemma length_issue [simp]: "map hi_code (issue c v l s) = [c]" "i \<in> set (issue c v l s) \<longleftrightarrow> i = \<lparr>hi_code = c, hi_severity = v, hi_link = l, hi_since = s\<rparr>"
  by (auto simp: issue_def)

text \<open>The issues are listed with the most severe first, each at most once, and each exactly when its rule holds.\<close>

theorem issues_follow_their_rules:
  fixes now s failure before partial
  defines "issues \<equiv> build_issues now s failure before partial" and "codes \<equiv> hi_code ` set (build_issues now s failure before partial)"
  shows "sorted (map (\<lambda>i. severity_rank (hi_severity i)) issues) \<and> distinct (map hi_code issues) \<and>
    (''last_run_failed'' \<in> codes) = (\<exists>f. failure = Some f \<and> (hs_last_success_at s = None \<or> the (hs_last_success_at s) < fa_finished_at f)) \<and>
    (''plan_limit_reached'' \<in> codes) = (\<exists>l. hs_runs_limit s = Some l \<and> l \<le> hs_runs_used s) \<and>
    (''plan_limit_near'' \<in> codes) = (\<exists>l. hs_runs_limit s = Some l \<and> hs_runs_used s < l \<and> 4 * l \<le> 5 * hs_runs_used s) \<and>
    (''stale_upload'' \<in> codes) = (if hs_last_upload_at s = None then before else the (hs_last_upload_at s) + days 7 \<le> now) \<and>
    (''no_uploads_yet'' \<in> codes) = (hs_last_upload_at s = None \<and> \<not> before) \<and>
    (''partial_reports'' \<in> codes) = (partial \<noteq> None) \<and>
    (''reminder_off'' \<in> codes) = (\<not> hs_reminder_enabled s) \<and> (''auto_run_off'' \<in> codes) = (\<not> hs_auto_run s)"
proof -
  let ?all = "failure_issues s failure @ plan_issues s @ upload_issues now s before @
        (case partial of None \<Rightarrow> [] | Some t \<Rightarrow> issue ''partial_reports'' Warning ''/'' (Some t)) @
        (if \<not> hs_reminder_enabled s then issue ''reminder_off'' Info ''/settings'' None else []) @
        (if \<not> hs_auto_run s then issue ''auto_run_off'' Info ''/settings'' None else [])"
  have issues: "issues = sort_key (\<lambda>i. severity_rank (hi_severity i)) ?all" by (simp add: issues_def build_issues_def)
  then have codes: "codes = set (map hi_code ?all)" unfolding codes_def issues_def [symmetric] set_map by (simp only: set_sort)
  define A where "A = (\<exists>f. failure = Some f \<and> (hs_last_success_at s = None \<or> the (hs_last_success_at s) < fa_finished_at f))"
  define B where "B = (\<exists>l. hs_runs_limit s = Some l \<and> l \<le> hs_runs_used s)"
  define N where "N = (\<exists>l. hs_runs_limit s = Some l \<and> hs_runs_used s < l \<and> 4 * l \<le> 5 * hs_runs_used s)"
  define S where "S = (if hs_last_upload_at s = None then before else the (hs_last_upload_at s) + days 7 \<le> now)"
  define U where "U = (hs_last_upload_at s = None \<and> \<not> before)"
  have "map hi_code (failure_issues s failure) = (if A then [''last_run_failed''] else [])"
    by (auto simp: A_def failure_issues_def split: option.splits)
  moreover have "map hi_code (plan_issues s) = (if B then [''plan_limit_reached''] else if N then [''plan_limit_near''] else [])"
    by (auto simp: B_def N_def plan_issues_def NEAR_LIMIT_def mult.commute split: option.splits)
  moreover have "map hi_code (upload_issues now s before) = (if S then [''stale_upload''] else if U then [''no_uploads_yet''] else [])"
    by (auto simp: S_def U_def upload_issues_def STALE_UPLOAD_AFTER_def split: option.splits)
  moreover have "map hi_code (case partial of None \<Rightarrow> [] | Some t \<Rightarrow> issue ''partial_reports'' Warning ''/'' (Some t)) =
      (if partial \<noteq> None then [''partial_reports''] else [])"
    by (simp split: option.splits)
  ultimately have all: "map hi_code ?all = (if A then [''last_run_failed''] else []) @
      (if B then [''plan_limit_reached''] else if N then [''plan_limit_near''] else []) @
      (if S then [''stale_upload''] else if U then [''no_uploads_yet''] else []) @ (if partial \<noteq> None then [''partial_reports''] else []) @
      (if \<not> hs_reminder_enabled s then [''reminder_off''] else []) @ (if \<not> hs_auto_run s then [''auto_run_off''] else [])"
    by simp
  have excl: "\<not> (B \<and> N)" "\<not> (S \<and> U)" by (auto simp: B_def N_def S_def U_def)
  have "sorted (map (\<lambda>i. severity_rank (hi_severity i)) issues)" unfolding issues by (rule sorted_sort_key)
  moreover have "mset (map hi_code issues) = mset (map hi_code ?all)" unfolding issues mset_map mset_sort ..
  then have "distinct (map hi_code issues) = distinct (map hi_code ?all)" by (rule mset_eq_imp_distinct_iff)
  then have "distinct (map hi_code issues)" unfolding all by simp
  moreover have "(''last_run_failed'' \<in> codes) = A" "(''plan_limit_reached'' \<in> codes) = B" "(''plan_limit_near'' \<in> codes) = N"
    "(''stale_upload'' \<in> codes) = S" "(''no_uploads_yet'' \<in> codes) = U" "(''partial_reports'' \<in> codes) = (partial \<noteq> None)"
    "(''reminder_off'' \<in> codes) = (\<not> hs_reminder_enabled s)" "(''auto_run_off'' \<in> codes) = (\<not> hs_auto_run s)"
    unfolding codes all using excl by simp_all
  ultimately show ?thesis unfolding A_def [symmetric] B_def [symmetric] N_def [symmetric] S_def [symmetric] U_def [symmetric] by (intro conjI)
qed

section \<open>The audit log\<close>

text \<open>A client that follows the cursors it is given; \<open>fuel\<close> bounds the number of requests.\<close>

fun follow_audit ::
  "nat \<Rightarrow> (stamp \<times> string \<Rightarrow> string) \<Rightarrow> (string \<Rightarrow> (stamp \<times> string) option) \<Rightarrow> nat \<Rightarrow> string option \<Rightarrow> org_context \<Rightarrow> cdb
    \<Rightarrow> audit_event list option" where
  "follow_audit 0 pack unpack limit cursor ctx db = None"
| "follow_audit (Suc fuel) pack unpack limit cursor ctx db =
     (case list_audit pack unpack limit cursor ctx db of
        Inl e \<Rightarrow> None
      | Inr (page, None) \<Rightarrow> Some page
      | Inr (page, Some c) \<Rightarrow> map_option (\<lambda>rest. page @ rest) (follow_audit fuel pack unpack limit (Some c) ctx db))"

definition events_of :: "org_context \<Rightarrow> cdb \<Rightarrow> audit_event list" where
  "events_of ctx db = filter (\<lambda>e. ae_org e = Some (cx_org_id ctx)) (audit_events db)"

text \<open>The cursor of an event can be given to a client and taken back.\<close>

definition cursor_ok :: "(stamp \<times> string \<Rightarrow> string) \<Rightarrow> (string \<Rightarrow> (stamp \<times> string) option) \<Rightarrow> audit_event \<Rightarrow> bool" where
  "cursor_ok pack unpack e =
     (unpack (pack (audit_key e)) = Some (audit_key e) \<and> pack (audit_key e) \<noteq> [] \<and> length (pack (audit_key e)) \<le> MAX_CURSOR_LEN \<and>
      1 \<le> length (ae_id e) \<and> length (ae_id e) \<le> 26)"

lemma page_cursor_ok:
  assumes "page_of audit_key limit k (events_of ctx db) = (page, Some c)" and "0 < limit"
  shows "\<exists>e \<in> set (audit_events db). c = audit_key e"
proof -
  let ?rs = "rows_below audit_key k (events_of ctx db)"
  from assms have long: "limit < length ?rs" by (auto simp: page_of_def Let_def split: if_splits)
  have c: "c = audit_key (last (take limit ?rs))" using assms(1) unfolding page_of_simps(2) [OF long] by auto
  have "take limit ?rs \<noteq> []" using long assms(2) by auto
  then have "last (take limit ?rs) \<in> set ?rs" by (meson in_set_takeD last_in_set)
  then have "last (take limit ?rs) \<in> set (audit_events db)" by (auto simp: rows_below_def events_of_def)
  with c show ?thesis by blast
qed

lemma follow_audit_pages:
  assumes "\<forall>e \<in> set (audit_events db). cursor_ok pack unpack e" and "1 \<le> limit" "limit \<le> MAX_AUDIT_LIMIT"
    and "k = None \<and> cursor = None \<or> (\<exists>e \<in> set (audit_events db). k = Some (audit_key e) \<and> cursor = Some (pack (audit_key e)))"
  shows "follow_audit fuel pack unpack limit cursor ctx db = follow_pages fuel audit_key limit k (events_of ctx db)"
  using assms(4)
proof (induction fuel arbitrary: k cursor)
  case (Suc fuel)
  obtain page nxt where p: "page_of audit_key limit k (events_of ctx db) = (page, nxt)" by fastforce
  have cur: "audit_cursor unpack cursor = Inr k"
  proof (cases cursor)
    case (Some c)
    then obtain e where e: "e \<in> set (audit_events db)" "k = Some (audit_key e)" "c = pack (audit_key e)" using Suc.prems by auto
    then have "cursor_ok pack unpack e" using assms(1) by blast
    then show ?thesis using e Some by (auto simp: audit_cursor_def decode_cursor_def cursor_ok_def audit_key_def)
  qed (use Suc.prems in \<open>simp add: audit_cursor_def\<close>)
  have short: "\<not> (case cursor of None \<Rightarrow> False | Some c \<Rightarrow> length c > MAX_CURSOR_LEN)"
    using Suc.prems assms(1) by (auto simp: cursor_ok_def)
  have page: "list_audit pack unpack limit cursor ctx db = Inr (page, map_option pack nxt)"
    using assms(2,3) short p by (simp add: list_audit_def cur events_of_def)
  show ?case
  proof (cases nxt)
    case (Some c)
    with p assms(2) have "\<exists>e \<in> set (audit_events db). c = audit_key e" by (intro page_cursor_ok) auto
    then have "follow_audit fuel pack unpack limit (Some (pack c)) ctx db = follow_pages fuel audit_key limit (Some c) (events_of ctx db)"
      by (intro Suc.IH) auto
    then show ?thesis by (simp add: page p Some)
  qed (simp add: page p)
qed simp

text \<open>C39. Whoever follows the cursors of the audit log gets every event of the organization exactly once, newest first and
  nothing of another organization, whatever the size of the pages, in at most one request more than there are events.\<close>

theorem audit_log_is_complete:
  assumes "distinct (map ae_id (audit_events db))" and "\<forall>e \<in> set (audit_events db). cursor_ok pack unpack e"
    and "1 \<le> limit" "limit \<le> MAX_AUDIT_LIMIT"
  shows "\<exists>es. follow_audit (length (events_of ctx db) + 1) pack unpack limit None ctx db = Some es \<and>
    mset es = mset (events_of ctx db) \<and> sorted (rev (map audit_key es))"
proof -
  have "distinct (map ae_id (events_of ctx db))" unfolding events_of_def using assms(1) by (rule distinct_map_filter)
  then have keyed: "distinct (map audit_key (events_of ctx db))" by (auto simp: distinct_map audit_key_def inj_on_def)
  have "follow_audit (length (events_of ctx db) + 1) pack unpack limit None ctx db =
      follow_pages (length (events_of ctx db) + 1) audit_key limit None (events_of ctx db)"
    by (rule follow_audit_pages [OF assms(2,3,4)]) simp
  also have "\<dots> = Some (rev (sort_key audit_key (events_of ctx db)))"
    using follow_pages_all [OF keyed] assms(3) by simp
  finally show ?thesis by (simp add: rev_map)
qed

text \<open>An organization with two events and one of another organization, in pages of one.\<close>

definition demo_event :: "ident \<Rightarrow> ident \<Rightarrow> stamp \<Rightarrow> audit_event" where
  "demo_event i og t = new_event i t (Some og) ''user'' None ''auth_denied'' None [] None"

definition demo_log :: cdb where
  "demo_log = empty_cdb\<lparr>audit_events := [demo_event ''e1'' ''org'' 3, demo_event ''e2'' ''other'' 4, demo_event ''e3'' ''org'' 5]\<rparr>"

definition demo_unpack :: "string \<Rightarrow> (stamp \<times> string) option" where
  "demo_unpack = map_of [(''e1'', (3, ''e1'')), (''e2'', (4, ''e2'')), (''e3'', (5, ''e3''))]"

theorem audit_log_is_complete_witness:
  "\<exists>es. follow_audit 3 snd demo_unpack 1 None demo_ctx demo_log = Some es \<and> map ae_id es = [''e3'', ''e1'']"
proof -
  have events: "events_of demo_ctx demo_log = [demo_event ''e1'' ''org'' 3, demo_event ''e3'' ''org'' 5]"
    by (simp add: events_of_def demo_log_def demo_event_def new_event_def demo_ctx_def demo_org_def cx_org_id_def)
  have "distinct (map ae_id (audit_events demo_log))" by (simp add: demo_log_def demo_event_def new_event_def)
  moreover have "\<forall>e \<in> set (audit_events demo_log). cursor_ok snd demo_unpack e"
    by (simp add: demo_log_def demo_event_def new_event_def cursor_ok_def demo_unpack_def audit_key_def MAX_CURSOR_LEN_def)
  ultimately obtain es where es: "follow_audit 3 snd demo_unpack 1 None demo_ctx demo_log = Some es"
    "mset es = mset (events_of demo_ctx demo_log)" "sorted (rev (map audit_key es))"
    using audit_log_is_complete [of demo_log snd demo_unpack 1 demo_ctx] by (auto simp: events MAX_AUDIT_LIMIT_def numeral_3_eq_3)
  have "es = [demo_event ''e3'' ''org'' 5, demo_event ''e1'' ''org'' 3]"
  proof -
    have "length es = 2" using mset_eq_length [OF es(2)] by (simp add: events)
    then obtain a b where ab: "es = [a, b]" by (auto simp: length_Suc_conv numeral_2_eq_2)
    then show ?thesis using es(2,3)
      by (auto simp: events add_eq_conv_ex demo_event_def new_event_def audit_key_def)
  qed
  with es(1) show ?thesis by (auto simp: demo_event_def new_event_def)
qed

end
