(* ===== verification/EvidenceSafety.thy ===== *)
theory EvidenceSafety
  imports Evidence "HOL-Library.Multiset"
begin

text \<open>
  What verifying a package gives: the canonical form determines the evidence, so a package whose evidence was edited after
  collection is blocked; what an accepted package guarantees and what its hashes do not cover; and what the metrics count.
\<close>

section \<open>The canonical form determines the evidence\<close>

text \<open>A text of JSON: code points, a high surrogate never before a low one (the parser joins such a pair).\<close>

definition high_unit :: "nat \<Rightarrow> bool" where "high_unit n = (0xD800 \<le> n \<and> n < 0xDC00)"
definition low_unit :: "nat \<Rightarrow> bool" where "low_unit n = (0xDC00 \<le> n \<and> n < 0xE000)"

fun uni_ok :: "utext \<Rightarrow> bool" where
  "uni_ok [] = True"
| "uni_ok (n # t) = (n < 0x110000 \<and> \<not> (high_unit n \<and> t \<noteq> [] \<and> low_unit (hd t)) \<and> uni_ok t)"

definition real_text :: "string \<Rightarrow> bool" where
  "real_text r =
     (r \<in> {''NaN'', ''Infinity'', ''-Infinity''} \<or>
      (\<forall>c \<in> set r. is_digit c \<or> c \<in> set ''.e+-'') \<and> (CHR ''.'' \<in> set r \<or> CHR ''e'' \<in> set r))"

fun json_ok :: "json \<Rightarrow> bool" where
  "json_ok (JReal r) = real_text r"
| "json_ok (JText t) = uni_ok t"
| "json_ok (JList vs) = (\<forall>v \<in> set vs. json_ok v)"
| "json_ok (JDict kvs) = (distinct (map fst kvs) \<and> (\<forall>p \<in> set kvs. uni_ok (fst p) \<and> json_ok (snd p)))"
| "json_ok _ = True"

text \<open>Two values are the same JSON when they differ in the order of keys only.\<close>

fun normal_json :: "json \<Rightarrow> json" where
  "normal_json (JList vs) = JList (map normal_json vs)"
| "normal_json (JDict kvs) = JDict (sort_key fst (map (\<lambda>p. (fst p, normal_json (snd p))) kvs))"
| "normal_json v = v"

definition same_evidence :: "(utext \<times> json) list \<Rightarrow> (utext \<times> json) list \<Rightarrow> bool" where
  "same_evidence e e' = (normal_json (JDict e) = normal_json (JDict e'))"

text \<open>UTF-16 units, escaped one by one.\<close>

definition units :: "nat \<Rightarrow> nat list" where
  "units n = (if n < 0x10000 then [n] else [0xD800 + (n - 0x10000) div 0x400, 0xDC00 + (n - 0x10000) mod 0x400])"

fun join_units :: "nat list \<Rightarrow> nat list" where
  "join_units (h # l # r) =
     (if high_unit h \<and> low_unit l then (0x10000 + (h - 0xD800) * 0x400 + (l - 0xDC00)) # join_units r else h # join_units (l # r))"
| "join_units us = us"

lemma units_first: "units n \<noteq> []" "n < 0x110000 \<Longrightarrow> low_unit (hd (units n)) \<Longrightarrow> low_unit n"
proof -
  assume n: "n < 0x110000" "low_unit (hd (units n))"
  then have "(n - 0x10000) div 0x400 < 0x400" by (intro less_mult_imp_div_less) simp
  with n(2) show "low_unit n" by (simp add: units_def low_unit_def split: if_splits)
qed (simp add: units_def)

lemma join_units_concat: "uni_ok t \<Longrightarrow> join_units (concat (map units t)) = t"
proof (induction t)
  case (Cons n t)
  then have IH: "join_units (concat (map units t)) = t" by simp
  show ?case
  proof (cases "n < 0x10000")
    case True
    show ?thesis
    proof (cases t)
      case Nil with True show ?thesis by (simp add: units_def)
    next
      case (Cons m t')
      obtain u us where us: "concat (map units t) = u # us" "u = hd (units m)"
        using units_first(1) [of m] Cons by (cases "units m") auto
      have "low_unit u \<Longrightarrow> low_unit m" using us(2) units_first(2) [of m] Cons.prems Cons by simp
      then have "\<not> (high_unit n \<and> low_unit u)" using Cons.prems Cons by auto
      moreover have "concat (map units (n # t)) = n # u # us" using True us(1) by (simp add: units_def)
      ultimately show ?thesis using IH us(1) by auto
    qed
  next
    case False
    define k where "k = n - 0x10000"
    have k: "k < 0x100000" "n = 0x10000 + k" using False Cons.prems by (auto simp: k_def)
    have "high_unit (0xD800 + k div 0x400)" using k(1) by (simp add: high_unit_def)
    moreover have "low_unit (0xDC00 + k mod 0x400)" by (simp add: low_unit_def)
    moreover have "units n = [0xD800 + k div 0x400, 0xDC00 + k mod 0x400]" using k by (simp add: units_def)
    ultimately show ?thesis using IH k(2) by simp
  qed
qed simp

lemma units_small: "n < 0x110000 \<Longrightarrow> \<forall>u \<in> set (units n). u < 0x10000"
  by (auto simp: units_def)

text \<open>A unit can be read back from the front of the escaped text.\<close>

definition hex_val :: "char \<Rightarrow> nat" where
  "hex_val c = (if of_char c < (58 :: nat) then of_char c - 48 else of_char c - 87)"

lemma hex_val_digit: "d < 16 \<Longrightarrow> hex_val (hex_digit d) = d"
  by (auto simp: hex_val_def hex_digit_def)

definition read_unit :: "string \<Rightarrow> nat" where
  "read_unit s =
     (if hd s \<noteq> CHR 92 then of_char (hd s)
      else let c = s ! 1 in
        if c = CHR 34 then 34 else if c = CHR 92 then 92 else if c = CHR ''n'' then 10 else if c = CHR ''r'' then 13
        else if c = CHR ''t'' then 9 else if c = CHR ''f'' then 12 else if c = CHR ''b'' then 8
        else ((hex_val (s ! 2) * 16 + hex_val (s ! 3)) * 16 + hex_val (s ! 4)) * 16 + hex_val (s ! 5))"

lemma hex4_value:
  assumes "u < 0x10000"
  shows "((u div 4096 mod 16 * 16 + u div 256 mod 16) * 16 + u div 16 mod 16) * 16 + u mod 16 = (u :: nat)"
proof -
  define a b c where "a = u div 16" and "b = a div 16" and "c = b div 16"
  have parts: "u div 256 = b" "u div 4096 = c" by (simp_all add: a_def b_def c_def div_mult2_eq [symmetric])
  have "c < 16" using assms unfolding a_def b_def c_def div_mult2_eq [symmetric] by (intro less_mult_imp_div_less) simp
  then have top: "c mod 16 = c" by simp
  have "a * 16 + u mod 16 = u" "b * 16 + a mod 16 = a" "c * 16 + b mod 16 = b"
    unfolding a_def b_def c_def by (rule div_mult_mod_eq)+
  then show ?thesis unfolding parts top a_def [symmetric] by (simp only:)
qed

lemma char_of_eq: "n < (256 :: nat) \<Longrightarrow> char_of n = c \<Longrightarrow> n = of_char c"
  by auto

lemma read_unit_escape:
  "read_unit (CHR 92 # CHR ''u'' # a # b # c # d # r) = ((hex_val a * 16 + hex_val b) * 16 + hex_val c) * 16 + hex_val d"
  by (simp add: read_unit_def eval_nat_numeral)

lemma read_json_char: "u < 0x10000 \<Longrightarrow> read_unit (json_char u @ r) = u"
proof -
  assume u: "u < 0x10000"
  have d: "hex_val (hex_digit (k mod 16)) = k mod 16" for k by (simp add: hex_val_digit)
  have esc: "read_unit (unit_escape u @ r) = u"
    unfolding unit_escape_def hex4_def list.map append_Cons read_unit_escape d by (rule hex4_value [OF u])
  have printable: "read_unit ([char_of u] @ r) = u" if "32 \<le> u" "u < 127" "u \<noteq> 92"
  proof -
    have "char_of u \<noteq> CHR 92" using that char_of_eq [of u "CHR 92"] by auto
    then show ?thesis using that by (simp add: read_unit_def)
  qed
  have special: "read_unit (CHR 92 # CHR 34 # r) = 34" "read_unit (CHR 92 # CHR 92 # r) = 92" "read_unit (CHR 92 # CHR ''n'' # r) = 10"
    "read_unit (CHR 92 # CHR ''r'' # r) = 13" "read_unit (CHR 92 # CHR ''t'' # r) = 9" "read_unit (CHR 92 # CHR ''f'' # r) = 12"
    "read_unit (CHR 92 # CHR ''b'' # r) = 8"
    by (simp_all add: read_unit_def)
  show ?thesis using esc printable u by (simp add: json_char_def special)
qed

lemma json_char_first: "json_char n \<noteq> []" "hd (json_char n) \<noteq> CHR 34"
  using char_of_eq [of n "CHR 34"] by (auto simp: json_char_def unit_escape_def)

lemma json_char_units: "n < 0x110000 \<Longrightarrow> json_char n = concat (map json_char (units n))"
proof (cases "n < 0x10000")
  case False
  assume n: "n < 0x110000"
  define a b where "a = 0xD800 + (n - 0x10000) div 0x400" and "b = 0xDC00 + (n - 0x10000) mod 0x400"
  have "0xD800 \<le> a" "a < 0x10000" "0xD800 \<le> b" "b < 0x10000" using n False by (auto simp: a_def b_def)
  then have "json_char a = unit_escape a" "json_char b = unit_escape b" by (simp_all add: json_char_def)
  moreover have "json_char n = unit_escape a @ unit_escape b" using False by (simp add: json_char_def a_def b_def)
  moreover have "units n = [a, b]" using False by (simp add: units_def a_def b_def)
  ultimately show ?thesis by simp
qed (simp add: units_def)

lemma uni_ok_bound: "uni_ok t \<Longrightarrow> \<forall>n \<in> set t. n < 0x110000"
  by (induction t) auto

lemma json_text_units: "uni_ok t \<Longrightarrow> concat (map json_char t) = concat (map json_char (concat (map units t)))"
  using uni_ok_bound [of t] by (induction t) (auto simp: json_char_units)

lemma units_read:
  "\<forall>u \<in> set us. u < 0x10000 \<Longrightarrow> \<forall>u \<in> set vs. u < 0x10000 \<Longrightarrow>
   concat (map json_char us) @ CHR 34 # r = concat (map json_char vs) @ CHR 34 # s \<Longrightarrow> us = vs \<and> r = s"
proof (induction us arbitrary: vs)
  case Nil
  show ?case
  proof (cases vs)
    case (Cons v vs')
    then show ?thesis using Nil.prems(3) json_char_first [of v] by (cases "json_char v") auto
  qed (use Nil.prems(3) in simp)
next
  case (Cons u us)
  show ?case
  proof (cases vs)
    case Nil
    then show ?thesis using Cons.prems(3) json_char_first [of u] by (cases "json_char u") auto
  next
    case (Cons v vs')
    then have eq: "json_char u @ (concat (map json_char us) @ CHR 34 # r) = json_char v @ (concat (map json_char vs') @ CHR 34 # s)"
      using Cons.prems(3) by simp
    then have "u = v" using read_json_char Cons.prems(1,2) Cons by (metis list.set_intros(1))
    with eq have "us = vs' \<and> r = s" using Cons.prems(1,2) Cons by (intro Cons.IH) auto
    then show ?thesis using \<open>u = v\<close> Cons by simp
  qed
qed

lemma json_text_reads:
  assumes "uni_ok t" "uni_ok u" "json_text t @ r = json_text u @ s"
  shows "t = u \<and> r = s"
proof -
  let ?f = "\<lambda>t. concat (map units t)"
  have small: "\<forall>n \<in> set (?f t). n < 0x10000" if "uni_ok t" for t
    using that by (auto dest!: uni_ok_bound dest: units_small [rule_format])
  have "concat (map json_char (?f t)) @ CHR 34 # r = concat (map json_char (?f u)) @ CHR 34 # s"
    using assms(3) unfolding json_text_def json_text_units [OF assms(1)] json_text_units [OF assms(2)] by simp
  then have "?f t = ?f u \<and> r = s" using small [OF assms(1)] small [OF assms(2)] by (intro units_read)
  then show ?thesis using join_units_concat [OF assms(1)] join_units_concat [OF assms(2)] by metis
qed

text \<open>Without sorting, a value can be read from the front of a text before a delimiter.\<close>

fun json_raw :: "json \<Rightarrow> string" where
  "json_raw (JList vs) = ''['' @ py_join '','' (map json_raw vs) @ '']''"
| "json_raw (JDict kvs) = ''{'' @ py_join '','' (map (\<lambda>p. json_text (fst p) @ '':'' @ json_raw (snd p)) kvs) @ ''}''"
| "json_raw v = json_dump v"

definition delimited :: "string \<Rightarrow> bool" where
  "delimited r = (r = [] \<or> hd r \<in> set '',]}'')"

definition reads :: "('a \<Rightarrow> string) \<Rightarrow> ('a \<Rightarrow> bool) \<Rightarrow> 'a \<Rightarrow> bool" where
  "reads enc ok x = (\<forall>y r s. ok y \<longrightarrow> delimited r \<longrightarrow> delimited s \<longrightarrow> enc x @ r = enc y @ s \<longrightarrow> x = y \<and> r = s)"

definition tail_text :: "('a \<Rightarrow> string) \<Rightarrow> 'a list \<Rightarrow> string" where
  "tail_text enc xs = concat (map (\<lambda>x. CHR '','' # enc x) xs)"

lemma join_tail: "py_join '','' (map enc (x # xs)) = enc x @ tail_text enc xs"
  by (induction xs arbitrary: x) (simp_all add: tail_text_def)

lemma tail_delimited: "c \<in> set '']}'' \<Longrightarrow> delimited (tail_text enc xs @ c # r)"
  by (cases xs) (auto simp: tail_text_def delimited_def)

lemma tail_reads:
  assumes "c \<in> set '']}''" "\<forall>x \<in> set xs. reads enc ok x" "\<forall>y \<in> set ys. ok y"
    and "tail_text enc xs @ c # r = tail_text enc ys @ c # s"
  shows "xs = ys \<and> r = s"
  using assms(2-4)
proof (induction xs arbitrary: ys)
  case Nil
  then show ?case using assms(1) by (cases ys) (auto simp: tail_text_def)
next
  case (Cons x xs)
  show ?case
  proof (cases ys)
    case Nil
    then show ?thesis using Cons.prems(3) assms(1) by (auto simp: tail_text_def)
  next
    case (Cons y ys')
    then have "enc x @ (tail_text enc xs @ c # r) = enc y @ (tail_text enc ys' @ c # s)"
      using Cons.prems(3) by (simp add: tail_text_def)
    then have xy: "x = y" and rest: "tail_text enc xs @ c # r = tail_text enc ys' @ c # s"
      using Cons.prems(1,2) Cons tail_delimited [OF assms(1)] unfolding reads_def by (metis list.set_intros(1))+
    have "xs = ys' \<and> r = s" using Cons.prems(1,2) Cons rest by (intro Cons.IH) auto
    with xy Cons show ?thesis by simp
  qed
qed

lemma join_reads:
  assumes "c \<in> set '']}''" "\<forall>x \<in> set xs. reads enc ok x \<and> ok x" "\<forall>y \<in> set ys. ok y"
    and first: "\<And>y. ok y \<Longrightarrow> enc y \<noteq> [] \<and> hd (enc y) \<noteq> c"
    and eq: "py_join '','' (map enc xs) @ c # r = py_join '','' (map enc ys) @ c # s"
  shows "xs = ys \<and> r = s"
proof (cases xs)
  case Nil
  show ?thesis
  proof (cases ys)
    case (Cons y ys')
    have "hd (py_join '','' (map enc ys) @ c # s) = hd (enc y)" using first [of y] assms(3) unfolding Cons join_tail by simp
    moreover have "hd (py_join '','' (map enc xs) @ c # r) = c" using Nil by simp
    ultimately show ?thesis using eq first [of y] assms(3) Cons by simp
  qed (use Nil eq in simp)
next
  case (Cons x xs')
  show ?thesis
  proof (cases ys)
    case Nil
    have "hd (py_join '','' (map enc xs) @ c # r) = hd (enc x)" using first [of x] assms(2) unfolding Cons join_tail by simp
    then show ?thesis using Nil eq first [of x] assms(2) Cons by simp
  next
    case (Cons y ys')
    from \<open>xs = x # xs'\<close> Cons have e: "enc x @ (tail_text enc xs' @ c # r) = enc y @ (tail_text enc ys' @ c # s)"
      using eq unfolding \<open>xs = x # xs'\<close> Cons join_tail by simp
    have "reads enc ok x" "ok y" using assms(2,3) \<open>xs = x # xs'\<close> Cons by auto
    then have xy: "x = y" and rest: "tail_text enc xs' @ c # r = tail_text enc ys' @ c # s"
      using e tail_delimited [OF assms(1)] unfolding reads_def by metis+
    have "xs' = ys' \<and> r = s"
      using assms(2,3) \<open>xs = x # xs'\<close> Cons by (intro tail_reads [OF assms(1) _ _ rest]) auto
    with xy Cons \<open>xs = x # xs'\<close> show ?thesis by simp
  qed
qed

lemma dec_int_chars: "c \<in> set (dec_int i) \<Longrightarrow> is_digit c \<or> c = CHR ''-''"
  using dec_nat_digits by (auto simp: dec_int_def split: if_splits)

lemma dec_int_inj: "dec_int i = dec_int k \<Longrightarrow> i = k"
proof -
  have "CHR ''-'' \<notin> set (dec_nat n)" for n using dec_nat_digits [of "CHR ''-''" n] by (auto simp: is_digit_def)
  then have first: "dec_nat n \<noteq> CHR ''-'' # s" "CHR ''-'' # s \<noteq> dec_nat n" for n and s :: string by (metis list.set_intros(1))+
  assume "dec_int i = dec_int k"
  then show ?thesis using first dec_nat_inj by (auto simp: dec_int_def split: if_splits) 
qed

text \<open>Everything but texts, lists and dictionaries is one token.\<close>

definition scalar :: "json \<Rightarrow> bool" where
  "scalar v = (case v of JText _ \<Rightarrow> False | JList _ \<Rightarrow> False | JDict _ \<Rightarrow> False | _ \<Rightarrow> True)"

definition token_char :: "char \<Rightarrow> bool" where
  "token_char c = (c \<notin> set '',]}[{'' \<and> c \<noteq> CHR 34)"

lemma token_digit: "is_digit c \<Longrightarrow> token_char c"
  by (auto simp: token_char_def is_digit_def)

lemma scalar_token:
  assumes "scalar v" "json_ok v"
  shows "json_raw v \<noteq> []" "\<forall>c \<in> set (json_raw v). token_char c"
proof -
  show "json_raw v \<noteq> []" using assms by (cases v) (auto simp: scalar_def dec_int_def real_text_def)
  have "\<forall>c \<in> set r. token_char c" if "real_text r" for r
  proof (cases "r \<in> {''NaN'', ''Infinity'', ''-Infinity''}")
    case True
    then show ?thesis by (elim insertE emptyE) (simp_all add: token_char_def)
  next
    case False
    moreover have "\<forall>c \<in> set ''.e+-''. token_char c" by (simp add: token_char_def)
    ultimately show ?thesis using that token_digit unfolding real_text_def by blast
  qed
  moreover have "\<forall>c \<in> set (dec_int i). token_char c" for i
    using dec_int_chars token_digit by (force simp: token_char_def)
  moreover have "\<forall>c \<in> set ''null'' \<union> set ''true'' \<union> set ''false''. token_char c" by (simp add: token_char_def)
  ultimately show "\<forall>c \<in> set (json_raw v). token_char c" using assms by (cases v) (auto simp only: scalar_def json.case json_raw.simps json_dump.simps json_ok.simps split: if_splits)
qed

lemma real_words [simp]: "\<not> real_text ''null''" "\<not> real_text ''true''" "\<not> real_text ''false''"
  by (simp_all add: real_text_def is_digit_def)

lemma real_not_int [simp]: "\<not> real_text (dec_int i)"
proof
  assume r: "real_text (dec_int i)"
  have no: "CHR ''.'' \<notin> set (dec_int i)" "CHR ''e'' \<notin> set (dec_int i)" "CHR ''N'' \<notin> set (dec_int i)" "CHR ''I'' \<notin> set (dec_int i)"
    using dec_int_chars [of "CHR ''.''" i] dec_int_chars [of "CHR ''e''" i] dec_int_chars [of "CHR ''N''" i] dec_int_chars [of "CHR ''I''" i]
    by (auto simp: is_digit_def)
  then have "dec_int i \<noteq> ''NaN''" "dec_int i \<noteq> ''Infinity''" "dec_int i \<noteq> ''-Infinity''" by fastforce+
  with r no(1,2) show False by (simp add: real_text_def)
qed

lemma int_not_word [simp]: "dec_int i \<noteq> ''null''" "dec_int i \<noteq> ''true''" "dec_int i \<noteq> ''false''"
proof -
  have no: "CHR ''l'' \<notin> set (dec_int i)" "CHR ''e'' \<notin> set (dec_int i)"
    using dec_int_chars [of "CHR ''l''" i] dec_int_chars [of "CHR ''e''" i] by (auto simp: is_digit_def)
  then show "dec_int i \<noteq> ''null''" "dec_int i \<noteq> ''true''" "dec_int i \<noteq> ''false''" by fastforce+
qed

lemmas int_not_word' [simp] = int_not_word [symmetric]

lemma scalar_inj:
  assumes "scalar v" "scalar w" "json_ok v" "json_ok w" "json_raw v = json_raw w"
  shows "v = w"
proof (cases v)
  case JNull
  then show ?thesis using assms by (cases w) (auto simp: scalar_def split: if_splits)
next
  case (JBool b)
  then show ?thesis using assms by (cases w) (auto simp: scalar_def split: if_splits)
next
  case (JInt i)
  then show ?thesis using assms dec_int_inj by (cases w) (auto simp: scalar_def split: if_splits)
next
  case (JReal r)
  then show ?thesis using assms by (cases w) (auto simp: scalar_def split: if_splits)
qed (use assms(1) in \<open>simp_all add: scalar_def\<close>)

lemma scalar_reads:
  assumes "scalar v" "scalar w" "json_ok v" "json_ok w" "delimited r" "delimited s" "json_raw v @ r = json_raw w @ s"
  shows "v = w \<and> r = s"
proof -
  have cut: "takeWhile token_char (json_raw u @ q) = json_raw u" if "scalar u" "json_ok u" "delimited q" for u q
  proof -
    have "takeWhile token_char q = []" using that(3) by (cases q) (auto simp: delimited_def token_char_def)
    then show ?thesis using scalar_token(2) [OF that(1,2)] by (subst takeWhile_append2) auto
  qed
  have "json_raw v = json_raw w" using cut [OF assms(1,3,5)] cut [OF assms(2,4,6)] assms(7) by simp
  then show ?thesis using scalar_inj [OF assms(1-4)] assms(7) by simp
qed

lemma raw_first:
  "json_raw (JText t) = CHR 34 # concat (map json_char t) @ [CHR 34]"
  "hd (json_raw (JList vs)) = CHR ''[''" "hd (json_raw (JDict kvs)) = CHR ''{''"
  "scalar v \<Longrightarrow> json_ok v \<Longrightarrow> json_raw v \<noteq> [] \<and> token_char (hd (json_raw v))"
  using scalar_token by (auto simp: json_text_def)

lemma raw_nonempty: "json_ok v \<Longrightarrow> json_raw v \<noteq> [] \<and> hd (json_raw v) \<notin> set '',]}''"
proof (cases "scalar v")
  case True
  assume "json_ok v"
  then show ?thesis using raw_first(4) [OF True] by (auto simp: token_char_def)
next
  case False
  then show ?thesis by (cases v) (auto simp: scalar_def json_text_def)
qed

lemma raw_same_kind:
  assumes "json_ok v" "json_ok w" "json_raw v @ r = json_raw w @ s"
  shows "scalar v = scalar w" "(\<exists>t. v = JText t) = (\<exists>t. w = JText t)" "(\<exists>vs. v = JList vs) = (\<exists>vs. w = JList vs)"
proof -
  have h: "hd (json_raw v) = hd (json_raw w)" using assms raw_nonempty by (metis hd_append2)
  have k: "scalar u = token_char (hd (json_raw u))" "(\<exists>t. u = JText t) = (hd (json_raw u) = CHR 34)"
    "(\<exists>vs. u = JList vs) = (hd (json_raw u) = CHR ''['')" if "json_ok u" for u
    using raw_first(4) [OF _ that] by (cases u; force simp: scalar_def json_text_def token_char_def)+
  show "scalar v = scalar w" "(\<exists>t. v = JText t) = (\<exists>t. w = JText t)" "(\<exists>vs. v = JList vs) = (\<exists>vs. w = JList vs)"
    using k [OF assms(1)] k [OF assms(2)] h by simp_all
qed

lemma scalar_reads_raw: "scalar v \<Longrightarrow> json_ok v \<Longrightarrow> reads json_raw json_ok v"
  unfolding reads_def using scalar_reads raw_same_kind(1) by blast

lemma insort_key_fst_map:
  "insort_key fst (fst p, f (snd p)) (map (\<lambda>p. (fst p, f (snd p))) ys) = map (\<lambda>p. (fst p, f (snd p))) (insort_key fst p ys)"
  by (induction ys) auto

lemma sort_key_fst_map: "sort_key fst (map (\<lambda>p. (fst p, f (snd p))) kvs) = map (\<lambda>p. (fst p, f (snd p))) (sort_key fst kvs)"
  by (induction kvs) (simp_all add: insort_key_fst_map del: insort_key.simps)

lemma snd_in_snds: "snd p \<in> Basic_BNFs.snds p"
  by (cases p) (auto intro: snds.intros)

lemma json_raw_reads: "json_ok v \<Longrightarrow> reads json_raw json_ok v"
proof (induction v)
  case (JText t)
  show ?case unfolding reads_def
  proof (intro allI impI)
    fix y r s assume y: "json_ok y" "json_raw (JText t) @ r = json_raw y @ s"
    then obtain u where u: "y = JText u" using raw_same_kind(2) [OF JText.prems y] by auto
    with y show "JText t = y \<and> r = s" using json_text_reads [of t u r s] JText.prems by simp
  qed
next
  case (JList vs)
  show ?case unfolding reads_def
  proof (intro allI impI)
    fix y r s assume y: "json_ok y" "json_raw (JList vs) @ r = json_raw y @ s"
    then obtain ws where ws: "y = JList ws" using raw_same_kind(3) [OF JList.prems y] by auto
    have "vs = ws \<and> r = s"
    proof (rule join_reads [of "CHR '']''"])
      show "py_join '','' (map json_raw vs) @ CHR '']'' # r = py_join '','' (map json_raw ws) @ CHR '']'' # s" using y(2) ws by simp
      show "\<forall>x \<in> set vs. reads json_raw json_ok x \<and> json_ok x" using JList by simp
      show "\<forall>y \<in> set ws. json_ok y" using y(1) ws by simp
    qed (use raw_nonempty in auto)
    with ws show "JList vs = y \<and> r = s" by simp
  qed
next
  case (JDict kvs)
  let ?enc = "\<lambda>p. json_text (fst p) @ '':'' @ json_raw (snd p)" and ?ok = "\<lambda>p. uni_ok (fst p) \<and> json_ok (snd p)"
  have each: "reads ?enc ?ok p" if "p \<in> set kvs" for p
    unfolding reads_def
  proof (intro allI impI)
    fix q r s assume q: "?ok q" "delimited r" "delimited s" "?enc p @ r = ?enc q @ s"
    have p: "uni_ok (fst p)" "json_ok (snd p)" using JDict.prems that by auto
    then have "reads json_raw json_ok (snd p)" using JDict.IH [OF that snd_in_snds] by blast
    note p = p(1) this
    have "fst p = fst q \<and> '':'' @ json_raw (snd p) @ r = '':'' @ json_raw (snd q) @ s"
      using json_text_reads [of "fst p" "fst q" "'':'' @ json_raw (snd p) @ r" "'':'' @ json_raw (snd q) @ s"] p(1) q(1,4) by simp
    then show "p = q \<and> r = s" using p(2) q(1-3) unfolding reads_def by (auto simp: prod_eq_iff)
  qed
  show ?case unfolding reads_def
  proof (intro allI impI)
    fix y r s assume y: "json_ok y" "json_raw (JDict kvs) @ r = json_raw y @ s"
    then obtain ws where ws: "y = JDict ws" using raw_same_kind [OF JDict.prems y] by (cases y) (auto simp: scalar_def)
    have "kvs = ws \<and> r = s"
    proof (rule join_reads [of "CHR ''}''"])
      show "py_join '','' (map ?enc kvs) @ CHR ''}'' # r = py_join '','' (map ?enc ws) @ CHR ''}'' # s" using y(2) ws by simp
      show "\<forall>x \<in> set kvs. reads ?enc ?ok x \<and> ?ok x" using JDict.prems each by simp
      show "\<forall>y \<in> set ws. ?ok y" using y(1) ws by simp
    qed (auto simp: json_text_def)
    with ws show "JDict kvs = y \<and> r = s" by simp
  qed
qed (rule scalar_reads_raw, simp add: scalar_def, assumption)+

lemma json_dump_raw: "json_dump v = json_raw (normal_json v)"
proof (induction v)
  case (JList vs)
  then have "map json_dump vs = map (\<lambda>v. json_raw (normal_json v)) vs" by simp
  then show ?case unfolding json_dump.simps normal_json.simps json_raw.simps map_map comp_def by (simp only:)
next
  case (JDict kvs)
  have "map (\<lambda>(k, v). (k, json_dump v)) kvs = map (\<lambda>p. (fst p, json_raw (normal_json (snd p)))) kvs"
    using JDict.IH [OF _ snd_in_snds] by (auto simp: case_prod_beta)
  then have eq: "sort_key fst (map (\<lambda>(k, v). (k, json_dump v)) kvs) =
      map (\<lambda>p. (fst p, json_raw (snd p))) (sort_key fst (map (\<lambda>p. (fst p, normal_json (snd p))) kvs))"
    by (simp only: sort_key_fst_map [of "\<lambda>v. json_raw (normal_json v)"] sort_key_fst_map [of normal_json] map_map comp_def fst_conv snd_conv)
  show ?case unfolding json_dump.simps eq by (simp add: comp_def)
qed simp_all

lemma normal_json_ok: "json_ok v \<Longrightarrow> json_ok (normal_json v)"
proof (induction v)
  case (JDict kvs)
  have "distinct (map fst (sort_key fst (map (\<lambda>p. (fst p, normal_json (snd p))) kvs)))"
    using JDict.prems unfolding sort_key_fst_map by (simp add: comp_def distinct_map)
  with JDict show ?case by (force intro: snds.intros)
qed auto

lemma canonical_evidence_determines:
  assumes "json_ok (JDict e)" "json_ok (JDict e')" "canonical_evidence e = canonical_evidence e'"
  shows "same_evidence e e'"
proof -
  let ?v = "normal_json (JDict e)" and ?w = "normal_json (JDict e')"
  have "json_raw ?v @ [] = json_raw ?w @ []" using assms(3) by (simp only: canonical_evidence_def json_dump_raw append_Nil2)
  moreover have "reads json_raw json_ok ?v" "json_ok ?w" using assms(1,2) normal_json_ok json_raw_reads by blast+
  ultimately show ?thesis unfolding same_evidence_def reads_def delimited_def by blast
qed

section \<open>Verifying a package\<close>

definition accepted :: "source_result \<Rightarrow> bool" where
  "accepted r = (sr_status r \<noteq> BlockedMissingSecret)"

lemma accepted_blocked [simp]: "\<not> accepted (blocked_result b)"
  by (simp add: accepted_def blocked_result_def)

definition hash_matches :: "(string \<Rightarrow> string) \<Rightarrow> uksc_check \<Rightarrow> bool" where
  "hash_matches sha c = (ck_hash c = Some (compute_evidence_hash sha (ck_evidence c)))"

lemma verify_accepted:
  assumes "st \<noteq> BlockedMissingSecret"
  shows "accepted (verify_package sha f st og p) =
    (package_ok p \<and> (\<forall>c \<in> set (pk_checks p). ck_source c = Powershell \<longrightarrow> \<not> blank_text (ck_hash c) \<and> hash_matches sha c) \<and>
     package_integrity sha p \<noteq> Mismatch)"
proof -
  have missing: "missing_hashes p = [] \<longleftrightarrow> (\<forall>c \<in> set (pk_checks p). ck_source c = Powershell \<longrightarrow> \<not> blank_text (ck_hash c))"
    by (auto simp: missing_hashes_def filter_empty_conv)
  show ?thesis
  proof (cases "List.find (mismatched sha) (pk_checks p)")
    case None
    then have "\<forall>c \<in> set (pk_checks p). \<not> mismatched sha c" by (auto simp: find_None_iff)
    then show ?thesis using None assms missing
      by (auto simp: verify_package_def Let_def accepted_def blocked_result_def mismatched_def hash_matches_def)
  next
    case (Some c)
    then have "c \<in> set (pk_checks p)" "mismatched sha c" by (auto simp: find_Some_iff)
    then show ?thesis using Some by (auto simp: verify_package_def mismatched_def hash_matches_def)
  qed
qed

lemma verify_records:
  "accepted (verify_package sha f st og p) \<Longrightarrow>
   sr_records (verify_package sha f st og p) = pk_checks p \<and> sr_status (verify_package sha f st og p) = st"
  by (auto simp: verify_package_def Let_def split: if_splits option.splits)

lemma load_accepted:
  "accepted (load_package sha dec fs f st og) \<Longrightarrow>
   \<exists>content p. fs f = Some content \<and> length content \<le> MAX_PACKAGE_BYTES \<and> dec content = Package p \<and>
     load_package sha dec fs f st og = verify_package sha f st og p"
  by (auto simp: load_package_def split: option.splits if_splits decoded.splits)

lemma verify_meta:
  "accepted (verify_package sha f st og p) \<Longrightarrow>
   \<exists>m. sr_meta (verify_package sha f st og p) = Some m \<and> rm_integrity m = package_integrity sha p"
  by (auto simp: verify_package_def Let_def meta_of_def split: if_splits option.splits)

text \<open>The package's own hash can be checked when every control has one.\<close>

definition all_hashed :: "uksc_package \<Rightarrow> bool" where
  "all_hashed p = (pk_checks p \<noteq> [] \<and> (\<forall>c \<in> set (pk_checks p). \<not> blank_text (ck_hash c)))"

lemma package_integrity_cases:
  "package_integrity sha p =
     (if \<not> all_hashed p then Unverifiable
      else if compute_package_hash sha (map (\<lambda>c. the (ck_hash c)) (pk_checks p)) = pk_sha256 p then Intact else Mismatch)"
proof (cases "\<forall>c \<in> set (pk_checks p). \<not> blank_text (ck_hash c)")
  case True
  then have "package_hashes p = map (\<lambda>c. the (ck_hash c)) (pk_checks p)" by (simp add: package_hashes_def)
  with True show ?thesis by (auto simp: package_integrity_def all_hashed_def Let_def)
next
  case False
  then have "length (package_hashes p) < length (pk_checks p)" by (auto simp: package_hashes_def intro: length_filter_less)
  with False show ?thesis by (auto simp: package_integrity_def all_hashed_def Let_def)
qed

text \<open>C31. A package the source accepts is at most five megabytes, inside the uploads directory (or the fixture, as mock data), of
  the supported version, and every control of the collector carries the hash of its own evidence. Where every control carries a
  hash, of whatever source, the package's hash is that of them all and the result says it is intact; where one has none, or there
  is none at all, the package's hash is not checked and the result says it cannot be verified.\<close>

theorem accepted_package_is_verified:
  assumes "fetch_package sha dec d fs fixture uploads_root mock src = Inr r" and "accepted r"
  shows "\<exists>f content p m. fs f = Some content \<and> length content \<le> MAX_PACKAGE_BYTES \<and> dec content = Package p \<and>
    sr_records r = pk_checks p \<and> sr_meta r = Some m \<and> pk_schema_version p = UKSC_SCHEMA_VERSION \<and>
    (if mock \<or> blank_text src then f = fixture \<and> sr_status r = MockData else prefix uploads_root f \<and> sr_status r = LiveData) \<and>
    (\<forall>c \<in> set (pk_checks p). ck_source c = Powershell \<longrightarrow> ck_hash c = Some (compute_evidence_hash sha (ck_evidence c))) \<and>
    (if pk_checks p \<noteq> [] \<and> (\<forall>c \<in> set (pk_checks p). \<not> blank_text (ck_hash c))
     then pk_sha256 p = compute_package_hash sha (map (\<lambda>c. the (ck_hash c)) (pk_checks p)) \<and> rm_integrity m = Intact
     else rm_integrity m = Unverifiable)"
proof -
  define live where "live = (\<not> (mock \<or> blank_text src))"
  obtain f st og where r: "r = load_package sha dec fs f st og" and
    f: "if live then prefix uploads_root f \<and> st = LiveData else f = fixture \<and> st = MockData"
    using assms by (auto simp: fetch_package_def live_def split: if_splits option.splits)
  have st: "st \<noteq> BlockedMissingSecret" using f by (auto split: if_splits)
  obtain content p where p: "fs f = Some content" "length content \<le> MAX_PACKAGE_BYTES" "dec content = Package p"
    "r = verify_package sha f st og p"
    using load_accepted assms(2) unfolding r by metis
  have v: "package_ok p" "\<forall>c \<in> set (pk_checks p). ck_source c = Powershell \<longrightarrow> \<not> blank_text (ck_hash c) \<and> hash_matches sha c"
    "package_integrity sha p \<noteq> Mismatch"
    using assms(2) unfolding p(4) verify_accepted [OF st] by auto
  have recs: "sr_records r = pk_checks p" "sr_status r = st" using verify_records assms(2) unfolding p(4) by auto
  obtain m where m: "sr_meta r = Some m" "rm_integrity m = package_integrity sha p" using verify_meta assms(2) unfolding p(4) by blast
  have whole: "if all_hashed p then pk_sha256 p = compute_package_hash sha (map (\<lambda>c. the (ck_hash c)) (pk_checks p)) \<and> rm_integrity m = Intact
     else rm_integrity m = Unverifiable"
    using v(3) unfolding m(2) package_integrity_cases by (simp split: if_splits)
  have "pk_schema_version p = UKSC_SCHEMA_VERSION" using v(1) by (simp add: package_ok_def)
  moreover have "\<forall>c \<in> set (pk_checks p). ck_source c = Powershell \<longrightarrow> ck_hash c = Some (compute_evidence_hash sha (ck_evidence c))"
    using v(2) by (auto simp: hash_matches_def)
  moreover have "if mock \<or> blank_text src then f = fixture \<and> sr_status r = MockData else prefix uploads_root f \<and> sr_status r = LiveData"
    using f recs(2) by (auto simp: live_def split: if_splits)
  ultimately show ?thesis using p(1-3) recs(1) m(1) whole unfolding all_hashed_def by blast
qed

text \<open>C32. Evidence that was edited after its collection is found: the package is blocked and names the control, unless the edit
  changes nothing but the order of keys or SHA-256 has a collision at the two texts.\<close>

theorem edited_evidence_is_blocked:
  assumes "accepted (verify_package sha f st og p)" and "i < length (pk_checks p)" and "ck_source (pk_checks p ! i) = Powershell"
    and ok: "json_ok (JDict (ck_evidence (pk_checks p ! i)))" "json_ok (JDict e)"
    and edit: "\<not> same_evidence e (ck_evidence (pk_checks p ! i))"
    and no_collision: "sha (canonical_evidence e) = sha (canonical_evidence (ck_evidence (pk_checks p ! i))) \<Longrightarrow>
      canonical_evidence e = canonical_evidence (ck_evidence (pk_checks p ! i))"
  shows "verify_package sha f st og (p\<lparr>pk_checks := (pk_checks p)[i := (pk_checks p ! i)\<lparr>ck_evidence := e\<rparr>]\<rparr>) =
    blocked_result (HashMismatch (ck_control_id (pk_checks p ! i)))"
proof -
  let ?c = "pk_checks p ! i" and ?cs = "(pk_checks p)[i := (pk_checks p ! i)\<lparr>ck_evidence := e\<rparr>]"
  have st: "st \<noteq> BlockedMissingSecret" using verify_records [OF assms(1)] assms(1) by (auto simp: accepted_def)
  have v: "package_ok p" "\<And>c. c \<in> set (pk_checks p) \<Longrightarrow> ck_source c = Powershell \<Longrightarrow> \<not> blank_text (ck_hash c) \<and> hash_matches sha c"
    using assms(1) unfolding verify_accepted [OF st] by auto
  have mem: "?c \<in> set (pk_checks p)" using assms(2) by simp
  have "check_ok ?c" using v(1) mem by (auto simp: package_ok_def list_all_iff)
  then have "package_ok (p\<lparr>pk_checks := ?cs\<rparr>)"
    using v(1) by (auto simp: package_ok_def list_all_iff check_ok_def dest!: set_update_subset_insert [THEN subsetD])
  moreover have "missing_hashes (p\<lparr>pk_checks := ?cs\<rparr>) = []"
    using v(2) mem by (auto simp: missing_hashes_def filter_empty_conv dest!: set_update_subset_insert [THEN subsetD])
  moreover have "List.find (mismatched sha) ?cs = Some (?c\<lparr>ck_evidence := e\<rparr>)"
    unfolding find_Some_iff
  proof (intro exI conjI allI impI)
    show "i < length ?cs" "?c\<lparr>ck_evidence := e\<rparr> = ?cs ! i" using assms(2) by simp_all
    have "sha (canonical_evidence e) \<noteq> sha (canonical_evidence (ck_evidence ?c))"
      using no_collision canonical_evidence_determines [OF ok(2,1)] edit by blast
    then show "mismatched sha (?cs ! i)"
      using v(2) [OF mem assms(3)] assms(2,3) by (auto simp: mismatched_def hash_matches_def compute_evidence_hash_def)
    fix j assume "j < i"
    then have "?cs ! j = pk_checks p ! j" "pk_checks p ! j \<in> set (pk_checks p)" using assms(2) by simp_all
    then show "\<not> mismatched sha (?cs ! j)" using v(2) by (auto simp: mismatched_def hash_matches_def)
  qed
  ultimately show ?thesis by (simp add: verify_package_def)
qed

lemma concat_blocks: "\<forall>x \<in> set xs \<union> set ys. length x = n \<Longrightarrow> 0 < n \<Longrightarrow> concat xs = concat ys \<Longrightarrow> xs = ys"
proof -
  assume n: "\<forall>x \<in> set xs \<union> set ys. length x = n" "0 < n" and eq: "concat xs = concat ys"
  have len: "length (concat zs) = n * length zs" if "\<forall>x \<in> set zs. length x = n" for zs :: "'a list list"
    using that by (induction zs) auto
  have "length xs = length ys" using len [of xs] len [of ys] n eq by auto
  moreover have "\<forall>(x, y) \<in> set (zip xs ys). length x = length y"
  proof (intro ballI, clarify)
    fix a b assume "(a, b) \<in> set (zip xs ys)"
    then have "a \<in> set xs" "b \<in> set ys" by (rule set_zip_leftD, rule set_zip_rightD)
    then show "length a = length b" using n(1) by simp
  qed
  ultimately show ?thesis using concat_injective eq by blast
qed

lemma lower_sha256: "sha256_text h \<Longrightarrow> py_lower h = h"
  by (auto simp: sha256_text_def py_lower_def lower_char_def is_lower_hex_def is_upper_alpha_def is_digit_def list_all_iff Let_def intro!: map_idI)

definition hashed_texts :: "(string \<Rightarrow> string) \<Rightarrow> uksc_package \<Rightarrow> string set" where
  "hashed_texts sha p =
     insert (concat (sort (map (\<lambda>c. compute_evidence_hash sha (ck_evidence c)) (pk_checks p))))
       ((\<lambda>c. canonical_evidence (ck_evidence c)) ` set (pk_checks p))"

definition collector_package :: "uksc_package \<Rightarrow> bool" where
  "collector_package p = (pk_checks p \<noteq> [] \<and> (\<forall>c \<in> set (pk_checks p). ck_source c = Powershell \<and> json_ok (JDict (ck_evidence c))))"

lemma collector_hashes:
  assumes "accepted (verify_package sha f st og p)" "collector_package p"
  shows "pk_sha256 p = sha (concat (sort (map (\<lambda>c. compute_evidence_hash sha (ck_evidence c)) (pk_checks p))))"
    "\<forall>c \<in> set (pk_checks p). sha256_text (compute_evidence_hash sha (ck_evidence c))"
proof -
  have st: "st \<noteq> BlockedMissingSecret" using verify_records [OF assms(1)] assms(1) by (auto simp: accepted_def)
  have v: "package_ok p" "\<forall>c \<in> set (pk_checks p). \<not> blank_text (ck_hash c) \<and> ck_hash c = Some (compute_evidence_hash sha (ck_evidence c))"
    "package_integrity sha p \<noteq> Mismatch"
    using assms unfolding verify_accepted [OF st] collector_package_def hash_matches_def by auto
  have hs: "package_hashes p = map (\<lambda>c. compute_evidence_hash sha (ck_evidence c)) (pk_checks p)"
    using v(2) by (auto simp: package_hashes_def intro!: map_cong filter_True)
  show good: "\<forall>c \<in> set (pk_checks p). sha256_text (compute_evidence_hash sha (ck_evidence c))"
    using v(1,2) by (force simp: package_ok_def list_all_iff check_ok_def)
  have "map py_lower (package_hashes p) = package_hashes p" using good lower_sha256 by (auto simp: hs intro!: map_idI)
  then have "compute_package_hash sha (package_hashes p) = sha (concat (sort (package_hashes p)))"
    by (simp only: compute_package_hash_def)
  moreover have "package_hashes p \<noteq> []" "length (package_hashes p) = length (pk_checks p)"
    using assms(2) by (auto simp: hs collector_package_def)
  ultimately show "pk_sha256 p = sha (concat (sort (map (\<lambda>c. compute_evidence_hash sha (ck_evidence c)) (pk_checks p))))"
    using v(3) by (auto simp: package_integrity_def Let_def hs split: if_splits)
qed

lemma raw_inj: "json_ok v \<Longrightarrow> json_ok w \<Longrightarrow> json_raw v = json_raw w \<Longrightarrow> v = w"
  using json_raw_reads [of v] unfolding reads_def delimited_def by (metis append_Nil2)

text \<open>C33. The hash of a package stands for its evidence: two packages of the collector that are accepted with the same package hash
  hold the same evidence, in some order, so no control can be added, removed or exchanged for one with other evidence (as far as
  SHA-256 has no collision at the texts hashed).\<close>

theorem same_package_hash_same_evidence:
  assumes "accepted (verify_package sha f st og p)" "accepted (verify_package sha f' st' og' q)"
    and "collector_package p" "collector_package q" and "pk_sha256 p = pk_sha256 q"
    and inj: "inj_on sha (hashed_texts sha p \<union> hashed_texts sha q)"
  shows "mset (map (\<lambda>c. normal_json (JDict (ck_evidence c))) (pk_checks p)) =
    mset (map (\<lambda>c. normal_json (JDict (ck_evidence c))) (pk_checks q))"
proof -
  let ?h = "\<lambda>c. compute_evidence_hash sha (ck_evidence c)" and ?t = "\<lambda>c. canonical_evidence (ck_evidence c)"
    and ?n = "\<lambda>c. normal_json (JDict (ck_evidence c))"
  note hp = collector_hashes [OF assms(1,3)] and hq = collector_hashes [OF assms(2,4)]
  have "sha (concat (sort (map ?h (pk_checks p)))) = sha (concat (sort (map ?h (pk_checks q))))"
    using hp(1) hq(1) assms(5) by (simp only:)
  then have "concat (sort (map ?h (pk_checks p))) = concat (sort (map ?h (pk_checks q)))"
    by (rule inj_onD [OF inj]) (simp_all add: hashed_texts_def)
  moreover have "\<forall>x \<in> set (sort (map ?h (pk_checks p))) \<union> set (sort (map ?h (pk_checks q))). length x = 64"
    using hp(2) hq(2) by (auto simp: sha256_text_def)
  ultimately have "sort (map ?h (pk_checks p)) = sort (map ?h (pk_checks q))" by (intro concat_blocks [of _ _ 64]) auto
  then have "mset (map ?h (pk_checks p)) = mset (map ?h (pk_checks q))" by (metis mset_sort)
  then have "image_mset sha (mset (map ?t (pk_checks p))) = image_mset sha (mset (map ?t (pk_checks q)))"
    by (simp add: compute_evidence_hash_def comp_def multiset.map_comp)
  then have eq: "image_mset sha (mset (map ?t (pk_checks p))) = image_mset sha (mset (map ?t (pk_checks q)))" .
  have "mset (map ?t (pk_checks p)) = mset (map ?t (pk_checks q))"
    by (rule multiset.inj_map_strong [OF _ eq], erule inj_onD [OF inj]) (auto simp: hashed_texts_def)
  then have "image_mset json_raw (mset (map ?n (pk_checks p))) = image_mset json_raw (mset (map ?n (pk_checks q)))"
    by (simp add: canonical_evidence_def json_dump_raw comp_def multiset.map_comp del: normal_json.simps json_raw.simps)
  then have eq: "image_mset json_raw (mset (map ?n (pk_checks p))) = image_mset json_raw (mset (map ?n (pk_checks q)))" .
  have ok: "json_ok v" if "v \<in># mset (map ?n (pk_checks p)) \<or> v \<in># mset (map ?n (pk_checks q))" for v
    using that assms(3,4) normal_json_ok unfolding collector_package_def by (force simp del: normal_json.simps)
  show ?thesis by (rule multiset.inj_map_strong [OF _ eq]) (blast intro: raw_inj ok)
qed

text \<open>The hashes cover the evidence only: whoever changes statuses, titles, references or identifiers keeps the package acceptable.\<close>

lemma hashes_cover_evidence_only:
  assumes "accepted (verify_package sha f st og p)"
    and same: "\<And>c. c \<in> set (pk_checks p) \<Longrightarrow> ck_evidence (g c) = ck_evidence c \<and> ck_hash (g c) = ck_hash c \<and> ck_source (g c) = ck_source c \<and>
      control_id_ok (ck_control_id (g c))"
  shows "accepted (verify_package sha f st og (p\<lparr>pk_checks := map g (pk_checks p)\<rparr>))"
proof -
  have st: "st \<noteq> BlockedMissingSecret" using verify_records [OF assms(1)] assms(1) by (auto simp: accepted_def)
  let ?q = "p\<lparr>pk_checks := map g (pk_checks p)\<rparr>"
  have "package_hashes ?q = package_hashes p" using same by (auto simp: package_hashes_def filter_map comp_def intro!: map_cong filter_cong)
  then have "package_integrity sha ?q = package_integrity sha p" by (simp add: package_integrity_def Let_def)
  moreover have "package_ok ?q = package_ok p" if "package_ok p" using that same by (auto simp: package_ok_def check_ok_def list_all_iff)
  ultimately show ?thesis using assms(1) same unfolding verify_accepted [OF st] hash_matches_def by auto
qed

section \<open>Metrics\<close>

text \<open>An article's row as its controls say: the counts by status, and the verdict.\<close>

definition article_is :: "uksc_check list \<Rightarrow> article \<Rightarrow> bool" where
  "article_is records row =
     (let mine = filter (\<lambda>c. article_ref c = ar_ref row) records in
      ar_controls row = length mine \<and> ar_pass row = status_count Pass mine \<and> ar_fail row = status_count Fail mine \<and>
      ar_warn row = status_count Warn mine \<and> ar_manual row = status_count Manual mine \<and>
      ar_not_collected row = status_count NaNoAdmin mine + status_count CollectError mine \<and>
      (ar_verdict row = VFail) = (Fail \<in> ck_status ` set mine) \<and>
      (ar_verdict row = VWarn) = (Warn \<in> ck_status ` set mine \<and> Fail \<notin> ck_status ` set mine) \<and>
      (ar_verdict row = VPass) = (Pass \<in> ck_status ` set mine \<and> Warn \<notin> ck_status ` set mine \<and> Fail \<notin> ck_status ` set mine) \<and>
      ar_documented row = (ar_verdict row \<noteq> VManual))"

lemma ar_ref_count [simp]: "ar_ref (count_check c r) = ar_ref r" "ar_ref (judge r) = ar_ref r"
  by (auto simp: count_check_def judge_def Let_def split: check_status.splits)

lemma status_count_simps [simp]:
  "status_count s [] = 0" "status_count s (c # cs) = (if ck_status c = s then 1 else 0) + status_count s cs"
  by (simp_all add: status_count_def)

lemma status_count_pos: "0 < status_count s cs \<longleftrightarrow> s \<in> ck_status ` set cs"
  by (induction cs) auto

lemma fold_count_check:
  "ar_ref (fold count_check cs r) = ar_ref r" "ar_controls (fold count_check cs r) = ar_controls r + length cs"
  "ar_pass (fold count_check cs r) = ar_pass r + status_count Pass cs" "ar_fail (fold count_check cs r) = ar_fail r + status_count Fail cs"
  "ar_warn (fold count_check cs r) = ar_warn r + status_count Warn cs" "ar_manual (fold count_check cs r) = ar_manual r + status_count Manual cs"
  "ar_not_collected (fold count_check cs r) = ar_not_collected r + status_count NaNoAdmin cs + status_count CollectError cs"
  by (induction cs arbitrary: r) (auto simp: count_check_def Let_def split: check_status.splits)

definition article_row :: "uksc_check list \<Rightarrow> utext \<Rightarrow> article" where
  "article_row records ref = fold count_check (filter (\<lambda>c. article_ref c = ref) records) (new_article ref)"

lemma ar_ref_row [simp]: "ar_ref (article_row records ref) = ref"
  by (simp add: article_row_def fold_count_check new_article_def)

lemma fold_add_check:
  "\<exists>refs. fold add_check records [] = map (article_row records) refs \<and> distinct refs \<and> set refs = article_ref ` set records"
proof (induction records rule: rev_induct)
  case (snoc c cs)
  then obtain refs where refs: "fold add_check cs [] = map (article_row cs) refs" "distinct refs" "set refs = article_ref ` set cs"
    by blast
  have step: "(if ar_ref (article_row cs r) = article_ref c then count_check c (article_row cs r) else article_row cs r) = article_row (cs @ [c]) r"
    for r by (simp add: article_row_def fold_count_check new_article_def)
  have new: "new_article r = article_row cs r" if "r \<notin> set refs" for r
  proof -
    have "filter (\<lambda>c. article_ref c = r) cs = []" using refs(3) that by (auto simp: filter_empty_conv)
    then show ?thesis by (simp add: article_row_def)
  qed
  define refs' where "refs' = (if article_ref c \<in> set refs then refs else refs @ [article_ref c])"
  have known: "(\<exists>r \<in> set (map (article_row cs) refs). ar_ref r = article_ref c) = (article_ref c \<in> set refs)" by force
  have "fold add_check (cs @ [c]) [] = add_check c (map (article_row cs) refs)" using refs(1) by simp
  also have "\<dots> = map (article_row (cs @ [c])) refs'"
    unfolding add_check_def Let_def known refs'_def using step step [of "article_ref c"] new [of "article_ref c"] by auto
  finally have "fold add_check (cs @ [c]) [] = map (article_row (cs @ [c])) refs'" .
  moreover have "distinct refs'" "set refs' = article_ref ` set (cs @ [c])" using refs(2,3) by (auto simp: refs'_def)
  ultimately show ?case by blast
qed simp

lemma judged_row: "article_is records (judge (article_row records ref))"
proof -
  define mine where "mine = filter (\<lambda>c. article_ref c = ref) records"
  have "article_row records ref = fold count_check mine (new_article ref)" by (simp add: article_row_def mine_def)
  then show ?thesis
    unfolding article_is_def Let_def ar_ref_count ar_ref_row mine_def [symmetric] status_count_pos [symmetric]
    by (auto simp: judge_def Let_def fold_count_check new_article_def)
qed

lemma status_counts_total:
  "status_count Pass cs + status_count Fail cs + status_count Warn cs + status_count Manual cs + status_count NaNoAdmin cs +
   status_count CollectError cs = length cs"
proof (induction cs)
  case (Cons c cs) then show ?case by (cases "ck_status c") auto
qed simp

lemma percent1_bounds: "a \<le> b \<Longrightarrow> 0 \<le> percent1 a b \<and> percent1 a b \<le> 100"
proof -
  assume ab: "a \<le> b"
  have "0 \<le> round_even y \<and> round_even y \<le> 1000" if "0 \<le> y" "y \<le> 1000" for y
  proof -
    have "0 \<le> \<lfloor>y\<rfloor>" "\<lfloor>y\<rfloor> \<le> 1000" using that by (simp_all add: floor_le_iff)
    moreover have "y - of_int \<lfloor>y\<rfloor> = 0" if "\<lfloor>y\<rfloor> = 1000" using that \<open>y \<le> 1000\<close> of_int_floor_le [of y] by simp
    moreover have "y < 1000" if "\<lfloor>y\<rfloor> \<noteq> 1000" using that \<open>y \<le> 1000\<close> by (cases "y = 1000") auto
    ultimately show ?thesis by (cases "\<lfloor>y\<rfloor> = 1000") (auto simp: round_even_def Let_def)
  qed
  moreover have "0 \<le> 100 * rat_of_nat a / rat_of_nat b * 10" "100 * rat_of_nat a / rat_of_nat b * 10 \<le> 1000" if "b \<noteq> 0"
    using ab that by (simp_all add: divide_le_eq)
  ultimately show ?thesis by (auto simp: percent1_def round1_def)
qed

text \<open>C34. The report accounts for every control: each legal reference has one row, whose counts and verdict are those of its controls
  (an article passes only if a control passed and none failed or warned), the statuses add up to the number of controls, and the
  controls to repair and to attest are exactly those not passed; the percentages lie between 0 and 100.\<close>

theorem report_accounts_for_every_control:
  "distinct (map ar_ref (um_by_article (transform_uksc records host t prev))) \<and>
   ar_ref ` set (um_by_article (transform_uksc records host t prev)) = article_ref ` set records \<and>
   list_all (article_is records) (um_by_article (transform_uksc records host t prev)) \<and>
   um_passed (transform_uksc records host t prev) + um_failed (transform_uksc records host t prev) +
     um_warned (transform_uksc records host t prev) + um_manual (transform_uksc records host t prev) +
     um_na_no_admin (transform_uksc records host t prev) + um_errors (transform_uksc records host t prev) = length records \<and>
   set (um_failed_controls (transform_uksc records host t prev)) \<union> set (um_manual_controls (transform_uksc records host t prev)) =
     brief ` {c \<in> set records. ck_status c \<noteq> Pass} \<and>
   0 \<le> um_coverage_pct (transform_uksc records host t prev) \<and> um_coverage_pct (transform_uksc records host t prev) \<le> 100 \<and>
   0 \<le> um_pass_pct (transform_uksc records host t prev) \<and> um_pass_pct (transform_uksc records host t prev) \<le> 100"
proof -
  obtain refs where refs: "fold add_check records [] = map (article_row records) refs" "distinct refs" "set refs = article_ref ` set records"
    using fold_add_check by blast
  have rows: "um_by_article (transform_uksc records host t prev) = map (\<lambda>r. judge (article_row records r)) refs"
    by (simp add: transform_uksc_def Let_def by_article_def refs(1))
  have "map ar_ref (map (\<lambda>r. judge (article_row records r)) refs) = refs" by (simp add: comp_def)
  then have "distinct (map ar_ref (um_by_article (transform_uksc records host t prev)))"
    "ar_ref ` set (um_by_article (transform_uksc records host t prev)) = article_ref ` set records"
    unfolding rows using refs(2,3) by (simp_all flip: set_map)
  moreover have "list_all (article_is records) (um_by_article (transform_uksc records host t prev))"
    unfolding rows by (simp add: list_all_iff judged_row)
  moreover have "ck_status c \<noteq> Pass \<longleftrightarrow> ck_status c \<in> {Fail, Warn} \<or> ck_status c \<in> {Manual, NaNoAdmin, CollectError}" for c :: uksc_check
    by (cases "ck_status c") auto
  then have "set (um_failed_controls (transform_uksc records host t prev)) \<union> set (um_manual_controls (transform_uksc records host t prev)) =
     brief ` {c \<in> set records. ck_status c \<noteq> Pass}"
    by (simp only: transform_uksc_def Let_def uksc_metrics.simps set_map set_filter image_Un [symmetric]) (intro arg_cong [of _ _ "image brief"], blast)
  moreover have "um_coverage_pct (transform_uksc records host t prev) =
      percent1 (status_count Pass records + status_count Fail records + status_count Warn records) (length records)"
    "um_pass_pct (transform_uksc records host t prev) =
      percent1 (status_count Pass records) (status_count Pass records + status_count Fail records + status_count Warn records)"
    by (simp_all add: transform_uksc_def Let_def)
  then have "0 \<le> um_coverage_pct (transform_uksc records host t prev) \<and> um_coverage_pct (transform_uksc records host t prev) \<le> 100"
    "0 \<le> um_pass_pct (transform_uksc records host t prev) \<and> um_pass_pct (transform_uksc records host t prev) \<le> 100"
    using percent1_bounds status_counts_total [of records] by simp_all
  moreover have "um_passed (transform_uksc records host t prev) + um_failed (transform_uksc records host t prev) +
     um_warned (transform_uksc records host t prev) + um_manual (transform_uksc records host t prev) +
     um_na_no_admin (transform_uksc records host t prev) + um_errors (transform_uksc records host t prev) = length records"
    using status_counts_total [of records] by (simp add: transform_uksc_def Let_def)
  ultimately show ?thesis by simp
qed

section \<open>A package followed through\<close>

definition demo_check :: "(utext \<times> json) list \<Rightarrow> uksc_check" where
  "demo_check e = \<lparr>ck_control_id = ''ENC-01'', ck_ref = [97], ck_title = [100], ck_status = Fail, ck_evidence = e,
     ck_source = Powershell, ck_collected_at = 0, ck_hash = Some (replicate 64 CHR ''a''), ck_threshold = None, ck_owner = None,
     ck_exception = None, ck_last_test = None, ck_reviewer = None, ck_reviewed_at = None\<rparr>"

definition demo_package :: "(utext \<times> json) list \<Rightarrow> uksc_package" where
  "demo_package e = \<lparr>pk_schema_version = ''1.0'', pk_collector_version = ''1'', pk_collected_at = 0,
     pk_host = \<lparr>hs_name = ''h'', hs_os = [], hs_build = [], hs_domain_joined = False, hs_is_admin_run = True\<rparr>,
     pk_checks = [demo_check e], pk_inventory = JDict [], pk_sha256 = replicate 64 CHR ''b''\<rparr>"

definition demo_evidence :: "(utext \<times> json) list" where "demo_evidence = [([97], JBool True), ([98], JNull)]"

text \<open>A digest with the hash of the evidence, that of the package, and another for every other text.\<close>

definition demo_canonical :: string where
  "demo_canonical = CHR 123 # CHR 34 # CHR ''a'' # CHR 34 # '':true,'' @ CHR 34 # CHR ''b'' # CHR 34 # '':null}''"

definition demo_sha :: "string \<Rightarrow> string" where
  "demo_sha s = (if s = demo_canonical then replicate 64 CHR ''a'' else if s = replicate 64 CHR ''a'' then replicate 64 CHR ''b''
     else replicate 64 CHR ''c'')"

lemma demo_chars: "char_of (97 :: nat) = CHR ''a''" "char_of (98 :: nat) = CHR ''b''"
  by code_simp+

lemma canonical_demo: "canonical_evidence demo_evidence = demo_canonical" "canonical_evidence (rev demo_evidence) = demo_canonical"
  by (simp_all add: demo_evidence_def canonical_evidence_def json_text_def json_char_def demo_chars demo_canonical_def)

lemma demo_hash: "compute_evidence_hash demo_sha e = replicate 64 CHR ''a''" if "canonical_evidence e = demo_canonical"
  using that by (simp add: compute_evidence_hash_def demo_sha_def)

lemma demo_package_hash: "demo_sha (replicate 64 CHR ''a'') = replicate 64 CHR ''b''"
proof -
  have "replicate 64 CHR ''a'' \<noteq> demo_canonical" by (simp add: demo_canonical_def eval_nat_numeral)
  then show ?thesis by (simp add: demo_sha_def)
qed

lemma demo_accepted:
  assumes "st \<noteq> BlockedMissingSecret" "canonical_evidence e = demo_canonical"
  shows "accepted (verify_package demo_sha f st og (demo_package e))"
proof -
  have a: "sha256_text (replicate 64 CHR ''a'')" "sha256_text (replicate 64 CHR ''b'')"
    by (simp_all add: sha256_text_def list_all_iff is_lower_hex_def)
  have "package_integrity demo_sha (demo_package e) = Intact"
    using lower_sha256 [OF a(1)] demo_package_hash
    by (simp add: package_integrity_def package_hashes_def compute_package_hash_def demo_package_def demo_check_def blank_text_def Let_def)
  moreover have "package_ok (demo_package e)"
    using a by (simp add: package_ok_def check_ok_def demo_package_def demo_check_def UKSC_SCHEMA_VERSION_def control_id_ok_def
        py_partition_def is_upper_alpha_def is_digit_def)
  moreover have "hash_matches demo_sha (demo_check e)" using demo_hash [OF assms(2)] by (simp add: hash_matches_def demo_check_def)
  moreover have "\<not> blank_text (ck_hash (demo_check e))" by (simp add: blank_text_def demo_check_def)
  ultimately show ?thesis unfolding verify_accepted [OF assms(1)] by (simp add: demo_package_def)
qed

definition demo_disk :: disk where
  "demo_disk = \<lparr>dk_resolve = (\<lambda>l. case l of Raw s \<Rightarrow> Some [''uploads'', s] | _ \<Rightarrow> None), dk_exists = (\<lambda>_. True), dk_stuck = (\<lambda>_. False)\<rparr>"

theorem accepted_package_is_verified_witness:
  "\<exists>r. fetch_package demo_sha (\<lambda>_. Package (demo_package demo_evidence)) demo_disk (\<lambda>_. Some ''file'') [''fixture''] [''uploads''] False
      (Some ''p.json'') = Inr r \<and> accepted r \<and> sr_records r = [demo_check demo_evidence] \<and> sr_status r = LiveData"
proof -
  let ?r = "verify_package demo_sha [''uploads'', ''p.json''] LiveData (CollectorPackage ''p.json'') (demo_package demo_evidence)"
  have r: "fetch_package demo_sha (\<lambda>_. Package (demo_package demo_evidence)) demo_disk (\<lambda>_. Some ''file'') [''fixture''] [''uploads''] False
      (Some ''p.json'') = Inr ?r"
    by (simp add: fetch_package_def load_package_def MAX_PACKAGE_BYTES_def demo_disk_def blank_text_def)
  have acc: "accepted ?r" by (simp add: demo_accepted canonical_demo)
  obtain p where "Package (demo_package demo_evidence) = Package p" "sr_records ?r = pk_checks p" "sr_status ?r = LiveData"
    using accepted_package_is_verified [OF r acc] by (auto simp: blank_text_def)
  then have "sr_records ?r = [demo_check demo_evidence]" "sr_status ?r = LiveData" by (auto simp: demo_package_def)
  with r acc show ?thesis by blast
qed

theorem edited_evidence_is_blocked_witness:
  "verify_package demo_sha [] LiveData NoSource (demo_package [([97], JBool False)]) = blocked_result (HashMismatch ''ENC-01'')"
proof -
  have c: "canonical_evidence [([97], JBool False)] = CHR 123 # CHR 34 # CHR ''a'' # CHR 34 # '':false}''"
    by (simp add: canonical_evidence_def json_text_def json_char_def demo_chars)
  have "verify_package demo_sha [] LiveData NoSource ((demo_package demo_evidence)
      \<lparr>pk_checks := (pk_checks (demo_package demo_evidence))[0 := (pk_checks (demo_package demo_evidence) ! 0)\<lparr>ck_evidence := [([97], JBool False)]\<rparr>]\<rparr>) =
      blocked_result (HashMismatch (ck_control_id (pk_checks (demo_package demo_evidence) ! 0)))"
  proof (rule edited_evidence_is_blocked)
    show "accepted (verify_package demo_sha [] LiveData NoSource (demo_package demo_evidence))" by (simp add: demo_accepted canonical_demo)
    show "\<not> same_evidence [([97], JBool False)] (ck_evidence (pk_checks (demo_package demo_evidence) ! 0))"
      by (simp add: same_evidence_def demo_package_def demo_check_def demo_evidence_def)
    assume "demo_sha (canonical_evidence [([97], JBool False)]) =
      demo_sha (canonical_evidence (ck_evidence (pk_checks (demo_package demo_evidence) ! 0)))"
    then show "canonical_evidence [([97], JBool False)] = canonical_evidence (ck_evidence (pk_checks (demo_package demo_evidence) ! 0))"
      by (simp add: c demo_package_def demo_check_def canonical_demo demo_sha_def demo_canonical_def eval_nat_numeral split: if_splits)
  qed (simp_all add: demo_package_def demo_check_def demo_evidence_def)
  then show ?thesis by (simp add: demo_package_def demo_check_def)
qed

theorem same_package_hash_same_evidence_witness:
  "mset (map (\<lambda>c. normal_json (JDict (ck_evidence c))) (pk_checks (demo_package demo_evidence))) =
   mset (map (\<lambda>c. normal_json (JDict (ck_evidence c))) (pk_checks (demo_package (rev demo_evidence))))"
proof (rule same_package_hash_same_evidence)
  let ?p = "demo_package demo_evidence" and ?q = "demo_package (rev demo_evidence)"
  show "accepted (verify_package demo_sha [] LiveData NoSource ?p)" "accepted (verify_package demo_sha [] LiveData NoSource ?q)"
    by (simp_all add: demo_accepted canonical_demo)
  show "collector_package ?p" "collector_package ?q" "pk_sha256 ?p = pk_sha256 ?q"
    by (simp_all add: collector_package_def demo_package_def demo_check_def demo_evidence_def)
  have "hashed_texts demo_sha (demo_package e) = {replicate 64 CHR ''a'', demo_canonical}" if "canonical_evidence e = demo_canonical" for e
    using demo_hash [OF that] that by (simp add: hashed_texts_def demo_package_def demo_check_def)
  then have "hashed_texts demo_sha ?p \<union> hashed_texts demo_sha ?q = {replicate 64 CHR ''a'', demo_canonical}"
    by (simp add: canonical_demo)
  moreover have "demo_sha demo_canonical = replicate 64 CHR ''a''" by (simp add: demo_sha_def)
  ultimately show "inj_on demo_sha (hashed_texts demo_sha ?p \<union> hashed_texts demo_sha ?q)"
    using demo_package_hash by (auto simp: inj_on_def eval_nat_numeral)
qed

end
