(* ===== verification/McpGateway.thy ===== *)
theory McpGateway
  imports Access OAuthSafety
begin

text \<open>
  The gate in front of the MCP transport (\<^verbatim>\<open>app/mcp_server/gateway.py\<close>): the limit of the address, authentication by key or by an
  OAuth token (a session cookie is not accepted), the limit of the principal, the method, the size of the body. The messages
  of the ASGI channel are a list; a list that ends where another message is awaited is a client still sending.
\<close>

section \<open>Requests and answers\<close>

datatype asgi = HttpRequest string bool | OtherMessage

record gate_request =
  gq_http :: http_request
  gq_authorization :: "string option"
  gq_content_length :: "string option"
  gq_messages :: "asgi list"

record gate_settings =
  gs_server :: server
  gs_ip_per_min :: int
  gs_mcp_per_min :: int
  gs_max_body :: nat
  gs_oauth_metadata :: "string option"

text \<open>The headers of an answer: \<open>Retry-After\<close>, \<open>WWW-Authenticate\<close>, \<open>Allow\<close>.\<close>

datatype gate_header = RetryAfter int | WwwAuthenticate string | AllowPost

datatype gate_out =
    Answer nat string "gate_header list"
  | Handled principal string bool
  | Sending
  | Raised exc

definition MCP_CHALLENGE :: string where "MCP_CHALLENGE = ''Bearer realm='' @ [CHR 34] @ ''daas-mcp'' @ [CHR 34]"

definition quoted :: "string \<Rightarrow> string" where "quoted s = CHR 34 # s @ [CHR 34]"

definition www_authenticate :: "gate_settings \<Rightarrow> string option \<Rightarrow> string" where
  "www_authenticate gs err =
     py_join '', ''
       ([MCP_CHALLENGE] @
        (case err of None \<Rightarrow> [] | Some e \<Rightarrow> if e = [] then [] else [''error='' @ quoted e]) @
        (case gs_oauth_metadata gs of None \<Rightarrow> [] | Some url \<Rightarrow> [''resource_metadata='' @ quoted url]))"

text \<open>The first of \<open>X-API-Key\<close> and \<open>Authorization: Bearer\<close>.\<close>

definition bearer_token :: "string \<Rightarrow> string option" where
  "bearer_token header =
     (let (scheme, token) = (case py_partition (CHR '' '') header of None \<Rightarrow> (header, []) | Some p \<Rightarrow> p) in
      if py_lower scheme = ''bearer'' \<and> py_strip token \<noteq> [] then Some (py_strip token) else None)"

definition presented_key :: "gate_request \<Rightarrow> string option" where
  "presented_key gq =
     (case rq_api_key (gq_http gq) of
        Some k \<Rightarrow> if py_strip k \<noteq> [] then Some (py_strip k)
                  else bearer_token (case gq_authorization gq of None \<Rightarrow> [] | Some a \<Rightarrow> a)
      | None \<Rightarrow> bearer_token (case gq_authorization gq of None \<Rightarrow> [] | Some a \<Rightarrow> a))"

section \<open>Authentication\<close>

definition oauth_to_principal :: "cdb \<Rightarrow> oauth_principal \<Rightarrow> principal" where
  "oauth_to_principal db op =
     \<lparr>pr_kind = OAuthPrincipal, pr_org = Some (op_org op), pr_scopes = op_scopes op, pr_user = get_user (op_user op) db,
      pr_key = None, pr_session = None\<rparr>"

text \<open>The answer to a failed attempt: 401 with the challenge, or 429 once the budget of failures is spent (its \<open>Retry-After\<close> is not
  kept by the model of \<open>unauthorized\<close>).\<close>

definition refuse :: "gate_settings \<Rightarrow> http_request \<Rightarrow> string option \<Rightarrow> exc \<Rightarrow> gate_out" where
  "refuse gs rq err e =
     (case e of
        Problem s c \<Rightarrow> if s = 401 then Answer 401 ''unauthorized'' [WwwAuthenticate (www_authenticate gs err)] else Answer s c []
      | _ \<Rightarrow> Raised e)"

definition fail_auth :: "gate_settings \<Rightarrow> http_request \<Rightarrow> string option \<Rightarrow> app \<Rightarrow> (gate_out + principal) \<times> app" where
  "fail_auth gs rq err st =
     (case unauthorized (gs_server gs) rq st of
        (Inl e, st') \<Rightarrow> (Inl (refuse gs rq err e), st')
      | (Inr p, st') \<Rightarrow> (Inr p, st'))"

definition authenticate_mcp ::
  "(string \<Rightarrow> string) \<Rightarrow> gate_settings \<Rightarrow> gate_request \<Rightarrow> app \<Rightarrow> (gate_out + principal) \<times> app" where
  "authenticate_mcp sha gs gq st =
     (let rq = gq_http gq in
      case presented_key gq of
        None \<Rightarrow> fail_auth gs rq None st
      | Some presented \<Rightarrow>
          if prefix ACCESS_PREFIX presented then
            (if gs_oauth_metadata gs = None then fail_auth gs rq None st
             else (case principal_for sha (rq_now rq) presented (ap_db st) of
                 (Inl e, db) \<Rightarrow> (Inl (Raised e), st\<lparr>ap_db := db\<rparr>)
               | (Inr None, db) \<Rightarrow> fail_auth gs rq (Some ''invalid_token'') (st\<lparr>ap_db := db\<rparr>)
               | (Inr (Some op), db) \<Rightarrow> (Inr (oauth_to_principal (ap_db st) op), st\<lparr>ap_db := db\<rparr>)))
          else (case authenticate_key sha (gs_server gs) rq presented st of
              (Inl e, st') \<Rightarrow> (Inl (refuse gs rq None e), st')
            | (Inr p, st') \<Rightarrow> (Inr p, st')))"

section \<open>The body\<close>

text \<open>\<open>str.isdigit\<close> also takes the superscripts of Latin-1, which \<open>int\<close> rejects.\<close>

definition py_isdigit :: "string \<Rightarrow> bool" where
  "py_isdigit s = (s \<noteq> [] \<and> list_all (\<lambda>c. is_digit c \<or> of_char c \<in> {178, 179, 185 :: nat}) s)"

definition declared_length :: "string option \<Rightarrow> exc + nat option" where
  "declared_length header =
     (case header of
        None \<Rightarrow> Inr None
      | Some s \<Rightarrow> if \<not> py_isdigit s then Inr None
                  else if list_all is_digit s then Inr (Some (parse_nat s)) else Inl (PyRaise ''ValueError''))"

text \<open>What was read, and the messages not yet received.\<close>

datatype body_read = BodyRead string bool | BodyTooLarge | BodyPending

fun collect_body :: "nat \<Rightarrow> string \<Rightarrow> asgi list \<Rightarrow> body_read \<times> asgi list" where
  "collect_body mx body [] = (BodyPending, [])"
| "collect_body mx body (OtherMessage # ms) = (BodyRead body True, ms)"
| "collect_body mx body (HttpRequest chunk going_on # ms) =
     (if length (body @ chunk) > mx then (BodyTooLarge, ms)
      else if going_on then collect_body mx (body @ chunk) ms else (BodyRead (body @ chunk) False, ms))"

definition read_body :: "nat \<Rightarrow> gate_request \<Rightarrow> exc + (body_read \<times> asgi list)" where
  "read_body mx gq =
     bind_res (declared_length (gq_content_length gq)) (\<lambda>n.
       if (case n of None \<Rightarrow> False | Some k \<Rightarrow> k > mx) then Inr (BodyTooLarge, gq_messages gq)
       else Inr (collect_body mx [] (gq_messages gq)))"

section \<open>The gate\<close>

definition too_many_answer :: "rat \<Rightarrow> gate_out" where
  "too_many_answer wait = Answer 429 ''rate_limited'' [RetryAfter (retry_after wait)]"

definition mcp_limited :: "gate_settings \<Rightarrow> http_request \<Rightarrow> string \<Rightarrow> string \<Rightarrow> int \<Rightarrow> app \<Rightarrow> rat \<times> app" where
  "mcp_limited gs rq rule key per_min st =
     (let (wait, bs) = hit (sv_max_buckets (gs_server gs)) (rq_clock rq) rule key per_min (ap_limiter st) in (wait, st\<lparr>ap_limiter := bs\<rparr>))"

text \<open>\<open>__call__\<close>: the answer (or the call of the handler), the messages left unread, the state.\<close>

definition mcp_gateway ::
  "(string \<Rightarrow> string) \<Rightarrow> gate_settings \<Rightarrow> gate_request \<Rightarrow> app \<Rightarrow> gate_out \<times> asgi list \<times> app" where
  "mcp_gateway sha gs gq st =
     (let rq = gq_http gq; (wait, st1) = mcp_limited gs rq ''ip'' (client_ip (rq_host rq)) (gs_ip_per_min gs) st in
      if wait > 0 then (too_many_answer wait, gq_messages gq, st1)
      else (case authenticate_mcp sha gs gq st1 of
          (Inl out, st2) \<Rightarrow> (out, gq_messages gq, st2)
        | (Inr p, st2) \<Rightarrow>
            let (wait, st3) = mcp_limited gs rq ''mcp'' (principal_key (actor_tag p) (client_ip (rq_host rq))) (gs_mcp_per_min gs) st2 in
            if wait > 0 then (too_many_answer wait, gq_messages gq, st3)
            else if rq_method rq \<noteq> ''POST'' then (Answer 405 ''method_not_allowed'' [AllowPost], gq_messages gq, st3)
            else (case read_body (gs_max_body gs) gq of
                Inl e \<Rightarrow> (Raised e, gq_messages gq, st3)
              | Inr (BodyTooLarge, ms) \<Rightarrow> (Answer 413 ''payload_too_large'' [], ms, st3)
              | Inr (BodyPending, ms) \<Rightarrow> (Sending, ms, st3)
              | Inr (BodyRead body gone, ms) \<Rightarrow> (Handled p body gone, ms, st3))))"

end
