(* ===== verification/McpGatewaySafety.thy ===== *)
theory McpGatewaySafety
  imports McpGateway
begin

text \<open>
  What the gate promises: the MCP handler runs only for a live key or access token, for a \<open>POST\<close> whose body is within the limit;
  and nothing of a body is read before the client has been authenticated.
\<close>

section \<open>Who is served\<close>

text \<open>The principals a presented credential may stand for, in a state of the database.\<close>

definition key_principal_of :: "(string \<Rightarrow> string) \<Rightarrow> server \<Rightarrow> stamp \<Rightarrow> string \<Rightarrow> cdb \<Rightarrow> principal \<Rightarrow> bool" where
  "key_principal_of sha sv now presented db p =
     (p = selfhost_principal \<and> \<not> sv_cloud sv \<and> sv_deploy_hash sv = Some (sha presented) \<or>
      (\<exists>k \<in> set (api_keys db). p = key_principal k \<and> k_hash k = sha presented \<and> k_revoked_at k = None \<and>
         not_expired now (k_expires_at k)))"

definition token_principal_of :: "(string \<Rightarrow> string) \<Rightarrow> stamp \<Rightarrow> string \<Rightarrow> cdb \<Rightarrow> principal \<Rightarrow> bool" where
  "token_principal_of sha now presented db p =
     (\<exists>t \<in> set (oauth_tokens db). \<exists>m \<in> set (memberships db). t_hash t = sha presented \<and> t_kind t = Access \<and> t_revoked_at t = None \<and>
        not_expired now (t_expires_at t) \<and> grant_live db (t_grant t) \<and>
        (\<exists>c \<in> set (oauth_clients db). oc_id c = t_client t \<and> oc_revoked_at c = None) \<and>
        m_org m = t_org t \<and> t_user t = Some (m_user m) \<and> pr_org p = Some (t_org t) \<and>
        pr_scopes p = set (t_scopes t) \<inter> role_scopes (m_role m) \<and> pr_user p = get_user (m_user m) db)"

lemma unauthorized_is_error: "unauthorized sv rq st = (r, st') \<Longrightarrow> \<exists>e. r = Inl e \<and> ap_db st' = ap_db st"
  by (auto simp: unauthorized_def Let_def split: prod.splits)

lemma fail_auth_Inl: "fail_auth gs rq err st = (r, st') \<Longrightarrow> \<exists>out. r = Inl out"
  by (auto simp: fail_auth_def split: prod.splits sum.splits dest: unauthorized_is_error)

lemma presented_strip: "presented_key gq = Some k \<Longrightarrow> py_strip k = k \<and> k \<noteq> []"
  by (auto simp: presented_key_def bearer_token_def Let_def split: option.splits if_splits prod.splits)

lemma authenticate_key_is:
  assumes "authenticate_key sha sv rq presented st = (Inr p, st')" "py_strip presented = presented"
  shows "key_principal_of sha sv (rq_now rq) presented (ap_db st) p"
proof (cases "\<not> sv_cloud sv \<and> sv_deploy_hash sv = Some (sha presented)")
  case True
  with assms show ?thesis by (simp add: authenticate_key_def Let_def key_principal_of_def)
next
  case False
  obtain k where k: "find_key presented (ap_db st) = Some k"
    using assms False by (cases "find_key presented (ap_db st)") (auto simp: authenticate_key_def Let_def dest: unauthorized_is_error)
  then have "k \<in> set (api_keys (ap_db st))" by (auto simp: find_key_def dest: sql_first_Some split: option.splits)
  moreover have "p = key_principal k \<and> k_hash k = sha presented \<and> k_revoked_at k = None \<and> not_expired (rq_now rq) (k_expires_at k)"
    using assms False k by (auto simp: authenticate_key_def Let_def split: if_splits dest: unauthorized_is_error)
  ultimately show ?thesis by (auto simp: key_principal_of_def)
qed

lemma principal_token_is:
  assumes "principal_for sha now presented db = (Inr (Some op), db')"
  shows "token_principal_of sha now presented db (oauth_to_principal db op)"
proof (rule principal_for_Some [of sha now presented db op])
  show "fst (principal_for sha now presented db) = Inr (Some op)" using assms by simp
  fix t m u
  assume t: "t \<in> set (oauth_tokens db)" "t_hash t = sha presented" "t_kind t = Access" "t_revoked_at t = None"
    "not_expired now (t_expires_at t)" "grant_live db (t_grant t)"
    "\<exists>c \<in> set (oauth_clients db). oc_id c = t_client t \<and> oc_revoked_at c = None" "t_user t = Some u"
    and m: "get_membership (t_org t) u db = Some m"
    and op: "op = \<lparr>op_org = t_org t, op_scopes = set (t_scopes t) \<inter> role_scopes (m_role m), op_user = m_user m,
      op_token_id = t_id t, op_client_id = t_client t\<rparr>"
  have "m \<in> set (memberships db)" "m_org m = t_org t" "m_user m = u"
    using sql_first_Some [OF m [unfolded get_membership_def]] by simp_all
  with t op show ?thesis unfolding token_principal_of_def oauth_to_principal_def by auto
qed

lemma authenticate_mcp_is:
  assumes "authenticate_mcp sha gs gq st = (Inr p, st')"
  shows "\<exists>k. presented_key gq = Some k \<and>
    (if prefix ACCESS_PREFIX k then gs_oauth_metadata gs \<noteq> None \<and> token_principal_of sha (rq_now (gq_http gq)) k (ap_db st) p
     else key_principal_of sha (gs_server gs) (rq_now (gq_http gq)) k (ap_db st) p)"
proof (cases "presented_key gq")
  case None
  with assms show ?thesis by (auto simp: authenticate_mcp_def Let_def dest: fail_auth_Inl)
next
  case (Some k)
  show ?thesis
  proof (cases "prefix ACCESS_PREFIX k")
    case True
    with assms Some have "gs_oauth_metadata gs \<noteq> None" by (auto simp: authenticate_mcp_def Let_def dest: fail_auth_Inl split: if_splits)
    moreover obtain op db where "principal_for sha (rq_now (gq_http gq)) k (ap_db st) = (Inr (Some op), db)"
      "p = oauth_to_principal (ap_db st) op"
      using assms Some True
      by (auto simp: authenticate_mcp_def Let_def dest: fail_auth_Inl split: if_splits prod.splits sum.splits option.splits)
    ultimately show ?thesis using Some True principal_token_is by auto
  next
    case False
    then have "authenticate_key sha (gs_server gs) (gq_http gq) k st = (Inr p, st')"
      using assms Some by (auto simp: authenticate_mcp_def Let_def split: prod.splits sum.splits)
    then show ?thesis using Some False authenticate_key_is presented_strip by fastforce
  qed
qed

section \<open>The body\<close>

definition chunk_of :: "asgi \<Rightarrow> string" where
  "chunk_of m = (case m of HttpRequest chunk _ \<Rightarrow> chunk | OtherMessage \<Rightarrow> [])"

lemma collect_body_read:
  "collect_body mx body ms = (BodyRead b gone, rest) \<Longrightarrow> length body \<le> mx \<Longrightarrow>
   length b \<le> mx \<and> (\<exists>used. ms = used @ rest \<and> b = body @ concat (map chunk_of used))"
proof (induction mx body ms rule: collect_body.induct)
  case (2 mx body ms)
  then show ?case by (auto simp: chunk_of_def intro: exI [of _ "[OtherMessage]"])
next
  case (3 mx body chunk going_on ms)
  show ?case
  proof (cases going_on)
    case True
    with 3 obtain used where "length b \<le> mx" "ms = used @ rest" "b = (body @ chunk) @ concat (map chunk_of used)"
      by (auto split: if_splits)
    moreover have "chunk_of (HttpRequest chunk going_on) = chunk" by (simp add: chunk_of_def)
    ultimately show ?thesis by (intro conjI exI [of _ "HttpRequest chunk going_on # used"]) simp_all
  next
    case False
    with 3 show ?thesis by (auto simp: chunk_of_def intro!: exI [of _ "[HttpRequest chunk going_on]"] split: if_splits)
  qed
qed simp

lemma mcp_limited_db: "mcp_limited gs rq rule key n st = (w, st') \<Longrightarrow> ap_db st' = ap_db st"
  by (auto simp: mcp_limited_def split: prod.splits)

text \<open>C35. The MCP handler runs only for a \<open>POST\<close> with the exact key of a live API key (or the deployment key outside the cloud mode),
  or with a live access token of a live grant while OAuth is on, never for a cookie; the principal is that of the credential,
  cut to the member's current role, and the body handed on is what was received, within the limit.\<close>

theorem handler_runs_for_live_credentials:
  assumes "mcp_gateway sha gs gq st = (Handled p body gone, rest, st')"
  shows "rq_method (gq_http gq) = ''POST'' \<and> length body \<le> gs_max_body gs \<and>
    (\<exists>used. gq_messages gq = used @ rest \<and> body = concat (map chunk_of used)) \<and>
    (\<exists>k. presented_key gq = Some k \<and>
      (if prefix ACCESS_PREFIX k then gs_oauth_metadata gs \<noteq> None \<and> token_principal_of sha (rq_now (gq_http gq)) k (ap_db st) p
       else key_principal_of sha (gs_server gs) (rq_now (gq_http gq)) k (ap_db st) p))"
proof -
  let ?rq = "gq_http gq"
  obtain w1 st1 where l1: "mcp_limited gs ?rq ''ip'' (client_ip (rq_host ?rq)) (gs_ip_per_min gs) st = (w1, st1)" by fastforce
  obtain a st2 where au: "authenticate_mcp sha gs gq st1 = (a, st2)" by fastforce
  have w1: "\<not> w1 > 0" using assms l1 by (auto simp: mcp_gateway_def Let_def too_many_answer_def)
  show ?thesis
  proof (cases a)
    case (Inl out)
    have no: "out \<noteq> Handled p body gone"
      using au Inl by (auto simp: authenticate_mcp_def fail_auth_def refuse_def Let_def split: if_splits option.splits prod.splits sum.splits exc.splits)
    with assms l1 w1 au Inl show ?thesis by (simp add: mcp_gateway_def Let_def)
  next
    case (Inr q)
    obtain w3 st3 where l3: "mcp_limited gs ?rq ''mcp'' (principal_key (actor_tag q) (client_ip (rq_host ?rq))) (gs_mcp_per_min gs) st2 = (w3, st3)"
      by fastforce
    have g: "q = p" "rq_method ?rq = ''POST''" "read_body (gs_max_body gs) gq = Inr (BodyRead body gone, rest)"
      using assms l1 w1 au Inr l3
      by (auto simp: mcp_gateway_def Let_def too_many_answer_def split: if_splits sum.splits prod.splits body_read.splits)
    have "collect_body (gs_max_body gs) [] (gq_messages gq) = (BodyRead body gone, rest)"
      using g(3) by (cases "declared_length (gq_content_length gq)") (auto simp: read_body_def split: if_splits)
    from collect_body_read [OF this] authenticate_mcp_is [of sha gs gq st1 q st2] au Inr g(1,2) mcp_limited_db [OF l1]
    show ?thesis by auto
  qed
qed

text \<open>An answer of 401, 405 or 429 leaves every message of the channel unread.\<close>

lemma refused_before_the_body:
  assumes "mcp_gateway sha gs gq st = (Answer status code headers, rest, st')" and "status \<in> {401, 405, 429}"
  shows "rest = gq_messages gq"
  using assms by (auto simp: mcp_gateway_def Let_def split: if_splits sum.splits prod.splits body_read.splits)

text \<open>A body in two parts, sent with the key of an organization.\<close>

definition demo_gate :: gate_settings where
  "demo_gate = \<lparr>gs_server = demo_server, gs_ip_per_min = 60, gs_mcp_per_min = 60, gs_max_body = 10, gs_oauth_metadata = None\<rparr>"

definition demo_call :: gate_request where
  "demo_call = \<lparr>gq_http = demo_request\<lparr>rq_api_key := Some demo_raw_key\<rparr>, gq_authorization = None, gq_content_length = None,
     gq_messages = [HttpRequest ''ab'' True, HttpRequest ''c'' False]\<rparr>"

theorem handler_runs_for_live_credentials_witness:
  "\<exists>p st'. mcp_gateway (\<lambda>s. s) demo_gate demo_call demo_app = (Handled p ''abc'' False, [], st') \<and>
    key_principal_of (\<lambda>s. s) demo_server 5 demo_raw_key (ap_db demo_app) p"
proof -
  have key: "presented_key demo_call = Some demo_raw_key"
    by (simp add: presented_key_def demo_call_def demo_raw_key_text) (simp add: demo_raw_key_def)
  have token: "\<not> prefix ACCESS_PREFIX demo_raw_key" by (simp add: ACCESS_PREFIX_def demo_raw_key_def)
  obtain w1 st1 where l1: "mcp_limited demo_gate (gq_http demo_call) ''ip'' (client_ip (rq_host (gq_http demo_call))) (gs_ip_per_min demo_gate) demo_app = (w1, st1)"
    by fastforce
  then have w1: "w1 = 0" "ap_db st1 = ap_db demo_app"
    by (auto simp: mcp_limited_def demo_gate_def demo_app_def hit_def Let_def split: prod.splits)
  have "demo_raw_key \<noteq> []" by (simp add: demo_raw_key_def)
  then have "\<exists>st2. authenticate_key (\<lambda>s. s) demo_server (gq_http demo_call) demo_raw_key st1 = (Inr (key_principal demo_key), st2) \<and> ap_limiter st2 = ap_limiter st1"
    by (simp add: authenticate_key_def Let_def find_key_def parse_api_key_def demo_raw_key_text demo_app_defs sql_first_def not_expired_def w1(2) demo_call_def)
  then obtain st2 where au: "authenticate_mcp (\<lambda>s. s) demo_gate demo_call st1 = (Inr (key_principal demo_key), st2)" "ap_limiter st2 = ap_limiter st1"
    using key token by (auto simp: authenticate_mcp_def Let_def demo_gate_def)
  have lim: "map_of (ap_limiter st1) (''mcp'', k) = None" for k
    using l1 by (auto simp: mcp_limited_def demo_gate_def demo_app_def hit_def Let_def prune_def idle_pruned_def split: prod.splits if_splits)
  obtain w3 st3 where l3: "mcp_limited demo_gate (gq_http demo_call) ''mcp'' (principal_key (actor_tag (key_principal demo_key)) (client_ip (rq_host (gq_http demo_call))))
      (gs_mcp_per_min demo_gate) st2 = (w3, st3)" by fastforce
  then have w3: "w3 = 0" using lim au(2) by (auto simp: mcp_limited_def demo_gate_def hit_def Let_def split: prod.splits)
  have body: "read_body (gs_max_body demo_gate) demo_call = Inr (BodyRead ''abc'' False, [])"
    by (simp add: read_body_def demo_call_def demo_gate_def declared_length_def)
  have g: "mcp_gateway (\<lambda>s. s) demo_gate demo_call demo_app = (Handled (key_principal demo_key) ''abc'' False, [], st3)"
    using l1 w1(1) au(1) l3 w3 body by (simp add: mcp_gateway_def Let_def) (simp add: demo_call_def demo_request_def)
  have "key_principal_of (\<lambda>s. s) demo_server 5 demo_raw_key (ap_db demo_app) (key_principal demo_key)"
    using handler_runs_for_live_credentials [OF g] key token by (auto simp: demo_gate_def demo_call_def demo_request_def)
  with g show ?thesis by blast
qed

end
