(* ===== verification/OrgNameSafety.thy ===== *)
theory OrgNameSafety
  imports OrgNames
begin

text \<open>
  What the name of an organization cannot carry into a message: after the two substitutions and the clean-up neither pattern
  matches anywhere. The substitutions look at a text through a matcher; the locale states what is needed of one.
\<close>

section \<open>Cut texts\<close>

text \<open>A text that follows another one up to a space or to its own end.\<close>

fun cut_text :: "string \<Rightarrow> string \<Rightarrow> bool" where
  "cut_text s [] = True"
| "cut_text s (c # t) = (c = CHR '' '' \<or> (case s of [] \<Rightarrow> False | d # u \<Rightarrow> c = d \<and> cut_text u t))"

lemma cut_text_refl [simp]: "cut_text s s"
  by (induction s) auto

lemma cut_text_append [simp]: "cut_text a (a @ CHR '' '' # b)" "cut_text (a @ b) a"
  by (induction a) auto

lemma cut_text_dropWhile: "cut_text s t \<Longrightarrow> \<not> P (CHR '' '') \<Longrightarrow> cut_text (dropWhile P s) (dropWhile P t)"
  by (induction s t rule: cut_text.induct) (auto split: list.splits)

lemma cut_text_takeWhile: "cut_text s t \<Longrightarrow> \<not> P (CHR '' '') \<Longrightarrow> length (takeWhile P t) \<le> length (takeWhile P s)"
  by (induction s t rule: cut_text.induct) (auto split: list.splits)

lemma cut_text_Cons: "cut_text s (c # t) \<Longrightarrow> c \<noteq> CHR '' '' \<Longrightarrow> \<exists>u. s = c # u \<and> cut_text u t"
  by (cases s) auto

lemma cut_text_take:
  "cut_text s t \<Longrightarrow> CHR '' '' \<notin> set (take n t) \<Longrightarrow> length (take n t) = n \<Longrightarrow> take n s = take n t"
proof (induction n arbitrary: s t)
  case (Suc n)
  then obtain c t' where t: "t = c # t'" by (cases t) auto
  with Suc.prems have c: "c \<noteq> CHR '' ''" by auto
  then obtain u where s: "s = c # u" "cut_text u t'" using cut_text_Cons Suc.prems(1) unfolding t by blast
  with Suc.prems show ?case using Suc.IH [OF s(2)] by (simp add: t)
qed simp

lemma cut_text_drop: "cut_text s t \<Longrightarrow> CHR '' '' \<notin> set (take n t) \<Longrightarrow> cut_text (drop n s) (drop n t)"
proof (induction n arbitrary: s t)
  case (Suc n)
  show ?case
  proof (cases t)
    case (Cons c t')
    with Suc.prems have c: "c \<noteq> CHR '' ''" by auto
    then obtain u where s: "s = c # u" "cut_text u t'" using cut_text_Cons Suc.prems(1) unfolding Cons by blast
    with Suc.prems show ?thesis using Suc.IH [OF s(2)] by (simp add: Cons)
  qed simp
qed simp

lemma cut_text_boundary: "cut_text s (c # t) \<Longrightarrow> c \<noteq> CHR '' '' \<Longrightarrow> boundary p s = boundary p (c # t)"
  by (cases s) (auto simp: boundary_def)

section \<open>Matchers\<close>

definition in_word :: "char option \<Rightarrow> bool" where
  "in_word p = (case p of None \<Rightarrow> False | Some c \<Rightarrow> word_char c)"

fun free_of :: "(char option \<Rightarrow> string \<Rightarrow> string option) \<Rightarrow> char option \<Rightarrow> string \<Rightarrow> bool" where
  "free_of m p [] = True"
| "free_of m p (c # s) = (m p (c # s) = None \<and> free_of m (Some c) s)"

text \<open>At each position where \<open>m\<close> matches, so does \<open>m'\<close>.\<close>

fun covered ::
  "(char option \<Rightarrow> string \<Rightarrow> string option) \<Rightarrow> (char option \<Rightarrow> string \<Rightarrow> string option) \<Rightarrow> char option \<Rightarrow> string \<Rightarrow> bool" where
  "covered m m' p [] = True"
| "covered m m' p (c # s) = ((m p (c # s) = None \<or> m' p (c # s) \<noteq> None) \<and> covered m m' (Some c) s)"

lemma covered_same [simp]: "covered m m p s"
  by (induction s arbitrary: p) auto

lemma free_covered: "free_of m p s \<Longrightarrow> covered m m' p s"
  by (induction s arbitrary: p) auto

lemma covered_suffix: "covered m m' p (a @ c # s) \<Longrightarrow> covered m m' (Some c) s"
  by (induction a arbitrary: p) auto

lemma free_at: "free_of m p (a @ c # s) \<Longrightarrow> m (if a = [] then p else Some (last a)) (c # s) = None"
  by (induction a arbitrary: p) (auto split: if_splits)

definition consumes :: "(char option \<Rightarrow> string \<Rightarrow> string option) \<Rightarrow> bool" where
  "consumes m = (\<forall>p s r. m p s = Some r \<longrightarrow> suffix r s \<and> length r < length s)"

lemma re_sub_cut: "cut_text s (re_sub m p s)"
  by (induction m p s rule: re_sub.induct) (auto split: option.splits)

lemma not_word_blank: "py_isspace c \<Longrightarrow> \<not> word_char c" "\<not> word_char (CHR '' '')" "blank_char c \<noteq> c \<Longrightarrow> \<not> word_char c"
  by (auto simp: py_isspace_def word_char_def is_ascii_alnum_def is_lower_alpha_def is_upper_alpha_def is_digit_def blank_char_def
      unprintable_def Let_def split: if_splits)

lemma blank_char_cases: "blank_char c = c \<or> blank_char c = CHR '' ''"
  by (simp add: blank_char_def)

lemma map_blank_cut: "cut_text s (map blank_char s)"
  by (induction s) (use blank_char_cases in \<open>auto\<close>)

text \<open>A matcher looks at what is before only for the edge of a word, and what follows a space is beyond it.\<close>

locale text_matcher =
  fixes m :: "char option \<Rightarrow> string \<Rightarrow> string option"
  assumes word_edge: "in_word p = in_word q \<Longrightarrow> m p s = m q s"
    and blank: "py_isspace c \<Longrightarrow> m p (c # s) = None"
    and empty: "m p [] = None"
    and cut: "cut_text s t \<Longrightarrow> m p s = None \<Longrightarrow> m p t = None"
begin

lemma free_edge: "in_word p = in_word q \<Longrightarrow> free_of m p s = free_of m q s"
  by (cases s) (auto simp: word_edge [of p q])

lemma free_after_blank: "py_isspace c \<Longrightarrow> free_of m p (a @ c # s) \<Longrightarrow> free_of m None s"
proof (induction a arbitrary: p)
  case Nil
  then show ?case using free_edge [of "Some c" None s] by (simp add: in_word_def not_word_blank)
qed auto

lemma free_prefix: "free_of m p (a @ b) \<Longrightarrow> free_of m p a"
proof (induction a arbitrary: p)
  case (Cons c a)
  then show ?case using cut [of "(c # a) @ b" "c # a" p] cut_text_append(2) [of "c # a" b] by auto
qed simp

lemma free_blank_append: "free_of m p a \<Longrightarrow> free_of m None b \<Longrightarrow> free_of m p (a @ CHR '' '' # b)"
proof (induction a arbitrary: p)
  case Nil
  then show ?case using free_edge [of "Some (CHR '' '')" None b] by (simp add: in_word_def not_word_blank blank py_isspace_def)
next
  case (Cons c a)
  then show ?case using cut [of "c # a" "(c # a) @ CHR '' '' # b" p] cut_text_append(1) [of "c # a" b] by auto
qed

lemma free_map_blank: "free_of m p s \<Longrightarrow> in_word q = in_word p \<Longrightarrow> free_of m q (map blank_char s)"
proof (induction s arbitrary: p q)
  case (Cons c s)
  have edge: "in_word (Some (blank_char c)) = in_word (Some c)"
    using blank_char_cases [of c] not_word_blank(2,3) by (cases "blank_char c = c") (auto simp: in_word_def)
  have "m q (c # s) = None" using Cons.prems word_edge [of q p] by simp
  then have "m q (map blank_char (c # s)) = None" by (rule cut [OF map_blank_cut])
  with Cons.prems Cons.IH [OF _ edge] show ?case by simp
qed simp

lemma free_split: "free_of m None (rev w @ s) \<Longrightarrow> x \<in> set (split_ws_acc w s) \<Longrightarrow> free_of m None x"
proof (induction w s rule: split_ws_acc.induct)
  case (2 w c s)
  show ?case
  proof (cases "py_isspace c")
    case True
    have "free_of m None (rev w)" "free_of m None s" using 2(4) free_prefix free_after_blank [OF True] by blast+
    with True 2 show ?thesis by (auto split: if_splits)
  qed (use 2 in simp)
qed (auto split: if_splits)

lemma free_join: "\<forall>w \<in> set ws. free_of m None w \<Longrightarrow> free_of m None (py_join '' '' ws)"
  by (induction "'' ''" ws rule: py_join.induct) (auto intro: free_blank_append)

lemma free_strip: "free_of m None s \<Longrightarrow> free_of m None (py_strip s)"
proof -
  have drop: "free_of m None (dropWhile py_isspace s)" if "free_of m None s" for s
    using that
  proof (induction s)
    case (Cons c s)
    then show ?case using free_after_blank [of c None "[]" s] by simp
  qed simp
  have "s = py_rstrip s @ rev (takeWhile py_isspace (rev s))" for s
    unfolding py_rstrip_def rev_append [symmetric] by simp
  then have "free_of m None (py_rstrip s)" if "free_of m None s" for s using that free_prefix by metis
  with drop show "free_of m None s \<Longrightarrow> free_of m None (py_strip s)" by (simp add: py_strip_def py_lstrip_def)
qed

lemma free_cleaned:
  assumes "free_of m None s"
  shows "free_of m None (py_strip (take n (py_join '' '' (py_split_ws (map blank_char s)))))"
proof -
  have "free_of m None (rev [] @ map blank_char s)" using free_map_blank [OF assms refl] by simp
  then have "\<forall>w \<in> set (py_split_ws (map blank_char s)). free_of m None w"
    unfolding py_split_ws_def using free_split by blast
  then have "free_of m None (py_join '' '' (py_split_ws (map blank_char s)))" by (rule free_join)
  then have "free_of m None (take n (py_join '' '' (py_split_ws (map blank_char s))))" by (metis append_take_drop_id free_prefix)
  then show ?thesis by (rule free_strip)
qed

text \<open>Substituting all matches of a pattern that covers this one leaves none.\<close>

lemma covered_rest:
  assumes "covered m' n p (c # s)" "suffix r (c # s)" "length r \<le> length s"
  shows "covered m' n (Some ((c # s) ! (length s - length r))) r"
proof -
  obtain a where a: "c # s = a @ r" using assms(2) by (auto simp: suffix_def)
  with assms(3) have "a \<noteq> []" by auto
  then obtain b d where b: "a = b @ [d]" by (metis rev_exhaust)
  with a have split: "c # s = b @ d # r" by simp
  then have "length (c # s) = length b + Suc (length r)" by simp
  then have "length s - length r = length b" by simp
  then have "(c # s) ! (length s - length r) = d" unfolding split by simp
  then show ?thesis using covered_suffix [of m' n p b d r] assms(1) unfolding split by simp
qed

lemma re_sub_free:
  "consumes m' \<Longrightarrow> (\<And>p s r. m' p s = Some r \<Longrightarrow> m (Some (CHR '' '')) r = None) \<Longrightarrow>
   covered m m' p s \<Longrightarrow> in_word q = in_word p \<or> m q s = None \<Longrightarrow> free_of m q (re_sub m' p s)"
proof (induction m' p s arbitrary: q rule: re_sub.induct)
  case (2 n p c s)
  show ?case
  proof (cases "n p (c # s)")
    case None
    with 2 have "m q (c # s) = None" using word_edge [of q p] by auto
    then have "m q (c # re_sub n (Some c) s) = None" using re_sub_cut by (elim cut [rotated]) simp
    with 2 None show ?thesis by simp
  next
    case (Some r)
    then have r: "suffix r (c # s)" "length r \<le> length s" using 2(4) by (fastforce simp: consumes_def)+
    have blank: "m q (CHR '' '' # t) = None" for t by (rule blank) (simp add: py_isspace_def)
    have gone: "m (Some (CHR '' '')) r = None" by (rule 2(5) [OF Some])
    from covered_rest [OF 2(6) r] 2(2) [OF Some r(2) 2(4) 2(5)] gone Some r blank show ?thesis by simp
  qed
qed simp

end

section \<open>The two patterns\<close>

lemma scheme_char_space: "\<not> scheme_char (CHR '' '')" "\<not> label_char (CHR '' '')" "\<not> is_letter (CHR '' '')"
  by (simp_all add: scheme_char_def label_char_def word_char_def is_letter_def is_ascii_alnum_def is_lower_alpha_def is_upper_alpha_def
      is_digit_def)

lemma scheme_rest_cut: "cut_text s t \<Longrightarrow> scheme_rest s = None \<Longrightarrow> scheme_rest t = None"
proof (rule ccontr)
  assume cut: "cut_text s t" and none: "scheme_rest s = None" and some: "scheme_rest t \<noteq> None"
  then obtain c u where t: "t = c # u" "is_letter c" "take 3 (dropWhile scheme_char u) = ''://''"
    by (auto simp: scheme_rest_def Let_def split: list.splits if_splits)
  then have "c \<noteq> CHR '' ''" using scheme_char_space(3) by metis
  then obtain v where s: "s = c # v" "cut_text v u" using cut cut_text_Cons unfolding t(1) by blast
  have "cut_text (dropWhile scheme_char v) (dropWhile scheme_char u)" using s(2) scheme_char_space(1) by (rule cut_text_dropWhile)
  from cut_text_take [OF this, of 3] t(3) have "take 3 (dropWhile scheme_char v) = ''://''" by simp
  with none s(1) t(2) show False by (simp add: scheme_rest_def Let_def)
qed

lemma literal_rest_cut: "cut_text s t \<Longrightarrow> literal_rest w s = None \<Longrightarrow> CHR '' '' \<notin> set w \<Longrightarrow> literal_rest w t = None"
proof (rule ccontr)
  assume cut: "cut_text s t" and none: "literal_rest w s = None" and w: "CHR '' '' \<notin> set w" and some: "literal_rest w t \<noteq> None"
  then have t: "map lower_char (take (length w) t) = w" by (auto simp: literal_rest_def split: if_splits)
  have "lower_char (CHR '' '') = CHR '' ''" by (simp add: lower_char_def is_upper_alpha_def)
  then have "CHR '' '' \<notin> set (take (length w) t)" using w t by (metis imageI list.set_map)
  moreover have "length (take (length w) t) = length w" using t by (metis length_map)
  ultimately have "take (length w) s = take (length w) t" using cut_text_take [OF cut] by blast
  with none t show False by (simp add: literal_rest_def)
qed

definition url_start :: "string \<Rightarrow> string option" where
  "url_start = first_rest [scheme_rest, literal_rest ''www.'', literal_rest ''mailto:'', literal_rest ''tel:'']"

lemma url_match_alt: "url_match p s = (if boundary p s then map_option skip_word (url_start s) else None)"
  by (simp add: url_match_def url_start_def)

lemma url_start_None: "url_start s = None \<longleftrightarrow> scheme_rest s = None \<and> literal_rest ''www.'' s = None \<and>
    literal_rest ''mailto:'' s = None \<and> literal_rest ''tel:'' s = None"
  by (auto simp: url_start_def split: option.splits)

lemma url_start_cut: "cut_text s t \<Longrightarrow> url_start s = None \<Longrightarrow> url_start t = None"
  unfolding url_start_None using scheme_rest_cut literal_rest_cut by auto

lemma lower_letter: "is_letter (lower_char c) = is_letter c"
proof -
  have n: "(of_char c :: nat) < 256" by simp
  have code: "(of_char (lower_char c) :: nat) =
      (if 65 \<le> (of_char c :: nat) \<and> of_char c \<le> (90 :: nat) \<or> 192 \<le> (of_char c :: nat) \<and> of_char c \<le> (222 :: nat) \<and> of_char c \<noteq> (215 :: nat)
       then of_char c + 32 else of_char c)"
    using n by (auto simp: lower_char_def Let_def)
  show ?thesis unfolding is_letter_def is_lower_alpha_def is_upper_alpha_def Let_def code by auto
qed

lemma literal_rest_letter: "literal_rest (l # w) s \<noteq> None \<Longrightarrow> is_letter l \<Longrightarrow> \<exists>c t. s = c # t \<and> is_letter c"
  by (cases s) (auto simp: literal_rest_def lower_letter split: if_splits)

lemma url_start_letter: "url_start s \<noteq> None \<Longrightarrow> \<exists>c t. s = c # t \<and> is_letter c"
proof -
  have "is_letter CHR ''w''" "is_letter CHR ''m''" "is_letter CHR ''t''"
    by (simp_all add: is_letter_def is_lower_alpha_def)
  moreover have "scheme_rest s \<noteq> None \<Longrightarrow> \<exists>c t. s = c # t \<and> is_letter c"
    by (auto simp: scheme_rest_def Let_def split: list.splits if_splits)
  ultimately show "url_start s \<noteq> None \<Longrightarrow> \<exists>c t. s = c # t \<and> is_letter c"
    unfolding url_start_None using literal_rest_letter by blast
qed

lemma url_start_shorter: "url_start s = Some r \<Longrightarrow> suffix r s \<and> length r < length s"
proof -
  have scheme: "scheme_rest s = Some r \<Longrightarrow> suffix r s \<and> length r < length s"
    by (auto simp: scheme_rest_def Let_def split: list.splits if_splits
        intro: suffix_order.trans [OF suffix_drop] suffix_order.trans [OF suffix_dropWhile] suffix_ConsI
        intro!: le_imp_less_Suc le_trans [OF diff_le_self] length_dropWhile_le)
  have literal: "literal_rest w s = Some r \<Longrightarrow> w \<noteq> [] \<Longrightarrow> suffix r s \<and> length r < length s" for w
    by (cases s; cases w) (auto simp: literal_rest_def suffix_drop intro: suffix_ConsI suffix_drop split: if_splits)
  show "url_start s = Some r \<Longrightarrow> suffix r s \<and> length r < length s"
    using scheme literal by (auto simp: url_start_def split: option.splits)
qed

lemma skip_word_end: "skip_word s = [] \<or> py_isspace (hd (skip_word s))"
  using hd_dropWhile [of "\<lambda>c. \<not> py_isspace c" s] by (auto simp: skip_word_def)

lemma skip_word_suffix: "suffix (skip_word s) s" "length (skip_word s) \<le> length s"
  by (simp_all add: skip_word_def suffix_dropWhile length_dropWhile_le)

lemma space_no_letter: "py_isspace c \<Longrightarrow> \<not> is_letter c \<and> \<not> label_char c"
  by (auto simp: py_isspace_def is_letter_def label_char_def not_word_blank is_lower_alpha_def is_upper_alpha_def Let_def)

lemma url_consumes: "consumes url_match"
  unfolding consumes_def
proof (intro allI impI)
  fix p s r assume "url_match p s = Some r"
  then obtain q where q: "url_start s = Some q" "r = skip_word q" by (auto simp: url_match_alt split: if_splits)
  then show "suffix r s \<and> length r < length s"
    using url_start_shorter [OF q(1)] skip_word_suffix [of q] by (auto intro: suffix_order.trans)
qed

interpretation url: text_matcher url_match
proof
  fix p q :: "char option" and s t :: string and c
  show "in_word p = in_word q \<Longrightarrow> url_match p s = url_match q s"
    by (simp add: url_match_alt boundary_def in_word_def)
  show "py_isspace c \<Longrightarrow> url_match p (c # s) = None"
    using url_start_letter [of "c # s"] space_no_letter [of c] by (cases "url_start (c # s)") (auto simp: url_match_alt)
  show "url_match p [] = None" using url_start_letter [of "[]"] by (cases "url_start []") (auto simp: url_match_alt)
  assume cut: "cut_text s t" and none: "url_match p s = None"
  show "url_match p t = None"
  proof (cases "url_start t = None")
    case False
    then obtain c u where t: "t = c # u" "is_letter c" using url_start_letter by blast
    then have "boundary p s = boundary p t" using cut cut_text_boundary scheme_char_space(3) by metis
    with none False url_start_cut [OF cut] show ?thesis by (auto simp: url_match_alt split: if_splits)
  qed (simp add: url_match_alt)
qed

text \<open>The other pattern.\<close>

lemma letter_label: "is_letter c \<Longrightarrow> label_char c"
  by (simp add: label_char_def word_char_def is_letter_def is_ascii_alnum_def Let_def)

lemma dropWhile_weaker: "(\<And>c. P c \<Longrightarrow> Q c) \<Longrightarrow> dropWhile Q (dropWhile P s) = dropWhile Q s"
  by (induction s) auto

lemma domain_rest_cut: "cut_text s t \<Longrightarrow> domain_rest s = None \<Longrightarrow> domain_rest t = None"
proof (induction t arbitrary: s rule: domain_rest.induct)
  case (1 t)
  show ?case
  proof (rule ccontr)
    assume some: "domain_rest t \<noteq> None"
    then have "take 1 t = ''.''" and lab: "takeWhile label_char (drop 1 t) \<noteq> []"
      by (subst (asm) domain_rest.simps; simp split: if_splits)+
    then obtain u where t: "t = CHR ''.'' # u" by (cases t) auto
    then obtain v where s: "s = CHR ''.'' # v" "cut_text v u" using 1(2) cut_text_Cons by blast
    have lab': "takeWhile label_char v \<noteq> []"
      using lab cut_text_takeWhile [of v u label_char] s(2) scheme_char_space(2) by (auto simp: t)
    have cut: "cut_text (dropWhile label_char v) (dropWhile label_char u)"
      using s(2) scheme_char_space(2) by (rule cut_text_dropWhile)
    from 1(3) have s': "domain_rest (dropWhile label_char v) = None" "length (takeWhile is_letter v) < 2"
      using lab' by (subst (asm) domain_rest.simps; simp add: s(1) split: option.splits if_splits)+
    have "domain_rest (dropWhile label_char u) = None"
      using 1(1) [of "dropWhile label_char v"] lab cut s'(1) by (simp add: t)
    moreover have "length (takeWhile is_letter u) < 2"
      using cut_text_takeWhile [of v u is_letter] s(2) scheme_char_space(3) s'(2) by simp
    ultimately show False using some lab by (subst (asm) domain_rest.simps) (simp add: t)
  qed
qed

lemma path_rest_cases: "path_rest s = s \<and> take 1 s \<noteq> ''/'' \<or> path_rest s = [] \<or> py_isspace (hd (path_rest s))"
  using skip_word_end by (simp add: path_rest_def)

lemma path_rest_suffix: "suffix (path_rest s) s"
  unfolding path_rest_def using skip_word_suffix(1) [of "drop 1 s"] suffix_drop by (auto intro: suffix_order.trans)

lemma no_label_no_domain: "s = [] \<or> \<not> label_char (hd s) \<Longrightarrow> domain_match p s = None"
  by (cases s) (auto simp: domain_match_def)

lemma domain_rest_some:
  "domain_rest s = Some r \<Longrightarrow> suffix r s \<and> (r = [] \<or> \<not> is_letter (hd r)) \<and> domain_match p r = None"
proof (induction s rule: domain_rest.induct)
  case (1 s)
  then have "take 1 s = ''.''" and lab: "takeWhile label_char (drop 1 s) \<noteq> []"
    by (subst (asm) domain_rest.simps; simp split: if_splits)+
  then obtain t where s: "s = CHR ''.'' # t" by (cases s) auto
  show ?case
  proof (cases "domain_rest (dropWhile label_char t)")
    case (Some q)
    then have "q = r" using 1(2) lab by (subst (asm) (2) domain_rest.simps) (simp add: s)
    then have "suffix r (dropWhile label_char t) \<and> (r = [] \<or> \<not> is_letter (hd r)) \<and> domain_match p r = None"
      using 1(1) Some lab by (simp add: s)
    then show ?thesis by (auto simp: s intro: suffix_ConsI suffix_order.trans [OF _ suffix_dropWhile])
  next
    case None
    let ?q = "dropWhile is_letter t"
    have r: "r = path_rest ?q" using 1(2) lab None by (subst (asm) domain_rest.simps) (simp add: s split: if_splits)
    have "suffix r t" unfolding r using path_rest_suffix suffix_dropWhile by (rule suffix_order.trans)
    then have "suffix r s" unfolding s by (rule suffix_ConsI)
    moreover have "(r = [] \<or> \<not> is_letter (hd r)) \<and> domain_match p r = None"
    proof (cases "r = [] \<or> py_isspace (hd r)")
      case True
      then show ?thesis using space_no_letter by (cases r) (auto intro: no_label_no_domain)
    next
      case False
      then have q: "r = ?q" using path_rest_cases [of ?q] r by auto
      have "dropWhile label_char ?q = dropWhile label_char t" using letter_label by (rule dropWhile_weaker)
      then have "domain_match p r = None" using None by (simp add: domain_match_def q)
      moreover have "\<not> is_letter (hd r)" using False hd_dropWhile [of is_letter t] q by simp
      ultimately show ?thesis by simp
    qed
    ultimately show ?thesis by blast
  qed
qed

lemma domain_match_some:
  assumes "domain_match q s = Some r"
  shows "suffix r s \<and> length r < length s \<and> (r = [] \<or> \<not> is_letter (hd r)) \<and> domain_match p r = None"
proof -
  from assms have lab: "takeWhile label_char s \<noteq> []" and r: "domain_rest (dropWhile label_char s) = Some r"
    by (auto simp: domain_match_def split: if_splits)
  from domain_rest_some [OF r, of p] have d: "suffix r (dropWhile label_char s)" "r = [] \<or> \<not> is_letter (hd r)" "domain_match p r = None"
    by auto
  have "length r \<le> length (dropWhile label_char s)" using d(1) by (rule suffix_length_le)
  also have "\<dots> < length s" using lab by (cases s) (auto simp: less_Suc_eq_le length_dropWhile_le split: if_splits)
  finally have "length r < length s" .
  moreover have "suffix r s" using d(1) suffix_dropWhile by (rule suffix_order.trans)
  ultimately show ?thesis using d(2,3) by simp
qed

lemma domain_consumes: "consumes domain_match"
  using domain_match_some by (auto simp: consumes_def)

interpretation domain: text_matcher domain_match
proof
  fix p q :: "char option" and s t :: string and c
  show "in_word p = in_word q \<Longrightarrow> domain_match p s = domain_match q s"
    by (simp add: domain_match_def boundary_def in_word_def)
  show "py_isspace c \<Longrightarrow> domain_match p (c # s) = None" using space_no_letter [of c] by (intro no_label_no_domain) simp
  show "domain_match p [] = None" by (intro no_label_no_domain) simp
  assume cut: "cut_text s t" and none: "domain_match p s = None"
  show "domain_match p t = None"
  proof (cases "t = [] \<or> \<not> label_char (hd t)")
    case True
    then show ?thesis by (rule no_label_no_domain)
  next
    case False
    then obtain c u where t: "t = c # u" "label_char c" by (cases t) auto
    then have c: "c \<noteq> CHR '' ''" using scheme_char_space(2) by metis
    then obtain v where s: "s = c # v" using cut cut_text_Cons unfolding t(1) by blast
    have "boundary p s = boundary p t" using cut_text_boundary cut c unfolding t(1) by blast
    moreover have "cut_text (dropWhile label_char s) (dropWhile label_char t)"
      using cut scheme_char_space(2) by (rule cut_text_dropWhile)
    ultimately show ?thesis using none domain_rest_cut t(2) by (auto simp: domain_match_def s t(1) split: if_splits)
  qed
qed

section \<open>The name\<close>

lemma url_after: "url_match q s = Some r \<Longrightarrow> url_match p r = None"
proof -
  assume "url_match q s = Some r"
  then have "r = [] \<or> py_isspace (hd r)" using skip_word_end by (auto simp: url_match_alt split: if_splits)
  then show ?thesis using url.blank url.empty by (cases r) auto
qed

lemma url_after_domain: "domain_match q s = Some r \<Longrightarrow> url_match p r = None"
proof -
  assume "domain_match q s = Some r"
  then have "r = [] \<or> \<not> is_letter (hd r)" using domain_match_some by blast
  then show ?thesis using url_start_letter [of r] by (cases "url_start r") (auto simp: url_match_alt)
qed

lemma name_matches_nothing:
  "free_of url_match None (sanitize_org_name name)" "free_of domain_match None (sanitize_org_name name)"
proof -
  define t1 where "t1 = re_sub url_match None name"
  define t2 where "t2 = re_sub domain_match None t1"
  have u1: "free_of url_match None t1"
    unfolding t1_def by (rule url.re_sub_free [OF url_consumes url_after]) simp_all
  have u2: "free_of url_match None t2"
    unfolding t2_def by (rule url.re_sub_free [OF domain_consumes url_after_domain free_covered [OF u1]]) simp_all
  have d2: "free_of domain_match None t2"
    unfolding t2_def by (rule domain.re_sub_free [OF domain_consumes]) (use domain_match_some in \<open>blast+, simp_all\<close>)
  have shown: "sanitize_org_name name =
      (let text = py_strip (take ORG_NAME_MAX (py_join '' '' (py_split_ws (map blank_char t2)))) in if text = [] then ''organization'' else text)"
    by (simp add: sanitize_org_name_def t2_def t1_def Let_def)
  have "free_of url_match None (py_strip (take ORG_NAME_MAX (py_join '' '' (py_split_ws (map blank_char t2)))))"
    using u2 by (rule url.free_cleaned)
  moreover have "free_of domain_match None (py_strip (take ORG_NAME_MAX (py_join '' '' (py_split_ws (map blank_char t2)))))"
    using d2 by (rule domain.free_cleaned)
  moreover have "free_of url_match None ''organization''" "free_of domain_match None ''organization''" by code_simp+
  ultimately show "free_of url_match None (sanitize_org_name name)" "free_of domain_match None (sanitize_org_name name)"
    unfolding shown Let_def by simp_all
qed

text \<open>What a client makes a link of: an address with a scheme, \<open>www.\<close>, \<open>mailto:\<close> or \<open>tel:\<close> at the start of a word, or a dot
  between a character of a word and two letters.\<close>

definition before :: "string \<Rightarrow> char option" where
  "before s = (if s = [] then None else Some (last s))"

definition carries_link :: "string \<Rightarrow> bool" where
  "carries_link t =
     ((\<exists>a c u b. t = a @ c # u @ '':'' @ ''//'' @ b \<and> \<not> in_word (before a) \<and> is_letter c \<and> list_all scheme_char u) \<or>
      (\<exists>a w b. t = a @ w @ b \<and> \<not> in_word (before a) \<and> map lower_char w \<in> {''www.'', ''mailto:'', ''tel:''}) \<or>
      (\<exists>a l x y b. t = a @ l # CHR ''.'' # x # y # b \<and> word_char l \<and> is_letter x \<and> is_letter y))"

lemma letter_word: "is_letter c \<Longrightarrow> word_char c"
  by (simp add: word_char_def is_letter_def is_ascii_alnum_def Let_def)

lemma free_before: "free_of m None (a @ s) \<Longrightarrow> s \<noteq> [] \<Longrightarrow> m (before a) s = None"
  using free_at [of m None a "hd s" "tl s"] by (cases s) (auto simp: before_def split: if_splits)

lemma scheme_carries:
  assumes "free_of url_match None (a @ c # u @ '':'' @ ''//'' @ b)" "\<not> in_word (before a)" "is_letter c" "list_all scheme_char u"
  shows False
proof -
  let ?s = "c # u @ '':'' @ ''//'' @ b"
  have "\<not> scheme_char CHR '':''" by (simp add: scheme_char_def is_letter_def is_lower_alpha_def is_upper_alpha_def is_digit_def)
  then have "dropWhile scheme_char (u @ '':'' @ ''//'' @ b) = '':'' @ ''//'' @ b"
    using assms(4) by (induction u) auto
  then have "scheme_rest ?s \<noteq> None" using assms(3) by (simp add: scheme_rest_def)
  then have "url_start ?s \<noteq> None" by (simp add: url_start_None)
  moreover have "boundary (before a) ?s" using assms(2,3) letter_word by (simp add: boundary_def in_word_def)
  moreover have "url_match (before a) ?s = None" using free_before [OF assms(1)] by simp
  ultimately show False by (simp add: url_match_alt)
qed

lemma literal_carries:
  assumes "free_of url_match None (a @ w @ b)" "\<not> in_word (before a)" "map lower_char w \<in> {''www.'', ''mailto:'', ''tel:''}"
  shows False
proof -
  have "length (map lower_char w) = length w" by simp
  then have "literal_rest (map lower_char w) (w @ b) \<noteq> None" by (simp add: literal_rest_def)
  then have start: "url_start (w @ b) \<noteq> None" using assms(3) by (auto simp: url_start_None)
  then obtain c t where s: "w @ b = c # t" "is_letter c" using url_start_letter by blast
  then have "boundary (before a) (w @ b)" using assms(2) letter_word by (simp add: boundary_def in_word_def)
  moreover have "url_match (before a) (w @ b) = None" using free_before [OF assms(1)] s(1) by simp
  ultimately show False using start by (simp add: url_match_alt)
qed

lemma domain_carries:
  assumes "free_of domain_match None (a @ l # CHR ''.'' # x # y # b)" "word_char l" "is_letter x" "is_letter y"
  shows False
proof -
  define v where "v = rev (takeWhile word_char (rev (a @ [l])))"
  define p where "p = rev (dropWhile word_char (rev (a @ [l])))"
  let ?d = "CHR ''.'' # x # y # b"
  have run: "a @ [l] = p @ v" unfolding v_def p_def by (metis rev_append rev_rev_ident takeWhile_dropWhile_id)
  have v: "v \<noteq> []" "\<forall>c \<in> set v. word_char c" using assms(2) by (auto simp: v_def dest: set_takeWhileD)
  have edge: "\<not> in_word (before p)"
    using hd_dropWhile [of word_char "rev (a @ [l])"] by (auto simp: before_def in_word_def p_def last_rev)
  have dot: "\<not> label_char CHR ''.''"
    by (simp add: label_char_def word_char_def is_ascii_alnum_def is_lower_alpha_def is_upper_alpha_def is_digit_def)
  have label: "\<forall>c \<in> set v. label_char c" using v(2) by (simp add: label_char_def)
  have "takeWhile label_char (v @ ?d) = v" "dropWhile label_char (v @ ?d) = ?d"
    using label dot by (simp_all add: takeWhile_append dropWhile_append)
  moreover have "2 \<le> length (takeWhile is_letter (x # y # b))" using assms(3,4) by simp
  then have "domain_rest ?d \<noteq> None" using assms(3) letter_label by (subst domain_rest.simps) (auto split: option.splits)
  moreover have "boundary (before p) (v @ ?d)" using edge v by (cases v) (auto simp: boundary_def in_word_def)
  ultimately have "domain_match (before p) (v @ ?d) \<noteq> None" using v(1) by (simp add: domain_match_def)
  moreover have "free_of domain_match None (p @ v @ ?d)" using assms(1) run by (metis append.assoc append_Cons append_Nil)
  ultimately show False using free_before [of domain_match p "v @ ?d"] by simp
qed

lemma name_carries_no_link: "\<not> carries_link (sanitize_org_name name)"
proof
  assume "carries_link (sanitize_org_name name)"
  with name_matches_nothing [of name] show False
    unfolding carries_link_def using scheme_carries literal_carries domain_carries by metis
qed

end
