(* ===== verification/NotificationSafety.thy ===== *)
theory NotificationSafety
  imports Notifications OrgNameSafety WebhookSafety Reminders
begin

text \<open>
  What the notifications promise: they are sent only for an organization that asked for them, once, to the address it set, and
  neither the audit log nor the message gives anything else away; and a text in a message is a value of it, not a link.
\<close>

section \<open>Values and links\<close>

text \<open>Reading back the three characters that \<open>_slack_escape\<close> writes as entities.\<close>

fun unescaped :: "utext \<Rightarrow> utext" where
  "unescaped [] = []"
| "unescaped (x # t) =
     (if x = 38 \<and> take 4 t = [97, 109, 112, 59] then 38 # unescaped (drop 4 t)
      else if x = 38 \<and> take 3 t = [108, 116, 59] then 60 # unescaped (drop 3 t)
      else if x = 38 \<and> take 3 t = [103, 116, 59] then 62 # unescaped (drop 3 t)
      else x # unescaped t)"

definition escape_one :: "nat \<Rightarrow> utext" where
  "escape_one x = (if x = 38 then [38, 97, 109, 112, 59] else if x = 60 then [38, 108, 116, 59] else if x = 62 then [38, 103, 116, 59] else [x])"

lemma replace_char_Cons [simp]: "replace_char c w (x # t) = (if x = c then w else [x]) @ replace_char c w t"
  by (simp add: replace_char_def)

lemma replace_char_Nil [simp]: "replace_char c w [] = []"
  by (simp add: replace_char_def)

lemma replace_char_append [simp]: "replace_char c w (s @ t) = replace_char c w s @ replace_char c w t"
  by (simp add: replace_char_def)

lemma slack_escape_each: "slack_escape t = concat (map escape_one t)"
  by (induction t) (auto simp: slack_escape_def escape_one_def utext_of_def)

lemma unescaped_escape: "unescaped (slack_escape t @ r) = t @ unescaped r"
  unfolding slack_escape_each by (induction t) (auto simp: escape_one_def)

lemma unescaped_plain: "38 \<notin> set t \<Longrightarrow> unescaped (t @ r) = t @ unescaped r"
  by (induction t) auto

lemma slack_escape_plain: "60 \<notin> set (slack_escape t)" "62 \<notin> set (slack_escape t)"
  unfolding slack_escape_each by (auto simp: escape_one_def split: if_splits)

definition no_angle :: "utext \<Rightarrow> bool" where "no_angle t = (60 \<notin> set t \<and> 62 \<notin> set t)"

lemma no_angle_append [simp]: "no_angle (s @ t) = (no_angle s \<and> no_angle t)" "no_angle (x # t) = (x \<noteq> 60 \<and> x \<noteq> 62 \<and> no_angle t)" "no_angle []"
  by (auto simp: no_angle_def)

lemma no_angle_escape [simp]: "no_angle (slack_escape t)"
  by (simp add: no_angle_def slack_escape_plain)

lemma no_angle_join: "\<forall>l \<in> set ls. no_angle l \<Longrightarrow> no_angle (join_lines ls)"
proof (cases ls)
  case (Cons l rest)
  moreover have "\<forall>l \<in> set rest. no_angle l \<Longrightarrow> no_angle (concat (map (\<lambda>x. 10 # x) rest))" by (induction rest) auto
  ultimately show "\<forall>l \<in> set ls. no_angle l \<Longrightarrow> no_angle (join_lines ls)" by (simp add: join_lines_def)
qed (simp add: join_lines_def)

lemma fact_labels: "\<forall>f \<in> set (message_facts from_iso m). no_angle (fst f)" "\<forall>f \<in> set (message_facts from_iso m). 38 \<notin> set (fst f)"
  by (auto simp: message_facts_def no_angle_def utext_of_def ERROR_CODE_LABEL_def FINISHED_AT_LABEL_def)

definition fact_line :: "utext \<times> utext \<Rightarrow> utext" where
  "fact_line f = utext_of ''*'' @ fst f @ utext_of '':* '' @ snd f"

lemma unescaped_facts:
  "\<forall>f \<in> set fs. 38 \<notin> set (fst f) \<Longrightarrow>
   unescaped (concat (map (\<lambda>f. 10 # fact_line (fst f, slack_escape (snd f))) fs)) = concat (map (\<lambda>f. 10 # fact_line f) fs)"
proof (induction fs)
  case (Cons f fs)
  then show ?case
    by (simp add: fact_line_def unescaped_plain [of "[_]", simplified] unescaped_plain [of "fst f"] unescaped_escape utext_of_def)
qed simp

lemma unescaped_section:
  "unescaped (slack_section from_iso m) =
     join_lines ((utext_of ''*'' @ headline m @ utext_of ''*'') # map fact_line (message_facts from_iso m))"
proof -
  have facts: "map (\<lambda>x. 10 # (case x of (label, v) \<Rightarrow> utext_of ''*'' @ label @ utext_of '':* '' @ slack_escape v)) fs =
      map (\<lambda>f. 10 # fact_line (fst f, slack_escape (snd f))) fs" for fs
    by (simp add: fact_line_def case_prod_beta)
  show ?thesis
    unfolding slack_section_def join_lines_def list.case map_map comp_def facts
    using unescaped_facts [OF fact_labels(2)] by (simp add: utext_of_def unescaped_escape)
qed

text \<open>A name that is shown as it is: printable, without brackets, not too long, and nothing a client makes a link of.\<close>

definition safe_name :: "string \<Rightarrow> bool" where
  "safe_name n = (n \<noteq> [] \<and> length n \<le> 80 \<and> list_all plain_char n \<and> \<not> carries_link n)"

lemma safe_org_name: "safe_name (sanitize_org_name name)"
  using name_length [of name] plain_name [of name] name_carries_no_link [of name] by (simp add: safe_name_def list_all_iff)

text \<open>A mail that depends on the organization's name only in one place of its body, where such a name stands.\<close>

definition holds_name :: "(string \<Rightarrow> run_mail) \<Rightarrow> bool" where
  "holds_name mail = (\<exists>to subject link pre post. \<forall>name. \<exists>n. safe_name n \<and>
     mail name = \<lparr>ml_to = to, ml_subject = subject, ml_body = pre @ utext_of n @ post, ml_link = link\<rparr>)"

lemma holds_nameI:
  "(\<And>name. mail name = \<lparr>ml_to = to, ml_subject = subject, ml_body = pre @ utext_of (sanitize_org_name name) @ post, ml_link = link\<rparr>) \<Longrightarrow>
   holds_name mail"
  unfolding holds_name_def using safe_org_name by blast

lemma invitation_holds_name: "holds_name (\<lambda>name. invitation_mail origin to name role locale)"
proof (cases "locale = ''en''")
  case True
  show ?thesis
    by (rule holds_nameI [where pre = "utext_of ''You were invited to the organization '' @ [34]"])
      (simp only: invitation_mail_def Let_def True if_True append_assoc simp_thms)
next
  case False
  show ?thesis
    by (rule holds_nameI [where pre = "utext_of ''Zaproszono Ci'' @ [0x119] @ utext_of '' do organizacji '' @ [0x201E]"])
      (simp only: invitation_mail_def Let_def False if_False append_assoc)
qed

lemma reminder_holds_name: "holds_name (\<lambda>name. reminder_mail origin to name locale)"
proof (cases "locale = ''en''")
  case True
  show ?thesis
    by (rule holds_nameI [where pre = "utext_of ''Time for the export for '' @ [34]"])
      (simp only: reminder_mail_def Let_def True if_True append_assoc simp_thms)
next
  case False
  show ?thesis
    by (rule holds_nameI [where pre = "utext_of ''Czas na eksport dla '' @ [0x201E]"])
      (simp only: reminder_mail_def Let_def False if_False append_assoc)
qed

lemma run_finished_holds_name:
  "holds_name (\<lambda>name. run_finished_mail to locale (make_run_message origin e name period sha err))"
proof -
  define m where "m = make_run_message origin e [] period sha err"
  have made: "make_run_message origin e name period sha err = m\<lparr>ms_organization := sanitize_org_name name\<rparr>" for name
    by (simp add: m_def make_run_message_def)
  have same: "ms_succeeded (m\<lparr>ms_organization := n\<rparr>) = ms_succeeded m" "ms_partial (m\<lparr>ms_organization := n\<rparr>) = ms_partial m"
    "headline (m\<lparr>ms_organization := n\<rparr>) = headline m" for n
    by (simp_all add: ms_succeeded_def ms_partial_def headline_def)
  define pre where "pre = (if locale = ''en'' then utext_of ''Organization: '' else utext_of ''Organizacja: '')"
  define rest where "rest = tl (mail_lines (locale = ''en'') (ms_succeeded m) (ms_partial m) m)"
  have "mail_lines (locale = ''en'') (ms_succeeded m) (ms_partial m) (m\<lparr>ms_organization := n\<rparr>) = (pre @ utext_of n) # rest" for n
    by (simp add: mail_lines_def Let_def pre_def rest_def)
  then have "run_finished_mail to locale (m\<lparr>ms_organization := n\<rparr>) =
      \<lparr>ml_to = to, ml_subject = ml_subject (run_finished_mail to locale m),
       ml_body = pre @ utext_of n @ (concat (map (\<lambda>x. 10 # x) rest) @ [10]), ml_link = ms_link m\<rparr>" for n
    by (simp add: run_finished_mail_def Let_def same join_lines_def)
  then show ?thesis unfolding made by (rule holds_nameI)
qed

text \<open>C36. A text in a message is a value of it, not a link: nothing in the section and the notification of a Slack message is an
  angle bracket, of which Slack makes links and mentions, and read back they are exactly the lines of the facts; and the name of
  an organization, in the message about a run and in the mails of an invitation, a reminder and a run, where all else is
  independent of it, is one printable line of at most eighty characters in which no address with a scheme, \<open>www.\<close>,
  \<open>mailto:\<close> or \<open>tel:\<close> starts a word and no domain stands (names of code points up to 255). Asterisks,
  underscores, tildes and backticks are not escaped: a name may still be shown in bold or struck through.\<close>

theorem messages_carry_values_only:
  "no_angle (slack_section from_iso m) \<and> no_angle (slack_fallback m) \<and>
   unescaped (slack_section from_iso m) =
     join_lines ((utext_of ''*'' @ headline m @ utext_of ''*'') # map fact_line (message_facts from_iso m)) \<and>
   unescaped (slack_fallback m) = headline m @ utext_of '': '' @ utext_of (rf_pipeline (ms_event m)) @ utext_of '', '' @
     utext_of (ms_organization m) @ utext_of '' ('' @ status_label m @ utext_of '')'' \<and>
   safe_name (ms_organization (make_run_message origin e name period sha err)) \<and>
   holds_name (\<lambda>name. invitation_mail origin to name role locale) \<and> holds_name (\<lambda>name. reminder_mail origin to name locale) \<and>
   holds_name (\<lambda>name. run_finished_mail to locale (make_run_message origin e name period sha err))"
proof (intro conjI)
  have star: "no_angle (utext_of ''*'')" "no_angle (utext_of '':* '')" by (simp_all add: no_angle_def utext_of_def)
  show "no_angle (slack_section from_iso m)"
    unfolding slack_section_def
    by (rule no_angle_join) (use fact_labels(1) star in \<open>auto simp: case_prod_beta\<close>)
  show "no_angle (slack_fallback m)" by (simp add: slack_fallback_def)
  show "unescaped (slack_fallback m) = headline m @ utext_of '': '' @ utext_of (rf_pipeline (ms_event m)) @ utext_of '', '' @
     utext_of (ms_organization m) @ utext_of '' ('' @ status_label m @ utext_of '')''"
    unfolding slack_fallback_def using unescaped_escape [where r = "[]"] by simp
  show "safe_name (ms_organization (make_run_message origin e name period sha err))"
    using safe_org_name by (simp add: make_run_message_def)
qed (rule unescaped_section invitation_holds_name reminder_holds_name run_finished_holds_name)+

section \<open>Who is told\<close>

lemma notices_of_schedule:
  assumes "n \<in> set (notices_of maintenance e db)"
  obtains s where "\<not> maintenance" "get_schedule (rf_org e) db = Some s"
    "n = MailNotice e \<and> os_notify_on_finish s \<or> (\<exists>url kind. n = ChatNotice e url kind \<and> os_webhook_url s = Some url \<and> url \<noteq> [])"
proof -
  from assms obtain s where s: "get_schedule (rf_org e) db = Some s"
    by (cases "get_schedule (rf_org e) db") (auto simp: notices_of_def split: if_splits)
  show thesis by (rule that [OF _ s]) (use assms s in \<open>auto simp: notices_of_def split: if_splits option.splits\<close>)
qed

lemma posted_targets:
  assumes "post_json with_host resolver send False url = (r, used)" and t: "t \<in> set used"
  shows "length used \<le> 3 \<and> (\<exists>host port. validate_url False url = Inr (host, port) \<and>
    (is_public_ip host \<and> tg_url t = url \<or>
     (\<exists>addresses. resolver host port = Some addresses \<and> (\<exists>a \<in> set addresses. is_public_ip a \<and> tg_url t = with_host url a))))"
proof -
  from assms obtain host port addresses where v: "validate_url False url = Inr (host, port)"
    and a: "resolve_public resolver host port = Inr addresses"
    and sent: "send_first send None (pinned_targets with_host url host addresses) = (r, used)"
    by (auto simp: post_json_def split: sum.splits)
  from send_first_used [OF sent] have used: "prefix used (pinned_targets with_host url host addresses)" by blast
  with t have at: "t \<in> set (pinned_targets with_host url host addresses)" by (auto dest: set_mono_prefix)
  have "length (pinned_targets with_host url host addresses) \<le> 3"
    by (simp add: pinned_targets_def MAX_PINNED_ADDRESSES_def Let_def)
  with used have "length used \<le> 3" by (metis le_trans prefix_length_le)
  moreover have "\<forall>a \<in> set addresses. is_public_ip a"
    using a by (auto simp: resolve_public_def list_all_iff split: option.splits if_splits)
  moreover have "is_ip_literal host \<and> addresses = [host] \<and> tg_url t = url \<or>
      resolver host port = Some addresses \<and> (\<exists>a \<in> set addresses. tg_url t = with_host url a)"
    using a at by (auto simp: resolve_public_def pinned_targets_def Let_def split: option.splits if_splits dest: in_set_takeD)
  ultimately show ?thesis using v by auto
qed

text \<open>The answer to a chat notice depends on the client only: two addresses it answers alike.\<close>

definition answers_alike :: "notify_conf \<Rightarrow> (string \<Rightarrow> string \<Rightarrow> string) \<Rightarrow> resolver \<Rightarrow> (json \<Rightarrow> target \<Rightarrow> reply) \<Rightarrow> string \<Rightarrow> string \<Rightarrow> bool" where
  "answers_alike conf with_host resolver post url url' =
     (\<forall>payload. fst (post_json with_host resolver (post payload) (nc_dev conf) url) =
        fst (post_json with_host resolver (post payload) (nc_dev conf) url'))"

lemma notify_chat_secret:
  assumes "answers_alike conf with_host resolver post url url'"
  shows "snd (notify_chat conf with_host resolver post ev now e url kind db) =
    snd (notify_chat conf with_host resolver post ev now e url' kind db)"
  using assms by (auto simp: notify_chat_def answers_alike_def split: option.split sum.split prod.split) (metis fst_conv)+

text \<open>What a notice adds to the audit log: one event, of the organization, about the run.\<close>

definition told_once :: "string \<Rightarrow> run_finished \<Rightarrow> cdb \<Rightarrow> cdb \<Rightarrow> bool" where
  "told_once action e db db1 =
     (\<exists>ev now meta. db1 = db\<lparr>audit_events := audit_events db @
        [new_event ev now (Some (rf_org e)) ''system'' None action (Some (''run:'' @ rf_run e)) meta None]\<rparr>)"

lemma notify_chat_log:
  assumes "notify_chat conf with_host resolver post ev now e url kind db = (used, db1)"
  shows "db1 = db \<and> used = [] \<or> \<not> nc_maintenance conf \<and> told_once ''schedule.webhook_notified'' e db db1 \<and>
    (\<exists>payload r. post_json with_host resolver (post payload) (nc_dev conf) url = (r, used))"
proof -
  have known: "''schedule.webhook_notified'' \<in> set AUDIT_ACTIONS_V1" by (simp add: AUDIT_ACTIONS_V1_def)
  show ?thesis
    using assms
    by (auto simp: notify_chat_def told_once_def record_event_known [OF known] keep_event_def
        split: if_splits option.splits sum.splits prod.splits)
qed

text \<open>C37. A chat notice goes where the organization asked and nowhere else: outside development it is sent only while no
  maintenance is on, to the address of the schedule of the organization whose run has finished, at most three connections are tried,
  each to a public address, and the only trace is one audit event of that organization, the same for every address
  that the client answers alike: the secret address is not in it.\<close>

theorem chat_notice_goes_where_asked:
  assumes notice: "ChatNotice e' url kind \<in> set (notices_of (nc_maintenance conf) e db0)" and dev: "\<not> nc_dev conf"
    and sent: "notify_chat conf with_host resolver post ev now e' url kind db = (used, db1)"
  shows "\<not> nc_maintenance conf \<and> e' = e \<and> (\<exists>s. get_schedule (rf_org e) db0 = Some s \<and> os_webhook_url s = Some url) \<and>
    (\<forall>t \<in> set used. length used \<le> 3 \<and> (\<exists>host port. validate_url False url = Inr (host, port) \<and>
      (is_public_ip host \<and> tg_url t = url \<or>
       (\<exists>addresses. resolver host port = Some addresses \<and> (\<exists>a \<in> set addresses. is_public_ip a \<and> tg_url t = with_host url a))))) \<and>
    (db1 = db \<and> used = [] \<or> told_once ''schedule.webhook_notified'' e db db1) \<and>
    (\<forall>url'. answers_alike conf with_host resolver post url url' \<longrightarrow>
       snd (notify_chat conf with_host resolver post ev now e' url' kind db) = db1)"
proof -
  from notice obtain s where "\<not> nc_maintenance conf" and own: "e' = e"
    and "get_schedule (rf_org e) db0 = Some s" "os_webhook_url s = Some url" by (auto elim: notices_of_schedule)
  moreover note log = notify_chat_log [OF sent]
  have "\<forall>t \<in> set used. length used \<le> 3 \<and> (\<exists>host port. validate_url False url = Inr (host, port) \<and>
      (is_public_ip host \<and> tg_url t = url \<or>
       (\<exists>addresses. resolver host port = Some addresses \<and> (\<exists>a \<in> set addresses. is_public_ip a \<and> tg_url t = with_host url a))))"
    (is "\<forall>t \<in> _. ?public t")
  proof
    fix t assume t: "t \<in> set used"
    with log obtain payload r where "post_json with_host resolver (post payload) (nc_dev conf) url = (r, used)" by auto
    with dev have "post_json with_host resolver (post payload) False url = (r, used)" by simp
    from posted_targets [OF this t] show "?public t" .
  qed
  moreover have "\<forall>url'. answers_alike conf with_host resolver post url url' \<longrightarrow>
       snd (notify_chat conf with_host resolver post ev now e' url' kind db) = db1"
    using notify_chat_secret sent by (metis snd_conv)
  ultimately show ?thesis using log own by blast
qed

section \<open>An example\<close>

definition demo_finished :: run_finished where
  "demo_finished = \<lparr>rf_org = ''org'', rf_job = ''j'', rf_run = ''r'', rf_pipeline = ''p'', rf_status = ''succeeded'',
     rf_run_status = ''PARTIAL'', rf_finished_at = ''2026''\<rparr>"

definition demo_chat :: cdb where
  "demo_chat = (ap_db demo_app)\<lparr>org_schedules := [(default_schedule ''org'')\<lparr>os_webhook_url := Some demo_url, os_webhook_kind := ''slack''\<rparr>]\<rparr>"

definition demo_notify :: notify_conf where
  "demo_notify = \<lparr>nc_maintenance = False, nc_origin = None, nc_dev = False, nc_from_iso = (\<lambda>s. None)\<rparr>"

lemma demo_notice: "notices_of False demo_finished demo_chat = [ChatNotice demo_finished demo_url ''slack'']"
  by (simp add: notices_of_def demo_finished_def demo_chat_def get_schedule_def sql_first_def default_schedule_def demo_url_def)

theorem chat_notice_goes_where_asked_witness:
  "\<exists>t db1. notify_chat demo_notify (\<lambda>u a. a) (\<lambda>h p. Some [dotted 8 8 8 8]) (\<lambda>p t. Answered 200) ''ev'' 5 demo_finished demo_url
      ''slack'' demo_chat = ([t], db1) \<and> tg_url t = dotted 8 8 8 8 \<and> told_once ''schedule.webhook_notified'' demo_finished demo_chat db1"
proof -
  have name: "\<not> is_ip_literal ''a.example''"
    by (simp add: is_ip_literal_def ip_address_def parse_v4_def parse_octet_def parse_v6_def py_partition_def v6_parts_def Let_def)
  define ts where "ts = pinned_targets (\<lambda>u a. a) demo_url ''a.example'' [dotted 8 8 8 8]"
  then obtain t where ts: "ts = [t]" and url: "tg_url t = dotted 8 8 8 8"
    using name by (auto simp: pinned_targets_def MAX_PINNED_ADDRESSES_def Let_def)
  have post: "post_json (\<lambda>u a. a) (\<lambda>h p. Some [dotted 8 8 8 8]) (\<lambda>t. Answered 200) False demo_url = ((Some 200, None), [t])"
    using ts name eight_public by (simp add: post_json_def demo_url_valid resolve_public_def ts_def)
  obtain og where org: "get_org (rf_org demo_finished) demo_chat = Some og"
    by (simp add: get_org_def demo_finished_def demo_chat_def demo_app_def demo_org_def sql_first_def)
  obtain used db1 where run: "notify_chat demo_notify (\<lambda>u a. a) (\<lambda>h p. Some [dotted 8 8 8 8]) (\<lambda>p t. Answered 200) ''ev'' 5 demo_finished
      demo_url ''slack'' demo_chat = (used, db1)" by fastforce
  then have used: "used = [t]" using post by (simp add: notify_chat_def org build_payload_def demo_notify_def)
  have "\<not> nc_dev demo_notify"
    and "ChatNotice demo_finished demo_url ''slack'' \<in> set (notices_of (nc_maintenance demo_notify) demo_finished demo_chat)"
    by (simp_all add: demo_notify_def demo_notice)
  from chat_notice_goes_where_asked [OF this(2) this(1) run] used
  have "told_once ''schedule.webhook_notified'' demo_finished demo_chat db1" by auto
  with run used url show ?thesis by blast
qed

end
