(* ===== verification/Spec2Isabelle.thy ===== *)
theory Spec2Isabelle
  imports OAuthExamples Identifiers ExecutorSafety Orgs Streams WebhookSafety Reminders RetentionSafety RestoreSafety ReconcileSafety Policy OrderSafety XlsxSafety UploadExamples DataHealthSafety EvidenceSafety McpGatewaySafety NotificationSafety
begin

text \<open>
  A verification development for the DaaS engine: a service that turns an organization's order exports and collector
  packages into signed reports. Each organization is a tenant with members, API keys, OAuth clients, uploads, jobs, runs,
  webhooks and a schedule. The development models the control plane under \<^verbatim>\<open>src/app/control\<close> and \<^verbatim>\<open>src/app/api/v1\<close>, the guards
  under \<^verbatim>\<open>src/app/core\<close> and the import of client files under \<^verbatim>\<open>src/app/sources\<close>, and proves what makes them correct.

  \<^bold>\<open>How the program is modelled.\<close> The database of the control plane is the record \<open>cdb\<close> of \<open>ControlModel\<close>: one list of rows
  per table of \<^verbatim>\<open>control/models.py\<close>, one record per class. A handler is a function from the database (or the \<open>app\<close>: database
  and rate limiter) to a result and the state after it; an exception is a value (\<open>exc\<close>), and what was not committed before it
  is rolled back. Guarded \<open>UPDATE\<close> statements are \<open>sql_update\<close> with \<open>rowcount\<close>; a primary key that is taken makes
  \<open>sql_insert\<close> fail. Time, fresh identifiers and random bytes are arguments. Concurrent processes are step relations or
  functions on events, and their runs are arbitrary interleavings. Code outside the repository is a parameter: SHA-256 and
  HMAC, the name resolver and the HTTP client, the time zone database, the file system's resolution of paths and its errors,
  the codecs, \<open>csv.Sniffer\<close>, \<open>zipfile\<close>, \<open>openpyxl\<close>, pandas' reader and date parsers, SQLite.

  \<^bold>\<open>The theories, by part of the program.\<close>
  \<^item> Shared: \<open>Prelude\<close> (tables, time, the locales \<open>machine\<close>, \<open>monotone_machine\<close>, \<open>transitions\<close> for invariants of runs),
    \<open>PyText\<close> (Python's string methods), \<open>Paging\<close> (pages behind a cursor), \<open>NetAddr\<close> (addresses and URLs).
  \<^item> Control plane: \<open>ControlModel\<close>, \<open>Scopes\<close> (\<^verbatim>\<open>scopes.py\<close>, \<^verbatim>\<open>plans.py\<close>), \<open>AuditTrail\<close> (\<^verbatim>\<open>audit.py\<close>), \<open>Identifiers\<close>
    (\<^verbatim>\<open>ids.py\<close>), \<open>Security\<close> (\<^verbatim>\<open>security.py\<close>, with the locale \<open>signed_codec\<close>), \<open>Service\<close> (\<^verbatim>\<open>service.py\<close>), \<open>RateLimit\<close>
    (\<^verbatim>\<open>core/ratelimit.py\<close>).
  \<^item> Access: \<open>Access\<close> (\<^verbatim>\<open>v1/deps.py\<close>, \<^verbatim>\<open>v1/api_keys.py\<close>), \<open>Login\<close> (\<^verbatim>\<open>v1/auth.py\<close>), \<open>Members\<close> (\<^verbatim>\<open>v1/members.py\<close>),
    \<open>Tenancy\<close> (\<^verbatim>\<open>control/tenancy.py\<close>), \<open>Orgs\<close> (\<^verbatim>\<open>v1/orgs.py\<close>).
  \<^item> OAuth (\<^verbatim>\<open>control/oauth.py\<close>, \<^verbatim>\<open>v1/oauth.py\<close>): \<open>OAuthTokens\<close> and \<open>OAuthConsent\<close> are the provider, \<open>OAuthInvariant\<close> and
    \<open>OAuthHandlers\<close> its invariant handler by handler, \<open>OAuthRuns\<close> the machine of interleaved requests, \<open>OAuthSafety\<close> the
    guarantees, \<open>OAuthExamples\<close> concrete runs.
  \<^item> Jobs: \<open>Jobs\<close> (\<^verbatim>\<open>v1/jobs.py\<close>, \<^verbatim>\<open>v1/plan_guard.py\<close>, \<^verbatim>\<open>v1/usage.py\<close>), \<open>Streams\<close> (the event stream), \<open>Executor\<close>,
    \<open>ExecutorInvariant\<close>, \<open>ExecutorSafety\<close> (\<^verbatim>\<open>control/executor.py\<close>): tasks as phases, the organization's lock, the slots, recovery
    after a restart, and the refinement of the abstract life cycle of a job.
  \<^item> Around a run: \<open>Webhooks\<close>, \<open>WebhookSafety\<close> (\<^verbatim>\<open>control/webhooks.py\<close>), \<open>Schedule\<close>, \<open>Reminders\<close> (\<^verbatim>\<open>control/schedule.py\<close>),
    \<open>ReportFiles\<close>, \<open>Reports\<close> (\<^verbatim>\<open>v1/runs.py\<close>, \<^verbatim>\<open>control/report_paths.py\<close>), \<open>Retention\<close>, \<open>RetentionSafety\<close>
    (\<^verbatim>\<open>control/retention.py\<close>), \<open>DataHealth\<close>, \<open>DataHealthSafety\<close> (\<^verbatim>\<open>v1/data_health.py\<close>, \<^verbatim>\<open>v1/audit.py\<close>).
  \<^item> After a restore: \<open>Restore\<close>, \<open>RestoreSafety\<close> (\<^verbatim>\<open>control/restore.py\<close>, \<^verbatim>\<open>control/restore_members.py\<close>), \<open>Reconcile\<close>,
    \<open>ReconcileRows\<close>, \<open>ReconcileSafety\<close> (\<^verbatim>\<open>control/restore_reconcile.py\<close>); the locale \<open>row_repair\<close> is interpreted once per table
    and column the reconciliation repairs.
  \<^item> Files of clients: \<open>NumberText\<close>, \<open>Columns\<close>, \<open>OrderTable\<close>, \<open>ClientFile\<close> (\<^verbatim>\<open>sources/csv_mapper.py\<close>,
    \<^verbatim>\<open>sources/xlsx_formulas.py\<close>), \<open>CsvText\<close> (Python's \<open>csv\<close> character by character), \<open>UploadGuard\<close> (\<^verbatim>\<open>core/upload_guard.py\<close>),
    \<open>XlsxImport\<close> (\<^verbatim>\<open>core/xlsx_import.py\<close>), \<open>Uploads\<close> (\<^verbatim>\<open>v1/uploads.py\<close>), with their promises in \<open>NumberSafety\<close>,
    \<open>ColumnSafety\<close>, \<open>OrderSafety\<close>, \<open>CsvSafety\<close>, \<open>XlsxSafety\<close>, \<open>UploadSafety\<close> and an upload followed through in \<open>UploadExamples\<close>.
  \<^item> Packages of the UKSC collector: \<open>Evidence\<close> (\<^verbatim>\<open>sources/uksc_source.py\<close>, \<^verbatim>\<open>transforms/uksc_transform.py\<close>), with the proof
    that the canonical JSON determines the evidence and what the hashes give in \<open>EvidenceSafety\<close>.
  \<^item> Agents: \<open>Policy\<close> (\<^verbatim>\<open>core/policy.py\<close>), \<open>McpGateway\<close>, \<open>McpGatewaySafety\<close> (\<^verbatim>\<open>mcp_server/gateway.py\<close>).
  \<^item> Messages: \<open>OrgNames\<close> (\<open>sanitize_org_name\<close>), \<open>OrgNameSafety\<close> (its two patterns as instances of the locale \<open>text_matcher\<close>,
    neither of which matches in a name any more), \<open>Notifications\<close>, \<open>NotificationSafety\<close> (\<^verbatim>\<open>control/mailer.py\<close>,
    \<^verbatim>\<open>control/chat_messages.py\<close>, \<^verbatim>\<open>control/notifications.py\<close>).

  \<^bold>\<open>How the parts interact.\<close> A request passes \<open>Access\<close> (authentication, the organization's scopes), the plan guard of \<open>Jobs\<close> and
  a rate limit, then its handler; every handler records its event through \<open>AuditTrail\<close>. An upload runs the checks of
  \<open>UploadGuard\<close> and \<open>XlsxImport\<close>, the policy, the mapper, and may queue a job through the same \<open>queue_job\<close> as the jobs route. The
  executor claims queued jobs, and its outcome feeds usage, webhooks, reports and, later, retention.

  \<^bold>\<open>What the lemmas show.\<close> Per handler, that it keeps the invariant of its tables and what each branch returns; per machine, an
  invariant of every run by induction on the events, from which the safety properties follow (tokens, links, reminder slots,
  jobs, streams, limits); refinement of the jobs' life cycle; equivalence of optimised routines with plain ones (the vectorised
  mapper with one row at a time, the address filter with the ranges it stands for); round trips (cookies, the converted CSV,
  amounts, the canonical JSON); termination of the loops over identifiers, token trees and reminder slots; and for errors, that nothing is left
  behind, or what is.

  \<^bold>\<open>Bounds and fuel.\<close> Loops are structural recursions or \<open>function\<close>s with a measure. Fuel appears where the code's loop is bounded
  by what it reads: slugs (one candidate more than there are organizations), the search for a reminder slot (fifteen days,
  which \<open>next_reminder_is_next_slot\<close> shows to be enough), following cursors (one request more than rows), the levels of a token
  tree (as many as tokens). Machine integers occur as 64-bit quantities of the order table and as the 128 bits of an address,
  written out with their bounds.

  \<^bold>\<open>Abstractions.\<close> Amounts and clock readings are rationals, not floats. A character of \<open>string\<close> is a byte or a code point up to
  255; cells of client files are lists of code points. Statements of one transaction run without interleaving, as SQLite and
  the row locks of the deployment provide; interleavings are between transactions. Log lines and metrics are left out.

  \<^bold>\<open>Not modelled.\<close> The tools of the MCP server (descriptions and prompts around calls of the modelled handlers and of DuckDB queries), the
  pipelines and transforms over data frames (pandas), the tenant's analytical database (SQL text run by DuckDB), the texts and HTML of reports,
  the JSON encoder of chat messages, the legacy routes but for their use of the policy, the move of old
  files (\<^verbatim>\<open>control/migrate_runtime.py\<close>), and the wiring of the web framework, logging, e-mail transport and command line.
\<close>

end
